(* ===== verification/Prelude.thy ===== *)
theory Prelude
  imports Complex_Main "HOL-Library.AList" "HOL-Library.Sublist"
    "HOL-Library.List_Lexorder" "HOL-Library.Char_ord"
begin

text \<open>
  What every component of the model shares: Python values (floats with their infinities
  and NaN, JSON values, insertion-ordered dictionaries), the string and rounding
  operations of the standard library that the source calls, the generic interfaces
  (a keyed store, a guarded state machine, a generation counter) and the lemma
  collections the component theories fill.
\<close>

named_theorems store_simps \<open>equations of insertion-ordered dictionaries\<close>
named_theorems py_defs \<open>definitions of modelled standard-library operations\<close>

section \<open>Floats\<close>

text \<open>
  A Python float is a finite number or one of the three values that arithmetic code has
  to survive. Finite floats are rationals: the rounding of single operations is not
  modelled. Comparisons follow IEEE 754, so every comparison with NaN is false.
\<close>

datatype pyfloat = Fin rat | PosInf | NegInf | NaN

fun flt_lt :: "pyfloat \<Rightarrow> pyfloat \<Rightarrow> bool" where
  "flt_lt NaN _ = False"
| "flt_lt _ NaN = False"
| "flt_lt (Fin a) (Fin b) = (a < b)"
| "flt_lt NegInf b = (b \<noteq> NegInf)"
| "flt_lt PosInf _ = False"
| "flt_lt (Fin _) PosInf = True"
| "flt_lt (Fin _) NegInf = False"

definition flt_le :: "pyfloat \<Rightarrow> pyfloat \<Rightarrow> bool" where
  "flt_le a b \<longleftrightarrow> flt_lt a b \<or> (a = b \<and> a \<noteq> NaN)"

fun is_finite :: "pyfloat \<Rightarrow> bool" where
  "is_finite (Fin _) = True"
| "is_finite _ = False"

lemma flt_le_Fin [simp]: "flt_le (Fin a) (Fin b) \<longleftrightarrow> a \<le> b"
  by (auto simp: flt_le_def)

lemma flt_le_NaN [simp]: "\<not> flt_le NaN b" "\<not> flt_le b NaN"
  by (cases b; simp add: flt_le_def)+

lemma flt_lt_irrefl [simp]: "\<not> flt_lt a a"
  by (cases a) auto

lemma flt_lt_antisym: "flt_lt a b \<Longrightarrow> \<not> flt_lt b a"
  by (cases a; cases b) auto

text \<open>Python's \<open>round\<close>: to the nearest value, ties to the even one.\<close>

definition round_half_even :: "rat \<Rightarrow> int" where
  "round_half_even q =
     (let f = \<lfloor>q\<rfloor>; d = q - of_int f
      in if d < 1/2 then f else if d > 1/2 then f + 1 else if even f then f else f + 1)"

definition py_round :: "nat \<Rightarrow> rat \<Rightarrow> rat" where
  "py_round n q = of_int (round_half_even (q * 10 ^ n)) / 10 ^ n"

lemma round_half_even_of_int [simp]: "round_half_even (of_int k) = k"
  by (simp add: round_half_even_def)

lemma round_half_even_numeral [simp]:
  "round_half_even (numeral k) = numeral k" "round_half_even 0 = 0" "round_half_even 1 = 1"
  using round_half_even_of_int [of "numeral k"] round_half_even_of_int [of 0]
    round_half_even_of_int [of 1] by simp_all

lemma round_half_even_mono: "a \<le> b \<Longrightarrow> round_half_even a \<le> round_half_even b"
proof -
  assume ab: "a \<le> b"
  then have fl: "\<lfloor>a\<rfloor> \<le> \<lfloor>b\<rfloor>" by (rule floor_mono)
  show ?thesis
  proof (cases "\<lfloor>a\<rfloor> = \<lfloor>b\<rfloor>")
    case True
    with ab show ?thesis by (auto simp: round_half_even_def Let_def)
  next
    case False
    with fl have "\<lfloor>a\<rfloor> + 1 \<le> \<lfloor>b\<rfloor>" by simp
    then show ?thesis by (auto simp: round_half_even_def Let_def)
  qed
qed

lemma py_round_mono: "a \<le> b \<Longrightarrow> py_round n a \<le> py_round n b"
  unfolding py_round_def
  by (intro divide_right_mono) (simp_all add: round_half_even_mono mult_right_mono)

lemma py_round_0 [simp]: "py_round n 0 = 0"
  by (simp add: py_round_def)

lemma py_round_1 [simp]: "py_round n 1 = 1"
proof -
  have "round_half_even (10 ^ n) = 10 ^ n"
    using round_half_even_of_int [of "10 ^ n"] by simp
  then show ?thesis by (simp add: py_round_def)
qed

section \<open>JSON values and insertion-ordered dictionaries\<close>

type_synonym ('k, 'v) pydict = "('k \<times> 'v) list"

datatype json =
    JNull
  | JBool bool
  | JInt int
  | JFloat pyfloat
  | JStr string
  | JList "json list"
  | JDict "(string \<times> json) list"

type_synonym json_object = "(string, json) pydict"

definition dget :: "json_object \<Rightarrow> string \<Rightarrow> json" where
  "dget d k = (case map_of d k of None \<Rightarrow> JNull | Some v \<Rightarrow> v)"

text \<open>The truth value that \<open>if\<close>, \<open>or\<close> and \<open>bool()\<close> see.\<close>

fun truthy :: "json \<Rightarrow> bool" where
  "truthy JNull = False"
| "truthy (JBool b) = b"
| "truthy (JInt i) = (i \<noteq> 0)"
| "truthy (JFloat f) = (f \<noteq> Fin 0)"
| "truthy (JStr s) = (s \<noteq> [])"
| "truthy (JList xs) = (xs \<noteq> [])"
| "truthy (JDict d) = (d \<noteq> [])"

text \<open>
  \<open>AList.update\<close> is \<open>d[k] = v\<close>: an existing key keeps its place, a new one goes last;
  \<open>AList.delete\<close> is \<open>d.pop(k, None)\<close>; \<open>map_of\<close> is \<open>d.get(k)\<close>.
\<close>

lemma map_of_update [simp, store_simps]:
  "map_of (AList.update k v d) = (map_of d)(k \<mapsto> v)"
  by (rule update_conv')

lemma map_of_delete [simp, store_simps]:
  "map_of (AList.delete k d) = (map_of d)(k := None)"
  by (rule delete_conv')

lemma keys_update_present [store_simps]:
  "k \<in> fst ` set d \<Longrightarrow> map fst (AList.update k v d) = map fst d"
  by (induction d) auto

lemma keys_update_fresh [store_simps]:
  "k \<notin> fst ` set d \<Longrightarrow> AList.update k v d = d @ [(k, v)]"
  by (induction d) auto

lemma distinct_keys_delete [intro]:
  "distinct (map fst d) \<Longrightarrow> distinct (map fst (AList.delete k d))"
  by (rule distinct_delete)

lemma distinct_keys_filter [intro]:
  "distinct (map fst d) \<Longrightarrow> distinct (map fst (filter P d))"
  by (simp add: distinct_map_filter)

lemma set_update_cases:
  "p \<in> set (AList.update k v d) \<Longrightarrow> p = (k, v) \<or> (p \<in> set d)"
  by (induction d) (auto split: if_splits)

lemma set_update_distinct:
  "distinct (map fst d) \<Longrightarrow>
     set (AList.update k v d) = insert (k, v) {p \<in> set d. fst p \<noteq> k}"
  by (induction d) (auto simp: image_iff)

lemma map_of_Some_in_set: "map_of d k = Some v \<Longrightarrow> (k, v) \<in> set d"
  by (rule map_of_SomeD)

text \<open>The interface of a store of keyed records, and what its clients get from the laws.\<close>

locale keyed_store =
  fixes lookup :: "'m \<Rightarrow> 'k \<Rightarrow> 'v option"
    and put :: "'k \<Rightarrow> 'v \<Rightarrow> 'm \<Rightarrow> 'm"
    and pop :: "'k \<Rightarrow> 'm \<Rightarrow> 'm"
    and empty :: 'm
  assumes lookup_empty: "lookup empty k = None"
    and lookup_put: "lookup (put k v m) = (lookup m)(k \<mapsto> v)"
    and lookup_pop: "lookup (pop k m) = (lookup m)(k := None)"
begin

lemma put_then_pop: "lookup m k = None \<Longrightarrow> lookup (pop k (put k v m)) = lookup m"
  by (simp add: lookup_put lookup_pop fun_upd_idem)

lemma pop_twice: "lookup (pop k (pop k m)) k = None"
  by (simp add: lookup_pop)

lemma put_keeps_others: "k \<noteq> k' \<Longrightarrow> lookup (put k v m) k' = lookup m k'"
  by (simp add: lookup_put)

lemma put_preserves_all:
  "P v \<Longrightarrow> (\<And>k w. lookup m k = Some w \<Longrightarrow> P w) \<Longrightarrow> lookup (put k v m) k' = Some w \<Longrightarrow> P w"
  by (auto simp: lookup_put split: if_splits)

end

interpretation pydict_store: keyed_store map_of AList.update AList.delete "[]"
  by unfold_locales simp_all

section \<open>Strings\<close>

text \<open>Strings hold Latin-1 characters; the operations are those of Python's \<open>str\<close>.\<close>

definition removeprefix :: "string \<Rightarrow> string \<Rightarrow> string" where
  "removeprefix p s = (if prefix p s then drop (length p) s else s)"

definition is_space :: "char \<Rightarrow> bool" where
  "is_space c = (let n = (of_char c :: nat) in
     (9 \<le> n \<and> n \<le> 13) \<or> (28 \<le> n \<and> n \<le> 32) \<or> n = 133 \<or> n = 160)"

definition strip :: "string \<Rightarrow> string" where
  "strip s = rev (dropWhile is_space (rev (dropWhile is_space s)))"

definition lower_char :: "char \<Rightarrow> char" where
  "lower_char c = (let n = (of_char c :: nat) in
     if (65 \<le> n \<and> n \<le> 90) \<or> (192 \<le> n \<and> n \<le> 222 \<and> n \<noteq> 215) then char_of (n + 32) else c)"

definition lower :: "string \<Rightarrow> string" where
  "lower s = map lower_char s"

fun nat_digits :: "nat \<Rightarrow> string" where
  "nat_digits n = (if n < 10 then [char_of (48 + n)]
     else nat_digits (n div 10) @ [char_of (48 + n mod 10)])"

declare nat_digits.simps [simp del]

definition str_of_nat :: "nat \<Rightarrow> string" where
  "str_of_nat n = nat_digits n"

definition str_of_int :: "int \<Rightarrow> string" where
  "str_of_int i = (if i < 0 then ''-'' @ str_of_nat (nat (- i)) else str_of_nat (nat i))"

text \<open>\<open>s.split()\<close>, the word read so far first\<close>

fun split_words :: "string \<Rightarrow> string \<Rightarrow> string list" where
  "split_words cur [] = (if cur = [] then [] else [cur])"
| "split_words cur (c # cs) =
     (if is_space c then (if cur = [] then split_words [] cs else cur # split_words [] cs)
      else split_words (cur @ [c]) cs)"

fun join :: "string \<Rightarrow> string list \<Rightarrow> string" where
  "join sep [] = []"
| "join sep [x] = x"
| "join sep (x # xs) = x @ sep @ join sep xs"

lemma removeprefix_absent [simp]: "\<not> prefix p s \<Longrightarrow> removeprefix p s = s"
  by (simp add: removeprefix_def)

lemma removeprefix_append [simp]: "removeprefix p (p @ s) = s"
  by (simp add: removeprefix_def)

definition is_digit_char :: "char \<Rightarrow> bool" where
  "is_digit_char c = (let n = (of_char c :: nat) in 48 \<le> n \<and> n \<le> 57)"

lemma is_digit_char_of: "d < 10 \<Longrightarrow> is_digit_char (char_of (48 + d :: nat))"
  by (simp add: is_digit_char_def Let_def)

lemma nat_digits_are_digits: "c \<in> set (nat_digits n) \<Longrightarrow> is_digit_char c"
proof (induction n rule: nat_digits.induct)
  case (1 n)
  show ?case
  proof (cases "n < 10")
    case True
    with "1.prems" have "c = char_of (48 + n)" by (subst (asm) nat_digits.simps) simp
    with True show ?thesis by (simp add: is_digit_char_of)
  next
    case False
    with "1.prems" have "c \<in> set (nat_digits (n div 10)) \<or> c = char_of (48 + n mod 10)"
      by (subst (asm) nat_digits.simps) auto
    with "1.IH" False show ?thesis by (auto simp: is_digit_char_of)
  qed
qed

section \<open>Guarded state machines\<close>

text \<open>
  The interface of a controller that moves between states along an allow-list and keeps
  the history of the states it entered. \<open>attempt\<close> refuses (\<open>Inl\<close>) or returns the moved
  controller.
\<close>

locale guarded_machine =
  fixes allowed :: "'s \<Rightarrow> 's \<Rightarrow> bool"
    and attempt :: "'m \<Rightarrow> 's \<Rightarrow> 'e + 'm"
    and current :: "'m \<Rightarrow> 's"
    and trail :: "'m \<Rightarrow> 's list"
  assumes refuses: "\<not> allowed (current m) t \<Longrightarrow> \<exists>e. attempt m t = Inl e"
    and moves: "allowed (current m) t \<Longrightarrow>
      \<exists>m'. attempt m t = Inr m' \<and> current m' = t \<and> trail m' = trail m @ [t]"
begin

definition settle :: "'m \<Rightarrow> 's \<Rightarrow> 'm" where
  "settle m t = (case attempt m t of Inl _ \<Rightarrow> m | Inr m' \<Rightarrow> m')"

fun drive :: "'m \<Rightarrow> 's list \<Rightarrow> 'm" where
  "drive m [] = m"
| "drive m (t # ts) = drive (settle m t) ts"

definition coherent :: "'m \<Rightarrow> bool" where
  "coherent m \<longleftrightarrow> trail m \<noteq> [] \<and> last (trail m) = current m \<and>
     successively allowed (trail m)"

lemma settle_coherent: "coherent m \<Longrightarrow> coherent (settle m t)"
proof (cases "allowed (current m) t")
  case True
  assume c: "coherent m"
  from moves [OF True] obtain m' where
    m': "attempt m t = Inr m'" "current m' = t" "trail m' = trail m @ [t]" by blast
  with c True show ?thesis
    by (auto simp: coherent_def settle_def successively_append_iff)
next
  case False
  assume "coherent m"
  with refuses [OF False] show ?thesis by (auto simp: settle_def)
qed

lemma drive_coherent: "coherent m \<Longrightarrow> coherent (drive m ts)"
  by (induction ts arbitrary: m) (auto intro: settle_coherent)

lemma drive_step_allowed:
  assumes "coherent m" and "trail (drive m ts) = xs @ [a, b] @ ys"
  shows "allowed a b"
proof -
  from drive_coherent [OF assms(1)] have "successively allowed (trail (drive m ts))"
    by (simp add: coherent_def)
  with assms(2) show ?thesis by (auto simp: successively_append_iff)
qed

lemma drive_extends: "\<exists>ys. trail (drive m ts) = trail m @ ys"
proof (induction ts arbitrary: m)
  case Nil
  show ?case by simp
next
  case (Cons t ts)
  have "\<exists>zs. trail (settle m t) = trail m @ zs"
    using moves [of m t] refuses [of m t] by (cases "allowed (current m) t") (auto simp: settle_def)
  with Cons.IH [of "settle m t"] show ?case by auto
qed

end

section \<open>Generation counters\<close>

text \<open>
  A progress authority hands out generations; a token that carries an older generation
  than the current one is stale. Clients use two operations and one observer.
\<close>

locale generation_source =
  fixes generation :: "'a \<Rightarrow> int"
    and advance :: "'a \<Rightarrow> 'a"
  assumes generation_advance: "generation (advance a) = generation a + 1"
begin

definition fresh_for :: "'a \<Rightarrow> int \<Rightarrow> bool" where
  "fresh_for a g \<longleftrightarrow> g = generation a"

lemma advance_stales: "fresh_for a g \<Longrightarrow> \<not> fresh_for (advance a) g"
  by (simp add: fresh_for_def generation_advance)

lemma stale_stays_stale: "g < generation a \<Longrightarrow> \<not> fresh_for ((advance ^^ n) a) g"
proof -
  assume g: "g < generation a"
  have "generation ((advance ^^ n) a) = generation a + int n"
    by (induction n) (simp_all add: generation_advance)
  with g show ?thesis by (simp add: fresh_for_def)
qed

end

end
