(* ===== verification/Py_Values.thy ===== *)
theory Py_Values
  imports Prelude
begin

text \<open>
  The operations of Python that the source applies to decoded JSON values: equality across
  the numeric types, \<open>int()\<close>, \<open>str()\<close>, one-decimal formatting, ordered de-duplication.
\<close>

section \<open>Numbers\<close>

text \<open>The number a value is for \<open>==\<close>; a bool is 0 or 1.\<close>

fun num_of :: "json \<Rightarrow> pyfloat option" where
  "num_of (JBool b) = Some (Fin (if b then 1 else 0))"
| "num_of (JInt i) = Some (Fin (of_int i))"
| "num_of (JFloat f) = Some f"
| "num_of _ = None"

text \<open>\<open>isinstance(v, (int, float)) and not isinstance(v, bool)\<close>, and the number.\<close>

fun strict_num :: "json \<Rightarrow> pyfloat option" where
  "strict_num (JInt i) = Some (Fin (of_int i))"
| "strict_num (JFloat f) = Some f"
| "strict_num _ = None"

definition num_eq :: "json \<Rightarrow> json \<Rightarrow> bool" where
  "num_eq a b = (case (num_of a, num_of b) of (Some x, Some y) \<Rightarrow> x = y \<and> x \<noteq> NaN | _ \<Rightarrow> False)"

text \<open>
  \<open>==\<close> on values that hold no dictionaries (action keys and JSON scalars): numbers by
  value, strings and \<open>None\<close> by structure, sequences elementwise.
\<close>

fun py_eq :: "json \<Rightarrow> json \<Rightarrow> bool" and py_eqs :: "json list \<Rightarrow> json list \<Rightarrow> bool" where
  "py_eq JNull b = (b = JNull)"
| "py_eq (JStr s) b = (b = JStr s)"
| "py_eq (JList xs) b = (case b of JList ys \<Rightarrow> py_eqs xs ys | _ \<Rightarrow> False)"
| "py_eq (JDict d) b = (b = JDict d)"
| "py_eq (JBool x) b = num_eq (JBool x) b"
| "py_eq (JInt x) b = num_eq (JInt x) b"
| "py_eq (JFloat x) b = num_eq (JFloat x) b"
| "py_eqs [] ys = (ys = [])"
| "py_eqs (x # xs) ys = (case ys of [] \<Rightarrow> False | y # ys' \<Rightarrow> py_eq x y \<and> py_eqs xs ys')"

definition trunc :: "rat \<Rightarrow> int" where
  "trunc q = (if q < 0 then \<lceil>q\<rceil> else \<lfloor>q\<rfloor>)"

lemma trunc_of_int [simp]: "trunc (of_int i) = i"
  by (simp add: trunc_def)

section \<open>\<open>int()\<close>\<close>

datatype py_exn = TypeError | ValueError | OverflowError | KeyError | RuntimeError

fun digit_value :: "char \<Rightarrow> nat option" where
  "digit_value c = (if is_digit_char c then Some (of_char c - 48) else None)"

text \<open>Decimal digits, single underscores allowed between two of them.\<close>

fun digits_value :: "nat \<Rightarrow> bool \<Rightarrow> string \<Rightarrow> nat option" where
  "digits_value acc prev [] = (if prev then Some acc else None)"
| "digits_value acc prev (c # cs) =
     (if c = CHR ''_'' then (if prev then digits_value acc False cs else None)
      else case digit_value c of None \<Rightarrow> None | Some d \<Rightarrow> digits_value (10 * acc + d) True cs)"

definition py_int_of_str :: "string \<Rightarrow> int option" where
  "py_int_of_str s = (case strip s of
       [] \<Rightarrow> None
     | c # cs \<Rightarrow>
         (if c = CHR ''-'' then map_option (\<lambda>n. - int n) (digits_value 0 False cs)
          else if c = CHR ''+'' then map_option int (digits_value 0 False cs)
          else map_option int (digits_value 0 False (c # cs))))"

fun py_int :: "json \<Rightarrow> py_exn + int" where
  "py_int (JInt i) = Inr i"
| "py_int (JBool b) = Inr (if b then 1 else 0)"
| "py_int (JFloat (Fin q)) = Inr (trunc q)"
| "py_int (JFloat NaN) = Inl ValueError"
| "py_int (JFloat PosInf) = Inl OverflowError"
| "py_int (JFloat NegInf) = Inl OverflowError"
| "py_int (JStr s) = (case py_int_of_str s of None \<Rightarrow> Inl ValueError | Some i \<Rightarrow> Inr i)"
| "py_int _ = Inl TypeError"

section \<open>\<open>str()\<close> and formatting\<close>

text \<open>\<open>show_other\<close> is the text of floats and containers, which nothing here inspects.\<close>

fun py_str :: "(json \<Rightarrow> string) \<Rightarrow> json \<Rightarrow> string" where
  "py_str show_other JNull = ''None''"
| "py_str show_other (JBool b) = (if b then ''True'' else ''False'')"
| "py_str show_other (JInt i) = str_of_int i"
| "py_str show_other (JStr s) = s"
| "py_str show_other v = show_other v"

text \<open>\<open>f"{q:.1f}"\<close>: the sign is kept even when the digits round to zero.\<close>

definition format_1f :: "rat \<Rightarrow> string" where
  "format_1f q =
     (let n = nat \<bar>round_half_even (\<bar>q\<bar> * 10)\<bar>
      in (if q < 0 then ''-'' else []) @ str_of_nat (n div 10) @ ''.'' @ str_of_nat (n mod 10))"

section \<open>Ordered de-duplication\<close>

text \<open>\<open>tuple(dict.fromkeys(xs))\<close>: each value where it first occurs.\<close>

fun dedupe_from :: "'a list \<Rightarrow> 'a list \<Rightarrow> 'a list" where
  "dedupe_from seen [] = []"
| "dedupe_from seen (x # xs) =
     (if x \<in> set seen then dedupe_from seen xs else x # dedupe_from (x # seen) xs)"

definition dedupe :: "'a list \<Rightarrow> 'a list" where
  "dedupe xs = dedupe_from [] xs"

lemma set_dedupe_from: "set (dedupe_from seen xs) = set xs - set seen"
  by (induction seen xs rule: dedupe_from.induct) auto

lemma set_dedupe [simp]: "set (dedupe xs) = set xs"
  by (simp add: dedupe_def set_dedupe_from)

lemma distinct_dedupe_from: "distinct (dedupe_from seen xs)"
  by (induction seen xs rule: dedupe_from.induct) (auto simp: set_dedupe_from)

lemma distinct_dedupe [simp]: "distinct (dedupe xs)"
  by (simp add: dedupe_def distinct_dedupe_from)

lemma dedupe_from_id: "distinct xs \<Longrightarrow> set xs \<inter> set seen = {} \<Longrightarrow> dedupe_from seen xs = xs"
  by (induction seen xs rule: dedupe_from.induct) auto

lemma dedupe_id [simp]: "distinct xs \<Longrightarrow> dedupe xs = xs"
  by (simp add: dedupe_def dedupe_from_id)

section \<open>\<open>max\<close> with a key\<close>

text \<open>The first of the elements with the greatest key.\<close>

fun first_max :: "('a \<Rightarrow> nat) \<Rightarrow> 'a \<Rightarrow> 'a list \<Rightarrow> 'a" where
  "first_max key best [] = best"
| "first_max key best (x # xs) = first_max key (if key x > key best then x else best) xs"

definition max_with :: "('a \<Rightarrow> nat) \<Rightarrow> 'a list \<Rightarrow> 'a option" where
  "max_with key xs = (case xs of [] \<Rightarrow> None | x # xs' \<Rightarrow> Some (first_max key x xs'))"

lemma first_max_in: "first_max key b xs \<in> set (b # xs)"
  by (induction key b xs rule: first_max.induct) auto

lemma first_max_ge: "x \<in> set (b # xs) \<Longrightarrow> key x \<le> key (first_max key b xs)"
proof (induction key b xs arbitrary: x rule: first_max.induct)
  case (2 key best y ys)
  let ?b = "if key y > key best then y else best"
  have "key ?b \<le> key (first_max key ?b ys)" by (rule "2.IH") simp
  then have b: "key best \<le> key (first_max key ?b ys)" "key y \<le> key (first_max key ?b ys)"
    by (simp_all split: if_splits)
  from "2.prems" consider "x = best" | "x = y" | "x \<in> set ys" by auto
  then show ?case
  proof cases
    case 3
    then show ?thesis using "2.IH" [of x] by simp
  qed (use b in simp_all)
qed simp

lemma max_with_None [simp]: "max_with key xs = None \<longleftrightarrow> xs = []"
  by (cases xs) (simp_all add: max_with_def)

lemma max_with_Some:
  "max_with key xs = Some m \<Longrightarrow> m \<in> set xs \<and> (\<forall>x\<in>set xs. key x \<le> key m)"
  using first_max_in first_max_ge by (cases xs) (force simp: max_with_def)+

text \<open>What is before the maximum is smaller.\<close>

lemma first_max_split:
  "\<exists>l r. b # xs = l @ first_max key b xs # r \<and> (\<forall>x\<in>set l. key x < key (first_max key b xs))"
proof (induction key b xs rule: first_max.induct)
  case (1 key best)
  show ?case by (rule exI [of _ "[]"]) simp
next
  case (2 key best x xs)
  show ?case
  proof (cases "key x > key best")
    case True
    with 2 obtain l r where l: "x # xs = l @ first_max key x xs # r" "\<forall>y\<in>set l. key y < key (first_max key x xs)"
      by auto
    have "key best < key (first_max key x xs)"
      using True first_max_ge [of x x xs key] by simp
    with l(2) have lt: "\<forall>y\<in>set (best # l). key y < key (first_max key x xs)" by simp
    have eq: "best # x # xs = (best # l) @ first_max key x xs # r" using l(1) by (simp only: append_Cons)
    have fm: "first_max key best (x # xs) = first_max key x xs" using True by simp
    show ?thesis unfolding fm using lt eq by blast
  next
    case False
    with 2 obtain l r where l: "best # xs = l @ first_max key best xs # r"
        "\<forall>y\<in>set l. key y < key (first_max key best xs)" by auto
    have fm: "first_max key best (x # xs) = first_max key best xs" using False by simp
    show ?thesis
      unfolding fm
    proof (cases l)
      case Nil
      have b: "first_max key best xs = best" using l(1) unfolding Nil append_Nil list.inject by metis
      then show "\<exists>l r. best # x # xs = l @ first_max key best xs # r \<and>
          (\<forall>y\<in>set l. key y < key (first_max key best xs))"
        unfolding b by (intro exI [of _ "[]"] exI [of _ "x # xs"]) simp
    next
      case (Cons c l')
      have cb: "c = best" and xs: "xs = l' @ first_max key best xs # r"
        using l(1) unfolding Cons append_Cons list.inject by blast+
      have "key best < key (first_max key best xs)" using l(2) Cons cb by simp
      with False have "key x < key (first_max key best xs)" by simp
      with l(2) Cons cb have "\<forall>y\<in>set (best # x # l'). key y < key (first_max key best xs)" by simp
      moreover have "best # x # xs = (best # x # l') @ first_max key best xs # r" using xs by simp
      ultimately show "\<exists>l r. best # x # xs = l @ first_max key best xs # r \<and>
          (\<forall>y\<in>set l. key y < key (first_max key best xs))"
        by blast
    qed
  qed
qed

lemma max_with_first:
  assumes "max_with key xs = Some m"
  shows "\<exists>l r. xs = l @ m # r \<and> (\<forall>x\<in>set l. key x < key m) \<and> (\<forall>x\<in>set r. key x \<le> key m)"
proof -
  obtain b ys where xs: "xs = b # ys" "m = first_max key b ys"
    using assms by (cases xs) (auto simp: max_with_def)
  obtain l r where "xs = l @ m # r" "\<forall>x\<in>set l. key x < key m"
    using first_max_split [of b ys key] xs by auto
  moreover have "\<forall>x\<in>set xs. key x \<le> key m" using max_with_Some [OF assms] by blast
  ultimately show ?thesis by auto
qed

text \<open>The values that are there, in order.\<close>

definition somes :: "'a option list \<Rightarrow> 'a list" where
  "somes xs = concat (map (\<lambda>a. case a of None \<Rightarrow> [] | Some x \<Rightarrow> [x]) xs)"

lemma set_somes [simp]: "x \<in> set (somes xs) \<longleftrightarrow> Some x \<in> set xs"
  by (force simp: somes_def split: option.splits)

lemma somes_empty: "somes xs = [] \<longleftrightarrow> (\<forall>a\<in>set xs. a = None)"
  by (auto simp: somes_def split: option.splits)

section \<open>Results\<close>

lemma map_sum_Inr_iff: "map_sum f g x = Inr y \<longleftrightarrow> (\<exists>z. x = Inr z \<and> y = g z)"
  by (cases x) auto

lemma map_sum_Inl_iff: "map_sum f g x = Inl y \<longleftrightarrow> (\<exists>z. x = Inl z \<and> y = f z)"
  by (cases x) auto

section \<open>The printed form of an integer parses back\<close>

lemma digits_value_digits:
  "digits_value acc prev (nat_digits n @ s) = digits_value (acc * 10 ^ length (nat_digits n) + n) True s"
proof (induction n arbitrary: acc prev s rule: nat_digits.induct)
  case (1 n)
  have digit: "digits_value a p (char_of (48 + d) # t) = digits_value (10 * a + d) True t"
    if "d < 10" for a p d t
  proof -
    have "char_of (48 + d) \<noteq> CHR ''_''"
    proof
      assume "char_of (48 + d) = CHR ''_''"
      then have "of_char (char_of (48 + d) :: char) = (of_char CHR ''_'' :: nat)" by simp
      with that show False by simp
    qed
    with that show ?thesis by (simp add: is_digit_char_def Let_def)
  qed
  show ?case
  proof (cases "n < 10")
    case True
    then have "nat_digits n = [char_of (48 + n)]" by (subst nat_digits.simps) simp
    with digit [OF True] show ?thesis by (simp add: mult.commute)
  next
    case False
    then have nd: "nat_digits n = nat_digits (n div 10) @ [char_of (48 + n mod 10)]"
      by (subst nat_digits.simps) simp
    have "digits_value acc prev (nat_digits n @ s) =
        digits_value (acc * 10 ^ length (nat_digits (n div 10)) + n div 10) True
          (char_of (48 + n mod 10) # s)"
      using "1.IH" [OF False] by (simp add: nd)
    also have "\<dots> = digits_value
        (10 * (acc * 10 ^ length (nat_digits (n div 10)) + n div 10) + n mod 10) True s"
      by (rule digit) simp
    also have "10 * (acc * 10 ^ length (nat_digits (n div 10)) + n div 10) + n mod 10 =
        acc * 10 ^ length (nat_digits n) + n"
      by (simp add: nd algebra_simps)
    finally show ?thesis .
  qed
qed

end
