(* ===== verification/Lifecycle.thy ===== *)
theory Lifecycle
  imports Prelude
begin

text \<open>
  \<open>minebot/brain/lifecycle.py\<close>: the controller that guards the agent's ACTIVE state. The
  transition table is the source's, a refused transition leaves the controller as it
  was, and every accepted one is appended to the history.
\<close>

datatype lifecycle_state =
  LC_INIT | LC_IDLE | LC_ACTIVE | LC_YIELDED | LC_INTERRUPTED | LC_RESUMING | LC_RECOVERING

fun lifecycle_value :: "lifecycle_state \<Rightarrow> string" where
  "lifecycle_value LC_INIT = ''init''"
| "lifecycle_value LC_IDLE = ''idle''"
| "lifecycle_value LC_ACTIVE = ''active''"
| "lifecycle_value LC_YIELDED = ''yielded''"
| "lifecycle_value LC_INTERRUPTED = ''interrupted''"
| "lifecycle_value LC_RESUMING = ''resuming''"
| "lifecycle_value LC_RECOVERING = ''recovering''"

fun transitions :: "lifecycle_state \<Rightarrow> lifecycle_state list" where
  "transitions LC_INIT = [LC_IDLE]"
| "transitions LC_IDLE = [LC_ACTIVE]"
| "transitions LC_ACTIVE = [LC_YIELDED, LC_INTERRUPTED, LC_RECOVERING, LC_IDLE]"
| "transitions LC_YIELDED = [LC_RESUMING, LC_IDLE]"
| "transitions LC_INTERRUPTED = [LC_RESUMING, LC_RECOVERING, LC_IDLE]"
| "transitions LC_RECOVERING = [LC_RESUMING, LC_IDLE]"
| "transitions LC_RESUMING = [LC_ACTIVE, LC_IDLE]"

text \<open>\<open>LifecycleError\<close> carries the two states and the sorted names of the allowed targets.\<close>

datatype lifecycle_error = LifecycleError lifecycle_state lifecycle_state "string list"

record lifecycle_controller =
  lc_state :: lifecycle_state
  lc_history :: "lifecycle_state list"

definition lifecycle_init :: lifecycle_controller where
  "lifecycle_init = \<lparr>lc_state = LC_INIT, lc_history = [LC_INIT]\<rparr>"

definition is_active :: "lifecycle_controller \<Rightarrow> bool" where
  "is_active c = (lc_state c = LC_ACTIVE)"

definition can_transition :: "lifecycle_controller \<Rightarrow> lifecycle_state \<Rightarrow> bool" where
  "can_transition c target = (target \<in> set (transitions (lc_state c)))"

definition transition ::
  "lifecycle_controller \<Rightarrow> lifecycle_state \<Rightarrow> lifecycle_error + lifecycle_controller" where
  "transition c target =
     (if \<not> can_transition c target
      then Inl (LifecycleError (lc_state c) target
                  (sort (map lifecycle_value (transitions (lc_state c)))))
      else Inr (c\<lparr>lc_state := target, lc_history := lc_history c @ [target]\<rparr>))"

text \<open>The named intents, the only sanctioned ways to move.\<close>

datatype lifecycle_intent =
  Ready | Start | Yield bool | Interrupt | EnterRecovery | Resume | ReenterActive | StandDown

fun lifecycle_apply ::
  "lifecycle_controller \<Rightarrow> lifecycle_intent \<Rightarrow> lifecycle_error + lifecycle_controller" where
  "lifecycle_apply c Ready = transition c LC_IDLE"
| "lifecycle_apply c Start = transition c LC_ACTIVE"
| "lifecycle_apply c (Yield completed) = transition c LC_YIELDED"
| "lifecycle_apply c Interrupt = transition c LC_INTERRUPTED"
| "lifecycle_apply c EnterRecovery = transition c LC_RECOVERING"
| "lifecycle_apply c Resume = transition c LC_RESUMING"
| "lifecycle_apply c ReenterActive = transition c LC_ACTIVE"
| "lifecycle_apply c StandDown = transition c LC_IDLE"

text \<open>A caller that catches the error goes on with the controller unchanged.\<close>

definition lifecycle_step :: "lifecycle_controller \<Rightarrow> lifecycle_intent \<Rightarrow> lifecycle_controller" where
  "lifecycle_step c i = (case lifecycle_apply c i of Inl _ \<Rightarrow> c | Inr c' \<Rightarrow> c')"

fun lifecycle_run :: "lifecycle_controller \<Rightarrow> lifecycle_intent list \<Rightarrow> lifecycle_controller" where
  "lifecycle_run c [] = c"
| "lifecycle_run c (i # is) = lifecycle_run (lifecycle_step c i) is"

section \<open>The controller is a guarded machine\<close>

interpretation lc: guarded_machine
  "\<lambda>s t. t \<in> set (transitions s)" transition lc_state lc_history
  by unfold_locales (auto simp: transition_def can_transition_def)

fun intent_target :: "lifecycle_intent \<Rightarrow> lifecycle_state" where
  "intent_target Ready = LC_IDLE"
| "intent_target Start = LC_ACTIVE"
| "intent_target (Yield _) = LC_YIELDED"
| "intent_target Interrupt = LC_INTERRUPTED"
| "intent_target EnterRecovery = LC_RECOVERING"
| "intent_target Resume = LC_RESUMING"
| "intent_target ReenterActive = LC_ACTIVE"
| "intent_target StandDown = LC_IDLE"

lemma lifecycle_apply_transition: "lifecycle_apply c i = transition c (intent_target i)"
  by (cases i) simp_all

lemma lifecycle_run_drive: "lifecycle_run c is = lc.drive c (map intent_target is)"
  by (induction "is" arbitrary: c)
    (simp_all add: lifecycle_step_def lc.settle_def lifecycle_apply_transition)

lemma lifecycle_init_coherent: "lc.coherent lifecycle_init"
  by (simp add: lc.coherent_def lifecycle_init_def)

lemma lifecycle_run_coherent: "lc.coherent (lifecycle_run lifecycle_init is)"
  unfolding lifecycle_run_drive by (rule lc.drive_coherent [OF lifecycle_init_coherent])

lemma active_doors: "LC_ACTIVE \<in> set (transitions s) \<Longrightarrow> s = LC_IDLE \<or> s = LC_RESUMING"
  by (cases s) simp_all

lemma no_door_to_init: "LC_INIT \<notin> set (transitions s)"
  by (cases s) simp_all

lemma resuming_doors:
  "LC_RESUMING \<in> set (transitions s) \<Longrightarrow> s = LC_YIELDED \<or> s = LC_INTERRUPTED \<or> s = LC_RECOVERING"
  by (cases s) simp_all

lemma successively_not_hd:
  "successively P xs \<Longrightarrow> (\<And>a. \<not> P a x) \<Longrightarrow> x \<notin> set (tl xs)"
  by (induction xs rule: induct_list012) auto

section \<open>Properties\<close>

text \<open>
  Whatever sequence of named intents drives a new controller, refused ones included,
  the recorded history is a path through the transition table that starts in INIT, ends
  in the current state and never returns to INIT.
\<close>

lemma lifecycle_history_is_legal_path:
  "successively (\<lambda>s t. t \<in> set (transitions s)) (lc_history (lifecycle_run lifecycle_init is)) \<and>
   last (lc_history (lifecycle_run lifecycle_init is)) = lc_state (lifecycle_run lifecycle_init is) \<and>
   hd (lc_history (lifecycle_run lifecycle_init is)) = LC_INIT \<and>
   LC_INIT \<notin> set (tl (lc_history (lifecycle_run lifecycle_init is)))"
proof -
  let ?h = "lc_history (lifecycle_run lifecycle_init is)"
  obtain ys where "?h = LC_INIT # ys"
    using lc.drive_extends [of lifecycle_init "map intent_target is"]
    by (auto simp: lifecycle_run_drive lifecycle_init_def)
  moreover have "successively (\<lambda>s t. t \<in> set (transitions s)) ?h" "last ?h = lc_state (lifecycle_run lifecycle_init is)"
    using lifecycle_run_coherent [of "is"] by (simp_all add: lc.coherent_def)
  moreover from this(1) have "LC_INIT \<notin> set (tl ?h)"
    by (rule successively_not_hd) (rule no_door_to_init)
  ultimately show ?thesis by simp
qed

end
