(* ===== verification/Block_Types.thy ===== *)
theory Block_Types
  imports Prelude
begin

text \<open>
  The block-type tables of \<open>minebot/game/governance.py\<close> and the value types of
  \<open>minebot/contract/governance.py\<close> that they classify.
\<close>

section \<open>Contract types\<close>

type_synonym position = "int \<times> int \<times> int"

datatype break_context =
  BC_PATH | BC_TRAVEL | BC_COLLECT | BC_COLLECT_APPROACH | BC_FARM | BC_RECOVERY | BC_DIRECT
  | BC_BOT_CLEANUP

fun break_context_value :: "break_context \<Rightarrow> string" where
  "break_context_value BC_PATH = ''path''"
| "break_context_value BC_TRAVEL = ''travel''"
| "break_context_value BC_COLLECT = ''collect''"
| "break_context_value BC_COLLECT_APPROACH = ''collect_approach''"
| "break_context_value BC_FARM = ''farm''"
| "break_context_value BC_RECOVERY = ''recovery''"
| "break_context_value BC_DIRECT = ''direct''"
| "break_context_value BC_BOT_CLEANUP = ''bot_cleanup''"

datatype place_context = PC_TRAVEL | PC_WORK | PC_FARM | PC_RECOVERY | PC_DIRECT

fun place_context_value :: "place_context \<Rightarrow> string" where
  "place_context_value PC_TRAVEL = ''travel''"
| "place_context_value PC_WORK = ''work''"
| "place_context_value PC_FARM = ''farm''"
| "place_context_value PC_RECOVERY = ''recovery''"
| "place_context_value PC_DIRECT = ''direct''"

datatype interaction_context = IC_ACTIVATE | IC_SLEEP | IC_FARM

fun interaction_context_value :: "interaction_context \<Rightarrow> string" where
  "interaction_context_value IC_ACTIVATE = ''activate''"
| "interaction_context_value IC_SLEEP = ''sleep''"
| "interaction_context_value IC_FARM = ''farm''"

datatype structure_risk_level = RISK_LOW | RISK_AMBIGUOUS | RISK_HIGH

fun risk_level_value :: "structure_risk_level \<Rightarrow> string" where
  "risk_level_value RISK_LOW = ''low''"
| "risk_level_value RISK_AMBIGUOUS = ''ambiguous''"
| "risk_level_value RISK_HIGH = ''high''"

fun risk_rank :: "structure_risk_level \<Rightarrow> nat" where
  "risk_rank RISK_LOW = 0"
| "risk_rank RISK_AMBIGUOUS = 1"
| "risk_rank RISK_HIGH = 2"

instantiation structure_risk_level :: linorder
begin

definition less_eq_structure_risk_level :: "structure_risk_level \<Rightarrow> structure_risk_level \<Rightarrow> bool" where
  "less_eq_structure_risk_level a b \<longleftrightarrow> risk_rank a \<le> risk_rank b"

definition less_structure_risk_level :: "structure_risk_level \<Rightarrow> structure_risk_level \<Rightarrow> bool" where
  "less_structure_risk_level a b \<longleftrightarrow> risk_rank a < risk_rank b"

instance
proof
  fix a b :: structure_risk_level
  show "a \<le> b \<Longrightarrow> b \<le> a \<Longrightarrow> a = b"
    by (cases a; cases b) (simp_all add: less_eq_structure_risk_level_def)
qed (auto simp: less_eq_structure_risk_level_def less_structure_risk_level_def)

end

text \<open>Inclusive axis-aligned regions.\<close>

record region =
  rg_name :: string
  rg_min_pos :: position
  rg_max_pos :: position

fun within_box :: "position \<Rightarrow> position \<Rightarrow> position \<Rightarrow> bool" where
  "within_box (ax, ay, az) (bx, by, bz) (x, y, z) \<longleftrightarrow>
     ax \<le> x \<and> x \<le> bx \<and> ay \<le> y \<and> y \<le> by \<and> az \<le> z \<and> z \<le> bz"

definition region_contains :: "region \<Rightarrow> position \<Rightarrow> bool" where
  "region_contains r pos = within_box (rg_min_pos r) (rg_max_pos r) pos"

record bot_placement =
  bp_pos :: position
  bp_block_type :: string
  bp_purpose :: string
  bp_bot :: string

type_synonym placement_ledger = "(position, bot_placement) pydict"

record structure_risk_assessment =
  sra_pos :: position
  sra_block_type :: string
  sra_level :: structure_risk_level
  sra_score :: rat
  sra_complete :: bool
  sra_sampled_cells :: nat
  sra_signals :: "string list"
  sra_source :: string

record legality_decision =
  ld_allowed :: bool
  ld_reason :: string
  ld_protected :: bool
  ld_bot_owned :: bool
  ld_natural_region :: "string option"
  ld_details :: json_object

text \<open>The dataclass's constructor with its defaults; the code overrides the rest by keyword.\<close>

definition legality :: "bool \<Rightarrow> string \<Rightarrow> legality_decision" where
  "legality allowed reason =
     \<lparr>ld_allowed = allowed, ld_reason = reason, ld_protected = False, ld_bot_owned = False,
      ld_natural_region = None, ld_details = []\<rparr>"

lemma legality_simps [simp]:
  "ld_allowed (legality a r) = a" "ld_reason (legality a r) = r"
  "ld_details (legality a r) = []"
  by (simp_all add: legality_def)

section \<open>Block-type tables\<close>

definition NATURAL_GRASS_TYPES :: "string set" where
  "NATURAL_GRASS_TYPES = {
    ''short_grass'', ''tall_grass'', ''fern'', ''large_fern''}"

definition NATURAL_FLOWER_TYPES :: "string set" where
  "NATURAL_FLOWER_TYPES = {
    ''dandelion'', ''poppy'', ''blue_orchid'', ''allium'', ''azure_bluet'', ''red_tulip'',
    ''orange_tulip'', ''white_tulip'', ''pink_tulip'', ''oxeye_daisy'', ''cornflower'',
    ''lily_of_the_valley'', ''sunflower'', ''lilac'', ''rose_bush'', ''peony'',
    ''torchflower'', ''pitcher_plant'', ''open_eyeblossom'', ''closed_eyeblossom''}"

definition NATURAL_LEAF_TYPES :: "string set" where
  "NATURAL_LEAF_TYPES = {
    ''oak_leaves'', ''spruce_leaves'', ''birch_leaves'', ''jungle_leaves'',
    ''acacia_leaves'', ''dark_oak_leaves'', ''mangrove_leaves'', ''cherry_leaves'',
    ''azalea_leaves'', ''flowering_azalea_leaves''}"

definition NATURAL_BREAKABLE :: "string set" where
  "NATURAL_BREAKABLE = {
    ''stone'', ''deepslate'', ''dirt'', ''grass_block'', ''gravel'', ''sand'',
    ''sandstone'', ''clay'', ''netherrack'', ''basalt'', ''blackstone'', ''end_stone'',
    ''obsidian'', ''cobblestone'', ''oak_log'', ''spruce_log'', ''birch_log'',
    ''jungle_log'', ''acacia_log'', ''dark_oak_log'', ''mangrove_log'', ''cherry_log'',
    ''coal_ore'', ''iron_ore'', ''copper_ore'', ''gold_ore'', ''redstone_ore'',
    ''lapis_ore'', ''diamond_ore'', ''emerald_ore'', ''deepslate_coal_ore'',
    ''deepslate_iron_ore'', ''deepslate_copper_ore'', ''deepslate_gold_ore'',
    ''deepslate_redstone_ore'', ''deepslate_lapis_ore'', ''deepslate_diamond_ore'',
    ''deepslate_emerald_ore''} \<union> NATURAL_FLOWER_TYPES \<union> NATURAL_LEAF_TYPES \<union> NATURAL_GRASS_TYPES"

definition COLLECT_TARGETS :: "string set" where
  "COLLECT_TARGETS = {
    ''dirt'', ''grass_block'', ''gravel'', ''sand'', ''oak_log'', ''spruce_log'',
    ''birch_log'', ''jungle_log'', ''acacia_log'', ''dark_oak_log'', ''mangrove_log'',
    ''cherry_log'', ''coal_ore'', ''iron_ore'', ''copper_ore'', ''gold_ore'',
    ''redstone_ore'', ''lapis_ore'', ''diamond_ore'', ''emerald_ore'',
    ''deepslate_coal_ore'', ''deepslate_iron_ore'', ''deepslate_copper_ore'',
    ''deepslate_gold_ore'', ''deepslate_redstone_ore'', ''deepslate_lapis_ore'',
    ''deepslate_diamond_ore'', ''deepslate_emerald_ore''} \<union> NATURAL_FLOWER_TYPES \<union> NATURAL_GRASS_TYPES"

definition RECOVERY_ROUTE_AVOID_TYPES :: "string set" where
  "RECOVERY_ROUTE_AVOID_TYPES = {
    ''oak_log'', ''spruce_log'', ''birch_log'', ''jungle_log'', ''acacia_log'',
    ''dark_oak_log'', ''mangrove_log'', ''cherry_log'', ''coal_ore'', ''iron_ore'',
    ''copper_ore'', ''gold_ore'', ''redstone_ore'', ''lapis_ore'', ''diamond_ore'',
    ''emerald_ore'', ''deepslate_coal_ore'', ''deepslate_iron_ore'',
    ''deepslate_copper_ore'', ''deepslate_gold_ore'', ''deepslate_redstone_ore'',
    ''deepslate_lapis_ore'', ''deepslate_diamond_ore'', ''deepslate_emerald_ore''}"

definition FARM_TARGETS :: "string set" where
  "FARM_TARGETS = {
    ''wheat'', ''carrots'', ''potatoes'', ''beetroots''}"

definition STRONGLY_PROTECTED_TYPES :: "string set" where
  "STRONGLY_PROTECTED_TYPES = {
    ''chest'', ''trapped_chest'', ''barrel'', ''furnace'', ''blast_furnace'', ''smoker'',
    ''crafting_table'', ''bed'', ''white_bed'', ''orange_bed'', ''magenta_bed'',
    ''light_blue_bed'', ''yellow_bed'', ''lime_bed'', ''pink_bed'', ''gray_bed'',
    ''light_gray_bed'', ''cyan_bed'', ''purple_bed'', ''blue_bed'', ''brown_bed'',
    ''green_bed'', ''red_bed'', ''black_bed'', ''oak_door'', ''spruce_door'',
    ''birch_door'', ''jungle_door'', ''acacia_door'', ''dark_oak_door'', ''mangrove_door'',
    ''cherry_door'', ''iron_door'', ''lever'', ''redstone'', ''redstone_wire'',
    ''redstone_torch'', ''repeater'', ''comparator'', ''hopper'', ''dispenser'',
    ''dropper'', ''piston'', ''sticky_piston'', ''farmland'', ''wheat'', ''carrots'',
    ''potatoes'', ''beetroots'', ''sign'', ''oak_sign'', ''spruce_sign'', ''birch_sign'',
    ''jungle_sign'', ''acacia_sign'', ''dark_oak_sign'', ''mangrove_sign'', ''cherry_sign'',
    ''glass'', ''glass_pane'', ''bricks'', ''stone_bricks'', ''polished_blackstone_bricks'',
    ''quartz_block'', ''lantern'', ''torch''}"

definition UNSAFE_STAND_SUPPORT_TYPES :: "string set" where
  "UNSAFE_STAND_SUPPORT_TYPES = {
    ''cactus'', ''campfire'', ''fire'', ''lava'', ''magma_block'', ''powder_snow'',
    ''soul_campfire'', ''soul_fire'', ''sweet_berry_bush'', ''wither_rose''}"

definition TEMPORARY_BOT_PURPOSES :: "string set" where
  "TEMPORARY_BOT_PURPOSES = {
    ''scaffold'', ''seal'', ''bridge'', ''pillar'', ''workstation'', ''temporary_furnace'',
    ''temporary_furnace_auto_site'', ''temporary_light''}"

lemmas natural_defs =
  NATURAL_BREAKABLE_def NATURAL_FLOWER_TYPES_def NATURAL_LEAF_TYPES_def NATURAL_GRASS_TYPES_def

definition normalize_block_type :: "string \<Rightarrow> string" where
  "normalize_block_type block_type = removeprefix ''minecraft:'' block_type"

section \<open>How the tables fit together\<close>

lemma natural_not_protected: "NATURAL_BREAKABLE \<inter> STRONGLY_PROTECTED_TYPES = {}"
  unfolding natural_defs STRONGLY_PROTECTED_TYPES_def by simp

lemma recovery_avoid_subset: "RECOVERY_ROUTE_AVOID_TYPES \<subseteq> COLLECT_TARGETS"
  unfolding RECOVERY_ROUTE_AVOID_TYPES_def COLLECT_TARGETS_def by simp

lemma collect_subset_natural: "COLLECT_TARGETS \<subseteq> NATURAL_BREAKABLE"
  unfolding COLLECT_TARGETS_def NATURAL_BREAKABLE_def by auto

lemma farm_subset_protected: "FARM_TARGETS \<subseteq> STRONGLY_PROTECTED_TYPES"
  unfolding FARM_TARGETS_def STRONGLY_PROTECTED_TYPES_def by simp

text \<open>
  The tables never contradict each other: nothing is both naturally breakable and
  strongly protected, every type a recovery route must avoid is a collect target, every
  collect target is naturally breakable, and the crops the farm context may harvest are
  strongly protected outside it.
\<close>

lemma block_tables_consistent:
  "NATURAL_BREAKABLE \<inter> STRONGLY_PROTECTED_TYPES = {} \<and>
   RECOVERY_ROUTE_AVOID_TYPES \<subseteq> COLLECT_TARGETS \<and>
   COLLECT_TARGETS \<subseteq> NATURAL_BREAKABLE \<and>
   FARM_TARGETS \<subseteq> STRONGLY_PROTECTED_TYPES"
  using natural_not_protected recovery_avoid_subset collect_subset_natural farm_subset_protected
  by blast

end
