(* ===== verification/Governance.thy ===== *)
theory Governance
  imports Block_Types
begin

text \<open>
  \<open>minebot/game/governance.py\<close>: which breaks, placements and interactions the Body may
  carry out. The policy object is a record that every operation returns updated. What
  the environment supplies at a call is an argument: the clock and the confirmation
  scope as they read inside one locked section and the hexadecimal digits of the next
  \<open>uuid4\<close> (\<open>gov_env\<close>), and the structure-risk assessor, a protocol whose
  implementation is \<open>Structure_Risk\<close>.
\<close>

section \<open>State\<close>

definition GOVERNANCE_CONFIRMATION_TTL_S :: rat where "GOVERNANCE_CONFIRMATION_TTL_S = 300"
definition GOVERNANCE_CONFIRMATION_RADIUS :: int where "GOVERNANCE_CONFIRMATION_RADIUS = 8"
definition GOVERNANCE_CONFIRMATION_VERTICAL_RADIUS :: int where
  "GOVERNANCE_CONFIRMATION_VERTICAL_RADIUS = 4"

fun confirmation_max_unique_blocks :: "break_context \<Rightarrow> nat" where
  "confirmation_max_unique_blocks BC_TRAVEL = 8"
| "confirmation_max_unique_blocks BC_COLLECT = 12"
| "confirmation_max_unique_blocks BC_COLLECT_APPROACH = 32"
| "confirmation_max_unique_blocks BC_RECOVERY = 96"
| "confirmation_max_unique_blocks BC_DIRECT = 8"
| "confirmation_max_unique_blocks _ = 8"

fun confirmation_horizontal_radius :: "break_context \<Rightarrow> int" where
  "confirmation_horizontal_radius BC_RECOVERY = 16"
| "confirmation_horizontal_radius _ = 0"

fun confirmation_vertical_radius :: "break_context \<Rightarrow> int" where
  "confirmation_vertical_radius BC_COLLECT_APPROACH = 8"
| "confirmation_vertical_radius BC_RECOVERY = 32"
| "confirmation_vertical_radius _ = 0"

record governance_challenge =
  gc_challenge_id :: string
  gc_bot :: "string option"
  gc_context :: break_context
  gc_block_types :: "string list"
  gc_region :: region
  gc_max_unique_blocks :: nat
  gc_created_at :: rat
  gc_expires_at :: rat
  gc_epoch :: string
  gc_evidence :: json_object
  gc_action_ids :: "string set"

record governance_permit =
  gpm_permit_id :: string
  gpm_challenge_id :: string
  gpm_bot :: "string option"
  gpm_context :: break_context
  gpm_block_types :: "string list"
  gpm_region :: region
  gpm_max_unique_blocks :: nat
  gpm_expires_at :: rat
  gpm_epoch :: string
  gpm_purpose :: string
  gpm_authorized_positions :: "position set"

record governance_policy =
  gp_natural_regions :: "region list"
  gp_protected_regions :: "region list"
  gp_bot_placements :: placement_ledger
  gp_require_structure_assessment :: bool
  gp_bot_name :: "string option"
  gp_confirmation_ttl_s :: rat
  gp_confirmation_radius :: int
  gp_confirmation_vertical_radius :: int
  gp_confirmation_epoch :: string
  gp_pending_challenges :: "(string, governance_challenge) pydict"
  gp_active_permits :: "(string, governance_permit) pydict"

text \<open>
  What one locked section reads: the monotonic clock, \<open>str\<close> of what the scope callable
  returns (\<open>None\<close> when it raises) and fresh hexadecimal digits.
\<close>

record gov_env =
  ge_now :: rat
  ge_scope :: "string option"
  ge_fresh_hex :: string

text \<open>
  The assessor answers with an assessment or raises; a raise is the name of its
  exception type.
\<close>

type_synonym assessor =
  "position \<Rightarrow> string \<Rightarrow> break_context \<Rightarrow> placement_ledger \<Rightarrow> string + structure_risk_assessment"

definition governance_init ::
  "region list \<Rightarrow> region list \<Rightarrow> bot_placement list \<Rightarrow> bool \<Rightarrow> string option \<Rightarrow> rat \<Rightarrow> int \<Rightarrow> int
   \<Rightarrow> string \<Rightarrow> governance_policy" where
  "governance_init natural protected placements require who ttl radius vertical fresh =
     \<lparr>gp_natural_regions = natural, gp_protected_regions = protected,
      gp_bot_placements = foldl (\<lambda>d e. AList.update (bp_pos e) e d) [] placements,
      gp_require_structure_assessment = require, gp_bot_name = who,
      gp_confirmation_ttl_s = max 1 ttl, gp_confirmation_radius = max 1 radius,
      gp_confirmation_vertical_radius = max 0 vertical, gp_confirmation_epoch = fresh,
      gp_pending_challenges = [], gp_active_permits = []\<rparr>"

section \<open>Payloads\<close>

definition json_position :: "position \<Rightarrow> json" where
  "json_position p = (case p of (x, y, z) \<Rightarrow> JList [JInt x, JInt y, JInt z])"

definition json_opt_str :: "string option \<Rightarrow> json" where
  "json_opt_str s = (case s of None \<Rightarrow> JNull | Some t \<Rightarrow> JStr t)"

definition json_region :: "region \<Rightarrow> json" where
  "json_region r = JDict [(''min'', json_position (rg_min_pos r)), (''max'', json_position (rg_max_pos r))]"

definition structure_risk_payload :: "structure_risk_assessment \<Rightarrow> json_object" where
  "structure_risk_payload a =
     [(''level'', JStr (risk_level_value (sra_level a))),
      (''score'', JFloat (Fin (sra_score a))),
      (''complete'', JBool (sra_complete a)),
      (''sampled_cells'', JInt (int (sra_sampled_cells a))),
      (''signals'', JList (map JStr (sra_signals a))),
      (''source'', JStr (sra_source a))]"

definition challenge_payload :: "governance_challenge \<Rightarrow> rat \<Rightarrow> json_object" where
  "challenge_payload c now =
     [(''challenge_id'', JStr (gc_challenge_id c)),
      (''operation'', JStr ''break''),
      (''bot'', json_opt_str (gc_bot c)),
      (''context'', JStr (break_context_value (gc_context c))),
      (''block_types'', JList (map JStr (gc_block_types c))),
      (''region'', json_region (gc_region c)),
      (''max_unique_blocks'', JInt (int (gc_max_unique_blocks c))),
      (''ttl_remaining_s'', JFloat (Fin (py_round 3 (max 0 (gc_expires_at c - now))))),
      (''evidence'', JDict (gc_evidence c))]"

definition permit_payload :: "governance_permit \<Rightarrow> rat \<Rightarrow> json_object" where
  "permit_payload p now =
     [(''permit_id'', JStr (gpm_permit_id p)),
      (''challenge_id'', JStr (gpm_challenge_id p)),
      (''operation'', JStr ''break''),
      (''bot'', json_opt_str (gpm_bot p)),
      (''context'', JStr (break_context_value (gpm_context p))),
      (''block_types'', JList (map JStr (gpm_block_types p))),
      (''region'', json_region (gpm_region p)),
      (''max_unique_blocks'', JInt (int (gpm_max_unique_blocks p))),
      (''authorized_unique_blocks'', JInt (int (card (gpm_authorized_positions p)))),
      (''ttl_remaining_s'', JFloat (Fin (py_round 3 (max 0 (gpm_expires_at p - now))))),
      (''purpose'', JStr (gpm_purpose p))]"

section \<open>Confirmation state\<close>

definition current_confirmation_epoch :: "governance_policy \<Rightarrow> gov_env \<Rightarrow> string" where
  "current_confirmation_epoch p e =
     gp_confirmation_epoch p @ '':'' @
     (case ge_scope e of None \<Rightarrow> ''None'' | Some s \<Rightarrow> s)"

definition prune_confirmation_state :: "governance_policy \<Rightarrow> gov_env \<Rightarrow> governance_policy" where
  "prune_confirmation_state p e =
     (let epoch = current_confirmation_epoch p e in
      p\<lparr>gp_pending_challenges :=
          filter (\<lambda>(_, c). gc_expires_at c > ge_now e \<and> gc_epoch c = epoch) (gp_pending_challenges p),
        gp_active_permits :=
          filter (\<lambda>(_, q). gpm_expires_at q > ge_now e \<and> gpm_epoch q = epoch) (gp_active_permits p)\<rparr>)"

text \<open>The two resets differ only in the scope they install, which is \<open>ge_scope\<close> of later calls.\<close>

definition begin_confirmation_epoch :: "governance_policy \<Rightarrow> string \<Rightarrow> governance_policy" where
  "begin_confirmation_epoch p fresh =
     p\<lparr>gp_pending_challenges := [], gp_active_permits := [], gp_confirmation_epoch := fresh\<rparr>"

definition invalidate_confirmation_state :: "governance_policy \<Rightarrow> string \<Rightarrow> governance_policy" where
  "invalidate_confirmation_state p fresh =
     p\<lparr>gp_pending_challenges := [], gp_active_permits := [], gp_confirmation_epoch := fresh\<rparr>"

definition pending_confirmations ::
  "governance_policy \<Rightarrow> gov_env \<Rightarrow> string option \<Rightarrow> json_object list \<times> governance_policy" where
  "pending_confirmations p e action_id =
     (let p' = prune_confirmation_state p e;
          cs = filter (\<lambda>c. case action_id of None \<Rightarrow> True | Some a \<Rightarrow> a \<in> gc_action_ids c)
                 (map snd (gp_pending_challenges p'));
          sorted = sort_key gc_created_at (sort_key gc_challenge_id cs)
      in (map (\<lambda>c. challenge_payload c (ge_now e)) sorted, p'))"

definition confirm_scope ::
  "governance_policy \<Rightarrow> gov_env \<Rightarrow> string \<Rightarrow> string \<Rightarrow> json_object \<times> governance_policy" where
  "confirm_scope p e challenge_id purpose =
     (let normalized_id = strip challenge_id;
          normalized_purpose = take 160 (join '' '' (split_words [] purpose));
          p1 = prune_confirmation_state p e
      in case map_of (gp_pending_challenges p1) normalized_id of
           None \<Rightarrow>
             ([(''confirmed'', JBool False),
               (''reason'', JStr ''governance_challenge_not_pending''),
               (''challenge_id'', JStr normalized_id)], p1)
         | Some c \<Rightarrow>
             (let p2 = p1\<lparr>gp_pending_challenges :=
                            AList.delete normalized_id (gp_pending_challenges p1)\<rparr>
              in if normalized_purpose = [] then
                   ([(''confirmed'', JBool False),
                     (''reason'', JStr ''governance_confirmation_purpose_required''),
                     (''challenge_id'', JStr normalized_id)],
                    p2\<lparr>gp_pending_challenges :=
                         AList.update normalized_id c (gp_pending_challenges p2)\<rparr>)
                 else
                   (let permit_id = ''gp-'' @ take 16 (ge_fresh_hex e);
                        permit = \<lparr>gpm_permit_id = permit_id,
                          gpm_challenge_id = gc_challenge_id c, gpm_bot = gc_bot c,
                          gpm_context = gc_context c, gpm_block_types = gc_block_types c,
                          gpm_region = gc_region c,
                          gpm_max_unique_blocks = gc_max_unique_blocks c,
                          gpm_expires_at = gc_expires_at c, gpm_epoch = gc_epoch c,
                          gpm_purpose = normalized_purpose, gpm_authorized_positions = {}\<rparr>
                    in ([(''confirmed'', JBool True),
                         (''reason'', JStr ''governance_scope_confirmed''),
                         (''challenge_id'', JStr (gc_challenge_id c)),
                         (''permit'', JDict (permit_payload permit (ge_now e)))],
                        p2\<lparr>gp_active_permits :=
                             AList.update permit_id permit (gp_active_permits p2)\<rparr>))))"

fun dismiss_challenges ::
  "string \<Rightarrow> (string, governance_challenge) pydict \<Rightarrow> (string, governance_challenge) pydict" where
  "dismiss_challenges a [] = []"
| "dismiss_challenges a ((k, c) # cs) =
     (if a \<notin> gc_action_ids c then (k, c) # dismiss_challenges a cs
      else let c' = c\<lparr>gc_action_ids := gc_action_ids c - {a}\<rparr>
           in if gc_action_ids c' = {} then dismiss_challenges a cs
              else (k, c') # dismiss_challenges a cs)"

definition dismiss_action_confirmations :: "governance_policy \<Rightarrow> string \<Rightarrow> governance_policy" where
  "dismiss_action_confirmations p action_id =
     p\<lparr>gp_pending_challenges := dismiss_challenges action_id (gp_pending_challenges p)\<rparr>"

definition record_bot_placement ::
  "governance_policy \<Rightarrow> position \<Rightarrow> string \<Rightarrow> string \<Rightarrow> string \<Rightarrow> governance_policy" where
  "record_bot_placement p pos block_type purpose who =
     p\<lparr>gp_bot_placements := AList.update pos
         \<lparr>bp_pos = pos, bp_block_type = normalize_block_type block_type, bp_purpose = purpose,
          bp_bot = who\<rparr> (gp_bot_placements p)\<rparr>"

section \<open>Issuing challenges and spending permits\<close>

definition challenge_matches ::
  "string \<Rightarrow> string option \<Rightarrow> break_context \<Rightarrow> string \<Rightarrow> position \<Rightarrow> governance_challenge \<Rightarrow> bool" where
  "challenge_matches epoch who context block_type pos c \<longleftrightarrow>
     gc_epoch c = epoch \<and> gc_bot c = who \<and> gc_context c = context \<and>
     block_type \<in> set (gc_block_types c) \<and> region_contains (gc_region c) pos"

text \<open>\<open>if action_id:\<close> is false for the empty string as for \<open>None\<close>.\<close>

definition action_id_set :: "string option \<Rightarrow> string set" where
  "action_id_set a = (case a of None \<Rightarrow> {} | Some s \<Rightarrow> if s = [] then {} else {s})"

definition new_challenge ::
  "governance_policy \<Rightarrow> gov_env \<Rightarrow> string \<Rightarrow> position \<Rightarrow> string \<Rightarrow> break_context
   \<Rightarrow> structure_risk_assessment \<Rightarrow> string option \<Rightarrow> string option \<Rightarrow> governance_challenge" where
  "new_challenge p e epoch pos block_type context assessment who action_id =
     (let challenge_id = ''gc-'' @ take 16 (ge_fresh_hex e);
          h = max (gp_confirmation_radius p) (confirmation_horizontal_radius context);
          v = max (gp_confirmation_vertical_radius p) (confirmation_vertical_radius context);
          (x, y, z) = pos
      in \<lparr>gc_challenge_id = challenge_id, gc_bot = who, gc_context = context,
          gc_block_types = [block_type],
          gc_region = \<lparr>rg_name = ''governance-confirmation:'' @ challenge_id,
                       rg_min_pos = (x - h, y - v, z - h), rg_max_pos = (x + h, y + v, z + h)\<rparr>,
          gc_max_unique_blocks = confirmation_max_unique_blocks context,
          gc_created_at = ge_now e, gc_expires_at = ge_now e + gp_confirmation_ttl_s p,
          gc_epoch = epoch, gc_evidence = structure_risk_payload assessment,
          gc_action_ids = action_id_set action_id\<rparr>)"

definition pending_confirmation ::
  "governance_policy \<Rightarrow> gov_env \<Rightarrow> position \<Rightarrow> string \<Rightarrow> break_context \<Rightarrow> structure_risk_assessment
   \<Rightarrow> string option \<Rightarrow> string option \<Rightarrow> json_object \<times> governance_policy" where
  "pending_confirmation p e pos block_type context assessment who action_id =
     (let p1 = prune_confirmation_state p e;
          epoch = current_confirmation_epoch p1 e
      in case find (\<lambda>(_, c). challenge_matches epoch who context block_type pos c)
                (gp_pending_challenges p1) of
           Some (k, c) \<Rightarrow>
             (let c' = c\<lparr>gc_action_ids := gc_action_ids c \<union> action_id_set action_id\<rparr>
              in (challenge_payload c' (ge_now e),
                  p1\<lparr>gp_pending_challenges := AList.update k c' (gp_pending_challenges p1)\<rparr>))
         | None \<Rightarrow>
             (let c = new_challenge p1 e epoch pos block_type context assessment who action_id
              in (challenge_payload c (ge_now e),
                  p1\<lparr>gp_pending_challenges :=
                       AList.update (gc_challenge_id c) c (gp_pending_challenges p1)\<rparr>)))"

definition permit_covers ::
  "string \<Rightarrow> string option \<Rightarrow> break_context \<Rightarrow> string \<Rightarrow> position \<Rightarrow> governance_permit \<Rightarrow> bool" where
  "permit_covers epoch who context block_type pos q \<longleftrightarrow>
     gpm_epoch q = epoch \<and> gpm_bot q = who \<and> gpm_context q = context \<and>
     block_type \<in> set (gpm_block_types q) \<and> region_contains (gpm_region q) pos"

text \<open>
  The loop over the permits in insertion order: an uncovered permit is skipped, a covering
  one that is used up is dropped, the first covering one with room left is spent.
\<close>

fun spend_permit ::
  "(governance_permit \<Rightarrow> bool) \<Rightarrow> position \<Rightarrow> (string, governance_permit) pydict
   \<Rightarrow> governance_permit option \<times> (string, governance_permit) pydict" where
  "spend_permit covers pos [] = (None, [])"
| "spend_permit covers pos ((k, q) # qs) =
     (if \<not> covers q then (case spend_permit covers pos qs of (r, qs') \<Rightarrow> (r, (k, q) # qs'))
      else if pos \<notin> gpm_authorized_positions q \<and>
              card (gpm_authorized_positions q) \<ge> gpm_max_unique_blocks q
      then spend_permit covers pos qs
      else (let q' = q\<lparr>gpm_authorized_positions := insert pos (gpm_authorized_positions q)\<rparr>
            in (Some q', (k, q') # qs)))"

definition authorize_from_confirmed_scope ::
  "governance_policy \<Rightarrow> gov_env \<Rightarrow> position \<Rightarrow> string \<Rightarrow> break_context \<Rightarrow> string option
   \<Rightarrow> json_object option \<times> governance_policy" where
  "authorize_from_confirmed_scope p e pos block_type context who =
     (let p1 = prune_confirmation_state p e;
          epoch = current_confirmation_epoch p1 e
      in case spend_permit (permit_covers epoch who context block_type pos) pos (gp_active_permits p1) of
           (r, qs) \<Rightarrow> (map_option (\<lambda>q. permit_payload q (ge_now e)) r, p1\<lparr>gp_active_permits := qs\<rparr>))"

section \<open>Decisions\<close>

definition region_containing :: "region list \<Rightarrow> position \<Rightarrow> region option" where
  "region_containing regions pos = find (\<lambda>r. region_contains r pos) regions"

definition can_break_bot_owned ::
  "bot_placement \<Rightarrow> string \<Rightarrow> break_context \<Rightarrow> legality_decision" where
  "can_break_bot_owned entry block_type context =
     (if bp_block_type entry \<noteq> block_type then
        (legality False ''bot_ledger_type_mismatch'')\<lparr>ld_protected := True, ld_bot_owned := True,
           ld_details := [(''ledger_type'', JStr (bp_block_type entry)), (''observed_type'', JStr block_type)]\<rparr>
      else if context \<noteq> BC_BOT_CLEANUP \<and> bp_purpose entry \<notin> TEMPORARY_BOT_PURPOSES then
        (legality False ''bot_owned_not_temporary'')\<lparr>ld_protected := True, ld_bot_owned := True\<rparr>
      else (legality True ''allowed_bot_owned'')\<lparr>ld_bot_owned := True\<rparr>)"

definition assess_structure_risk ::
  "governance_policy \<Rightarrow> assessor option \<Rightarrow> position \<Rightarrow> string \<Rightarrow> break_context
   \<Rightarrow> structure_risk_assessment option" where
  "assess_structure_risk p assessor pos block_type context =
     (case assessor of None \<Rightarrow> None
      | Some assess \<Rightarrow>
          (case assess pos block_type context (gp_bot_placements p) of
             Inr a \<Rightarrow> Some a
           | Inl exc \<Rightarrow> Some \<lparr>sra_pos = pos, sra_block_type = block_type,
               sra_level = RISK_AMBIGUOUS, sra_score = 1, sra_complete = False,
               sra_sampled_cells = 0, sra_signals = [''assessor_failed:'' @ exc],
               sra_source = ''voxel''\<rparr>))"

text \<open>\<open>bot or self.bot_name\<close>: an empty name is no name.\<close>

definition acting_bot :: "governance_policy \<Rightarrow> string option \<Rightarrow> string option" where
  "acting_bot p who =
     (case who of Some b \<Rightarrow> if b = [] then gp_bot_name p else Some b | None \<Rightarrow> gp_bot_name p)"

text \<open>
  The part of \<open>can_break\<close> that settles a break without the assessor, in the source's
  order; \<open>None\<close> when the decision is left to the structure-risk assessment. The block
  type is already normalised.
\<close>

definition break_static_rules ::
  "governance_policy \<Rightarrow> position \<Rightarrow> string \<Rightarrow> break_context \<Rightarrow> bool \<Rightarrow> string option
   \<Rightarrow> legality_decision option" where
  "break_static_rules p pos block_type context explicit_target actor =
     (if gp_bot_name p \<noteq> None \<and> actor \<noteq> None \<and> actor \<noteq> gp_bot_name p then
        Some ((legality False ''governance_bot_mismatch'')\<lparr>ld_protected := True,
                ld_details := [(''expected_bot'', json_opt_str (gp_bot_name p)),
                               (''observed_bot'', json_opt_str actor)]\<rparr>)
      else case region_containing (gp_protected_regions p) pos of
        Some r \<Rightarrow> Some ((legality False ''protected_region'')\<lparr>ld_protected := True,
                          ld_details := [(''region'', JStr (rg_name r))]\<rparr>)
      | None \<Rightarrow>
     (case map_of (gp_bot_placements p) pos of
        Some entry \<Rightarrow> Some (can_break_bot_owned entry block_type context)
      | None \<Rightarrow>
     (let natural_region = region_containing (gp_natural_regions p) pos;
          region_name = map_option rg_name natural_region
      in if context = BC_FARM \<and> block_type \<in> FARM_TARGETS then
           (if natural_region = None
            then Some ((legality False ''unknown_provenance'')\<lparr>ld_protected := True\<rparr>)
            else Some ((legality True ''allowed_natural_farm'')\<lparr>ld_natural_region := region_name\<rparr>))
         else if block_type \<in> STRONGLY_PROTECTED_TYPES then
           Some ((legality False ''protected_type'')\<lparr>ld_protected := True\<rparr>)
         else if natural_region = None \<and> context = BC_TRAVEL then
           Some ((legality False ''unknown_provenance'')\<lparr>ld_protected := True\<rparr>)
         else if block_type \<notin> NATURAL_BREAKABLE then
           Some ((legality False ''not_natural_breakable'')\<lparr>ld_protected := True,
                   ld_natural_region := region_name\<rparr>)
         else if context = BC_PATH then
           Some ((legality False ''path_no_terrain_break'')\<lparr>ld_natural_region := region_name\<rparr>)
         else if context = BC_RECOVERY \<and> block_type \<in> RECOVERY_ROUTE_AVOID_TYPES then
           Some ((legality False ''recovery_no_resource_break'')\<lparr>ld_natural_region := region_name\<rparr>)
         else if context = BC_COLLECT \<and> block_type \<notin> COLLECT_TARGETS \<and> \<not> explicit_target then
           Some ((legality False ''collect_target_required'')\<lparr>ld_natural_region := region_name\<rparr>)
         else if context = BC_BOT_CLEANUP then
           Some ((legality False ''not_bot_owned'')\<lparr>ld_protected := True,
                   ld_natural_region := region_name\<rparr>)
         else None)))"

text \<open>
  The rest of \<open>can_break\<close>: the assessment decides, and an ambiguous one is decided by a
  confirmed scope. The clock and the scope are read twice, once in each locked section.
\<close>

definition break_assessed ::
  "governance_policy \<Rightarrow> assessor option \<Rightarrow> gov_env \<Rightarrow> gov_env \<Rightarrow> position \<Rightarrow> string \<Rightarrow> break_context
   \<Rightarrow> string option \<Rightarrow> string option \<Rightarrow> legality_decision \<times> governance_policy" where
  "break_assessed p assessor e1 e2 pos block_type context actor action_id =
     (let region_name = map_option rg_name (region_containing (gp_natural_regions p) pos)
      in case assess_structure_risk p assessor pos block_type context of
        None \<Rightarrow>
          (if gp_require_structure_assessment p
           then ((legality False ''structure_assessment_required'')\<lparr>ld_protected := True,
                   ld_natural_region := region_name\<rparr>, p)
           else ((legality True ''allowed_natural'')\<lparr>ld_natural_region := region_name\<rparr>, p))
      | Some a \<Rightarrow>
          (let risk = JDict (structure_risk_payload a) in
           if \<not> sra_complete a then
             ((legality False ''structure_risk_unknown'')\<lparr>ld_protected := True,
                ld_natural_region := region_name, ld_details := [(''structure_risk'', risk)]\<rparr>, p)
           else if sra_level a = RISK_HIGH then
             ((legality False ''player_structure_risk'')\<lparr>ld_protected := True,
                ld_natural_region := region_name, ld_details := [(''structure_risk'', risk)]\<rparr>, p)
           else if sra_level a = RISK_AMBIGUOUS then
             (case authorize_from_confirmed_scope p e1 pos block_type context actor of
                (Some permit, p') \<Rightarrow>
                  ((legality True ''allowed_governance_scope'')\<lparr>ld_natural_region := region_name,
                     ld_details := [(''structure_risk'', risk), (''governance_permit'', JDict permit)]\<rparr>, p')
              | (None, p') \<Rightarrow>
                  (case pending_confirmation p' e2 pos block_type context a actor action_id of
                     (challenge, p'') \<Rightarrow>
                       ((legality False ''governance_confirmation_required'')\<lparr>
                          ld_natural_region := region_name,
                          ld_details := [(''structure_risk'', risk),
                                         (''governance_confirmation'', JDict challenge)]\<rparr>, p'')))
           else
             ((legality True ''allowed_natural'')\<lparr>ld_natural_region := region_name,
                ld_details := [(''structure_risk'', risk)]\<rparr>, p)))"

definition can_break ::
  "governance_policy \<Rightarrow> assessor option \<Rightarrow> gov_env \<Rightarrow> gov_env \<Rightarrow> position \<Rightarrow> string \<Rightarrow> break_context
   \<Rightarrow> bool \<Rightarrow> string option \<Rightarrow> string option \<Rightarrow> legality_decision \<times> governance_policy" where
  "can_break p assessor e1 e2 pos raw_type context explicit_target who action_id =
     (let block_type = normalize_block_type raw_type;
          actor = acting_bot p who
      in case break_static_rules p pos block_type context explicit_target actor of
           Some d \<Rightarrow> (d, p)
         | None \<Rightarrow> break_assessed p assessor e1 e2 pos block_type context actor action_id)"

definition can_stand :: "governance_policy \<Rightarrow> position \<Rightarrow> string \<Rightarrow> legality_decision" where
  "can_stand p pos raw_type =
     (let support_type = normalize_block_type raw_type;
          stand = (''operation'', JStr ''stand'')
      in case region_containing (gp_protected_regions p) pos of
        Some r \<Rightarrow> (legality False ''protected_region'')\<lparr>ld_protected := True,
                    ld_details := [(''region'', JStr (rg_name r)), stand]\<rparr>
      | None \<Rightarrow>
     (case map_of (gp_bot_placements p) pos of
        Some entry \<Rightarrow>
          (if bp_block_type entry \<noteq> support_type then
             (legality False ''bot_ledger_type_mismatch'')\<lparr>ld_protected := True, ld_bot_owned := True,
                ld_details := [(''ledger_type'', JStr (bp_block_type entry)),
                               (''observed_type'', JStr support_type)]\<rparr>
           else (legality True ''allowed_bot_owned'')\<lparr>ld_bot_owned := True, ld_details := [stand]\<rparr>)
      | None \<Rightarrow>
          (if support_type \<in> STRONGLY_PROTECTED_TYPES then
             (legality False ''protected_support_type'')\<lparr>ld_protected := True, ld_details := [stand]\<rparr>
           else if support_type \<in> UNSAFE_STAND_SUPPORT_TYPES then
             (legality False ''unsafe_support_type'')\<lparr>ld_protected := True, ld_details := [stand]\<rparr>
           else case region_containing (gp_natural_regions p) pos of
             None \<Rightarrow> (legality False ''unknown_provenance'')\<lparr>ld_protected := True, ld_details := [stand]\<rparr>
           | Some r \<Rightarrow> (legality True ''allowed_stand'')\<lparr>ld_natural_region := Some (rg_name r),
                         ld_details := [stand]\<rparr>)))"

definition can_place ::
  "governance_policy \<Rightarrow> position \<Rightarrow> string \<Rightarrow> place_context \<Rightarrow> string \<Rightarrow> legality_decision" where
  "can_place p pos raw_type context who =
     (let block_type = normalize_block_type raw_type
      in case region_containing (gp_protected_regions p) pos of
        Some r \<Rightarrow> (legality False ''protected_region'')\<lparr>ld_protected := True,
                    ld_details := [(''region'', JStr (rg_name r))]\<rparr>
      | None \<Rightarrow>
     (let natural_region = region_containing (gp_natural_regions p) pos
      in if natural_region = None \<and> context \<noteq> PC_DIRECT then
           (legality False ''unknown_provenance'')\<lparr>ld_protected := True\<rparr>
         else if block_type \<in> STRONGLY_PROTECTED_TYPES \<and> context \<in> {PC_TRAVEL, PC_RECOVERY} then
           (legality False ''protected_type'')\<lparr>ld_protected := True\<rparr>
         else (legality True ''allowed_place'')\<lparr>ld_natural_region := map_option rg_name natural_region,
                ld_details := [(''bot'', JStr who), (''context'', JStr (place_context_value context))]\<rparr>))"

definition can_interact ::
  "governance_policy \<Rightarrow> position \<Rightarrow> string \<Rightarrow> interaction_context \<Rightarrow> legality_decision" where
  "can_interact p pos raw_type context =
     (let ctx = (''context'', JStr (interaction_context_value context))
      in case region_containing (gp_protected_regions p) pos of
        Some r \<Rightarrow> (legality False ''protected_region'')\<lparr>ld_protected := True,
                    ld_details := [(''region'', JStr (rg_name r)), ctx]\<rparr>
      | None \<Rightarrow>
     (case region_containing (gp_natural_regions p) pos of
        None \<Rightarrow> (legality False ''unknown_provenance'')\<lparr>ld_protected := True, ld_details := [ctx]\<rparr>
      | Some r \<Rightarrow> (legality True ''allowed_interaction'')\<lparr>ld_natural_region := Some (rg_name r),
                    ld_details := [ctx]\<rparr>))"

end
