(* ===== verification/Governance_Safety.thy ===== *)
theory Governance_Safety
  imports Governance
begin

text \<open>
  What the governance policy promises. First a declarative specification of \<open>can_break\<close>
  and the proof that the code decides exactly that; then the invariant of the
  confirmation state over every sequence of operations, and the safety and liveness
  properties that follow.
\<close>

named_theorems gov_op_defs \<open>definitions of the operations on the policy\<close>

lemmas [gov_op_defs] =
  begin_confirmation_epoch_def invalidate_confirmation_state_def pending_confirmations_def
  dismiss_action_confirmations_def record_bot_placement_def prune_confirmation_state_def

section \<open>Lookups\<close>

lemma region_containing_None:
  "region_containing rs pos = None \<longleftrightarrow> (\<forall>r\<in>set rs. \<not> region_contains r pos)"
  by (auto simp: region_containing_def find_None_iff)

lemma region_containing_Some:
  "region_containing rs pos = Some r \<Longrightarrow> r \<in> set rs \<and> region_contains r pos"
  by (auto simp: region_containing_def find_Some_iff)

section \<open>Spending permits\<close>

definition permit_has_room :: "position \<Rightarrow> governance_permit \<Rightarrow> bool" where
  "permit_has_room pos q \<longleftrightarrow>
     pos \<in> gpm_authorized_positions q \<or> card (gpm_authorized_positions q) < gpm_max_unique_blocks q"

text \<open>One equation per outcome of the loop's body.\<close>

lemma spend_permit_cons [simp]:
  "spend_permit covers pos ((k, q) # qs) =
     (if covers q \<and> permit_has_room pos q
      then (Some (q\<lparr>gpm_authorized_positions := insert pos (gpm_authorized_positions q)\<rparr>),
            (k, q\<lparr>gpm_authorized_positions := insert pos (gpm_authorized_positions q)\<rparr>) # qs)
      else if covers q then spend_permit covers pos qs
      else (fst (spend_permit covers pos qs), (k, q) # snd (spend_permit covers pos qs)))"
  by (simp add: permit_has_room_def Let_def not_less split: prod.splits)

declare spend_permit.simps(2) [simp del]

lemma spend_permit_Some_iff:
  "(\<exists>r. fst (spend_permit covers pos qs) = Some r) \<longleftrightarrow>
     (\<exists>k q. (k, q) \<in> set qs \<and> covers q \<and> permit_has_room pos q)"
proof (induction qs)
  case (Cons kq qs)
  obtain k q where kq: "kq = (k, q)" by (cases kq)
  show ?case
  proof (cases "covers q \<and> permit_has_room pos q")
    case True
    then show ?thesis by (auto simp: kq)
  next
    case False
    then have "fst (spend_permit covers pos (kq # qs)) = fst (spend_permit covers pos qs)"
      by (simp add: kq)
    with Cons.IH False show ?thesis by (auto simp: kq)
  qed
qed simp

text \<open>Every permit left is an old one, or the one that was spent on \<open>pos\<close>.\<close>

lemma spend_permit_members:
  "(k, q') \<in> set (snd (spend_permit covers pos qs)) \<Longrightarrow>
     (k, q') \<in> set qs \<or>
     (\<exists>q. (k, q) \<in> set qs \<and> covers q \<and> permit_has_room pos q \<and>
          q' = q\<lparr>gpm_authorized_positions := insert pos (gpm_authorized_positions q)\<rparr>)"
proof (induction qs)
  case (Cons kq qs)
  obtain k0 q0 where kq: "kq = (k0, q0)" by (cases kq)
  have "(k, q') \<in> set (snd (spend_permit covers pos qs)) \<Longrightarrow> ?case"
    using Cons.IH by auto
  with Cons.prems show ?case by (auto simp: kq split: if_splits)
qed simp

lemma spend_permit_keys:
  "(k, q') \<in> set (snd (spend_permit covers pos qs)) \<Longrightarrow> k \<in> fst ` set qs"
  by (drule spend_permit_members) force

lemma spend_permit_distinct:
  "distinct (map fst qs) \<Longrightarrow> distinct (map fst (snd (spend_permit covers pos qs)))"
proof (induction qs)
  case (Cons kq qs)
  obtain k q where kq: "kq = (k, q)" by (cases kq)
  have "k \<notin> fst ` set (snd (spend_permit covers pos qs))"
    using Cons.prems kq by (auto dest: spend_permit_keys)
  with Cons kq show ?case by simp
qed simp

section \<open>What a break needs\<close>

definition declared_natural :: "governance_policy \<Rightarrow> position \<Rightarrow> bool" where
  "declared_natural p pos \<longleftrightarrow> (\<exists>r\<in>set (gp_natural_regions p). region_contains r pos)"

definition outside_protection :: "governance_policy \<Rightarrow> position \<Rightarrow> bool" where
  "outside_protection p pos \<longleftrightarrow> (\<forall>r\<in>set (gp_protected_regions p). \<not> region_contains r pos)"

definition actor_accepted :: "governance_policy \<Rightarrow> string option \<Rightarrow> bool" where
  "actor_accepted p actor \<longleftrightarrow> gp_bot_name p = None \<or> actor = None \<or> actor = gp_bot_name p"

definition natural_break_ok ::
  "governance_policy \<Rightarrow> position \<Rightarrow> string \<Rightarrow> break_context \<Rightarrow> bool \<Rightarrow> bool" where
  "natural_break_ok p pos block_type context explicit_target \<longleftrightarrow>
     block_type \<in> NATURAL_BREAKABLE \<and>
     context \<noteq> BC_PATH \<and> context \<noteq> BC_BOT_CLEANUP \<and>
     (context = BC_TRAVEL \<longrightarrow> declared_natural p pos) \<and>
     (context = BC_RECOVERY \<longrightarrow> block_type \<notin> RECOVERY_ROUTE_AVOID_TYPES) \<and>
     (context = BC_COLLECT \<longrightarrow> block_type \<in> COLLECT_TARGETS \<or> explicit_target)"

text \<open>A permit that stands for this break now: confirmed, in force, covering, with room left.\<close>

definition standing_permit ::
  "governance_policy \<Rightarrow> gov_env \<Rightarrow> position \<Rightarrow> string \<Rightarrow> break_context \<Rightarrow> string option
   \<Rightarrow> governance_permit \<Rightarrow> bool" where
  "standing_permit p e pos block_type context actor q \<longleftrightarrow>
     (\<exists>k. (k, q) \<in> set (gp_active_permits p)) \<and> gpm_expires_at q > ge_now e \<and>
     permit_covers (current_confirmation_epoch p e) actor context block_type pos q \<and>
     permit_has_room pos q"

definition risk_accepted ::
  "governance_policy \<Rightarrow> assessor option \<Rightarrow> gov_env \<Rightarrow> position \<Rightarrow> string \<Rightarrow> break_context
   \<Rightarrow> string option \<Rightarrow> bool" where
  "risk_accepted p assessor e pos block_type context actor \<longleftrightarrow>
     (case assess_structure_risk p assessor pos block_type context of
        None \<Rightarrow> \<not> gp_require_structure_assessment p
      | Some a \<Rightarrow> sra_complete a \<and>
          (sra_level a = RISK_LOW \<or>
           sra_level a = RISK_AMBIGUOUS \<and>
             (\<exists>q. standing_permit p e pos block_type context actor q)))"

definition break_permitted ::
  "governance_policy \<Rightarrow> assessor option \<Rightarrow> gov_env \<Rightarrow> position \<Rightarrow> string \<Rightarrow> break_context
   \<Rightarrow> bool \<Rightarrow> string option \<Rightarrow> bool" where
  "break_permitted p assessor e pos block_type context explicit_target actor \<longleftrightarrow>
     actor_accepted p actor \<and> outside_protection p pos \<and>
     (case map_of (gp_bot_placements p) pos of
        Some entry \<Rightarrow> bp_block_type entry = block_type \<and>
          (context = BC_BOT_CLEANUP \<or> bp_purpose entry \<in> TEMPORARY_BOT_PURPOSES)
      | None \<Rightarrow>
          context = BC_FARM \<and> block_type \<in> FARM_TARGETS \<and> declared_natural p pos \<or>
          natural_break_ok p pos block_type context explicit_target \<and>
            risk_accepted p assessor e pos block_type context actor)"

lemma declared_natural_iff:
  "declared_natural p pos \<longleftrightarrow> region_containing (gp_natural_regions p) pos \<noteq> None"
  by (auto simp: declared_natural_def region_containing_None)

lemma outside_protection_iff:
  "outside_protection p pos \<longleftrightarrow> region_containing (gp_protected_regions p) pos = None"
  by (simp add: outside_protection_def region_containing_None)

lemma natural_not_farm: "b \<in> NATURAL_BREAKABLE \<Longrightarrow> b \<notin> FARM_TARGETS"
  using natural_not_protected farm_subset_protected by blast

lemma natural_not_strong: "b \<in> NATURAL_BREAKABLE \<Longrightarrow> b \<notin> STRONGLY_PROTECTED_TYPES"
  using natural_not_protected by blast

lemma authorize_Some_iff:
  "(\<exists>r. fst (authorize_from_confirmed_scope p e pos block_type context actor) = Some r) \<longleftrightarrow>
     (\<exists>q. standing_permit p e pos block_type context actor q)"
proof -
  let ?p1 = "prune_confirmation_state p e"
  let ?ep = "current_confirmation_epoch p e"
  let ?cov = "permit_covers ?ep actor context block_type pos"
  have ep: "current_confirmation_epoch ?p1 e = ?ep"
    by (simp add: current_confirmation_epoch_def prune_confirmation_state_def Let_def)
  have "(\<exists>r. fst (authorize_from_confirmed_scope p e pos block_type context actor) = Some r) \<longleftrightarrow>
        (\<exists>r. fst (spend_permit ?cov pos (gp_active_permits ?p1)) = Some r)"
    by (auto simp: authorize_from_confirmed_scope_def Let_def ep split: prod.splits)
  also have "\<dots> \<longleftrightarrow> (\<exists>k q. (k, q) \<in> set (gp_active_permits ?p1) \<and> ?cov q \<and> permit_has_room pos q)"
    by (rule spend_permit_Some_iff)
  also have "\<dots> \<longleftrightarrow> (\<exists>q. standing_permit p e pos block_type context actor q)"
    by (auto simp: prune_confirmation_state_def Let_def standing_permit_def permit_covers_def)
  finally show ?thesis .
qed

text \<open>
  The static rules, one early return at a time: the actor, the protected regions, the
  ledger, and what is left for undisturbed terrain.
\<close>

lemma static_rules_mismatch:
  "\<not> actor_accepted p actor \<Longrightarrow>
     \<exists>d. break_static_rules p pos b ctx ex actor = Some d \<and> \<not> ld_allowed d"
  by (simp add: break_static_rules_def actor_accepted_def)

lemma static_rules_protected:
  "actor_accepted p actor \<Longrightarrow> \<not> outside_protection p pos \<Longrightarrow>
     \<exists>d. break_static_rules p pos b ctx ex actor = Some d \<and> \<not> ld_allowed d"
  by (auto simp: break_static_rules_def actor_accepted_def outside_protection_iff)

lemma static_rules_ledger:
  "actor_accepted p actor \<Longrightarrow> outside_protection p pos \<Longrightarrow>
     map_of (gp_bot_placements p) pos = Some entry \<Longrightarrow>
     break_static_rules p pos b ctx ex actor = Some (can_break_bot_owned entry b ctx)"
  by (auto simp: break_static_rules_def actor_accepted_def outside_protection_iff)

lemma ledger_break_allowed:
  "ld_allowed (can_break_bot_owned entry b ctx) \<longleftrightarrow>
     bp_block_type entry = b \<and> (ctx = BC_BOT_CLEANUP \<or> bp_purpose entry \<in> TEMPORARY_BOT_PURPOSES)"
  by (simp add: can_break_bot_owned_def)

lemma static_rules_terrain:
  assumes "actor_accepted p actor" and "outside_protection p pos"
    and "map_of (gp_bot_placements p) pos = None"
  shows "case break_static_rules p pos b ctx ex actor of
           None \<Rightarrow> natural_break_ok p pos b ctx ex
         | Some d \<Rightarrow> \<not> natural_break_ok p pos b ctx ex \<and>
             (ld_allowed d \<longleftrightarrow> ctx = BC_FARM \<and> b \<in> FARM_TARGETS \<and> declared_natural p pos)"
proof -
  have "b \<in> NATURAL_BREAKABLE \<Longrightarrow> b \<notin> STRONGLY_PROTECTED_TYPES"
       "b \<in> NATURAL_BREAKABLE \<Longrightarrow> b \<notin> FARM_TARGETS"
    by (simp_all add: natural_not_strong natural_not_farm)
  moreover have "(gp_bot_name p \<noteq> None \<and> actor \<noteq> None \<and> actor \<noteq> gp_bot_name p) = False"
    using assms(1) by (auto simp: actor_accepted_def)
  ultimately show ?thesis
    using assms(2,3) unfolding break_static_rules_def
    by (cases ctx; auto simp: Let_def outside_protection_iff natural_break_ok_def
        declared_natural_iff)
qed

lemma static_rules_None_iff:
  "break_static_rules p pos b ctx ex actor = None \<longleftrightarrow>
     actor_accepted p actor \<and> outside_protection p pos \<and>
     map_of (gp_bot_placements p) pos = None \<and> natural_break_ok p pos b ctx ex"
proof -
  consider (mismatch) "\<not> actor_accepted p actor"
    | (protected) "actor_accepted p actor" "\<not> outside_protection p pos"
    | (ledger) entry where "actor_accepted p actor" "outside_protection p pos"
        "map_of (gp_bot_placements p) pos = Some entry"
    | (terrain) "actor_accepted p actor" "outside_protection p pos"
        "map_of (gp_bot_placements p) pos = None"
    by (cases "map_of (gp_bot_placements p) pos") auto
  then show ?thesis
  proof cases
    case mismatch
    with static_rules_mismatch [OF this, of pos b ctx ex] show ?thesis by auto
  next
    case protected
    with static_rules_protected [OF this, of b ctx ex] show ?thesis by auto
  next
    case ledger
    with static_rules_ledger [OF this, of b ctx ex] show ?thesis by auto
  next
    case terrain
    with static_rules_terrain [OF this, of b ctx ex] show ?thesis
      by (cases "break_static_rules p pos b ctx ex actor") auto
  qed
qed

lemma break_assessed_allowed:
  "ld_allowed (fst (break_assessed p assessor e1 e2 pos b ctx actor aid)) \<longleftrightarrow>
     risk_accepted p assessor e1 pos b ctx actor"
proof (cases "assess_structure_risk p assessor pos b ctx")
  case None
  then show ?thesis by (simp add: break_assessed_def risk_accepted_def Let_def)
next
  case (Some a)
  show ?thesis
  proof (cases "sra_complete a \<and> sra_level a = RISK_AMBIGUOUS")
    case True
    have "ld_allowed (fst (break_assessed p assessor e1 e2 pos b ctx actor aid)) \<longleftrightarrow>
          (\<exists>r. fst (authorize_from_confirmed_scope p e1 pos b ctx actor) = Some r)"
      using True by (auto simp: break_assessed_def Some Let_def split: prod.splits option.splits)
    with True Some show ?thesis by (simp add: authorize_Some_iff risk_accepted_def)
  next
    case False
    with Some show ?thesis
      by (cases "sra_level a") (auto simp: break_assessed_def risk_accepted_def Let_def)
  qed
qed

lemma can_break_allowed_iff:
  "ld_allowed (fst (can_break p assessor e1 e2 pos raw ctx ex who aid)) \<longleftrightarrow>
     break_permitted p assessor e1 pos (normalize_block_type raw) ctx ex (acting_bot p who)"
proof -
  let ?b = "normalize_block_type raw" and ?a = "acting_bot p who"
  let ?s = "break_static_rules p pos ?b ctx ex ?a"
  consider (mismatch) "\<not> actor_accepted p ?a"
    | (protected) "actor_accepted p ?a" "\<not> outside_protection p pos"
    | (ledger) entry where "actor_accepted p ?a" "outside_protection p pos"
        "map_of (gp_bot_placements p) pos = Some entry"
    | (terrain) "actor_accepted p ?a" "outside_protection p pos"
        "map_of (gp_bot_placements p) pos = None"
    by (cases "map_of (gp_bot_placements p) pos") auto
  then show ?thesis
  proof cases
    case mismatch
    from static_rules_mismatch [OF this, of pos ?b ctx ex] mismatch show ?thesis
      by (auto simp: can_break_def break_permitted_def)
  next
    case protected
    from static_rules_protected [OF this, of ?b ctx ex] protected show ?thesis
      by (auto simp: can_break_def break_permitted_def)
  next
    case ledger
    from static_rules_ledger [OF this, of ?b ctx ex] ledger show ?thesis
      by (simp add: can_break_def break_permitted_def ledger_break_allowed)
  next
    case terrain
    note T = static_rules_terrain [OF terrain, of ?b ctx ex]
    show ?thesis
    proof (cases ?s)
      case None
      with T have "natural_break_ok p pos ?b ctx ex" by simp
      moreover from this have "?b \<notin> FARM_TARGETS"
        by (simp add: natural_break_ok_def natural_not_farm)
      ultimately show ?thesis
        using None terrain by (simp add: can_break_def break_permitted_def break_assessed_allowed)
    next
      case (Some d)
      with T terrain show ?thesis by (simp add: can_break_def break_permitted_def)
    qed
  qed
qed

section \<open>The confirmation state over a run\<close>

datatype gov_op =
    OpBegin string
  | OpInvalidate string
  | OpPending gov_env "string option"
  | OpConfirm gov_env string string
  | OpDismiss string
  | OpRecord position string string string
  | OpBreak "assessor option" gov_env gov_env position string break_context bool
      "string option" "string option"

fun gov_apply :: "governance_policy \<Rightarrow> gov_op \<Rightarrow> governance_policy" where
  "gov_apply p (OpBegin fresh) = begin_confirmation_epoch p fresh"
| "gov_apply p (OpInvalidate fresh) = invalidate_confirmation_state p fresh"
| "gov_apply p (OpPending e a) = snd (pending_confirmations p e a)"
| "gov_apply p (OpConfirm e cid purpose) = snd (confirm_scope p e cid purpose)"
| "gov_apply p (OpDismiss a) = dismiss_action_confirmations p a"
| "gov_apply p (OpRecord pos b purpose who) = record_bot_placement p pos b purpose who"
| "gov_apply p (OpBreak asr e1 e2 pos b ctx ex who aid) =
     snd (can_break p asr e1 e2 pos b ctx ex who aid)"

definition gov_run :: "governance_policy \<Rightarrow> gov_op list \<Rightarrow> governance_policy" where
  "gov_run p ops = foldl gov_apply p ops"

fun is_confirm :: "gov_op \<Rightarrow> bool" where
  "is_confirm (OpConfirm _ _ _) = True"
| "is_confirm _ = False"

text \<open>
  A permit's spent positions stay inside its region and its budget, a challenge is stored
  under its own id with a positive budget, and keys do not repeat.
\<close>

definition permit_ok :: "governance_permit \<Rightarrow> bool" where
  "permit_ok q \<longleftrightarrow> finite (gpm_authorized_positions q) \<and>
     card (gpm_authorized_positions q) \<le> gpm_max_unique_blocks q \<and>
     (\<forall>pos\<in>gpm_authorized_positions q. region_contains (gpm_region q) pos)"

definition governance_inv :: "governance_policy \<Rightarrow> bool" where
  "governance_inv p \<longleftrightarrow>
     (\<forall>k q. (k, q) \<in> set (gp_active_permits p) \<longrightarrow> permit_ok q) \<and>
     (\<forall>k c. (k, c) \<in> set (gp_pending_challenges p) \<longrightarrow>
        gc_challenge_id c = k \<and> 0 < gc_max_unique_blocks c) \<and>
     distinct (map fst (gp_pending_challenges p)) \<and>
     distinct (map fst (gp_active_permits p)) \<and>
     1 \<le> gp_confirmation_ttl_s p \<and> 1 \<le> gp_confirmation_radius p \<and>
     0 \<le> gp_confirmation_vertical_radius p"

lemma max_unique_blocks_pos: "8 \<le> confirmation_max_unique_blocks ctx"
  by (cases ctx) simp_all

lemma permit_ok_fresh: "gpm_authorized_positions q = {} \<Longrightarrow> permit_ok q"
  by (simp add: permit_ok_def)

lemma permit_ok_spend:
  assumes "permit_ok q" and "permit_has_room pos q" and "region_contains (gpm_region q) pos"
  shows "permit_ok (q\<lparr>gpm_authorized_positions := insert pos (gpm_authorized_positions q)\<rparr>)"
  using assms by (auto simp: permit_ok_def permit_has_room_def card_insert_if)

lemma governance_inv_init:
  "governance_inv (governance_init natl prot pl req who ttl r v fresh)"
  by (simp add: governance_inv_def governance_init_def)

lemma governance_inv_prune: "governance_inv p \<Longrightarrow> governance_inv (prune_confirmation_state p e)"
  by (auto simp: governance_inv_def prune_confirmation_state_def Let_def)

lemma governance_inv_reset:
  "governance_inv p \<Longrightarrow> governance_inv (begin_confirmation_epoch p fresh)"
  "governance_inv p \<Longrightarrow> governance_inv (invalidate_confirmation_state p fresh)"
  by (simp_all add: governance_inv_def begin_confirmation_epoch_def invalidate_confirmation_state_def)

lemma dismiss_challenges_members:
  "(k, c') \<in> set (dismiss_challenges a cs) \<Longrightarrow>
     \<exists>c. (k, c) \<in> set cs \<and> gc_challenge_id c' = gc_challenge_id c \<and>
         gc_max_unique_blocks c' = gc_max_unique_blocks c"
proof (induction cs)
  case (Cons kc cs)
  obtain k0 c0 where kc: "kc = (k0, c0)" by (cases kc)
  from Cons.prems consider "(k, c') = (k0, c0)" | "(k, c') = (k0, c0\<lparr>gc_action_ids := gc_action_ids c0 - {a}\<rparr>)"
    | "(k, c') \<in> set (dismiss_challenges a cs)"
    by (auto simp: kc Let_def split: if_splits)
  then show ?case
    using Cons.IH by cases (force simp: kc)+
qed simp

lemma dismiss_challenges_distinct:
  "distinct (map fst cs) \<Longrightarrow> distinct (map fst (dismiss_challenges a cs))"
proof (induction a cs rule: dismiss_challenges.induct)
  case (2 a k c cs)
  have "k \<notin> fst ` set (dismiss_challenges a cs)"
    using "2.prems" dismiss_challenges_members [of k _ a cs] by force
  with 2 show ?case by (simp add: Let_def)
qed simp

lemma governance_inv_dismiss:
  assumes "governance_inv p"
  shows "governance_inv (dismiss_action_confirmations p a)"
proof -
  have "gc_challenge_id c' = k \<and> 0 < gc_max_unique_blocks c'"
    if "(k, c') \<in> set (dismiss_challenges a (gp_pending_challenges p))" for k c'
    using dismiss_challenges_members [OF that] assms by (auto simp: governance_inv_def)
  with assms show ?thesis
    by (simp add: governance_inv_def dismiss_action_confirmations_def dismiss_challenges_distinct)
qed

lemma governance_inv_record:
  "governance_inv p \<Longrightarrow> governance_inv (record_bot_placement p pos b purpose who)"
  by (simp add: governance_inv_def record_bot_placement_def)

lemma governance_inv_put_challenge:
  assumes "governance_inv p" and "gc_challenge_id c = k" and "0 < gc_max_unique_blocks c"
  shows "governance_inv (p\<lparr>gp_pending_challenges := AList.update k c (gp_pending_challenges p)\<rparr>)"
  using assms by (auto simp: governance_inv_def distinct_update dest: set_update_cases)

lemma governance_inv_put_permit:
  assumes "governance_inv p" and "permit_ok q"
  shows "governance_inv (p\<lparr>gp_active_permits := AList.update k q (gp_active_permits p)\<rparr>)"
  using assms by (auto simp: governance_inv_def distinct_update dest: set_update_cases)

lemma governance_inv_pop_challenge:
  assumes "governance_inv p"
  shows "governance_inv (p\<lparr>gp_pending_challenges := AList.delete k (gp_pending_challenges p)\<rparr>)"
  using assms by (auto simp: governance_inv_def distinct_delete AList.delete_eq)

lemma governance_inv_confirm:
  assumes "governance_inv p"
  shows "governance_inv (snd (confirm_scope p e cid purpose))"
proof -
  let ?p1 = "prune_confirmation_state p e"
  have 1: "governance_inv ?p1" by (rule governance_inv_prune [OF assms])
  show ?thesis
  proof (cases "map_of (gp_pending_challenges ?p1) (strip cid)")
    case None
    with 1 show ?thesis by (simp add: confirm_scope_def Let_def)
  next
    case (Some c)
    from 1 Some have c: "gc_challenge_id c = strip cid" "0 < gc_max_unique_blocks c"
      by (auto simp: governance_inv_def dest: map_of_SomeD)
    note 2 = governance_inv_pop_challenge [OF 1, of "strip cid"]
    from governance_inv_put_challenge [OF 2 c] governance_inv_put_permit [OF 2 permit_ok_fresh]
    show ?thesis using Some by (simp add: confirm_scope_def Let_def)
  qed
qed

lemma governance_inv_authorize:
  assumes "governance_inv p"
  shows "governance_inv (snd (authorize_from_confirmed_scope p e pos b ctx who))"
proof -
  let ?p1 = "prune_confirmation_state p e"
  let ?cov = "permit_covers (current_confirmation_epoch ?p1 e) who ctx b pos"
  let ?qs = "snd (spend_permit ?cov pos (gp_active_permits ?p1))"
  have 1: "governance_inv ?p1" by (rule governance_inv_prune [OF assms])
  have "permit_ok q'" if "(k, q') \<in> set ?qs" for k q'
    using spend_permit_members [OF that] 1
    by (auto simp: governance_inv_def permit_covers_def intro: permit_ok_spend)
  moreover have "distinct (map fst ?qs)"
    by (rule spend_permit_distinct) (use 1 in \<open>simp add: governance_inv_def\<close>)
  moreover have "snd (authorize_from_confirmed_scope p e pos b ctx who) = ?p1\<lparr>gp_active_permits := ?qs\<rparr>"
    by (simp add: authorize_from_confirmed_scope_def Let_def split: prod.splits)
  ultimately show ?thesis
    using 1 by (simp add: governance_inv_def)
qed

lemma governance_inv_pending_confirmation:
  assumes "governance_inv p"
  shows "governance_inv (snd (pending_confirmation p e pos b ctx a who aid))"
proof -
  let ?p1 = "prune_confirmation_state p e"
  let ?m = "\<lambda>(_, c). challenge_matches (current_confirmation_epoch ?p1 e) who ctx b pos c"
  have 1: "governance_inv ?p1" by (rule governance_inv_prune [OF assms])
  show ?thesis
  proof (cases "find ?m (gp_pending_challenges ?p1)")
    case None
    have "0 < confirmation_max_unique_blocks ctx"
      using max_unique_blocks_pos [of ctx] by simp
    with None 1 show ?thesis
      by (simp add: pending_confirmation_def Let_def governance_inv_put_challenge
          new_challenge_def split: prod.splits)
  next
    case (Some kc)
    obtain k c where kc: "kc = (k, c)" by (cases kc)
    with Some have "(k, c) \<in> set (gp_pending_challenges ?p1)"
      by (auto simp: find_Some_iff in_set_conv_nth)
    with 1 have "gc_challenge_id c = k" "0 < gc_max_unique_blocks c"
      by (auto simp: governance_inv_def)
    with Some kc 1 show ?thesis
      by (simp add: pending_confirmation_def Let_def governance_inv_put_challenge)
  qed
qed

lemma break_assessed_state:
  "snd (break_assessed p asr e1 e2 pos b ctx actor aid) = p \<or>
   snd (break_assessed p asr e1 e2 pos b ctx actor aid) =
     snd (authorize_from_confirmed_scope p e1 pos b ctx actor) \<or>
   (\<exists>a. snd (break_assessed p asr e1 e2 pos b ctx actor aid) =
     snd (pending_confirmation (snd (authorize_from_confirmed_scope p e1 pos b ctx actor))
            e2 pos b ctx a actor aid))"
proof (cases "assess_structure_risk p asr pos b ctx")
  case None
  then show ?thesis by (simp add: break_assessed_def Let_def)
next
  case (Some a)
  show ?thesis
  proof (cases "sra_complete a \<and> sra_level a = RISK_AMBIGUOUS \<and>
      fst (authorize_from_confirmed_scope p e1 pos b ctx actor) = None")
    case True
    then have "snd (break_assessed p asr e1 e2 pos b ctx actor aid) =
        snd (pending_confirmation (snd (authorize_from_confirmed_scope p e1 pos b ctx actor))
               e2 pos b ctx a actor aid)"
      by (cases "authorize_from_confirmed_scope p e1 pos b ctx actor")
        (simp add: break_assessed_def Some Let_def split: prod.splits)
    then show ?thesis by blast
  next
    case False
    with Some show ?thesis
      by (cases "sra_level a")
        (auto simp: break_assessed_def Let_def split: option.splits prod.splits)
  qed
qed

lemma governance_inv_can_break:
  assumes "governance_inv p"
  shows "governance_inv (snd (can_break p asr e1 e2 pos raw ctx ex who aid))"
proof -
  let ?b = "normalize_block_type raw" and ?a = "acting_bot p who"
  have "governance_inv (snd (break_assessed p asr e1 e2 pos ?b ctx ?a aid))"
    using break_assessed_state [of p asr e1 e2 pos ?b ctx ?a aid] assms
    by (elim disjE exE)
      (simp_all add: governance_inv_authorize governance_inv_pending_confirmation)
  with assms show ?thesis by (simp add: can_break_def Let_def split: option.splits)
qed

lemma governance_inv_apply: "governance_inv p \<Longrightarrow> governance_inv (gov_apply p op)"
  by (cases op)
    (simp_all add: governance_inv_reset governance_inv_confirm governance_inv_dismiss
      governance_inv_record governance_inv_can_break governance_inv_prune
      pending_confirmations_def Let_def)

lemma governance_inv_run: "governance_inv p \<Longrightarrow> governance_inv (gov_run p ops)"
  unfolding gov_run_def by (induction ops arbitrary: p) (simp_all add: governance_inv_apply)

section \<open>Deciding about a break leaves the declared rules alone\<close>

definition same_rules :: "governance_policy \<Rightarrow> governance_policy \<Rightarrow> bool" where
  "same_rules p q \<longleftrightarrow>
     gp_natural_regions p = gp_natural_regions q \<and> gp_protected_regions p = gp_protected_regions q \<and>
     gp_bot_placements p = gp_bot_placements q \<and> gp_bot_name p = gp_bot_name q"

lemma same_rules_refl [simp]: "same_rules p p"
  by (simp add: same_rules_def)

lemma same_rules_prune [simp]: "same_rules (prune_confirmation_state p e) q = same_rules p q"
  by (simp add: same_rules_def prune_confirmation_state_def Let_def)

lemma same_rules_authorize: "same_rules (snd (authorize_from_confirmed_scope p e pos b ctx who)) q = same_rules p q"
  by (simp add: authorize_from_confirmed_scope_def Let_def split: prod.split)
    (simp add: same_rules_def prune_confirmation_state_def Let_def)

lemma same_rules_pending: "same_rules (snd (pending_confirmation p e pos b ctx a who aid)) q = same_rules p q"
  by (simp add: pending_confirmation_def Let_def split: option.split prod.split)
    (simp add: same_rules_def prune_confirmation_state_def Let_def)

lemma same_rules_can_break: "same_rules (snd (can_break p asr e1 e2 pos raw ctx ex who aid)) p"
proof -
  let ?b = "normalize_block_type raw" and ?a = "acting_bot p who"
  have "same_rules (snd (break_assessed p asr e1 e2 pos ?b ctx ?a aid)) p"
    using break_assessed_state [of p asr e1 e2 pos ?b ctx ?a aid]
    by (elim disjE exE) (simp_all add: same_rules_authorize same_rules_pending)
  then show ?thesis by (simp add: can_break_def Let_def split: option.split)
qed

section \<open>Authority only comes from a confirmation\<close>

lemma prune_no_permits:
  "gp_active_permits p = [] \<Longrightarrow> gp_active_permits (prune_confirmation_state p e) = []"
  by (simp add: prune_confirmation_state_def Let_def)

lemma authorize_no_permits:
  "gp_active_permits p = [] \<Longrightarrow>
     gp_active_permits (snd (authorize_from_confirmed_scope p e pos b ctx who)) = []"
  by (simp add: authorize_from_confirmed_scope_def Let_def prune_no_permits)

lemma pending_confirmation_permits:
  "gp_active_permits p = [] \<Longrightarrow>
     gp_active_permits (snd (pending_confirmation p e pos b ctx a who aid)) = []"
  by (simp add: pending_confirmation_def Let_def prune_no_permits split: option.splits prod.splits)

lemma can_break_no_permits:
  assumes "gp_active_permits p = []"
  shows "gp_active_permits (snd (can_break p asr e1 e2 pos raw ctx ex who aid)) = []"
proof -
  let ?b = "normalize_block_type raw" and ?a = "acting_bot p who"
  have "gp_active_permits (snd (break_assessed p asr e1 e2 pos ?b ctx ?a aid)) = []"
    using break_assessed_state [of p asr e1 e2 pos ?b ctx ?a aid] assms
    by (elim disjE exE) (simp_all add: authorize_no_permits pending_confirmation_permits)
  with assms show ?thesis by (simp add: can_break_def Let_def split: option.splits)
qed

lemma apply_no_permits:
  "gp_active_permits p = [] \<Longrightarrow> \<not> is_confirm op \<Longrightarrow> gp_active_permits (gov_apply p op) = []"
  by (cases op) (simp_all add: gov_op_defs Let_def can_break_no_permits)

lemma run_no_permits:
  "gp_active_permits p = [] \<Longrightarrow> \<forall>op\<in>set ops. \<not> is_confirm op \<Longrightarrow>
     gp_active_permits (gov_run p ops) = []"
  unfolding gov_run_def by (induction ops arbitrary: p) (simp_all add: apply_no_permits)

lemma no_permit_no_ambiguous_break:
  assumes "gp_active_permits p = []" and "map_of (gp_bot_placements p) pos = None"
    and "\<not> (ctx = BC_FARM \<and> normalize_block_type raw \<in> FARM_TARGETS \<and> declared_natural p pos)"
    and "assess_structure_risk p asr pos (normalize_block_type raw) ctx = Some a"
    and "sra_level a = RISK_AMBIGUOUS"
  shows "\<not> ld_allowed (fst (can_break p asr e1 e2 pos raw ctx ex who aid))"
  using assms
  by (auto simp: can_break_allowed_iff break_permitted_def risk_accepted_def standing_permit_def)

section \<open>The contract of an assessor\<close>

text \<open>
  What governance relies on: the level of a complete assessment is its score cut at 0.30
  and 0.65.
\<close>

locale risk_assessor =
  fixes assess :: assessor
  assumes level_low: "assess pos b ctx pl = Inr a \<Longrightarrow> sra_complete a \<Longrightarrow>
      sra_level a = RISK_LOW \<longleftrightarrow> sra_score a < 3/10"
    and level_high: "assess pos b ctx pl = Inr a \<Longrightarrow> sra_complete a \<Longrightarrow>
      sra_level a = RISK_HIGH \<longleftrightarrow> 65/100 \<le> sra_score a"
begin

lemma allowed_break_score:
  assumes "ld_allowed (fst (can_break p (Some assess) e1 e2 pos raw ctx ex who aid))"
    and "map_of (gp_bot_placements p) pos = None" and "ctx \<noteq> BC_FARM"
  shows "\<exists>a. assess pos (normalize_block_type raw) ctx (gp_bot_placements p) = Inr a \<and>
           sra_complete a \<and> sra_score a < 65/100 \<and>
           (3/10 \<le> sra_score a \<longrightarrow>
              (\<exists>q. standing_permit p e1 pos (normalize_block_type raw) ctx (acting_bot p who) q))"
proof -
  let ?b = "normalize_block_type raw"
  from assms have "risk_accepted p (Some assess) e1 pos ?b ctx (acting_bot p who)"
    by (simp add: can_break_allowed_iff break_permitted_def)
  then obtain a where a: "assess pos ?b ctx (gp_bot_placements p) = Inr a" "sra_complete a"
    and lv: "sra_level a = RISK_LOW \<or> sra_level a = RISK_AMBIGUOUS \<and>
      (\<exists>q. standing_permit p e1 pos ?b ctx (acting_bot p who) q)"
    by (auto simp: risk_accepted_def assess_structure_risk_def split: sum.splits)
  with level_low [OF a] level_high [OF a] show ?thesis by auto
qed

end

section \<open>From refusal to permission\<close>

lemma find_pair_SomeD: "find P xs = Some x \<Longrightarrow> x \<in> set xs \<and> P x"
  by (auto simp: find_Some_iff in_set_conv_nth)

text \<open>A refusal that asks for review leaves a live challenge that covers the refused break.\<close>

definition covering_challenge ::
  "governance_policy \<Rightarrow> gov_env \<Rightarrow> position \<Rightarrow> string \<Rightarrow> break_context \<Rightarrow> string option
   \<Rightarrow> string \<Rightarrow> governance_challenge \<Rightarrow> bool" where
  "covering_challenge p e pos b ctx actor k c \<longleftrightarrow>
     map_of (gp_pending_challenges p) k = Some c \<and> ge_now e < gc_expires_at c \<and>
     challenge_matches (current_confirmation_epoch p e) actor ctx b pos c \<and>
     0 < gc_max_unique_blocks c"

lemma new_challenge_matches:
  assumes "governance_inv p"
  shows "challenge_matches epoch who ctx b pos (new_challenge p e epoch pos b ctx a who aid)"
  using assms by (cases pos)
    (auto simp: challenge_matches_def new_challenge_def Let_def region_contains_def governance_inv_def)

lemma pending_confirmation_covers:
  assumes "governance_inv p"
  shows "\<exists>k c. covering_challenge (snd (pending_confirmation p e pos b ctx a who aid)) e pos b ctx who k c"
proof -
  let ?p1 = "prune_confirmation_state p e"
  let ?ep = "current_confirmation_epoch ?p1 e"
  let ?m = "\<lambda>(_, c). challenge_matches ?ep who ctx b pos c"
  have inv: "governance_inv ?p1" by (rule governance_inv_prune [OF assms])
  show ?thesis
  proof (cases "find ?m (gp_pending_challenges ?p1)")
    case None
    let ?c = "new_challenge ?p1 e ?ep pos b ctx a who aid"
    have "ge_now e < gc_expires_at ?c" "0 < gc_max_unique_blocks ?c"
      using inv max_unique_blocks_pos [of ctx]
      by (auto simp: new_challenge_def Let_def governance_inv_def split: prod.splits)
    with None new_challenge_matches [OF inv, of ?ep who ctx b pos e a aid] show ?thesis
      by (intro exI [of _ "gc_challenge_id ?c"] exI [of _ ?c])
        (simp add: pending_confirmation_def Let_def covering_challenge_def
          current_confirmation_epoch_def)
  next
    case (Some kc)
    obtain k c where kc: "kc = (k, c)" by (cases kc)
    from find_pair_SomeD [OF Some] kc have c: "(k, c) \<in> set (gp_pending_challenges ?p1)"
      "challenge_matches ?ep who ctx b pos c" by auto
    then have "ge_now e < gc_expires_at c" "0 < gc_max_unique_blocks c"
      using inv by (auto simp: prune_confirmation_state_def Let_def governance_inv_def)
    with Some kc c(2) show ?thesis
      by (intro exI [of _ k] exI [of _ "c\<lparr>gc_action_ids := gc_action_ids c \<union> action_id_set aid\<rparr>"])
        (simp add: pending_confirmation_def Let_def covering_challenge_def
          current_confirmation_epoch_def challenge_matches_def)
  qed
qed

lemma prune_keeps_challenge:
  assumes "distinct (map fst (gp_pending_challenges p))"
    and "map_of (gp_pending_challenges p) k = Some c"
    and "ge_now e < gc_expires_at c" and "gc_epoch c = current_confirmation_epoch p e"
  shows "map_of (gp_pending_challenges (prune_confirmation_state p e)) k = Some c"
proof -
  have "(k, c) \<in> set (gp_pending_challenges (prune_confirmation_state p e))"
    using assms by (auto simp: prune_confirmation_state_def Let_def dest: map_of_SomeD)
  moreover have "distinct (map fst (gp_pending_challenges (prune_confirmation_state p e)))"
    using assms(1) by (auto simp: prune_confirmation_state_def Let_def)
  ultimately show ?thesis by simp
qed

text \<open>Confirming a live challenge puts a permit in force with the challenge's bounds.\<close>

lemma confirm_live_challenge:
  assumes inv: "governance_inv p" and c: "map_of (gp_pending_challenges p) (strip cid) = Some c"
    and live: "ge_now e < gc_expires_at c" "gc_epoch c = current_confirmation_epoch p e"
    and purpose: "split_words [] purpose \<noteq> []" "hd (split_words [] purpose) \<noteq> []"
  shows "\<exists>k q. (k, q) \<in> set (gp_active_permits (snd (confirm_scope p e cid purpose))) \<and>
           gpm_bot q = gc_bot c \<and> gpm_context q = gc_context c \<and>
           gpm_block_types q = gc_block_types c \<and> gpm_region q = gc_region c \<and>
           gpm_max_unique_blocks q = gc_max_unique_blocks c \<and>
           gpm_expires_at q = gc_expires_at c \<and> gpm_epoch q = gc_epoch c \<and>
           gpm_authorized_positions q = {}"
proof -
  let ?p1 = "prune_confirmation_state p e"
  have c1: "map_of (gp_pending_challenges ?p1) (strip cid) = Some c"
    using inv c live by (intro prune_keeps_challenge) (simp_all add: governance_inv_def)
  obtain w ws where w: "split_words [] purpose = w # ws" "w \<noteq> []"
    using purpose by (cases "split_words [] purpose") auto
  then have np: "take 160 (join '' '' (split_words [] purpose)) \<noteq> []"
    by (cases ws; cases w) auto
  let ?k = "''gp-'' @ take 16 (ge_fresh_hex e)"
  have "map_of (gp_active_permits (snd (confirm_scope p e cid purpose))) ?k \<noteq> None \<and>
     (\<forall>q. map_of (gp_active_permits (snd (confirm_scope p e cid purpose))) ?k = Some q \<longrightarrow>
           gpm_bot q = gc_bot c \<and> gpm_context q = gc_context c \<and>
           gpm_block_types q = gc_block_types c \<and> gpm_region q = gc_region c \<and>
           gpm_max_unique_blocks q = gc_max_unique_blocks c \<and>
           gpm_expires_at q = gc_expires_at c \<and> gpm_epoch q = gc_epoch c \<and>
           gpm_authorized_positions q = {})"
    using c1 np by (simp add: confirm_scope_def Let_def)
  then obtain q where "map_of (gp_active_permits (snd (confirm_scope p e cid purpose))) ?k = Some q"
    "gpm_bot q = gc_bot c \<and> gpm_context q = gc_context c \<and>
     gpm_block_types q = gc_block_types c \<and> gpm_region q = gc_region c \<and>
     gpm_max_unique_blocks q = gc_max_unique_blocks c \<and>
     gpm_expires_at q = gc_expires_at c \<and> gpm_epoch q = gc_epoch c \<and>
     gpm_authorized_positions q = {}"
    by blast
  then show ?thesis by (blast dest: map_of_SomeD)
qed

lemma split_words_nonempty: "w \<in> set (split_words cur s) \<Longrightarrow> w \<noteq> []"
  by (induction cur s rule: split_words.induct) (auto split: if_splits)

lemma split_words_some: "cur \<noteq> [] \<or> (\<exists>c\<in>set s. \<not> is_space c) \<Longrightarrow> split_words cur s \<noteq> []"
  by (induction cur s rule: split_words.induct) auto

text \<open>What confirming and reviewing leave alone: regions, ledger, names and the epoch.\<close>

definition gov_config :: "governance_policy \<Rightarrow>
    region list \<times> region list \<times> placement_ledger \<times> bool \<times> string option \<times> string" where
  "gov_config p = (gp_natural_regions p, gp_protected_regions p, gp_bot_placements p,
     gp_require_structure_assessment p, gp_bot_name p, gp_confirmation_epoch p)"

lemma config_prune: "gov_config (prune_confirmation_state p e) = gov_config p"
  by (simp add: gov_config_def prune_confirmation_state_def Let_def)

lemma config_confirm: "gov_config (snd (confirm_scope p e cid purpose)) = gov_config p"
  using config_prune [of p e]
  by (simp add: confirm_scope_def Let_def gov_config_def split: option.splits)

lemma config_authorize:
  "gov_config (snd (authorize_from_confirmed_scope p e pos b ctx who)) = gov_config p"
  using config_prune [of p e]
  by (simp add: authorize_from_confirmed_scope_def Let_def gov_config_def split: prod.splits)

lemma config_pending:
  "gov_config (snd (pending_confirmation p e pos b ctx a who aid)) = gov_config p"
  using config_prune [of p e]
  by (simp add: pending_confirmation_def Let_def gov_config_def split: option.splits prod.splits)

lemma config_epoch:
  "gov_config p = gov_config p' \<Longrightarrow> ge_scope e = ge_scope e' \<Longrightarrow>
     current_confirmation_epoch p e = current_confirmation_epoch p' e'"
  by (simp add: gov_config_def current_confirmation_epoch_def)

lemma config_static:
  "gov_config p = gov_config p' \<Longrightarrow> acting_bot p who = acting_bot p' who \<and>
     actor_accepted p actor = actor_accepted p' actor \<and>
     outside_protection p pos = outside_protection p' pos \<and>
     natural_break_ok p pos b ctx ex = natural_break_ok p' pos b ctx ex \<and>
     assess_structure_risk p asr pos b ctx = assess_structure_risk p' asr pos b ctx \<and>
     map_of (gp_bot_placements p) pos = map_of (gp_bot_placements p') pos"
  by (auto simp: gov_config_def acting_bot_def actor_accepted_def outside_protection_def
      natural_break_ok_def declared_natural_def assess_structure_risk_def split: option.splits)

lemma static_reason_not_review:
  "break_static_rules p pos b ctx ex actor = Some d \<Longrightarrow>
     ld_reason d \<noteq> ''governance_confirmation_required''"
  unfolding break_static_rules_def Let_def can_break_bot_owned_def
  by (auto split: option.splits if_splits)

lemma review_refusal_state:
  assumes "ld_reason (fst (can_break p asr e1 e2 pos raw ctx ex who aid)) =
             ''governance_confirmation_required''"
  shows "\<exists>a. break_static_rules p pos (normalize_block_type raw) ctx ex (acting_bot p who) = None \<and>
           assess_structure_risk p asr pos (normalize_block_type raw) ctx = Some a \<and>
           sra_complete a \<and> sra_level a = RISK_AMBIGUOUS \<and>
           snd (can_break p asr e1 e2 pos raw ctx ex who aid) =
             snd (pending_confirmation
                   (snd (authorize_from_confirmed_scope p e1 pos (normalize_block_type raw) ctx
                          (acting_bot p who)))
                   e2 pos (normalize_block_type raw) ctx a (acting_bot p who) aid)"
proof (cases "break_static_rules p pos (normalize_block_type raw) ctx ex (acting_bot p who)")
  case (Some d)
  with assms static_reason_not_review [OF Some] show ?thesis
    by (simp add: can_break_def Let_def)
next
  case None
  show ?thesis
  proof (cases "assess_structure_risk p asr pos (normalize_block_type raw) ctx")
    case None
    with assms \<open>break_static_rules _ _ _ _ _ _ = None\<close> show ?thesis
      by (simp add: can_break_def Let_def break_assessed_def split: if_splits)
  next
    case (Some a)
    then show ?thesis
      using assms None
      by (cases "authorize_from_confirmed_scope p e1 pos (normalize_block_type raw) ctx (acting_bot p who)")
        (auto simp: can_break_def Let_def break_assessed_def split: if_splits option.splits prod.splits)
  qed
qed

lemma confirmed_break_allowed:
  assumes inv: "governance_inv p'" and cfg: "gov_config p' = gov_config p"
    and static: "break_static_rules p pos (normalize_block_type raw) ctx ex (acting_bot p who) = None"
    and risk: "assess_structure_risk p asr pos (normalize_block_type raw) ctx = Some a"
      "sra_complete a" "sra_level a = RISK_AMBIGUOUS"
    and c: "covering_challenge p' e2 pos (normalize_block_type raw) ctx (acting_bot p who) (strip cid) c"
    and scope: "ge_scope e3 = ge_scope e2" "ge_scope e4 = ge_scope e2"
    and time: "ge_now e3 < gc_expires_at c" "ge_now e4 < gc_expires_at c"
    and purpose: "\<exists>ch\<in>set purpose. \<not> is_space ch"
  shows "ld_allowed (fst (can_break (snd (confirm_scope p' e3 cid purpose)) asr e4 e5 pos raw ctx ex who aid))"
proof -
  let ?b = "normalize_block_type raw" and ?a = "acting_bot p who"
  let ?p2 = "snd (confirm_scope p' e3 cid purpose)"
  have cfg2: "gov_config ?p2 = gov_config p" using cfg by (simp add: config_confirm)
  have words: "split_words [] purpose \<noteq> []" "hd (split_words [] purpose) \<noteq> []"
    using purpose split_words_some [of "[]" purpose] split_words_nonempty [of _ "[]" purpose] by auto
  have ep: "current_confirmation_epoch p' e2 = current_confirmation_epoch ?p2 e4"
       "current_confirmation_epoch p' e2 = current_confirmation_epoch p' e3"
    using cfg cfg2 scope by (auto intro!: config_epoch)
  from c have c': "map_of (gp_pending_challenges p') (strip cid) = Some c"
    "challenge_matches (current_confirmation_epoch p' e2) ?a ctx ?b pos c" "0 < gc_max_unique_blocks c"
    by (simp_all add: covering_challenge_def)
  then have epc: "gc_epoch c = current_confirmation_epoch p' e3"
    using ep(2) by (simp add: challenge_matches_def)
  obtain k q where q: "(k, q) \<in> set (gp_active_permits ?p2)"
    "gpm_bot q = gc_bot c" "gpm_context q = gc_context c" "gpm_block_types q = gc_block_types c"
    "gpm_region q = gc_region c" "gpm_max_unique_blocks q = gc_max_unique_blocks c"
    "gpm_expires_at q = gc_expires_at c" "gpm_epoch q = gc_epoch c" "gpm_authorized_positions q = {}"
    using confirm_live_challenge [OF inv c'(1) time(1) epc words] by blast
  then have "standing_permit ?p2 e4 pos ?b ctx ?a q"
    using c'(2,3) time(2) ep(1)
    by (auto simp: standing_permit_def permit_covers_def challenge_matches_def permit_has_room_def)
  moreover have "break_static_rules ?p2 pos ?b ctx ex ?a = None"
    using static config_static [OF cfg2, of who ?a pos ?b ctx ex asr] by (simp add: static_rules_None_iff)
  ultimately have "break_permitted ?p2 asr e4 pos ?b ctx ex ?a"
    using risk config_static [OF cfg2, of who ?a pos ?b ctx ex asr]
    by (auto simp: break_permitted_def static_rules_None_iff risk_accepted_def)
  then show ?thesis
    using config_static [OF cfg2, of who ?a pos ?b ctx ex asr] by (simp add: can_break_allowed_iff)
qed

section \<open>Properties\<close>

text \<open>Concrete inputs for the witnesses: a review-only assessor and a policy of one bot.\<close>

definition demo_assessor :: assessor where
  "demo_assessor pos b ctx pl = Inr \<lparr>sra_pos = pos, sra_block_type = b, sra_level = RISK_AMBIGUOUS,
     sra_score = 1/2, sra_complete = True, sra_sampled_cells = 63, sra_signals = [],
     sra_source = ''voxel''\<rparr>"

definition demo_env :: "rat \<Rightarrow> string \<Rightarrow> gov_env" where
  "demo_env t hex = \<lparr>ge_now = t, ge_scope = Some ''task-1'', ge_fresh_hex = hex\<rparr>"

definition demo_policy :: governance_policy where
  "demo_policy = governance_init [] [] [] True (Some ''Bot1'') 300 8 4 ''e0''"

definition demo_break :: "rat \<Rightarrow> string \<Rightarrow> gov_op" where
  "demo_break t hex = OpBreak (Some demo_assessor) (demo_env t hex) (demo_env t hex) (1, 64, 1)
     ''minecraft:stone'' BC_DIRECT False None (Some ''act-1'')"

lemmas demo_defs =
  demo_assessor_def demo_env_def demo_policy_def demo_break_def governance_init_def

lemma demo_inv: "governance_inv demo_policy"
  by (simp add: demo_policy_def governance_inv_init)

definition demo_challenge :: governance_challenge where
  "demo_challenge = \<lparr>gc_challenge_id = ''gc-aa'', gc_bot = Some ''Bot1'',
      gc_context = BC_DIRECT, gc_block_types = [''stone''],
      gc_region = \<lparr>rg_name = ''governance-confirmation:gc-aa'',
           rg_min_pos = (- 7, 60, - 7), rg_max_pos = (9, 68, 9)\<rparr>,
      gc_max_unique_blocks = 8, gc_created_at = 0, gc_expires_at = 300,
      gc_epoch = ''e0:task-1'',
      gc_evidence = [(''level'', JStr ''ambiguous''), (''score'', JFloat (Fin (1 / 2))),
         (''complete'', JBool True), (''sampled_cells'', JInt 63),
         (''signals'', JList []), (''source'', JStr ''voxel'')],
      gc_action_ids = {''act-1''}\<rparr>"
lemma stone_type: "normalize_block_type ''minecraft:stone'' = ''stone''"
  by (simp add: normalize_block_type_def removeprefix_def)
lemma demo_static:
  "break_static_rules demo_policy (1, 64, 1) ''stone'' BC_DIRECT False (Some ''Bot1'') = None"
  by (simp add: static_rules_None_iff demo_defs actor_accepted_def outside_protection_def
      natural_break_ok_def natural_defs)
lemma demo_words: "strip ''gc-aa'' = ''gc-aa''" "split_words [] ''clear'' = [''clear'']" by code_simp+


lemma demo_policy_simps [simp]:
  "gp_bot_name demo_policy = Some ''Bot1''" "gp_natural_regions demo_policy = []"
  "gp_bot_placements demo_policy = []" "gp_confirmation_epoch demo_policy = ''e0''"
  "gp_pending_challenges demo_policy = []" "gp_active_permits demo_policy = []"
  "gp_confirmation_ttl_s demo_policy = 300" "gp_confirmation_radius demo_policy = 8"
  "gp_confirmation_vertical_radius demo_policy = 4"
  by (simp_all add: demo_policy_def governance_init_def)

lemma demo_env_simps [simp]:
  "ge_now (demo_env t h) = t"
  "ge_scope (demo_env t h) = Some ''task-1''" "ge_fresh_hex (demo_env t h) = h"
  by (simp_all add: demo_env_def)

definition demo_challenged :: governance_policy where
  "demo_challenged = demo_policy\<lparr>gp_pending_challenges := [(''gc-aa'', demo_challenge)]\<rparr>"

lemmas demo_eval =
  can_break_def stone_type acting_bot_def demo_static break_assessed_def assess_structure_risk_def
  authorize_from_confirmed_scope_def pending_confirmation_def prune_confirmation_state_def
  current_confirmation_epoch_def demo_assessor_def Let_def new_challenge_def action_id_set_def
  structure_risk_payload_def demo_challenged_def demo_challenge_def

lemma demo_step1: "gov_apply demo_policy (demo_break 0 ''aa'') = demo_challenged"
  by (simp add: demo_break_def demo_eval)

lemma demo_refused:
  "ld_reason (fst (can_break demo_policy (Some demo_assessor) (demo_env 0 ''aa'')
     (demo_env 0 ''aa'') (1, 64, 1) ''minecraft:stone'' BC_DIRECT False None (Some ''act-1''))) =
   ''governance_confirmation_required''"
  by (simp add: demo_eval)


definition demo_permit :: governance_permit where
  "demo_permit = \<lparr>gpm_permit_id = ''gp-bb'', gpm_challenge_id = ''gc-aa'', gpm_bot = Some ''Bot1'',
     gpm_context = BC_DIRECT, gpm_block_types = [''stone''], gpm_region = gc_region demo_challenge,
     gpm_max_unique_blocks = 8, gpm_expires_at = 300, gpm_epoch = ''e0:task-1'',
     gpm_purpose = ''clear'', gpm_authorized_positions = {}\<rparr>"

lemma demo_step2:
  "gov_apply demo_challenged (OpConfirm (demo_env 1 ''bb'') ''gc-aa'' ''clear'') =
     demo_policy\<lparr>gp_active_permits := [(''gp-bb'', demo_permit)]\<rparr>"
  "dget (fst (confirm_scope demo_challenged (demo_env 1 ''bb'') ''gc-aa'' ''clear'')) ''confirmed'' =
     JBool True"
  by (simp_all add: confirm_scope_def demo_words is_space_def dget_def demo_permit_def demo_eval)

lemma demo_step3:
  "gp_active_permits (gov_apply (demo_policy\<lparr>gp_active_permits := [(''gp-bb'', demo_permit)]\<rparr>)
     (demo_break 2 ''cc'')) =
   [(''gp-bb'', demo_permit\<lparr>gpm_authorized_positions := {(1, 64, 1)}\<rparr>)]"
proof -
  let ?p = "demo_policy\<lparr>gp_active_permits := [(''gp-bb'', demo_permit)]\<rparr>"
  have "gov_config ?p = gov_config demo_policy" by (simp add: gov_config_def)
  then have "break_static_rules ?p (1, 64, 1) ''stone'' BC_DIRECT False (Some ''Bot1'') = None"
    using demo_static config_static [of ?p demo_policy] by (simp add: static_rules_None_iff)
  then show ?thesis
    by (simp add: demo_break_def demo_permit_def permit_covers_def region_contains_def
        permit_has_room_def demo_eval)
qed

text \<open>
  C1. \<open>can_break\<close> allows a break exactly when the declarative specification does: the
  acting bot is the policy's own, no protected region holds the block, and either the
  ledger records this very block as the bot's and temporary (or the break is a cleanup),
  or a crop is harvested in a declared natural region, or natural terrain passes the
  context's rules and its structure risk is absent, low, or ambiguous with a standing
  permit.
\<close>

theorem can_break_decides_spec:
  "ld_allowed (fst (can_break p assessor e1 e2 pos raw ctx ex who aid)) =
     break_permitted p assessor e1 pos (normalize_block_type raw) ctx ex (acting_bot p who)"
  by (rule can_break_allowed_iff)

text \<open>
  C2. A strongly protected block that the bot did not place is never broken, whatever the
  context, the explicit target, the assessor and the confirmed permits, unless it is a
  crop harvested for farming inside a declared natural region.
\<close>

theorem protected_block_never_broken:
  assumes "normalize_block_type raw \<in> STRONGLY_PROTECTED_TYPES"
    and "map_of (gp_bot_placements p) pos = None"
    and "ctx = BC_FARM \<Longrightarrow> normalize_block_type raw \<notin> FARM_TARGETS \<or> \<not> declared_natural p pos"
  shows "\<not> ld_allowed (fst (can_break p assessor e1 e2 pos raw ctx ex who aid))"
proof -
  have "normalize_block_type raw \<notin> NATURAL_BREAKABLE"
    using assms(1) natural_not_protected by blast
  with assms(2,3) show ?thesis
    by (auto simp: can_break_allowed_iff break_permitted_def natural_break_ok_def)
qed

theorem protected_block_never_broken_witness:
  "\<not> ld_allowed (fst (can_break demo_policy None (demo_env 0 ''a'') (demo_env 0 ''a'') (1, 64, 1)
       ''minecraft:chest'' BC_DIRECT True None None))"
proof (rule protected_block_never_broken)
  show "normalize_block_type ''minecraft:chest'' \<in> STRONGLY_PROTECTED_TYPES"
    by (simp add: normalize_block_type_def removeprefix_def STRONGLY_PROTECTED_TYPES_def)
  show "map_of (gp_bot_placements demo_policy) (1, 64, 1) = None"
    by (simp add: demo_policy_def governance_init_def)
qed simp

text \<open>
  C3. Permits keep within what was confirmed: after any sequence of operations on a new
  policy, every active permit has authorised at most its budget of distinct positions,
  and every one of them lies in its region.
\<close>

theorem permit_budget_respected:
  assumes "(k, q) \<in> set (gp_active_permits
             (gov_run (governance_init natl prot pl req who ttl r v fresh) ops))"
  shows "card (gpm_authorized_positions q) \<le> gpm_max_unique_blocks q \<and>
         (\<forall>pos\<in>gpm_authorized_positions q. region_contains (gpm_region q) pos)"
  using governance_inv_run [OF governance_inv_init, of natl prot pl req who ttl r v fresh ops] assms
  by (auto simp: governance_inv_def permit_ok_def)

theorem permit_budget_respected_witness:
  "card {(1::int, 64::int, 1::int)} \<le> gpm_max_unique_blocks demo_permit \<and>
   region_contains (gpm_region demo_permit) (1, 64, 1)"
  using permit_budget_respected [of "''gp-bb''" "demo_permit\<lparr>gpm_authorized_positions := {(1, 64, 1)}\<rparr>"
      "[]" "[]" "[]" True "Some ''Bot1''" 300 8 4 "''e0''"
      "[demo_break 0 ''aa'', OpConfirm (demo_env 1 ''bb'') ''gc-aa'' ''clear'', demo_break 2 ''cc'']",
      folded demo_policy_def]
  by (simp add: gov_run_def demo_step1 demo_step2 demo_step3 del: gov_apply.simps)

text \<open>
  C4. Authority comes only from a confirmation: after the confirmation state has been
  invalidated, whatever operations follow, as long as none of them is a confirmation no
  break whose structure risk is assessed as ambiguous is allowed on terrain the bot did not
  place. The harvest of a crop in a declared natural region, in the context of farming, is
  excepted: it is allowed without any assessment.
\<close>

theorem revoked_authority_stays_revoked:
  assumes "\<forall>op\<in>set ops. \<not> is_confirm op"
    and "p' = gov_run (invalidate_confirmation_state p fresh) ops"
    and "map_of (gp_bot_placements p') pos = None"
    and "\<not> (ctx = BC_FARM \<and> normalize_block_type raw \<in> FARM_TARGETS \<and> declared_natural p' pos)"
    and "assess_structure_risk p' assessor pos (normalize_block_type raw) ctx = Some a"
    and "sra_level a = RISK_AMBIGUOUS"
  shows "\<not> ld_allowed (fst (can_break p' assessor e1 e2 pos raw ctx ex who aid))"
proof -
  have "gp_active_permits p' = []"
    unfolding assms(2) by (rule run_no_permits) (simp_all add: assms(1) invalidate_confirmation_state_def)
  then show ?thesis by (rule no_permit_no_ambiguous_break) (use assms in simp_all)
qed

theorem revoked_authority_stays_revoked_witness:
  "\<not> ld_allowed (fst (can_break
       (gov_run (invalidate_confirmation_state demo_policy ''e1'') [OpDismiss ''act-1''])
       (Some demo_assessor) (demo_env 5 ''b'') (demo_env 5 ''b'') (1, 64, 1)
       ''minecraft:stone'' BC_DIRECT False None None))"
  by (rule revoked_authority_stays_revoked [OF _ refl, where a = "the (assess_structure_risk
        demo_policy (Some demo_assessor) (1, 64, 1) ''stone'' BC_DIRECT)"])
    (simp_all add: gov_run_def dismiss_action_confirmations_def invalidate_confirmation_state_def
      demo_defs assess_structure_risk_def normalize_block_type_def removeprefix_def)

text \<open>
  A challenge is confirmed at most once: after a confirmation that succeeded, another
  confirmation of the same challenge finds nothing pending.
\<close>

lemma challenge_confirmed_once:
  assumes "dget (fst (confirm_scope p e cid purpose)) ''confirmed'' = JBool True"
  shows "dget (fst (confirm_scope (snd (confirm_scope p e cid purpose)) e' cid purpose'))
           ''reason'' = JStr ''governance_challenge_not_pending''"
proof -
  let ?p1 = "prune_confirmation_state p e"
  obtain c where "map_of (gp_pending_challenges ?p1) (strip cid) = Some c"
    and "take 160 (join '' '' (split_words [] purpose)) \<noteq> []"
    using assms by (auto simp: confirm_scope_def Let_def dget_def split: option.splits if_splits)
  then have "gp_pending_challenges (snd (confirm_scope p e cid purpose)) =
      AList.delete (strip cid) (gp_pending_challenges ?p1)"
    by (simp add: confirm_scope_def Let_def)
  then have "strip cid \<notin> fst ` set (gp_pending_challenges (snd (confirm_scope p e cid purpose)))"
    by (simp add: delete_keys flip: set_map)
  then have "map_of (gp_pending_challenges (prune_confirmation_state
      (snd (confirm_scope p e cid purpose)) e')) (strip cid) = None"
    by (force simp: prune_confirmation_state_def Let_def map_of_eq_None_iff)
  then show ?thesis
    by (simp add: confirm_scope_def [of "snd (confirm_scope p e cid purpose)"] Let_def dget_def)
qed

theorem challenge_confirmed_once_witness:
  "dget (fst (confirm_scope (snd (confirm_scope demo_challenged (demo_env 1 ''bb'') ''gc-aa'' ''clear''))
     (demo_env 2 ''cc'') ''gc-aa'' ''again'')) ''reason'' = JStr ''governance_challenge_not_pending''"
  by (rule challenge_confirmed_once [OF demo_step2(2)])

text \<open>
  C5. A refusal that asks for review can be lifted: when \<open>can_break\<close> answers
  \<open>governance_confirmation_required\<close>, it leaves a challenge for that break, and
  confirming that challenge with a purpose before it expires, in the same scope, makes
  the same break allowed until then.
\<close>

theorem refused_break_can_be_confirmed:
  assumes inv: "governance_inv p"
    and refused: "ld_reason (fst (can_break p asr e1 e2 pos raw ctx ex who aid)) =
                    ''governance_confirmation_required''"
  shows "\<exists>k c. map_of (gp_pending_challenges (snd (can_break p asr e1 e2 pos raw ctx ex who aid))) k = Some c \<and>
           ge_now e2 < gc_expires_at c \<and>
           (\<forall>cid purpose e3 e4 e5 aid'. strip cid = k \<longrightarrow> (\<exists>ch\<in>set purpose. \<not> is_space ch) \<longrightarrow>
              ge_scope e3 = ge_scope e2 \<longrightarrow> ge_scope e4 = ge_scope e2 \<longrightarrow>
              ge_now e3 < gc_expires_at c \<longrightarrow> ge_now e4 < gc_expires_at c \<longrightarrow>
              ld_allowed (fst (can_break
                (snd (confirm_scope (snd (can_break p asr e1 e2 pos raw ctx ex who aid)) e3 cid purpose))
                asr e4 e5 pos raw ctx ex who aid')))"
proof -
  let ?b = "normalize_block_type raw" and ?a = "acting_bot p who"
  let ?pa = "snd (authorize_from_confirmed_scope p e1 pos ?b ctx ?a)"
  let ?p' = "snd (can_break p asr e1 e2 pos raw ctx ex who aid)"
  obtain a where static: "break_static_rules p pos ?b ctx ex ?a = None"
    and risk: "assess_structure_risk p asr pos ?b ctx = Some a" "sra_complete a"
      "sra_level a = RISK_AMBIGUOUS"
    and p': "?p' = snd (pending_confirmation ?pa e2 pos ?b ctx a ?a aid)"
    using review_refusal_state [OF refused] by blast
  have inv': "governance_inv ?p'" by (rule governance_inv_can_break [OF inv])
  have cfg: "gov_config ?p' = gov_config p"
    unfolding p' by (simp add: config_pending config_authorize)
  obtain k c where kc: "covering_challenge ?p' e2 pos ?b ctx ?a k c"
    unfolding p' using pending_confirmation_covers [OF governance_inv_authorize [OF inv]] by blast
  have "ld_allowed (fst (can_break (snd (confirm_scope ?p' e3 cid purpose)) asr e4 e5 pos raw ctx ex who aid'))"
    if "strip cid = k" "\<exists>ch\<in>set purpose. \<not> is_space ch" "ge_scope e3 = ge_scope e2"
      "ge_scope e4 = ge_scope e2" "ge_now e3 < gc_expires_at c" "ge_now e4 < gc_expires_at c"
    for cid purpose e3 e4 e5 aid'
    using confirmed_break_allowed [OF inv' cfg static risk kc [folded that(1)]] that by blast
  with kc show ?thesis
    by (intro exI [of _ k] exI [of _ c]) (simp add: covering_challenge_def)
qed

theorem refused_break_can_be_confirmed_witness:
  "\<exists>k c. map_of (gp_pending_challenges (snd (can_break demo_policy (Some demo_assessor)
       (demo_env 0 ''aa'') (demo_env 0 ''aa'') (1, 64, 1) ''minecraft:stone'' BC_DIRECT False None
       (Some ''act-1'')))) k = Some c \<and> 0 < gc_expires_at c"
  using refused_break_can_be_confirmed [OF demo_inv demo_refused] by auto

end
