(* ===== verification/World_Read.thy ===== *)
theory World_Read
  imports Block_Types
begin

text \<open>
  The authoritative world read of \<open>minebot/body/world_read.py\<close>: many cells are requested
  in chunks, every chunk is answered in pages, and the loop over the pages accepts only a
  cursor that advances within the chunk. The body that answers is a function from the
  request and its own state \<open>'w\<close> to a page and the next state; a cell whose coordinates, or a
  cursor that, do not decode is the name of the exception.
\<close>

record 'f cell_page =
  cp_ok :: bool
  cp_complete :: bool
  cp_cells :: "(string + position \<times> 'f) list option"
  cp_next :: "(string + int) option"

datatype read_error =
    ReadPageSize
  | ReadFailed nat
  | ReadMalformed nat
  | ReadBadCell string
  | ReadBadCursor string
  | ReadUnexpected position
  | ReadIncomplete nat
  | ReadNoAdvance int
  | ReadOverrun int
  | ReadMissing "position set"

text \<open>The exceptions' class names, as the structure-risk signal reports them.\<close>

fun read_error_name :: "read_error \<Rightarrow> string" where
  "read_error_name (ReadBadCell name) = name"
| "read_error_name (ReadBadCursor name) = name"
| "read_error_name _ = ''ValueError''"

type_synonym ('f, 'w) cell_source = "position list \<Rightarrow> nat \<Rightarrow> nat \<Rightarrow> 'w \<Rightarrow> 'f cell_page \<times> 'w"

fun absorb_cells ::
  "position set \<Rightarrow> (string + position \<times> 'f) list \<Rightarrow> (position, 'f) pydict
   \<Rightarrow> read_error + (position, 'f) pydict" where
  "absorb_cells requested [] facts = Inr facts"
| "absorb_cells requested (Inl name # cs) facts = Inl (ReadBadCell name)"
| "absorb_cells requested (Inr (pos, f) # cs) facts =
     (if pos \<notin> requested then Inl (ReadUnexpected pos)
      else absorb_cells requested cs (AList.update pos f facts))"

text \<open>What one page does: an error, or the facts so far and the next cursor.\<close>

definition absorb_page ::
  "position set \<Rightarrow> nat \<Rightarrow> nat \<Rightarrow> 'f cell_page \<Rightarrow> (position, 'f) pydict
   \<Rightarrow> read_error + ((position, 'f) pydict \<times> nat option)" where
  "absorb_page requested len start page facts =
     (if \<not> cp_ok page then Inl (ReadFailed start)
      else case cp_cells page of
        None \<Rightarrow> Inl (ReadMalformed start)
      | Some cells \<Rightarrow>
          (case absorb_cells requested cells facts of
             Inl e \<Rightarrow> Inl e
           | Inr facts' \<Rightarrow>
               (case cp_next page of
                  None \<Rightarrow> if \<not> cp_complete page then Inl (ReadIncomplete start) else Inr (facts', None)
                | Some (Inl name) \<Rightarrow> Inl (ReadBadCursor name)
                | Some (Inr nxt) \<Rightarrow>
                    if nxt \<le> int start then Inl (ReadNoAdvance nxt)
                    else if nxt > int len then Inl (ReadOverrun nxt)
                    else Inr (facts', Some (nat nxt)))))"

lemma absorb_page_advances:
  "absorb_page requested len start page facts = Inr (facts', Some n) \<Longrightarrow> start < n \<and> n \<le> len"
  by (auto simp: absorb_page_def split: if_splits option.splits sum.splits)

function read_pages ::
  "('f, 'w) cell_source \<Rightarrow> nat \<Rightarrow> position set \<Rightarrow> position list \<Rightarrow> nat \<Rightarrow> 'w
   \<Rightarrow> (position, 'f) pydict \<Rightarrow> (read_error + (position, 'f) pydict) \<times> 'w" where
  "read_pages src page_size requested cells start w facts =
     (case src cells start page_size w of (page, w') \<Rightarrow>
        (case absorb_page requested (length cells) start page facts of
           Inl e \<Rightarrow> (Inl e, w')
         | Inr (facts', None) \<Rightarrow> (Inr facts', w')
         | Inr (facts', Some n) \<Rightarrow> read_pages src page_size requested cells n w' facts'))"
  by pat_completeness auto

termination
  by (relation "measure (\<lambda>(_, _, _, cells, start, _, _). length cells - start)")
    (auto dest!: absorb_page_advances)

function read_chunks ::
  "('f, 'w) cell_source \<Rightarrow> nat \<Rightarrow> position set \<Rightarrow> position list \<Rightarrow> 'w
   \<Rightarrow> (position, 'f) pydict \<Rightarrow> (read_error + (position, 'f) pydict) \<times> 'w" where
  "read_chunks src page_size requested cells w facts =
     (if cells = [] \<or> page_size = 0 then (Inr facts, w)
      else case read_pages src page_size requested (take page_size cells) 0 w facts of
             (Inl e, w') \<Rightarrow> (Inl e, w')
           | (Inr facts', w') \<Rightarrow> read_chunks src page_size requested (drop page_size cells) w' facts')"
  by pat_completeness auto

termination
  by (relation "measure (\<lambda>(_, _, _, cells, _, _). length cells)") auto

declare read_pages.simps [simp del] read_chunks.simps [simp del]

definition read_block_facts ::
  "('f, 'w) cell_source \<Rightarrow> int \<Rightarrow> position list \<Rightarrow> 'w \<Rightarrow> (read_error + (position, 'f) pydict) \<times> 'w" where
  "read_block_facts src page_size positions w =
     (if page_size < 1 then (Inl ReadPageSize, w)
      else case read_chunks src (nat page_size) (set positions) positions w [] of
             (Inl e, w') \<Rightarrow> (Inl e, w')
           | (Inr facts, w') \<Rightarrow>
               (let missing = set positions - set (map fst facts)
                in if missing \<noteq> {} then (Inl (ReadMissing missing), w') else (Inr facts, w')))"

section \<open>What a successful read is\<close>

text \<open>A source that notes every request with the page that answered it.\<close>

type_synonym 'f page_note = "(position list \<times> nat) \<times> 'f cell_page"

definition noting_pages :: "('f, 'w) cell_source \<Rightarrow> ('f, 'w \<times> 'f page_note list) cell_source" where
  "noting_pages src cells start pg wl =
     (case src cells start pg (fst wl) of (page, w) \<Rightarrow> (page, (w, snd wl @ [((cells, start), page)])))"

text \<open>The cells that the pages report, in their order.\<close>

definition reported_cells :: "'f page_note list \<Rightarrow> (position \<times> 'f) list" where
  "reported_cells seen = concat (map (\<lambda>(_, page). map projr (case cp_cells page of None \<Rightarrow> [] | Some cs \<Rightarrow> cs)) seen)"

text \<open>A page that was accepted: it answers a part of the request and reports requested cells only.\<close>

definition accepted_page :: "position list \<Rightarrow> 'f page_note \<Rightarrow> bool" where
  "accepted_page positions note \<longleftrightarrow>
     (case note of ((cells, start), page) \<Rightarrow>
        sublist cells positions \<and> cp_ok page \<and>
        (\<exists>cs. cp_cells page = Some cs \<and> (\<forall>c\<in>set cs. \<exists>x. c = Inr x \<and> fst x \<in> set positions)))"

definition gathered :: "position list \<Rightarrow> 'f page_note list \<Rightarrow> (position, 'f) pydict \<Rightarrow> bool" where
  "gathered positions seen facts \<longleftrightarrow>
     (\<forall>note\<in>set seen. accepted_page positions note) \<and> distinct (map fst facts) \<and>
     set (map fst facts) \<subseteq> set positions \<and> map_of facts = map_of (rev (reported_cells seen))"

lemma absorb_cells_run:
  "absorb_cells requested cells facts = Inr facts' \<Longrightarrow>
     (\<forall>c\<in>set cells. \<exists>x. c = Inr x \<and> fst x \<in> requested) \<and>
     map_of facts' = map_of facts ++ map_of (rev (map projr cells)) \<and>
     (distinct (map fst facts) \<longrightarrow> distinct (map fst facts')) \<and>
     (set (map fst facts) \<subseteq> requested \<longrightarrow> set (map fst facts') \<subseteq> requested)"
proof (induction requested cells facts rule: absorb_cells.induct)
  case (3 requested pos f cs facts)
  then show ?case
    by (cases pos) (auto simp: distinct_update update_keys map_of_update map_add_def split: if_splits option.splits)
qed simp_all

lemma absorb_page_gathered:
  assumes g: "gathered positions seen facts" and part: "sublist cells positions"
    and run: "absorb_page (set positions) len start page facts = Inr (facts', n)"
  shows "gathered positions (seen @ [((cells, start), page)]) facts'"
proof -
  obtain cs where cs: "cp_ok page" "cp_cells page = Some cs" "absorb_cells (set positions) cs facts = Inr facts'"
    using run by (auto simp: absorb_page_def split: if_splits option.splits sum.splits)
  from absorb_cells_run [OF cs(3)] g part cs(1,2) show ?thesis
    by (auto simp: gathered_def accepted_page_def reported_cells_def)
qed

text \<open>Reading through the noting source is reading, with the notes of the pages that were read.\<close>

lemma read_pages_gathered:
  "gathered positions seen facts \<Longrightarrow> sublist cells positions \<Longrightarrow>
     read_pages src pg (set positions) cells start w facts = (Inr facts', w') \<Longrightarrow>
     \<exists>seen'. read_pages (noting_pages src) pg (set positions) cells start (w, seen) facts = (Inr facts', (w', seen @ seen')) \<and>
       gathered positions (seen @ seen') facts'"
proof (induction src pg "set positions" cells start w facts arbitrary: seen rule: read_pages.induct)
  case (1 src pg cells start w facts)
  obtain page w1 where sq: "src cells start pg w = (page, w1)" by fastforce
  have nq: "noting_pages src cells start pg (w, seen) = (page, (w1, seen @ [((cells, start), page)]))"
    by (simp add: noting_pages_def sq)
  note step = "1.prems"(3) [unfolded read_pages.simps [of src pg "set positions" cells start w]]
  show ?case
  proof (cases "absorb_page (set positions) (length cells) start page facts")
    case (Inr r)
    obtain f2 n where r: "r = (f2, n)" by fastforce
    have g: "gathered positions (seen @ [((cells, start), page)]) f2"
      by (rule absorb_page_gathered [OF "1.prems"(1,2)]) (use Inr r in simp)
    show ?thesis
    proof (cases n)
      case None
      with step sq nq Inr r g show ?thesis
        by (intro exI [of _ "[((cells, start), page)]"]) (simp add: read_pages.simps [of "noting_pages src"])
    next
      case (Some k)
      have "read_pages src pg (set positions) cells k w1 f2 = (Inr facts', w')" using step sq Inr r Some by simp
      from "1.hyps" [OF sq [symmetric] Inr r [symmetric] Some g "1.prems"(2) this] obtain seen' where
        "read_pages (noting_pages src) pg (set positions) cells k (w1, seen @ [((cells, start), page)]) f2 =
           (Inr facts', (w', (seen @ [((cells, start), page)]) @ seen'))"
        "gathered positions ((seen @ [((cells, start), page)]) @ seen') facts'" by blast
      then show ?thesis
        using nq Inr r Some
        by (intro exI [of _ "((cells, start), page) # seen'"]) (simp add: read_pages.simps [of "noting_pages src" _ _ _ start])
    qed
  qed (use step sq in simp)
qed

lemma read_chunks_gathered:
  "gathered positions seen facts \<Longrightarrow> suffix cells positions \<Longrightarrow>
     read_chunks src pg (set positions) cells w facts = (Inr facts', w') \<Longrightarrow>
     \<exists>seen'. read_chunks (noting_pages src) pg (set positions) cells (w, seen) facts = (Inr facts', (w', seen @ seen')) \<and>
       gathered positions (seen @ seen') facts'"
proof (induction src pg "set positions" cells w facts arbitrary: seen rule: read_chunks.induct)
  case (1 src pg cells w facts)
  show ?case
  proof (cases "cells = [] \<or> pg = 0")
    case True
    with "1.prems" show ?thesis
      by (intro exI [of _ "[]"]) (auto simp: read_chunks.simps [of _ pg _ cells])
  next
    case False
    obtain r w1 where rp: "read_pages src pg (set positions) (take pg cells) 0 w facts = (r, w1)" by fastforce
    with False "1.prems"(3) obtain f2 where r: "r = Inr f2"
      by (auto simp: read_chunks.simps [of src pg "set positions" cells] split: sum.splits)
    have part: "sublist (take pg cells) positions"
      using "1.prems"(2) by (meson take_is_prefix prefix_imp_sublist suffix_imp_sublist sublist_order.order_trans)
    have rest: "suffix (drop pg cells) positions"
      using "1.prems"(2) by (meson suffix_drop suffix_order.order_trans)
    from read_pages_gathered [OF "1.prems"(1) part rp [unfolded r]] obtain seen1 where
      n1: "read_pages (noting_pages src) pg (set positions) (take pg cells) 0 (w, seen) facts = (Inr f2, (w1, seen @ seen1))"
      and g1: "gathered positions (seen @ seen1) f2" by blast
    have "read_chunks src pg (set positions) (drop pg cells) w1 f2 = (Inr facts', w')"
      using "1.prems"(3) False rp r by (simp add: read_chunks.simps [of src pg "set positions" cells])
    from "1.hyps" [OF False rp [symmetric] r g1 rest this] obtain seen2 where
      "read_chunks (noting_pages src) pg (set positions) (drop pg cells) (w1, seen @ seen1) f2 =
         (Inr facts', (w', (seen @ seen1) @ seen2))"
      "gathered positions ((seen @ seen1) @ seen2) facts'" by blast
    then show ?thesis
      using False n1 by (intro exI [of _ "seen1 @ seen2"]) (simp add: read_chunks.simps [of "noting_pages src" pg _ cells])
  qed
qed

text \<open>The pages of one chunk are at most one more than its cells: the cursor only advances.\<close>

fun counted :: "('f, 'w) cell_source \<Rightarrow> ('f, 'w \<times> nat) cell_source" where
  "counted src cells start pg (w, n) =
     (case src cells start pg w of (page, w') \<Rightarrow> (page, (w', Suc n)))"

lemma read_pages_calls:
  "start \<le> length cells \<Longrightarrow>
     snd (snd (read_pages (counted src) pg requested cells start (w, n) facts)) + start
       \<le> n + Suc (length cells)"
proof (induction "length cells - start" arbitrary: start w n facts rule: less_induct)
  case less
  obtain page w1 where sq: "src cells start pg w = (page, w1)" by fastforce
  show ?case
  proof (cases "absorb_page requested (length cells) start page facts")
    case (Inl e)
    with sq less.prems show ?thesis by (simp add: read_pages.simps [of _ _ _ cells start])
  next
    case (Inr r)
    obtain f2 nx where r: "r = (f2, nx)" by fastforce
    show ?thesis
    proof (cases nx)
      case None
      with sq Inr r less.prems show ?thesis by (simp add: read_pages.simps [of _ _ _ cells start])
    next
      case (Some k)
      with Inr r have k: "start < k" "k \<le> length cells"
        using absorb_page_advances by blast+
      have "snd (snd (read_pages (counted src) pg requested cells k (w1, Suc n) f2)) + k
          \<le> Suc n + Suc (length cells)"
        by (rule less.hyps) (use k in auto)
      with sq Inr r Some k show ?thesis by (simp add: read_pages.simps [of _ _ _ cells start])
    qed
  qed
qed

lemma read_facts_gathered:
  assumes "read_block_facts src page_size positions w = (Inr facts, w')"
  shows "\<exists>seen. read_block_facts (noting_pages src) page_size positions (w, []) = (Inr facts, (w', seen)) \<and>
    gathered positions seen facts \<and> set (map fst facts) = set positions"
proof -
  obtain r where r: "read_chunks src (nat page_size) (set positions) positions w [] = (Inr facts, w')"
    and miss: "set positions - set (map fst facts) = {}" and size: "\<not> page_size < 1"
    using assms by (auto simp: read_block_facts_def Let_def split: if_splits prod.splits sum.splits)
  have "gathered positions [] []" by (simp add: gathered_def reported_cells_def)
  from read_chunks_gathered [OF this suffix_order.order_refl r] obtain seen where
    n: "read_chunks (noting_pages src) (nat page_size) (set positions) positions (w, []) [] = (Inr facts, (w', seen))"
    and g: "gathered positions seen facts" by auto
  have "set (map fst facts) = set positions" using g miss by (auto simp: gathered_def)
  then show ?thesis using n g size by (intro exI [of _ seen]) (simp add: read_block_facts_def)
qed

lemma read_facts_keys:
  "read_block_facts src page_size positions w = (Inr facts, w') \<Longrightarrow>
     fst ` set facts = set positions \<and> distinct (map fst facts)"
  using read_facts_gathered [of src page_size positions w facts w'] by (auto simp: gathered_def)

section \<open>Properties\<close>

text \<open>
  C39. A block read never invents or drops a cell: when \<open>read_block_facts\<close> returns, its facts are for
  exactly the requested positions, one each. The fact of a position is the last one that the pages of
  this very read report for it (the read is done again through a source that notes its requests and
  pages), and each of these pages was accepted: it answers a part of the request, it is ok, and every
  cell of it decodes to a requested position.
\<close>

theorem read_block_facts_exact:
  assumes "read_block_facts src page_size positions w = (Inr facts, w')"
  shows "set (map fst facts) = set positions \<and> distinct (map fst facts) \<and>
    (\<exists>seen. read_block_facts (noting_pages src) page_size positions (w, []) = (Inr facts, (w', seen)) \<and>
       (\<forall>note\<in>set seen. accepted_page positions note) \<and>
       (\<forall>pos. map_of facts pos = map_of (rev (reported_cells seen)) pos))"
  using read_facts_gathered [OF assms] by (auto simp: gathered_def)

definition demo_source :: "(string, unit) cell_source" where
  "demo_source cells start pg w =
     (\<lparr>cp_ok = True, cp_complete = start = 1,
       cp_cells = Some [Inr (cells ! start, ''stone'')],
       cp_next = (if start = 0 then Some (Inr 1) else None)\<rparr>, ())"

theorem read_block_facts_exact_witness:
  "set (map fst [((0::int, 64::int, 0::int), ''stone''), ((1, 64, 0), ''stone'')]) =
     set [(0, 64, 0), (1, 64, 0)]"
proof -
  have "read_block_facts demo_source 64 [(0, 64, 0), (1, 64, 0)] () =
      (Inr [((0, 64, 0), ''stone''), ((1, 64, 0), ''stone'')], ())"
    by (simp add: read_block_facts_def read_chunks.simps read_pages.simps demo_source_def
        absorb_page_def)
  from read_block_facts_exact [OF this] show ?thesis by blast
qed

end
