(* ===== verification/Structure_Risk.thy ===== *)
theory Structure_Risk
  imports Governance_Safety World_Read
begin

text \<open>
  The voxel assessor of \<open>minebot/body/structure_risk.py\<close>: a 3 by 7 by 3 window round the
  proposed break is read and scored. Every term of the score is a multiple of 1/100 and
  the score is rounded to three places before it is compared, so rationals compare as the
  source's floats do.
\<close>

definition CLEAR_TYPES :: "string set" where
  "CLEAR_TYPES = {''air'', ''cave_air'', ''void_air'', ''water'', ''lava''}"

definition ROOT_TYPES :: "string set" where
  "ROOT_TYPES = {''dirt'', ''grass_block'', ''podzol'', ''coarse_dirt'', ''rooted_dirt'', ''mud''}"

definition MANUFACTURED_EXACT :: "string set" where
  "MANUFACTURED_EXACT = {
    ''bookshelf'', ''ladder'', ''rail'', ''powered_rail'', ''detector_rail'', ''activator_rail'',
    ''chain'', ''scaffolding'', ''hay_block'', ''target''}"

definition MANUFACTURED_SUFFIXES :: "string list" where
  "MANUFACTURED_SUFFIXES = [
    ''_planks'', ''_stairs'', ''_slab'', ''_fence'', ''_fence_gate'', ''_wall'', ''_door'',
    ''_trapdoor'', ''_button'', ''_pressure_plate'', ''_sign'', ''_hanging_sign'', ''_wool'',
    ''_carpet'', ''_concrete'', ''_concrete_powder'', ''_glazed_terracotta'']"

definition is_manufactured :: "string \<Rightarrow> bool" where
  "is_manufactured block_type \<longleftrightarrow>
     block_type \<in> STRONGLY_PROTECTED_TYPES \<or> block_type \<in> MANUFACTURED_EXACT \<or>
     list_ex (\<lambda>s. suffix s block_type) MANUFACTURED_SUFFIXES"

type_synonym voxel_cells = "(position, string) pydict"

definition sample_positions :: "position \<Rightarrow> position list" where
  "sample_positions pos = (case pos of (x, y, z) \<Rightarrow>
     [(x + dx, y + dy, z + dz). dy \<leftarrow> [-3..3], dx \<leftarrow> [-1..1], dz \<leftarrow> [-1..1]])"

definition count_where :: "('a \<Rightarrow> bool) \<Rightarrow> 'a list \<Rightarrow> nat" where
  "count_where P xs = length (filter P xs)"

definition cell_is :: "voxel_cells \<Rightarrow> string \<Rightarrow> position \<Rightarrow> bool" where
  "cell_is cells t p \<longleftrightarrow> map_of cells p = Some t"

definition cell_in :: "voxel_cells \<Rightarrow> string set \<Rightarrow> position \<Rightarrow> bool" where
  "cell_in cells ts p = (case map_of cells p of None \<Rightarrow> False | Some t \<Rightarrow> t \<in> ts)"

definition sides :: "position \<Rightarrow> position list" where
  "sides pos = (case pos of (x, y, z) \<Rightarrow> [(x - 1, y, z), (x + 1, y, z), (x, y, z - 1), (x, y, z + 1)])"

definition log_risk :: "position \<Rightarrow> string \<Rightarrow> voxel_cells \<Rightarrow> rat \<times> string list" where
  "log_risk pos block_type cells = (case pos of (x, y, z) \<Rightarrow>
     let vertical = count_where (\<lambda>dy. cell_is cells block_type (x, y + dy, z)) [-2, -1, 1, 2];
         horizontal = count_where (cell_is cells block_type) (sides pos);
         rooted = list_ex (\<lambda>dy. cell_in cells ROOT_TYPES (x, y + dy, z)) [-3, -2, -1];
         leaf_count = count_where (\<lambda>(_, v). suffix ''_leaves'' v) cells;
         column = (if vertical \<noteq> 0 \<and> rooted then (- 45/100, [''rooted_vertical_log''])
                   else if vertical \<ge> 2 then (- 2/10, [''vertical_log_column'']) else (0, []));
         leaves = (if leaf_count \<noteq> 0
                   then (- 35/100, [''nearby_leaves:'' @ str_of_nat leaf_count]) else (0, []));
         beam = (if horizontal > vertical then (35/100, [''horizontal_log_pattern'']) else (0, []));
         bare = (if vertical = 0 \<and> \<not> rooted \<and> leaf_count = 0
                 then (35/100, [''log_without_tree_evidence'']) else (0, []))
     in (fst column + fst leaves + fst beam + fst bare,
         snd column @ snd leaves @ snd beam @ snd bare))"

definition regular_surface_risk :: "position \<Rightarrow> string \<Rightarrow> voxel_cells \<Rightarrow> rat \<times> string list" where
  "regular_surface_risk pos block_type cells = (case pos of (x, y, z) \<Rightarrow>
     let vertical_column = count_where (\<lambda>dy. cell_is cells block_type (x, y + dy, z)) [-3..3];
         horizontal_same = count_where (cell_is cells block_type) (sides pos);
         clear_sides = count_where (cell_in cells CLEAR_TYPES) (sides pos)
     in if vertical_column \<ge> 4 \<and> horizontal_same = 0 \<and> clear_sides \<ge> 3
        then (55/100, [''isolated_vertical_column''])
        else
       (let clear_west = cell_in cells CLEAR_TYPES (x - 1, y, z);
            clear_east = cell_in cells CLEAR_TYPES (x + 1, y, z);
            clear_north = cell_in cells CLEAR_TYPES (x, y, z - 1);
            clear_south = cell_in cells CLEAR_TYPES (x, y, z + 1);
            x_plane = count_where (cell_is cells block_type)
                        [(x, y + dy, z + dz). dy \<leftarrow> [-3..3], dz \<leftarrow> [-1..1]];
            z_plane = count_where (cell_is cells block_type)
                        [(x + dx, y + dy, z). dy \<leftarrow> [-3..3], dx \<leftarrow> [-1..1]]
        in if (clear_west \<or> clear_east) \<and> x_plane \<ge> 12 \<or> (clear_north \<or> clear_south) \<and> z_plane \<ge> 12
           then (35/100, [''exposed_regular_plane''])
           else
          (let mirrored = count_where
                 (\<lambda>((dx, dz), dy).
                    map_of cells (x - dx, y + dy, z - dz) = map_of cells (x + dx, y + dy, z + dz) \<and>
                    \<not> cell_in cells CLEAR_TYPES (x + dx, y + dy, z + dz))
                 [(d, dy). d \<leftarrow> [(1, 0), (0, 1), (1, 1), (1, -1)], dy \<leftarrow> [-1, 0, 1]]
           in if mirrored \<ge> 8 then (2/10, [''local_axis_symmetry'']) else (0, []))))"

text \<open>The bot's own placed neighbours count as air.\<close>

definition bot_owned_cell :: "placement_ledger option \<Rightarrow> position \<Rightarrow> position \<times> string \<Rightarrow> bool" where
  "bot_owned_cell bot_placements pos cell = (case cell of (q, t) \<Rightarrow>
     q \<noteq> pos \<and>
     (case bot_placements of None \<Rightarrow> False
      | Some ledger \<Rightarrow>
          (case map_of ledger q of None \<Rightarrow> False
           | Some receipt \<Rightarrow> normalize_block_type (bp_block_type receipt) = t)))"

definition assessment_cells :: "placement_ledger option \<Rightarrow> position \<Rightarrow> voxel_cells \<Rightarrow> voxel_cells" where
  "assessment_cells bot_placements pos cells =
     map (\<lambda>(q, t). if bot_owned_cell bot_placements pos (q, t) then (q, ''air'') else (q, t)) cells"

definition neighbour_risk :: "position \<Rightarrow> voxel_cells \<Rightarrow> rat \<times> string list" where
  "neighbour_risk pos cells =
     (let nearby = map snd (filter (\<lambda>(q, _). q \<noteq> pos) cells);
          manufactured = filter is_manufactured nearby;
          protected = filter (\<lambda>t. t \<in> STRONGLY_PROTECTED_TYPES) nearby
      in if protected \<noteq> [] then (8/10, [''functional_blocks:'' @ str_of_nat (length protected)])
         else if manufactured \<noteq> [] then
           (min (85/100) (65/100 + 4/100 * of_nat (length manufactured)),
            [''manufactured_blocks:'' @ str_of_nat (length manufactured)])
         else (0, []))"

definition material_risk :: "position \<Rightarrow> string \<Rightarrow> voxel_cells \<Rightarrow> rat \<times> string list" where
  "material_risk pos block_type cells =
     (if suffix ''_log'' block_type then log_risk pos block_type cells
      else if suffix ''_ore'' block_type then (- 35/100, [''ore_natural_prior''])
      else regular_surface_risk pos block_type cells)"

definition context_risk :: "break_context \<Rightarrow> rat \<times> string list" where
  "context_risk context =
     (if context \<in> {BC_TRAVEL, BC_COLLECT_APPROACH, BC_RECOVERY}
      then (1/10, [''conservative_context:'' @ break_context_value context])
      else if context = BC_COLLECT then (- 1/10, [''collect_target_prior''])
      else (0, []))"

definition risk_level :: "rat \<Rightarrow> structure_risk_level" where
  "risk_level score =
     (if score \<ge> 65/100 then RISK_HIGH else if score \<ge> 3/10 then RISK_AMBIGUOUS else RISK_LOW)"

definition classify_voxels ::
  "position \<Rightarrow> string \<Rightarrow> break_context \<Rightarrow> voxel_cells \<Rightarrow> placement_ledger option
   \<Rightarrow> structure_risk_assessment" where
  "classify_voxels pos block_type context cells bot_placements =
     (let seen = assessment_cells bot_placements pos cells;
          owned = count_where (bot_owned_cell bot_placements pos) cells;
          near = neighbour_risk pos seen;
          material = material_risk pos block_type seen;
          ctx = context_risk context;
          score = py_round 3 (max 0 (min 1 (fst near + fst material + fst ctx)));
          palette = remdups (filter (\<lambda>t. t \<notin> CLEAR_TYPES) (map snd seen))
      in \<lparr>sra_pos = pos, sra_block_type = block_type, sra_level = risk_level score,
          sra_score = score, sra_complete = True, sra_sampled_cells = length cells,
          sra_signals =
            (if owned \<noteq> 0 then [''bot_owned_neighbors:'' @ str_of_nat owned] else []) @
            snd near @ snd material @ snd ctx @ [''solid_palette:'' @ str_of_nat (length palette)],
          sra_source = ''voxel''\<rparr>)"

text \<open>
  \<open>assess\<close>: the type a cell reports is \<open>None\<close> when the fact has no usable one. A failed
  read and a changed target are incomplete assessments.
\<close>

definition incomplete_assessment ::
  "position \<Rightarrow> string \<Rightarrow> nat \<Rightarrow> string \<Rightarrow> structure_risk_assessment" where
  "incomplete_assessment pos block_type sampled signal =
     \<lparr>sra_pos = pos, sra_block_type = block_type, sra_level = RISK_AMBIGUOUS, sra_score = 1,
      sra_complete = False, sra_sampled_cells = sampled, sra_signals = [signal],
      sra_source = ''voxel''\<rparr>"

definition observed_type :: "string option \<Rightarrow> string" where
  "observed_type t = normalize_block_type
     (case t of None \<Rightarrow> ''unknown'' | Some s \<Rightarrow> if s = [] then ''unknown'' else s)"

definition voxel_assess :: "(string option, 'w) cell_source \<Rightarrow> 'w \<Rightarrow> assessor" where
  "voxel_assess src w pos block_type context bot_placements =
     (let target = normalize_block_type block_type
      in case fst (read_block_facts src 64 (sample_positions pos) w) of
           Inl exc \<Rightarrow> Inr (incomplete_assessment pos target 0
                        (''world_read_failed:'' @ read_error_name exc))
         | Inr facts \<Rightarrow>
             (let block_types = map (\<lambda>(q, t). (q, observed_type t)) facts;
                  observed = (case map_of block_types pos of None \<Rightarrow> ''unknown'' | Some t \<Rightarrow> t)
              in if observed \<noteq> target then
                   Inr (incomplete_assessment pos target (length block_types)
                          (''target_changed:'' @ observed))
                 else Inr (classify_voxels pos target context block_types (Some bot_placements))))"

section \<open>Bounds of the score\<close>

lemma regular_surface_risk_nonneg: "0 \<le> fst (regular_surface_risk pos b cells)"
  by (simp add: regular_surface_risk_def Let_def split: prod.splits)

lemma neighbour_risk_functional:
  assumes "(q, t) \<in> set cells" and "q \<noteq> pos" and "t \<in> STRONGLY_PROTECTED_TYPES"
  shows "fst (neighbour_risk pos cells) = 8/10"
proof -
  have "t \<in> set (map snd (filter (\<lambda>(q, _). q \<noteq> pos) cells))"
    using assms(1,2) by force
  then have "filter (\<lambda>t. t \<in> STRONGLY_PROTECTED_TYPES) (map snd (filter (\<lambda>(q, _). q \<noteq> pos) cells)) \<noteq> []"
    using assms(3) unfolding filter_empty_conv by blast
  then show ?thesis by (simp add: neighbour_risk_def Let_def)
qed

lemma neighbour_risk_nonneg: "0 \<le> fst (neighbour_risk pos cells)"
  by (simp add: neighbour_risk_def Let_def)

lemma context_risk_low: "- 1/10 \<le> fst (context_risk ctx)"
  by (simp add: context_risk_def)

lemma score_ge_cut:
  assumes "of_int k / 1000 \<le> r" and "k \<le> 1000"
  shows "of_int k / 1000 \<le> py_round 3 (max 0 (min 1 r))"
proof -
  have "py_round 3 (of_int k / 1000) \<le> py_round 3 (max 0 (min 1 r))"
    by (rule py_round_mono) (use assms in \<open>auto simp: max_def min_def\<close>)
  moreover have "py_round 3 (of_int k / 1000) = of_int k / (1000::rat)"
    by (simp add: py_round_def)
  ultimately show ?thesis by simp
qed

lemma classify_level: "sra_level (classify_voxels pos b ctx cells pl) = risk_level (sra_score (classify_voxels pos b ctx cells pl))"
  by (simp add: classify_voxels_def Let_def)

lemma classify_score_range:
  "0 \<le> sra_score (classify_voxels pos b ctx cells pl) \<and> sra_score (classify_voxels pos b ctx cells pl) \<le> 1"
proof -
  have "py_round 3 0 \<le> py_round 3 (max 0 (min 1 r)) \<and> py_round 3 (max 0 (min 1 r)) \<le> py_round 3 1" for r
    by (intro conjI py_round_mono) auto
  then show ?thesis by (simp add: classify_voxels_def Let_def)
qed

lemma assessment_cells_keep:
  "(q, t) \<in> set cells \<Longrightarrow> \<not> bot_owned_cell pl pos (q, t) \<Longrightarrow> (q, t) \<in> set (assessment_cells pl pos cells)"
  unfolding assessment_cells_def by (auto intro!: image_eqI [where x = "(q, t)"])

lemma functional_score:
  assumes "(q, t) \<in> set cells" and "q \<noteq> pos" and "t \<in> STRONGLY_PROTECTED_TYPES"
    and "\<not> bot_owned_cell pl pos (q, t)"
  shows "\<not> suffix ''_log'' b \<Longrightarrow> \<not> suffix ''_ore'' b \<Longrightarrow>
           65/100 \<le> sra_score (classify_voxels pos b ctx cells pl)"
    and "\<not> suffix ''_log'' b \<Longrightarrow> 3/10 \<le> sra_score (classify_voxels pos b ctx cells pl)"
proof -
  let ?seen = "assessment_cells pl pos cells"
  have near: "fst (neighbour_risk pos ?seen) = 8/10"
    by (rule neighbour_risk_functional [OF assessment_cells_keep]) (use assms in auto)
  show "65/100 \<le> sra_score (classify_voxels pos b ctx cells pl)"
    if "\<not> suffix ''_log'' b" "\<not> suffix ''_ore'' b"
    using score_ge_cut [of 650 "8/10 + fst (regular_surface_risk pos b ?seen) + fst (context_risk ctx)"]
      regular_surface_risk_nonneg [of pos b ?seen] context_risk_low [of ctx] that
    by (simp add: classify_voxels_def Let_def material_risk_def near)
  show "3/10 \<le> sra_score (classify_voxels pos b ctx cells pl)" if "\<not> suffix ''_log'' b"
    using score_ge_cut [of 300 "8/10 + fst (material_risk pos b ?seen) + fst (context_risk ctx)"]
      regular_surface_risk_nonneg [of pos b ?seen] context_risk_low [of ctx] that
    by (simp add: classify_voxels_def Let_def material_risk_def near split: if_splits)
qed

section \<open>The assessor keeps governance's contract\<close>

lemma voxel_assess_complete:
  assumes "voxel_assess src w pos b ctx pl = Inr a" and "sra_complete a"
  shows "\<exists>facts. fst (read_block_facts src 64 (sample_positions pos) w) = Inr facts \<and>
           map_of (map (\<lambda>(q, t). (q, observed_type t)) facts) pos = Some (normalize_block_type b) \<and>
           a = classify_voxels pos (normalize_block_type b) ctx
                 (map (\<lambda>(q, t). (q, observed_type t)) facts) (Some pl)"
proof (cases "fst (read_block_facts src 64 (sample_positions pos) w)")
  case (Inl e)
  with assms show ?thesis by (auto simp: voxel_assess_def Let_def incomplete_assessment_def)
next
  case (Inr facts)
  let ?bt = "map (\<lambda>(q, t). (q, observed_type t)) facts"
  have a: "a = classify_voxels pos (normalize_block_type b) ctx ?bt (Some pl)"
    and o: "(case map_of ?bt pos of None \<Rightarrow> ''unknown'' | Some t \<Rightarrow> t) = normalize_block_type b"
    using assms Inr
    by (auto simp: voxel_assess_def Let_def incomplete_assessment_def split: if_splits)
  obtain r where r: "read_block_facts src 64 (sample_positions pos) w = (Inr facts, r)"
    using Inr by (metis prod.collapse)
  have "pos \<in> set (sample_positions pos)"
    by (cases pos) (simp add: sample_positions_def upto.simps)
  moreover have "fst ` set ?bt = fst ` set facts" by (simp add: image_image case_prod_beta)
  ultimately have "pos \<in> fst ` set ?bt" using read_facts_keys [OF r] by simp
  then obtain t where "map_of ?bt pos = Some t" by (metis map_of_eq_None_iff not_Some_eq)
  with o a Inr show ?thesis by auto
qed

interpretation voxel: risk_assessor "voxel_assess src w" for src w
proof
  fix pos b ctx pl a
  assume "voxel_assess src w pos b ctx pl = Inr a" "sra_complete a"
  then have "sra_level a = risk_level (sra_score a)"
    using voxel_assess_complete classify_level by metis
  then show "sra_level a = RISK_LOW \<longleftrightarrow> sra_score a < 3/10"
    and "sra_level a = RISK_HIGH \<longleftrightarrow> 65/100 \<le> sra_score a"
    by (auto simp: risk_level_def)
qed

section \<open>A concrete window\<close>

text \<open>A window of one block type, read in one page, for the witnesses.\<close>

definition demo_window :: "string \<Rightarrow> (string option, unit) cell_source" where
  "demo_window t cells start limit w =
     (\<lparr>cp_ok = True, cp_complete = True, cp_cells = Some (map (\<lambda>p. Inr (p, Some t)) cells),
       cp_next = None\<rparr>, ())"

lemma absorb_uniform:
  "distinct ps \<Longrightarrow> set ps \<subseteq> req \<Longrightarrow> fst ` set facts \<inter> set ps = {} \<Longrightarrow>
     absorb_cells req (map (\<lambda>p. Inr (p, t)) ps) facts = Inr (facts @ map (\<lambda>p. (p, t)) ps)"
proof (induction ps arbitrary: facts)
  case (Cons p ps)
  then have "AList.update p t facts = facts @ [(p, t)]"
    by (intro keys_update_fresh) auto
  with Cons show ?case by auto
qed simp

lemma sample_positions_shape: "length (sample_positions pos) = 63" "distinct (sample_positions pos)"
  by (cases pos; simp add: sample_positions_def upto.simps)+

lemma demo_window_read:
  "fst (read_block_facts (demo_window t) 64 (sample_positions pos) w) =
     Inr (map (\<lambda>p. (p, Some t)) (sample_positions pos))"
proof -
  have "sample_positions pos \<noteq> []" using sample_positions_shape(1) [of pos] by auto
  moreover have "absorb_cells (set (sample_positions pos)) (map (\<lambda>p. Inr (p, Some t)) (sample_positions pos)) [] =
      Inr (map (\<lambda>p. (p, Some t)) (sample_positions pos))"
    using absorb_uniform [OF sample_positions_shape(2) [of pos], where facts = "[]" and t = "Some t"
        and req = "set (sample_positions pos)"] by simp
  ultimately show ?thesis
    by (simp add: read_block_facts_def read_chunks.simps read_pages.simps demo_window_def
        absorb_page_def sample_positions_shape image_image)
qed

lemma demo_map_of: "map_of (map (\<lambda>p. (p, t)) ps) q = (if q \<in> set ps then Some t else None)"
  by (induction ps) auto

lemma demo_voxel:
  "voxel_assess (demo_window ''stone'') w (1, 64, 1) ''stone'' ctx pl =
     Inr (classify_voxels (1, 64, 1) ''stone'' ctx (map (\<lambda>p. (p, ''stone'')) (sample_positions (1, 64, 1)))
            (Some pl))"
proof -
  have "(1, 64, 1) \<in> set (sample_positions (1, 64, 1))"
    by (simp add: sample_positions_def upto.simps)
  then show ?thesis
    by (simp add: voxel_assess_def demo_window_read observed_type_def normalize_block_type_def
        removeprefix_def demo_map_of comp_def Let_def)
qed

definition stone_window :: voxel_cells where
  "stone_window = map (\<lambda>p. (p, ''stone'')) (sample_positions (1, 64, 1))"

lemma stone_window_at:
  "map_of stone_window q = (if q \<in> set (sample_positions (1, 64, 1)) then Some ''stone'' else None)"
  "map_of stone_window q = Some t \<Longrightarrow> t = ''stone''"
  by (auto simp: stone_window_def demo_map_of split: if_splits)

lemma stone_window_cells:
  "cell_is stone_window ''stone'' q \<longleftrightarrow> q \<in> set (sample_positions (1, 64, 1))"
  "\<not> cell_in stone_window CLEAR_TYPES q"
  by (auto simp: cell_is_def cell_in_def stone_window_at CLEAR_TYPES_def)

lemma stone_not_manufactured: "\<not> is_manufactured ''stone''" "''stone'' \<notin> STRONGLY_PROTECTED_TYPES"
  by (simp_all add: is_manufactured_def STRONGLY_PROTECTED_TYPES_def MANUFACTURED_EXACT_def
      MANUFACTURED_SUFFIXES_def suffix_def)

lemma stone_surface: "fst (regular_surface_risk (1, 64, 1) ''stone'' stone_window) = 2/10"
  by (simp add: regular_surface_risk_def stone_window_cells count_where_def sides_def upto.simps
      stone_window_at sample_positions_def)

lemma stone_near: "fst (neighbour_risk (1, 64, 1) stone_window) = 0"
proof -
  let ?near = "map snd (filter (\<lambda>(q, _). q \<noteq> (1, 64, 1)) stone_window)"
  have "t = ''stone''" if "t \<in> set ?near" for t
    using that by (auto simp: stone_window_def)
  then have "filter is_manufactured ?near = []" "filter (\<lambda>t. t \<in> STRONGLY_PROTECTED_TYPES) ?near = []"
    using stone_not_manufactured unfolding filter_empty_conv by blast+
  then show ?thesis by (simp only: neighbour_risk_def Let_def) simp
qed

lemma stone_level: "sra_level (classify_voxels (1, 64, 1) ''stone'' BC_DIRECT stone_window (Some [])) = RISK_LOW"
proof -
  have "assessment_cells (Some []) (1, 64, 1) stone_window = stone_window"
    by (simp add: assessment_cells_def bot_owned_cell_def case_prod_beta)
  then show ?thesis
    by (simp add: classify_voxels_def Let_def stone_near material_risk_def stone_surface
        context_risk_def py_round_def risk_level_def suffix_def)
qed

lemma demo_stone_allowed:
  "ld_allowed (fst (can_break demo_policy (Some (voxel_assess (demo_window ''stone'') ()))
     (demo_env 0 ''aa'') (demo_env 0 ''aa'') (1, 64, 1) ''minecraft:stone'' BC_DIRECT False None None))"
  using stone_level
  by (simp add: can_break_def stone_type acting_bot_def demo_static break_assessed_def
      assess_structure_risk_def demo_voxel [folded stone_window_def] classify_voxels_def Let_def)

section \<open>Properties\<close>

text \<open>
  The score is a probability-like number whatever the window holds, and the level of
  every assessment that is complete is that score cut at 0.30 and 0.65.
\<close>

lemma voxel_score_bounded:
  assumes "voxel_assess src w pos b ctx pl = Inr a" and "sra_complete a"
  shows "0 \<le> sra_score a \<and> sra_score a \<le> 1 \<and> sra_level a = risk_level (sra_score a)"
  using voxel_assess_complete [OF assms] classify_score_range classify_level by metis

theorem voxel_score_bounded_witness:
  "sra_score (classify_voxels (1, 64, 1) ''stone'' BC_DIRECT
     (map (\<lambda>p. (p, ''stone'')) (sample_positions (1, 64, 1))) (Some [])) \<le> 1"
  using voxel_score_bounded [OF demo_voxel [where ctx = BC_DIRECT and pl = "[]" and w = "()"]]
  by (simp add: classify_voxels_def Let_def)

text \<open>
  C6. End to end, governance with the voxel assessor protects what it can see: a break
  of a block that is neither a log nor an ore, off the bot's ledger and outside farming,
  is allowed only if the read returned the whole window, the target was still of the
  type it was proposed for, and every strongly protected block in the window is one the
  bot placed itself.
\<close>

theorem allowed_break_spares_structures:
  assumes "ld_allowed (fst (can_break p (Some (voxel_assess src w)) e1 e2 pos raw ctx ex who aid))"
    and "map_of (gp_bot_placements p) pos = None" and "ctx \<noteq> BC_FARM"
    and "\<not> suffix ''_log'' (normalize_block_type (normalize_block_type raw))"
    and "\<not> suffix ''_ore'' (normalize_block_type (normalize_block_type raw))"
  shows "\<exists>facts. fst (read_block_facts src 64 (sample_positions pos) w) = Inr facts \<and>
           map_of (map (\<lambda>(q, t). (q, observed_type t)) facts) pos =
             Some (normalize_block_type (normalize_block_type raw)) \<and>
           (\<forall>(q, t)\<in>set facts. q \<noteq> pos \<longrightarrow> observed_type t \<in> STRONGLY_PROTECTED_TYPES \<longrightarrow>
              (\<exists>r. map_of (gp_bot_placements p) q = Some r \<and>
                   normalize_block_type (bp_block_type r) = observed_type t))"
proof -
  let ?b = "normalize_block_type (normalize_block_type raw)" and ?pl = "gp_bot_placements p"
  obtain a where a: "voxel_assess src w pos (normalize_block_type raw) ctx ?pl = Inr a"
      "sra_complete a" "sra_score a < 65/100"
    using voxel.allowed_break_score [OF assms(1-3)] by blast
  from voxel_assess_complete [OF a(1,2)] obtain facts where
    f: "fst (read_block_facts src 64 (sample_positions pos) w) = Inr facts"
       "map_of (map (\<lambda>(q, t). (q, observed_type t)) facts) pos = Some ?b"
       "a = classify_voxels pos ?b ctx (map (\<lambda>(q, t). (q, observed_type t)) facts) (Some ?pl)"
    by blast
  have own: "\<exists>r. map_of ?pl q = Some r \<and> normalize_block_type (bp_block_type r) = observed_type t"
    if "(q, t) \<in> set facts" "q \<noteq> pos" "observed_type t \<in> STRONGLY_PROTECTED_TYPES" for q t
  proof (rule ccontr)
    assume "\<not> ?thesis"
    then have "\<not> bot_owned_cell (Some ?pl) pos (q, observed_type t)"
      by (simp add: bot_owned_cell_def split: option.splits)
    then have "65/100 \<le> sra_score a"
      unfolding f(3) by (rule functional_score(1) [rotated 3])
        (use that assms(4,5) in \<open>auto intro: rev_image_eqI\<close>)
    with a(3) show False by simp
  qed
  show ?thesis
  proof (intro exI [of _ facts] conjI f ballI)
    fix c assume c: "c \<in> set facts"
    obtain q t where "c = (q, t)" by (meson surj_pair)
    with c own show "case c of (q, t) \<Rightarrow> q \<noteq> pos \<longrightarrow> observed_type t \<in> STRONGLY_PROTECTED_TYPES \<longrightarrow>
        (\<exists>r. map_of ?pl q = Some r \<and> normalize_block_type (bp_block_type r) = observed_type t)"
      by simp
  qed
qed

theorem allowed_break_spares_structures_witness:
  "(1, 64, 1) \<in> fst ` set (map (\<lambda>p. (p, Some ''stone'')) (sample_positions (1, 64, 1)))"
proof -
  have read: "fst (read_block_facts (demo_window ''stone'') 64 (sample_positions (1, 64, 1)) ()) =
      Inr (map (\<lambda>p. (p, Some ''stone'')) (sample_positions (1, 64, 1)))"
    by (rule demo_window_read)
  have "\<exists>facts. fst (read_block_facts (demo_window ''stone'') 64 (sample_positions (1, 64, 1)) ()) = Inr facts \<and>
      map_of (map (\<lambda>(q, t). (q, observed_type t)) facts) (1, 64, 1) =
        Some (normalize_block_type (normalize_block_type ''minecraft:stone''))"
    using allowed_break_spares_structures [OF demo_stone_allowed]
    by (auto simp: stone_type normalize_block_type_def removeprefix_def suffix_def)
  with read show ?thesis by (auto simp: image_image dest!: map_of_SomeD)
qed

end
