(* ===== verification/Messages.thy ===== *)
theory Messages
  imports Py_Values "HOL-Library.Multiset"
begin

text \<open>
  The message vocabulary of \<open>minebot/contract/messages.py\<close> and the terminal conversions of
  \<open>minebot/contract/results.py\<close>: the schemas, the classification of results (candidate
  skips, paused reviews, partial progress), the search for a governance challenge in
  nested evidence, and the decoding of cursors and inventory counts.
\<close>

section \<open>Schemas\<close>

record action =
  ac_id :: string
  ac_name :: string
  ac_params :: json_object

record result =
  re_id :: "string option"
  re_bot :: string
  re_ok :: bool
  re_accepted :: bool
  re_complete :: bool
  re_data :: json_object
  re_error :: "string option"

record event =
  ev_seq :: int
  ev_tick :: int
  ev_bot :: string
  ev_name :: string
  ev_data :: json_object

record body_state =
  bs_bot :: string
  bs_pos :: "rat \<times> rat \<times> rat"
  bs_yaw :: "rat option"
  bs_pitch :: "rat option"
  bs_health :: rat
  bs_food :: int
  bs_oxygen :: "int option"
  bs_inventory_raw :: string
  bs_inventory_hash :: string
  bs_effects :: "json_object list option"
  bs_time :: int
  bs_weather :: "string option"
  bs_dimension :: "string option"
  bs_complete :: bool
  bs_sleeping :: "bool option"
  bs_missing :: bool
  bs_selected_slot :: "int option"
  bs_inventory_counts :: "(string, int) pydict option"
  bs_selected_item :: "string option"
  bs_offhand_item :: "string option"
  bs_body_owner :: "string option"
  bs_pending_action_count :: "int option"
  bs_hazard_unresolved :: "json_object option"
  bs_selected_item_known :: "bool option"
  bs_inventory_complete :: "bool option"
  bs_inventory_includes_selected :: "bool option"

record perception_result =
  pr_bot :: string
  pr_scope :: string
  pr_ok :: bool
  pr_complete :: bool
  pr_data :: json_object
  pr_uncertainty :: "json_object list option"
  pr_next :: "string option"
  pr_error :: "string option"

record tool_result =
  tr_success :: bool
  tr_reason :: string
  tr_can_retry :: bool
  tr_next_suggestion :: "string option"
  tr_metrics :: "json_object option"

definition json_opt :: "string option \<Rightarrow> json" where
  "json_opt s = (case s of None \<Rightarrow> JNull | Some t \<Rightarrow> JStr t)"

definition action_payload :: "action \<Rightarrow> json_object" where
  "action_payload a =
     [(''type'', JStr ''action''), (''id'', JStr (ac_id a)), (''name'', JStr (ac_name a)),
      (''params'', JDict (ac_params a))]"

definition tool_result_payload :: "tool_result \<Rightarrow> json_object" where
  "tool_result_payload r =
     [(''success'', JBool (tr_success r)), (''reason'', JStr (tr_reason r)),
      (''canRetry'', JBool (tr_can_retry r)), (''nextSuggestion'', json_opt (tr_next_suggestion r)),
      (''metrics'', case tr_metrics r of None \<Rightarrow> JNull | Some m \<Rightarrow> JDict m)]"

section \<open>Cursors\<close>

fun first_cursor :: "json_object \<Rightarrow> string list \<Rightarrow> json option" where
  "first_cursor d [] = None"
| "first_cursor d (k # ks) = (case dget d k of JNull \<Rightarrow> first_cursor d ks | v \<Rightarrow> Some v)"

definition perception_next_cursor :: "perception_result \<Rightarrow> string list \<Rightarrow> json" where
  "perception_next_cursor p data_keys =
     (let keys = (if data_keys = [] then [''nextStart'', ''next''] else data_keys)
      in case first_cursor (pr_data p) keys of
           Some v \<Rightarrow> v
         | None \<Rightarrow> json_opt (pr_next p))"

text \<open>\<open>isdigit\<close> also accepts the superscripts two, three and one, which \<open>int()\<close> rejects.\<close>

definition is_digit_string :: "string \<Rightarrow> bool" where
  "is_digit_string s \<longleftrightarrow>
     s \<noteq> [] \<and> list_all (\<lambda>c. is_digit_char c \<or> (of_char c :: nat) \<in> {178, 179, 185}) s"

fun perception_resume_params :: "(json \<Rightarrow> string) \<Rightarrow> json \<Rightarrow> py_exn + json_object" where
  "perception_resume_params show_other JNull = Inr []"
| "perception_resume_params show_other (JInt i) = Inr [(''start'', JInt i)]"
| "perception_resume_params show_other (JBool b) = Inr [(''start'', JBool b)]"
| "perception_resume_params show_other (JStr s) =
     (let stripped = strip s
      in if is_digit_string stripped
         then (case py_int_of_str stripped of
                 Some i \<Rightarrow> Inr [(''start'', JInt i)]
               | None \<Rightarrow> Inl ValueError)
         else Inr [(''cursor'', JStr stripped)])"
| "perception_resume_params show_other v = Inr [(''cursor'', JStr (py_str show_other v))]"

section \<open>Classifying results\<close>

definition CANDIDATE_SKIP_REASONS :: "string set" where
  "CANDIDATE_SKIP_REASONS = {
     ''mine_approach_out_of_range'', ''collect_no_inventory_delta'', ''stand_point_unreachable'',
     ''search_block_no_stand_point'', ''search_block_out_of_range'', ''search_block_target_lost'',
     ''target_occluded''}"

definition CANDIDATE_SKIP_PREFIXES :: "string list" where
  "CANDIDATE_SKIP_PREFIXES = [
     ''break_denied:'', ''navigation_blocked:'', ''navigation_replan_required:'',
     ''search_block_navigation_failed:'', ''mine_approach_failed:'']"

definition is_candidate_skip :: "string option \<Rightarrow> bool" where
  "is_candidate_skip reason =
     (case reason of
        None \<Rightarrow> False
      | Some r \<Rightarrow>
          (if r = [] then False
           else if r \<in> CANDIDATE_SKIP_REASONS then True
           else list_ex (\<lambda>p. prefix p r) CANDIDATE_SKIP_PREFIXES))"

fun is_mapping :: "json \<Rightarrow> bool" where
  "is_mapping (JDict _) = True"
| "is_mapping _ = False"

definition is_governance_decision_required :: "string option \<Rightarrow> json_object option \<Rightarrow> bool" where
  "is_governance_decision_required reason metrics =
     (if (case metrics of None \<Rightarrow> False | Some m \<Rightarrow> is_mapping (dget m ''governance_confirmation''))
      then True
      else case reason of
        None \<Rightarrow> False
      | Some normalized \<Rightarrow>
          normalized \<noteq> [] \<and>
          (normalized = ''governance_confirmation_required'' \<or>
           suffix '':governance_confirmation_required'' normalized \<or>
           sublist '':governance_confirmation_required:'' normalized))"

section \<open>Finding a challenge\<close>

definition control_keys :: "string list" where
  "control_keys = [
     ''last_failure'', ''failed_step'', ''body_process'', ''result'', ''designated_recovery'',
     ''designated_recovery_continuations'', ''navigation_fallback'', ''metrics'']"

fun direct_challenge :: "json_object \<Rightarrow> json_object option" where
  "direct_challenge d =
     (case dget d ''governance_confirmation'' of
        JDict c \<Rightarrow> (case dget c ''challenge_id'' of JStr _ \<Rightarrow> Some c | _ \<Rightarrow> None)
      | _ \<Rightarrow> None)"

text \<open>What a visited mapping queues: the control keys in order at the front, the rest at the back.\<close>

definition control_children :: "json_object \<Rightarrow> json list" where
  "control_children d = concat (map (\<lambda>k. case map_of d k of None \<Rightarrow> [] | Some v \<Rightarrow> [v]) control_keys)"

definition other_children :: "json_object \<Rightarrow> json list" where
  "other_children d = map snd (filter (\<lambda>(k, _). k \<notin> set control_keys) d)"

text \<open>
  The bounded breadth-first search. JSON values decoded from a message share no objects,
  so the identity check of the source never skips one.
\<close>

fun search_confirmation :: "nat \<Rightarrow> json list \<Rightarrow> json_object option" where
  "search_confirmation 0 pending = None"
| "search_confirmation (Suc n) [] = None"
| "search_confirmation (Suc n) (JDict d # pending) =
     (case direct_challenge d of
        Some c \<Rightarrow> Some c
      | None \<Rightarrow> search_confirmation n (control_children d @ pending @ other_children d))"
| "search_confirmation (Suc n) (JList xs # pending) = search_confirmation n (pending @ rev xs)"
| "search_confirmation (Suc n) (_ # pending) = search_confirmation n pending"

definition governance_confirmation_from :: "json \<Rightarrow> json_object option" where
  "governance_confirmation_from value = search_confirmation 4096 [value]"

section \<open>Partial progress\<close>

definition json_less :: "json \<Rightarrow> json \<Rightarrow> bool" where
  "json_less a b = (case (strict_num a, strict_num b) of (Some x, Some y) \<Rightarrow> flt_lt x y | _ \<Rightarrow> False)"

definition partial_terminal :: "string \<Rightarrow> bool" where
  "partial_terminal r \<longleftrightarrow>
     r = ''partial'' \<or> prefix ''partial_'' r \<or> sublist '':partial'' r \<or> sublist ''_partial'' r \<or>
     sublist ''resource_output_window_exhausted'' r"

definition measured_gain :: "json_object \<Rightarrow> bool" where
  "measured_gain m \<longleftrightarrow>
     list_ex (\<lambda>k. json_less (JInt 0) (dget m k))
       [''collected_delta'', ''collected_count'', ''blocks_descended''] \<or>
     json_less (dget m ''before_count'') (dget m ''after_count'')"

definition nested_reason :: "(json \<Rightarrow> string) \<Rightarrow> string \<Rightarrow> json_object \<Rightarrow> string" where
  "nested_reason show_other normalized nested =
     (if truthy (dget nested ''reason'') then py_str show_other (dget nested ''reason'') else normalized)"

definition nested_metrics :: "json_object \<Rightarrow> json_object" where
  "nested_metrics nested = (case dget nested ''metrics'' of JDict m \<Rightarrow> m | _ \<Rightarrow> nested)"

text \<open>\<open>levels\<close> is \<open>6 - _depth\<close>: none left is the depth guard.\<close>

fun partial_progress_at :: "nat \<Rightarrow> (json \<Rightarrow> string) \<Rightarrow> string \<Rightarrow> json_object option \<Rightarrow> bool" where
  "partial_progress_at 0 show_other reason metrics = False"
| "partial_progress_at (Suc levels) show_other reason metrics =
     (if reason = [] then False
      else case metrics of
        None \<Rightarrow> False
      | Some m \<Rightarrow>
          partial_terminal reason \<and> measured_gain m \<or>
          list_ex (\<lambda>key. case dget m key of
              JDict nested \<Rightarrow> partial_progress_at levels show_other
                (nested_reason show_other reason nested) (Some (nested_metrics nested))
            | _ \<Rightarrow> False)
            [''body_process'', ''last_failure'', ''result'', ''failed_step''])"

definition is_partial_progress :: "(json \<Rightarrow> string) \<Rightarrow> string option \<Rightarrow> json_object option \<Rightarrow> bool" where
  "is_partial_progress show_other reason metrics =
     (case reason of None \<Rightarrow> False | Some r \<Rightarrow> partial_progress_at 6 show_other r metrics)"

section \<open>Decoding\<close>

definition maybe_string :: "(json \<Rightarrow> string) \<Rightarrow> json \<Rightarrow> string option" where
  "maybe_string show_other v =
     (case v of JNull \<Rightarrow> None | _ \<Rightarrow> Some (removeprefix ''minecraft:'' (py_str show_other v)))"

text \<open>A count that \<open>int()\<close> rejects is skipped, except the overflow of an infinite float.\<close>

fun decode_counts ::
  "(string, json) pydict \<Rightarrow> (string, int) pydict \<Rightarrow> py_exn + (string, int) pydict" where
  "decode_counts [] counts = Inr counts"
| "decode_counts ((k, v) # kvs) counts =
     (case py_int v of
        Inl OverflowError \<Rightarrow> Inl OverflowError
      | Inl _ \<Rightarrow> decode_counts kvs counts
      | Inr n \<Rightarrow>
          (if n \<le> 0 then decode_counts kvs counts
           else decode_counts kvs (AList.update (removeprefix ''minecraft:'' k) n counts)))"

fun inventory_counts :: "json \<Rightarrow> py_exn + (string, int) pydict option" where
  "inventory_counts JNull = Inr None"
| "inventory_counts (JDict d) = (case decode_counts d [] of Inl e \<Rightarrow> Inl e | Inr c \<Rightarrow> Inr (Some c))"
| "inventory_counts _ = Inr (Some [])"

section \<open>Terminal conversions\<close>

definition terminal_reason :: "(json \<Rightarrow> string) \<Rightarrow> event \<Rightarrow> string" where
  "terminal_reason show_other e =
     (let v = dget (ev_data e) ''stopped_reason''
      in if truthy v then py_str show_other v else ev_name e)"

definition terminal_event_to_tool_result :: "(json \<Rightarrow> string) \<Rightarrow> event \<Rightarrow> tool_result" where
  "terminal_event_to_tool_result show_other e =
     (let reason = terminal_reason show_other e; d = ev_data e
      in if reason = ''preempted'' \<or> ev_name e = ''ownerPreempted'' then
           \<lparr>tr_success = False, tr_reason = ''preempted'', tr_can_retry = True,
            tr_next_suggestion = None, tr_metrics = Some (AList.update ''paused'' (JBool True) d)\<rparr>
         else
           (let success = truthy (dget d ''arrived'') \<or> truthy (dget d ''success'') \<or>
                  truthy (dget d ''completed'') \<or> reason \<in> {''arrived'', ''completed''}
            in \<lparr>tr_success = success, tr_reason = reason,
                tr_can_retry = (\<not> success \<and> dget d ''retryable'' \<noteq> JBool False),
                tr_next_suggestion = None, tr_metrics = Some d\<rparr>))"

definition body_rejection_to_tool_result ::
  "result \<Rightarrow> json_object option \<Rightarrow> tool_result option" where
  "body_rejection_to_tool_result r metrics =
     (if re_ok r \<and> re_accepted r then None
      else
        (let merged = AList.update ''accepted''
               (JDict [(''ok'', JBool (re_ok r)), (''accepted'', JBool (re_accepted r)),
                       (''error'', json_opt (re_error r)), (''data'', JDict (re_data r))])
               (case metrics of None \<Rightarrow> [] | Some m \<Rightarrow> m)
         in if re_error r = Some ''hazard_unresolved'' then
              Some \<lparr>tr_success = False, tr_reason = ''survival_hazard_unresolved'',
                tr_can_retry = False,
                tr_next_suggestion = Some ''run the Body-owned survival recovery transaction before ordinary actions'',
                tr_metrics = Some merged\<rparr>
            else
              Some \<lparr>tr_success = False, tr_reason = ''body_rejected'', tr_can_retry = True,
                tr_next_suggestion = None, tr_metrics = Some merged\<rparr>))"

section \<open>The search for a challenge is complete within its budget\<close>

declare direct_challenge.simps [simp del]

fun json_nodes :: "json \<Rightarrow> nat" where
  "json_nodes (JDict d) = Suc (sum_list (map (\<lambda>(k, v). json_nodes v) d))"
| "json_nodes (JList xs) = Suc (sum_list (map json_nodes xs))"
| "json_nodes _ = 1"

text \<open>Some mapping in the value holds an actionable challenge.\<close>

fun carries :: "json \<Rightarrow> bool" where
  "carries (JDict d) \<longleftrightarrow> direct_challenge d \<noteq> None \<or> list_ex (\<lambda>(k, v). carries v) d"
| "carries (JList xs) \<longleftrightarrow> list_ex carries xs"
| "carries _ \<longleftrightarrow> False"

text \<open>Dictionaries do not repeat keys.\<close>

fun json_wf :: "json \<Rightarrow> bool" where
  "json_wf (JDict d) \<longleftrightarrow> distinct (map fst d) \<and> list_all (\<lambda>(k, v). json_wf v) d"
| "json_wf (JList xs) \<longleftrightarrow> list_all json_wf xs"
| "json_wf _ \<longleftrightarrow> True"

lemma filter_key_singleton:
  "distinct (map fst d) \<Longrightarrow>
     filter (\<lambda>(k', _). k' = k) d = (case map_of d k of None \<Rightarrow> [] | Some v \<Rightarrow> [(k, v)])"
proof (induction d)
  case (Cons kv d)
  have "filter (\<lambda>(k', _). k' = k) d = []" if "k \<notin> fst ` set d"
    using that by (force simp: filter_empty_conv)
  with Cons show ?case by (cases kv) auto
qed simp

lemma mset_keyed_children:
  assumes "distinct (map fst d)"
  shows "distinct ks \<Longrightarrow>
     mset (concat (map (\<lambda>k. case map_of d k of None \<Rightarrow> [] | Some v \<Rightarrow> [v]) ks)) =
     mset (map snd (filter (\<lambda>(k, _). k \<in> set ks) d))"
proof (induction ks)
  case (Cons k ks)
  have "mset (filter (\<lambda>(k', _). k' \<in> set (k # ks)) d) =
      mset (filter (\<lambda>(k', _). k' = k) d) + mset (filter (\<lambda>(k', _). k' \<in> set ks) d)"
    using Cons.prems by (induction d) auto
  then have "mset (map snd (filter (\<lambda>(k', _). k' \<in> set (k # ks)) d)) =
      image_mset snd (mset (filter (\<lambda>(k', _). k' = k) d)) +
      mset (map snd (filter (\<lambda>(k', _). k' \<in> set ks) d))"
    by (simp only: mset_map image_mset_union)
  with Cons show ?case
    by (simp add: filter_key_singleton [OF assms] split: option.splits)
qed simp

lemma distinct_control_keys: "distinct control_keys"
  by (simp add: control_keys_def)

lemma mset_children:
  assumes "distinct (map fst d)"
  shows "mset (control_children d @ other_children d) = mset (map snd d)"
proof -
  have "mset (control_children d) = mset (map snd (filter (\<lambda>(k, _). k \<in> set control_keys) d))"
    unfolding control_children_def by (rule mset_keyed_children [OF assms distinct_control_keys])
  moreover have "mset (map snd (filter (\<lambda>(k, _). k \<in> ks) d)) + mset (map snd (filter (\<lambda>(k, _). k \<notin> ks) d)) =
      mset (map snd d)" for ks
    by (induction d) auto
  ultimately show ?thesis by (simp add: other_children_def)
qed

lemma sum_nodes_children:
  assumes "distinct (map fst d)"
  shows "sum_list (map json_nodes (control_children d @ other_children d)) =
         sum_list (map (\<lambda>(k, v). json_nodes v) d)"
proof -
  have "sum_list (map json_nodes (control_children d @ other_children d)) =
      sum_list (map json_nodes (map snd d))"
    using mset_children [OF assms] by (metis mset_map sum_mset_sum_list)
  moreover have "(\<lambda>(k::string, v). json_nodes v) = json_nodes \<circ> snd" by auto
  ultimately show ?thesis by simp
qed

lemma set_children:
  "distinct (map fst d) \<Longrightarrow> set (control_children d) \<union> set (other_children d) = snd ` set d"
  using mset_children [of d] by (metis mset_eq_setD set_append set_map)

lemma search_sound: "search_confirmation n q = Some c \<Longrightarrow> list_all json_wf q \<Longrightarrow> list_ex carries q"
proof (induction n q rule: search_confirmation.induct)
  case (3 n d pending)
  show ?case
  proof (cases "direct_challenge d")
    case None
    have ch: "set (control_children d) \<union> set (other_children d) = snd ` set d"
      using "3.prems" by (intro set_children) simp
    have "\<forall>v\<in>snd ` set d. json_wf v" using "3.prems"(2) by (auto simp: list_all_iff)
    then have "list_all json_wf (control_children d @ pending @ other_children d)"
      using "3.prems"(2) unfolding ch [symmetric] by (simp add: list_all_iff ball_Un)
    with None "3.IH" "3.prems" have "list_ex carries (control_children d @ pending @ other_children d)"
      by simp
    then have "(\<exists>v\<in>snd ` set d. carries v) \<or> list_ex carries pending"
      unfolding ch [symmetric] by (auto simp: list_ex_iff)
    then show ?thesis by (auto simp: list_ex_iff)
  qed simp
next
  case (4 n xs pending)
  then show ?case by (auto simp: list_ex_iff list_all_iff)
qed auto

lemma json_nodes_pos: "0 < json_nodes v"
  by (cases v) simp_all

lemma search_complete:
  "sum_list (map json_nodes q) \<le> n \<Longrightarrow> list_all json_wf q \<Longrightarrow> list_ex carries q \<Longrightarrow>
     search_confirmation n q \<noteq> None"
proof (induction n q rule: search_confirmation.induct)
  case (1 q)
  have "q = []"
  proof (cases q)
    case (Cons v vs)
    with 1 json_nodes_pos [of v] show ?thesis by simp
  qed
  with 1 show ?case by simp
next
  case (3 n d pending)
  show ?case
  proof (cases "direct_challenge d")
    case None
    let ?q = "control_children d @ pending @ other_children d"
    have dd: "distinct (map fst d)" using "3.prems" by simp
    have "sum_list (map json_nodes ?q) \<le> n"
      using "3.prems"(1) sum_nodes_children [OF dd] by simp
    moreover have "\<forall>v\<in>snd ` set d. json_wf v" using "3.prems"(2) by (auto simp: list_all_iff)
    then have "list_all json_wf ?q"
      using "3.prems"(2) unfolding set_children [OF dd, symmetric] by (simp add: list_all_iff ball_Un)
    moreover have "(\<exists>v\<in>snd ` set d. carries v) \<or> list_ex carries pending"
      using "3.prems"(3) None by (force simp: list_ex_iff)
    then have "list_ex carries ?q"
      unfolding set_children [OF dd, symmetric] by (auto simp: list_ex_iff)
    ultimately show ?thesis using "3.IH" None by simp
  qed simp
next
  case (4 n xs pending)
  have "sum_list (map json_nodes (rev xs)) = sum_list (map json_nodes xs)"
    by (simp add: rev_map [symmetric])
  with 4 show ?case by (auto simp: list_ex_iff list_all_iff ball_Un bex_Un add.commute)
qed auto

section \<open>Lemmas on printed digits and decoded counts\<close>

lemma nat_digits_nonempty: "nat_digits n \<noteq> []"
  by (subst nat_digits.simps) simp

lemma strip_digits: "list_all is_digit_char s \<Longrightarrow> list_all is_space l \<Longrightarrow> list_all is_space r \<Longrightarrow> strip (l @ s @ r) = s"
proof -
  assume s: "list_all is_digit_char s" and l: "list_all is_space l" and r: "list_all is_space r"
  have nsp: "\<not> is_space c" if "is_digit_char c" for c
    using that by (auto simp: is_digit_char_def is_space_def Let_def)
  have id: "dropWhile is_space (t @ u) = t @ u" if "list_all is_digit_char t" "t \<noteq> []" for t u
    using that nsp by (cases t) auto
  show ?thesis
  proof (cases "s = []")
    case True
    have "dropWhile is_space (l @ r) = []"
      unfolding dropWhile_eq_Nil_conv using l r by (auto simp: list_all_iff)
    then show ?thesis unfolding strip_def True append_Nil by (simp only: rev.simps dropWhile.simps)
  next
    case False
    have "dropWhile is_space (l @ s @ r) = s @ r"
      using l id [OF s False, of r] by (simp add: list_all_iff dropWhile_append)
    moreover have "dropWhile is_space (rev r @ rev s) = rev s"
      using r id [of "rev s" "[]"] s False by (simp add: list_all_iff dropWhile_append)
    ultimately show ?thesis by (simp add: strip_def)
  qed
qed

lemma decode_counts_ok:
  "decode_counts kvs counts = Inr c \<Longrightarrow> distinct (map fst counts) \<Longrightarrow>
     \<forall>x\<in>set counts. 0 < snd x \<Longrightarrow> distinct (map fst c) \<and> (\<forall>x\<in>set c. 0 < snd x)"
proof (induction kvs arbitrary: counts)
  case (Cons kv kvs)
  obtain k v where kv: "kv = (k, v)" by fastforce
  show ?case
  proof (cases "py_int v")
    case (Inl e)
    then have "decode_counts kvs counts = Inr c"
      using Cons.prems(1) kv by (cases e) simp_all
    with Cons.IH Cons.prems(2,3) show ?thesis by blast
  next
    case (Inr n)
    let ?counts = "if n \<le> 0 then counts else AList.update (removeprefix ''minecraft:'' k) n counts"
    have "decode_counts kvs ?counts = Inr c"
      using Cons.prems(1) kv Inr by (simp split: if_splits)
    moreover have "distinct (map fst ?counts)" "\<forall>x\<in>set ?counts. 0 < snd x"
      using Cons.prems(2,3) by (auto simp: distinct_update dest!: set_update_cases)
    ultimately show ?thesis by (rule Cons.IH)
  qed
qed simp

section \<open>Properties\<close>

text \<open>
  The search for a challenge neither invents nor loses one: on evidence of at most
  4096 nodes it returns a challenge exactly when some mapping of the evidence holds one.
\<close>

lemma challenge_found_iff_carried:
  assumes "json_wf v" and "json_nodes v \<le> 4096"
  shows "governance_confirmation_from v \<noteq> None \<longleftrightarrow> carries v"
  using search_sound [of 4096 "[v]"] search_complete [of "[v]" 4096] assms
  unfolding governance_confirmation_from_def by auto

theorem challenge_found_iff_carried_witness:
  "governance_confirmation_from (JDict [(''attempts'', JList [JDict [(''governance_confirmation'',
     JDict [(''challenge_id'', JStr ''gc-1'')])]])]) \<noteq> None"
  by (subst challenge_found_iff_carried) (simp_all add: dget_def direct_challenge.simps)

text \<open>
  A page cursor survives the wire: an index printed as a decimal string, with any
  white space round it, resumes at that index.
\<close>

lemma cursor_resume_roundtrip:
  assumes "list_all is_space l" and "list_all is_space r"
  shows "perception_resume_params show_other (JStr (l @ str_of_nat n @ r)) =
         Inr [(''start'', JInt (int n))]"
proof -
  have d: "list_all is_digit_char (nat_digits n)"
    using nat_digits_are_digits by (auto simp: list_all_iff)
  then have st: "strip (l @ nat_digits n @ r) = nat_digits n" "strip (nat_digits n) = nat_digits n"
    using strip_digits [OF d assms] strip_digits [OF d, of "[]" "[]"] by simp_all
  obtain c cs where c: "nat_digits n = c # cs" using nat_digits_nonempty [of n] by (cases "nat_digits n") auto
  with d have "c \<noteq> CHR ''-''" "c \<noteq> CHR ''+''" by (auto simp: is_digit_char_def)
  with c st(2) have "py_int_of_str (nat_digits n) = map_option int (digits_value 0 False (nat_digits n))"
    by (simp add: py_int_of_str_def)
  also have "\<dots> = Some (int n)" using digits_value_digits [of 0 False n "[]"] by simp
  finally show ?thesis
    using st d nat_digits_nonempty [of n]
    by (simp add: str_of_nat_def is_digit_string_def Let_def list_all_iff)
qed

theorem cursor_resume_roundtrip_witness:
  "perception_resume_params (\<lambda>_. []) (JStr ('' '' @ str_of_nat 128 @ [])) = Inr [(''start'', JInt 128)]"
proof -
  have "list_all is_space '' ''" by (simp add: is_space_def)
  from cursor_resume_roundtrip [OF this, of "[]" "\<lambda>_. []" 128] show ?thesis
    by (simp del: perception_resume_params.simps)
qed

text \<open>
  Decoded inventory counts are a proper stock: every count is positive and no item
  repeats, whatever the payload was.
\<close>

lemma inventory_counts_positive:
  assumes "inventory_counts v = Inr (Some c)"
  shows "distinct (map fst c) \<and> (\<forall>x\<in>set c. 0 < snd x)"
proof (cases v)
  case (JDict d)
  then have "decode_counts d [] = Inr c" using assms by (simp split: sum.splits)
  then show ?thesis by (rule decode_counts_ok) simp_all
qed (use assms in auto)

theorem inventory_counts_positive_witness:
  "0 < (3::int) \<and> inventory_counts (JDict [(''minecraft:dirt'', JInt 3), (''stick'', JInt 0)]) =
     Inr (Some [(''dirt'', 3)])"
proof -
  have e: "inventory_counts (JDict [(''minecraft:dirt'', JInt 3), (''stick'', JInt 0)]) =
     Inr (Some [(''dirt'', 3)])"
    by (simp add: removeprefix_def)
  with inventory_counts_positive [OF e] show ?thesis by simp
qed

end
