(* ===== verification/Progress.thy ===== *)
theory Progress
  imports Messages
begin

text \<open>
  Progress accounting: \<open>minebot/contract/progress.py\<close> (the facts, the stop reasons, the
  local controller) and \<open>minebot/brain/progress.py\<close> (evidence of material progress and the
  \<open>ProgressAuthority\<close> with its capture stack). An action key is the list of the tuple's
  components. The stack of open captures has the innermost first; it is per thread in the
  source, and the model is of one thread.
\<close>

named_theorems progress_defs \<open>the authority's operations\<close>

section \<open>Facts and stops\<close>

datatype progress_stop_reason = STOP_UNKNOWN | NO_PROGRESS | EPISTEMIC_BUDGET | BODY_TRANSPORT

fun stop_reason_value :: "progress_stop_reason \<Rightarrow> string" where
  "stop_reason_value STOP_UNKNOWN = ''unknown''"
| "stop_reason_value NO_PROGRESS = ''no_progress''"
| "stop_reason_value EPISTEMIC_BUDGET = ''epistemic_budget''"
| "stop_reason_value BODY_TRANSPORT = ''body_transport''"

definition parse_stop_reason :: "string \<Rightarrow> py_exn + progress_stop_reason" where
  "parse_stop_reason s =
     (case find (\<lambda>r. stop_reason_value r = s) [STOP_UNKNOWN, NO_PROGRESS, EPISTEMIC_BUDGET, BODY_TRANSPORT] of
        Some r \<Rightarrow> Inr r
      | None \<Rightarrow> Inl ValueError)"

definition REVIEWABLE_STOP_REASONS :: "progress_stop_reason set" where
  "REVIEWABLE_STOP_REASONS = {NO_PROGRESS, EPISTEMIC_BUDGET}"

type_synonym action_key = "json list"

record progress_facts =
  pf_goal :: string
  pf_last_action :: "action_key option"
  pf_stagnant_steps :: int
  pf_stalled_steps :: int
  pf_failure_steps :: int
  pf_last_fingerprint :: string
  pf_current_fingerprint :: string
  pf_recent_events :: "string list"
  pf_epistemic_steps :: int
  pf_last_epistemic_keys :: "string list"

record progress_abort =
  ab_message :: string
  ab_facts :: "progress_facts option"
  ab_stop_reason :: progress_stop_reason
  ab_stop_epoch_id :: "string option"

fun stop_priority :: "progress_stop_reason \<Rightarrow> nat" where
  "stop_priority NO_PROGRESS = 0"
| "stop_priority EPISTEMIC_BUDGET = 1"
| "stop_priority STOP_UNKNOWN = 2"
| "stop_priority BODY_TRANSPORT = 3"

definition dominant_progress_abort :: "progress_abort option list \<Rightarrow> progress_abort option" where
  "dominant_progress_abort aborts = max_with (stop_priority \<circ> ab_stop_reason) (somes aborts)"

definition fingerprint :: "body_state \<Rightarrow> string" where
  "fingerprint s = (case bs_pos s of (x, y, z) \<Rightarrow>
     join ''|'' [join '','' (map format_1f [x, y, z]), format_1f (bs_health s),
                 str_of_int (bs_food s), bs_inventory_hash s])"

section \<open>Evidence of progress\<close>

definition progress_snapshot :: "body_state \<Rightarrow> body_state option" where
  "progress_snapshot s = (if bs_missing s \<or> \<not> bs_complete s then None else Some s)"

definition dict_eq :: "('k, 'v) pydict \<Rightarrow> ('k, 'v) pydict \<Rightarrow> bool" where
  "dict_eq a b \<longleftrightarrow> set (map fst a) = set (map fst b) \<and> (\<forall>k\<in>set (map fst a). map_of a k = map_of b k)"

definition count_of :: "(string, int) pydict \<Rightarrow> string \<Rightarrow> int" where
  "count_of d k = (case map_of d k of None \<Rightarrow> 0 | Some n \<Rightarrow> n)"

definition gained :: "(string, int) pydict \<Rightarrow> (string, int) pydict \<Rightarrow> bool" where
  "gained before after \<longleftrightarrow> list_ex (\<lambda>(item, count). count > count_of before item) after"

definition comparable_states :: "body_state \<Rightarrow> body_state \<Rightarrow> bool" where
  "comparable_states before after \<longleftrightarrow>
     \<not> (bs_missing before \<or> bs_missing after \<or> \<not> bs_complete before \<or> \<not> bs_complete after \<or>
        bs_bot before \<noteq> bs_bot after \<or> bs_dimension before \<noteq> bs_dimension after)"

definition inventory_evidence :: "body_state \<Rightarrow> body_state \<Rightarrow> bool \<Rightarrow> string list" where
  "inventory_evidence before after successful =
     (case (bs_inventory_counts before, bs_inventory_counts after) of
        (Some b, Some a) \<Rightarrow>
          (if gained b a then [''inventory_gain'']
           else if successful \<and> \<not> dict_eq b a then [''completed_inventory_change''] else [])
      | _ \<Rightarrow>
          (if successful \<and> bs_inventory_hash before \<noteq> bs_inventory_hash after
           then [''inventory_change''] else []))"

definition rounded_pos :: "body_state \<Rightarrow> rat \<times> rat \<times> rat" where
  "rounded_pos s = (case bs_pos s of (x, y, z) \<Rightarrow> (py_round 1 x, py_round 1 y, py_round 1 z))"

definition action_evidence :: "body_state \<Rightarrow> body_state \<Rightarrow> string list" where
  "action_evidence before after =
     (if rounded_pos before \<noteq> rounded_pos after then [''completed_movement''] else []) @
     (if bs_health after > bs_health before \<or> bs_food after > bs_food before
      then [''survival_improvement''] else []) @
     (case (bs_oxygen before, bs_oxygen after) of
        (Some b, Some a) \<Rightarrow> if a > b then [''oxygen_recovered''] else []
      | _ \<Rightarrow> []) @
     (if (bs_selected_item before, bs_offhand_item before) \<noteq>
         (bs_selected_item after, bs_offhand_item after) then [''equipment_changed''] else [])"

definition material_progress_evidence ::
  "body_state option \<Rightarrow> body_state option \<Rightarrow> bool \<Rightarrow> string list" where
  "material_progress_evidence before after successful_body_action =
     (case (before, after) of
        (Some b, Some a) \<Rightarrow>
          (if \<not> comparable_states b a then []
           else inventory_evidence b a successful_body_action @
                (if successful_body_action then action_evidence b a else []))
      | _ \<Rightarrow> [])"

fun nonempty_str :: "json \<Rightarrow> bool" where
  "nonempty_str (JStr s) = (s \<noteq> [])"
| "nonempty_str _ = False"

definition engage_observed :: "json_object \<Rightarrow> bool" where
  "engage_observed m \<longleftrightarrow>
     dget m ''event'' = JStr ''engageDone'' \<and> nonempty_str (dget m ''action_id'') \<and>
     nonempty_str (dget m ''target_uuid'') \<and> dget m ''target_id'' = dget m ''target_uuid'' \<and>
     dget m ''persistent_target'' = JBool True \<and> dget m ''damage_observed'' = JBool True"

definition combat_progress_evidence :: "json_object \<Rightarrow> string list" where
  "combat_progress_evidence r =
     (case dget r ''metrics'' of
        JDict m \<Rightarrow>
          (if \<not> engage_observed m then []
           else case (strict_num (dget m ''target_initial_health''), strict_num (dget m ''target_health'')) of
             (Some (Fin initial), Some (Fin final)) \<Rightarrow>
               (if \<not> (initial > final \<and> final \<ge> 0) then []
                else if dget r ''success'' = JBool True \<and> dget r ''reason'' = JStr ''killed'' \<and> final = 0
                then [''observed_target_defeat'']
                else if dget r ''success'' = JBool False \<and>
                  dget r ''reason'' \<in> {JStr ''timeout'', JStr ''disengaged_low_health'', JStr ''no_path''}
                then [''observed_target_damage'']
                else [])
           | _ \<Rightarrow> [])
      | _ \<Rightarrow> [])"

section \<open>The authority\<close>

datatype progress_step =
    Observe action_key string
  | Note action_key bool string bool

record progress_authority =
  pa_stagnant_steps :: int
  pa_stalled_steps :: int
  pa_failure_steps :: int
  pa_last_action :: "action_key option"
  pa_last_fingerprint :: string
  pa_current_fingerprint :: string
  pa_recent_events :: "string list"
  pa_epistemic_steps :: int
  pa_last_epistemic_keys :: "string list"
  pa_generation :: int
  pa_captures :: "progress_step list list"

definition new_authority :: progress_authority where
  "new_authority =
     \<lparr>pa_stagnant_steps = 0, pa_stalled_steps = 0, pa_failure_steps = 0, pa_last_action = None,
      pa_last_fingerprint = [], pa_current_fingerprint = [], pa_recent_events = [],
      pa_epistemic_steps = 0, pa_last_epistemic_keys = [], pa_generation = 0, pa_captures = []\<rparr>"

definition restore_facts :: "progress_facts \<Rightarrow> progress_authority \<Rightarrow> py_exn + progress_authority" where
  "restore_facts f a =
     (if pa_captures a \<noteq> [] then Inl RuntimeError
      else Inr (a\<lparr>pa_stagnant_steps := pf_stagnant_steps f, pa_stalled_steps := pf_stalled_steps f,
             pa_failure_steps := pf_failure_steps f, pa_epistemic_steps := pf_epistemic_steps f,
             pa_last_action := pf_last_action f, pa_last_fingerprint := pf_last_fingerprint f,
             pa_current_fingerprint := pf_current_fingerprint f,
             pa_last_epistemic_keys := pf_last_epistemic_keys f,
             pa_recent_events := pf_recent_events f\<rparr>))"

definition next_generation :: "progress_authority \<Rightarrow> progress_authority" where
  "next_generation a = a\<lparr>pa_generation := pa_generation a + 1\<rparr>"

definition generation_current :: "progress_authority \<Rightarrow> int \<Rightarrow> bool" where
  "generation_current a g \<longleftrightarrow> g = pa_generation a"

text \<open>The listeners are called with the new generation; \<open>Body_Control\<close> models the one there is.\<close>

definition invalidate_generation :: "string \<Rightarrow> progress_authority \<Rightarrow> progress_authority" where
  "invalidate_generation reason a =
     a\<lparr>pa_generation := pa_generation a + 1,
       pa_recent_events := pa_recent_events a @ [''generation_invalidated:'' @ reason]\<rparr>"

definition same_action :: "action_key \<Rightarrow> action_key option \<Rightarrow> bool" where
  "same_action k previous = (case previous of None \<Rightarrow> False | Some l \<Rightarrow> py_eqs k l)"

definition apply_observation :: "action_key \<Rightarrow> string \<Rightarrow> progress_authority \<Rightarrow> progress_authority" where
  "apply_observation k fp a0 =
     (let a = a0\<lparr>pa_current_fingerprint := fp\<rparr>;
          progressed = (pa_last_fingerprint a \<noteq> [] \<and> fp \<noteq> pa_last_fingerprint a);
          a' = (if pa_last_fingerprint a = [] \<or> progressed
                then a\<lparr>pa_stagnant_steps := 0, pa_stalled_steps := 0\<rparr>
                else if same_action k (pa_last_action a)
                then a\<lparr>pa_stagnant_steps := pa_stagnant_steps a + 1,
                       pa_stalled_steps := pa_stalled_steps a + 1\<rparr>
                else a\<lparr>pa_stalled_steps := pa_stalled_steps a + 1\<rparr>)
      in a'\<lparr>pa_last_action := Some k, pa_last_fingerprint := fp\<rparr>)"

definition apply_note ::
  "action_key \<Rightarrow> bool \<Rightarrow> string \<Rightarrow> bool \<Rightarrow> progress_authority \<Rightarrow> progress_authority" where
  "apply_note k success fp neutral a =
     (if neutral then a\<lparr>pa_current_fingerprint := fp\<rparr>
      else if success then
        a\<lparr>pa_current_fingerprint := fp, pa_stagnant_steps := 0, pa_stalled_steps := 0,
          pa_failure_steps := 0, pa_last_action := Some k, pa_last_fingerprint := fp\<rparr>
      else
        (let a' = apply_observation k fp a
         in a'\<lparr>pa_failure_steps := pa_failure_steps a' + 1, pa_last_action := Some k,
               pa_last_fingerprint := fp\<rparr>))"

fun apply_step :: "progress_step \<Rightarrow> progress_authority \<Rightarrow> progress_authority" where
  "apply_step (Observe k fp) a = apply_observation k fp a"
| "apply_step (Note k success fp neutral) a = apply_note k success fp neutral a"

text \<open>\<open>observe_step\<close> and \<open>note_step\<close>: an open capture records the step instead of applying it.\<close>

definition report_step :: "progress_step \<Rightarrow> progress_authority \<Rightarrow> progress_authority" where
  "report_step s a =
     (case pa_captures a of
        c # cs \<Rightarrow> a\<lparr>pa_captures := (c @ [s]) # cs\<rparr>
      | [] \<Rightarrow> apply_step s a)"

definition observe_step :: "action_key \<Rightarrow> string \<Rightarrow> progress_authority \<Rightarrow> progress_authority" where
  "observe_step k fp = report_step (Observe k fp)"

definition note_step ::
  "action_key \<Rightarrow> bool \<Rightarrow> string \<Rightarrow> bool \<Rightarrow> progress_authority \<Rightarrow> progress_authority" where
  "note_step k success fp neutral = report_step (Note k success fp neutral)"

definition open_capture :: "progress_authority \<Rightarrow> progress_authority" where
  "open_capture a = a\<lparr>pa_captures := [] # pa_captures a\<rparr>"

definition close_capture :: "progress_authority \<Rightarrow> progress_step list \<times> progress_authority" where
  "close_capture a =
     (case pa_captures a of
        [] \<Rightarrow> ([], a)
      | [c] \<Rightarrow> (c, a\<lparr>pa_captures := []\<rparr>)
      | c # p # ps \<Rightarrow> (c, a\<lparr>pa_captures := (p @ c) # ps\<rparr>))"

definition settle_epistemic :: "string list \<Rightarrow> bool \<Rightarrow> progress_authority \<Rightarrow> progress_authority" where
  "settle_epistemic novel material_changed a =
     (let keys = dedupe (filter (\<lambda>k. k \<noteq> []) novel)
      in if material_changed then
           a\<lparr>pa_epistemic_steps := 0, pa_last_epistemic_keys := [], pa_failure_steps := 0\<rparr>
         else if keys \<noteq> [] then
           a\<lparr>pa_epistemic_steps := pa_epistemic_steps a + 1, pa_last_epistemic_keys := keys,
             pa_stagnant_steps := 0, pa_stalled_steps := 0,
             pa_recent_events := pa_recent_events a @
               [''epistemic_progress:'' @ str_of_int (pa_epistemic_steps a + 1) @ '':'' @
                str_of_nat (length keys)]\<rparr>
         else a)"

definition commit_steps ::
  "progress_step list \<Rightarrow> string list \<Rightarrow> bool \<Rightarrow> progress_authority \<Rightarrow> py_exn + progress_authority" where
  "commit_steps steps novel material_changed a =
     (if pa_captures a \<noteq> [] then Inl RuntimeError
      else Inr (settle_epistemic novel material_changed (fold apply_step steps a)))"

definition facts :: "string \<Rightarrow> progress_authority \<Rightarrow> progress_facts" where
  "facts goal_text a =
     \<lparr>pf_goal = goal_text, pf_last_action = pa_last_action a,
      pf_stagnant_steps = pa_stagnant_steps a, pf_stalled_steps = pa_stalled_steps a,
      pf_failure_steps = pa_failure_steps a, pf_last_fingerprint = pa_last_fingerprint a,
      pf_current_fingerprint = pa_current_fingerprint a, pf_recent_events = pa_recent_events a,
      pf_epistemic_steps = pa_epistemic_steps a, pf_last_epistemic_keys = pa_last_epistemic_keys a\<rparr>"

lemmas [progress_defs] =
  apply_observation_def apply_note_def report_step_def observe_step_def note_step_def
  settle_epistemic_def commit_steps_def next_generation_def invalidate_generation_def
  open_capture_def

interpretation authority_generation: generation_source pa_generation next_generation
  by unfold_locales (simp add: next_generation_def)

interpretation authority_invalidation: generation_source pa_generation "invalidate_generation r" for r
  by unfold_locales (simp add: invalidate_generation_def)

section \<open>The local controller\<close>

record local_progress =
  lp_stagnant_steps :: int
  lp_stalled_steps :: int
  lp_failure_steps :: int
  lp_generation :: int
  lp_last_action :: "action_key option"
  lp_last_fingerprint :: string
  lp_current_fingerprint :: string
  lp_recent_events :: "string list"

definition new_local :: local_progress where
  "new_local =
     \<lparr>lp_stagnant_steps = 0, lp_stalled_steps = 0, lp_failure_steps = 0, lp_generation = 0,
      lp_last_action = None, lp_last_fingerprint = [], lp_current_fingerprint = [],
      lp_recent_events = []\<rparr>"

definition local_next_generation :: "local_progress \<Rightarrow> local_progress" where
  "local_next_generation c = c\<lparr>lp_generation := lp_generation c + 1\<rparr>"

definition local_observe :: "action_key \<Rightarrow> string \<Rightarrow> local_progress \<Rightarrow> local_progress" where
  "local_observe k fp c0 =
     (let c = c0\<lparr>lp_current_fingerprint := fp\<rparr>;
          progressed = (lp_last_fingerprint c \<noteq> [] \<and> fp \<noteq> lp_last_fingerprint c);
          c' = (if lp_last_fingerprint c = [] \<or> progressed
                then c\<lparr>lp_stagnant_steps := 0, lp_stalled_steps := 0\<rparr>
                else if same_action k (lp_last_action c)
                then c\<lparr>lp_stagnant_steps := lp_stagnant_steps c + 1,
                       lp_stalled_steps := lp_stalled_steps c + 1\<rparr>
                else c\<lparr>lp_stalled_steps := lp_stalled_steps c + 1\<rparr>)
      in c'\<lparr>lp_last_action := Some k, lp_last_fingerprint := fp\<rparr>)"

definition local_note ::
  "action_key \<Rightarrow> bool \<Rightarrow> string \<Rightarrow> bool \<Rightarrow> local_progress \<Rightarrow> local_progress" where
  "local_note k success fp neutral c =
     (if neutral then c\<lparr>lp_current_fingerprint := fp\<rparr>
      else if success then
        c\<lparr>lp_current_fingerprint := fp, lp_stagnant_steps := 0, lp_stalled_steps := 0,
          lp_failure_steps := 0, lp_last_action := Some k, lp_last_fingerprint := fp\<rparr>
      else
        (let c' = local_observe k fp c
         in c'\<lparr>lp_failure_steps := lp_failure_steps c' + 1, lp_last_action := Some k,
               lp_last_fingerprint := fp\<rparr>))"

fun local_step :: "progress_step \<Rightarrow> local_progress \<Rightarrow> local_progress" where
  "local_step (Observe k fp) c = local_observe k fp c"
| "local_step (Note k success fp neutral) c = local_note k success fp neutral c"

definition local_facts :: "string \<Rightarrow> local_progress \<Rightarrow> progress_facts" where
  "local_facts goal_text c =
     \<lparr>pf_goal = goal_text, pf_last_action = lp_last_action c,
      pf_stagnant_steps = lp_stagnant_steps c, pf_stalled_steps = lp_stalled_steps c,
      pf_failure_steps = lp_failure_steps c, pf_last_fingerprint = lp_last_fingerprint c,
      pf_current_fingerprint = lp_current_fingerprint c, pf_recent_events = lp_recent_events c,
      pf_epistemic_steps = 0, pf_last_epistemic_keys = []\<rparr>"

interpretation local_generation: generation_source lp_generation local_next_generation
  by unfold_locales (simp add: local_next_generation_def)

section \<open>Invariant of the counters\<close>

definition counters_ok :: "progress_authority \<Rightarrow> bool" where
  "counters_ok a \<longleftrightarrow>
     0 \<le> pa_stagnant_steps a \<and> pa_stagnant_steps a \<le> pa_stalled_steps a \<and>
     0 \<le> pa_failure_steps a \<and> 0 \<le> pa_epistemic_steps a"

lemma counters_observation: "counters_ok a \<Longrightarrow> counters_ok (apply_observation k fp a)"
  by (simp add: counters_ok_def apply_observation_def Let_def)

lemma counters_step: "counters_ok a \<Longrightarrow> counters_ok (apply_step s a)"
  by (cases s) (use counters_observation in \<open>auto simp: apply_note_def Let_def counters_ok_def\<close>)

lemma counters_steps: "counters_ok a \<Longrightarrow> counters_ok (fold apply_step ss a)"
  by (induction ss arbitrary: a) (simp_all add: counters_step)

lemma counters_settle: "counters_ok a \<Longrightarrow> counters_ok (settle_epistemic novel m a)"
  by (simp add: counters_ok_def settle_epistemic_def Let_def)

datatype progress_op =
    DoStep progress_step
  | DoOpen
  | DoClose
  | DoCommit "progress_step list" "string list" bool
  | DoNextGeneration
  | DoInvalidate string

fun progress_apply :: "progress_authority \<Rightarrow> progress_op \<Rightarrow> progress_authority" where
  "progress_apply a (DoStep s) = report_step s a"
| "progress_apply a DoOpen = open_capture a"
| "progress_apply a DoClose = snd (close_capture a)"
| "progress_apply a (DoCommit ss novel m) =
     (case commit_steps ss novel m a of Inl _ \<Rightarrow> a | Inr a' \<Rightarrow> a')"
| "progress_apply a DoNextGeneration = next_generation a"
| "progress_apply a (DoInvalidate r) = invalidate_generation r a"

definition progress_run :: "progress_authority \<Rightarrow> progress_op list \<Rightarrow> progress_authority" where
  "progress_run a ops = foldl progress_apply a ops"

lemma counters_captures [simp]: "counters_ok (a\<lparr>pa_captures := cs\<rparr>) = counters_ok a"
  by (simp add: counters_ok_def)

lemma counters_apply: "counters_ok a \<Longrightarrow> counters_ok (progress_apply a op)"
proof (cases op)
  case (DoStep s)
  assume "counters_ok a"
  with DoStep show ?thesis by (auto simp: report_step_def counters_step split: list.splits)
next
  case DoClose
  assume "counters_ok a"
  with DoClose show ?thesis by (auto simp: close_capture_def split: list.splits)
next
  case (DoCommit ss novel m)
  assume "counters_ok a"
  with DoCommit show ?thesis
    by (auto simp: commit_steps_def intro: counters_settle counters_steps)
qed (simp_all add: counters_ok_def open_capture_def next_generation_def invalidate_generation_def)

lemma counters_run: "counters_ok a \<Longrightarrow> counters_ok (progress_run a ops)"
  unfolding progress_run_def by (induction ops arbitrary: a) (simp_all add: counters_apply)

section \<open>Captures\<close>

lemma apply_step_captures [simp]:
  "pa_captures (apply_step s a) = pa_captures a"
  by (cases s) (simp_all add: apply_observation_def apply_note_def Let_def)

lemma fold_step_captures [simp]: "pa_captures (fold apply_step ss a) = pa_captures a"
  by (induction ss arbitrary: a) simp_all

lemma report_in_capture:
  "pa_captures a = c # cs \<Longrightarrow> fold report_step ss a = a\<lparr>pa_captures := (c @ ss) # cs\<rparr>"
  by (induction ss arbitrary: a c) (simp_all add: report_step_def)

lemma report_directly: "pa_captures a = [] \<Longrightarrow> fold report_step ss a = fold apply_step ss a"
  by (induction ss arbitrary: a) (simp_all add: report_step_def)

lemma capture_records:
  "close_capture (fold report_step ss (open_capture a)) =
     (ss, case pa_captures a of [] \<Rightarrow> a | p # ps \<Rightarrow> a\<lparr>pa_captures := (p @ ss) # ps\<rparr>)"
proof -
  have r: "fold report_step ss (open_capture a) = a\<lparr>pa_captures := ss # pa_captures a\<rparr>"
    by (subst report_in_capture [of _ "[]" "pa_captures a"]) (simp_all add: open_capture_def)
  show ?thesis
    unfolding r by (cases "pa_captures a") (simp_all add: close_capture_def)
qed

section \<open>The local controller refines the authority\<close>

definition abs_local :: "progress_authority \<Rightarrow> local_progress" where
  "abs_local a =
     \<lparr>lp_stagnant_steps = pa_stagnant_steps a, lp_stalled_steps = pa_stalled_steps a,
      lp_failure_steps = pa_failure_steps a, lp_generation = pa_generation a,
      lp_last_action = pa_last_action a, lp_last_fingerprint = pa_last_fingerprint a,
      lp_current_fingerprint = pa_current_fingerprint a, lp_recent_events = pa_recent_events a\<rparr>"

lemma local_observe_abs: "local_observe k fp (abs_local a) = abs_local (apply_observation k fp a)"
  by (simp add: local_observe_def apply_observation_def Let_def abs_local_def)

lemma local_step_abs: "local_step s (abs_local a) = abs_local (apply_step s a)"
proof (cases s)
  case (Note k success fp neutral)
  then show ?thesis
    by (simp add: local_note_def apply_note_def Let_def local_observe_abs)
      (simp add: abs_local_def)
qed (simp add: local_observe_abs)

lemma local_steps_abs: "fold local_step ss (abs_local a) = abs_local (fold apply_step ss a)"
  by (induction ss arbitrary: a) (simp_all add: local_step_abs)

lemma step_keeps_epistemic:
  "pa_epistemic_steps (fold apply_step ss a) = pa_epistemic_steps a \<and>
   pa_last_epistemic_keys (fold apply_step ss a) = pa_last_epistemic_keys a"
proof (induction ss arbitrary: a)
  case (Cons s ss)
  have "pa_epistemic_steps (apply_step s a) = pa_epistemic_steps a \<and>
      pa_last_epistemic_keys (apply_step s a) = pa_last_epistemic_keys a"
    by (cases s) (simp_all add: apply_observation_def apply_note_def Let_def)
  with Cons show ?case by simp
qed simp

text \<open>A snapshot for the witnesses.\<close>

definition demo_state :: body_state where
  "demo_state = \<lparr>bs_bot = ''Bot1'', bs_pos = (1/2, 64, 1/2), bs_yaw = None, bs_pitch = None,
     bs_health = 20, bs_food = 20, bs_oxygen = None, bs_inventory_raw = [],
     bs_inventory_hash = ''h0'', bs_effects = None, bs_time = 0, bs_weather = None,
     bs_dimension = Some ''overworld'', bs_complete = True, bs_sleeping = None,
     bs_missing = False, bs_selected_slot = None, bs_inventory_counts = Some [(''dirt'', 3)],
     bs_selected_item = None, bs_offhand_item = None, bs_body_owner = None,
     bs_pending_action_count = None, bs_hazard_unresolved = None,
     bs_selected_item_known = None, bs_inventory_complete = None,
     bs_inventory_includes_selected = None\<rparr>"

section \<open>Properties\<close>

text \<open>
  The counters keep their meaning over every sequence of reports, captures, commits
  and generation changes: none is negative and the steps stagnant on one action are among
  the stalled ones.
\<close>

lemma progress_counters_invariant:
  "0 \<le> pa_stagnant_steps (progress_run new_authority ops) \<and>
   pa_stagnant_steps (progress_run new_authority ops) \<le> pa_stalled_steps (progress_run new_authority ops) \<and>
   0 \<le> pa_failure_steps (progress_run new_authority ops) \<and>
   0 \<le> pa_epistemic_steps (progress_run new_authority ops)"
proof -
  have "counters_ok new_authority" by (simp add: counters_ok_def new_authority_def)
  from counters_run [OF this] show ?thesis by (simp add: counters_ok_def)
qed

text \<open>
  Capturing defers but does not change the accounting: outside any capture, reporting
  steps inside a capture leaves the authority as it was, and committing what the capture
  recorded (with no epistemic or material outcome) gives the state that reporting the same
  steps directly gives. In nested captures the steps reach the outer capture in order.
\<close>

lemma capture_then_commit_is_direct:
  "fst (close_capture (fold report_step ss (open_capture a))) = ss \<and>
   (case pa_captures a of
      [] \<Rightarrow> snd (close_capture (fold report_step ss (open_capture a))) = a \<and>
            commit_steps ss [] False a = Inr (fold report_step ss a)
    | p # ps \<Rightarrow> snd (close_capture (fold report_step ss (open_capture a))) = fold report_step ss a)"
proof (cases "pa_captures a")
  case Nil
  then show ?thesis
    by (simp add: capture_records commit_steps_def settle_epistemic_def dedupe_def report_directly)
next
  case (Cons p ps)
  then show ?thesis by (simp add: capture_records report_in_capture)
qed

text \<open>
  The controller the Body transactions use by default accounts exactly as the
  authority does: after the same observed and noted steps both report the same facts.
\<close>

lemma local_controller_equals_authority:
  "local_facts goal_text (fold local_step ss new_local) = facts goal_text (fold apply_step ss new_authority)"
proof -
  have n: "new_local = abs_local new_authority"
    by (simp add: new_local_def abs_local_def new_authority_def)
  have "pa_epistemic_steps (fold apply_step ss new_authority) = 0"
    "pa_last_epistemic_keys (fold apply_step ss new_authority) = []"
    using step_keeps_epistemic [of ss new_authority] by (simp_all add: new_authority_def)
  then show ?thesis
    unfolding n local_steps_abs by (simp add: local_facts_def facts_def abs_local_def)
qed

text \<open>
  Standing still is never progress and a failed action is credited with items only:
  two equal snapshots give no evidence of any kind, and without a successful action the
  only evidence there can be is an item count that grew between two complete snapshots of
  the same bot in the same dimension.
\<close>

lemma material_evidence_needs_change:
  assumes "\<And>b cb. before = Some b \<Longrightarrow> bs_inventory_counts b = Some cb \<Longrightarrow> distinct (map fst cb)"
  shows "material_progress_evidence before before ok = [] \<and>
    (\<forall>ev\<in>set (material_progress_evidence before after False).
      ev = ''inventory_gain'' \<and>
      (\<exists>b a cb ca. before = Some b \<and> after = Some a \<and> bs_complete b \<and> bs_complete a \<and>
         bs_bot b = bs_bot a \<and> bs_dimension b = bs_dimension a \<and>
         bs_inventory_counts b = Some cb \<and> bs_inventory_counts a = Some ca \<and> gained cb ca))"
proof
  have "\<not> gained cb cb" if "before = Some b" "bs_inventory_counts b = Some cb" for b cb
    using assms [OF that] by (auto simp: gained_def list_ex_iff count_of_def)
  then show "material_progress_evidence before before ok = []"
    by (auto simp: material_progress_evidence_def inventory_evidence_def action_evidence_def
        dict_eq_def split: option.splits)
  show "\<forall>ev\<in>set (material_progress_evidence before after False).
      ev = ''inventory_gain'' \<and>
      (\<exists>b a cb ca. before = Some b \<and> after = Some a \<and> bs_complete b \<and> bs_complete a \<and>
         bs_bot b = bs_bot a \<and> bs_dimension b = bs_dimension a \<and>
         bs_inventory_counts b = Some cb \<and> bs_inventory_counts a = Some ca \<and> gained cb ca)"
    by (auto simp: material_progress_evidence_def inventory_evidence_def comparable_states_def
        split: option.splits if_splits; metis)
qed

theorem material_evidence_needs_change_witness:
  "material_progress_evidence (Some demo_state) (Some demo_state) True = []"
  by (rule material_evidence_needs_change [THEN conjunct1]) (auto simp: demo_state_def)

text \<open>
  When several stops are pending, the one that is reported is one of them and none of
  the others is more fundamental; nothing is reported exactly when nothing is pending.
\<close>

lemma dominant_stop_is_greatest:
  "(dominant_progress_abort aborts = None \<longleftrightarrow> (\<forall>a\<in>set aborts. a = None)) \<and>
   (\<forall>d. dominant_progress_abort aborts = Some d \<longrightarrow>
      Some d \<in> set aborts \<and>
      (\<forall>a. Some a \<in> set aborts \<longrightarrow>
         stop_priority (ab_stop_reason a) \<le> stop_priority (ab_stop_reason d)))"
  using max_with_Some [of "stop_priority \<circ> ab_stop_reason" "somes aborts"]
  by (auto simp: dominant_progress_abort_def somes_empty)

definition demo_abort :: "progress_stop_reason \<Rightarrow> progress_abort" where
  "demo_abort r = \<lparr>ab_message = ''stop'', ab_facts = None, ab_stop_reason = r, ab_stop_epoch_id = None\<rparr>"

theorem dominant_stop_is_greatest_witness:
  "stop_priority NO_PROGRESS \<le> stop_priority BODY_TRANSPORT \<and>
   dominant_progress_abort [Some (demo_abort NO_PROGRESS), None, Some (demo_abort BODY_TRANSPORT)] =
     Some (demo_abort BODY_TRANSPORT)"
proof -
  let ?as = "[Some (demo_abort NO_PROGRESS), None, Some (demo_abort BODY_TRANSPORT)]"
  have d: "dominant_progress_abort ?as = Some (demo_abort BODY_TRANSPORT)"
    by (simp add: dominant_progress_abort_def demo_abort_def somes_def max_with_def)
  have "Some (demo_abort NO_PROGRESS) \<in> set ?as" by simp
  with d dominant_stop_is_greatest [of ?as]
  have "stop_priority (ab_stop_reason (demo_abort NO_PROGRESS)) \<le>
      stop_priority (ab_stop_reason (demo_abort BODY_TRANSPORT))" by blast
  with d show ?thesis by (simp add: demo_abort_def)
qed

end
