(* ===== verification/Progress_Recovery.thy ===== *)
theory Progress_Recovery
  imports Progress
begin

text \<open>
  Recovery of progress across a restart: \<open>minebot/app/progress_recovery.py\<close> replays a
  durable epoch record, and the commit input it reads is the one that \<open>_finalize\<close> of
  \<open>minebot/app/progress_epoch_adapter.py\<close> writes. The record is a JSON object.
\<close>

section \<open>Decoding\<close>

fun key_component_ok :: "json \<Rightarrow> bool" where
  "key_component_ok (JList xs) = list_all key_component_ok xs"
| "key_component_ok (JDict d) = False"
| "key_component_ok (JFloat f) = is_finite f"
| "key_component_ok _ = True"

text \<open>\<open>_action_key\<close>: lists and tuples are both JSON arrays, so a valid key is unchanged.\<close>

definition decode_action_key :: "json \<Rightarrow> py_exn + action_key" where
  "decode_action_key v =
     (case v of JList xs \<Rightarrow> if list_all key_component_ok xs then Inr xs else Inl ValueError
      | _ \<Rightarrow> Inl ValueError)"

fun all_text :: "json list \<Rightarrow> string list option" where
  "all_text [] = Some []"
| "all_text (JStr s # xs) = map_option ((#) s) (all_text xs)"
| "all_text (_ # xs) = None"

definition text_list :: "json \<Rightarrow> py_exn + string list" where
  "text_list v =
     (case v of JList xs \<Rightarrow> (case all_text xs of Some ss \<Rightarrow> Inr ss | None \<Rightarrow> Inl ValueError)
      | _ \<Rightarrow> Inl ValueError)"

fun counter_of :: "json \<Rightarrow> int option" where
  "counter_of (JInt i) = (if i < 0 then None else Some i)"
| "counter_of _ = None"

fun text_of :: "json \<Rightarrow> string option" where
  "text_of (JStr s) = Some s"
| "text_of _ = None"

fun bool_of :: "json \<Rightarrow> bool option" where
  "bool_of (JBool b) = Some b"
| "bool_of _ = None"

text \<open>The authority's baseline; every missing or ill-typed field is refused.\<close>

definition decode_baseline :: "json \<Rightarrow> py_exn + progress_facts" where
  "decode_baseline v =
     (case v of
        JDict d \<Rightarrow>
          (if map_of d ''last_action'' = None then Inl ValueError
           else case (counter_of (dget d ''stagnant_steps''), counter_of (dget d ''stalled_steps''),
                      counter_of (dget d ''failure_steps''), counter_of (dget d ''epistemic_steps'')) of
             (Some st, Some sl, Some fl, Some ep) \<Rightarrow>
               (case (text_of (dget d ''goal''), text_of (dget d ''last_fingerprint''),
                      text_of (dget d ''current_fingerprint'')) of
                  (Some goal, Some lastfp, Some currfp) \<Rightarrow>
                    (case (if dget d ''last_action'' = JNull then Inr None
                           else map_sum id Some (decode_action_key (dget d ''last_action''))) of
                       Inl e \<Rightarrow> Inl e
                     | Inr last_action \<Rightarrow>
                         (case text_list (dget d ''last_epistemic_keys'') of
                            Inl e \<Rightarrow> Inl e
                          | Inr keys \<Rightarrow>
                              (case text_list (dget d ''recent_events'') of
                                 Inl e \<Rightarrow> Inl e
                               | Inr events \<Rightarrow>
                                   Inr \<lparr>pf_goal = goal, pf_last_action = last_action,
                                     pf_stagnant_steps = st, pf_stalled_steps = sl,
                                     pf_failure_steps = fl, pf_last_fingerprint = lastfp,
                                     pf_current_fingerprint = currfp, pf_recent_events = events,
                                     pf_epistemic_steps = ep, pf_last_epistemic_keys = keys\<rparr>)))
                | _ \<Rightarrow> Inl ValueError)
           | _ \<Rightarrow> Inl ValueError)
      | _ \<Rightarrow> Inl ValueError)"

definition decode_step :: "json \<Rightarrow> py_exn + progress_step" where
  "decode_step v =
     (case v of
        JDict d \<Rightarrow>
          (case (text_of (dget d ''fingerprint''), bool_of (dget d ''neutral'')) of
             (Some fp, Some neutral) \<Rightarrow>
               (if dget d ''kind'' = JStr ''note'' then
                  (case bool_of (dget d ''success'') of
                     None \<Rightarrow> Inl ValueError
                   | Some ok \<Rightarrow> map_sum id (\<lambda>k. Note k ok fp neutral) (decode_action_key (dget d ''action_key'')))
                else if dget d ''kind'' = JStr ''observe'' \<and> dget d ''success'' = JNull then
                  map_sum id (\<lambda>k. Observe k fp) (decode_action_key (dget d ''action_key''))
                else Inl ValueError)
           | _ \<Rightarrow> Inl ValueError)
      | _ \<Rightarrow> Inl ValueError)"

fun decode_all :: "('a \<Rightarrow> 'e + 'b) \<Rightarrow> 'a list \<Rightarrow> 'e + 'b list" where
  "decode_all f [] = Inr []"
| "decode_all f (x # xs) =
     (case f x of Inl e \<Rightarrow> Inl e | Inr y \<Rightarrow> map_sum id ((#) y) (decode_all f xs))"

section \<open>Replay\<close>

definition restored_abort :: "progress_stop_reason \<Rightarrow> progress_abort" where
  "restored_abort r =
     \<lparr>ab_message = ''restored progress stop'', ab_facts = None, ab_stop_reason = r,
      ab_stop_epoch_id = None\<rparr>"

definition pending_aborts :: "progress_stop_reason list \<Rightarrow> progress_abort option list" where
  "pending_aborts rs = map (Some \<circ> restored_abort) (filter (\<lambda>r. r \<notin> REVIEWABLE_STOP_REASONS) rs)"

definition epoch_id_of :: "(json \<Rightarrow> string) \<Rightarrow> json_object \<Rightarrow> string option" where
  "epoch_id_of show_other rec =
     (let v = dget rec ''epoch_id''; s = (if truthy v then py_str show_other v else [])
      in if s = [] then None else Some s)"

text \<open>The checks on the record, in the source's order, up to the restored authority.\<close>

definition replay_inputs ::
  "(json \<Rightarrow> string) \<Rightarrow> json_object \<Rightarrow>
     py_exn + (bool \<times> progress_facts \<times> progress_step list \<times> string list \<times> bool \<times> progress_stop_reason list)" where
  "replay_inputs show_other rec =
     (case dget rec ''commit_input'' of
        JDict commit \<Rightarrow>
          (if dget commit ''version'' \<noteq> JInt 1 then Inl ValueError
           else case bool_of (dget commit ''apply'') of
             None \<Rightarrow> Inl ValueError
           | Some apply_it \<Rightarrow>
          (case decode_baseline (dget commit ''authority_before'') of
             Inl e \<Rightarrow> Inl e
           | Inr baseline \<Rightarrow>
          (case dget commit ''steps'' of
             JList raw \<Rightarrow>
               (if \<not> apply_it \<and> raw \<noteq> [] then Inl ValueError
                else case decode_all decode_step raw of
                  Inl e \<Rightarrow> Inl e
                | Inr steps \<Rightarrow>
               (case text_list (dget rec ''novel_epistemic_keys'') of
                  Inl e \<Rightarrow> Inl e
                | Inr novel \<Rightarrow>
               (case (bool_of (dget rec ''material_changed''), bool_of (dget rec ''progress_aborted'')) of
                  (Some material, Some aborted) \<Rightarrow>
               (case text_list (dget commit ''pending_stop_reasons'') of
                  Inl e \<Rightarrow> Inl e
                | Inr reasons \<Rightarrow>
               (case decode_all parse_stop_reason
                       (reasons @ (if aborted then [py_str show_other (dget rec ''progress_stop_reason'')] else [])) of
                  Inl e \<Rightarrow> Inl e
                | Inr rs \<Rightarrow> Inr (apply_it, baseline, steps, novel, material, rs)))
                | _ \<Rightarrow> Inl ValueError)))
           | _ \<Rightarrow> Inl ValueError)))
      | _ \<Rightarrow> Inl ValueError)"

definition replay_progress_epoch ::
  "(json \<Rightarrow> string) \<Rightarrow> json_object \<Rightarrow> py_exn + (progress_facts \<times> progress_abort option)" where
  "replay_progress_epoch show_other rec =
     (case replay_inputs show_other rec of
        Inl e \<Rightarrow> Inl e
      | Inr (apply_it, baseline, steps, novel, material, rs) \<Rightarrow>
     (case restore_facts baseline new_authority of
        Inl e \<Rightarrow> Inl e
      | Inr authority \<Rightarrow>
     (case (if apply_it then commit_steps steps novel material authority else Inr authority) of
        Inl e \<Rightarrow> Inl e
      | Inr authority' \<Rightarrow>
          Inr (facts (pf_goal baseline) authority',
               map_option (\<lambda>a. a\<lparr>ab_stop_epoch_id := epoch_id_of show_other rec\<rparr>)
                 (dominant_progress_abort (pending_aborts rs))))))"

section \<open>What the live runtime writes\<close>

definition json_texts :: "string list \<Rightarrow> json" where
  "json_texts ss = JList (map JStr ss)"

text \<open>\<open>asdict\<close> of the facts and of a step.\<close>

definition facts_payload :: "progress_facts \<Rightarrow> json_object" where
  "facts_payload f =
     [(''goal'', JStr (pf_goal f)),
      (''last_action'', case pf_last_action f of None \<Rightarrow> JNull | Some k \<Rightarrow> JList k),
      (''stagnant_steps'', JInt (pf_stagnant_steps f)),
      (''stalled_steps'', JInt (pf_stalled_steps f)),
      (''failure_steps'', JInt (pf_failure_steps f)),
      (''last_fingerprint'', JStr (pf_last_fingerprint f)),
      (''current_fingerprint'', JStr (pf_current_fingerprint f)),
      (''recent_events'', json_texts (pf_recent_events f)),
      (''epistemic_steps'', JInt (pf_epistemic_steps f)),
      (''last_epistemic_keys'', json_texts (pf_last_epistemic_keys f))]"

fun step_payload :: "progress_step \<Rightarrow> json" where
  "step_payload (Observe k fp) =
     JDict [(''kind'', JStr ''observe''), (''action_key'', JList k), (''fingerprint'', JStr fp),
            (''success'', JNull), (''neutral'', JBool False)]"
| "step_payload (Note k success fp neutral) =
     JDict [(''kind'', JStr ''note''), (''action_key'', JList k), (''fingerprint'', JStr fp),
            (''success'', JBool success), (''neutral'', JBool neutral)]"

definition commit_input ::
  "bool \<Rightarrow> json \<Rightarrow> bool \<Rightarrow> progress_authority \<Rightarrow> string \<Rightarrow> progress_step list
   \<Rightarrow> progress_stop_reason list \<Rightarrow> json_object" where
  "commit_input bound task_id closure_only authority goal_text committed pending =
     [(''version'', JInt 1), (''task_identity_bound'', JBool bound), (''task_id'', task_id),
      (''apply'', JBool (\<not> closure_only)),
      (''authority_before'', JDict (facts_payload (facts goal_text authority))),
      (''steps'', JList (map step_payload committed)),
      (''pending_stop_reasons'', JList (map (JStr \<circ> stop_reason_value) pending))]"

text \<open>
  The stored record holds the commit input among fields that the replay does not read; those it
  reads are given, the others are \<open>rest\<close>. The mark is the stop reason that the row was aborted
  with: a row is stored without one, and marking it keeps the first.
\<close>

definition epoch_record ::
  "string \<Rightarrow> json_object \<Rightarrow> string list \<Rightarrow> bool \<Rightarrow> progress_stop_reason option \<Rightarrow> json_object \<Rightarrow> json_object" where
  "epoch_record epoch_id commit novel material mark rest =
     [(''epoch_id'', JStr epoch_id), (''novel_epistemic_keys'', json_texts novel),
      (''material_changed'', JBool material), (''progress_aborted'', JBool (mark \<noteq> None)),
      (''progress_stop_reason'', case mark of None \<Rightarrow> JNull | Some r \<Rightarrow> JStr (stop_reason_value r)),
      (''commit_input'', JDict commit)] @ rest"

definition mark_aborted :: "progress_stop_reason \<Rightarrow> progress_stop_reason option \<Rightarrow> progress_stop_reason option" where
  "mark_aborted stop_reason mark = Some (case mark of None \<Rightarrow> stop_reason | Some r \<Rightarrow> r)"

text \<open>What the live runtime stops with, among the pending aborts of the epoch's members, and the mark it leaves.\<close>

definition live_stop :: "progress_abort list \<Rightarrow> progress_abort option" where
  "live_stop aborts = dominant_progress_abort (map Some aborts)"

definition settled_mark :: "progress_abort list \<Rightarrow> progress_stop_reason option" where
  "settled_mark aborts = (case live_stop aborts of None \<Rightarrow> None | Some d \<Rightarrow> mark_aborted (ab_stop_reason d) None)"

definition marked_reasons :: "progress_stop_reason option \<Rightarrow> progress_stop_reason list" where
  "marked_reasons mark = (case mark of None \<Rightarrow> [] | Some r \<Rightarrow> [r])"

section \<open>Decoding undoes encoding\<close>

lemma all_text_map [simp]: "all_text (map JStr ss) = Some ss"
  by (induction ss) simp_all

lemma text_list_texts [simp]: "text_list (json_texts ss) = Inr ss"
  by (simp add: text_list_def json_texts_def)

lemma decode_all_inverse:
  "(\<And>x. x \<in> set xs \<Longrightarrow> f (g x) = Inr x) \<Longrightarrow> decode_all f (map g xs) = Inr xs"
  by (induction xs) simp_all

fun step_key :: "progress_step \<Rightarrow> action_key" where
  "step_key (Observe k _) = k"
| "step_key (Note k _ _ _) = k"

definition key_ok :: "action_key \<Rightarrow> bool" where
  "key_ok k \<longleftrightarrow> list_all key_component_ok k"

lemma decode_key [simp]: "key_ok k \<Longrightarrow> decode_action_key (JList k) = Inr k"
  by (simp add: key_ok_def decode_action_key_def)

lemma decode_step_payload [simp]: "key_ok (step_key s) \<Longrightarrow> decode_step (step_payload s) = Inr s"
  by (cases s) (simp_all add: decode_step_def dget_def)

definition encodable :: "progress_authority \<Rightarrow> bool" where
  "encodable a \<longleftrightarrow> counters_ok a \<and> (\<forall>k. pa_last_action a = Some k \<longrightarrow> key_ok k)"

lemma decode_baseline_payload:
  assumes "encodable a"
  shows "decode_baseline (JDict (facts_payload (facts goal a))) = Inr (facts goal a)"
  using assms
  by (cases "pa_last_action a")
    (simp_all add: decode_baseline_def facts_payload_def facts_def dget_def encodable_def counters_ok_def)

lemma parse_stop_value [simp]: "parse_stop_reason (stop_reason_value r) = Inr r"
  by (cases r) (simp_all add: parse_stop_reason_def)

lemma text_list_stops: "text_list (JList (map (JStr \<circ> stop_reason_value) rs)) = Inr (map stop_reason_value rs)"
proof -
  have "map (JStr \<circ> stop_reason_value) rs = map JStr (map stop_reason_value rs)" by simp
  then show ?thesis unfolding text_list_def by (simp del: map_map)
qed

lemma replay_inputs_record:
  assumes "encodable a" and "\<forall>s\<in>set committed. key_ok (step_key s)"
    and "closure_only \<Longrightarrow> committed = []"
  shows "replay_inputs show_other
           (epoch_record eid (commit_input bound tid closure_only a goal committed pending) novel material mark rest) =
         Inr (\<not> closure_only, facts goal a, committed, novel, material, pending @ marked_reasons mark)"
proof -
  let ?c = "commit_input bound tid closure_only a goal committed pending"
  have c: "dget ?c ''version'' = JInt 1" "dget ?c ''apply'' = JBool (\<not> closure_only)"
    "dget ?c ''authority_before'' = JDict (facts_payload (facts goal a))"
    "dget ?c ''steps'' = JList (map step_payload committed)"
    "dget ?c ''pending_stop_reasons'' = JList (map (JStr \<circ> stop_reason_value) pending)"
    by (simp_all add: commit_input_def dget_def)
  have r: "dget (epoch_record eid ?c novel material mark rest) ''commit_input'' = JDict ?c"
    "dget (epoch_record eid ?c novel material mark rest) ''novel_epistemic_keys'' = json_texts novel"
    "dget (epoch_record eid ?c novel material mark rest) ''material_changed'' = JBool material"
    "dget (epoch_record eid ?c novel material mark rest) ''progress_aborted'' = JBool (mark \<noteq> None)"
    "dget (epoch_record eid ?c novel material mark rest) ''progress_stop_reason'' =
       (case mark of None \<Rightarrow> JNull | Some r \<Rightarrow> JStr (stop_reason_value r))"
    by (simp_all add: epoch_record_def dget_def)
  have s: "decode_all decode_step (map step_payload committed) = Inr committed"
    by (rule decode_all_inverse) (use assms(2) in simp)
  have p: "decode_all parse_stop_reason (map stop_reason_value (pending @ marked_reasons mark)) = Inr (pending @ marked_reasons mark)"
    by (rule decode_all_inverse) simp
  have m: "(if mark \<noteq> None then [py_str show_other (case mark of None \<Rightarrow> JNull | Some r \<Rightarrow> JStr (stop_reason_value r))] else []) =
      map stop_reason_value (marked_reasons mark)"
    by (simp add: marked_reasons_def split: option.split)
  show ?thesis
    using assms(3) unfolding replay_inputs_def r json.case c
    by (simp add: decode_baseline_payload [OF assms(1)] s p [simplified] text_list_stops m del: not_None_eq)
qed

lemma restore_then_facts:
  assumes "restore_facts f a = Inr a'"
  shows "facts (pf_goal f) a' = f"
  using assms by (auto simp: restore_facts_def facts_def split: if_splits)

text \<open>Two authorities that report the same facts report the same facts after the same commit.\<close>

lemma facts_eq_iff:
  "facts g a = facts g b \<longleftrightarrow>
     pa_last_action a = pa_last_action b \<and> pa_stagnant_steps a = pa_stagnant_steps b \<and>
     pa_stalled_steps a = pa_stalled_steps b \<and> pa_failure_steps a = pa_failure_steps b \<and>
     pa_last_fingerprint a = pa_last_fingerprint b \<and> pa_current_fingerprint a = pa_current_fingerprint b \<and>
     pa_recent_events a = pa_recent_events b \<and> pa_epistemic_steps a = pa_epistemic_steps b \<and>
     pa_last_epistemic_keys a = pa_last_epistemic_keys b"
  by (auto simp: facts_def)

lemma facts_step: "facts g a = facts g b \<Longrightarrow> facts g (apply_step s a) = facts g (apply_step s b)"
  by (cases s) (simp_all add: facts_eq_iff apply_observation_def apply_note_def Let_def)

lemma facts_steps: "facts g a = facts g b \<Longrightarrow> facts g (fold apply_step ss a) = facts g (fold apply_step ss b)"
proof (induction ss arbitrary: a b)
  case (Cons s ss)
  from Cons.IH [OF facts_step [OF Cons.prems]] show ?case by simp
qed simp

lemma facts_settle:
  "facts g a = facts g b \<Longrightarrow> facts g (settle_epistemic novel m a) = facts g (settle_epistemic novel m b)"
  by (simp add: facts_eq_iff settle_epistemic_def Let_def)

section \<open>Properties\<close>

lemma restored_stop_is_live:
  assumes "mark \<in> {None, settled_mark aborts}"
  shows "map_option ab_stop_reason (dominant_progress_abort (pending_aborts (map ab_stop_reason aborts @ marked_reasons mark))) =
    (case live_stop aborts of None \<Rightarrow> None
     | Some d \<Rightarrow> if ab_stop_reason d \<in> REVIEWABLE_STOP_REASONS then None else Some (ab_stop_reason d))"
proof (cases "live_stop aborts")
  case None
  then have "aborts = []" using dominant_stop_is_greatest [of "map Some aborts"] by (auto simp: live_stop_def)
  then show ?thesis
    using assms None by (auto simp: settled_mark_def marked_reasons_def pending_aborts_def dominant_progress_abort_def somes_def)
next
  case (Some d)
  let ?reasons = "map ab_stop_reason aborts @ marked_reasons mark" and ?r = "ab_stop_reason d"
  have d: "d \<in> set aborts" "\<forall>a\<in>set aborts. stop_priority (ab_stop_reason a) \<le> stop_priority ?r"
    using Some dominant_stop_is_greatest [of "map Some aborts"] by (auto simp: live_stop_def)
  have reasons: "set ?reasons = ab_stop_reason ` set aborts"
    using assms Some d(1) by (auto simp: settled_mark_def marked_reasons_def mark_aborted_def)
  have "map_option ab_stop_reason (dominant_progress_abort (pending_aborts ?reasons)) =
      (if ?r \<in> REVIEWABLE_STOP_REASONS then None else Some ?r)"
  proof (cases "?r \<in> REVIEWABLE_STOP_REASONS")
    case True
    have low: "stop_priority r \<le> stop_priority ?r \<Longrightarrow> r \<in> REVIEWABLE_STOP_REASONS" for r
      using True by (cases r) (auto simp: REVIEWABLE_STOP_REASONS_def)
    have "\<forall>r\<in>set ?reasons. r \<in> REVIEWABLE_STOP_REASONS" unfolding reasons using d(2) low by blast
    then have "pending_aborts ?reasons = []" unfolding pending_aborts_def by (simp add: filter_empty_conv)
    then show ?thesis using True by (simp add: dominant_progress_abort_def somes_def)
  next
    case False
    have in_pending: "Some (restored_abort ?r) \<in> set (pending_aborts ?reasons)"
      using False d(1) unfolding pending_aborts_def by auto
    then obtain e where e: "dominant_progress_abort (pending_aborts ?reasons) = Some e"
      using dominant_stop_is_greatest [of "pending_aborts ?reasons"] by (cases "dominant_progress_abort (pending_aborts ?reasons)") auto
    then have "Some e \<in> set (pending_aborts ?reasons)" "stop_priority ?r \<le> stop_priority (ab_stop_reason e)"
      using dominant_stop_is_greatest [of "pending_aborts ?reasons"] in_pending by (auto simp: restored_abort_def)
    moreover have "ab_stop_reason e \<in> ab_stop_reason ` set aborts"
      using calculation(1) unfolding reasons [symmetric] by (auto simp: pending_aborts_def restored_abort_def)
    ultimately have "stop_priority (ab_stop_reason e) = stop_priority ?r" using d(2) by force
    then have "ab_stop_reason e = ?r" by (cases "ab_stop_reason e"; cases "?r") simp_all
    then show ?thesis using False e by simp
  qed
  then show ?thesis using Some by simp
qed

text \<open>
  C38. A restart does not change the accounting: replaying the record that the live runtime
  stored for an epoch gives the very facts the live authority reports after committing that
  epoch (or keeps, when the epoch only closed tasks), and the most fundamental stop among the
  pending ones and the one the row is marked with, those left out that may be reviewed, bound to
  the epoch. When the row has the mark that the live runtime leaves, or not yet, this is the stop
  that the live runtime stopped with, or none when that one may be reviewed. The counters are not
  negative, the action keys are made of what JSON keeps, no capture of steps is open, and an epoch that
  only closes tasks commits no steps.
\<close>

theorem replay_reproduces_live_facts:
  assumes "encodable a" and "pa_captures a = []"
    and "\<forall>s\<in>set committed. key_ok (step_key s)" and "closure_only \<Longrightarrow> committed = []"
    and "(if closure_only then Inr a else commit_steps committed novel material a) = Inr live"
  shows "replay_progress_epoch show_other (epoch_record eid
             (commit_input bound tid closure_only a goal committed (map ab_stop_reason aborts)) novel material mark rest) =
         Inr (facts goal live,
              map_option (\<lambda>x. x\<lparr>ab_stop_epoch_id := if eid = [] then None else Some eid\<rparr>)
                (dominant_progress_abort (pending_aborts (map ab_stop_reason aborts @ marked_reasons mark)))) \<and>
    (mark \<in> {None, settled_mark aborts} \<longrightarrow>
       map_option ab_stop_reason (dominant_progress_abort (pending_aborts (map ab_stop_reason aborts @ marked_reasons mark))) =
         (case live_stop aborts of None \<Rightarrow> None
          | Some d \<Rightarrow> if ab_stop_reason d \<in> REVIEWABLE_STOP_REASONS then None else Some (ab_stop_reason d)))"
proof -
  obtain b where b: "restore_facts (facts goal a) new_authority = Inr b"
    by (simp add: restore_facts_def new_authority_def)
  have fb: "facts goal b = facts goal a"
    using restore_then_facts [OF b] by (simp add: facts_def)
  have cb: "pa_captures b = []"
    using b by (auto simp: restore_facts_def new_authority_def)
  have live: "live = (if closure_only then a else settle_epistemic novel material (fold apply_step committed a))"
    using assms(2,5) by (auto simp: commit_steps_def split: if_splits)
  have e: "epoch_id_of show_other (epoch_record eid (commit_input bound tid closure_only a goal committed (map ab_stop_reason aborts))
      novel material mark rest) = (if eid = [] then None else Some eid)"
    by (simp add: epoch_id_of_def epoch_record_def dget_def)
  let ?rec = "epoch_record eid (commit_input bound tid closure_only a goal committed (map ab_stop_reason aborts)) novel material mark rest"
  have inp: "replay_inputs show_other ?rec = Inr (\<not> closure_only, facts goal a, committed, novel, material, map ab_stop_reason aborts @ marked_reasons mark)"
    by (rule replay_inputs_record [OF assms(1,3,4)])
  obtain b' where b': "(if \<not> closure_only then commit_steps committed novel material b else Inr b) = Inr b'"
    and fb': "facts goal b' = facts goal live"
  proof (cases closure_only)
    case True
    with live fb that [of b] show ?thesis by simp
  next
    case False
    have "facts goal (settle_epistemic novel material (fold apply_step committed b)) = facts goal live"
      using live False by (simp add: facts_settle [OF facts_steps [OF fb]])
    with False cb that [of "settle_epistemic novel material (fold apply_step committed b)"] show ?thesis
      by (simp add: commit_steps_def)
  qed
  have g: "pf_goal (facts goal a) = goal" by (simp add: facts_def)
  show ?thesis
    unfolding replay_progress_epoch_def inp sum.case prod.case b b' g e fb'
    using restored_stop_is_live [of mark aborts] by (intro conjI refl impI)
qed

theorem replay_reproduces_live_facts_witness:
  "\<exists>live x. replay_progress_epoch (\<lambda>_. [])
     (epoch_record ''e1'' (commit_input True JNull False new_authority ''g''
        [Observe [JStr ''mine''] ''fp''] [NO_PROGRESS, BODY_TRANSPORT]) [''k''] False (Some BODY_TRANSPORT) []) =
     Inr (facts ''g'' live, Some x) \<and> ab_stop_reason x = BODY_TRANSPORT \<and> ab_stop_epoch_id x = Some ''e1''"
proof -
  let ?aborts = "[demo_abort NO_PROGRESS, demo_abort BODY_TRANSPORT]"
  have "commit_steps [Observe [JStr ''mine''] ''fp''] [''k''] False new_authority =
      Inr (settle_epistemic [''k''] False (fold apply_step [Observe [JStr ''mine''] ''fp''] new_authority))"
    by (simp add: commit_steps_def new_authority_def)
  then have c: "(if False then Inr new_authority else commit_steps [Observe [JStr ''mine''] ''fp''] [''k''] False new_authority) =
      Inr (settle_epistemic [''k''] False (fold apply_step [Observe [JStr ''mine''] ''fp''] new_authority))"
    by simp
  have en: "encodable new_authority" by (simp add: encodable_def counters_ok_def new_authority_def)
  have stop: "live_stop ?aborts = Some (demo_abort BODY_TRANSPORT)"
    by (simp add: live_stop_def dominant_progress_abort_def demo_abort_def somes_def max_with_def)
  then have mark: "settled_mark ?aborts = Some BODY_TRANSPORT"
    by (simp add: settled_mark_def mark_aborted_def demo_abort_def)
  have reasons: "map ab_stop_reason ?aborts = [NO_PROGRESS, BODY_TRANSPORT]" by (simp add: demo_abort_def)
  note r = replay_reproduces_live_facts [OF en _ _ _ c, of "\<lambda>_. []" "''e1''" True JNull "''g''" ?aborts "settled_mark ?aborts" "[]",
      unfolded reasons mark stop option.case]
  have "BODY_TRANSPORT \<notin> REVIEWABLE_STOP_REASONS" "ab_stop_reason (demo_abort BODY_TRANSPORT) = BODY_TRANSPORT"
    by (simp_all add: REVIEWABLE_STOP_REASONS_def demo_abort_def)
  then show ?thesis using r by (fastforce simp: new_authority_def key_ok_def)
qed

text \<open>
  Whatever record is replayed, a stop that the replay restores is never one of the
  reviewable ones, which no longer close work, and it is bound to the record's epoch.
\<close>

lemma replay_never_restores_reviewable_stop:
  assumes "replay_progress_epoch show_other rec = Inr (f, Some r)"
  shows "ab_stop_reason r \<notin> REVIEWABLE_STOP_REASONS \<and> ab_stop_epoch_id r = epoch_id_of show_other rec"
proof -
  obtain rs d where d: "dominant_progress_abort (pending_aborts rs) = Some d"
      and r: "r = d\<lparr>ab_stop_epoch_id := epoch_id_of show_other rec\<rparr>"
    using assms by (auto simp: replay_progress_epoch_def split: sum.splits prod.splits)
  have "Some d \<in> set (pending_aborts rs)"
    using max_with_Some [OF d [unfolded dominant_progress_abort_def]] by simp
  then have "ab_stop_reason d \<notin> REVIEWABLE_STOP_REASONS"
    by (auto simp: pending_aborts_def restored_abort_def)
  with r show ?thesis by simp
qed

theorem replay_never_restores_reviewable_stop_witness:
  "BODY_TRANSPORT \<notin> REVIEWABLE_STOP_REASONS"
proof -
  let ?rec = "epoch_record ''e1'' (commit_input True JNull True new_authority ''g'' []
      [NO_PROGRESS, BODY_TRANSPORT]) [] False None []"
  have en: "encodable new_authority" by (simp add: encodable_def counters_ok_def new_authority_def)
  have "replay_inputs (\<lambda>_. []) ?rec =
      Inr (\<not> True, facts ''g'' new_authority, [], [], False, [NO_PROGRESS, BODY_TRANSPORT])"
    using replay_inputs_record [OF en, of "[]" True "\<lambda>_. []" "''e1''" True JNull "''g''" "[NO_PROGRESS, BODY_TRANSPORT]" "[]" False None "[]"]
    by (simp add: marked_reasons_def)
  then have "\<exists>f. replay_progress_epoch (\<lambda>_. []) ?rec =
      Inr (f, Some ((restored_abort BODY_TRANSPORT)\<lparr>ab_stop_epoch_id := Some ''e1''\<rparr>))"
    by (simp add: replay_progress_epoch_def restore_facts_def new_authority_def pending_aborts_def
        dominant_progress_abort_def REVIEWABLE_STOP_REASONS_def epoch_id_of_def epoch_record_def
        dget_def somes_def max_with_def)
  then obtain f where "replay_progress_epoch (\<lambda>_. []) ?rec =
      Inr (f, Some ((restored_abort BODY_TRANSPORT)\<lparr>ab_stop_epoch_id := Some ''e1''\<rparr>))" ..
  from replay_never_restores_reviewable_stop [OF this] show ?thesis by (simp add: restored_abort_def)
qed

end
