(* ===== verification/Body_Control.thy ===== *)
theory Body_Control
  imports Progress
begin

text \<open>
  The single-owner record of the physical Body, \<open>minebot/app/body_control.py\<close>: who holds
  the Body, under which claim and generation, and how far native stopping has got. The
  state holds the progress authority whose generations it uses; invalidating a generation
  of that authority calls the listener the controller registered.
\<close>

datatype body_holder =
    HOLDER_NONE | AGENT_CALL | AGENT_PLAN | HOLDER_UNKNOWN | HOLDER_LIFE | HOLDER_THREAT

datatype body_stop_state = RUNNING | STOPPING | SETTLED | STOP_STATE_UNKNOWN

record last_stop =
  ls_native_stopped :: bool
  ls_reason :: "string option"
  ls_generation :: int
  ls_at :: rat

record body_control =
  bc_authority :: progress_authority
  bc_holder :: body_holder
  bc_claim_id :: "string option"
  bc_generation :: int
  bc_last_stop :: "last_stop option"
  bc_stop_state :: body_stop_state
  bc_since :: rat

datatype claim_error = EmptyClaim | ControlUnknown | BodyBusy "string option" body_holder

definition new_body_control :: "progress_authority \<Rightarrow> rat \<Rightarrow> body_control" where
  "new_body_control authority now =
     \<lparr>bc_authority = authority, bc_holder = HOLDER_NONE, bc_claim_id = None,
      bc_generation = pa_generation authority, bc_last_stop = None, bc_stop_state = SETTLED,
      bc_since = now\<rparr>"

definition on_generation_invalidated :: "string \<Rightarrow> int \<Rightarrow> rat \<Rightarrow> body_control \<Rightarrow> body_control" where
  "on_generation_invalidated reason generation now s0 =
     (let s = s0\<lparr>bc_generation := generation\<rparr>
      in if bc_holder s \<notin> {HOLDER_NONE, HOLDER_UNKNOWN} then
           s\<lparr>bc_holder := HOLDER_UNKNOWN, bc_stop_state := STOP_STATE_UNKNOWN,
             bc_last_stop := Some \<lparr>ls_native_stopped = False, ls_reason = Some reason,
                                   ls_generation = generation, ls_at = now\<rparr>,
             bc_since := now\<rparr>
         else s)"

text \<open>\<open>authority.invalidate_generation\<close> from outside, with its call of the listener.\<close>

definition external_invalidation :: "string \<Rightarrow> rat \<Rightarrow> body_control \<Rightarrow> body_control" where
  "external_invalidation reason now s =
     (let a = invalidate_generation reason (bc_authority s)
      in on_generation_invalidated reason (pa_generation a) now (s\<lparr>bc_authority := a\<rparr>))"

text \<open>\<open>self._generation = self.authority.next_generation()\<close>.\<close>

definition take_generation :: "body_control \<Rightarrow> body_control" where
  "take_generation s =
     (let a = next_generation (bc_authority s)
      in s\<lparr>bc_authority := a, bc_generation := pa_generation a\<rparr>)"

definition claim :: "string \<Rightarrow> body_holder \<Rightarrow> rat \<Rightarrow> body_control \<Rightarrow> claim_error + body_control" where
  "claim claim_id holder now s =
     (if claim_id = [] then Inl EmptyClaim
      else if bc_stop_state s \<in> {STOP_STATE_UNKNOWN, STOPPING} then Inl ControlUnknown
      else if bc_holder s \<notin> {HOLDER_NONE, HOLDER_UNKNOWN} \<and> bc_claim_id s \<noteq> Some claim_id
      then Inl (BodyBusy (bc_claim_id s) (bc_holder s))
      else
        (let s' = (if bc_claim_id s \<noteq> Some claim_id \<or> bc_holder s = HOLDER_NONE
                   then take_generation s else s)
         in Inr (s'\<lparr>bc_holder := holder, bc_claim_id := Some claim_id, bc_stop_state := RUNNING,
                    bc_since := now\<rparr>)))"

text \<open>A release that names another claim than the current one is ignored.\<close>

definition names_other :: "string option \<Rightarrow> body_control \<Rightarrow> bool" where
  "names_other claim_id s \<longleftrightarrow> claim_id \<noteq> None \<and> bc_claim_id s \<noteq> None \<and> bc_claim_id s \<noteq> claim_id"

definition mark_stopping :: "string option \<Rightarrow> rat \<Rightarrow> body_control \<Rightarrow> body_control" where
  "mark_stopping claim_id now s =
     (if names_other claim_id s then s
      else (take_generation (s\<lparr>bc_stop_state := STOPPING\<rparr>))\<lparr>bc_since := now\<rparr>)"

definition settle :: "string option \<Rightarrow> rat \<Rightarrow> body_control \<Rightarrow> body_control" where
  "settle claim_id now s =
     (if names_other claim_id s then s
      else s\<lparr>bc_holder := HOLDER_NONE, bc_claim_id := None, bc_stop_state := SETTLED,
             bc_generation := pa_generation (bc_authority s), bc_since := now\<rparr>)"

definition mark_unknown :: "string option \<Rightarrow> rat \<Rightarrow> body_control \<Rightarrow> body_control" where
  "mark_unknown claim_id now s =
     (if names_other claim_id s then s
      else s\<lparr>bc_holder := HOLDER_UNKNOWN, bc_stop_state := STOP_STATE_UNKNOWN,
             bc_last_stop := Some \<lparr>ls_native_stopped = False, ls_reason = Some ''confirmation_missing'',
                                   ls_generation = bc_generation s, ls_at = now\<rparr>,
             bc_since := now\<rparr>)"

definition confirm_native_stopped :: "bool \<Rightarrow> rat \<Rightarrow> body_control \<Rightarrow> body_control" where
  "confirm_native_stopped native_stopped now s =
     (if native_stopped then
        settle None now (s\<lparr>bc_last_stop := Some \<lparr>ls_native_stopped = True, ls_reason = None,
                                                 ls_generation = bc_generation s, ls_at = now\<rparr>\<rparr>)
      else mark_unknown None now s)"

definition owns :: "string \<Rightarrow> int option \<Rightarrow> body_control \<Rightarrow> bool" where
  "owns claim_id generation s \<longleftrightarrow>
     bc_claim_id s = Some claim_id \<and> bc_holder s \<notin> {HOLDER_NONE, HOLDER_UNKNOWN} \<and>
     bc_stop_state s = RUNNING \<and> generation_current (bc_authority s) (bc_generation s) \<and>
     (generation = None \<or> Some (bc_generation s) = generation)"

definition control_unknown :: "body_control \<Rightarrow> bool" where
  "control_unknown s \<longleftrightarrow> bc_stop_state s = STOP_STATE_UNKNOWN"

lemmas control_defs =
  on_generation_invalidated_def external_invalidation_def take_generation_def claim_def
  names_other_def mark_stopping_def settle_def mark_unknown_def confirm_native_stopped_def
  authority_generation.generation_advance authority_invalidation.generation_advance Let_def

section \<open>Runs\<close>

text \<open>
  The operations in any order. \<open>CtlAdvance\<close> is another user of the authority taking a
  generation; a holder that claims is a real one.
\<close>

datatype control_op =
    CtlClaim string body_holder rat
  | CtlStopping "string option" rat
  | CtlSettle "string option" rat
  | CtlUnknown "string option" rat
  | CtlConfirm bool rat
  | CtlInvalidate string rat
  | CtlAdvance

inductive control_step :: "body_control \<Rightarrow> control_op \<Rightarrow> body_control \<Rightarrow> bool" where
  claim_granted: "holder \<notin> {HOLDER_NONE, HOLDER_UNKNOWN} \<Longrightarrow> claim c holder t s = Inr s' \<Longrightarrow>
     control_step s (CtlClaim c holder t) s'"
| claim_refused: "claim c holder t s = Inl e \<Longrightarrow> control_step s (CtlClaim c holder t) s"
| stopping: "control_step s (CtlStopping c t) (mark_stopping c t s)"
| settled: "control_step s (CtlSettle c t) (settle c t s)"
| unknown: "control_step s (CtlUnknown c t) (mark_unknown c t s)"
| confirmed: "control_step s (CtlConfirm b t) (confirm_native_stopped b t s)"
| invalidated: "control_step s (CtlInvalidate r t) (external_invalidation r t s)"
| advanced: "control_step s CtlAdvance (s\<lparr>bc_authority := next_generation (bc_authority s)\<rparr>)"

inductive control_run :: "body_control \<Rightarrow> control_op list \<Rightarrow> body_control \<Rightarrow> bool" where
  no_ops: "control_run s [] s"
| one_op: "control_step s op s1 \<Longrightarrow> control_run s1 ops s2 \<Longrightarrow> control_run s (op # ops) s2"

inductive_cases control_claimE: "control_step s (CtlClaim c h t) s'"

definition control_inv :: "body_control \<Rightarrow> bool" where
  "control_inv s \<longleftrightarrow>
     (bc_holder s = HOLDER_NONE \<longrightarrow> bc_claim_id s = None) \<and>
     (bc_stop_state s = RUNNING \<longrightarrow> bc_holder s \<notin> {HOLDER_NONE, HOLDER_UNKNOWN} \<and> bc_claim_id s \<noteq> None) \<and>
     (bc_stop_state s = SETTLED \<longrightarrow> bc_holder s = HOLDER_NONE) \<and>
     bc_generation s \<le> pa_generation (bc_authority s)"

lemma claim_granted_cases:
  assumes "claim c h t s = Inr s'" and "control_inv s"
  shows "c \<noteq> [] \<and> bc_holder s' = h \<and> bc_claim_id s' = Some c \<and> bc_stop_state s' = RUNNING \<and>
    (bc_stop_state s = SETTLED \<and> bc_generation s' = pa_generation (bc_authority s) + 1 \<and>
       pa_generation (bc_authority s') = pa_generation (bc_authority s) + 1 \<or>
     bc_stop_state s = RUNNING \<and> bc_claim_id s = Some c \<and> bc_generation s' = bc_generation s \<and>
       bc_authority s' = bc_authority s)"
  using assms
  by (cases "bc_stop_state s")
    (auto simp: claim_def take_generation_def authority_generation.generation_advance control_inv_def
      Let_def split: if_splits)

lemma control_step_inv: "control_step s op s' \<Longrightarrow> control_inv s \<Longrightarrow> control_inv s'"
proof (induction rule: control_step.induct)
  case (claim_granted holder c t s s')
  then show ?case
    using claim_granted_cases [of c holder t s s'] by (auto simp: control_inv_def)
qed (auto simp: control_inv_def control_defs)

lemma control_run_inv: "control_run s ops s' \<Longrightarrow> control_inv s \<Longrightarrow> control_inv s'"
  by (induction rule: control_run.induct) (auto intro: control_step_inv)

lemma control_inv_new: "control_inv (new_body_control a t)"
  by (simp add: control_inv_def new_body_control_def)

lemma control_step_generation:
  "control_step s op s' \<Longrightarrow> control_inv s \<Longrightarrow>
     pa_generation (bc_authority s) \<le> pa_generation (bc_authority s')"
proof (induction rule: control_step.induct)
  case (claim_granted holder c t s s')
  then show ?case
    using claim_granted_cases [of c holder t s s'] by auto
qed (auto simp: control_defs)

text \<open>A token that does not own now: it never will, for its generation is spent.\<close>

definition spent :: "string \<Rightarrow> int \<Rightarrow> body_control \<Rightarrow> bool" where
  "spent c g s \<longleftrightarrow> g \<le> pa_generation (bc_authority s) \<and> \<not> owns c (Some g) s"

lemma spent_step:
  assumes "control_step s op s'" and "control_inv s" and "spent c g s"
  shows "spent c g s'"
proof (cases "g < pa_generation (bc_authority s)")
  case True
  with control_step_generation [OF assms(1,2)] show ?thesis
    by (auto simp: spent_def owns_def generation_current_def)
next
  case False
  with assms(3) have g: "g = pa_generation (bc_authority s)" by (simp add: spent_def)
  show ?thesis
    using assms
  proof (induction rule: control_step.induct)
    case (claim_granted holder d t s s')
    from claim_granted_cases [OF claim_granted(2,3)] claim_granted g show ?case
      by (auto simp: spent_def owns_def generation_current_def control_inv_def)
  qed (auto simp: spent_def owns_def generation_current_def control_defs)
qed

lemma spent_run: "control_run s ops s' \<Longrightarrow> control_inv s \<Longrightarrow> spent c g s \<Longrightarrow> spent c g s'"
  by (induction rule: control_run.induct) (auto intro: spent_step control_step_inv)

section \<open>Quarantine\<close>

fun releases :: "control_op \<Rightarrow> bool" where
  "releases (CtlSettle _ _) = True"
| "releases (CtlConfirm b _) = b"
| "releases _ = False"

definition quarantined :: "body_control \<Rightarrow> bool" where
  "quarantined s \<longleftrightarrow> bc_stop_state s \<in> {STOP_STATE_UNKNOWN, STOPPING}"

lemma quarantine_refuses: "quarantined s \<Longrightarrow> c \<noteq> [] \<Longrightarrow> claim c h t s = Inl ControlUnknown"
  by (simp add: quarantined_def claim_def)

lemma quarantine_step: "control_step s op s' \<Longrightarrow> quarantined s \<Longrightarrow> \<not> releases op \<Longrightarrow> quarantined s'"
  by (induction rule: control_step.induct) (auto simp: quarantined_def control_defs split: if_splits)

lemma quarantine_run:
  "control_run s ops s' \<Longrightarrow> quarantined s \<Longrightarrow> \<forall>op\<in>set ops. \<not> releases op \<Longrightarrow> quarantined s'"
  by (induction rule: control_run.induct) (auto intro: quarantine_step)

section \<open>Properties\<close>

text \<open>The operations that may take the Body from a claim: it is settled by its own holder or by the
  supervisor, or its native stop is confirmed.\<close>

fun lets_go :: "string \<Rightarrow> control_op \<Rightarrow> bool" where
  "lets_go c (CtlSettle claim_id _) \<longleftrightarrow> claim_id = None \<or> claim_id = Some c"
| "lets_go c (CtlConfirm native_stopped _) \<longleftrightarrow> native_stopped"
| "lets_go c _ \<longleftrightarrow> False"

lemma claim_stays:
  assumes "control_step s op s'" and "control_inv s" and "bc_claim_id s = Some c" and "\<not> lets_go c op"
  shows "bc_claim_id s' = Some c"
  using assms
proof (induction rule: control_step.induct)
  case (claim_granted holder d t s s')
  then show ?case using claim_granted_cases [of d holder t s s'] by (auto simp: control_inv_def)
qed (auto simp: control_defs)

lemma letting_go_spends:
  assumes "control_step s op s'" and "lets_go c op" and "bc_claim_id s = Some c" and "g \<le> pa_generation (bc_authority s)"
  shows "spent d g s'"
  using assms
  by (cases op; cases rule: control_step.cases) (auto simp: spent_def owns_def control_defs)

lemma handed_over:
  "control_run s ops s' \<Longrightarrow> control_inv s \<Longrightarrow> bc_claim_id s = Some c \<Longrightarrow> g \<le> pa_generation (bc_authority s) \<Longrightarrow>
     bc_claim_id s' = Some c \<or>
     (\<exists>before op after u. ops = before @ op # after \<and> lets_go c op \<and> control_run s before u \<and>
        bc_claim_id u = Some c \<and> (\<forall>d. spent d g s'))"
proof (induction arbitrary: g rule: control_run.induct)
  case (one_op s op s1 ops s2)
  have inv: "control_inv s1" using control_step_inv one_op by blast
  have le: "g \<le> pa_generation (bc_authority s1)"
    using control_step_generation [OF one_op.hyps(1) one_op.prems(1)] one_op.prems(3) by simp
  show ?case
  proof (cases "lets_go c op")
    case True
    have "spent d g s2" for d
      using letting_go_spends [OF one_op.hyps(1) True one_op.prems(2,3)] spent_run [OF one_op.hyps(2) inv] by blast
    then show ?thesis
      using True one_op.prems(2) no_ops by (intro disjI2 exI [of _ "[]"] exI [of _ op] exI [of _ ops] exI [of _ s]) simp
  next
    case False
    from one_op.IH [OF inv claim_stays [OF one_op.hyps(1) one_op.prems(1,2) False] le] show ?thesis
    proof (elim disjE exE conjE)
      fix before op' after u
      assume split: "ops = before @ op' # after" "lets_go c op'" "control_run s1 before u" "bc_claim_id u = Some c"
        "\<forall>d. spent d g s2"
      have "control_run s (op # before) u" using one_op.hyps(1) split(3) by (rule control_run.one_op)
      then show ?thesis using split
        by (intro disjI2 exI [of _ "op # before"] exI [of _ op'] exI [of _ after] exI [of _ u]) simp
    qed simp
  qed
qed simp

text \<open>
  C37. The Body changes hands only after it was let go. Whenever one claim owns the Body in a reachable
  state and, after any further operations, another claim owns it, then one of these operations was a
  settlement in the first claim's own name (or in nobody's), or a confirmation of the native stop, and
  the Body was still recorded for the first claim when it came. The new owner's generation is later,
  and no claim ever owns the Body under the earlier one again.
\<close>

theorem body_changes_hands_when_let_go:
  assumes "control_run (new_body_control a t0) ops s" and "owns c (Some g) s"
    and "control_run s later s'" and "owns d (Some g') s'" and "d \<noteq> c"
  shows "(\<exists>before op after u. later = before @ op # after \<and> lets_go c op \<and> control_run s before u \<and>
      bc_claim_id u = Some c) \<and>
    g < g' \<and> (\<forall>e. \<not> owns e (Some g) s')"
proof -
  have inv: "control_inv s" by (rule control_run_inv [OF assms(1) control_inv_new])
  have c: "bc_claim_id s = Some c" "g \<le> pa_generation (bc_authority s)"
    using assms(2) inv by (auto simp: owns_def control_inv_def)
  have d: "bc_claim_id s' = Some d" "g' = bc_generation s'" using assms(4) by (simp_all add: owns_def)
  from handed_over [OF assms(3) inv c] d(1) assms(5) obtain before op after u
    where split: "later = before @ op # after" "lets_go c op" "control_run s before u" "bc_claim_id u = Some c"
      and spent: "\<forall>e. spent e g s'" by auto
  have "g \<le> pa_generation (bc_authority s')" "g \<noteq> g'" using spent assms(4) by (auto simp: spent_def)
  moreover have "g' = pa_generation (bc_authority s')" using assms(4) by (auto simp: owns_def generation_current_def)
  ultimately have "g < g'" by simp
  then show ?thesis using split spent unfolding spent_def by blast
qed

text \<open>
  Revocation is final: once a claim with its generation does not own the Body (it was
  stopped, settled, quarantined or its generation was invalidated), no sequence of
  operations, not even a new claim under the same name, lets that generation own it again.
\<close>

lemma revoked_generation_never_owns:
  assumes "control_run (new_body_control a t0) ops s" and "g \<le> pa_generation (bc_authority s)"
    and "\<not> owns c (Some g) s" and "control_run s later s'"
  shows "\<not> owns c (Some g) s'"
  using spent_run [OF assms(4) control_run_inv [OF assms(1) control_inv_new]] assms(2,3)
  by (simp add: spent_def)

text \<open>
  Losing authority quarantines the Body: when a generation is invalidated while the
  Body is held, its owner is unknown at once, and every claim is refused until the Body is
  settled or its native stop is confirmed.
\<close>

lemma invalidation_quarantines:
  assumes "control_run (new_body_control a t0) ops s" and "bc_stop_state s = RUNNING"
    and "control_run (external_invalidation r t s) later s'" and "\<forall>op\<in>set later. \<not> releases op"
    and "c \<noteq> []"
  shows "control_unknown (external_invalidation r t s) \<and> claim c h t' s' = Inl ControlUnknown"
proof -
  have "control_inv s" by (rule control_run_inv [OF assms(1) control_inv_new])
  with assms(2) have u: "bc_stop_state (external_invalidation r t s) = STOP_STATE_UNKNOWN"
    by (auto simp: control_inv_def control_defs)
  then have "quarantined s'"
    by (intro quarantine_run [OF assms(3) _ assms(4)]) (simp add: quarantined_def)
  with u show ?thesis by (simp add: control_unknown_def quarantine_refuses [OF _ assms(5)])
qed

text \<open>
  A quarantine can be left: after the native stop is confirmed, whatever the reachable
  state was, the next claim is granted, owns the Body, and holds a generation newer than
  every one handed out before.
\<close>

lemma confirmed_stop_reopens:
  assumes "control_run (new_body_control a t0) ops s" and "c \<noteq> []"
    and "h \<notin> {HOLDER_NONE, HOLDER_UNKNOWN}"
  shows "\<exists>s'. claim c h t (confirm_native_stopped True t s) = Inr s' \<and> owns c (Some (bc_generation s')) s' \<and>
           pa_generation (bc_authority s) < bc_generation s'"
  using assms(2,3)
  by (simp add: confirm_native_stopped_def settle_def names_other_def claim_def take_generation_def
      authority_generation.generation_advance owns_def generation_current_def Let_def)

section \<open>Witnesses\<close>

definition demo_held :: body_control where
  "demo_held = (new_body_control new_authority 0)\<lparr>
     bc_authority := next_generation new_authority, bc_holder := AGENT_CALL,
     bc_claim_id := Some ''call-1'', bc_generation := 1, bc_stop_state := RUNNING, bc_since := 1\<rparr>"

lemma demo_held_run:
  "control_run (new_body_control new_authority 0) [CtlClaim ''call-1'' AGENT_CALL 1] demo_held"
  by (rule one_op [OF claim_granted no_ops])
    (simp_all add: claim_def new_body_control_def take_generation_def next_generation_def
      new_authority_def demo_held_def Let_def)

lemma demo_held_owns: "owns ''call-1'' (Some 1) demo_held"
  by (simp add: owns_def demo_held_def new_body_control_def generation_current_def next_generation_def
      new_authority_def)

definition demo_handed :: body_control where
  "demo_handed = projr (claim ''call-2'' HOLDER_LIFE 3 (settle (Some ''call-1'') 2 demo_held))"

lemma demo_handed_claim: "claim ''call-2'' HOLDER_LIFE 3 (settle (Some ''call-1'') 2 demo_held) = Inr demo_handed"
  by (simp add: demo_handed_def demo_held_def claim_def settle_def names_other_def Let_def)

theorem body_changes_hands_when_let_go_witness:
  "\<exists>before op after u. [CtlSettle (Some ''call-1'') 2, CtlClaim ''call-2'' HOLDER_LIFE 3] = before @ op # after \<and>
     lets_go ''call-1'' op \<and> control_run demo_held before u \<and> bc_claim_id u = Some ''call-1''"
proof -
  have run: "control_run demo_held [CtlSettle (Some ''call-1'') 2, CtlClaim ''call-2'' HOLDER_LIFE 3] demo_handed"
    by (rule one_op [OF settled one_op [OF claim_granted no_ops]]) (simp_all add: demo_handed_claim)
  have "owns ''call-2'' (Some 2) demo_handed"
    by (simp add: demo_handed_def demo_held_def claim_def settle_def names_other_def take_generation_def owns_def
        generation_current_def next_generation_def new_body_control_def new_authority_def Let_def)
  from body_changes_hands_when_let_go [OF demo_held_run demo_held_owns run this] show ?thesis by simp
qed

theorem revoked_generation_never_owns_witness:
  "\<not> owns ''call-1'' (Some 0) (settle None 2 demo_held)"
  by (rule revoked_generation_never_owns [OF demo_held_run _ _ one_op [OF settled no_ops]])
    (simp_all add: demo_held_def next_generation_def new_authority_def owns_def)

theorem invalidation_quarantines_witness:
  "claim ''call-2'' AGENT_CALL 3 (external_invalidation ''goal_replaced'' 2 demo_held) = Inl ControlUnknown"
  by (rule invalidation_quarantines [OF demo_held_run _ no_ops, THEN conjunct2])
    (simp_all add: demo_held_def)

theorem confirmed_stop_reopens_witness:
  "\<exists>s'. claim ''call-2'' AGENT_CALL 3 (confirm_native_stopped True 3 demo_held) = Inr s' \<and> 1 < bc_generation s'"
  using confirmed_stop_reopens [OF demo_held_run, of "''call-2''" AGENT_CALL 3]
  by (auto simp: demo_held_def next_generation_def new_authority_def)

end
