(* ===== verification/Modes.thy ===== *)
theory Modes
  imports Progress Lifecycle
begin

text \<open>
  The stance reducer of \<open>minebot/brain/modes.py\<close> and the classifier of
  \<open>minebot/brain/deliberation.py\<close>. A signal carries a JSON object of facts and, for a
  progress stop, the progress facts. \<open>max\<close> keeps the first of equally severe candidates.
\<close>

section \<open>Signals and stances\<close>

datatype situational_state = SIT_NORMAL | SIT_MOBILITY | SIT_ENGAGE | SIT_SURVIVAL | SIT_DEATH

fun situational_value :: "situational_state \<Rightarrow> string" where
  "situational_value SIT_NORMAL = ''normal''"
| "situational_value SIT_MOBILITY = ''mobility''"
| "situational_value SIT_ENGAGE = ''engage''"
| "situational_value SIT_SURVIVAL = ''survival''"
| "situational_value SIT_DEATH = ''death''"

fun severity :: "situational_state \<Rightarrow> nat" where
  "severity SIT_NORMAL = 0"
| "severity SIT_MOBILITY = 1"
| "severity SIT_ENGAGE = 2"
| "severity SIT_SURVIVAL = 3"
| "severity SIT_DEATH = 4"

datatype signal_kind =
    GOAL_STARTED | PROGRESS_ABORT | BODY_REFLEX_STARTED | BODY_REFLEX_COMPLETED
  | SURVIVAL_METRIC_RED | MOBILITY_BLOCKED | HOSTILE_NEARBY | UNDER_ATTACK | DEATH_DETECTED
  | RECOVERY_COMPLETED | TOOL_RESULTS | USER_INTERRUPT

fun signal_kind_value :: "signal_kind \<Rightarrow> string" where
  "signal_kind_value GOAL_STARTED = ''goal_started''"
| "signal_kind_value PROGRESS_ABORT = ''progress_abort''"
| "signal_kind_value BODY_REFLEX_STARTED = ''body_reflex_started''"
| "signal_kind_value BODY_REFLEX_COMPLETED = ''body_reflex_completed''"
| "signal_kind_value SURVIVAL_METRIC_RED = ''survival_metric_red''"
| "signal_kind_value MOBILITY_BLOCKED = ''mobility_blocked''"
| "signal_kind_value HOSTILE_NEARBY = ''hostile_nearby''"
| "signal_kind_value UNDER_ATTACK = ''under_attack''"
| "signal_kind_value DEATH_DETECTED = ''death_detected''"
| "signal_kind_value RECOVERY_COMPLETED = ''recovery_completed''"
| "signal_kind_value TOOL_RESULTS = ''tool_results''"
| "signal_kind_value USER_INTERRUPT = ''user_interrupt''"

record agent_signal =
  sg_kind :: signal_kind
  sg_facts :: json_object
  sg_progress :: "progress_facts option"

definition reason_signal :: "signal_kind \<Rightarrow> string \<Rightarrow> json_object \<Rightarrow> agent_signal" where
  "reason_signal kind reason fs =
     \<lparr>sg_kind = kind, sg_facts = (''reason'', JStr reason) # fs, sg_progress = None\<rparr>"

definition goal_started_signal :: "string \<Rightarrow> agent_signal" where
  "goal_started_signal goal = \<lparr>sg_kind = GOAL_STARTED, sg_facts = [(''goal'', JStr goal)], sg_progress = None\<rparr>"

definition progress_abort_signal :: "progress_facts \<Rightarrow> agent_signal" where
  "progress_abort_signal f = \<lparr>sg_kind = PROGRESS_ABORT, sg_facts = [], sg_progress = Some f\<rparr>"

definition tool_results_signal :: "json \<Rightarrow> agent_signal" where
  "tool_results_signal rs = \<lparr>sg_kind = TOOL_RESULTS, sg_facts = [(''results'', rs)], sg_progress = None\<rparr>"

record suspend_slot =
  su_goal_text :: string
  su_composition_id :: "string option"
  su_last_progress :: json_object
  su_reason :: string

record runtime_profile =
  rp_relationship :: string
  rp_situational :: situational_state
  rp_lifecycle :: string
  rp_goal_lock :: string
  rp_context_frame :: string
  rp_tool_focus :: "string list"
  rp_model_route :: string
  rp_effort :: string
  rp_policy_tags :: "string list"

record mode_reduction =
  mr_profile :: runtime_profile
  mr_requested_lifecycle :: "lifecycle_state option"
  mr_reason :: "string option"

record mode_runtime =
  mo_relationship :: string
  mo_situational :: situational_state
  mo_suspend_slot :: "suspend_slot option"
  mo_last_reason :: "string option"

definition mode_init :: "string \<Rightarrow> mode_runtime" where
  "mode_init relationship =
     \<lparr>mo_relationship = relationship, mo_situational = SIT_NORMAL, mo_suspend_slot = None,
      mo_last_reason = None\<rparr>"

section \<open>Terminal reasons of tool results\<close>

definition result_reason :: "(json \<Rightarrow> string) \<Rightarrow> json \<Rightarrow> string option" where
  "result_reason show_other r =
     (case r of
        JDict d \<Rightarrow> Some (let v = dget d ''reason'' in if truthy v then py_str show_other v else [])
      | _ \<Rightarrow> None)"

definition mobility_reason :: "string \<Rightarrow> bool" where
  "mobility_reason r \<longleftrightarrow>
     r \<noteq> ''resource_navigation_survival_hazard_unresolved'' \<and>
     (r \<in> {''no_path'', ''budget_exceeded'', ''move_start_failed'', ''resource_navigation_no_path''} \<or>
      list_ex (\<lambda>p. prefix p r)
        [''navigation_'', ''mobility_'', ''stuck'', ''lost_position'', ''resource_dry_egress'',
         ''resource_navigation_''])"

definition is_alnum :: "char \<Rightarrow> bool" where
  "is_alnum c = (let n = (of_char c :: nat) in
     (48 \<le> n \<and> n \<le> 57) \<or> (65 \<le> n \<and> n \<le> 90) \<or> (97 \<le> n \<and> n \<le> 122) \<or>
     n \<in> {170, 178, 179, 181, 185, 186, 188, 189, 190} \<or>
     (192 \<le> n \<and> n \<le> 255 \<and> n \<noteq> 215 \<and> n \<noteq> 247))"

definition survival_reason :: "string \<Rightarrow> bool" where
  "survival_reason r =
     (let normalized = filter is_alnum (lower r)
      in list_ex (\<lambda>p. prefix p normalized)
           [''resourcesurvivalhazardunresolved'', ''resourcenavigationsurvivalhazardunresolved'',
            ''survivalhazardunresolved''])"

definition first_reason :: "(string \<Rightarrow> bool) \<Rightarrow> (json \<Rightarrow> string) \<Rightarrow> json \<Rightarrow> string option" where
  "first_reason P show_other results =
     (case results of JList rs \<Rightarrow> find P (somes (map (result_reason show_other) rs)) | _ \<Rightarrow> None)"

definition mobility_reason_from_tool_results :: "(json \<Rightarrow> string) \<Rightarrow> json \<Rightarrow> string option" where
  "mobility_reason_from_tool_results = first_reason mobility_reason"

definition survival_reason_from_tool_results :: "(json \<Rightarrow> string) \<Rightarrow> json \<Rightarrow> string option" where
  "survival_reason_from_tool_results = first_reason survival_reason"

section \<open>Candidates\<close>

definition situational_from_progress ::
  "(json \<Rightarrow> string) \<Rightarrow> progress_facts option \<Rightarrow> situational_state" where
  "situational_from_progress show_other progress =
     (case progress of
        None \<Rightarrow> SIT_NORMAL
      | Some f \<Rightarrow>
          (let act = (case pf_last_action f of Some (k # ks) \<Rightarrow> py_str show_other k | _ \<Rightarrow> [])
           in if sublist ''navigate'' act \<or> sublist ''move'' act then SIT_MOBILITY else SIT_NORMAL))"

text \<open>\<open>str(signal.facts.get(key) or default)\<close>.\<close>

definition fact_or :: "(json \<Rightarrow> string) \<Rightarrow> json_object \<Rightarrow> string \<Rightarrow> string \<Rightarrow> string" where
  "fact_or show_other d key def =
     (let v = dget d key in if truthy v then py_str show_other v else def)"

fun nonempty_option :: "string option \<Rightarrow> string list" where
  "nonempty_option None = []"
| "nonempty_option (Some s) = (if s = [] then [] else [s])"

definition situational_candidates ::
  "(json \<Rightarrow> string) \<Rightarrow> agent_signal \<Rightarrow> (situational_state \<times> string) list" where
  "situational_candidates show_other sg =
     (let reason = fact_or show_other (sg_facts sg) ''reason'' (signal_kind_value (sg_kind sg))
      in case sg_kind sg of
           GOAL_STARTED \<Rightarrow> [(SIT_NORMAL, fact_or show_other (sg_facts sg) ''goal'' ''goal_started'')]
         | PROGRESS_ABORT \<Rightarrow> [(situational_from_progress show_other (sg_progress sg), ''progress_abort'')]
         | BODY_REFLEX_STARTED \<Rightarrow> [(SIT_SURVIVAL, reason)]
         | SURVIVAL_METRIC_RED \<Rightarrow> [(SIT_SURVIVAL, reason)]
         | BODY_REFLEX_COMPLETED \<Rightarrow> [(SIT_NORMAL, reason)]
         | MOBILITY_BLOCKED \<Rightarrow> [(SIT_MOBILITY, reason)]
         | HOSTILE_NEARBY \<Rightarrow> [(SIT_ENGAGE, reason)]
         | UNDER_ATTACK \<Rightarrow> [(SIT_ENGAGE, reason)]
         | DEATH_DETECTED \<Rightarrow> [(SIT_DEATH, reason)]
         | RECOVERY_COMPLETED \<Rightarrow> [(SIT_NORMAL, reason)]
         | USER_INTERRUPT \<Rightarrow> []
         | TOOL_RESULTS \<Rightarrow>
             map (Pair SIT_SURVIVAL) (nonempty_option
               (survival_reason_from_tool_results show_other (dget (sg_facts sg) ''results''))) @
             map (Pair SIT_MOBILITY) (nonempty_option
               (mobility_reason_from_tool_results show_other (dget (sg_facts sg) ''results''))))"

definition lifecycle_requests ::
  "(json \<Rightarrow> string) \<Rightarrow> lifecycle_state \<Rightarrow> agent_signal
   \<Rightarrow> (lifecycle_state \<times> string \<times> agent_signal) list" where
  "lifecycle_requests show_other lifecycle sg =
     (let reason = fact_or show_other (sg_facts sg) ''reason'' (signal_kind_value (sg_kind sg))
      in case sg_kind sg of
           PROGRESS_ABORT \<Rightarrow> [(LC_YIELDED, ''progress_abort'', sg)]
         | DEATH_DETECTED \<Rightarrow> [(LC_RECOVERING, reason, sg)]
         | RECOVERY_COMPLETED \<Rightarrow> if lifecycle = LC_RECOVERING then [(LC_RESUMING, reason, sg)] else []
         | USER_INTERRUPT \<Rightarrow> [(LC_YIELDED, reason, sg)]
         | _ \<Rightarrow> [])"

text \<open>The priority is one more than the source's, whose default for other states is -1.\<close>

fun request_priority :: "lifecycle_state \<Rightarrow> nat" where
  "request_priority LC_RESUMING = 1"
| "request_priority LC_INTERRUPTED = 2"
| "request_priority LC_YIELDED = 3"
| "request_priority LC_RECOVERING = 4"
| "request_priority _ = 0"

definition highest_situational ::
  "(situational_state \<times> string) list \<Rightarrow> situational_state \<Rightarrow> situational_state \<times> string option" where
  "highest_situational candidates current =
     (case max_with (severity \<circ> fst) candidates of
        None \<Rightarrow> (if current \<in> {SIT_DEATH, SIT_ENGAGE, SIT_SURVIVAL} then (SIT_NORMAL, None)
                  else (current, None))
      | Some (s, r) \<Rightarrow> (s, Some r))"

definition highest_lifecycle_request ::
  "(lifecycle_state \<times> string \<times> agent_signal) list \<Rightarrow> (lifecycle_state \<times> string \<times> agent_signal) option" where
  "highest_lifecycle_request candidates = max_with (request_priority \<circ> fst) candidates"

section \<open>Profiles\<close>

fun context_frame :: "situational_state \<Rightarrow> string" where
  "context_frame SIT_SURVIVAL = ''Survival issue active; preserve the resource goal. Do not initiate combat as a food strategy; continue the resource chain only when safe, otherwise yield a typed blocker.''"
| "context_frame SIT_ENGAGE = ''Hostile nearby or under attack; consider read_nearby_entities(hostile_only=true) + engage_entity or disengage/heal.''"
| "context_frame SIT_MOBILITY = ''Mobility/reachability issue; use fresh position, route, and candidate facts.''"
| "context_frame SIT_DEATH = ''Death/recovery context; recount inventory and resume at the resource goal level.''"
| "context_frame SIT_NORMAL = ''Normal autonomous resource collection.''"

fun profile_focus :: "situational_state \<Rightarrow> string list" where
  "profile_focus SIT_SURVIVAL = [''survival'', ''recovery'', ''navigation'', ''resource'']"
| "profile_focus SIT_ENGAGE = [''combat'', ''navigation'', ''perception'']"
| "profile_focus SIT_MOBILITY = [''navigation'', ''perception'', ''recovery'']"
| "profile_focus SIT_DEATH = [''recovery'', ''inventory'', ''navigation'']"
| "profile_focus SIT_NORMAL = [''resource'', ''navigation'', ''perception'']"

definition profile_route :: "situational_state \<Rightarrow> string" where
  "profile_route s = (if s \<in> {SIT_SURVIVAL, SIT_ENGAGE} then ''fast'' else ''primary'')"

definition profile_tags :: "situational_state \<Rightarrow> string list" where
  "profile_tags s = [if s = SIT_ENGAGE then ''combat'' else situational_value s]"

definition profile_for :: "mode_runtime \<Rightarrow> lifecycle_state \<Rightarrow> runtime_profile" where
  "profile_for m lifecycle =
     (let s = mo_situational m
      in \<lparr>rp_relationship = mo_relationship m, rp_situational = s,
          rp_lifecycle = lifecycle_value lifecycle, rp_goal_lock = ''mutable'',
          rp_context_frame = context_frame s, rp_tool_focus = profile_focus s,
          rp_model_route = profile_route s, rp_effort = ''standard'', rp_policy_tags = profile_tags s\<rparr>)"

section \<open>Reduction\<close>

definition jsonish_progress :: "progress_facts \<Rightarrow> json" where
  "jsonish_progress f = JDict
     [(''goal'', JStr (pf_goal f)),
      (''last_action'', case pf_last_action f of Some (k # ks) \<Rightarrow> JList (k # ks) | _ \<Rightarrow> JNull),
      (''stagnant_steps'', JInt (pf_stagnant_steps f)), (''stalled_steps'', JInt (pf_stalled_steps f)),
      (''failure_steps'', JInt (pf_failure_steps f)), (''last_fingerprint'', JStr (pf_last_fingerprint f)),
      (''current_fingerprint'', JStr (pf_current_fingerprint f)),
      (''recent_events'', JList (map JStr (pf_recent_events f)))]"

definition jsonish :: "agent_signal \<Rightarrow> json_object" where
  "jsonish sg = (case sg_progress sg of
       None \<Rightarrow> sg_facts sg
     | Some f \<Rightarrow> sg_facts sg @ [(''progress'', jsonish_progress f)])"

definition maybe_str :: "(json \<Rightarrow> string) \<Rightarrow> json \<Rightarrow> string option" where
  "maybe_str show_other v = (case v of JNull \<Rightarrow> None | _ \<Rightarrow> Some (py_str show_other v))"

definition write_suspend ::
  "(json \<Rightarrow> string) \<Rightarrow> string option \<Rightarrow> string \<Rightarrow> agent_signal \<Rightarrow> mode_runtime \<Rightarrow> mode_runtime" where
  "write_suspend show_other goal_text reason sg m =
     (case goal_text of
        None \<Rightarrow> m
      | Some goal \<Rightarrow>
          m\<lparr>mo_suspend_slot := Some \<lparr>su_goal_text = goal,
              su_composition_id = maybe_str show_other (dget (sg_facts sg) ''composition_id''),
              su_last_progress = jsonish sg, su_reason = reason\<rparr>\<rparr>)"

text \<open>\<open>requested_reason or situational_reason\<close>.\<close>

fun reason_or :: "string option \<Rightarrow> string option \<Rightarrow> string option" where
  "reason_or (Some r) other = (if r = [] then other else Some r)"
| "reason_or None other = other"

definition reduce ::
  "(json \<Rightarrow> string) \<Rightarrow> agent_signal list \<Rightarrow> lifecycle_state \<Rightarrow> string option \<Rightarrow> mode_runtime
   \<Rightarrow> mode_reduction \<times> mode_runtime" where
  "reduce show_other signals lifecycle goal_text m =
     (let (situational, situational_reason) =
            highest_situational (concat (map (situational_candidates show_other) signals)) (mo_situational m);
          request = highest_lifecycle_request (concat (map (lifecycle_requests show_other lifecycle) signals));
          m1 = m\<lparr>mo_situational := situational\<rparr>;
          reason = reason_or (map_option (fst \<circ> snd) request) situational_reason;
          m2 = (if reason \<noteq> None then m1\<lparr>mo_last_reason := reason\<rparr> else m1);
          m3 = (case request of
                  Some (requested, _, sg) \<Rightarrow>
                    if requested \<in> {LC_YIELDED, LC_RECOVERING} then
                      write_suspend show_other goal_text
                        (case reason_or reason None of Some r \<Rightarrow> r | None \<Rightarrow> lifecycle_value requested) sg m2
                    else m2
                | None \<Rightarrow> m2)
      in (\<lparr>mr_profile = profile_for m3 lifecycle,
           mr_requested_lifecycle = map_option fst request, mr_reason = reason\<rparr>, m3))"

definition consume_suspend_slot :: "mode_runtime \<Rightarrow> suspend_slot option \<times> mode_runtime" where
  "consume_suspend_slot m = (mo_suspend_slot m, m\<lparr>mo_suspend_slot := None\<rparr>)"

section \<open>Signals from the body and its events\<close>

definition signalize_body_state :: "body_state \<Rightarrow> agent_signal list" where
  "signalize_body_state s =
     (if bs_missing s \<or> bs_health s \<le> 0 then
        [reason_signal DEATH_DETECTED ''death_detected''
           [(''health'', JFloat (Fin (bs_health s))), (''missing'', JBool (bs_missing s))]]
      else if bs_health s \<le> 6 then
        [reason_signal SURVIVAL_METRIC_RED ''low_health'' [(''health'', JFloat (Fin (bs_health s)))]]
      else if bs_food s \<le> 6 then
        [reason_signal SURVIVAL_METRIC_RED ''low_food'' [(''food'', JInt (bs_food s))]]
      else case bs_oxygen s of
        Some ox \<Rightarrow> (if ox \<le> 80 then [reason_signal SURVIVAL_METRIC_RED ''low_oxygen'' [(''oxygen'', JInt ox)]]
                    else [])
      | None \<Rightarrow> [])"

text \<open>
  Keyword arguments: the event's own data may not repeat the names the call passes
  itself, or Python raises.
\<close>

definition spread_signal ::
  "(json \<Rightarrow> string) \<Rightarrow> signal_kind \<Rightarrow> event \<Rightarrow> py_exn + agent_signal list" where
  "spread_signal show_other kind e =
     (let reason = fact_or show_other (ev_data e) ''reason'' (ev_name e);
          data = AList.delete ''reason'' (ev_data e)
      in if ''event'' \<in> fst ` set data \<or> ''cls'' \<in> fst ` set data then Inl TypeError
         else Inr [reason_signal kind reason ((''event'', JStr (ev_name e)) # data)])"

definition plain_signal ::
  "(json \<Rightarrow> string) \<Rightarrow> signal_kind \<Rightarrow> string \<Rightarrow> event \<Rightarrow> py_exn + agent_signal list" where
  "plain_signal show_other kind key e =
     Inr [reason_signal kind (fact_or show_other (ev_data e) key (ev_name e)) [(''event'', JStr (ev_name e))]]"

definition signalize_event :: "(json \<Rightarrow> string) \<Rightarrow> event \<Rightarrow> py_exn + agent_signal list" where
  "signalize_event show_other e =
     (let name = ev_name e in
      if name \<in> {''reflexTriggered'', ''reflexStarted'', ''ownerPreempted''} then
        plain_signal show_other BODY_REFLEX_STARTED ''kind'' e
      else if name \<in> {''reflexCompleted'', ''recoveryCompleted''} then
        plain_signal show_other BODY_REFLEX_COMPLETED ''kind'' e
      else if name \<in> {''death'', ''deathDetected'', ''botDied'', ''bodyMissing''} then
        spread_signal show_other DEATH_DETECTED e
      else if name = ''respawned'' then spread_signal show_other RECOVERY_COMPLETED e
      else if name \<in> {''stuck'', ''navigationBlocked'', ''lostPosition''} then
        plain_signal show_other MOBILITY_BLOCKED ''reason'' e
      else if name \<in> {''hostileNearby'', ''hostile_nearby''} then
        plain_signal show_other HOSTILE_NEARBY ''reason'' e
      else if name \<in> {''underAttack'', ''under_attack''} then
        plain_signal show_other UNDER_ATTACK ''reason'' e
      else Inr [])"

fun signalize_events :: "(json \<Rightarrow> string) \<Rightarrow> event list \<Rightarrow> py_exn + agent_signal list" where
  "signalize_events show_other [] = Inr []"
| "signalize_events show_other (e # es) =
     (case signalize_event show_other e of
        Inl x \<Rightarrow> Inl x
      | Inr sgs \<Rightarrow> map_sum id ((@) sgs) (signalize_events show_other es))"

section \<open>Decision contexts\<close>

datatype decision_context =
    CTX_BOUNDARY | CTX_RECOVERY | CTX_MOBILITY | CTX_MAINTENANCE | CTX_SOCIAL | CTX_NORMAL

record route_spec =
  rs_model :: string
  rs_effort :: "string option"
  rs_context_profile :: string

definition DEFAULT_ROUTE :: route_spec where
  "DEFAULT_ROUTE = \<lparr>rs_model = ''primary'', rs_effort = None, rs_context_profile = ''full''\<rparr>"

definition DEFAULT_ROUTING_POLICY :: "(decision_context, route_spec) pydict" where
  "DEFAULT_ROUTING_POLICY =
     map (\<lambda>c. (c, DEFAULT_ROUTE))
       [CTX_BOUNDARY, CTX_RECOVERY, CTX_MOBILITY, CTX_MAINTENANCE, CTX_SOCIAL, CTX_NORMAL]"

definition epoch_requires_body_recovery :: "json_object option \<Rightarrow> bool" where
  "epoch_requires_body_recovery epoch =
     (case epoch of None \<Rightarrow> False | Some d \<Rightarrow> dget d ''body_recovery_required'' = JBool True)"

definition classify_turn ::
  "string option \<Rightarrow> lifecycle_state \<Rightarrow> mode_reduction option \<Rightarrow> json_object option \<Rightarrow> bool
   \<Rightarrow> decision_context" where
  "classify_turn intent_kind lifecycle mode_facts last_epoch_facts has_durable_goal =
     (let kind = lower (strip (case intent_kind of None \<Rightarrow> [] | Some k \<Rightarrow> k));
          situational = map_option (rp_situational \<circ> mr_profile) mode_facts
      in if kind = ''task_boundary'' then CTX_BOUNDARY
         else if lifecycle = LC_RECOVERING \<or> kind = ''recovery_reconcile'' \<or>
                 situational = Some SIT_DEATH \<or> epoch_requires_body_recovery last_epoch_facts
         then CTX_RECOVERY
         else if situational = Some SIT_MOBILITY then CTX_MOBILITY
         else if kind = ''maintenance'' then CTX_MAINTENANCE
         else if kind = ''message'' \<and> \<not> has_durable_goal then CTX_SOCIAL
         else CTX_NORMAL)"

definition resolve_route :: "(decision_context, route_spec) pydict \<Rightarrow> decision_context \<Rightarrow> route_spec" where
  "resolve_route policy context = (case map_of policy context of Some r \<Rightarrow> r | None \<Rightarrow> DEFAULT_ROUTE)"

section \<open>What a batch decides\<close>

definition batch_situations ::
  "(json \<Rightarrow> string) \<Rightarrow> agent_signal list \<Rightarrow> (situational_state \<times> string) list" where
  "batch_situations show_other signals = concat (map (situational_candidates show_other) signals)"

lemma reduce_situational:
  "mo_situational (snd (reduce show_other signals lifecycle goal m)) =
     fst (highest_situational (batch_situations show_other signals) (mo_situational m))"
  by (auto simp: reduce_def batch_situations_def Let_def write_suspend_def split: prod.splits option.splits)

lemma reduce_profile:
  "rp_situational (mr_profile (fst (reduce show_other signals lifecycle goal m))) =
     mo_situational (snd (reduce show_other signals lifecycle goal m))"
  by (simp add: reduce_def profile_for_def Let_def split: prod.splits)

lemma reduce_requested:
  "mr_requested_lifecycle (fst (reduce show_other signals lifecycle goal m)) =
     map_option fst (highest_lifecycle_request (concat (map (lifecycle_requests show_other lifecycle) signals)))"
  by (simp add: reduce_def Let_def split: prod.splits)

lemma highest_situational_max:
  assumes "(s, r) \<in> set cs"
  shows "severity s \<le> severity (fst (highest_situational cs cur)) \<and>
         fst (highest_situational cs cur) \<in> fst ` set cs"
proof -
  from assms have "cs \<noteq> []" by auto
  then obtain m where m: "max_with (severity \<circ> fst) cs = Some m"
    by (cases "max_with (severity \<circ> fst) cs") auto
  from max_with_Some [OF m] assms have "m \<in> set cs" "severity s \<le> severity (fst m)" by auto
  with m show ?thesis by (cases m) (force simp: highest_situational_def)
qed

lemma highest_situational_none: "highest_situational [] cur =
    (if cur \<in> {SIT_DEATH, SIT_ENGAGE, SIT_SURVIVAL} then SIT_NORMAL else cur, None)"
  by (simp add: highest_situational_def max_with_def)

lemma death_is_most_severe: "severity s = 4 \<longleftrightarrow> s = SIT_DEATH" "severity s \<le> 4"
  by (cases s; simp)+

lemma death_candidate:
  "sg \<in> set signals \<Longrightarrow> sg_kind sg = DEATH_DETECTED \<Longrightarrow> \<exists>r. (SIT_DEATH, r) \<in> set (batch_situations show_other signals)"
  by (force simp: batch_situations_def situational_candidates_def Let_def)

lemma batch_death_situational:
  assumes "sg \<in> set signals" and "sg_kind sg = DEATH_DETECTED"
  shows "mo_situational (snd (reduce show_other signals lifecycle goal m)) = SIT_DEATH"
proof -
  obtain r where "(SIT_DEATH, r) \<in> set (batch_situations show_other signals)"
    using death_candidate [OF assms] by blast
  from highest_situational_max [OF this, of "mo_situational m"] show ?thesis
    unfolding reduce_situational
    using death_is_most_severe [of "fst (highest_situational (batch_situations show_other signals) (mo_situational m))"]
    by simp
qed

lemma lifecycle_request_states:
  "(s, r, sg) \<in> set (lifecycle_requests show_other lifecycle x) \<Longrightarrow>
     sg = x \<and> (s = LC_YIELDED \<and> sg_kind x \<in> {PROGRESS_ABORT, USER_INTERRUPT} \<or>
      s = LC_RECOVERING \<and> sg_kind x = DEATH_DETECTED \<or>
      s = LC_RESUMING \<and> sg_kind x = RECOVERY_COMPLETED \<and> lifecycle = LC_RECOVERING)"
  by (auto simp: lifecycle_requests_def Let_def split: signal_kind.splits if_splits)

lemma request_max:
  assumes "highest_lifecycle_request cs = Some (s, r, sg)"
  shows "(s, r, sg) \<in> set cs \<and> (\<forall>c\<in>set cs. request_priority (fst c) \<le> request_priority s)"
  using max_with_Some [OF assms [unfolded highest_lifecycle_request_def]] by auto

lemma request_some:
  "cs \<noteq> [] \<Longrightarrow> \<exists>s r sg. highest_lifecycle_request cs = Some (s, r, sg)"
  by (cases "highest_lifecycle_request cs") (auto simp: highest_lifecycle_request_def)

lemma recovering_top: "4 \<le> request_priority s \<longleftrightarrow> s = LC_RECOVERING"
  by (cases s) simp_all

lemma batch_death_request:
  assumes "sg \<in> set signals" and "sg_kind sg = DEATH_DETECTED"
  shows "mr_requested_lifecycle (fst (reduce show_other signals lifecycle goal m)) = Some LC_RECOVERING"
proof -
  let ?cs = "concat (map (lifecycle_requests show_other lifecycle) signals)"
  obtain r where r: "(LC_RECOVERING, r, sg) \<in> set ?cs"
    using assms by (force simp: lifecycle_requests_def Let_def)
  then obtain s r' sg' where h: "highest_lifecycle_request ?cs = Some (s, r', sg')"
    using request_some [of ?cs] by fastforce
  with request_max [OF h] r have "4 \<le> request_priority s" by force
  with h show ?thesis by (simp add: reduce_requested recovering_top)
qed

section \<open>Properties\<close>

text \<open>
  A batch of signals is reduced to the worst stance any of them calls for: the new
  stance is one of the candidates and none is more severe; with no candidate the stance of
  an emergency lapses to normal and any other is kept.
\<close>

lemma reduction_takes_worst_stance:
  "(\<forall>(s, r)\<in>set (batch_situations show_other signals).
      severity s \<le> severity (mo_situational (snd (reduce show_other signals lifecycle goal m)))) \<and>
   (batch_situations show_other signals \<noteq> [] \<longrightarrow>
      mo_situational (snd (reduce show_other signals lifecycle goal m)) \<in>
        fst ` set (batch_situations show_other signals)) \<and>
   (batch_situations show_other signals = [] \<longrightarrow>
      mo_situational (snd (reduce show_other signals lifecycle goal m)) =
        (if mo_situational m \<in> {SIT_DEATH, SIT_ENGAGE, SIT_SURVIVAL} then SIT_NORMAL
         else mo_situational m))"
proof -
  let ?cs = "batch_situations show_other signals"
  have "fst (highest_situational ?cs (mo_situational m)) \<in> fst ` set ?cs" if "?cs \<noteq> []"
  proof -
    have "(fst (hd ?cs), snd (hd ?cs)) \<in> set ?cs" using that by simp
    then show ?thesis using highest_situational_max by blast
  qed
  then show ?thesis
    unfolding reduce_situational
    using highest_situational_max [of _ _ ?cs "mo_situational m"] by (auto simp: highest_situational_none)
qed

theorem reduction_takes_worst_stance_witness:
  "severity SIT_ENGAGE \<le> severity (mo_situational (snd (reduce (\<lambda>_. [])
     [reason_signal HOSTILE_NEARBY ''zombie'' [], reason_signal MOBILITY_BLOCKED ''stuck'' []]
     LC_ACTIVE None (mode_init ''autonomous.user_request''))))"
proof -
  let ?sgs = "[reason_signal HOSTILE_NEARBY ''zombie'' [], reason_signal MOBILITY_BLOCKED ''stuck'' []]"
  have "(SIT_ENGAGE, ''zombie'') \<in> set (batch_situations (\<lambda>_. []) ?sgs)"
    by (simp add: batch_situations_def situational_candidates_def reason_signal_def fact_or_def dget_def Let_def)
  with reduction_takes_worst_stance [of "\<lambda>_. []" ?sgs LC_ACTIVE None "mode_init ''autonomous.user_request''"]
  show ?thesis by blast
qed

text \<open>
  A dead body is never talked over: when the body state is missing or has no health
  left, its signals, in any batch with any others and from any stance, put the runtime in
  the death stance, request recovery and classify the turn as recovery (or as a task
  boundary, when that is what the turn is for).
\<close>

lemma dead_body_forces_recovery:
  assumes "bs_missing st \<or> bs_health st \<le> 0"
    and "set (signalize_body_state st) \<subseteq> set signals"
    and "red = reduce show_other signals lifecycle goal m"
  shows "mo_situational (snd red) = SIT_DEATH \<and>
         mr_requested_lifecycle (fst red) = Some LC_RECOVERING \<and>
         classify_turn kind lc (Some (fst red)) epoch durable \<in> {CTX_RECOVERY, CTX_BOUNDARY}"
proof -
  from assms(1) obtain sg where "signalize_body_state st = [sg]" "sg_kind sg = DEATH_DETECTED"
    by (auto simp: signalize_body_state_def reason_signal_def)
  with assms(2) have sg: "sg \<in> set signals" "sg_kind sg = DEATH_DETECTED" by auto
  have "rp_situational (mr_profile (fst red)) = SIT_DEATH"
    unfolding assms(3) reduce_profile by (rule batch_death_situational [OF sg])
  with batch_death_situational [OF sg] batch_death_request [OF sg] show ?thesis
    unfolding assms(3) by (simp add: classify_turn_def Let_def)
qed

theorem dead_body_forces_recovery_witness:
  "mr_requested_lifecycle (fst (reduce (\<lambda>_. [])
     (reason_signal USER_INTERRUPT ''stop'' [] # signalize_body_state (demo_state\<lparr>bs_health := 0\<rparr>))
     LC_ACTIVE None (mode_init ''autonomous.user_request''))) = Some LC_RECOVERING"
  using dead_body_forces_recovery [of "demo_state\<lparr>bs_health := 0\<rparr>"
      "reason_signal USER_INTERRUPT ''stop'' [] # signalize_body_state (demo_state\<lparr>bs_health := 0\<rparr>)", OF _ _ refl]
  by (simp add: subset_insertI)

text \<open>
  Requests are disciplined: a reduction asks for RESUMING only out of RECOVERING and
  only when no signal of the batch stops the work, asks for RECOVERING only on a death, and
  never asks for another state than those and YIELDED.
\<close>

lemma lifecycle_requests_disciplined:
  assumes "mr_requested_lifecycle (fst (reduce show_other signals lifecycle goal m)) = Some s"
  shows "s = LC_RESUMING \<and> lifecycle = LC_RECOVERING \<and>
           (\<forall>sg\<in>set signals. sg_kind sg \<notin> {PROGRESS_ABORT, USER_INTERRUPT, DEATH_DETECTED}) \<or>
         s = LC_RECOVERING \<and> (\<exists>sg\<in>set signals. sg_kind sg = DEATH_DETECTED) \<or>
         s = LC_YIELDED \<and> (\<exists>sg\<in>set signals. sg_kind sg \<in> {PROGRESS_ABORT, USER_INTERRUPT}) \<and>
           (\<forall>sg\<in>set signals. sg_kind sg \<noteq> DEATH_DETECTED)"
proof -
  let ?cs = "concat (map (lifecycle_requests show_other lifecycle) signals)"
  obtain r sg where h: "highest_lifecycle_request ?cs = Some (s, r, sg)"
    using assms by (auto simp: reduce_requested)
  note mx = request_max [OF h]
  have stop: "3 \<le> request_priority s" if xs: "x \<in> set signals" and kd: "sg_kind x \<in> {PROGRESS_ABORT, USER_INTERRUPT}" for x
  proof -
    obtain r' where "(LC_YIELDED, r', x) \<in> set (lifecycle_requests show_other lifecycle x)"
      using kd by (auto simp: lifecycle_requests_def Let_def)
    with xs have "(LC_YIELDED, r', x) \<in> set ?cs" by auto
    with mx show ?thesis by force
  qed
  have death: "4 \<le> request_priority s" if xs: "x \<in> set signals" and kd: "sg_kind x = DEATH_DETECTED" for x
  proof -
    obtain r' where "(LC_RECOVERING, r', x) \<in> set (lifecycle_requests show_other lifecycle x)"
      using kd by (auto simp: lifecycle_requests_def Let_def)
    with xs have "(LC_RECOVERING, r', x) \<in> set ?cs" by auto
    with mx show ?thesis by force
  qed
  from mx obtain x where x: "x \<in> set signals" "(s, r, sg) \<in> set (lifecycle_requests show_other lifecycle x)"
    by auto
  from lifecycle_request_states [OF x(2)] consider
      "s = LC_YIELDED" "sg_kind x \<in> {PROGRESS_ABORT, USER_INTERRUPT}"
    | "s = LC_RECOVERING" "sg_kind x = DEATH_DETECTED"
    | "s = LC_RESUMING" "lifecycle = LC_RECOVERING" by blast
  then show ?thesis
  proof cases
    case 1
    with death x(1) show ?thesis by fastforce
  next
    case 2
    with x(1) show ?thesis by blast
  next
    case 3
    with stop death show ?thesis by fastforce
  qed
qed

theorem lifecycle_requests_disciplined_witness:
  "\<exists>sg\<in>{reason_signal USER_INTERRUPT ''stop'' [], reason_signal RECOVERY_COMPLETED ''ok'' []}.
     sg_kind sg \<in> {PROGRESS_ABORT, USER_INTERRUPT}"
proof -
  let ?sgs = "[reason_signal RECOVERY_COMPLETED ''ok'' [], reason_signal USER_INTERRUPT ''stop'' []]"
  have "mr_requested_lifecycle (fst (reduce (\<lambda>_. []) ?sgs LC_RECOVERING None (mode_init ''r''))) = Some LC_YIELDED"
    by (simp add: reduce_requested lifecycle_requests_def reason_signal_def Let_def
        highest_lifecycle_request_def max_with_def)
  from lifecycle_requests_disciplined [OF this] show ?thesis by auto
qed

text \<open>
  Routing fails closed and never invents: a context missing from the policy gets the
  primary route, and under the default policy every context does.
\<close>

lemma routing_fails_closed:
  "resolve_route policy ctx =
     (if ctx \<in> fst ` set policy then the (map_of policy ctx) else DEFAULT_ROUTE) \<and>
   resolve_route DEFAULT_ROUTING_POLICY ctx = DEFAULT_ROUTE \<and> rs_model DEFAULT_ROUTE = ''primary''"
proof -
  have "map_of policy ctx = None \<longleftrightarrow> ctx \<notin> fst ` set policy" by (rule map_of_eq_None_iff)
  then show ?thesis
    by (cases ctx) (auto simp: resolve_route_def DEFAULT_ROUTING_POLICY_def DEFAULT_ROUTE_def split: option.splits)
qed

end
