(* ===== verification/Work_Intents.thy ===== *)
theory Work_Intents
  imports Messages
begin

text \<open>
  The work-intent ledger's records (\<open>minebot/app/work_queue.py\<close>: kinds, states, priorities,
  what a control intent supersedes) and the recovery accounting kept inside their payloads
  (\<open>minebot/app/recovery_admission.py\<close>).
\<close>

section \<open>Kinds, states and priorities\<close>

datatype work_intent_kind =
    WK_START | WK_PAUSE | WK_CONTINUE | WK_CANCEL | WK_REPLACE_GOAL | WK_MESSAGE | WK_QUIT
  | WK_BODY_EVENT | WK_REFLEX_FACT | WK_RECOVERY_RECONCILE | WK_COMPLETION_REVIEW
  | WK_TASK_BOUNDARY | WK_TASK_CONTINUE | WK_MAINTENANCE

datatype work_intent_state = WS_QUEUED | WS_LEASED | WS_COMPLETED | WS_SUPERSEDED | WS_FAILED

definition all_kinds :: "work_intent_kind list" where
  "all_kinds = [WK_START, WK_PAUSE, WK_CONTINUE, WK_CANCEL, WK_REPLACE_GOAL, WK_MESSAGE, WK_QUIT,
     WK_BODY_EVENT, WK_REFLEX_FACT, WK_RECOVERY_RECONCILE, WK_COMPLETION_REVIEW,
     WK_TASK_BOUNDARY, WK_TASK_CONTINUE, WK_MAINTENANCE]"

fun intent_priority :: "work_intent_kind \<Rightarrow> nat" where
  "intent_priority WK_QUIT = 100"
| "intent_priority WK_CANCEL = 95"
| "intent_priority WK_REPLACE_GOAL = 90"
| "intent_priority WK_PAUSE = 85"
| "intent_priority WK_RECOVERY_RECONCILE = 80"
| "intent_priority WK_COMPLETION_REVIEW = 80"
| "intent_priority WK_BODY_EVENT = 77"
| "intent_priority WK_MESSAGE = 76"
| "intent_priority WK_REFLEX_FACT = 75"
| "intent_priority WK_CONTINUE = 70"
| "intent_priority WK_START = 65"
| "intent_priority WK_TASK_BOUNDARY = 55"
| "intent_priority WK_TASK_CONTINUE = 50"
| "intent_priority WK_MAINTENANCE = 10"

definition CONTROL_INTENT_KINDS :: "work_intent_kind set" where
  "CONTROL_INTENT_KINDS = {WK_PAUSE, WK_CANCEL, WK_REPLACE_GOAL, WK_QUIT}"

definition superseded_kinds_for :: "work_intent_kind \<Rightarrow> work_intent_kind set" where
  "superseded_kinds_for kind =
     (if kind \<notin> CONTROL_INTENT_KINDS then {}
      else set (filter (\<lambda>c. c \<noteq> kind \<and> intent_priority c < intent_priority kind) all_kinds))"

record work_intent =
  wi_intent_id :: string
  wi_revision :: nat
  wi_kind :: work_intent_kind
  wi_source :: string
  wi_priority :: nat
  wi_payload :: json_object
  wi_state :: work_intent_state
  wi_dedupe_key :: "string option"
  wi_task_id :: "string option"
  wi_generation :: "int option"
  wi_attempt_count :: nat

section \<open>Recovery admissions\<close>

text \<open>\<open>RuntimeStateConflict\<close> with its message, or the \<open>ValueError\<close> of a bad limit.\<close>

datatype recovery_error =
    BadLimit | BadAdmission | UnboundAdmission | ReplayedInvocation | LegacyAttempt
  | DuplicateSequence | NotStartup | WrongTask | AmbiguousOwner | LiveInvocation | LostLease

record admission =
  ra_episode_id :: string
  ra_sequence :: int
  ra_attempt :: int
  ra_limit :: int
  ra_confirmed :: bool

fun positive_int :: "json \<Rightarrow> int option" where
  "positive_int (JInt i) = (if i < 1 then None else Some i)"
| "positive_int _ = None"

definition validated_admission :: "json \<Rightarrow> recovery_error + admission" where
  "validated_admission v =
     (case v of
        JDict d \<Rightarrow>
          (case (positive_int (dget d ''sequence''), positive_int (dget d ''attempt''),
                 positive_int (dget d ''limit'')) of
             (Some sq, Some att, Some lm) \<Rightarrow>
               (case (dget d ''episode_id'', dget d ''confirmed'') of
                  (JStr ep, JBool cf) \<Rightarrow>
                    if ep = [] \<or> att > lm then Inl BadAdmission
                    else Inr \<lparr>ra_episode_id = ep, ra_sequence = sq, ra_attempt = att, ra_limit = lm,
                              ra_confirmed = cf\<rparr>
                | _ \<Rightarrow> Inl BadAdmission)
           | _ \<Rightarrow> Inl BadAdmission)
      | _ \<Rightarrow> Inl BadAdmission)"

definition admission_payload :: "admission \<Rightarrow> json" where
  "admission_payload a = JDict
     [(''episode_id'', JStr (ra_episode_id a)), (''sequence'', JInt (ra_sequence a)),
      (''attempt'', JInt (ra_attempt a)), (''limit'', JInt (ra_limit a)),
      (''confirmed'', JBool (ra_confirmed a))]"

definition has_key :: "json_object \<Rightarrow> string \<Rightarrow> bool" where
  "has_key d k \<longleftrightarrow> map_of d k \<noteq> None"

definition terminal_states :: "work_intent_state set" where
  "terminal_states = {WS_COMPLETED, WS_FAILED, WS_SUPERSEDED}"

definition legacy_attempt :: "work_intent \<Rightarrow> bool" where
  "legacy_attempt r \<longleftrightarrow>
     dget (wi_payload r) ''recovery_admission_denied'' \<noteq> JBool True \<and>
     wi_source r = ''lifecycle_recovery'' \<and>
     (wi_state r \<in> terminal_states \<or> wi_state r = WS_QUEUED \<and> wi_attempt_count r > 0)"

text \<open>The scan of the ledger: the earlier admissions of the same owner.\<close>

fun previous_admissions ::
  "string \<Rightarrow> json \<Rightarrow> work_intent list \<Rightarrow> recovery_error + admission list" where
  "previous_admissions me owner [] = Inr []"
| "previous_admissions me owner (r # rs) =
     (if wi_intent_id r = me then previous_admissions me owner rs
      else if \<not> has_key (wi_payload r) ''admission_task_id'' \<or>
              \<not> py_eq (dget (wi_payload r) ''admission_task_id'') owner
      then previous_admissions me owner rs
      else if has_key (wi_payload r) ''recovery_admission'' then
        (case validated_admission (dget (wi_payload r) ''recovery_admission'') of
           Inl e \<Rightarrow> Inl e
         | Inr a \<Rightarrow> map_sum id ((#) a) (previous_admissions me owner rs))
      else if legacy_attempt r then Inl LegacyAttempt
      else previous_admissions me owner rs)"

definition latest_admission :: "admission list \<Rightarrow> admission option" where
  "latest_admission as = max_with (nat \<circ> ra_sequence) as"

definition continue_episode :: "admission option \<Rightarrow> string \<Rightarrow> int \<Rightarrow> admission option" where
  "continue_episode latest intent_id max_attempts =
     (let sequence = (case latest of None \<Rightarrow> 1 | Some a \<Rightarrow> ra_sequence a + 1);
          (episode, limit, attempt) =
            (case latest of
               Some a \<Rightarrow> (if \<not> ra_confirmed a
                           then (ra_episode_id a, min max_attempts (ra_limit a), ra_attempt a + 1)
                           else (intent_id, max_attempts, 1))
             | None \<Rightarrow> (intent_id, max_attempts, 1))
      in if attempt > limit then None
         else Some \<lparr>ra_episode_id = episode, ra_sequence = sequence, ra_attempt = attempt,
                    ra_limit = limit, ra_confirmed = False\<rparr>)"

definition next_recovery_admission ::
  "json_object \<Rightarrow> work_intent list \<Rightarrow> string \<Rightarrow> int \<Rightarrow> recovery_error + admission option" where
  "next_recovery_admission payload history intent_id max_attempts =
     (if max_attempts < 1 then Inl BadLimit
      else if \<not> list_all (has_key payload)
                [''admission_task_id'', ''budget_checkpoint_id'', ''admission_evidence_cursor'']
      then Inl UnboundAdmission
      else if has_key payload ''recovery_admission'' then Inl ReplayedInvocation
      else case previous_admissions intent_id (dget payload ''admission_task_id'') history of
        Inl e \<Rightarrow> Inl e
      | Inr previous \<Rightarrow>
          (if \<not> distinct (map ra_sequence previous) then Inl DuplicateSequence
           else Inr (continue_episode (latest_admission previous) intent_id max_attempts)))"

definition confirmed_recovery_payload :: "json_object \<Rightarrow> recovery_error + json_object" where
  "confirmed_recovery_payload payload =
     (case validated_admission (dget payload ''recovery_admission'') of
        Inl e \<Rightarrow> Inl e
      | Inr _ \<Rightarrow>
          (case dget payload ''recovery_admission'' of
             JDict d \<Rightarrow> Inr (AList.update ''recovery_admission''
                              (JDict (AList.update ''confirmed'' (JBool True) d)) payload)
           | _ \<Rightarrow> Inl BadAdmission))"

section \<open>Reconciliation at startup\<close>

definition safe_to_reconcile :: "json_object \<Rightarrow> body_state \<Rightarrow> bool" where
  "safe_to_reconcile payload state \<longleftrightarrow>
     (case dget payload ''state'' of
        JDict observed \<Rightarrow>
          dget observed ''bot'' = JStr (bs_bot state) \<and> bs_complete state \<and> \<not> bs_missing state \<and>
          bs_health state > 0 \<and> bs_body_owner state = None \<and>
          bs_pending_action_count state = Some 0 \<and> bs_hazard_unresolved state = None
      | _ \<Rightarrow> False)"

definition owns_original_task :: "work_intent \<Rightarrow> bool" where
  "owns_original_task current \<longleftrightarrow>
     (case wi_task_id current of
        None \<Rightarrow> False
      | Some t \<Rightarrow>
          t \<noteq> [] \<and>
          (case dget (wi_payload current) ''task'' of
             JDict task \<Rightarrow> dget task ''task_id'' = JStr t
           | _ \<Rightarrow> False) \<and>
          (has_key (wi_payload current) ''admission_task_id'' \<longrightarrow>
             dget (wi_payload current) ''admission_task_id'' = JStr t))"

fun recovery_candidates ::
  "string \<Rightarrow> work_intent list \<Rightarrow> recovery_error + (work_intent \<times> admission) list" where
  "recovery_candidates task [] = Inr []"
| "recovery_candidates task (r # rs) =
     (if dget (wi_payload r) ''admission_task_id'' \<noteq> JStr task then
        (if wi_task_id r = Some task \<and> has_key (wi_payload r) ''recovery_admission''
         then Inl AmbiguousOwner else recovery_candidates task rs)
      else if \<not> has_key (wi_payload r) ''recovery_admission'' then recovery_candidates task rs
      else case validated_admission (dget (wi_payload r) ''recovery_admission'') of
        Inl e \<Rightarrow> Inl e
      | Inr a \<Rightarrow>
          (if wi_state r \<notin> terminal_states then Inl LiveInvocation
           else map_sum id ((#) (r, a)) (recovery_candidates task rs)))"

definition recovery_confirmation :: "work_intent \<Rightarrow> string \<Rightarrow> body_state \<Rightarrow> json" where
  "recovery_confirmation current task state = JDict
     [(''source'', JStr ''startup_body_state''), (''intent_id'', JStr (wi_intent_id current)),
      (''task_id'', JStr task), (''bot'', JStr (bs_bot state)),
      (''health'', JFloat (Fin (bs_health state))), (''complete'', JBool (bs_complete state)),
      (''missing'', JBool (bs_missing state)), (''body_owner'', json_opt (bs_body_owner state)),
      (''pending_action_count'', case bs_pending_action_count state of None \<Rightarrow> JNull | Some n \<Rightarrow> JInt n),
      (''hazard_unresolved'', case bs_hazard_unresolved state of None \<Rightarrow> JNull | Some d \<Rightarrow> JDict d)]"

definition reconciled_recovery_payload ::
  "work_intent \<Rightarrow> work_intent list \<Rightarrow> body_state \<Rightarrow> recovery_error + (string \<times> json_object) option" where
  "reconciled_recovery_payload current history state =
     (if wi_kind current \<noteq> WK_RECOVERY_RECONCILE \<or> wi_source current \<noteq> ''startup_reconcile''
      then Inl NotStartup
      else if \<not> owns_original_task current then Inl WrongTask
      else if has_key (wi_payload current) ''recovery_reconciled_intent_id'' then Inr None
      else if \<not> safe_to_reconcile (wi_payload current) state then Inr None
      else
        (let task = the (wi_task_id current)
         in case recovery_candidates task history of
              Inl e \<Rightarrow> Inl e
            | Inr cs \<Rightarrow>
                (if \<not> distinct (map (ra_sequence \<circ> snd) cs) then Inl DuplicateSequence
                 else case max_with (nat \<circ> ra_sequence \<circ> snd) cs of
                   None \<Rightarrow> Inr None
                 | Some (r, a) \<Rightarrow>
                     (if ra_confirmed a then Inr None
                      else case confirmed_recovery_payload (wi_payload r) of
                        Inl e \<Rightarrow> Inl e
                      | Inr p \<Rightarrow>
                          Inr (Some (wi_intent_id r,
                            AList.update ''recovery_confirmation''
                              (recovery_confirmation current task state) p))))))"

section \<open>Admissions that were validated\<close>

lemma positive_int_Some: "positive_int v = Some i \<longleftrightarrow> v = JInt i \<and> 1 \<le> i"
  by (cases v) auto

lemma validated_admission_bounds:
  "validated_admission v = Inr a \<Longrightarrow> 1 \<le> ra_sequence a \<and> 1 \<le> ra_attempt a \<and> ra_attempt a \<le> ra_limit a"
  unfolding validated_admission_def
  by (auto simp: positive_int_Some split: json.splits option.splits if_splits)

lemma validated_admission_payload:
  "1 \<le> ra_sequence a \<Longrightarrow> 1 \<le> ra_attempt a \<Longrightarrow> ra_attempt a \<le> ra_limit a \<Longrightarrow> ra_episode_id a \<noteq> [] \<Longrightarrow>
     validated_admission (admission_payload a) = Inr a"
  by (simp add: validated_admission_def admission_payload_def dget_def)

lemma previous_admissions_bounds:
  "previous_admissions me owner hist = Inr as \<Longrightarrow> a \<in> set as \<Longrightarrow>
     1 \<le> ra_sequence a \<and> 1 \<le> ra_attempt a \<and> ra_attempt a \<le> ra_limit a"
proof (induction hist arbitrary: as)
  case (Cons r rs)
  show ?case
  proof (cases "previous_admissions me owner rs = Inr as")
    case True
    with Cons.IH Cons.prems(2) show ?thesis by blast
  next
    case False
    with Cons.prems(1) obtain b bs where
      b: "validated_admission (dget (wi_payload r) ''recovery_admission'') = Inr b"
      and bs: "previous_admissions me owner rs = Inr bs" "as = b # bs"
      by (auto simp: map_sum_Inr_iff split: if_splits sum.splits)
    with Cons.IH [OF bs(1)] Cons.prems(2) validated_admission_bounds [OF b] show ?thesis by auto
  qed
qed simp

lemma latest_admission_max:
  "latest_admission as = Some a \<Longrightarrow> \<forall>b\<in>set as. 1 \<le> ra_sequence b \<Longrightarrow>
     a \<in> set as \<and> (\<forall>b\<in>set as. ra_sequence b \<le> ra_sequence a)"
  using max_with_Some [of "nat \<circ> ra_sequence" as a]
  by (force simp: latest_admission_def nat_le_eq_zle)

text \<open>What reconciliation settles is a finished record of the ledger.\<close>

lemma recovery_candidates_terminal:
  "recovery_candidates task hist = Inr cs \<Longrightarrow> (r, a) \<in> set cs \<Longrightarrow> r \<in> set hist \<and> wi_state r \<in> terminal_states"
  by (induction hist arbitrary: cs) (auto simp: map_sum_Inr_iff split: if_splits sum.splits)

lemma reconciled_target_terminal:
  assumes "reconciled_recovery_payload current history state = Inr (Some (target, p))"
  shows "\<exists>r\<in>set history. wi_intent_id r = target \<and> wi_state r \<in> terminal_states"
proof -
  obtain cs r a where cs: "recovery_candidates (the (wi_task_id current)) history = Inr cs"
      and m: "max_with (nat \<circ> ra_sequence \<circ> snd) cs = Some (r, a)" and t: "target = wi_intent_id r"
    using assms
    by (auto simp: reconciled_recovery_payload_def Let_def split: if_splits sum.splits option.splits prod.splits)
  then show ?thesis
    using recovery_candidates_terminal [OF cs] max_with_Some [OF m] by blast
qed

section \<open>Properties\<close>

text \<open>
  Recovery attempts are bounded and ordered: an admission that is granted is within
  its limit and the caller's, comes after every earlier admission of the same owner, and
  either opens a new episode at attempt 1 or continues the unconfirmed one with the next
  attempt and a limit that never grows; an episode at its limit is refused.
\<close>

lemma recovery_admission_bounded:
  assumes "next_recovery_admission payload history intent_id n = Inr (Some a)"
    and "previous_admissions intent_id (dget payload ''admission_task_id'') history = Inr previous"
  shows "1 \<le> ra_attempt a \<and> ra_attempt a \<le> ra_limit a \<and> ra_limit a \<le> n \<and> \<not> ra_confirmed a \<and>
         (\<forall>b\<in>set previous. ra_sequence b < ra_sequence a) \<and>
         (ra_attempt a = 1 \<and> ra_episode_id a = intent_id \<or>
          (\<exists>b\<in>set previous. \<not> ra_confirmed b \<and> ra_episode_id a = ra_episode_id b \<and>
             ra_attempt a = ra_attempt b + 1 \<and> ra_limit a \<le> ra_limit b))"
proof -
  have n: "1 \<le> n" and a: "continue_episode (latest_admission previous) intent_id n = Some a"
    using assms by (auto simp: next_recovery_admission_def split: if_splits)
  have pos: "\<forall>b\<in>set previous. 1 \<le> ra_sequence b \<and> 1 \<le> ra_attempt b"
    using previous_admissions_bounds [OF assms(2)] by blast
  show ?thesis
  proof (cases "latest_admission previous")
    case None
    then have "previous = []" by (simp add: latest_admission_def)
    with a None n show ?thesis by (auto simp: continue_episode_def Let_def split: if_splits)
  next
    case (Some l)
    with latest_admission_max [OF Some] pos
    have l: "l \<in> set previous" "\<forall>b\<in>set previous. ra_sequence b < ra_sequence l + 1" "1 \<le> ra_attempt l" by auto
    show ?thesis
    proof (cases "ra_confirmed l")
      case True
      with a Some n l show ?thesis by (auto simp: continue_episode_def Let_def)
    next
      case False
      with a Some l show ?thesis
        by (auto simp: continue_episode_def Let_def split: if_splits)
    qed
  qed
qed

definition demo_recovery :: "string \<Rightarrow> json_object \<Rightarrow> work_intent" where
  "demo_recovery iid extra = \<lparr>wi_intent_id = iid, wi_revision = 2, wi_kind = WK_CONTINUE,
     wi_source = ''lifecycle_recovery'', wi_priority = 70,
     wi_payload = [(''admission_task_id'', JStr ''t1''), (''budget_checkpoint_id'', JNull),
       (''admission_evidence_cursor'', JInt 0)] @ extra,
     wi_state = WS_COMPLETED, wi_dedupe_key = None, wi_task_id = Some ''t1'',
     wi_generation = None, wi_attempt_count = 1\<rparr>"

definition demo_admission :: admission where
  "demo_admission = \<lparr>ra_episode_id = ''i1'', ra_sequence = 1, ra_attempt = 1, ra_limit = 3, ra_confirmed = False\<rparr>"

theorem recovery_admission_bounded_witness:
  "next_recovery_admission (wi_payload (demo_recovery ''i2'' []))
     [demo_recovery ''i1'' [(''recovery_admission'', admission_payload demo_admission)], demo_recovery ''i2'' []]
     ''i2'' 3 = Inr (Some \<lparr>ra_episode_id = ''i1'', ra_sequence = 2, ra_attempt = 2, ra_limit = 3, ra_confirmed = False\<rparr>)
   \<and> ra_sequence demo_admission < 2"
proof -
  let ?h = "[demo_recovery ''i1'' [(''recovery_admission'', admission_payload demo_admission)], demo_recovery ''i2'' []]"
  have p: "previous_admissions ''i2'' (dget (wi_payload (demo_recovery ''i2'' [])) ''admission_task_id'') ?h = Inr [demo_admission]"
    using validated_admission_payload [of demo_admission]
    by (simp add: demo_recovery_def dget_def has_key_def demo_admission_def)
  have n: "next_recovery_admission (wi_payload (demo_recovery ''i2'' [])) ?h ''i2'' 3 =
      Inr (Some \<lparr>ra_episode_id = ''i1'', ra_sequence = 2, ra_attempt = 2, ra_limit = 3, ra_confirmed = False\<rparr>)"
    unfolding next_recovery_admission_def p
    by (simp add: demo_recovery_def has_key_def latest_admission_def max_with_def demo_admission_def
        continue_episode_def Let_def)
  from recovery_admission_bounded [OF n p] n show ?thesis by (simp add: demo_admission_def)
qed

end
