(* ===== verification/Work_Queue.thy ===== *)
theory Work_Queue
  imports Work_Intents
begin

text \<open>
  \<open>MemoryWorkIntentQueue\<close> of \<open>minebot/app/work_queue.py\<close>: admission, leasing by priority and
  age, finishing under a revision check, superseding, and the recovery operations on a live
  lease. The fresh id of a new intent is an argument. The SQLite queue implements the same
  protocol through SQL and is not modelled.
\<close>

record work_queue =
  wq_records :: "(string, work_intent) pydict"
  wq_order :: "string list"
  wq_available :: bool
  wq_version :: nat

definition queue_init :: work_queue where
  "queue_init = \<lparr>wq_records = [], wq_order = [], wq_available = False, wq_version = 0\<rparr>"

datatype queue_error =
    MissingIntent | RevisionConflict | NotLeased | NegativeCursor | AlreadyBound
  | RecoveryError recovery_error

definition queued :: "work_intent \<Rightarrow> bool" where
  "queued r \<longleftrightarrow> wi_state r = WS_QUEUED"

definition some_queued :: "work_queue \<Rightarrow> bool" where
  "some_queued q \<longleftrightarrow> list_ex (\<lambda>(_, r). queued r) (wq_records q)"

definition refresh_available :: "work_queue \<Rightarrow> work_queue" where
  "refresh_available q = q\<lparr>wq_available := some_queued q\<rparr>"

definition store_record :: "work_intent \<Rightarrow> work_queue \<Rightarrow> work_queue" where
  "store_record r q = q\<lparr>wq_records := AList.update (wi_intent_id r) r (wq_records q)\<rparr>"

definition find_dedupe :: "string \<Rightarrow> work_intent list \<Rightarrow> work_intent option" where
  "find_dedupe key rs = find (\<lambda>r. wi_dedupe_key r = Some key) rs"

definition enqueue ::
  "string \<Rightarrow> work_intent_kind \<Rightarrow> string \<Rightarrow> json_object \<Rightarrow> string option \<Rightarrow> string option \<Rightarrow> int option
   \<Rightarrow> work_queue \<Rightarrow> work_intent \<times> work_queue" where
  "enqueue fresh kind source payload dedupe_key task_id generation q =
     (case (case dedupe_key of None \<Rightarrow> None | Some k \<Rightarrow> find_dedupe k (map snd (wq_records q))) of
        Some r \<Rightarrow> (r, q)
      | None \<Rightarrow>
          (let intent = \<lparr>wi_intent_id = ''intent-'' @ fresh, wi_revision = 1, wi_kind = kind,
                 wi_source = source, wi_priority = intent_priority kind, wi_payload = payload,
                 wi_state = WS_QUEUED, wi_dedupe_key = dedupe_key, wi_task_id = task_id,
                 wi_generation = generation, wi_attempt_count = 0\<rparr>
           in (intent, (store_record intent q)\<lparr>wq_order := wq_order q @ [wi_intent_id intent],
                 wq_version := wq_version q + 1, wq_available := True\<rparr>)))"

definition queued_intents :: "work_intent_kind option \<Rightarrow> work_queue \<Rightarrow> work_intent list" where
  "queued_intents kind q =
     filter (\<lambda>r. queued r \<and> (kind = None \<or> Some (wi_kind r) = kind))
       (somes (map (map_of (wq_records q)) (wq_order q)))"

text \<open>
  \<open>min\<close> with the key \<open>(-priority, position)\<close> over the queued records in order is the first
  one of the greatest priority.
\<close>

definition lease_next :: "work_intent_kind option \<Rightarrow> work_queue \<Rightarrow> work_intent option \<times> work_queue" where
  "lease_next kind q =
     (case max_with wi_priority (queued_intents kind q) of
        None \<Rightarrow> (None, refresh_available q)
      | Some selected \<Rightarrow>
          (let leased = selected\<lparr>wi_revision := wi_revision selected + 1, wi_state := WS_LEASED,
                 wi_attempt_count := wi_attempt_count selected + 1\<rparr>
           in (Some leased, refresh_available (store_record leased q))))"

text \<open>The guard of every operation on a lease: the handle's revision is current and leased.\<close>

definition live_lease :: "work_intent \<Rightarrow> queue_error \<Rightarrow> work_queue \<Rightarrow> queue_error + work_intent" where
  "live_lease intent err q =
     (case map_of (wq_records q) (wi_intent_id intent) of
        None \<Rightarrow> Inl MissingIntent
      | Some current \<Rightarrow>
          (if wi_revision current \<noteq> wi_revision intent \<or> wi_state current \<noteq> WS_LEASED then Inl err
           else Inr current))"

definition finish :: "work_intent \<Rightarrow> work_intent_state \<Rightarrow> work_queue \<Rightarrow> queue_error + (work_intent \<times> work_queue)" where
  "finish intent state q =
     (case live_lease intent RevisionConflict q of
        Inl e \<Rightarrow> Inl e
      | Inr current \<Rightarrow>
          (let finished = current\<lparr>wi_revision := wi_revision current + 1, wi_state := state\<rparr>
           in Inr (finished, refresh_available (store_record finished q))))"

definition complete_intent :: "work_intent \<Rightarrow> work_queue \<Rightarrow> queue_error + (work_intent \<times> work_queue)" where
  "complete_intent intent = finish intent WS_COMPLETED"

definition fail_intent :: "work_intent \<Rightarrow> work_queue \<Rightarrow> queue_error + (work_intent \<times> work_queue)" where
  "fail_intent intent = finish intent WS_FAILED"

definition supersede_active :: "work_intent \<Rightarrow> work_queue \<Rightarrow> queue_error + (work_intent \<times> work_queue)" where
  "supersede_active intent = finish intent WS_SUPERSEDED"

definition superseded :: "work_intent_kind set \<Rightarrow> work_intent \<Rightarrow> bool" where
  "superseded kinds r \<longleftrightarrow> queued r \<and> wi_kind r \<in> kinds"

definition supersede :: "work_intent_kind set \<Rightarrow> work_queue \<Rightarrow> nat \<times> work_queue" where
  "supersede kinds q =
     (let changed = length (filter (\<lambda>(_, r). superseded kinds r) (wq_records q));
          records = map (\<lambda>(k, r).
            if superseded kinds r then (k, r\<lparr>wi_revision := wi_revision r + 1, wi_state := WS_SUPERSEDED\<rparr>)
            else (k, r)) (wq_records q);
          q' = q\<lparr>wq_records := records,
                 wq_version := (if changed \<noteq> 0 then wq_version q + 1 else wq_version q)\<rparr>
      in (changed, refresh_available q'))"

definition pending_count :: "work_queue \<Rightarrow> nat" where
  "pending_count q = length (filter (\<lambda>(_, r). queued r) (wq_records q))"

definition count_for_task :: "work_intent_kind \<Rightarrow> string \<Rightarrow> work_queue \<Rightarrow> nat" where
  "count_for_task kind task_id q =
     length (filter (\<lambda>(_, r). wi_kind r = kind \<and> wi_task_id r = Some task_id) (wq_records q))"

definition get_by_dedupe :: "string \<Rightarrow> work_queue \<Rightarrow> work_intent option" where
  "get_by_dedupe key q = find_dedupe key (somes (map (map_of (wq_records q)) (wq_order q)))"

definition issue_task_continuation ::
  "string \<Rightarrow> string \<Rightarrow> json_object \<Rightarrow> string \<Rightarrow> int \<Rightarrow> work_queue \<Rightarrow> work_intent \<times> work_queue" where
  "issue_task_continuation fresh task_id payload dedupe_key generation q =
     enqueue fresh WK_TASK_CONTINUE ''task_checkpoint_continue'' payload (Some dedupe_key) (Some task_id)
       (Some generation) q"

definition admission_binding :: "string option \<Rightarrow> int \<Rightarrow> string option \<Rightarrow> json_object" where
  "admission_binding checkpoint_id evidence_cursor task_id =
     [(''budget_checkpoint_id'', json_opt checkpoint_id),
      (''admission_evidence_cursor'', JInt evidence_cursor), (''admission_task_id'', json_opt task_id)]"

definition put_all :: "json_object \<Rightarrow> json_object \<Rightarrow> json_object" where
  "put_all new d = foldl (\<lambda>d (k, v). AList.update k v d) d new"

definition bind_admission ::
  "work_intent \<Rightarrow> string option \<Rightarrow> int \<Rightarrow> string option \<Rightarrow> work_queue
   \<Rightarrow> queue_error + (work_intent \<times> work_queue)" where
  "bind_admission intent checkpoint_id evidence_cursor task_id q =
     (case live_lease intent NotLeased q of
        Inl e \<Rightarrow> Inl e
      | Inr current \<Rightarrow>
          (let binding = admission_binding checkpoint_id evidence_cursor task_id
           in if evidence_cursor < 0 then Inl NegativeCursor
              else if list_ex (\<lambda>(k, v). has_key (wi_payload current) k \<and>
                                        \<not> py_eq (dget (wi_payload current) k) v) binding
              then Inl AlreadyBound
              else
                (let bound = current\<lparr>wi_payload := put_all binding (wi_payload current)\<rparr>
                 in Inr (bound, store_record bound q))))"

definition reserve_recovery_attempt ::
  "work_intent \<Rightarrow> int \<Rightarrow> work_queue \<Rightarrow> queue_error + (work_intent option \<times> work_queue)" where
  "reserve_recovery_attempt intent max_attempts q =
     (case live_lease intent (RecoveryError LostLease) q of
        Inl e \<Rightarrow> Inl e
      | Inr current \<Rightarrow>
          (case next_recovery_admission (wi_payload current) (map snd (wq_records q))
                  (wi_intent_id intent) max_attempts of
             Inl e \<Rightarrow> Inl (RecoveryError e)
           | Inr None \<Rightarrow>
               Inr (None, store_record (current\<lparr>wi_payload :=
                 AList.update ''recovery_admission_denied'' (JBool True) (wi_payload current)\<rparr>) q)
           | Inr (Some a) \<Rightarrow>
               (let reserved = current\<lparr>wi_payload :=
                      AList.update ''recovery_admission'' (admission_payload a) (wi_payload current)\<rparr>
                in Inr (Some reserved, store_record reserved q))))"

definition confirm_recovery :: "work_intent \<Rightarrow> work_queue \<Rightarrow> queue_error + (work_intent \<times> work_queue)" where
  "confirm_recovery intent q =
     (case live_lease intent (RecoveryError LostLease) q of
        Inl e \<Rightarrow> Inl e
      | Inr current \<Rightarrow>
          (case confirmed_recovery_payload (wi_payload current) of
             Inl e \<Rightarrow> Inl (RecoveryError e)
           | Inr p \<Rightarrow> (let c = current\<lparr>wi_payload := p\<rparr> in Inr (c, store_record c q))))"

definition reconcile_recovery :: "work_intent \<Rightarrow> body_state \<Rightarrow> work_queue \<Rightarrow> queue_error + work_queue" where
  "reconcile_recovery intent state q =
     (case live_lease intent (RecoveryError LostLease) q of
        Inl e \<Rightarrow> Inl e
      | Inr current \<Rightarrow>
          (case reconciled_recovery_payload current (map snd (wq_records q)) state of
             Inl e \<Rightarrow> Inl (RecoveryError e)
           | Inr settlement \<Rightarrow>
               (let q1 = (case settlement of
                            None \<Rightarrow> q
                          | Some (target, payload) \<Rightarrow>
                              (case map_of (wq_records q) target of
                                 None \<Rightarrow> q
                               | Some r \<Rightarrow> store_record (r\<lparr>wi_payload := payload\<rparr>) q))
                in Inr (if has_key (wi_payload current) ''recovery_reconciled_intent_id'' then q1
                        else store_record (current\<lparr>wi_payload :=
                               AList.update ''recovery_reconciled_intent_id''
                                 (case settlement of None \<Rightarrow> JNull | Some (t, _) \<Rightarrow> JStr t)
                                 (wi_payload current)\<rparr>) q1))))"

lemma find_dedupe_Some: "find_dedupe k rs = Some x \<Longrightarrow> x \<in> set rs \<and> wi_dedupe_key x = Some k"
  unfolding find_dedupe_def by (induction rs) (auto split: if_splits)

lemma find_dedupe_None: "find_dedupe k rs = None \<longleftrightarrow> (\<forall>x\<in>set rs. wi_dedupe_key x \<noteq> Some k)"
  by (auto simp: find_dedupe_def find_None_iff)

section \<open>Well-formed queues\<close>

text \<open>
  The order lists the records' keys, each record is stored under its own id, no two records
  share a dedupe key, and the event is set exactly when something is queued.
\<close>

definition queue_ok :: "work_queue \<Rightarrow> bool" where
  "queue_ok q \<longleftrightarrow>
     map fst (wq_records q) = wq_order q \<and> distinct (wq_order q) \<and>
     (\<forall>(k, r)\<in>set (wq_records q). wi_intent_id r = k) \<and>
     (\<forall>(k, r)\<in>set (wq_records q). \<forall>(k', r')\<in>set (wq_records q).
        wi_dedupe_key r \<noteq> None \<longrightarrow> wi_dedupe_key r = wi_dedupe_key r' \<longrightarrow> k = k') \<and>
     wq_available q = some_queued q"

lemma queue_ok_init: "queue_ok queue_init"
  by (simp add: queue_ok_def queue_init_def some_queued_def)

lemma refresh_fields [simp]:
  "wq_records (refresh_available q) = wq_records q" "wq_order (refresh_available q) = wq_order q"
  "some_queued (refresh_available q) = some_queued q"
  by (simp_all add: refresh_available_def some_queued_def)

lemma records_in_order:
  assumes "queue_ok q"
  shows "somes (map (map_of (wq_records q)) (wq_order q)) = map snd (wq_records q)"
proof -
  have "somes (map (map_of d) (map fst d)) = map snd d" if "distinct (map fst d)" for d :: "(string, work_intent) pydict"
  proof -
    have "map (map_of d) (map fst d) = map (Some \<circ> snd) d"
      using that by (auto intro!: map_cong simp: map_of_eq_Some_iff)
    moreover have "somes (map (Some \<circ> snd) d) = map snd d"
      by (induction d) (simp_all add: somes_def)
    ultimately show ?thesis by (simp only:)
  qed
  then show ?thesis using assms unfolding queue_ok_def by metis
qed

lemma record_lookup:
  assumes "queue_ok q"
  shows "map_of (wq_records q) k = Some r \<longleftrightarrow> (k, r) \<in> set (wq_records q)"
  using assms by (simp add: queue_ok_def)

lemma record_id: "queue_ok q \<Longrightarrow> map_of (wq_records q) k = Some r \<Longrightarrow> wi_intent_id r = k"
  by (auto simp: queue_ok_def dest: map_of_SomeD)

lemma queue_ok_dedupe:
  "queue_ok q \<Longrightarrow> (k, r) \<in> set (wq_records q) \<Longrightarrow> (k', r') \<in> set (wq_records q) \<Longrightarrow>
     wi_dedupe_key r \<noteq> None \<Longrightarrow> wi_dedupe_key r = wi_dedupe_key r' \<Longrightarrow> k = k'"
  unfolding queue_ok_def by blast

lemma refresh_id: "queue_ok q \<Longrightarrow> refresh_available q = q"
  by (simp add: queue_ok_def refresh_available_def)

text \<open>Replacing a record by one with the same id and dedupe key keeps the queue well-formed.\<close>

lemma queue_ok_replace:
  assumes ok: "queue_ok q" and old: "map_of (wq_records q) (wi_intent_id r) = Some old"
    and key: "wi_dedupe_key r = wi_dedupe_key old"
  shows "queue_ok (refresh_available (store_record r q))"
proof -
  let ?d = "wq_records q" and ?k = "wi_intent_id r"
  have dist: "distinct (map fst ?d)" using ok by (simp add: queue_ok_def)
  have kin: "?k \<in> fst ` set ?d" using old by (force dest: map_of_SomeD)
  have set: "set (AList.update ?k r ?d) = insert (?k, r) {p \<in> set ?d. fst p \<noteq> ?k}"
    by (rule set_update_distinct [OF dist])
  have oldin: "(?k, old) \<in> set ?d" using old by (rule map_of_SomeD)
  have same: "\<exists>y. (k, y) \<in> set ?d \<and> wi_dedupe_key y = wi_dedupe_key x" if "(k, x) \<in> set (AList.update ?k r ?d)" for k x
    using that oldin key unfolding set by auto
  have "k = k'"
    if x: "(k, x) \<in> set (AList.update ?k r ?d)" and x': "(k', x') \<in> set (AList.update ?k r ?d)"
      and kx: "wi_dedupe_key x \<noteq> None" "wi_dedupe_key x = wi_dedupe_key x'" for k x k' x'
  proof -
    obtain y y' where "(k, y) \<in> set ?d" "wi_dedupe_key y = wi_dedupe_key x"
        "(k', y') \<in> set ?d" "wi_dedupe_key y' = wi_dedupe_key x'"
      using same [OF x] same [OF x'] by blast
    with kx show ?thesis by (intro queue_ok_dedupe [OF ok, of k y k' y']) simp_all
  qed
  then have "\<forall>(k, x)\<in>set (AList.update ?k r ?d). \<forall>(k', x')\<in>set (AList.update ?k r ?d).
      wi_dedupe_key x \<noteq> None \<longrightarrow> wi_dedupe_key x = wi_dedupe_key x' \<longrightarrow> k = k'"
    by blast
  moreover have "\<forall>(k, x)\<in>set (AList.update ?k r ?d). wi_intent_id x = k"
    using ok unfolding set queue_ok_def by auto
  moreover have "map fst (AList.update ?k r ?d) = map fst ?d" by (rule keys_update_present [OF kin])
  ultimately show ?thesis
    using ok by (simp add: queue_ok_def refresh_available_def store_record_def some_queued_def)
qed

text \<open>The operations that do not refresh the event change no record's state.\<close>

lemma some_queued_lookup: "queue_ok q \<Longrightarrow> some_queued q \<longleftrightarrow> (\<exists>k r. map_of (wq_records q) k = Some r \<and> queued r)"
  by (auto simp: some_queued_def list_ex_iff record_lookup)

lemma refresh_noop:
  assumes ok: "queue_ok q" and old: "map_of (wq_records q) (wi_intent_id r) = Some old"
    and key: "wi_dedupe_key r = wi_dedupe_key old" and st: "wi_state r = wi_state old"
  shows "refresh_available (store_record r q) = store_record r q"
proof -
  have ok': "queue_ok (refresh_available (store_record r q))" by (rule queue_ok_replace [OF ok old key])
  have "some_queued (store_record r q) \<longleftrightarrow>
      (\<exists>k x. map_of (AList.update (wi_intent_id r) r (wq_records q)) k = Some x \<and> queued x)"
    using some_queued_lookup [OF ok'] by (simp add: store_record_def)
  also have "\<dots> \<longleftrightarrow> (\<exists>k x. map_of (wq_records q) k = Some x \<and> queued x)"
    using old st unfolding map_of_update queued_def by (metis fun_upd_other fun_upd_same option.inject)
  also have "\<dots> \<longleftrightarrow> some_queued q" by (rule some_queued_lookup [OF ok, symmetric])
  finally have "some_queued (store_record r q) = wq_available q" using ok by (simp add: queue_ok_def)
  then show ?thesis by (simp add: refresh_available_def store_record_def)
qed

section \<open>How a record evolves\<close>

text \<open>
  Identity, kind, priority and dedupe key never change; a record that left the queued state
  never returns to it, and a finished one keeps its state and revision.
\<close>

definition evolves :: "work_intent \<Rightarrow> work_intent \<Rightarrow> bool" where
  "evolves r r' \<longleftrightarrow>
     wi_intent_id r' = wi_intent_id r \<and> wi_kind r' = wi_kind r \<and> wi_priority r' = wi_priority r \<and>
     wi_dedupe_key r' = wi_dedupe_key r \<and> wi_revision r \<le> wi_revision r' \<and>
     (\<not> queued r \<longrightarrow> \<not> queued r') \<and>
     (wi_state r \<in> terminal_states \<longrightarrow> wi_state r' = wi_state r \<and> wi_revision r' = wi_revision r)"

lemma evolves_refl [simp]: "evolves r r"
  by (simp add: evolves_def)

lemma evolves_trans: "evolves a b \<Longrightarrow> evolves b c \<Longrightarrow> evolves a c"
  by (auto simp: evolves_def)

definition queue_evolves :: "work_queue \<Rightarrow> work_queue \<Rightarrow> bool" where
  "queue_evolves q q' \<longleftrightarrow>
     (\<forall>k r. map_of (wq_records q) k = Some r \<longrightarrow>
        (\<exists>r'. map_of (wq_records q') k = Some r' \<and> evolves r r'))"

lemma queue_evolves_refl [simp]: "queue_evolves q q"
  by (simp add: queue_evolves_def)

lemma queue_evolves_trans: "queue_evolves a b \<Longrightarrow> queue_evolves b c \<Longrightarrow> queue_evolves a c"
  unfolding queue_evolves_def using evolves_trans by blast

lemma queue_evolves_store:
  "map_of (wq_records q) (wi_intent_id r) = Some old \<Longrightarrow> evolves old r \<Longrightarrow> queue_evolves q (store_record r q)"
  by (auto simp: queue_evolves_def store_record_def)

lemma queue_evolves_refresh [simp]: "queue_evolves q (refresh_available q') = queue_evolves q q'"
  by (simp add: queue_evolves_def)

text \<open>A successful update through a live lease is a step of this kind.\<close>

definition leased_update :: "work_intent \<Rightarrow> work_intent \<Rightarrow> work_queue \<Rightarrow> bool" where
  "leased_update current r q \<longleftrightarrow>
     map_of (wq_records q) (wi_intent_id r) = Some current \<and> evolves current r \<and>
     wi_dedupe_key r = wi_dedupe_key current"

lemma live_lease_Inr:
  assumes "queue_ok q" and "live_lease intent err q = Inr current"
  shows "map_of (wq_records q) (wi_intent_id current) = Some current \<and>
         wi_intent_id current = wi_intent_id intent \<and> wi_state current = WS_LEASED \<and>
         wi_revision current = wi_revision intent"
  using assms record_id [OF assms(1)]
  by (auto simp: live_lease_def split: option.splits if_splits)

lemma payload_evolves [simp]: "evolves r (r\<lparr>wi_payload := p\<rparr>)"
  by (simp add: evolves_def queued_def)

lemma payload_update:
  assumes "queue_ok q" and "map_of (wq_records q) (wi_intent_id r) = Some r"
  shows "queue_ok (store_record (r\<lparr>wi_payload := p\<rparr>) q) \<and>
         queue_evolves q (store_record (r\<lparr>wi_payload := p\<rparr>) q)"
proof -
  let ?r = "r\<lparr>wi_payload := p\<rparr>"
  have old: "map_of (wq_records q) (wi_intent_id ?r) = Some r" using assms(2) by simp
  have "queue_ok (refresh_available (store_record ?r q))"
    by (rule queue_ok_replace [OF assms(1) old]) simp
  moreover have "refresh_available (store_record ?r q) = store_record ?r q"
    by (rule refresh_noop [OF assms(1) old]) simp_all
  ultimately show ?thesis using queue_evolves_store [OF old] by simp
qed

lemma finish_step:
  assumes "queue_ok q" and "finish intent st q = Inr (f, q')" and "st \<in> terminal_states"
  shows "queue_ok q' \<and> queue_evolves q q' \<and> wi_intent_id f = wi_intent_id intent \<and>
         map_of (wq_records q') (wi_intent_id intent) = Some f \<and> wi_state f = st"
proof -
  obtain c where c: "live_lease intent RevisionConflict q = Inr c"
      and f: "f = c\<lparr>wi_revision := wi_revision c + 1, wi_state := st\<rparr>"
      and q': "q' = refresh_available (store_record f q)"
    using assms(2) by (auto simp: finish_def Let_def split: sum.splits)
  from live_lease_Inr [OF assms(1) c] have live: "map_of (wq_records q) (wi_intent_id c) = Some c"
    "wi_intent_id c = wi_intent_id intent" "wi_state c = WS_LEASED" by blast+
  have old: "map_of (wq_records q) (wi_intent_id f) = Some c" using live(1) by (simp add: f)
  have "evolves c f" using live(3) assms(3) by (auto simp: f evolves_def queued_def terminal_states_def)
  then have "queue_evolves q q'" unfolding q' using queue_evolves_store [OF old] by simp
  moreover have "queue_ok q'" unfolding q' by (rule queue_ok_replace [OF assms(1) old]) (simp add: f)
  ultimately show ?thesis using live by (simp add: f q' store_record_def)
qed

lemma queued_intents_set:
  assumes "queue_ok q"
  shows "queued_intents kind q =
    filter (\<lambda>r. queued r \<and> (kind = None \<or> Some (wi_kind r) = kind)) (map snd (wq_records q))"
  by (simp add: queued_intents_def records_in_order [OF assms])

lemma queued_intent_lookup:
  "queue_ok q \<Longrightarrow> r \<in> set (queued_intents kind q) \<Longrightarrow>
     map_of (wq_records q) (wi_intent_id r) = Some r \<and> queued r"
  using record_id by (fastforce simp: queued_intents_set record_lookup)

lemma lease_step:
  assumes "queue_ok q" and "lease_next kind q = (x, q')"
  shows "queue_ok q' \<and> queue_evolves q q' \<and>
    (\<forall>r. x = Some r \<longrightarrow> map_of (wq_records q') (wi_intent_id r) = Some r \<and> wi_state r = WS_LEASED \<and>
       (\<exists>s. map_of (wq_records q) (wi_intent_id r) = Some s \<and> queued s))"
proof (cases "max_with wi_priority (queued_intents kind q)")
  case None
  with assms show ?thesis by (auto simp: lease_next_def refresh_id)
next
  case (Some s)
  let ?r = "s\<lparr>wi_revision := wi_revision s + 1, wi_state := WS_LEASED, wi_attempt_count := wi_attempt_count s + 1\<rparr>"
  from Some assms(2) have x: "x = Some ?r" and q': "q' = refresh_available (store_record ?r q)"
    by (auto simp: lease_next_def Let_def)
  have s: "map_of (wq_records q) (wi_intent_id s) = Some s" "queued s"
    using queued_intent_lookup [OF assms(1)] max_with_Some [OF Some] by blast+
  then have old: "map_of (wq_records q) (wi_intent_id ?r) = Some s" by simp
  have "evolves s ?r" using s(2) by (auto simp: evolves_def queued_def terminal_states_def)
  then have "queue_evolves q q'" unfolding q' using queue_evolves_store [OF old] by simp
  moreover have "queue_ok q'" unfolding q' by (rule queue_ok_replace [OF assms(1) old]) simp
  ultimately show ?thesis using s by (simp add: x q' store_record_def)
qed

definition superseded_record :: "work_intent_kind set \<Rightarrow> work_intent \<Rightarrow> work_intent" where
  "superseded_record kinds r =
     (if superseded kinds r then r\<lparr>wi_revision := wi_revision r + 1, wi_state := WS_SUPERSEDED\<rparr> else r)"

lemma supersede_records:
  "wq_records (snd (supersede kinds q)) = map (\<lambda>(k, r). (k, superseded_record kinds r)) (wq_records q)"
  "wq_order (snd (supersede kinds q)) = wq_order q"
  by (auto simp: supersede_def Let_def superseded_record_def intro!: map_cong)

lemma superseded_record_fields [simp]:
  "wi_intent_id (superseded_record kinds r) = wi_intent_id r"
  "wi_dedupe_key (superseded_record kinds r) = wi_dedupe_key r"
  "evolves r (superseded_record kinds r)"
  by (simp_all add: superseded_record_def evolves_def superseded_def queued_def terminal_states_def)

lemma map_of_map_values: "map_of (map (\<lambda>(k, r). (k, f r)) d) k = map_option f (map_of d k)"
  by (induction d) auto

lemma supersede_step:
  assumes "queue_ok q"
  shows "queue_ok (snd (supersede kinds q)) \<and> queue_evolves q (snd (supersede kinds q))"
proof
  let ?q = "snd (supersede kinds q)"
  show "queue_evolves q ?q"
    by (simp add: queue_evolves_def supersede_records map_of_map_values)
  have keys: "map fst (wq_records ?q) = map fst (wq_records q)"
    by (simp add: supersede_records case_prod_beta comp_def)
  have "k = k'" if "(k, r) \<in> set (wq_records ?q)" "(k', r') \<in> set (wq_records ?q)"
      "wi_dedupe_key r \<noteq> None" "wi_dedupe_key r = wi_dedupe_key r'" for k r k' r'
    using that queue_ok_dedupe [OF assms, of k _ k'] by (auto simp: supersede_records)
  then have dd: "\<forall>(k, r)\<in>set (wq_records ?q). \<forall>(k', r')\<in>set (wq_records ?q).
      wi_dedupe_key r \<noteq> None \<longrightarrow> wi_dedupe_key r = wi_dedupe_key r' \<longrightarrow> k = k'"
    by blast
  show "queue_ok ?q"
    unfolding queue_ok_def
  proof (intro conjI dd)
    show "map fst (wq_records ?q) = wq_order ?q" "distinct (wq_order ?q)"
      using assms keys supersede_records(2) [of kinds q] by (simp_all add: queue_ok_def)
    show "\<forall>(k, r)\<in>set (wq_records ?q). wi_intent_id r = k"
      using assms by (auto simp: supersede_records queue_ok_def)
    show "wq_available ?q = some_queued ?q"
      by (simp add: supersede_def Let_def refresh_available_def some_queued_def)
  qed
qed

section \<open>Runs\<close>

text \<open>A new intent's id is fresh, as a random one is; everything else is unrestricted.\<close>

inductive queue_step :: "work_queue \<Rightarrow> work_queue \<Rightarrow> bool" where
  enqueued: "''intent-'' @ fresh \<notin> set (wq_order q) \<Longrightarrow>
     queue_step q (snd (enqueue fresh kind source payload dk task gen q))"
| leased: "queue_step q (snd (lease_next kind q))"
| finished: "st \<in> terminal_states \<Longrightarrow> finish intent st q = Inr (f, q') \<Longrightarrow> queue_step q q'"
| superseded: "queue_step q (snd (supersede kinds q))"
| bound: "bind_admission intent cp cursor task q = Inr (b, q') \<Longrightarrow> queue_step q q'"
| reserved: "reserve_recovery_attempt intent n q = Inr (r, q') \<Longrightarrow> queue_step q q'"
| confirmed: "confirm_recovery intent q = Inr (c, q') \<Longrightarrow> queue_step q q'"
| reconciled: "reconcile_recovery intent state q = Inr q' \<Longrightarrow> queue_step q q'"

inductive queue_reach :: "work_queue \<Rightarrow> work_queue \<Rightarrow> bool" where
  here: "queue_reach q q"
| further: "queue_reach q q1 \<Longrightarrow> queue_step q1 q2 \<Longrightarrow> queue_reach q q2"

lemma enqueue_step:
  assumes ok: "queue_ok q" and fresh: "''intent-'' @ fresh \<notin> set (wq_order q)"
  shows "queue_ok (snd (enqueue fresh kind source payload dk task gen q)) \<and>
         queue_evolves q (snd (enqueue fresh kind source payload dk task gen q))"
proof (cases "case dk of None \<Rightarrow> None | Some k \<Rightarrow> find_dedupe k (map snd (wq_records q))")
  case (Some r)
  then show ?thesis using ok by (simp add: enqueue_def)
next
  case None
  let ?q = "snd (enqueue fresh kind source payload dk task gen q)"
  let ?id = "''intent-'' @ fresh"
  define r where "r = fst (enqueue fresh kind source payload dk task gen q)"
  have r: "wi_intent_id r = ?id" "wi_dedupe_key r = dk" "queued r"
    using None by (simp_all add: r_def enqueue_def Let_def queued_def)
  have nk: "?id \<notin> fst ` set (wq_records q)"
    using ok fresh unfolding queue_ok_def by (metis set_map)
  have recs: "wq_records ?q = wq_records q @ [(?id, r)]"
    using None keys_update_fresh [OF nk, of r] by (simp add: enqueue_def Let_def store_record_def r_def)
  have ord: "wq_order ?q = wq_order q @ [?id]" and av: "wq_available ?q"
    using None by (simp_all add: enqueue_def Let_def store_record_def)
  have nodup: "wi_dedupe_key x \<noteq> dk" if "(k, x) \<in> set (wq_records q)" "dk \<noteq> None" for k x
  proof -
    from that(2) None obtain d where "dk = Some d" "find_dedupe d (map snd (wq_records q)) = None"
      by (cases dk) auto
    with that(1) show ?thesis by (force simp: find_dedupe_def find_None_iff)
  qed
  have "k = k'" if "(k, x) \<in> set (wq_records ?q)" "(k', x') \<in> set (wq_records ?q)"
      "wi_dedupe_key x \<noteq> None" "wi_dedupe_key x = wi_dedupe_key x'" for k x k' x'
    using that queue_ok_dedupe [OF ok, of k x k' x'] nodup [of k x] nodup [of k' x'] r(2)
    unfolding recs by auto
  then have dd: "\<forall>(k, x)\<in>set (wq_records ?q). \<forall>(k', x')\<in>set (wq_records ?q).
      wi_dedupe_key x \<noteq> None \<longrightarrow> wi_dedupe_key x = wi_dedupe_key x' \<longrightarrow> k = k'"
    by blast
  have "queue_ok ?q"
    unfolding queue_ok_def
  proof (intro conjI dd)
    show "map fst (wq_records ?q) = wq_order ?q" "distinct (wq_order ?q)"
      using ok fresh recs ord by (simp_all add: queue_ok_def)
    show "\<forall>(k, r)\<in>set (wq_records ?q). wi_intent_id r = k"
      using ok r(1) unfolding recs by (auto simp: queue_ok_def)
    show "wq_available ?q = some_queued ?q"
      using av r(3) unfolding some_queued_def recs by simp
  qed
  moreover have "queue_evolves q ?q"
    unfolding queue_evolves_def recs by (auto simp: map_add_def)
  ultimately show ?thesis by simp
qed

lemma store_payload_step:
  assumes "queue_ok q" and "live_lease intent err q = Inr c"
  shows "queue_ok (store_record (c\<lparr>wi_payload := p\<rparr>) q) \<and> queue_evolves q (store_record (c\<lparr>wi_payload := p\<rparr>) q)"
  by (rule payload_update [OF assms(1)]) (use live_lease_Inr [OF assms] in blast)

lemma reconcile_step:
  assumes ok: "queue_ok q" and rec: "reconcile_recovery intent state q = Inr q'"
  shows "queue_ok q' \<and> queue_evolves q q'"
proof -
  obtain c st where c: "live_lease intent (RecoveryError LostLease) q = Inr c"
      and st: "reconciled_recovery_payload c (map snd (wq_records q)) state = Inr st"
    using rec by (auto simp: reconcile_recovery_def Let_def split: sum.splits)
  have live: "map_of (wq_records q) (wi_intent_id c) = Some c" "wi_state c = WS_LEASED"
    using live_lease_Inr [OF ok c] by blast+
  define q1 where "q1 = (case st of None \<Rightarrow> q | Some (target, payload) \<Rightarrow>
      (case map_of (wq_records q) target of None \<Rightarrow> q
       | Some r \<Rightarrow> store_record (r\<lparr>wi_payload := payload\<rparr>) q))"
  have q1: "queue_ok q1 \<and> queue_evolves q q1 \<and> map_of (wq_records q1) (wi_intent_id c) = Some c"
  proof (cases "q1 = q")
    case True
    with ok live show ?thesis by simp
  next
    case False
    then obtain target payload r where t: "st = Some (target, payload)" "map_of (wq_records q) target = Some r"
      "q1 = store_record (r\<lparr>wi_payload := payload\<rparr>) q"
      by (auto simp: q1_def split: option.splits)
    have id: "wi_intent_id r = target" by (rule record_id [OF ok t(2)])
    obtain x where "x \<in> set (map snd (wq_records q))" "wi_intent_id x = target" "wi_state x \<in> terminal_states"
      using reconciled_target_terminal [OF st [unfolded t(1)]] by blast
    then have "map_of (wq_records q) target = Some x"
      using ok record_lookup [OF ok] by (force simp: queue_ok_def)
    with \<open>wi_state x \<in> terminal_states\<close> live have "target \<noteq> wi_intent_id c"
      by (auto simp: terminal_states_def)
    moreover have "map_of (wq_records q) (wi_intent_id r) = Some r" using t(2) id by simp
    ultimately show ?thesis
      using payload_update [OF ok, of r payload] live id unfolding t(3) by (simp add: store_record_def)
  qed
  have "q' = q1 \<or> (\<exists>p. q' = store_record (c\<lparr>wi_payload := p\<rparr>) q1)"
    using rec unfolding reconcile_recovery_def c st sum.case q1_def [symmetric] Let_def
    by (auto split: if_splits)
  then show ?thesis
    using q1 payload_update [of q1 c] queue_evolves_trans by blast
qed

lemma queue_step_ok: "queue_step q q' \<Longrightarrow> queue_ok q \<Longrightarrow> queue_ok q' \<and> queue_evolves q q'"
proof (induction rule: queue_step.induct)
  case (enqueued fresh q kind source payload dk task gen)
  then show ?case using enqueue_step by blast
next
  case (leased q kind)
  then show ?case using lease_step [of q kind] by (metis prod.collapse)
next
  case (finished st intent q f q')
  then show ?case using finish_step by blast
next
  case (superseded q kinds)
  then show ?case by (rule supersede_step)
next
  case (bound intent cp cursor task q b q')
  then show ?case
    by (auto simp: bind_admission_def Let_def split: sum.splits if_splits dest: store_payload_step)
next
  case (reserved intent n q r q')
  then show ?case
    by (auto simp: reserve_recovery_attempt_def Let_def split: sum.splits option.splits dest: store_payload_step)
next
  case (confirmed intent q c q')
  then show ?case
    by (auto simp: confirm_recovery_def Let_def split: sum.splits dest: store_payload_step)
next
  case (reconciled intent state q q')
  then show ?case using reconcile_step by blast
qed

lemma queue_reach_ok: "queue_reach q q' \<Longrightarrow> queue_ok q \<Longrightarrow> queue_ok q' \<and> queue_evolves q q'"
proof (induction rule: queue_reach.induct)
  case (further q q1 q2)
  then show ?case using queue_step_ok queue_evolves_trans by blast
qed simp

section \<open>The lease protocol\<close>

text \<open>
  What a scheduler relies on: a lease is granted while work is pending and takes one
  pending item. Its client drains the queue.
\<close>

locale lease_protocol =
  fixes good :: "'q \<Rightarrow> bool"
    and pending :: "'q \<Rightarrow> nat"
    and lease :: "'q \<Rightarrow> 'i option \<times> 'q"
  assumes lease_good: "good q \<Longrightarrow> good (snd (lease q))"
    and lease_takes: "good q \<Longrightarrow> 0 < pending q \<Longrightarrow>
      \<exists>i. fst (lease q) = Some i \<and> Suc (pending (snd (lease q))) = pending q"
    and lease_idle: "good q \<Longrightarrow> pending q = 0 \<Longrightarrow>
      fst (lease q) = None \<and> pending (snd (lease q)) = 0"
begin

fun drain :: "nat \<Rightarrow> 'q \<Rightarrow> 'i list \<times> 'q" where
  "drain 0 q = ([], q)"
| "drain (Suc n) q =
     (case lease q of
        (None, q') \<Rightarrow> ([], q')
      | (Some i, q') \<Rightarrow> (i # fst (drain n q'), snd (drain n q')))"

lemma drain_empties:
  "good q \<Longrightarrow> pending q \<le> n \<Longrightarrow> length (fst (drain n q)) = pending q \<and> pending (snd (drain n q)) = 0"
proof (induction n arbitrary: q)
  case (Suc n)
  obtain x q' where l: "lease q = (x, q')" by fastforce
  show ?case
  proof (cases "pending q = 0")
    case True
    with lease_idle [OF Suc.prems(1)] l show ?thesis by simp
  next
    case False
    with lease_takes [OF Suc.prems(1)] l obtain i where i: "x = Some i" "Suc (pending q') = pending q" by auto
    moreover have "good q'" using lease_good [OF Suc.prems(1)] l by simp
    ultimately show ?thesis using Suc.IH [of q'] Suc.prems(2) l by simp
  qed
qed simp

end

text \<open>
  A dedupe key, once recorded, is found again in every later queue, on the same record.
\<close>

lemma enqueue_recorded:
  assumes ok: "queue_ok q" and "''intent-'' @ fresh \<notin> set (wq_order q)"
    and "enqueue fresh kind source payload (Some key) task gen q = (r, q1)"
  shows "queue_ok q1" "map_of (wq_records q1) (wi_intent_id r) = Some r" "wi_dedupe_key r = Some key"
proof -
  have q1: "q1 = snd (enqueue fresh kind source payload (Some key) task gen q)"
    and r: "r = fst (enqueue fresh kind source payload (Some key) task gen q)"
    using assms(3) by simp_all
  show "queue_ok q1" using enqueue_step [OF ok assms(2)] by (simp add: q1)
  have "map_of (wq_records q1) (wi_intent_id r) = Some r \<and> wi_dedupe_key r = Some key"
  proof (cases "find_dedupe key (map snd (wq_records q))")
    case None
    then show ?thesis by (simp add: q1 r enqueue_def Let_def store_record_def)
  next
    case (Some x)
    then have "x \<in> set (map snd (wq_records q))" "wi_dedupe_key x = Some key"
      using find_dedupe_Some by blast+
    with Some ok show ?thesis
      by (auto simp: q1 r enqueue_def record_lookup queue_ok_def)
  qed
  then show "map_of (wq_records q1) (wi_intent_id r) = Some r" "wi_dedupe_key r = Some key" by simp_all
qed

lemma enqueue_known:
  assumes ok2: "queue_ok q2" and ev: "queue_evolves q1 q2"
    and r: "map_of (wq_records q1) (wi_intent_id r) = Some r" "wi_dedupe_key r = Some key"
  shows "\<exists>r2. enqueue fresh kind source payload (Some key) task gen q2 = (r2, q2) \<and>
           wi_intent_id r2 = wi_intent_id r \<and> wi_kind r2 = wi_kind r"
proof -
  from ev r obtain r2 where r2: "map_of (wq_records q2) (wi_intent_id r) = Some r2" "evolves r r2"
    unfolding queue_evolves_def by blast
  have d2: "wi_dedupe_key r2 = Some key" using r2(2) r by (simp add: evolves_def)
  have "r2 \<in> set (map snd (wq_records q2))" using r2(1) by (force dest: map_of_SomeD)
  with d2 obtain y where y: "find_dedupe key (map snd (wq_records q2)) = Some y"
    by (cases "find_dedupe key (map snd (wq_records q2))") (auto simp: find_dedupe_None)
  then have "y \<in> snd ` set (wq_records q2)" "wi_dedupe_key y = Some key"
    using find_dedupe_Some [OF y] by simp_all
  then obtain k where k: "(k, y) \<in> set (wq_records q2)" by force
  have "k = wi_intent_id r"
    using queue_ok_dedupe [OF ok2 k map_of_SomeD [OF r2(1)]] d2 \<open>wi_dedupe_key y = Some key\<close> by simp
  then have "y = r2" using k r2(1) record_lookup [OF ok2] by (metis option.inject)
  with y r2 show ?thesis by (auto simp: enqueue_def evolves_def)
qed

lemma length_filter_update:
  "distinct (map fst d) \<Longrightarrow> map_of d k = Some old \<Longrightarrow> P old \<Longrightarrow> \<not> P r \<Longrightarrow>
     Suc (length (filter (\<lambda>(_, x). P x) (AList.update k r d))) = length (filter (\<lambda>(_, x). P x) d)"
proof (induction d)
  case (Cons kv d)
  obtain k' v where kv: "kv = (k', v)" by fastforce
  show ?case
  proof (cases "k = k'")
    case True
    with Cons.prems kv show ?thesis by simp
  next
    case False
    with Cons kv show ?thesis by simp
  qed
qed simp

lemma pending_zero_iff: "queue_ok q \<Longrightarrow> pending_count q = 0 \<longleftrightarrow> queued_intents None q = []"
  by (force simp: pending_count_def queued_intents_set filter_empty_conv)

interpretation memory_queue: lease_protocol queue_ok pending_count "lease_next None"
proof
  fix q assume ok: "queue_ok q"
  obtain x q' where l: "lease_next None q = (x, q')" by fastforce
  show "queue_ok (snd (lease_next None q))" using lease_step [OF ok l] l by simp
  show "fst (lease_next None q) = None \<and> pending_count (snd (lease_next None q)) = 0"
    if "pending_count q = 0"
    using that pending_zero_iff [OF ok]
    by (simp add: lease_next_def max_with_def refresh_id [OF ok])
  show "\<exists>i. fst (lease_next None q) = Some i \<and> Suc (pending_count (snd (lease_next None q))) = pending_count q"
    if pos: "0 < pending_count q"
  proof -
    have "queued_intents None q \<noteq> []" using pos pending_zero_iff [OF ok] by simp
    then obtain s where s: "max_with wi_priority (queued_intents None q) = Some s"
      by (cases "max_with wi_priority (queued_intents None q)") auto
    let ?r = "s\<lparr>wi_revision := wi_revision s + 1, wi_state := WS_LEASED,
        wi_attempt_count := wi_attempt_count s + 1\<rparr>"
    have old: "map_of (wq_records q) (wi_intent_id ?r) = Some s" "queued s"
      using queued_intent_lookup [OF ok] max_with_Some [OF s] by fastforce+
    have d: "distinct (map fst (wq_records q))" using ok by (simp add: queue_ok_def)
    have e: "lease_next None q = (Some ?r, refresh_available (store_record ?r q))"
      using s by (simp add: lease_next_def Let_def)
    have "\<not> queued ?r" by (simp add: queued_def)
    from length_filter_update [where P = queued, OF d old(1) old(2) this] show ?thesis
      unfolding e by (simp add: pending_count_def store_record_def)
  qed
qed

section \<open>Properties\<close>

text \<open>A queue with one leased intent, for the witnesses.\<close>

definition demo_queue :: work_queue where
  "demo_queue = snd (enqueue ''a'' WK_MESSAGE ''user'' [] (Some ''k1'') None None queue_init)"

definition demo_lease :: "work_intent option \<times> work_queue" where
  "demo_lease = lease_next None demo_queue"

lemma demo_queue_reach: "queue_reach queue_init demo_queue"
  unfolding demo_queue_def by (rule further [OF here enqueued]) (simp add: queue_init_def)

definition demo_intent :: work_intent where
  "demo_intent = \<lparr>wi_intent_id = ''intent-a'', wi_revision = 1, wi_kind = WK_MESSAGE,
     wi_source = ''user'', wi_priority = 76, wi_payload = [], wi_state = WS_QUEUED,
     wi_dedupe_key = Some ''k1'', wi_task_id = None, wi_generation = None, wi_attempt_count = 0\<rparr>"

lemma demo_enqueue:
  "enqueue ''a'' WK_MESSAGE ''user'' [] (Some ''k1'') None None queue_init = (demo_intent, demo_queue)"
  "demo_queue = \<lparr>wq_records = [(''intent-a'', demo_intent)], wq_order = [''intent-a''],
     wq_available = True, wq_version = 1\<rparr>"
  by (simp_all add: demo_queue_def enqueue_def queue_init_def find_dedupe_def store_record_def
      demo_intent_def Let_def)

lemma demo_lease_eval:
  "demo_lease = (Some (demo_intent\<lparr>wi_revision := 2, wi_state := WS_LEASED, wi_attempt_count := 1\<rparr>),
     snd demo_lease)"
  by (simp add: demo_lease_def demo_enqueue(2) lease_next_def queued_intents_def somes_def queued_def
      max_with_def demo_intent_def Let_def)

text \<open>
  In every state the queue can reach, the event the scheduler waits on is set exactly
  when something is queued, the count of pending work is zero exactly when it is not, and
  no two records share a dedupe key.
\<close>

lemma queue_event_truthful:
  assumes "queue_reach queue_init q"
  shows "wq_available q = some_queued q \<and> (pending_count q = 0 \<longleftrightarrow> \<not> wq_available q) \<and>
    (\<forall>(k, r)\<in>set (wq_records q). \<forall>(k', r')\<in>set (wq_records q).
       wi_dedupe_key r \<noteq> None \<longrightarrow> wi_dedupe_key r = wi_dedupe_key r' \<longrightarrow> k = k')"
proof -
  have ok: "queue_ok q" using queue_reach_ok [OF assms queue_ok_init] by simp
  have "pending_count q = 0 \<longleftrightarrow> \<not> some_queued q"
    by (auto simp: pending_count_def some_queued_def filter_empty_conv list_ex_iff)
  with ok show ?thesis unfolding queue_ok_def by blast
qed

theorem queue_event_truthful_witness: "wq_available demo_queue = some_queued demo_queue"
  using queue_event_truthful [OF demo_queue_reach] by blast

text \<open>
  A lease is the most urgent work: what is leased was queued, of the kind asked for,
  nothing eligible that is queued has a greater priority, and what is as urgent entered the
  queue no earlier; its revision and attempts are counted up.
\<close>

lemma lease_is_most_urgent:
  assumes "queue_reach queue_init q" and "lease_next kind q = (Some r, q')"
  shows "\<exists>s before after. queued_intents kind q = before @ s # after \<and>
           r = s\<lparr>wi_revision := wi_revision s + 1, wi_state := WS_LEASED,
                 wi_attempt_count := wi_attempt_count s + 1\<rparr> \<and>
           (\<forall>x\<in>set before. wi_priority x < wi_priority s) \<and>
           (\<forall>x\<in>set after. wi_priority x \<le> wi_priority s)"
proof -
  obtain s where s: "max_with wi_priority (queued_intents kind q) = Some s"
      and r: "r = s\<lparr>wi_revision := wi_revision s + 1, wi_state := WS_LEASED,
                 wi_attempt_count := wi_attempt_count s + 1\<rparr>"
    using assms(2) by (auto simp: lease_next_def Let_def split: option.splits)
  from max_with_first [OF s] r show ?thesis by blast
qed

theorem lease_is_most_urgent_witness:
  "\<exists>s before after. queued_intents None demo_queue = before @ s # after \<and>
     (\<forall>x\<in>set after. wi_priority x \<le> wi_priority s)"
  using lease_is_most_urgent [OF demo_queue_reach demo_lease_eval [unfolded demo_lease_def]] by blast

text \<open>
  C28. Work is admitted at most once: an intent that was leased is never leased again, and
  a lease is finished at most once, whatever the queue does in between.
\<close>

theorem leased_and_finished_once:
  assumes "queue_reach queue_init q" and "lease_next kind q = (Some r, q1)"
    and "queue_reach q1 q2"
  shows "(\<forall>kind' r'. fst (lease_next kind' q2) = Some r' \<longrightarrow> wi_intent_id r' \<noteq> wi_intent_id r) \<and>
    (\<forall>st f q3 q4 st'. finish r st q2 = Inr (f, q3) \<longrightarrow> st \<in> terminal_states \<longrightarrow> queue_reach q3 q4 \<longrightarrow>
       finish r st' q4 = Inl RevisionConflict)"
proof -
  have ok: "queue_ok q" using queue_reach_ok [OF assms(1) queue_ok_init] by simp
  note l = lease_step [OF ok assms(2)]
  then have ok1: "queue_ok q1" and r1: "map_of (wq_records q1) (wi_intent_id r) = Some r" "wi_state r = WS_LEASED"
    by auto
  from queue_reach_ok [OF assms(3) ok1] have ok2: "queue_ok q2" and ev: "queue_evolves q1 q2" by auto
  from ev r1(1) obtain r2 where r2: "map_of (wq_records q2) (wi_intent_id r) = Some r2" "evolves r r2"
    unfolding queue_evolves_def by blast
  have "\<not> queued r2" using r2(2) r1(2) by (simp add: evolves_def queued_def)
  then have once: "wi_intent_id r' \<noteq> wi_intent_id r" if lr: "fst (lease_next kind' q2) = Some r'" for kind' r'
  proof -
    obtain q3 where "lease_next kind' q2 = (Some r', q3)" using lr by (metis prod.collapse)
    from lease_step [OF ok2 this] obtain s where "map_of (wq_records q2) (wi_intent_id r') = Some s" "queued s"
      by blast
    with r2(1) \<open>\<not> queued r2\<close> show ?thesis by auto
  qed
  have fin: "finish r st' q4 = Inl RevisionConflict"
    if f: "finish r st q2 = Inr (f, q3)" and st: "st \<in> terminal_states" and reach: "queue_reach q3 q4"
    for st f q3 q4 st'
  proof -
    note fs = finish_step [OF ok2 f st]
    from fs queue_reach_ok [OF reach] obtain f' where
      f': "map_of (wq_records q4) (wi_intent_id r) = Some f'" "evolves f f'"
      unfolding queue_evolves_def by blast
    have "wi_state f' \<noteq> WS_LEASED" using f'(2) fs st by (auto simp: evolves_def terminal_states_def)
    with f'(1) show ?thesis by (simp add: finish_def live_lease_def)
  qed
  from once fin show ?thesis by blast
qed

theorem leased_and_finished_once_witness:
  "\<nexists>r'. fst (lease_next None (snd demo_lease)) = Some r' \<and> wi_intent_id r' = ''intent-a''"
  using leased_and_finished_once [OF demo_queue_reach demo_lease_eval [unfolded demo_lease_def] here]
  unfolding demo_lease_def [symmetric] by (auto simp: demo_intent_def)

text \<open>
  Admission is idempotent: submitting the same dedupe key again, at any later time and
  with any content, creates nothing, leaves the queue as it is and returns the record the
  first submission made, whatever has become of it.
\<close>

lemma enqueue_idempotent:
  assumes "queue_reach queue_init q" and "''intent-'' @ fresh \<notin> set (wq_order q)"
    and "enqueue fresh kind source payload (Some key) task gen q = (r, q1)"
    and "queue_reach q1 q2"
  shows "\<exists>r2. enqueue fresh' kind' source' payload' (Some key) task' gen' q2 = (r2, q2) \<and>
           wi_intent_id r2 = wi_intent_id r \<and> wi_kind r2 = wi_kind r"
proof -
  have ok: "queue_ok q" using queue_reach_ok [OF assms(1) queue_ok_init] by simp
  note in1 = enqueue_recorded [OF ok assms(2,3)]
  from queue_reach_ok [OF assms(4) in1(1)] have "queue_ok q2" "queue_evolves q1 q2" by auto
  from enqueue_known [OF this in1(2,3)] show ?thesis .
qed

theorem enqueue_idempotent_witness:
  "\<exists>r2. enqueue ''b'' WK_START ''other'' [] (Some ''k1'') None None demo_queue = (r2, demo_queue) \<and>
     wi_intent_id r2 = ''intent-a''"
proof -
  have fresh: "''intent-'' @ ''a'' \<notin> set (wq_order queue_init)" by (simp add: queue_init_def)
  have "wi_intent_id demo_intent = ''intent-a''" by (simp add: demo_intent_def)
  with enqueue_idempotent [OF here fresh demo_enqueue(1) here, of "''b''" WK_START "''other''" "[]" None None]
  show ?thesis by auto
qed

text \<open>
  A scheduler that leases as often as there is pending work gets a lease every time and
  leaves nothing pending.
\<close>

lemma draining_leases_everything:
  assumes "queue_reach queue_init q"
  shows "length (fst (memory_queue.drain (pending_count q) q)) = pending_count q \<and>
         pending_count (snd (memory_queue.drain (pending_count q) q)) = 0"
  using memory_queue.drain_empties [of q "pending_count q"] queue_reach_ok [OF assms queue_ok_init] by simp

theorem draining_leases_everything_witness:
  "pending_count (snd (memory_queue.drain (pending_count demo_queue) demo_queue)) = 0"
  using draining_leases_everything [OF demo_queue_reach] by simp

end
