(* ===== verification/Action_Reconciliation.thy ===== *)
theory Action_Reconciliation
  imports Messages
begin

text \<open>
  \<open>minebot/game/action_reconciliation.py\<close>: what a dispatch whose outcome the transport lost
  may be settled to, from one authoritative block read or a terminal event, and the terminal
  event built for a settled one.
\<close>

datatype reconciliation_status = APPLIED | NOT_APPLIED | STATUS_UNKNOWN

record action_reconciliation =
  rc_status :: reconciliation_status
  rc_evidence :: json_object

definition MUTATING_ACTIONS :: "string set" where
  "MUTATING_ACTIONS = {
     ''navigateTo'', ''navigationMutationDecision'', ''useItem'', ''rangedAttack'', ''attackEntity'',
     ''engageEntity'', ''dropItem'', ''handoffItem'', ''moveItem'', ''craftItem'',
     ''furnaceTransfer'', ''containerTransfer'', ''mineBlock'', ''placeBlock'', ''igniteBlock'',
     ''sowCrop''}"

definition TERMINAL_EVENT_BY_ACTION :: "(string, string) pydict" where
  "TERMINAL_EVENT_BY_ACTION = [
     (''moveTo'', ''moveDone''), (''navigateTo'', ''navigateDone''), (''followEntity'', ''followDone''),
     (''engageEntity'', ''engageDone''), (''lookAt'', ''lookDone''), (''jump'', ''jumpDone''),
     (''selectSlot'', ''selectSlotDone''), (''selectItem'', ''selectItemDone''), (''stop'', ''stopDone''),
     (''useItem'', ''useDone''), (''rangedAttack'', ''rangedDone''), (''attackEntity'', ''attackDone''),
     (''dropItem'', ''dropDone''), (''handoffItem'', ''handoffDone''), (''moveItem'', ''moveItemDone''),
     (''craftItem'', ''craftDone''), (''furnaceTransfer'', ''furnaceDone''),
     (''containerTransfer'', ''containerDone''), (''mineBlock'', ''mineDone''),
     (''placeBlock'', ''placeDone''), (''igniteBlock'', ''igniteDone''), (''sowCrop'', ''sowDone'')]"

definition CLEAR_BLOCKS :: "string set" where
  "CLEAR_BLOCKS = {''air'', ''cave_air'', ''void_air''}"

definition BLOCK_TERMINAL_ACTIONS :: "string set" where
  "BLOCK_TERMINAL_ACTIONS = {''mineBlock'', ''placeBlock'', ''igniteBlock'', ''sowCrop''}"

definition is_mutating_action :: "string \<Rightarrow> bool" where
  "is_mutating_action action_name \<longleftrightarrow> action_name \<in> MUTATING_ACTIONS"

definition terminal_event_name :: "string \<Rightarrow> string option" where
  "terminal_event_name action_name = map_of TERMINAL_EVENT_BY_ACTION action_name"

text \<open>
  \<open>_position\<close>: a coordinate that \<open>int()\<close> rejects makes the position unusable, except that the
  overflow of an infinite float is not caught.
\<close>

fun as_ints :: "json list \<Rightarrow> py_exn + int list option" where
  "as_ints [] = Inr (Some [])"
| "as_ints (v # vs) =
     (case py_int v of
        Inl OverflowError \<Rightarrow> Inl OverflowError
      | Inl _ \<Rightarrow> Inr None
      | Inr i \<Rightarrow> map_sum id (map_option ((#) i)) (as_ints vs))"

definition position_of :: "json \<Rightarrow> py_exn + (int \<times> int \<times> int) option" where
  "position_of value =
     (case value of
        JList (a # b # c # _) \<Rightarrow>
          map_sum id (\<lambda>r. case r of Some [x, y, z] \<Rightarrow> Some (x, y, z) | _ \<Rightarrow> None) (as_ints [a, b, c])
      | _ \<Rightarrow> Inr None)"

definition block_probe_position :: "action \<Rightarrow> py_exn + (int \<times> int \<times> int) option" where
  "block_probe_position a =
     (if ac_name a \<notin> BLOCK_TERMINAL_ACTIONS then Inr None
      else map_sum id
             (map_option (\<lambda>(x, y, z). if ac_name a = ''sowCrop'' then (x, y + 1, z) else (x, y, z)))
             (position_of (dget (ac_params a) ''target'')))"

definition plain_param :: "(json \<Rightarrow> string) \<Rightarrow> json_object \<Rightarrow> string \<Rightarrow> string" where
  "plain_param show_other params key =
     (let v = dget params key
      in removeprefix ''minecraft:'' (if truthy v then py_str show_other v else []))"

definition json_pos :: "int \<times> int \<times> int \<Rightarrow> json" where
  "json_pos p = (case p of (x, y, z) \<Rightarrow> JList [JInt x, JInt y, JInt z])"

definition reconciled :: "reconciliation_status \<Rightarrow> json_object \<Rightarrow> action_reconciliation" where
  "reconciled status evidence = \<lparr>rc_status = status, rc_evidence = evidence\<rparr>"

definition success_fact :: "string \<Rightarrow> json_object \<Rightarrow> json_object" where
  "success_fact s evidence = AList.update ''success_fact'' (JStr s) evidence"

text \<open>One definition per action; \<open>expected\<close> and \<open>crop_block\<close> are empty when not declared.\<close>

definition classify_mine :: "string \<Rightarrow> string \<Rightarrow> json_object \<Rightarrow> action_reconciliation" where
  "classify_mine current expected evidence =
     (if expected = [] \<or> expected = ''unknown'' then reconciled STATUS_UNKNOWN evidence
      else if current = expected then reconciled NOT_APPLIED evidence
      else if current \<in> CLEAR_BLOCKS then reconciled APPLIED (success_fact ''target_clear'' evidence)
      else reconciled STATUS_UNKNOWN evidence)"

definition classify_place :: "string \<Rightarrow> string \<Rightarrow> json_object \<Rightarrow> action_reconciliation" where
  "classify_place current expected evidence =
     (if expected = [] \<or> expected = ''unknown'' then reconciled STATUS_UNKNOWN evidence
      else if current = expected
      then reconciled APPLIED (success_fact ''target_matches_placed_type'' evidence)
      else if current \<in> CLEAR_BLOCKS then reconciled NOT_APPLIED evidence
      else reconciled STATUS_UNKNOWN evidence)"

definition classify_ignite :: "string \<Rightarrow> json_object \<Rightarrow> action_reconciliation" where
  "classify_ignite current evidence =
     (if current = ''fire'' then reconciled APPLIED (success_fact ''target_fire'' evidence)
      else reconciled STATUS_UNKNOWN evidence)"

definition classify_sow ::
  "string \<Rightarrow> string \<Rightarrow> int \<times> int \<times> int \<Rightarrow> json_object \<Rightarrow> action_reconciliation" where
  "classify_sow current crop_block target evidence =
     (if crop_block = [] then reconciled STATUS_UNKNOWN evidence
      else
        (let evidence' = AList.update ''crop_target'' (json_pos target) evidence
         in if current = crop_block
            then reconciled APPLIED (success_fact ''crop_matches_expected_type'' evidence')
            else if current \<in> CLEAR_BLOCKS then reconciled NOT_APPLIED evidence'
            else reconciled STATUS_UNKNOWN evidence'))"

definition block_evidence :: "string \<Rightarrow> string \<Rightarrow> (int \<times> int \<times> int) option \<Rightarrow> json_object" where
  "block_evidence current expected target =
     [(''scope'', JStr ''blockAt''),
      (''target'', case target of None \<Rightarrow> JNull | Some p \<Rightarrow> json_pos p),
      (''current_type'', JStr current),
      (''expected_type'', if expected = [] then JNull else JStr expected)]"

definition classify_at ::
  "(json \<Rightarrow> string) \<Rightarrow> action \<Rightarrow> string \<Rightarrow> (int \<times> int \<times> int) option \<Rightarrow> action_reconciliation" where
  "classify_at show_other a current_type target =
     (let current = removeprefix ''minecraft:'' (if current_type = [] then ''unknown'' else current_type);
          expected = plain_param show_other (ac_params a) ''block_type'';
          evidence = block_evidence current expected target
      in case target of
           None \<Rightarrow> reconciled STATUS_UNKNOWN evidence
         | Some p \<Rightarrow>
             (if ac_name a = ''mineBlock'' then classify_mine current expected evidence
              else if ac_name a = ''placeBlock'' then classify_place current expected evidence
              else if ac_name a = ''igniteBlock'' then classify_ignite current evidence
              else if ac_name a = ''sowCrop'' then
                classify_sow current (plain_param show_other (ac_params a) ''crop_block'') p evidence
              else reconciled STATUS_UNKNOWN evidence))"

definition classify_authoritative_block ::
  "(json \<Rightarrow> string) \<Rightarrow> action \<Rightarrow> string \<Rightarrow> py_exn + action_reconciliation" where
  "classify_authoritative_block show_other a current_type =
     map_sum id (classify_at show_other a current_type) (block_probe_position a)"

definition terminal_event_is_applied :: "(json \<Rightarrow> string) \<Rightarrow> event \<Rightarrow> bool" where
  "terminal_event_is_applied show_other e =
     (let d = ev_data e;
          first = dget d ''stopped_reason'';
          v = (if truthy first then first else dget d ''reason'')
      in dget d ''success'' = JBool True \<or> dget d ''arrived'' = JBool True \<or>
         dget d ''completed'' = JBool True \<or>
         (if truthy v then py_str show_other v else []) \<in>
           {''arrived'', ''completed'', ''killed'', ''reconciled''})"

definition update_all :: "json_object \<Rightarrow> json_object \<Rightarrow> json_object" where
  "update_all new d = foldl (\<lambda>d (k, v). AList.update k v d) d new"

definition settled_fields :: "action \<Rightarrow> json_object \<Rightarrow> json_object" where
  "settled_fields a evidence =
     (let param = dget (ac_params a)
      in if ac_name a = ''mineBlock'' then
           [(''target'', param ''target''), (''block_type'', param ''block_type''),
            (''block_now'', dget evidence ''current_type''), (''block_gone'', JBool True)]
         else if ac_name a = ''placeBlock'' then
           [(''target'', param ''target''), (''expected_type'', param ''block_type''),
            (''block_at_target'', dget evidence ''current_type'')]
         else if ac_name a = ''igniteBlock'' then
           [(''target'', param ''target''), (''block_at_target'', JStr ''fire'')]
         else if ac_name a = ''sowCrop'' then
           [(''target'', param ''target''), (''crop_pos'', dget evidence ''crop_target''),
            (''expected_type'', param ''crop_block''), (''block_at_crop'', dget evidence ''current_type'')]
         else [])"

definition reconciled_terminal_event :: "action \<Rightarrow> action_reconciliation \<Rightarrow> event option" where
  "reconciled_terminal_event a r =
     (if rc_status r \<noteq> APPLIED then None
      else case terminal_event_name (ac_name a) of
        None \<Rightarrow> None
      | Some name \<Rightarrow>
          (let d = update_all (rc_evidence r)
                 [(''action_id'', JStr (ac_id a)), (''success'', JBool True),
                  (''stopped_reason'', JStr ''reconciled''),
                  (''reconciliation'', JStr ''authoritative_world'')]
           in Some \<lparr>ev_seq = 0, ev_tick = 0, ev_bot = [], ev_name = name,
                    ev_data = update_all (settled_fields a (rc_evidence r)) d\<rparr>))"

section \<open>What can be settled\<close>

lemma block_actions_distinct [simp]:
  "BLOCK_TERMINAL_ACTIONS = {''mineBlock'', ''placeBlock'', ''igniteBlock'', ''sowCrop''}"
  by (simp add: BLOCK_TERMINAL_ACTIONS_def)

lemma update_all_get:
  "map_of (update_all new d) k = (case map_of (rev new) k of None \<Rightarrow> map_of d k | Some v \<Rightarrow> Some v)"
proof (induction new arbitrary: d)
  case (Cons kv new)
  show ?case
    by (cases kv) (auto simp: update_all_def Cons [unfolded update_all_def] map_add_def split: option.splits)
qed (simp add: update_all_def)

lemma classify_evidence:
  assumes "k \<noteq> ''success_fact''" and "k \<noteq> ''crop_target''"
  shows "map_of (rc_evidence (classify_mine c x ev)) k = map_of ev k"
    and "map_of (rc_evidence (classify_place c x ev)) k = map_of ev k"
    and "map_of (rc_evidence (classify_ignite c ev)) k = map_of ev k"
    and "map_of (rc_evidence (classify_sow c x p ev)) k = map_of ev k"
  using assms
  by (simp_all add: classify_mine_def classify_place_def classify_ignite_def classify_sow_def
      reconciled_def success_fact_def Let_def)

lemma classify_at_evidence:
  assumes "k \<in> {''action_id'', ''success''}"
  shows "map_of (rc_evidence (classify_at show_other a t p)) k = None"
proof -
  have k: "k \<noteq> ''success_fact''" "k \<noteq> ''crop_target''" using assms by auto
  have "map_of (block_evidence c x p) k = None" for c x
    using assms by (auto simp: block_evidence_def)
  then show ?thesis
    unfolding classify_at_def Let_def
    by (cases p) (simp_all add: classify_evidence [OF k] reconciled_def)
qed

lemma map_of_rev_None: "map_of (rev d) k = None \<longleftrightarrow> map_of d k = None"
  by (simp add: map_of_eq_None_iff)

lemma classify_at_settled:
  assumes "rc_status (classify_at show_other a t p) \<noteq> STATUS_UNKNOWN"
  shows "ac_name a \<in> BLOCK_TERMINAL_ACTIONS \<and> p \<noteq> None"
  using assms
  by (cases p) (auto simp: classify_at_def Let_def reconciled_def split: if_splits)

section \<open>Properties\<close>

text \<open>
  Reconciliation never authorises a blind replay: a lost dispatch is classified as not
  applied only for a mining, placing or sowing action with a usable target, and only when
  the block read still shows the state from before it: the block to be mined, or a clear
  cell that is not what was to be placed or sown.
\<close>

lemma reconciliation_conservative:
  assumes "classify_authoritative_block show_other a t = Inr r" and "rc_status r = NOT_APPLIED"
  shows "\<exists>p. block_probe_position a = Inr (Some p) \<and>
    (ac_name a = ''mineBlock'' \<and>
       removeprefix ''minecraft:'' t = plain_param show_other (ac_params a) ''block_type'' \<or>
     ac_name a = ''placeBlock'' \<and> removeprefix ''minecraft:'' t \<in> CLEAR_BLOCKS \<and>
       removeprefix ''minecraft:'' t \<noteq> plain_param show_other (ac_params a) ''block_type'' \<or>
     ac_name a = ''sowCrop'' \<and> removeprefix ''minecraft:'' t \<in> CLEAR_BLOCKS \<and>
       removeprefix ''minecraft:'' t \<noteq> plain_param show_other (ac_params a) ''crop_block'')"
proof -
  obtain p where p: "block_probe_position a = Inr p" and r: "r = classify_at show_other a t p"
    using assms(1) by (auto simp: classify_authoritative_block_def map_sum_Inr_iff)
  obtain x y z where q: "p = Some (x, y, z)"
    using classify_at_settled [of show_other a t p] assms(2) r by (cases p) auto
  let ?c = "removeprefix ''minecraft:'' (if t = [] then ''unknown'' else t)"
  have verdict: "classify_mine c x ev = reconciled st e \<Longrightarrow> st = NOT_APPLIED \<Longrightarrow> c = x \<and> x \<noteq> ''unknown''"
    "classify_place c x ev = reconciled st e \<Longrightarrow> st = NOT_APPLIED \<Longrightarrow> c \<noteq> x \<and> c \<in> CLEAR_BLOCKS"
    "classify_sow c x y ev = reconciled st e \<Longrightarrow> st = NOT_APPLIED \<Longrightarrow> c \<noteq> x \<and> c \<in> CLEAR_BLOCKS"
    "rc_status (classify_ignite c ev) \<noteq> NOT_APPLIED" for c x ev st e y
    by (auto simp: classify_mine_def classify_place_def classify_sow_def classify_ignite_def
        reconciled_def Let_def split: if_splits)
  have u: "''unknown'' \<notin> CLEAR_BLOCKS" by (simp add: CLEAR_BLOCKS_def)
  have rr: "r = reconciled NOT_APPLIED (rc_evidence r)" using assms(2) by (simp add: reconciled_def)
  have c: "?c = removeprefix ''minecraft:'' t" if "?c \<noteq> ''unknown''"
    using that by (auto simp: removeprefix_def)
  show ?thesis
  proof (intro exI conjI)
    show "block_probe_position a = Inr (Some (x, y, z))" using p q by simp
    have s: "rc_status (classify_at show_other a t (Some (x, y, z))) = NOT_APPLIED" using assms(2) r q by simp
    consider "ac_name a = ''mineBlock''" | "ac_name a = ''placeBlock''" | "ac_name a = ''sowCrop''"
      using s verdict(4) by (auto simp: classify_at_def Let_def reconciled_def split: if_splits)
    then show "ac_name a = ''mineBlock'' \<and>
       removeprefix ''minecraft:'' t = plain_param show_other (ac_params a) ''block_type'' \<or>
     ac_name a = ''placeBlock'' \<and> removeprefix ''minecraft:'' t \<in> CLEAR_BLOCKS \<and>
       removeprefix ''minecraft:'' t \<noteq> plain_param show_other (ac_params a) ''block_type'' \<or>
     ac_name a = ''sowCrop'' \<and> removeprefix ''minecraft:'' t \<in> CLEAR_BLOCKS \<and>
       removeprefix ''minecraft:'' t \<noteq> plain_param show_other (ac_params a) ''crop_block''"
    proof cases
      case 1
      with rr r q have "classify_mine ?c (plain_param show_other (ac_params a) ''block_type'')
          (block_evidence ?c (plain_param show_other (ac_params a) ''block_type'') p) = reconciled NOT_APPLIED (rc_evidence r)"
        by (simp add: classify_at_def Let_def)
      with verdict(1) c 1 show ?thesis by metis
    next
      case 2
      with rr r q have "classify_place ?c (plain_param show_other (ac_params a) ''block_type'')
          (block_evidence ?c (plain_param show_other (ac_params a) ''block_type'') p) = reconciled NOT_APPLIED (rc_evidence r)"
        by (simp add: classify_at_def Let_def)
      with verdict(2) c u 2 show ?thesis by metis
    next
      case 3
      with rr r q have "classify_sow ?c (plain_param show_other (ac_params a) ''crop_block'') (x, y, z)
          (block_evidence ?c (plain_param show_other (ac_params a) ''block_type'') p) = reconciled NOT_APPLIED (rc_evidence r)"
        by (simp add: classify_at_def Let_def)
      with verdict(3) c u 3 show ?thesis by metis
    qed
  qed
qed

definition demo_mine :: action where
  "demo_mine = \<lparr>ac_id = ''a1'', ac_name = ''mineBlock'',
     ac_params = [(''target'', JList [JInt 1, JInt 64, JInt 1]), (''block_type'', JStr ''minecraft:stone'')]\<rparr>"

theorem reconciliation_conservative_witness:
  "\<exists>p. block_probe_position demo_mine = Inr (Some p) \<and>
     removeprefix ''minecraft:'' ''stone'' = plain_param (\<lambda>_. []) (ac_params demo_mine) ''block_type''"
proof -
  obtain r where r: "classify_authoritative_block (\<lambda>_. []) demo_mine ''stone'' = Inr r" "rc_status r = NOT_APPLIED"
    by (simp add: classify_authoritative_block_def block_probe_position_def position_of_def demo_mine_def
        dget_def classify_at_def classify_mine_def plain_param_def removeprefix_def reconciled_def Let_def)
  from reconciliation_conservative [OF r] show ?thesis by (auto simp: demo_mine_def)
qed

text \<open>
  A settled dispatch ends like an observed one: the terminal event built from an
  applied reconciliation carries the action's id, is recognised as applied, and is given
  the name under which that action's own terminal would have come; nothing is built from
  any other verdict.
\<close>

lemma reconciled_event_is_terminal:
  assumes "classify_authoritative_block show_other a t = Inr r"
  shows "(case reconciled_terminal_event a r of
            None \<Rightarrow> rc_status r \<noteq> APPLIED
          | Some e \<Rightarrow> rc_status r = APPLIED \<and> terminal_event_name (ac_name a) = Some (ev_name e) \<and>
              dget (ev_data e) ''action_id'' = JStr (ac_id a) \<and> terminal_event_is_applied show_other e)"
proof (cases "rc_status r = APPLIED")
  case False
  then show ?thesis by (simp add: reconciled_terminal_event_def)
next
  case True
  obtain p where r: "r = classify_at show_other a t p"
    using assms by (auto simp: classify_authoritative_block_def map_sum_Inr_iff)
  have "ac_name a \<in> BLOCK_TERMINAL_ACTIONS"
    using classify_at_settled [of show_other a t p] True r by simp
  then obtain name where n: "terminal_event_name (ac_name a) = Some name"
    by (auto simp: terminal_event_name_def TERMINAL_EVENT_BY_ACTION_def)
  have ev: "map_of (rev (rc_evidence r)) k = None" if "k \<in> {''action_id'', ''success''}" for k
    unfolding r map_of_rev_None by (rule classify_at_evidence [OF that])
  have fl: "map_of (rev (settled_fields a (rc_evidence r))) k = None" if "k \<in> {''action_id'', ''success''}" for k
    using that by (auto simp: settled_fields_def Let_def map_of_eq_None_iff)
  show ?thesis
    using True n ev fl
    by (simp add: reconciled_terminal_event_def Let_def dget_def update_all_get terminal_event_is_applied_def)
qed

theorem reconciled_event_is_terminal_witness:
  "\<exists>e. reconciled_terminal_event demo_mine (classify_at (\<lambda>_. []) demo_mine ''air'' (Some (1, 64, 1))) = Some e \<and>
     ev_name e = ''mineDone'' \<and> terminal_event_is_applied (\<lambda>_. []) e"
proof -
  let ?r = "classify_at (\<lambda>_. []) demo_mine ''air'' (Some (1, 64, 1))"
  have "classify_authoritative_block (\<lambda>_. []) demo_mine ''air'' = Inr ?r"
    by (simp add: classify_authoritative_block_def block_probe_position_def position_of_def demo_mine_def dget_def)
  note t = reconciled_event_is_terminal [OF this]
  have "rc_status ?r = APPLIED"
    by (simp add: demo_mine_def classify_at_def classify_mine_def plain_param_def removeprefix_def
        reconciled_def dget_def CLEAR_BLOCKS_def Let_def)
  with t obtain e where "reconciled_terminal_event demo_mine ?r = Some e"
    by (cases "reconciled_terminal_event demo_mine ?r") auto
  with t show ?thesis by (auto simp: demo_mine_def terminal_event_name_def TERMINAL_EVENT_BY_ACTION_def)
qed

end
