(* ===== verification/Harvest.thy ===== *)
theory Harvest
  imports Py_Values
begin

text \<open>
  Harvest tiers, \<open>minebot/contract/harvest.py\<close>: which pickaxe a block needs, the best one
  owned, and whether an owned tier satisfies a required one.
\<close>

datatype tool_tier = WOODEN | STONE | IRON | DIAMOND | NETHERITE

fun tier_value :: "tool_tier \<Rightarrow> string" where
  "tier_value WOODEN = ''wooden''"
| "tier_value STONE = ''stone''"
| "tier_value IRON = ''iron''"
| "tier_value DIAMOND = ''diamond''"
| "tier_value NETHERITE = ''netherite''"

definition TOOL_TIER_ORDER :: "tool_tier list" where
  "TOOL_TIER_ORDER = [WOODEN, STONE, IRON, DIAMOND, NETHERITE]"

text \<open>\<open>_TIER_RANK\<close>, the position in the order; tiers are ordered by it.\<close>

fun tier_rank :: "tool_tier \<Rightarrow> nat" where
  "tier_rank WOODEN = 0"
| "tier_rank STONE = 1"
| "tier_rank IRON = 2"
| "tier_rank DIAMOND = 3"
| "tier_rank NETHERITE = 4"

instantiation tool_tier :: linorder
begin

definition less_eq_tool_tier :: "tool_tier \<Rightarrow> tool_tier \<Rightarrow> bool" where
  "less_eq_tool_tier a b \<longleftrightarrow> tier_rank a \<le> tier_rank b"

definition less_tool_tier :: "tool_tier \<Rightarrow> tool_tier \<Rightarrow> bool" where
  "less_tool_tier a b \<longleftrightarrow> tier_rank a < tier_rank b"

instance
proof
  fix a b :: tool_tier
  show "a \<le> b \<Longrightarrow> b \<le> a \<Longrightarrow> a = b"
    by (cases a; cases b) (simp_all add: less_eq_tool_tier_def)
qed (auto simp: less_eq_tool_tier_def less_tool_tier_def)

end

definition PICKAXE_BY_TIER :: "tool_tier \<Rightarrow> string" where
  "PICKAXE_BY_TIER t = tier_value t @ ''_pickaxe''"

definition MIN_PICKAXE_TIER :: "(string, tool_tier) pydict" where
  "MIN_PICKAXE_TIER =
     map (\<lambda>b. (b, WOODEN))
       [''stone'', ''cobblestone'', ''deepslate'', ''cobbled_deepslate'', ''coal_ore'',
        ''deepslate_coal_ore'', ''andesite'', ''diorite'', ''granite'', ''tuff'', ''blackstone'',
        ''netherrack'', ''sandstone'', ''furnace'', ''blast_furnace'', ''smoker''] @
     map (\<lambda>b. (b, STONE))
       [''iron_ore'', ''deepslate_iron_ore'', ''copper_ore'', ''deepslate_copper_ore'', ''lapis_ore'',
        ''deepslate_lapis_ore'', ''raw_iron_block'', ''raw_copper_block''] @
     map (\<lambda>b. (b, IRON))
       [''diamond_ore'', ''deepslate_diamond_ore'', ''gold_ore'', ''deepslate_gold_ore'',
        ''nether_gold_ore'', ''redstone_ore'', ''deepslate_redstone_ore'', ''emerald_ore'',
        ''deepslate_emerald_ore'', ''raw_gold_block''] @
     map (\<lambda>b. (b, DIAMOND)) [''obsidian'', ''crying_obsidian'', ''ancient_debris'']"

definition PICKAXE_TIER_BY_ITEM :: "(string, tool_tier) pydict" where
  "PICKAXE_TIER_BY_ITEM =
     [(''wooden_pickaxe'', WOODEN), (''golden_pickaxe'', WOODEN), (''stone_pickaxe'', STONE),
      (''iron_pickaxe'', IRON), (''diamond_pickaxe'', DIAMOND), (''netherite_pickaxe'', NETHERITE)]"

definition plain_name :: "string \<Rightarrow> string" where
  "plain_name item = lower (strip (removeprefix ''minecraft:'' item))"

definition required_pickaxe_tier :: "string \<Rightarrow> tool_tier option" where
  "required_pickaxe_tier block_type = map_of MIN_PICKAXE_TIER (plain_name block_type)"

definition normalize_tier :: "string \<Rightarrow> tool_tier option" where
  "normalize_tier tier =
     (let lowered = plain_name tier
      in if lowered = ''golden'' then Some WOODEN
         else find (\<lambda>t. tier_value t = lowered) TOOL_TIER_ORDER)"

definition tier_satisfies :: "string option \<Rightarrow> string \<Rightarrow> bool" where
  "tier_satisfies owned_tier required_tier =
     (case owned_tier of
        None \<Rightarrow> False
      | Some o_tier \<Rightarrow>
          (case (normalize_tier o_tier, normalize_tier required_tier) of
             (Some owned, Some required) \<Rightarrow> tier_rank owned \<ge> tier_rank required
           | _ \<Rightarrow> False))"

text \<open>
  The loop keeps the first pickaxe of the greatest tier. \<open>int(raw_count or 0)\<close> may reject a
  count, which is skipped, or overflow, which is raised.
\<close>

fun best_pickaxe_from ::
  "(string, json) pydict \<Rightarrow> (string \<times> tool_tier) option \<Rightarrow> py_exn + (string \<times> tool_tier) option" where
  "best_pickaxe_from [] best = Inr best"
| "best_pickaxe_from ((raw_item, raw_count) # counts) best =
     (case (if truthy raw_count then py_int raw_count else Inr 0) of
        Inl OverflowError \<Rightarrow> Inl OverflowError
      | Inl _ \<Rightarrow> best_pickaxe_from counts best
      | Inr count \<Rightarrow>
          (if count \<le> 0 then best_pickaxe_from counts best
           else case map_of PICKAXE_TIER_BY_ITEM (plain_name raw_item) of
             None \<Rightarrow> best_pickaxe_from counts best
           | Some tier \<Rightarrow>
               best_pickaxe_from counts
                 (case best of
                    None \<Rightarrow> Some (plain_name raw_item, tier)
                  | Some (_, t) \<Rightarrow>
                      if tier_rank tier > tier_rank t then Some (plain_name raw_item, tier) else best)))"

definition best_owned_pickaxe :: "(string, json) pydict \<Rightarrow> py_exn + (string \<times> tool_tier) option" where
  "best_owned_pickaxe counts = best_pickaxe_from counts None"

section \<open>The loop finds the maximum\<close>

definition owned_tier :: "string \<times> json \<Rightarrow> tool_tier option" where
  "owned_tier entry =
     (case (if truthy (snd entry) then py_int (snd entry) else Inr 0) of
        Inr n \<Rightarrow> if n > 0 then map_of PICKAXE_TIER_BY_ITEM (plain_name (fst entry)) else None
      | Inl _ \<Rightarrow> None)"

fun better :: "(string \<times> tool_tier) option \<Rightarrow> string \<times> json \<Rightarrow> (string \<times> tool_tier) option" where
  "better best entry =
     (case owned_tier entry of
        None \<Rightarrow> best
      | Some tier \<Rightarrow>
          (case best of
             None \<Rightarrow> Some (plain_name (fst entry), tier)
           | Some (_, t) \<Rightarrow> if t < tier then Some (plain_name (fst entry), tier) else best))"

declare better.simps [simp del]

lemma best_pickaxe_from_fold:
  "best_pickaxe_from counts best = Inr r \<Longrightarrow> r = foldl better best counts"
proof (induction counts arbitrary: best)
  case (Cons entry counts)
  obtain k v where e: "entry = (k, v)" by fastforce
  have "best_pickaxe_from counts (better best entry) = Inr r"
  proof (cases "if truthy v then py_int v else Inr 0")
    case (Inl x)
    then have "owned_tier (k, v) = None" unfolding owned_tier_def fst_conv snd_conv Inl by simp
    then have "better best entry = best" by (simp add: e better.simps)
    then show ?thesis
      using Cons.prems unfolding e best_pickaxe_from.simps(2) Inl by (cases x) simp_all
  next
    case (Inr n)
    have o: "owned_tier (k, v) = (if n > 0 then map_of PICKAXE_TIER_BY_ITEM (plain_name k) else None)"
      unfolding owned_tier_def fst_conv snd_conv Inr by simp
    show ?thesis
      using Cons.prems unfolding e best_pickaxe_from.simps(2) Inr sum.case better.simps o
      by (cases best) (auto simp: less_tool_tier_def not_le split: if_splits option.splits prod.splits)
  qed
  with Cons.IH show ?case by simp
qed simp

lemma foldl_better_None: "foldl better best counts = None \<longleftrightarrow> best = None \<and> (\<forall>e\<in>set counts. owned_tier e = None)"
proof (induction counts arbitrary: best)
  case (Cons e counts)
  have "better best e = None \<longleftrightarrow> best = None \<and> owned_tier e = None"
    by (auto simp: better.simps split: option.splits prod.splits if_splits)
  with Cons show ?case by auto
qed simp

lemma foldl_better_max:
  assumes "foldl better best counts = Some (item, t)"
  shows "(\<forall>e\<in>set counts. \<forall>t'. owned_tier e = Some t' \<longrightarrow> t' \<le> t) \<and>
    (\<forall>i t'. best = Some (i, t') \<longrightarrow> t' \<le> t) \<and>
    (best = Some (item, t) \<or> (\<exists>e\<in>set counts. owned_tier e = Some t \<and> plain_name (fst e) = item))"
  using assms
proof (induction counts arbitrary: best)
  case (Cons e counts)
  from Cons.prems have "foldl better (better best e) counts = Some (item, t)" by simp
  note IH = Cons.IH [OF this]
  show ?case
  proof (cases "owned_tier e")
    case None
    then have "better best e = best" by (simp add: better.simps)
    with IH None show ?thesis by auto
  next
    case (Some tier)
    show ?thesis
    proof (cases "case best of None \<Rightarrow> True | Some (_, b) \<Rightarrow> b < tier")
      case True
      then have b: "better best e = Some (plain_name (fst e), tier)"
        using Some by (auto simp: better.simps split: option.splits)
      from IH b have le: "tier \<le> t" by blast
      have prev: "t' \<le> t" if "best = Some (i, t')" for i t'
        using that True le by simp
      from IH b have "(tier = t \<and> plain_name (fst e) = item)
        \<or> (\<exists>e'\<in>set counts. owned_tier e' = Some t \<and> plain_name (fst e') = item)" by auto
      then have "\<exists>e'\<in>set (e # counts). owned_tier e' = Some t \<and> plain_name (fst e') = item"
        using Some by auto
      moreover have "\<forall>e'\<in>set (e # counts). \<forall>t'. owned_tier e' = Some t' \<longrightarrow> t' \<le> t"
        using IH Some le by simp
      ultimately show ?thesis using prev by blast
    next
      case False
      then obtain i b where best: "best = Some (i, b)" "\<not> b < tier" by (auto split: option.splits)
      with Some have same: "better best e = best" by (simp add: better.simps)
      from IH same best have "b \<le> t" by simp
      with best(2) have le: "tier \<le> t" by order
      have "\<forall>e'\<in>set (e # counts). \<forall>t'. owned_tier e' = Some t' \<longrightarrow> t' \<le> t"
        using IH Some le by simp
      moreover have "best = Some (item, t) \<or> (\<exists>e'\<in>set (e # counts). owned_tier e' = Some t \<and> plain_name (fst e') = item)"
        using IH same by auto
      ultimately show ?thesis using IH same by simp
    qed
  qed
qed simp

section \<open>Properties\<close>

text \<open>
  The best owned pickaxe decides what can be harvested: when the counts are readable,
  none is reported exactly when no pickaxe is owned in a positive count, and a reported one
  is owned, is of the tier its item has, and satisfies a tier exactly when some owned
  pickaxe does.
\<close>

lemma best_pickaxe_decides:
  assumes "best_owned_pickaxe counts = Inr best"
  shows "(best = None \<longleftrightarrow> (\<forall>e\<in>set counts. owned_tier e = None)) \<and>
    (\<forall>item t. best = Some (item, t) \<longrightarrow>
       (\<exists>e\<in>set counts. owned_tier e = Some t \<and> plain_name (fst e) = item) \<and>
       (\<forall>required. required \<le> t \<longleftrightarrow> (\<exists>e\<in>set counts. \<exists>t'. owned_tier e = Some t' \<and> required \<le> t')))"
proof -
  have b: "best = foldl better None counts"
    using best_pickaxe_from_fold assms by (simp add: best_owned_pickaxe_def)
  have mx: "\<forall>e\<in>set counts. \<forall>t'. owned_tier e = Some t' \<longrightarrow> t' \<le> t"
    and ex: "\<exists>e\<in>set counts. owned_tier e = Some t \<and> plain_name (fst e) = item"
    if "best = Some (item, t)" for item t
    using foldl_better_max [OF that [unfolded b]] by simp_all
  have "required \<le> t \<longleftrightarrow> (\<exists>e\<in>set counts. \<exists>t'. owned_tier e = Some t' \<and> required \<le> t')"
    if "best = Some (item, t)" for item t required
  proof
    assume "required \<le> t"
    with ex [OF that] show "\<exists>e\<in>set counts. \<exists>t'. owned_tier e = Some t' \<and> required \<le> t'" by blast
  next
    assume "\<exists>e\<in>set counts. \<exists>t'. owned_tier e = Some t' \<and> required \<le> t'"
    then obtain e t' where "e \<in> set counts" "owned_tier e = Some t'" "required \<le> t'" by blast
    with mx [OF that] show "required \<le> t" using order_trans by blast
  qed
  with ex have "\<forall>item t. best = Some (item, t) \<longrightarrow>
       (\<exists>e\<in>set counts. owned_tier e = Some t \<and> plain_name (fst e) = item) \<and>
       (\<forall>required. required \<le> t \<longleftrightarrow> (\<exists>e\<in>set counts. \<exists>t'. owned_tier e = Some t' \<and> required \<le> t'))"
    by blast
  moreover have "best = None \<longleftrightarrow> (\<forall>e\<in>set counts. owned_tier e = None)"
    using foldl_better_None [of None counts] b by simp
  ultimately show ?thesis by blast
qed

theorem best_pickaxe_decides_witness:
  "best_owned_pickaxe [(''stick'', JInt 0)] = Inr None \<and> owned_tier (''stick'', JInt 0) = None"
proof -
  have b: "best_owned_pickaxe [(''stick'', JInt 0)] = Inr None" by (simp add: best_owned_pickaxe_def)
  with best_pickaxe_decides [OF b] show ?thesis by simp
qed

end
