(* ===== verification/Volition.thy ===== *)
theory Volition
  imports Py_Values "HOL-Library.Char_ord" "HOL-Library.List_Lexorder"
begin

text \<open>
  Standby stances and campaigns, \<open>minebot/brain/volition.py\<close>: the gate that bounds the wakes
  an owner's stance may cause, and the campaign artifact with its validation and its edits.
  The clock readings are arguments.
\<close>

section \<open>Stances\<close>

datatype stance_kind = STANCE_NONE | STANCE_GUARD | STANCE_FOLLOW | STANCE_STANDBY

fun stance_wake_events :: "stance_kind \<Rightarrow> string set" where
  "stance_wake_events STANCE_NONE = {}"
| "stance_wake_events STANCE_GUARD = {''hostileNearby'', ''underAttack'', ''playerDamaged''}"
| "stance_wake_events STANCE_FOLLOW = {''playerMoved'', ''playerLeft'', ''hostileNearby''}"
| "stance_wake_events STANCE_STANDBY = {''hostileNearby''}"

record stance_policy =
  sp_stance :: stance_kind
  sp_granted_by :: string
  sp_max_wakes_per_minute :: int
  sp_radius :: "int option"
  sp_note :: string

definition no_stance :: stance_policy where
  "no_stance = \<lparr>sp_stance = STANCE_NONE, sp_granted_by = [], sp_max_wakes_per_minute = 4,
                sp_radius = None, sp_note = []\<rparr>"

definition stance_active :: "stance_policy \<Rightarrow> bool" where
  "stance_active p \<longleftrightarrow> sp_stance p \<noteq> STANCE_NONE \<and> sp_granted_by p \<noteq> []"

definition wake_events :: "stance_policy \<Rightarrow> string set" where
  "wake_events p = (if \<not> stance_active p then {} else stance_wake_events (sp_stance p))"

record wake_gate =
  wg_policy :: stance_policy
  wg_woke_at :: "rat list"

definition new_gate :: "stance_policy option \<Rightarrow> wake_gate" where
  "new_gate p = \<lparr>wg_policy = (case p of None \<Rightarrow> no_stance | Some q \<Rightarrow> q), wg_woke_at = []\<rparr>"

text \<open>\<open>_evict\<close> pops from the left while the oldest wake is a minute old.\<close>

definition evict :: "rat \<Rightarrow> wake_gate \<Rightarrow> wake_gate" where
  "evict now g = g\<lparr>wg_woke_at := dropWhile (\<lambda>t. now - t \<ge> 60) (wg_woke_at g)\<rparr>"

definition decide_wake :: "string \<Rightarrow> rat \<Rightarrow> wake_gate \<Rightarrow> (bool \<times> string) \<times> wake_gate" where
  "decide_wake name now g =
     (if \<not> stance_active (wg_policy g) then ((False, ''no_stance''), g)
      else if name \<notin> wake_events (wg_policy g) then ((False, ''not_stance_relevant''), g)
      else (let g' = evict now g
            in if int (length (wg_woke_at g')) \<ge> sp_max_wakes_per_minute (wg_policy g')
               then ((False, ''stance_rate_limited''), g')
               else ((True, ''stance_wake''), g')))"

definition record_wake :: "rat \<Rightarrow> wake_gate \<Rightarrow> wake_gate" where
  "record_wake now g = evict now (g\<lparr>wg_woke_at := wg_woke_at g @ [now]\<rparr>)"

section \<open>Campaigns\<close>

datatype objective_status = OBJ_PENDING | OBJ_ACTIVE | OBJ_BLOCKED | OBJ_DONE | OBJ_DROPPED

datatype campaign_status = CAMP_ACTIVE | CAMP_PAUSED | CAMP_COMPLETED | CAMP_ABANDONED

datatype goal_lock = GOAL_MUTABLE | GOAL_LOCKED

definition EVIDENCE_REQUIRED_STATUSES :: "objective_status set" where
  "EVIDENCE_REQUIRED_STATUSES = {OBJ_DONE, OBJ_BLOCKED}"

definition MAX_OBJECTIVES :: nat where "MAX_OBJECTIVES = 128"
definition MAX_TITLE_CHARS :: nat where "MAX_TITLE_CHARS = 200"
definition MAX_NOTES_CHARS :: nat where "MAX_NOTES_CHARS = 2000"

datatype campaign_error =
    CampaignIdRequired
  | TooManyObjectives
  | NodeIdRequired
  | DuplicateObjective string
  | TitleTooLong string
  | NotesTooLong string
  | UnknownDependency string string
  | SelfDependency string
  | DependencyCycle "string list"
  | UnknownObjective string
  | EvidenceMissing string objective_status
  | MissionLocked

record objective_node =
  ob_node_id :: string
  ob_title :: string
  ob_status :: objective_status
  ob_depends_on :: "string list"
  ob_evidence_handles :: "string list"
  ob_assignee_bot :: "string option"
  ob_notes :: string

record milestone_record =
  ms_milestone_id :: string
  ms_title :: string
  ms_objective_ids :: "string list"
  ms_reached_at :: string

record campaign_record =
  cr_campaign_id :: string
  cr_title :: string
  cr_mission :: string
  cr_principal_id :: string
  cr_goal_lock :: goal_lock
  cr_status :: campaign_status
  cr_objectives :: "objective_node list"
  cr_milestones :: "milestone_record list"
  cr_created_at :: string
  cr_updated_at :: string

definition objective :: "string \<Rightarrow> campaign_record \<Rightarrow> objective_node option" where
  "objective node_id c = find (\<lambda>n. ob_node_id n = node_id) (cr_objectives c)"

definition done_ids :: "campaign_record \<Rightarrow> string set" where
  "done_ids c = ob_node_id ` {n \<in> set (cr_objectives c). ob_status n = OBJ_DONE}"

definition unblocked_objectives :: "campaign_record \<Rightarrow> objective_node list" where
  "unblocked_objectives c =
     filter (\<lambda>n. ob_status n \<in> {OBJ_PENDING, OBJ_ACTIVE} \<and>
                 list_all (\<lambda>d. d \<in> done_ids c) (ob_depends_on n)) (cr_objectives c)"

definition with_objective_status ::
  "string \<Rightarrow> objective_status \<Rightarrow> string list \<Rightarrow> campaign_record \<Rightarrow> campaign_error + campaign_record" where
  "with_objective_status node_id status evidence c =
     (case objective node_id c of
        None \<Rightarrow> Inl (UnknownObjective node_id)
      | Some node \<Rightarrow>
          (let handles = filter (\<lambda>h. strip h \<noteq> []) evidence
           in if status \<in> EVIDENCE_REQUIRED_STATUSES \<and> handles = [] \<and> ob_evidence_handles node = []
              then Inl (EvidenceMissing node_id status)
              else (let updated = node\<lparr>ob_status := status,
                                       ob_evidence_handles := ob_evidence_handles node @ handles\<rparr>
                    in Inr (c\<lparr>cr_objectives :=
                              map (\<lambda>n. if ob_node_id n = node_id then updated else n) (cr_objectives c)\<rparr>))))"

definition with_mission :: "string \<Rightarrow> bool \<Rightarrow> campaign_record \<Rightarrow> campaign_error + campaign_record" where
  "with_mission mission formal_command c =
     (if cr_goal_lock c = GOAL_LOCKED \<and> \<not> formal_command then Inl MissionLocked
      else Inr (c\<lparr>cr_mission := mission\<rparr>))"

text \<open>
  \<open>validate_campaign\<close>: one pass over the nodes that collects the ids, one over the
  dependencies, then the search for a cycle.
\<close>

fun check_nodes :: "string set \<Rightarrow> objective_node list \<Rightarrow> campaign_error + string set" where
  "check_nodes seen [] = Inr seen"
| "check_nodes seen (n # ns) =
     (if strip (ob_node_id n) = [] then Inl NodeIdRequired
      else if ob_node_id n \<in> seen then Inl (DuplicateObjective (ob_node_id n))
      else if length (ob_title n) > MAX_TITLE_CHARS then Inl (TitleTooLong (ob_node_id n))
      else if length (ob_notes n) > MAX_NOTES_CHARS then Inl (NotesTooLong (ob_node_id n))
      else check_nodes (insert (ob_node_id n) seen) ns)"

fun check_deps_of :: "string set \<Rightarrow> string \<Rightarrow> string list \<Rightarrow> campaign_error option" where
  "check_deps_of seen node_id [] = None"
| "check_deps_of seen node_id (d # ds) =
     (if d \<notin> seen then Some (UnknownDependency node_id d)
      else if d = node_id then Some (SelfDependency node_id)
      else check_deps_of seen node_id ds)"

fun check_deps :: "string set \<Rightarrow> objective_node list \<Rightarrow> campaign_error option" where
  "check_deps seen [] = None"
| "check_deps seen (n # ns) =
     (case check_deps_of seen (ob_node_id n) (ob_depends_on n) of
        Some e \<Rightarrow> Some e
      | None \<Rightarrow> check_deps seen ns)"

definition dependency_map :: "objective_node list \<Rightarrow> (string, string set) pydict" where
  "dependency_map ns = fold (\<lambda>n d. AList.update (ob_node_id n) (set (ob_depends_on n)) d) ns []"

fun resolve_pass :: "(string, string set) pydict \<Rightarrow> string set \<times> bool \<Rightarrow> string set \<times> bool" where
  "resolve_pass [] s = s"
| "resolve_pass ((node_id, deps) # rest) (resolved, progressing) =
     (if node_id \<in> resolved then resolve_pass rest (resolved, progressing)
      else if deps \<subseteq> resolved then resolve_pass rest (insert node_id resolved, True)
      else resolve_pass rest (resolved, progressing))"

lemma resolve_pass_grows: "R \<subseteq> fst (resolve_pass D (R, p))"
proof (induction D arbitrary: R p)
  case (Cons x D)
  obtain n ds where x: "x = (n, ds)" by fastforce
  show ?case using Cons [of R p] Cons [of "insert n R" True] unfolding x by auto
qed simp

lemma resolve_pass_bounded: "fst (resolve_pass D (R, p)) \<subseteq> R \<union> fst ` set D"
proof (induction D arbitrary: R p)
  case (Cons x D)
  obtain n ds where x: "x = (n, ds)" by fastforce
  show ?case using Cons [of R p] Cons [of "insert n R" True] unfolding x by auto
qed simp

lemma resolve_pass_progress: "snd (resolve_pass D (R, p)) \<Longrightarrow> \<not> p \<Longrightarrow> R \<subset> fst (resolve_pass D (R, p))"
proof (induction D arbitrary: R p)
  case (Cons x D)
  obtain n ds where x: "x = (n, ds)" by fastforce
  show ?case
  proof (cases "n \<notin> R \<and> ds \<subseteq> R")
    case True
    then show ?thesis using resolve_pass_grows [of "insert n R" D True] unfolding x by auto
  next
    case False
    then show ?thesis using Cons.IH [of R p] Cons.prems unfolding x by (auto split: if_splits)
  qed
qed simp

text \<open>The \<open>while\<close> loop ends because every pass that progresses resolves another node.\<close>

function resolve_loop :: "(string, string set) pydict \<Rightarrow> string set \<Rightarrow> string set" where
  "resolve_loop D R =
     (case resolve_pass D (R, False) of (R', progressing) \<Rightarrow>
        if progressing then resolve_loop D R' else R')"
  by auto

termination
proof (relation "measure (\<lambda>(D, R). card (fst ` set D - R))")
  show "wf (measure (\<lambda>(D :: (string, string set) pydict, R). card (fst ` set D - R)))" by simp
next
  fix D :: "(string, string set) pydict" and R R' :: "string set" and progressing
  assume p: "(R', progressing) = resolve_pass D (R, False)" and pr: progressing
  then have sp: "snd (resolve_pass D (R, False))" "R' = fst (resolve_pass D (R, False))"
    by (metis snd_conv, metis fst_conv)
  have less: "R \<subset> R'" using resolve_pass_progress [OF sp(1)] sp(2) by simp
  have "R' \<subseteq> R \<union> fst ` set D" using resolve_pass_bounded [of D R False] sp(2) by simp
  with less have "fst ` set D - R' \<subset> fst ` set D - R" by blast
  then show "((D, R'), (D, R)) \<in> measure (\<lambda>(D, R). card (fst ` set D - R))"
    by (simp add: psubset_card_mono)
qed

definition require_acyclic :: "objective_node list \<Rightarrow> campaign_error option" where
  "require_acyclic ns =
     (let D = dependency_map ns;
          resolved = resolve_loop D {};
          unresolved = sort (filter (\<lambda>n. n \<notin> resolved) (map fst D))
      in if unresolved \<noteq> [] then Some (DependencyCycle unresolved) else None)"

definition validate_campaign :: "campaign_record \<Rightarrow> campaign_error + campaign_record" where
  "validate_campaign c =
     (if strip (cr_campaign_id c) = [] then Inl CampaignIdRequired
      else if length (cr_objectives c) > MAX_OBJECTIVES then Inl TooManyObjectives
      else case check_nodes {} (cr_objectives c) of
        Inl e \<Rightarrow> Inl e
      | Inr seen \<Rightarrow>
          (case check_deps seen (cr_objectives c) of
             Some e \<Rightarrow> Inl e
           | None \<Rightarrow>
               (case require_acyclic (cr_objectives c) of
                  Some e \<Rightarrow> Inl e
                | None \<Rightarrow> Inr c)))"

declare resolve_loop.simps [simp del]

section \<open>The gate bounds the wakes in every minute\<close>

text \<open>
  One event offered to the gate, as \<open>_coalesce_material_events\<close> of \<open>app/body_events.py\<close>
  does: the clock is read for the decision and, when it is granted, again for the record.
\<close>

definition offer_wake :: "string \<Rightarrow> rat \<Rightarrow> rat \<Rightarrow> wake_gate \<Rightarrow> bool \<times> wake_gate" where
  "offer_wake name t1 t2 g =
     (case decide_wake name t1 g of
        ((True, _), g') \<Rightarrow> (True, record_wake t2 g')
      | ((False, _), g') \<Rightarrow> (False, g'))"

fun wake_times :: "(string \<times> rat \<times> rat) list \<Rightarrow> wake_gate \<Rightarrow> rat list" where
  "wake_times [] g = []"
| "wake_times ((name, t1, t2) # offers) g =
     (case offer_wake name t1 t2 g of
        (True, g') \<Rightarrow> t2 # wake_times offers g'
      | (False, g') \<Rightarrow> wake_times offers g')"

definition offer_clock :: "(string \<times> rat \<times> rat) list \<Rightarrow> rat list" where
  "offer_clock offers = concat (map (\<lambda>(name, t1, t2). [t1, t2]) offers)"

definition in_minute :: "rat \<Rightarrow> rat list \<Rightarrow> nat" where
  "in_minute t xs = length (filter (\<lambda>x. t \<le> x \<and> x < t + 60) xs)"

text \<open>
  The deque holds the wakes of the history that were younger than a minute at some reading
  of the clock.
\<close>

definition gate_tracks :: "rat list \<Rightarrow> rat \<Rightarrow> wake_gate \<Rightarrow> bool" where
  "gate_tracks H now g \<longleftrightarrow> sorted H \<and> (\<forall>x\<in>set H. x \<le> now) \<and>
     (\<exists>c\<le>now. wg_woke_at g = filter (\<lambda>x. c - x < 60) H)"

lemma dropWhile_minute: "sorted xs \<Longrightarrow> dropWhile (\<lambda>t. now - t \<ge> 60) xs = filter (\<lambda>t. now - t < 60) (xs :: rat list)"
proof (induction xs)
  case (Cons x xs)
  show ?case
  proof (cases "now - x \<ge> 60")
    case False
    then have "\<forall>y\<in>set xs. now - y < 60" using Cons.prems by fastforce
    with False show ?thesis by simp
  qed (use Cons in simp)
qed simp

lemma gate_tracks_evict:
  assumes "gate_tracks H now g" "now \<le> t"
  shows "wg_woke_at (evict t g) = filter (\<lambda>x. t - x < 60) H" "gate_tracks H t (evict t g)"
proof -
  from assms(1) obtain c where c: "c \<le> now" "wg_woke_at g = filter (\<lambda>x. c - x < 60) H" "sorted H"
    unfolding gate_tracks_def by blast
  have "filter (\<lambda>x. t - x < 60) (filter (\<lambda>x. c - x < 60) H) = filter (\<lambda>x. t - x < 60) H"
    unfolding filter_filter using c(1) assms(2) by (intro filter_cong) auto
  moreover have "sorted (wg_woke_at g)" using c sorted_filter [of id] by simp
  ultimately show e: "wg_woke_at (evict t g) = filter (\<lambda>x. t - x < 60) H"
    by (simp add: evict_def dropWhile_minute c(2))
  have "\<forall>x\<in>set H. x \<le> t" using assms unfolding gate_tracks_def by fastforce
  then show "gate_tracks H t (evict t g)" unfolding gate_tracks_def e using c(3) by blast
qed

lemma gate_tracks_record:
  assumes "gate_tracks H now g" "now \<le> t"
  shows "gate_tracks (H @ [t]) t (record_wake t g)"
proof -
  from assms(1) obtain c where c: "c \<le> now" "wg_woke_at g = filter (\<lambda>x. c - x < 60) H" "sorted H"
    unfolding gate_tracks_def by blast
  have le: "\<forall>x\<in>set H. x \<le> t" using assms unfolding gate_tracks_def by fastforce
  have "gate_tracks (H @ [t]) t (g\<lparr>wg_woke_at := wg_woke_at g @ [t]\<rparr>)"
    unfolding gate_tracks_def using c le assms(2) by (auto simp: sorted_append intro!: exI [of _ c])
  from gate_tracks_evict(2) [OF this] show ?thesis unfolding record_wake_def by simp
qed

lemma gate_tracks_later: "gate_tracks H now g \<Longrightarrow> now \<le> t \<Longrightarrow> gate_tracks H t g"
  unfolding gate_tracks_def by (meson order_trans)

lemma record_wake_policy [simp]: "wg_policy (record_wake t g) = wg_policy g"
  and evict_policy [simp]: "wg_policy (evict t g) = wg_policy g"
  by (simp_all add: record_wake_def evict_def)

lemma offer_wake_tracks:
  assumes "gate_tracks H now g" "now \<le> t1" "t1 \<le> t2" "offer_wake name t1 t2 g = (w, g')"
    and bound: "\<forall>t. in_minute t H \<le> nat (sp_max_wakes_per_minute (wg_policy g))"
  shows "wg_policy g' = wg_policy g \<and> gate_tracks (if w then H @ [t2] else H) t2 g' \<and>
    (\<forall>t. in_minute t (if w then H @ [t2] else H) \<le> nat (sp_max_wakes_per_minute (wg_policy g)))"
proof (cases w)
  case True
  let ?max = "sp_max_wakes_per_minute (wg_policy g)"
  have d: "decide_wake name t1 g = ((True, ''stance_wake''), evict t1 g)"
    and room: "int (length (wg_woke_at (evict t1 g))) < ?max"
    and g': "g' = record_wake t2 (evict t1 g)"
    using assms(4) True unfolding offer_wake_def decide_wake_def
    by (auto simp: Let_def split: if_splits)
  note ev = gate_tracks_evict [OF assms(1,2)]
  have "in_minute t (H @ [t2]) \<le> nat ?max" for t
  proof (cases "t \<le> t2 \<and> t2 < t + 60")
    case True
    have "in_minute t H \<le> length (filter (\<lambda>x. t1 - x < 60) H)"
      unfolding in_minute_def using True assms(3) by (induction H) auto
    with room ev(1) True show ?thesis by (simp add: in_minute_def)
  next
    case False
    then have "in_minute t (H @ [t2]) = in_minute t H" by (auto simp: in_minute_def)
    with bound show ?thesis by simp
  qed
  with True g' gate_tracks_record [OF ev(2) assms(3)] show ?thesis by simp
next
  case False
  have "g' = g \<or> g' = evict t1 g"
    using assms(4) False unfolding offer_wake_def decide_wake_def by (auto simp: Let_def split: if_splits)
  then have "gate_tracks H t2 g' \<and> wg_policy g' = wg_policy g"
    using gate_tracks_later [OF assms(1)] gate_tracks_later [OF gate_tracks_evict(2) [OF assms(1,2)] assms(3)]
      assms(2,3) order_trans by auto
  with False bound show ?thesis by simp
qed

lemma wake_times_bound:
  assumes "gate_tracks H now g" "sorted (now # offer_clock offers)"
    and "\<forall>t. in_minute t H \<le> nat (sp_max_wakes_per_minute (wg_policy g))"
  shows "in_minute t (H @ wake_times offers g) \<le> nat (sp_max_wakes_per_minute (wg_policy g))"
  using assms
proof (induction offers arbitrary: H now g)
  case (Cons offer offers)
  obtain name t1 t2 where o: "offer = (name, t1, t2)" by (cases offer) auto
  obtain w g' where off: "offer_wake name t1 t2 g = (w, g')" by fastforce
  have clock: "now \<le> t1" "t1 \<le> t2" "sorted (t2 # offer_clock offers)"
    using Cons.prems(2) unfolding o offer_clock_def by auto
  from offer_wake_tracks [OF Cons.prems(1) clock(1,2) off Cons.prems(3)]
  have g': "wg_policy g' = wg_policy g" "gate_tracks (if w then H @ [t2] else H) t2 g'"
    "\<forall>t. in_minute t (if w then H @ [t2] else H) \<le> nat (sp_max_wakes_per_minute (wg_policy g'))" by auto
  from Cons.IH [OF g'(2) clock(3) g'(3)] show ?case
    unfolding o g'(1) by (cases w) (simp_all add: off)
qed simp

section \<open>Validation accepts exactly the well-formed acyclic campaigns\<close>

definition depends :: "objective_node list \<Rightarrow> (string \<times> string) set" where
  "depends ns = {(d, ob_node_id n) |d n. n \<in> set ns \<and> d \<in> set (ob_depends_on n)}"

definition node_ok :: "string set \<Rightarrow> objective_node \<Rightarrow> bool" where
  "node_ok ids n \<longleftrightarrow> strip (ob_node_id n) \<noteq> [] \<and> length (ob_title n) \<le> MAX_TITLE_CHARS \<and>
     length (ob_notes n) \<le> MAX_NOTES_CHARS \<and> set (ob_depends_on n) \<subseteq> ids"

definition campaign_ok :: "campaign_record \<Rightarrow> bool" where
  "campaign_ok c \<longleftrightarrow> strip (cr_campaign_id c) \<noteq> [] \<and> length (cr_objectives c) \<le> MAX_OBJECTIVES \<and>
     distinct (map ob_node_id (cr_objectives c)) \<and>
     (\<forall>n\<in>set (cr_objectives c). node_ok (ob_node_id ` set (cr_objectives c)) n) \<and>
     acyclic (depends (cr_objectives c))"

lemma check_nodes_iff:
  "check_nodes seen ns = Inr seen' \<longleftrightarrow>
     distinct (map ob_node_id ns) \<and> seen \<inter> ob_node_id ` set ns = {} \<and> seen' = seen \<union> ob_node_id ` set ns \<and>
     (\<forall>n\<in>set ns. strip (ob_node_id n) \<noteq> [] \<and> length (ob_title n) \<le> MAX_TITLE_CHARS \<and>
                 length (ob_notes n) \<le> MAX_NOTES_CHARS)"
  by (induction ns arbitrary: seen) auto

lemma check_deps_of_iff: "check_deps_of seen node_id ds = None \<longleftrightarrow> set ds \<subseteq> seen \<and> node_id \<notin> set ds"
  by (induction ds) auto

lemma check_deps_iff:
  "check_deps seen ns = None \<longleftrightarrow>
     (\<forall>n\<in>set ns. set (ob_depends_on n) \<subseteq> seen \<and> ob_node_id n \<notin> set (ob_depends_on n))"
proof (induction ns)
  case (Cons n ns)
  then show ?case
    using check_deps_of_iff [of seen "ob_node_id n" "ob_depends_on n"]
    by (cases "check_deps_of seen (ob_node_id n) (ob_depends_on n)") auto
qed simp

lemma dependency_fold:
  "distinct (map ob_node_id ns) \<Longrightarrow> fst ` set d \<inter> ob_node_id ` set ns = {} \<Longrightarrow>
   fold (\<lambda>n d. AList.update (ob_node_id n) (set (ob_depends_on n)) d) ns d =
     d @ map (\<lambda>n. (ob_node_id n, set (ob_depends_on n))) ns"
proof (induction ns arbitrary: d)
  case (Cons n ns)
  have "AList.update (ob_node_id n) (set (ob_depends_on n)) d = d @ [(ob_node_id n, set (ob_depends_on n))]"
    using Cons.prems(2) by (induction d) auto
  with Cons.IH [of "d @ [(ob_node_id n, set (ob_depends_on n))]"] Cons.prems show ?case by auto
qed simp

lemma dependency_map_distinct:
  "distinct (map ob_node_id ns) \<Longrightarrow> dependency_map ns = map (\<lambda>n. (ob_node_id n, set (ob_depends_on n))) ns"
  unfolding dependency_map_def using dependency_fold [of ns "[]"] by simp

lemma resolve_pass_stuck:
  "\<not> snd (resolve_pass D (R, p)) \<Longrightarrow> fst (resolve_pass D (R, p)) = R \<and> (\<forall>(n, ds)\<in>set D. n \<in> R \<or> \<not> ds \<subseteq> R)"
proof (induction D arbitrary: R p)
  case (Cons x D)
  obtain n ds where x: "x = (n, ds)" by fastforce
  have "snd (resolve_pass D (R', True))" for R'
    by (induction D arbitrary: R') auto
  with Cons show ?case unfolding x by (auto split: if_splits)
qed simp

lemma resolve_loop_stuck: "(n, ds) \<in> set D \<Longrightarrow> ds \<subseteq> resolve_loop D R \<Longrightarrow> n \<in> resolve_loop D R"
proof (induction D R rule: resolve_loop.induct)
  case (1 D R)
  obtain R' p where e: "resolve_pass D (R, False) = (R', p)" by fastforce
  show ?case
  proof (cases p)
    case True
    then have "resolve_loop D R = resolve_loop D R'" unfolding resolve_loop.simps [of D R] using e by simp
    with 1(1) [OF e [symmetric] True 1(2)] 1(3) show ?thesis by simp
  next
    case False
    then have st: "R' = R" "\<forall>(n, ds)\<in>set D. n \<in> R \<or> \<not> ds \<subseteq> R"
      using resolve_pass_stuck [of D R False] e by simp_all
    have "resolve_loop D R = R'" unfolding resolve_loop.simps [of D R] using e False by simp
    with st 1(2,3) show ?thesis by blast
  qed
qed

lemma resolve_pass_accessible:
  assumes "R \<subseteq> Wellfounded.acc r" "\<forall>(n, ds)\<in>set D. \<forall>d. (d, n) \<in> r \<longrightarrow> d \<in> ds"
  shows "fst (resolve_pass D (R, p)) \<subseteq> Wellfounded.acc r"
  using assms
proof (induction D arbitrary: R p)
  case (Cons x D)
  obtain n ds where x: "x = (n, ds)" by fastforce
  have preds: "\<forall>(n, ds)\<in>set D. \<forall>d. (d, n) \<in> r \<longrightarrow> d \<in> ds" using Cons.prems(2) by simp
  have "insert n R \<subseteq> Wellfounded.acc r" if "ds \<subseteq> R"
  proof -
    have "d \<in> Wellfounded.acc r" if "(d, n) \<in> r" for d
      using that \<open>ds \<subseteq> R\<close> Cons.prems unfolding x by auto
    then have "n \<in> Wellfounded.acc r" by (rule acc.accI)
    with Cons.prems(1) show ?thesis by simp
  qed
  with Cons.IH [OF Cons.prems(1) preds, of p] Cons.IH [OF _ preds, of "insert n R" True]
  show ?case unfolding x resolve_pass.simps by (simp del: insert_subset)
qed simp

lemma resolve_loop_accessible:
  "R \<subseteq> Wellfounded.acc r \<Longrightarrow> \<forall>(n, ds)\<in>set D. \<forall>d. (d, n) \<in> r \<longrightarrow> d \<in> ds \<Longrightarrow> resolve_loop D R \<subseteq> Wellfounded.acc r"
proof (induction D R rule: resolve_loop.induct)
  case (1 D R)
  obtain R' p where e: "resolve_pass D (R, False) = (R', p)" by fastforce
  have R': "R' \<subseteq> Wellfounded.acc r" using resolve_pass_accessible [OF 1(2,3), of False] e by simp
  show ?case
  proof (cases p)
    case True
    from 1(1) [OF e [symmetric] True R' 1(3)] show ?thesis
      unfolding resolve_loop.simps [of D R] using e True by simp
  next
    case False
    with R' show ?thesis unfolding resolve_loop.simps [of D R] using e by simp
  qed
qed

lemma depends_Union: "depends ns = (\<Union>n\<in>set ns. (\<lambda>d. (d, ob_node_id n)) ` set (ob_depends_on n))"
  unfolding depends_def by auto

lemma finite_depends: "finite (depends ns)"
  unfolding depends_Union by simp

lemma depends_in_ids:
  assumes "distinct (map ob_node_id ns)" "n \<in> set ns" "(d, ob_node_id n) \<in> depends ns"
  shows "d \<in> set (ob_depends_on n)"
  using assms unfolding depends_def by (auto simp: distinct_map dest: inj_onD)

lemma sort_empty: "sort xs = [] \<longleftrightarrow> xs = []"
  by (metis length_0_conv length_sort)

lemma require_acyclic_iff:
  assumes d: "distinct (map ob_node_id ns)" and closed: "\<forall>n\<in>set ns. set (ob_depends_on n) \<subseteq> ob_node_id ` set ns"
  shows "require_acyclic ns = None \<longleftrightarrow> acyclic (depends ns)"
proof -
  let ?D = "map (\<lambda>n. (ob_node_id n, set (ob_depends_on n))) ns" and ?r = "depends ns"
  let ?R = "resolve_loop ?D {}"
  have all: "require_acyclic ns = None \<longleftrightarrow> (\<forall>n\<in>set ns. ob_node_id n \<in> ?R)"
    unfolding require_acyclic_def dependency_map_distinct [OF d] Let_def
    by (auto simp: sort_empty filter_empty_conv comp_def)
  have preds: "\<forall>(n, ds)\<in>set ?D. \<forall>x. (x, n) \<in> ?r \<longrightarrow> x \<in> ds" using depends_in_ids [OF d] by auto
  have "acyclic ?r" if "\<forall>n\<in>set ns. ob_node_id n \<in> ?R"
  proof -
    have "y \<in> Wellfounded.acc ?r" if "(x, y) \<in> ?r" for x y
    proof -
      from that obtain n where "n \<in> set ns" "y = ob_node_id n" unfolding depends_def by auto
      with \<open>\<forall>n\<in>set ns. ob_node_id n \<in> ?R\<close> resolve_loop_accessible [of "{}" ?r ?D] preds show ?thesis by auto
    qed
    then have "x \<in> Wellfounded.acc ?r" for x by (meson acc.intros acc_downward)
    then show ?thesis using acc_wfI [of ?r] wf_acyclic by blast
  qed
  moreover have "\<forall>n\<in>set ns. ob_node_id n \<in> ?R" if "acyclic ?r"
  proof -
    have "wf ?r" using finite_acyclic_wf [OF finite_depends that] .
    then have "\<forall>n\<in>set ns. ob_node_id n = y \<longrightarrow> y \<in> ?R" for y
    proof (induction y rule: wf_induct_rule)
      case (less y)
      show ?case
      proof (intro ballI impI)
        fix n assume n: "n \<in> set ns" "ob_node_id n = y"
        have "set (ob_depends_on n) \<subseteq> ?R"
        proof
          fix x assume x: "x \<in> set (ob_depends_on n)"
          then have "(x, y) \<in> ?r" using n unfolding depends_def by auto
          moreover obtain m where "m \<in> set ns" "ob_node_id m = x" using closed n(1) x by auto
          ultimately show "x \<in> ?R" using less by blast
        qed
        then show "y \<in> ?R" using resolve_loop_stuck [of y "set (ob_depends_on n)" ?D "{}"] n by auto
      qed
    qed
    then show ?thesis by blast
  qed
  ultimately show ?thesis using all by blast
qed

lemma validate_campaign_iff: "validate_campaign c = Inr c' \<longleftrightarrow> c' = c \<and> campaign_ok c"
proof (cases "strip (cr_campaign_id c) = [] \<or> length (cr_objectives c) > MAX_OBJECTIVES")
  case False
  let ?ns = "cr_objectives c"
  show ?thesis
  proof (cases "check_nodes {} ?ns")
    case (Inl e)
    then have "\<not> campaign_ok c"
      using check_nodes_iff [of "{}" ?ns "ob_node_id ` set ?ns"] unfolding campaign_ok_def node_ok_def by auto
    with False Inl show ?thesis by (simp add: validate_campaign_def)
  next
    case (Inr seen)
    then have n: "distinct (map ob_node_id ?ns)" "seen = ob_node_id ` set ?ns"
      "\<forall>n\<in>set ?ns. strip (ob_node_id n) \<noteq> [] \<and> length (ob_title n) \<le> MAX_TITLE_CHARS \<and>
                   length (ob_notes n) \<le> MAX_NOTES_CHARS" by (auto simp: check_nodes_iff)
    have self: "ob_node_id n \<notin> set (ob_depends_on n)" if "acyclic (depends ?ns)" "n \<in> set ?ns" for n
      using that unfolding depends_def acyclic_def by blast
    show ?thesis
    proof (cases "check_deps seen ?ns")
      case None
      then have "\<forall>n\<in>set ?ns. set (ob_depends_on n) \<subseteq> ob_node_id ` set ?ns" by (simp add: check_deps_iff n(2))
      with n require_acyclic_iff [of ?ns] False have "campaign_ok c \<longleftrightarrow> require_acyclic ?ns = None"
        unfolding campaign_ok_def node_ok_def by auto
      with False Inr None show ?thesis by (auto simp: validate_campaign_def split: option.splits)
    next
      case (Some e)
      then have "\<not> campaign_ok c" using check_deps_iff [of seen ?ns] self n(2) unfolding campaign_ok_def node_ok_def by auto
      with False Inr Some show ?thesis by (simp add: validate_campaign_def)
    qed
  qed
qed (auto simp: validate_campaign_def campaign_ok_def)

section \<open>Edits\<close>

datatype campaign_edit = SetStatus string objective_status "string list" | SetMission string bool

fun apply_edit :: "campaign_edit \<Rightarrow> campaign_record \<Rightarrow> campaign_error + campaign_record" where
  "apply_edit (SetStatus node_id status evidence) c = with_objective_status node_id status evidence c"
| "apply_edit (SetMission mission formal_command) c = with_mission mission formal_command c"

definition edit_campaign :: "campaign_edit \<Rightarrow> campaign_record \<Rightarrow> campaign_record" where
  "edit_campaign e c = (case apply_edit e c of Inl _ \<Rightarrow> c | Inr c' \<Rightarrow> c')"

fun is_formal :: "campaign_edit \<Rightarrow> bool" where
  "is_formal (SetStatus _ _ _) = False"
| "is_formal (SetMission _ formal_command) = formal_command"

definition evidenced :: "campaign_record \<Rightarrow> bool" where
  "evidenced c \<longleftrightarrow> (\<forall>n\<in>set (cr_objectives c). ob_status n \<in> EVIDENCE_REQUIRED_STATUSES \<longrightarrow> ob_evidence_handles n \<noteq> [])"

text \<open>An edit of a status keeps everything validation looks at.\<close>

lemma restatus_objectives:
  assumes "with_objective_status node_id status evidence c = Inr c'"
  shows "\<exists>f. c' = c\<lparr>cr_objectives := map f (cr_objectives c)\<rparr> \<and>
    (\<forall>n\<in>set (cr_objectives c). ob_node_id (f n) = ob_node_id n) \<and>
    (distinct (map ob_node_id (cr_objectives c)) \<longrightarrow>
       (\<forall>n\<in>set (cr_objectives c). f n = n \<or>
          f n = n\<lparr>ob_status := status, ob_evidence_handles := ob_evidence_handles (f n)\<rparr> \<and>
          (status \<in> EVIDENCE_REQUIRED_STATUSES \<longrightarrow> ob_evidence_handles (f n) \<noteq> [])))"
proof -
  obtain node where o: "objective node_id c = Some node"
    using assms unfolding with_objective_status_def by (auto split: option.splits)
  then have node: "node \<in> set (cr_objectives c)" "ob_node_id node = node_id"
    unfolding objective_def by (auto simp: find_Some_iff)
  define hs where "hs = ob_evidence_handles node @ filter (\<lambda>h. strip h \<noteq> []) evidence"
  define f where "f n = (if ob_node_id n = node_id
    then node\<lparr>ob_status := status, ob_evidence_handles := hs\<rparr> else n)" for n
  have c': "c' = c\<lparr>cr_objectives := map f (cr_objectives c)\<rparr>"
    and hs: "status \<in> EVIDENCE_REQUIRED_STATUSES \<longrightarrow> hs \<noteq> []"
    using assms unfolding with_objective_status_def o f_def hs_def by (auto simp: Let_def split: if_splits)
  have "n = node" if "distinct (map ob_node_id (cr_objectives c))" "n \<in> set (cr_objectives c)" "ob_node_id n = node_id" for n
    using that node by (metis distinct_map inj_onD)
  then show ?thesis using c' hs node(2) by (intro exI [of _ f]) (auto simp: f_def)
qed

lemma depends_map:
  assumes "\<forall>n\<in>set ns. ob_node_id (f n) = ob_node_id n \<and> ob_depends_on (f n) = ob_depends_on n"
  shows "depends (map f ns) = depends ns"
  unfolding depends_Union using assms by simp

lemma edit_keeps_ok:
  assumes "campaign_ok c" "evidenced c" "apply_edit e c = Inr c'"
  shows "campaign_ok c' \<and> evidenced c'"
proof (cases e)
  case (SetStatus node_id status evidence)
  let ?ns = "cr_objectives c"
  have d: "distinct (map ob_node_id ?ns)" using assms(1) by (simp add: campaign_ok_def)
  from restatus_objectives [of node_id status evidence c c'] assms(3) d SetStatus
  obtain f where c': "c' = c\<lparr>cr_objectives := map f ?ns\<rparr>"
    and f: "\<forall>n\<in>set ?ns. ob_node_id (f n) = ob_node_id n"
      "\<forall>n\<in>set ?ns. f n = n \<or>
          f n = n\<lparr>ob_status := status, ob_evidence_handles := ob_evidence_handles (f n)\<rparr> \<and>
          (status \<in> EVIDENCE_REQUIRED_STATUSES \<longrightarrow> ob_evidence_handles (f n) \<noteq> [])" by auto
  have keep: "ob_depends_on (f n) = ob_depends_on n \<and> ob_title (f n) = ob_title n \<and> ob_notes (f n) = ob_notes n"
    if "n \<in> set ?ns" for n
  proof -
    from f(2) that consider "f n = n"
      | "f n = n\<lparr>ob_status := status, ob_evidence_handles := ob_evidence_handles (f n)\<rparr>" by blast
    then show ?thesis
    proof cases
      case 2
      show ?thesis by (subst (1 2 3) 2) simp
    qed simp
  qed
  have ids: "map ob_node_id (map f ?ns) = map ob_node_id ?ns" using f(1) by simp
  then have ids': "ob_node_id ` set (map f ?ns) = ob_node_id ` set ?ns" by (metis set_map)
  have "campaign_ok c'"
    unfolding campaign_ok_def c' using assms(1) f(1) keep ids ids' depends_map [of ?ns f]
    by (simp add: campaign_ok_def node_ok_def del: map_map)
  moreover have "evidenced c'"
    unfolding evidenced_def c'
  proof (simp, intro ballI impI)
    fix n assume n: "n \<in> set ?ns" and st: "ob_status (f n) \<in> EVIDENCE_REQUIRED_STATUSES"
    from f(2) n consider "f n = n"
      | "f n = n\<lparr>ob_status := status, ob_evidence_handles := ob_evidence_handles (f n)\<rparr>"
        "status \<in> EVIDENCE_REQUIRED_STATUSES \<longrightarrow> ob_evidence_handles (f n) \<noteq> []" by blast
    then show "ob_evidence_handles (f n) \<noteq> []"
    proof cases
      case 1
      with st n assms(2) show ?thesis unfolding evidenced_def by auto
    next
      case 2
      have "ob_status (f n) = status" by (subst 2(1)) simp
      with st 2(2) show ?thesis by simp
    qed
  qed
  ultimately show ?thesis by simp
next
  case (SetMission mission formal_command)
  then have "c' = c\<lparr>cr_mission := mission\<rparr>" using assms(3) by (auto simp: with_mission_def split: if_splits)
  with assms(1,2) show ?thesis by (simp add: campaign_ok_def evidenced_def)
qed

lemma edit_keeps_mission:
  assumes "cr_goal_lock c = GOAL_LOCKED" "\<not> is_formal e"
  shows "cr_mission (edit_campaign e c) = cr_mission c \<and> cr_goal_lock (edit_campaign e c) = GOAL_LOCKED"
proof (cases e)
  case (SetStatus node_id status evidence)
  with assms show ?thesis
    by (auto simp: edit_campaign_def with_objective_status_def Let_def split: sum.splits option.splits if_splits)
qed (use assms in \<open>simp add: edit_campaign_def with_mission_def\<close>)

lemma edits_keep_ok: "campaign_ok c \<Longrightarrow> evidenced c \<Longrightarrow> campaign_ok (fold edit_campaign es c) \<and> evidenced (fold edit_campaign es c)"
proof (induction es arbitrary: c)
  case (Cons e es)
  have "campaign_ok (edit_campaign e c) \<and> evidenced (edit_campaign e c)"
    using edit_keeps_ok [OF Cons.prems] Cons.prems by (simp add: edit_campaign_def split: sum.split)
  with Cons.IH show ?case by simp
qed simp

lemma edits_keep_mission:
  "cr_goal_lock c = GOAL_LOCKED \<Longrightarrow> \<forall>e\<in>set es. \<not> is_formal e \<Longrightarrow> cr_mission (fold edit_campaign es c) = cr_mission c"
  using edit_keeps_mission by (induction es arbitrary: c) auto

section \<open>Properties\<close>

text \<open>
  Standby stays near zero: however many events are offered to a new gate, in no span of
  sixty seconds does it record more wakes than the owner's bound, as long as the clock does
  not run backwards.
\<close>

lemma stance_wakes_bounded:
  assumes "sorted (offer_clock offers)"
  shows "in_minute t (wake_times offers (new_gate p)) \<le>
         nat (sp_max_wakes_per_minute (wg_policy (new_gate p)))"
proof (cases "offer_clock offers")
  case Nil
  then have "offers = []" unfolding offer_clock_def by (cases offers) auto
  then show ?thesis by (simp add: in_minute_def)
next
  case (Cons c cs)
  have "gate_tracks [] c (new_gate p)" unfolding gate_tracks_def new_gate_def by (auto intro: exI [of _ c])
  moreover have "sorted (c # offer_clock offers)" using assms Cons by auto
  ultimately show ?thesis using wake_times_bound [of "[]" c "new_gate p" offers t] by (simp add: in_minute_def)
qed

definition guard_gate :: "stance_policy" where
  "guard_gate = no_stance\<lparr>sp_stance := STANCE_GUARD, sp_granted_by := ''owner'', sp_max_wakes_per_minute := 1\<rparr>"

theorem stance_wakes_bounded_witness:
  "wake_times [(''underAttack'', 0, 1), (''underAttack'', 30, 30), (''underAttack'', 61, 62)]
     (new_gate (Some guard_gate)) = [1, 62] \<and>
   in_minute 1 [1, 62] \<le> 1"
proof -
  have w: "wake_times [(''underAttack'', 0, 1), (''underAttack'', 30, 30), (''underAttack'', 61, 62)]
     (new_gate (Some guard_gate)) = [1, 62]"
    by (simp add: guard_gate_def no_stance_def new_gate_def offer_wake_def decide_wake_def record_wake_def
        evict_def stance_active_def wake_events_def Let_def)
  have "sorted (offer_clock [(''underAttack'', 0, 1), (''underAttack'', 30, 30), (''underAttack'', 61, 62)])"
    by (simp add: offer_clock_def)
  from stance_wakes_bounded [OF this, of 1 "Some guard_gate"] w show ?thesis
    by (simp add: new_gate_def guard_gate_def no_stance_def)
qed

text \<open>
  Validation decides the structure of a campaign: it returns the campaign unchanged
  exactly when the ids are present and distinct, the sizes are within bounds, every
  dependency names an objective and the dependency graph has no cycle; the loop that looks
  for a cycle terminates and misses none.
\<close>

lemma validate_campaign_decides:
  "validate_campaign c = Inr c' \<longleftrightarrow> c' = c \<and> campaign_ok c"
  by (rule validate_campaign_iff)

text \<open>
  A valid campaign does not deadlock: while an objective is not done and none is
  blocked or dropped, some objective has all its dependencies done and is offered.
\<close>

lemma valid_campaign_has_next_objective:
  assumes "validate_campaign c = Inr c'" and "n \<in> set (cr_objectives c)" and "ob_status n \<noteq> OBJ_DONE"
    and "\<forall>m\<in>set (cr_objectives c). ob_status m \<notin> {OBJ_BLOCKED, OBJ_DROPPED}"
  shows "unblocked_objectives c \<noteq> []"
proof -
  have ok: "campaign_ok c" using assms(1) validate_campaign_iff by blast
  let ?open = "ob_node_id ` {m \<in> set (cr_objectives c). ob_status m \<noteq> OBJ_DONE}"
  have "wf (depends (cr_objectives c))"
    using ok finite_acyclic_wf [OF finite_depends] by (simp add: campaign_ok_def)
  moreover have "ob_node_id n \<in> ?open" using assms(2,3) by blast
  ultimately obtain z where z: "z \<in> ?open" "\<And>y. (y, z) \<in> depends (cr_objectives c) \<Longrightarrow> y \<notin> ?open"
    by (rule wfE_min) blast
  from z(1) obtain m where m: "m \<in> set (cr_objectives c)" "ob_status m \<noteq> OBJ_DONE" "ob_node_id m = z" by auto
  have "d \<in> done_ids c" if d: "d \<in> set (ob_depends_on m)" for d
  proof -
    have "(d, z) \<in> depends (cr_objectives c)" using d m unfolding depends_def by auto
    with z(2) have "d \<notin> ?open" by blast
    moreover have "d \<in> ob_node_id ` set (cr_objectives c)"
      using ok d m(1) unfolding campaign_ok_def node_ok_def by blast
    ultimately show ?thesis unfolding done_ids_def by auto
  qed
  moreover have "ob_status m \<in> {OBJ_PENDING, OBJ_ACTIVE}"
    using assms(4) m(1,2) by (cases "ob_status m") auto
  ultimately have "m \<in> set (unblocked_objectives c)"
    using m(1) by (simp add: unblocked_objectives_def list_all_iff)
  then show ?thesis by auto
qed

definition demo_objective :: "string \<Rightarrow> string list \<Rightarrow> objective_node" where
  "demo_objective node_id deps =
     \<lparr>ob_node_id = node_id, ob_title = [], ob_status = OBJ_PENDING, ob_depends_on = deps,
      ob_evidence_handles = [], ob_assignee_bot = None, ob_notes = []\<rparr>"

definition demo_campaign :: campaign_record where
  "demo_campaign =
     \<lparr>cr_campaign_id = ''c'', cr_title = [], cr_mission = ''dragon'', cr_principal_id = [],
      cr_goal_lock = GOAL_LOCKED, cr_status = CAMP_ACTIVE,
      cr_objectives = [demo_objective ''b'' [''a''], demo_objective ''a'' []],
      cr_milestones = [], cr_created_at = [], cr_updated_at = []\<rparr>"

lemma demo_campaign_valid: "validate_campaign demo_campaign = Inr demo_campaign"
proof -
  have "acyclic {(''a'', ''b'')}" by (simp add: acyclic_insert) (simp add: acyclic_def)
  moreover have "depends (cr_objectives demo_campaign) = {(''a'', ''b'')}"
    by (simp add: depends_Union demo_campaign_def demo_objective_def)
  ultimately have "campaign_ok demo_campaign"
    by (simp add: campaign_ok_def) (simp add: demo_campaign_def demo_objective_def node_ok_def strip_def is_space_def
      MAX_OBJECTIVES_def MAX_TITLE_CHARS_def MAX_NOTES_CHARS_def)
  then show ?thesis by (simp add: validate_campaign_iff)
qed

theorem valid_campaign_has_next_objective_witness:
  "unblocked_objectives demo_campaign \<noteq> []"
proof (rule valid_campaign_has_next_objective [OF demo_campaign_valid])
  show "demo_objective ''a'' [] \<in> set (cr_objectives demo_campaign)" by (simp add: demo_campaign_def)
qed (simp_all add: demo_objective_def demo_campaign_def)

text \<open>
  Edits keep a campaign truthful: whatever status and mission edits are tried, refused
  ones included, a valid campaign stays valid, no objective is done or blocked without
  evidence, and without a formal command a locked mission stays what it was.
\<close>

lemma campaign_edits_stay_truthful:
  assumes "validate_campaign c = Inr c" and "evidenced c" and "c' = fold edit_campaign es c"
  shows "validate_campaign c' = Inr c' \<and> evidenced c' \<and>
    (cr_goal_lock c = GOAL_LOCKED \<longrightarrow> (\<forall>e\<in>set es. \<not> is_formal e) \<longrightarrow> cr_mission c' = cr_mission c)"
  using edits_keep_ok [of c es] edits_keep_mission [of c es] assms by (simp add: validate_campaign_iff)

theorem campaign_edits_stay_truthful_witness:
  "cr_mission (fold edit_campaign [SetMission ''rest'' False, SetStatus ''a'' OBJ_DONE [''h'']] demo_campaign) = ''dragon''"
proof -
  have "evidenced demo_campaign"
    by (simp add: evidenced_def demo_campaign_def demo_objective_def EVIDENCE_REQUIRED_STATUSES_def)
  from campaign_edits_stay_truthful [OF demo_campaign_valid this refl, of "[SetMission ''rest'' False, SetStatus ''a'' OBJ_DONE [''h'']]"]
  show ?thesis by (simp add: demo_campaign_def)
qed

end
