(* ===== verification/Body_Events.thy ===== *)
theory Body_Events
  imports Work_Queue Volition
begin

text \<open>
  The Body event pump, \<open>minebot/app/body_events.py\<close>: where a restarted pump resumes, which
  events are material, how a poll is coalesced and admitted to the work queue. The Body is a
  parameter: what a poll returned and the sequence number it reached are arguments, as are
  the fresh intent ids and the clock readings offered to the stance gate.
\<close>

section \<open>Material events\<close>

definition ALWAYS_MATERIAL_BODY_EVENTS :: "string set" where
  "ALWAYS_MATERIAL_BODY_EVENTS =
     {''death'', ''bodyMissing'', ''respawned'', ''underAttack'', ''mobilityBlocked''}"

definition TASK_TERMINAL_BODY_EVENTS :: "string set" where
  "TASK_TERMINAL_BODY_EVENTS =
     {''action_terminal'', ''moveDone'', ''navigateDone'', ''lookDone'', ''jumpDone'', ''selectSlotDone'',
      ''selectItemDone'', ''stopDone'', ''mineDone'', ''placeDone'', ''useDone'', ''rangedDone'',
      ''igniteDone'', ''sowDone'', ''attackDone'', ''engageDone'', ''followDone'', ''craftDone'',
      ''containerDone'', ''furnaceDone'', ''dropDone'', ''handoffDone'', ''moveItemDone'', ''itemPickup''}"

text \<open>\<open>str(data.get(key) or "")\<close>\<close>

definition text_at :: "(json \<Rightarrow> string) \<Rightarrow> json_object \<Rightarrow> string \<Rightarrow> string" where
  "text_at show_other d key = (let v = dget d key in if truthy v then py_str show_other v else [])"

text \<open>\<open>condition.partition(":")\<close>: the text before the first colon, whether there is one, and the rest.\<close>

definition partition_colon :: "string \<Rightarrow> string \<times> bool \<times> string" where
  "partition_colon s =
     (takeWhile (\<lambda>c. c \<noteq> CHR '':'') s, CHR '':'' \<in> set s, drop 1 (dropWhile (\<lambda>c. c \<noteq> CHR '':'') s))"

definition entity_values :: "(json \<Rightarrow> string) \<Rightarrow> event \<Rightarrow> string set" where
  "entity_values show_other e =
     (\<lambda>key. lower (strip (text_at show_other (ev_data e) key))) `
       {''entity'', ''entity_id'', ''uuid'', ''target'', ''target_uuid'', ''name'', ''attacker''}"

definition condition_matches :: "(json \<Rightarrow> string) \<Rightarrow> event \<Rightarrow> string \<Rightarrow> bool" where
  "condition_matches show_other e raw =
     (let condition = strip raw;
          event_name = lower (strip (ev_name e));
          action_id = lower (strip (text_at show_other (ev_data e) ''action_id''))
      in if condition = [] then False
         else case partition_colon condition of (key, separator, v) \<Rightarrow>
           (if \<not> separator then lower condition = event_name
            else (let normalized = lower (strip v);
                      prefix = lower (strip key)
                  in prefix = ''event'' \<and> normalized = event_name \<or>
                     prefix = ''action'' \<and> normalized \<noteq> [] \<and> normalized = action_id \<or>
                     prefix = ''entity'' \<and> normalized \<noteq> [] \<and> normalized \<in> entity_values show_other e)))"

definition event_matches_wait_conditions :: "(json \<Rightarrow> string) \<Rightarrow> event \<Rightarrow> string list \<Rightarrow> bool" where
  "event_matches_wait_conditions show_other e conditions = list_ex (condition_matches show_other e) conditions"

definition always_material :: "event \<Rightarrow> bool" where
  "always_material e \<longleftrightarrow> ev_name e \<in> ALWAYS_MATERIAL_BODY_EVENTS"

definition awaited_terminal :: "(json \<Rightarrow> string) \<Rightarrow> bool \<Rightarrow> string list \<Rightarrow> event \<Rightarrow> bool" where
  "awaited_terminal show_other task_waiting wait_for e \<longleftrightarrow>
     task_waiting \<and> ev_name e \<in> TASK_TERMINAL_BODY_EVENTS \<and>
     event_matches_wait_conditions show_other e wait_for"

section \<open>Coalescing\<close>

definition event_key :: "(json \<Rightarrow> string) \<Rightarrow> event \<Rightarrow> string \<times> string" where
  "event_key show_other e = (ev_name e, text_at show_other (ev_data e) ''action_id'')"

text \<open>Whether one event is selected; only an event that is not material by itself meets the gate.\<close>

definition admit_event ::
  "(event \<Rightarrow> bool) \<Rightarrow> rat \<times> rat \<Rightarrow> event \<Rightarrow> wake_gate option \<Rightarrow> bool \<times> wake_gate option" where
  "admit_event material clock e gate =
     (if material e then (True, gate)
      else case gate of
        None \<Rightarrow> (False, None)
      | Some g \<Rightarrow> (case offer_wake (ev_name e) (fst clock) (snd clock) g of (w, g') \<Rightarrow> (w, Some g')))"

fun select_events ::
  "(json \<Rightarrow> string) \<Rightarrow> (event \<Rightarrow> bool) \<Rightarrow> (event \<times> rat \<times> rat) list \<Rightarrow> wake_gate option
   \<Rightarrow> (string \<times> string, event) pydict \<Rightarrow> (string \<times> string, event) pydict \<times> wake_gate option" where
  "select_events show_other material [] gate selected = (selected, gate)"
| "select_events show_other material ((e, clock) # events) gate selected =
     (case admit_event material clock e gate of
        (True, gate') \<Rightarrow>
          select_events show_other material events gate' (AList.update (event_key show_other e) e selected)
      | (False, gate') \<Rightarrow> select_events show_other material events gate' selected)"

definition coalesce_material_events ::
  "(json \<Rightarrow> string) \<Rightarrow> bool \<Rightarrow> string list \<Rightarrow> (event \<times> rat \<times> rat) list \<Rightarrow> wake_gate option
   \<Rightarrow> event list \<times> wake_gate option" where
  "coalesce_material_events show_other task_waiting wait_for events gate =
     (case select_events show_other
             (\<lambda>e. always_material e \<or> awaited_terminal show_other task_waiting wait_for e) events gate [] of
        (selected, gate') \<Rightarrow> (sort_key ev_seq (map snd selected), gate'))"

section \<open>The pump\<close>

record event_pump =
  ep_queue :: work_queue
  ep_gate :: "wake_gate option"
  ep_epoch :: string
  ep_initial_owner :: "string option"
  ep_last_seq :: int
  ep_last_chat_seq :: int
  ep_cursor :: "(int \<times> int \<times> string) option"

text \<open>\<open>max(0, int(head.get(key) or 0))\<close>\<close>

definition head_counter :: "json_object \<Rightarrow> string \<Rightarrow> py_exn + int" where
  "head_counter head key =
     map_sum id (max 0) (let v = dget head key in if truthy v then py_int v else Inr 0)"

text \<open>
  A pump resumes where the durable cursor left off when that cursor is of the Body's event
  epoch and not past its head; a new scope starts at the head, any other cursor at zero.
\<close>

definition resume_at :: "string \<Rightarrow> int \<Rightarrow> int \<Rightarrow> (int \<times> int \<times> string) option \<Rightarrow> int \<times> int" where
  "resume_at epoch head_seq head_chat persisted =
     (case persisted of
        None \<Rightarrow> (head_seq, head_chat)
      | Some (seq, chat, stored_epoch) \<Rightarrow>
          (if stored_epoch = epoch \<and> seq \<le> head_seq \<and> chat \<le> head_chat then (seq, chat) else (0, 0)))"

definition start_pump ::
  "(json \<Rightarrow> string) \<Rightarrow> json_object \<Rightarrow> (int \<times> int \<times> string) option \<Rightarrow> work_queue \<Rightarrow> wake_gate option
   \<Rightarrow> py_exn + event_pump" where
  "start_pump show_other head persisted q gate =
     (case map_of head ''epoch'' of
        None \<Rightarrow> Inl KeyError
      | Some ev \<Rightarrow>
          (let epoch = py_str show_other ev;
               owner = (case dget head ''owner'' of JNull \<Rightarrow> None | v \<Rightarrow> Some (py_str show_other v))
           in case head_counter head ''event_seq'' of
                Inl x \<Rightarrow> Inl x
              | Inr head_seq \<Rightarrow>
                  (case head_counter head ''chat_seq'' of
                     Inl x \<Rightarrow> Inl x
                   | Inr head_chat \<Rightarrow>
                       (case resume_at epoch head_seq head_chat persisted of (seq, chat) \<Rightarrow>
                          Inr \<lparr>ep_queue = q, ep_gate = gate, ep_epoch = epoch, ep_initial_owner = owner,
                               ep_last_seq = seq, ep_last_chat_seq = chat,
                               ep_cursor = Some (seq, chat, epoch)\<rparr>))))"

definition body_dedupe_key :: "string \<Rightarrow> event \<Rightarrow> string" where
  "body_dedupe_key epoch e = ''body:'' @ epoch @ '':'' @ str_of_int (ev_seq e)"

definition event_payload :: "event \<Rightarrow> string option \<Rightarrow> json_object" where
  "event_payload e wait_checkpoint =
     [(''event'', JDict [(''seq'', JInt (ev_seq e)), (''tick'', JInt (ev_tick e)), (''bot'', JStr (ev_bot e)),
                         (''name'', JStr (ev_name e)), (''data'', JDict (ev_data e))]),
      (''wait_checkpoint_id'',
         if ev_name e \<in> TASK_TERMINAL_BODY_EVENTS
         then (case wait_checkpoint of None \<Rightarrow> JNull | Some c \<Rightarrow> JStr c) else JNull)]"

definition admit_body_event ::
  "string \<Rightarrow> string option \<Rightarrow> int option \<Rightarrow> string option \<Rightarrow> string \<Rightarrow> event \<Rightarrow> work_queue
   \<Rightarrow> work_intent \<times> work_queue" where
  "admit_body_event epoch task_id generation wait_checkpoint fresh e q =
     enqueue fresh WK_BODY_EVENT ''body_event'' (event_payload e wait_checkpoint)
       (Some (body_dedupe_key epoch e)) task_id
       (if ev_name e \<in> TASK_TERMINAL_BODY_EVENTS then generation else None) q"

text \<open>The loop over the selected events; the count is of the intents that are still queued.\<close>

fun admit_body_events ::
  "string \<Rightarrow> string option \<Rightarrow> int option \<Rightarrow> string option \<Rightarrow> string list \<Rightarrow> event list \<Rightarrow> work_queue
   \<Rightarrow> nat \<times> work_queue" where
  "admit_body_events epoch task_id generation wait_checkpoint (f # fresh) (e # events) q =
     (case admit_body_event epoch task_id generation wait_checkpoint f e q of (intent, q') \<Rightarrow>
        (case admit_body_events epoch task_id generation wait_checkpoint fresh events q' of (n, q'') \<Rightarrow>
           ((if queued intent then n + 1 else n), q'')))"
| "admit_body_events epoch task_id generation wait_checkpoint _ _ q = (0, q)"

record poll_result =
  pr_observed :: nat
  pr_material :: nat
  pr_enqueued :: nat
  pr_last_seq :: int
  pr_epoch :: string

definition acknowledge_cursor :: "event_pump \<Rightarrow> event_pump" where
  "acknowledge_cursor p = p\<lparr>ep_cursor := Some (ep_last_seq p, ep_last_chat_seq p, ep_epoch p)\<rparr>"

definition poll_once ::
  "(json \<Rightarrow> string) \<Rightarrow> string list \<Rightarrow> string option \<Rightarrow> int option \<Rightarrow> bool \<Rightarrow> string option \<Rightarrow> string list
   \<Rightarrow> (event \<times> rat \<times> rat) list \<Rightarrow> int \<Rightarrow> event_pump \<Rightarrow> poll_result \<times> event_pump" where
  "poll_once show_other fresh task_id generation task_waiting wait_checkpoint wait_for events reached p =
     (case coalesce_material_events show_other task_waiting wait_for events (ep_gate p) of
        (selected, gate') \<Rightarrow>
          (case admit_body_events (ep_epoch p) task_id generation wait_checkpoint fresh selected (ep_queue p) of
             (n, q') \<Rightarrow>
               (\<lparr>pr_observed = length events, pr_material = length selected, pr_enqueued = n,
                 pr_last_seq = reached, pr_epoch = ep_epoch p\<rparr>,
                acknowledge_cursor (p\<lparr>ep_queue := q', ep_gate := gate', ep_last_seq := reached\<rparr>))))"

section \<open>What is selected\<close>

definition keyed :: "(json \<Rightarrow> string) \<Rightarrow> (string \<times> string, event) pydict \<Rightarrow> bool" where
  "keyed show_other selected \<longleftrightarrow>
     distinct (map fst selected) \<and> (\<forall>(k, e)\<in>set selected. k = event_key show_other e)"

lemma keyed_update: "keyed so selected \<Longrightarrow> keyed so (AList.update (event_key so e) e selected)"
  unfolding keyed_def by (auto simp: set_update_distinct distinct_update)

lemma select_events_keyed: "keyed so selected \<Longrightarrow> keyed so (fst (select_events so mat evs gate selected))"
proof (induction evs arbitrary: gate selected)
  case (Cons x evs)
  obtain e c where x: "x = (e, c)" by (cases x)
  obtain w g where w: "admit_event mat c e gate = (w, g)" by fastforce
  show ?case using Cons.IH [OF Cons.prems] Cons.IH [OF keyed_update [OF Cons.prems]]
    unfolding x by (cases w) (simp_all add: w)
qed simp

lemma select_events_append:
  "select_events so mat (xs @ ys) gate selected =
     (case select_events so mat xs gate selected of (s, g) \<Rightarrow> select_events so mat ys g s)"
proof (induction xs arbitrary: gate selected)
  case (Cons x xs)
  obtain e c where x: "x = (e, c)" by (cases x)
  obtain w g where w: "admit_event mat c e gate = (w, g)" by fastforce
  show ?case unfolding x by (cases w) (simp_all add: w Cons.IH)
qed simp

lemma select_events_replaces:
  "map_of selected k = Some r0 \<Longrightarrow>
   \<exists>r. map_of (fst (select_events so mat evs gate selected)) k = Some r \<and> r \<in> insert r0 (fst ` set evs)"
proof (induction evs arbitrary: gate selected r0)
  case (Cons x evs)
  obtain e c where x: "x = (e, c)" by (cases x)
  obtain w g where w: "admit_event mat c e gate = (w, g)" by fastforce
  show ?case
  proof (cases "w \<and> event_key so e = k")
    case True
    have "map_of (AList.update (event_key so e) e selected) k = Some e" using True by simp
    from Cons.IH [OF this, of g] True show ?thesis unfolding x by (auto simp: w)
  next
    case False
    have "map_of (if w then AList.update (event_key so e) e selected else selected) k = Some r0"
      using False Cons.prems by auto
    from Cons.IH [OF this, of g] show ?thesis unfolding x by (cases w) (auto simp: w)
  qed
qed simp

lemma select_events_material:
  assumes "mat e"
  shows "\<exists>r. map_of (fst (select_events so mat (pre @ (e, c) # post) gate selected)) (event_key so e) = Some r \<and>
           r \<in> insert e (fst ` set post)"
proof -
  obtain s g where s: "select_events so mat pre gate selected = (s, g)" by fastforce
  have "map_of (AList.update (event_key so e) e s) (event_key so e) = Some e" by simp
  from select_events_replaces [OF this, of so mat post g] assms show ?thesis
    by (simp add: select_events_append s admit_event_def)
qed

lemma select_events_ungated:
  "select_events so mat evs None selected = (s, g) \<Longrightarrow>
     g = None \<and> (\<forall>(k, e)\<in>set s. (k, e) \<in> set selected \<or> mat e \<and> e \<in> fst ` set evs)"
proof (induction evs arbitrary: selected)
  case (Cons x evs)
  obtain e c where x: "x = (e, c)" by (cases x)
  show ?case
  proof (cases "mat e")
    case True
    then have "select_events so mat evs None (AList.update (event_key so e) e selected) = (s, g)"
      using Cons.prems unfolding x by (simp add: admit_event_def)
    from Cons.IH [OF this] True show ?thesis
      unfolding x using set_update_cases [of _ "event_key so e" e selected] by fastforce
  next
    case False
    then have "select_events so mat evs None selected = (s, g)"
      using Cons.prems unfolding x by (simp add: admit_event_def)
    from Cons.IH [OF this] show ?thesis unfolding x by fastforce
  qed
qed simp

lemma select_events_clockless:
  "map fst evs = map fst evs' \<Longrightarrow> select_events so mat evs None selected = select_events so mat evs' None selected"
proof (induction evs arbitrary: evs' selected)
  case (Cons x evs)
  obtain e c where x: "x = (e, c)" by (cases x)
  from Cons.prems obtain c' es where e': "evs' = (e, c') # es" "map fst evs = map fst es"
    unfolding x by (cases evs') auto
  show ?case unfolding x e'(1) by (simp add: admit_event_def Cons.IH [OF e'(2)])
qed simp

section \<open>Redelivery\<close>

definition recorded :: "string \<Rightarrow> event \<Rightarrow> work_queue \<Rightarrow> bool" where
  "recorded epoch e q \<longleftrightarrow>
     (\<exists>r. map_of (wq_records q) (wi_intent_id r) = Some r \<and> wi_dedupe_key r = Some (body_dedupe_key epoch e))"

lemma recorded_evolves:
  assumes "queue_ok q2" "queue_evolves q1 q2" "recorded epoch e q1"
  shows "recorded epoch e q2"
proof -
  from assms(3) obtain r where r: "map_of (wq_records q1) (wi_intent_id r) = Some r"
    "wi_dedupe_key r = Some (body_dedupe_key epoch e)" unfolding recorded_def by blast
  with assms(2) obtain r2 where "map_of (wq_records q2) (wi_intent_id r) = Some r2" "evolves r r2"
    unfolding queue_evolves_def by blast
  with r(2) show ?thesis unfolding recorded_def by (intro exI [of _ r2]) (simp add: evolves_def)
qed

lemma enqueue_order:
  "wq_order (snd (enqueue f kind source payload dk task gen q)) \<in> {wq_order q, wq_order q @ [''intent-'' @ f]}"
  by (auto simp: enqueue_def Let_def store_record_def split: option.split)

lemma admit_records:
  assumes "queue_ok q" "distinct fresh" "\<forall>f\<in>set fresh. ''intent-'' @ f \<notin> set (wq_order q)"
    "length events \<le> length fresh" "admit_body_events epoch task gen cp fresh events q = (n, q1)"
  shows "queue_ok q1 \<and> queue_evolves q q1 \<and> (\<forall>e\<in>set events. recorded epoch e q1)"
  using assms
proof (induction epoch task gen cp fresh events q arbitrary: n q1 rule: admit_body_events.induct)
  case (1 epoch task gen cp f fresh e events q)
  obtain r q' where e: "admit_body_event epoch task gen cp f e q = (r, q')" by fastforce
  obtain m q'' where a: "admit_body_events epoch task gen cp fresh events q' = (m, q'')" by fastforce
  have q1: "q1 = q''" using "1.prems"(5) by (simp add: e a)
  have q': "q' = snd (admit_body_event epoch task gen cp f e q)" using e by simp
  have unused: "''intent-'' @ f \<notin> set (wq_order q)" using "1.prems"(3) by simp
  have ok': "queue_ok q'" and ev: "queue_evolves q q'"
    using enqueue_step [OF "1.prems"(1) unused] by (simp_all add: q' admit_body_event_def)
  have rec: "recorded epoch e q'"
    using enqueue_recorded [OF "1.prems"(1) unused e [unfolded admit_body_event_def]]
    unfolding recorded_def by blast
  have "\<forall>g\<in>set fresh. ''intent-'' @ g \<notin> set (wq_order q')"
  proof
    fix g assume g: "g \<in> set fresh"
    then have "g \<noteq> f" "''intent-'' @ g \<notin> set (wq_order q)" using "1.prems"(2,3) by auto
    then show "''intent-'' @ g \<notin> set (wq_order q')"
      using enqueue_order [of f WK_BODY_EVENT "''body_event''" "event_payload e cp" "Some (body_dedupe_key epoch e)"
          task "if ev_name e \<in> TASK_TERMINAL_BODY_EVENTS then gen else None" q]
      unfolding q' admit_body_event_def by auto
  qed
  from "1.IH" [OF e [symmetric] ok' _ this _ a] "1.prems"(2,4)
  have "queue_ok q''" "queue_evolves q' q''" "\<forall>e\<in>set events. recorded epoch e q''" by auto
  then show ?case
    using recorded_evolves [OF _ _ rec] queue_evolves_trans [OF ev] q1 by auto
qed auto

lemma admit_recorded:
  "queue_ok q \<Longrightarrow> \<forall>e\<in>set events. recorded epoch e q \<Longrightarrow>
   snd (admit_body_events epoch task gen cp fresh events q) = q"
proof (induction epoch task gen cp fresh events q rule: admit_body_events.induct)
  case (1 epoch task gen cp f fresh e events q)
  from "1.prems"(2) obtain r where r: "map_of (wq_records q) (wi_intent_id r) = Some r"
    "wi_dedupe_key r = Some (body_dedupe_key epoch e)" by (auto simp: recorded_def)
  obtain r2 where e: "admit_body_event epoch task gen cp f e q = (r2, q)"
    using enqueue_known [OF "1.prems"(1) queue_evolves_refl r] unfolding admit_body_event_def by blast
  from "1.IH" [OF e [symmetric] "1.prems"(1)] "1.prems"(2) show ?case
    by (auto simp: e split: prod.split)
qed simp_all

section \<open>Properties\<close>

text \<open>
  Survival is never throttled and nothing is made up: whatever stance gate is
  installed, every always-material event and every awaited terminal is represented in the
  selection by itself or by a later event of the same name and action; the selection is in
  sequence order with one event per name and action; and without a gate it holds material
  events of the poll only.
\<close>

lemma material_events_never_gated:
  assumes "coalesce_material_events so waiting wait_for evs gate = (out, gate')"
  shows "sorted (map ev_seq out) \<and> distinct (map (event_key so) out) \<and>
    (\<forall>pre e c post. evs = pre @ (e, c) # post \<longrightarrow>
       always_material e \<or> awaited_terminal so waiting wait_for e \<longrightarrow>
       (\<exists>r\<in>set out. event_key so r = event_key so e \<and> r \<in> insert e (fst ` set post))) \<and>
    (gate = None \<longrightarrow> (\<forall>r\<in>set out. r \<in> fst ` set evs \<and>
       (always_material r \<or> awaited_terminal so waiting wait_for r)))"
proof -
  let ?mat = "\<lambda>e. always_material e \<or> awaited_terminal so waiting wait_for e"
  obtain s where s: "select_events so ?mat evs gate [] = (s, gate')" and out: "out = sort_key ev_seq (map snd s)"
    using assms unfolding coalesce_material_events_def by (auto split: prod.splits)
  have k: "keyed so s" using select_events_keyed [of so "[]" ?mat evs gate] by (simp add: s keyed_def)
  then have "map (event_key so \<circ> snd) s = map fst s" unfolding keyed_def by auto
  then have "distinct (map (event_key so) (map snd s))" using k unfolding keyed_def by (metis map_map)
  moreover have "mset (map (event_key so) out) = mset (map (event_key so) (map snd s))" unfolding out by (simp add: multiset.map_comp)
  ultimately have d: "distinct (map (event_key so) out)" by (metis mset_eq_imp_distinct_iff)
  have "\<exists>r\<in>set out. event_key so r = event_key so e \<and> r \<in> insert e (fst ` set post)"
    if "evs = pre @ (e, c) # post" "?mat e" for pre e c post
  proof -
    from select_events_material [of ?mat e so pre c post gate "[]"] that s
    obtain r where r: "map_of s (event_key so e) = Some r" "r \<in> insert e (fst ` set post)" by auto
    have "(event_key so e, r) \<in> set s" using r(1) by (rule map_of_SomeD)
    with k r(2) show ?thesis unfolding out keyed_def by force
  qed
  moreover have "\<forall>r\<in>set out. r \<in> fst ` set evs \<and> ?mat r" if "gate = None"
    using select_events_ungated [of so ?mat evs "[]" s gate'] s that unfolding out by fastforce
  moreover have "sorted (map ev_seq out)" unfolding out by simp
  ultimately show ?thesis using d by blast
qed

definition demo_event :: "int \<Rightarrow> string \<Rightarrow> event" where
  "demo_event n name = \<lparr>ev_seq = n, ev_tick = 0, ev_bot = ''bot'', ev_name = name, ev_data = []\<rparr>"

lemma demo_poll:
  "coalesce_material_events (\<lambda>_. []) False [] [(demo_event 2 ''death'', 0, 0), (demo_event 1 ''tick'', 0, 0)] None =
     ([demo_event 2 ''death''], None)"
  by (simp add: coalesce_material_events_def admit_event_def always_material_def awaited_terminal_def
      demo_event_def ALWAYS_MATERIAL_BODY_EVENTS_def)

theorem material_events_never_gated_witness:
  "\<exists>r\<in>{demo_event 2 ''death''}. event_key (\<lambda>_. []) r = event_key (\<lambda>_. []) (demo_event 2 ''death'')"
proof -
  have "always_material (demo_event 2 ''death'')"
    by (simp add: always_material_def demo_event_def ALWAYS_MATERIAL_BODY_EVENTS_def)
  moreover have "[(demo_event 2 ''death'', 0, 0), (demo_event 1 ''tick'', 0, 0)] =
    [] @ (demo_event 2 ''death'', 0, 0) # [(demo_event 1 ''tick'', 0, 0)]" by simp
  ultimately show ?thesis using material_events_never_gated [OF demo_poll] by fastforce
qed

text \<open>
  An event is admitted once: when a poll is repeated after a restart in the same event
  epoch, with the cursor lost, under any task and whatever the queue has done with the
  intents since, the repeated events add nothing to the queue.
\<close>

lemma redelivered_events_add_nothing:
  assumes "queue_reach queue_init (ep_queue p)" and "ep_gate p = None"
    and "distinct fresh" and "\<forall>f\<in>set fresh. ''intent-'' @ f \<notin> set (wq_order (ep_queue p))"
    and "length events \<le> length fresh"
    and "poll_once so fresh task gen waiting cp wait_for events reached p = (r, p1)"
    and "queue_reach (ep_queue p1) (ep_queue p2)" and "ep_epoch p2 = ep_epoch p" and "ep_gate p2 = None"
    and "map fst events' = map fst events"
  shows "ep_queue (snd (poll_once so fresh' task' gen' waiting cp' wait_for events' reached' p2)) = ep_queue p2"
proof -
  have ok: "queue_ok (ep_queue p)" using queue_reach_ok [OF assms(1) queue_ok_init] by simp
  obtain sel where sel: "coalesce_material_events so waiting wait_for events None = (sel, None)"
    using select_events_ungated by (fastforce simp: coalesce_material_events_def split: prod.splits)
  have sel': "coalesce_material_events so waiting wait_for events' None = (sel, None)"
    using sel select_events_clockless [OF assms(10)] unfolding coalesce_material_events_def by simp
  obtain n q1 where a: "admit_body_events (ep_epoch p) task gen cp fresh sel (ep_queue p) = (n, q1)" by fastforce
  have q1: "ep_queue p1 = q1" using assms(6) unfolding poll_once_def assms(2)
    by (auto simp: sel a acknowledge_cursor_def)
  have "length sel \<le> length events"
  proof -
    have u: "length (AList.update k v (d :: (string \<times> string, event) pydict)) \<le> Suc (length d)" for k v d
      by (induction d) auto
    have "length (fst (select_events so mat es g s)) \<le> length es + length s" for mat es g s
    proof (induction so mat es g s rule: select_events.induct)
      case (2 so mat e clock es g s)
      obtain w g' where w: "admit_event mat clock e g = (w, g')" by fastforce
      show ?case
      proof (cases w)
        case True
        with 2(1) [OF w [symmetric]] u [of "event_key so e" e s] show ?thesis by (simp add: w)
      next
        case False
        with 2(2) [OF w [symmetric]] show ?thesis by (simp add: w)
      qed
    qed simp
    note bound = this
    obtain s g where "select_events so (\<lambda>e. always_material e \<or> awaited_terminal so waiting wait_for e) events None [] = (s, g)"
      by fastforce
    with bound [of "\<lambda>e. always_material e \<or> awaited_terminal so waiting wait_for e" events None "[]"] sel
    show ?thesis unfolding coalesce_material_events_def by auto
  qed
  with admit_records [OF ok assms(3,4) _ a] assms(5)
  have rec: "queue_ok q1" "\<forall>e\<in>set sel. recorded (ep_epoch p) e q1" by auto
  have "queue_ok (ep_queue p2)" "queue_evolves q1 (ep_queue p2)"
    using queue_reach_ok [OF assms(7)] rec(1) q1 by auto
  then have "\<forall>e\<in>set sel. recorded (ep_epoch p2) e (ep_queue p2)"
    using rec(2) recorded_evolves assms(8) by metis
  from admit_recorded [OF \<open>queue_ok (ep_queue p2)\<close> this, of task' gen' cp' fresh']
  show ?thesis unfolding poll_once_def assms(9) sel'
    by (auto simp: acknowledge_cursor_def split: prod.split)
qed

definition demo_pump :: event_pump where
  "demo_pump = \<lparr>ep_queue = queue_init, ep_gate = None, ep_epoch = ''e'', ep_initial_owner = None,
     ep_last_seq = 0, ep_last_chat_seq = 0, ep_cursor = None\<rparr>"

definition demo_polled :: event_pump where
  "demo_polled = snd (poll_once (\<lambda>_. []) [''a'', ''b''] None None False None []
     [(demo_event 2 ''death'', 0, 0), (demo_event 1 ''tick'', 0, 0)] 2 demo_pump)"

theorem redelivered_events_add_nothing_witness:
  "ep_queue (snd (poll_once (\<lambda>_. []) [''c''] (Some ''task'') None False None []
     [(demo_event 2 ''death'', 5, 5), (demo_event 1 ''tick'', 5, 5)] 2 (demo_polled\<lparr>ep_last_seq := 0\<rparr>))) =
   ep_queue demo_polled"
proof -
  let ?evs = "[(demo_event 2 ''death'', 0, 0), (demo_event 1 ''tick'', 0, 0)] :: (event \<times> rat \<times> rat) list"
  obtain r where p: "poll_once (\<lambda>_. []) [''a'', ''b''] None None False None [] ?evs 2 demo_pump = (r, demo_polled)"
    unfolding demo_polled_def by (metis prod.collapse)
  have keep: "ep_epoch demo_polled = ep_epoch demo_pump \<and> ep_gate demo_polled = None"
    unfolding demo_polled_def poll_once_def
    by (simp add: demo_pump_def demo_poll acknowledge_cursor_def split: prod.split)
  have "queue_reach queue_init (ep_queue demo_pump)" "ep_gate demo_pump = None"
    "\<forall>f\<in>set [''a'', ''b'']. ''intent-'' @ f \<notin> set (wq_order (ep_queue demo_pump))"
    by (simp_all add: demo_pump_def queue_init_def here)
  from redelivered_events_add_nothing [OF this(1,2) _ this(3) _ p, of "demo_polled\<lparr>ep_last_seq := 0\<rparr>"
      "[(demo_event 2 ''death'', 5, 5), (demo_event 1 ''tick'', 5, 5)]" "[''c'']" "Some ''task''" None None 2]
  show ?thesis using keep here by simp
qed

end
