(* ===== verification/Py_Order.thy ===== *)
theory Py_Order
  imports Py_Values "HOL-Library.Product_Lexorder"
begin

text \<open>
  Python's \<open>min\<close> with a key, and the first element of a stable sort; tuples are compared from
  the left, strings by their characters.
\<close>

section \<open>The first minimum\<close>

text \<open>\<open>min(xs, key=key)\<close>, and \<open>sorted(xs, key=key)[0]\<close>: the first of the least key.\<close>

fun first_min :: "('a \<Rightarrow> 'k::linorder) \<Rightarrow> 'a \<Rightarrow> 'a list \<Rightarrow> 'a" where
  "first_min key best [] = best"
| "first_min key best (x # xs) = first_min key (if key x < key best then x else best) xs"

definition min_with :: "('a \<Rightarrow> 'k::linorder) \<Rightarrow> 'a list \<Rightarrow> 'a option" where
  "min_with key xs = (case xs of [] \<Rightarrow> None | x # xs' \<Rightarrow> Some (first_min key x xs'))"

lemma first_min_in: "first_min key b xs \<in> set (b # xs)"
  by (induction key b xs rule: first_min.induct) auto

lemma first_min_le: "x \<in> set (b # xs) \<Longrightarrow> key (first_min key b xs) \<le> key x"
proof (induction key b xs arbitrary: x rule: first_min.induct)
  case (2 key best y ys)
  let ?b = "if key y < key best then y else best"
  have "key (first_min key ?b ys) \<le> key ?b" by (rule "2.IH") simp
  then have b: "key (first_min key ?b ys) \<le> key best" "key (first_min key ?b ys) \<le> key y"
    by (auto split: if_splits)
  from "2.prems" consider "x = best" | "x = y" | "x \<in> set ys" by auto
  then show ?case
  proof cases
    case 3
    then show ?thesis using "2.IH" [of x] by simp
  qed (use b in simp_all)
qed simp

lemma min_with_None [simp]: "min_with key xs = None \<longleftrightarrow> xs = []"
  by (cases xs) (simp_all add: min_with_def)

lemma min_with_Some: "min_with key xs = Some m \<Longrightarrow> m \<in> set xs \<and> (\<forall>x\<in>set xs. key m \<le> key x)"
proof (cases xs)
  case (Cons y ys)
  assume "min_with key xs = Some m"
  then have m: "m = first_min key y ys" by (simp add: min_with_def Cons)
  show ?thesis using first_min_in [of key y ys] first_min_le [of _ y ys key] unfolding m Cons by blast
qed (simp add: min_with_def)

end
