(* ===== verification/Nav_Goals.thy ===== *)
theory Nav_Goals
  imports Py_Order Block_Types
begin

text \<open>
  Navigation goals, \<open>minebot/game/navigation.py\<close>: the six kinds of goal with their test, the
  position that represents them and the distance estimate the search is guided by. Distances
  are exact rationals.
\<close>

section \<open>Goals\<close>

datatype navigation_goal =
    GoalBlock position
  | GoalNear position int
  | GoalXZ int int
  | GoalYLevel int
  | GoalComposite "navigation_goal list" string
  | GoalAvoid position int "navigation_goal option"

text \<open>\<open>AStarPlanner._heuristic\<close>\<close>

fun manhattan :: "position \<Rightarrow> position \<Rightarrow> int" where
  "manhattan (ax, ay, az) (bx, by, bz) = \<bar>ax - bx\<bar> + \<bar>ay - by\<bar> + \<bar>az - bz\<bar>"

definition sign :: "int \<Rightarrow> int" where
  "sign v = (if v < 0 then -1 else if v > 0 then 1 else 0)"

text \<open>What \<open>__post_init__\<close> lets through, for the goal and its parts.\<close>

fun goal_ok :: "navigation_goal \<Rightarrow> bool" where
  "goal_ok (GoalBlock pos) = True"
| "goal_ok (GoalNear pos radius) = (radius \<ge> 0)"
| "goal_ok (GoalXZ x z) = True"
| "goal_ok (GoalYLevel y) = True"
| "goal_ok (GoalComposite goals mode) = (goals \<noteq> [] \<and> mode \<in> {''any'', ''all''} \<and> list_all goal_ok goals)"
| "goal_ok (GoalAvoid pos min_distance fallback) =
     (min_distance \<ge> 1 \<and> (case fallback of None \<Rightarrow> True | Some g \<Rightarrow> goal_ok g))"

fun is_satisfied :: "navigation_goal \<Rightarrow> position \<Rightarrow> bool" where
  "is_satisfied (GoalBlock goal) pos = (pos = goal)"
| "is_satisfied (GoalNear goal radius) pos = (manhattan pos goal \<le> radius)"
| "is_satisfied (GoalXZ x z) pos = (fst pos = x \<and> snd (snd pos) = z)"
| "is_satisfied (GoalYLevel y) pos = (fst (snd pos) = y)"
| "is_satisfied (GoalComposite goals mode) pos =
     (if mode = ''any'' then list_ex (\<lambda>g. is_satisfied g pos) goals
      else list_all (\<lambda>g. is_satisfied g pos) goals)"
| "is_satisfied (GoalAvoid away min_distance fallback) pos =
     (manhattan pos away \<ge> min_distance \<and>
      (case fallback of None \<Rightarrow> True | Some g \<Rightarrow> is_satisfied g pos))"

fun representative :: "navigation_goal \<Rightarrow> position \<Rightarrow> position" where
  "representative (GoalBlock goal) start = goal"
| "representative (GoalNear goal radius) start = goal"
| "representative (GoalXZ x z) start = (x, fst (snd start), z)"
| "representative (GoalYLevel y) start = (fst start, y, snd (snd start))"
| "representative (GoalComposite goals mode) start =
     (case min_with (\<lambda>p. manhattan start p) (map (\<lambda>g. representative g start) goals) of
        None \<Rightarrow> start
      | Some p \<Rightarrow> p)"
| "representative (GoalAvoid (ax, ay, az) min_distance fallback) start =
     (case fallback of
        Some g \<Rightarrow> representative g start
      | None \<Rightarrow>
          (let dx = sign (fst start - ax);
               dz = sign (snd (snd start) - az);
               dx' = (if dx = 0 \<and> dz = 0 then 1 else dx)
           in (ax + dx' * min_distance, fst (snd start), az + dz * min_distance)))"

fun goal_heuristic :: "navigation_goal \<Rightarrow> position \<Rightarrow> rat" where
  "goal_heuristic (GoalBlock goal) pos = of_int (manhattan pos goal)"
| "goal_heuristic (GoalNear goal radius) pos = max 0 (of_int (manhattan pos goal - radius))"
| "goal_heuristic (GoalXZ x z) pos = of_int (\<bar>fst pos - x\<bar> + \<bar>snd (snd pos) - z\<bar>)"
| "goal_heuristic (GoalYLevel y) pos = of_int \<bar>fst (snd pos) - y\<bar>"
| "goal_heuristic (GoalComposite goals mode) pos =
     (let values = map (\<lambda>g. goal_heuristic g pos) goals
      in if mode = ''any'' then (case min_with id values of None \<Rightarrow> 0 | Some v \<Rightarrow> v)
         else sum_list values)"
| "goal_heuristic (GoalAvoid away min_distance fallback) pos =
     (let avoid_need = max 0 (of_int (min_distance - manhattan pos away))
      in case fallback of None \<Rightarrow> avoid_need | Some g \<Rightarrow> avoid_need + goal_heuristic g pos)"

definition json_pos3 :: "position \<Rightarrow> json" where
  "json_pos3 p = (case p of (x, y, z) \<Rightarrow> JList [JInt x, JInt y, JInt z])"

fun goal_payload :: "navigation_goal \<Rightarrow> json" where
  "goal_payload (GoalBlock pos) = JDict [(''kind'', JStr ''block''), (''pos'', json_pos3 pos)]"
| "goal_payload (GoalNear pos radius) =
     JDict [(''kind'', JStr ''near''), (''pos'', json_pos3 pos), (''radius'', JInt radius)]"
| "goal_payload (GoalXZ x z) = JDict [(''kind'', JStr ''xz''), (''x'', JInt x), (''z'', JInt z)]"
| "goal_payload (GoalYLevel y) = JDict [(''kind'', JStr ''y_level''), (''y'', JInt y)]"
| "goal_payload (GoalComposite goals mode) =
     JDict [(''kind'', JStr ''composite''), (''mode'', JStr mode), (''goals'', JList (map goal_payload goals))]"
| "goal_payload (GoalAvoid pos min_distance fallback) =
     JDict ([(''kind'', JStr ''avoid''), (''pos'', json_pos3 pos), (''min_distance'', JInt min_distance)] @
            (case fallback of None \<Rightarrow> [] | Some g \<Rightarrow> [(''fallback'', goal_payload g)]))"

section \<open>The estimate is zero exactly at the goal\<close>

lemma manhattan_nonneg [simp]: "0 \<le> manhattan a b"
  by (cases a; cases b) simp

lemma manhattan_zero [simp]: "manhattan a b = 0 \<longleftrightarrow> a = b"
  by (cases a; cases b) auto

lemma sum_list_zero_iff: "\<forall>x\<in>set xs. (0::rat) \<le> x \<Longrightarrow> sum_list xs = 0 \<longleftrightarrow> (\<forall>x\<in>set xs. x = 0)"
  by (induction xs) (auto simp: add_nonneg_eq_0_iff sum_list_nonneg)

lemma min_with_zero_iff:
  assumes "\<forall>x\<in>set xs. (0::rat) \<le> x" "xs \<noteq> []"
  shows "\<exists>m. min_with id xs = Some m \<and> 0 \<le> m \<and> (m = 0 \<longleftrightarrow> 0 \<in> set xs)"
proof -
  obtain m where m: "min_with id xs = Some m" using assms(2) by (cases "min_with id xs") auto
  from min_with_Some [OF this] have "m \<in> set xs" "\<forall>x\<in>set xs. m \<le> x" by auto
  with assms(1) m show ?thesis by (metis order_antisym)
qed

lemma heuristic_zero_iff: "goal_ok g \<Longrightarrow> 0 \<le> goal_heuristic g pos \<and> (goal_heuristic g pos = 0 \<longleftrightarrow> is_satisfied g pos)"
proof (induction g rule: goal_ok.induct)
  case (1 goal)
  then show ?case by simp
next
  case (2 goal radius)
  then show ?case by (auto simp: max_def)
next
  case (3 x z)
  show ?case by (simp add: add_nonneg_eq_0_iff)
next
  case (4 y)
  then show ?case by simp
next
  case (5 goals mode)
  have each: "\<forall>g\<in>set goals. 0 \<le> goal_heuristic g pos \<and> (goal_heuristic g pos = 0 \<longleftrightarrow> is_satisfied g pos)"
    using 5 by (auto simp: list_all_iff)
  let ?vs = "map (\<lambda>g. goal_heuristic g pos) goals"
  have nn: "\<forall>x\<in>set ?vs. 0 \<le> x" and ne: "?vs \<noteq> []" using each 5(2) by auto
  show ?case
  proof (cases "mode = ''any''")
    case True
    from min_with_zero_iff [OF nn ne] obtain m where
      m: "min_with id ?vs = Some m" "0 \<le> m" "m = 0 \<longleftrightarrow> 0 \<in> set ?vs" by blast
    moreover have "0 \<in> set ?vs \<longleftrightarrow> list_ex (\<lambda>g. is_satisfied g pos) goals"
      using each by (auto simp: list_ex_iff image_iff)
    ultimately show ?thesis using True by (simp del: min_with_None)
  next
    case False
    have "sum_list ?vs = 0 \<longleftrightarrow> list_all (\<lambda>g. is_satisfied g pos) goals"
      unfolding sum_list_zero_iff [OF nn] using each by (auto simp: list_all_iff)
    moreover have "0 \<le> sum_list ?vs" by (rule sum_list_nonneg) (use nn in blast)
    ultimately show ?thesis using False by simp
  qed
next
  case (6 away min_distance fallback)
  show ?case
  proof (cases fallback)
    case None
    then show ?thesis using 6 by (auto simp: max_def)
  next
    case (Some g)
    with 6 have g: "0 \<le> goal_heuristic g pos" "goal_heuristic g pos = 0 \<longleftrightarrow> is_satisfied g pos" by auto
    have need: "0 \<le> max (0::rat) (of_int (min_distance - manhattan pos away))" by simp
    have "max (0::rat) (of_int (min_distance - manhattan pos away)) = 0 \<longleftrightarrow> min_distance \<le> manhattan pos away"
      by (auto simp: max_def)
    then show ?thesis using g need Some by (simp add: Let_def add_nonneg_eq_0_iff del: of_int_diff)
  qed
qed

text \<open>
  The estimate that guides the search recognises the goal: for every goal that can be
  constructed it is never negative, and it is zero exactly at the positions that satisfy the
  goal, through any nesting of composite and avoidance goals.
\<close>

lemma heuristic_recognises_goal:
  assumes "goal_ok g"
  shows "0 \<le> goal_heuristic g pos \<and> (goal_heuristic g pos = 0 \<longleftrightarrow> is_satisfied g pos)"
  using assms by (rule heuristic_zero_iff)

theorem heuristic_recognises_goal_witness:
  "goal_heuristic (GoalComposite [GoalAvoid (0, 64, 0) 4 (Some (GoalYLevel 70)), GoalNear (9, 64, 0) 1] ''any'') (8, 64, 0) = 0"
  using heuristic_recognises_goal [of "GoalComposite [GoalAvoid (0, 64, 0) 4 (Some (GoalYLevel 70)), GoalNear (9, 64, 0) 1] ''any''" "(8, 64, 0)"]
  by simp

end
