(* ===== verification/Navigation.thy ===== *)
theory Navigation
  imports Nav_Goals
begin

text \<open>
  Movement in a local grid, \<open>minebot/game/navigation.py\<close>: cells with the planned edits laid
  over them, the movement a neighbouring cell calls for, and its cost under governance. The
  governance policy is a parameter: a state of its own type, and the two questions the cost
  model asks of it. Costs are exact rationals, \<open>None\<close> standing for \<open>inf\<close>.
\<close>

section \<open>Data\<close>

datatype move_kind =
    MV_WALK | MV_DIAGONAL | MV_ASCEND | MV_PILLAR | MV_DESCEND | MV_DOWNWARD | MV_SWIM | MV_FALL
  | MV_BREAK | MV_PLACE | MV_OPEN | MV_INVALID

fun movement_cancel_profile :: "move_kind \<Rightarrow> bool \<times> string" where
  "movement_cancel_profile MV_WALK = (True, ''immediate'')"
| "movement_cancel_profile MV_DIAGONAL = (True, ''immediate'')"
| "movement_cancel_profile MV_DESCEND = (True, ''after_step'')"
| "movement_cancel_profile MV_DOWNWARD = (False, ''finish_or_abort_controller'')"
| "movement_cancel_profile MV_ASCEND = (False, ''settle_on_support'')"
| "movement_cancel_profile MV_PILLAR = (False, ''finish_or_abort_controller'')"
| "movement_cancel_profile MV_SWIM = (False, ''surface_or_stable_water'')"
| "movement_cancel_profile MV_FALL = (False, ''land_first'')"
| "movement_cancel_profile MV_BREAK = (False, ''finish_or_abort_controller'')"
| "movement_cancel_profile MV_PLACE = (False, ''finish_or_abort_controller'')"
| "movement_cancel_profile MV_OPEN = (False, ''finish_or_abort_controller'')"
| "movement_cancel_profile MV_INVALID = (False, ''invalid'')"

text \<open>
  The \<open>context\<close> of a candidate is a break context for a break or a dig, a place context for a
  placement and the text of the reason for an invalid move; it is three fields here.
\<close>

record movement_candidate =
  mc_kind :: move_kind
  mc_pos :: position
  mc_block_type :: string
  mc_break_context :: break_context
  mc_place_context :: place_context
  mc_reason :: string
  mc_place_type :: "string option"
  mc_place_face :: "string option"
  mc_purpose :: string
  mc_fall_depth :: int
  mc_interaction_target :: "position option"

definition candidate :: "move_kind \<Rightarrow> position \<Rightarrow> string \<Rightarrow> movement_candidate" where
  "candidate kind pos block_type =
     \<lparr>mc_kind = kind, mc_pos = pos, mc_block_type = block_type, mc_break_context = BC_PATH,
      mc_place_context = PC_TRAVEL, mc_reason = [], mc_place_type = None, mc_place_face = None,
      mc_purpose = ''scaffold'', mc_fall_depth = 0, mc_interaction_target = None\<rparr>"

definition break_candidate :: "position \<Rightarrow> string \<Rightarrow> break_context \<Rightarrow> movement_candidate" where
  "break_candidate pos block_type context = (candidate MV_BREAK pos block_type)\<lparr>mc_break_context := context\<rparr>"

definition invalid_candidate :: "position \<Rightarrow> string \<Rightarrow> string \<Rightarrow> movement_candidate" where
  "invalid_candidate pos block_type reason = (candidate MV_INVALID pos block_type)\<lparr>mc_reason := reason\<rparr>"

record cost_decision =
  cd_passable :: bool
  cd_cost :: "rat option"
  cd_reason :: string
  cd_kind :: move_kind
  cd_pos :: position
  cd_safe_to_cancel :: bool
  cd_cancel_policy :: string
  cd_diagnostics :: json_object
  cd_place_face :: "string option"
  cd_fall_depth :: int
  cd_interaction_target :: "position option"

record grid_cell =
  gd_block_type :: string
  gd_walkable :: bool
  gd_liquid :: bool
  gd_fall_depth :: int
  gd_requires_support :: bool
  gd_headroom_block :: "string option"

definition plain_cell :: "string \<Rightarrow> bool \<Rightarrow> grid_cell" where
  "plain_cell block_type walkable =
     \<lparr>gd_block_type = block_type, gd_walkable = walkable, gd_liquid = False, gd_fall_depth = 0,
      gd_requires_support = False, gd_headroom_block = None\<rparr>"

definition FALLING_BLOCK_TYPES :: "string set" where
  "FALLING_BLOCK_TYPES = {''sand'', ''gravel''}"

text \<open>\<open>GridWorld\<close>, and the overlay of planned edits: the latest edit of a cell counts.\<close>

type_synonym grid_world = "(position, grid_cell) pydict"
type_synonym block_overlay = "(position \<times> grid_cell) list"

definition overlay_at :: "grid_world \<Rightarrow> block_overlay \<Rightarrow> position \<Rightarrow> grid_cell option" where
  "overlay_at world blocks pos =
     (case map_of (rev blocks) pos of Some cell \<Rightarrow> Some cell | None \<Rightarrow> map_of world pos)"

definition set_cell :: "position \<Rightarrow> grid_cell \<Rightarrow> block_overlay \<Rightarrow> block_overlay" where
  "set_cell pos cell blocks = blocks @ [(pos, cell)]"

record search_state =
  ss_pos :: position
  ss_overlay :: block_overlay

definition above :: "position \<Rightarrow> position" where
  "above p = (case p of (x, y, z) \<Rightarrow> (x, y + 1, z))"

definition below :: "position \<Rightarrow> position" where
  "below p = (case p of (x, y, z) \<Rightarrow> (x, y - 1, z))"

definition is_door_type :: "string \<Rightarrow> bool" where
  "is_door_type block_type \<longleftrightarrow> suffix ''_door'' (removeprefix ''minecraft:'' block_type)"

definition is_pass_openable :: "string \<Rightarrow> bool" where
  "is_pass_openable block_type \<longleftrightarrow>
     (let normalized = removeprefix ''minecraft:'' block_type
      in (suffix ''_door'' normalized \<or> suffix ''_trapdoor'' normalized \<or> suffix ''_fence_gate'' normalized) \<and>
         normalized \<notin> {''iron_door'', ''iron_trapdoor''})"

definition open_headroom_block_type :: "string \<Rightarrow> string option" where
  "open_headroom_block_type block_type = (if is_door_type block_type then Some block_type else None)"

definition is_horizontal_diagonal :: "position \<Rightarrow> position \<Rightarrow> bool" where
  "is_horizontal_diagonal origin target \<longleftrightarrow>
     (case (origin, target) of ((ox, oy, oz), (tx, ty, tz)) \<Rightarrow> ty = oy \<and> \<bar>tx - ox\<bar> = 1 \<and> \<bar>tz - oz\<bar> = 1)"

definition horizontal_face_from :: "position \<Rightarrow> position \<Rightarrow> string option" where
  "horizontal_face_from origin target =
     (case (origin, target) of ((ox, oy, oz), (tx, ty, tz)) \<Rightarrow>
        let dx = tx - ox; dz = tz - oz
        in if \<bar>dx\<bar> \<ge> \<bar>dz\<bar> \<and> dx > 0 then Some ''west''
           else if \<bar>dx\<bar> \<ge> \<bar>dz\<bar> \<and> dx < 0 then Some ''east''
           else if dz > 0 then Some ''north''
           else if dz < 0 then Some ''south''
           else None)"

section \<open>Cost under governance\<close>

record 'g terrain =
  tr_break :: "'g \<Rightarrow> position \<Rightarrow> string \<Rightarrow> break_context \<Rightarrow> legality_decision \<times> 'g"
  tr_place :: "'g \<Rightarrow> position \<Rightarrow> string \<Rightarrow> place_context \<Rightarrow> string \<Rightarrow> legality_decision"

definition legality_payload :: "legality_decision \<Rightarrow> json" where
  "legality_payload d =
     JDict [(''allowed'', JBool (ld_allowed d)), (''reason'', JStr (ld_reason d)),
            (''protected'', JBool (ld_protected d)), (''bot_owned'', JBool (ld_bot_owned d)),
            (''natural_region'', case ld_natural_region d of None \<Rightarrow> JNull | Some r \<Rightarrow> JStr r),
            (''details'', JDict (ld_details d))]"

definition MAX_SAFE_FALL :: int where "MAX_SAFE_FALL = 3"

text \<open>A decision with the cancel profile of its kind; it is passable when it has a cost.\<close>

definition cost_decision_of :: "move_kind \<Rightarrow> position \<Rightarrow> rat option \<Rightarrow> string \<Rightarrow> json_object \<Rightarrow> cost_decision" where
  "cost_decision_of kind pos cost reason diagnostics =
     \<lparr>cd_passable = (cost \<noteq> None), cd_cost = cost, cd_reason = reason, cd_kind = kind, cd_pos = pos,
      cd_safe_to_cancel = fst (movement_cancel_profile kind),
      cd_cancel_policy = snd (movement_cancel_profile kind), cd_diagnostics = diagnostics,
      cd_place_face = None, cd_fall_depth = 0, cd_interaction_target = None\<rparr>"

definition evaluate_fall :: "movement_candidate \<Rightarrow> cost_decision" where
  "evaluate_fall c =
     (let fall_depth = max 1 (mc_fall_depth c);
          diagnostics = [(''fall_depth'', JInt fall_depth), (''max_safe_fall'', JInt MAX_SAFE_FALL)]
      in if fall_depth > MAX_SAFE_FALL
         then cost_decision_of MV_FALL (mc_pos c) None ''fall_denied:unsafe_depth'' diagnostics
         else (cost_decision_of MV_FALL (mc_pos c) (Some (4 + of_int fall_depth)) ''fall'' diagnostics)
                \<lparr>cd_fall_depth := fall_depth\<rparr>)"

definition evaluate_break :: "'g terrain \<Rightarrow> movement_candidate \<Rightarrow> 'g \<Rightarrow> cost_decision \<times> 'g" where
  "evaluate_break tr c g =
     (case tr_break tr g (mc_pos c) (mc_block_type c) (mc_break_context c) of (decision, g') \<Rightarrow>
        (if \<not> ld_allowed decision
         then cost_decision_of MV_BREAK (mc_pos c) None (''break_denied:'' @ ld_reason decision)
                [(''legality'', legality_payload decision)]
         else cost_decision_of MV_BREAK (mc_pos c) (Some (if ld_bot_owned decision then 2 else 6))
                (''break_allowed:'' @ ld_reason decision)
                [(''legality'', legality_payload decision),
                 (''context'', JStr (break_context_value (mc_break_context c)))], g'))"

definition evaluate_place :: "'g terrain \<Rightarrow> movement_candidate \<Rightarrow> 'g \<Rightarrow> cost_decision" where
  "evaluate_place tr c g =
     (let block_type = (case mc_place_type c of
                          Some t \<Rightarrow> (if t \<noteq> [] then t else mc_block_type c)
                        | None \<Rightarrow> mc_block_type c);
          decision = tr_place tr g (mc_pos c) block_type (mc_place_context c) ''planner''
      in if \<not> ld_allowed decision
         then cost_decision_of MV_PLACE (mc_pos c) None (''place_denied:'' @ ld_reason decision)
                [(''legality'', legality_payload decision)]
         else (cost_decision_of MV_PLACE (mc_pos c) (Some 3) (''place_allowed:'' @ ld_reason decision)
                [(''legality'', legality_payload decision),
                 (''context'', JStr (place_context_value (mc_place_context c))),
                 (''block_type'', JStr block_type), (''purpose'', JStr (mc_purpose c))])
                \<lparr>cd_place_face := mc_place_face c\<rparr>)"

definition evaluate_open :: "movement_candidate \<Rightarrow> cost_decision" where
  "evaluate_open c =
     (cost_decision_of MV_OPEN (mc_pos c) (Some 1) ''open_allowed'' [(''block_type'', JStr (mc_block_type c))])
       \<lparr>cd_interaction_target := mc_interaction_target c\<rparr>"

definition simple_move :: "movement_candidate \<Rightarrow> rat \<Rightarrow> string \<Rightarrow> cost_decision" where
  "simple_move c cost reason = cost_decision_of (mc_kind c) (mc_pos c) (Some cost) reason []"

definition evaluate :: "'g terrain \<Rightarrow> movement_candidate \<Rightarrow> 'g \<Rightarrow> cost_decision \<times> 'g" where
  "evaluate tr c g =
     (case mc_kind c of
        MV_INVALID \<Rightarrow> (cost_decision_of MV_INVALID (mc_pos c) None (mc_reason c) [], g)
      | MV_WALK \<Rightarrow> (simple_move c 1 ''walk'', g)
      | MV_DIAGONAL \<Rightarrow> (simple_move c (7 / 5) ''diagonal'', g)
      | MV_ASCEND \<Rightarrow> (simple_move c 2 ''ascend'', g)
      | MV_PILLAR \<Rightarrow> (simple_move c 8 ''pillar'', g)
      | MV_DESCEND \<Rightarrow> (simple_move c (6 / 5) ''descend'', g)
      | MV_DOWNWARD \<Rightarrow> (simple_move c 7 ''downward'', g)
      | MV_SWIM \<Rightarrow> (simple_move c 3 ''swim'', g)
      | MV_FALL \<Rightarrow> (evaluate_fall c, g)
      | MV_BREAK \<Rightarrow> evaluate_break tr c g
      | MV_PLACE \<Rightarrow> (evaluate_place tr c g, g)
      | MV_OPEN \<Rightarrow> (evaluate_open c, g))"

section \<open>The movement a neighbouring cell calls for\<close>

definition has_support :: "grid_world \<Rightarrow> block_overlay \<Rightarrow> position \<Rightarrow> bool" where
  "has_support world ov pos =
     (case overlay_at world ov (below pos) of
        None \<Rightarrow> False
      | Some support \<Rightarrow> \<not> gd_walkable support \<and> \<not> gd_liquid support)"

definition blocked_headroom ::
  "grid_world \<Rightarrow> block_overlay \<Rightarrow> position \<Rightarrow> grid_cell \<Rightarrow> (position \<times> string) option" where
  "blocked_headroom world ov pos cell =
     (case overlay_at world ov (above pos) of
        Some h \<Rightarrow> (if \<not> gd_walkable h \<or> gd_liquid h then Some (above pos, gd_block_type h) else None)
      | None \<Rightarrow>
          (case gd_headroom_block cell of
             None \<Rightarrow> None
           | Some b \<Rightarrow> (if b \<noteq> [] then Some (above pos, b) else None)))"

definition falling_type :: "string \<Rightarrow> bool" where
  "falling_type block_type \<longleftrightarrow> removeprefix ''minecraft:'' block_type \<in> FALLING_BLOCK_TYPES"

definition six_neighbours :: "position \<Rightarrow> position list" where
  "six_neighbours p =
     (case p of (x, y, z) \<Rightarrow>
        [(x + 1, y, z), (x - 1, y, z), (x, y, z + 1), (x, y, z - 1), (x, y + 1, z), (x, y - 1, z)])"

definition falling_solid :: "grid_cell option \<Rightarrow> bool" where
  "falling_solid cell =
     (case cell of
        None \<Rightarrow> False
      | Some c \<Rightarrow> falling_type (gd_block_type c) \<and> \<not> gd_walkable c \<and> \<not> gd_liquid c)"

definition gravity_break_hazard ::
  "grid_world \<Rightarrow> block_overlay \<Rightarrow> position \<Rightarrow> grid_cell \<Rightarrow> movement_candidate option" where
  "gravity_break_hazard world ov pos cell =
     (if \<not> falling_type (gd_block_type cell) then None
      else if list_ex (\<lambda>n. case overlay_at world ov n of None \<Rightarrow> False | Some c \<Rightarrow> gd_liquid c) (six_neighbours pos)
      then Some (invalid_candidate pos (gd_block_type cell) ''break_denied:gravity_liquid_adjacent'')
      else if falling_solid (overlay_at world ov (above pos)) \<or> falling_solid (overlay_at world ov (below pos))
      then Some (invalid_candidate pos (gd_block_type cell) ''break_denied:gravity_stack'')
      else None)"

text \<open>Both corners of a diagonal move are looked at in order; the first that blocks decides.\<close>

fun corners_blocker ::
  "'g terrain \<Rightarrow> grid_world \<Rightarrow> break_context \<Rightarrow> block_overlay \<Rightarrow> position list \<Rightarrow> 'g
   \<Rightarrow> movement_candidate option \<times> 'g" where
  "corners_blocker tr world context ov [] g = (None, g)"
| "corners_blocker tr world context ov (corner_pos # corners) g =
     (case overlay_at world ov corner_pos of
        None \<Rightarrow> (Some (invalid_candidate corner_pos ''air'' ''diagonal_corner_unloaded''), g)
      | Some corner \<Rightarrow>
          (case blocked_headroom world ov corner_pos corner of
             Some (headroom_pos, _) \<Rightarrow>
               (Some (invalid_candidate headroom_pos ''air'' ''diagonal_corner_headroom_blocked''), g)
           | None \<Rightarrow>
               (if gd_walkable corner \<and> \<not> gd_liquid corner then corners_blocker tr world context ov corners g
                else case gravity_break_hazard world ov corner_pos corner of
                  Some hazard \<Rightarrow> (Some hazard, g)
                | None \<Rightarrow>
                    (case evaluate tr (break_candidate corner_pos (gd_block_type corner) context) g of
                       (decision, g') \<Rightarrow>
                         (Some (invalid_candidate corner_pos ''air''
                            (''diagonal_corner_blocked:'' @ cd_reason decision)), g')))))"

definition diagonal_blocker ::
  "'g terrain \<Rightarrow> grid_world \<Rightarrow> break_context \<Rightarrow> block_overlay \<Rightarrow> position \<Rightarrow> position \<Rightarrow> 'g
   \<Rightarrow> movement_candidate option \<times> 'g" where
  "diagonal_blocker tr world context ov current pos g =
     (case (current, pos) of ((cx, cy, cz), (px, py, pz)) \<Rightarrow>
        (if \<bar>px - cx\<bar> \<noteq> 1 \<or> \<bar>pz - cz\<bar> \<noteq> 1 \<or> py \<noteq> cy then (None, g)
         else corners_blocker tr world context ov [(px, cy, cz), (cx, cy, pz)] g))"

definition openable_pass_candidate ::
  "grid_world \<Rightarrow> block_overlay \<Rightarrow> position \<Rightarrow> grid_cell \<Rightarrow> movement_candidate option" where
  "openable_pass_candidate world ov pos cell =
     (if \<not> is_pass_openable (gd_block_type cell) then None
      else
        (let closed = (case overlay_at world ov pos of None \<Rightarrow> False | Some c \<Rightarrow> \<not> gd_walkable c);
             door_at = (\<lambda>p. case overlay_at world ov p of None \<Rightarrow> False | Some c \<Rightarrow> is_door_type (gd_block_type c));
             interaction_target =
               (if is_door_type (gd_block_type cell) then
                  (if closed \<and> door_at (above pos) then pos
                   else if closed \<and> door_at (below pos) then below pos
                   else pos)
                else pos)
         in Some ((candidate MV_OPEN pos (gd_block_type cell))\<lparr>mc_interaction_target := Some interaction_target\<rparr>)))"

text \<open>The movement into a cell one can stand in.\<close>

definition walkable_candidate ::
  "'g terrain \<Rightarrow> grid_world \<Rightarrow> break_context \<Rightarrow> search_state \<Rightarrow> position \<Rightarrow> grid_cell \<Rightarrow> 'g
   \<Rightarrow> movement_candidate \<times> 'g" where
  "walkable_candidate tr world context current pos cell g =
     (case (ss_pos current, pos) of ((cx, cy, cz), (px, py, pz)) \<Rightarrow>
        let dx = px - cx; dy = py - cy; dz = pz - cz; block_type = gd_block_type cell;
            current_supported = (case overlay_at world (ss_overlay current) (ss_pos current) of
                                   None \<Rightarrow> False | Some c \<Rightarrow> gd_requires_support c)
        in if current_supported \<and> dy > 0 then (invalid_candidate pos ''air'' ''ascend_requires_support'', g)
           else if gd_liquid cell then (candidate MV_SWIM pos block_type, g)
           else if dy > 0 then
             (if dx = 0 \<and> dz = 0 then (candidate MV_PILLAR pos block_type, g)
              else (candidate MV_ASCEND pos block_type, g))
           else if dy < 0 then
             (if gd_fall_depth cell > 1
              then ((candidate MV_FALL pos block_type)\<lparr>mc_fall_depth := gd_fall_depth cell\<rparr>, g)
              else (candidate MV_DESCEND pos block_type, g))
           else if dx \<noteq> 0 \<and> dz \<noteq> 0 then
             (case diagonal_blocker tr world context (ss_overlay current) (ss_pos current) pos g of
                (Some b, g') \<Rightarrow> (b, g')
              | (None, g') \<Rightarrow> (candidate MV_DIAGONAL pos block_type, g'))
           else (candidate MV_WALK pos block_type, g))"

text \<open>The movement into a cell that is in the way: through a door, down, or by breaking it.\<close>

definition obstacle_candidate ::
  "'g terrain \<Rightarrow> grid_world \<Rightarrow> break_context \<Rightarrow> search_state \<Rightarrow> position \<Rightarrow> grid_cell \<Rightarrow> 'g
   \<Rightarrow> movement_candidate \<times> 'g" where
  "obstacle_candidate tr world context current pos cell g =
     (case openable_pass_candidate world (ss_overlay current) pos cell of
        Some c \<Rightarrow> (c, g)
      | None \<Rightarrow>
          (let breaking = break_candidate pos (gd_block_type cell) context;
               (downward, g1) =
                 (if pos = below (ss_pos current)
                  then (case evaluate tr breaking g of (decision, g') \<Rightarrow> (cd_passable decision, g'))
                  else (False, g))
           in if downward
              then ((candidate MV_DOWNWARD pos (gd_block_type cell))\<lparr>mc_break_context := context\<rparr>, g1)
              else (case gravity_break_hazard world (ss_overlay current) pos cell of
                      Some hazard \<Rightarrow> (hazard, g1)
                    | None \<Rightarrow> (breaking, g1))))"

definition candidate_for ::
  "'g terrain \<Rightarrow> grid_world \<Rightarrow> break_context \<Rightarrow> search_state \<Rightarrow> position \<Rightarrow> grid_cell \<Rightarrow> 'g
   \<Rightarrow> movement_candidate \<times> 'g" where
  "candidate_for tr world context current pos cell g =
     (let ov = ss_overlay current;
          in_liquid = (case overlay_at world ov (ss_pos current) of None \<Rightarrow> False | Some c \<Rightarrow> gd_liquid c);
          straight_up = (case (ss_pos current, pos) of
                           ((cx, cy, cz), (px, py, pz)) \<Rightarrow> py > cy \<and> px = cx \<and> pz = cz)
      in if in_liquid \<and> straight_up \<and> gd_walkable cell
         then (candidate MV_SWIM pos (gd_block_type cell), g)
         else if gd_requires_support cell \<and> \<not> has_support world ov pos
         then ((candidate MV_PLACE (below pos) ''cobblestone'')
                 \<lparr>mc_place_face := horizontal_face_from (ss_pos current) pos\<rparr>, g)
         else case blocked_headroom world ov pos cell of
           Some (headroom_pos, block_type) \<Rightarrow>
             (let headroom_cell = (case overlay_at world ov headroom_pos of
                                     Some c \<Rightarrow> c | None \<Rightarrow> plain_cell block_type False)
              in case gravity_break_hazard world ov headroom_pos headroom_cell of
                   Some hazard \<Rightarrow> (hazard, g)
                 | None \<Rightarrow> (break_candidate headroom_pos block_type context, g))
         | None \<Rightarrow>
             (if gd_walkable cell then walkable_candidate tr world context current pos cell g
              else obstacle_candidate tr world context current pos cell g))"

section \<open>The state a decision leads to\<close>

definition virtual_effect_for :: "cost_decision \<Rightarrow> string option" where
  "virtual_effect_for d =
     (case cd_kind d of
        MV_BREAK \<Rightarrow> Some ''break_to_air''
      | MV_PLACE \<Rightarrow> Some ''place_solid''
      | MV_OPEN \<Rightarrow> Some ''open_passage''
      | _ \<Rightarrow> None)"

text \<open>Both halves of a door open together.\<close>

definition open_cells :: "position \<Rightarrow> string \<Rightarrow> string option \<Rightarrow> position option \<Rightarrow> block_overlay \<Rightarrow> block_overlay" where
  "open_cells pos block_type headroom target ov =
     (let open_cell = (\<lambda>h. (plain_cell block_type True)\<lparr>gd_headroom_block := h\<rparr>);
          ov1 = set_cell pos (open_cell headroom) ov
      in if is_door_type block_type
         then (let lower = (case target of Some p \<Rightarrow> p | None \<Rightarrow> pos)
               in set_cell (above lower) (open_cell None) (set_cell lower (open_cell (Some block_type)) ov1))
         else ov1)"

definition overlay_after_decision :: "block_overlay \<Rightarrow> cost_decision \<Rightarrow> grid_cell \<Rightarrow> block_overlay" where
  "overlay_after_decision ov d cell =
     (case cd_kind d of
        MV_BREAK \<Rightarrow> set_cell (cd_pos d) (plain_cell ''air'' True) ov
      | MV_PLACE \<Rightarrow>
          (let planned = (case dget (cd_diagnostics d) ''block_type'' of JStr s \<Rightarrow> s | _ \<Rightarrow> []);
               block_type = (if planned \<noteq> [] then planned
                             else if gd_block_type cell \<noteq> [] then gd_block_type cell else ''cobblestone'')
           in set_cell (cd_pos d) (plain_cell block_type False) ov)
      | MV_OPEN \<Rightarrow>
          open_cells (cd_pos d) (gd_block_type cell) (open_headroom_block_type (gd_block_type cell))
            (cd_interaction_target d) ov
      | _ \<Rightarrow> ov)"

definition next_state_after_decision ::
  "search_state \<Rightarrow> position \<Rightarrow> block_overlay \<Rightarrow> cost_decision \<Rightarrow> search_state" where
  "next_state_after_decision current next_pos ov d =
     (if cd_kind d = MV_PLACE \<or> cd_kind d = MV_BREAK \<and> cd_pos d \<noteq> next_pos \<or>
         cd_kind d = MV_OPEN \<and> cd_pos d = next_pos
      then \<lparr>ss_pos = ss_pos current, ss_overlay = ov\<rparr>
      else \<lparr>ss_pos = next_pos, ss_overlay = ov\<rparr>)"

definition step_block_type :: "grid_world \<Rightarrow> block_overlay \<Rightarrow> cost_decision \<Rightarrow> position \<Rightarrow> grid_cell \<Rightarrow> string" where
  "step_block_type world ov d next_pos cell =
     (if cd_pos d = next_pos then gd_block_type cell
      else case overlay_at world ov (cd_pos d) of
        Some observed \<Rightarrow> gd_block_type observed
      | None \<Rightarrow> gd_block_type cell)"

definition with_cost_diagnostics :: "cost_decision \<Rightarrow> rat \<Rightarrow> bool \<Rightarrow> rat \<Rightarrow> cost_decision" where
  "with_cost_diagnostics d cost backtrack_favored factor =
     d\<lparr>cd_cost := Some cost,
       cd_diagnostics :=
         (if backtrack_favored
          then AList.update ''backtrack_cost_factor'' (JFloat (Fin factor))
                 (AList.update ''base_cost'' (case cd_cost d of Some c \<Rightarrow> JFloat (Fin c) | None \<Rightarrow> JFloat PosInf)
                   (AList.update ''backtrack_favored'' (JBool True) (cd_diagnostics d)))
          else cd_diagnostics d)\<rparr>"

definition grid_neighbors :: "position \<Rightarrow> position list" where
  "grid_neighbors p =
     (case p of (x, y, z) \<Rightarrow>
        [(x + 1, y, z), (x - 1, y, z), (x, y, z + 1), (x, y, z - 1),
         (x + 1, y, z + 1), (x + 1, y, z - 1), (x - 1, y, z + 1), (x - 1, y, z - 1),
         (x + 1, y + 1, z), (x - 1, y + 1, z), (x, y + 1, z + 1), (x, y + 1, z - 1),
         (x + 1, y - 1, z), (x - 1, y - 1, z), (x, y - 1, z + 1), (x, y - 1, z - 1),
         (x, y + 1, z), (x, y - 1, z)])"

end
