(* ===== verification/Path_Search.thy ===== *)
theory Path_Search
  imports Navigation "HOL-Library.Multiset"
begin

text \<open>
  The path search of \<open>AStarPlanner.plan\<close>, \<open>minebot/game/navigation.py\<close>: the frontier loop
  under its bound of expansions, the choice of a partial target, and the walk back along the
  predecessors, a loop that is defined as partial and proved to end. The governance state is
  threaded through every question the search asks of it.
\<close>

section \<open>The frontier\<close>

text \<open>
  What the search relies on of a priority queue; \<open>heapq\<close> over tuples with a unique tie number
  takes out the least entry.
\<close>

locale min_queue =
  fixes take_min :: "'q \<Rightarrow> ('a \<times> 'q) option" and entries :: "'q \<Rightarrow> 'a multiset" and key :: "'a \<Rightarrow> 'k::linorder"
  assumes take_min_None: "take_min q = None \<longleftrightarrow> entries q = {#}"
    and take_min_Some: "take_min q = Some (x, q') \<Longrightarrow> entries q = add_mset x (entries q')"
    and take_min_least: "take_min q = Some (x, q') \<Longrightarrow> \<forall>y\<in>#entries q. key x \<le> key y"
begin

lemma taken_member: "take_min q = Some (x, q') \<Longrightarrow> x \<in># entries q"
  using take_min_Some by fastforce

lemma rest_member: "take_min q = Some (x, q') \<Longrightarrow> y \<in># entries q' \<Longrightarrow> y \<in># entries q"
  using take_min_Some by fastforce

lemma rest_no_smaller: "take_min q = Some (x, q') \<Longrightarrow> y \<in># entries q' \<Longrightarrow> key x \<le> key y"
  using take_min_least rest_member by blast

end

type_synonym frontier_entry = "rat \<times> nat \<times> search_state"

definition entry_key :: "frontier_entry \<Rightarrow> rat \<times> nat" where
  "entry_key e = (fst e, fst (snd e))"

definition heappop :: "frontier_entry list \<Rightarrow> (frontier_entry \<times> frontier_entry list) option" where
  "heappop frontier = (case min_with entry_key frontier of None \<Rightarrow> None | Some e \<Rightarrow> Some (e, remove1 e frontier))"

interpretation heap: min_queue heappop mset entry_key
proof
  fix q :: "frontier_entry list" and e q'
  show "heappop q = None \<longleftrightarrow> mset q = {#}" by (cases q) (simp_all add: heappop_def min_with_def)
  show "mset q = add_mset e (mset q')" if "heappop q = Some (e, q')"
    using that min_with_Some [of entry_key q e] by (auto simp: heappop_def split: option.splits)
  show "\<forall>y\<in>#mset q. entry_key e \<le> entry_key y" if "heappop q = Some (e, q')"
    using that min_with_Some [of entry_key q e] by (auto simp: heappop_def split: option.splits)
qed

section \<open>The search\<close>

record path_step =
  ps_pos :: position
  ps_move :: move_kind
  ps_cost :: rat
  ps_reason :: string
  ps_block_type :: string
  ps_safe_to_cancel :: bool
  ps_cancel_policy :: string
  ps_virtual_effect :: "string option"
  ps_place_face :: "string option"
  ps_fall_depth :: int
  ps_interaction_target :: "position option"
  ps_open_expected_properties :: "(string, string) pydict option"
  ps_open_headroom_block :: "string option"

record path_result =
  pt_success :: bool
  pt_reason :: string
  pt_path :: "path_step list"
  pt_cost :: "rat option"
  pt_expanded :: nat
  pt_diagnostics :: json_object

text \<open>What one call of \<open>plan\<close> is asked; the representative, start distance and backtrack set follow.\<close>

record 'g plan_request =
  rq_world :: grid_world
  rq_terrain :: "'g terrain"
  rq_start :: position
  rq_goal :: navigation_goal
  rq_break_context :: break_context
  rq_max_expansions :: int
  rq_allow_partial :: bool
  rq_min_partial_progress :: int
  rq_previous_segment :: "position list"
  rq_backtrack_cost_factor :: rat
  rq_unloaded_boundary_limit :: "int option"

type_synonym came_from = "(search_state, search_state \<times> cost_decision \<times> string \<times> string option) pydict"
type_synonym partial_candidates = "(rat, rat \<times> position \<times> rat \<times> rat) pydict"

record 'g search =
  sr_frontier :: "frontier_entry list"
  sr_came_from :: came_from
  sr_cost :: "(search_state, rat) pydict"
  sr_blocked :: "json list"
  sr_unloaded :: int
  sr_stopped :: bool
  sr_expanded :: nat
  sr_tie :: nat
  sr_partial :: partial_candidates
  sr_gov :: 'g

definition PARTIAL_BACKOFF_COEFFICIENTS :: "rat list" where
  "PARTIAL_BACKOFF_COEFFICIENTS = [3 / 2, 2, 5 / 2, 3, 4, 5, 10]"

definition HEURISTIC_WEIGHT :: rat where
  "HEURISTIC_WEIGHT = 3563 / 1000"

definition note_partial_candidate ::
  "position \<Rightarrow> rat \<Rightarrow> rat \<Rightarrow> rat \<Rightarrow> rat \<Rightarrow> partial_candidates \<Rightarrow> partial_candidates" where
  "note_partial_candidate pos path_cost remaining progress coefficient candidates =
     (let score = path_cost + coefficient * remaining
      in case map_of candidates coefficient of
           None \<Rightarrow> AList.update coefficient (score, pos, remaining, progress) candidates
         | Some (s, _, _, p) \<Rightarrow>
             (if score < s \<or> score = s \<and> progress > p
              then AList.update coefficient (score, pos, remaining, progress) candidates else candidates))"

definition note_partial_candidates ::
  "position \<Rightarrow> rat \<Rightarrow> rat \<Rightarrow> rat \<Rightarrow> partial_candidates \<Rightarrow> partial_candidates" where
  "note_partial_candidates pos path_cost remaining progress candidates =
     fold (note_partial_candidate pos path_cost remaining progress) PARTIAL_BACKOFF_COEFFICIENTS candidates"

definition choose_partial_candidate :: "partial_candidates \<Rightarrow> (position \<times> rat \<times> rat) option" where
  "choose_partial_candidate candidates =
     (case min_with (\<lambda>(c, s, p, remaining, g). (remaining, c, s)) candidates of
        None \<Rightarrow> None
      | Some (c, s, p, remaining, g) \<Rightarrow> Some (p, g, c))"

definition blocked_at :: "position \<Rightarrow> string \<Rightarrow> json" where
  "blocked_at pos reason = JDict [(''pos'', json_pos3 pos), (''reason'', JStr reason)]"

text \<open>A cell that is not loaded: a diagonal one is passed over, any other counts to the limit.\<close>

definition note_unloaded :: "'g plan_request \<Rightarrow> position \<Rightarrow> position \<Rightarrow> 'g search \<Rightarrow> 'g search" where
  "note_unloaded rq current next_pos sr =
     (if is_horizontal_diagonal current next_pos then sr
      else (let sr' = sr\<lparr>sr_unloaded := sr_unloaded sr + 1,
                         sr_blocked := sr_blocked sr @ [blocked_at next_pos ''unloaded'']\<rparr>
            in case rq_unloaded_boundary_limit rq of
                 None \<Rightarrow> sr'
               | Some limit \<Rightarrow>
                   (if sr_unloaded sr' \<ge> limit then sr'\<lparr>sr_stopped := True, sr_frontier := []\<rparr> else sr')))"

text \<open>\<open>cost_so_far[state]\<close> of a state that has a cost.\<close>

definition cost_of :: "'g search \<Rightarrow> search_state \<Rightarrow> rat" where
  "cost_of sr s = (case map_of (sr_cost sr) s of Some c \<Rightarrow> c | None \<Rightarrow> 0)"

definition relax_edge ::
  "'g plan_request \<Rightarrow> search_state \<Rightarrow> position \<Rightarrow> grid_cell \<Rightarrow> cost_decision \<Rightarrow> 'g search \<Rightarrow> 'g search" where
  "relax_edge rq current next_pos cell d sr =
     (let next_state = next_state_after_decision current next_pos
                         (overlay_after_decision (ss_overlay current) d cell) d;
          favored = next_pos \<in> set (rq_previous_segment rq);
          base = (case cd_cost d of Some c \<Rightarrow> c | None \<Rightarrow> 0);
          step_cost = (if favored then base * rq_backtrack_cost_factor rq else base);
          new_cost = cost_of sr current + step_cost
      in if (case map_of (sr_cost sr) next_state of None \<Rightarrow> True | Some c \<Rightarrow> new_cost < c)
         then sr\<lparr>sr_cost := AList.update next_state new_cost (sr_cost sr),
                 sr_tie := sr_tie sr + 1,
                 sr_frontier := sr_frontier sr @
                   [(new_cost + HEURISTIC_WEIGHT * goal_heuristic (rq_goal rq) next_pos, sr_tie sr + 1, next_state)],
                 sr_came_from := AList.update next_state
                   (current,
                    with_cost_diagnostics d step_cost favored (rq_backtrack_cost_factor rq),
                    step_block_type (rq_world rq) (ss_overlay current) d next_pos cell,
                    virtual_effect_for d) (sr_came_from sr)\<rparr>
         else sr)"

definition visit_neighbor :: "'g plan_request \<Rightarrow> search_state \<Rightarrow> position \<Rightarrow> 'g search \<Rightarrow> 'g search" where
  "visit_neighbor rq current next_pos sr =
     (case overlay_at (rq_world rq) (ss_overlay current) next_pos of
        None \<Rightarrow> note_unloaded rq (ss_pos current) next_pos sr
      | Some cell \<Rightarrow>
          (case candidate_for (rq_terrain rq) (rq_world rq) (rq_break_context rq) current next_pos cell (sr_gov sr) of
             (c, g1) \<Rightarrow>
               (case evaluate (rq_terrain rq) c g1 of
                  (d, g2) \<Rightarrow>
                    (let sr' = sr\<lparr>sr_gov := g2\<rparr>
                     in if \<not> cd_passable d
                        then sr'\<lparr>sr_blocked := sr_blocked sr' @ [blocked_at next_pos (cd_reason d)]\<rparr>
                        else relax_edge rq current next_pos cell d sr'))))"

text \<open>The \<open>for\<close> loop over the neighbours, left when the boundary limit stops the search.\<close>

fun visit_neighbors :: "'g plan_request \<Rightarrow> search_state \<Rightarrow> position list \<Rightarrow> 'g search \<Rightarrow> 'g search" where
  "visit_neighbors rq current [] sr = sr"
| "visit_neighbors rq current (n # ns) sr =
     (let sr' = visit_neighbor rq current n sr
      in if sr_stopped sr' then sr' else visit_neighbors rq current ns sr')"

definition note_progress :: "'g plan_request \<Rightarrow> search_state \<Rightarrow> 'g search \<Rightarrow> 'g search" where
  "note_progress rq current sr =
     (let pos = ss_pos current;
          distance = goal_heuristic (rq_goal rq) pos;
          progress = goal_heuristic (rq_goal rq) (rq_start rq) - distance;
          safe = (case overlay_at (rq_world rq) (ss_overlay current) pos of
                    None \<Rightarrow> False | Some c \<Rightarrow> \<not> gd_liquid c)
      in if pos \<noteq> rq_start rq \<and> progress \<ge> of_int (rq_min_partial_progress rq) \<and> safe
         then sr\<lparr>sr_partial := note_partial_candidates pos (cost_of sr current) distance progress (sr_partial sr)\<rparr>
         else sr)"

text \<open>
  The \<open>while\<close> loop; the fuel is the number of expansions that are left, so running out of it
  is the expansion limit. The first component is the goal state, when one is reached.
\<close>

fun search_loop :: "nat \<Rightarrow> 'g plan_request \<Rightarrow> 'g search \<Rightarrow> search_state option \<times> 'g search" where
  "search_loop 0 rq sr = (None, sr)"
| "search_loop (Suc n) rq sr =
     (case heappop (sr_frontier sr) of
        None \<Rightarrow> (None, sr)
      | Some ((_, _, current), rest) \<Rightarrow>
          (let sr1 = note_progress rq current (sr\<lparr>sr_frontier := rest, sr_expanded := sr_expanded sr + 1\<rparr>)
           in if is_satisfied (rq_goal rq) (ss_pos current) then (Some current, sr1)
              else (let sr2 = visit_neighbors rq current (grid_neighbors (ss_pos current)) sr1
                    in if sr_stopped sr2 then (None, sr2) else search_loop n rq sr2)))"

definition start_state :: "'g plan_request \<Rightarrow> search_state" where
  "start_state rq = \<lparr>ss_pos = rq_start rq, ss_overlay = []\<rparr>"

definition initial_search :: "'g plan_request \<Rightarrow> 'g \<Rightarrow> 'g search" where
  "initial_search rq g =
     \<lparr>sr_frontier = [(0, 0, start_state rq)], sr_came_from = [], sr_cost = [(start_state rq, 0)],
      sr_blocked = [], sr_unloaded = 0, sr_stopped = False, sr_expanded = 0, sr_tie = 0,
      sr_partial = [], sr_gov = g\<rparr>"

section \<open>The result\<close>

definition path_step_of :: "cost_decision \<Rightarrow> string \<Rightarrow> string option \<Rightarrow> path_step" where
  "path_step_of d block_type effect =
     \<lparr>ps_pos = cd_pos d, ps_move = cd_kind d, ps_cost = (case cd_cost d of Some c \<Rightarrow> c | None \<Rightarrow> 0),
      ps_reason = cd_reason d, ps_block_type = block_type, ps_safe_to_cancel = cd_safe_to_cancel d,
      ps_cancel_policy = cd_cancel_policy d, ps_virtual_effect = effect, ps_place_face = cd_place_face d,
      ps_fall_depth = cd_fall_depth d, ps_interaction_target = cd_interaction_target d,
      ps_open_expected_properties = (if cd_kind d = MV_OPEN then Some [(''open'', ''true'')] else None),
      ps_open_headroom_block =
        (if cd_kind d \<noteq> MV_OPEN then None else open_headroom_block_type block_type)\<rparr>"

text \<open>
  The walk back from a state to the start. Following a predecessor that is not recorded would
  raise, following a cycle would not end: both are \<open>None\<close> here, and the search never does
  either.
\<close>

partial_function (option) walk_back ::
  "search_state \<Rightarrow> came_from \<Rightarrow> search_state \<Rightarrow> path_step list option" where
  "walk_back start came current =
     (if current = start then Some []
      else case map_of came current of
        None \<Rightarrow> None
      | Some (prev, d, block_type, effect) \<Rightarrow>
          Option.bind (walk_back start came prev) (\<lambda>steps. Some (steps @ [path_step_of d block_type effect])))"

declare walk_back.simps [code]

definition build_result ::
  "'g plan_request \<Rightarrow> search_state \<Rightarrow> 'g search \<Rightarrow> bool \<Rightarrow> string \<Rightarrow> json_object \<Rightarrow> path_result option" where
  "build_result rq goal_state sr success reason diagnostics =
     Option.bind (walk_back (start_state rq) (sr_came_from sr) goal_state) (\<lambda>steps. Some
       \<lparr>pt_success = success, pt_reason = reason, pt_path = steps, pt_cost = Some (cost_of sr goal_state),
        pt_expanded = sr_expanded sr,
        pt_diagnostics = (''path_start'', json_pos3 (rq_start rq)) # diagnostics\<rparr>)"

definition json_opt_int :: "int option \<Rightarrow> json" where
  "json_opt_int v = (case v of None \<Rightarrow> JNull | Some i \<Rightarrow> JInt i)"

definition stop_reason :: "'g plan_request \<Rightarrow> 'g search \<Rightarrow> string" where
  "stop_reason rq sr =
     (if sr_stopped sr then ''unloaded_boundary''
      else if int (sr_expanded sr) \<ge> rq_max_expansions rq then ''expansion_limit'' else ''no_path'')"

definition search_diagnostics :: "'g plan_request \<Rightarrow> 'g search \<Rightarrow> json_object" where
  "search_diagnostics rq sr =
     [(''blocked'', JList (take 64 (sr_blocked sr))), (''blocked_count'', JInt (int (length (sr_blocked sr)))),
      (''unloaded_boundary_count'', JInt (sr_unloaded sr)),
      (''unloaded_boundary_limit'', json_opt_int (rq_unloaded_boundary_limit rq))]"

definition partial_diagnostics ::
  "'g plan_request \<Rightarrow> 'g search \<Rightarrow> position \<Rightarrow> rat \<Rightarrow> rat \<Rightarrow> json_object" where
  "partial_diagnostics rq sr best_pos progress coefficient =
     [(''partial'', JBool True), (''partial_target'', json_pos3 best_pos),
      (''original_goal'', json_pos3 (representative (rq_goal rq) (rq_start rq))),
      (''goal'', goal_payload (rq_goal rq)), (''progress'', JFloat (Fin progress)),
      (''min_partial_progress'', JInt (rq_min_partial_progress rq)),
      (''partial_backoff_coefficients'', JList (map (\<lambda>c. JFloat (Fin c)) PARTIAL_BACKOFF_COEFFICIENTS)),
      (''selected_coefficient'', JFloat (Fin coefficient)), (''stop_reason'', JStr (stop_reason rq sr))] @
     search_diagnostics rq sr"

text \<open>The cheapest state at the chosen position.\<close>

definition best_state_at :: "position \<Rightarrow> 'g search \<Rightarrow> search_state option" where
  "best_state_at pos sr =
     min_with (cost_of sr) (filter (\<lambda>s. ss_pos s = pos) (map fst (sr_cost sr)))"

definition finish_search :: "'g plan_request \<Rightarrow> search_state option \<Rightarrow> 'g search \<Rightarrow> path_result option" where
  "finish_search rq reached sr =
     (case reached of
        Some goal_state \<Rightarrow>
          build_result rq goal_state sr True ''arrived''
            [(''partial'', JBool False), (''goal'', goal_payload (rq_goal rq))]
      | None \<Rightarrow>
          (case (if rq_allow_partial rq then choose_partial_candidate (sr_partial sr) else None) of
             Some (best_pos, progress, coefficient) \<Rightarrow>
               (case best_state_at best_pos sr of
                  None \<Rightarrow> None
                | Some best_state \<Rightarrow>
                    build_result rq best_state sr False ''partial''
                      (partial_diagnostics rq sr best_pos progress coefficient))
           | None \<Rightarrow>
               Some \<lparr>pt_success = False, pt_reason = stop_reason rq sr, pt_path = [], pt_cost = None,
                     pt_expanded = sr_expanded sr,
                     pt_diagnostics = (''goal'', goal_payload (rq_goal rq)) # search_diagnostics rq sr\<rparr>))"

definition plan :: "'g plan_request \<Rightarrow> 'g \<Rightarrow> py_exn + path_result option \<times> 'g" where
  "plan rq g =
     (if \<not> (0 < rq_backtrack_cost_factor rq \<and> rq_backtrack_cost_factor rq \<le> 1) then Inl ValueError
      else if (case rq_unloaded_boundary_limit rq of None \<Rightarrow> False | Some l \<Rightarrow> l < 1) then Inl ValueError
      else (case search_loop (nat (rq_max_expansions rq)) rq (initial_search rq g) of
              (reached, sr) \<Rightarrow> Inr (finish_search rq reached sr, sr_gov sr)))"

end
