(* ===== verification/Path_Soundness.thy ===== *)
theory Path_Soundness
  imports Path_Search
begin

text \<open>
  What a search of \<open>AStarPlanner.plan\<close> promises. The moves a planner may take form a relation
  between search states; the search keeps an invariant that makes every recorded predecessor
  such a move and every cost larger than its predecessor's, so the walk back ends and its
  result is a run of the relation.
\<close>

section \<open>Asking the governance state\<close>

inductive gov_reach :: "'g terrain \<Rightarrow> 'g \<Rightarrow> 'g \<Rightarrow> bool" for tr g0 where
  gov_start [simp, intro]: "gov_reach tr g0 g0"
| gov_ask: "gov_reach tr g0 g \<Longrightarrow> gov_reach tr g0 (snd (tr_break tr g pos bt ctx))"

lemma gov_ask': "gov_reach tr g0 g \<Longrightarrow> tr_break tr g pos bt ctx = (d, g') \<Longrightarrow> gov_reach tr g0 g'"
  using gov_ask [of tr g0 g pos bt ctx] by simp

lemma cost_decision_of_simps [simp]:
  "cd_passable (cost_decision_of k p c r ds) \<longleftrightarrow> c \<noteq> None"
  "cd_cost (cost_decision_of k p c r ds) = c"
  "cd_kind (cost_decision_of k p c r ds) = k"
  "cd_pos (cost_decision_of k p c r ds) = p"
  by (simp_all add: cost_decision_of_def)

lemma candidate_simps [simp]:
  "mc_kind (candidate k p b) = k" "mc_pos (candidate k p b) = p" "mc_block_type (candidate k p b) = b"
  "mc_kind (break_candidate p b ctx) = MV_BREAK" "mc_pos (break_candidate p b ctx) = p"
  "mc_block_type (break_candidate p b ctx) = b" "mc_break_context (break_candidate p b ctx) = ctx"
  "mc_kind (invalid_candidate p b r) = MV_INVALID"
  by (simp_all add: break_candidate_def invalid_candidate_def candidate_def)

lemma gravity_hazard_kind: "gravity_break_hazard world ov p cell = Some h \<Longrightarrow> mc_kind h = MV_INVALID"
  by (auto simp: gravity_break_hazard_def split: if_splits)

lemma evaluate_state:
  assumes "gov_reach tr g0 g" and "evaluate tr c g = (d, g')"
  shows "gov_reach tr g0 g'"
proof -
  obtain ld gb where b: "tr_break tr g (mc_pos c) (mc_block_type c) (mc_break_context c) = (ld, gb)"
    by fastforce
  have "g' = g \<or> g' = gb"
    using assms(2) b by (cases "mc_kind c") (auto simp: evaluate_def evaluate_break_def)
  then show ?thesis using assms(1) gov_ask' [OF assms(1) b] by auto
qed

lemma evaluate_kind: "evaluate tr c g = (d, g') \<Longrightarrow> cd_kind d = mc_kind c"
  by (cases "mc_kind c")
    (auto simp: evaluate_def simple_move_def evaluate_fall_def evaluate_break_def evaluate_place_def
      evaluate_open_def Let_def split: prod.splits if_splits)

lemma evaluate_pos: "evaluate tr c g = (d, g') \<Longrightarrow> cd_pos d = mc_pos c"
  by (cases "mc_kind c")
    (auto simp: evaluate_def simple_move_def evaluate_fall_def evaluate_break_def evaluate_place_def
      evaluate_open_def Let_def split: prod.splits if_splits)

lemma evaluate_cost:
  assumes "evaluate tr c g = (d, g')" and "cd_passable d"
  shows "\<exists>k>0. cd_cost d = Some k"
proof -
  have "case cd_cost d of None \<Rightarrow> False | Some k \<Rightarrow> 0 < k"
    using assms
    by (cases "mc_kind c")
      (auto simp: evaluate_def simple_move_def evaluate_fall_def evaluate_break_def evaluate_place_def
        evaluate_open_def Let_def max_def split: prod.splits if_splits)
  then show ?thesis by (auto split: option.splits)
qed

lemma evaluate_break_asks:
  assumes "evaluate tr c g = (d, g')" and "cd_passable d" and "mc_kind c = MV_BREAK"
  shows "ld_allowed (fst (tr_break tr g (mc_pos c) (mc_block_type c) (mc_break_context c)))"
  using assms by (auto simp: evaluate_def evaluate_break_def split: prod.splits if_splits)

lemma corners_blocker_state:
  "gov_reach tr g0 g \<Longrightarrow> corners_blocker tr world ctx ov ps g = (b, g') \<Longrightarrow> gov_reach tr g0 g'"
proof (induction tr world ctx ov ps g rule: corners_blocker.induct)
  case (2 tr world ctx ov p ps g)
  show ?case
  proof (cases "overlay_at world ov p")
    case (Some corner)
    obtain ev ge where e: "evaluate tr (break_candidate p (gd_block_type corner) ctx) g = (ev, ge)" by fastforce
    have ge: "gov_reach tr g0 ge" using evaluate_state [OF "2.prems"(1) e] .
    show ?thesis
      using "2.prems" Some e ge "2.IH" [OF Some]
      by (auto split: option.splits if_splits)
  qed (use 2 in simp)
qed simp

lemma diagonal_blocker_state:
  "gov_reach tr g0 g \<Longrightarrow> diagonal_blocker tr world ctx ov cur pos g = (b, g') \<Longrightarrow> gov_reach tr g0 g'"
  by (auto simp: diagonal_blocker_def simp del: corners_blocker.simps
      split: prod.splits if_splits dest: corners_blocker_state)

lemma corners_blocker_kind:
  "corners_blocker tr world ctx ov ps g = (Some c, g') \<Longrightarrow> mc_kind c = MV_INVALID"
proof (induction tr world ctx ov ps g rule: corners_blocker.induct)
  case (2 tr world ctx ov p ps g)
  show ?case
  proof (cases "overlay_at world ov p")
    case (Some corner)
    show ?thesis using 2 Some by (auto split: option.splits if_splits prod.splits dest: gravity_hazard_kind)
  qed (use 2 in auto)
qed simp

lemma diagonal_blocker_kind:
  "diagonal_blocker tr world ctx ov cur pos g = (Some c, g') \<Longrightarrow> mc_kind c = MV_INVALID"
  by (auto simp: diagonal_blocker_def simp del: corners_blocker.simps
      split: prod.splits if_splits dest: corners_blocker_kind)

lemma candidate_for_state:
  assumes "gov_reach tr g0 g" and "candidate_for tr world ctx cur pos cell g = (c, g')"
  shows "gov_reach tr g0 g'"
proof -
  have walk: "gov_reach tr g0 g'" if "walkable_candidate tr world ctx cur pos cell g = (c, g')"
    using that assms(1)
    by (auto simp: walkable_candidate_def Let_def simp del: corners_blocker.simps
        split: prod.splits if_splits option.splits dest: diagonal_blocker_state)
  have obst: "gov_reach tr g0 g'" if "obstacle_candidate tr world ctx cur pos cell g = (c, g')"
    using that assms(1)
    by (auto simp: obstacle_candidate_def Let_def split: prod.splits if_splits option.splits dest: evaluate_state)
  show ?thesis
    using assms walk obst
    by (auto simp: candidate_for_def Let_def split: if_splits option.splits prod.splits)
qed

text \<open>A move that takes a block away, and the permission that was given for it.\<close>

definition dig_move :: "move_kind \<Rightarrow> bool" where
  "dig_move k \<longleftrightarrow> k = MV_BREAK \<or> k = MV_DOWNWARD"

text \<open>
  The type of the block that is in the way at a position: that of its cell, or, when the cell is
  not loaded, the headroom the cell below it reports.
\<close>

definition observed_type :: "grid_world \<Rightarrow> block_overlay \<Rightarrow> position \<Rightarrow> string \<Rightarrow> bool" where
  "observed_type world ov pos block_type \<longleftrightarrow>
     (case overlay_at world ov pos of
        Some c \<Rightarrow> block_type = gd_block_type c
      | None \<Rightarrow> (\<exists>c. overlay_at world ov (below pos) = Some c \<and> gd_headroom_block c = Some block_type))"

definition dig_permitted ::
  "'g terrain \<Rightarrow> 'g \<Rightarrow> break_context \<Rightarrow> grid_world \<Rightarrow> block_overlay \<Rightarrow> position \<Rightarrow> bool" where
  "dig_permitted tr g0 ctx world ov pos \<longleftrightarrow>
     (\<exists>g block_type. gov_reach tr g0 g \<and> observed_type world ov pos block_type \<and>
        ld_allowed (fst (tr_break tr g pos block_type ctx)))"

lemma below_above [simp]: "below (above p) = p"
  by (simp add: below_def above_def split: prod.split)

lemma blocked_headroom_observed:
  "overlay_at world ov pos = Some cell \<Longrightarrow> blocked_headroom world ov pos cell = Some (h, b) \<Longrightarrow>
     observed_type world ov h b"
  by (auto simp: blocked_headroom_def observed_type_def split: option.splits if_splits)

lemma candidate_for_dig:
  assumes "gov_reach tr g0 g" and cell: "overlay_at world (ss_overlay cur) pos = Some cell"
    and "candidate_for tr world ctx cur pos cell g = (c, g')"
  shows "(mc_kind c = MV_BREAK \<longrightarrow> mc_break_context c = ctx \<and>
           observed_type world (ss_overlay cur) (mc_pos c) (mc_block_type c)) \<and>
         (mc_kind c = MV_DOWNWARD \<longrightarrow> dig_permitted tr g0 ctx world (ss_overlay cur) (mc_pos c))"
    (is "?ok c")
proof -
  let ?ov = "ss_overlay cur"
  have here: "observed_type world ?ov pos (gd_block_type cell)" using cell by (simp add: observed_type_def)
  have walk: "?ok c" if "walkable_candidate tr world ctx cur pos cell g = (c, g')"
    using that
    by (auto simp: walkable_candidate_def Let_def simp del: corners_blocker.simps
        split: prod.splits if_splits option.splits dest: diagonal_blocker_kind)
  have obst: "?ok c" if o: "obstacle_candidate tr world ctx cur pos cell g = (c, g')"
  proof -
    let ?b = "break_candidate pos (gd_block_type cell) ctx"
    obtain d gd where e: "evaluate tr ?b g = (d, gd)" by fastforce
    have "cd_passable d \<Longrightarrow> dig_permitted tr g0 ctx world ?ov pos"
      using evaluate_break_asks [OF e] assms(1) here by (auto simp: dig_permitted_def)
    then show ?thesis
      using o e here
      by (auto simp: obstacle_candidate_def openable_pass_candidate_def Let_def
          split: if_splits option.splits dest: gravity_hazard_kind)
  qed
  show ?thesis
  proof (cases "blocked_headroom world ?ov pos cell")
    case None
    then show ?thesis
      using assms(3) walk obst by (auto simp: candidate_for_def Let_def split: if_splits prod.splits)
  next
    case (Some hb)
    obtain h b where hb: "hb = (h, b)" by (cases hb)
    have "observed_type world ?ov h b" using blocked_headroom_observed [OF cell Some [unfolded hb]] .
    then show ?thesis
      using assms(3) Some hb
      by (auto simp: candidate_for_def Let_def split: if_splits option.splits prod.splits
          dest: gravity_hazard_kind)
  qed
qed

section \<open>The moves a planner may take\<close>

text \<open>
  One planned move: into a loaded neighbour, with a movement the cell calls for that the cost
  model lets pass, asked of a governance state the search has come to.
\<close>

definition planned_move ::
  "'g plan_request \<Rightarrow> 'g \<Rightarrow> search_state \<Rightarrow> search_state \<Rightarrow> path_step \<Rightarrow> bool" where
  "planned_move rq g0 s s' step \<longleftrightarrow>
     (\<exists>next_pos cell c d g1 g2 g3 k favored.
        gov_reach (rq_terrain rq) g0 g1 \<and> next_pos \<in> set (grid_neighbors (ss_pos s)) \<and>
        overlay_at (rq_world rq) (ss_overlay s) next_pos = Some cell \<and>
        candidate_for (rq_terrain rq) (rq_world rq) (rq_break_context rq) s next_pos cell g1 = (c, g2) \<and>
        evaluate (rq_terrain rq) c g2 = (d, g3) \<and> cd_passable d \<and> 0 < k \<and>
        s' = next_state_after_decision s next_pos (overlay_after_decision (ss_overlay s) d cell) d \<and>
        step = path_step_of (with_cost_diagnostics d k favored (rq_backtrack_cost_factor rq))
                 (step_block_type (rq_world rq) (ss_overlay s) d next_pos cell) (virtual_effect_for d))"

text \<open>A run of the planner: the abstract specification of a path.\<close>

inductive planned_run ::
  "'g plan_request \<Rightarrow> 'g \<Rightarrow> search_state \<Rightarrow> path_step list \<Rightarrow> search_state \<Rightarrow> bool" for rq g0 s where
  run_start: "planned_run rq g0 s [] s"
| run_move: "planned_run rq g0 s steps t \<Longrightarrow> planned_move rq g0 t t' step \<Longrightarrow> planned_run rq g0 s (steps @ [step]) t'"

lemma path_step_of_simps [simp]:
  "ps_cost (path_step_of (with_cost_diagnostics d k f x) bt eff) = k"
  "ps_move (path_step_of (with_cost_diagnostics d k f x) bt eff) = cd_kind d"
  "ps_pos (path_step_of (with_cost_diagnostics d k f x) bt eff) = cd_pos d"
  by (simp_all add: path_step_of_def with_cost_diagnostics_def)

lemma planned_move_cost: "planned_move rq g0 s s' step \<Longrightarrow> 0 < ps_cost step"
  by (auto simp: planned_move_def)

lemma planned_move_dig:
  assumes "planned_move rq g0 s s' step" and "dig_move (ps_move step)"
  shows "dig_permitted (rq_terrain rq) g0 (rq_break_context rq) (rq_world rq) (ss_overlay s) (ps_pos step)"
proof -
  from assms(1) obtain next_pos cell c d g1 g2 g3 k favored where
    g1: "gov_reach (rq_terrain rq) g0 g1"
    and cell: "overlay_at (rq_world rq) (ss_overlay s) next_pos = Some cell"
    and c: "candidate_for (rq_terrain rq) (rq_world rq) (rq_break_context rq) s next_pos cell g1 = (c, g2)"
    and d: "evaluate (rq_terrain rq) c g2 = (d, g3)" "cd_passable d"
    and st: "ps_move step = cd_kind d" "ps_pos step = cd_pos d"
    unfolding planned_move_def by fastforce
  note dig = candidate_for_dig [OF g1 cell c]
  have g2: "gov_reach (rq_terrain rq) g0 g2" using candidate_for_state [OF g1 c] .
  show ?thesis
  proof (cases "mc_kind c = MV_BREAK")
    case True
    then show ?thesis
      using dig evaluate_break_asks [OF d] g2 evaluate_pos [OF d(1)] st by (auto simp: dig_permitted_def)
  next
    case False
    then show ?thesis
      using assms(2) dig evaluate_pos [OF d(1)] evaluate_kind [OF d(1)] st by (simp add: dig_move_def)
  qed
qed

lemma planned_run_split:
  "planned_run rq g0 s steps t \<Longrightarrow> steps = pre @ step # post \<Longrightarrow>
     \<exists>u v. planned_run rq g0 s pre u \<and> planned_move rq g0 u v step"
proof (induction arbitrary: post rule: planned_run.induct)
  case (run_move steps t t' last_step)
  then show ?case by (cases post rule: rev_cases) auto
qed simp

lemma planned_run_digs:
  assumes "planned_run rq g0 s (pre @ step # post) t" and "dig_move (ps_move step)"
  shows "\<exists>u. planned_run rq g0 s pre u \<and>
    dig_permitted (rq_terrain rq) g0 (rq_break_context rq) (rq_world rq) (ss_overlay u) (ps_pos step)"
proof -
  from planned_run_split [OF assms(1) refl] obtain u v where
    "planned_run rq g0 s pre u" "planned_move rq g0 u v step" by blast
  with planned_move_dig [OF this(2) assms(2)] show ?thesis by (intro exI conjI)
qed

section \<open>The invariant of the search\<close>

text \<open>The predecessor on record for a state is a planned move away, and cheaper by its cost.\<close>

definition linked :: "'g plan_request \<Rightarrow> 'g \<Rightarrow> 'g search \<Rightarrow> search_state \<Rightarrow> rat \<Rightarrow> bool" where
  "linked rq g0 sr s c \<longleftrightarrow>
     (\<exists>p d bt eff pc. map_of (sr_came_from sr) s = Some (p, d, bt, eff) \<and>
        map_of (sr_cost sr) p = Some pc \<and> planned_move rq g0 p s (path_step_of d bt eff) \<and>
        pc + ps_cost (path_step_of d bt eff) \<le> c)"

definition search_inv :: "'g plan_request \<Rightarrow> 'g \<Rightarrow> 'g search \<Rightarrow> bool" where
  "search_inv rq g0 sr \<longleftrightarrow>
     map_of (sr_cost sr) (start_state rq) = Some 0 \<and>
     (\<forall>s c. map_of (sr_cost sr) s = Some c \<longrightarrow> 0 \<le> c \<and> (s = start_state rq \<or> linked rq g0 sr s c)) \<and>
     (\<forall>e\<in>set (sr_frontier sr). map_of (sr_cost sr) (snd (snd e)) \<noteq> None) \<and>
     (\<forall>e\<in>set (sr_partial sr). \<exists>s. map_of (sr_cost sr) s \<noteq> None \<and> ss_pos s = fst (snd (snd e))) \<and>
     gov_reach (rq_terrain rq) g0 (sr_gov sr)"

lemma search_invI:
  assumes "map_of (sr_cost sr) (start_state rq) = Some 0"
    and "\<And>s c. map_of (sr_cost sr) s = Some c \<Longrightarrow> 0 \<le> c"
    and "\<And>s c. map_of (sr_cost sr) s = Some c \<Longrightarrow> s \<noteq> start_state rq \<Longrightarrow> linked rq g0 sr s c"
    and "\<And>e. e \<in> set (sr_frontier sr) \<Longrightarrow> map_of (sr_cost sr) (snd (snd e)) \<noteq> None"
    and "\<And>e. e \<in> set (sr_partial sr) \<Longrightarrow> \<exists>s. map_of (sr_cost sr) s \<noteq> None \<and> ss_pos s = fst (snd (snd e))"
    and "gov_reach (rq_terrain rq) g0 (sr_gov sr)"
  shows "search_inv rq g0 sr"
  using assms unfolding search_inv_def by blast

lemma search_invD:
  assumes "search_inv rq g0 sr"
  shows "map_of (sr_cost sr) (start_state rq) = Some 0"
    and "map_of (sr_cost sr) s = Some c \<Longrightarrow> 0 \<le> c"
    and "map_of (sr_cost sr) s = Some c \<Longrightarrow> s \<noteq> start_state rq \<Longrightarrow> linked rq g0 sr s c"
    and "e \<in> set (sr_frontier sr) \<Longrightarrow> map_of (sr_cost sr) (snd (snd e)) \<noteq> None"
    and "q \<in> set (sr_partial sr) \<Longrightarrow> \<exists>s. map_of (sr_cost sr) s \<noteq> None \<and> ss_pos s = fst (snd (snd q))"
    and "gov_reach (rq_terrain rq) g0 (sr_gov sr)"
  using assms unfolding search_inv_def by blast+

text \<open>Only the frontier, the candidates and the governance state have a say outside the costs.\<close>

lemma search_inv_transfer:
  assumes "search_inv rq g0 sr"
    and "sr_cost sr' = sr_cost sr" "sr_came_from sr' = sr_came_from sr"
    and "set (sr_frontier sr') \<subseteq> set (sr_frontier sr)"
    and "\<And>e. e \<in> set (sr_partial sr') \<Longrightarrow>
      e \<in> set (sr_partial sr) \<or> (\<exists>s. map_of (sr_cost sr) s \<noteq> None \<and> ss_pos s = fst (snd (snd e)))"
    and "gov_reach (rq_terrain rq) g0 (sr_gov sr')"
  shows "search_inv rq g0 sr'"
proof (rule search_invI)
  show "linked rq g0 sr' s c" if "map_of (sr_cost sr') s = Some c" "s \<noteq> start_state rq" for s c
    using search_invD(3) [OF assms(1), of s c] that assms(2,3) by (simp add: linked_def)
  show "map_of (sr_cost sr') (snd (snd e)) \<noteq> None" if "e \<in> set (sr_frontier sr')" for e
    using search_invD(4) [OF assms(1), of e] that assms(2,4) by auto
  show "\<exists>s. map_of (sr_cost sr') s \<noteq> None \<and> ss_pos s = fst (snd (snd q))" if "q \<in> set (sr_partial sr')" for q
    using assms(5) [OF that] search_invD(5) [OF assms(1), of q] unfolding assms(2) by blast
qed (use assms search_invD [OF assms(1)] in simp_all)

lemma initial_inv: "search_inv rq g0 (initial_search rq g0)"
  by (rule search_invI) (auto simp: initial_search_def split: if_splits)

lemma cost_of_Some: "map_of (sr_cost sr) s = Some c \<Longrightarrow> cost_of sr s = c"
  by (simp add: cost_of_def)

text \<open>A relaxed edge: the predecessor it records is the state whose neighbour was looked at.\<close>

lemma search_inv_relax:
  assumes inv: "search_inv rq g0 sr"
    and cur: "map_of (sr_cost sr) current = Some cc"
    and move: "planned_move rq g0 current next_state (path_step_of d bt eff)"
    and k: "k = ps_cost (path_step_of d bt eff)"
    and better: "case map_of (sr_cost sr) next_state of None \<Rightarrow> True | Some c \<Rightarrow> cc + k < c"
    and sr': "sr_cost sr' = AList.update next_state (cc + k) (sr_cost sr)"
      "sr_came_from sr' = AList.update next_state (current, d, bt, eff) (sr_came_from sr)"
      "sr_frontier sr' = sr_frontier sr @ [(f, n, next_state)]"
      "sr_partial sr' = sr_partial sr" "sr_gov sr' = sr_gov sr"
  shows "search_inv rq g0 sr'"
proof -
  have k0: "0 < k" using planned_move_cost [OF move] k by simp
  have cc0: "0 \<le> cc" using search_invD(2) [OF inv cur] .
  have new: "next_state \<noteq> current" using better cur k0 by auto
  have nstart: "next_state \<noteq> start_state rq" using better search_invD(1) [OF inv] k0 cc0 by auto
  have cost': "map_of (sr_cost sr') s = (if s = next_state then Some (cc + k) else map_of (sr_cost sr) s)" for s
    by (simp add: sr' update_conv')
  have drop: "\<exists>pc'. map_of (sr_cost sr') p = Some pc' \<and> pc' \<le> pc" if "map_of (sr_cost sr) p = Some pc" for p pc
    using that better by (cases "p = next_state") (auto simp: cost')
  show ?thesis
  proof (rule search_invI)
    show "map_of (sr_cost sr') (start_state rq) = Some 0" using search_invD(1) [OF inv] nstart by (simp add: cost')
    show "0 \<le> c" if "map_of (sr_cost sr') s = Some c" for s c
      using that search_invD(2) [OF inv, of s c] k0 cc0 by (auto simp: cost' split: if_splits)
    show "linked rq g0 sr' s c" if c: "map_of (sr_cost sr') s = Some c" and s: "s \<noteq> start_state rq" for s c
    proof (cases "s = next_state")
      case True
      then show ?thesis using c new move k cur by (simp add: linked_def sr' update_conv' cost')
    next
      case False
      then have "linked rq g0 sr s c" using search_invD(3) [OF inv _ s] c by (simp add: cost')
      then obtain p e b x pc where l: "map_of (sr_came_from sr) s = Some (p, e, b, x)"
        "map_of (sr_cost sr) p = Some pc" "planned_move rq g0 p s (path_step_of e b x)"
        "pc + ps_cost (path_step_of e b x) \<le> c" unfolding linked_def by blast
      from drop [OF l(2)] obtain pc' where pc': "map_of (sr_cost sr') p = Some pc'" "pc' \<le> pc" by blast
      have "map_of (sr_came_from sr') s = Some (p, e, b, x)" using l(1) False by (simp add: sr' update_conv')
      moreover have "pc' + ps_cost (path_step_of e b x) \<le> c" using l(4) pc'(2) by simp
      ultimately show ?thesis using l(3) pc'(1) unfolding linked_def by blast
    qed
    show "map_of (sr_cost sr') (snd (snd e)) \<noteq> None" if "e \<in> set (sr_frontier sr')" for e
      using that search_invD(4) [OF inv, of e] by (auto simp: cost' sr')
    show "\<exists>s. map_of (sr_cost sr') s \<noteq> None \<and> ss_pos s = fst (snd (snd q))" if "q \<in> set (sr_partial sr')" for q
    proof -
      from that search_invD(5) [OF inv, of q] obtain s where
        "map_of (sr_cost sr) s \<noteq> None" "ss_pos s = fst (snd (snd q))" unfolding sr' by blast
      moreover have "map_of (sr_cost sr') s \<noteq> None" using calculation(1) by (simp add: cost')
      ultimately show ?thesis by blast
    qed
    show "gov_reach (rq_terrain rq) g0 (sr_gov sr')" using search_invD(6) [OF inv] by (simp add: sr')
  qed
qed

section \<open>Every step of the search keeps it\<close>

lemma relax_edge_cost_mono:
  "map_of (sr_cost sr) s \<noteq> None \<Longrightarrow> map_of (sr_cost (relax_edge rq current next_pos cell d sr)) s \<noteq> None"
  by (simp add: relax_edge_def Let_def update_conv')

lemma note_unloaded_frame:
  "sr_cost (note_unloaded rq p q sr) = sr_cost sr" "sr_came_from (note_unloaded rq p q sr) = sr_came_from sr"
  "sr_partial (note_unloaded rq p q sr) = sr_partial sr" "sr_gov (note_unloaded rq p q sr) = sr_gov sr"
  "sr_expanded (note_unloaded rq p q sr) = sr_expanded sr"
  "set (sr_frontier (note_unloaded rq p q sr)) \<subseteq> set (sr_frontier sr)"
  by (simp_all add: note_unloaded_def Let_def split: option.split)

lemma visit_neighbor_cost_mono:
  assumes "map_of (sr_cost sr) s \<noteq> None"
  shows "map_of (sr_cost (visit_neighbor rq current next_pos sr)) s \<noteq> None"
proof -
  have "map_of (sr_cost (relax_edge rq current next_pos cell d (sr\<lparr>sr_gov := g\<rparr>))) s \<noteq> None" for cell d g
    using relax_edge_cost_mono [of "sr\<lparr>sr_gov := g\<rparr>" s] assms by simp
  then show ?thesis
    using assms
    by (simp add: visit_neighbor_def note_unloaded_frame Let_def del: not_None_eq split: option.split prod.split)
qed

lemma relax_edge_expanded [simp]: "sr_expanded (relax_edge rq current next_pos cell d sr) = sr_expanded sr"
  by (simp add: relax_edge_def Let_def)

lemma visit_neighbor_expanded [simp]: "sr_expanded (visit_neighbor rq current next_pos sr) = sr_expanded sr"
  by (simp add: visit_neighbor_def note_unloaded_frame Let_def split: option.split prod.split)

lemma visit_neighbors_expanded [simp]: "sr_expanded (visit_neighbors rq current ns sr) = sr_expanded sr"
  by (induction rq current ns sr rule: visit_neighbors.induct) (simp_all add: Let_def)

lemma note_progress_frame [simp]:
  "sr_cost (note_progress rq current sr) = sr_cost sr"
  "sr_came_from (note_progress rq current sr) = sr_came_from sr"
  "sr_frontier (note_progress rq current sr) = sr_frontier sr"
  "sr_gov (note_progress rq current sr) = sr_gov sr"
  "sr_expanded (note_progress rq current sr) = sr_expanded sr"
  by (simp_all add: note_progress_def Let_def)

lemma relax_edge_inv:
  assumes inv: "search_inv rq g0 sr" and cur: "map_of (sr_cost sr) current = Some cc"
    and factor: "0 < rq_backtrack_cost_factor rq"
    and g1: "gov_reach (rq_terrain rq) g0 g1" and nb: "next_pos \<in> set (grid_neighbors (ss_pos current))"
    and cell: "overlay_at (rq_world rq) (ss_overlay current) next_pos = Some cell"
    and c: "candidate_for (rq_terrain rq) (rq_world rq) (rq_break_context rq) current next_pos cell g1 = (c, g2)"
    and d: "evaluate (rq_terrain rq) c g2 = (d, g3)" "cd_passable d"
  shows "search_inv rq g0 (relax_edge rq current next_pos cell d sr)"
proof -
  let ?next = "next_state_after_decision current next_pos (overlay_after_decision (ss_overlay current) d cell) d"
  let ?fav = "next_pos \<in> set (rq_previous_segment rq)"
  from evaluate_cost [OF d] obtain base where base: "0 < base" "cd_cost d = Some base" by blast
  define k where "k = (if ?fav then base * rq_backtrack_cost_factor rq else base)"
  have k: "0 < k" using base(1) factor by (simp add: k_def)
  let ?d = "with_cost_diagnostics d k ?fav (rq_backtrack_cost_factor rq)"
  let ?bt = "step_block_type (rq_world rq) (ss_overlay current) d next_pos cell"
  have move: "planned_move rq g0 current ?next (path_step_of ?d ?bt (virtual_effect_for d))"
    using g1 nb cell c d k unfolding planned_move_def by blast
  have eq: "relax_edge rq current next_pos cell d sr =
    (if case map_of (sr_cost sr) ?next of None \<Rightarrow> True | Some c \<Rightarrow> cc + k < c
     then sr\<lparr>sr_cost := AList.update ?next (cc + k) (sr_cost sr), sr_tie := sr_tie sr + 1,
             sr_frontier := sr_frontier sr @
               [(cc + k + HEURISTIC_WEIGHT * goal_heuristic (rq_goal rq) next_pos, sr_tie sr + 1, ?next)],
             sr_came_from := AList.update ?next (current, ?d, ?bt, virtual_effect_for d) (sr_came_from sr)\<rparr>
     else sr)"
    unfolding relax_edge_def Let_def cost_of_Some [OF cur] base(2) option.case k_def by simp
  show ?thesis
  proof (cases "case map_of (sr_cost sr) ?next of None \<Rightarrow> True | Some c \<Rightarrow> cc + k < c")
    case True
    show ?thesis by (rule search_inv_relax [OF inv cur move _ True]) (simp_all add: eq True)
  qed (use inv eq in simp)
qed

lemma visit_neighbor_inv:
  assumes inv: "search_inv rq g0 sr" and cur: "map_of (sr_cost sr) current \<noteq> None"
    and factor: "0 < rq_backtrack_cost_factor rq"
    and nb: "next_pos \<in> set (grid_neighbors (ss_pos current))"
  shows "search_inv rq g0 (visit_neighbor rq current next_pos sr)"
proof (cases "overlay_at (rq_world rq) (ss_overlay current) next_pos")
  case None
  then have eq: "visit_neighbor rq current next_pos sr = note_unloaded rq (ss_pos current) next_pos sr"
    by (simp add: visit_neighbor_def)
  show ?thesis unfolding eq
    by (rule search_inv_transfer [OF inv])
      (use search_invD(6) [OF inv] note_unloaded_frame in \<open>auto simp: note_unloaded_frame\<close>)
next
  case (Some cell)
  obtain c g1 where c: "candidate_for (rq_terrain rq) (rq_world rq) (rq_break_context rq) current next_pos cell (sr_gov sr) = (c, g1)"
    by fastforce
  obtain d g2 where d: "evaluate (rq_terrain rq) c g1 = (d, g2)" by fastforce
  have g0: "gov_reach (rq_terrain rq) g0 (sr_gov sr)" using search_invD(6) [OF inv] .
  have g2: "gov_reach (rq_terrain rq) g0 g2" using evaluate_state [OF candidate_for_state [OF g0 c] d] .
  have inv': "search_inv rq g0 (sr\<lparr>sr_gov := g2\<rparr>)"
    by (rule search_inv_transfer [OF inv]) (use g2 in simp_all)
  have inv'': "search_inv rq g0 (sr\<lparr>sr_gov := g2, sr_blocked := b\<rparr>)" for b
    by (rule search_inv_transfer [OF inv]) (use g2 in simp_all)
  from cur obtain cc where "map_of (sr_cost (sr\<lparr>sr_gov := g2\<rparr>)) current = Some cc" by auto
  from relax_edge_inv [OF inv' this factor g0 nb Some c d] show ?thesis
    using inv'' by (simp add: visit_neighbor_def Some c d Let_def)
qed

lemma visit_neighbors_inv:
  "search_inv rq g0 sr \<Longrightarrow> map_of (sr_cost sr) current \<noteq> None \<Longrightarrow> 0 < rq_backtrack_cost_factor rq \<Longrightarrow>
     set ns \<subseteq> set (grid_neighbors (ss_pos current)) \<Longrightarrow> search_inv rq g0 (visit_neighbors rq current ns sr)"
proof (induction rq current ns sr rule: visit_neighbors.induct)
  case (2 rq current n ns sr)
  have "search_inv rq g0 (visit_neighbor rq current n sr)" using 2 by (intro visit_neighbor_inv) auto
  moreover have "map_of (sr_cost (visit_neighbor rq current n sr)) current \<noteq> None"
    using 2 by (intro visit_neighbor_cost_mono)
  ultimately show ?case using 2 by (simp add: Let_def)
qed simp

lemma note_partial_positions:
  "q \<in> set (fold (note_partial_candidate pos a b c) cs ps) \<Longrightarrow> q \<in> set ps \<or> fst (snd (snd q)) = pos"
proof (induction cs arbitrary: ps)
  case (Cons k cs)
  have step: "q \<in> set (note_partial_candidate pos a b c k ps) \<Longrightarrow> q \<in> set ps \<or> fst (snd (snd q)) = pos" for q
    by (auto simp: note_partial_candidate_def Let_def split: option.splits if_splits dest!: set_update_cases)
  show ?case using Cons.IH [of "note_partial_candidate pos a b c k ps"] Cons.prems step [of q] by auto
qed simp

lemma note_progress_inv:
  assumes inv: "search_inv rq g0 sr" and cur: "map_of (sr_cost sr) current \<noteq> None"
  shows "search_inv rq g0 (note_progress rq current sr)"
proof (rule search_inv_transfer [OF inv])
  show "q \<in> set (sr_partial sr) \<or> (\<exists>s. map_of (sr_cost sr) s \<noteq> None \<and> ss_pos s = fst (snd (snd q)))"
    if "q \<in> set (sr_partial (note_progress rq current sr))" for q
    using that cur note_partial_positions [of q "ss_pos current"]
    by (fastforce simp: note_progress_def note_partial_candidates_def Let_def split: if_splits)
qed (use search_invD(6) [OF inv] in simp_all)

lemma search_loop_inv:
  assumes "search_inv rq g0 sr" and "0 < rq_backtrack_cost_factor rq"
    and "search_loop n rq sr = (reached, sr')"
  shows "search_inv rq g0 sr' \<and> sr_expanded sr' \<le> sr_expanded sr + n \<and>
    (\<forall>s. reached = Some s \<longrightarrow> is_satisfied (rq_goal rq) (ss_pos s) \<and> map_of (sr_cost sr') s \<noteq> None)"
  using assms
proof (induction n arbitrary: sr)
  case (Suc n)
  show ?case
  proof (cases "heappop (sr_frontier sr)")
    case None
    then show ?thesis using Suc.prems by simp
  next
    case (Some er)
    obtain f t current rest where er: "er = ((f, t, current), rest)" by (cases er) auto
    note pop = heap.taken_member [OF Some [unfolded er]] heap.rest_member [OF Some [unfolded er]]
    let ?sr = "sr\<lparr>sr_frontier := rest, sr_expanded := sr_expanded sr + 1\<rparr>"
    let ?sr1 = "note_progress rq current ?sr"
    let ?sr2 = "visit_neighbors rq current (grid_neighbors (ss_pos current)) ?sr1"
    have cur: "map_of (sr_cost sr) current \<noteq> None" using search_invD(4) [OF Suc.prems(1), of "(f, t, current)"] pop(1) by simp
    have "search_inv rq g0 ?sr"
      by (rule search_inv_transfer [OF Suc.prems(1)]) (use search_invD(6) [OF Suc.prems(1)] pop(2) in auto)
    from note_progress_inv [OF this] cur have inv1: "search_inv rq g0 ?sr1" by simp
    from visit_neighbors_inv [OF this] cur Suc.prems(2) have inv2: "search_inv rq g0 ?sr2" by simp
    show ?thesis
    proof (cases "is_satisfied (rq_goal rq) (ss_pos current)")
      case True
      then show ?thesis using Suc.prems(3) Some er inv1 cur by (auto simp: Let_def)
    next
      case nsat: False
      show ?thesis
      proof (cases "sr_stopped ?sr2")
        case True
        then show ?thesis using Suc.prems(3) Some er nsat inv2 by (auto simp: Let_def)
      next
        case False
        then have "search_loop n rq ?sr2 = (reached, sr')" using Suc.prems(3) Some er nsat by (simp add: Let_def)
        from Suc.IH [OF inv2 Suc.prems(2) this] show ?thesis by auto
      qed
    qed
  qed
qed simp

section \<open>The walk back\<close>

definition cheaper :: "'g search \<Rightarrow> search_state \<Rightarrow> search_state set" where
  "cheaper sr s = {t \<in> fst ` set (sr_cost sr). cost_of sr t < cost_of sr s}"

lemma cheaper_finite [simp]: "finite (cheaper sr s)"
  by (simp add: cheaper_def)

lemma cheaper_less:
  assumes "map_of (sr_cost sr) p = Some pc" and "map_of (sr_cost sr) s = Some c" and "pc < c"
  shows "card (cheaper sr p) < card (cheaper sr s)"
proof (rule psubset_card_mono)
  have "p \<in> fst ` set (sr_cost sr)" using map_of_SomeD [OF assms(1)] by force
  then have "p \<in> cheaper sr s" using assms by (simp add: cheaper_def cost_of_Some)
  moreover have "p \<notin> cheaper sr p" by (simp add: cheaper_def)
  moreover have "cheaper sr p \<subseteq> cheaper sr s" using assms by (auto simp: cheaper_def cost_of_Some)
  ultimately show "cheaper sr p \<subset> cheaper sr s" by blast
qed simp

text \<open>From every state with a cost the walk back ends, with a run of at most that cost.\<close>

lemma walk_back_run:
  assumes inv: "search_inv rq g0 sr" and "map_of (sr_cost sr) s = Some c"
  shows "\<exists>steps. walk_back (start_state rq) (sr_came_from sr) s = Some steps \<and>
           planned_run rq g0 (start_state rq) steps s \<and> sum_list (map ps_cost steps) \<le> c"
  using assms(2)
proof (induction "card (cheaper sr s)" arbitrary: s c rule: less_induct)
  case less
  show ?case
  proof (cases "s = start_state rq")
    case True
    then have "c = 0" using less.prems search_invD(1) [OF inv] by simp
    then show ?thesis using True by (simp add: walk_back.simps run_start)
  next
    case False
    from search_invD(3) [OF inv less.prems False] obtain p d bt eff pc where
      l: "map_of (sr_came_from sr) s = Some (p, d, bt, eff)" "map_of (sr_cost sr) p = Some pc"
        "planned_move rq g0 p s (path_step_of d bt eff)" "pc + ps_cost (path_step_of d bt eff) \<le> c"
      unfolding linked_def by blast
    have "pc < c" using planned_move_cost [OF l(3)] l(4) by linarith
    from less.hyps [OF cheaper_less [OF l(2) less.prems this] l(2)] obtain steps where
      st: "walk_back (start_state rq) (sr_came_from sr) p = Some steps"
        "planned_run rq g0 (start_state rq) steps p" "sum_list (map ps_cost steps) \<le> pc" by blast
    have "walk_back (start_state rq) (sr_came_from sr) s = Some (steps @ [path_step_of d bt eff])"
      using False l(1) st(1) by (subst walk_back.simps) simp
    moreover have "planned_run rq g0 (start_state rq) (steps @ [path_step_of d bt eff]) s"
      using run_move [OF st(2) l(3)] .
    ultimately show ?thesis using st(3) l(4) by auto
  qed
qed

lemma choose_partial_member:
  "choose_partial_candidate ps = Some (pos, g, c) \<Longrightarrow> \<exists>q\<in>set ps. fst (snd (snd q)) = pos"
  unfolding choose_partial_candidate_def
  by (auto split: option.splits dest!: min_with_Some) force

lemma best_state_at_Some:
  assumes "map_of (sr_cost sr) s \<noteq> None" and "ss_pos s = pos"
  shows "\<exists>b. best_state_at pos sr = Some b \<and> ss_pos b = pos \<and> map_of (sr_cost sr) b \<noteq> None"
proof -
  let ?xs = "filter (\<lambda>s. ss_pos s = pos) (map fst (sr_cost sr))"
  have "s \<in> set ?xs" using assms by (auto simp: map_of_eq_None_iff)
  then have "?xs \<noteq> []" by (metis empty_iff empty_set)
  then obtain b where b: "min_with (cost_of sr) ?xs = Some b" by (cases "min_with (cost_of sr) ?xs") auto
  from min_with_Some [OF b] have "ss_pos b = pos" "b \<in> fst ` set (sr_cost sr)" by auto
  then show ?thesis using b by (auto simp: best_state_at_def map_of_eq_None_iff simp del: not_None_eq)
qed

text \<open>What every result is: a run to a state the search has a cost for.\<close>

definition sound_result :: "'g plan_request \<Rightarrow> 'g \<Rightarrow> path_result \<Rightarrow> bool" where
  "sound_result rq g0 r \<longleftrightarrow>
     (\<exists>s. planned_run rq g0 (start_state rq) (pt_path r) s \<and>
        (pt_success r \<longrightarrow> is_satisfied (rq_goal rq) (ss_pos s)) \<and>
        (case pt_cost r of None \<Rightarrow> pt_path r = [] | Some c \<Rightarrow> sum_list (map ps_cost (pt_path r)) \<le> c))"

lemma build_result_sound:
  assumes "search_inv rq g0 sr" and "map_of (sr_cost sr) s \<noteq> None"
    and "ok \<longrightarrow> is_satisfied (rq_goal rq) (ss_pos s)"
  shows "\<exists>r. build_result rq s sr ok reason ds = Some r \<and> sound_result rq g0 r \<and>
           pt_expanded r = sr_expanded sr \<and> pt_success r = ok"
proof -
  from assms(2) obtain c where c: "map_of (sr_cost sr) s = Some c" by auto
  from walk_back_run [OF assms(1) c] obtain steps where
    "walk_back (start_state rq) (sr_came_from sr) s = Some steps"
    "planned_run rq g0 (start_state rq) steps s" "sum_list (map ps_cost steps) \<le> c" by blast
  then show ?thesis using assms(3) by (auto simp: build_result_def sound_result_def cost_of_Some [OF c])
qed

lemma finish_search_sound:
  assumes inv: "search_inv rq g0 sr"
    and reached: "\<forall>s. reached = Some s \<longrightarrow> is_satisfied (rq_goal rq) (ss_pos s) \<and> map_of (sr_cost sr) s \<noteq> None"
  shows "\<exists>r. finish_search rq reached sr = Some r \<and> sound_result rq g0 r \<and>
           pt_expanded r = sr_expanded sr \<and> pt_success r = (reached \<noteq> None)"
proof (cases reached)
  case (Some s)
  then show ?thesis
    using build_result_sound [OF inv, of s True] reached by (simp add: finish_search_def del: not_None_eq)
next
  case None
  show ?thesis
  proof (cases "if rq_allow_partial rq then choose_partial_candidate (sr_partial sr) else None")
    case n: None
    then show ?thesis
      using None run_start [of rq g0 "start_state rq"] by (auto simp: finish_search_def sound_result_def)
  next
    case (Some best)
    obtain pos progress c where b: "best = (pos, progress, c)" by (cases best) auto
    have "choose_partial_candidate (sr_partial sr) = Some (pos, progress, c)"
      using Some b by (simp split: if_splits)
    from choose_partial_member [OF this] obtain q where q: "q \<in> set (sr_partial sr)" "fst (snd (snd q)) = pos" by blast
    from search_invD(5) [OF inv q(1)] obtain s where
      "map_of (sr_cost sr) s \<noteq> None" "ss_pos s = pos" using q(2) by blast
    from best_state_at_Some [OF this] obtain t where
      t: "best_state_at pos sr = Some t" "map_of (sr_cost sr) t \<noteq> None" by blast
    then show ?thesis
      using build_result_sound [OF inv t(2), of False] None Some b
      by (simp add: finish_search_def del: not_None_eq)
  qed
qed

lemma plan_sound:
  assumes "plan rq g = Inr (res, g')"
  shows "\<exists>r. res = Some r \<and> sound_result rq g r \<and> pt_expanded r \<le> nat (rq_max_expansions rq)"
proof -
  obtain reached sr where l: "search_loop (nat (rq_max_expansions rq)) rq (initial_search rq g) = (reached, sr)" by fastforce
  have f: "0 < rq_backtrack_cost_factor rq" "res = finish_search rq reached sr"
    using assms l by (auto simp: plan_def split: if_splits)
  from search_loop_inv [OF initial_inv f(1) l] have
    inv: "search_inv rq g sr" "sr_expanded sr \<le> nat (rq_max_expansions rq)"
      "\<forall>s. reached = Some s \<longrightarrow> is_satisfied (rq_goal rq) (ss_pos s) \<and> map_of (sr_cost sr) s \<noteq> None"
    by (auto simp: initial_search_def)
  from finish_search_sound [OF inv(1,3)] show ?thesis using f(2) inv(2) by auto
qed

section \<open>The planner's theorems\<close>

text \<open>
  C21. The search ends and never fails: with a backtrack factor in (0, 1] and a boundary limit of
  at least one, or none, \<open>plan\<close> returns a result after at most \<open>max_expansions\<close> expansions,
  however the world and the governance answers look; in particular the walk back meets every
  predecessor it follows and never runs in a circle. Any other factor or limit is a value error.
\<close>

theorem plan_returns_or_rejects:
  "if 0 < rq_backtrack_cost_factor rq \<and> rq_backtrack_cost_factor rq \<le> 1 \<and>
      (case rq_unloaded_boundary_limit rq of None \<Rightarrow> True | Some l \<Rightarrow> 1 \<le> l)
   then \<exists>r g'. plan rq g = Inr (Some r, g') \<and> pt_expanded r \<le> nat (rq_max_expansions rq)
   else plan rq g = Inl ValueError"
proof (cases "plan rq g")
  case (Inl e)
  then show ?thesis by (auto simp: plan_def split: if_splits option.splits prod.splits)
next
  case (Inr res)
  obtain o' g' where r: "res = (o', g')" by (cases res)
  from plan_sound [OF Inr [unfolded r]] obtain r where
    "o' = Some r" "pt_expanded r \<le> nat (rq_max_expansions rq)" by blast
  moreover have "0 < rq_backtrack_cost_factor rq \<and> rq_backtrack_cost_factor rq \<le> 1 \<and>
      (case rq_unloaded_boundary_limit rq of None \<Rightarrow> True | Some l \<Rightarrow> 1 \<le> l)"
    using Inr by (auto simp: plan_def split: if_splits option.splits)
  ultimately show ?thesis using Inr r by simp
qed

end
