(* ===== verification/Planner_Governance.thy ===== *)
theory Planner_Governance
  imports Path_Soundness Governance_Safety
begin

text \<open>
  The planner under the governance policy: what \<open>NavigationCostModel\<close> asks of
  \<open>GovernancePolicy\<close>, and what a planned path may therefore dig into. The contract the planner
  relies on is a locale, interpreted on the policy's own rules.
\<close>

section \<open>Terrain under an authority\<close>

locale terrain_authority =
  fixes tr :: "'g terrain" and forbids :: "'g \<Rightarrow> break_context \<Rightarrow> position \<Rightarrow> string \<Rightarrow> bool"
  assumes forbids_kept: "forbids (snd (tr_break tr g p b c)) = forbids g"
    and forbids_refused: "forbids g ctx pos b \<Longrightarrow> \<not> ld_allowed (fst (tr_break tr g pos b ctx))"
begin

lemma forbids_reach: "gov_reach tr g0 g \<Longrightarrow> forbids g = forbids g0"
  by (induction rule: gov_reach.induct) (simp_all add: forbids_kept)

lemma permitted_not_forbidden:
  "dig_permitted tr g0 ctx world ov pos \<Longrightarrow> \<exists>b. observed_type world ov pos b \<and> \<not> forbids g0 ctx pos b"
  using forbids_reach forbids_refused unfolding dig_permitted_def by metis

lemma planned_dig_spared:
  assumes "plan rq g0 = Inr (Some r, g')" and "rq_terrain rq = tr"
    and "pt_path r = pre @ step # post" and "dig_move (ps_move step)"
  shows "\<exists>s b. planned_run rq g0 (start_state rq) pre s \<and>
    observed_type (rq_world rq) (ss_overlay s) (ps_pos step) b \<and>
    \<not> forbids g0 (rq_break_context rq) (ps_pos step) b"
proof -
  from plan_sound [OF assms(1)] obtain t where "planned_run rq g0 (start_state rq) (pt_path r) t"
    unfolding sound_result_def by blast
  from planned_run_digs [OF this [unfolded assms(3)] assms(4)] obtain s where
    s: "planned_run rq g0 (start_state rq) pre s"
      "dig_permitted tr g0 (rq_break_context rq) (rq_world rq) (ss_overlay s) (ps_pos step)"
    unfolding assms(2) by blast
  with permitted_not_forbidden [OF s(2)] show ?thesis by blast
qed

end

section \<open>The policy as terrain\<close>

text \<open>
  \<open>can_break\<close> and \<open>can_place\<close> as \<open>NavigationCostModel\<close> calls them, with their defaults. The
  clock and scope readings the policy takes are the successive elements of a stream.
\<close>

definition governance_terrain ::
  "assessor option \<Rightarrow> (nat \<Rightarrow> gov_env) \<Rightarrow> (governance_policy \<times> nat) terrain" where
  "governance_terrain assessor env =
     \<lparr>tr_break = (\<lambda>(p, n) pos block_type context.
        (case can_break p assessor (env n) (env (n + 1)) pos block_type context False None None of
           (d, p') \<Rightarrow> (d, (p', n + 2)))),
      tr_place = (\<lambda>(p, n) pos block_type context who. can_place p pos block_type context who)\<rparr>"

definition refused_by_rules :: "governance_policy \<Rightarrow> break_context \<Rightarrow> position \<Rightarrow> string \<Rightarrow> bool" where
  "refused_by_rules p context pos raw_type \<longleftrightarrow>
     (case break_static_rules p pos (normalize_block_type raw_type) context False (acting_bot p None) of
        None \<Rightarrow> False
      | Some d \<Rightarrow> \<not> ld_allowed d)"

lemma not_refused_iff:
  "\<not> refused_by_rules p ctx pos raw \<longleftrightarrow>
     outside_protection p pos \<and>
     (case map_of (gp_bot_placements p) pos of
        Some entry \<Rightarrow> bp_block_type entry = normalize_block_type raw \<and>
          (ctx = BC_BOT_CLEANUP \<or> bp_purpose entry \<in> TEMPORARY_BOT_PURPOSES)
      | None \<Rightarrow>
          ctx = BC_FARM \<and> normalize_block_type raw \<in> FARM_TARGETS \<and> declared_natural p pos \<or>
          natural_break_ok p pos (normalize_block_type raw) ctx False)"
proof -
  let ?b = "normalize_block_type raw" and ?a = "acting_bot p None"
  have acc: "actor_accepted p ?a" by (simp add: actor_accepted_def acting_bot_def)
  show ?thesis
  proof (cases "outside_protection p pos")
    case False
    then show ?thesis using static_rules_protected [OF acc False, of ?b ctx False] by (auto simp: refused_by_rules_def)
  next
    case out: True
    show ?thesis
    proof (cases "map_of (gp_bot_placements p) pos")
      case (Some entry)
      show ?thesis
        using static_rules_ledger [OF acc out Some, of ?b ctx False] out Some
        by (simp add: refused_by_rules_def ledger_break_allowed)
    next
      case None
      show ?thesis
        using static_rules_terrain [OF acc out None, of ?b ctx False] out None
        by (auto simp: refused_by_rules_def split: option.splits)
    qed
  qed
qed

lemma refused_same_rules: "same_rules p q \<Longrightarrow> refused_by_rules p = refused_by_rules q"
proof (intro ext iffI)
  fix ctx pos raw
  assume "same_rules p q"
  then have "\<not> refused_by_rules p ctx pos raw \<longleftrightarrow> \<not> refused_by_rules q ctx pos raw"
    unfolding not_refused_iff
    by (simp add: same_rules_def outside_protection_def declared_natural_def natural_break_ok_def
        cong: option.case_cong)
  then show "refused_by_rules p ctx pos raw \<Longrightarrow> refused_by_rules q ctx pos raw"
    and "refused_by_rules q ctx pos raw \<Longrightarrow> refused_by_rules p ctx pos raw" by blast+
qed

interpretation governed: terrain_authority "governance_terrain assessor env" "refused_by_rules \<circ> fst"
proof
  fix g :: "governance_policy \<times> nat" and p b c
  obtain q n where g: "g = (q, n)" by (cases g)
  obtain d q' where cb: "can_break q assessor (env n) (env (n + 1)) p b c False None None = (d, q')" by fastforce
  have "same_rules q' q"
    using same_rules_can_break [of q assessor "env n" "env (n + 1)" p b c False None None] unfolding cb by simp
  then show "(refused_by_rules \<circ> fst) (snd (tr_break (governance_terrain assessor env) g p b c)) =
      (refused_by_rules \<circ> fst) g"
    using refused_same_rules by (simp add: governance_terrain_def g cb [simplified])
next
  fix g :: "governance_policy \<times> nat" and ctx pos b
  obtain q n where g: "g = (q, n)" by (cases g)
  assume "(refused_by_rules \<circ> fst) g ctx pos b"
  then show "\<not> ld_allowed (fst (tr_break (governance_terrain assessor env) g pos b ctx))"
    by (auto simp: g governance_terrain_def refused_by_rules_def can_break_def Let_def split: option.splits prod.splits)
qed

section \<open>What a planned path does\<close>

text \<open>A grid with one of the bot's own scaffold blocks in the way.\<close>

definition sample_policy :: governance_policy where
  "sample_policy = governance_init [] []
     [\<lparr>bp_pos = (1, 64, 0), bp_block_type = ''dirt'', bp_purpose = ''scaffold'', bp_bot = ''b''\<rparr>]
     True None 300 8 4 ''e''"

definition sample_request :: "(governance_policy \<times> nat) plan_request" where
  "sample_request =
     \<lparr>rq_world = [((0, 64, 0), plain_cell ''air'' True), ((1, 64, 0), plain_cell ''dirt'' False)],
      rq_terrain = governance_terrain None (\<lambda>_. \<lparr>ge_now = 0, ge_scope = None, ge_fresh_hex = ''f''\<rparr>),
      rq_start = (0, 64, 0), rq_goal = GoalBlock (1, 64, 0), rq_break_context = BC_TRAVEL,
      rq_max_expansions = 8, rq_allow_partial = True, rq_min_partial_progress = 1, rq_previous_segment = [],
      rq_backtrack_cost_factor = 1 / 2, rq_unloaded_boundary_limit = None\<rparr>"

lemma sample_plan:
  "case plan sample_request (sample_policy, 0) of
     Inl _ \<Rightarrow> False
   | Inr (res, _) \<Rightarrow>
       (case res of
          None \<Rightarrow> False
        | Some r \<Rightarrow> pt_success r \<and> map (\<lambda>s. (ps_pos s, ps_move s)) (pt_path r) = [((1, 64, 0), MV_BREAK)])"
  by code_simp

text \<open>
  C20. A returned path is a run of the planner's move relation from the start: every step goes
  into a loaded neighbour of the state the steps before it lead to, over the edits they plan,
  with the movement that cell calls for and that the cost model let pass. A successful path ends
  in a state that satisfies the goal, and the cost it is reported with is at least the sum of
  its steps.
\<close>

theorem plan_refines_move_relation:
  assumes "plan rq g = Inr (Some r, g')"
  shows "\<exists>s. planned_run rq g (start_state rq) (pt_path r) s \<and>
           (pt_success r \<longrightarrow> is_satisfied (rq_goal rq) (ss_pos s)) \<and>
           (case pt_cost r of None \<Rightarrow> pt_path r = [] | Some c \<Rightarrow> sum_list (map ps_cost (pt_path r)) \<le> c)"
  using plan_sound [OF assms] unfolding sound_result_def by simp

theorem plan_refines_move_relation_witness:
  "\<exists>r g' s. plan sample_request (sample_policy, 0) = Inr (Some r, g') \<and> pt_success r \<and>
     planned_run sample_request (sample_policy, 0) (start_state sample_request) (pt_path r) s \<and>
     ss_pos s = (1, 64, 0)"
proof -
  from sample_plan obtain r g' where
    p: "plan sample_request (sample_policy, 0) = Inr (Some r, g')" "pt_success r"
    by (auto split: sum.splits prod.splits option.splits)
  then show ?thesis using plan_refines_move_relation [OF p(1)] by (auto simp: sample_request_def)
qed

text \<open>
  C19. Every block a planned path breaks, or digs down through, may be broken by the rules the
  policy had when the search began. At such a step the planner, standing where the steps before
  it lead, sees a block there whose position is outside every protected region; when the ledger
  lists the position, the block is the bot's own of that type, for a temporary purpose or under
  cleanup; otherwise it is a natural block the break context allows, or a declared natural crop
  while farming. Challenges and permits the search's own questions create change none of this.
\<close>

theorem planned_digs_respect_governance:
  assumes "plan rq (p, n) = Inr (Some r, g')" and "rq_terrain rq = governance_terrain assessor env"
    and "pt_path r = pre @ step # post" and "dig_move (ps_move step)"
  shows "\<exists>s b. planned_run rq (p, n) (start_state rq) pre s \<and>
    observed_type (rq_world rq) (ss_overlay s) (ps_pos step) b \<and>
    outside_protection p (ps_pos step) \<and>
    (case map_of (gp_bot_placements p) (ps_pos step) of
       Some entry \<Rightarrow> bp_block_type entry = normalize_block_type b \<and>
         (rq_break_context rq = BC_BOT_CLEANUP \<or> bp_purpose entry \<in> TEMPORARY_BOT_PURPOSES)
     | None \<Rightarrow>
         rq_break_context rq = BC_FARM \<and> normalize_block_type b \<in> FARM_TARGETS \<and> declared_natural p (ps_pos step) \<or>
         natural_break_ok p (ps_pos step) (normalize_block_type b) (rq_break_context rq) False)"
  using governed.planned_dig_spared [OF assms] unfolding comp_apply fst_conv not_refused_iff by blast

theorem planned_digs_respect_governance_witness:
  "\<exists>r g' step. plan sample_request (sample_policy, 0) = Inr (Some r, g') \<and> pt_path r = [step] \<and>
     ps_move step = MV_BREAK \<and> outside_protection sample_policy (ps_pos step)"
proof -
  from sample_plan obtain r g' step where
    p: "plan sample_request (sample_policy, 0) = Inr (Some r, g')" "pt_path r = [step]" "ps_move step = MV_BREAK"
    by (auto split: sum.splits prod.splits option.splits)
  have "rq_terrain sample_request = governance_terrain None (\<lambda>_. \<lparr>ge_now = 0, ge_scope = None, ge_fresh_hex = ''f''\<rparr>)"
    by (simp add: sample_request_def)
  moreover have "pt_path r = [] @ step # []" "dig_move (ps_move step)" using p by (simp_all add: dig_move_def)
  ultimately have "outside_protection sample_policy (ps_pos step)"
    using planned_digs_respect_governance [OF p(1)] by blast
  with p show ?thesis by blast
qed

end
