(* ===== verification/Path_Recheck.thy ===== *)
theory Path_Recheck
  imports Planner_Governance
begin

text \<open>
  Using a planned path, \<open>minebot/game/navigation.py\<close>: \<open>PathRechecker\<close> re-evaluates the next steps
  against the world and the policy as they are now, and \<open>SegmentedNavigator\<close> plans, trims and
  rechecks one segment before it names a target.
\<close>

section \<open>Rechecking\<close>

record recheck_result =
  rr_ok :: bool
  rr_reason :: string
  rr_checked :: nat
  rr_failing_step :: "path_step option"
  rr_diagnostics :: json_object

text \<open>\<open>VirtualBlockOverlay.after_step\<close> and \<open>payload\<close>\<close>

definition after_step :: "block_overlay \<Rightarrow> path_step \<Rightarrow> block_overlay" where
  "after_step ov step =
     (case ps_move step of
        MV_BREAK \<Rightarrow> set_cell (ps_pos step) (plain_cell ''air'' True) ov
      | MV_PLACE \<Rightarrow> set_cell (ps_pos step) (plain_cell (ps_block_type step) False) ov
      | MV_OPEN \<Rightarrow>
          open_cells (ps_pos step) (ps_block_type step) (ps_open_headroom_block step)
            (ps_interaction_target step) ov
      | _ \<Rightarrow> ov)"

definition overlay_payload :: "block_overlay \<Rightarrow> json" where
  "overlay_payload ov =
     JList (map (\<lambda>(pos, c). JDict
       [(''pos'', json_pos3 pos), (''block_type'', JStr (gd_block_type c)),
        (''walkable'', JBool (gd_walkable c)), (''liquid'', JBool (gd_liquid c)),
        (''requires_support'', JBool (gd_requires_support c)),
        (''headroom_block'', case gd_headroom_block c of None \<Rightarrow> JNull | Some b \<Rightarrow> JStr b)]) ov)"

text \<open>\<open>_path_start\<close> of a path with the first step \<open>first\<close>\<close>

definition path_start :: "path_result \<Rightarrow> path_step \<Rightarrow> py_exn + position" where
  "path_start path first =
     (case dget (pt_diagnostics path) ''path_start'' of
        JList [a, b, c] \<Rightarrow>
          (case (py_int a, py_int b, py_int c) of
             (Inl e, _, _) \<Rightarrow> Inl e
           | (_, Inl e, _) \<Rightarrow> Inl e
           | (_, _, Inl e) \<Rightarrow> Inl e
           | (Inr x, Inr y, Inr z) \<Rightarrow> Inr (x, y, z))
      | _ \<Rightarrow> (if ps_move first = MV_DIAGONAL then Inl ValueError else Inr (ps_pos first)))"

definition STANDING_MOVES :: "move_kind set" where
  "STANDING_MOVES = {MV_WALK, MV_DIAGONAL, MV_ASCEND, MV_PILLAR, MV_DESCEND, MV_DOWNWARD, MV_FALL}"

text \<open>The part of \<open>_candidate_for_step\<close> after a diagonal step has been found free of blockers.\<close>

definition step_candidate ::
  "grid_world \<Rightarrow> break_context \<Rightarrow> block_overlay \<Rightarrow> path_step \<Rightarrow> grid_cell \<Rightarrow> py_exn + movement_candidate" where
  "step_candidate world context ov step cell =
     (let pos = ps_pos step; move = ps_move step;
          plain = candidate move pos (gd_block_type cell)
      in if move \<in> STANDING_MOVES \<and> gd_requires_support cell \<and> \<not> has_support world ov pos
         then Inr (invalid_candidate (below pos) ''cobblestone'' ''support_missing'')
         else case (if move \<in> STANDING_MOVES then blocked_headroom world ov pos cell else None) of
           Some (headroom_pos, block_type) \<Rightarrow> Inr (invalid_candidate headroom_pos block_type ''headroom_blocked'')
         | None \<Rightarrow>
             (case move of
                MV_FALL \<Rightarrow> Inr (plain\<lparr>mc_fall_depth := gd_fall_depth cell\<rparr>)
              | MV_BREAK \<Rightarrow>
                  Inr (case gravity_break_hazard world ov pos cell of
                         Some hazard \<Rightarrow> hazard
                       | None \<Rightarrow> break_candidate pos (gd_block_type cell) context)
              | MV_OPEN \<Rightarrow>
                  Inr (plain\<lparr>mc_interaction_target :=
                         Some (case ps_interaction_target step of Some p \<Rightarrow> p | None \<Rightarrow> pos)\<rparr>)
              | MV_INVALID \<Rightarrow> Inl ValueError
              | _ \<Rightarrow> Inr plain))"

definition candidate_for_step ::
  "'g terrain \<Rightarrow> grid_world \<Rightarrow> break_context \<Rightarrow> block_overlay \<Rightarrow> position \<Rightarrow> path_step \<Rightarrow> grid_cell \<Rightarrow> 'g
   \<Rightarrow> (py_exn + movement_candidate) \<times> 'g" where
  "candidate_for_step tr world context ov current_pos step cell g =
     (if ps_move step = MV_DIAGONAL
      then (case diagonal_blocker tr world context ov current_pos (ps_pos step) g of
              (Some blocker, g') \<Rightarrow> (Inr blocker, g')
            | (None, g') \<Rightarrow> (step_candidate world context ov step cell, g'))
      else (step_candidate world context ov step cell, g))"

text \<open>The loop over the steps that are looked at; the position moves on with a step that walks.\<close>

fun recheck_steps ::
  "'g terrain \<Rightarrow> grid_world \<Rightarrow> break_context \<Rightarrow> path_step list \<Rightarrow> nat \<Rightarrow> block_overlay \<Rightarrow> position \<Rightarrow> 'g
   \<Rightarrow> (py_exn + recheck_result) \<times> 'g" where
  "recheck_steps tr world context [] checked ov current_pos g =
     (Inr \<lparr>rr_ok = True, rr_reason = ''valid'', rr_checked = checked, rr_failing_step = None,
           rr_diagnostics = (if ov = [] then [] else [(''virtual_overlay'', overlay_payload ov)])\<rparr>, g)"
| "recheck_steps tr world context (step # steps) checked ov current_pos g =
     (let refuse = (\<lambda>reason ds. Inr \<lparr>rr_ok = False, rr_reason = reason, rr_checked = checked + 1,
                                     rr_failing_step = Some step,
                                     rr_diagnostics = (''pos'', json_pos3 (ps_pos step)) # ds\<rparr>)
      in case overlay_at world ov (ps_pos step) of
        None \<Rightarrow> (refuse ''unloaded'' [(''current_pos'', json_pos3 current_pos)], g)
      | Some cell \<Rightarrow>
          (case candidate_for_step tr world context ov current_pos step cell g of
             (Inl e, g1) \<Rightarrow> (Inl e, g1)
           | (Inr c, g1) \<Rightarrow>
               (case evaluate tr c g1 of
                  (d, g2) \<Rightarrow>
                    (if \<not> cd_passable d
                     then (refuse (cd_reason d) [(''current_pos'', json_pos3 current_pos),
                             (''legality'', dget (cd_diagnostics d) ''legality'')], g2)
                     else if ps_move step = MV_BREAK \<and> gd_block_type cell \<noteq> ps_block_type step
                     then (refuse ''block_changed'' [(''planned_block_type'', JStr (ps_block_type step)),
                             (''observed_block_type'', JStr (gd_block_type cell))], g2)
                     else recheck_steps tr world context steps (checked + 1) (after_step ov step)
                            (if ps_move step \<in> {MV_BREAK, MV_PLACE, MV_OPEN} then current_pos else ps_pos step)
                            g2))))"

text \<open>\<open>path[:lookahead]\<close>\<close>

definition py_prefix :: "int \<Rightarrow> 'a list \<Rightarrow> 'a list" where
  "py_prefix n xs = take (nat (if n < 0 then int (length xs) + n else n)) xs"

definition recheck ::
  "'g terrain \<Rightarrow> grid_world \<Rightarrow> break_context \<Rightarrow> int \<Rightarrow> path_result \<Rightarrow> 'g \<Rightarrow> (py_exn + recheck_result) \<times> 'g" where
  "recheck tr world context lookahead path g =
     (case pt_path path of
        [] \<Rightarrow> (Inr \<lparr>rr_ok = True, rr_reason = ''empty_path'', rr_checked = 0, rr_failing_step = None,
                    rr_diagnostics = []\<rparr>, g)
      | first # _ \<Rightarrow>
          (case path_start path first of
             Inl e \<Rightarrow> (Inl e, g)
           | Inr start \<Rightarrow> recheck_steps tr world context (py_prefix lookahead (pt_path path)) 0 [] start g))"

section \<open>One segment\<close>

record navigation_segment =
  sg_status :: string
  sg_target :: "position option"
  sg_plan :: path_result
  sg_recheck :: "recheck_result option"
  sg_diagnostics :: json_object

definition trim_unloaded_partial_tail :: "path_result \<Rightarrow> int \<Rightarrow> py_exn + path_result" where
  "trim_unloaded_partial_tail p tail_trim =
     (if tail_trim < 0 then Inl ValueError
      else if pt_success p \<or> pt_reason p \<noteq> ''partial'' \<or> tail_trim = 0 then Inr p
      else if dget (pt_diagnostics p) ''stop_reason'' \<noteq> JStr ''unloaded_boundary'' then Inr p
      else if length (pt_path p) \<le> 1 then Inr p
      else
        (let trim_count = min (nat tail_trim) (length (pt_path p) - 1);
             trimmed = take (length (pt_path p) - trim_count) (pt_path p);
             ds = AList.update ''tail_trim_reason'' (JStr ''unloaded_boundary'')
                    (AList.update ''tail_trimmed_steps'' (JInt (int trim_count))
                      (AList.update ''partial_target'' (json_pos3 (ps_pos (last trimmed)))
                        (AList.update ''original_partial_target'' (dget (pt_diagnostics p) ''partial_target'')
                          (pt_diagnostics p))))
         in Inr (p\<lparr>pt_path := trimmed, pt_cost := Some (sum_list (map ps_cost trimmed)), pt_diagnostics := ds\<rparr>)))"

text \<open>What one call of \<open>next_segment\<close> is asked besides the plan.\<close>

record 'g segment_request =
  sq_plan :: "'g plan_request"
  sq_lookahead :: int
  sq_recheck_world :: "grid_world option"
  sq_recheck_terrain :: "'g terrain option"
  sq_tail_trim :: int

definition recheck_plan :: "'g segment_request \<Rightarrow> path_result \<Rightarrow> 'g \<Rightarrow> (py_exn + recheck_result) \<times> 'g" where
  "recheck_plan sq p g =
     recheck (case sq_recheck_terrain sq of Some t \<Rightarrow> t | None \<Rightarrow> rq_terrain (sq_plan sq))
       (case sq_recheck_world sq of Some w \<Rightarrow> w | None \<Rightarrow> rq_world (sq_plan sq))
       (rq_break_context (sq_plan sq)) (sq_lookahead sq) p g"

text \<open>\<open>None\<close> where the planner itself would not return, which it always does.\<close>

definition next_segment ::
  "'g segment_request \<Rightarrow> 'g \<Rightarrow> (py_exn + navigation_segment option) \<times> 'g" where
  "next_segment sq g =
     (case plan ((sq_plan sq)\<lparr>rq_allow_partial := True\<rparr>) g of
        Inl e \<Rightarrow> (Inl e, g)
      | Inr (None, g1) \<Rightarrow> (Inr None, g1)
      | Inr (Some raw, g1) \<Rightarrow>
          (case trim_unloaded_partial_tail raw (sq_tail_trim sq) of
             Inl e \<Rightarrow> (Inl e, g1)
           | Inr p \<Rightarrow>
               (if pt_path p = []
                then (Inr (Some \<lparr>sg_status = ''blocked'', sg_target = None, sg_plan = p, sg_recheck = None,
                        sg_diagnostics = [(''reason'', JStr (pt_reason p))]\<rparr>), g1)
                else case recheck_plan sq p g1 of
                  (Inl e, g2) \<Rightarrow> (Inl e, g2)
                | (Inr rr, g2) \<Rightarrow>
                    (if \<not> rr_ok rr
                     then (Inr (Some \<lparr>sg_status = ''replan_required'', sg_target = None, sg_plan = p,
                             sg_recheck = Some rr, sg_diagnostics = [(''reason'', JStr (rr_reason rr))]\<rparr>), g2)
                     else (Inr (Some \<lparr>sg_status = (if pt_success p then ''arrived'' else ''advanced''),
                             sg_target = Some (ps_pos (last (pt_path p))), sg_plan = p, sg_recheck = Some rr,
                             sg_diagnostics = [(''path_steps'', JInt (int (length (pt_path p)))),
                               (''plan_reason'', JStr (pt_reason p)), (''plan_success'', JBool (pt_success p))]\<rparr>),
                           g2)))))"

section \<open>What a recheck confirms\<close>

text \<open>The edits that the steps before a step have planned.\<close>

definition overlay_after :: "path_step list \<Rightarrow> block_overlay" where
  "overlay_after steps = foldl after_step [] steps"

text \<open>
  A step as it holds now, over the edits planned before it: its cell is loaded; a break meets
  the planned block and is allowed by the policy asked anew; one can stand where it moves to.
\<close>

definition step_confirmed ::
  "'g terrain \<Rightarrow> grid_world \<Rightarrow> break_context \<Rightarrow> 'g \<Rightarrow> block_overlay \<Rightarrow> path_step \<Rightarrow> bool" where
  "step_confirmed tr world context g0 ov step \<longleftrightarrow>
     (\<exists>cell. overlay_at world ov (ps_pos step) = Some cell \<and>
        (ps_move step = MV_BREAK \<longrightarrow>
           gd_block_type cell = ps_block_type step \<and>
           (\<exists>g. gov_reach tr g0 g \<and>
              ld_allowed (fst (tr_break tr g (ps_pos step) (ps_block_type step) context)))) \<and>
        (ps_move step \<in> STANDING_MOVES \<longrightarrow>
           (gd_requires_support cell \<longrightarrow> has_support world ov (ps_pos step)) \<and>
           blocked_headroom world ov (ps_pos step) cell = None) \<and>
        (ps_move step = MV_FALL \<longrightarrow> gd_fall_depth cell \<le> MAX_SAFE_FALL))"

lemma gov_reach_trans: "gov_reach tr g1 g2 \<Longrightarrow> gov_reach tr g0 g1 \<Longrightarrow> gov_reach tr g0 g2"
  by (induction rule: gov_reach.induct) (auto intro: gov_ask)

lemma evaluate_invalid: "mc_kind c = MV_INVALID \<Longrightarrow> evaluate tr c g = (d, g') \<Longrightarrow> \<not> cd_passable d"
  by (auto simp: evaluate_def)

lemma step_candidate_confirms:
  assumes cell: "overlay_at world ov (ps_pos step) = Some cell"
    and c: "step_candidate world context ov step cell = Inr c"
    and d: "evaluate tr c g = (d, g')" "cd_passable d" and reach: "gov_reach tr g0 g"
    and same: "ps_move step = MV_BREAK \<longrightarrow> gd_block_type cell = ps_block_type step"
  shows "step_confirmed tr world context g0 ov step"
proof -
  have valid: "mc_kind c \<noteq> MV_INVALID" using evaluate_invalid [OF _ d(1)] d(2) by blast
  let ?stand = "ps_move step \<in> STANDING_MOVES"
  have support: "\<not> (?stand \<and> gd_requires_support cell \<and> \<not> has_support world ov (ps_pos step))"
    using c valid by (auto simp: step_candidate_def Let_def split: if_splits)
  have head: "?stand \<Longrightarrow> blocked_headroom world ov (ps_pos step) cell = None"
    using c valid support by (auto simp: step_candidate_def Let_def split: option.splits)
  have break: "\<exists>g. gov_reach tr g0 g \<and> ld_allowed (fst (tr_break tr g (ps_pos step) (ps_block_type step) context))"
    if m: "ps_move step = MV_BREAK"
  proof -
    have "c = break_candidate (ps_pos step) (ps_block_type step) context"
      using c valid m same
      by (auto simp: step_candidate_def Let_def STANDING_MOVES_def split: option.splits dest: gravity_hazard_kind)
    then show ?thesis using evaluate_break_asks [OF d] reach by auto
  qed
  have fall: "gd_fall_depth cell \<le> MAX_SAFE_FALL" if m: "ps_move step = MV_FALL"
  proof -
    have "c = (candidate MV_FALL (ps_pos step) (gd_block_type cell))\<lparr>mc_fall_depth := gd_fall_depth cell\<rparr>"
      using c valid m support head
      by (auto simp: step_candidate_def Let_def STANDING_MOVES_def)
    then show ?thesis
      using d by (auto simp: evaluate_def evaluate_fall_def candidate_def Let_def split: if_splits)
  qed
  show ?thesis using cell same support head break fall unfolding step_confirmed_def by blast
qed

lemma recheck_steps_confirms:
  assumes "gov_reach tr g0 g" and "recheck_steps tr world context steps n ov cur g = (Inr rr, g')"
    and "rr_ok rr" and "k < length steps"
  shows "step_confirmed tr world context g0 (foldl after_step ov (take k steps)) (steps ! k)"
  using assms
proof (induction steps arbitrary: n ov cur g k)
  case (Cons step steps)
  from Cons.prems(2,3) obtain cell where cell: "overlay_at world ov (ps_pos step) = Some cell"
    by (auto split: option.splits)
  obtain rc g1 where rc: "candidate_for_step tr world context ov cur step cell g = (rc, g1)" by fastforce
  from Cons.prems(2) cell rc obtain c where c: "rc = Inr c" by (cases rc) auto
  obtain d g2 where d: "evaluate tr c g1 = (d, g2)" by fastforce
  have ok: "cd_passable d" "ps_move step = MV_BREAK \<longrightarrow> gd_block_type cell = ps_block_type step"
    using Cons.prems(2,3) cell rc c d by (auto simp: Let_def split: if_splits)
  obtain cur' where rest: "recheck_steps tr world context steps (n + 1) (after_step ov step) cur' g2 = (Inr rr, g')"
    using Cons.prems(2) cell rc c d ok by (simp add: Let_def split: if_splits)
  have "\<exists>b. diagonal_blocker tr world context ov cur (ps_pos step) g = (b, g1) \<or> g1 = g"
    using rc by (auto simp: candidate_for_step_def split: if_splits prod.splits option.splits)
  then have g1: "gov_reach tr g0 g1" using diagonal_blocker_state [OF Cons.prems(1)] Cons.prems(1) by blast
  have "mc_kind c = MV_INVALID \<or> step_candidate world context ov step cell = Inr c"
    using rc c diagonal_blocker_kind
    by (fastforce simp: candidate_for_step_def split: if_splits prod.splits option.splits)
  then have sc: "step_candidate world context ov step cell = Inr c" using evaluate_invalid [OF _ d] ok(1) by blast
  have first: "step_confirmed tr world context g0 ov step"
    by (rule step_candidate_confirms [OF cell sc d ok(1) g1 ok(2)])
  show ?case
  proof (cases k)
    case 0
    then show ?thesis using first by simp
  next
    case (Suc j)
    have "gov_reach tr g0 g2" using evaluate_state [OF g1 d] .
    from Cons.IH [OF this rest Cons.prems(3), of j] show ?thesis using Suc Cons.prems(4) by simp
  qed
qed simp

lemma recheck_confirms:
  assumes "recheck tr world context l path g = (Inr rr, g')" and "rr_ok rr"
    and "k < length (py_prefix l (pt_path path))"
  shows "step_confirmed tr world context g (overlay_after (take k (pt_path path))) (pt_path path ! k)"
proof -
  let ?steps = "py_prefix l (pt_path path)"
  have ne: "pt_path path \<noteq> []" using assms(3) by (auto simp: py_prefix_def)
  then obtain start where "recheck_steps tr world context ?steps 0 [] start g = (Inr rr, g')"
    using assms(1) by (auto simp: recheck_def split: list.splits sum.splits)
  from recheck_steps_confirms [OF _ this assms(2,3)]
  have "step_confirmed tr world context g (foldl after_step [] (take k ?steps)) (?steps ! k)" by simp
  moreover have "take k (take m (pt_path path)) = take k (pt_path path)" "take m (pt_path path) ! k = pt_path path ! k"
    if "k < length (take m (pt_path path))" for m
    using that by simp_all
  ultimately show ?thesis using assms(3) unfolding py_prefix_def overlay_after_def by metis
qed

section \<open>A segment has a target only after it was confirmed\<close>

lemma trim_prefix:
  assumes "trim_unloaded_partial_tail raw t = Inr p"
  shows "\<exists>n. pt_path p = take n (pt_path raw) \<and> pt_success p = pt_success raw"
proof (cases "p = raw")
  case True
  then show ?thesis using take_all [of "pt_path raw" "length (pt_path raw)"] by (intro exI [of _ "length (pt_path raw)"]) simp
next
  case False
  then show ?thesis using assms by (auto simp: trim_unloaded_partial_tail_def Let_def split: if_splits)
qed

text \<open>What a target stands for: a planned path, cut at most at its end, that the recheck passed.\<close>

definition confirmed_segment :: "'g segment_request \<Rightarrow> 'g \<Rightarrow> navigation_segment \<Rightarrow> bool" where
  "confirmed_segment sq g seg \<longleftrightarrow>
     (\<exists>raw g1 n. plan ((sq_plan sq)\<lparr>rq_allow_partial := True\<rparr>) g = Inr (Some raw, g1) \<and>
        pt_path (sg_plan seg) = take n (pt_path raw) \<and> pt_path (sg_plan seg) \<noteq> [] \<and>
        sg_target seg = Some (ps_pos (last (pt_path (sg_plan seg)))) \<and>
        (sg_status seg = ''arrived'' \<longleftrightarrow> pt_success raw) \<and>
        (\<forall>k < length (py_prefix (sq_lookahead sq) (pt_path (sg_plan seg))).
           step_confirmed (case sq_recheck_terrain sq of Some t \<Rightarrow> t | None \<Rightarrow> rq_terrain (sq_plan sq))
             (case sq_recheck_world sq of Some w \<Rightarrow> w | None \<Rightarrow> rq_world (sq_plan sq))
             (rq_break_context (sq_plan sq)) g1
             (overlay_after (take k (pt_path (sg_plan seg)))) (pt_path (sg_plan seg) ! k)))"

lemma segment_cases:
  assumes "next_segment sq g = (Inr res, g')"
  shows "(\<exists>seg. res = Some seg \<and> sg_target seg = None \<and>
             (sg_status seg = ''blocked'' \<or> sg_status seg = ''replan_required'')) \<or>
         (\<exists>seg. res = Some seg \<and> confirmed_segment sq g seg)"
proof -
  let ?rq = "(sq_plan sq)\<lparr>rq_allow_partial := True\<rparr>"
  obtain o1 g1 where p: "plan ?rq g = Inr (o1, g1)" using assms by (auto simp: next_segment_def split: sum.splits)
  from plan_sound [OF p] obtain raw where raw: "o1 = Some raw" by blast
  obtain t where t: "trim_unloaded_partial_tail raw (sq_tail_trim sq) = Inr t"
    using assms p raw by (auto simp: next_segment_def split: sum.splits)
  from trim_prefix [OF t] obtain n where n: "pt_path t = take n (pt_path raw)" "pt_success t = pt_success raw" by blast
  show ?thesis
  proof (cases "pt_path t = []")
    case True
    then show ?thesis using assms p raw t by (auto simp: next_segment_def)
  next
    case ne: False
    obtain rc g2 where r: "recheck_plan sq t g1 = (rc, g2)" by fastforce
    obtain rr where rr: "rc = Inr rr" using assms p raw t ne r by (cases rc) (auto simp: next_segment_def)
    show ?thesis
    proof (cases "rr_ok rr")
      case False
      then show ?thesis using assms p raw t ne r rr by (auto simp: next_segment_def)
    next
      case True
      note conf = recheck_confirms [OF r [unfolded rr recheck_plan_def] True]
      from assms p raw t ne r rr True obtain seg where seg: "res = Some seg" "sg_plan seg = t"
        "sg_target seg = Some (ps_pos (last (pt_path t)))"
        "sg_status seg = (if pt_success t then ''arrived'' else ''advanced'')"
        by (auto simp: next_segment_def)
      have "confirmed_segment sq g seg"
        unfolding confirmed_segment_def using p raw seg n ne conf by auto
      then show ?thesis using seg(1) by blast
    qed
  qed
qed

text \<open>
  C22. A segment names a target exactly when it is confirmed. Then its path is the planned path,
  cut at most at its end, the target is where that path ends, the status says arrived exactly
  when the plan reached the goal, and each step within the lookahead holds in the world and
  under the policy the recheck was given: loaded, with the planned block still there and allowed
  to be broken when it is a break, with support and headroom where one walks, no deeper than the
  safe fall. Without a target the status is blocked or replan_required, and the planner always
  returns.
\<close>

theorem segment_target_is_confirmed:
  assumes "next_segment sq g = (Inr res, g')"
  shows "\<exists>seg. res = Some seg \<and>
    (if sg_target seg = None then sg_status seg = ''blocked'' \<or> sg_status seg = ''replan_required''
     else confirmed_segment sq g seg)"
proof -
  from segment_cases [OF assms] consider
      (nothing) seg where "res = Some seg" "sg_target seg = None"
        "sg_status seg = ''blocked'' \<or> sg_status seg = ''replan_required''"
    | (target) seg where "res = Some seg" "confirmed_segment sq g seg" by blast
  then show ?thesis
  proof cases
    case target
    moreover from this have "\<exists>p. sg_target seg = Some p" unfolding confirmed_segment_def by blast
    ultimately show ?thesis by auto
  qed simp
qed

definition sample_segment :: "(governance_policy \<times> nat) segment_request" where
  "sample_segment = \<lparr>sq_plan = sample_request, sq_lookahead = 5, sq_recheck_world = None,
     sq_recheck_terrain = None, sq_tail_trim = 1\<rparr>"

lemma sample_segment_runs:
  "case next_segment sample_segment (sample_policy, 0) of (r, _) \<Rightarrow>
     (case r of
        Inl _ \<Rightarrow> False
      | Inr res \<Rightarrow> (case res of None \<Rightarrow> False | Some seg \<Rightarrow> sg_target seg = Some (1, 64, 0)))"
  by code_simp

theorem segment_target_is_confirmed_witness:
  "\<exists>seg g'. next_segment sample_segment (sample_policy, 0) = (Inr (Some seg), g') \<and>
     sg_target seg = Some (1, 64, 0) \<and> confirmed_segment sample_segment (sample_policy, 0) seg"
proof -
  from sample_segment_runs obtain seg g' where
    s: "next_segment sample_segment (sample_policy, 0) = (Inr (Some seg), g')" "sg_target seg = Some (1, 64, 0)"
    by (auto split: sum.splits prod.splits option.splits)
  with segment_target_is_confirmed [OF s(1)] show ?thesis by auto
qed

section \<open>What a recheck does not see\<close>

text \<open>
  A break into a neighbouring cell moves the planner there, and the recheck stays behind: the
  corners of a diagonal step after it are not looked at. Here the corner (2, 64, 0) was free when
  the path was planned and is stone when it is rechecked.
\<close>

definition corner_world :: "bool \<Rightarrow> grid_world" where
  "corner_world free =
     [((0, 64, 0), plain_cell ''air'' True), ((1, 64, 0), plain_cell ''dirt'' False),
      ((2, 64, 0), plain_cell (if free then ''air'' else ''stone'') free), ((1, 64, 1), plain_cell ''air'' True),
      ((2, 64, 1), plain_cell ''air'' True)]"

definition corner_request :: "(governance_policy \<times> nat) plan_request" where
  "corner_request = sample_request\<lparr>rq_world := corner_world True, rq_goal := GoalBlock (2, 64, 1)\<rparr>"

lemma recheck_misses_corner_after_break:
  "case plan corner_request (sample_policy, 0) of
     Inl _ \<Rightarrow> False
   | Inr (res, g) \<Rightarrow>
       (case res of
          None \<Rightarrow> False
        | Some r \<Rightarrow>
            map (\<lambda>s. (ps_pos s, ps_move s)) (pt_path r) = [((1, 64, 0), MV_BREAK), ((2, 64, 1), MV_DIAGONAL)] \<and>
            (case fst (recheck (rq_terrain corner_request) (corner_world False) BC_TRAVEL 5 r g) of
               Inl _ \<Rightarrow> False | Inr rr \<Rightarrow> rr_ok rr) \<and>
            fst (diagonal_blocker (rq_terrain corner_request) (corner_world False) BC_TRAVEL
                   (overlay_after (take 1 (pt_path r))) (1, 64, 0) (2, 64, 1) g) \<noteq> None)"
  by code_simp

text \<open>
  A step down through a block is not asked about again, nor is the block compared with the
  planned one: with every break refused, a chest below passes where dirt was planned.
\<close>

definition refusing_terrain :: "unit terrain" where
  "refusing_terrain =
     \<lparr>tr_break = (\<lambda>g pos block_type context. (legality False ''refused'', g)),
      tr_place = (\<lambda>g pos block_type context who. legality False ''refused'')\<rparr>"

definition downward_path :: path_result where
  "downward_path =
     \<lparr>pt_success = True, pt_reason = ''arrived'',
      pt_path = [path_step_of (cost_decision_of MV_DOWNWARD (0, 63, 0) (Some 7) ''downward'' []) ''dirt'' None],
      pt_cost = Some 7, pt_expanded = 2, pt_diagnostics = [(''path_start'', json_pos3 (0, 64, 0))]\<rparr>"

lemma recheck_passes_changed_block_below:
  "case fst (recheck refusing_terrain
          [((0, 64, 0), plain_cell ''air'' True), ((0, 63, 0), plain_cell ''chest'' False)] BC_TRAVEL 5
          downward_path ()) of
     Inl _ \<Rightarrow> False
   | Inr rr \<Rightarrow> rr_ok rr"
  by code_simp

end
