(* ===== verification/Acquisition.thy ===== *)
theory Acquisition
  imports Harvest Py_Order
begin

text \<open>
  Deterministic item acquisition planning, \<open>minebot/brain/acquisition.py\<close>: from a wanted item,
  the inventory and a recipe lookup to a list of collect, craft, smelt and equip steps. The
  lookup is a parameter. The recursion of \<open>_Planner.resolve\<close> is on the depth that is left, which
  is the source's own bound \<open>max_depth\<close> less the length of the chain.
\<close>

section \<open>Data\<close>

record recipe_variant =
  rv_output_item :: string
  rv_output_count :: int
  rv_ingredient_groups :: "string list list"
  rv_requires_table :: bool
  rv_recipe_kind :: string

type_synonym item_counts = "(string, int) pydict"

text \<open>The \<open>detail\<close> dictionary of a step has one set of keys per kind of step.\<close>

record collect_detail =
  cl_inventory_item :: string
  cl_block_types :: "string list"
  cl_expected_drops :: "string list"
  cl_required_tier :: "tool_tier option"
  cl_replan_after :: bool

record craft_detail =
  cr_recipe_kind :: string
  cr_requires_table :: bool
  cr_output_count :: int
  cr_ingredients :: item_counts

record smelt_detail =
  sm_input_item :: string
  sm_input_count :: int
  sm_fuel_item :: string
  sm_fuel_count :: int
  sm_seconds_needed :: rat

datatype step_detail =
    Collect collect_detail
  | Craft craft_detail
  | Smelt smelt_detail
  | Equip tool_tier string

record acquisition_step =
  aq_item :: string
  aq_count :: int
  aq_detail :: step_detail

datatype error_detail =
    MaxDepth int
  | Cycle "string list"
  | MissingRecipe string "string option"
  | ToolUnavailable tool_tier string "(string \<times> tool_tier) option"
  | FuelUnavailable rat "(string \<times> int \<times> rat) list"
  | VariantCount nat
  | Unresolved item_counts item_counts

record acquisition_error =
  ae_reason :: string
  ae_item :: string
  ae_count :: int
  ae_chain :: "string list"
  ae_detail :: error_detail

record collect_route =
  rt_inventory_item :: string
  rt_collect_item :: string
  rt_block_types :: "string list"
  rt_expected_drops :: "string list"

record smelt_route =
  ro_input_item :: string
  ro_output_count :: int
  ro_input_count :: int

section \<open>Tables\<close>

definition LOG_ITEMS :: "string list" where
  "LOG_ITEMS = [''oak_log'', ''spruce_log'', ''birch_log'', ''jungle_log'', ''acacia_log'', ''dark_oak_log'',
     ''mangrove_log'', ''cherry_log'', ''pale_oak_log'', ''crimson_stem'', ''warped_stem'']"

definition PLANK_ITEMS :: "string list" where
  "PLANK_ITEMS = [''oak_planks'', ''spruce_planks'', ''birch_planks'', ''jungle_planks'', ''acacia_planks'',
     ''dark_oak_planks'', ''mangrove_planks'', ''cherry_planks'', ''pale_oak_planks'', ''crimson_planks'',
     ''warped_planks'']"

definition PLANK_FROM_LOG :: "(string, string) pydict" where
  "PLANK_FROM_LOG = zip PLANK_ITEMS LOG_ITEMS"

definition FUEL_SELECTION_ORDER :: "string list" where
  "FUEL_SELECTION_ORDER = [''coal'', ''charcoal'', ''coal_block''] @ PLANK_ITEMS @
     [''stick'', ''bamboo'', ''dried_kelp_block'', ''blaze_rod''] @ LOG_ITEMS @ [''lava_bucket'']"

definition FUEL_BURN_SECONDS :: "(string, rat) pydict" where
  "FUEL_BURN_SECONDS =
     [(''coal'', 80), (''charcoal'', 80), (''coal_block'', 800)] @ map (\<lambda>i. (i, 15)) PLANK_ITEMS @
     [(''stick'', 5), (''bamboo'', 5 / 2), (''dried_kelp_block'', 200), (''blaze_rod'', 120)] @
     map (\<lambda>i. (i, 15)) LOG_ITEMS @ [(''lava_bucket'', 1000)]"

definition plain_route :: "string \<Rightarrow> string list \<Rightarrow> string \<times> collect_route" where
  "plain_route item blocks =
     (item, \<lparr>rt_inventory_item = item, rt_collect_item = item, rt_block_types = blocks,
             rt_expected_drops = [item]\<rparr>)"

definition log_family :: collect_route where
  "log_family = \<lparr>rt_inventory_item = ''oak_log'', rt_collect_item = ''logs'', rt_block_types = LOG_ITEMS,
     rt_expected_drops = LOG_ITEMS\<rparr>"

definition COLLECT_ROUTES :: "(string, collect_route) pydict" where
  "COLLECT_ROUTES =
     [(''log'', log_family), (''logs'', log_family)] @ map (\<lambda>l. plain_route l [l]) LOG_ITEMS @
     [plain_route ''cobblestone'' [''stone'', ''cobblestone''],
      plain_route ''coal'' [''coal_ore'', ''deepslate_coal_ore''],
      plain_route ''raw_iron'' [''iron_ore'', ''deepslate_iron_ore''],
      plain_route ''raw_gold'' [''gold_ore'', ''deepslate_gold_ore''],
      plain_route ''raw_copper'' [''copper_ore'', ''deepslate_copper_ore''],
      plain_route ''diamond'' [''diamond_ore'', ''deepslate_diamond_ore''],
      plain_route ''wheat_seeds'' [''short_grass'', ''tall_grass'']]"

definition smelt_from :: "string \<Rightarrow> smelt_route" where
  "smelt_from input = \<lparr>ro_input_item = input, ro_output_count = 1, ro_input_count = 1\<rparr>"

definition SMELT_ROUTES :: "(string, smelt_route) pydict" where
  "SMELT_ROUTES =
     [(''iron_ingot'', smelt_from ''raw_iron''), (''gold_ingot'', smelt_from ''raw_gold''),
      (''copper_ingot'', smelt_from ''raw_copper''), (''charcoal'', smelt_from ''oak_log''),
      (''stone'', smelt_from ''cobblestone'')]"

definition SMELT_SECONDS_PER_ITEM :: rat where "SMELT_SECONDS_PER_ITEM = 10"

section \<open>Counts\<close>

definition normalize_item :: "string \<Rightarrow> string" where
  "normalize_item item =
     map (\<lambda>c. if c = CHR '' '' then CHR ''_'' else c) (lower (strip (removeprefix ''minecraft:'' item)))"

text \<open>\<open>counts.get(item, 0)\<close>\<close>

definition owned :: "item_counts \<Rightarrow> string \<Rightarrow> int" where
  "owned counts item = (case map_of counts item of None \<Rightarrow> 0 | Some n \<Rightarrow> n)"

definition normalize_counts :: "item_counts \<Rightarrow> item_counts" where
  "normalize_counts counts =
     fold (\<lambda>(raw, n) d. let item = normalize_item raw
                        in if item \<noteq> [] \<and> n > 0 then AList.update item (owned d item + n) d else d) counts []"

text \<open>\<open>math.ceil\<close> of a quotient; a divisor of zero does not occur.\<close>

definition ceil_div :: "int \<Rightarrow> int \<Rightarrow> int" where
  "ceil_div a b = \<lceil>(of_int a :: rat) / of_int b\<rceil>"

definition preferred_plank_of :: "item_counts \<Rightarrow> string option" where
  "preferred_plank_of counts =
     (let available = (\<lambda>p. owned counts p + owned counts (the (map_of PLANK_FROM_LOG p)) * 4)
      in case min_with (\<lambda>p. - available p) PLANK_ITEMS of
           None \<Rightarrow> None
         | Some p \<Rightarrow> (if available p > 0 then Some p else None))"

definition owned_plank_family :: "item_counts \<Rightarrow> bool" where
  "owned_plank_family counts \<longleftrightarrow>
     list_ex (\<lambda>p. owned counts p > 0 \<or> owned counts (the (map_of PLANK_FROM_LOG p)) > 0) PLANK_ITEMS"

definition material_availability :: "string \<Rightarrow> item_counts \<Rightarrow> item_counts \<Rightarrow> string option \<Rightarrow> int" where
  "material_availability item counts selected preferred =
     (if owned counts item > owned selected item then 0
      else if Some item = preferred then 1
      else if (case map_of PLANK_FROM_LOG item of None \<Rightarrow> False | Some l \<Rightarrow> owned counts l > 0) then 2
      else 3)"

fun index_of :: "string \<Rightarrow> string list \<Rightarrow> int" where
  "index_of x [] = 0"
| "index_of x (y # ys) = (if x = y then 0 else 1 + index_of x ys)"

definition item_preference :: "string \<Rightarrow> int" where
  "item_preference item =
     (if item = ''cobblestone'' then -10
      else if item = ''cobbled_deepslate'' then -9
      else if item = ''blackstone'' then -8
      else if map_of COLLECT_ROUTES item \<noteq> None then -1
      else if map_of SMELT_ROUTES item \<noteq> None then 0
      else if item \<in> set PLANK_ITEMS then index_of item PLANK_ITEMS
      else if item \<in> set LOG_ITEMS then index_of item LOG_ITEMS
      else int (length PLANK_ITEMS) + int (length LOG_ITEMS))"

definition ingredient_priority :: "string \<Rightarrow> int \<times> string" where
  "ingredient_priority item =
     (if item = ''stick'' then (0, item) else if item \<in> set PLANK_ITEMS then (2, item) else (1, item))"

definition strongest_required_tier :: "string list \<Rightarrow> tool_tier option" where
  "strongest_required_tier block_types =
     fold (\<lambda>b strongest. case required_pickaxe_tier b of
             None \<Rightarrow> strongest
           | Some required \<Rightarrow>
               (case strongest of
                  None \<Rightarrow> Some required
                | Some s \<Rightarrow>
                    (if tier_satisfies (Some (tier_value s)) (tier_value required) then strongest else Some required)))
       block_types None"

definition select_fuel :: "item_counts \<Rightarrow> rat \<Rightarrow> (string \<times> int) option" where
  "select_fuel counts seconds_needed =
     (let fuel_count = (\<lambda>f. \<lceil>seconds_needed / the (map_of FUEL_BURN_SECONDS f)\<rceil>)
      in if seconds_needed \<le> 0 then None
         else map_option (\<lambda>f. (f, max 1 (fuel_count f)))
                (find (\<lambda>f. owned counts f \<ge> fuel_count f) FUEL_SELECTION_ORDER))"

definition usable_fuels :: "item_counts \<Rightarrow> (string \<times> int \<times> rat) list" where
  "usable_fuels counts =
     map (\<lambda>f. (f, owned counts f, the (map_of FUEL_BURN_SECONDS f)))
       (filter (\<lambda>f. owned counts f > 0) FUEL_SELECTION_ORDER)"

text \<open>\<open>best_owned_pickaxe(self.counts)\<close>; integer counts are never rejected.\<close>

definition best_pickaxe :: "item_counts \<Rightarrow> (string \<times> tool_tier) option" where
  "best_pickaxe counts =
     (case best_owned_pickaxe (map (\<lambda>(i, n). (i, JInt n)) counts) of Inl _ \<Rightarrow> None | Inr b \<Rightarrow> b)"

definition pickaxe_satisfies :: "item_counts \<Rightarrow> tool_tier \<Rightarrow> bool" where
  "pickaxe_satisfies counts required =
     (case best_pickaxe counts of
        None \<Rightarrow> False
      | Some (_, t) \<Rightarrow> tier_satisfies (Some (tier_value t)) (tier_value required))"

section \<open>Recipes\<close>

text \<open>One ingredient group adds its chosen option; a group of several planks may stay a family.\<close>

definition select_group ::
  "item_counts \<Rightarrow> string option \<Rightarrow> int \<Rightarrow> string list \<Rightarrow> item_counts \<Rightarrow> item_counts" where
  "select_group counts preferred crafts options selected =
     (let normalized = map normalize_item (filter (\<lambda>x. x \<noteq> []) options)
      in case min_with (\<lambda>c. (material_availability c counts selected preferred, item_preference c, c)) normalized of
           None \<Rightarrow> selected
         | Some best \<Rightarrow>
             (let plank_options = filter (\<lambda>x. x \<in> set PLANK_ITEMS) normalized;
                  choice = (if length plank_options > 1 \<and> preferred = None \<and> \<not> owned_plank_family counts
                            then ''planks'' else best)
              in AList.update choice (owned selected choice + crafts) selected))"

definition select_requirements ::
  "recipe_variant \<Rightarrow> int \<Rightarrow> item_counts \<Rightarrow> string option \<Rightarrow> item_counts" where
  "select_requirements variant crafts counts preferred =
     sort (fold (select_group counts preferred crafts) (rv_ingredient_groups variant) [])"

definition variant_score ::
  "int \<Rightarrow> item_counts \<Rightarrow> string option \<Rightarrow> recipe_variant \<Rightarrow> int \<times> int \<times> int" where
  "variant_score missing counts preferred v =
     (let crafts = ceil_div missing (rv_output_count v);
          requirements = select_requirements v crafts counts preferred
      in (sum_list (map (\<lambda>(i, n). max 0 (n - owned counts i)) requirements),
          if rv_requires_table v then 1 else 0, int (length (rv_ingredient_groups v))))"

definition choose_variant ::
  "string \<Rightarrow> int \<Rightarrow> recipe_variant list \<Rightarrow> item_counts \<Rightarrow> string option \<Rightarrow> recipe_variant option" where
  "choose_variant item missing variants counts preferred =
     min_with (variant_score missing counts preferred)
       (filter (\<lambda>v. normalize_item (rv_output_item v) = normalize_item item \<and> rv_output_count v > 0) variants)"

definition missing_requirements :: "item_counts \<Rightarrow> item_counts \<Rightarrow> item_counts" where
  "missing_requirements required counts = filter (\<lambda>(i, n). owned counts i < n) required"

section \<open>The planner\<close>

record planner =
  pl_counts :: item_counts
  pl_deferred :: bool
  pl_steps :: "acquisition_step list"

text \<open>What stays fixed during one call of \<open>resolve_acquisition\<close>.\<close>

record planner_setup =
  su_lookup :: "string \<Rightarrow> recipe_variant list option"
  su_recipe_source :: "string option"
  su_max_depth :: int
  su_preferred_plank :: "string option"

type_synonym outcome = "acquisition_error option \<times> planner"
type_synonym resolver = "string \<Rightarrow> int \<Rightarrow> string list \<Rightarrow> planner \<Rightarrow> outcome"

definition fail :: "string \<Rightarrow> string \<Rightarrow> int \<Rightarrow> string list \<Rightarrow> error_detail \<Rightarrow> planner \<Rightarrow> outcome" where
  "fail reason item count chain detail p =
     (Some \<lparr>ae_reason = reason, ae_item = item, ae_count = count, ae_chain = chain, ae_detail = detail\<rparr>, p)"

text \<open>\<open>if error is not None: return error\<close> and \<open>if self.deferred: return None\<close> after a nested call.\<close>

definition and_then :: "outcome \<Rightarrow> (planner \<Rightarrow> outcome) \<Rightarrow> outcome" where
  "and_then r k = (case r of (Some e, p) \<Rightarrow> (Some e, p) | (None, p) \<Rightarrow> if pl_deferred p then (None, p) else k p)"

definition add_step :: "string \<Rightarrow> int \<Rightarrow> step_detail \<Rightarrow> planner \<Rightarrow> planner" where
  "add_step item count detail p =
     p\<lparr>pl_steps := pl_steps p @ [\<lparr>aq_item = item, aq_count = count, aq_detail = detail\<rparr>]\<rparr>"

definition set_count :: "string \<Rightarrow> int \<Rightarrow> planner \<Rightarrow> planner" where
  "set_count item n p = p\<lparr>pl_counts := AList.update item n (pl_counts p)\<rparr>"

definition use_up :: "string \<times> int \<Rightarrow> planner \<Rightarrow> planner" where
  "use_up entry p = set_count (fst entry) (max 0 (owned (pl_counts p) (fst entry) - snd entry)) p"

definition gain :: "string \<Rightarrow> int \<Rightarrow> planner \<Rightarrow> planner" where
  "gain item n p = set_count item (owned (pl_counts p) item + n) p"

definition collect_missing :: "collect_route \<Rightarrow> tool_tier option \<Rightarrow> int \<Rightarrow> planner \<Rightarrow> outcome" where
  "collect_missing route required missing p =
     (if missing \<le> 0 then (None, p)
      else (None, gain (rt_inventory_item route) missing
              (add_step (rt_collect_item route) missing
                 (Collect \<lparr>cl_inventory_item = rt_inventory_item route, cl_block_types = rt_block_types route,
                           cl_expected_drops = rt_expected_drops route, cl_required_tier = required,
                           cl_replan_after = False\<rparr>) p)))"

definition resolve_collect :: "resolver \<Rightarrow> string \<Rightarrow> int \<Rightarrow> collect_route \<Rightarrow> string list \<Rightarrow> planner \<Rightarrow> outcome" where
  "resolve_collect rec item count route chain p =
     (let have = sum_list (map (owned (pl_counts p)) (rt_expected_drops route));
          missing = max 0 (count - have);
          required = strongest_required_tier (rt_block_types route)
      in case required of
           None \<Rightarrow> collect_missing route required missing p
         | Some tier \<Rightarrow>
             (if pickaxe_satisfies (pl_counts p) tier then collect_missing route required missing p
              else
                (let tool = PICKAXE_BY_TIER tier;
                     had = owned (pl_counts p) tool
                 in and_then (rec tool 1 (chain @ [item]) p)
                      (\<lambda>p1.
                         if \<not> pickaxe_satisfies (pl_counts p1) tier
                         then fail ''required_tool_unavailable'' item count chain
                                (ToolUnavailable tier tool (best_pickaxe (pl_counts p1))) p1
                         else collect_missing route required missing
                                (if had \<le> 0 \<and> owned (pl_counts p1) tool > 0
                                 then add_step tool 1 (Equip tier item) p1 else p1)))))"

definition resolve_plank_family :: "resolver \<Rightarrow> int \<Rightarrow> string list \<Rightarrow> planner \<Rightarrow> outcome" where
  "resolve_plank_family rec count chain p =
     (case preferred_plank_of (pl_counts p) of
        Some plank \<Rightarrow> rec plank count (chain @ [''planks'']) p
      | None \<Rightarrow>
          (None, (add_step (rt_collect_item log_family) (max 1 (ceil_div count 4))
                    (Collect \<lparr>cl_inventory_item = ''logs'', cl_block_types = rt_block_types log_family,
                              cl_expected_drops = rt_expected_drops log_family, cl_required_tier = None,
                              cl_replan_after = True\<rparr>) p)\<lparr>pl_deferred := True\<rparr>))"

text \<open>The last part of \<open>_resolve_smelt\<close>, once a fuel has been chosen or not.\<close>

definition smelt_with ::
  "string \<Rightarrow> int \<Rightarrow> smelt_route \<Rightarrow> string list \<Rightarrow> int \<Rightarrow> (string \<times> int) option \<Rightarrow> planner \<Rightarrow> outcome" where
  "smelt_with item count route chain crafts fuel p =
     (let input_needed = crafts * ro_input_count route;
          seconds_needed = of_int crafts * SMELT_SECONDS_PER_ITEM;
          output_count = crafts * ro_output_count route
      in case fuel of
           None \<Rightarrow>
             fail ''fuel_unavailable'' item count chain (FuelUnavailable seconds_needed (usable_fuels (pl_counts p))) p
         | Some (fuel_item, fuel_count) \<Rightarrow>
             (None, gain item output_count
                (use_up (fuel_item, fuel_count)
                  (use_up (ro_input_item route, input_needed)
                    (add_step item output_count
                      (Smelt \<lparr>sm_input_item = ro_input_item route, sm_input_count = input_needed,
                              sm_fuel_item = fuel_item, sm_fuel_count = fuel_count,
                              sm_seconds_needed = seconds_needed\<rparr>) p)))))"

definition choose_fuel ::
  "resolver \<Rightarrow> string \<Rightarrow> int \<Rightarrow> smelt_route \<Rightarrow> string list \<Rightarrow> int \<Rightarrow> planner \<Rightarrow> outcome" where
  "choose_fuel rec item count route chain crafts p =
     (let seconds_needed = of_int crafts * SMELT_SECONDS_PER_ITEM
      in case select_fuel (pl_counts p) seconds_needed of
           Some fuel \<Rightarrow> smelt_with item count route chain crafts (Some fuel) p
         | None \<Rightarrow>
             and_then
               (rec ''planks'' \<lceil>seconds_needed / the (map_of FUEL_BURN_SECONDS ''oak_planks'')\<rceil> (chain @ [item]) p)
               (\<lambda>p1. smelt_with item count route chain crafts (select_fuel (pl_counts p1) seconds_needed) p1))"

definition resolve_smelt :: "resolver \<Rightarrow> string \<Rightarrow> int \<Rightarrow> smelt_route \<Rightarrow> string list \<Rightarrow> planner \<Rightarrow> outcome" where
  "resolve_smelt rec item count route chain p =
     (let missing = max 0 (count - owned (pl_counts p) item);
          crafts = ceil_div missing (ro_output_count route)
      in if missing \<le> 0 then (None, p)
         else and_then (rec (ro_input_item route) (crafts * ro_input_count route) (chain @ [item]) p)
           (\<lambda>p1. and_then
                  (if owned (pl_counts p1) ''furnace'' < 1 then rec ''furnace'' 1 (chain @ [item]) p1 else (None, p1))
                  (choose_fuel rec item count route chain crafts)))"

fun resolve_all :: "resolver \<Rightarrow> string list \<Rightarrow> item_counts \<Rightarrow> planner \<Rightarrow> outcome" where
  "resolve_all rec chain [] p = (None, p)"
| "resolve_all rec chain ((ingredient, n) # rest) p = and_then (rec ingredient n chain p) (resolve_all rec chain rest)"

definition resolve_requirements :: "resolver \<Rightarrow> item_counts \<Rightarrow> string list \<Rightarrow> planner \<Rightarrow> outcome" where
  "resolve_requirements rec required chain =
     resolve_all rec chain (sort_key (\<lambda>entry. ingredient_priority (fst entry)) required)"

text \<open>The \<open>for\<close> loop of \<open>_resolve_craft\<close> with its \<open>else\<close>: what is missing is resolved again.\<close>

fun settle_requirements ::
  "resolver \<Rightarrow> string list \<Rightarrow> nat \<Rightarrow> item_counts \<Rightarrow> (item_counts \<Rightarrow> planner \<Rightarrow> outcome)
   \<Rightarrow> (item_counts \<Rightarrow> planner \<Rightarrow> outcome) \<Rightarrow> planner \<Rightarrow> outcome" where
  "settle_requirements rec chain 0 required give_up finish p = give_up required p"
| "settle_requirements rec chain (Suc tries) required give_up finish p =
     and_then (resolve_requirements rec required chain p)
       (\<lambda>p1. let remaining = missing_requirements required (pl_counts p1)
             in if remaining = [] then finish required p1
                else settle_requirements rec chain tries remaining give_up finish p1)"

definition craft_with ::
  "string \<Rightarrow> recipe_variant \<Rightarrow> int \<Rightarrow> item_counts \<Rightarrow> planner \<Rightarrow> outcome" where
  "craft_with item variant crafts required p =
     (let crafted = crafts * rv_output_count variant
      in (None, gain item crafted
            (fold use_up required
              (add_step item crafted
                (Craft \<lparr>cr_recipe_kind = rv_recipe_kind variant, cr_requires_table = rv_requires_table variant,
                        cr_output_count = rv_output_count variant, cr_ingredients = required\<rparr>) p))))"

definition resolve_craft ::
  "planner_setup \<Rightarrow> resolver \<Rightarrow> string \<Rightarrow> int \<Rightarrow> recipe_variant list \<Rightarrow> string list \<Rightarrow> planner \<Rightarrow> outcome" where
  "resolve_craft su rec item count variants chain p =
     (let missing = max 0 (count - owned (pl_counts p) item);
          chain' = chain @ [item]
      in if missing \<le> 0 then (None, p)
         else case choose_variant item missing variants (pl_counts p) (su_preferred_plank su) of
           None \<Rightarrow> fail ''recipe_not_found'' item count chain (VariantCount (length variants)) p
         | Some variant \<Rightarrow>
             and_then
               (if rv_requires_table variant \<and> item \<noteq> ''crafting_table'' \<and> owned (pl_counts p) ''crafting_table'' < 1
                then rec ''crafting_table'' 1 chain' p else (None, p))
               (\<lambda>p1. let crafts = ceil_div missing (rv_output_count variant)
                     in settle_requirements rec chain' (nat (su_max_depth su + 1))
                          (select_requirements variant crafts (pl_counts p1) (su_preferred_plank su))
                          (\<lambda>required p2. fail ''ingredient_resolution_failed'' item count chain
                                           (Unresolved required (pl_counts p2)) p2)
                          (craft_with item variant crafts) p1))"

text \<open>\<open>_Planner.resolve\<close> with so much depth left.\<close>

fun resolve :: "planner_setup \<Rightarrow> nat \<Rightarrow> resolver" where
  "resolve su depth_left raw count chain p =
     (let item = normalize_item raw
      in if count \<le> 0 \<or> owned (pl_counts p) item \<ge> count then (None, p)
         else case depth_left of
           0 \<Rightarrow> fail ''max_depth_exceeded'' item count chain (MaxDepth (su_max_depth su)) p
         | Suc left \<Rightarrow>
             (if item \<in> set chain then fail ''recipe_cycle'' item count chain (Cycle (chain @ [item])) p
              else if item = ''planks'' then resolve_plank_family (resolve su left) count chain p
              else case map_of COLLECT_ROUTES item of
                Some route \<Rightarrow> resolve_collect (resolve su left) item count route chain p
              | None \<Rightarrow>
                  (case map_of SMELT_ROUTES item of
                     Some route \<Rightarrow> resolve_smelt (resolve su left) item count route chain p
                   | None \<Rightarrow>
                       (case su_lookup su item of
                          Some (v # vs) \<Rightarrow> resolve_craft su (resolve su left) item count (v # vs) chain p
                        | _ \<Rightarrow> fail ''unplannable'' item count chain 
                              (MissingRecipe item (case su_recipe_source su of Some s \<Rightarrow> if s = [] then None else Some s
                                                   | None \<Rightarrow> None)) p))))"

declare resolve.simps [simp del]

section \<open>Compacting and the entry point\<close>

definition step_key :: "acquisition_step \<Rightarrow> nat \<times> string \<times> string list \<times> bool" where
  "step_key s =
     (case aq_detail s of
        Collect d \<Rightarrow> (0, aq_item s, cl_expected_drops d, False)
      | Craft d \<Rightarrow> (1, aq_item s, [cr_recipe_kind d], cr_requires_table d)
      | Smelt d \<Rightarrow> (2, aq_item s, [sm_input_item d, sm_fuel_item d], False)
      | Equip _ _ \<Rightarrow> (3, aq_item s, [], False))"

definition dict_of_ints :: "item_counts \<Rightarrow> item_counts" where
  "dict_of_ints counts =
     fold (\<lambda>(raw, n) d. let item = normalize_item raw
                        in if item \<noteq> [] \<and> n \<noteq> 0 then AList.update item (owned d item + n) d else d) counts []"

definition merge_counts :: "item_counts \<Rightarrow> item_counts \<Rightarrow> item_counts" where
  "merge_counts left right = fold (\<lambda>(item, n) d. AList.update item (owned d item + n) d) right left"

definition merge_step :: "acquisition_step \<Rightarrow> acquisition_step \<Rightarrow> acquisition_step" where
  "merge_step left right =
     left\<lparr>aq_count := aq_count left + aq_count right,
          aq_detail :=
            (case (aq_detail left, aq_detail right) of
               (Craft l, Craft r) \<Rightarrow>
                 Craft (l\<lparr>cr_ingredients :=
                   merge_counts (dict_of_ints (cr_ingredients l)) (dict_of_ints (cr_ingredients r))\<rparr>)
             | (Smelt l, Smelt r) \<Rightarrow>
                 Smelt (l\<lparr>sm_input_count := sm_input_count l + sm_input_count r,
                          sm_fuel_count := sm_fuel_count l + sm_fuel_count r,
                          sm_seconds_needed := sm_seconds_needed l + sm_seconds_needed r\<rparr>)
             | (d, _) \<Rightarrow> d)\<rparr>"

fun merge_into :: "acquisition_step list \<Rightarrow> acquisition_step \<Rightarrow> acquisition_step list" where
  "merge_into merged step =
     (if merged \<noteq> [] \<and> step_key (last merged) = step_key step
      then butlast merged @ [merge_step (last merged) step] else merged @ [step])"

definition compact_steps :: "acquisition_step list \<Rightarrow> acquisition_step list" where
  "compact_steps steps = foldl merge_into [] steps"

definition new_planner :: "item_counts \<Rightarrow> planner" where
  "new_planner counts = \<lparr>pl_counts = normalize_counts counts, pl_deferred = False, pl_steps = []\<rparr>"

definition planner_setup_for ::
  "item_counts \<Rightarrow> (string \<Rightarrow> recipe_variant list option) \<Rightarrow> string option \<Rightarrow> int \<Rightarrow> planner_setup" where
  "planner_setup_for counts lookup source max_depth =
     \<lparr>su_lookup = lookup, su_recipe_source = source, su_max_depth = max_depth,
      su_preferred_plank = preferred_plank_of (normalize_counts counts)\<rparr>"

text \<open>The planner after the call; \<open>resolve_acquisition\<close> returns its error or its compacted steps.\<close>

definition run_planner ::
  "string \<Rightarrow> int \<Rightarrow> item_counts \<Rightarrow> (string \<Rightarrow> recipe_variant list option) \<Rightarrow> string option \<Rightarrow> int \<Rightarrow> outcome" where
  "run_planner item count counts lookup source max_depth =
     resolve (planner_setup_for counts lookup source max_depth) (nat max_depth) (normalize_item item) count []
       (new_planner counts)"

definition resolve_acquisition ::
  "string \<Rightarrow> int \<Rightarrow> item_counts \<Rightarrow> (string \<Rightarrow> recipe_variant list option) \<Rightarrow> string option
   \<Rightarrow> int \<Rightarrow> acquisition_error + acquisition_step list" where
  "resolve_acquisition item count counts lookup source max_depth =
     (case run_planner item count counts lookup source max_depth of
        (Some e, _) \<Rightarrow> Inl e
      | (None, p) \<Rightarrow> Inr (compact_steps (pl_steps p)))"

end
