(* ===== verification/Acquisition_Plan.thy ===== *)
theory Acquisition_Plan
  imports Acquisition
begin

text \<open>
  What the planner keeps of an acquisition plan, and where its errors stand. The planner's own
  counts are a replay of the steps it recorded, in which spending stops at zero; the tools, fuels
  and listed ingredients of the steps are at hand in that replay. This is the planner's
  bookkeeping and no promise that the plan can be carried out: the last section evaluates plans
  whose smelt input is gone or whose ingredients are forgotten. The recursive call of the planner
  is an interface, so each part of it is proved once for any resolver and the recursion closes by
  induction on the depth that is left.
\<close>

section \<open>Replaying a plan\<close>

definition spend :: "string \<times> int \<Rightarrow> item_counts \<Rightarrow> item_counts" where
  "spend entry counts = AList.update (fst entry) (max 0 (owned counts (fst entry) - snd entry)) counts"

definition receive :: "string \<Rightarrow> int \<Rightarrow> item_counts \<Rightarrow> item_counts" where
  "receive item n counts = AList.update item (owned counts item + n) counts"

text \<open>
  A step as the planner books it: what it uses up is taken off the counts, never below zero, and
  what it makes is added, whether or not everything it uses was there.
\<close>

definition perform :: "acquisition_step \<Rightarrow> item_counts \<Rightarrow> item_counts" where
  "perform s counts =
     (case aq_detail s of
        Collect d \<Rightarrow> (if cl_replan_after d then counts else receive (cl_inventory_item d) (aq_count s) counts)
      | Craft d \<Rightarrow> receive (aq_item s) (aq_count s) (fold spend (cr_ingredients d) counts)
      | Smelt d \<Rightarrow>
          receive (aq_item s) (aq_count s)
            (spend (sm_fuel_item d, sm_fuel_count d) (spend (sm_input_item d, sm_input_count d) counts))
      | Equip _ _ \<Rightarrow> counts)"

text \<open>
  What the planner sees to before it records a step: the tool, the ingredients the step lists, the
  fuel, the item to hold; it asks for something. The input of a smelt step is left out, because the
  planner keeps nothing for it, and a craft step is held to its own list, which after a second round
  for its ingredients is only the remainder.
\<close>

definition step_ready :: "item_counts \<Rightarrow> acquisition_step \<Rightarrow> bool" where
  "step_ready counts s \<longleftrightarrow>
     0 < aq_count s \<and>
     (case aq_detail s of
        Collect d \<Rightarrow> (case cl_required_tier d of None \<Rightarrow> True | Some t \<Rightarrow> pickaxe_satisfies counts t)
      | Craft d \<Rightarrow> (\<forall>(i, n)\<in>set (cr_ingredients d). n \<le> owned counts i)
      | Smelt d \<Rightarrow> sm_fuel_count d \<le> owned counts (sm_fuel_item d)
      | Equip _ _ \<Rightarrow> 0 < owned counts (aq_item s))"

fun ready_from :: "item_counts \<Rightarrow> acquisition_step list \<Rightarrow> bool" where
  "ready_from counts [] = True"
| "ready_from counts (s # ss) = (step_ready counts s \<and> ready_from (perform s counts) ss)"

lemma ready_append: "ready_from c (xs @ ys) \<longleftrightarrow> ready_from c xs \<and> ready_from (fold perform xs c) ys"
  by (induction xs arbitrary: c) auto

definition replans :: "acquisition_step \<Rightarrow> bool" where
  "replans s \<longleftrightarrow> (case aq_detail s of Collect d \<Rightarrow> cl_replan_after d | _ \<Rightarrow> False)"

text \<open>The planner went on from one state to another by steps that are ready in turn.\<close>

definition advances :: "planner \<Rightarrow> planner \<Rightarrow> bool" where
  "advances p q \<longleftrightarrow>
     (\<exists>new. pl_steps q = pl_steps p @ new \<and> pl_counts q = fold perform new (pl_counts p) \<and>
        ready_from (pl_counts p) new \<and> (pl_deferred q \<longleftrightarrow> pl_deferred p \<or> list_ex replans new))"

lemma advances_refl [simp, intro]: "advances p p"
  unfolding advances_def by (rule exI [of _ "[]"]) simp

lemma advances_trans [trans]:
  assumes "advances p q" and "advances q r"
  shows "advances p r"
proof -
  from assms(1) obtain xs where xs: "pl_steps q = pl_steps p @ xs" "pl_counts q = fold perform xs (pl_counts p)"
    "ready_from (pl_counts p) xs" "pl_deferred q \<longleftrightarrow> pl_deferred p \<or> list_ex replans xs"
    unfolding advances_def by blast
  from assms(2) obtain ys where ys: "pl_steps r = pl_steps q @ ys" "pl_counts r = fold perform ys (pl_counts q)"
    "ready_from (pl_counts q) ys" "pl_deferred r \<longleftrightarrow> pl_deferred q \<or> list_ex replans ys"
    unfolding advances_def by blast
  show ?thesis unfolding advances_def
    by (rule exI [of _ "xs @ ys"]) (use xs ys in \<open>simp add: ready_append disj_assoc\<close>)
qed

lemma advances_step:
  assumes "pl_steps q = pl_steps p @ [s]" and "pl_counts q = perform s (pl_counts p)"
    and "step_ready (pl_counts p) s" and "pl_deferred q \<longleftrightarrow> pl_deferred p \<or> replans s"
  shows "advances p q"
  unfolding advances_def by (rule exI [of _ "[s]"]) (use assms in simp)

lemma planner_frame [simp]:
  "pl_steps (set_count i n p) = pl_steps p" "pl_counts (add_step i n d p) = pl_counts p"
  "pl_steps (use_up e p) = pl_steps p" "pl_steps (gain i n p) = pl_steps p"
  "pl_counts (use_up e p) = spend e (pl_counts p)" "pl_counts (gain i n p) = receive i n (pl_counts p)"
  "pl_steps (add_step i n d p) = pl_steps p @ [\<lparr>aq_item = i, aq_count = n, aq_detail = d\<rparr>]"
  "pl_deferred (set_count i n p) = pl_deferred p" "pl_deferred (add_step i n d p) = pl_deferred p"
  "pl_deferred (use_up e p) = pl_deferred p" "pl_deferred (gain i n p) = pl_deferred p"
  by (simp_all add: set_count_def add_step_def use_up_def gain_def spend_def receive_def)

lemma use_all_frame [simp]:
  "pl_steps (fold use_up es p) = pl_steps p" "pl_counts (fold use_up es p) = fold spend es (pl_counts p)"
  "pl_deferred (fold use_up es p) = pl_deferred p"
  by (induction es arbitrary: p) simp_all

lemma fail_state [simp]: "snd (fail r i n ch d p) = p"
  by (simp add: fail_def)

section \<open>Amounts\<close>

definition stocked :: "item_counts \<Rightarrow> bool" where
  "stocked counts \<longleftrightarrow> (\<forall>i. 0 \<le> owned counts i)"

lemma owned_update [simp]: "owned (AList.update i n counts) j = (if j = i then n else owned counts j)"
  by (simp add: owned_def)

lemma stocked_spend: "stocked counts \<Longrightarrow> stocked (spend e counts)"
  by (simp add: stocked_def spend_def)

lemma stocked_spend_all: "stocked counts \<Longrightarrow> stocked (fold spend es counts)"
  by (induction es arbitrary: counts) (simp_all add: stocked_spend)

lemma stocked_receive: "stocked counts \<Longrightarrow> 0 \<le> n \<Longrightarrow> stocked (receive i n counts)"
  by (simp add: stocked_def receive_def)

lemma stocked_perform:
  assumes "stocked counts" and "step_ready counts s"
  shows "stocked (perform s counts)"
proof -
  have "0 \<le> aq_count s" using assms(2) by (simp add: step_ready_def)
  then show ?thesis
    using assms(1) by (simp add: perform_def stocked_spend stocked_spend_all stocked_receive split: step_detail.split)
qed

lemma stocked_replay: "ready_from counts ss \<Longrightarrow> stocked counts \<Longrightarrow> stocked (fold perform ss counts)"
  by (induction ss arbitrary: counts) (simp_all add: stocked_perform)

lemma advances_stocked: "advances p q \<Longrightarrow> stocked (pl_counts p) \<Longrightarrow> stocked (pl_counts q)"
  by (auto simp: advances_def stocked_replay)

lemma owned_receive: "stocked counts \<Longrightarrow> n \<le> owned (receive i n counts) i"
  by (simp add: stocked_def receive_def)

lemma stocked_normalize: "stocked (normalize_counts counts)"
proof -
  have "stocked d \<Longrightarrow> stocked (fold (\<lambda>(raw, n) d. let item = normalize_item raw
      in if item \<noteq> [] \<and> n > 0 then AList.update item (owned d item + n) d else d) xs d)" for xs d
  proof (induction xs arbitrary: d)
    case (Cons x xs)
    then show ?case by (cases x) (simp add: Let_def stocked_def add_nonneg_nonneg)
  qed simp
  then show ?thesis by (simp add: normalize_counts_def stocked_def owned_def)
qed

lemma ceil_div_covers:
  assumes "0 < b"
  shows "a \<le> ceil_div a b * b"
proof -
  have "(of_int a :: rat) / of_int b \<le> of_int (ceil_div a b)" unfolding ceil_div_def by (rule le_of_int_ceiling)
  then have "(of_int a :: rat) \<le> of_int (ceil_div a b) * of_int b" using assms by (simp add: pos_divide_le_eq)
  then show ?thesis by (metis of_int_le_iff of_int_mult)
qed

lemma fuel_burns: "f \<in> set FUEL_SELECTION_ORDER \<Longrightarrow> 0 < the (map_of FUEL_BURN_SECONDS f)"
proof -
  have "list_all (\<lambda>f. 0 < the (map_of FUEL_BURN_SECONDS f)) FUEL_SELECTION_ORDER" by code_simp
  then show "f \<in> set FUEL_SELECTION_ORDER \<Longrightarrow> 0 < the (map_of FUEL_BURN_SECONDS f)" by (simp add: list_all_iff)
qed

lemma select_fuel_owned:
  assumes "select_fuel counts seconds = Some (f, n)"
  shows "n \<le> owned counts f"
proof -
  let ?n = "\<lceil>seconds / the (map_of FUEL_BURN_SECONDS f)\<rceil>"
  from assms have s: "0 < seconds" "find (\<lambda>f. \<lceil>seconds / the (map_of FUEL_BURN_SECONDS f)\<rceil> \<le> owned counts f)
      FUEL_SELECTION_ORDER = Some f" "n = max 1 ?n"
    by (auto simp: select_fuel_def Let_def split: if_splits)
  then have f: "f \<in> set FUEL_SELECTION_ORDER" "?n \<le> owned counts f" by (auto simp: find_Some_iff)
  have "0 < ?n" using s(1) fuel_burns [OF f(1)] by (simp add: divide_pos_pos)
  then show ?thesis using f(2) s(3) by simp
qed

section \<open>Any resolver\<close>

text \<open>Where an error comes from: a chain of different items that goes on from where it was asked.\<close>

definition located :: "nat \<Rightarrow> string list \<Rightarrow> acquisition_error \<Rightarrow> bool" where
  "located depth chain e \<longleftrightarrow>
     prefix chain (ae_chain e) \<and> distinct (ae_chain e) \<and> length (ae_chain e) \<le> length chain + depth \<and>
     (ae_reason e = ''max_depth_exceeded'' \<longrightarrow> length (ae_chain e) = length chain + depth) \<and>
     (ae_reason e = ''recipe_cycle'' \<longrightarrow> ae_item e \<in> set (ae_chain e))"

lemma located_nested:
  "located depth (chain @ [item]) e \<Longrightarrow> located (Suc depth) chain e"
  by (auto simp: located_def append_prefixD)

lemma and_then_advances:
  assumes "advances p (snd r)" and "\<And>q. advances p q \<Longrightarrow> advances p (snd (k q))"
  shows "advances p (snd (and_then r k))"
  using assms by (auto simp: and_then_def split: prod.split option.split)

lemma and_then_error:
  assumes "fst r = Some e \<Longrightarrow> P" and "\<And>q. fst (k q) = Some e \<Longrightarrow> P" and "fst (and_then r k) = Some e"
  shows P
  using assms by (auto simp: and_then_def split: prod.splits option.splits if_splits)

lemma and_then_done:
  "and_then r k = (None, q) \<Longrightarrow> \<not> pl_deferred q \<Longrightarrow> \<exists>u. r = (None, u) \<and> k u = (None, q)"
  by (cases r; cases "fst r") (auto simp: and_then_def split: if_splits)

lemma fail_error [simp]:
  "fst (fail r i n ch d p) = Some \<lparr>ae_reason = r, ae_item = i, ae_count = n, ae_chain = ch, ae_detail = d\<rparr>"
  by (simp add: fail_def)

locale item_resolver =
  fixes rec :: resolver and depth :: nat
  assumes rec_advances: "advances p (snd (rec item n chain p))"
    and rec_located: "distinct chain \<Longrightarrow> fst (rec item n chain p) = Some e \<Longrightarrow> located depth chain e"
begin

lemma rec_advances_on: "advances p0 p \<Longrightarrow> advances p0 (snd (rec item n chain p))"
  using rec_advances advances_trans by blast

lemma nested_located:
  "distinct chain \<Longrightarrow> item \<notin> set chain \<Longrightarrow> fst (rec i n (chain @ [item]) p) = Some e \<Longrightarrow> located (Suc depth) chain e"
  by (rule located_nested, rule rec_located) simp_all

lemma own_error:
  "distinct chain \<Longrightarrow> r \<noteq> ''max_depth_exceeded'' \<Longrightarrow> r \<noteq> ''recipe_cycle'' \<Longrightarrow>
     located (Suc depth) chain \<lparr>ae_reason = r, ae_item = i, ae_count = n, ae_chain = chain, ae_detail = d\<rparr>"
  by (simp add: located_def)

lemma collect_missing_advances:
  assumes "required = None \<or> pickaxe_satisfies (pl_counts p) (the required)"
  shows "advances p (snd (collect_missing route required missing p))"
proof (cases "missing \<le> 0")
  case True
  then show ?thesis by (simp add: collect_missing_def)
next
  case False
  then show ?thesis
    using assms
    by (intro advances_step) (auto simp: collect_missing_def perform_def step_ready_def replans_def split: option.split)
qed

lemma resolve_collect_advances: "advances p (snd (resolve_collect rec item count route chain p))"
proof (cases "strongest_required_tier (rt_block_types route)")
  case None
  then show ?thesis using collect_missing_advances [of None] by (simp add: resolve_collect_def)
next
  case (Some tier)
  let ?tool = "PICKAXE_BY_TIER tier"
  show ?thesis
  proof (cases "pickaxe_satisfies (pl_counts p) tier")
    case True
    then show ?thesis
      using Some collect_missing_advances [of "Some tier"] by (simp add: resolve_collect_def Let_def)
  next
    case False
    let ?k = "\<lambda>p1. if \<not> pickaxe_satisfies (pl_counts p1) tier
       then fail ''required_tool_unavailable'' item count chain (ToolUnavailable tier ?tool (best_pickaxe (pl_counts p1))) p1
       else collect_missing route (Some tier) (max 0 (count - sum_list (map (owned (pl_counts p)) (rt_expected_drops route))))
         (if owned (pl_counts p) ?tool \<le> 0 \<and> owned (pl_counts p1) ?tool > 0 then add_step ?tool 1 (Equip tier item) p1 else p1)"
    have k: "advances p (snd (?k q))" if q: "advances p q" for q
    proof (cases "pickaxe_satisfies (pl_counts q) tier")
      case sat: True
      let ?q = "if owned (pl_counts p) ?tool \<le> 0 \<and> owned (pl_counts q) ?tool > 0 then add_step ?tool 1 (Equip tier item) q else q"
      have eq: "advances q ?q"
        using advances_step [of "add_step ?tool 1 (Equip tier item) q" q] by (simp add: perform_def step_ready_def replans_def)
      have "advances ?q (snd (collect_missing route (Some tier) m ?q))" for m
        using sat by (intro collect_missing_advances) simp
      from advances_trans [OF advances_trans [OF q eq] this] show ?thesis using sat by simp
    qed (use q in simp)
    show ?thesis
      using and_then_advances [OF rec_advances k] Some False by (simp add: resolve_collect_def Let_def)
  qed
qed

lemma resolve_collect_located:
  assumes "distinct chain" and "item \<notin> set chain" and "fst (resolve_collect rec item count route chain p) = Some e"
  shows "located (Suc depth) chain e"
proof (cases "strongest_required_tier (rt_block_types route)")
  case None
  then show ?thesis using assms(3) by (simp add: resolve_collect_def collect_missing_def Let_def split: if_splits)
next
  case (Some tier)
  show ?thesis
    using assms(3) Some
    by (auto simp: resolve_collect_def Let_def collect_missing_def split: if_splits
        elim!: and_then_error [rotated 2] intro: nested_located [OF assms(1,2)] own_error [OF assms(1)])
qed

lemma resolve_plank_family_advances: "advances p (snd (resolve_plank_family rec count chain p))"
proof (cases "preferred_plank_of (pl_counts p)")
  case None
  then show ?thesis
    by (intro advances_step [where s = "\<lparr>aq_item = ''logs'', aq_count = max 1 (ceil_div count 4), aq_detail =
        Collect \<lparr>cl_inventory_item = ''logs'', cl_block_types = LOG_ITEMS, cl_expected_drops = LOG_ITEMS,
                 cl_required_tier = None, cl_replan_after = True\<rparr>\<rparr>"])
      (simp_all add: resolve_plank_family_def add_step_def log_family_def perform_def step_ready_def replans_def)
next
  case (Some plank)
  then show ?thesis using rec_advances by (simp add: resolve_plank_family_def)
qed

lemma resolve_plank_family_located:
  "distinct chain \<Longrightarrow> ''planks'' \<notin> set chain \<Longrightarrow> fst (resolve_plank_family rec count chain p) = Some e \<Longrightarrow>
     located (Suc depth) chain e"
  by (auto simp: resolve_plank_family_def split: option.splits intro: nested_located)

lemma smelt_with_advances:
  assumes "\<And>f n. fuel = Some (f, n) \<Longrightarrow> n \<le> owned (pl_counts p) f" and "0 < crafts" and "0 < ro_output_count route"
  shows "advances p (snd (smelt_with item count route chain crafts fuel p))"
proof (cases fuel)
  case None
  then show ?thesis by (simp add: smelt_with_def)
next
  case (Some fn)
  obtain f n where fn: "fn = (f, n)" by (cases fn)
  show ?thesis
    by (rule advances_step [where s = "\<lparr>aq_item = item, aq_count = crafts * ro_output_count route, aq_detail =
        Smelt \<lparr>sm_input_item = ro_input_item route, sm_input_count = crafts * ro_input_count route,
               sm_fuel_item = f, sm_fuel_count = n, sm_seconds_needed = of_int crafts * SMELT_SECONDS_PER_ITEM\<rparr>\<rparr>"])
      (use assms Some fn in \<open>simp_all add: smelt_with_def Let_def perform_def step_ready_def replans_def\<close>)
qed

lemma resolve_smelt_advances:
  assumes out: "0 < ro_output_count route"
  shows "advances p (snd (resolve_smelt rec item count route chain p))"
proof (cases "count \<le> owned (pl_counts p) item")
  case True
  then show ?thesis by (simp add: resolve_smelt_def)
next
  case False
  let ?m = "count - owned (pl_counts p) item"
  let ?crafts = "ceil_div ?m (ro_output_count route)"
  have m: "max 0 ?m = ?m" "\<not> ?m \<le> 0" using False by simp_all
  have "0 < ?crafts * ro_output_count route" using ceil_div_covers [OF out, of ?m] False by linarith
  then have crafts: "0 < ?crafts" using out by (simp add: zero_less_mult_iff)
  have fuelled: "advances p (snd (choose_fuel rec item count route chain ?crafts q))" if q: "advances p q" for q
  proof -
    have smelt: "advances p (snd (smelt_with item count route chain ?crafts (select_fuel (pl_counts u) s) u))"
      if "advances p u" for u s
      by (rule advances_trans [OF that smelt_with_advances]) (auto simp: crafts out dest: select_fuel_owned)
    then have "advances p (snd (smelt_with item count route chain ?crafts (Some fuel) u))"
      if "advances p u" "select_fuel (pl_counts u) s = Some fuel" for u s fuel
      using that by (metis (no_types))
    then show ?thesis
      using q smelt by (auto simp: choose_fuel_def Let_def split: option.split intro!: and_then_advances rec_advances_on)
  qed
  show ?thesis
    unfolding resolve_smelt_def Let_def m(1) if_not_P [OF m(2)]
    by (intro and_then_advances rec_advances) (auto intro!: rec_advances_on fuelled)
qed

lemma smelt_with_error:
  "distinct chain \<Longrightarrow> fst (smelt_with item count route chain crafts fuel p) = Some e \<Longrightarrow> located (Suc depth) chain e"
  by (auto simp: smelt_with_def Let_def split: option.splits prod.splits intro: own_error)

lemma resolve_smelt_located:
  assumes "distinct chain" and "item \<notin> set chain" and "fst (resolve_smelt rec item count route chain p) = Some e"
  shows "located (Suc depth) chain e"
  using assms(3)
  by (auto simp: resolve_smelt_def choose_fuel_def Let_def split: if_splits option.splits
      elim!: and_then_error [rotated 2]
      intro: nested_located [OF assms(1,2)] smelt_with_error [OF assms(1)])

lemma resolve_all_advances: "advances p0 p \<Longrightarrow> advances p0 (snd (resolve_all rec chain required p))"
proof (induction required arbitrary: p)
  case (Cons r required)
  then show ?case by (cases r) (auto intro!: and_then_advances rec_advances_on)
qed simp

lemma resolve_all_located:
  "distinct chain \<Longrightarrow> item \<notin> set chain \<Longrightarrow> fst (resolve_all rec (chain @ [item]) required p) = Some e \<Longrightarrow>
     located (Suc depth) chain e"
proof (induction required arbitrary: p)
  case (Cons r required)
  obtain i n where r: "r = (i, n)" by (cases r)
  show ?case
    using Cons.prems(3) unfolding r resolve_all.simps
    by (rule and_then_error [rotated 2]) (auto intro: nested_located [OF Cons.prems(1,2)] Cons.IH [OF Cons.prems(1,2)])
qed simp

lemma settle_advances:
  assumes "advances p0 p"
    and "\<And>req q. advances p0 q \<Longrightarrow> missing_requirements req (pl_counts q) = [] \<Longrightarrow> advances p0 (snd (finish req q))"
    and "\<And>req q. advances p0 q \<Longrightarrow> advances p0 (snd (give_up req q))"
  shows "advances p0 (snd (settle_requirements rec chain tries required give_up finish p))"
  using assms(1)
proof (induction tries arbitrary: required p)
  case 0
  then show ?case using assms(3) by simp
next
  case (Suc tries)
  show ?case unfolding settle_requirements.simps resolve_requirements_def
    by (intro and_then_advances) (auto simp: Let_def intro: resolve_all_advances Suc assms(2))
qed

lemma settle_located:
  assumes "distinct chain" and "item \<notin> set chain"
    and "\<And>req q e. fst (finish req q) = Some e \<Longrightarrow> located (Suc depth) chain e"
    and "\<And>req q e. fst (give_up req q) = Some e \<Longrightarrow> located (Suc depth) chain e"
    and "fst (settle_requirements rec (chain @ [item]) tries required give_up finish p) = Some e"
  shows "located (Suc depth) chain e"
  using assms(5)
proof (induction tries arbitrary: required p)
  case 0
  then show ?case using assms(4) by simp
next
  case (Suc tries)
  show ?case
    using Suc.prems unfolding settle_requirements.simps resolve_requirements_def
    by (rule and_then_error [rotated 2])
      (auto simp: Let_def split: if_splits intro: resolve_all_located [OF assms(1,2)] assms(3) Suc.IH)
qed

lemma craft_with_advances:
  assumes "missing_requirements required (pl_counts p) = []" and "0 < crafts * rv_output_count variant"
  shows "advances p (snd (craft_with item variant crafts required p))"
proof -
  have "\<forall>(i, n)\<in>set required. n \<le> owned (pl_counts p) i"
    using assms(1) by (auto simp: missing_requirements_def filter_empty_conv not_less)
  then show ?thesis
    using assms(2)
    by (intro advances_step [where s = "\<lparr>aq_item = item, aq_count = crafts * rv_output_count variant, aq_detail =
        Craft \<lparr>cr_recipe_kind = rv_recipe_kind variant, cr_requires_table = rv_requires_table variant,
               cr_output_count = rv_output_count variant, cr_ingredients = required\<rparr>\<rparr>"])
      (simp_all add: craft_with_def Let_def perform_def step_ready_def replans_def)
qed

lemma choose_variant_output: "choose_variant item m vs counts pref = Some v \<Longrightarrow> 0 < rv_output_count v"
  by (auto simp: choose_variant_def dest!: min_with_Some)

lemma resolve_craft_advances: "advances p (snd (resolve_craft su rec item count variants chain p))"
proof (cases "count \<le> owned (pl_counts p) item")
  case True
  then show ?thesis by (simp add: resolve_craft_def)
next
  case False
  let ?m = "count - owned (pl_counts p) item"
  have m: "max 0 ?m = ?m" "\<not> ?m \<le> 0" using False by simp_all
  show ?thesis
  proof (cases "choose_variant item ?m variants (pl_counts p) (su_preferred_plank su)")
    case None
    then show ?thesis using False by (simp add: resolve_craft_def Let_def)
  next
    case (Some v)
    have "0 < ceil_div ?m (rv_output_count v) * rv_output_count v"
      using ceil_div_covers [OF choose_variant_output [OF Some], of ?m] m(2) by linarith
    note craft = craft_with_advances [OF _ this]
    show ?thesis
      unfolding resolve_craft_def Let_def m(1) if_not_P [OF m(2)] Some option.case
      by (intro and_then_advances settle_advances)
        (auto intro: rec_advances advances_trans [OF _ craft])
  qed
qed

lemma resolve_craft_located:
  assumes "distinct chain" and "item \<notin> set chain" and "fst (resolve_craft su rec item count variants chain p) = Some e"
  shows "located (Suc depth) chain e"
proof -
  let ?m = "max 0 (count - owned (pl_counts p) item)"
  show ?thesis
  proof (cases "?m \<le> 0 \<or> choose_variant item ?m variants (pl_counts p) (su_preferred_plank su) = None")
    case True
    then show ?thesis using assms(3) own_error [OF assms(1)] by (auto simp: resolve_craft_def Let_def split: if_splits)
  next
    case False
    then obtain v where v: "choose_variant item ?m variants (pl_counts p) (su_preferred_plank su) = Some v" by auto
    from False have m: "\<not> ?m \<le> 0" by blast
    have settled: "located (Suc depth) chain e"
      if "fst (settle_requirements rec (chain @ [item]) tries required
            (\<lambda>required p2. fail ''ingredient_resolution_failed'' item count chain (Unresolved required (pl_counts p2)) p2)
            (craft_with item v crafts) q) = Some e" for tries required crafts q
      using that by (rule settle_located [OF assms(1,2), rotated 2])
        (auto simp: craft_with_def Let_def intro: own_error [OF assms(1)])
    show ?thesis
      using assms(3) unfolding resolve_craft_def Let_def if_not_P [OF m] v option.case
      by (rule and_then_error [rotated 2])
        (auto split: if_splits intro: nested_located [OF assms(1,2)] settled)
  qed
qed

text \<open>A call that neither failed nor deferred went through to its last part.\<close>

lemma settle_done:
  assumes "settle_requirements rec chain tries required give_up finish p = (None, q)" and "\<not> pl_deferred q"
    and "\<And>r u. fst (give_up r u) \<noteq> None" and "advances p0 p"
  shows "\<exists>r u. advances p0 u \<and> finish r u = (None, q)"
  using assms(1,4)
proof (induction tries arbitrary: required p)
  case 0
  then show ?case using assms(3) [of required p] by simp
next
  case (Suc tries)
  from and_then_done [OF Suc.prems(1) [unfolded settle_requirements.simps] assms(2)] obtain u where
    u: "resolve_requirements rec required chain p = (None, u)"
      "(let remaining = missing_requirements required (pl_counts u)
        in if remaining = [] then finish required u
           else settle_requirements rec chain tries remaining give_up finish u) = (None, q)" by blast
  have adv: "advances p0 u"
    using resolve_all_advances [OF Suc.prems(2), of chain] u(1) unfolding resolve_requirements_def by (metis snd_conv)
  show ?case
  proof (cases "missing_requirements required (pl_counts u) = []")
    case True
    then show ?thesis using u(2) adv by (auto simp: Let_def)
  next
    case False
    then show ?thesis using u(2) Suc.IH [OF _ adv] by (simp add: Let_def)
  qed
qed

lemma rec_done: "rec i n ch p = (None, u) \<Longrightarrow> advances p0 p \<Longrightarrow> advances p0 u"
  using rec_advances_on [of p0 p i n ch] by simp

lemma collect_reaches:
  assumes r: "resolve_collect rec item count route chain p = (None, q)" and "\<not> pl_deferred q"
    and route: "rt_inventory_item route = item" "rt_expected_drops route = [item]"
    and "stocked (pl_counts p)" and "owned (pl_counts p) item = 0"
  shows "count \<le> owned (pl_counts q) item"
proof -
  have last: "count \<le> owned (pl_counts q) item"
    if "collect_missing route required (max 0 count) u = (None, q)" "stocked (pl_counts u)" for required u
  proof (cases "count \<le> 0")
    case True
    then show ?thesis using that by (auto simp: collect_missing_def stocked_def order_trans [of count 0])
  next
    case False
    then have "q = gain item count (add_step (rt_collect_item route) count
        (Collect \<lparr>cl_inventory_item = item, cl_block_types = rt_block_types route,
                  cl_expected_drops = [item], cl_required_tier = required, cl_replan_after = False\<rparr>) u)"
      using that(1) by (simp add: collect_missing_def route)
    then show ?thesis using owned_receive [OF that(2)] by simp
  qed
  show ?thesis
  proof (cases "strongest_required_tier (rt_block_types route)")
    case None
    then show ?thesis using r last assms(5,6) route by (simp add: resolve_collect_def)
  next
    case (Some tier)
    show ?thesis
    proof (cases "pickaxe_satisfies (pl_counts p) tier")
      case True
      then show ?thesis using r last assms(5,6) route Some by (simp add: resolve_collect_def Let_def)
    next
      case False
      let ?tool = "PICKAXE_BY_TIER tier"
      have "and_then (rec ?tool 1 (chain @ [item]) p)
          (\<lambda>p1. if \<not> pickaxe_satisfies (pl_counts p1) tier
             then fail ''required_tool_unavailable'' item count chain (ToolUnavailable tier ?tool (best_pickaxe (pl_counts p1))) p1
             else collect_missing route (Some tier) (max 0 count)
               (if owned (pl_counts p) ?tool \<le> 0 \<and> owned (pl_counts p1) ?tool > 0 then add_step ?tool 1 (Equip tier item) p1 else p1))
          = (None, q)"
        using r False Some route assms(6) by (simp add: resolve_collect_def Let_def cong: if_cong)
      from and_then_done [OF this assms(2)] obtain u where
        u: "rec ?tool 1 (chain @ [item]) p = (None, u)" "pickaxe_satisfies (pl_counts u) tier"
          "collect_missing route (Some tier) (max 0 count)
             (if owned (pl_counts p) ?tool \<le> 0 \<and> owned (pl_counts u) ?tool > 0 then add_step ?tool 1 (Equip tier item) u else u) = (None, q)"
        by (auto simp: fail_def split: if_splits)
      have "stocked (pl_counts u)" using advances_stocked [OF rec_done [OF u(1) advances_refl] assms(5)] .
      then show ?thesis using last [OF u(3)] by simp
    qed
  qed
qed

lemma smelt_with_reaches:
  assumes r: "smelt_with item count route chain (ceil_div count 1) fuel u = (None, q)"
    and "ro_output_count route = 1" and "stocked (pl_counts u)"
  shows "count \<le> owned (pl_counts q) item"
proof -
  obtain f n where fuel: "fuel = Some (f, n)" using r by (cases fuel) (auto simp: smelt_with_def fail_def Let_def)
  let ?left = "spend (f, n) (spend (ro_input_item route, ceil_div count 1 * ro_input_count route) (pl_counts u))"
  have "stocked ?left" using assms(3) by (simp add: stocked_spend)
  from owned_receive [OF this, of "ceil_div count 1" item] have "ceil_div count 1 \<le> owned (pl_counts q) item"
    using r assms(2) by (auto simp: smelt_with_def fuel Let_def)
  then show ?thesis using ceil_div_covers [of 1 count] by simp
qed

lemma smelt_reaches:
  assumes r: "resolve_smelt rec item count route chain p = (None, q)" and nd: "\<not> pl_deferred q"
    and out: "ro_output_count route = 1" and st: "stocked (pl_counts p)" and zero: "owned (pl_counts p) item = 0"
    and pos: "0 < count"
  shows "count \<le> owned (pl_counts q) item"
proof -
  let ?c = "ceil_div count 1"
  have "and_then (rec (ro_input_item route) (?c * ro_input_count route) (chain @ [item]) p)
      (\<lambda>p1. and_then (if owned (pl_counts p1) ''furnace'' < 1 then rec ''furnace'' 1 (chain @ [item]) p1 else (None, p1))
         (choose_fuel rec item count route chain ?c)) = (None, q)"
    using r pos by (simp add: resolve_smelt_def zero out Let_def)
  from and_then_done [OF this nd] obtain p1 where
    p1: "rec (ro_input_item route) (?c * ro_input_count route) (chain @ [item]) p = (None, p1)"
    and r1: "and_then (if owned (pl_counts p1) ''furnace'' < 1 then rec ''furnace'' 1 (chain @ [item]) p1 else (None, p1))
         (choose_fuel rec item count route chain ?c) = (None, q)" by blast
  from and_then_done [OF r1 nd] obtain p2 where
    p2: "(if owned (pl_counts p1) ''furnace'' < 1 then rec ''furnace'' 1 (chain @ [item]) p1 else (None, p1)) = (None, p2)"
    and r2: "choose_fuel rec item count route chain ?c p2 = (None, q)" by blast
  have a2: "advances p p2" using p2 rec_done [OF p1] rec_done by (auto split: if_splits)
  have "\<exists>fuel u. smelt_with item count route chain ?c fuel u = (None, q) \<and> advances p u"
  proof (cases "select_fuel (pl_counts p2) (of_int ?c * SMELT_SECONDS_PER_ITEM)")
    case (Some fuel)
    then show ?thesis using r2 a2 by (auto simp: choose_fuel_def Let_def)
  next
    case None
    from and_then_done [OF r2 [unfolded choose_fuel_def Let_def None option.case] nd]
    show ?thesis using rec_done [OF _ a2] by blast
  qed
  then show ?thesis using smelt_with_reaches [OF _ out] advances_stocked st by blast
qed

lemma craft_reaches:
  assumes r: "resolve_craft su rec item count variants chain p = (None, q)" and nd: "\<not> pl_deferred q"
    and st: "stocked (pl_counts p)" and zero: "owned (pl_counts p) item = 0" and pos: "0 < count"
  shows "count \<le> owned (pl_counts q) item"
proof -
  obtain v where v: "choose_variant item count variants (pl_counts p) (su_preferred_plank su) = Some v"
    using r zero pos by (cases "choose_variant item count variants (pl_counts p) (su_preferred_plank su)")
      (auto simp: resolve_craft_def fail_def Let_def)
  let ?c = "ceil_div count (rv_output_count v)"
  let ?settle = "\<lambda>u. settle_requirements rec (chain @ [item]) (nat (su_max_depth su + 1))
    (select_requirements v ?c (pl_counts u) (su_preferred_plank su))
    (\<lambda>required p2. fail ''ingredient_resolution_failed'' item count chain (Unresolved required (pl_counts p2)) p2)
    (craft_with item v ?c) u"
  have "and_then (if rv_requires_table v \<and> item \<noteq> ''crafting_table'' \<and> owned (pl_counts p) ''crafting_table'' < 1
      then rec ''crafting_table'' 1 (chain @ [item]) p else (None, p)) ?settle = (None, q)"
    using r pos by (simp add: resolve_craft_def zero v Let_def split del: if_split)
  from and_then_done [OF this nd] obtain u where
    u: "(if rv_requires_table v \<and> item \<noteq> ''crafting_table'' \<and> owned (pl_counts p) ''crafting_table'' < 1
         then rec ''crafting_table'' 1 (chain @ [item]) p else (None, p)) = (None, u)"
    and s: "?settle u = (None, q)" by blast
  have "advances p u" using u rec_done by (auto split: if_splits)
  from settle_done [OF s nd _ this] obtain required w where
    w: "advances p w" "craft_with item v ?c required w = (None, q)" by (auto simp: fail_def)
  have "stocked (fold spend required (pl_counts w))" using advances_stocked [OF w(1) st] by (rule stocked_spend_all)
  from owned_receive [OF this, of "?c * rv_output_count v" item] have "?c * rv_output_count v \<le> owned (pl_counts q) item"
    using w(2) by (auto simp: craft_with_def Let_def)
  then show ?thesis using ceil_div_covers [OF choose_variant_output [OF v], of count] by linarith
qed

end

section \<open>The planner is one\<close>

lemma smelt_route_amounts: "map_of SMELT_ROUTES item = Some r \<Longrightarrow> ro_output_count r = 1 \<and> ro_input_count r = 1"
  by (auto simp: SMELT_ROUTES_def smelt_from_def split: if_splits)

lemma resolve_step:
  assumes "item_resolver (resolve su left) left"
  shows "item_resolver (resolve su (Suc left)) (Suc left)"
proof
  fix p raw count chain e
  let ?item = "normalize_item raw"
  show "advances p (snd (resolve su (Suc left) raw count chain p))"
    using item_resolver.resolve_collect_advances [OF assms] item_resolver.resolve_plank_family_advances [OF assms]
      item_resolver.resolve_smelt_advances [OF assms] item_resolver.resolve_craft_advances [OF assms]
    by (subst resolve.simps) (auto simp: Let_def dest: smelt_route_amounts split: option.split list.split)
  assume d: "distinct chain" and e: "fst (resolve su (Suc left) raw count chain p) = Some e"
  note own = item_resolver.own_error [OF assms d]
  show "located (Suc left) chain e"
  proof (cases "?item \<in> set chain")
    case True
    then show ?thesis using e d by (subst (asm) resolve.simps) (auto simp: Let_def located_def split: if_splits)
  next
    case False
    then show ?thesis
      using e own item_resolver.resolve_collect_located [OF assms d False]
        item_resolver.resolve_plank_family_located [OF assms d] item_resolver.resolve_smelt_located [OF assms d False]
        item_resolver.resolve_craft_located [OF assms d False]
      by (subst (asm) resolve.simps) (auto simp: Let_def split: if_splits option.splits list.splits)
  qed
qed

lemma resolve_resolver: "item_resolver (resolve su depth) depth"
proof (induction depth)
  case 0
  show ?case
  proof
    fix p raw count chain e
    show "advances p (snd (resolve su 0 raw count chain p))" by (subst resolve.simps) (simp add: Let_def)
    show "distinct chain \<Longrightarrow> fst (resolve su 0 raw count chain p) = Some e \<Longrightarrow> located 0 chain e"
      by (subst (asm) resolve.simps) (auto simp: Let_def located_def split: if_splits)
  qed
qed (rule resolve_step)

interpretation planner: item_resolver "resolve su depth" depth
  by (rule resolve_resolver)

section \<open>What the planner keeps, and where it fails\<close>

lemma run_planner_advances:
  "advances (new_planner counts) (snd (run_planner item count counts lookup source max_depth))"
  unfolding run_planner_def by (rule planner.rec_advances)

text \<open>
  The planner's counts are the replay of the steps it recorded, also of those recorded before an
  error, and in that replay a collect step that needs a tier finds a pickaxe of at least that tier,
  a craft step the ingredients it lists, a smelt step its fuel, an equip step the item.
\<close>

lemma planner_counts_are_the_replay:
  shows "ready_from (normalize_counts counts) (pl_steps (snd (run_planner item count counts lookup source max_depth))) \<and>
    fold perform (pl_steps (snd (run_planner item count counts lookup source max_depth))) (normalize_counts counts) =
      pl_counts (snd (run_planner item count counts lookup source max_depth))"
  using run_planner_advances [of counts item count lookup source max_depth]
  by (auto simp: advances_def new_planner_def)

lemma plain_collect_route:
  assumes "map_of COLLECT_ROUTES item = Some r" and "item \<notin> {''log'', ''logs''}"
  shows "rt_inventory_item r = item \<and> rt_expected_drops r = [item]"
proof -
  have "map_of (map (\<lambda>l. plain_route l [l]) ls) i = Some r \<Longrightarrow> rt_inventory_item r = i \<and> rt_expected_drops r = [i]" for ls i
    by (induction ls) (auto simp: plain_route_def split: if_splits)
  with assms show ?thesis
    by (auto simp: COLLECT_ROUTES_def map_add_Some_iff plain_route_def split: if_splits)
qed

lemma resolve_reaches:
  assumes r: "resolve su depth raw count chain p = (None, q)" and nd: "\<not> pl_deferred q"
    and st: "stocked (pl_counts p)" and zero: "owned (pl_counts p) (normalize_item raw) = 0"
    and item: "normalize_item raw \<notin> {''log'', ''logs'', ''planks''}" and pos: "0 < count"
  shows "count \<le> owned (pl_counts q) (normalize_item raw)"
proof -
  let ?item = "normalize_item raw"
  obtain left where left: "depth = Suc left"
    using r pos zero by (cases depth) (auto simp: resolve.simps fail_def Let_def)
  have ni: "?item \<notin> set chain"
    using r [unfolded left resolve.simps [of su "Suc left"] Let_def] pos zero by (auto simp: fail_def split: if_splits)
  note r' = r [unfolded left resolve.simps [of su "Suc left"] Let_def]
  show ?thesis
  proof (cases "map_of COLLECT_ROUTES ?item")
    case (Some route)
    have "resolve_collect (resolve su left) ?item count route chain p = (None, q)"
      using r' Some ni item pos zero by simp
    from planner.collect_reaches [OF this nd _ _ st zero] plain_collect_route [OF Some] item show ?thesis by auto
  next
    case None
    show ?thesis
    proof (cases "map_of SMELT_ROUTES ?item")
      case (Some route)
      have "resolve_smelt (resolve su left) ?item count route chain p = (None, q)"
        using r' Some None ni item pos zero by simp
      from planner.smelt_reaches [OF this nd _ st zero pos] smelt_route_amounts [OF Some] show ?thesis by simp
    next
      case none: None
      obtain v vs where "su_lookup su ?item = Some (v # vs)"
        using r' None none ni item pos zero by (auto simp: fail_def split: option.splits list.splits)
      then have "resolve_craft su (resolve su left) ?item count (v # vs) chain p = (None, q)"
        using r' None none ni item pos zero by simp
      from planner.craft_reaches [OF this nd st zero pos] show ?thesis .
    qed
  qed
qed

text \<open>
  A plan that is returned and not waiting for a fresh look at the inventory lists enough of its
  goal: for an item of which none is owned, other than the log and plank families, the planner's
  counts after the recorded steps hold at least the wanted count of it.
\<close>

lemma planned_amount_is_enough:
  assumes "run_planner item count counts lookup source max_depth = (None, p)" and "\<not> list_ex replans (pl_steps p)"
    and "0 < count" and "name = normalize_item (normalize_item item)" and "name \<notin> {''log'', ''logs'', ''planks''}"
    and "owned (normalize_counts counts) name = 0"
  shows "count \<le> owned (fold perform (pl_steps p) (normalize_counts counts)) name"
proof -
  have adv: "advances (new_planner counts) p"
    using run_planner_advances [of counts item count lookup source max_depth] assms(1) by simp
  then have nd: "\<not> pl_deferred p" and replay: "pl_counts p = fold perform (pl_steps p) (normalize_counts counts)"
    using assms(2) by (auto simp: advances_def new_planner_def)
  have st: "stocked (pl_counts (new_planner counts))" by (simp add: new_planner_def stocked_normalize)
  have zero: "owned (pl_counts (new_planner counts)) (normalize_item (normalize_item item)) = 0"
    using assms(4,6) by (simp add: new_planner_def)
  from resolve_reaches [OF assms(1) [unfolded run_planner_def] nd st zero _ assms(3)] assms(4,5)
  show ?thesis by (simp add: replay)
qed

text \<open>
  C40. An error says where the planning stopped: its chain holds different items, at most
  \<open>max_depth\<close> of them; a depth error stands exactly at that depth, and a cycle error names an item
  that the chain holds already.
\<close>

theorem planning_error_is_located:
  assumes "resolve_acquisition item count counts lookup source max_depth = Inl e"
  shows "distinct (ae_chain e) \<and> int (length (ae_chain e)) \<le> max 0 max_depth \<and>
    (ae_reason e = ''max_depth_exceeded'' \<longrightarrow> int (length (ae_chain e)) = max 0 max_depth) \<and>
    (ae_reason e = ''recipe_cycle'' \<longrightarrow> ae_item e \<in> set (ae_chain e))"
proof -
  have "fst (run_planner item count counts lookup source max_depth) = Some e"
    using assms by (auto simp: resolve_acquisition_def split: prod.splits option.splits)
  then have "located (nat max_depth) [] e" unfolding run_planner_def by (intro planner.rec_located) simp_all
  then show ?thesis by (auto simp: located_def)
qed

section \<open>Evaluated plans\<close>

text \<open>Recipes of the game, with the ingredients as item groups.\<close>

definition sample_recipe :: "string \<Rightarrow> int \<Rightarrow> string list list \<Rightarrow> bool \<Rightarrow> recipe_variant" where
  "sample_recipe item n parts table =
     \<lparr>rv_output_item = item, rv_output_count = n, rv_ingredient_groups = parts, rv_requires_table = table,
      rv_recipe_kind = ''crafting''\<rparr>"

definition sample_lookup :: "string \<Rightarrow> recipe_variant list option" where
  "sample_lookup item =
     map_of [(''furnace'', [sample_recipe ''furnace'' 1 (replicate 8 [''cobblestone'']) True]),
             (''oak_planks'', [sample_recipe ''oak_planks'' 4 [[''oak_log'']] False]),
             (''piston'', [sample_recipe ''piston'' 1
                (replicate 3 [''oak_planks''] @ replicate 4 [''cobblestone''] @ [[''iron_ingot''], [''redstone'']]) True]),
             (''stick'', [sample_recipe ''stick'' 4 [[''oak_planks''], [''oak_planks'']] False]),
             (''furnace_cart'', [sample_recipe ''furnace_cart'' 1 [[''furnace''], [''cart'']] False]),
             (''cart'', [sample_recipe ''cart'' 1 [[''furnace_cart'']] False])] item"

lemma sample_stick_plan:
  "case run_planner ''stick'' 4 [(''oak_log'', 1)] sample_lookup None 6 of
     (e, p) \<Rightarrow> e = None \<and> map aq_item (pl_steps p) = [''oak_planks'', ''stick''] \<and> \<not> list_ex replans (pl_steps p)"
  by code_simp

lemma planned_amount_of_sticks:
  "\<exists>p. run_planner ''stick'' 4 [(''oak_log'', 1)] sample_lookup None 6 = (None, p) \<and>
     4 \<le> owned (fold perform (pl_steps p) (normalize_counts [(''oak_log'', 1)])) ''stick''"
proof -
  from sample_stick_plan obtain p where
    p: "run_planner ''stick'' 4 [(''oak_log'', 1)] sample_lookup None 6 = (None, p)" "\<not> list_ex replans (pl_steps p)"
    by (auto split: prod.splits)
  have "normalize_item (normalize_item ''stick'') = ''stick''"
    "owned (normalize_counts [(''oak_log'', 1)]) ''stick'' = 0" by code_simp+
  with planned_amount_is_enough [OF p, of "''stick''"] p(1) show ?thesis by auto
qed

theorem planning_error_is_located_witness:
  "\<exists>e. resolve_acquisition ''cart'' 1 [(''furnace'', 1)] sample_lookup None 6 = Inl e \<and>
     ae_reason e = ''recipe_cycle'' \<and> ae_item e \<in> set (ae_chain e)"
proof -
  have "case resolve_acquisition ''cart'' 1 [(''furnace'', 1)] sample_lookup None 6 of
          Inl e \<Rightarrow> ae_reason e = ''recipe_cycle'' | Inr _ \<Rightarrow> False" by code_simp
  then obtain e where e: "resolve_acquisition ''cart'' 1 [(''furnace'', 1)] sample_lookup None 6 = Inl e"
    "ae_reason e = ''recipe_cycle''" by (auto split: sum.splits)
  with planning_error_is_located [OF e(1)] show ?thesis by auto
qed

text \<open>
  The input of a smelt step is not kept for it. Planning one stone with nothing but a pickaxe, a
  table and coal, the single cobblestone that is to be smelted goes into the furnace: eight are
  collected, eight are crafted into it, and none is left when the smelting is due. Planning one
  charcoal from one log, the log is both the input and the fuel.
\<close>

definition inputs_ready :: "item_counts \<Rightarrow> acquisition_step \<Rightarrow> bool" where
  "inputs_ready counts s =
     (case aq_detail s of Smelt d \<Rightarrow> sm_input_count d \<le> owned counts (sm_input_item d) | _ \<Rightarrow> True)"

lemma smelt_input_is_consumed:
  "case resolve_acquisition ''stone'' 1 [(''wooden_pickaxe'', 1), (''crafting_table'', 1), (''coal'', 1)]
          sample_lookup None 6 of
     Inl _ \<Rightarrow> False
   | Inr plan \<Rightarrow>
       map (\<lambda>s. (aq_item s, aq_count s)) plan = [(''cobblestone'', 8), (''furnace'', 1), (''stone'', 1)] \<and>
       \<not> inputs_ready
           (fold perform (take 2 plan) [(''wooden_pickaxe'', 1), (''crafting_table'', 1), (''coal'', 1)]) (plan ! 2)"
  by code_simp

lemma charcoal_burns_its_input:
  "case resolve_acquisition ''charcoal'' 1 [(''furnace'', 1), (''oak_log'', 1)] sample_lookup None 6 of
     Inl _ \<Rightarrow> False
   | Inr plan \<Rightarrow>
       map aq_detail plan =
         [Smelt \<lparr>sm_input_item = ''oak_log'', sm_input_count = 1, sm_fuel_item = ''oak_log'', sm_fuel_count = 1,
                 sm_seconds_needed = 10\<rparr>]"
  by code_simp

text \<open>
  Ingredients that are complete when others have to be resolved again are forgotten. For a piston
  the cobblestone is used up by the furnace the iron ingot needs; after the second round the
  craft step lists the cobblestone alone, and planks, ingot and redstone are not used up.
\<close>

lemma settled_ingredients_are_forgotten:
  "case resolve_acquisition ''piston'' 1
          [(''wooden_pickaxe'', 1), (''crafting_table'', 1), (''coal'', 1), (''raw_iron'', 1), (''redstone'', 1),
           (''oak_planks'', 3)] sample_lookup None 6 of
     Inl _ \<Rightarrow> False
   | Inr plan \<Rightarrow>
       aq_item (last plan) = ''piston'' \<and>
       (case aq_detail (last plan) of Craft d \<Rightarrow> cr_ingredients d = [(''cobblestone'', 4)] | _ \<Rightarrow> False)"
  by code_simp

end
