(* ===== verification/Collective.thy ===== *)
theory Collective
  imports Py_Values
begin

text \<open>
  Task transfers and team facts between bots, \<open>minebot/brain/collective.py\<close>, and their stores,
  \<open>minebot/app/collective_store.py\<close>: a transfer is offered under an idempotency key and resolved
  once; a team fact has one writer per key. The text of a finite float is a parameter.
\<close>

section \<open>Transfers\<close>

definition MAX_BOUNDED_FACTS_CHARS :: nat where "MAX_BOUNDED_FACTS_CHARS = 8000"
definition MAX_TEAM_FACT_CHARS :: nat where "MAX_TEAM_FACT_CHARS = 4000"

datatype transfer_status = OFFERED | ACCEPTED | REJECTED | EXPIRED

fun transfer_status_value :: "transfer_status \<Rightarrow> string" where
  "transfer_status_value OFFERED = ''offered''"
| "transfer_status_value ACCEPTED = ''accepted''"
| "transfer_status_value REJECTED = ''rejected''"
| "transfer_status_value EXPIRED = ''expired''"

definition TERMINAL_STATUSES :: "transfer_status set" where
  "TERMINAL_STATUSES = {ACCEPTED, REJECTED, EXPIRED}"

fun ALLOWED_TRANSITIONS :: "transfer_status \<Rightarrow> transfer_status set" where
  "ALLOWED_TRANSITIONS OFFERED = TERMINAL_STATUSES"
| "ALLOWED_TRANSITIONS _ = {}"

text \<open>A lookup of a stored id that has no record would be a \<open>KeyError\<close>.\<close>

datatype collective_error = CollectiveError string | RecordMissing string

record task_transfer =
  tt_transfer_id :: string
  tt_idempotency_key :: string
  tt_from_bot :: string
  tt_to_bot :: string
  tt_task_snapshot :: json_object
  tt_bounded_facts :: json_object
  tt_campaign_ref :: "string list option"
  tt_status :: transfer_status
  tt_created_at :: string
  tt_resolved_at :: string

definition transfer_resolved :: "task_transfer \<Rightarrow> bool" where
  "transfer_resolved r \<longleftrightarrow> tt_status r \<in> TERMINAL_STATUSES"

definition resolve_transfer ::
  "task_transfer \<Rightarrow> transfer_status \<Rightarrow> string \<Rightarrow> collective_error + task_transfer" where
  "resolve_transfer r status resolved_at =
     (if status \<notin> ALLOWED_TRANSITIONS (tt_status r)
      then Inl (CollectiveError (''transfer '' @ tt_transfer_id r @ '': '' @
             transfer_status_value (tt_status r) @ '' -> '' @ transfer_status_value status @ '' is not allowed''))
      else Inr (r\<lparr>tt_status := status, tt_resolved_at := resolved_at\<rparr>))"

definition FORBIDDEN_SNAPSHOT_KEYS :: "string set" where
  "FORBIDDEN_SNAPSHOT_KEYS =
     {''conversation'', ''conversation_items'', ''history'', ''messages'', ''session_messages'', ''transcript'',
      ''items''}"

text \<open>\<open>repr\<close> of a text without quotes and escapes\<close>

definition quoted :: "string \<Rightarrow> string" where
  "quoted s = [CHR 0x27] @ s @ [CHR 0x27]"

definition reject_conversation_payload :: "json_object \<Rightarrow> string \<Rightarrow> collective_error option" where
  "reject_conversation_payload payload where_in =
     map_option (\<lambda>(k, _). CollectiveError (where_in @ '' may not carry conversation history (key '' @ quoted k @
         ''); transfer task artifacts and bounded facts only''))
       (find (\<lambda>(k, _). lower (strip k) \<in> FORBIDDEN_SNAPSHOT_KEYS) payload)"

text \<open>
  The length of \<open>json.dumps(payload, ensure_ascii=True)\<close>: quotes and backslashes are escaped by
  one character, the five named controls likewise, everything else outside printable ASCII by
  \<open>\uXXXX\<close>; items are separated by a comma and a space, keys from values by a colon and a space.
  The order of the keys does not matter to it.
\<close>

definition char_size :: "char \<Rightarrow> nat" where
  "char_size c =
     (let n = (of_char c :: nat)
      in if n = 34 \<or> n = 92 then 2 else if 32 \<le> n \<and> n \<le> 126 then 1
         else if n \<in> {8, 9, 10, 12, 13} then 2 else 6)"

definition string_size :: "string \<Rightarrow> nat" where
  "string_size s = 2 + sum_list (map char_size s)"

fun json_size :: "(rat \<Rightarrow> string) \<Rightarrow> json \<Rightarrow> nat" where
  "json_size repr JNull = 4"
| "json_size repr (JBool b) = (if b then 4 else 5)"
| "json_size repr (JInt i) = length (str_of_int i)"
| "json_size repr (JFloat (Fin q)) = length (repr q)"
| "json_size repr (JFloat PosInf) = 8"
| "json_size repr (JFloat NegInf) = 9"
| "json_size repr (JFloat NaN) = 3"
| "json_size repr (JStr s) = string_size s"
| "json_size repr (JList xs) = 2 + sum_list (map (json_size repr) xs) + 2 * (length xs - 1)"
| "json_size repr (JDict d) =
     2 + sum_list (map (\<lambda>kv. string_size (fst kv) + 2 + json_size repr (snd kv)) d) + 2 * (length d - 1)"

definition encoded_size :: "(rat \<Rightarrow> string) \<Rightarrow> json_object \<Rightarrow> nat" where
  "encoded_size repr payload = json_size repr (JDict payload)"

definition validate_transfer :: "(rat \<Rightarrow> string) \<Rightarrow> task_transfer \<Rightarrow> collective_error + task_transfer" where
  "validate_transfer repr r =
     (if strip (tt_transfer_id r) = [] then Inl (CollectiveError ''transfer_id is required'')
      else if strip (tt_idempotency_key r) = [] then Inl (CollectiveError ''idempotency_key is required'')
      else if strip (tt_from_bot r) = [] \<or> strip (tt_to_bot r) = []
      then Inl (CollectiveError ''from_bot and to_bot are required'')
      else if tt_from_bot r = tt_to_bot r then Inl (CollectiveError ''a bot cannot transfer work to itself'')
      else case reject_conversation_payload (tt_task_snapshot r) ''task_snapshot'' of
        Some e \<Rightarrow> Inl e
      | None \<Rightarrow>
          (case reject_conversation_payload (tt_bounded_facts r) ''bounded_facts'' of
             Some e \<Rightarrow> Inl e
           | None \<Rightarrow>
               (if encoded_size repr (tt_bounded_facts r) > MAX_BOUNDED_FACTS_CHARS
                then Inl (CollectiveError ''bounded_facts exceeds 8000 chars; send handles, not payloads'')
                else if (case tt_campaign_ref r of None \<Rightarrow> False | Some ref \<Rightarrow> length ref \<noteq> 2)
                then Inl (CollectiveError ''campaign_ref must be (campaign_id, node_id)'')
                else Inr r)))"

section \<open>The transfer store\<close>

record transfer_store =
  ts_records :: "(string, task_transfer) pydict"
  ts_by_idempotency :: "(string, string) pydict"

definition empty_transfers :: transfer_store where
  "empty_transfers = \<lparr>ts_records = [], ts_by_idempotency = []\<rparr>"

definition offer ::
  "(rat \<Rightarrow> string) \<Rightarrow> task_transfer \<Rightarrow> transfer_store \<Rightarrow> (collective_error + task_transfer) \<times> transfer_store" where
  "offer repr r s =
     (case validate_transfer repr r of
        Inl e \<Rightarrow> (Inl e, s)
      | Inr v \<Rightarrow>
          (case map_of (ts_by_idempotency s) (tt_idempotency_key v) of
             Some existing_id \<Rightarrow>
               (case map_of (ts_records s) existing_id of
                  None \<Rightarrow> (Inl (RecordMissing existing_id), s)
                | Some original \<Rightarrow> (Inr original, s))
           | None \<Rightarrow>
               (Inr v, s\<lparr>ts_records := AList.update (tt_transfer_id v) v (ts_records s),
                         ts_by_idempotency := AList.update (tt_idempotency_key v) (tt_transfer_id v)
                                                (ts_by_idempotency s)\<rparr>)))"

definition inbox :: "string \<Rightarrow> transfer_store \<Rightarrow> task_transfer list" where
  "inbox who s =
     filter (\<lambda>r. tt_to_bot r = who \<and> tt_status r = OFFERED)
       (map (\<lambda>k. the (map_of (ts_records s) k)) (sort (map fst (ts_records s))))"

definition resolve_stored ::
  "string \<Rightarrow> transfer_status \<Rightarrow> string \<Rightarrow> transfer_store \<Rightarrow> (collective_error + task_transfer) \<times> transfer_store" where
  "resolve_stored transfer_id status resolved_at s =
     (case map_of (ts_records s) transfer_id of
        None \<Rightarrow> (Inl (CollectiveError (''unknown transfer: '' @ transfer_id)), s)
      | Some r \<Rightarrow>
          (case resolve_transfer r status resolved_at of
             Inl e \<Rightarrow> (Inl e, s)
           | Inr resolved \<Rightarrow> (Inr resolved, s\<lparr>ts_records := AList.update transfer_id resolved (ts_records s)\<rparr>)))"

section \<open>Team facts\<close>

record team_fact =
  tf_key :: string
  tf_value :: json_object
  tf_writer_bot :: string
  tf_seq :: int
  tf_updated_at :: string

definition validate_team_fact :: "(rat \<Rightarrow> string) \<Rightarrow> team_fact \<Rightarrow> collective_error + team_fact" where
  "validate_team_fact repr f =
     (if strip (tf_key f) = [] then Inl (CollectiveError ''team fact key is required'')
      else if strip (tf_writer_bot f) = []
      then Inl (CollectiveError ''team fact requires a writer_bot for provenance'')
      else if encoded_size repr (tf_value f) > MAX_TEAM_FACT_CHARS
      then Inl (CollectiveError ''team fact exceeds 4000 chars'')
      else Inr f)"

type_synonym fact_store = "(string, team_fact) pydict"

definition put_fact :: "(rat \<Rightarrow> string) \<Rightarrow> team_fact \<Rightarrow> fact_store \<Rightarrow> (collective_error + team_fact) \<times> fact_store" where
  "put_fact repr f s =
     (case validate_team_fact repr f of
        Inl e \<Rightarrow> (Inl e, s)
      | Inr v \<Rightarrow>
          (let existing = map_of s (tf_key v);
               stored = v\<lparr>tf_seq := (case existing of None \<Rightarrow> 0 | Some old \<Rightarrow> tf_seq old + 1)\<rparr>
           in if (case existing of None \<Rightarrow> False | Some old \<Rightarrow> tf_writer_bot old \<noteq> tf_writer_bot v)
              then (Inl (CollectiveError (''team fact '' @ quoted (tf_key v) @ '' is owned by '' @
                      quoted (case existing of None \<Rightarrow> [] | Some old \<Rightarrow> tf_writer_bot old) @ ''; '' @
                      quoted (tf_writer_bot v) @ '' may not overwrite it'')), s)
              else (Inr stored, AList.update (tf_key v) stored s)))"

definition all_facts :: "fact_store \<Rightarrow> team_fact list" where
  "all_facts s = map (\<lambda>k. the (map_of s k)) (sort (map fst s))"

section \<open>Runs of the transfer store\<close>

datatype transfer_op = Offer task_transfer | Settle string transfer_status string

definition transfer_step :: "(rat \<Rightarrow> string) \<Rightarrow> transfer_store \<Rightarrow> transfer_op \<Rightarrow> transfer_store" where
  "transfer_step repr s op =
     (case op of Offer r \<Rightarrow> snd (offer repr r s) | Settle i status t \<Rightarrow> snd (resolve_stored i status t s))"

definition transfer_run :: "(rat \<Rightarrow> string) \<Rightarrow> transfer_store \<Rightarrow> transfer_op list \<Rightarrow> transfer_store" where
  "transfer_run repr s ops = foldl (transfer_step repr) s ops"

lemma transfer_run_simps [simp]:
  "transfer_run repr s [] = s"
  "transfer_run repr s (op # ops) = transfer_run repr (transfer_step repr s op) ops"
  "transfer_run repr s (xs @ ys) = transfer_run repr (transfer_run repr s xs) ys"
  by (simp_all add: transfer_run_def)

text \<open>What a transfer that passed the checks looks like.\<close>

definition sendable :: "(rat \<Rightarrow> string) \<Rightarrow> task_transfer \<Rightarrow> bool" where
  "sendable repr r \<longleftrightarrow>
     tt_from_bot r \<noteq> tt_to_bot r \<and>
     (\<forall>(k, v)\<in>set (tt_task_snapshot r) \<union> set (tt_bounded_facts r). lower (strip k) \<notin> FORBIDDEN_SNAPSHOT_KEYS) \<and>
     encoded_size repr (tt_bounded_facts r) \<le> MAX_BOUNDED_FACTS_CHARS"

lemma reject_None:
  "reject_conversation_payload payload w = None \<longleftrightarrow> (\<forall>(k, v)\<in>set payload. lower (strip k) \<notin> FORBIDDEN_SNAPSHOT_KEYS)"
  by (auto simp: reject_conversation_payload_def find_None_iff)

lemma validate_transfer_Inr: "validate_transfer repr r = Inr v \<Longrightarrow> v = r \<and> sendable repr r"
  by (auto simp: validate_transfer_def sendable_def reject_None split: if_splits option.splits)

lemma resolve_transfer_Inr:
  "resolve_transfer r status t = Inr r' \<Longrightarrow>
     tt_status r = OFFERED \<and> r' = r\<lparr>tt_status := status, tt_resolved_at := t\<rparr>"
  by (cases "tt_status r") (auto simp: resolve_transfer_def split: if_splits)

text \<open>The step either leaves the store, adds a record under a new key or resolves an offered one.\<close>

lemma transfer_step_cases:
  obtains (same) "transfer_step repr s op = s"
  | (new) r where "op = Offer r" "sendable repr r" "map_of (ts_by_idempotency s) (tt_idempotency_key r) = None"
      "transfer_step repr s op = s\<lparr>ts_records := AList.update (tt_transfer_id r) r (ts_records s),
         ts_by_idempotency := AList.update (tt_idempotency_key r) (tt_transfer_id r) (ts_by_idempotency s)\<rparr>"
  | (settled) i r r' where "map_of (ts_records s) i = Some r" "tt_status r = OFFERED"
      "r' = r\<lparr>tt_status := tt_status r', tt_resolved_at := tt_resolved_at r'\<rparr>"
      "transfer_step repr s op = s\<lparr>ts_records := AList.update i r' (ts_records s)\<rparr>"
proof (cases op)
  case (Offer r)
  show ?thesis
  proof (cases "validate_transfer repr r")
    case (Inl e)
    then show ?thesis using Offer by (intro same) (simp add: transfer_step_def offer_def)
  next
    case (Inr v)
    show ?thesis
    proof (cases "map_of (ts_by_idempotency s) (tt_idempotency_key r)")
      case None
      then show ?thesis
        using Offer Inr validate_transfer_Inr [OF Inr] by (intro new) (simp_all add: transfer_step_def offer_def)
    next
      case (Some i)
      then show ?thesis
        using Offer Inr validate_transfer_Inr [OF Inr]
        by (intro same) (simp add: transfer_step_def offer_def split: option.split)
    qed
  qed
next
  case (Settle i status t)
  show ?thesis
  proof (cases "map_of (ts_records s) i")
    case None
    then show ?thesis using Settle by (intro same) (simp add: transfer_step_def resolve_stored_def)
  next
    case (Some r)
    show ?thesis
    proof (cases "resolve_transfer r status t")
      case (Inl e)
      then show ?thesis using Settle Some by (intro same) (simp add: transfer_step_def resolve_stored_def)
    next
      case (Inr r')
      then show ?thesis
        using Settle Some resolve_transfer_Inr [OF Inr]
        by (intro settled [of i r r']) (simp_all add: transfer_step_def resolve_stored_def)
    qed
  qed
qed

definition all_sendable :: "(rat \<Rightarrow> string) \<Rightarrow> transfer_store \<Rightarrow> bool" where
  "all_sendable repr s \<longleftrightarrow> (\<forall>i r. map_of (ts_records s) i = Some r \<longrightarrow> sendable repr r)"

lemma sendable_restatus [simp]:
  "sendable repr (r\<lparr>tt_status := a, tt_resolved_at := b\<rparr>) = sendable repr r"
  by (simp add: sendable_def)

lemma all_sendable_step: "all_sendable repr s \<Longrightarrow> all_sendable repr (transfer_step repr s op)"
proof (cases rule: transfer_step_cases [of repr s op])
  case (settled i r r')
  assume "all_sendable repr s"
  moreover have "sendable repr r' = sendable repr r" by (subst settled(3)) simp
  ultimately show ?thesis using settled(1,4) by (auto simp: all_sendable_def)
qed (auto simp: all_sendable_def)

lemma all_sendable_run: "all_sendable repr s \<Longrightarrow> all_sendable repr (transfer_run repr s ops)"
  by (induction ops arbitrary: s) (simp_all add: all_sendable_step)

text \<open>Offers name their transfers consistently: the transfer id determines the idempotency key.\<close>

definition names_agree :: "(string \<Rightarrow> string) \<Rightarrow> transfer_op \<Rightarrow> bool" where
  "names_agree key_of op \<longleftrightarrow>
     (case op of Offer r \<Rightarrow> tt_idempotency_key r = key_of (tt_transfer_id r) | Settle _ _ _ \<Rightarrow> True)"

definition store_ok :: "(string \<Rightarrow> string) \<Rightarrow> transfer_store \<Rightarrow> bool" where
  "store_ok key_of s \<longleftrightarrow>
     (\<forall>k i. map_of (ts_by_idempotency s) k = Some i \<longrightarrow> map_of (ts_records s) i \<noteq> None) \<and>
     (\<forall>i r. map_of (ts_records s) i = Some r \<longrightarrow>
        tt_transfer_id r = i \<and> tt_idempotency_key r = key_of i \<and> map_of (ts_by_idempotency s) (key_of i) = Some i)"

lemma store_ok_step:
  assumes "store_ok key_of s" and "names_agree key_of op"
  shows "store_ok key_of (transfer_step repr s op) \<and>
    (\<forall>i r. map_of (ts_records s) i = Some r \<longrightarrow>
       (\<exists>r'. map_of (ts_records (transfer_step repr s op)) i = Some r' \<and>
          r' = r\<lparr>tt_status := tt_status r', tt_resolved_at := tt_resolved_at r'\<rparr> \<and>
          (tt_status r \<noteq> OFFERED \<longrightarrow> r' = r)))"
proof (cases rule: transfer_step_cases [of repr s op])
  case same
  then show ?thesis using assms(1) by simp
next
  case (new r)
  have key: "tt_idempotency_key r = key_of (tt_transfer_id r)" using assms(2) new(1) by (simp add: names_agree_def)
  have fresh: "map_of (ts_records s) (tt_transfer_id r) = None"
    using assms(1) new(3) key unfolding store_ok_def by (metis option.exhaust option.distinct(1))
  have unused: "map_of (ts_records s) j = None" if "key_of j = key_of (tt_transfer_id r)" for j
    using assms(1) new(3) key that unfolding store_ok_def by (metis option.exhaust option.distinct(1))
  show ?thesis using assms(1) key fresh unused unfolding new(4) store_ok_def by auto
next
  case (settled i r r')
  have same: "tt_transfer_id r' = tt_transfer_id r" "tt_idempotency_key r' = tt_idempotency_key r"
    by (subst settled(3), simp)+
  show ?thesis using assms(1) settled(1-3) same unfolding settled(4) store_ok_def by auto
qed

lemma store_ok_run:
  assumes "store_ok key_of s" and "\<forall>op\<in>set ops. names_agree key_of op"
  shows "store_ok key_of (transfer_run repr s ops) \<and>
    (\<forall>i r. map_of (ts_records s) i = Some r \<longrightarrow>
       (\<exists>r'. map_of (ts_records (transfer_run repr s ops)) i = Some r' \<and>
          r' = r\<lparr>tt_status := tt_status r', tt_resolved_at := tt_resolved_at r'\<rparr> \<and>
          (tt_status r \<noteq> OFFERED \<longrightarrow> r' = r)))"
  using assms
proof (induction ops arbitrary: s)
  case (Cons op ops)
  have ok: "names_agree key_of op" using Cons.prems(2) by simp
  note step = store_ok_step [OF Cons.prems(1) ok, of repr]
  have rest: "\<forall>op\<in>set ops. names_agree key_of op" using Cons.prems(2) by simp
  note ih = Cons.IH [OF conjunct1 [OF step] rest]
  show ?case
  proof (intro conjI allI impI)
    show "store_ok key_of (transfer_run repr s (op # ops))" using ih by simp
    fix i r
    assume "map_of (ts_records s) i = Some r"
    with step obtain r1 where r1: "map_of (ts_records (transfer_step repr s op)) i = Some r1"
      "r1 = r\<lparr>tt_status := tt_status r1, tt_resolved_at := tt_resolved_at r1\<rparr>" "tt_status r \<noteq> OFFERED \<longrightarrow> r1 = r" by blast
    with ih obtain r2 where r2: "map_of (ts_records (transfer_run repr (transfer_step repr s op) ops)) i = Some r2"
      "r2 = r1\<lparr>tt_status := tt_status r2, tt_resolved_at := tt_resolved_at r2\<rparr>" "tt_status r1 \<noteq> OFFERED \<longrightarrow> r2 = r1" by blast
    have "r2 = r\<lparr>tt_status := tt_status r2, tt_resolved_at := tt_resolved_at r2\<rparr>"
      by (subst r2(2), subst r1(2)) simp
    then show "\<exists>r'. map_of (ts_records (transfer_run repr s (op # ops))) i = Some r' \<and>
        r' = r\<lparr>tt_status := tt_status r', tt_resolved_at := tt_resolved_at r'\<rparr> \<and> (tt_status r \<noteq> OFFERED \<longrightarrow> r' = r)"
      using r1(3) r2(1,3) by auto
  qed
qed simp

lemma store_ok_empty: "store_ok key_of empty_transfers"
  by (simp add: store_ok_def empty_transfers_def)

text \<open>
  No stored transfer carries a conversation: after any run of offers and resolutions, every
  record goes from one bot to another, neither its snapshot nor its facts has one of the
  forbidden keys, in any case or with any spaces around it, and its facts encode to at most the
  bound.
\<close>

lemma stored_transfer_is_bounded:
  assumes "map_of (ts_records (transfer_run repr empty_transfers ops)) i = Some r"
  shows "tt_from_bot r \<noteq> tt_to_bot r \<and>
    (\<forall>(k, v)\<in>set (tt_task_snapshot r) \<union> set (tt_bounded_facts r). lower (strip k) \<notin> FORBIDDEN_SNAPSHOT_KEYS) \<and>
    encoded_size repr (tt_bounded_facts r) \<le> MAX_BOUNDED_FACTS_CHARS"
proof -
  have "all_sendable repr (transfer_run repr empty_transfers ops)"
    by (rule all_sendable_run) (simp add: all_sendable_def empty_transfers_def)
  then show ?thesis using assms by (auto simp: all_sendable_def sendable_def)
qed

text \<open>
  A transfer is offered once and resolved once, as long as no transfer id is offered under two
  idempotency keys. From when it is stored, whatever is offered or resolved later, the record of
  an id keeps everything but its status and time, keeps those too once it has left the offered
  status, and an offer that repeats its key, whatever else it says, returns that record and
  changes nothing.
\<close>

lemma transfer_resolves_once:
  assumes "\<forall>op\<in>set (before @ later). names_agree key_of op"
    and "map_of (ts_records (transfer_run repr empty_transfers before)) i = Some r"
  shows "\<exists>r'. map_of (ts_records (transfer_run repr empty_transfers (before @ later))) i = Some r' \<and>
    r' = r\<lparr>tt_status := tt_status r', tt_resolved_at := tt_resolved_at r'\<rparr> \<and>
    (tt_status r \<noteq> OFFERED \<longrightarrow> r' = r) \<and>
    (\<forall>x. tt_idempotency_key x = tt_idempotency_key r \<and> validate_transfer repr x = Inr x \<longrightarrow>
       offer repr x (transfer_run repr empty_transfers (before @ later)) =
         (Inr r', transfer_run repr empty_transfers (before @ later)))"
proof -
  let ?s = "transfer_run repr empty_transfers before"
  let ?s' = "transfer_run repr ?s later"
  have ok: "store_ok key_of ?s"
    using store_ok_run [OF store_ok_empty, of before key_of repr] assms(1) by simp
  have later: "\<forall>op\<in>set later. names_agree key_of op" using assms(1) by simp
  note run = store_ok_run [OF ok later, of repr]
  with assms(2) obtain r' where r': "map_of (ts_records ?s') i = Some r'"
    "r' = r\<lparr>tt_status := tt_status r', tt_resolved_at := tt_resolved_at r'\<rparr>" "tt_status r \<noteq> OFFERED \<longrightarrow> r' = r" by blast
  have "tt_idempotency_key r = key_of i" using ok assms(2) by (simp add: store_ok_def)
  moreover have "map_of (ts_by_idempotency ?s') (key_of i) = Some i"
    using conjunct1 [OF run] r'(1) unfolding store_ok_def by blast
  ultimately have "offer repr x ?s' = (Inr r', ?s')"
    if "tt_idempotency_key x = tt_idempotency_key r" "validate_transfer repr x = Inr x" for x
    using that r'(1) by (simp add: offer_def)
  then show ?thesis using r' by auto
qed

definition sample_transfer :: "string \<Rightarrow> string \<Rightarrow> task_transfer" where
  "sample_transfer i key =
     \<lparr>tt_transfer_id = i, tt_idempotency_key = key, tt_from_bot = ''ada'', tt_to_bot = ''bea'',
      tt_task_snapshot = [(''goal'', JStr ''collect logs'')], tt_bounded_facts = [(''logs'', JInt 12)],
      tt_campaign_ref = None, tt_status = OFFERED, tt_created_at = [], tt_resolved_at = []\<rparr>"

lemma sample_transfer_run:
  "map_of (ts_records (transfer_run (\<lambda>_. []) empty_transfers
     [Offer (sample_transfer ''t'' ''k''), Settle ''t'' REJECTED ''noon''])) ''t'' =
   Some ((sample_transfer ''t'' ''k'')\<lparr>tt_status := REJECTED, tt_resolved_at := ''noon''\<rparr>)"
  by code_simp

theorem stored_transfer_is_bounded_witness:
  "encoded_size (\<lambda>_. []) (tt_bounded_facts ((sample_transfer ''t'' ''k'')\<lparr>tt_status := REJECTED, tt_resolved_at := ''noon''\<rparr>))
     \<le> MAX_BOUNDED_FACTS_CHARS"
  using stored_transfer_is_bounded [OF sample_transfer_run] by simp

theorem transfer_resolves_once_witness:
  "\<exists>r'. map_of (ts_records (transfer_run (\<lambda>_. []) empty_transfers
       ([Offer (sample_transfer ''t'' ''k''), Settle ''t'' REJECTED ''noon''] @ [Settle ''t'' ACCEPTED ''dusk'']))) ''t'' =
     Some r' \<and> tt_status r' = REJECTED"
proof -
  have "\<forall>op\<in>set ([Offer (sample_transfer ''t'' ''k''), Settle ''t'' REJECTED ''noon''] @ [Settle ''t'' ACCEPTED ''dusk'']).
      names_agree (\<lambda>_. ''k'') op"
    by (simp add: names_agree_def sample_transfer_def)
  from transfer_resolves_once [OF this sample_transfer_run] show ?thesis by auto
qed

text \<open>
  With a transfer id that is offered again under another key the stored record is replaced: a
  rejected transfer is open again, and the first key now returns the other offer's record.
\<close>

lemma reused_id_reopens_transfer:
  "let s = transfer_run (\<lambda>_. []) empty_transfers
         [Offer (sample_transfer ''t'' ''k''), Settle ''t'' REJECTED ''noon'', Offer (sample_transfer ''t'' ''k2'')]
   in map_option tt_status (map_of (ts_records s) ''t'') = Some OFFERED \<and>
      fst (offer (\<lambda>_. []) (sample_transfer ''t'' ''k'') s) = Inr (sample_transfer ''t'' ''k2'')"
  by code_simp

section \<open>Runs of the fact store\<close>

definition put_run :: "(rat \<Rightarrow> string) \<Rightarrow> fact_store \<Rightarrow> team_fact list \<Rightarrow> fact_store" where
  "put_run repr s fs = foldl (\<lambda>s f. snd (put_fact repr f s)) s fs"

definition accepted_from :: "(rat \<Rightarrow> string) \<Rightarrow> string \<Rightarrow> string \<Rightarrow> team_fact \<Rightarrow> bool" where
  "accepted_from repr key writer f \<longleftrightarrow>
     tf_key f = key \<and> tf_writer_bot f = writer \<and> validate_team_fact repr f = Inr f"

lemma validate_team_fact_Inr: "validate_team_fact repr f = Inr v \<Longrightarrow> v = f"
  by (auto simp: validate_team_fact_def split: if_splits)

lemma put_fact_step:
  assumes "map_of s k = Some f"
  shows "\<exists>f'. map_of (snd (put_fact repr x s)) k = Some f' \<and> tf_writer_bot f' = tf_writer_bot f \<and>
    tf_seq f' = tf_seq f + (if accepted_from repr k (tf_writer_bot f) x then 1 else 0)"
proof (cases "validate_team_fact repr x")
  case (Inl e)
  then show ?thesis using assms by (simp add: put_fact_def accepted_from_def)
next
  case (Inr v)
  have v: "v = x" using validate_team_fact_Inr [OF Inr] .
  show ?thesis
  proof (cases "tf_key x = k")
    case True
    then show ?thesis using assms Inr v by (simp add: put_fact_def accepted_from_def Let_def)
  next
    case False
    then show ?thesis using assms Inr v by (simp add: put_fact_def accepted_from_def Let_def)
  qed
qed

text \<open>
  A team fact has one writer and counts its writes. Once a key has a fact, whatever any bot
  puts later, the key keeps its writer, and its sequence number has grown by exactly the number
  of valid puts of that key by that writer; no put by another bot, and none that is refused,
  moves it.
\<close>

lemma team_fact_has_one_writer:
  assumes "map_of (put_run repr [] earlier) k = Some f"
  shows "\<exists>f'. map_of (put_run repr [] (earlier @ later)) k = Some f' \<and> tf_writer_bot f' = tf_writer_bot f \<and>
    tf_seq f' = tf_seq f + int (length (filter (accepted_from repr k (tf_writer_bot f)) later))"
proof -
  have "\<exists>f'. map_of (put_run repr s later) k = Some f' \<and> tf_writer_bot f' = tf_writer_bot f \<and>
      tf_seq f' = tf_seq f + int (length (filter (accepted_from repr k (tf_writer_bot f)) later))"
    if "map_of s k = Some f" for s f
    using that
  proof (induction later arbitrary: s f)
    case Nil
    then show ?case by (simp add: put_run_def)
  next
    case (Cons x later)
    from put_fact_step [OF Cons.prems, of repr x] obtain f1 where
      f1: "map_of (snd (put_fact repr x s)) k = Some f1" "tf_writer_bot f1 = tf_writer_bot f"
        "tf_seq f1 = tf_seq f + (if accepted_from repr k (tf_writer_bot f) x then 1 else 0)" by blast
    from Cons.IH [OF f1(1)] show ?case using f1 by (auto simp: put_run_def)
  qed
  from this [OF assms] show ?thesis by (simp add: put_run_def)
qed

definition sample_fact :: "string \<Rightarrow> team_fact" where
  "sample_fact who = \<lparr>tf_key = ''base'', tf_value = [(''x'', JInt 3)], tf_writer_bot = who, tf_seq = 0, tf_updated_at = []\<rparr>"

theorem team_fact_has_one_writer_witness:
  "\<exists>f'. map_of (put_run (\<lambda>_. []) [] ([sample_fact ''ada''] @ [sample_fact ''bea'', sample_fact ''ada''])) ''base'' = Some f' \<and>
     tf_writer_bot f' = ''ada'' \<and> tf_seq f' = 1"
proof -
  have "map_of (put_run (\<lambda>_. []) [] [sample_fact ''ada'']) ''base'' = Some (sample_fact ''ada'')" by code_simp
  from team_fact_has_one_writer [OF this, of "[sample_fact ''bea'', sample_fact ''ada'']"]
  have "\<exists>f'. map_of (put_run (\<lambda>_. []) [] ([sample_fact ''ada''] @ [sample_fact ''bea'', sample_fact ''ada''])) ''base'' = Some f' \<and>
      tf_writer_bot f' = tf_writer_bot (sample_fact ''ada'') \<and>
      tf_seq f' = tf_seq (sample_fact ''ada'') +
        int (length (filter (accepted_from (\<lambda>_. []) ''base'' (tf_writer_bot (sample_fact ''ada'')))
          [sample_fact ''bea'', sample_fact ''ada'']))" .
  moreover have "length (filter (accepted_from (\<lambda>_. []) ''base'' (tf_writer_bot (sample_fact ''ada'')))
      [sample_fact ''bea'', sample_fact ''ada'']) = 1" by code_simp
  ultimately show ?thesis by (simp add: sample_fact_def)
qed

end
