(* ===== verification/Store_Records.thy ===== *)
theory Store_Records
  imports Work_Intents
begin

text \<open>
  The records of the durable control plane: \<open>minebot/app/runtime_records.py\<close>, the text and plan
  normalisation of \<open>minebot/app/runtime_state_mapping.py\<close>, and the tables of
  \<open>minebot/app/runtime_state.py\<close> as lists of rows in insertion order. Columns hold their decoded
  values; times are the fixed-width texts of \<open>_utc_now\<close>, compared as texts.
\<close>

section \<open>Enumerations\<close>

datatype task_status = TK_QUEUED | TK_RUNNING | TK_WAITING_EVENT | TK_PAUSED | TK_YIELDED
  | TK_COMPLETED | TK_CANCELLED | TK_FAILED

datatype completion_authority = CA_NONE | CA_BODY_TRUTH | CA_MODEL | CA_HUMAN

datatype plan_step_status = SP_PENDING | SP_IN_PROGRESS | SP_COMPLETED | SP_BLOCKED | SP_SKIPPED

datatype disposition = DP_CONTINUE | DP_WAIT_EVENT | DP_YIELD | DP_COMPLETE

datatype operation_class = OC_EPISTEMIC | OC_MATERIAL | OC_MIXED

fun plan_step_status_of :: "string \<Rightarrow> plan_step_status option" where
  "plan_step_status_of s =
     (if s = ''pending'' then Some SP_PENDING else if s = ''in_progress'' then Some SP_IN_PROGRESS
      else if s = ''completed'' then Some SP_COMPLETED else if s = ''blocked'' then Some SP_BLOCKED
      else if s = ''skipped'' then Some SP_SKIPPED else None)"

fun operation_class_of :: "string \<Rightarrow> operation_class option" where
  "operation_class_of s =
     (if s = ''epistemic'' then Some OC_EPISTEMIC else if s = ''material'' then Some OC_MATERIAL
      else if s = ''mixed'' then Some OC_MIXED else None)"

section \<open>Errors\<close>

text \<open>
  Conflicts are \<open>RuntimeStateConflict\<close>, bad values \<open>ValueError\<close>; an \<open>IntegrityError\<close> of the
  database and a failed \<open>assert\<close> are kept where the code lets them through.
\<close>

datatype store_error =
    ForegroundExists string
  | TaskRevisionConflict string int
  | TaskMissing string
  | NoActiveTask
  | PlanRevisionConflict string int int
  | PlanMissing string string
  | ScopeCollision
  | IntentInsertFailed
  | IntentRevisionConflict string int
  | LeaseRequired
  | AdmissionBound
  | RecoveryTaskChanged
  | RecoveryFailed recovery_error
  | BadValue string
  | PyError py_exn
  | IntegrityViolated
  | AssertionFailed

section \<open>Scopes and rows\<close>

text \<open>The key of a scope is the SHA-256 digest of its payload; it is a field here.\<close>

record runtime_scope =
  sc_server_id :: string
  sc_world_id :: string
  sc_bot_id :: string
  sc_key :: string

record task_row =
  tk_task_id :: string
  tk_scope_key :: string
  tk_revision :: int
  tk_goal_text :: string
  tk_source :: string
  tk_requested_by :: string
  tk_status :: task_status
  tk_completion_authority :: completion_authority
  tk_active_plan_id :: "string option"
  tk_latest_checkpoint_id :: "string option"
  tk_created_at :: string
  tk_updated_at :: string

record plan_row =
  pn_plan_id :: string
  pn_task_id :: string
  pn_revision :: int
  pn_summary :: string
  pn_created_at :: string
  pn_updated_at :: string

record plan_step =
  sp_title :: string
  sp_status :: plan_step_status
  sp_evidence :: "string list"
  sp_blocker :: "string option"

record plan_step_row = plan_step +
  sp_plan_id :: string
  sp_ordinal :: nat
  sp_updated_at :: string

record continuation_contract =
  cc_objective :: string
  cc_operation_class :: operation_class
  cc_target_descriptor :: json_object
  cc_expected_evidence :: "string list"
  cc_bounded_epoch_budget :: int
  cc_approach_key :: string
  cc_evidence_cursor :: int
  cc_generation :: int

record checkpoint_row =
  ck_checkpoint_id :: string
  ck_task_id :: string
  ck_revision :: int
  ck_disposition :: disposition
  ck_summary :: string
  ck_next_step :: string
  ck_evidence :: "string list"
  ck_wait_for :: "string list"
  ck_body_fingerprint :: "json_object option"
  ck_continuation :: "continuation_contract option"
  ck_created_at :: string

record approach_row =
  cv_scope_key :: string
  cv_task_id :: string
  cv_approach_key :: string
  cv_budget_limit :: int
  cv_consumed_epochs :: int
  cv_updated_at :: string

record settlement_row =
  cs_checkpoint_id :: string
  cs_scope_key :: string
  cs_task_id :: string
  cs_approach_key :: string
  cs_consumed_epochs :: int
  cs_settled_at :: string

record reservation_row =
  ce_epoch_id :: string
  ce_scope_key :: string
  ce_checkpoint_id :: string

text \<open>A row of \<open>work_intents\<close> is the record the queue hands out and the columns it keeps back.\<close>

record intent_row = work_intent +
  iw_scope_key :: string
  iw_available_at :: string
  iw_created_at :: string
  iw_lease_owner :: "string option"
  iw_lease_expires_at :: "string option"
  iw_leased_at :: "string option"
  iw_completed_at :: "string option"
  iw_error :: "json_object option"

record runtime_store =
  st_scopes :: "(string, string \<times> string \<times> string) pydict"
  st_tasks :: "task_row list"
  st_plans :: "plan_row list"
  st_steps :: "plan_step_row list"
  st_checkpoints :: "checkpoint_row list"
  st_approaches :: "approach_row list"
  st_settlements :: "settlement_row list"
  st_reservations :: "reservation_row list"
  st_intents :: "intent_row list"

definition empty_store :: runtime_store where
  "empty_store = \<lparr>st_scopes = [], st_tasks = [], st_plans = [], st_steps = [], st_checkpoints = [],
     st_approaches = [], st_settlements = [], st_reservations = [], st_intents = []\<rparr>"

section \<open>Text\<close>

definition bounded_text :: "nat \<Rightarrow> string \<Rightarrow> string" where
  "bounded_text max_length s = take max_length (join '' '' (split_words [] (strip s)))"

text \<open>\<open>str(value or "")\<close> of a decoded value\<close>

definition text_or_empty :: "(json \<Rightarrow> string) \<Rightarrow> json \<Rightarrow> string" where
  "text_or_empty show_other v = (if truthy v then py_str show_other v else [])"

definition required_text :: "string \<Rightarrow> nat \<Rightarrow> string \<Rightarrow> store_error + string" where
  "required_text field_name max_length s =
     (let clean = bounded_text max_length s
      in if clean = [] then Inl (BadValue (field_name @ '' must not be empty'')) else Inr clean)"

definition bounded_texts :: "nat \<Rightarrow> nat \<Rightarrow> string list \<Rightarrow> string list" where
  "bounded_texts max_items max_length vs =
     filter (\<lambda>clean. clean \<noteq> []) (map (bounded_text max_length) (take max_items vs))"

fun bounded_text_list :: "(json \<Rightarrow> string) \<Rightarrow> nat \<Rightarrow> nat \<Rightarrow> json \<Rightarrow> store_error + string list" where
  "bounded_text_list show_other max_items max_length (JList vs) =
     Inr (bounded_texts max_items max_length (map (text_or_empty show_other) vs))"
| "bounded_text_list show_other max_items max_length _ = Inl (BadValue ''expected a list of strings'')"

section \<open>Plan steps\<close>

definition normalize_step :: "(json \<Rightarrow> string) \<Rightarrow> nat \<Rightarrow> json \<Rightarrow> store_error + plan_step" where
  "normalize_step show_other index raw =
     (case raw of
        JDict d \<Rightarrow>
          (case required_text (''steps['' @ str_of_nat index @ ''].title'') 500 (text_or_empty show_other (dget d ''title'')) of
             Inl e \<Rightarrow> Inl e
           | Inr title \<Rightarrow>
               (case plan_step_status_of
                       (if truthy (dget d ''status'') then py_str show_other (dget d ''status'') else ''pending'') of
                  None \<Rightarrow> Inl (BadValue (''invalid plan step status at index '' @ str_of_nat index))
                | Some status \<Rightarrow>
                    (case bounded_text_list show_other 16 1000
                            (if truthy (dget d ''evidence'') then dget d ''evidence'' else JList []) of
                       Inl e \<Rightarrow> Inl e
                     | Inr evidence \<Rightarrow>
                         (let blocker = bounded_text 1000 (text_or_empty show_other (dget d ''blocker''))
                          in Inr \<lparr>sp_title = title, sp_status = status, sp_evidence = evidence,
                               sp_blocker = (if blocker = [] then None else Some blocker)\<rparr>))))
      | _ \<Rightarrow> Inl (BadValue (''plan step '' @ str_of_nat index @ '' must be an object'')))"

fun normalize_steps_from :: "(json \<Rightarrow> string) \<Rightarrow> nat \<Rightarrow> json list \<Rightarrow> store_error + plan_step list" where
  "normalize_steps_from show_other index [] = Inr []"
| "normalize_steps_from show_other index (raw # raws) =
     (case normalize_step show_other index raw of
        Inl e \<Rightarrow> Inl e
      | Inr step \<Rightarrow>
          (case normalize_steps_from show_other (index + 1) raws of
             Inl e \<Rightarrow> Inl e
           | Inr steps \<Rightarrow> Inr (step # steps)))"

definition normalize_plan_steps :: "(json \<Rightarrow> string) \<Rightarrow> json list \<Rightarrow> store_error + plan_step list" where
  "normalize_plan_steps show_other raws =
     (if length raws > 64 then Inl (BadValue ''plan exceeds 64 steps'')
      else case normalize_steps_from show_other 0 raws of
        Inl e \<Rightarrow> Inl e
      | Inr steps \<Rightarrow>
          (if length (filter (\<lambda>s. sp_status s = SP_IN_PROGRESS) steps) > 1
           then Inl (BadValue ''at most one plan step may be in_progress'')
           else Inr steps))"

lemma normalize_plan_steps_Inr:
  assumes "normalize_plan_steps show_other raws = Inr steps"
  shows "length steps = length raws" "length steps \<le> 64"
    "length (filter (\<lambda>s. sp_status s = SP_IN_PROGRESS) steps) \<le> 1"
proof -
  have "normalize_steps_from show_other i raws = Inr steps \<Longrightarrow> length steps = length raws" for i
    by (induction raws arbitrary: i steps) (auto split: sum.splits)
  then show "length steps = length raws" "length steps \<le> 64"
      "length (filter (\<lambda>s. sp_status s = SP_IN_PROGRESS) steps) \<le> 1"
    using assms by (auto simp: normalize_plan_steps_def split: if_splits sum.splits)
qed

section \<open>The continuation contract\<close>

text \<open>\<open>casefold()\<close>; the one Latin-1 letter it takes out of Latin-1, the micro sign, is kept.\<close>

definition casefold :: "string \<Rightarrow> string" where
  "casefold s = concat (map (\<lambda>c. if of_char c = (223 :: nat) then ''ss'' else [lower_char c]) s)"

definition normalize_target_descriptor :: "(json \<Rightarrow> string) \<Rightarrow> json \<Rightarrow> store_error + json_object" where
  "normalize_target_descriptor show_other raw =
     (case raw of
        JDict d \<Rightarrow>
          (if \<not> set (map fst d) \<subseteq> {''kind'', ''identifier'', ''traits''}
           then Inl (BadValue ''continuation target_descriptor cannot contain routes or coordinates'')
           else let kind = casefold (strip (text_or_empty show_other (dget d ''kind'')));
                    identifier = casefold (join '' '' (split_words [] (text_or_empty show_other (dget d ''identifier''))));
                    raw_traits = (if truthy (dget d ''traits'') then dget d ''traits'' else JList [])
           in if kind \<notin> {''resource'', ''entity'', ''place'', ''state''}
              then Inl (BadValue ''continuation target_descriptor kind is invalid'')
              else if identifier = [] \<or> length identifier > 256
              then Inl (BadValue ''continuation target identifier must be 1..256 characters'')
              else case raw_traits of
                JList ts \<Rightarrow>
                  (let traits = sort (dedupe (map (\<lambda>t. casefold (join '' '' (split_words [] (py_str show_other t))))
                                 (filter (\<lambda>t. strip (py_str show_other t) \<noteq> []) ts)))
                   in if length traits > 16 \<or> list_ex (\<lambda>t. length t > 128) traits
                      then Inl (BadValue ''continuation target traits exceed their bounded schema'')
                      else Inr [(''kind'', JStr kind), (''identifier'', JStr identifier),
                                (''traits'', JList (map JStr traits))])
              | _ \<Rightarrow> Inl (BadValue ''continuation target traits must be a list''))
      | _ \<Rightarrow> Inl (BadValue ''continuation target_descriptor must be an object''))"

text \<open>\<open>approach_digest\<close> is the digest of the operation class and the target, a SHA-256 text.\<close>

definition decode_continuation ::
  "(json \<Rightarrow> string) \<Rightarrow> (operation_class \<Rightarrow> json_object \<Rightarrow> string) \<Rightarrow> int \<Rightarrow> int \<Rightarrow> json_object
   \<Rightarrow> store_error + continuation_contract" where
  "decode_continuation show_other approach_digest evidence_cursor generation d =
     (let objective = strip (text_or_empty show_other (dget d ''objective''))
      in if objective = [] \<or> length objective > 2000
         then Inl (BadValue ''continuation objective must be 1..2000 characters'')
         else case operation_class_of (text_or_empty show_other (dget d ''operation_class'')) of
           None \<Rightarrow> Inl (BadValue ''not a valid ContinuationOperationClass'')
         | Some oc \<Rightarrow>
             (case normalize_target_descriptor show_other (dget d ''target_descriptor'') of
                Inl e \<Rightarrow> Inl e
              | Inr descriptor \<Rightarrow>
                  (case dget d ''expected_evidence'' of
                     JList es \<Rightarrow>
                       (let expected = dedupe (filter (\<lambda>s. s \<noteq> []) (map (\<lambda>e. strip (py_str show_other e)) es))
                        in if expected = [] \<or> length expected > 16 \<or> list_ex (\<lambda>s. length s > 256) expected
                           then Inl (BadValue ''continuation expected_evidence must contain 1..16 bounded facts'')
                           else case py_int (if truthy (dget d ''bounded_epoch_budget'')
                                             then dget d ''bounded_epoch_budget'' else JInt 0) of
                             Inl e \<Rightarrow> Inl (PyError e)
                           | Inr budget \<Rightarrow>
                               (if budget < 1 \<or> budget > 32
                                then Inl (BadValue ''continuation bounded_epoch_budget must be between 1 and 32'')
                                else Inr \<lparr>cc_objective = objective, cc_operation_class = oc,
                                  cc_target_descriptor = descriptor, cc_expected_evidence = expected,
                                  cc_bounded_epoch_budget = budget,
                                  cc_approach_key = ''approach:'' @ approach_digest oc descriptor,
                                  cc_evidence_cursor = max 0 evidence_cursor,
                                  cc_generation = max 0 generation\<rparr>))
                   | _ \<Rightarrow> Inl (BadValue ''continuation expected_evidence must be a list''))))"

definition continuation_contract_for ::
  "(json \<Rightarrow> string) \<Rightarrow> (operation_class \<Rightarrow> json_object \<Rightarrow> string) \<Rightarrow> disposition \<Rightarrow> json \<Rightarrow> int \<Rightarrow> int
   \<Rightarrow> store_error + continuation_contract option" where
  "continuation_contract_for show_other approach_digest disposition raw evidence_cursor generation =
     (if disposition \<noteq> DP_CONTINUE
      then (if raw \<noteq> JNull then Inl (BadValue ''continuation is allowed only when disposition=continue'') else Inr None)
      else case raw of
        JDict d \<Rightarrow> map_sum id Some (decode_continuation show_other approach_digest evidence_cursor generation d)
      | _ \<Rightarrow> Inl (BadValue ''disposition=continue requires a continuation contract''))"

end
