(* ===== verification/Task_Store.thy ===== *)
theory Task_Store
  imports Store_Records "HOL-Library.Monad_Syntax"
begin

text \<open>
  Tasks, plans, checkpoints and continuation budgets of \<open>RuntimeStateStore\<close>
  (\<open>minebot/app/runtime_state.py\<close>) and the facade \<open>TaskWorkspace\<close> (\<open>minebot/app/tasks.py\<close>). Each
  method is one atomic step over an open store; a failed transaction leaves the tables as they
  were. Fresh ids and clock texts are arguments.
\<close>

section \<open>Scopes\<close>

definition register_scope :: "runtime_scope \<Rightarrow> runtime_store \<Rightarrow> store_error option \<times> runtime_store" where
  "register_scope scope s =
     (let payload = (sc_server_id scope, sc_world_id scope, sc_bot_id scope)
      in case map_of (st_scopes s) (sc_key scope) of
        Some row \<Rightarrow> (if row \<noteq> payload then Some ScopeCollision else None, s)
      | None \<Rightarrow>
          (if list_ex (\<lambda>(_, row). row = payload) (st_scopes s) then (Some IntegrityViolated, s)
           else (None, s\<lparr>st_scopes := st_scopes s @ [(sc_key scope, payload)]\<rparr>)))"

section \<open>Tasks\<close>

text \<open>The statuses of the partial unique index \<open>idx_tasks_one_foreground\<close>\<close>

definition foreground :: "task_row \<Rightarrow> bool" where
  "foreground t \<longleftrightarrow> tk_status t \<in> {TK_RUNNING, TK_WAITING_EVENT, TK_PAUSED, TK_YIELDED}"

definition one_foreground :: "task_row list \<Rightarrow> bool" where
  "one_foreground ts \<longleftrightarrow> distinct (map tk_scope_key (filter foreground ts))"

definition insert_task :: "task_row \<Rightarrow> runtime_store \<Rightarrow> runtime_store option" where
  "insert_task t s =
     (let rows = st_tasks s @ [t]
      in if tk_task_id t \<in> set (map tk_task_id (st_tasks s)) \<or> \<not> one_foreground rows then None
         else Some (s\<lparr>st_tasks := rows\<rparr>))"

definition get_task :: "string \<Rightarrow> runtime_store \<Rightarrow> task_row option" where
  "get_task task_id s = find (\<lambda>t. tk_task_id t = task_id) (st_tasks s)"

definition new_task :: "runtime_scope \<Rightarrow> string \<Rightarrow> string \<Rightarrow> string \<Rightarrow> string \<Rightarrow> task_status \<Rightarrow> string \<Rightarrow> task_row" where
  "new_task scope fresh goal source requested_by status now =
     \<lparr>tk_task_id = ''task-'' @ fresh, tk_scope_key = sc_key scope, tk_revision = 1, tk_goal_text = goal,
      tk_source = source, tk_requested_by = bounded_text 128 requested_by, tk_status = status,
      tk_completion_authority = CA_NONE, tk_active_plan_id = None, tk_latest_checkpoint_id = None,
      tk_created_at = now, tk_updated_at = now\<rparr>"

definition create_task ::
  "runtime_scope \<Rightarrow> string \<Rightarrow> string \<Rightarrow> string \<Rightarrow> string \<Rightarrow> task_status \<Rightarrow> string \<Rightarrow> runtime_store
   \<Rightarrow> (store_error + task_row) \<times> runtime_store" where
  "create_task scope fresh goal_text source requested_by status now s =
     (case required_text ''goal_text'' 4000 goal_text of
        Inl e \<Rightarrow> (Inl e, s)
      | Inr goal \<Rightarrow>
          (case register_scope scope s of
             (Some e, s1) \<Rightarrow> (Inl e, s1)
           | (None, s1) \<Rightarrow>
               (case required_text ''source'' 128 source of
                  Inl e \<Rightarrow> (Inl e, s1)
                | Inr src \<Rightarrow>
                    (let t = new_task scope fresh goal src requested_by status now
                     in case insert_task t s1 of
                       None \<Rightarrow> (Inl (ForegroundExists (sc_key scope)), s1)
                     | Some s2 \<Rightarrow> (Inr t, s2)))))"

definition cancel_foreground :: "runtime_scope \<Rightarrow> string \<Rightarrow> task_row \<Rightarrow> task_row" where
  "cancel_foreground scope now t =
     (if tk_scope_key t = sc_key scope \<and> foreground t
      then t\<lparr>tk_status := TK_CANCELLED, tk_completion_authority := CA_HUMAN, tk_revision := tk_revision t + 1,
             tk_updated_at := now\<rparr>
      else t)"

definition replace_foreground_task ::
  "runtime_scope \<Rightarrow> string \<Rightarrow> string \<Rightarrow> string \<Rightarrow> string \<Rightarrow> string \<Rightarrow> runtime_store
   \<Rightarrow> (store_error + task_row) \<times> runtime_store" where
  "replace_foreground_task scope fresh goal_text source requested_by now s =
     (case required_text ''goal_text'' 4000 goal_text of
        Inl e \<Rightarrow> (Inl e, s)
      | Inr goal \<Rightarrow>
          (case register_scope scope s of
             (Some e, s1) \<Rightarrow> (Inl e, s1)
           | (None, s1) \<Rightarrow>
               (case required_text ''source'' 128 source of
                  Inl e \<Rightarrow> (Inl e, s1)
                | Inr src \<Rightarrow>
                    (let t = new_task scope fresh goal src requested_by TK_RUNNING now
                     in case insert_task t (s1\<lparr>st_tasks := map (cancel_foreground scope now) (st_tasks s1)\<rparr>) of
                       None \<Rightarrow> (Inl IntegrityViolated, s1)
                     | Some s2 \<Rightarrow> (Inr t, s2)))))"

text \<open>\<open>ORDER BY updated_at DESC, task_id DESC LIMIT 1\<close>\<close>

definition get_foreground_task :: "runtime_scope \<Rightarrow> runtime_store \<Rightarrow> task_row option" where
  "get_foreground_task scope s =
     (case filter (\<lambda>t. tk_scope_key t = sc_key scope \<and> foreground t) (st_tasks s) of
        [] \<Rightarrow> None
      | rows \<Rightarrow> Some (last (sort_key tk_updated_at (sort_key tk_task_id rows))))"

text \<open>
  \<open>UPDATE tasks SET ... WHERE task_id = ? AND revision = ?\<close> with the row count check: no row is a
  conflict, and a row that would break the index aborts the statement.
\<close>

definition update_task ::
  "string \<Rightarrow> int \<Rightarrow> (task_row \<Rightarrow> task_row) \<Rightarrow> runtime_store \<Rightarrow> store_error + runtime_store" where
  "update_task task_id expected_revision f s =
     (let hit = (\<lambda>t. tk_task_id t = task_id \<and> tk_revision t = expected_revision);
          rows = map (\<lambda>t. if hit t then f t else t) (st_tasks s)
      in if \<not> one_foreground rows then Inl IntegrityViolated
         else if length (filter hit (st_tasks s)) \<noteq> 1 then Inl (TaskRevisionConflict task_id expected_revision)
         else Inr (s\<lparr>st_tasks := rows\<rparr>))"

definition read_task :: "string \<Rightarrow> runtime_store \<Rightarrow> (store_error + task_row) \<times> runtime_store" where
  "read_task task_id s = (case get_task task_id s of None \<Rightarrow> (Inl AssertionFailed, s) | Some t \<Rightarrow> (Inr t, s))"

definition transition_task ::
  "string \<Rightarrow> int \<Rightarrow> task_status \<Rightarrow> completion_authority option \<Rightarrow> string \<Rightarrow> runtime_store
   \<Rightarrow> (store_error + task_row) \<times> runtime_store" where
  "transition_task task_id expected_revision status authority now s =
     (case update_task task_id expected_revision
             (\<lambda>t. t\<lparr>tk_status := status,
                    tk_completion_authority := (case authority of None \<Rightarrow> tk_completion_authority t | Some a \<Rightarrow> a),
                    tk_revision := tk_revision t + 1, tk_updated_at := now\<rparr>) s of
        Inl e \<Rightarrow> (Inl e, s)
      | Inr s1 \<Rightarrow> read_task task_id s1)"

section \<open>Plans\<close>

definition step_rows :: "string \<Rightarrow> string \<Rightarrow> plan_step list \<Rightarrow> plan_step_row list" where
  "step_rows plan_id now steps =
     map (\<lambda>(i, p). \<lparr>sp_title = sp_title p, sp_status = sp_status p, sp_evidence = sp_evidence p,
            sp_blocker = sp_blocker p, sp_plan_id = plan_id, sp_ordinal = i, sp_updated_at = now\<rparr>)
       (enumerate 0 steps)"

definition get_plan :: "string \<Rightarrow> runtime_store \<Rightarrow> (plan_row \<times> plan_step_row list) option" where
  "get_plan task_id s =
     map_option (\<lambda>p. (p, sort_key sp_ordinal (filter (\<lambda>r. sp_plan_id r = pn_plan_id p) (st_steps s))))
       (find (\<lambda>p. pn_task_id p = task_id) (st_plans s))"

definition read_plan ::
  "string \<Rightarrow> runtime_store \<Rightarrow> (store_error + plan_row \<times> plan_step_row list) \<times> runtime_store" where
  "read_plan task_id s = (case get_plan task_id s of None \<Rightarrow> (Inl AssertionFailed, s) | Some p \<Rightarrow> (Inr p, s))"

definition update_plan ::
  "(json \<Rightarrow> string) \<Rightarrow> string \<Rightarrow> int \<Rightarrow> string \<Rightarrow> json list \<Rightarrow> string \<Rightarrow> string \<Rightarrow> runtime_store
   \<Rightarrow> (store_error + plan_row \<times> plan_step_row list) \<times> runtime_store" where
  "update_plan show_other task_id expected_revision summary raw_steps fresh now s =
     (case normalize_plan_steps show_other raw_steps of
        Inl e \<Rightarrow> (Inl e, s)
      | Inr steps \<Rightarrow>
          (case get_task task_id s of
             None \<Rightarrow> (Inl (TaskMissing task_id), s)
           | Some t \<Rightarrow>
               (case tk_active_plan_id t of
                  None \<Rightarrow>
                    (if expected_revision \<noteq> 0 then (Inl (PlanRevisionConflict task_id expected_revision 0), s)
                     else let plan_id = ''plan-'' @ fresh
                     in if plan_id \<in> set (map pn_plan_id (st_plans s)) then (Inl IntegrityViolated, s)
                        else read_plan task_id (s\<lparr>
                          st_plans := st_plans s @ [\<lparr>pn_plan_id = plan_id, pn_task_id = task_id, pn_revision = 1,
                            pn_summary = bounded_text 4000 summary, pn_created_at = now, pn_updated_at = now\<rparr>],
                          st_tasks := map (\<lambda>r. if tk_task_id r = task_id
                            then r\<lparr>tk_active_plan_id := Some plan_id, tk_revision := tk_revision r + 1, tk_updated_at := now\<rparr>
                            else r) (st_tasks s),
                          st_steps := st_steps s @ step_rows plan_id now steps\<rparr>))
                | Some plan_id \<Rightarrow>
                    (case find (\<lambda>p. pn_plan_id p = plan_id) (st_plans s) of
                       None \<Rightarrow> (Inl (PlanMissing task_id plan_id), s)
                     | Some p \<Rightarrow>
                         (if pn_revision p \<noteq> expected_revision
                          then (Inl (PlanRevisionConflict plan_id expected_revision (pn_revision p)), s)
                          else read_plan task_id (s\<lparr>
                            st_plans := map (\<lambda>r. if pn_plan_id r = plan_id
                              then r\<lparr>pn_revision := pn_revision p + 1, pn_summary := bounded_text 4000 summary,
                                     pn_updated_at := now\<rparr>
                              else r) (st_plans s),
                            st_steps := filter (\<lambda>r. sp_plan_id r \<noteq> plan_id) (st_steps s)
                              @ step_rows plan_id now steps\<rparr>))))))"

section \<open>Checkpoints\<close>

fun checkpoint_status :: "disposition \<Rightarrow> task_status" where
  "checkpoint_status DP_CONTINUE = TK_RUNNING"
| "checkpoint_status DP_WAIT_EVENT = TK_WAITING_EVENT"
| "checkpoint_status DP_YIELD = TK_YIELDED"
| "checkpoint_status DP_COMPLETE = TK_WAITING_EVENT"

definition get_checkpoint :: "string \<Rightarrow> runtime_store \<Rightarrow> checkpoint_row option" where
  "get_checkpoint checkpoint_id s = find (\<lambda>c. ck_checkpoint_id c = checkpoint_id) (st_checkpoints s)"

record checkpoint_input =
  ci_disposition :: disposition
  ci_summary :: string
  ci_next_step :: string
  ci_evidence :: "string list"
  ci_wait_for :: "string list"
  ci_body_fingerprint :: "json_object option"
  ci_continuation :: "continuation_contract option"

definition create_checkpoint ::
  "string \<Rightarrow> int \<Rightarrow> checkpoint_input \<Rightarrow> string \<Rightarrow> string \<Rightarrow> runtime_store
   \<Rightarrow> (store_error + task_row \<times> checkpoint_row) \<times> runtime_store" where
  "create_checkpoint task_id expected_revision c fresh now s =
     (let checkpoint_id = ''checkpoint-'' @ fresh
      in case update_task task_id expected_revision
                (\<lambda>t. t\<lparr>tk_latest_checkpoint_id := Some checkpoint_id, tk_status := checkpoint_status (ci_disposition c),
                       tk_revision := tk_revision t + 1, tk_updated_at := now\<rparr>) s of
        Inl e \<Rightarrow> (Inl e, s)
      | Inr s1 \<Rightarrow>
          (case required_text ''summary'' 4000 (ci_summary c) of
             Inl e \<Rightarrow> (Inl e, s)
           | Inr summary \<Rightarrow>
               (if get_checkpoint checkpoint_id s \<noteq> None then (Inl IntegrityViolated, s)
                else let row = \<lparr>ck_checkpoint_id = checkpoint_id, ck_task_id = task_id,
                            ck_revision = expected_revision + 1, ck_disposition = ci_disposition c,
                            ck_summary = summary, ck_next_step = bounded_text 2000 (ci_next_step c),
                            ck_evidence = bounded_texts 32 1000 (ci_evidence c),
                            ck_wait_for = bounded_texts 16 500 (ci_wait_for c),
                            ck_body_fingerprint = ci_body_fingerprint c, ck_continuation = ci_continuation c,
                            ck_created_at = now\<rparr>;
                         s2 = s1\<lparr>st_checkpoints := st_checkpoints s1 @ [row]\<rparr>
                in case get_task task_id s2 of
                  None \<Rightarrow> (Inl AssertionFailed, s2)
                | Some t \<Rightarrow> (Inr (t, row), s2))))"

definition get_latest_checkpoint :: "string \<Rightarrow> runtime_store \<Rightarrow> checkpoint_row option" where
  "get_latest_checkpoint task_id s =
     (case get_task task_id s of
        None \<Rightarrow> None
      | Some t \<Rightarrow> (case tk_latest_checkpoint_id t of None \<Rightarrow> None | Some i \<Rightarrow> get_checkpoint i s))"

definition list_task_checkpoints :: "string \<Rightarrow> runtime_store \<Rightarrow> checkpoint_row list" where
  "list_task_checkpoints task_id s =
     sort_key ck_revision (sort_key ck_created_at (filter (\<lambda>c. ck_task_id c = task_id) (st_checkpoints s)))"

section \<open>Continuation budgets\<close>

definition approach_is :: "string \<Rightarrow> string \<Rightarrow> string \<Rightarrow> approach_row \<Rightarrow> bool" where
  "approach_is scope_key task_id approach_key a \<longleftrightarrow>
     cv_scope_key a = scope_key \<and> cv_task_id a = task_id \<and> cv_approach_key a = approach_key"

text \<open>\<open>INSERT OR IGNORE\<close> under the primary keys of the two tables\<close>

definition insert_approach :: "approach_row \<Rightarrow> approach_row list \<Rightarrow> approach_row list" where
  "insert_approach a rows =
     (if list_ex (approach_is (cv_scope_key a) (cv_task_id a) (cv_approach_key a)) rows then rows else rows @ [a])"

definition debit :: "string \<Rightarrow> string \<Rightarrow> string \<Rightarrow> int \<Rightarrow> string \<Rightarrow> approach_row list \<Rightarrow> approach_row list" where
  "debit scope_key task_id approach_key amount now =
     map (\<lambda>a. if approach_is scope_key task_id approach_key a
              then a\<lparr>cv_consumed_epochs := cv_consumed_epochs a + amount, cv_updated_at := now\<rparr> else a)"

definition current_contract :: "runtime_scope \<Rightarrow> string \<Rightarrow> string \<Rightarrow> runtime_store \<Rightarrow> continuation_contract option" where
  "current_contract scope checkpoint_id task_id s =
     do {
       c \<leftarrow> get_checkpoint checkpoint_id s;
       t \<leftarrow> get_task task_id s;
       if ck_task_id c = task_id \<and> tk_scope_key t = sc_key scope \<and> tk_latest_checkpoint_id t = Some checkpoint_id
       then ck_continuation c else None
     }"

definition settled_tables ::
  "runtime_scope \<Rightarrow> string \<Rightarrow> string \<Rightarrow> string \<Rightarrow> string \<Rightarrow> int \<Rightarrow> int \<Rightarrow> string \<Rightarrow> runtime_store \<Rightarrow> runtime_store" where
  "settled_tables scope checkpoint_id task_id approach_key clean_key budget_limit consumed now s =
     (let approaches = insert_approach \<lparr>cv_scope_key = sc_key scope, cv_task_id = task_id,
            cv_approach_key = clean_key, cv_budget_limit = max 1 budget_limit,
            cv_consumed_epochs = 0, cv_updated_at = now\<rparr> (st_approaches s)
      in if list_ex (\<lambda>r. cs_checkpoint_id r = checkpoint_id) (st_settlements s) then s\<lparr>st_approaches := approaches\<rparr>
         else s\<lparr>st_approaches := debit (sc_key scope) task_id approach_key consumed now approaches,
                st_settlements := st_settlements s @ [\<lparr>cs_checkpoint_id = checkpoint_id,
                  cs_scope_key = sc_key scope, cs_task_id = task_id, cs_approach_key = approach_key,
                  cs_consumed_epochs = consumed, cs_settled_at = now\<rparr>]\<rparr>)"

definition settle_continuation_approach ::
  "runtime_scope \<Rightarrow> string \<Rightarrow> string \<Rightarrow> string \<Rightarrow> int \<Rightarrow> int \<Rightarrow> string \<Rightarrow> runtime_store
   \<Rightarrow> (store_error + (int \<times> int \<times> int) option) \<times> runtime_store" where
  "settle_continuation_approach scope checkpoint_id task_id approach_key budget_limit consumed_epochs now s =
     (case current_contract scope checkpoint_id task_id s of
        None \<Rightarrow> (Inr None, s)
      | Some contract \<Rightarrow>
          (if cc_approach_key contract \<noteq> approach_key then (Inr None, s)
           else case required_text ''approach_key'' 256 approach_key of
             Inl e \<Rightarrow> (Inl e, s)
           | Inr clean_key \<Rightarrow>
               (let s1 = settled_tables scope checkpoint_id task_id approach_key clean_key budget_limit
                      (max 0 consumed_epochs) now s
                in case find (approach_is (sc_key scope) task_id approach_key) (st_approaches s1) of
                  None \<Rightarrow> (Inl AssertionFailed, s)
                | Some a \<Rightarrow>
                    (Inr (Some (cv_budget_limit a, cv_consumed_epochs a,
                       max 0 (cv_budget_limit a - cv_consumed_epochs a))), s1))))"

text \<open>The joined row of the budget query, where the checkpoint may still spend epochs.\<close>

definition spendable ::
  "runtime_scope \<Rightarrow> string \<Rightarrow> runtime_store
   \<Rightarrow> (task_row \<times> continuation_contract option \<times> settlement_row \<times> approach_row) option" where
  "spendable scope checkpoint_id s =
     do {
       c \<leftarrow> get_checkpoint checkpoint_id s;
       t \<leftarrow> get_task (ck_task_id c) s;
       latest_id \<leftarrow> tk_latest_checkpoint_id t;
       latest \<leftarrow> get_checkpoint latest_id s;
       r \<leftarrow> find (\<lambda>r. cs_checkpoint_id r = checkpoint_id) (st_settlements s);
       a \<leftarrow> find (approach_is (cs_scope_key r) (cs_task_id r) (cs_approach_key r)) (st_approaches s);
       if tk_scope_key t = sc_key scope \<and> ck_disposition c = DP_CONTINUE \<and> tk_status t = TK_RUNNING
          \<and> (latest_id = checkpoint_id
             \<or> ck_disposition latest = DP_COMPLETE \<and> ck_revision latest = ck_revision c + 1)
       then Some (t, ck_continuation c, r, a) else None
     }"

definition reserve_continuation_epoch ::
  "runtime_scope \<Rightarrow> string \<Rightarrow> string \<Rightarrow> string \<Rightarrow> runtime_store \<Rightarrow> (store_error + bool) \<times> runtime_store" where
  "reserve_continuation_epoch scope checkpoint_id raw_epoch_id now s =
     (case required_text ''epoch_id'' 256 raw_epoch_id of
        Inl e \<Rightarrow> (Inl e, s)
      | Inr epoch_id \<Rightarrow>
          (case find (\<lambda>r. ce_epoch_id r = epoch_id) (st_reservations s) of
             Some r \<Rightarrow> (Inr (ce_scope_key r = sc_key scope \<and> ce_checkpoint_id r = checkpoint_id), s)
           | None \<Rightarrow>
               (case spendable scope checkpoint_id s of
                  None \<Rightarrow> (Inr False, s)
                | Some (t, None, r, a) \<Rightarrow> (Inr False, s)
                | Some (t, Some contract, r, a) \<Rightarrow>
                    (if cs_consumed_epochs r \<ge> cc_bounded_epoch_budget contract
                        \<or> cv_consumed_epochs a \<ge> cv_budget_limit a
                     then (Inr False, s)
                     else (Inr True, s\<lparr>
                       st_reservations := st_reservations s @ [\<lparr>ce_epoch_id = epoch_id,
                         ce_scope_key = sc_key scope, ce_checkpoint_id = checkpoint_id\<rparr>],
                       st_settlements := map (\<lambda>x. if cs_checkpoint_id x = checkpoint_id
                         then x\<lparr>cs_consumed_epochs := cs_consumed_epochs x + 1\<rparr> else x) (st_settlements s),
                       st_approaches := debit (sc_key scope) (tk_task_id t) (cc_approach_key contract) 1 now
                         (st_approaches s)\<rparr>)))))"

end
