(* ===== verification/Task_Workspace.thy ===== *)
theory Task_Workspace
  imports Task_Store
begin

text \<open>
  \<open>TaskWorkspace\<close> of \<open>minebot/app/tasks.py\<close> over the store, and what any sequence of its operations,
  of budget settlements and of epoch reservations keeps true of the tables.
\<close>

section \<open>The facade\<close>

definition require_task :: "runtime_scope \<Rightarrow> runtime_store \<Rightarrow> store_error + task_row" where
  "require_task scope s =
     (case get_foreground_task scope s of None \<Rightarrow> Inl NoActiveTask | Some t \<Rightarrow> Inr t)"

definition move_current ::
  "runtime_scope \<Rightarrow> task_status \<Rightarrow> completion_authority option \<Rightarrow> string \<Rightarrow> runtime_store
   \<Rightarrow> (store_error + task_row option) \<times> runtime_store" where
  "move_current scope status authority now s =
     (case get_foreground_task scope s of
        None \<Rightarrow> (Inr None, s)
      | Some t \<Rightarrow> map_prod (map_sum id Some) id (transition_task (tk_task_id t) (tk_revision t) status authority now s))"

definition pause :: "runtime_scope \<Rightarrow> string \<Rightarrow> runtime_store \<Rightarrow> (store_error + task_row option) \<times> runtime_store" where
  "pause scope = move_current scope TK_PAUSED None"

definition resume :: "runtime_scope \<Rightarrow> string \<Rightarrow> runtime_store \<Rightarrow> (store_error + task_row option) \<times> runtime_store" where
  "resume scope = move_current scope TK_RUNNING None"

definition cancel :: "runtime_scope \<Rightarrow> string \<Rightarrow> runtime_store \<Rightarrow> (store_error + task_row option) \<times> runtime_store" where
  "cancel scope = move_current scope TK_CANCELLED (Some CA_HUMAN)"

definition complete_task ::
  "runtime_scope \<Rightarrow> completion_authority \<Rightarrow> string \<Rightarrow> runtime_store
   \<Rightarrow> (store_error + task_row option) \<times> runtime_store" where
  "complete_task scope authority = move_current scope TK_COMPLETED (Some authority)"

definition workspace_checkpoint ::
  "runtime_scope \<Rightarrow> int \<Rightarrow> checkpoint_input \<Rightarrow> string \<Rightarrow> string \<Rightarrow> runtime_store
   \<Rightarrow> (store_error + task_row \<times> checkpoint_row) \<times> runtime_store" where
  "workspace_checkpoint scope expected_revision c fresh now s =
     (case require_task scope s of
        Inl e \<Rightarrow> (Inl e, s)
      | Inr t \<Rightarrow>
          (if (ci_disposition c = DP_CONTINUE) \<noteq> (ci_continuation c \<noteq> None)
           then (Inl (BadValue ''continue checkpoints require exactly one continuation contract''), s)
           else if ci_disposition c = DP_COMPLETE \<and> \<not> list_ex (\<lambda>item. strip item \<noteq> []) (ci_evidence c)
           then (Inl (BadValue ''complete checkpoints require bounded completion evidence''), s)
           else if tk_revision t \<noteq> expected_revision
           then (Inl (TaskRevisionConflict (tk_task_id t) expected_revision), s)
           else create_checkpoint (tk_task_id t) expected_revision c fresh now s))"

definition yield_input :: "string \<Rightarrow> string list \<Rightarrow> json_object option \<Rightarrow> checkpoint_input" where
  "yield_input summary evidence fingerprint =
     \<lparr>ci_disposition = DP_YIELD, ci_summary = summary, ci_next_step = [], ci_evidence = evidence,
      ci_wait_for = [], ci_body_fingerprint = fingerprint, ci_continuation = None\<rparr>"

definition yield_without_continuation ::
  "runtime_scope \<Rightarrow> json_object option \<Rightarrow> string \<Rightarrow> string \<Rightarrow> runtime_store
   \<Rightarrow> (store_error + (task_row \<times> checkpoint_row) option) \<times> runtime_store" where
  "yield_without_continuation scope fingerprint fresh now s =
     (case get_foreground_task scope s of
        None \<Rightarrow> (Inr None, s)
      | Some t \<Rightarrow>
          (if tk_status t \<noteq> TK_RUNNING then (Inr None, s)
           else map_prod (map_sum id Some) id (workspace_checkpoint scope (tk_revision t)
             (yield_input ''model_final_without_continuation_after_boundary_retry''
                [''bounded_task_boundary_retry_exhausted''] fingerprint) fresh now s)))"

definition reject_continuation ::
  "runtime_scope \<Rightarrow> string \<Rightarrow> string list \<Rightarrow> json_object option \<Rightarrow> string \<Rightarrow> string \<Rightarrow> runtime_store
   \<Rightarrow> (store_error + (task_row \<times> checkpoint_row) option) \<times> runtime_store" where
  "reject_continuation scope reason evidence fingerprint fresh now s =
     (case get_foreground_task scope s of
        None \<Rightarrow> (Inr None, s)
      | Some t \<Rightarrow> map_prod (map_sum id Some) id
          (workspace_checkpoint scope (tk_revision t) (yield_input reason evidence fingerprint) fresh now s))"

definition workspace_update_plan ::
  "(json \<Rightarrow> string) \<Rightarrow> runtime_scope \<Rightarrow> int \<Rightarrow> string \<Rightarrow> json list \<Rightarrow> string \<Rightarrow> string \<Rightarrow> runtime_store
   \<Rightarrow> (store_error + plan_row \<times> plan_step_row list) \<times> runtime_store" where
  "workspace_update_plan show_other scope expected_revision summary raw_steps fresh now s =
     (case require_task scope s of
        Inl e \<Rightarrow> (Inl e, s)
      | Inr t \<Rightarrow> update_plan show_other (tk_task_id t) expected_revision summary raw_steps fresh now s)"

definition completion_requested :: "runtime_scope \<Rightarrow> runtime_store \<Rightarrow> bool" where
  "completion_requested scope s =
     (case get_foreground_task scope s of
        None \<Rightarrow> False
      | Some t \<Rightarrow>
          (if tk_status t \<noteq> TK_WAITING_EVENT then False
           else case get_latest_checkpoint (tk_task_id t) s of
             None \<Rightarrow> False
           | Some c \<Rightarrow> ck_disposition c = DP_COMPLETE))"

definition completion_review_budget_owner :: "runtime_scope \<Rightarrow> runtime_store \<Rightarrow> string option" where
  "completion_review_budget_owner scope s =
     (case get_foreground_task scope s of
        None \<Rightarrow> None
      | Some t \<Rightarrow>
          (if tk_status t \<noteq> TK_WAITING_EVENT then None
           else case rev (list_task_checkpoints (tk_task_id t) s) of
             pending # owner # _ \<Rightarrow>
               (if ck_disposition pending \<noteq> DP_COMPLETE \<or> ck_disposition owner \<noteq> DP_CONTINUE
                   \<or> ck_continuation owner = None then None
                else Some (ck_checkpoint_id owner))
           | _ \<Rightarrow> None))"

section \<open>Operations\<close>

datatype task_op =
    Start string string string string string
  | Replace string string string string string
  | Pause string
  | Resume string
  | Cancel string
  | Complete completion_authority string
  | YieldTask "json_object option" string string
  | Reject string "string list" "json_object option" string string
  | UpdatePlan int string "json list" string string
  | Checkpoint int checkpoint_input string string
  | SettleApproach string string string int int string
  | ReserveEpoch string string string

fun task_step :: "(json \<Rightarrow> string) \<Rightarrow> runtime_scope \<times> task_op \<Rightarrow> runtime_store \<Rightarrow> runtime_store" where
  "task_step show_other (scope, Start fresh goal source by now) s =
     snd (create_task scope fresh goal source by TK_RUNNING now s)"
| "task_step show_other (scope, Replace fresh goal source by now) s =
     snd (replace_foreground_task scope fresh goal source by now s)"
| "task_step show_other (scope, Pause now) s = snd (pause scope now s)"
| "task_step show_other (scope, Resume now) s = snd (resume scope now s)"
| "task_step show_other (scope, Cancel now) s = snd (cancel scope now s)"
| "task_step show_other (scope, Complete authority now) s = snd (complete_task scope authority now s)"
| "task_step show_other (scope, YieldTask fingerprint fresh now) s =
     snd (yield_without_continuation scope fingerprint fresh now s)"
| "task_step show_other (scope, Reject reason evidence fingerprint fresh now) s =
     snd (reject_continuation scope reason evidence fingerprint fresh now s)"
| "task_step show_other (scope, UpdatePlan revision summary steps fresh now) s =
     snd (workspace_update_plan show_other scope revision summary steps fresh now s)"
| "task_step show_other (scope, Checkpoint revision c fresh now) s =
     snd (workspace_checkpoint scope revision c fresh now s)"
| "task_step show_other (scope, SettleApproach checkpoint_id task_id key budget consumed now) s =
     snd (settle_continuation_approach scope checkpoint_id task_id key budget consumed now s)"
| "task_step show_other (scope, ReserveEpoch checkpoint_id epoch_id now) s =
     snd (reserve_continuation_epoch scope checkpoint_id epoch_id now s)"

definition task_run :: "(json \<Rightarrow> string) \<Rightarrow> (runtime_scope \<times> task_op) list \<Rightarrow> runtime_store \<Rightarrow> runtime_store" where
  "task_run show_other ops s = foldl (\<lambda>s op. task_step show_other op s) s ops"

lemma task_run_simps [simp]:
  "task_run show_other [] s = s"
  "task_run show_other (op # ops) s = task_run show_other ops (task_step show_other op s)"
  "task_run show_other (xs @ ys) s = task_run show_other ys (task_run show_other xs s)"
  by (simp_all add: task_run_def)

end
