(* ===== verification/Task_Safety.thy ===== *)
theory Task_Safety
  imports Task_Workspace
begin

text \<open>
  What the tables keep under any run of workspace operations: one foreground task per scope,
  settled tasks untouched, revisions that only grow.
\<close>

section \<open>Lookups\<close>

lemma find_map_same: "(\<And>x. P (f x) = P x) \<Longrightarrow> find P (map f xs) = map_option f (find P xs)"
  by (induction xs) auto

lemma find_append: "find P (xs @ ys) = (case find P xs of None \<Rightarrow> find P ys | Some x \<Rightarrow> Some x)"
  by (induction xs) auto

lemma find_SomeD: "find P xs = Some x \<Longrightarrow> P x \<and> x \<in> set xs"
  by (induction xs) (auto split: if_splits)

lemma find_distinct: "distinct (map k xs) \<Longrightarrow> x \<in> set xs \<Longrightarrow> find (\<lambda>y. k y = k x) xs = Some x"
  by (induction xs) (auto simp: rev_image_eqI)

lemma get_task_Some: "get_task i s = Some t \<Longrightarrow> t \<in> set (st_tasks s) \<and> tk_task_id t = i"
  by (auto simp: get_task_def dest: find_SomeD)

lemma get_task_member:
  "distinct (map tk_task_id (st_tasks s)) \<Longrightarrow> t \<in> set (st_tasks s) \<Longrightarrow> get_task (tk_task_id t) s = Some t"
  unfolding get_task_def by (rule find_distinct)

lemma get_task_mapped:
  "(\<And>t. tk_task_id (f t) = tk_task_id t) \<Longrightarrow>
   get_task i (s\<lparr>st_tasks := map f (st_tasks s)\<rparr>) = map_option f (get_task i s)"
  by (simp add: get_task_def find_map_same)

lemma lookups_of_other_tables [simp]:
  "get_task i (s\<lparr>st_checkpoints := c\<rparr>) = get_task i s" "get_task i (s\<lparr>st_plans := p\<rparr>) = get_task i s"
  "get_task i (s\<lparr>st_steps := r\<rparr>) = get_task i s" "get_task i (s\<lparr>st_scopes := x\<rparr>) = get_task i s"
  "get_task i (s\<lparr>st_approaches := a\<rparr>) = get_task i s" "get_task i (s\<lparr>st_settlements := y\<rparr>) = get_task i s"
  "get_task i (s\<lparr>st_reservations := z\<rparr>) = get_task i s"
  "get_plan i (s\<lparr>st_tasks := ts\<rparr>) = get_plan i s" "get_plan i (s\<lparr>st_checkpoints := c\<rparr>) = get_plan i s"
  "get_plan i (s\<lparr>st_scopes := x\<rparr>) = get_plan i s" "get_plan i (s\<lparr>st_approaches := a\<rparr>) = get_plan i s"
  "get_plan i (s\<lparr>st_settlements := y\<rparr>) = get_plan i s" "get_plan i (s\<lparr>st_reservations := z\<rparr>) = get_plan i s"
  "get_checkpoint i (s\<lparr>st_tasks := ts\<rparr>) = get_checkpoint i s" "get_checkpoint i (s\<lparr>st_scopes := x\<rparr>) = get_checkpoint i s"
  "get_checkpoint i (s\<lparr>st_plans := p\<rparr>) = get_checkpoint i s" "get_checkpoint i (s\<lparr>st_steps := r\<rparr>) = get_checkpoint i s"
  "get_checkpoint i (s\<lparr>st_approaches := a\<rparr>) = get_checkpoint i s" "get_checkpoint i (s\<lparr>st_settlements := y\<rparr>) = get_checkpoint i s"
  "get_checkpoint i (s\<lparr>st_reservations := z\<rparr>) = get_checkpoint i s"
  by (simp_all add: get_task_def get_plan_def get_checkpoint_def)

lemma checkpoints_of_other_tables [simp]:
  "list_task_checkpoints i (s\<lparr>st_tasks := ts\<rparr>) = list_task_checkpoints i s"
  "list_task_checkpoints i (s\<lparr>st_plans := p\<rparr>) = list_task_checkpoints i s"
  "list_task_checkpoints i (s\<lparr>st_steps := r\<rparr>) = list_task_checkpoints i s"
  "list_task_checkpoints i (s\<lparr>st_scopes := x\<rparr>) = list_task_checkpoints i s"
  by (simp_all add: list_task_checkpoints_def)

lemma foreground_task_Some:
  assumes "get_foreground_task scope s = Some t"
  shows "t \<in> set (st_tasks s)" "tk_scope_key t = sc_key scope" "foreground t"
proof -
  let ?rows = "filter (\<lambda>t. tk_scope_key t = sc_key scope \<and> foreground t) (st_tasks s)"
  have rows: "?rows \<noteq> []" "t = last (sort_key tk_updated_at (sort_key tk_task_id ?rows))"
    using assms by (auto simp: get_foreground_task_def split: list.splits)
  have "t \<in> set (sort_key tk_updated_at (sort_key tk_task_id ?rows))"
    unfolding rows(2) by (rule last_in_set) (metis rows(1) set_empty set_sort)
  then have "t \<in> set ?rows" by (simp only: set_sort)
  then show "t \<in> set (st_tasks s)" "tk_scope_key t = sc_key scope" "foreground t" by auto
qed

section \<open>The invariant\<close>

text \<open>
  Ids are unique, no scope has two foreground tasks, and the active plan of a task is a plan of
  that task.
\<close>

definition tables_ok :: "runtime_store \<Rightarrow> bool" where
  "tables_ok s \<longleftrightarrow>
     distinct (map tk_task_id (st_tasks s)) \<and> one_foreground (st_tasks s) \<and>
     distinct (map pn_plan_id (st_plans s)) \<and>
     (\<forall>t\<in>set (st_tasks s). \<forall>p. tk_active_plan_id t = Some p \<longrightarrow>
        (\<exists>q\<in>set (st_plans s). pn_plan_id q = p \<and> pn_task_id q = tk_task_id t))"

text \<open>
  What one step may do: tasks keep their scope, their revision does not fall, one that is not in
  the foreground keeps its row, its plan and its checkpoints, and checkpoints stay as written.
\<close>

definition moves_on :: "runtime_store \<Rightarrow> runtime_store \<Rightarrow> bool" where
  "moves_on s s' \<longleftrightarrow>
     (\<forall>i t. get_task i s = Some t \<longrightarrow>
        (\<exists>t'. get_task i s' = Some t' \<and> tk_scope_key t' = tk_scope_key t \<and> tk_revision t \<le> tk_revision t' \<and>
           (\<not> foreground t \<longrightarrow> t' = t \<and> get_plan i s' = get_plan i s \<and>
              list_task_checkpoints i s' = list_task_checkpoints i s))) \<and>
     (\<forall>i c. get_checkpoint i s = Some c \<longrightarrow> get_checkpoint i s' = Some c)"

lemma moves_on_refl [simp]: "moves_on s s"
  by (simp add: moves_on_def)

lemma moves_on_trans:
  assumes "moves_on a b" and "moves_on b c"
  shows "moves_on a c"
  unfolding moves_on_def
proof (intro conjI allI impI)
  fix i t
  assume "get_task i a = Some t"
  then obtain t1 where 1: "get_task i b = Some t1" "tk_scope_key t1 = tk_scope_key t" "tk_revision t \<le> tk_revision t1"
    "\<not> foreground t \<longrightarrow> t1 = t \<and> get_plan i b = get_plan i a \<and> list_task_checkpoints i b = list_task_checkpoints i a"
    using assms(1) unfolding moves_on_def by blast
  then obtain t2 where "get_task i c = Some t2" "tk_scope_key t2 = tk_scope_key t1" "tk_revision t1 \<le> tk_revision t2"
    "\<not> foreground t1 \<longrightarrow> t2 = t1 \<and> get_plan i c = get_plan i b \<and> list_task_checkpoints i c = list_task_checkpoints i b"
    using assms(2) unfolding moves_on_def by blast
  with 1 show "\<exists>t'. get_task i c = Some t' \<and> tk_scope_key t' = tk_scope_key t \<and> tk_revision t \<le> tk_revision t' \<and>
      (\<not> foreground t \<longrightarrow> t' = t \<and> get_plan i c = get_plan i a \<and> list_task_checkpoints i c = list_task_checkpoints i a)"
    by (cases "foreground t") auto
next
  fix i x
  assume "get_checkpoint i a = Some x"
  then show "get_checkpoint i c = Some x" using assms unfolding moves_on_def by blast
qed

lemma tables_ok_budget [simp]:
  "tables_ok (s\<lparr>st_approaches := a\<rparr>) = tables_ok s" "tables_ok (s\<lparr>st_settlements := y\<rparr>) = tables_ok s"
  "tables_ok (s\<lparr>st_reservations := z\<rparr>) = tables_ok s" "tables_ok (s\<lparr>st_scopes := x\<rparr>) = tables_ok s"
  "tables_ok (s\<lparr>st_checkpoints := c\<rparr>) = tables_ok s"
  by (simp_all add: tables_ok_def)

section \<open>Steps\<close>

lemma register_scope_cases:
  "snd (register_scope scope s) = s \<or>
   (\<exists>x. register_scope scope s = (None, s\<lparr>st_scopes := x\<rparr>))"
  by (auto simp: register_scope_def Let_def split: option.splits)

lemma same_tasks_advance:
  assumes "st_tasks s' = st_tasks s" "st_plans s' = st_plans s" "st_steps s' = st_steps s" "st_checkpoints s' = st_checkpoints s"
  shows "moves_on s s' \<and> tables_ok s' = tables_ok s"
  using assms by (simp add: moves_on_def tables_ok_def get_task_def get_plan_def get_checkpoint_def list_task_checkpoints_def)

lemma insert_task_step:
  assumes "tables_ok s" and "insert_task t s = Some s'" and "tk_active_plan_id t = None"
  shows "tables_ok s' \<and> moves_on s s' \<and> get_task (tk_task_id t) s' = Some t"
proof -
  have new: "tk_task_id t \<notin> set (map tk_task_id (st_tasks s))" "one_foreground (st_tasks s @ [t])"
      and s': "s' = s\<lparr>st_tasks := st_tasks s @ [t]\<rparr>"
    using assms(2) by (auto simp: insert_task_def Let_def split: if_splits)
  have "find (\<lambda>x. tk_task_id x = tk_task_id t) (st_tasks s) = None"
    unfolding find_None_iff using new(1) by (metis image_eqI list.set_map)
  then show ?thesis using assms(1,3) new
    by (auto simp: s' tables_ok_def moves_on_def get_task_def find_append list_task_checkpoints_def)
qed

lemma update_task_Inr:
  assumes "update_task i r f s = Inr s'"
  shows "s' = s\<lparr>st_tasks := map (\<lambda>t. if tk_task_id t = i \<and> tk_revision t = r then f t else t) (st_tasks s)\<rparr>"
    "one_foreground (st_tasks s')" "\<exists>t\<in>set (st_tasks s). tk_task_id t = i \<and> tk_revision t = r"
proof -
  let ?hit = "\<lambda>t. tk_task_id t = i \<and> tk_revision t = r"
  have l: "length (filter ?hit (st_tasks s)) = 1" and "s' = s\<lparr>st_tasks := map (\<lambda>t. if ?hit t then f t else t) (st_tasks s)\<rparr>"
      "one_foreground (map (\<lambda>t. if ?hit t then f t else t) (st_tasks s))"
    using assms by (auto simp: update_task_def Let_def split: if_splits)
  then show "s' = s\<lparr>st_tasks := map (\<lambda>t. if ?hit t then f t else t) (st_tasks s)\<rparr>" "one_foreground (st_tasks s')" by simp_all
  have "filter ?hit (st_tasks s) \<noteq> []" using l by auto
  then show "\<exists>t\<in>set (st_tasks s). ?hit t" by (simp add: filter_empty_conv)
qed

text \<open>A rewriting of task rows that touches foreground rows only.\<close>

lemma map_tasks_step:
  assumes "tables_ok s" and "one_foreground (map f (st_tasks s))"
    and keeps: "\<And>t. tk_task_id (f t) = tk_task_id t" "\<And>t. tk_scope_key (f t) = tk_scope_key t"
      "\<And>t. tk_active_plan_id (f t) = tk_active_plan_id t" "\<And>t. tk_revision t \<le> tk_revision (f t)"
    and still: "\<And>t. t \<in> set (st_tasks s) \<Longrightarrow> \<not> foreground t \<Longrightarrow> f t = t"
  shows "tables_ok (s\<lparr>st_tasks := map f (st_tasks s)\<rparr>) \<and> moves_on s (s\<lparr>st_tasks := map f (st_tasks s)\<rparr>)"
proof -
  let ?s = "s\<lparr>st_tasks := map f (st_tasks s)\<rparr>"
  have ids: "map (tk_task_id \<circ> f) (st_tasks s) = map tk_task_id (st_tasks s)" using keeps(1) by (intro map_cong) simp_all
  have look: "get_task j ?s = map_option f (get_task j s)" for j
    by (rule get_task_mapped) (rule keeps(1))
  have "tables_ok ?s" using assms(1,2) by (auto simp: tables_ok_def ids keeps)
  moreover have "\<exists>t'. get_task j ?s = Some t' \<and> tk_scope_key t' = tk_scope_key t \<and> tk_revision t \<le> tk_revision t' \<and>
        (\<not> foreground t \<longrightarrow> t' = t \<and> get_plan j ?s = get_plan j s \<and> list_task_checkpoints j ?s = list_task_checkpoints j s)"
    if "get_task j s = Some t" for j t
    using look [of j] that keeps still get_task_Some [OF that] by auto
  ultimately show ?thesis by (simp add: moves_on_def)
qed

lemma change_task_step:
  assumes "tables_ok s" and t0: "get_task i s = Some t0" "foreground t0"
    and keeps: "\<And>t. tk_task_id (f t) = tk_task_id t" "\<And>t. tk_scope_key (f t) = tk_scope_key t"
      "\<And>t. tk_active_plan_id (f t) = tk_active_plan_id t" "\<And>t. tk_revision (f t) = tk_revision t + 1"
    and upd: "update_task i r f s = Inr s'"
  shows "tables_ok s'" "moves_on s s'" "get_task i s' = Some (f t0)" "tk_revision t0 = r"
    "s' = s\<lparr>st_tasks := st_tasks s'\<rparr>"
proof -
  note u = update_task_Inr [OF upd]
  let ?f = "\<lambda>t. if tk_task_id t = i \<and> tk_revision t = r then f t else t"
  have d: "distinct (map tk_task_id (st_tasks s))" using assms(1) by (simp add: tables_ok_def)
  have hit: "tk_revision t0 = r" using u(3) get_task_member [OF d] t0(1) by fastforce
  then show "tk_revision t0 = r" .
  have look: "get_task i s' = map_option ?f (get_task i s)"
    unfolding u(1) by (rule get_task_mapped) (simp add: keeps)
  then show "get_task i s' = Some (f t0)" using t0(1) hit get_task_Some [OF t0(1)] by simp
  have one: "one_foreground (map ?f (st_tasks s))" using u(2) unfolding u(1) by simp
  have "?f t = t" if "t \<in> set (st_tasks s)" "\<not> foreground t" for t
    using that get_task_member [OF d that(1)] t0 by auto
  then have "tables_ok (s\<lparr>st_tasks := map ?f (st_tasks s)\<rparr>) \<and> moves_on s (s\<lparr>st_tasks := map ?f (st_tasks s)\<rparr>)"
    using keeps one by (intro map_tasks_step [OF assms(1)]) auto
  then show "tables_ok s'" "moves_on s s'" unfolding u(1) by blast+
  show "s' = s\<lparr>st_tasks := st_tasks s'\<rparr>" unfolding u(1) by simp
qed

lemma register_scope_step:
  "tables_ok s \<Longrightarrow> tables_ok (snd (register_scope scope s)) \<and> moves_on s (snd (register_scope scope s))"
  using register_scope_cases [of scope s] same_tasks_advance [of "snd (register_scope scope s)" s] by auto

lemma create_task_step:
  assumes "tables_ok s"
  shows "tables_ok (snd (create_task scope fresh goal source by_whom status now s)) \<and>
    moves_on s (snd (create_task scope fresh goal source by_whom status now s))"
proof -
  note r = register_scope_step [OF assms, of scope]
  show ?thesis
  proof (cases "create_task scope fresh goal source by_whom status now s")
    case (Pair res s')
    then have "s' = s \<or> s' = snd (register_scope scope s) \<or>
        (\<exists>g src. insert_task (new_task scope fresh g src by_whom status now) (snd (register_scope scope s)) = Some s')"
      by (auto simp: create_task_def Let_def split: sum.splits prod.splits option.splits)
    then show ?thesis
    proof (elim disjE exE)
      fix g src
      assume ins: "insert_task (new_task scope fresh g src by_whom status now) (snd (register_scope scope s)) = Some s'"
      show ?thesis using insert_task_step [OF conjunct1 [OF r] ins] moves_on_trans [OF conjunct2 [OF r]] Pair
        by (auto simp: new_task_def)
    qed (use r assms Pair in auto)
  qed
qed

lemma one_foreground_cancel:
  "one_foreground ts \<Longrightarrow> one_foreground (map (cancel_foreground scope now) ts)"
proof -
  have "filter foreground (map (cancel_foreground scope now) ts) = filter (\<lambda>t. tk_scope_key t \<noteq> sc_key scope) (filter foreground ts)" for ts
    by (induction ts) (auto simp: cancel_foreground_def foreground_def)
  then show "one_foreground ts \<Longrightarrow> one_foreground (map (cancel_foreground scope now) ts)"
    unfolding one_foreground_def by (simp only:) (rule distinct_map_filter)
qed

lemma replace_task_step:
  assumes "tables_ok s"
  shows "tables_ok (snd (replace_foreground_task scope fresh goal source by_whom now s)) \<and>
    moves_on s (snd (replace_foreground_task scope fresh goal source by_whom now s))"
proof -
  note r = register_scope_step [OF assms, of scope]
  let ?s1 = "snd (register_scope scope s)"
  let ?s2 = "?s1\<lparr>st_tasks := map (cancel_foreground scope now) (st_tasks ?s1)\<rparr>"
  have c: "tables_ok ?s2 \<and> moves_on ?s1 ?s2"
    by (rule map_tasks_step [OF conjunct1 [OF r]])
      (use r in \<open>auto simp: cancel_foreground_def tables_ok_def intro: one_foreground_cancel\<close>)
  show ?thesis
  proof (cases "replace_foreground_task scope fresh goal source by_whom now s")
    case (Pair res s')
    then have "s' = s \<or> s' = ?s1 \<or> (\<exists>g src. insert_task (new_task scope fresh g src by_whom TK_RUNNING now) ?s2 = Some s')"
      by (auto simp: replace_foreground_task_def Let_def split: sum.splits prod.splits option.splits)
    then show ?thesis
    proof (elim disjE exE)
      fix g src
      assume ins: "insert_task (new_task scope fresh g src by_whom TK_RUNNING now) ?s2 = Some s'"
      have "tables_ok s' \<and> moves_on ?s2 s'"
        using insert_task_step [OF conjunct1 [OF c] ins] by (auto simp: new_task_def)
      then show ?thesis using moves_on_trans [OF moves_on_trans [OF conjunct2 [OF r] conjunct2 [OF c]]] Pair by auto
    qed (use r assms Pair in auto)
  qed
qed

lemma current_task:
  assumes "tables_ok s" and "get_foreground_task scope s = Some t"
  shows "get_task (tk_task_id t) s = Some t" "foreground t"
  using assms foreground_task_Some [OF assms(2)] get_task_member [of s t] by (simp_all add: tables_ok_def)

lemma move_current_step:
  assumes "tables_ok s"
  shows "tables_ok (snd (move_current scope status authority now s)) \<and> moves_on s (snd (move_current scope status authority now s))"
proof (cases "get_foreground_task scope s")
  case None
  then show ?thesis using assms by (simp add: move_current_def)
next
  case (Some t)
  let ?f = "\<lambda>t. t\<lparr>tk_status := status,
       tk_completion_authority := (case authority of None \<Rightarrow> tk_completion_authority t | Some a \<Rightarrow> a),
       tk_revision := tk_revision t + 1, tk_updated_at := now\<rparr>"
  show ?thesis
  proof (cases "update_task (tk_task_id t) (tk_revision t) ?f s")
    case (Inl e)
    then show ?thesis using assms Some by (simp add: move_current_def transition_task_def map_prod_def)
  next
    case (Inr s')
    have c: "tables_ok s'" "moves_on s s'" "get_task (tk_task_id t) s' = Some (?f t)"
      using change_task_step [OF assms current_task [OF assms Some] _ _ _ _ Inr] by simp_all
    then show ?thesis using Some Inr by (simp add: move_current_def transition_task_def read_task_def map_prod_def)
  qed
qed

lemma create_checkpoint_step:
  assumes "tables_ok s" and "get_task i s = Some t" "foreground t"
  shows "tables_ok (snd (create_checkpoint i r c fresh now s)) \<and> moves_on s (snd (create_checkpoint i r c fresh now s))"
proof -
  let ?f = "\<lambda>t. t\<lparr>tk_latest_checkpoint_id := Some (''checkpoint-'' @ fresh), tk_status := checkpoint_status (ci_disposition c),
       tk_revision := tk_revision t + 1, tk_updated_at := now\<rparr>"
  show ?thesis
  proof (cases "update_task i r ?f s")
    case (Inl e)
    then show ?thesis using assms by (simp add: create_checkpoint_def Let_def)
  next
    case (Inr s1)
    have ch: "tables_ok s1" "moves_on s s1" "get_task i s1 = Some (?f t)" "s1 = s\<lparr>st_tasks := st_tasks s1\<rparr>"
      using change_task_step [OF assms _ _ _ _ Inr] by simp_all
    have "snd (create_checkpoint i r c fresh now s) = s \<or>
        (\<exists>row. snd (create_checkpoint i r c fresh now s) = s1\<lparr>st_checkpoints := st_checkpoints s1 @ [row]\<rparr> \<and>
           ck_task_id row = i)"
      using Inr by (auto simp: create_checkpoint_def Let_def split: sum.splits option.splits)
    then show ?thesis
    proof (elim disjE exE)
      fix row
      assume row: "snd (create_checkpoint i r c fresh now s) = s1\<lparr>st_checkpoints := st_checkpoints s1 @ [row]\<rparr> \<and> ck_task_id row = i"
      let ?s2 = "s1\<lparr>st_checkpoints := st_checkpoints s1 @ [row]\<rparr>"
      have other: "list_task_checkpoints j ?s2 = list_task_checkpoints j s1" if "j \<noteq> i" for j
        using that row by (simp add: list_task_checkpoints_def)
      have kept: "get_checkpoint k ?s2 = Some x" if "get_checkpoint k s = Some x" for k x
      proof -
        have "get_checkpoint k s1 = Some x" using ch(2) that unfolding moves_on_def by blast
        then show ?thesis by (simp add: get_checkpoint_def find_append)
      qed
      have "moves_on s ?s2"
        unfolding moves_on_def
      proof (intro conjI allI impI)
        fix j x
        assume x: "get_task j s = Some x"
        with ch(2) obtain x' where x': "get_task j s1 = Some x'" "tk_scope_key x' = tk_scope_key x" "tk_revision x \<le> tk_revision x'"
          "\<not> foreground x \<longrightarrow> x' = x \<and> get_plan j s1 = get_plan j s \<and> list_task_checkpoints j s1 = list_task_checkpoints j s"
          unfolding moves_on_def by blast
        have "\<not> foreground x \<Longrightarrow> j \<noteq> i" using x assms(2,3) by auto
        then show "\<exists>t'. get_task j ?s2 = Some t' \<and> tk_scope_key t' = tk_scope_key x \<and> tk_revision x \<le> tk_revision t' \<and>
            (\<not> foreground x \<longrightarrow> t' = x \<and> get_plan j ?s2 = get_plan j s \<and> list_task_checkpoints j ?s2 = list_task_checkpoints j s)"
          using x' other by auto
      qed (rule kept)
      then show ?thesis using row ch(1) by simp
    qed (use assms in simp)
  qed
qed

lemma get_plan_of_other_rows:
  assumes "find (\<lambda>p. pn_task_id p = j) ps' = find (\<lambda>p. pn_task_id p = j) (st_plans s)"
    and "\<And>p. p \<in> set (st_plans s) \<Longrightarrow> pn_task_id p = j \<Longrightarrow>
      filter (\<lambda>r. sp_plan_id r = pn_plan_id p) rs' = filter (\<lambda>r. sp_plan_id r = pn_plan_id p) (st_steps s)"
  shows "get_plan j (s\<lparr>st_plans := ps', st_steps := rs'\<rparr>) = get_plan j s"
proof (cases "find (\<lambda>p. pn_task_id p = j) (st_plans s)")
  case None
  then show ?thesis using assms(1) by (simp add: get_plan_def)
next
  case (Some p)
  then show ?thesis using assms find_SomeD [OF Some] by (simp add: get_plan_def)
qed

lemma step_rows_plan: "r \<in> set (step_rows plan_id now steps) \<Longrightarrow> sp_plan_id r = plan_id"
  by (auto simp: step_rows_def)

lemma read_plan_store [simp]: "snd (read_plan i s) = s"
  by (simp add: read_plan_def split: option.split)

lemma new_plan_step:
  assumes ok: "tables_ok s" and t: "get_task i s = Some t" "foreground t" "tk_active_plan_id t = None"
    and p: "pn_task_id p = i" "pn_plan_id p \<notin> set (map pn_plan_id (st_plans s))"
    and s': "s' = s\<lparr>st_plans := st_plans s @ [p], st_tasks := map (\<lambda>r. if tk_task_id r = i
       then r\<lparr>tk_active_plan_id := Some (pn_plan_id p), tk_revision := tk_revision r + 1, tk_updated_at := now\<rparr> else r) (st_tasks s),
       st_steps := st_steps s @ step_rows (pn_plan_id p) now steps\<rparr>"
  shows "tables_ok s' \<and> moves_on s s'"
proof -
  let ?f = "\<lambda>r. if tk_task_id r = i
     then r\<lparr>tk_active_plan_id := Some (pn_plan_id p), tk_revision := tk_revision r + 1, tk_updated_at := now\<rparr> else r"
  have d: "distinct (map tk_task_id (st_tasks s))" using ok by (simp add: tables_ok_def)
  have fg: "map tk_scope_key (filter foreground (map ?f ts)) = map tk_scope_key (filter foreground ts)" for ts
    by (induction ts) (auto simp: foreground_def)
  have ids: "map (tk_task_id \<circ> ?f) (st_tasks s) = map tk_task_id (st_tasks s)" by simp
  have "tables_ok s'"
    using ok p fg [of "st_tasks s"] unfolding tables_ok_def s' by (auto simp: one_foreground_def ids split: if_splits)
  moreover have "moves_on s s'"
    unfolding moves_on_def
  proof (intro conjI allI impI)
    fix j x
    assume x: "get_task j s = Some x"
    have look: "get_task j s' = Some (?f x)"
      using x get_task_mapped [of ?f j s] unfolding s' by (simp add: get_task_def)
    have "get_plan j s' = get_plan j s" if "j \<noteq> i"
    proof -
      have "get_plan j (s\<lparr>st_plans := st_plans s @ [p], st_steps := st_steps s @ step_rows (pn_plan_id p) now steps\<rparr>) = get_plan j s"
        using that p step_rows_plan
        by (intro get_plan_of_other_rows) (fastforce simp: find_append filter_empty_conv split: option.split)+
      then show ?thesis unfolding s' get_plan_def by simp
    qed
    moreover have "\<not> foreground x \<Longrightarrow> j \<noteq> i" using x t by auto
    moreover have "list_task_checkpoints j s' = list_task_checkpoints j s" unfolding s' by (simp add: list_task_checkpoints_def)
    ultimately show "\<exists>t'. get_task j s' = Some t' \<and> tk_scope_key t' = tk_scope_key x \<and> tk_revision x \<le> tk_revision t' \<and>
        (\<not> foreground x \<longrightarrow> t' = x \<and> get_plan j s' = get_plan j s \<and> list_task_checkpoints j s' = list_task_checkpoints j s)"
      using look get_task_Some [OF x] by auto
  next
    fix k c
    assume "get_checkpoint k s = Some c"
    then show "get_checkpoint k s' = Some c" unfolding s' by (simp add: get_checkpoint_def)
  qed
  ultimately show ?thesis ..
qed

lemma rewritten_plan_step:
  assumes ok: "tables_ok s" and t: "get_task i s = Some t" "foreground t" "tk_active_plan_id t = Some plan_id"
    and f: "\<And>p. pn_plan_id (f p) = pn_plan_id p" "\<And>p. pn_task_id (f p) = pn_task_id p"
    and s': "s' = s\<lparr>st_plans := map (\<lambda>r. if pn_plan_id r = plan_id then f r else r) (st_plans s),
       st_steps := filter (\<lambda>r. sp_plan_id r \<noteq> plan_id) (st_steps s) @ step_rows plan_id now steps\<rparr>"
  shows "tables_ok s' \<and> moves_on s s'"
proof -
  let ?f = "\<lambda>r. if pn_plan_id r = plan_id then f r else r"
  obtain q where q: "q \<in> set (st_plans s)" "pn_plan_id q = plan_id" "pn_task_id q = i"
    using ok t get_task_Some [OF t(1)] unfolding tables_ok_def by blast
  have owner: "pn_task_id p = i" if "p \<in> set (st_plans s)" "pn_plan_id p = plan_id" for p
    using that q ok unfolding tables_ok_def distinct_map by (metis inj_onD)
  have ids: "map (pn_plan_id \<circ> ?f) (st_plans s) = map pn_plan_id (st_plans s)" by (simp add: f)
  have "\<exists>q\<in>set (map ?f (st_plans s)). pn_plan_id q = p \<and> pn_task_id q = tk_task_id x"
    if "x \<in> set (st_tasks s)" "tk_active_plan_id x = Some p" for x p
  proof -
    from ok that obtain q where "q \<in> set (st_plans s)" "pn_plan_id q = p" "pn_task_id q = tk_task_id x"
      unfolding tables_ok_def by blast
    then show ?thesis by (intro bexI [of _ "?f q"]) (simp_all add: f)
  qed
  then have "tables_ok s'" using ok unfolding tables_ok_def s' by (simp add: ids del: set_map)
  moreover have "moves_on s s'"
    unfolding moves_on_def
  proof (intro conjI allI impI)
    fix j x
    assume x: "get_task j s = Some x"
    have "get_plan j s' = get_plan j s" if "j \<noteq> i"
      unfolding s'
    proof (rule get_plan_of_other_rows)
      have "find (\<lambda>p. pn_task_id p = j) (map ?f ps) = find (\<lambda>p. pn_task_id p = j) ps"
        if "set ps \<subseteq> set (st_plans s)" for ps
        using that by (induction ps) (use \<open>j \<noteq> i\<close> owner f in auto)
      then show "find (\<lambda>p. pn_task_id p = j) (map ?f (st_plans s)) = find (\<lambda>p. pn_task_id p = j) (st_plans s)" by simp
      fix p
      assume "p \<in> set (st_plans s)" "pn_task_id p = j"
      then have ne: "pn_plan_id p \<noteq> plan_id" using owner that by auto
      then have "filter (\<lambda>r. sp_plan_id r = pn_plan_id p) (step_rows plan_id now steps) = []"
        using step_rows_plan by (fastforce simp: filter_empty_conv)
      moreover have "filter (\<lambda>r. sp_plan_id r = pn_plan_id p) (filter (\<lambda>r. sp_plan_id r \<noteq> plan_id) (st_steps s)) =
          filter (\<lambda>r. sp_plan_id r = pn_plan_id p) (st_steps s)"
        using ne by (auto intro: filter_cong)
      ultimately show "filter (\<lambda>r. sp_plan_id r = pn_plan_id p)
            (filter (\<lambda>r. sp_plan_id r \<noteq> plan_id) (st_steps s) @ step_rows plan_id now steps) =
          filter (\<lambda>r. sp_plan_id r = pn_plan_id p) (st_steps s)"
        by (simp only: filter_append append_Nil2)
    qed
    moreover have "\<not> foreground x \<Longrightarrow> j \<noteq> i" using x t by auto
    ultimately show "\<exists>t'. get_task j s' = Some t' \<and> tk_scope_key t' = tk_scope_key x \<and> tk_revision x \<le> tk_revision t' \<and>
        (\<not> foreground x \<longrightarrow> t' = x \<and> get_plan j s' = get_plan j s \<and> list_task_checkpoints j s' = list_task_checkpoints j s)"
      using x unfolding s' by (auto simp: get_task_def list_task_checkpoints_def)
  next
    fix k c
    assume "get_checkpoint k s = Some c"
    then show "get_checkpoint k s' = Some c" unfolding s' by (simp add: get_checkpoint_def)
  qed
  ultimately show ?thesis ..
qed

lemma workspace_update_plan_step:
  assumes ok: "tables_ok s"
  shows "tables_ok (snd (workspace_update_plan show_other scope r summary raws fresh now s)) \<and>
    moves_on s (snd (workspace_update_plan show_other scope r summary raws fresh now s))"
proof (cases "get_foreground_task scope s")
  case None
  then show ?thesis using ok by (simp add: workspace_update_plan_def require_task_def)
next
  case (Some t)
  note cur = current_task [OF ok Some]
  let ?i = "tk_task_id t"
  have eq: "workspace_update_plan show_other scope r summary raws fresh now s = update_plan show_other ?i r summary raws fresh now s"
    using Some by (simp add: workspace_update_plan_def require_task_def)
  show ?thesis
  proof (cases "snd (update_plan show_other ?i r summary raws fresh now s) = s")
    case True
    then show ?thesis using ok eq by simp
  next
    case False
    then obtain steps where steps: "normalize_plan_steps show_other raws = Inr steps"
      by (auto simp: update_plan_def split: sum.splits)
    show ?thesis
    proof (cases "tk_active_plan_id t")
      case None
      let ?p = "\<lparr>pn_plan_id = ''plan-'' @ fresh, pn_task_id = ?i, pn_revision = 1, pn_summary = bounded_text 4000 summary,
        pn_created_at = now, pn_updated_at = now\<rparr>"
      have new: "pn_plan_id ?p \<notin> set (map pn_plan_id (st_plans s))"
        using False steps cur None by (auto simp: update_plan_def Let_def split: if_splits)
      have shape: "snd (update_plan show_other ?i r summary raws fresh now s) =
          s\<lparr>st_plans := st_plans s @ [?p], st_tasks := map (\<lambda>x. if tk_task_id x = ?i
            then x\<lparr>tk_active_plan_id := Some (pn_plan_id ?p), tk_revision := tk_revision x + 1, tk_updated_at := now\<rparr> else x) (st_tasks s),
            st_steps := st_steps s @ step_rows (pn_plan_id ?p) now steps\<rparr>"
        using False steps cur None by (auto simp: update_plan_def Let_def split: if_splits)
      show ?thesis unfolding eq by (rule new_plan_step [OF ok cur None _ new shape]) simp
    next
      case (Some plan_id)
      obtain p where p: "find (\<lambda>p. pn_plan_id p = plan_id) (st_plans s) = Some p"
        using False steps cur Some by (auto simp: update_plan_def Let_def split: option.splits)
      have "snd (update_plan show_other ?i r summary raws fresh now s) =
          s\<lparr>st_plans := map (\<lambda>x. if pn_plan_id x = plan_id
              then x\<lparr>pn_revision := pn_revision p + 1, pn_summary := bounded_text 4000 summary, pn_updated_at := now\<rparr>
              else x) (st_plans s),
            st_steps := filter (\<lambda>x. sp_plan_id x \<noteq> plan_id) (st_steps s) @ step_rows plan_id now steps\<rparr>"
        using False steps cur Some p by (auto simp: update_plan_def Let_def split: if_splits)
      then show ?thesis unfolding eq by (intro rewritten_plan_step [OF ok cur Some _ _]) simp_all
    qed
  qed
qed

lemma workspace_checkpoint_step:
  assumes ok: "tables_ok s"
  shows "tables_ok (snd (workspace_checkpoint scope r c fresh now s)) \<and> moves_on s (snd (workspace_checkpoint scope r c fresh now s))"
proof (cases "get_foreground_task scope s")
  case None
  then show ?thesis using ok by (simp add: workspace_checkpoint_def require_task_def)
next
  case (Some t)
  then show ?thesis
    using ok create_checkpoint_step [OF ok current_task [OF ok Some], of r c fresh now]
    by (simp add: workspace_checkpoint_def require_task_def)
qed

lemma budget_step_tables:
  "st_tasks (snd (settle_continuation_approach scope k i key lim' n now s)) = st_tasks s \<and>
   st_plans (snd (settle_continuation_approach scope k i key lim' n now s)) = st_plans s \<and>
   st_steps (snd (settle_continuation_approach scope k i key lim' n now s)) = st_steps s \<and>
   st_checkpoints (snd (settle_continuation_approach scope k i key lim' n now s)) = st_checkpoints s"
  "st_tasks (snd (reserve_continuation_epoch scope k e now s)) = st_tasks s \<and>
   st_plans (snd (reserve_continuation_epoch scope k e now s)) = st_plans s \<and>
   st_steps (snd (reserve_continuation_epoch scope k e now s)) = st_steps s \<and>
   st_checkpoints (snd (reserve_continuation_epoch scope k e now s)) = st_checkpoints s"
  by (auto simp: settle_continuation_approach_def reserve_continuation_epoch_def settled_tables_def Let_def split: option.splits sum.splits)

lemma task_step_ok:
  assumes "tables_ok s"
  shows "tables_ok (task_step show_other op s) \<and> moves_on s (task_step show_other op s)"
proof -
  have budget: "moves_on s s' \<and> tables_ok s'" if "st_tasks s' = st_tasks s \<and> st_plans s' = st_plans s \<and>
      st_steps s' = st_steps s \<and> st_checkpoints s' = st_checkpoints s" for s'
    using same_tasks_advance [of s' s] that assms by simp
  obtain scope x where op: "op = (scope, x)" by fastforce
  show ?thesis
  proof (cases x)
    case (YieldTask fp fresh now)
    then show ?thesis using assms workspace_checkpoint_step [OF assms]
      by (simp add: op yield_without_continuation_def split: option.split)
  next
    case (Reject reason evidence fp fresh now)
    then show ?thesis using assms workspace_checkpoint_step [OF assms]
      by (simp add: op reject_continuation_def split: option.split)
  next
    case (SettleApproach k i key lim' n now)
    then show ?thesis using budget [OF budget_step_tables(1)] by (simp add: op)
  next
    case (ReserveEpoch k e now)
    then show ?thesis using budget [OF budget_step_tables(2)] by (simp add: op)
  qed (simp_all add: op create_task_step replace_task_step move_current_step workspace_update_plan_step
      workspace_checkpoint_step pause_def resume_def cancel_def complete_task_def assms)
qed

lemma task_run_ok:
  "tables_ok s \<Longrightarrow> tables_ok (task_run show_other ops s) \<and> moves_on s (task_run show_other ops s)"
proof (induction ops arbitrary: s)
  case (Cons op ops)
  note step = task_step_ok [OF Cons.prems, of show_other op]
  show ?case using Cons.IH [OF conjunct1 [OF step]] moves_on_trans [OF conjunct2 [OF step]] by simp
qed simp

lemma tables_ok_empty: "tables_ok empty_store"
  by (simp add: tables_ok_def empty_store_def one_foreground_def)

end
