(* ===== verification/Task_Ledger.thy ===== *)
theory Task_Ledger
  imports Task_Safety "HOL-Library.Multiset"
begin

text \<open>
  The elementary changes the operations make to the tables, as a step relation, and what every
  sequence of them keeps: a task's checkpoints are its history, and epochs are reserved within
  the budgets of the checkpoint and of its approach.
\<close>

section \<open>Elementary changes\<close>

definition keeps_row :: "(task_row \<Rightarrow> task_row) \<Rightarrow> bool" where
  "keeps_row f \<longleftrightarrow> (\<forall>t. tk_task_id (f t) = tk_task_id t \<and> tk_scope_key (f t) = tk_scope_key t)"

definition fresh_settlement :: "task_row \<Rightarrow> checkpoint_row \<Rightarrow> continuation_contract \<Rightarrow> int \<Rightarrow> string \<Rightarrow> settlement_row" where
  "fresh_settlement t c k n now = \<lparr>cs_checkpoint_id = ck_checkpoint_id c, cs_scope_key = tk_scope_key t,
     cs_task_id = ck_task_id c, cs_approach_key = cc_approach_key k, cs_consumed_epochs = n, cs_settled_at = now\<rparr>"

definition bump :: "string \<Rightarrow> settlement_row list \<Rightarrow> settlement_row list" where
  "bump k = map (\<lambda>x. if cs_checkpoint_id x = k then x\<lparr>cs_consumed_epochs := cs_consumed_epochs x + 1\<rparr> else x)"

inductive effect :: "runtime_store \<Rightarrow> runtime_store \<Rightarrow> bool" where
  scopes_changed: "effect s (s\<lparr>st_scopes := x\<rparr>)"
| task_added: "get_task (tk_task_id t) s = None \<Longrightarrow> tk_latest_checkpoint_id t = None \<Longrightarrow>
    effect s (s\<lparr>st_tasks := st_tasks s @ [t]\<rparr>)"
| rows_rewritten: "keeps_row f \<Longrightarrow>
    (\<And>t. tk_latest_checkpoint_id (f t) = tk_latest_checkpoint_id t \<and> tk_revision t \<le> tk_revision (f t)) \<Longrightarrow>
    effect s (s\<lparr>st_tasks := map f (st_tasks s), st_plans := ps, st_steps := rs\<rparr>)"
| checkpoint_added: "get_task i s = Some t \<Longrightarrow> tk_revision t = r \<Longrightarrow>
    get_checkpoint (ck_checkpoint_id c) s = None \<Longrightarrow> ck_task_id c = i \<Longrightarrow> ck_revision c = r + 1 \<Longrightarrow> keeps_row f \<Longrightarrow>
    (\<And>t. tk_latest_checkpoint_id (f t) = Some (ck_checkpoint_id c) \<and> tk_revision (f t) = tk_revision t + 1) \<Longrightarrow>
    effect s (s\<lparr>st_tasks := map (\<lambda>t. if tk_task_id t = i \<and> tk_revision t = r then f t else t) (st_tasks s),
                st_checkpoints := st_checkpoints s @ [c]\<rparr>)"
| approach_opened: "cv_consumed_epochs a = 0 \<Longrightarrow> cv_budget_limit a \<ge> 1 \<Longrightarrow>
    effect s (s\<lparr>st_approaches := insert_approach a (st_approaches s)\<rparr>)"
| settlement_added: "get_checkpoint k s = Some c \<Longrightarrow> ck_continuation c = Some contract \<Longrightarrow>
    get_task (ck_task_id c) s = Some t \<Longrightarrow> k \<notin> set (map cs_checkpoint_id (st_settlements s)) \<Longrightarrow> 0 \<le> n \<Longrightarrow>
    find (approach_is (tk_scope_key t) (ck_task_id c) (cc_approach_key contract)) (st_approaches s) \<noteq> None \<Longrightarrow>
    effect s (s\<lparr>st_approaches := debit (tk_scope_key t) (ck_task_id c) (cc_approach_key contract) n now (st_approaches s),
                st_settlements := st_settlements s @ [fresh_settlement t c contract n now]\<rparr>)"
| epoch_reserved: "get_checkpoint k s = Some c \<Longrightarrow> ck_continuation c = Some contract \<Longrightarrow>
    get_task (ck_task_id c) s = Some t \<Longrightarrow> find (\<lambda>r. cs_checkpoint_id r = k) (st_settlements s) = Some r \<Longrightarrow>
    find (approach_is (cs_scope_key r) (cs_task_id r) (cs_approach_key r)) (st_approaches s) = Some a \<Longrightarrow>
    cs_consumed_epochs r < cc_bounded_epoch_budget contract \<Longrightarrow> cv_consumed_epochs a < cv_budget_limit a \<Longrightarrow>
    e \<notin> set (map ce_epoch_id (st_reservations s)) \<Longrightarrow>
    effect s (s\<lparr>st_reservations := st_reservations s @ [\<lparr>ce_epoch_id = e, ce_scope_key = tk_scope_key t, ce_checkpoint_id = k\<rparr>],
                st_settlements := bump k (st_settlements s),
                st_approaches := debit (tk_scope_key t) (ck_task_id c) (cc_approach_key contract) 1 now (st_approaches s)\<rparr>)"

abbreviation effects :: "runtime_store \<Rightarrow> runtime_store \<Rightarrow> bool" where
  "effects \<equiv> effect\<^sup>*\<^sup>*"

lemma get_checkpoint_Some: "get_checkpoint k s = Some c \<Longrightarrow> ck_checkpoint_id c = k \<and> c \<in> set (st_checkpoints s)"
  by (auto simp: get_checkpoint_def dest: find_SomeD)

lemma rows_effect:
  "keeps_row f \<Longrightarrow> (\<And>t. tk_latest_checkpoint_id (f t) = tk_latest_checkpoint_id t \<and> tk_revision t \<le> tk_revision (f t)) \<Longrightarrow>
   effect s (s\<lparr>st_tasks := map f (st_tasks s)\<rparr>)"
  using rows_rewritten [where f = f and s = s and ps = "st_plans s" and rs = "st_steps s"] by simp

section \<open>Every operation is a sequence of them\<close>

lemma register_scope_effect: "effects s (snd (register_scope scope s))"
  using register_scope_cases [of scope s] scopes_changed by auto

lemma insert_task_effect:
  assumes "insert_task t s = Some s'" and "tk_latest_checkpoint_id t = None"
  shows "effect s s'"
proof -
  have "tk_task_id t \<notin> set (map tk_task_id (st_tasks s))" and s': "s' = s\<lparr>st_tasks := st_tasks s @ [t]\<rparr>"
    using assms by (auto simp: insert_task_def Let_def split: if_splits)
  then have "get_task (tk_task_id t) s = None"
    unfolding get_task_def find_None_iff by (metis image_eqI list.set_map)
  then show ?thesis unfolding s' using assms(2) by (rule task_added)
qed

lemma create_task_effect: "effects s (snd (create_task scope fresh goal source by_whom status now s))"
proof (cases "create_task scope fresh goal source by_whom status now s")
  case (Pair res s')
  then have "s' = s \<or> s' = snd (register_scope scope s) \<or>
      (\<exists>g src. insert_task (new_task scope fresh g src by_whom status now) (snd (register_scope scope s)) = Some s')"
    by (auto simp: create_task_def Let_def split: sum.splits prod.splits option.splits)
  then show ?thesis
  proof (elim disjE exE)
    fix g src
    assume "insert_task (new_task scope fresh g src by_whom status now) (snd (register_scope scope s)) = Some s'"
    from insert_task_effect [OF this] have "effect (snd (register_scope scope s)) s'" by (simp add: new_task_def)
    then show ?thesis using Pair register_scope_effect [of s scope] by (simp add: rtranclp.rtrancl_into_rtrancl)
  qed (use Pair register_scope_effect [of s scope] in simp_all)
qed

lemma replace_task_effect: "effects s (snd (replace_foreground_task scope fresh goal source by_whom now s))"
proof (cases "replace_foreground_task scope fresh goal source by_whom now s")
  case (Pair res s')
  let ?s1 = "snd (register_scope scope s)"
  let ?s2 = "?s1\<lparr>st_tasks := map (cancel_foreground scope now) (st_tasks ?s1)\<rparr>"
  from Pair have "s' = s \<or> s' = ?s1 \<or> (\<exists>g src. insert_task (new_task scope fresh g src by_whom TK_RUNNING now) ?s2 = Some s')"
    by (auto simp: replace_foreground_task_def Let_def split: sum.splits prod.splits option.splits)
  moreover have "effects s ?s2"
    by (rule rtranclp.rtrancl_into_rtrancl [OF register_scope_effect [of s scope] rows_effect])
      (auto simp: keeps_row_def cancel_foreground_def)
  ultimately show ?thesis
  proof (elim disjE exE)
    fix g src
    assume "insert_task (new_task scope fresh g src by_whom TK_RUNNING now) ?s2 = Some s'"
    from insert_task_effect [OF this] have "effect ?s2 s'" by (simp add: new_task_def)
    then show ?thesis using Pair \<open>effects s ?s2\<close> by (simp add: rtranclp.rtrancl_into_rtrancl)
  qed (use Pair register_scope_effect [of s scope] in simp_all)
qed

lemma move_current_effect: "effects s (snd (move_current scope status authority now s))"
proof -
  have "effects s (snd (transition_task i r status authority now s))" for i r
  proof (cases "snd (transition_task i r status authority now s) = s")
    case False
    then obtain s' where s': "update_task i r (\<lambda>t. t\<lparr>tk_status := status,
         tk_completion_authority := (case authority of None \<Rightarrow> tk_completion_authority t | Some a \<Rightarrow> a),
         tk_revision := tk_revision t + 1, tk_updated_at := now\<rparr>) s = Inr s'" "snd (transition_task i r status authority now s) = s'"
      by (auto simp: transition_task_def read_task_def split: sum.splits option.splits)
    show ?thesis unfolding s'(2) update_task_Inr(1) [OF s'(1)]
      by (rule r_into_rtranclp, rule rows_effect) (auto simp: keeps_row_def)
  qed simp
  then show ?thesis by (auto simp: move_current_def split: option.split)
qed

lemma workspace_checkpoint_effect:
  assumes ok: "tables_ok s"
  shows "effects s (snd (workspace_checkpoint scope r c fresh now s))"
proof (cases "snd (workspace_checkpoint scope r c fresh now s) = s")
  case False
  then obtain t where t: "get_foreground_task scope s = Some t"
    by (auto simp: workspace_checkpoint_def require_task_def split: option.splits)
  let ?i = "tk_task_id t"
  let ?id = "''checkpoint-'' @ fresh"
  let ?f = "\<lambda>t. t\<lparr>tk_latest_checkpoint_id := Some ?id, tk_status := checkpoint_status (ci_disposition c),
         tk_revision := tk_revision t + 1, tk_updated_at := now\<rparr>"
  from False t obtain s1 row where s1: "update_task ?i r ?f s = Inr s1"
      "snd (workspace_checkpoint scope r c fresh now s) = s1\<lparr>st_checkpoints := st_checkpoints s1 @ [row]\<rparr>"
      "get_checkpoint ?id s = None" "ck_checkpoint_id row = ?id" "ck_task_id row = ?i" "ck_revision row = r + 1"
    by (auto simp: workspace_checkpoint_def require_task_def create_checkpoint_def Let_def
        split: if_splits sum.splits option.splits)
  note cur = current_task [OF ok t]
  have r: "tk_revision t = r" using change_task_step(4) [OF ok cur _ _ _ _ s1(1)] by simp
  show ?thesis unfolding s1(2) update_task_Inr(1) [OF s1(1)]
    using checkpoint_added [OF cur(1) r, of row ?f] s1(3-6) by (auto simp: keeps_row_def)
qed simp

lemma workspace_update_plan_effect: "effects s (snd (workspace_update_plan show_other scope r summary raws fresh now s))"
proof -
  have "effects s (snd (update_plan show_other i r summary raws fresh now s))" for i
  proof (cases "snd (update_plan show_other i r summary raws fresh now s) = s")
    case False
    then obtain steps where steps: "normalize_plan_steps show_other raws = Inr steps"
      by (auto simp: update_plan_def split: sum.splits)
    from False steps obtain t where t: "get_task i s = Some t"
      by (cases "get_task i s") (simp_all add: update_plan_def)
    show ?thesis
    proof (cases "tk_active_plan_id t")
      case None
      let ?g = "\<lambda>x. if tk_task_id x = i
            then x\<lparr>tk_active_plan_id := Some (''plan-'' @ fresh), tk_revision := tk_revision x + 1, tk_updated_at := now\<rparr> else x"
      have "effect s (s\<lparr>st_tasks := map ?g (st_tasks s), st_plans := ps, st_steps := rs\<rparr>)" for ps rs
        by (rule rows_rewritten) (auto simp: keeps_row_def)
      moreover have "s\<lparr>st_plans := ps, st_tasks := ts, st_steps := rs\<rparr> = s\<lparr>st_tasks := ts, st_plans := ps, st_steps := rs\<rparr>"
        for ps ts rs by simp
      ultimately have rows: "effect s (s\<lparr>st_plans := ps, st_tasks := map ?g (st_tasks s), st_steps := rs\<rparr>)" for ps rs
        by (simp only:)
      show ?thesis using steps t None r_into_rtranclp [where r = effect, OF rows, unfolded append_Cons append_Nil]
        by (simp add: update_plan_def Let_def)
    next
      case (Some plan_id)
      have rows: "effect s (s\<lparr>st_plans := ps, st_steps := rs\<rparr>)" for ps rs
        using rows_rewritten [of id s] by (simp add: keeps_row_def)
      show ?thesis using False steps t Some rows
        by (simp add: update_plan_def Let_def r_into_rtranclp split: option.split)
    qed
  qed simp
  then show ?thesis by (auto simp: workspace_update_plan_def require_task_def split: option.split)
qed

lemma settle_effect: "effects s (snd (settle_continuation_approach scope k i key limit' n now s))"
proof (cases "snd (settle_continuation_approach scope k i key limit' n now s) = s")
  case False
  then obtain contract clean a where d: "current_contract scope k i s = Some contract" "cc_approach_key contract = key"
      "find (approach_is (sc_key scope) i key) (st_approaches (settled_tables scope k i key clean limit' (max 0 n) now s)) = Some a"
      "snd (settle_continuation_approach scope k i key limit' n now s) = settled_tables scope k i key clean limit' (max 0 n) now s"
    by (auto simp: settle_continuation_approach_def Let_def split: option.splits if_splits sum.splits)
  then obtain c t where c: "get_checkpoint k s = Some c" "ck_task_id c = i" "get_task i s = Some t"
      "tk_scope_key t = sc_key scope" "ck_continuation c = Some contract"
    by (auto simp: current_contract_def bind_eq_Some_conv split: if_splits)
  let ?a = "\<lparr>cv_scope_key = sc_key scope, cv_task_id = i, cv_approach_key = clean,
      cv_budget_limit = max 1 limit', cv_consumed_epochs = 0, cv_updated_at = now\<rparr>"
  let ?s1 = "s\<lparr>st_approaches := insert_approach ?a (st_approaches s)\<rparr>"
  have open_a: "effect s ?s1" by (rule approach_opened) simp_all
  show ?thesis
  proof (cases "list_ex (\<lambda>r. cs_checkpoint_id r = k) (st_settlements s)")
    case True
    then show ?thesis using open_a d(4) by (simp add: settled_tables_def Let_def r_into_rtranclp)
  next
    case new: False
    have eq: "settled_tables scope k i key clean limit' (max 0 n) now s =
        ?s1\<lparr>st_approaches := debit (sc_key scope) i key (max 0 n) now (insert_approach ?a (st_approaches s)),
          st_settlements := st_settlements s @ [fresh_settlement t c contract (max 0 n) now]\<rparr>"
      using new c d(2) get_checkpoint_Some [OF c(1)] by (simp add: settled_tables_def Let_def fresh_settlement_def)
    have "find (approach_is (sc_key scope) i key) (insert_approach ?a (st_approaches s)) \<noteq> None"
      using d(3) new by (auto simp: settled_tables_def Let_def debit_def find_map_same approach_is_def)
    moreover have "k \<notin> set (map cs_checkpoint_id (st_settlements s))" using new by (auto simp: list_ex_iff)
    ultimately have "effect ?s1 (settled_tables scope k i key clean limit' (max 0 n) now s)"
      using settlement_added [of k ?s1 c contract t "max 0 n" now] c d(2) eq by simp
    with open_a d(4) show ?thesis by (simp add: rtranclp.rtrancl_into_rtrancl r_into_rtranclp)
  qed
qed simp

lemma spendable_Some:
  assumes "spendable scope k s = Some (t, contract, r, a)"
  obtains c where "get_checkpoint k s = Some c" "contract = ck_continuation c" "get_task (ck_task_id c) s = Some t"
    "tk_scope_key t = sc_key scope" "ck_disposition c = DP_CONTINUE" "tk_status t = TK_RUNNING"
    "find (\<lambda>r. cs_checkpoint_id r = k) (st_settlements s) = Some r"
    "find (approach_is (cs_scope_key r) (cs_task_id r) (cs_approach_key r)) (st_approaches s) = Some a"
  using assms unfolding spendable_def
  by (auto simp: bind_eq_Some_conv split: if_splits)

lemma reserve_effect: "effects s (snd (reserve_continuation_epoch scope k raw now s))"
proof (cases "snd (reserve_continuation_epoch scope k raw now s) = s")
  case False
  obtain e where e: "required_text ''epoch_id'' 256 raw = Inr e"
    using False by (auto simp: reserve_continuation_epoch_def split: sum.splits)
  have new: "find (\<lambda>r. ce_epoch_id r = e) (st_reservations s) = None"
    using False e by (auto simp: reserve_continuation_epoch_def split: option.splits)
  obtain t contract r a where sp: "spendable scope k s = Some (t, Some contract, r, a)"
    using False e new by (auto simp: reserve_continuation_epoch_def split: option.splits)
  have room: "cs_consumed_epochs r < cc_bounded_epoch_budget contract" "cv_consumed_epochs a < cv_budget_limit a"
    and eq: "snd (reserve_continuation_epoch scope k raw now s) = s\<lparr>
       st_reservations := st_reservations s @ [\<lparr>ce_epoch_id = e, ce_scope_key = sc_key scope, ce_checkpoint_id = k\<rparr>],
       st_settlements := bump k (st_settlements s),
       st_approaches := debit (sc_key scope) (tk_task_id t) (cc_approach_key contract) 1 now (st_approaches s)\<rparr>"
    using False e new sp by (auto simp: reserve_continuation_epoch_def bump_def split: if_splits)
  from sp obtain c where c: "get_checkpoint k s = Some c" "Some contract = ck_continuation c" "get_task (ck_task_id c) s = Some t"
    "tk_scope_key t = sc_key scope" "find (\<lambda>r. cs_checkpoint_id r = k) (st_settlements s) = Some r"
    "find (approach_is (cs_scope_key r) (cs_task_id r) (cs_approach_key r)) (st_approaches s) = Some a"
    by (rule spendable_Some) blast
  have "e \<notin> set (map ce_epoch_id (st_reservations s))" using new by (auto simp: find_None_iff)
  from epoch_reserved [OF c(1) c(2) [symmetric] c(3,5,6) room this, of now] show ?thesis
    unfolding eq using get_task_Some [OF c(3)] c(4) by simp
qed simp

lemma task_step_effect:
  assumes "tables_ok s"
  shows "effects s (task_step show_other op s)"
proof -
  obtain scope x where op: "op = (scope, x)" by fastforce
  show ?thesis
  proof (cases x)
    case (YieldTask fp fresh now)
    then show ?thesis using workspace_checkpoint_effect [OF assms]
      by (simp add: op yield_without_continuation_def split: option.split)
  next
    case (Reject reason evidence fp fresh now)
    then show ?thesis using workspace_checkpoint_effect [OF assms]
      by (simp add: op reject_continuation_def split: option.split)
  qed (simp_all add: op create_task_effect replace_task_effect move_current_effect workspace_update_plan_effect
      workspace_checkpoint_effect settle_effect reserve_effect pause_def resume_def cancel_def complete_task_def assms)
qed

lemma task_run_effect: "tables_ok s \<Longrightarrow> effects s (task_run show_other ops s)"
proof (induction ops arbitrary: s)
  case (Cons op ops)
  have "effects (task_step show_other op s) (task_run show_other ops (task_step show_other op s))"
    using Cons.IH task_step_ok [OF Cons.prems] by blast
  then show ?case using task_step_effect [OF Cons.prems, of show_other op] by (simp add: rtranclp_trans)
qed simp

end
