(* ===== verification/Task_Budget.thy ===== *)
theory Task_Budget
  imports Task_Ledger
begin

text \<open>
  The invariants of the elementary changes and the properties of the durable task state they
  give: one foreground task, frozen settled tasks, checkpoints as a history, bounded epochs.
\<close>

section \<open>Checkpoints are a task's history\<close>

definition history_ok :: "runtime_store \<Rightarrow> task_row \<Rightarrow> bool" where
  "history_ok s t \<longleftrightarrow>
     (let cs = filter (\<lambda>c. ck_task_id c = tk_task_id t) (st_checkpoints s)
      in sorted_wrt (<) (map ck_revision cs) \<and> (\<forall>c\<in>set cs. ck_revision c \<le> tk_revision t) \<and>
         tk_latest_checkpoint_id t = (if cs = [] then None else Some (ck_checkpoint_id (last cs))))"

definition ledger_ok :: "runtime_store \<Rightarrow> bool" where
  "ledger_ok s \<longleftrightarrow>
     distinct (map tk_task_id (st_tasks s)) \<and> distinct (map ck_checkpoint_id (st_checkpoints s)) \<and>
     (\<forall>c\<in>set (st_checkpoints s). get_task (ck_task_id c) s \<noteq> None) \<and> (\<forall>t\<in>set (st_tasks s). history_ok s t)"

lemma ledger_ok_same:
  assumes "st_tasks s' = st_tasks s" and "st_checkpoints s' = st_checkpoints s"
  shows "ledger_ok s' = ledger_ok s"
  using assms by (simp add: ledger_ok_def history_ok_def get_task_def)

lemma get_task_None: "get_task i s = None \<longleftrightarrow> i \<notin> tk_task_id ` set (st_tasks s)"
  by (auto simp: get_task_def find_None_iff)

lemma get_checkpoint_None: "get_checkpoint i s = None \<longleftrightarrow> i \<notin> ck_checkpoint_id ` set (st_checkpoints s)"
  by (auto simp: get_checkpoint_def find_None_iff)

lemma effect_ledger: "effect s s' \<Longrightarrow> ledger_ok s \<Longrightarrow> ledger_ok s'"
proof (induction rule: effect.induct)
  case (task_added t s)
  let ?s = "s\<lparr>st_tasks := st_tasks s @ [t]\<rparr>"
  have "filter (\<lambda>c. ck_task_id c = tk_task_id t) (st_checkpoints s) = []"
    using task_added.hyps(1) task_added.prems by (auto simp: ledger_ok_def filter_empty_conv)
  then have "history_ok ?s t" using task_added.hyps(2) by (simp add: history_ok_def)
  moreover have "history_ok ?s x = history_ok s x" for x by (simp add: history_ok_def)
  ultimately show ?case
    using task_added by (auto simp: ledger_ok_def get_task_None)
next
  case (rows_rewritten f s rs ps)
  let ?s = "s\<lparr>st_tasks := map f (st_tasks s), st_plans := ps, st_steps := rs\<rparr>"
  have ids: "tk_task_id (f x) = tk_task_id x" for x using rows_rewritten.hyps(1) by (simp add: keeps_row_def)
  have "history_ok ?s (f x)" if "history_ok s x" for x
    using that rows_rewritten.hyps(2) [of x] ids [of x] unfolding history_ok_def Let_def by fastforce
  moreover have "distinct (map (tk_task_id \<circ> f) (st_tasks s))"
    using rows_rewritten.prems by (simp add: ledger_ok_def o_def ids)
  moreover have "tk_task_id ` f ` set (st_tasks s) = tk_task_id ` set (st_tasks s)" by (simp add: image_image ids)
  ultimately show ?case using rows_rewritten.prems by (auto simp: ledger_ok_def get_task_None)
next
  case (checkpoint_added i s t r c f)
  let ?f = "\<lambda>t. if tk_task_id t = i \<and> tk_revision t = r then f t else t"
  let ?s = "s\<lparr>st_tasks := map ?f (st_tasks s), st_checkpoints := st_checkpoints s @ [c]\<rparr>"
  have ids: "tk_task_id (?f x) = tk_task_id x" for x using checkpoint_added.hyps by (simp add: keeps_row_def)
  have d: "distinct (map tk_task_id (st_tasks s))" using checkpoint_added.prems by (simp add: ledger_ok_def)
  have "history_ok ?s (?f x)" if x: "x \<in> set (st_tasks s)" for x
  proof (cases "tk_task_id x = i")
    case True
    then have "x = t" using get_task_member [OF d x] checkpoint_added.hyps(1) by simp
    then have fx: "?f x = f t" using True checkpoint_added.hyps(2) by simp
    have h: "history_ok s t" using x \<open>x = t\<close> checkpoint_added.prems by (simp add: ledger_ok_def)
    have "tk_task_id (f t) = i" using ids [of t] True \<open>x = t\<close> checkpoint_added.hyps(2) by simp
    then show ?thesis unfolding fx
      using h True \<open>x = t\<close> checkpoint_added.hyps(2,4,5,7)
      by (fastforce simp: history_ok_def Let_def sorted_wrt_append)
  next
    case False
    then have "?f x = x" by simp
    moreover have "history_ok s x" using x checkpoint_added.prems by (simp add: ledger_ok_def)
    ultimately show ?thesis using False checkpoint_added.hyps(4) by (simp add: history_ok_def)
  qed
  then have h: "\<forall>x\<in>?f ` set (st_tasks s). history_ok ?s x" by blast
  have h': "st_tasks ?s = map ?f (st_tasks s)" by simp
  have look: "get_task j ?s = map_option ?f (get_task j s)" for j
    using get_task_mapped [of ?f j s, OF ids] by (simp add: get_task_def)
  have "map tk_task_id (st_tasks ?s) = map tk_task_id (st_tasks s)" using ids by simp
  with d have "distinct (map tk_task_id (st_tasks ?s))" by (simp only:)
  moreover have "distinct (map ck_checkpoint_id (st_checkpoints ?s))"
    using checkpoint_added.prems checkpoint_added.hyps(3) by (simp add: ledger_ok_def get_checkpoint_None)
  moreover have "\<forall>x\<in>set (st_checkpoints ?s). get_task (ck_task_id x) ?s \<noteq> None"
    using checkpoint_added.prems checkpoint_added.hyps(1,4) look by (auto simp: ledger_ok_def)
  ultimately show ?case using h unfolding ledger_ok_def h' set_map by blast
qed ((erule ledger_ok_same [THEN iffD2, rotated 2]; simp)+)

lemma effects_ledger: "effects s s' \<Longrightarrow> ledger_ok s \<Longrightarrow> ledger_ok s'"
  by (induction rule: rtranclp_induct) (auto intro: effect_ledger)

lemma ledger_ok_empty: "ledger_ok empty_store"
  by (simp add: ledger_ok_def empty_store_def)

lemma ordered_checkpoints:
  assumes "ledger_ok s" and "t \<in> set (st_tasks s)"
  shows "list_task_checkpoints (tk_task_id t) s = filter (\<lambda>c. ck_task_id c = tk_task_id t) (st_checkpoints s)"
proof -
  let ?cs = "filter (\<lambda>c. ck_task_id c = tk_task_id t) (st_checkpoints s)"
  have sorted: "sorted_wrt (<) (map ck_revision ?cs)"
    using assms by (auto simp: ledger_ok_def history_ok_def Let_def)
  then have "inj_on ck_revision (set ?cs)" by (metis distinct_map strict_sorted_iff)
  then have "inj_on ck_revision (set (sort_key ck_created_at ?cs))" by (simp only: set_sort)
  then show ?thesis
    unfolding list_task_checkpoints_def using sorted strict_sorted_iff by (intro sort_key_inj_key_eq) auto
qed

lemma task_history:
  assumes "ledger_ok s" and t: "get_task i s = Some t"
  shows "sorted_wrt (<) (map ck_revision (list_task_checkpoints i s))"
    "\<forall>c\<in>set (list_task_checkpoints i s). ck_revision c \<le> tk_revision t"
    "get_latest_checkpoint i s = (if list_task_checkpoints i s = [] then None else Some (last (list_task_checkpoints i s)))"
proof -
  note m = get_task_Some [OF t]
  have list: "list_task_checkpoints i s = filter (\<lambda>c. ck_task_id c = i) (st_checkpoints s)"
    using ordered_checkpoints [OF assms(1) conjunct1 [OF m]] m by simp
  have h: "history_ok s t" using assms m by (simp add: ledger_ok_def)
  then show "sorted_wrt (<) (map ck_revision (list_task_checkpoints i s))"
      "\<forall>c\<in>set (list_task_checkpoints i s). ck_revision c \<le> tk_revision t"
    using m unfolding list by (auto simp: history_ok_def Let_def)
  have "get_checkpoint (ck_checkpoint_id c) s = Some c" if "c \<in> set (st_checkpoints s)" for c
    using that assms(1) unfolding get_checkpoint_def ledger_ok_def by (intro find_distinct) simp_all
  moreover have "last (list_task_checkpoints i s) \<in> set (st_checkpoints s)" if "list_task_checkpoints i s \<noteq> []"
    using last_in_set [OF that] unfolding list by simp
  ultimately show "get_latest_checkpoint i s = (if list_task_checkpoints i s = [] then None else Some (last (list_task_checkpoints i s)))"
    using h m t unfolding list get_latest_checkpoint_def by (auto simp: history_ok_def Let_def)
qed

section \<open>Epochs stay within their budgets\<close>

definition approach_id :: "approach_row \<Rightarrow> string \<times> string \<times> string" where
  "approach_id a = (cv_scope_key a, cv_task_id a, cv_approach_key a)"

definition settled_approach :: "settlement_row \<Rightarrow> string \<times> string \<times> string" where
  "settled_approach r = (cs_scope_key r, cs_task_id r, cs_approach_key r)"

lemma approach_is_id: "approach_is x y z a \<longleftrightarrow> approach_id a = (x, y, z)"
  by (auto simp: approach_is_def approach_id_def)

text \<open>The epochs reserved for a checkpoint, and those reserved for any checkpoint of an approach.\<close>

definition epochs_spent :: "string \<Rightarrow> runtime_store \<Rightarrow> nat" where
  "epochs_spent k s = length (filter (\<lambda>e. ce_checkpoint_id e = k) (st_reservations s))"

definition drawn :: "string \<times> string \<times> string \<Rightarrow> runtime_store \<Rightarrow> nat" where
  "drawn key s = length (filter (\<lambda>e. list_ex (\<lambda>r. cs_checkpoint_id r = ce_checkpoint_id e \<and> settled_approach r = key)
     (st_settlements s)) (st_reservations s))"

definition settlement_ok :: "runtime_store \<Rightarrow> settlement_row \<Rightarrow> bool" where
  "settlement_ok s r \<longleftrightarrow>
     (\<exists>c k t. get_checkpoint (cs_checkpoint_id r) s = Some c \<and> ck_continuation c = Some k \<and>
        get_task (ck_task_id c) s = Some t \<and>
        settled_approach r = (tk_scope_key t, ck_task_id c, cc_approach_key k) \<and>
        int (epochs_spent (cs_checkpoint_id r) s) \<le> cs_consumed_epochs r \<and>
        int (epochs_spent (cs_checkpoint_id r) s) \<le> max 0 (cc_bounded_epoch_budget k)) \<and>
     settled_approach r \<in> approach_id ` set (st_approaches s)"

definition budget_ok :: "runtime_store \<Rightarrow> bool" where
  "budget_ok s \<longleftrightarrow>
     distinct (map cs_checkpoint_id (st_settlements s)) \<and>
     (\<forall>e\<in>set (st_reservations s). ce_checkpoint_id e \<in> cs_checkpoint_id ` set (st_settlements s)) \<and>
     (\<forall>r\<in>set (st_settlements s). settlement_ok s r) \<and>
     distinct (map approach_id (st_approaches s)) \<and>
     (\<forall>a\<in>set (st_approaches s). int (drawn (approach_id a) s) \<le> cv_consumed_epochs a \<and>
        int (drawn (approach_id a) s) \<le> cv_budget_limit a)"

definition lookups_kept :: "runtime_store \<Rightarrow> runtime_store \<Rightarrow> bool" where
  "lookups_kept s s' \<longleftrightarrow>
     (\<forall>k c. get_checkpoint k s = Some c \<longrightarrow> get_checkpoint k s' = Some c) \<and>
     (\<forall>i t. get_task i s = Some t \<longrightarrow> (\<exists>t'. get_task i s' = Some t' \<and> tk_scope_key t' = tk_scope_key t))"

lemma effect_lookups: "effect s s' \<Longrightarrow> lookups_kept s s'"
proof (induction rule: effect.induct)
  case (rows_rewritten f s rs ps)
  have "get_task i (s\<lparr>st_tasks := map f (st_tasks s), st_plans := ps, st_steps := rs\<rparr>) = map_option f (get_task i s)" for i
    using get_task_mapped [of f i s] rows_rewritten.hyps(1) by (simp add: keeps_row_def)
  then show ?case using rows_rewritten.hyps(1) by (auto simp: lookups_kept_def keeps_row_def)
next
  case (checkpoint_added i s t r c f)
  let ?f = "\<lambda>t. if tk_task_id t = i \<and> tk_revision t = r then f t else t"
  have "get_task j (s\<lparr>st_tasks := map ?f (st_tasks s), st_checkpoints := st_checkpoints s @ [c]\<rparr>) = map_option ?f (get_task j s)" for j
    using get_task_mapped [of ?f j s] checkpoint_added.hyps(6) by (simp add: keeps_row_def)
  then show ?case using checkpoint_added.hyps(6)
    by (auto simp: lookups_kept_def keeps_row_def get_checkpoint_def find_append)
qed (auto simp: lookups_kept_def get_task_def get_checkpoint_def find_append)

lemma settlement_ok_kept:
  assumes "settlement_ok s r" and "lookups_kept s s'" and "epochs_spent (cs_checkpoint_id r) s' = epochs_spent (cs_checkpoint_id r) s"
    and "approach_id ` set (st_approaches s) \<subseteq> approach_id ` set (st_approaches s')"
  shows "settlement_ok s' r"
  using assms unfolding settlement_ok_def lookups_kept_def by fastforce

lemma budget_ok_same:
  assumes "budget_ok s" and "lookups_kept s s'" and "st_approaches s' = st_approaches s"
    and "st_settlements s' = st_settlements s" and "st_reservations s' = st_reservations s"
  shows "budget_ok s'"
proof -
  have "settlement_ok s' r" if "settlement_ok s r" for r
    by (rule settlement_ok_kept [OF that assms(2)]) (simp_all add: epochs_spent_def assms)
  then show ?thesis using assms unfolding budget_ok_def by (simp add: drawn_def)
qed

lemma debit_ids [simp]: "map approach_id (debit x y z n now as) = map approach_id as"
  by (simp add: debit_def approach_id_def o_def)

lemma debit_id_set [simp]: "approach_id ` set (debit x y z n now as) = approach_id ` set as"
  by (metis debit_ids list.set_map)

lemma debit_elem:
  "a \<in> set (debit x y z n now as) \<Longrightarrow> \<exists>b\<in>set as. approach_id a = approach_id b \<and> cv_budget_limit a = cv_budget_limit b \<and>
     cv_consumed_epochs a = cv_consumed_epochs b + (if approach_id b = (x, y, z) then n else 0)"
  by (auto simp: debit_def approach_is_id approach_id_def)

lemma insert_approach_id:
  "insert_approach a as = (if approach_id a \<in> approach_id ` set as then as else as @ [a])"
proof -
  have "list_ex (approach_is x y z) as \<longleftrightarrow> (x, y, z) \<in> approach_id ` set as" for x y z
    by (induction as) (auto simp: approach_is_id)
  then show ?thesis by (simp add: insert_approach_def approach_id_def)
qed

lemma bump_ids [simp]:
  "map cs_checkpoint_id (bump k rs) = map cs_checkpoint_id rs"
  "cs_checkpoint_id ` set (bump k rs) = cs_checkpoint_id ` set rs"
  "list_ex (\<lambda>r. cs_checkpoint_id r = e \<and> settled_approach r = key) (bump k rs) =
     list_ex (\<lambda>r. cs_checkpoint_id r = e \<and> settled_approach r = key) rs"
proof -
  show ids: "map cs_checkpoint_id (bump k rs) = map cs_checkpoint_id rs" by (simp add: bump_def)
  show "cs_checkpoint_id ` set (bump k rs) = cs_checkpoint_id ` set rs" using ids by (metis list.set_map)
  show "list_ex (\<lambda>r. cs_checkpoint_id r = e \<and> settled_approach r = key) (bump k rs) =
      list_ex (\<lambda>r. cs_checkpoint_id r = e \<and> settled_approach r = key) rs"
    by (induction rs) (simp_all add: bump_def settled_approach_def)
qed

lemma effect_budget: "effect s s' \<Longrightarrow> budget_ok s \<Longrightarrow> budget_ok s'"
proof (induction rule: effect.induct)
  case (approach_opened a s)
  let ?s = "s\<lparr>st_approaches := insert_approach a (st_approaches s)\<rparr>"
  show ?case
  proof (cases "approach_id a \<in> approach_id ` set (st_approaches s)")
    case True
    then show ?thesis using approach_opened.prems by (simp add: insert_approach_id)
  next
    case False
    then have new: "insert_approach a (st_approaches s) = st_approaches s @ [a]" by (simp add: insert_approach_id)
    have "\<forall>r\<in>set (st_settlements s). settled_approach r \<noteq> approach_id a"
      using False approach_opened.prems unfolding budget_ok_def settlement_ok_def by metis
    then have "drawn (approach_id a) s = 0" by (auto simp: drawn_def filter_empty_conv list_ex_iff)
    moreover have "drawn key ?s = drawn key s" for key by (simp add: drawn_def)
    moreover have "settlement_ok ?s r" if "settlement_ok s r" for r
      by (rule settlement_ok_kept [OF that]) (auto simp: lookups_kept_def epochs_spent_def new)
    ultimately show ?thesis using approach_opened.prems approach_opened.hyps False
      by (auto simp: budget_ok_def new)
  qed
next
  case (settlement_added k s c contract t n now)
  let ?r = "fresh_settlement t c contract n now"
  let ?s = "s\<lparr>st_approaches := debit (tk_scope_key t) (ck_task_id c) (cc_approach_key contract) n now (st_approaches s),
                st_settlements := st_settlements s @ [?r]\<rparr>"
  have k: "cs_checkpoint_id ?r = k" using get_checkpoint_Some [OF settlement_added.hyps(1)] by (simp add: fresh_settlement_def)
  have none: "ce_checkpoint_id e \<noteq> k" if "e \<in> set (st_reservations s)" for e
    using that settlement_added.prems settlement_added.hyps(4) unfolding budget_ok_def by force
  then have "epochs_spent k s = 0" by (auto simp: epochs_spent_def filter_empty_conv)
  then have "settlement_ok ?s ?r"
    using settlement_added.hyps k unfolding settlement_ok_def
    by (auto simp: settled_approach_def fresh_settlement_def epochs_spent_def approach_is_id find_None_iff image_iff)
       (metis approach_is_id find_None_iff)
  moreover have "settlement_ok ?s r" if "settlement_ok s r" for r
    by (rule settlement_ok_kept [OF that]) (auto simp: lookups_kept_def epochs_spent_def)
  moreover have drawn: "drawn key ?s = drawn key s" for key
    unfolding drawn_def
    by (rule arg_cong [where f = length], rule filter_cong) (simp_all add: k none [symmetric])
  moreover have "int (drawn (approach_id a) ?s) \<le> cv_consumed_epochs a \<and> int (drawn (approach_id a) ?s) \<le> cv_budget_limit a"
    if a: "a \<in> set (st_approaches ?s)" for a
  proof -
    from a obtain b where b: "b \<in> set (st_approaches s)" "approach_id a = approach_id b" "cv_budget_limit a = cv_budget_limit b"
        "cv_consumed_epochs b \<le> cv_consumed_epochs a"
      using debit_elem [of a] settlement_added.hyps(5) by (fastforce split: if_splits)
    then show ?thesis using settlement_added.prems drawn [of "approach_id b"] unfolding budget_ok_def by fastforce
  qed
  ultimately show ?case
    using settlement_added.prems settlement_added.hyps(4) k unfolding budget_ok_def by auto
next
  case (epoch_reserved k s c contract t r a e now)
  let ?e = "\<lparr>ce_epoch_id = e, ce_scope_key = tk_scope_key t, ce_checkpoint_id = k\<rparr>"
  let ?s = "s\<lparr>st_reservations := st_reservations s @ [?e], st_settlements := bump k (st_settlements s),
      st_approaches := debit (tk_scope_key t) (ck_task_id c) (cc_approach_key contract) 1 now (st_approaches s)\<rparr>"
  have r: "r \<in> set (st_settlements s)" "cs_checkpoint_id r = k" using find_SomeD [OF epoch_reserved.hyps(4)] by auto
  have a: "a \<in> set (st_approaches s)" "approach_id a = settled_approach r"
    using find_SomeD [OF epoch_reserved.hyps(5)] by (auto simp: approach_is_id settled_approach_def)
  have d: "distinct (map cs_checkpoint_id (st_settlements s))" "distinct (map approach_id (st_approaches s))"
    using epoch_reserved.prems by (simp_all add: budget_ok_def)
  have only_r: "x = r" if "x \<in> set (st_settlements s)" "cs_checkpoint_id x = k" for x
    using that r d(1) by (auto simp: distinct_map dest: inj_onD)
  have "settlement_ok s r" using epoch_reserved.prems r by (simp add: budget_ok_def)
  then have key: "settled_approach r = (tk_scope_key t, ck_task_id c, cc_approach_key contract)"
      and within: "int (epochs_spent k s) \<le> cs_consumed_epochs r"
    using epoch_reserved.hyps(1-3) r by (auto simp: settlement_ok_def)
  have kept: "lookups_kept s ?s" by (simp add: lookups_kept_def)
  have settlements: "settlement_ok ?s x" if x: "x \<in> set (st_settlements ?s)" for x
  proof -
    from x obtain y where y: "y \<in> set (st_settlements s)"
      "x = (if cs_checkpoint_id y = k then y\<lparr>cs_consumed_epochs := cs_consumed_epochs y + 1\<rparr> else y)"
      by (auto simp: bump_def)
    have oky: "settlement_ok s y" using epoch_reserved.prems y by (simp add: budget_ok_def)
    show ?thesis
    proof (cases "cs_checkpoint_id y = k")
      case True
      then have "y = r" using only_r y(1) by blast
      then have x: "x = r\<lparr>cs_consumed_epochs := cs_consumed_epochs r + 1\<rparr>" using y(2) True by simp
      have "epochs_spent k ?s = epochs_spent k s + 1" by (simp add: epochs_spent_def)
      moreover have "settled_approach r \<in> approach_id ` set (st_approaches s)" using a by (metis imageI)
      moreover have "settled_approach (r\<lparr>cs_consumed_epochs := cs_consumed_epochs r + 1\<rparr>) = settled_approach r"
        by (simp add: settled_approach_def)
      ultimately show ?thesis
        using epoch_reserved.hyps(1-3,6) key within r(2) unfolding settlement_ok_def x by simp
    next
      case False
      then have "epochs_spent (cs_checkpoint_id y) ?s = epochs_spent (cs_checkpoint_id y) s" by (simp add: epochs_spent_def)
      then show ?thesis using False y(2) settlement_ok_kept [OF oky kept] by simp
    qed
  qed
  have drawn: "drawn q ?s = drawn q s + (if q = settled_approach r then 1 else 0)" for q
  proof -
    have "list_ex (\<lambda>x. cs_checkpoint_id x = k \<and> settled_approach x = q) (st_settlements s) \<longleftrightarrow> q = settled_approach r"
      using only_r r unfolding list_ex_iff by metis
    moreover have "drawn q ?s = drawn q s +
        (if list_ex (\<lambda>x. cs_checkpoint_id x = k \<and> settled_approach x = q) (st_settlements s) then 1 else 0)"
      by (simp add: drawn_def)
    ultimately show ?thesis by presburger
  qed
  have approaches: "int (drawn (approach_id x) ?s) \<le> cv_consumed_epochs x \<and> int (drawn (approach_id x) ?s) \<le> cv_budget_limit x"
    if x: "x \<in> set (st_approaches ?s)" for x
  proof -
    from x obtain b where b: "b \<in> set (st_approaches s)" "approach_id x = approach_id b" "cv_budget_limit x = cv_budget_limit b"
        "cv_consumed_epochs x = cv_consumed_epochs b + (if approach_id b = settled_approach r then 1 else 0)"
      using debit_elem [of x "tk_scope_key t" "ck_task_id c" "cc_approach_key contract" 1 now] key by auto
    have ok: "int (drawn (approach_id b) s) \<le> cv_consumed_epochs b \<and> int (drawn (approach_id b) s) \<le> cv_budget_limit b"
      using epoch_reserved.prems b(1) by (simp add: budget_ok_def)
    show ?thesis
    proof (cases "approach_id b = settled_approach r")
      case True
      then have "b = a" using a b(1) d(2) unfolding distinct_map by (metis inj_onD)
      then show ?thesis using ok b True epoch_reserved.hyps(7) drawn by simp
    next
      case False
      then show ?thesis using ok b drawn by simp
    qed
  qed
  have "k \<in> cs_checkpoint_id ` set (st_settlements s)" using r by (metis imageI)
  then show ?case
    using epoch_reserved.prems settlements approaches unfolding budget_ok_def by simp
qed (auto elim!: budget_ok_same intro!: effect_lookups intro: effect.intros)

lemma effects_budget: "effects s s' \<Longrightarrow> budget_ok s \<Longrightarrow> budget_ok s'"
  by (induction rule: rtranclp_induct) (auto intro: effect_budget)

lemma budget_ok_empty: "budget_ok empty_store"
  by (simp add: budget_ok_def empty_store_def)

section \<open>Properties of the durable task state\<close>

text \<open>
  C25. A scope never has two tasks in the foreground, and the query finds the one there is: after
  any run of workspace operations by any scopes on an empty store, at most one row of a scope is
  running, waiting, paused or yielded, and the foreground task of the scope is that row.
\<close>

theorem one_foreground_task:
  "length (filter (\<lambda>t. tk_scope_key t = sc_key scope \<and> foreground t) (st_tasks (task_run show_other ops empty_store))) \<le> 1 \<and>
   (get_foreground_task scope (task_run show_other ops empty_store) = Some t \<longleftrightarrow>
      t \<in> set (st_tasks (task_run show_other ops empty_store)) \<and> tk_scope_key t = sc_key scope \<and> foreground t)"
proof -
  let ?s = "task_run show_other ops empty_store"
  let ?rows = "filter (\<lambda>t. tk_scope_key t = sc_key scope \<and> foreground t) (st_tasks ?s)"
  have "one_foreground (st_tasks ?s)" using task_run_ok [OF tables_ok_empty, of show_other ops] by (simp add: tables_ok_def)
  then have "distinct (map tk_scope_key (filter (\<lambda>t. tk_scope_key t = sc_key scope) (filter foreground (st_tasks ?s))))"
    unfolding one_foreground_def by (rule distinct_map_filter)
  moreover have "filter (\<lambda>t. tk_scope_key t = sc_key scope) (filter foreground (st_tasks ?s)) = ?rows"
    by (simp add: conj_commute)
  ultimately have d: "distinct (map tk_scope_key ?rows)" by (simp only:)
  have "set (map tk_scope_key ?rows) \<subseteq> {sc_key scope}" by auto
  then have "card (set (map tk_scope_key ?rows)) \<le> 1" by (metis card.empty card.insert card_mono empty_iff finite.intros One_nat_def)
  then have one: "length ?rows \<le> 1" using distinct_card [OF d] by simp
  show ?thesis
  proof (cases ?rows)
    case Nil
    then have "\<not> (tk_scope_key t = sc_key scope \<and> foreground t)" if "t \<in> set (st_tasks ?s)"
      using that unfolding filter_empty_conv by blast
    then show ?thesis using Nil by (auto simp: get_foreground_task_def)
  next
    case (Cons x xs)
    then have x: "?rows = [x]" using one by simp
    then have "get_foreground_task scope ?s = Some x" by (simp add: get_foreground_task_def)
    moreover have "t \<in> set ?rows \<longleftrightarrow> t = x" unfolding x by simp
    ultimately show ?thesis using one by auto
  qed
qed

text \<open>
  C26. A task that has left the foreground is settled for good: whatever any scope does through its
  workspace later, its row, its plan with the steps, and its checkpoints stay as they are.
\<close>

theorem settled_task_is_frozen:
  assumes "get_task i (task_run show_other earlier empty_store) = Some t" and "\<not> foreground t"
  shows "get_task i (task_run show_other (earlier @ later) empty_store) = Some t \<and>
    get_plan i (task_run show_other (earlier @ later) empty_store) = get_plan i (task_run show_other earlier empty_store) \<and>
    list_task_checkpoints i (task_run show_other (earlier @ later) empty_store) =
      list_task_checkpoints i (task_run show_other earlier empty_store)"
proof -
  let ?s = "task_run show_other earlier empty_store"
  have "tables_ok ?s" using task_run_ok [OF tables_ok_empty] by blast
  then have "moves_on ?s (task_run show_other later ?s)" using task_run_ok by blast
  then show ?thesis using assms unfolding moves_on_def by fastforce
qed

text \<open>
  The checkpoints of a task are its history: ordered by revision no two share one, none is
  ahead of the task's own revision, and the task's latest checkpoint is the last of the list (the
  two queries that completion review relies on agree).
\<close>

lemma checkpoints_are_a_history:
  assumes "get_task i (task_run show_other ops empty_store) = Some t"
  shows "sorted_wrt (<) (map ck_revision (list_task_checkpoints i (task_run show_other ops empty_store))) \<and>
    (\<forall>c\<in>set (list_task_checkpoints i (task_run show_other ops empty_store)). ck_revision c \<le> tk_revision t) \<and>
    get_latest_checkpoint i (task_run show_other ops empty_store) =
      (if list_task_checkpoints i (task_run show_other ops empty_store) = [] then None
       else Some (last (list_task_checkpoints i (task_run show_other ops empty_store))))"
proof -
  have "ledger_ok (task_run show_other ops empty_store)"
    using effects_ledger [OF task_run_effect [OF tables_ok_empty] ledger_ok_empty] .
  from task_history [OF this assms] show ?thesis by blast
qed

text \<open>
  C27. Epochs are reserved within both budgets: after any run, the epochs reserved for a checkpoint
  do not exceed the budget of its continuation contract (none without a contract), and those
  reserved for all the checkpoints that follow one approach do not exceed that approach's limit.
\<close>

theorem epochs_within_budget:
  assumes "get_checkpoint k (task_run show_other ops empty_store) = Some c"
  shows "int (epochs_spent k (task_run show_other ops empty_store)) \<le>
      (case ck_continuation c of None \<Rightarrow> 0 | Some q \<Rightarrow> max 0 (cc_bounded_epoch_budget q)) \<and>
    (\<forall>a\<in>set (st_approaches (task_run show_other ops empty_store)).
       int (drawn (approach_id a) (task_run show_other ops empty_store)) \<le> cv_budget_limit a)"
proof -
  let ?s = "task_run show_other ops empty_store"
  have ok: "budget_ok ?s" using effects_budget [OF task_run_effect [OF tables_ok_empty] budget_ok_empty] .
  have "int (epochs_spent k ?s) \<le> (case ck_continuation c of None \<Rightarrow> 0 | Some q \<Rightarrow> max 0 (cc_bounded_epoch_budget q))"
  proof (cases "k \<in> cs_checkpoint_id ` set (st_settlements ?s)")
    case True
    then obtain r where "r \<in> set (st_settlements ?s)" "cs_checkpoint_id r = k" by blast
    then have "settlement_ok ?s r" "cs_checkpoint_id r = k" using ok by (simp_all add: budget_ok_def)
    then show ?thesis using assms by (auto simp: settlement_ok_def)
  next
    case False
    then have "epochs_spent k ?s = 0" using ok by (auto simp: epochs_spent_def filter_empty_conv budget_ok_def)
    then show ?thesis by (simp split: option.split)
  qed
  then show ?thesis using ok by (simp add: budget_ok_def)
qed

section \<open>A sample run\<close>

definition demo_scope :: runtime_scope where
  "demo_scope = \<lparr>sc_server_id = ''local'', sc_world_id = ''w'', sc_bot_id = ''ada'', sc_key = ''k''\<rparr>"

definition demo_contract :: continuation_contract where
  "demo_contract = \<lparr>cc_objective = ''dig'', cc_operation_class = OC_MATERIAL, cc_target_descriptor = [],
     cc_expected_evidence = [''stone''], cc_bounded_epoch_budget = 1, cc_approach_key = ''approach:1'',
     cc_evidence_cursor = 0, cc_generation = 0\<rparr>"

definition demo_continue :: checkpoint_input where
  "demo_continue = \<lparr>ci_disposition = DP_CONTINUE, ci_summary = ''dug'', ci_next_step = [], ci_evidence = [],
     ci_wait_for = [], ci_body_fingerprint = None, ci_continuation = Some demo_contract\<rparr>"

definition demo_ops :: "(runtime_scope \<times> task_op) list" where
  "demo_ops = map (Pair demo_scope)
     [Start ''1'' ''mine'' ''user'' [] ''0'', Checkpoint 1 demo_continue ''1'' ''1'',
      SettleApproach ''checkpoint-1'' ''task-1'' ''approach:1'' 1 0 ''2'', ReserveEpoch ''checkpoint-1'' ''e1'' ''3'',
      ReserveEpoch ''checkpoint-1'' ''e2'' ''4'']"

lemma demo_task:
  "map_option (\<lambda>t. (tk_status t, tk_revision t)) (get_task ''task-1'' (task_run (\<lambda>_. []) demo_ops empty_store)) =
     Some (TK_RUNNING, 2)"
  by code_simp

lemma demo_spent:
  "epochs_spent ''checkpoint-1'' (task_run (\<lambda>_. []) demo_ops empty_store) = 1 \<and>
   map_option ck_continuation (get_checkpoint ''checkpoint-1'' (task_run (\<lambda>_. []) demo_ops empty_store)) =
     Some (Some demo_contract)"
  by code_simp

theorem checkpoints_are_a_history_witness:
  "\<exists>t. get_task ''task-1'' (task_run (\<lambda>_. []) demo_ops empty_store) = Some t \<and> tk_revision t = 2 \<and>
     (\<forall>c\<in>set (list_task_checkpoints ''task-1'' (task_run (\<lambda>_. []) demo_ops empty_store)). ck_revision c \<le> 2)"
proof -
  from demo_task obtain t where t: "get_task ''task-1'' (task_run (\<lambda>_. []) demo_ops empty_store) = Some t" "tk_revision t = 2"
    by auto
  with checkpoints_are_a_history [OF t(1)] show ?thesis by auto
qed

theorem epochs_within_budget_witness:
  "int (epochs_spent ''checkpoint-1'' (task_run (\<lambda>_. []) demo_ops empty_store)) \<le> max 0 (cc_bounded_epoch_budget demo_contract)"
proof -
  from demo_spent obtain c where c: "get_checkpoint ''checkpoint-1'' (task_run (\<lambda>_. []) demo_ops empty_store) = Some c"
      "ck_continuation c = Some demo_contract" by auto
  from conjunct1 [OF epochs_within_budget [OF c(1)]] show ?thesis using c(2) by simp
qed

theorem settled_task_is_frozen_witness:
  "\<exists>t. get_task ''task-1'' (task_run (\<lambda>_. []) (demo_ops @ [(demo_scope, Cancel ''5'')]) empty_store) = Some t \<and>
     get_task ''task-1'' (task_run (\<lambda>_. []) ((demo_ops @ [(demo_scope, Cancel ''5'')]) @ [(demo_scope, Resume ''6'')]) empty_store) = Some t"
proof -
  have "map_option foreground (get_task ''task-1'' (task_run (\<lambda>_. []) (demo_ops @ [(demo_scope, Cancel ''5'')]) empty_store)) = Some False"
    by code_simp
  then obtain t where t: "get_task ''task-1'' (task_run (\<lambda>_. []) (demo_ops @ [(demo_scope, Cancel ''5'')]) empty_store) = Some t"
      "\<not> foreground t" by auto
  show ?thesis using settled_task_is_frozen [OF t] t(1) by blast
qed

end
