(* ===== verification/Intent_Store.thy ===== *)
theory Intent_Store
  imports Task_Store Work_Queue
begin

text \<open>
  The table \<open>work_intents\<close> of \<open>minebot/app/runtime_state.py\<close> and the durable queue over it,
  \<open>PersistentWorkIntentQueue\<close> of \<open>minebot/app/work_queue.py\<close>: admission under the unique dedupe
  index, leases with an owner and an expiry, finishing by the lease's revision, supersession,
  abandonment at start-up, and the recovery accounting under the current lease. A lease's expiry
  is an argument, as the other clock texts are.
\<close>

section \<open>Rows\<close>

definition rows_of :: "runtime_scope \<Rightarrow> runtime_store \<Rightarrow> intent_row list" where
  "rows_of scope s = filter (\<lambda>r. iw_scope_key r = sc_key scope) (st_intents s)"

definition handle_of :: "intent_row \<Rightarrow> work_intent" where
  "handle_of r = work_intent.truncate r"

definition get_work_intent :: "string \<Rightarrow> runtime_store \<Rightarrow> intent_row option" where
  "get_work_intent intent_id s = find (\<lambda>r. wi_intent_id r = intent_id) (st_intents s)"

text \<open>\<open>ORDER BY created_at ASC LIMIT 1\<close>\<close>

definition get_work_intent_by_dedupe :: "runtime_scope \<Rightarrow> string \<Rightarrow> runtime_store \<Rightarrow> intent_row option" where
  "get_work_intent_by_dedupe scope key s =
     (case sort_key iw_created_at (filter (\<lambda>r. wi_dedupe_key r = Some key) (rows_of scope s)) of
        [] \<Rightarrow> None
      | r # _ \<Rightarrow> Some r)"

text \<open>\<open>ORDER BY priority DESC, created_at ASC, intent_id ASC\<close>\<close>

definition by_urgency :: "intent_row list \<Rightarrow> intent_row list" where
  "by_urgency rows = sort_key (\<lambda>r. - int (wi_priority r)) (sort_key iw_created_at (sort_key wi_intent_id rows))"

definition kind_matches :: "work_intent_kind option \<Rightarrow> intent_row \<Rightarrow> bool" where
  "kind_matches kind r \<longleftrightarrow> kind = None \<or> Some (wi_kind r) = kind"

definition list_queued_work_intents :: "runtime_scope \<Rightarrow> work_intent_kind option \<Rightarrow> runtime_store \<Rightarrow> intent_row list" where
  "list_queued_work_intents scope kind s =
     by_urgency (filter (\<lambda>r. wi_state r = WS_QUEUED \<and> kind_matches kind r) (rows_of scope s))"

definition queued_work_intent_count :: "runtime_scope \<Rightarrow> runtime_store \<Rightarrow> nat" where
  "queued_work_intent_count scope s = length (filter (\<lambda>r. wi_state r = WS_QUEUED) (rows_of scope s))"

definition work_intent_count :: "runtime_scope \<Rightarrow> work_intent_kind \<Rightarrow> string \<Rightarrow> runtime_store \<Rightarrow> nat" where
  "work_intent_count scope kind task_id s =
     length (filter (\<lambda>r. wi_kind r = kind \<and> wi_task_id r = Some task_id) (rows_of scope s))"

section \<open>Admission\<close>

text \<open>
  The primary key, the unique index over the dedupe keys of a scope and the foreign key to the
  tasks; a row that breaks one of them is an \<open>IntegrityError\<close>.
\<close>

definition insert_intent :: "intent_row \<Rightarrow> runtime_store \<Rightarrow> runtime_store option" where
  "insert_intent r s =
     (if list_ex (\<lambda>x. wi_intent_id x = wi_intent_id r) (st_intents s)
         \<or> (wi_dedupe_key r \<noteq> None \<and>
            list_ex (\<lambda>x. iw_scope_key x = iw_scope_key r \<and> wi_dedupe_key x = wi_dedupe_key r) (st_intents s))
         \<or> (case wi_task_id r of None \<Rightarrow> False | Some i \<Rightarrow> get_task i s = None)
      then None else Some (s\<lparr>st_intents := st_intents s @ [r]\<rparr>))"

definition new_intent ::
  "runtime_scope \<Rightarrow> string \<Rightarrow> work_intent_kind \<Rightarrow> string \<Rightarrow> nat \<Rightarrow> json_object \<Rightarrow> string option \<Rightarrow> string option
   \<Rightarrow> int option \<Rightarrow> string \<Rightarrow> string \<Rightarrow> intent_row" where
  "new_intent scope fresh kind source priority payload dedupe_key task_id generation available_at now =
     \<lparr>wi_intent_id = ''intent-'' @ fresh, wi_revision = 1, wi_kind = kind, wi_source = source,
      wi_priority = priority, wi_payload = payload, wi_state = WS_QUEUED, wi_dedupe_key = dedupe_key,
      wi_task_id = task_id, wi_generation = generation, wi_attempt_count = 0,
      iw_scope_key = sc_key scope, iw_available_at = available_at, iw_created_at = now,
      iw_lease_owner = None, iw_lease_expires_at = None, iw_leased_at = None, iw_completed_at = None,
      iw_error = None\<rparr>"

definition normalized_key :: "string option \<Rightarrow> string option" where
  "normalized_key dedupe_key =
     (case dedupe_key of
        None \<Rightarrow> None
      | Some k \<Rightarrow> (if bounded_text 500 k = [] then None else Some (bounded_text 500 k)))"

definition enqueue_work_intent ::
  "runtime_scope \<Rightarrow> string \<Rightarrow> work_intent_kind \<Rightarrow> string \<Rightarrow> nat \<Rightarrow> json_object \<Rightarrow> string option \<Rightarrow> string option
   \<Rightarrow> int option \<Rightarrow> string option \<Rightarrow> string \<Rightarrow> runtime_store \<Rightarrow> (store_error + intent_row) \<times> runtime_store" where
  "enqueue_work_intent scope fresh kind source priority payload dedupe_key task_id generation available_at now s =
     (case register_scope scope s of
        (Some e, s1) \<Rightarrow> (Inl e, s1)
      | (None, s1) \<Rightarrow>
          (case required_text ''source'' 128 source of
             Inl e \<Rightarrow> (Inl e, s1)
           | Inr src \<Rightarrow>
               (let key = normalized_key dedupe_key;
                    r = new_intent scope fresh kind src priority payload key task_id generation
                          (case available_at of None \<Rightarrow> now | Some a \<Rightarrow> a) now
                in case insert_intent r s1 of
                  Some s2 \<Rightarrow> (Inr r, s2)
                | None \<Rightarrow>
                    (case (case key of None \<Rightarrow> None | Some k \<Rightarrow> get_work_intent_by_dedupe scope k s1) of
                       None \<Rightarrow> (Inl IntentInsertFailed, s1)
                     | Some existing \<Rightarrow> (Inr existing, s1)))))"

text \<open>
  A continuation is issued for the checkpoint only while it is the latest of a running task and
  its contract is of the given generation.
\<close>

definition continuation_live :: "runtime_scope \<Rightarrow> string \<Rightarrow> int \<Rightarrow> string \<Rightarrow> int \<Rightarrow> runtime_store \<Rightarrow> bool" where
  "continuation_live scope checkpoint_id checkpoint_revision task_id generation s \<longleftrightarrow>
     (case do {
        c \<leftarrow> get_checkpoint checkpoint_id s;
        t \<leftarrow> get_task task_id s;
        if ck_task_id c = task_id \<and> tk_scope_key t = sc_key scope \<and> ck_revision c = checkpoint_revision
           \<and> tk_latest_checkpoint_id t = Some checkpoint_id \<and> ck_disposition c = DP_CONTINUE
           \<and> tk_status t = TK_RUNNING
        then ck_continuation c else None
      } of
        None \<Rightarrow> False
      | Some contract \<Rightarrow> cc_generation contract = generation)"

definition issue_checkpoint_continuation ::
  "runtime_scope \<Rightarrow> string \<Rightarrow> string \<Rightarrow> int \<Rightarrow> string \<Rightarrow> int \<Rightarrow> work_intent_kind \<Rightarrow> string \<Rightarrow> nat \<Rightarrow> json_object
   \<Rightarrow> string \<Rightarrow> string \<Rightarrow> runtime_store \<Rightarrow> (store_error + intent_row option) \<times> runtime_store" where
  "issue_checkpoint_continuation scope fresh checkpoint_id checkpoint_revision task_id generation kind source
     priority payload dedupe_key now s =
     (case register_scope scope s of
        (Some e, s1) \<Rightarrow> (Inl e, s1)
      | (None, s1) \<Rightarrow>
          (case required_text ''dedupe_key'' 500 dedupe_key of
             Inl e \<Rightarrow> (Inl e, s1)
           | Inr key \<Rightarrow>
               (if \<not> continuation_live scope checkpoint_id checkpoint_revision task_id generation s1 then (Inr None, s1)
                else case get_work_intent_by_dedupe scope key s1 of
                  Some existing \<Rightarrow> (Inr (Some existing), s1)
                | None \<Rightarrow>
                    (case required_text ''source'' 128 source of
                       Inl e \<Rightarrow> (Inl e, s1)
                     | Inr src \<Rightarrow>
                         (let r = new_intent scope fresh kind src priority payload (Some key) (Some task_id)
                                (Some generation) now now
                          in case insert_intent r s1 of
                            None \<Rightarrow> (Inl IntegrityViolated, s1)
                          | Some s2 \<Rightarrow> (Inr (Some r), s2))))))"

section \<open>Leases\<close>

definition map_intents :: "(intent_row \<Rightarrow> intent_row) \<Rightarrow> runtime_store \<Rightarrow> runtime_store" where
  "map_intents f s = s\<lparr>st_intents := map f (st_intents s)\<rparr>"

definition lease_expired :: "runtime_scope \<Rightarrow> work_intent_kind option \<Rightarrow> string \<Rightarrow> intent_row \<Rightarrow> bool" where
  "lease_expired scope kind now r \<longleftrightarrow>
     iw_scope_key r = sc_key scope \<and> wi_state r = WS_LEASED \<and> kind_matches kind r \<and>
     (case iw_lease_expires_at r of None \<Rightarrow> False | Some e \<Rightarrow> e \<le> now)"

definition requeue :: "intent_row \<Rightarrow> intent_row" where
  "requeue r = r\<lparr>wi_state := WS_QUEUED, wi_revision := wi_revision r + 1, iw_lease_owner := None,
     iw_lease_expires_at := None, iw_leased_at := None\<rparr>"

definition take_lease :: "string \<Rightarrow> string \<Rightarrow> string \<Rightarrow> intent_row \<Rightarrow> intent_row" where
  "take_lease lease_owner expires_at now r = r\<lparr>wi_state := WS_LEASED, wi_revision := wi_revision r + 1,
     wi_attempt_count := wi_attempt_count r + 1, iw_lease_owner := Some lease_owner,
     iw_lease_expires_at := Some expires_at, iw_leased_at := Some now\<rparr>"

definition lease_next_work_intent ::
  "runtime_scope \<Rightarrow> string \<Rightarrow> string \<Rightarrow> work_intent_kind option \<Rightarrow> string \<Rightarrow> runtime_store
   \<Rightarrow> (store_error + intent_row option) \<times> runtime_store" where
  "lease_next_work_intent scope lease_owner expires_at kind now s =
     (let s1 = map_intents (\<lambda>r. if lease_expired scope kind now r then requeue r else r) s
      in case filter (\<lambda>r. iw_available_at r \<le> now) (list_queued_work_intents scope kind s1) of
        [] \<Rightarrow> (Inr None, s1)
      | row # _ \<Rightarrow>
          (case required_text ''lease_owner'' 256 lease_owner of
             Inl e \<Rightarrow> (Inl e, s)
           | Inr owner \<Rightarrow>
               (let leased = take_lease owner expires_at now row
                in (Inr (Some leased),
                    map_intents (\<lambda>r. if wi_intent_id r = wi_intent_id row then leased else r) s1))))"

text \<open>
  The rows a reconciled start-up attempt retires: failed ones whose outcome a restart left
  unknown and that no one has reconciled yet.
\<close>

definition unknown_outcome :: "string \<Rightarrow> intent_row \<Rightarrow> bool" where
  "unknown_outcome reason r \<longleftrightarrow>
     wi_state r = WS_FAILED \<and>
     (case iw_error r of
        None \<Rightarrow> False
      | Some d \<Rightarrow> dget d ''reason'' = JStr reason \<and> dget d ''reconciled_by'' = JNull)"

fun orphan_ids :: "json \<Rightarrow> string list option" where
  "orphan_ids (JList xs) =
     Some (concat (map (\<lambda>x. case x of JDict d \<Rightarrow> (case dget d ''intent_id'' of JStr i \<Rightarrow> [i] | _ \<Rightarrow> []) | _ \<Rightarrow> []) xs))"
| "orphan_ids (JBool True) = None"
| "orphan_ids (JInt i) = (if i = 0 then Some [] else None)"
| "orphan_ids (JFloat q) = (if truthy (JFloat q) then None else Some [])"
| "orphan_ids _ = Some []"

definition retire_reconciled_orphans ::
  "intent_row \<Rightarrow> json_object \<Rightarrow> runtime_store \<Rightarrow> store_error + runtime_store" where
  "retire_reconciled_orphans row payload s =
     (if wi_kind row \<noteq> WK_RECOVERY_RECONCILE \<or> wi_source row \<noteq> ''startup_reconcile'' then Inr s
      else case orphan_ids (dget payload ''orphaned_intents'') of
        None \<Rightarrow> Inl (PyError TypeError)
      | Some ids \<Rightarrow>
          Inr (map_intents (\<lambda>r. if wi_intent_id r \<in> set ids \<and> iw_scope_key r = iw_scope_key row
                \<and> unknown_outcome ''process_restart_unknown_outcome'' r
              then r\<lparr>iw_error := map_option (AList.update ''reconciled_by'' (JStr (wi_intent_id row))) (iw_error r)\<rparr>
              else r) s))"

definition finish_work_intent ::
  "string \<Rightarrow> nat \<Rightarrow> work_intent_state \<Rightarrow> json_object option \<Rightarrow> string \<Rightarrow> runtime_store
   \<Rightarrow> (store_error + intent_row) \<times> runtime_store" where
  "finish_work_intent intent_id expected_revision state error now s =
     (if state \<notin> {WS_COMPLETED, WS_SUPERSEDED, WS_FAILED}
      then (Inl (BadValue ''invalid terminal work intent state''), s)
      else case find (\<lambda>r. wi_intent_id r = intent_id \<and> wi_revision r = expected_revision \<and> wi_state r = WS_LEASED)
                (st_intents s) of
        None \<Rightarrow> (Inl (IntentRevisionConflict intent_id (int expected_revision)), s)
      | Some current \<Rightarrow>
          (let finished = current\<lparr>wi_state := state, wi_revision := wi_revision current + 1,
                 iw_completed_at := Some now, iw_lease_owner := None, iw_lease_expires_at := None, iw_error := error\<rparr>;
               s1 = map_intents (\<lambda>r. if wi_intent_id r = intent_id then finished else r) s
           in case (if state = WS_COMPLETED then retire_reconciled_orphans finished (wi_payload finished) s1 else Inr s1) of
             Inl e \<Rightarrow> (Inl e, s)
           | Inr s2 \<Rightarrow>
               (case get_work_intent intent_id s2 of None \<Rightarrow> (Inl AssertionFailed, s2) | Some r \<Rightarrow> (Inr r, s2))))"

definition supersede_queued_work_intents ::
  "runtime_scope \<Rightarrow> work_intent_kind set \<Rightarrow> string \<Rightarrow> string \<Rightarrow> runtime_store \<Rightarrow> nat \<times> runtime_store" where
  "supersede_queued_work_intents scope kinds reason now s =
     (let hit = (\<lambda>r. iw_scope_key r = sc_key scope \<and> wi_state r = WS_QUEUED \<and> wi_kind r \<in> kinds)
      in (length (filter hit (st_intents s)),
          map_intents (\<lambda>r. if hit r
            then r\<lparr>wi_state := WS_SUPERSEDED, wi_revision := wi_revision r + 1, iw_completed_at := Some now,
                   iw_error := Some [(''reason'', JStr reason)]\<rparr>
            else r) s))"

definition abandon_leased_work_intents ::
  "runtime_scope \<Rightarrow> string \<Rightarrow> string \<Rightarrow> runtime_store \<Rightarrow> intent_row list \<times> runtime_store" where
  "abandon_leased_work_intents scope reason now s =
     (sort_key (\<lambda>r. case iw_leased_at r of None \<Rightarrow> [] | Some t \<Rightarrow> t)
        (sort_key iw_created_at
          (filter (\<lambda>r. wi_state r = WS_LEASED \<or> unknown_outcome reason r) (rows_of scope s))),
      map_intents (\<lambda>r. if iw_scope_key r = sc_key scope \<and> wi_state r = WS_LEASED
        then r\<lparr>wi_state := WS_FAILED, wi_revision := wi_revision r + 1, iw_lease_owner := None,
               iw_lease_expires_at := None, iw_completed_at := Some now, iw_error := Some [(''reason'', JStr reason)]\<rparr>
        else r) s)"

section \<open>Accounting under a lease\<close>

definition leased_row ::
  "runtime_scope \<Rightarrow> string \<Rightarrow> nat \<Rightarrow> string \<Rightarrow> bool \<Rightarrow> string \<Rightarrow> runtime_store \<Rightarrow> store_error + intent_row" where
  "leased_row scope intent_id revision lease_owner require_live now s =
     (case find (\<lambda>r. wi_intent_id r = intent_id \<and> iw_scope_key r = sc_key scope \<and> wi_revision r = revision
              \<and> wi_state r = WS_LEASED \<and> iw_lease_owner r = Some lease_owner
              \<and> (require_live \<longrightarrow> (case iw_lease_expires_at r of None \<Rightarrow> False | Some e \<Rightarrow> now < e))) (st_intents s) of
        None \<Rightarrow> Inl LeaseRequired
      | Some r \<Rightarrow> Inr r)"

definition set_payload :: "string \<Rightarrow> json_object \<Rightarrow> runtime_store \<Rightarrow> runtime_store" where
  "set_payload intent_id payload = map_intents (\<lambda>r. if wi_intent_id r = intent_id then r\<lparr>wi_payload := payload\<rparr> else r)"

definition read_intent :: "string \<Rightarrow> runtime_store \<Rightarrow> runtime_store \<Rightarrow> (store_error + intent_row) \<times> runtime_store" where
  "read_intent intent_id s before_it =
     (case get_work_intent intent_id s of None \<Rightarrow> (Inl AssertionFailed, before_it) | Some r \<Rightarrow> (Inr r, s))"

definition bind_work_intent_admission ::
  "runtime_scope \<Rightarrow> string \<Rightarrow> nat \<Rightarrow> string \<Rightarrow> string option \<Rightarrow> int \<Rightarrow> string option \<Rightarrow> string \<Rightarrow> runtime_store
   \<Rightarrow> (store_error + intent_row) \<times> runtime_store" where
  "bind_work_intent_admission scope intent_id revision lease_owner checkpoint_id evidence_cursor task_id now s =
     (case leased_row scope intent_id revision lease_owner True now s of
        Inl e \<Rightarrow> (Inl e, s)
      | Inr row \<Rightarrow>
          (let binding = admission_binding checkpoint_id evidence_cursor task_id
           in if evidence_cursor < 0 then (Inl (BadValue ''admission evidence cursor must be non-negative''), s)
              else if list_ex (\<lambda>(k, v). has_key (wi_payload row) k \<and> \<not> py_eq (dget (wi_payload row) k) v) binding
              then (Inl AdmissionBound, s)
              else let payload = put_all binding (wi_payload row)
              in case retire_reconciled_orphans row payload (set_payload intent_id payload s) of
                Inl e \<Rightarrow> (Inl e, s)
              | Inr s1 \<Rightarrow> read_intent intent_id s1 s))"

definition reserve_recovery ::
  "runtime_scope \<Rightarrow> string \<Rightarrow> nat \<Rightarrow> string \<Rightarrow> int \<Rightarrow> string \<Rightarrow> runtime_store
   \<Rightarrow> (store_error + intent_row option) \<times> runtime_store" where
  "reserve_recovery scope intent_id revision lease_owner max_attempts now s =
     (case leased_row scope intent_id revision lease_owner True now s of
        Inl e \<Rightarrow> (Inl e, s)
      | Inr row \<Rightarrow>
          (case next_recovery_admission (wi_payload row) (map handle_of (rows_of scope s)) intent_id max_attempts of
             Inl e \<Rightarrow> (Inl (RecoveryFailed e), s)
           | Inr None \<Rightarrow>
               (Inr None, set_payload intent_id
                  (AList.update ''recovery_admission_denied'' (JBool True) (wi_payload row)) s)
           | Inr (Some a) \<Rightarrow>
               map_prod (map_sum id Some) id (read_intent intent_id (set_payload intent_id
                  (AList.update ''recovery_admission'' (admission_payload a) (wi_payload row)) s) s)))"

text \<open>Recording an owned result does not ask for a live lease.\<close>

definition confirm_recovery_row ::
  "runtime_scope \<Rightarrow> string \<Rightarrow> nat \<Rightarrow> string \<Rightarrow> string \<Rightarrow> runtime_store \<Rightarrow> (store_error + intent_row) \<times> runtime_store" where
  "confirm_recovery_row scope intent_id revision lease_owner now s =
     (case leased_row scope intent_id revision lease_owner False now s of
        Inl e \<Rightarrow> (Inl e, s)
      | Inr row \<Rightarrow>
          (case confirmed_recovery_payload (wi_payload row) of
             Inl e \<Rightarrow> (Inl (RecoveryFailed e), s)
           | Inr payload \<Rightarrow> read_intent intent_id (set_payload intent_id payload s) s))"

definition reconcile_recovery_row ::
  "runtime_scope \<Rightarrow> string \<Rightarrow> nat \<Rightarrow> string \<Rightarrow> body_state \<Rightarrow> string \<Rightarrow> runtime_store
   \<Rightarrow> store_error option \<times> runtime_store" where
  "reconcile_recovery_row scope intent_id revision lease_owner state now s =
     (case leased_row scope intent_id revision lease_owner True now s of
        Inl e \<Rightarrow> (Some e, s)
      | Inr row \<Rightarrow>
          (if map_option tk_task_id (get_foreground_task scope s) = None
              \<or> map_option tk_task_id (get_foreground_task scope s) \<noteq> wi_task_id row then (Some RecoveryTaskChanged, s)
           else if bs_bot state \<noteq> sc_bot_id scope then (None, s)
           else case reconciled_recovery_payload (handle_of row) (map handle_of (rows_of scope s)) state of
             Inl e \<Rightarrow> (Some (RecoveryFailed e), s)
           | Inr settlement \<Rightarrow>
               (let s1 = (case settlement of None \<Rightarrow> s | Some (target, payload) \<Rightarrow> set_payload target payload s)
                in (None, if has_key (wi_payload row) ''recovery_reconciled_intent_id'' then s1
                          else set_payload intent_id
                            (AList.update ''recovery_reconciled_intent_id''
                               (case settlement of None \<Rightarrow> JNull | Some (t, _) \<Rightarrow> JStr t) (wi_payload row)) s1))))"

section \<open>The durable queue\<close>

text \<open>
  The queue of one scope and one lease owner: the store, the event the scheduler waits for and
  the notification counter.
\<close>

record durable_queue =
  dq_store :: runtime_store
  dq_available :: bool
  dq_version :: nat

definition dq_refresh :: "runtime_scope \<Rightarrow> durable_queue \<Rightarrow> durable_queue" where
  "dq_refresh scope q = q\<lparr>dq_available := (queued_work_intent_count scope (dq_store q) > 0)\<rparr>"

text \<open>Opening the queue abandons what an earlier process had leased and drops its quits.\<close>

definition dq_open :: "runtime_scope \<Rightarrow> string \<Rightarrow> runtime_store \<Rightarrow> (work_intent list \<times> nat) \<times> durable_queue" where
  "dq_open scope now s =
     (case abandon_leased_work_intents scope ''process_restart_unknown_outcome'' now s of
        (orphans, s1) \<Rightarrow>
          (case supersede_queued_work_intents scope {WK_QUIT} ''earlier_process_quit'' now s1 of
             (stale_quits, s2) \<Rightarrow>
               ((map handle_of orphans, stale_quits),
                dq_refresh scope \<lparr>dq_store = s2, dq_available = False, dq_version = 0\<rparr>)))"

definition dq_enqueue ::
  "runtime_scope \<Rightarrow> string \<Rightarrow> work_intent_kind \<Rightarrow> string \<Rightarrow> json_object \<Rightarrow> string option \<Rightarrow> string option \<Rightarrow> int option
   \<Rightarrow> string \<Rightarrow> durable_queue \<Rightarrow> (store_error + work_intent) \<times> durable_queue" where
  "dq_enqueue scope fresh kind source payload dedupe_key task_id generation now q =
     (case enqueue_work_intent scope fresh kind source (intent_priority kind) payload dedupe_key task_id generation
             None now (dq_store q) of
        (Inl e, s) \<Rightarrow> (Inl e, q\<lparr>dq_store := s\<rparr>)
      | (Inr r, s) \<Rightarrow>
          (Inr (handle_of r),
           if wi_state r = WS_QUEUED
           then q\<lparr>dq_store := s, dq_version := dq_version q + 1, dq_available := True\<rparr>
           else q\<lparr>dq_store := s\<rparr>))"

definition dq_lease_next ::
  "runtime_scope \<Rightarrow> string \<Rightarrow> string \<Rightarrow> work_intent_kind option \<Rightarrow> string \<Rightarrow> durable_queue
   \<Rightarrow> (store_error + work_intent option) \<times> durable_queue" where
  "dq_lease_next scope lease_owner expires_at kind now q =
     (case lease_next_work_intent scope lease_owner expires_at kind now (dq_store q) of
        (Inl e, s) \<Rightarrow> (Inl e, q\<lparr>dq_store := s\<rparr>)
      | (Inr r, s) \<Rightarrow> (Inr (map_option handle_of r), dq_refresh scope (q\<lparr>dq_store := s\<rparr>)))"

definition dq_finish ::
  "runtime_scope \<Rightarrow> work_intent \<Rightarrow> work_intent_state \<Rightarrow> json_object option \<Rightarrow> string \<Rightarrow> durable_queue
   \<Rightarrow> (store_error + work_intent) \<times> durable_queue" where
  "dq_finish scope intent state error now q =
     (case finish_work_intent (wi_intent_id intent) (wi_revision intent) state error now (dq_store q) of
        (Inl e, s) \<Rightarrow> (Inl e, q\<lparr>dq_store := s\<rparr>)
      | (Inr r, s) \<Rightarrow> (Inr (handle_of r), dq_refresh scope (q\<lparr>dq_store := s\<rparr>)))"

definition dq_complete :: "runtime_scope \<Rightarrow> work_intent \<Rightarrow> string \<Rightarrow> durable_queue \<Rightarrow> (store_error + work_intent) \<times> durable_queue" where
  "dq_complete scope intent = dq_finish scope intent WS_COMPLETED None"

definition dq_fail ::
  "runtime_scope \<Rightarrow> work_intent \<Rightarrow> json_object \<Rightarrow> string \<Rightarrow> durable_queue \<Rightarrow> (store_error + work_intent) \<times> durable_queue" where
  "dq_fail scope intent error = dq_finish scope intent WS_FAILED (Some error)"

definition dq_supersede_active ::
  "runtime_scope \<Rightarrow> work_intent \<Rightarrow> string \<Rightarrow> string \<Rightarrow> durable_queue \<Rightarrow> (store_error + work_intent) \<times> durable_queue" where
  "dq_supersede_active scope intent reason = dq_finish scope intent WS_SUPERSEDED (Some [(''reason'', JStr reason)])"

definition dq_supersede ::
  "runtime_scope \<Rightarrow> work_intent_kind set \<Rightarrow> string \<Rightarrow> string \<Rightarrow> durable_queue \<Rightarrow> nat \<times> durable_queue" where
  "dq_supersede scope kinds reason now q =
     (case supersede_queued_work_intents scope kinds reason now (dq_store q) of
        (changed, s) \<Rightarrow>
          (changed, dq_refresh scope (q\<lparr>dq_store := s,
             dq_version := (if changed \<noteq> 0 then dq_version q + 1 else dq_version q)\<rparr>)))"

definition dq_bind_admission ::
  "runtime_scope \<Rightarrow> string \<Rightarrow> work_intent \<Rightarrow> string option \<Rightarrow> int \<Rightarrow> string option \<Rightarrow> string \<Rightarrow> durable_queue
   \<Rightarrow> (store_error + work_intent) \<times> durable_queue" where
  "dq_bind_admission scope lease_owner intent checkpoint_id evidence_cursor task_id now q =
     map_prod (map_sum id handle_of) (\<lambda>s. q\<lparr>dq_store := s\<rparr>)
       (bind_work_intent_admission scope (wi_intent_id intent) (wi_revision intent) lease_owner checkpoint_id
          evidence_cursor task_id now (dq_store q))"

definition dq_issue_task_continuation ::
  "runtime_scope \<Rightarrow> string \<Rightarrow> string \<Rightarrow> int \<Rightarrow> string \<Rightarrow> json_object \<Rightarrow> string \<Rightarrow> int \<Rightarrow> string \<Rightarrow> durable_queue
   \<Rightarrow> (store_error + work_intent option) \<times> durable_queue" where
  "dq_issue_task_continuation scope fresh checkpoint_id checkpoint_revision task_id payload dedupe_key generation now q =
     (let existing = get_work_intent_by_dedupe scope dedupe_key (dq_store q)
      in case issue_checkpoint_continuation scope fresh checkpoint_id checkpoint_revision task_id generation
                WK_TASK_CONTINUE ''task_checkpoint_continue'' (intent_priority WK_TASK_CONTINUE) payload dedupe_key now
                (dq_store q) of
        (Inl e, s) \<Rightarrow> (Inl e, q\<lparr>dq_store := s\<rparr>)
      | (Inr None, s) \<Rightarrow> (Inr None, q\<lparr>dq_store := s\<rparr>)
      | (Inr (Some r), s) \<Rightarrow>
          (Inr (Some (handle_of r)),
           if existing = None \<and> wi_state r = WS_QUEUED
           then q\<lparr>dq_store := s, dq_version := dq_version q + 1, dq_available := True\<rparr>
           else q\<lparr>dq_store := s\<rparr>))"

end
