(* ===== verification/Durable_Queue.thy ===== *)
theory Durable_Queue
  imports Intent_Store "HOL-Library.Multiset"
begin

text \<open>
  The durable queue against the in-memory one: as long as the clock moves on and no lease
  expires, the two answer every call alike.
\<close>

section \<open>Order\<close>

text \<open>The head of the urgency order is the first of the most urgent rows.\<close>

lemma sort_key_first:
  "(\<forall>x\<in>set l. f m < f x) \<Longrightarrow> (\<forall>x\<in>set r. f m \<le> f x) \<Longrightarrow> sort_key f (l @ m # r) = m # sort_key f (l @ r)"
proof (induction l)
  case Nil
  then show ?case by (simp add: insort_is_Cons)
next
  case (Cons y l)
  then show ?case by auto
qed

lemma sorted_by_created:
  assumes "sorted_wrt (<) (map iw_created_at rows)"
  shows "sort_key iw_created_at rows' = rows \<longleftrightarrow> mset rows' = mset rows"
proof -
  have "inj_on iw_created_at (set rows)" "sorted (map iw_created_at rows)"
    using assms strict_sorted_iff distinct_map by auto
  then show ?thesis using sort_key_inj_key_eq [of rows' rows iw_created_at] by (metis mset_eq_setD mset_sort)
qed

lemma created_filter:
  "sorted_wrt (<) (map iw_created_at rows) \<Longrightarrow> sorted_wrt (<) (map iw_created_at (filter P rows))"
  unfolding sorted_wrt_map by (rule sorted_wrt_filter)

lemma by_urgency_first:
  assumes "sorted_wrt (<) (map iw_created_at rows)" and "max_with wi_priority rows = Some m"
  shows "\<exists>rest. by_urgency rows = m # rest"
proof -
  have "sort_key iw_created_at (sort_key wi_intent_id rows) = rows" using sorted_by_created [OF assms(1)] by simp
  moreover obtain l r where "rows = l @ m # r" "\<forall>x\<in>set l. wi_priority x < wi_priority m"
      "\<forall>x\<in>set r. wi_priority x \<le> wi_priority m"
    using max_with_first [OF assms(2)] by blast
  ultimately show ?thesis using sort_key_first [of l "\<lambda>r. - int (wi_priority r)" m r] by (simp add: by_urgency_def)
qed

lemma by_urgency_empty [simp]: "by_urgency rows = [] \<longleftrightarrow> rows = []"
  unfolding by_urgency_def by (metis set_empty set_sort)

lemma set_by_urgency [simp]: "set (by_urgency rows) = set rows"
  by (simp add: by_urgency_def)

section \<open>Handles\<close>

lemma handle_fields [simp]:
  "wi_intent_id (handle_of r) = wi_intent_id r" "wi_revision (handle_of r) = wi_revision r"
  "wi_kind (handle_of r) = wi_kind r" "wi_source (handle_of r) = wi_source r"
  "wi_priority (handle_of r) = wi_priority r" "wi_payload (handle_of r) = wi_payload r"
  "wi_state (handle_of r) = wi_state r" "wi_dedupe_key (handle_of r) = wi_dedupe_key r"
  "wi_task_id (handle_of r) = wi_task_id r" "wi_generation (handle_of r) = wi_generation r"
  "wi_attempt_count (handle_of r) = wi_attempt_count r"
  by (simp_all add: handle_of_def work_intent.truncate_def)

lemma handle_eqI:
  "wi_intent_id h = wi_intent_id r \<Longrightarrow> wi_revision h = wi_revision r \<Longrightarrow> wi_kind h = wi_kind r \<Longrightarrow>
   wi_source h = wi_source r \<Longrightarrow> wi_priority h = wi_priority r \<Longrightarrow> wi_payload h = wi_payload r \<Longrightarrow>
   wi_state h = wi_state r \<Longrightarrow> wi_dedupe_key h = wi_dedupe_key r \<Longrightarrow> wi_task_id h = wi_task_id r \<Longrightarrow>
   wi_generation h = wi_generation r \<Longrightarrow> wi_attempt_count h = wi_attempt_count r \<Longrightarrow> h = handle_of r"
  by (rule work_intent.equality) simp_all

lemma first_max_handles: "first_max wi_priority (handle_of b) (map handle_of rows) = handle_of (first_max wi_priority b rows)"
  by (induction rows arbitrary: b) simp_all

lemma max_with_handles: "max_with wi_priority (map handle_of rows) = map_option handle_of (max_with wi_priority rows)"
  by (cases rows) (simp_all add: max_with_def first_max_handles)

section \<open>The queue a table shows\<close>

definition shown :: "intent_row list \<Rightarrow> (string, work_intent) pydict" where
  "shown rows = map (\<lambda>r. (wi_intent_id r, handle_of r)) rows"

lemma map_fst_shown [simp]: "map fst (shown rows) = map wi_intent_id rows"
  by (simp add: shown_def)

lemma map_snd_shown [simp]: "map snd (shown rows) = map handle_of rows"
  by (simp add: shown_def)

lemma map_of_shown: "map_of (shown rows) i = map_option handle_of (find (\<lambda>r. wi_intent_id r = i) rows)"
  by (induction rows) (simp_all add: shown_def)

lemma update_shown:
  assumes "distinct (map wi_intent_id rows)" and "i \<in> wi_intent_id ` set rows"
    and "\<And>r. r \<in> set rows \<Longrightarrow> wi_intent_id r = i \<Longrightarrow> handle_of (f r) = h"
    and "\<And>r. r \<in> set rows \<Longrightarrow> wi_intent_id r \<noteq> i \<Longrightarrow> handle_of (f r) = handle_of r"
    and "\<And>r. wi_intent_id (f r) = wi_intent_id r"
  shows "AList.update i h (shown rows) = shown (map f rows)"
  using assms
proof (induction rows)
  case (Cons r rows)
  show ?case
  proof (cases "wi_intent_id r = i")
    case True
    then have "i \<notin> wi_intent_id ` set rows" using Cons.prems(1) by auto
    then have "shown (map f rows) = shown rows"
      using Cons.prems(4,5) by (auto simp: shown_def image_iff)
    then show ?thesis using True Cons.prems(3,5) by (simp add: shown_def)
  next
    case False
    then have "AList.update i h (shown rows) = shown (map f rows)" using Cons by (intro Cons.IH) auto
    then show ?thesis using False Cons.prems(4,5) by (simp add: shown_def)
  qed
qed simp

lemma somes_shown:
  assumes "distinct (map wi_intent_id rows)"
  shows "somes (map (map_of (shown rows)) (map wi_intent_id rows)) = map handle_of rows"
proof -
  have "map (map_of (shown rows)) (map wi_intent_id rows) = map (Some \<circ> handle_of) rows"
  proof -
    have "find (\<lambda>x. wi_intent_id x = wi_intent_id r) rows = Some r" if "r \<in> set rows" for r
      using assms that by (induction rows) (auto simp: rev_image_eqI)
    then show ?thesis by (simp add: map_of_shown)
  qed
  moreover have "somes (map (Some \<circ> handle_of) rs) = map handle_of rs" for rs by (induction rs) (simp_all add: somes_def)
  ultimately show ?thesis by (simp only:)
qed

lemma rows_of_map_intents:
  "(\<And>r. iw_scope_key (f r) = iw_scope_key r) \<Longrightarrow> rows_of scope (map_intents f s) = map f (rows_of scope s)"
  by (simp add: rows_of_def map_intents_def filter_map o_def)

lemma rows_of_append [simp]:
  "rows_of scope (s\<lparr>st_intents := st_intents s @ [r]\<rparr>) = rows_of scope s @ (if iw_scope_key r = sc_key scope then [r] else [])"
  by (simp add: rows_of_def)

section \<open>Calls\<close>

datatype queue_call =
    CallEnqueue string work_intent_kind string json_object "string option" "string option" "int option"
  | CallLease "work_intent_kind option"
  | CallFinish work_intent work_intent_state "json_object option"
  | CallSupersede "work_intent_kind set" string

datatype queue_reply = Refused | Handle work_intent | Leased "work_intent option" | Changed nat

text \<open>A call with the clock text at which it is made and the expiry a lease would get.\<close>

type_synonym timed_call = "queue_call \<times> string \<times> string"

fun memory_call :: "timed_call \<Rightarrow> work_queue \<Rightarrow> queue_reply \<times> work_queue" where
  "memory_call (CallEnqueue fresh kind source payload key task_id generation, _) q =
     map_prod Handle id (enqueue fresh kind source payload key task_id generation q)"
| "memory_call (CallLease kind, _) q = map_prod Leased id (lease_next kind q)"
| "memory_call (CallFinish intent state _, _) q =
     (case finish intent state q of Inl _ \<Rightarrow> (Refused, q) | Inr (r, q') \<Rightarrow> (Handle r, q'))"
| "memory_call (CallSupersede kinds reason, _) q = map_prod Changed id (supersede kinds q)"

fun durable_call :: "runtime_scope \<Rightarrow> string \<Rightarrow> timed_call \<Rightarrow> durable_queue \<Rightarrow> queue_reply \<times> durable_queue" where
  "durable_call scope owner (CallEnqueue fresh kind source payload key task_id generation, now, _) q =
     map_prod (case_sum (\<lambda>_. Refused) Handle) id (dq_enqueue scope fresh kind source payload key task_id generation now q)"
| "durable_call scope owner (CallLease kind, now, expires_at) q =
     map_prod (case_sum (\<lambda>_. Refused) Leased) id (dq_lease_next scope owner expires_at kind now q)"
| "durable_call scope owner (CallFinish intent state error, now, _) q =
     map_prod (case_sum (\<lambda>_. Refused) Handle) id (dq_finish scope intent state error now q)"
| "durable_call scope owner (CallSupersede kinds reason, now, _) q =
     map_prod Changed id (dq_supersede scope kinds reason now q)"

fun memory_replies :: "timed_call list \<Rightarrow> work_queue \<Rightarrow> queue_reply list" where
  "memory_replies [] q = []"
| "memory_replies (c # cs) q = fst (memory_call c q) # memory_replies cs (snd (memory_call c q))"

fun durable_replies :: "runtime_scope \<Rightarrow> string \<Rightarrow> timed_call list \<Rightarrow> durable_queue \<Rightarrow> queue_reply list" where
  "durable_replies scope owner [] q = []"
| "durable_replies scope owner (c # cs) q =
     fst (durable_call scope owner c q) # durable_replies scope owner cs (snd (durable_call scope owner c q))"

text \<open>
  What the two queues take the same way: texts the store would not change, dedupe keys likewise,
  tasks that exist, terminal states to finish in, handles of this queue's own intents, and start-up payloads whose orphan list is a
  list. The clock moves on from call to call and no call is as late as a lease's expiry.
\<close>

definition foreign_ids :: "runtime_scope \<Rightarrow> runtime_store \<Rightarrow> string set" where
  "foreign_ids scope s = wi_intent_id ` {r\<in>set (st_intents s). iw_scope_key r \<noteq> sc_key scope}"

fun call_ok :: "runtime_scope \<Rightarrow> runtime_store \<Rightarrow> queue_call \<Rightarrow> bool" where
  "call_ok scope s (CallEnqueue fresh kind source payload key task_id generation) \<longleftrightarrow>
     bounded_text 128 source = source \<and> source \<noteq> [] \<and> normalized_key key = key \<and>
     (case task_id of None \<Rightarrow> True | Some i \<Rightarrow> get_task i s \<noteq> None) \<and>
     orphan_ids (dget payload ''orphaned_intents'') \<noteq> None"
| "call_ok scope s (CallLease kind) \<longleftrightarrow> True"
| "call_ok scope s (CallFinish intent state error) \<longleftrightarrow>
     state \<in> terminal_states \<and> wi_intent_id intent \<notin> foreign_ids scope s"
| "call_ok scope s (CallSupersede kinds reason) \<longleftrightarrow> True"

fun fresh_of :: "timed_call \<Rightarrow> string list" where
  "fresh_of (CallEnqueue fresh kind source payload key task_id generation, _) = [''intent-'' @ fresh]"
| "fresh_of _ = []"

definition timeline_ok :: "timed_call list \<Rightarrow> bool" where
  "timeline_ok cs \<longleftrightarrow> sorted_wrt (\<lambda>(_, t, e) (_, t', _). t < t' \<and> t' < e) cs"

definition calls_ok :: "runtime_scope \<Rightarrow> string \<Rightarrow> runtime_store \<Rightarrow> timed_call list \<Rightarrow> bool" where
  "calls_ok scope owner s cs \<longleftrightarrow>
     timeline_ok cs \<and> required_text ''lease_owner'' 256 owner = Inr owner \<and>
     fst (register_scope scope s) = None \<and>
     (\<forall>c\<in>set cs. call_ok scope s (fst c)) \<and>
     distinct (concat (map fresh_of cs)) \<and>
     set (concat (map fresh_of cs)) \<inter> wi_intent_id ` set (st_intents s) = {}"

section \<open>Alike queues\<close>

definition rows_alike :: "timed_call list \<Rightarrow> intent_row list \<Rightarrow> work_queue \<Rightarrow> bool" where
  "rows_alike rest rows m \<longleftrightarrow>
     wq_records m = shown rows \<and> wq_order m = map wi_intent_id rows \<and> wq_available m = some_queued m \<and>
     sorted_wrt (<) (map iw_created_at rows) \<and>
     (\<forall>r\<in>set rows. orphan_ids (dget (wi_payload r) ''orphaned_intents'') \<noteq> None) \<and>
     (\<forall>r\<in>set rows. \<forall>(c, t, e)\<in>set rest. iw_created_at r < t \<and> iw_available_at r \<le> t \<and>
        (wi_state r = WS_LEASED \<longrightarrow> (\<exists>x. iw_lease_expires_at r = Some x \<and> t < x)))"

definition alike :: "runtime_scope \<Rightarrow> timed_call list \<Rightarrow> durable_queue \<Rightarrow> work_queue \<Rightarrow> bool" where
  "alike scope rest q m \<longleftrightarrow>
     rows_alike rest (rows_of scope (dq_store q)) m \<and> dq_available q = wq_available m \<and>
     distinct (map wi_intent_id (st_intents (dq_store q)))"

lemma rows_distinct: "distinct (map wi_intent_id (st_intents s)) \<Longrightarrow> distinct (map wi_intent_id (rows_of scope s))"
  unfolding rows_of_def by (rule distinct_map_filter)

lemma some_queued_shown: "wq_records m = shown rows \<Longrightarrow> some_queued m \<longleftrightarrow> (\<exists>r\<in>set rows. wi_state r = WS_QUEUED)"
  by (auto simp: some_queued_def shown_def list_ex_iff queued_def)

lemma refresh_shown: "wq_records m = shown (rows_of scope s) \<Longrightarrow>
    dq_available (dq_refresh scope (q\<lparr>dq_store := s\<rparr>)) = some_queued m"
  by (auto simp: dq_refresh_def queued_work_intent_count_def some_queued_shown filter_empty_conv)

lemma register_scope_fields:
  "st_intents (snd (register_scope scope s)) = st_intents s" "st_tasks (snd (register_scope scope s)) = st_tasks s"
  by (auto simp: register_scope_def Let_def split: option.split)

lemma register_scope_cong: "st_scopes s' = st_scopes s \<Longrightarrow> fst (register_scope scope s') = fst (register_scope scope s)"
  by (simp add: register_scope_def Let_def split: option.split)

lemma register_scope_again:
  "fst (register_scope scope s) = None \<Longrightarrow> fst (register_scope scope (snd (register_scope scope s))) = None"
  by (auto simp: register_scope_def Let_def map_of_append split: option.splits if_splits)

lemma calls_ok_next:
  assumes ok: "calls_ok scope owner s (c # cs)" and "fst (register_scope scope s') = None" and "st_tasks s' = st_tasks s"
    and ids: "wi_intent_id ` set (st_intents s') \<subseteq> wi_intent_id ` set (st_intents s) \<union> set (fresh_of c)"
    and foreign: "foreign_ids scope s' \<subseteq> foreign_ids scope s"
  shows "calls_ok scope owner s' cs"
proof -
  have "call_ok scope s x \<Longrightarrow> call_ok scope s' x" for x
    using assms(3) foreign by (cases x) (auto simp: get_task_def split: option.splits)
  moreover have "set (concat (map fresh_of cs)) \<inter> wi_intent_id ` set (st_intents s') = {}"
  proof -
    have "set (fresh_of c) \<inter> set (concat (map fresh_of cs)) = {}"
        "(set (fresh_of c) \<union> set (concat (map fresh_of cs))) \<inter> wi_intent_id ` set (st_intents s) = {}"
      using ok by (simp_all add: calls_ok_def)
    with ids show ?thesis by blast
  qed
  ultimately show ?thesis using ok assms(2) unfolding calls_ok_def timeline_ok_def by simp
qed

lemma rows_alike_later: "rows_alike (c # rest) rows m \<Longrightarrow> rows_alike rest rows m"
  by (simp add: rows_alike_def)

lemma same_moment: "map_intents (\<lambda>r. r) s = s"
  by (simp add: map_intents_def)

lemma no_lease_expired:
  assumes "rows_alike ((c, now, e) # rest) (rows_of scope s) m"
  shows "map_intents (\<lambda>r. if lease_expired scope kind now r then requeue r else r) s = s"
proof -
  have "\<not> lease_expired scope kind now r" if "r \<in> set (st_intents s)" for r
  proof
    assume x: "lease_expired scope kind now r"
    then have "r \<in> set (rows_of scope s)" using that by (simp add: rows_of_def lease_expired_def)
    then show False using assms x by (fastforce simp: rows_alike_def lease_expired_def)
  qed
  then have "map (\<lambda>r. if lease_expired scope kind now r then requeue r else r) (st_intents s) = st_intents s"
    by (simp add: map_idI)
  then show ?thesis by (simp add: map_intents_def)
qed

text \<open>A change of the row of one id, in the table and in the memory queue.\<close>

lemma alike_row_change:
  assumes a: "rows_alike (c # rest) (rows_of scope s) m" and d: "distinct (map wi_intent_id (st_intents s))"
    and row: "row \<in> set (rows_of scope s)"
    and new: "wi_intent_id new = wi_intent_id row" "iw_scope_key new = iw_scope_key row"
      "iw_created_at new = iw_created_at row" "iw_available_at new = iw_available_at row" "wi_payload new = wi_payload row"
    and lease: "wi_state new = WS_LEASED \<Longrightarrow> \<forall>(c, t, e)\<in>set rest. \<exists>x. iw_lease_expires_at new = Some x \<and> t < x"
  defines "s' \<equiv> map_intents (\<lambda>r. if wi_intent_id r = wi_intent_id row then new else r) s"
  defines "m' \<equiv> refresh_available (store_record (handle_of new) m)"
  shows "rows_alike rest (rows_of scope s') m'" "distinct (map wi_intent_id (st_intents s'))"
    "wi_intent_id ` set (st_intents s') = wi_intent_id ` set (st_intents s)" "foreign_ids scope s' \<subseteq> foreign_ids scope s"
proof -
  let ?f = "\<lambda>r. if wi_intent_id r = wi_intent_id row then new else r"
  let ?rows = "rows_of scope s"
  have ids: "wi_intent_id (?f r) = wi_intent_id r" for r using new(1) by simp
  have "map wi_intent_id (st_intents s') = map wi_intent_id (st_intents s)"
    using ids by (simp add: s'_def map_intents_def)
  show "foreign_ids scope s' \<subseteq> foreign_ids scope s"
    using new(1,2) row by (auto simp: s'_def map_intents_def foreign_ids_def rows_of_def)
  from \<open>map wi_intent_id (st_intents s') = map wi_intent_id (st_intents s)\<close>
  show "distinct (map wi_intent_id (st_intents s'))" "wi_intent_id ` set (st_intents s') = wi_intent_id ` set (st_intents s)"
    using d by (simp_all only: list.set_map [symmetric])
  have only: "r = row" if "r \<in> set (st_intents s)" "wi_intent_id r = wi_intent_id row" for r
    using that row d by (auto simp: rows_of_def distinct_map dest: inj_onD)
  have scopes: "map ?f (st_intents s) = map (\<lambda>r. if wi_intent_id r = wi_intent_id row \<and> iw_scope_key r = iw_scope_key row then new else r) (st_intents s)"
    using only by (auto intro: map_cong)
  have rows: "rows_of scope s' = map ?f ?rows"
    unfolding s'_def rows_of_def map_intents_def using scopes only new(2)
    by (auto simp: filter_map o_def intro!: arg_cong [where f = "map _"] filter_cong)
  have created: "map iw_created_at (map ?f ?rows) = map iw_created_at ?rows"
    using only new(3) by (auto simp: rows_of_def intro!: map_cong)
  have upd: "AList.update (wi_intent_id row) (handle_of new) (shown ?rows) = shown (map ?f ?rows)"
    by (rule update_shown [OF rows_distinct [OF d]]) (use row ids in auto)
  have m': "wq_records m' = shown (map ?f ?rows)" "wq_order m' = map wi_intent_id (map ?f ?rows)" "wq_available m' = some_queued m'"
    using a upd ids new(1) unfolding m'_def rows_alike_def
    by (simp_all add: refresh_available_def store_record_def some_queued_def)
  have each: "iw_created_at (?f r) = iw_created_at r \<and> iw_available_at (?f r) = iw_available_at r \<and> wi_payload (?f r) = wi_payload r"
    if "r \<in> set ?rows" for r
    using that only new by (auto simp: rows_of_def)
  have "\<forall>r\<in>set (map ?f ?rows). \<forall>(c, t, e)\<in>set rest. iw_created_at r < t \<and> iw_available_at r \<le> t \<and>
      (wi_state r = WS_LEASED \<longrightarrow> (\<exists>x. iw_lease_expires_at r = Some x \<and> t < x))"
  proof
    fix y
    assume "y \<in> set (map ?f ?rows)"
    then obtain r where r: "r \<in> set ?rows" "y = ?f r" by auto
    then show "\<forall>(c, t, e)\<in>set rest. iw_created_at y < t \<and> iw_available_at y \<le> t \<and>
        (wi_state y = WS_LEASED \<longrightarrow> (\<exists>x. iw_lease_expires_at y = Some x \<and> t < x))"
      using a each [OF r(1)] lease unfolding rows_alike_def by (cases "wi_intent_id r = wi_intent_id row") fastforce+
  qed
  moreover have "\<forall>r\<in>set (map ?f ?rows). orphan_ids (dget (wi_payload r) ''orphaned_intents'') \<noteq> None"
    using a row new(5) unfolding rows_alike_def by auto
  ultimately show "rows_alike rest (rows_of scope s') m'"
    using a created m' unfolding rows rows_alike_def by (simp only:)
qed

section \<open>Each call\<close>

lemma update_new: "k \<notin> set (map fst d) \<Longrightarrow> AList.update k v d = d @ [(k, v)]"
  by (induction d) auto

lemma handle_of_new: "handle_of (new_intent scope fresh kind source p payload key task_id generation a now) =
    \<lparr>wi_intent_id = ''intent-'' @ fresh, wi_revision = 1, wi_kind = kind, wi_source = source, wi_priority = p,
      wi_payload = payload, wi_state = WS_QUEUED, wi_dedupe_key = key, wi_task_id = task_id, wi_generation = generation,
      wi_attempt_count = 0\<rparr>"
  by (simp add: handle_of_def work_intent.truncate_def new_intent_def)

lemma filter_hd_find: "filter P xs = x # ys \<Longrightarrow> find P xs = Some x"
  by (induction xs) (auto split: if_splits)

lemma enqueue_alike:
  assumes al: "alike scope ((CallEnqueue fresh kind source payload key task_id generation, now, e) # rest) q m"
    and ok: "calls_ok scope owner (dq_store q) ((CallEnqueue fresh kind source payload key task_id generation, now, e) # rest)"
  shows "fst (durable_call scope owner (CallEnqueue fresh kind source payload key task_id generation, now, e) q) =
      fst (memory_call (CallEnqueue fresh kind source payload key task_id generation, now, e) m) \<and>
    alike scope rest (snd (durable_call scope owner (CallEnqueue fresh kind source payload key task_id generation, now, e) q))
      (snd (memory_call (CallEnqueue fresh kind source payload key task_id generation, now, e) m)) \<and>
    calls_ok scope owner (dq_store (snd (durable_call scope owner (CallEnqueue fresh kind source payload key task_id generation, now, e) q))) rest"
proof -
  let ?c = "CallEnqueue fresh kind source payload key task_id generation"
  let ?s = "dq_store q"
  have rs: "fst (register_scope scope ?s) = None" using ok by (simp add: calls_ok_def)
  let ?s1 = "snd (register_scope scope ?s)"
  have s1: "st_intents ?s1 = st_intents ?s" "st_tasks ?s1 = st_tasks ?s"
    using register_scope_fields [of scope ?s] by simp_all
  have rs1: "fst (register_scope scope ?s1) = None" by (rule register_scope_again [OF rs])
  have cok: "call_ok scope ?s ?c" using ok by (simp add: calls_ok_def)
  have src: "required_text ''source'' 128 source = Inr source" and nk: "normalized_key key = key"
    using cok by (simp_all add: required_text_def)
  let ?r = "new_intent scope fresh kind source (intent_priority kind) payload key task_id generation now now"
  let ?rows = "rows_of scope ?s"
  have ra: "rows_alike ((?c, now, e) # rest) ?rows m" and d: "distinct (map wi_intent_id (st_intents ?s))"
      and av: "dq_available q = wq_available m"
    using al by (simp_all add: alike_def)
  have fresh: "''intent-'' @ fresh \<notin> wi_intent_id ` set (st_intents ?s)"
    using ok by (auto simp: calls_ok_def)
  have tasks: "(case task_id of None \<Rightarrow> False | Some i \<Rightarrow> get_task i ?s1 = None) = False"
    using cok s1 by (simp add: get_task_def split: option.splits)
  have insert: "insert_intent ?r ?s1 = (if key \<noteq> None \<and> (\<exists>x\<in>set ?rows. wi_dedupe_key x = key) then None
      else Some (?s1\<lparr>st_intents := st_intents ?s1 @ [?r]\<rparr>))"
    using fresh tasks s1 unfolding insert_intent_def new_intent_def
    by (auto simp: list_ex_iff rows_of_def image_iff)
  have call: "dq_enqueue scope fresh kind source payload key task_id generation now q =
      (case insert_intent ?r ?s1 of
         Some s2 \<Rightarrow> (Inr (handle_of ?r), q\<lparr>dq_store := s2, dq_version := dq_version q + 1, dq_available := True\<rparr>)
       | None \<Rightarrow> (case (case key of None \<Rightarrow> None | Some k \<Rightarrow> get_work_intent_by_dedupe scope k ?s1) of
           None \<Rightarrow> (Inl IntentInsertFailed, q\<lparr>dq_store := ?s1\<rparr>)
         | Some x \<Rightarrow> (Inr (handle_of x), if wi_state x = WS_QUEUED
             then q\<lparr>dq_store := ?s1, dq_version := dq_version q + 1, dq_available := True\<rparr> else q\<lparr>dq_store := ?s1\<rparr>)))"
    using rs src nk by (cases "register_scope scope ?s")
      (simp add: dq_enqueue_def enqueue_work_intent_def Let_def new_intent_def split: option.split)
  show ?thesis
  proof (cases "key \<noteq> None \<and> (\<exists>x\<in>set ?rows. wi_dedupe_key x = key)")
    case True
    then obtain k where k: "key = Some k" by auto
    let ?hits = "filter (\<lambda>x. wi_dedupe_key x = Some k) ?rows"
    obtain x hits where hits: "?hits = x # hits" using True k by (cases ?hits) (auto simp: filter_empty_conv)
    have "sorted_wrt (<) (map iw_created_at ?hits)"
      using ra unfolding rows_alike_def by (intro created_filter) simp
    then have "sort_key iw_created_at ?hits = ?hits" using sorted_by_created [of ?hits ?hits] by simp
    then have found: "get_work_intent_by_dedupe scope k ?s1 = Some x"
      using hits s1 by (simp add: get_work_intent_by_dedupe_def rows_of_def)
    have x: "x \<in> set ?rows" using arg_cong [where f = set, OF hits] by auto
    have "find_dedupe k (map handle_of rows) = map_option handle_of (find (\<lambda>x. wi_dedupe_key x = Some k) rows)" for rows
      by (induction rows) (simp_all add: find_dedupe_def)
    moreover have "find (\<lambda>x. wi_dedupe_key x = Some k) ?rows = Some x"
      using hits by (rule filter_hd_find)
    ultimately have mem: "enqueue fresh kind source payload key task_id generation m = (handle_of x, m)"
      using ra k by (simp add: enqueue_def rows_alike_def)
    have "wi_state x = WS_QUEUED \<Longrightarrow> wq_available m"
      using ra x some_queued_shown [of m ?rows] by (auto simp: rows_alike_def)
    then have "dq_available (snd (dq_enqueue scope fresh kind source payload key task_id generation now q)) = wq_available m \<and>
        dq_store (snd (dq_enqueue scope fresh kind source payload key task_id generation now q)) = ?s1 \<and>
        fst (dq_enqueue scope fresh kind source payload key task_id generation now q) = Inr (handle_of x)"
      using call insert True k found av by simp
    moreover have "calls_ok scope owner ?s1 rest" by (rule calls_ok_next [OF ok rs1 s1(2)]) (use s1 in \<open>auto simp: foreign_ids_def\<close>)
    ultimately show ?thesis
      using mem rows_alike_later [OF ra] d s1 by (simp add: alike_def rows_of_def)
  next
    case False
    then have mem: "enqueue fresh kind source payload key task_id generation m =
        (handle_of ?r, (store_record (handle_of ?r) m)\<lparr>wq_order := wq_order m @ [wi_intent_id ?r],
           wq_version := wq_version m + 1, wq_available := True\<rparr>)"
    proof -
      have "(case key of None \<Rightarrow> None | Some k \<Rightarrow> find_dedupe k (map snd (wq_records m))) = None"
        using False ra by (cases key) (auto simp: rows_alike_def find_dedupe_None)
      moreover have "wi_intent_id ?r = ''intent-'' @ fresh" by (simp add: new_intent_def)
      ultimately show ?thesis by (simp only: enqueue_def Let_def handle_of_new option.case work_intent.simps)
    qed
    let ?s2 = "?s1\<lparr>st_intents := st_intents ?s1 @ [?r]\<rparr>"
    have rows: "rows_of scope ?s2 = ?rows @ [?r]" using s1 by (simp add: rows_of_def new_intent_def)
    have new_id: "wi_intent_id ?r \<notin> set (map fst (shown ?rows))"
      using fresh by (auto simp: new_intent_def rows_of_def)
    have state: "dq_enqueue scope fresh kind source payload key task_id generation now q =
        (Inr (handle_of ?r), q\<lparr>dq_store := ?s2, dq_version := dq_version q + 1, dq_available := True\<rparr>)"
    proof -
      have "insert_intent ?r ?s1 = Some ?s2" using insert False by (simp only: if_False)
      then show ?thesis using call by (simp only: option.case)
    qed
    let ?m = "(store_record (handle_of ?r) m)\<lparr>wq_order := wq_order m @ [wi_intent_id ?r],
           wq_version := wq_version m + 1, wq_available := True\<rparr>"
    have recs: "wq_records ?m = shown (?rows @ [?r])"
      using ra update_new [OF new_id] by (simp add: store_record_def rows_alike_def shown_def)
    have "\<exists>r\<in>set (?rows @ [?r]). wi_state r = WS_QUEUED" by (simp add: new_intent_def)
    then have "some_queued ?m" using some_queued_shown [OF recs] by blast
    moreover have "sorted_wrt (<) (map iw_created_at (?rows @ [?r]))"
      using ra by (auto simp: rows_alike_def sorted_wrt_append new_intent_def)
    moreover have "\<forall>(c, t, e)\<in>set rest. now < t" using ok by (auto simp: calls_ok_def timeline_ok_def)
    ultimately have "rows_alike rest (?rows @ [?r]) ?m"
      using ra recs cok unfolding rows_alike_def by (auto simp: new_intent_def)
    moreover have "distinct (map wi_intent_id (st_intents ?s2))" using d fresh s1 by (simp add: new_intent_def)
    moreover have "calls_ok scope owner ?s2 rest"
      by (rule calls_ok_next [OF ok]) (use rs1 s1 register_scope_cong [of ?s2 ?s1 scope] in \<open>auto simp: new_intent_def foreign_ids_def\<close>)
    ultimately show ?thesis using mem state rows by (simp add: alike_def)
  qed
qed

lemma lease_alike:
  assumes al: "alike scope ((CallLease kind, now, e) # rest) q m"
    and ok: "calls_ok scope owner (dq_store q) ((CallLease kind, now, e) # rest)"
  shows "fst (durable_call scope owner (CallLease kind, now, e) q) = fst (memory_call (CallLease kind, now, e) m) \<and>
    alike scope rest (snd (durable_call scope owner (CallLease kind, now, e) q)) (snd (memory_call (CallLease kind, now, e) m)) \<and>
    calls_ok scope owner (dq_store (snd (durable_call scope owner (CallLease kind, now, e) q))) rest"
proof -
  let ?s = "dq_store q"
  let ?rows = "rows_of scope ?s"
  let ?ready = "filter (\<lambda>r. wi_state r = WS_QUEUED \<and> kind_matches kind r) ?rows"
  have ra: "rows_alike ((CallLease kind, now, e) # rest) ?rows m" and d: "distinct (map wi_intent_id (st_intents ?s))"
      and av: "dq_available q = wq_available m"
    using al by (simp_all add: alike_def)
  have rs: "fst (register_scope scope ?s) = None" and owner: "required_text ''lease_owner'' 256 owner = Inr owner"
    using ok by (simp_all add: calls_ok_def)
  have later: "\<forall>(c, t, e')\<in>set rest. now < t \<and> t < e" using ok by (auto simp: calls_ok_def timeline_ok_def)
  have "filter (\<lambda>r. iw_available_at r \<le> now) (by_urgency ?ready) = by_urgency ?ready"
    using ra by (auto simp: filter_id_conv rows_alike_def)
  then have call: "lease_next_work_intent scope owner e kind now ?s =
      (case by_urgency ?ready of
         [] \<Rightarrow> (Inr None, ?s)
       | row # _ \<Rightarrow> (Inr (Some (take_lease owner e now row)),
           map_intents (\<lambda>r. if wi_intent_id r = wi_intent_id row then take_lease owner e now row else r) ?s))"
    using no_lease_expired [OF ra, of kind] owner
    by (cases "by_urgency ?ready") (simp_all add: lease_next_work_intent_def Let_def list_queued_work_intents_def del: by_urgency_empty)
  have ready: "queued_intents kind m = map handle_of ?ready"
    using ra somes_shown [OF rows_distinct [OF d], of scope]
    by (simp add: queued_intents_def rows_alike_def filter_map o_def queued_def kind_matches_def)
  show ?thesis
  proof (cases "max_with wi_priority ?ready")
    case None
    then have "?ready = []" by simp
    moreover from this have "lease_next kind m = (None, refresh_available m)" using ready by (simp add: lease_next_def max_with_def)
    moreover have "calls_ok scope owner ?s rest" by (rule calls_ok_next [OF ok rs]) auto
    moreover have "rows_alike rest ?rows (refresh_available m)"
      using rows_alike_later [OF ra] by (simp add: rows_alike_def refresh_available_def some_queued_def)
    moreover have "dq_available (dq_refresh scope (q\<lparr>dq_store := ?s\<rparr>)) = some_queued m"
      by (rule refresh_shown) (use ra in \<open>simp add: rows_alike_def\<close>)
    ultimately show ?thesis
      using call d by (simp add: dq_lease_next_def by_urgency_def dq_refresh_def alike_def refresh_available_def)
  next
    case (Some row)
    have "sorted_wrt (<) (map iw_created_at ?ready)" using ra by (intro created_filter) (simp add: rows_alike_def)
    from by_urgency_first [OF this Some] obtain more where first: "by_urgency ?ready = row # more" by blast
    have row: "row \<in> set ?rows" using max_with_Some [OF Some] by simp
    let ?new = "take_lease owner e now row"
    let ?s' = "map_intents (\<lambda>r. if wi_intent_id r = wi_intent_id row then ?new else r) ?s"
    let ?m' = "refresh_available (store_record (handle_of ?new) m)"
    have "handle_of row\<lparr>wi_revision := wi_revision (handle_of row) + 1, wi_state := WS_LEASED,
        wi_attempt_count := wi_attempt_count (handle_of row) + 1\<rparr> = handle_of ?new"
      by (rule handle_eqI) (simp_all add: take_lease_def)
    then have mem: "lease_next kind m = (Some (handle_of ?new), ?m')"
      using ready max_with_handles [of ?ready] Some by (simp add: lease_next_def Let_def)
    note change = alike_row_change [OF ra d row, of ?new]
    have ch: "rows_alike rest (rows_of scope ?s') ?m'" "distinct (map wi_intent_id (st_intents ?s'))"
        "wi_intent_id ` set (st_intents ?s') = wi_intent_id ` set (st_intents ?s)"
        "foreign_ids scope ?s' \<subseteq> foreign_ids scope ?s"
      using later by (intro change; fastforce simp: take_lease_def)+
    have avail: "dq_available (dq_refresh scope (q\<lparr>dq_store := ?s'\<rparr>)) = some_queued ?m'"
      by (rule refresh_shown) (use ch(1) in \<open>simp add: rows_alike_def\<close>)
    have "calls_ok scope owner ?s' rest"
      by (rule calls_ok_next [OF ok]) (use rs ch(3,4) register_scope_cong [of ?s' ?s scope] in \<open>simp_all add: map_intents_def\<close>)
    moreover have "wq_available ?m' = some_queued ?m'" using ch(1) by (simp add: rows_alike_def)
    ultimately show ?thesis
      using call first mem ch avail by (simp add: dq_lease_next_def dq_refresh_def alike_def)
  qed
qed

lemma find_by_id:
  assumes "distinct (map f xs)" and "x \<in> set xs"
  shows "find (\<lambda>y. f y = f x \<and> P y) xs = (if P x then Some x else None)"
  using assms by (induction xs) (auto simp: rev_image_eqI find_None_iff)

lemma rows_alike_errors:
  assumes "rows_alike rest rows m" and "\<And>r. \<exists>d. g r = r\<lparr>iw_error := d\<rparr>"
  shows "rows_alike rest (map g rows) m"
proof -
  have g: "wi_intent_id (g r) = wi_intent_id r" "handle_of (g r) = handle_of r" "iw_created_at (g r) = iw_created_at r"
      "iw_available_at (g r) = iw_available_at r" "wi_payload (g r) = wi_payload r" "wi_state (g r) = wi_state r"
      "iw_lease_expires_at (g r) = iw_lease_expires_at r" for r
    using assms(2) [of r] by (auto simp: handle_of_def work_intent.truncate_def)
  then have "shown (map g rows) = shown rows" "map wi_intent_id (map g rows) = map wi_intent_id rows"
      "map iw_created_at (map g rows) = map iw_created_at rows"
    by (simp_all add: shown_def)
  with assms(1) g show ?thesis unfolding rows_alike_def by (simp add: o_def)
qed

lemma retire_errors:
  assumes "orphan_ids (dget (wi_payload row) ''orphaned_intents'') \<noteq> None"
  shows "\<exists>g. retire_reconciled_orphans row (wi_payload row) s = Inr (map_intents g s) \<and> (\<forall>r. \<exists>d. g r = r\<lparr>iw_error := d\<rparr>)"
proof -
  have same: "\<exists>d. r = r\<lparr>iw_error := d\<rparr>" for r :: intent_row
    by (rule exI [of _ "iw_error r"]) simp
  show ?thesis
  proof (cases "wi_kind row \<noteq> WK_RECOVERY_RECONCILE \<or> wi_source row \<noteq> ''startup_reconcile''")
    case True
    then show ?thesis using same same_moment [of s] by (intro exI [of _ "\<lambda>r. r"]) (auto simp: retire_reconciled_orphans_def)
  next
    case False
    obtain ids where "orphan_ids (dget (wi_payload row) ''orphaned_intents'') = Some ids" using assms by auto
    let ?g = "\<lambda>r. if wi_intent_id r \<in> set ids \<and> iw_scope_key r = iw_scope_key row
                \<and> unknown_outcome ''process_restart_unknown_outcome'' r
              then r\<lparr>iw_error := map_option (AList.update ''reconciled_by'' (JStr (wi_intent_id row))) (iw_error r)\<rparr>
              else r"
    have "retire_reconciled_orphans row (wi_payload row) s = Inr (map_intents ?g s)"
      using False \<open>orphan_ids _ = Some ids\<close> by (simp add: retire_reconciled_orphans_def)
    moreover have "\<forall>r. \<exists>d. ?g r = r\<lparr>iw_error := d\<rparr>" using same by auto
    ultimately show ?thesis by (intro exI [of _ ?g]) (rule conjI)
  qed
qed

lemma retire_or_keep:
  assumes "orphan_ids (dget (wi_payload row) ''orphaned_intents'') \<noteq> None"
  obtains g where "(if b then retire_reconciled_orphans row (wi_payload row) s else Inr s) = Inr (map_intents g s)"
    and "\<And>r. \<exists>d. g r = r\<lparr>iw_error := d\<rparr>"
proof (cases b)
  case True
  then show ?thesis using retire_errors [OF assms, of s] that by (simp only: if_True) blast
next
  case False
  have "\<exists>d. r = r\<lparr>iw_error := d\<rparr>" for r :: intent_row
    by (rule exI [of _ "iw_error r"]) simp
  then show ?thesis using that [of "\<lambda>r. r"] False same_moment [of s] by (simp only: if_False)
qed

lemma foreign_ids_map:
  assumes "\<And>r. wi_intent_id (g r) = wi_intent_id r" and "\<And>r. iw_scope_key (g r) = iw_scope_key r"
  shows "foreign_ids scope (map_intents g s) = foreign_ids scope s"
proof -
  have "{r \<in> g ` R. iw_scope_key r \<noteq> k} = g ` {r \<in> R. iw_scope_key r \<noteq> k}" for R k using assms(2) by auto
  then show ?thesis using assms(1) by (simp add: foreign_ids_def map_intents_def image_image)
qed

lemma map_intents_mem: "r \<in> set (st_intents s) \<Longrightarrow> g r \<in> set (st_intents (map_intents g s))"
  by (simp add: map_intents_def)

lemma finish_alike:
  assumes al: "alike scope ((CallFinish intent state err, now, e) # rest) q m"
    and ok: "calls_ok scope owner (dq_store q) ((CallFinish intent state err, now, e) # rest)"
  shows "fst (durable_call scope owner (CallFinish intent state err, now, e) q) = fst (memory_call (CallFinish intent state err, now, e) m) \<and>
    alike scope rest (snd (durable_call scope owner (CallFinish intent state err, now, e) q)) (snd (memory_call (CallFinish intent state err, now, e) m)) \<and>
    calls_ok scope owner (dq_store (snd (durable_call scope owner (CallFinish intent state err, now, e) q))) rest"
proof -
  let ?c = "CallFinish intent state err"
  let ?s = "dq_store q"
  let ?rows = "rows_of scope ?s"
  let ?i = "wi_intent_id intent"
  let ?live = "\<lambda>r. wi_revision r = wi_revision intent \<and> wi_state r = WS_LEASED"
  have ra: "rows_alike ((?c, now, e) # rest) ?rows m" and d: "distinct (map wi_intent_id (st_intents ?s))"
      and av: "dq_available q = wq_available m"
    using al by (simp_all add: alike_def)
  have rs: "fst (register_scope scope ?s) = None" and terminal: "state \<in> {WS_COMPLETED, WS_SUPERSEDED, WS_FAILED}"
      and home: "?i \<notin> foreign_ids scope ?s"
    using ok by (auto simp: calls_ok_def terminal_states_def)
  have refused: ?thesis if "dq_finish scope intent state err now q = (Inl x, q)" "finish intent state m = Inl y" for x y
  proof -
    have "calls_ok scope owner ?s rest" by (rule calls_ok_next [OF ok rs]) auto
    then show ?thesis using that rows_alike_later [OF ra] d av by (simp add: alike_def)
  qed
  have recs: "map_of (wq_records m) ?i = map_option handle_of (find (\<lambda>r. wi_intent_id r = ?i) ?rows)"
    using ra map_of_shown by (simp add: rows_alike_def)
  show ?thesis
  proof (cases "find (\<lambda>r. wi_intent_id r = ?i) ?rows")
    case None
    then have "find (\<lambda>r. wi_intent_id r = ?i \<and> ?live r) (st_intents ?s) = None"
      using home by (auto simp: find_None_iff rows_of_def foreign_ids_def image_iff)
    then show ?thesis using terminal None recs
      by (intro refused) (auto simp: dq_finish_def finish_work_intent_def finish_def live_lease_def)
  next
    case (Some row)
    then have row: "row \<in> set ?rows" "wi_intent_id row = ?i" by (auto simp: find_Some_iff)
    then have there: "row \<in> set (st_intents ?s)" by (simp add: rows_of_def)
    have found: "find (\<lambda>r. wi_intent_id r = ?i \<and> ?live r) (st_intents ?s) = (if ?live row then Some row else None)"
      using find_by_id [OF d there, of ?live] row(2) by simp
    show ?thesis
    proof (cases "?live row")
      case False
      then show ?thesis using terminal Some recs found
        by (intro refused) (auto simp: dq_finish_def finish_work_intent_def finish_def live_lease_def)
    next
      case True
      let ?new = "row\<lparr>wi_state := state, wi_revision := wi_revision row + 1,
                 iw_completed_at := Some now, iw_lease_owner := None, iw_lease_expires_at := None, iw_error := err\<rparr>"
      let ?s1 = "map_intents (\<lambda>r. if wi_intent_id r = wi_intent_id row then ?new else r) ?s"
      let ?m' = "refresh_available (store_record (handle_of ?new) m)"
      have "orphan_ids (dget (wi_payload ?new) ''orphaned_intents'') \<noteq> None"
        using ra row(1) by (simp add: rows_alike_def)
      then obtain g where g: "(if state = WS_COMPLETED then retire_reconciled_orphans ?new (wi_payload ?new) ?s1 else Inr ?s1)
            = Inr (map_intents g ?s1)" "\<And>r. \<exists>d. g r = r\<lparr>iw_error := d\<rparr>"
        by (rule retire_or_keep [of ?new "state = WS_COMPLETED" ?s1]) (rule that)
      let ?s2 = "map_intents g ?s1"
      have keep: "wi_intent_id (g r) = wi_intent_id r" "handle_of (g r) = handle_of r" "iw_scope_key (g r) = iw_scope_key r" for r
        using g(2) [of r] by (auto simp: handle_of_def work_intent.truncate_def)
      note change = alike_row_change [OF ra d row(1), of ?new]
      have ch: "rows_alike rest (rows_of scope ?s1) ?m'" "distinct (map wi_intent_id (st_intents ?s1))"
          "wi_intent_id ` set (st_intents ?s1) = wi_intent_id ` set (st_intents ?s)" "foreign_ids scope ?s1 \<subseteq> foreign_ids scope ?s"
        using terminal by (intro change; auto)+
      have ra2: "rows_alike rest (rows_of scope ?s2) ?m'"
        using rows_alike_errors [OF ch(1) g(2)] rows_of_map_intents [OF keep(3)] by simp
      have ids2: "map wi_intent_id (st_intents ?s2) = map wi_intent_id (st_intents ?s1)"
        by (simp add: map_intents_def keep)
      have new_in: "?new \<in> set (st_intents ?s1)" using there by (auto simp: map_intents_def image_iff)
      have "find (\<lambda>y. wi_intent_id y = wi_intent_id (g ?new) \<and> True) (st_intents ?s2) = Some (g ?new)"
      proof -
        have "g ?new \<in> set (st_intents ?s2)" by (rule map_intents_mem [OF new_in])
        moreover have "distinct (map wi_intent_id (st_intents ?s2))" using ch(2) by (simp only: ids2)
        ultimately show ?thesis
          using find_by_id [of wi_intent_id "st_intents ?s2" "g ?new" "\<lambda>_. True"] by (simp only: if_True)
      qed
      then have get: "get_work_intent ?i ?s2 = Some (g ?new)"
        using row(2) keep(1) by (simp add: get_work_intent_def)
      have fin: "finish_work_intent ?i (wi_revision intent) state err now ?s = (Inr (g ?new), ?s2)"
      proof -
        have "find (\<lambda>r. wi_intent_id r = ?i \<and> ?live r) (st_intents ?s) = Some row" using found True by simp
        then show ?thesis
          by (simp only: finish_work_intent_def Let_def terminal g(1) [unfolded row(2)] get [unfolded row(2)] row(2) simp_thms if_False
              option.case sum.case)
      qed
      have mem: "finish intent state m = Inr (handle_of ?new, ?m')"
      proof -
        let ?done = "handle_of row\<lparr>wi_revision := wi_revision (handle_of row) + 1, wi_state := state\<rparr>"
        have "finish intent state m = Inr (?done, refresh_available (store_record ?done m))"
          using Some recs True by (simp add: finish_def live_lease_def Let_def)
        moreover have "?done = handle_of ?new" by (rule handle_eqI) simp_all
        ultimately show ?thesis by (simp only:)
      qed
      have avail: "dq_available (dq_refresh scope (q\<lparr>dq_store := ?s2\<rparr>)) = some_queued ?m'"
        by (rule refresh_shown) (use ra2 in \<open>simp add: rows_alike_def\<close>)
      have foreign: "foreign_ids scope ?s2 = foreign_ids scope ?s1"
        by (rule foreign_ids_map) (rule keep)+
      have "calls_ok scope owner ?s2 rest"
      proof (rule calls_ok_next [OF ok])
        show "fst (register_scope scope ?s2) = None"
          using rs register_scope_cong [of ?s2 ?s scope] by (simp add: map_intents_def)
        show "wi_intent_id ` set (st_intents ?s2) \<subseteq> wi_intent_id ` set (st_intents ?s) \<union> set (fresh_of (?c, now, e))"
          using arg_cong [where f = set, OF ids2] ch(3) by simp
      qed (use foreign ch(4) in \<open>simp_all add: map_intents_def\<close>)
      moreover have "wq_available ?m' = some_queued ?m'" using ch(1) by (simp add: rows_alike_def)
      ultimately show ?thesis
        using fin mem ra2 ids2 ch(2) avail keep(2) by (simp add: dq_finish_def dq_refresh_def alike_def)
    qed
  qed
qed

lemma rows_alike_map:
  assumes a: "rows_alike (c # rest) rows m"
    and f: "\<And>r. iw_created_at (f r) = iw_created_at r \<and> iw_available_at (f r) = iw_available_at r \<and>
        wi_payload (f r) = wi_payload r \<and> iw_lease_expires_at (f r) = iw_lease_expires_at r \<and>
        (wi_state (f r) = WS_LEASED \<longrightarrow> wi_state r = WS_LEASED)"
    and "wq_records m' = shown (map f rows)" "wq_order m' = map wi_intent_id (map f rows)" "wq_available m' = some_queued m'"
  shows "rows_alike rest (map f rows) m'"
proof -
  have "map iw_created_at (map f rows) = map iw_created_at rows" using f by simp
  then have "sorted_wrt (<) (map iw_created_at (map f rows))" using a unfolding rows_alike_def by (simp only:)
  moreover have "\<forall>(c, t, e)\<in>set rest. iw_created_at (f r) < t \<and> iw_available_at (f r) \<le> t \<and>
      (wi_state (f r) = WS_LEASED \<longrightarrow> (\<exists>x. iw_lease_expires_at (f r) = Some x \<and> t < x))" if "r \<in> set rows" for r
  proof -
    have "\<forall>(c, t, e)\<in>set rest. iw_created_at r < t \<and> iw_available_at r \<le> t \<and>
        (wi_state r = WS_LEASED \<longrightarrow> (\<exists>x. iw_lease_expires_at r = Some x \<and> t < x))"
      using a that by (simp add: rows_alike_def)
    then show ?thesis using f [of r] by fastforce
  qed
  moreover have "orphan_ids (dget (wi_payload (f r)) ''orphaned_intents'') \<noteq> None" if "r \<in> set rows" for r
    using a f that by (simp add: rows_alike_def)
  ultimately show ?thesis using assms(3,4,5) unfolding rows_alike_def set_map by blast
qed

lemma supersede_alike:
  assumes al: "alike scope ((CallSupersede kinds reason, now, e) # rest) q m"
    and ok: "calls_ok scope owner (dq_store q) ((CallSupersede kinds reason, now, e) # rest)"
  shows "fst (durable_call scope owner (CallSupersede kinds reason, now, e) q) = fst (memory_call (CallSupersede kinds reason, now, e) m) \<and>
    alike scope rest (snd (durable_call scope owner (CallSupersede kinds reason, now, e) q)) (snd (memory_call (CallSupersede kinds reason, now, e) m)) \<and>
    calls_ok scope owner (dq_store (snd (durable_call scope owner (CallSupersede kinds reason, now, e) q))) rest"
proof -
  let ?c = "CallSupersede kinds reason"
  let ?s = "dq_store q"
  let ?rows = "rows_of scope ?s"
  let ?hit = "\<lambda>r. iw_scope_key r = sc_key scope \<and> wi_state r = WS_QUEUED \<and> wi_kind r \<in> kinds"
  let ?drop = "\<lambda>r. r\<lparr>wi_state := WS_SUPERSEDED, wi_revision := wi_revision r + 1, iw_completed_at := Some now,
                   iw_error := Some [(''reason'', JStr reason)]\<rparr>"
  let ?f = "\<lambda>r. if ?hit r then ?drop r else r"
  let ?s1 = "map_intents ?f ?s"
  let ?g = "\<lambda>(k, r). if superseded kinds r then (k, r\<lparr>wi_revision := wi_revision r + 1, wi_state := WS_SUPERSEDED\<rparr>) else (k, r)"
  have ra: "rows_alike ((?c, now, e) # rest) ?rows m" and d: "distinct (map wi_intent_id (st_intents ?s))"
    using al by (simp_all add: alike_def)
  have rs: "fst (register_scope scope ?s) = None" using ok by (simp add: calls_ok_def)
  have rows: "rows_of scope ?s1 = map ?f ?rows" by (rule rows_of_map_intents) simp
  have hit: "superseded kinds (handle_of r) = ?hit r" if "r \<in> set ?rows" for r
    using that by (simp add: superseded_def queued_def rows_of_def)
  have dropped: "handle_of (?drop r) = handle_of r\<lparr>wi_revision := wi_revision (handle_of r) + 1, wi_state := WS_SUPERSEDED\<rparr>" for r
    by (rule handle_eqI [symmetric]) simp_all
  have recs: "map ?g (shown ?rows) = shown (map ?f ?rows)"
    using hit dropped by (simp add: shown_def)
  have count: "length (filter ?hit (st_intents ?s)) = length (filter (\<lambda>(_, r). superseded kinds r) (wq_records m))"
  proof -
    have "length (filter (\<lambda>(_, r). superseded kinds r) (shown rs)) = length (filter (superseded kinds \<circ> handle_of) rs)" for rs
      by (induction rs) (simp_all add: shown_def)
    moreover have "filter (superseded kinds \<circ> handle_of) ?rows = filter ?hit ?rows"
      by (rule filter_cong) (simp_all add: hit)
    moreover have "filter ?hit ?rows = filter ?hit (st_intents ?s)"
      by (simp add: rows_of_def conj_commute) (meson)?
    ultimately show ?thesis using ra by (simp add: rows_alike_def)
  qed
  let ?m' = "snd (supersede kinds m)"
  have m': "wq_records ?m' = shown (map ?f ?rows)" "wq_order ?m' = map wi_intent_id (map ?f ?rows)"
      "wq_available ?m' = some_queued ?m'" "fst (supersede kinds m) = length (filter ?hit (st_intents ?s))"
    using ra recs count by (simp_all add: supersede_def Let_def refresh_available_def some_queued_def rows_alike_def)
  have ra1: "rows_alike rest (map ?f ?rows) ?m'"
  proof -
    show ?thesis by (rule rows_alike_map [OF ra _ m'(1,2,3)]) simp
  qed
  have ids: "map wi_intent_id (st_intents ?s1) = map wi_intent_id (st_intents ?s)"
    by (simp add: map_intents_def)
  have foreign: "foreign_ids scope ?s1 \<subseteq> foreign_ids scope ?s"
    by (rule equalityD1 [OF foreign_ids_map]) simp_all
  have avail: "dq_available (dq_refresh scope (q\<lparr>dq_store := ?s1, dq_version := v\<rparr>)) = some_queued ?m'" for v
    using refresh_shown [of ?m' scope ?s1 q] m'(1) rows by (simp add: dq_refresh_def)
  have "calls_ok scope owner ?s1 rest"
  proof (rule calls_ok_next [OF ok])
    show "fst (register_scope scope ?s1) = None"
      using rs register_scope_cong [of ?s1 ?s scope] by (simp add: map_intents_def)
    show "wi_intent_id ` set (st_intents ?s1) \<subseteq> wi_intent_id ` set (st_intents ?s) \<union> set (fresh_of (?c, now, e))"
      using arg_cong [where f = set, OF ids] by simp
  qed (use foreign in \<open>simp_all add: map_intents_def\<close>)
  then show ?thesis
    using m'(3,4) ra1 rows ids d avail
    by (simp add: dq_supersede_def supersede_queued_work_intents_def Let_def alike_def) (simp add: dq_refresh_def)
qed

lemma call_alike:
  assumes "alike scope (c # rest) q m" and "calls_ok scope owner (dq_store q) (c # rest)"
  shows "fst (durable_call scope owner c q) = fst (memory_call c m) \<and>
    alike scope rest (snd (durable_call scope owner c q)) (snd (memory_call c m)) \<and>
    calls_ok scope owner (dq_store (snd (durable_call scope owner c q))) rest"
proof (cases c)
  case (fields call now e)
  then show ?thesis
    using assms enqueue_alike lease_alike finish_alike supersede_alike by (cases call) (simp_all only:)
qed

lemma replies_alike:
  "alike scope cs q m \<Longrightarrow> calls_ok scope owner (dq_store q) cs \<Longrightarrow> durable_replies scope owner cs q = memory_replies cs m"
proof (induction cs arbitrary: q m)
  case (Cons c cs)
  from call_alike [OF Cons.prems] Cons.IH show ?case by simp
qed simp

lemma new_queues_alike:
  assumes "rows_of scope s = []" and "distinct (map wi_intent_id (st_intents s))"
  shows "alike scope cs \<lparr>dq_store = s, dq_available = False, dq_version = 0\<rparr> queue_init"
  using assms by (simp add: alike_def rows_alike_def shown_def queue_init_def some_queued_def)

section \<open>Two intents of one millisecond\<close>

text \<open>
  The refinement asks for increasing times: the clock texts have millisecond resolution, and two
  intents of equal priority and equal text are leased in the order of their random ids, while the
  in-memory queue leases them in the order of their admission.
\<close>

definition one_millisecond :: "timed_call list" where
  "one_millisecond =
     [(CallEnqueue ''b'' WK_MESSAGE ''chat'' [] None None None, ''t1'', ''u1''),
      (CallEnqueue ''a'' WK_MESSAGE ''chat'' [] None None None, ''t1'', ''u1''),
      (CallLease None, ''t2'', ''u2'')]"

definition queue_scope :: runtime_scope where
  "queue_scope = \<lparr>sc_server_id = ''server'', sc_world_id = ''world'', sc_bot_id = ''bot'', sc_key = ''key''\<rparr>"

definition leased_id :: "queue_reply \<Rightarrow> string option" where
  "leased_id r = (case r of Leased (Some i) \<Rightarrow> Some (wi_intent_id i) | _ \<Rightarrow> None)"

lemma one_millisecond_is_not_first_come:
  "map leased_id (durable_replies queue_scope ''owner'' one_millisecond \<lparr>dq_store = empty_store, dq_available = False, dq_version = 0\<rparr>)
     = [None, None, Some ''intent-a'']"
  "map leased_id (memory_replies one_millisecond queue_init) = [None, None, Some ''intent-b'']"
  by code_simp+

section \<open>The refinement\<close>

text \<open>
  C29. The durable queue refines the in-memory one: from a store with no intents of the scope,
  any sequence of enqueue, lease, finish and supersede calls whose texts, tasks and states the
  store accepts, made at increasing times before any lease expires, is answered by the SQLite
  queue reply for reply as by the in-memory queue: the same handles, revisions, leases, refusals
  and counts. The calls considered also finish no intent of another scope (the store takes any
  handle), and carry no payload whose list of orphaned references is malformed.
\<close>

theorem durable_queue_refines_memory_queue:
  assumes "rows_of scope s = []" and "distinct (map wi_intent_id (st_intents s))"
    and "calls_ok scope owner s cs"
  shows "durable_replies scope owner cs \<lparr>dq_store = s, dq_available = False, dq_version = 0\<rparr> = memory_replies cs queue_init"
  using replies_alike [OF new_queues_alike [OF assms(1,2)]] assms(3) by simp

definition demo_handle :: "string \<Rightarrow> work_intent" where
  "demo_handle fresh = \<lparr>wi_intent_id = ''intent-'' @ fresh, wi_revision = 2, wi_kind = WK_MESSAGE, wi_source = ''chat'',
     wi_priority = 76, wi_payload = [], wi_state = WS_LEASED, wi_dedupe_key = None, wi_task_id = None,
     wi_generation = None, wi_attempt_count = 1\<rparr>"

definition demo_calls :: "timed_call list" where
  "demo_calls =
     [(CallEnqueue ''1'' WK_MAINTENANCE ''idle'' [] (Some ''quiet'') None None, ''t1'', ''u1''),
      (CallEnqueue ''2'' WK_MESSAGE ''chat'' [] None None None, ''t2'', ''u2''),
      (CallEnqueue ''3'' WK_MAINTENANCE ''idle'' [] (Some ''quiet'') None None, ''t3'', ''u3''),
      (CallLease None, ''t4'', ''u4''),
      (CallFinish (demo_handle ''2'') WS_COMPLETED None, ''t5'', ''u5''),
      (CallFinish (demo_handle ''2'') WS_COMPLETED None, ''t6'', ''u6''),
      (CallSupersede {WK_MAINTENANCE} ''stop'', ''t7'', ''u7''),
      (CallLease None, ''t8'', ''u8'')]"

theorem durable_queue_refines_memory_queue_witness:
  "durable_replies queue_scope ''owner'' demo_calls \<lparr>dq_store = empty_store, dq_available = False, dq_version = 0\<rparr> =
   memory_replies demo_calls queue_init"
proof (rule durable_queue_refines_memory_queue)
  show "calls_ok queue_scope ''owner'' empty_store demo_calls" by code_simp
qed code_simp+

end
