(* ===== verification/Execution.thy ===== *)
theory Execution
  imports Messages World_Read
begin

text \<open>
  Cooperative cancellation and action budgets, \<open>minebot/contract/execution.py\<close>: one token per
  execution scope, cancelled once and for all with the first reason, and the one budget that the
  executor and the waiter of an action share. The token of the current scope and the reading of
  the monotonic clock are arguments.
\<close>

section \<open>Exceptions of a Body call\<close>

datatype body_exn =
    ExecutionCancelled string
  | TimedOut json_object
  | PyRaised py_exn
  | ReadRaised read_error
  | OutOfFuel

section \<open>Cancellation\<close>

record cancellation =
  cn_cancelled :: bool
  cn_reason :: string
  cn_deadline :: "rat option"

definition new_cancellation :: "rat option \<Rightarrow> cancellation" where
  "new_cancellation deadline = \<lparr>cn_cancelled = False, cn_reason = ''execution_cancelled'', cn_deadline = deadline\<rparr>"

definition cancel :: "string \<Rightarrow> cancellation \<Rightarrow> bool \<times> cancellation" where
  "cancel reason c =
     (let clean_reason = (if strip reason = [] then ''execution_cancelled'' else strip reason)
      in if cn_cancelled c then (False, c)
         else (True, c\<lparr>cn_reason := clean_reason, cn_cancelled := True\<rparr>))"

definition checkpoint :: "cancellation \<Rightarrow> body_exn option" where
  "checkpoint c = (if cn_cancelled c then Some (ExecutionCancelled (cn_reason c)) else None)"

definition execution_checkpoint :: "cancellation option \<Rightarrow> body_exn option" where
  "execution_checkpoint current = (case current of None \<Rightarrow> None | Some c \<Rightarrow> checkpoint c)"

section \<open>Budgets\<close>

text \<open>\<open>float()\<close>; \<open>parse\<close> reads a string.\<close>

fun py_float :: "(string \<Rightarrow> pyfloat option) \<Rightarrow> json \<Rightarrow> py_exn + pyfloat" where
  "py_float parse (JInt i) = Inr (Fin (of_int i))"
| "py_float parse (JBool b) = Inr (Fin (if b then 1 else 0))"
| "py_float parse (JFloat f) = Inr f"
| "py_float parse (JStr s) = (case parse s of None \<Rightarrow> Inl ValueError | Some f \<Rightarrow> Inr f)"
| "py_float parse _ = Inl TypeError"

fun flt_div :: "pyfloat \<Rightarrow> rat \<Rightarrow> pyfloat" where
  "flt_div (Fin q) d = Fin (q / d)"
| "flt_div f d = f"

text \<open>\<open>min\<close> of two keeps the first unless the second is less.\<close>

definition flt_min :: "pyfloat \<Rightarrow> pyfloat \<Rightarrow> pyfloat" where
  "flt_min a b = (if flt_lt b a then b else a)"

definition requested_budget :: "(string \<Rightarrow> pyfloat option) \<Rightarrow> json_object \<Rightarrow> rat \<Rightarrow> py_exn + pyfloat" where
  "requested_budget parse params timeout_s =
     (case map_of params ''timeout_ms'' of
        Some v \<Rightarrow> map_sum id (\<lambda>f. flt_div f 1000) (py_float parse v)
      | None \<Rightarrow>
     (case map_of params ''timeout_ticks'' of
        Some v \<Rightarrow> map_sum id (\<lambda>f. flt_div f 20) (py_float parse v)
      | None \<Rightarrow>
     (case map_of params ''timeout_s'' of
        Some v \<Rightarrow> py_float parse v
      | None \<Rightarrow> Inr (Fin timeout_s))))"

definition remaining_time :: "cancellation option \<Rightarrow> rat \<Rightarrow> rat option" where
  "remaining_time current now =
     (case current of None \<Rightarrow> None | Some c \<Rightarrow> map_option (\<lambda>d. d - now) (cn_deadline c))"

text \<open>The integer parameters that a budget of \<open>q\<close> seconds is sent as.\<close>

definition budget_params :: "rat \<Rightarrow> json_object \<Rightarrow> json_object" where
  "budget_params q params =
     AList.update ''timeout_ticks'' (JInt (max 1 (trunc (q * 20))))
       (AList.update ''timeout_ms'' (JInt (max 1 (trunc (q * 1000)))) params)"

definition action_with_timeout ::
  "(string \<Rightarrow> pyfloat option) \<Rightarrow> cancellation option \<Rightarrow> rat \<Rightarrow> action \<Rightarrow> rat \<Rightarrow> body_exn + action" where
  "action_with_timeout parse current now a timeout_s =
     (case execution_checkpoint current of
        Some e \<Rightarrow> Inl e
      | None \<Rightarrow>
     (case requested_budget parse (ac_params a) timeout_s of
        Inl e \<Rightarrow> Inl (PyRaised e)
      | Inr f \<Rightarrow>
          (let b = flt_min (flt_min f (Fin timeout_s)) (Fin 300);
               b' = (case remaining_time current now of None \<Rightarrow> b | Some r \<Rightarrow> flt_min b (Fin r))
           in if flt_le b' (Fin 0) then Inl (ExecutionCancelled ''execution_timeout'')
              else case b' of
                Fin q \<Rightarrow> Inr (a\<lparr>ac_params := budget_params q (ac_params a)\<rparr>)
              | NaN \<Rightarrow> Inl (PyRaised ValueError)
              | _ \<Rightarrow> Inl (PyRaised OverflowError))))"

text \<open>\<open>float(action.params["timeout_ms"]) / 1000 + 5.0\<close> of an action that went through the above\<close>

definition action_wait_timeout_s :: "action \<Rightarrow> rat" where
  "action_wait_timeout_s a =
     (case map_of (ac_params a) ''timeout_ms'' of Some (JInt ms) \<Rightarrow> of_int ms / 1000 + 5 | _ \<Rightarrow> 5)"

section \<open>One cancellation per scope\<close>

lemma cancel_first:
  "fst (cancel r c) \<longleftrightarrow> \<not> cn_cancelled c"
  "cn_cancelled (snd (cancel r c))"
  by (auto simp: cancel_def Let_def)

lemma cancel_keeps: "cn_cancelled c \<Longrightarrow> cancel r c = (False, c)"
  by (simp add: cancel_def Let_def)

lemma cancelled_for_good:
  "cn_cancelled c \<Longrightarrow> fold (\<lambda>r. snd \<circ> cancel r) rs c = c"
  by (induction rs) (simp_all add: cancel_keeps)

section \<open>Budgets are bounded\<close>

lemma flt_min_Fin: "flt_min f (Fin q) = Fin r \<Longrightarrow> r \<le> q"
  by (cases f) (auto simp: flt_min_def split: if_splits)

lemma flt_min_PosInf: "flt_min f (Fin q) \<noteq> PosInf"
  by (cases f) (auto simp: flt_min_def)

lemma flt_min_le: "flt_min f (Fin q) = Fin r \<Longrightarrow> (\<exists>p. f = Fin p \<and> r \<le> p) \<or> f = PosInf \<or> f = NegInf"
  by (cases f) (auto simp: flt_min_def split: if_splits)

lemma flt_min_NegInf: "flt_min NegInf (Fin q) = NegInf"
  by (simp add: flt_min_def)

lemma flt_min_finite: "flt_min f (Fin q) = Fin r \<Longrightarrow> f = Fin p \<Longrightarrow> r \<le> p"
  by (auto simp: flt_min_def split: if_splits)

lemma trunc_le: "0 \<le> q \<Longrightarrow> of_int (trunc q) \<le> q"
  by (simp add: trunc_def)

lemma map_of_budget:
  "map_of (budget_params q params) ''timeout_ms'' = Some (JInt (max 1 (trunc (q * 1000))))"
  "map_of (budget_params q params) ''timeout_ticks'' = Some (JInt (max 1 (trunc (q * 20))))"
  "k \<noteq> ''timeout_ms'' \<Longrightarrow> k \<noteq> ''timeout_ticks'' \<Longrightarrow> map_of (budget_params q params) k = map_of params k"
  by (simp_all add: budget_params_def)

lemma action_with_timeout_budget:
  assumes "action_with_timeout parse current now a timeout_s = Inr a'"
  obtains q where "a' = a\<lparr>ac_params := budget_params q (ac_params a)\<rparr>" "0 < q" "q \<le> timeout_s" "q \<le> 300"
    "\<And>r. remaining_time current now = Some r \<Longrightarrow> q \<le> r" "execution_checkpoint current = None"
proof -
  obtain f where f: "requested_budget parse (ac_params a) timeout_s = Inr f" "execution_checkpoint current = None"
    using assms by (auto simp: action_with_timeout_def split: option.splits sum.splits)
  define b where "b = flt_min (flt_min f (Fin timeout_s)) (Fin 300)"
  define b' where "b' = (case remaining_time current now of None \<Rightarrow> b | Some r \<Rightarrow> flt_min b (Fin r))"
  obtain q where q: "b' = Fin q" "0 < q" "a' = a\<lparr>ac_params := budget_params q (ac_params a)\<rparr>"
    using assms f unfolding b'_def b_def
    by (auto simp: action_with_timeout_def Let_def split: if_splits pyfloat.splits)
  have bf: "\<exists>p. b = Fin p \<and> q \<le> p"
  proof (cases "remaining_time current now")
    case None
    then show ?thesis using q(1) b'_def by simp
  next
    case (Some r)
    then have "flt_min b (Fin r) = Fin q" using q(1) b'_def by simp
    moreover have "b \<noteq> PosInf" unfolding b_def by (rule flt_min_PosInf)
    moreover have "b \<noteq> NegInf" using calculation(1) flt_min_NegInf by auto
    ultimately show ?thesis using flt_min_le by fastforce
  qed
  then obtain p where p: "flt_min (flt_min f (Fin timeout_s)) (Fin 300) = Fin p" "q \<le> p" unfolding b_def by blast
  have "flt_min f (Fin timeout_s) \<noteq> PosInf" by (rule flt_min_PosInf)
  moreover have "flt_min f (Fin timeout_s) \<noteq> NegInf" using p(1) flt_min_NegInf by auto
  ultimately obtain u where u: "flt_min f (Fin timeout_s) = Fin u" "p \<le> u"
    using flt_min_le [OF p(1)] by blast
  have "q \<le> r" if "remaining_time current now = Some r" for r
    using that q(1) flt_min_Fin unfolding b'_def by fastforce
  moreover have "q \<le> timeout_s" using p(2) u flt_min_Fin [OF u(1)] by simp
  moreover have "q \<le> 300" using p(2) flt_min_Fin [OF p(1)] by simp
  ultimately show ?thesis using that q f(2) by blast
qed

text \<open>The bound of the caller, of the lane and of the service, on what an action carries.\<close>

definition within_budget :: "rat \<Rightarrow> action \<Rightarrow> bool" where
  "within_budget limit a \<longleftrightarrow>
     (case (map_of (ac_params a) ''timeout_ms'', map_of (ac_params a) ''timeout_ticks'') of
        (Some (JInt ms), Some (JInt ticks)) \<Rightarrow>
          1 \<le> ms \<and> 1 \<le> ticks \<and> of_int ms \<le> max 1 (1000 * limit) \<and> of_int ticks \<le> max 1 (20 * limit)
      | _ \<Rightarrow> False)"

lemma within_budget_params:
  assumes "0 < q" and "q \<le> limit"
  shows "within_budget limit (a\<lparr>ac_params := budget_params q p\<rparr>)"
proof -
  have le: "of_int (max 1 (trunc (q * k))) \<le> max 1 (k * limit)" if "0 \<le> k" for k :: rat
  proof -
    have "of_int (trunc (q * k)) \<le> k * limit"
      using trunc_le [of "q * k"] mult_right_mono [OF assms(2) that] assms(1) that by (simp add: mult.commute)
    then show ?thesis by (auto simp: max_def)
  qed
  show ?thesis using le [of 1000] le [of 20] by (simp add: within_budget_def map_of_budget)
qed

text \<open>
  An action never outlives its caller: when \<open>action_with_timeout\<close> lets an action through,
  the scope was not cancelled, and the milliseconds and ticks it carries are at least one and at
  most what the caller's timeout, the service limit of 300 seconds and the time left of the
  scope's deadline allow; its other parameters are kept.
\<close>

lemma action_budget_is_bounded:
  assumes "action_with_timeout parse current now a timeout_s = Inr a'"
  shows "execution_checkpoint current = None \<and> within_budget timeout_s a' \<and> within_budget 300 a' \<and>
    (\<forall>r. remaining_time current now = Some r \<longrightarrow> within_budget r a') \<and>
    ac_id a' = ac_id a \<and> ac_name a' = ac_name a \<and>
    (\<forall>k. k \<noteq> ''timeout_ms'' \<and> k \<noteq> ''timeout_ticks'' \<longrightarrow> map_of (ac_params a') k = map_of (ac_params a) k)"
proof -
  obtain q where q: "a' = a\<lparr>ac_params := budget_params q (ac_params a)\<rparr>" "0 < q" "q \<le> timeout_s" "q \<le> 300"
    "\<And>r. remaining_time current now = Some r \<Longrightarrow> q \<le> r" "execution_checkpoint current = None"
    using assms by (rule action_with_timeout_budget) blast
  then show ?thesis using within_budget_params by (simp add: map_of_budget)
qed

definition demo_action :: action where
  "demo_action = \<lparr>ac_id = ''a1'', ac_name = ''mineBlock'', ac_params = [(''timeout_ticks'', JInt 600)]\<rparr>"

theorem action_budget_is_bounded_witness:
  "within_budget 5 \<lparr>ac_id = ''a1'', ac_name = ''mineBlock'',
     ac_params = [(''timeout_ticks'', JInt 100), (''timeout_ms'', JInt 5000)]\<rparr>"
proof -
  have "action_with_timeout (\<lambda>_. None) (Some (new_cancellation (Some 12))) 2 demo_action 5 =
      Inr \<lparr>ac_id = ''a1'', ac_name = ''mineBlock'', ac_params = [(''timeout_ticks'', JInt 100), (''timeout_ms'', JInt 5000)]\<rparr>"
    by code_simp
  from action_budget_is_bounded [OF this] show ?thesis by blast
qed

end
