(* ===== verification/Body_Port.thy ===== *)
theory Body_Port
  imports Execution Governance Nav_Goals
begin

text \<open>
  What a Body transaction is written against: the \<open>Body\<close> protocol of
  \<open>minebot/contract/body_iface.py\<close>, the navigator protocol of \<open>minebot/body/block_work.py\<close> and the
  shared governance policy. A transaction is a function of its state, the world \<open>'w\<close> behind the
  Body and the policy, to a result or an exception and the next state; the operations of the Body
  are arguments. \<open>recording\<close> is a Body that keeps a log of what it was asked and what it answered;
  the properties of the transactions are stated over it.
\<close>

section \<open>The port\<close>

text \<open>
  What the host computes for the code: square roots of floats, \<open>float()\<close> and \<open>str()\<close> of values the
  model does not print, and the texts of exceptions.
\<close>

record platform =
  pf_sqrt :: "rat \<Rightarrow> rat"
  pf_float :: "string \<Rightarrow> pyfloat option"
  pf_show :: "json \<Rightarrow> string"
  pf_error_text :: "read_error \<Rightarrow> string"

datatype goal_like = AtPosition position | AtGoal navigation_goal

text \<open>What a caller asks of the navigator beside the goal; the rest of its profile is the navigator's.\<close>

record nav_options =
  no_break_context :: break_context
  no_max_break_steps :: "int option"
  no_segment_timeout_s :: "rat option"
  no_max_segments :: "int option"
  no_pure_movement :: bool
  no_arrival_radius :: "rat option"

definition travel_options :: "break_context \<Rightarrow> nav_options" where
  "travel_options context =
     \<lparr>no_break_context = context, no_max_break_steps = None, no_segment_timeout_s = None, no_max_segments = None,
      no_pure_movement = False, no_arrival_radius = None\<rparr>"

type_synonym ('w, 'a) world_call = "'w \<Rightarrow> (body_exn + 'a) \<times> 'w"

text \<open>
  A decision of the governance policy, with all it was made from. \<open>port_judged\<close> is told every one of
  them: the code keeps no such record, so a Body that is not observed ignores it.
\<close>

record break_judgement =
  bj_pos :: position
  bj_block_type :: string
  bj_context :: break_context
  bj_explicit :: bool
  bj_policy :: governance_policy
  bj_assessor :: "assessor option"
  bj_envs :: "gov_env \<times> gov_env"
  bj_decision :: legality_decision

record place_judgement =
  pj_pos :: position
  pj_block_type :: string
  pj_context :: place_context
  pj_policy :: governance_policy
  pj_decision :: legality_decision

datatype judgement = Break_Judged break_judgement | Place_Judged place_judgement

record 'w body_port =
  port_platform :: platform
  port_bot_name :: string
  port_preferred_page_size :: "json option"
  port_perceive :: "string \<Rightarrow> json_object \<Rightarrow> ('w, perception_result) world_call"
  port_get_state :: "('w, body_state) world_call"
  port_execute :: "action \<Rightarrow> ('w, result) world_call"
  port_await :: "string \<Rightarrow> rat \<Rightarrow> ('w, event) world_call"
  port_interrupt :: "string \<Rightarrow> ('w, result) world_call"
  port_navigate :: "(goal_like \<Rightarrow> nav_options \<Rightarrow> ('w \<times> governance_policy, tool_result) world_call) option"
  port_follow :: "(string \<Rightarrow> rat \<Rightarrow> rat \<Rightarrow> ('w \<times> governance_policy, tool_result) world_call) option"
  port_pause :: "rat \<Rightarrow> 'w \<Rightarrow> 'w"
  port_monotonic :: "'w \<Rightarrow> rat \<times> 'w"
  port_fresh_id :: "'w \<Rightarrow> string \<times> 'w"
  port_cancellation :: "'w \<Rightarrow> cancellation option"
  port_assessor :: "'w \<Rightarrow> assessor option"
  port_clock :: "'w \<Rightarrow> gov_env \<times> gov_env"
  port_judged :: "judgement \<Rightarrow> 'w \<Rightarrow> 'w"

record 'w tx_state =
  tx_world :: 'w
  tx_policy :: governance_policy

section \<open>Transactions\<close>

type_synonym ('w, 'a) tx = "'w tx_state \<Rightarrow> (body_exn + 'a) \<times> 'w tx_state"

definition tx_return :: "'a \<Rightarrow> ('w, 'a) tx" where
  "tx_return a s = (Inr a, s)"

definition tx_raise :: "body_exn \<Rightarrow> ('w, 'a) tx" where
  "tx_raise e s = (Inl e, s)"

definition tx_bind :: "('w, 'a) tx \<Rightarrow> ('a \<Rightarrow> ('w, 'b) tx) \<Rightarrow> ('w, 'b) tx" where
  "tx_bind m f s = (case m s of (Inl e, s') \<Rightarrow> (Inl e, s') | (Inr a, s') \<Rightarrow> f a s')"

text \<open>\<open>try: m except: h\<close>, where \<open>h\<close> handles some exceptions only.\<close>

definition tx_catch :: "('w, 'a) tx \<Rightarrow> (body_exn \<Rightarrow> ('w, 'a) tx option) \<Rightarrow> ('w, 'a) tx" where
  "tx_catch m h s =
     (case m s of
        (Inl e, s') \<Rightarrow> (case h e of None \<Rightarrow> (Inl e, s') | Some k \<Rightarrow> k s')
      | r \<Rightarrow> r)"

definition tx_call :: "('w, 'a) world_call \<Rightarrow> ('w, 'a) tx" where
  "tx_call f s = (case f (tx_world s) of (r, w) \<Rightarrow> (r, s\<lparr>tx_world := w\<rparr>))"

definition tx_read :: "('w \<Rightarrow> 'a \<times> 'w) \<Rightarrow> ('w, 'a) tx" where
  "tx_read f s = (case f (tx_world s) of (a, w) \<Rightarrow> (Inr a, s\<lparr>tx_world := w\<rparr>))"

definition tx_lift :: "py_exn + 'a \<Rightarrow> ('w, 'a) tx" where
  "tx_lift r s = (map_sum PyRaised id r, s)"

definition perceive :: "'w body_port \<Rightarrow> string \<Rightarrow> json_object \<Rightarrow> ('w, perception_result) tx" where
  "perceive port scope params = tx_call (port_perceive port scope params)"

definition get_state :: "'w body_port \<Rightarrow> ('w, body_state) tx" where
  "get_state port = tx_call (port_get_state port)"

definition await_action_terminal :: "'w body_port \<Rightarrow> string \<Rightarrow> rat \<Rightarrow> ('w, event) tx" where
  "await_action_terminal port action_id timeout_s = tx_call (port_await port action_id timeout_s)"

definition pause_for :: "'w body_port \<Rightarrow> rat \<Rightarrow> ('w, unit) tx" where
  "pause_for port seconds =
     (if seconds \<le> 0 then tx_return () else tx_read (\<lambda>w. ((), port_pause port seconds w)))"

text \<open>\<open>Action.create\<close>, \<open>action_with_timeout\<close> and \<open>execute\<close>: the action that was sent and the answer.\<close>

definition with_budget :: "'w body_port \<Rightarrow> action \<Rightarrow> rat \<Rightarrow> ('w, action) tx" where
  "with_budget port a timeout_s =
     tx_bind (tx_read (port_monotonic port)) (\<lambda>now s.
       (action_with_timeout (pf_float (port_platform port)) (port_cancellation port (tx_world s)) now a timeout_s, s))"

definition send_action :: "'w body_port \<Rightarrow> string \<Rightarrow> json_object \<Rightarrow> rat \<Rightarrow> ('w, action \<times> result) tx" where
  "send_action port name params timeout_s =
     tx_bind (tx_read (port_fresh_id port)) (\<lambda>i.
     tx_bind (with_budget port \<lparr>ac_id = i, ac_name = name, ac_params = params\<rparr> timeout_s) (\<lambda>a.
     tx_bind (tx_call (port_execute port a)) (\<lambda>r. tx_return (a, r))))"

text \<open>The terminal of an action that was sent, as a tool result.\<close>

definition await_result :: "'w body_port \<Rightarrow> action \<Rightarrow> ('w, tool_result) tx" where
  "await_result port a =
     tx_bind (await_action_terminal port (ac_id a) (action_wait_timeout_s a)) (\<lambda>e.
     tx_return (terminal_event_to_tool_result (pf_show (port_platform port)) e))"

definition navigate_to ::
  "(goal_like \<Rightarrow> nav_options \<Rightarrow> ('w \<times> governance_policy, tool_result) world_call) \<Rightarrow> goal_like \<Rightarrow> nav_options
   \<Rightarrow> ('w, tool_result) tx" where
  "navigate_to nav goal opts s =
     (case nav goal opts (tx_world s, tx_policy s) of
        (r, (w, p)) \<Rightarrow> (r, s\<lparr>tx_world := w, tx_policy := p\<rparr>))"

text \<open>\<open>navigator.follow_entity\<close>, where the navigator has it.\<close>

definition follow_entity ::
  "(string \<Rightarrow> rat \<Rightarrow> rat \<Rightarrow> ('w \<times> governance_policy, tool_result) world_call) \<Rightarrow> string \<Rightarrow> rat \<Rightarrow> rat
   \<Rightarrow> ('w, tool_result) tx" where
  "follow_entity follow target keep_distance timeout_s s =
     (case follow target keep_distance timeout_s (tx_world s, tx_policy s) of
        (r, (w, p)) \<Rightarrow> (r, s\<lparr>tx_world := w, tx_policy := p\<rparr>))"

text \<open>\<open>can_break\<close> and \<open>can_place\<close> of the policy in force; what was decided is noted.\<close>

definition break_judged ::
  "'w body_port \<Rightarrow> position \<Rightarrow> string \<Rightarrow> break_context \<Rightarrow> bool \<Rightarrow> 'w tx_state \<Rightarrow> break_judgement \<times> governance_policy" where
  "break_judged port pos block_type context explicit s =
     (case can_break (tx_policy s) (port_assessor port (tx_world s)) (fst (port_clock port (tx_world s)))
             (snd (port_clock port (tx_world s))) pos block_type context explicit None None of
        (d, p) \<Rightarrow>
          (\<lparr>bj_pos = pos, bj_block_type = block_type, bj_context = context, bj_explicit = explicit, bj_policy = tx_policy s,
            bj_assessor = port_assessor port (tx_world s), bj_envs = port_clock port (tx_world s), bj_decision = d\<rparr>, p))"

definition judge_break ::
  "'w body_port \<Rightarrow> position \<Rightarrow> string \<Rightarrow> break_context \<Rightarrow> bool \<Rightarrow> ('w, legality_decision) tx" where
  "judge_break port pos block_type context explicit s =
     (case break_judged port pos block_type context explicit s of
        (j, p) \<Rightarrow> (Inr (bj_decision j), s\<lparr>tx_world := port_judged port (Break_Judged j) (tx_world s), tx_policy := p\<rparr>))"

definition place_judged ::
  "'w body_port \<Rightarrow> position \<Rightarrow> string \<Rightarrow> place_context \<Rightarrow> 'w tx_state \<Rightarrow> place_judgement" where
  "place_judged port pos block_type context s =
     \<lparr>pj_pos = pos, pj_block_type = block_type, pj_context = context, pj_policy = tx_policy s,
      pj_decision = can_place (tx_policy s) pos block_type context (port_bot_name port)\<rparr>"

definition judge_place ::
  "'w body_port \<Rightarrow> position \<Rightarrow> string \<Rightarrow> place_context \<Rightarrow> ('w, legality_decision) tx" where
  "judge_place port pos block_type context s =
     (let j = place_judged port pos block_type context s
      in (Inr (pj_decision j), s\<lparr>tx_world := port_judged port (Place_Judged j) (tx_world s)\<rparr>))"

definition record_placement :: "'w body_port \<Rightarrow> position \<Rightarrow> string \<Rightarrow> string \<Rightarrow> ('w, unit) tx" where
  "record_placement port pos block_type purpose s =
     (Inr (), s\<lparr>tx_policy := record_bot_placement (tx_policy s) pos block_type purpose (port_bot_name port)\<rparr>)"

section \<open>A Body that keeps a log\<close>

datatype body_call =
    Perceived string json_object "body_exn + perception_result"
  | Looked "body_exn + body_state"
  | Executed action "body_exn + result"
  | Awaited string "body_exn + event"
  | Interrupted string "body_exn + result"
  | Travelled goal_like "body_exn + tool_result"
  | Followed string "body_exn + tool_result"
  | Judged judgement

type_synonym 'w logged = "'w \<times> body_call list"

definition noting :: "((body_exn + 'a) \<Rightarrow> body_call) \<Rightarrow> ('w, 'a) world_call \<Rightarrow> ('w logged, 'a) world_call" where
  "noting c f wl = (case f (fst wl) of (r, w) \<Rightarrow> (r, (w, snd wl @ [c r])))"

definition unnoted :: "('w \<Rightarrow> 'a \<times> 'w) \<Rightarrow> 'w logged \<Rightarrow> 'a \<times> 'w logged" where
  "unnoted f wl = (case f (fst wl) of (a, w) \<Rightarrow> (a, (w, snd wl)))"

definition noting_travel ::
  "(goal_like \<Rightarrow> nav_options \<Rightarrow> ('w \<times> governance_policy, tool_result) world_call)
   \<Rightarrow> goal_like \<Rightarrow> nav_options \<Rightarrow> ('w logged \<times> governance_policy, tool_result) world_call" where
  "noting_travel nav goal opts x =
     (case nav goal opts (fst (fst x), snd x) of
        (r, (w, p)) \<Rightarrow> (r, ((w, snd (fst x) @ [Travelled goal r]), p)))"

definition noting_follow ::
  "(string \<Rightarrow> rat \<Rightarrow> rat \<Rightarrow> ('w \<times> governance_policy, tool_result) world_call)
   \<Rightarrow> string \<Rightarrow> rat \<Rightarrow> rat \<Rightarrow> ('w logged \<times> governance_policy, tool_result) world_call" where
  "noting_follow follow target keep_distance timeout_s x =
     (case follow target keep_distance timeout_s (fst (fst x), snd x) of
        (r, (w, p)) \<Rightarrow> (r, ((w, snd (fst x) @ [Followed target r]), p)))"

definition recording :: "'w body_port \<Rightarrow> 'w logged body_port" where
  "recording port =
     \<lparr>port_platform = port_platform port,
      port_bot_name = port_bot_name port,
      port_preferred_page_size = port_preferred_page_size port,
      port_perceive = (\<lambda>scope params. noting (Perceived scope params) (port_perceive port scope params)),
      port_get_state = noting Looked (port_get_state port),
      port_execute = (\<lambda>a. noting (Executed a) (port_execute port a)),
      port_await = (\<lambda>i t. noting (Awaited i) (port_await port i t)),
      port_interrupt = (\<lambda>r. noting (Interrupted r) (port_interrupt port r)),
      port_navigate = map_option noting_travel (port_navigate port),
      port_follow = map_option noting_follow (port_follow port),
      port_pause = (\<lambda>t wl. (port_pause port t (fst wl), snd wl)),
      port_monotonic = unnoted (port_monotonic port),
      port_fresh_id = unnoted (port_fresh_id port),
      port_cancellation = (\<lambda>wl. port_cancellation port (fst wl)),
      port_assessor = (\<lambda>wl. port_assessor port (fst wl)),
      port_clock = (\<lambda>wl. port_clock port (fst wl)),
      port_judged = (\<lambda>j wl. (port_judged port j (fst wl), snd wl @ [Judged j]))\<rparr>"

definition tx_log :: "'w logged tx_state \<Rightarrow> body_call list" where
  "tx_log s = snd (tx_world s)"

section \<open>Invariants of a transaction\<close>

text \<open>\<open>I\<close> holds after a transaction, however it ends, when it held before it.\<close>

definition keeps :: "('w tx_state \<Rightarrow> bool) \<Rightarrow> ('w, 'a) tx \<Rightarrow> bool" where
  "keeps I m \<longleftrightarrow> (\<forall>s. I s \<longrightarrow> I (snd (m s)))"

named_theorems keeps_intros \<open>transactions that keep an invariant\<close>

lemma keepsI: "(\<And>s. I s \<Longrightarrow> I (snd (m s))) \<Longrightarrow> keeps I m"
  by (simp add: keeps_def)

lemma keepsD: "keeps I m \<Longrightarrow> I s \<Longrightarrow> I (snd (m s))"
  by (simp add: keeps_def)

lemma keeps_return [keeps_intros]: "keeps I (tx_return a)"
  by (simp add: keeps_def tx_return_def)

lemma keeps_raise [keeps_intros]: "keeps I (tx_raise e)"
  by (simp add: keeps_def tx_raise_def)

lemma keeps_lift [keeps_intros]: "keeps I (tx_lift r)"
  by (simp add: keeps_def tx_lift_def)

lemma keeps_bind [keeps_intros]:
  "keeps I m \<Longrightarrow> (\<And>a. keeps I (f a)) \<Longrightarrow> keeps I (tx_bind m f)"
proof (rule keepsI)
  fix s
  assume "keeps I m" and f: "\<And>a. keeps I (f a)" and "I s"
  then have "I (snd (m s))" by (blast dest: keepsD)
  then show "I (snd (tx_bind m f s))"
    using keepsD [OF f] by (auto simp: tx_bind_def split: prod.split sum.split)
qed

lemma keeps_catch [keeps_intros]:
  assumes "keeps I m" and "\<And>e k. h e = Some k \<Longrightarrow> keeps I k"
  shows "keeps I (tx_catch m h)"
proof (rule keepsI)
  fix s
  assume "I s"
  with assms(1) have "I (snd (m s))" by (rule keepsD)
  then show "I (snd (tx_catch m h s))"
    using keepsD [OF assms(2)] by (auto simp: tx_catch_def split: prod.split sum.split option.split)
qed

lemma keeps_option [keeps_intros]:
  "(x = None \<Longrightarrow> keeps I m) \<Longrightarrow> (\<And>a. x = Some a \<Longrightarrow> keeps I (f a)) \<Longrightarrow> keeps I (case x of None \<Rightarrow> m | Some a \<Rightarrow> f a)"
  by (cases x) simp_all

lemma keeps_sum [keeps_intros]:
  "(\<And>a. x = Inl a \<Longrightarrow> keeps I (g a)) \<Longrightarrow> (\<And>a. x = Inr a \<Longrightarrow> keeps I (f a)) \<Longrightarrow>
     keeps I (case x of Inl a \<Rightarrow> g a | Inr a \<Rightarrow> f a)"
  by (cases x) simp_all

lemma keeps_if [keeps_intros]: "(b \<Longrightarrow> keeps I m) \<Longrightarrow> (\<not> b \<Longrightarrow> keeps I n) \<Longrightarrow> keeps I (if b then m else n)"
  by simp

lemma keeps_let [keeps_intros]: "keeps I (f x) \<Longrightarrow> keeps I (let y = x in f y)"
  by (simp add: Let_def)

lemma keeps_pair [keeps_intros]: "(\<And>a b. x = (a, b) \<Longrightarrow> keeps I (f a b)) \<Longrightarrow> keeps I (case x of (a, b) \<Rightarrow> f a b)"
  by (cases x) simp

lemma bind_simps [simp]:
  "tx_bind (tx_return a) f = f a" "tx_bind (tx_raise e) g = tx_raise e"
  by (simp_all add: tx_bind_def tx_return_def tx_raise_def fun_eq_iff)

lemma tx_bind_Inr:
  "tx_bind m f s = (Inr b, s') \<longleftrightarrow> (\<exists>a t. m s = (Inr a, t) \<and> f a t = (Inr b, s'))"
  by (auto simp: tx_bind_def split: prod.splits sum.splits)

lemma recording_simps [simp]:
  "port_platform (recording port) = port_platform port"
  "port_bot_name (recording port) = port_bot_name port"
  "port_preferred_page_size (recording port) = port_preferred_page_size port"
  "port_cancellation (recording port) wl = port_cancellation port (fst wl)"
  "port_assessor (recording port) wl = port_assessor port (fst wl)"
  "port_clock (recording port) wl = port_clock port (fst wl)"
  by (simp_all add: recording_def)

section \<open>Invariants of the log\<close>

text \<open>The calls that neither change the world by themselves nor read the block a decision is about.\<close>

fun passive_entry :: "body_call \<Rightarrow> bool" where
  "passive_entry (Perceived scope params r) \<longleftrightarrow> scope \<in> {''blockCells'', ''inventory''}"
| "passive_entry (Looked r) \<longleftrightarrow> True"
| "passive_entry (Awaited i r) \<longleftrightarrow> True"
| "passive_entry (Interrupted x r) \<longleftrightarrow> True"
| "passive_entry (Executed a r) \<longleftrightarrow> False"
| "passive_entry (Travelled g r) \<longleftrightarrow> False"
| "passive_entry (Followed i r) \<longleftrightarrow> False"
| "passive_entry (Judged j) \<longleftrightarrow> False"

text \<open>The action that is sent for a name and parameters: they are kept, the budget is added.\<close>

definition sent_as :: "string \<Rightarrow> json_object \<Rightarrow> action \<Rightarrow> bool" where
  "sent_as name params a \<longleftrightarrow>
     ac_name a = name \<and>
     (\<forall>k. k \<noteq> ''timeout_ms'' \<and> k \<noteq> ''timeout_ticks'' \<longrightarrow> map_of (ac_params a) k = map_of params k)"

text \<open>
  An invariant \<open>J\<close> of the log and the policy, and the calls \<open>C\<close> that keep it. Every transaction
  whose calls are of \<open>C\<close> keeps the invariant; the lemmas of the locale grow with the transactions.
\<close>

locale log_invariant =
  fixes J :: "body_call list \<Rightarrow> governance_policy \<Rightarrow> bool"
    and C :: "body_call \<Rightarrow> bool"
  assumes call: "J cs p \<Longrightarrow> C c \<Longrightarrow> J (cs @ [c]) p"
    and quiet: "passive_entry c \<Longrightarrow> C c"
    and judging: "J cs p \<Longrightarrow> J cs (snd (can_break p asr e1 e2 pos raw ctx ex who aid))"
    and placing: "J cs p \<Longrightarrow> J cs (record_bot_placement p pos raw purpose owner)"
begin

definition inv :: "'w logged tx_state \<Rightarrow> bool" where
  "inv s \<longleftrightarrow> J (tx_log s) (tx_policy s)"

lemma keeps_noted: "(\<And>r. C (c r)) \<Longrightarrow> keeps inv (tx_call (noting c f))"
  by (rule keepsI) (auto simp: inv_def tx_call_def noting_def tx_log_def intro: call split: prod.split)

lemma keeps_perceive: "(\<And>r. C (Perceived scope params r)) \<Longrightarrow> keeps inv (perceive (recording port) scope params)"
  unfolding perceive_def recording_def by (simp add: keeps_noted)

lemma keeps_get_state: "keeps inv (get_state (recording port))"
  unfolding get_state_def recording_def by (simp add: keeps_noted quiet)

lemma keeps_await: "keeps inv (await_action_terminal (recording port) i t)"
  unfolding await_action_terminal_def recording_def by (simp add: keeps_noted quiet)

lemma keeps_interrupt: "keeps inv (tx_call (port_interrupt (recording port) r))"
  unfolding recording_def by (simp add: keeps_noted quiet)

lemma keeps_read: "keeps inv (tx_read (unnoted f))"
  by (rule keepsI) (auto simp: inv_def tx_read_def unnoted_def tx_log_def split: prod.split)

lemma keeps_monotonic: "keeps inv (tx_read (port_monotonic (recording port)))"
  unfolding recording_def by (simp add: keeps_read)

lemma keeps_fresh_id: "keeps inv (tx_read (port_fresh_id (recording port)))"
  unfolding recording_def by (simp add: keeps_read)

lemma keeps_pause: "keeps inv (pause_for (recording port) t)"
  unfolding pause_for_def recording_def
  by (rule keepsI) (auto simp: inv_def tx_read_def tx_return_def tx_log_def)

lemma keeps_judge_break:
  assumes "\<And>j. bj_pos j = pos \<Longrightarrow> C (Judged (Break_Judged j))"
  shows "keeps inv (judge_break (recording port) pos raw ctx ex)"
proof (rule keepsI)
  fix s :: "'a logged tx_state"
  assume s: "inv s"
  obtain j p where run: "break_judged (recording port) pos raw ctx ex s = (j, p)" by (rule prod.exhaust)
  then have j: "bj_pos j = pos" and p: "p = snd (can_break (tx_policy s) (port_assessor (recording port) (tx_world s))
      (fst (port_clock (recording port) (tx_world s))) (snd (port_clock (recording port) (tx_world s))) pos raw ctx ex None None)"
    by (auto simp: break_judged_def split: prod.splits)
  have "J (tx_log s) p" unfolding p by (rule judging) (use s in \<open>simp add: inv_def\<close>)
  then have "J (tx_log s @ [Judged (Break_Judged j)]) p" using assms [OF j] by (rule call)
  then show "inv (snd (judge_break (recording port) pos raw ctx ex s))"
    using run by (simp add: judge_break_def inv_def recording_def tx_log_def)
qed

lemma keeps_judge_place:
  assumes "\<And>j. pj_pos j = pos \<Longrightarrow> C (Judged (Place_Judged j))"
  shows "keeps inv (judge_place (recording port) pos raw ctx)"
  by (rule keepsI)
    (simp add: judge_place_def Let_def inv_def recording_def tx_log_def place_judged_def call assms)

lemma keeps_record: "keeps inv (record_placement port pos raw purpose)"
  by (rule keepsI) (auto simp: inv_def record_placement_def tx_log_def intro: placing)

lemma keeps_with_budget: "keeps inv (with_budget (recording port) a t)"
  unfolding with_budget_def
  by (rule keeps_bind [OF keeps_monotonic]) (simp add: keeps_def)

lemma keeps_await_result: "keeps inv (await_result (recording port) a)"
  unfolding await_result_def by (intro keeps_intros keeps_await)

lemma keeps_navigate:
  assumes "port_navigate (recording port) = Some nav" and "\<And>r. C (Travelled goal r)"
    and "\<And>n w cs p. port_navigate port = Some n \<Longrightarrow> J cs p \<Longrightarrow> J cs (snd (snd (n goal opts (w, p))))"
  shows "keeps inv (navigate_to nav goal opts)"
proof (rule keepsI)
  fix s :: "'a logged tx_state"
  assume s: "inv s"
  obtain n where n: "port_navigate port = Some n" "nav = noting_travel n"
    using assms(1) by (auto simp: recording_def)
  obtain r w p where run: "n goal opts (fst (tx_world s), tx_policy s) = (r, (w, p))" by (rule prod_cases3)
  have "J (snd (tx_world s)) p"
    using assms(3) [OF n(1), of "snd (tx_world s)" "tx_policy s" "fst (tx_world s)"] s run by (simp add: inv_def tx_log_def)
  then show "inv (snd (navigate_to nav goal opts s))"
    using run assms(2) by (auto simp: navigate_to_def n(2) noting_travel_def inv_def tx_log_def intro: call)
qed

lemma keeps_follow:
  assumes "port_follow (recording port) = Some follow" and "\<And>r. C (Followed target r)"
    and "\<And>f w cs p. port_follow port = Some f \<Longrightarrow> J cs p \<Longrightarrow> J cs (snd (snd (f target keep t (w, p))))"
  shows "keeps inv (follow_entity follow target keep t)"
proof (rule keepsI)
  fix s :: "'a logged tx_state"
  assume s: "inv s"
  obtain f where f: "port_follow port = Some f" "follow = noting_follow f"
    using assms(1) by (auto simp: recording_def)
  obtain r w p where run: "f target keep t (fst (tx_world s), tx_policy s) = (r, (w, p))" by (rule prod_cases3)
  have "J (snd (tx_world s)) p"
    using assms(3) [OF f(1), of "snd (tx_world s)" "tx_policy s" "fst (tx_world s)"] s run by (simp add: inv_def tx_log_def)
  then show "inv (snd (follow_entity follow target keep t s))"
    using run assms(2) by (auto simp: follow_entity_def f(2) noting_follow_def inv_def tx_log_def intro: call)
qed

end

section \<open>What a sent action is\<close>

lemma with_budget_run:
  assumes "with_budget port a t s = (Inr a', s')"
  shows "sent_as (ac_name a) (ac_params a) a' \<and> within_budget t a'"
proof -
  obtain current now where run: "action_with_timeout (pf_float (port_platform port)) current now a t = Inr a'"
    using assms by (auto simp: with_budget_def tx_bind_Inr tx_read_def split: prod.splits)
  then obtain q where "a' = a\<lparr>ac_params := budget_params q (ac_params a)\<rparr>" "0 < q" "q \<le> t"
    by (rule action_with_timeout_budget) blast
  then show ?thesis using within_budget_params by (simp add: sent_as_def map_of_budget)
qed

lemma with_budget_quiet:
  "tx_log (snd (with_budget (recording port) a t s)) = tx_log s \<and> tx_policy (snd (with_budget (recording port) a t s)) = tx_policy s"
  by (auto simp: with_budget_def tx_bind_def tx_read_def recording_def unnoted_def tx_log_def split: prod.split sum.split)

text \<open>Sending ends with one more call in the log, or raised before anything was sent.\<close>

lemma send_action_run:
  assumes "send_action (recording port) name params t s = (r, s')"
  shows "tx_policy s' = tx_policy s \<and>
    (tx_log s' = tx_log s \<and> (\<exists>e. r = Inl e) \<or>
     (\<exists>a x. tx_log s' = tx_log s @ [Executed a x] \<and> sent_as name params a \<and> within_budget t a \<and> r = map_sum id (Pair a) x))"
proof -
  obtain i s1 where i: "tx_read (port_fresh_id (recording port)) s = (Inr i, s1)" "tx_log s1 = tx_log s" "tx_policy s1 = tx_policy s"
  proof (cases "port_fresh_id port (fst (tx_world s))")
    case (Pair i w)
    then show ?thesis by (intro that [of i "s\<lparr>tx_world := (w, snd (tx_world s))\<rparr>"])
        (simp_all add: tx_read_def recording_def unnoted_def tx_log_def)
  qed
  let ?a = "\<lparr>ac_id = i, ac_name = name, ac_params = params\<rparr>"
  obtain b s2 where b: "with_budget (recording port) ?a t s1 = (b, s2)" by (rule prod.exhaust)
  have s2: "tx_log s2 = tx_log s" "tx_policy s2 = tx_policy s"
    using with_budget_quiet [of port ?a t s1] b i by simp_all
  show ?thesis
  proof (cases b)
    case (Inl e)
    then show ?thesis using assms i b s2 by (auto simp: send_action_def tx_bind_def)
  next
    case (Inr a)
    obtain x w where x: "port_execute port a (fst (tx_world s2)) = (x, w)" by (rule prod.exhaust)
    have "sent_as name params a \<and> within_budget t a" using with_budget_run [of "recording port" ?a t s1 a s2] b Inr by simp
    then show ?thesis
      using assms i b s2 Inr x
      by (cases x) (auto simp: send_action_def tx_bind_def tx_call_def tx_return_def recording_def noting_def tx_log_def)
  qed
qed

context log_invariant begin

lemma keeps_send:
  assumes "\<And>a r. sent_as name params a \<Longrightarrow> within_budget t a \<Longrightarrow> C (Executed a r)"
  shows "keeps inv (send_action (recording port) name params t)"
proof (rule keepsI)
  fix s :: "'a logged tx_state"
  assume s: "inv s"
  obtain r s' where run: "send_action (recording port) name params t s = (r, s')" by (rule prod.exhaust)
  have J: "J (tx_log s) (tx_policy s)" using s by (simp add: inv_def)
  from send_action_run [OF run] have "J (tx_log s') (tx_policy s')"
  proof (elim conjE disjE exE)
    fix a x
    assume "tx_policy s' = tx_policy s" "tx_log s' = tx_log s @ [Executed a x]" "sent_as name params a" "within_budget t a"
    then show ?thesis using call [OF J assms] by simp
  qed (use J in simp_all)
  then show "inv (snd (send_action (recording port) name params t s))" using run by (simp add: inv_def)
qed

end

end
