(* ===== verification/Body_Reads.thy ===== *)
theory Body_Reads
  imports Body_Port
begin

text \<open>
  The authoritative reads a Body transaction starts from: \<open>read_block_facts\<close> and
  \<open>standing_height\<close> of \<open>minebot/body/world_read.py\<close> over the \<open>blockCells\<close> perception, and the
  inventory pages of \<open>minebot/body/inventory_read.py\<close>.
\<close>

section \<open>Values of a payload\<close>

definition json_list :: "'a list \<Rightarrow> ('a \<Rightarrow> json) \<Rightarrow> json" where
  "json_list xs f = JList (map f xs)"

definition json_flt :: "rat \<Rightarrow> json" where
  "json_flt q = JFloat (Fin q)"

definition json_point :: "rat \<times> rat \<times> rat \<Rightarrow> json" where
  "json_point p = (case p of (x, y, z) \<Rightarrow> JList [json_flt x, json_flt y, json_flt z])"

text \<open>\<open>str(data.get(key) or default)\<close>\<close>

definition text_or :: "'w body_port \<Rightarrow> json_object \<Rightarrow> string \<Rightarrow> string \<Rightarrow> string" where
  "text_or port d key otherwise =
     (if truthy (dget d key) then py_str (pf_show (port_platform port)) (dget d key) else otherwise)"

fun exn_name :: "py_exn \<Rightarrow> string" where
  "exn_name TypeError = ''TypeError''"
| "exn_name ValueError = ''ValueError''"
| "exn_name OverflowError = ''OverflowError''"
| "exn_name KeyError = ''KeyError''"
| "exn_name RuntimeError = ''RuntimeError''"

text \<open>\<open>except ValueError\<close>\<close>

fun is_value_error :: "body_exn \<Rightarrow> bool" where
  "is_value_error (ReadRaised e) \<longleftrightarrow> read_error_name e = ''ValueError''"
| "is_value_error (PyRaised e) \<longleftrightarrow> e = ValueError"
| "is_value_error _ \<longleftrightarrow> False"

section \<open>Block facts\<close>

definition int_field :: "json_object \<Rightarrow> string \<Rightarrow> py_exn + int" where
  "int_field d k = (case map_of d k of None \<Rightarrow> Inl KeyError | Some v \<Rightarrow> py_int v)"

definition cell_position :: "json \<Rightarrow> py_exn + position" where
  "cell_position cell =
     (case cell of
        JDict d \<Rightarrow>
          (case int_field d ''x'' of Inl e \<Rightarrow> Inl e | Inr x \<Rightarrow>
           case int_field d ''y'' of Inl e \<Rightarrow> Inl e | Inr y \<Rightarrow>
           case int_field d ''z'' of Inl e \<Rightarrow> Inl e | Inr z \<Rightarrow> Inr (x, y, z))
      | _ \<Rightarrow> Inl TypeError)"

text \<open>A cell as a \<open>blockAt\<close>-shaped perception.\<close>

definition cell_perception :: "string \<Rightarrow> json_object \<Rightarrow> perception_result" where
  "cell_perception bot_name d =
     \<lparr>pr_bot = bot_name, pr_scope = ''blockAt'', pr_ok = True, pr_complete = True, pr_data = d,
      pr_uncertainty = Some [], pr_next = None, pr_error = None\<rparr>"

definition decoded_cell :: "string \<Rightarrow> json \<Rightarrow> string + position \<times> perception_result" where
  "decoded_cell bot_name cell =
     (case cell_position cell of
        Inl e \<Rightarrow> Inl (exn_name e)
      | Inr pos \<Rightarrow> Inr (pos, cell_perception bot_name (case cell of JDict d \<Rightarrow> d | _ \<Rightarrow> [])))"

text \<open>\<open>perception.data.get("cells") or []\<close>, when it is a list\<close>

definition reply_cells :: "json_object \<Rightarrow> json list option" where
  "reply_cells d =
     (if \<not> truthy (dget d ''cells'') then Some []
      else case dget d ''cells'' of JList xs \<Rightarrow> Some xs | _ \<Rightarrow> None)"

definition reply_cursor :: "perception_result \<Rightarrow> (string + int) option" where
  "reply_cursor p =
     (case perception_next_cursor p [''next'', ''nextStart''] of
        JNull \<Rightarrow> None
      | v \<Rightarrow> Some (map_sum exn_name id (py_int v)))"

definition cell_page_of :: "string \<Rightarrow> perception_result \<Rightarrow> perception_result cell_page" where
  "cell_page_of bot_name p =
     \<lparr>cp_ok = pr_ok p, cp_complete = pr_complete p,
      cp_cells = map_option (map (decoded_cell bot_name)) (reply_cells (pr_data p)),
      cp_next = reply_cursor p\<rparr>"

definition cells_params :: "bool \<Rightarrow> position list \<Rightarrow> nat \<Rightarrow> nat \<Rightarrow> json_object" where
  "cells_params standing cells start limit =
     [(''cells'', json_list cells json_position), (''start'', JInt (int start)), (''limit'', JInt (int limit))] @
     (if standing then [(''include_standing'', JBool True)] else [])"

text \<open>
  The Body as a source of pages. A call that raises ends the read; the pending exception goes on
  beside the state.
\<close>

definition body_cells ::
  "'w body_port \<Rightarrow> bool \<Rightarrow> (perception_result, 'w tx_state \<times> body_exn option) cell_source" where
  "body_cells port standing cells start limit x =
     (case perceive port ''blockCells'' (cells_params standing cells start limit) (fst x) of
        (Inl e, s) \<Rightarrow> (\<lparr>cp_ok = False, cp_complete = False, cp_cells = None, cp_next = None\<rparr>, (s, Some e))
      | (Inr p, s) \<Rightarrow> (cell_page_of (port_bot_name port) p, (s, None)))"

definition block_facts ::
  "'w body_port \<Rightarrow> bool \<Rightarrow> position list \<Rightarrow> ('w, (position, perception_result) pydict) tx" where
  "block_facts port standing positions s =
     (case read_block_facts (body_cells port standing) 64 positions (s, None) of
        (Inl e, (s', Some x)) \<Rightarrow> (Inl x, s')
      | (Inl e, (s', None)) \<Rightarrow> (Inl (ReadRaised e), s')
      | (Inr facts, (s', _)) \<Rightarrow> (Inr facts, s'))"

definition standing_height :: "perception_result option \<Rightarrow> rat option" where
  "standing_height p =
     (case p of
        None \<Rightarrow> None
      | Some r \<Rightarrow>
          (if \<not> pr_ok r \<or> \<not> pr_complete r then None
           else case (strict_num (dget (pr_data r) ''standing_y''), num_of (dget (pr_data r) ''y'')) of
             (Some (Fin h), Some v) \<Rightarrow>
               (case v of Fin q \<Rightarrow> if q \<le> h \<and> h < q + 1 then Some h else None | _ \<Rightarrow> None)
           | _ \<Rightarrow> None))"

section \<open>Inventory\<close>

record inventory_slot =
  is_slot :: int
  is_item :: json
  is_count :: int
  is_empty :: bool

definition slot_from_payload :: "json_object \<Rightarrow> py_exn + inventory_slot" where
  "slot_from_payload d =
     (case int_field d ''slot'' of
        Inl e \<Rightarrow> Inl e
      | Inr i \<Rightarrow>
          (case (if truthy (dget d ''count'') then py_int (dget d ''count'') else Inr 0) of
             Inl e \<Rightarrow> Inl e
           | Inr n \<Rightarrow> Inr \<lparr>is_slot = i, is_item = dget d ''item'', is_count = n, is_empty = truthy (dget d ''empty'')\<rparr>))"

text \<open>
  One page of slots: \<open>dict(item)\<close> of every entry. A mapping is copied; anything else in the list
  raises.
\<close>

fun page_slots :: "json list \<Rightarrow> py_exn + json_object list" where
  "page_slots [] = Inr []"
| "page_slots (JDict d # xs) = map_sum id (Cons d) (page_slots xs)"
| "page_slots (JStr s # xs) = (if s = [] then map_sum id (Cons []) (page_slots xs) else Inl ValueError)"
| "page_slots (JList ys # xs) = (if ys = [] then map_sum id (Cons []) (page_slots xs) else Inl TypeError)"
| "page_slots (_ # xs) = Inl TypeError"

definition reply_slots :: "json_object \<Rightarrow> py_exn + json_object list" where
  "reply_slots d =
     (if \<not> truthy (dget d ''slots'') then Inr []
      else case dget d ''slots'' of JList xs \<Rightarrow> page_slots xs | _ \<Rightarrow> Inl TypeError)"

text \<open>
  \<open>read_inventory_slots\<close>: page after page while there is a cursor. Nothing asks that the cursor
  moves on, so the number of pages is bounded by \<open>fuel\<close>.
\<close>

fun inventory_pages ::
  "'w body_port \<Rightarrow> nat \<Rightarrow> nat \<Rightarrow> int \<Rightarrow> json_object list \<Rightarrow> ('w, perception_result) tx" where
  "inventory_pages port 0 page_size start slots = tx_raise OutOfFuel"
| "inventory_pages port (Suc fuel) page_size start slots =
     tx_bind (perceive port ''inventory'' [(''start'', JInt start), (''limit'', JInt (int page_size))]) (\<lambda>p.
     if \<not> pr_ok p then tx_return p
     else tx_bind (tx_lift (reply_slots (pr_data p))) (\<lambda>more.
       case perception_next_cursor p [] of
         JNull \<Rightarrow> tx_return (p\<lparr>pr_data := AList.update ''slots'' (json_list (slots @ more) JDict) (pr_data p)\<rparr>)
       | v \<Rightarrow> tx_bind (tx_lift (py_int v)) (\<lambda>next. inventory_pages port fuel page_size next (slots @ more))))"

text \<open>The page size a Body asks for, within 1 and 46; 12 when it asks for none or for no number.\<close>

definition DEFAULT_INVENTORY_PAGE_SIZE :: int where "DEFAULT_INVENTORY_PAGE_SIZE = 12"

definition MAX_INVENTORY_PAGE_SIZE :: int where "MAX_INVENTORY_PAGE_SIZE = 46"

definition preferred_inventory_page_size :: "'w body_port \<Rightarrow> py_exn + nat" where
  "preferred_inventory_page_size port =
     map_sum id (\<lambda>n. nat (max 1 (min MAX_INVENTORY_PAGE_SIZE n)))
       (case port_preferred_page_size port of
          None \<Rightarrow> Inr DEFAULT_INVENTORY_PAGE_SIZE
        | Some raw \<Rightarrow>
            (case py_int raw of
               Inr n \<Rightarrow> Inr n
             | Inl e \<Rightarrow> if e \<in> {TypeError, ValueError} then Inr DEFAULT_INVENTORY_PAGE_SIZE else Inl e))"

definition read_inventory_slots :: "'w body_port \<Rightarrow> nat \<Rightarrow> nat option \<Rightarrow> ('w, perception_result) tx" where
  "read_inventory_slots port fuel page_size =
     tx_bind (case page_size of Some n \<Rightarrow> tx_return n | None \<Rightarrow> tx_lift (preferred_inventory_page_size port)) (\<lambda>n.
     inventory_pages port fuel n 0 [])"

definition item_text :: "'w body_port \<Rightarrow> json \<Rightarrow> string" where
  "item_text port v = removeprefix ''minecraft:'' (py_str (pf_show (port_platform port)) v)"

fun count_slots :: "'w body_port \<Rightarrow> inventory_slot list \<Rightarrow> (string, int) pydict \<Rightarrow> (string, int) pydict" where
  "count_slots port [] counts = counts"
| "count_slots port (slot # slots) counts =
     (if is_empty slot \<or> \<not> truthy (is_item slot) then count_slots port slots counts
      else (let item = item_text port (is_item slot)
            in count_slots port slots
                 (AList.update item ((case map_of counts item of None \<Rightarrow> 0 | Some n \<Rightarrow> n) + is_count slot) counts)))"

definition counts_of :: "'w body_port \<Rightarrow> inventory_slot list \<Rightarrow> (string, int) pydict" where
  "counts_of port slots = count_slots port slots []"

fun slots_from :: "json list \<Rightarrow> py_exn + inventory_slot list" where
  "slots_from [] = Inr []"
| "slots_from (x # xs) =
     (case (case x of JDict d \<Rightarrow> slot_from_payload d | _ \<Rightarrow> Inl TypeError) of
        Inl e \<Rightarrow> Inl e
      | Inr slot \<Rightarrow> map_sum id (Cons slot) (slots_from xs))"

definition perceived_slots :: "perception_result \<Rightarrow> py_exn + inventory_slot list" where
  "perceived_slots p =
     (if \<not> truthy (dget (pr_data p) ''slots'') then Inr []
      else case dget (pr_data p) ''slots'' of JList xs \<Rightarrow> slots_from xs | _ \<Rightarrow> Inl TypeError)"

definition json_uncertainty :: "json_object list option \<Rightarrow> json" where
  "json_uncertainty u = (case u of None \<Rightarrow> JNull | Some ds \<Rightarrow> json_list ds JDict)"

definition perception_facts :: "perception_result \<Rightarrow> json_object" where
  "perception_facts p =
     [(''scope'', JStr (pr_scope p)), (''ok'', JBool (pr_ok p)), (''complete'', JBool (pr_complete p)),
      (''error'', json_opt (pr_error p)), (''uncertainty'', json_uncertainty (pr_uncertainty p))]"

definition read_inventory_counts ::
  "'w body_port \<Rightarrow> nat \<Rightarrow> nat option \<Rightarrow> ('w, tool_result + (string, int) pydict) tx" where
  "read_inventory_counts port fuel page_size =
     tx_bind (read_inventory_slots port fuel page_size) (\<lambda>p.
     if \<not> (pr_ok p \<and> pr_complete p)
     then tx_return (Inl \<lparr>tr_success = False, tr_reason = ''perception_failed'', tr_can_retry = True,
            tr_next_suggestion =
              Some ''retry the authoritative inventory read before deciding whether pickup completed'',
            tr_metrics = Some (perception_facts p)\<rparr>)
     else tx_bind (tx_lift (perceived_slots p)) (\<lambda>slots. tx_return (Inr (counts_of port slots))))"

section \<open>Reads only read\<close>

context log_invariant begin

lemma read_pages_inv:
  "inv (fst x) \<Longrightarrow> inv (fst (snd (read_pages (body_cells (recording port) standing) pg req cells start x facts)))"
proof (induction "body_cells (recording port) standing" pg req cells start x facts rule: read_pages.induct)
  case (1 pg req cells start x facts)
  let ?src = "body_cells (recording port) standing"
  obtain page y where sq: "?src cells start pg x = (page, y)" by (rule prod.exhaust)
  have "inv (snd (perceive (recording port) ''blockCells'' (cells_params standing cells start pg) (fst x)))"
    by (rule keepsD [OF keeps_perceive "1.prems"]) (simp add: quiet)
  then have y: "inv (fst y)"
    using sq by (auto simp: body_cells_def split: prod.splits sum.splits)
  show ?case
  proof (cases "absorb_page req (length cells) start page facts")
    case (Inl e)
    then show ?thesis using sq y by (simp add: read_pages.simps [of _ _ _ cells start])
  next
    case (Inr r)
    obtain f n where r: "r = (f, n)" by fastforce
    show ?thesis
    proof (cases n)
      case None
      then show ?thesis using sq y Inr r by (simp add: read_pages.simps [of _ _ _ cells start])
    next
      case (Some k)
      have "inv (fst (snd (read_pages ?src pg req cells k y f)))"
        by (rule "1.hyps" [OF sq [symmetric]]) (use Inr r Some y in auto)
      then show ?thesis using sq Inr r Some by (simp add: read_pages.simps [of _ _ _ cells start])
    qed
  qed
qed

lemma read_chunks_inv:
  "inv (fst x) \<Longrightarrow> inv (fst (snd (read_chunks (body_cells (recording port) standing) pg req cells x facts)))"
proof (induction "body_cells (recording port) standing" pg req cells x facts rule: read_chunks.induct)
  case (1 pg req cells x facts)
  let ?src = "body_cells (recording port) standing"
  obtain r y where rp: "read_pages ?src pg req (take pg cells) 0 x facts = (r, y)" by (rule prod.exhaust)
  have y: "inv (fst y)" using read_pages_inv [OF "1.prems", of port standing pg req "take pg cells" 0 facts] rp by simp
  show ?case
  proof (cases "cells = [] \<or> pg = 0")
    case True
    then show ?thesis using "1.prems" by (simp add: read_chunks.simps [of _ _ _ cells])
  next
    case False
    show ?thesis
    proof (cases r)
      case (Inl e)
      then show ?thesis using False rp y by (simp add: read_chunks.simps [of _ _ _ cells])
    next
      case (Inr f)
      have "inv (fst (snd (read_chunks ?src pg req (drop pg cells) y f)))"
        by (rule "1.hyps" [OF False rp [symmetric]]) (use Inr y in auto)
      then show ?thesis using False rp Inr by (simp add: read_chunks.simps [of _ _ _ cells])
    qed
  qed
qed

lemma keeps_block_facts: "keeps inv (block_facts (recording port) standing positions)"
proof (rule keepsI)
  fix s :: "'a logged tx_state"
  assume "inv s"
  then have "inv (fst (snd (read_chunks (body_cells (recording port) standing) 64 (set positions) positions (s, None) [])))"
    by (simp add: read_chunks_inv)
  moreover obtain r s' pend where rc: "read_chunks (body_cells (recording port) standing) 64 (set positions) positions (s, None) [] = (r, (s', pend))"
    by (metis prod_cases3)
  ultimately have "inv s'" by simp
  then show "inv (snd (block_facts (recording port) standing positions s))"
    using rc by (auto simp: block_facts_def read_block_facts_def Let_def split: sum.split option.split)
qed

lemma keeps_inventory_pages: "keeps inv (inventory_pages (recording port) fuel page_size start slots)"
proof (induction fuel arbitrary: start slots)
  case (Suc fuel)
  show ?case
    by (simp only: inventory_pages.simps, intro keeps_intros keeps_perceive)
      (auto simp: quiet split: json.split intro!: keeps_intros Suc)
qed (simp add: keeps_intros)

lemma keeps_read_inventory_slots: "keeps inv (read_inventory_slots (recording port) fuel page_size)"
  unfolding read_inventory_slots_def by (intro keeps_intros keeps_inventory_pages)

lemma keeps_read_inventory_counts: "keeps inv (read_inventory_counts (recording port) fuel page_size)"
  unfolding read_inventory_counts_def by (intro keeps_intros keeps_read_inventory_slots)

end

text \<open>A Body that repeats its inventory cursor keeps the read going for ever: no fuel is enough.\<close>

definition stuck_inventory :: "'w body_port \<Rightarrow> bool" where
  "stuck_inventory port \<longleftrightarrow>
     (\<forall>params w. \<exists>w'. port_perceive port ''inventory'' params w =
        (Inr \<lparr>pr_bot = ''bot'', pr_scope = ''inventory'', pr_ok = True, pr_complete = False,
           pr_data = [(''slots'', JList []), (''nextStart'', JInt 0)], pr_uncertainty = None, pr_next = None,
           pr_error = None\<rparr>, w'))"

lemma stuck_inventory_never_returns:
  assumes "stuck_inventory port"
  shows "fst (inventory_pages port fuel page_size start slots s) = Inl OutOfFuel"
proof (induction fuel arbitrary: start slots s)
  case (Suc fuel)
  obtain w' where "port_perceive port ''inventory'' [(''start'', JInt start), (''limit'', JInt (int page_size))] (tx_world s) =
      (Inr \<lparr>pr_bot = ''bot'', pr_scope = ''inventory'', pr_ok = True, pr_complete = False,
         pr_data = [(''slots'', JList []), (''nextStart'', JInt 0)], pr_uncertainty = None, pr_next = None,
         pr_error = None\<rparr>, w')"
    using assms unfolding stuck_inventory_def by blast
  then show ?case
    using Suc by (simp add: tx_bind_def perceive_def tx_call_def tx_lift_def reply_slots_def dget_def
        perception_next_cursor_def)
qed (simp add: tx_raise_def)

end
