(* ===== verification/Demo_Body.thy ===== *)
theory Demo_Body
  imports Body_Reads Governance_Safety
begin

text \<open>
  A small Body on which the properties of the transactions are applied: a few voxels, a position
  that falls when the block below it is mined, items, and a clock that the pauses advance.
\<close>

record demo_world =
  dw_cells :: "(position \<times> string \<times> string) list"
  dw_pos :: "rat \<times> rat \<times> rat"
  dw_items :: "(string \<times> int) list"
  dw_clock :: rat
  dw_next_id :: nat

definition demo_cell :: "demo_world \<Rightarrow> position \<Rightarrow> string \<times> string" where
  "demo_cell w p = (case map_of (dw_cells w) p of None \<Rightarrow> (''air'', ''CLEAR'') | Some x \<Rightarrow> x)"

fun demo_position :: "json \<Rightarrow> position" where
  "demo_position (JList [JInt x, JInt y, JInt z]) = (x, y, z)"
| "demo_position _ = (0, 0, 0)"

definition demo_facts :: "demo_world \<Rightarrow> position \<Rightarrow> json_object" where
  "demo_facts w p =
     (case (p, demo_cell w p) of
        ((x, y, z), (t, st)) \<Rightarrow>
          [(''x'', JInt x), (''y'', JInt y), (''z'', JInt z), (''type'', JStr t), (''state'', JStr st)])"

definition demo_answer :: "string \<Rightarrow> json_object \<Rightarrow> perception_result" where
  "demo_answer scope d = \<lparr>pr_bot = ''bot'', pr_scope = scope, pr_ok = True, pr_complete = True, pr_data = d,
     pr_uncertainty = None, pr_next = None, pr_error = None\<rparr>"

definition demo_slots :: "demo_world \<Rightarrow> json" where
  "demo_slots w = json_list (dw_items w) (\<lambda>(item, n). JDict [(''slot'', JInt 0), (''item'', JStr item), (''count'', JInt n)])"

definition demo_perceive :: "string \<Rightarrow> json_object \<Rightarrow> demo_world \<Rightarrow> (body_exn + perception_result) \<times> demo_world" where
  "demo_perceive scope params w =
     (if scope = ''blockAt''
      then (Inr (demo_answer scope (demo_facts w (demo_position (JList [dget params ''x'', dget params ''y'', dget params ''z''])))), w)
      else if scope = ''blockCells''
      then (Inr (demo_answer scope
              [(''cells'', case dget params ''cells'' of
                   JList ps \<Rightarrow> json_list (map demo_position ps) (\<lambda>p. JDict (demo_facts w p)) | _ \<Rightarrow> JNull)]), w)
      else if scope = ''inventory'' then (Inr (demo_answer scope [(''slots'', demo_slots w)]), w)
      else (Inl (PyRaised ValueError), w))"

definition demo_state :: "demo_world \<Rightarrow> body_state" where
  "demo_state w = \<lparr>bs_bot = ''bot'', bs_pos = dw_pos w, bs_yaw = None, bs_pitch = None, bs_health = 20, bs_food = 20,
     bs_oxygen = None, bs_inventory_raw = [], bs_inventory_hash = [], bs_effects = None, bs_time = 0, bs_weather = None,
     bs_dimension = None, bs_complete = True, bs_sleeping = None, bs_missing = False, bs_selected_slot = None,
     bs_inventory_counts = None, bs_selected_item = None, bs_offhand_item = None, bs_body_owner = None,
     bs_pending_action_count = None, bs_hazard_unresolved = None, bs_selected_item_known = None,
     bs_inventory_complete = None, bs_inventory_includes_selected = None\<rparr>"

definition demo_accept :: result where
  "demo_accept = \<lparr>re_id = None, re_bot = ''bot'', re_ok = True, re_accepted = True, re_complete = True, re_data = [], re_error = None\<rparr>"

definition demo_fall :: "position \<Rightarrow> rat \<times> rat \<times> rat \<Rightarrow> rat \<times> rat \<times> rat" where
  "demo_fall mined pos =
     (case (mined, pos) of
        ((x, y, z), (px, py, pz)) \<Rightarrow>
          if (\<lfloor>px\<rfloor>, \<lfloor>py\<rfloor> - 1, \<lfloor>pz\<rfloor>) = (x, y, z) then (px, py - 1, pz) else pos)"

definition demo_execute :: "action \<Rightarrow> demo_world \<Rightarrow> (body_exn + result) \<times> demo_world" where
  "demo_execute a w =
     (let target = demo_position (dget (ac_params a) ''target'')
      in if ac_name a = ''mineBlock''
         then (Inr demo_accept, w\<lparr>dw_cells := AList.delete target (dw_cells w), dw_pos := demo_fall target (dw_pos w)\<rparr>)
         else if ac_name a = ''placeBlock''
         then (Inr demo_accept, w\<lparr>dw_cells := AList.update target (''dirt'', ''SOLID'') (dw_cells w)\<rparr>)
         else if ac_name a = ''jump''
         then (Inr demo_accept, w\<lparr>dw_pos := (case dw_pos w of (x, y, z) \<Rightarrow> (x, y + 1, z))\<rparr>)
         else (Inr demo_accept, w))"

definition demo_port :: "demo_world body_port" where
  "demo_port =
     \<lparr>port_platform = \<lparr>pf_sqrt = (\<lambda>q. q), pf_float = (\<lambda>_. None), pf_show = (\<lambda>_. ''''), pf_error_text = (\<lambda>_. ''read failed'')\<rparr>,
      port_bot_name = ''bot'',
      port_preferred_page_size = None,
      port_perceive = demo_perceive,
      port_get_state = (\<lambda>w. (Inr (demo_state w), w)),
      port_execute = demo_execute,
      port_await = (\<lambda>i t w. (Inr \<lparr>ev_seq = 0, ev_tick = 0, ev_bot = ''bot'', ev_name = ''actionCompleted'',
        ev_data = [(''completed'', JBool True)]\<rparr>, w)),
      port_interrupt = (\<lambda>r w. (Inr demo_accept, w)),
      port_navigate = None,
      port_follow = None,
      port_pause = (\<lambda>t w. w\<lparr>dw_clock := dw_clock w + t\<rparr>),
      port_monotonic = (\<lambda>w. (dw_clock w, w)),
      port_fresh_id = (\<lambda>w. (str_of_nat (dw_next_id w), w\<lparr>dw_next_id := dw_next_id w + 1\<rparr>)),
      port_cancellation = (\<lambda>w. None),
      port_assessor = (\<lambda>w. None),
      port_clock = (\<lambda>w. (\<lparr>ge_now = 0, ge_scope = Some ''scope'', ge_fresh_hex = ''1''\<rparr>, \<lparr>ge_now = 0, ge_scope = Some ''scope'', ge_fresh_hex = ''2''\<rparr>)),
      port_judged = (\<lambda>j w. w)\<rparr>"

definition demo_region :: region where
  "demo_region = \<lparr>rg_name = ''plot'', rg_min_pos = (-8, -64, -8), rg_max_pos = (8, 320, 8)\<rparr>"

definition yard_policy :: governance_policy where
  "yard_policy = governance_init [demo_region] [] [] False None 60 4 4 ''epoch''"

definition demo_ground :: "position list \<Rightarrow> (position \<times> string \<times> string) list" where
  "demo_ground ps = map (\<lambda>p. (p, ''dirt'', ''SOLID'')) ps"

definition demo_start :: "(position \<times> string \<times> string) list \<Rightarrow> rat \<times> rat \<times> rat \<Rightarrow> demo_world tx_state" where
  "demo_start cells pos = \<lparr>tx_world = \<lparr>dw_cells = cells, dw_pos = pos, dw_items = [(''dirt'', 8)], dw_clock = 0, dw_next_id = 1\<rparr>,
     tx_policy = yard_policy\<rparr>"

section \<open>Running a transaction on it\<close>

text \<open>
  The rules that run a recorded transaction one call after the other: the arguments of a
  \<open>tx_bind\<close> are evaluated, its continuation only when it is reached.
\<close>

named_theorems demo_run \<open>one step of a transaction on the recorded demo Body\<close>

lemma tx_bind_arg_cong: "m = m' \<Longrightarrow> s = s' \<Longrightarrow> tx_bind m f s = tx_bind m' f s'"
  by simp

definition tx_next :: "body_exn + 'a \<Rightarrow> 'w tx_state \<Rightarrow> ('a \<Rightarrow> ('w, 'b) tx) \<Rightarrow> (body_exn + 'b) \<times> 'w tx_state" where
  "tx_next r s f = (case r of Inl e \<Rightarrow> (Inl e, s) | Inr a \<Rightarrow> f a s)"

lemma tx_next_simps [demo_run]: "tx_next (Inl e) s f = (Inl e, s)" "tx_next (Inr a) s f = f a s"
  by (simp_all add: tx_next_def)

lemma tx_bind_next [demo_run]: "tx_bind m f s = (case m s of (r, s') \<Rightarrow> tx_next r s' f)"
  by (simp add: tx_bind_def tx_next_def split: prod.split sum.split)

lemma tx_next_arg_cong: "r = r' \<Longrightarrow> s = s' \<Longrightarrow> tx_next r s f = tx_next r' s' f"
  by simp

lemma demo_calls [demo_run]:
  "perceive (recording demo_port) scope params \<lparr>tx_world = (w, cs), tx_policy = p\<rparr> =
     (case demo_perceive scope params w of (r, w') \<Rightarrow> (r, \<lparr>tx_world = (w', cs @ [Perceived scope params r]), tx_policy = p\<rparr>))"
  "get_state (recording demo_port) \<lparr>tx_world = (w, cs), tx_policy = p\<rparr> =
     (Inr (demo_state w), \<lparr>tx_world = (w, cs @ [Looked (Inr (demo_state w))]), tx_policy = p\<rparr>)"
  "tx_call (port_execute (recording demo_port) a) \<lparr>tx_world = (w, cs), tx_policy = p\<rparr> =
     (case demo_execute a w of (r, w') \<Rightarrow> (r, \<lparr>tx_world = (w', cs @ [Executed a r]), tx_policy = p\<rparr>))"
  "tx_read (port_fresh_id (recording demo_port)) \<lparr>tx_world = (w, cs), tx_policy = p\<rparr> =
     (Inr (str_of_nat (dw_next_id w)), \<lparr>tx_world = (w\<lparr>dw_next_id := dw_next_id w + 1\<rparr>, cs), tx_policy = p\<rparr>)"
  "tx_read (port_monotonic (recording demo_port)) \<lparr>tx_world = (w, cs), tx_policy = p\<rparr> =
     (Inr (dw_clock w), \<lparr>tx_world = (w, cs), tx_policy = p\<rparr>)"
  "pause_for (recording demo_port) t \<lparr>tx_world = (w, cs), tx_policy = p\<rparr> =
     (Inr (), \<lparr>tx_world = (if t \<le> 0 then w else w\<lparr>dw_clock := dw_clock w + t\<rparr>, cs), tx_policy = p\<rparr>)"
  by (simp_all add: perceive_def get_state_def tx_call_def tx_read_def pause_for_def tx_return_def recording_def noting_def
      unnoted_def demo_port_def split: prod.split)

definition demo_envs :: "gov_env \<times> gov_env" where
  "demo_envs = (\<lparr>ge_now = 0, ge_scope = Some ''scope'', ge_fresh_hex = ''1''\<rparr>, \<lparr>ge_now = 0, ge_scope = Some ''scope'', ge_fresh_hex = ''2''\<rparr>)"

definition demo_judgement :: "governance_policy \<Rightarrow> position \<Rightarrow> string \<Rightarrow> break_context \<Rightarrow> bool \<Rightarrow> legality_decision \<Rightarrow> break_judgement" where
  "demo_judgement p pos b ctx ex d = \<lparr>bj_pos = pos, bj_block_type = b, bj_context = ctx, bj_explicit = ex, bj_policy = p,
     bj_assessor = None, bj_envs = demo_envs, bj_decision = d\<rparr>"

lemma demo_judges [demo_run]:
  "judge_break (recording demo_port) pos b ctx ex \<lparr>tx_world = (w, cs), tx_policy = p\<rparr> =
     (case can_break p None (fst demo_envs) (snd demo_envs) pos b ctx ex None None of
        (d, p') \<Rightarrow> (Inr d, \<lparr>tx_world = (w, cs @ [Judged (Break_Judged (demo_judgement p pos b ctx ex d))]), tx_policy = p'\<rparr>))"
  by (simp add: judge_break_def break_judged_def recording_def demo_port_def demo_envs_def demo_judgement_def split: prod.split)

definition demo_event :: event where
  "demo_event = \<lparr>ev_seq = 0, ev_tick = 0, ev_bot = ''bot'', ev_name = ''actionCompleted'', ev_data = [(''completed'', JBool True)]\<rparr>"

lemma demo_terminal [demo_run]:
  "await_result (recording demo_port) a \<lparr>tx_world = (w, cs), tx_policy = p\<rparr> =
     (Inr \<lparr>tr_success = True, tr_reason = ''actionCompleted'', tr_can_retry = False, tr_next_suggestion = None,
        tr_metrics = Some [(''completed'', JBool True)]\<rparr>,
      \<lparr>tx_world = (w, cs @ [Awaited (ac_id a) (Inr demo_event)]), tx_policy = p\<rparr>)"
proof -
  have "terminal_event_to_tool_result (\<lambda>_. []) demo_event =
      \<lparr>tr_success = True, tr_reason = ''actionCompleted'', tr_can_retry = False, tr_next_suggestion = None,
        tr_metrics = Some [(''completed'', JBool True)]\<rparr>"
    by code_simp
  then show ?thesis
    by (simp add: await_result_def await_action_terminal_def tx_call_def tx_bind_def tx_return_def recording_def noting_def
      demo_port_def demo_event_def)
qed

lemma demo_port_simps [demo_run]:
  "port_navigate (recording demo_port) = None"
  "pf_show (port_platform demo_port) = (\<lambda>_. [])"
  "pf_float (port_platform demo_port) = (\<lambda>_. None)"
  "port_bot_name demo_port = ''bot''"
  "port_preferred_page_size demo_port = None"
  "port_cancellation demo_port w = None"
  "port_assessor demo_port w = None"
  "port_clock demo_port w = (\<lparr>ge_now = 0, ge_scope = Some ''scope'', ge_fresh_hex = ''1''\<rparr>, \<lparr>ge_now = 0, ge_scope = Some ''scope'', ge_fresh_hex = ''2''\<rparr>)"
  by (simp_all add: recording_def demo_port_def)

lemmas [demo_run] = tx_return_def tx_raise_def tx_lift_def send_action_def with_budget_def Let_def
  demo_perceive_def demo_answer_def demo_facts_def demo_cell_def dget_def text_or_def demo_state_def demo_execute_def
  demo_accept_def demo_fall_def json_list_def json_opt_def demo_slots_def

lemma demo_budget_none [demo_run]: "execution_checkpoint None = None" "remaining_time None now = None"
  by (simp_all add: execution_checkpoint_def remaining_time_def)

text \<open>Dirt of the plot may be broken in every context that breaks terrain.\<close>

lemma dirt_is_natural: "''dirt'' \<in> NATURAL_BREAKABLE"
  by (simp add: NATURAL_BREAKABLE_def)

lemma yard_break [demo_run]:
  assumes "region_contains demo_region pos" and "ctx \<in> {BC_TRAVEL, BC_COLLECT_APPROACH, BC_DIRECT} \<or> ctx = BC_COLLECT \<and> ex"
  shows "can_break yard_policy None e1 e2 pos ''dirt'' ctx ex None None =
     ((legality True ''allowed_natural'')\<lparr>ld_natural_region := Some ''plot''\<rparr>, yard_policy)"
proof -
  have dirt: "normalize_block_type ''dirt'' = ''dirt''" by code_simp
  have init: "gp_natural_regions yard_policy = [demo_region]" "gp_protected_regions yard_policy = []"
      "gp_bot_placements yard_policy = []" "gp_bot_name yard_policy = None" "gp_require_structure_assessment yard_policy = False"
    by (simp_all add: yard_policy_def governance_init_def)
  have inside: "region_containing [demo_region] pos = Some demo_region" "region_containing [] pos = None"
    using assms(1) by (simp_all add: region_containing_def)
  have plot: "rg_name demo_region = ''plot''" by (simp add: demo_region_def)
  have "''dirt'' \<notin> RECOVERY_ROUTE_AVOID_TYPES" by code_simp
  then have "natural_break_ok yard_policy pos ''dirt'' ctx ex" 
    using assms dirt_is_natural by (auto simp: natural_break_ok_def declared_natural_def init)
  then have "break_static_rules yard_policy pos ''dirt'' ctx ex None = None"
    by (simp add: static_rules_None_iff actor_accepted_def outside_protection_def init)
  then show ?thesis
    by (simp add: can_break_def dirt Let_def acting_bot_def init inside break_assessed_def assess_structure_risk_def plot)
qed

end
