(* ===== verification/Reach.thy ===== *)
theory Reach
  imports Body_Reads
begin

text \<open>
  Stand domains, \<open>minebot/body/reach.py\<close>: the cells beside a block from which it is in reach, in a
  bounded geometric domain, filtered by authoritative facts about feet, head and support, with
  the cells that governed navigation may still clear. Distances are exact and compared by their
  squares.
\<close>

section \<open>Distances\<close>

type_synonym point = "rat \<times> rat \<times> rat"

fun dist2 :: "point \<Rightarrow> point \<Rightarrow> rat" where
  "dist2 (ax, ay, az) (bx, by', bz) = (ax - bx) ^ 2 + (ay - by') ^ 2 + (az - bz) ^ 2"

text \<open>\<open>dist(a, b) > r\<close>\<close>

definition farther :: "point \<Rightarrow> point \<Rightarrow> rat \<Rightarrow> bool" where
  "farther a b r \<longleftrightarrow> r < 0 \<or> r ^ 2 < dist2 a b"

fun point_of :: "position \<Rightarrow> point" where
  "point_of (x, y, z) = (of_int x, of_int y, of_int z)"

fun block_center :: "position \<Rightarrow> point" where
  "block_center (x, y, z) = (of_int x + 1/2, of_int y + 1/2, of_int z + 1/2)"

fun offset_pos :: "position \<Rightarrow> position \<Rightarrow> position" where
  "offset_pos (x, y, z) (dx, dy, dz) = (x + dx, y + dy, z + dz)"

section \<open>Intents\<close>

record reach_intent =
  ri_target :: position
  ri_interaction_radius :: rat
  ri_vertical_offsets :: "int list option"
  ri_include_target :: bool
  ri_require_support :: bool
  ri_allow_liquid :: bool
  ri_require_line_of_sight :: bool
  ri_max_candidates :: "int option"
  ri_movement_profile :: string
  ri_mutation_profile :: string
  ri_clearance_profile :: string
  ri_terminal_predicate :: string

definition reach_intent_for :: "position \<Rightarrow> reach_intent" where
  "reach_intent_for target =
     \<lparr>ri_target = target, ri_interaction_radius = 9/2, ri_vertical_offsets = None, ri_include_target = False,
      ri_require_support = True, ri_allow_liquid = False, ri_require_line_of_sight = False,
      ri_max_candidates = None, ri_movement_profile = ''pure_movement'', ri_mutation_profile = ''none'',
      ri_clearance_profile = ''none'', ri_terminal_predicate = ''within_interaction_range''\<rparr>"

record reach_domain =
  rd_candidates :: "position list"
  rd_geometric_candidates :: "position list"
  rd_rejected :: "json_object list"
  rd_clearance :: "json_object list"
  rd_diagnostics :: json_object

section \<open>Geometry\<close>

definition CARDINAL_OFFSETS :: "position list" where
  "CARDINAL_OFFSETS = [(1, 0, 0), (-1, 0, 0), (0, 0, 1), (0, 0, -1)]"

definition vertical_offsets :: "reach_intent \<Rightarrow> int list" where
  "vertical_offsets intent =
     (case ri_vertical_offsets intent of
        Some offsets \<Rightarrow> dedupe offsets
      | None \<Rightarrow> (let radius = max 1 (\<lfloor>ri_interaction_radius intent\<rfloor> + 1) in [- radius..radius]))"

text \<open>The point of a stand cell's column nearest to the target's height.\<close>

definition nearest_center :: "position \<Rightarrow> position \<Rightarrow> point" where
  "nearest_center target candidate =
     (case (block_center target, candidate) of
        ((_, ty, _), (cx, cy, cz)) \<Rightarrow>
          (of_int cx + 1/2, min (max ty (of_int cy)) (of_int cy + 1), of_int cz + 1/2))"

definition micro :: rat where "micro = 1 / 1000000"

definition in_geometry :: "reach_intent \<Rightarrow> position \<Rightarrow> bool" where
  "in_geometry intent c \<longleftrightarrow>
     \<not> farther (nearest_center (ri_target intent) c) (block_center (ri_target intent))
         (ri_interaction_radius intent + micro)"

definition geometric_candidates :: "reach_intent \<Rightarrow> position list" where
  "geometric_candidates intent =
     (let horizontal = CARDINAL_OFFSETS @ (if ri_include_target intent then [(0, 0, 0)] else []);
          cells = concat (map (\<lambda>v. map (\<lambda>(dx, _, dz). offset_pos (ri_target intent) (dx, v, dz)) horizontal)
                    (vertical_offsets intent))
      in filter (in_geometry intent) (dedupe cells))"

definition block_reach_geometry :: "reach_intent \<Rightarrow> position list" where
  "block_reach_geometry intent =
     (if ri_interaction_radius intent \<le> 0 then [] else geometric_candidates intent)"

section \<open>Line of sight\<close>

fun sight_step :: "point \<Rightarrow> point \<Rightarrow> rat \<Rightarrow> position" where
  "sight_step (sx, sy, sz) (dx, dy, dz) f = (\<lfloor>sx + dx * f\<rfloor>, \<lfloor>sy + dy * f\<rfloor>, \<lfloor>sz + dz * f\<rfloor>)"

definition line_of_sight_cells :: "position \<Rightarrow> position \<Rightarrow> position list" where
  "line_of_sight_cells candidate target =
     (case (candidate, block_center target) of
        ((cx, cy, cz), (tx, ty, tz)) \<Rightarrow>
          (let source = (of_int cx + 1/2, of_int cy + 1, of_int cz + 1/2);
               (dx, dy, dz) = (tx - (of_int cx + 1/2), ty - (of_int cy + 1), tz - (of_int cz + 1/2));
               steps = max (max \<bar>dx\<bar> \<bar>dy\<bar>) \<bar>dz\<bar>
           in if steps < 1 then []
              else (let n = max 1 \<lceil>steps\<rceil>;
                        source_cell = (\<lfloor>of_int cx + 1/2 :: rat\<rfloor>, \<lfloor>of_int cy + 1 :: rat\<rfloor>, \<lfloor>of_int cz + 1/2 :: rat\<rfloor>)
                    in filter (\<lambda>c. c \<noteq> source_cell \<and> c \<noteq> target)
                         (dedupe (map (\<lambda>i. sight_step source (dx, dy, dz) (of_int i / of_int n)) [1..n])))))"

section \<open>Cells\<close>

definition state_or_unknown :: "'w body_port \<Rightarrow> perception_result \<Rightarrow> string" where
  "state_or_unknown port p = text_or port (pr_data p) ''state'' ''UNKNOWN''"

definition type_or_unknown :: "'w body_port \<Rightarrow> perception_result \<Rightarrow> string" where
  "type_or_unknown port p = text_or port (pr_data p) ''type'' ''unknown''"

definition cell_is_clear :: "'w body_port \<Rightarrow> perception_result option \<Rightarrow> bool" where
  "cell_is_clear port p = (case p of None \<Rightarrow> False | Some r \<Rightarrow> state_or_unknown port r = ''CLEAR'')"

definition cell_is_liquid :: "'w body_port \<Rightarrow> perception_result option \<Rightarrow> bool" where
  "cell_is_liquid port p = (case p of None \<Rightarrow> False | Some r \<Rightarrow> state_or_unknown port r = ''LIQUID'')"

text \<open>The properties of a cell are a mapping of property names to values.\<close>

definition cell_properties :: "'w body_port \<Rightarrow> json_object \<Rightarrow> (string, string) pydict" where
  "cell_properties port d =
     (case dget d ''properties'' of
        JDict ps \<Rightarrow> map (\<lambda>(k, v). (k, lower (py_str (pf_show (port_platform port)) v))) ps
      | _ \<Rightarrow> [])"

definition cell_is_solid_support :: "'w body_port \<Rightarrow> perception_result option \<Rightarrow> bool" where
  "cell_is_solid_support port p =
     (case p of
        None \<Rightarrow> False
      | Some r \<Rightarrow>
          (if state_or_unknown port r \<noteq> ''SOLID'' then False
           else (let block_type = removeprefix ''minecraft:'' (type_or_unknown port r);
                     properties = cell_properties port (pr_data r)
                 in if suffix ''_slab'' block_type then map_of properties ''type'' = Some ''bottom''
                    else if suffix ''_stairs'' block_type
                    then (case map_of properties ''half'' of None \<Rightarrow> True | Some h \<Rightarrow> h = ''bottom'')
                    else True)))"

text \<open>\<open>str.upper\<close>; the two letters whose capitals are no Latin-1 characters are kept.\<close>

definition upper_char :: "char \<Rightarrow> string" where
  "upper_char c =
     (let n = of_char c :: nat
      in if n = 223 then ''SS''
         else if 97 \<le> n \<and> n \<le> 122 \<or> 224 \<le> n \<and> n \<le> 254 \<and> n \<noteq> 247 then [char_of (n - 32)] else [c])"

definition upper :: "string \<Rightarrow> string" where
  "upper s = concat (map upper_char s)"

section \<open>Rejections\<close>

fun head_of :: "position \<Rightarrow> position" where "head_of (x, y, z) = (x, y + 1, z)"

fun support_of :: "position \<Rightarrow> position" where "support_of (x, y, z) = (x, y - 1, z)"

definition rejection :: "position \<Rightarrow> string \<Rightarrow> json_object \<Rightarrow> json_object" where
  "rejection c reason rest = [(''candidate'', json_position c), (''reason'', JStr reason)] @ rest"

definition seen_block :: "'w body_port \<Rightarrow> perception_result \<Rightarrow> json_object" where
  "seen_block port p =
     [(''state'', JStr (upper (state_or_unknown port p))), (''block_type'', JStr (type_or_unknown port p))]"

definition candidate_rejection ::
  "'w body_port \<Rightarrow> reach_intent \<Rightarrow> position \<Rightarrow> (position, perception_result) pydict \<Rightarrow> json_object option" where
  "candidate_rejection port intent c facts =
     (case (map_of facts c, map_of facts (head_of c), map_of facts (support_of c)) of
        (Some feet, Some head, Some support) \<Rightarrow>
          (let wet = \<lambda>p. cell_is_liquid port (Some p)
           in if standing_height (Some feet) \<noteq> None then None
              else if \<not> ri_allow_liquid intent \<and> (wet feet \<or> wet head \<or> wet support)
              then Some (rejection c ''liquid_contact'' [])
              else if \<not> (cell_is_clear port (Some feet) \<or> ri_allow_liquid intent \<and> wet feet)
              then Some (rejection c ''feet_blocked'' (seen_block port feet))
              else if \<not> (cell_is_clear port (Some head) \<or> ri_allow_liquid intent \<and> wet head \<or> head_of c = ri_target intent)
              then Some (rejection c ''head_blocked'' ((''cell'', json_position (head_of c)) # seen_block port head))
              else if ri_require_support intent \<and> \<not> cell_is_solid_support port (Some support)
              then Some (rejection c ''support_unstable'' [])
              else if ri_require_support intent \<and> \<not> ri_allow_liquid intent \<and> map_of (pr_data feet) ''standing_y'' \<noteq> None
              then Some (rejection c ''support_unverified'' [])
              else None)
      | _ \<Rightarrow> Some (rejection c ''missing_fact'' []))"

fun sight_rejection ::
  "'w body_port \<Rightarrow> position \<Rightarrow> (position, perception_result) pydict \<Rightarrow> position list \<Rightarrow> json_object option" where
  "sight_rejection port c facts [] = None"
| "sight_rejection port c facts (cell # cells) =
     (case map_of facts cell of
        None \<Rightarrow> Some (rejection c ''line_of_sight_unknown'' [(''cell'', json_position cell)])
      | Some p \<Rightarrow>
          (let state = upper (state_or_unknown port p)
           in if state = ''UNKNOWN'' then Some (rejection c ''line_of_sight_unknown'' [(''cell'', json_position cell)])
              else if state = ''SOLID''
              then Some (rejection c ''target_occluded''
                     [(''cell'', json_position cell), (''block_type'', JStr (type_or_unknown port p)), (''state'', JStr state)])
              else sight_rejection port c facts cells))"

definition line_of_sight_rejection ::
  "'w body_port \<Rightarrow> reach_intent \<Rightarrow> position \<Rightarrow> (position, perception_result) pydict \<Rightarrow> json_object option" where
  "line_of_sight_rejection port intent c facts =
     (if \<not> ri_require_line_of_sight intent then None
      else sight_rejection port c facts (line_of_sight_cells c (ri_target intent)))"

definition can_defer_clearance :: "'w body_port \<Rightarrow> reach_intent \<Rightarrow> json_object \<Rightarrow> bool" where
  "can_defer_clearance port intent r \<longleftrightarrow>
     ri_clearance_profile intent = ''governed'' \<and>
     dget r ''reason'' \<in> {JStr ''feet_blocked'', JStr ''head_blocked''} \<and>
     upper (text_or port r ''state'' ''UNKNOWN'') = ''SOLID''"

section \<open>Domains\<close>

text \<open>
  A candidate is rejected, or accepted with its distance key and the clearances that are left to
  navigation.
\<close>

datatype candidate_verdict = Rejected json_object | Accepted rat rat "json_object list"

definition physical_y :: "position \<Rightarrow> (position, perception_result) pydict \<Rightarrow> rat" where
  "physical_y c facts =
     (case standing_height (map_of facts c) of Some h \<Rightarrow> h | None \<Rightarrow> of_int (fst (snd c)))"

fun stand_center :: "position \<Rightarrow> rat \<Rightarrow> point" where
  "stand_center (x, _, z) y = (of_int x + 1/2, y, of_int z + 1/2)"

definition judge_candidate ::
  "'w body_port \<Rightarrow> reach_intent \<Rightarrow> (position, perception_result) pydict \<Rightarrow> point \<Rightarrow> position \<Rightarrow> candidate_verdict" where
  "judge_candidate port intent facts state_pos c =
     (let first = candidate_rejection port intent c facts
      in case (case first of Some r \<Rightarrow> if can_defer_clearance port intent r then None else Some r | None \<Rightarrow> None) of
        Some r \<Rightarrow> Rejected r
      | None \<Rightarrow>
          (let center = stand_center c (physical_y c facts)
           in if farther center (block_center (ri_target intent)) (ri_interaction_radius intent + micro)
              then Rejected (rejection c ''outside_interaction_range'' [])
              else (let sight = line_of_sight_rejection port intent c facts
                    in case (case sight of Some r \<Rightarrow> if can_defer_clearance port intent r then None else Some r | None \<Rightarrow> None) of
                      Some r \<Rightarrow> Rejected r
                    | None \<Rightarrow>
                        Accepted (dist2 state_pos center) \<bar>physical_y c facts - fst (snd state_pos)\<bar>
                          ((case first of None \<Rightarrow> [] | Some r \<Rightarrow> [r]) @ (case sight of None \<Rightarrow> [] | Some r \<Rightarrow> [r])))))"

fun accepted_keys :: "(position \<times> candidate_verdict) list \<Rightarrow> ((rat \<times> rat \<times> position) \<times> json_object list) list" where
  "accepted_keys [] = []"
| "accepted_keys ((c, Accepted d h l) # vs) = ((d, h, c), l) # accepted_keys vs"
| "accepted_keys ((c, Rejected r) # vs) = accepted_keys vs"

fun rejections_of :: "(position \<times> candidate_verdict) list \<Rightarrow> json_object list" where
  "rejections_of [] = []"
| "rejections_of ((c, Rejected r) # vs) = r # rejections_of vs"
| "rejections_of ((c, Accepted d h l) # vs) = rejections_of vs"

definition clearances_of :: "reach_intent \<Rightarrow> ((rat \<times> rat \<times> position) \<times> json_object list) list \<Rightarrow> json_object list" where
  "clearances_of intent ks =
     map (\<lambda>((_, _, c), l). [(''candidate'', json_position c), (''profile'', JStr (ri_clearance_profile intent)),
            (''requirements'', json_list l JDict)])
       (filter (\<lambda>(_, l). l \<noteq> []) ks)"

definition json_int_nat :: "nat \<Rightarrow> json" where
  "json_int_nat n = JInt (int n)"

definition resolve_domain ::
  "'w body_port \<Rightarrow> reach_intent \<Rightarrow> position list \<Rightarrow> (position, perception_result) pydict \<Rightarrow> point \<Rightarrow> reach_domain" where
  "resolve_domain port intent geometric facts state_pos =
     (let verdicts = map (\<lambda>c. (c, judge_candidate port intent facts state_pos c)) geometric;
          accepted = accepted_keys verdicts;
          rejected = rejections_of verdicts;
          clearance = clearances_of intent accepted;
          sorted_out = map (\<lambda>(_, _, c). c) (sort (map fst accepted));
          ordered = (case ri_max_candidates intent of None \<Rightarrow> sorted_out | Some n \<Rightarrow> take (nat n) sorted_out)
      in \<lparr>rd_candidates = ordered, rd_geometric_candidates = geometric, rd_rejected = rejected,
          rd_clearance = clearance,
          rd_diagnostics =
            [(''target'', json_position (ri_target intent)),
             (''interaction_radius'', json_flt (ri_interaction_radius intent)),
             (''vertical_offsets'', json_list (vertical_offsets intent) JInt),
             (''candidate_count'', json_int_nat (length ordered)),
             (''geometric_candidate_count'', json_int_nat (length geometric)),
             (''rejected_count'', json_int_nat (length rejected)),
             (''movement_profile'', JStr (ri_movement_profile intent)),
             (''mutation_profile'', JStr (ri_mutation_profile intent)),
             (''clearance_profile'', JStr (ri_clearance_profile intent)),
             (''terminal_predicate'', JStr (ri_terminal_predicate intent)),
             (''line_of_sight_required'', JBool (ri_require_line_of_sight intent)),
             (''clearance_candidate_count'', json_int_nat (length clearance))]\<rparr>)"

definition plain_failure :: "string \<Rightarrow> tool_result" where
  "plain_failure reason = \<lparr>tr_success = False, tr_reason = reason, tr_can_retry = False,
     tr_next_suggestion = None, tr_metrics = None\<rparr>"

definition intent_error :: "reach_intent \<Rightarrow> tool_result option" where
  "intent_error intent =
     (if ri_interaction_radius intent \<le> 0 then Some (plain_failure ''invalid_interaction_radius'')
      else case ri_max_candidates intent of
        Some n \<Rightarrow> if n < 1 then Some (plain_failure ''invalid_reach_candidate_budget'') else None
      | None \<Rightarrow> None)"

definition wanted_cells :: "reach_intent \<Rightarrow> position list \<Rightarrow> position list" where
  "wanted_cells intent geometric =
     concat (map (\<lambda>c. [c, head_of c, support_of c] @
                (if ri_require_line_of_sight intent then line_of_sight_cells c (ri_target intent) else []))
              geometric)"

fun first_some :: "'a option list \<Rightarrow> 'a option" where
  "first_some [] = None"
| "first_some (Some a # xs) = Some a"
| "first_some (None # xs) = first_some xs"

text \<open>A read that raised a \<open>ValueError\<close> is an answer; any other exception goes on.\<close>

definition facts_or_error ::
  "'w body_port \<Rightarrow> bool \<Rightarrow> position list \<Rightarrow> ('w, string + (position, perception_result) pydict) tx" where
  "facts_or_error port standing cells =
     tx_catch (tx_bind (block_facts port standing cells) (\<lambda>facts. tx_return (Inr facts)))
       (\<lambda>e. if is_value_error e
            then Some (tx_return (Inl (case e of ReadRaised x \<Rightarrow> pf_error_text (port_platform port) x | _ \<Rightarrow> [])))
            else None)"

definition block_reach_domains ::
  "'w body_port \<Rightarrow> reach_intent list \<Rightarrow> ('w, tool_result + reach_domain list) tx" where
  "block_reach_domains port intents =
     (if intents = [] then tx_return (Inr [])
      else case first_some (map intent_error intents) of
        Some failed \<Rightarrow> tx_return (Inl failed)
      | None \<Rightarrow>
          (let geometries = map geometric_candidates intents;
               wanted = concat (map2 wanted_cells intents geometries)
           in tx_bind (facts_or_error port True (dedupe wanted)) (\<lambda>r. case r of
                Inl text \<Rightarrow> tx_return (Inl \<lparr>tr_success = False, tr_reason = ''perception_failed'', tr_can_retry = True,
                    tr_next_suggestion =
                      Some ''refresh authoritative block facts before selecting a reach candidate'',
                    tr_metrics = Some [(''scope'', JStr ''blockCells''), (''failure_label'', JStr ''reach:domain_batch''),
                      (''error'', JStr text), (''targets'', json_list intents (\<lambda>i. json_position (ri_target i)))]\<rparr>)
              | Inr facts \<Rightarrow>
                  tx_bind (get_state port) (\<lambda>state.
                  tx_return (Inr (map2 (\<lambda>i g. resolve_domain port i g facts (bs_pos state)) intents geometries))))))"

definition block_reach_domain :: "'w body_port \<Rightarrow> reach_intent \<Rightarrow> ('w, tool_result + reach_domain) tx" where
  "block_reach_domain port intent =
     tx_bind (block_reach_domains port [intent]) (\<lambda>r.
     tx_return (case r of Inl failed \<Rightarrow> Inl failed | Inr ds \<Rightarrow> Inr (hd ds)))"

definition block_reach_points :: "'w body_port \<Rightarrow> reach_intent \<Rightarrow> ('w, tool_result + position list) tx" where
  "block_reach_points port intent =
     tx_bind (block_reach_domain port intent) (\<lambda>r. tx_return (map_sum id rd_candidates r))"

end
