(* ===== verification/Reach_Soundness.thy ===== *)
theory Reach_Soundness
  imports Reach Demo_Body
begin

text \<open>
  What a stand domain promises: its candidates are exactly the geometric ones that the facts
  show to be standable, or clearable by governed navigation, in range and in sight, nearest first.
\<close>

section \<open>Capitals\<close>

lemma upper_upper_char: "upper (upper_char c) = upper_char c"
proof -
  define n where "n = (of_char c :: nat)"
  have c: "c = char_of n" by (simp add: n_def)
  consider "n = 223" | "97 \<le> n \<and> n \<le> 122" | "224 \<le> n \<and> n \<le> 254 \<and> n \<noteq> 247"
    | "n \<noteq> 223 \<and> \<not> (97 \<le> n \<and> n \<le> 122 \<or> 224 \<le> n \<and> n \<le> 254 \<and> n \<noteq> 247)" by blast
  then show ?thesis
  proof cases
    case 1
    then show ?thesis by (simp add: upper_char_def upper_def n_def [symmetric])
  next
    case 4
    then have "upper_char c = [c]" by (auto simp: upper_char_def n_def [symmetric] Let_def)
    then show ?thesis by (simp add: upper_def)
  qed (auto simp: upper_char_def upper_def n_def [symmetric] Let_def)
qed

lemma upper_append [simp]: "upper (s @ t) = upper s @ upper t"
  by (simp add: upper_def)

lemma upper_upper [simp]: "upper (upper s) = upper s"
proof (induction s)
  case (Cons c s)
  have "upper (c # s) = upper_char c @ upper s" by (simp add: upper_def)
  with Cons show ?case by (simp add: upper_upper_char)
qed (simp add: upper_def)

section \<open>Standable and clearable cells\<close>

definition known :: "(position, perception_result) pydict \<Rightarrow> position \<Rightarrow> bool" where
  "known facts c \<longleftrightarrow> map_of facts c \<noteq> None \<and> map_of facts (head_of c) \<noteq> None \<and> map_of facts (support_of c) \<noteq> None"

definition dry_column :: "'w body_port \<Rightarrow> (position, perception_result) pydict \<Rightarrow> position \<Rightarrow> bool" where
  "dry_column port facts c \<longleftrightarrow>
     (\<forall>q\<in>{c, head_of c, support_of c}. \<not> cell_is_liquid port (map_of facts q))"

definition passable_for :: "'w body_port \<Rightarrow> reach_intent \<Rightarrow> (position, perception_result) pydict \<Rightarrow> position \<Rightarrow> bool" where
  "passable_for port intent facts q \<longleftrightarrow>
     cell_is_clear port (map_of facts q) \<or> ri_allow_liquid intent \<and> cell_is_liquid port (map_of facts q)"

definition head_free :: "'w body_port \<Rightarrow> reach_intent \<Rightarrow> (position, perception_result) pydict \<Rightarrow> position \<Rightarrow> bool" where
  "head_free port intent facts c \<longleftrightarrow> passable_for port intent facts (head_of c) \<or> head_of c = ri_target intent"

definition supported_cell :: "'w body_port \<Rightarrow> reach_intent \<Rightarrow> (position, perception_result) pydict \<Rightarrow> position \<Rightarrow> bool" where
  "supported_cell port intent facts c \<longleftrightarrow>
     (ri_require_support intent \<longrightarrow> cell_is_solid_support port (map_of facts (support_of c)) \<and>
        (ri_allow_liquid intent \<or>
         (\<forall>feet. map_of facts c = Some feet \<longrightarrow> map_of (pr_data feet) ''standing_y'' = None)))"

text \<open>The native proof of a standing height stands for the other observations.\<close>

definition standable :: "'w body_port \<Rightarrow> reach_intent \<Rightarrow> (position, perception_result) pydict \<Rightarrow> position \<Rightarrow> bool" where
  "standable port intent facts c \<longleftrightarrow>
     known facts c \<and>
     (standing_height (map_of facts c) \<noteq> None \<or>
      (ri_allow_liquid intent \<or> dry_column port facts c) \<and> passable_for port intent facts c \<and>
      head_free port intent facts c \<and> supported_cell port intent facts c)"

definition solid_cell :: "'w body_port \<Rightarrow> perception_result option \<Rightarrow> bool" where
  "solid_cell port p \<longleftrightarrow> (\<exists>r. p = Some r \<and> upper (state_or_unknown port r) = ''SOLID'')"

definition clearable :: "'w body_port \<Rightarrow> reach_intent \<Rightarrow> (position, perception_result) pydict \<Rightarrow> position \<Rightarrow> bool" where
  "clearable port intent facts c \<longleftrightarrow>
     ri_clearance_profile intent = ''governed'' \<and> known facts c \<and> standing_height (map_of facts c) = None \<and>
     (ri_allow_liquid intent \<or> dry_column port facts c) \<and>
     (\<not> passable_for port intent facts c \<and> solid_cell port (map_of facts c) \<or>
      passable_for port intent facts c \<and> \<not> head_free port intent facts c \<and> solid_cell port (map_of facts (head_of c)))"

definition in_sight :: "'w body_port \<Rightarrow> reach_intent \<Rightarrow> (position, perception_result) pydict \<Rightarrow> position \<Rightarrow> bool" where
  "in_sight port intent facts c \<longleftrightarrow>
     (ri_require_line_of_sight intent \<longrightarrow>
        (\<forall>q\<in>set (line_of_sight_cells c (ri_target intent)).
           \<exists>p. map_of facts q = Some p \<and> upper (state_or_unknown port p) \<notin> {''UNKNOWN'', ''SOLID''}))"

definition in_range :: "reach_intent \<Rightarrow> (position, perception_result) pydict \<Rightarrow> position \<Rightarrow> bool" where
  "in_range intent facts c \<longleftrightarrow>
     \<not> farther (stand_center c (physical_y c facts)) (block_center (ri_target intent)) (ri_interaction_radius intent + micro)"

definition reachable_stand ::
  "'w body_port \<Rightarrow> reach_intent \<Rightarrow> (position, perception_result) pydict \<Rightarrow> position \<Rightarrow> bool" where
  "reachable_stand port intent facts c \<longleftrightarrow>
     (standable port intent facts c \<or> clearable port intent facts c) \<and> in_range intent facts c \<and> in_sight port intent facts c"

section \<open>The checks decide them\<close>

lemma dget_rejection:
  "dget (rejection c reason rest) ''reason'' = JStr reason"
  "k \<noteq> ''candidate'' \<Longrightarrow> k \<noteq> ''reason'' \<Longrightarrow> dget (rejection c reason rest) k = dget rest k"
  by (simp_all add: rejection_def dget_def)

lemma defer_blocked:
  assumes "reason \<in> {''feet_blocked'', ''head_blocked''}" and "dget rest ''state'' = JStr (upper t)"
  shows "can_defer_clearance port intent (rejection c reason rest) \<longleftrightarrow>
    ri_clearance_profile intent = ''governed'' \<and> upper t = ''SOLID''"
proof -
  have "upper (if upper t = [] then ''UNKNOWN'' else upper t) = ''SOLID'' \<longleftrightarrow> upper t = ''SOLID''"
  proof (cases "upper t = []")
    case True
    moreover have "upper ''UNKNOWN'' \<noteq> ''SOLID''" by code_simp
    ultimately show ?thesis by simp
  qed simp
  then show ?thesis
    using assms by (auto simp: can_defer_clearance_def dget_rejection text_or_def)
qed

lemma no_defer:
  "reason \<notin> {''feet_blocked'', ''head_blocked''} \<Longrightarrow> \<not> can_defer_clearance port intent (rejection c reason rest)"
  by (auto simp: can_defer_clearance_def dget_rejection)

definition undeferred :: "'w body_port \<Rightarrow> reach_intent \<Rightarrow> json_object option \<Rightarrow> json_object option" where
  "undeferred port intent x =
     (case x of Some r \<Rightarrow> if can_defer_clearance port intent r then None else Some r | None \<Rightarrow> None)"

lemma candidate_rejection_known:
  assumes "map_of facts c = Some feet" and "map_of facts (head_of c) = Some head" and "map_of facts (support_of c) = Some support"
  shows "candidate_rejection port intent c facts =
     (if standing_height (Some feet) \<noteq> None then None
      else if \<not> ri_allow_liquid intent \<and> \<not> dry_column port facts c then Some (rejection c ''liquid_contact'' [])
      else if \<not> passable_for port intent facts c then Some (rejection c ''feet_blocked'' (seen_block port feet))
      else if \<not> head_free port intent facts c
      then Some (rejection c ''head_blocked'' ((''cell'', json_position (head_of c)) # seen_block port head))
      else if ri_require_support intent \<and> \<not> cell_is_solid_support port (Some support)
      then Some (rejection c ''support_unstable'' [])
      else if ri_require_support intent \<and> \<not> ri_allow_liquid intent \<and> map_of (pr_data feet) ''standing_y'' \<noteq> None
      then Some (rejection c ''support_unverified'' [])
      else None)"
  unfolding candidate_rejection_def dry_column_def passable_for_def head_free_def Let_def
  by (simp only: assms prod.case option.case ball_simps insert_iff de_Morgan_conj not_not disj_assoc not_True_eq_False simp_thms)

lemma candidate_ok_iff:
  "undeferred port intent (candidate_rejection port intent c facts) = None \<longleftrightarrow>
     standable port intent facts c \<or> clearable port intent facts c"
proof (cases "known facts c")
  case False
  then have "candidate_rejection port intent c facts = Some (rejection c ''missing_fact'' [])"
    by (cases "map_of facts c"; cases "map_of facts (head_of c)"; cases "map_of facts (support_of c)")
      (simp_all add: candidate_rejection_def known_def)
  then show ?thesis
    using False no_defer [of "''missing_fact''"] by (simp add: undeferred_def standable_def clearable_def)
next
  case True
  then obtain feet head support where f: "map_of facts c = Some feet" "map_of facts (head_of c) = Some head"
      "map_of facts (support_of c) = Some support"
    unfolding known_def by blast
  have st: "dget (seen_block port p) ''state'' = JStr (upper (state_or_unknown port p))" for p
    by (simp add: seen_block_def dget_def)
  have st': "dget ((''cell'', x) # seen_block port p) ''state'' = JStr (upper (state_or_unknown port p))" for x p
    by (simp add: seen_block_def dget_def)
  have deferred: "undeferred port intent (Some (rejection c ''feet_blocked'' (seen_block port feet))) = None \<longleftrightarrow>
      ri_clearance_profile intent = ''governed'' \<and> solid_cell port (map_of facts c)"
    "undeferred port intent (Some (rejection c ''head_blocked'' ((''cell'', json_position (head_of c)) # seen_block port head))) = None \<longleftrightarrow>
      ri_clearance_profile intent = ''governed'' \<and> solid_cell port (map_of facts (head_of c))"
    using defer_blocked [where port = port and reason = "''feet_blocked''", OF _ st]
      defer_blocked [where port = port and reason = "''head_blocked''", OF _ st'] f
    by (simp_all add: undeferred_def solid_cell_def)
  have kept: "undeferred port intent (Some (rejection c reason rest)) = Some (rejection c reason rest)"
    if "reason \<notin> {''feet_blocked'', ''head_blocked''}" for reason rest
    using no_defer [OF that] by (simp add: undeferred_def)
  have none: "undeferred port intent None = None" by (simp add: undeferred_def)
  note alt = candidate_rejection_known [OF f]
  show ?thesis
  proof (cases "standing_height (Some feet) \<noteq> None")
    case True
    then show ?thesis using \<open>known facts c\<close> f by (simp add: alt none standable_def)
  next
    case h: False
    show ?thesis
    proof (cases "\<not> ri_allow_liquid intent \<and> \<not> dry_column port facts c")
      case True
      then show ?thesis using f h kept [of "''liquid_contact''"] by (simp add: alt standable_def clearable_def)
    next
      case dry: False
      show ?thesis
      proof (cases "passable_for port intent facts c")
        case False
        then show ?thesis using \<open>known facts c\<close> f h dry deferred(1)
          by (cases "ri_allow_liquid intent") (simp_all add: alt standable_def clearable_def)
      next
        case feet: True
        show ?thesis
        proof (cases "head_free port intent facts c")
          case False
          then show ?thesis using \<open>known facts c\<close> f h dry feet deferred(2)
            by (cases "ri_allow_liquid intent") (simp_all add: alt standable_def clearable_def)
        next
          case head: True
          have sup: "supported_cell port intent facts c \<longleftrightarrow>
              \<not> (ri_require_support intent \<and> \<not> cell_is_solid_support port (Some support)) \<and>
              \<not> (ri_require_support intent \<and> \<not> ri_allow_liquid intent \<and> map_of (pr_data feet) ''standing_y'' \<noteq> None)"
            using f by (cases "ri_require_support intent") (simp_all add: supported_cell_def)
          show ?thesis
            using \<open>known facts c\<close> f h dry feet head sup kept [of "''support_unstable''"] kept [of "''support_unverified''"]
            by (cases "ri_allow_liquid intent") (simp_all add: alt none standable_def clearable_def)
        qed
      qed
    qed
  qed
qed

lemma undeferred_None: "undeferred port intent None = None"
  by (simp add: undeferred_def)

lemma sight_ok_iff:
  "undeferred port intent (sight_rejection port c facts cells) = None \<longleftrightarrow>
     (\<forall>q\<in>set cells. \<exists>p. map_of facts q = Some p \<and> upper (state_or_unknown port p) \<notin> {''UNKNOWN'', ''SOLID''})"
  by (induction cells) (auto simp: undeferred_def no_defer Let_def split: option.split)

lemma judge_accepts_iff:
  "(\<exists>d h l. judge_candidate port intent facts p c = Accepted d h l) \<longleftrightarrow> reachable_stand port intent facts c"
proof -
  have "undeferred port intent (line_of_sight_rejection port intent c facts) = None \<longleftrightarrow> in_sight port intent facts c"
    using sight_ok_iff [of port intent c facts "line_of_sight_cells c (ri_target intent)"]
    by (cases "ri_require_line_of_sight intent") (simp_all add: line_of_sight_rejection_def in_sight_def undeferred_None)
  then show ?thesis
    using candidate_ok_iff [of port intent c facts]
    unfolding judge_candidate_def undeferred_def [symmetric] Let_def reachable_stand_def in_range_def
    by (auto split: option.split)
qed

lemma judge_accepts_key:
  "judge_candidate port intent facts p c = Accepted d h l \<Longrightarrow>
     d = dist2 p (stand_center c (physical_y c facts)) \<and> h = \<bar>physical_y c facts - fst (snd p)\<bar>"
  by (auto simp: judge_candidate_def Let_def split: option.splits if_splits)

lemma accepted_keys_iff:
  "((d, h, c), l) \<in> set (accepted_keys vs) \<longleftrightarrow> (c, Accepted d h l) \<in> set vs"
  by (induction vs rule: accepted_keys.induct) auto

lemma pair_in_map: "(a, b) \<in> set (map (\<lambda>x. (x, f x)) xs) \<longleftrightarrow> a \<in> set xs \<and> b = f a"
  by auto

section \<open>The domain\<close>

definition stand_key :: "(position, perception_result) pydict \<Rightarrow> point \<Rightarrow> position \<Rightarrow> rat \<times> rat \<times> position" where
  "stand_key facts p c =
     (dist2 p (stand_center c (physical_y c facts)), \<bar>physical_y c facts - fst (snd p)\<bar>, c)"

lemma resolve_domain_candidates:
  fixes port :: "'w body_port" and intent and facts and p and geometric
  defines "ks \<equiv> sort (map fst (accepted_keys (map (\<lambda>c. (c, judge_candidate port intent facts p c)) geometric)))"
  shows "rd_candidates (resolve_domain port intent geometric facts p) =
      (case ri_max_candidates intent of None \<Rightarrow> map (snd \<circ> snd) ks | Some n \<Rightarrow> take (nat n) (map (snd \<circ> snd) ks))"
    and "set (map (snd \<circ> snd) ks) = {c \<in> set geometric. reachable_stand port intent facts c}"
    and "ks = map (stand_key facts p) (map (snd \<circ> snd) ks)"
proof -
  have "(\<lambda>(_, _, c). c) = (snd \<circ> snd :: rat \<times> rat \<times> position \<Rightarrow> position)" by auto
  then show "rd_candidates (resolve_domain port intent geometric facts p) =
      (case ri_max_candidates intent of None \<Rightarrow> map (snd \<circ> snd) ks | Some n \<Rightarrow> take (nat n) (map (snd \<circ> snd) ks))"
    by (simp add: resolve_domain_def Let_def ks_def split: option.split)
  have mem: "(d, h, c) \<in> set ks \<longleftrightarrow> c \<in> set geometric \<and> (\<exists>l. judge_candidate port intent facts p c = Accepted d h l)" for d h c
  proof -
    have "(d, h, c) \<in> set ks \<longleftrightarrow>
        (\<exists>l. ((d, h, c), l) \<in> set (accepted_keys (map (\<lambda>c. (c, judge_candidate port intent facts p c)) geometric)))"
      by (force simp: ks_def)
    also have "\<dots> \<longleftrightarrow> c \<in> set geometric \<and> (\<exists>l. judge_candidate port intent facts p c = Accepted d h l)"
      by (simp only: accepted_keys_iff pair_in_map) (auto simp: eq_commute)
    finally show ?thesis .
  qed
  have "c \<in> set (map (snd \<circ> snd) ks) \<longleftrightarrow> c \<in> set geometric \<and> (\<exists>d h l. judge_candidate port intent facts p c = Accepted d h l)" for c
  proof -
    have "c \<in> set (map (snd \<circ> snd) ks) \<longleftrightarrow> (\<exists>d h. (d, h, c) \<in> set ks)" by force
    then show ?thesis using mem by auto
  qed
  then show "set (map (snd \<circ> snd) ks) = {c \<in> set geometric. reachable_stand port intent facts c}"
    using judge_accepts_iff by blast
  have "k = stand_key facts p (snd (snd k))" if "k \<in> set ks" for k
  proof -
    obtain d h c where k: "k = (d, h, c)" by (rule prod_cases3)
    then have "\<exists>l. judge_candidate port intent facts p c = Accepted d h l" using that mem [of d h c] by simp
    then obtain l where "judge_candidate port intent facts p c = Accepted d h l" ..
    from judge_accepts_key [OF this] show ?thesis by (simp add: k stand_key_def)
  qed
  then show "ks = map (stand_key facts p) (map (snd \<circ> snd) ks)" by (simp add: map_idI)
qed

lemma sorted_domain:
  "sorted (map (stand_key facts p) (rd_candidates (resolve_domain port intent geometric facts p)))"
proof -
  let ?ks = "sort (map fst (accepted_keys (map (\<lambda>c. (c, judge_candidate port intent facts p c)) geometric)))"
  have "sorted ?ks" by simp
  then have "sorted (map (stand_key facts p) (map (snd \<circ> snd) ?ks))"
    using resolve_domain_candidates(3) [of port intent facts p geometric] by simp
  then show ?thesis
    unfolding resolve_domain_candidates(1) by (cases "ri_max_candidates intent") (simp_all add: take_map [symmetric] sorted_wrt_take)
qed

lemma block_reach_domain_run:
  assumes "block_reach_domain port intent s = (Inr (Inr d), s')"
  obtains facts s1 state where
    "block_facts port True (dedupe (wanted_cells intent (geometric_candidates intent))) s = (Inr facts, s1)"
    and "get_state port s1 = (Inr state, s')" and "intent_error intent = None"
    and "d = resolve_domain port intent (geometric_candidates intent) facts (bs_pos state)"
proof -
  obtain ds t where ds: "block_reach_domains port [intent] s = (Inr (Inr ds), t)" "d = hd ds" "t = s'"
  proof -
    from assms obtain r t where r: "block_reach_domains port [intent] s = (Inr r, t)" "t = s'"
        "(case r of Inl failed \<Rightarrow> Inl failed | Inr ds \<Rightarrow> Inr (hd ds)) = Inr d"
      by (auto simp: block_reach_domain_def tx_bind_Inr tx_return_def)
    then show ?thesis using that by (cases r) auto
  qed
  have none: "intent_error intent = None"
    using ds(1) by (cases "intent_error intent") (auto simp: block_reach_domains_def tx_return_def)
  then obtain r s1 where r: "facts_or_error port True (dedupe (wanted_cells intent (geometric_candidates intent))) s = (Inr r, s1)"
    and k: "(case r of
                Inl text \<Rightarrow> tx_return (Inl \<lparr>tr_success = False, tr_reason = ''perception_failed'', tr_can_retry = True,
                    tr_next_suggestion =
                      Some ''refresh authoritative block facts before selecting a reach candidate'',
                    tr_metrics = Some [(''scope'', JStr ''blockCells''), (''failure_label'', JStr ''reach:domain_batch''),
                      (''error'', JStr text), (''targets'', json_list [intent] (\<lambda>i. json_position (ri_target i)))]\<rparr>)
              | Inr facts \<Rightarrow>
                  tx_bind (get_state port) (\<lambda>state.
                  tx_return (Inr [resolve_domain port intent (geometric_candidates intent) facts (bs_pos state)]))) s1 = (Inr (Inr ds), s')"
    using ds by (auto simp: block_reach_domains_def Let_def tx_bind_Inr)
  then obtain facts where facts: "r = Inr facts" by (cases r) (auto simp: tx_return_def)
  then obtain state where "get_state port s1 = (Inr state, s')" "ds = [resolve_domain port intent (geometric_candidates intent) facts (bs_pos state)]"
    using k by (auto simp: tx_bind_Inr tx_return_def)
  moreover have "block_facts port True (dedupe (wanted_cells intent (geometric_candidates intent))) s = (Inr facts, s1)"
    using r unfolding facts
    by (auto simp: facts_or_error_def tx_catch_def tx_bind_def tx_return_def split: prod.splits sum.splits if_splits)
  ultimately show ?thesis using that none ds(2) by simp
qed

text \<open>
  C13. A stand domain is exact: the candidates that \<open>block_reach_domain\<close> returns are, when no
  candidate budget is set, exactly the geometric ones that the facts just read show to be standable
  (or clearable under the governed profile), within the interaction radius and in line of sight;
  under a budget they are among these. They come nearest first.
\<close>

theorem stand_domain_is_exact:
  assumes "block_reach_domain port intent s = (Inr (Inr d), s')"
  shows "\<exists>facts s1 state.
    block_facts port True (dedupe (wanted_cells intent (geometric_candidates intent))) s = (Inr facts, s1) \<and>
    get_state port s1 = (Inr state, s') \<and>
    set (rd_candidates d) \<subseteq> {c \<in> set (geometric_candidates intent). reachable_stand port intent facts c} \<and>
    (ri_max_candidates intent = None \<longrightarrow>
       set (rd_candidates d) = {c \<in> set (geometric_candidates intent). reachable_stand port intent facts c}) \<and>
    sorted (map (stand_key facts (bs_pos state)) (rd_candidates d))"
proof -
  from assms obtain facts s1 state where run:
    "block_facts port True (dedupe (wanted_cells intent (geometric_candidates intent))) s = (Inr facts, s1)"
    "get_state port s1 = (Inr state, s')" "intent_error intent = None"
    "d = resolve_domain port intent (geometric_candidates intent) facts (bs_pos state)"
    by (rule block_reach_domain_run)
  note cs = resolve_domain_candidates [where port = port and intent = intent and facts = facts and p = "bs_pos state" and geometric = "geometric_candidates intent"]
  have sub: "set (rd_candidates d) \<subseteq> {c \<in> set (geometric_candidates intent). reachable_stand port intent facts c}"
    unfolding run(4) cs(1) cs(2) [symmetric] by (cases "ri_max_candidates intent") (auto dest: in_set_takeD)
  moreover have "set (rd_candidates d) = {c \<in> set (geometric_candidates intent). reachable_stand port intent facts c}"
    if "ri_max_candidates intent = None"
    unfolding run(4) cs(1) cs(2) [symmetric] using that by simp
  moreover have "sorted (map (stand_key facts (bs_pos state)) (rd_candidates d))"
    unfolding run(4) by (rule sorted_domain)
  ultimately show ?thesis
    using run(1,2) by (intro exI [of _ facts] exI [of _ s1] exI [of _ state] conjI impI)
qed

definition demo_reach :: reach_intent where
  "demo_reach = (reach_intent_for (0, 64, 0))\<lparr>ri_vertical_offsets := Some [0]\<rparr>"

definition demo_yard :: "demo_world tx_state" where
  "demo_yard = demo_start (demo_ground [(0, 64, 0), (1, 63, 0), (-1, 63, 0), (0, 63, 1), (0, 64, 1)]) (5/2, 64, 1/2)"

definition facts_at :: "reach_intent \<Rightarrow> demo_world tx_state \<Rightarrow> (position, perception_result) pydict" where
  "facts_at intent s =
     (case fst (block_facts demo_port True (dedupe (wanted_cells intent (geometric_candidates intent))) s) of
        Inr f \<Rightarrow> f | Inl _ \<Rightarrow> [])"

lemma demo_domain:
  assumes "block_facts demo_port True (dedupe (wanted_cells intent (geometric_candidates intent))) s = (Inr facts, s)"
    and "intent_error intent = None"
  shows "block_reach_domain demo_port intent s =
    (Inr (Inr (resolve_domain demo_port intent (geometric_candidates intent) facts (dw_pos (tx_world s)))), s)"
  using assms
  by (simp add: block_reach_domain_def block_reach_domains_def Let_def facts_or_error_def tx_catch_def tx_bind_def
      tx_return_def get_state_def tx_call_def demo_port_def demo_state_def)

theorem stand_domain_is_exact_witness:
  "\<exists>facts (state :: body_state). {(1, 64, 0), (-1, 64, 0)} =
     {c \<in> set (geometric_candidates demo_reach). reachable_stand demo_port demo_reach facts c} \<and>
   sorted (map (stand_key facts (bs_pos state)) [(1, 64, 0), (-1, 64, 0)])"
proof -
  let ?d = "resolve_domain demo_port demo_reach (geometric_candidates demo_reach) (facts_at demo_reach demo_yard) (5/2, 64, 1/2)"
  have d: "rd_candidates ?d = [(1, 64, 0), (-1, 64, 0)]" by code_simp
  have "block_facts demo_port True (dedupe (wanted_cells demo_reach (geometric_candidates demo_reach))) demo_yard =
      (Inr (facts_at demo_reach demo_yard), demo_yard)"
    by code_simp
  moreover have "intent_error demo_reach = None" by code_simp
  moreover have "dw_pos (tx_world demo_yard) = (5/2, 64, 1/2)" by (simp add: demo_yard_def demo_start_def)
  ultimately have "block_reach_domain demo_port demo_reach demo_yard = (Inr (Inr ?d), demo_yard)"
    using demo_domain [of demo_reach demo_yard] by simp
  from stand_domain_is_exact [OF this] show ?thesis
  proof (elim exE conjE)
    fix facts s1 and state :: body_state
    assume "ri_max_candidates demo_reach = None \<longrightarrow>
         set (rd_candidates ?d) = {c \<in> set (geometric_candidates demo_reach). reachable_stand demo_port demo_reach facts c}"
      and sorted: "sorted (map (stand_key facts (bs_pos state)) (rd_candidates ?d))"
    moreover have "ri_max_candidates demo_reach = None" by (simp add: demo_reach_def reach_intent_for_def)
    ultimately have "set (rd_candidates ?d) = {c \<in> set (geometric_candidates demo_reach). reachable_stand demo_port demo_reach facts c}"
      by (simp only: simp_thms)
    then show ?thesis using sorted unfolding d by (intro exI [of _ facts] exI [of _ state] conjI) simp_all
  qed
qed

text \<open>
  Under the governed profile a cell whose feet are solid is accepted before its support is looked
  at: with nothing below, clearing the cell leaves no ground to stand on.
\<close>

definition demo_governed :: reach_intent where
  "demo_governed = demo_reach\<lparr>ri_clearance_profile := ''governed''\<rparr>"

definition demo_ledge :: "demo_world tx_state" where
  "demo_ledge = demo_start (demo_ground [(0, 64, 0), (1, 64, 0)]) (5/2, 64, 1/2)"

lemma governed_stand_without_ground:
  "rd_candidates (resolve_domain demo_port demo_governed (geometric_candidates demo_governed)
     (facts_at demo_governed demo_ledge) (5/2, 64, 1/2)) = [(1, 64, 0)]"
  "demo_cell (tx_world demo_ledge) (1, 63, 0) = (''air'', ''CLEAR'')"
  by code_simp+

end
