(* ===== verification/Block_Actions.thy ===== *)
theory Block_Actions
  imports Reach Harvest
begin

text \<open>
  The guarded single-block transactions of \<open>minebot/body/block_work.py\<close>: mining one block, with
  the approach to a stand it can be reached from, placing one block, and selecting an item.
\<close>

section \<open>Constants\<close>

definition LIQUID_TYPES :: "string set" where "LIQUID_TYPES = {''water'', ''lava''}"

definition LIQUID_STATES :: "string set" where "LIQUID_STATES = {''LIQUID''}"

definition DIRECT_MINE_REACH :: rat where "DIRECT_MINE_REACH = 9/4"

definition MINE_INTERACTION_RANGE :: rat where "MINE_INTERACTION_RANGE = 9/2"

definition MINE_APPROACH_MAX_BREAK_STEPS :: int where "MINE_APPROACH_MAX_BREAK_STEPS = 8"

definition mine_approach_settle_s :: rat where "mine_approach_settle_s = 3/10"

section \<open>Small helpers\<close>

definition fail_result :: "string \<Rightarrow> bool \<Rightarrow> string \<Rightarrow> json_object \<Rightarrow> tool_result" where
  "fail_result reason can_retry suggestion metrics =
     \<lparr>tr_success = False, tr_reason = reason, tr_can_retry = can_retry, tr_next_suggestion = Some suggestion,
      tr_metrics = Some metrics\<rparr>"

definition done_result :: "string \<Rightarrow> json_object \<Rightarrow> tool_result" where
  "done_result reason metrics =
     \<lparr>tr_success = True, tr_reason = reason, tr_can_retry = False, tr_next_suggestion = None, tr_metrics = Some metrics\<rparr>"

definition metrics_of :: "tool_result \<Rightarrow> json_object" where
  "metrics_of r = (case tr_metrics r of None \<Rightarrow> [] | Some m \<Rightarrow> m)"

definition with_metric :: "tool_result \<Rightarrow> string \<Rightarrow> json \<Rightarrow> tool_result" where
  "with_metric r k v = r\<lparr>tr_metrics := Some (AList.update k v (metrics_of r))\<rparr>"

definition set_default :: "string \<Rightarrow> json \<Rightarrow> json_object \<Rightarrow> json_object" where
  "set_default k v d = (if map_of d k = None then d @ [(k, v)] else d)"

definition suggestion_or :: "tool_result \<Rightarrow> string \<Rightarrow> string" where
  "suggestion_or r s = (case tr_next_suggestion r of None \<Rightarrow> s | Some t \<Rightarrow> if t = [] then s else t)"

fun block_params :: "position \<Rightarrow> json_object" where
  "block_params (x, y, z) = [(''x'', JInt x), (''y'', JInt y), (''z'', JInt z)]"

fun state_block_pos :: "point \<Rightarrow> position" where
  "state_block_pos (x, y, z) = (\<lfloor>x\<rfloor>, \<lfloor>y\<rfloor>, \<lfloor>z\<rfloor>)"

definition seconds_to_ticks :: "rat \<Rightarrow> int" where
  "seconds_to_ticks seconds = max 1 \<lceil>seconds * 20\<rceil>"

fun same_column :: "point \<Rightarrow> position \<Rightarrow> bool" where
  "same_column (px, _, pz) (x, _, z) \<longleftrightarrow> \<lfloor>px\<rfloor> = x \<and> \<lfloor>pz\<rfloor> = z"

definition perception_failure :: "perception_result \<Rightarrow> tool_result option" where
  "perception_failure p =
     (if pr_ok p \<and> pr_complete p then None
      else Some (fail_result ''perception_failed'' True ''re-perceive the target block before mutating the world''
                   (perception_facts p)))"

definition acceptance_failure :: "result \<Rightarrow> string \<Rightarrow> position \<Rightarrow> tool_result option" where
  "acceptance_failure r action_name pos =
     body_rejection_to_tool_result r (Some
       [(''action'', JStr action_name), (''target'', json_position pos), (''ok'', JBool (re_ok r)),
        (''accepted'', JBool (re_accepted r)), (''error'', json_opt (re_error r)), (''data'', JDict (re_data r))])"

definition INSPECTION_DECISION_REASONS :: "string set" where
  "INSPECTION_DECISION_REASONS = {''structure_risk_unknown'', ''structure_assessment_required''}"

definition CONFIRMATION_DECISION_REASONS :: "string set" where
  "CONFIRMATION_DECISION_REASONS = {''governance_confirmation_required''}"

definition plain_reason :: "string \<Rightarrow> string" where
  "plain_reason reason = removeprefix ''dig_down_denied:'' (removeprefix ''break_denied:'' reason)"

definition governance_needs_inspection :: "string option \<Rightarrow> bool" where
  "governance_needs_inspection reason \<longleftrightarrow>
     (case reason of None \<Rightarrow> False | Some r \<Rightarrow> r \<noteq> [] \<and> plain_reason r \<in> INSPECTION_DECISION_REASONS)"

definition governance_confirmation_required :: "string option \<Rightarrow> bool" where
  "governance_confirmation_required reason \<longleftrightarrow>
     (case reason of None \<Rightarrow> False | Some r \<Rightarrow> r \<noteq> [] \<and> plain_reason r \<in> CONFIRMATION_DECISION_REASONS)"

definition decision_payload :: "legality_decision \<Rightarrow> json_object" where
  "decision_payload d =
     [(''allowed'', JBool (ld_allowed d)), (''reason'', JStr (ld_reason d)),
      (''protected'', JBool (ld_protected d)), (''bot_owned'', JBool (ld_bot_owned d)),
      (''natural_region'', json_opt (ld_natural_region d)), (''details'', JDict (ld_details d))]"

definition denied_result :: "string \<Rightarrow> position \<Rightarrow> string \<Rightarrow> legality_decision \<Rightarrow> tool_result" where
  "denied_result lead pos block_type d =
     (let needs_inspection = governance_needs_inspection (Some (ld_reason d));
          confirmation_required = governance_confirmation_required (Some (ld_reason d));
          metrics = [(''target'', json_position pos), (''block_type'', JStr block_type),
                     (''legality'', JDict (decision_payload d)),
                     (''evidence_state'', JStr (if confirmation_required then ''confirmation_required''
                        else if needs_inspection then ''needs_inspection'' else ''denied''))]
      in fail_result (lead @ '':'' @ ld_reason d) (needs_inspection \<or> confirmation_required)
           (if confirmation_required
            then ''review and confirm the bounded natural-work scope once, or choose another candidate''
            else if needs_inspection
            then ''inspect the bounded structure context or choose another candidate before retrying this mutation''
            else ''choose another target or register a safe work region/provenance before mutating this block'')
           (case (confirmation_required, dget (ld_details d) ''governance_confirmation'') of
              (True, JDict c) \<Rightarrow> metrics @ [(''governance_confirmation'', JDict c)]
            | _ \<Rightarrow> metrics))"

definition is_liquid_perception :: "'w body_port \<Rightarrow> perception_result \<Rightarrow> bool" where
  "is_liquid_perception port p \<longleftrightarrow>
     removeprefix ''minecraft:'' (text_or port (pr_data p) ''type'' []) \<in> LIQUID_TYPES \<or>
     text_or port (pr_data p) ''state'' [] \<in> LIQUID_STATES"

definition is_clear_perception :: "'w body_port \<Rightarrow> perception_result \<Rightarrow> bool" where
  "is_clear_perception port p \<longleftrightarrow>
     removeprefix ''minecraft:'' (type_or_unknown port p) = ''air'' \<or> state_or_unknown port p = ''CLEAR''"

text \<open>What the early returns of a transaction become: the result, or the value to go on with.\<close>

definition or_return :: "tool_result + 'a \<Rightarrow> ('a \<Rightarrow> ('w, tool_result) tx) \<Rightarrow> ('w, tool_result) tx" where
  "or_return r k = (case r of Inl failed \<Rightarrow> tx_return failed | Inr a \<Rightarrow> k a)"

definition unless_failed :: "tool_result option \<Rightarrow> ('w, tool_result) tx \<Rightarrow> ('w, tool_result) tx" where
  "unless_failed failed k = (case failed of Some r \<Rightarrow> tx_return r | None \<Rightarrow> k)"

section \<open>The approach\<close>

definition mine_reach_limit :: "break_context \<Rightarrow> rat" where
  "mine_reach_limit context = (if context = BC_COLLECT then MINE_INTERACTION_RANGE else DIRECT_MINE_REACH)"

definition reach_length :: "'w body_port \<Rightarrow> point \<Rightarrow> position \<Rightarrow> json" where
  "reach_length port p pos = json_flt (pf_sqrt (port_platform port) (dist2 p (block_center pos)))"

text \<open>The key \<open>_mining_stand_sort_key\<close>, with squared distances.\<close>

definition mining_stand_key :: "point \<Rightarrow> position \<Rightarrow> position \<Rightarrow> rat \<times> rat \<times> rat" where
  "mining_stand_key current target c =
     (case c of (cx, cy, cz) \<Rightarrow>
        (\<bar>of_int cy - fst (snd current)\<bar>, dist2 current (of_int cx + 1/2, of_int cy, of_int cz + 1/2),
         dist2 (of_int cx + 1/2, of_int cy, of_int cz + 1/2) (block_center target)))"

definition mining_intent :: "position \<Rightarrow> reach_intent" where
  "mining_intent pos = (reach_intent_for pos)\<lparr>ri_interaction_radius := MINE_INTERACTION_RANGE,
     ri_vertical_offsets := Some [1, 0, -1], ri_movement_profile := ''collect_approach'',
     ri_mutation_profile := ''governed_break'', ri_clearance_profile := ''governed'',
     ri_terminal_predicate := ''mining_stand''\<rparr>"

definition ranked_mining_stand_candidates ::
  "'w body_port \<Rightarrow> position \<Rightarrow> point \<Rightarrow> ('w, tool_result + position list) tx" where
  "ranked_mining_stand_candidates port pos current =
     tx_bind (block_reach_domain port (mining_intent pos)) (\<lambda>r. tx_return (case r of
       Inl failed \<Rightarrow> Inl failed
     | Inr domain \<Rightarrow>
         (let candidates = (if rd_candidates domain \<noteq> [] then rd_candidates domain else rd_geometric_candidates domain)
          in Inr (sort_key (mining_stand_key current pos) candidates))))"

text \<open>\<open>metrics.get("selected_goal", metrics.get("goal"))\<close> as a position of the candidates\<close>

definition selected_goal :: "json_object \<Rightarrow> json" where
  "selected_goal m = (case map_of m ''selected_goal'' of Some v \<Rightarrow> v | None \<Rightarrow> dget m ''goal'')"

definition json_ints3 :: "json \<Rightarrow> py_exn + position option" where
  "json_ints3 v =
     (case v of
        JList (a # b # c # _) \<Rightarrow>
          (case py_int a of Inl e \<Rightarrow> Inl e | Inr x \<Rightarrow>
           case py_int b of Inl e \<Rightarrow> Inl e | Inr y \<Rightarrow>
           case py_int c of Inl e \<Rightarrow> Inl e | Inr z \<Rightarrow> Inr (Some (x, y, z)))
      | _ \<Rightarrow> Inr None)"

definition selected_mining_stand :: "tool_result \<Rightarrow> position list \<Rightarrow> py_exn + position" where
  "selected_mining_stand r candidates =
     map_sum id (\<lambda>x. case x of Some p \<Rightarrow> if p \<in> set candidates then p else hd candidates | None \<Rightarrow> hd candidates)
       (json_ints3 (selected_goal (metrics_of r)))"

definition RECONCILABLE_REASONS :: "string set" where
  "RECONCILABLE_REASONS = {''deviated'', ''no_path'', ''node_budget_without_progress'',
     ''partial_segment_budget_exhausted'', ''segment_budget_exhausted'', ''stuck'', ''timeout'',
     ''timeout_ticks_exhausted''}"

definition mining_approach_terminal_reconcilable :: "tool_result \<Rightarrow> bool" where
  "mining_approach_terminal_reconcilable r \<longleftrightarrow>
     (if tr_success r then tr_reason r = ''arrived''
      else removeprefix ''recovery_exhausted:'' (tr_reason r) \<in> RECONCILABLE_REASONS)"

definition approach_metrics ::
  "'w body_port \<Rightarrow> position \<Rightarrow> string \<Rightarrow> position list \<Rightarrow> position \<Rightarrow> navigation_goal \<Rightarrow> point \<Rightarrow> tool_result
   \<Rightarrow> body_state \<Rightarrow> bool \<Rightarrow> json_object" where
  "approach_metrics port pos block_type candidates selected goal before_pos nav after reconciled =
     [(''target'', json_position pos), (''stand_candidates'', json_list candidates json_position),
      (''selected_goal'', json_position selected), (''navigation_goal'', goal_payload goal),
      (''state_before'', json_position (state_block_pos before_pos)),
      (''navigation_result'', JDict (tool_result_payload nav)),
      (''break_context'', JStr (break_context_value BC_COLLECT_APPROACH)),
      (''max_break_steps'', JInt MINE_APPROACH_MAX_BREAK_STEPS), (''target_block_type'', JStr block_type),
      (''state_after'', json_position (state_block_pos (bs_pos after))),
      (''reach_distance'', reach_length port (bs_pos after) pos),
      (''approach_settle_s'', json_flt mine_approach_settle_s),
      (''navigation_terminal_reconciled'', JBool reconciled)]"

definition in_mine_reach :: "break_context \<Rightarrow> point \<Rightarrow> position \<Rightarrow> bool" where
  "in_mine_reach context p pos \<longleftrightarrow> \<not> farther p (block_center pos) (mine_reach_limit context)"

text \<open>What the observed position after the navigation decides.\<close>

definition settle_approach ::
  "break_context \<Rightarrow> position \<Rightarrow> tool_result \<Rightarrow> body_state \<Rightarrow> (bool \<Rightarrow> json_object)
   \<Rightarrow> tool_result + json_object option" where
  "settle_approach context pos nav after metrics =
     (let near = in_mine_reach context (bs_pos after) pos;
          reconcilable = mining_approach_terminal_reconcilable nav
      in if \<not> bs_missing after \<and> near \<and> reconcilable then Inr (Some (metrics (\<not> tr_success nav)))
         else if \<not> tr_success nav \<or> \<not> reconcilable
         then Inl (fail_result (''mine_approach_failed:'' @ tr_reason nav) (tr_can_retry nav)
                (suggestion_or nav ''choose another target if this stand domain is exhausted'') (metrics False))
         else if \<not> near
         then Inl (fail_result ''mine_approach_out_of_range'' True
                ''rescan mining stands from the current world state before retrying'' (metrics False))
         else Inr (Some (metrics False)))"

definition approach_mining_target ::
  "'w body_port \<Rightarrow> position \<Rightarrow> break_context \<Rightarrow> string \<Rightarrow> rat \<Rightarrow> ('w, tool_result + json_object option) tx" where
  "approach_mining_target port pos context block_type timeout_s =
     tx_bind (get_state port) (\<lambda>state.
     if in_mine_reach context (bs_pos state) pos \<or> same_column (bs_pos state) pos then tx_return (Inr None)
     else case port_navigate port of
       None \<Rightarrow> tx_return (Inl (fail_result ''mine_approach_navigation_missing'' True
                 ''attach the shared navigation process before mining a distant target''
                 [(''target'', json_position pos)]))
     | Some nav \<Rightarrow>
         tx_bind (ranked_mining_stand_candidates port pos (bs_pos state)) (\<lambda>r. case r of
           Inl failed \<Rightarrow> tx_return (Inl failed)
         | Inr [] \<Rightarrow> tx_return (Inl (fail_result ''mine_approach_failed:no_stand_candidate'' True
                 ''choose another nearby target; no mining stand candidate was available''
                 [(''target'', json_position pos)]))
         | Inr candidates \<Rightarrow>
             (let goal = GoalComposite (map (\<lambda>c. GoalNear c 0) candidates) ''any''
              in tx_bind (navigate_to nav (AtGoal goal)
                   ((travel_options BC_COLLECT_APPROACH)\<lparr>no_max_break_steps := Some MINE_APPROACH_MAX_BREAK_STEPS,
                    no_segment_timeout_s := Some timeout_s\<rparr>)) (\<lambda>nav_result.
                 tx_bind (tx_lift (selected_mining_stand nav_result candidates)) (\<lambda>selected.
                 tx_bind (pause_for port mine_approach_settle_s) (\<lambda>_.
                 tx_bind (get_state port) (\<lambda>after.
                 tx_return (settle_approach context pos nav_result after
                   (approach_metrics port pos block_type candidates selected goal (bs_pos state) nav_result after)))))))))"

text \<open>A prepositioned call only checks that the block is still in reach.\<close>

definition check_prepositioned ::
  "'w body_port \<Rightarrow> position \<Rightarrow> break_context \<Rightarrow> string \<Rightarrow> ('w, tool_result + json_object option) tx" where
  "check_prepositioned port pos context block_type =
     tx_bind (get_state port) (\<lambda>state.
     tx_return
       (if \<not> in_mine_reach context (bs_pos state) pos \<and> \<not> same_column (bs_pos state) pos
        then Inl (fail_result ''mine_approach_out_of_range'' True
               ''replan the resource stand domain from fresh body and world facts''
               [(''target'', json_position pos), (''block_type'', JStr block_type),
                (''reach_distance'', reach_length port (bs_pos state) pos), (''prepositioned'', JBool True)])
        else Inr None))"

section \<open>Mining one block\<close>

definition mine_params :: "position \<Rightarrow> string \<Rightarrow> break_context \<Rightarrow> rat \<Rightarrow> legality_decision \<Rightarrow> json_object" where
  "mine_params pos block_type context timeout_s d =
     [(''target'', json_position pos), (''block_type'', JStr block_type),
      (''context'', JStr (break_context_value context)), (''timeout_ticks'', JInt (seconds_to_ticks timeout_s)),
      (''legality'', JDict (decision_payload d))]"

definition mined_metrics ::
  "position \<Rightarrow> string \<Rightarrow> legality_decision \<Rightarrow> json_object option \<Rightarrow> tool_result \<Rightarrow> tool_result" where
  "mined_metrics pos block_type d approach r =
     (let m = AList.update ''legality'' (JDict (decision_payload d))
                (set_default ''block_type'' (JStr block_type) (set_default ''target'' (json_position pos) (metrics_of r)))
      in r\<lparr>tr_metrics := Some (case approach of None \<Rightarrow> m | Some a \<Rightarrow> AList.update ''mine_approach'' (JDict a) m)\<rparr>)"

definition mine_block ::
  "'w body_port \<Rightarrow> position \<Rightarrow> break_context \<Rightarrow> rat \<Rightarrow> bool \<Rightarrow> bool \<Rightarrow> ('w, tool_result) tx" where
  "mine_block port pos context timeout_s approach explicit_target =
     tx_bind (perceive port ''blockAt'' (block_params pos)) (\<lambda>block.
     unless_failed (perception_failure block)
     (let block_type = type_or_unknown port block
      in tx_bind (judge_break port pos block_type context explicit_target) (\<lambda>decision.
         if \<not> ld_allowed decision then tx_return (denied_result ''break_denied'' pos block_type decision)
         else tx_bind (if approach then approach_mining_target port pos context block_type timeout_s
                       else check_prepositioned port pos context block_type) (\<lambda>approached.
         or_return approached (\<lambda>metrics.
         tx_bind (send_action port ''mineBlock'' (mine_params pos block_type context timeout_s decision) timeout_s)
           (\<lambda>(a, accepted).
         unless_failed (acceptance_failure accepted ''mineBlock'' pos)
         (tx_bind (await_result port a) (\<lambda>r.
          tx_return (mined_metrics pos block_type decision metrics r)))))))))"

section \<open>Placing one block\<close>

definition body_half_width :: rat where "body_half_width = 3/10"

definition body_height :: rat where "body_height = 9/5"

fun body_intersects_block :: "point \<Rightarrow> position \<Rightarrow> bool" where
  "body_intersects_block (px, py, pz) (x, y, z) \<longleftrightarrow>
     px + body_half_width > of_int x + micro \<and> px - body_half_width < of_int x + 1 - micro \<and>
     py + body_height > of_int y + micro \<and> py < of_int y + 1 - micro \<and>
     pz + body_half_width > of_int z + micro \<and> pz - body_half_width < of_int z + 1 - micro"

definition placement_collision :: "point \<Rightarrow> position \<Rightarrow> string \<Rightarrow> tool_result option" where
  "placement_collision body_pos target purpose =
     (if \<not> body_intersects_block body_pos target then None
      else (let feet = state_block_pos body_pos;
                head = head_of feet
            in Some (fail_result ''place_denied:body_collision'' True
                 ''move to a centered stand point that leaves the target outside the player's collision box''
                 [(''target'', json_position target), (''body_pos'', json_point body_pos),
                  (''body_feet'', json_position feet), (''body_head'', json_position head),
                  (''collision_part'', JStr (if target = head then ''head'' else if target = feet then ''feet'' else ''body_edge'')),
                  (''purpose'', JStr purpose)])))"

definition place_params ::
  "position \<Rightarrow> string \<Rightarrow> string option \<Rightarrow> place_context \<Rightarrow> string \<Rightarrow> bool \<Rightarrow> rat \<Rightarrow> legality_decision \<Rightarrow> json_object" where
  "place_params pos block_type face context purpose replacing timeout_s d =
     [(''target'', json_position pos), (''block_type'', JStr block_type),
      (''face'', JStr (case face of None \<Rightarrow> ''auto'' | Some f \<Rightarrow> if f = [] then ''auto'' else f)),
      (''context'', JStr (place_context_value context)), (''purpose'', JStr purpose),
      (''replace_liquid'', JBool replacing), (''timeout_ticks'', JInt (seconds_to_ticks timeout_s)),
      (''legality'', JDict (decision_payload d))]"

text \<open>The unintended placements that a missed target reports are recorded as the bot's own.\<close>

fun record_observed ::
  "'w body_port \<Rightarrow> position \<Rightarrow> string \<Rightarrow> string \<Rightarrow> json list \<Rightarrow> json list \<Rightarrow> ('w, json list) tx" where
  "record_observed port pos block_type purpose [] recorded = tx_return recorded"
| "record_observed port pos block_type purpose (raw # rest) recorded =
     tx_bind (tx_lift (json_ints3 raw)) (\<lambda>actual. case actual of
       None \<Rightarrow> record_observed port pos block_type purpose rest recorded
     | Some p \<Rightarrow>
         if p = pos then record_observed port pos block_type purpose rest recorded
         else tx_bind (record_placement port p block_type purpose) (\<lambda>_.
              record_observed port pos block_type purpose rest (recorded @ [json_position p])))"

definition observed_placements :: "json_object \<Rightarrow> py_exn + json list" where
  "observed_placements m =
     (let v = dget m ''observed_placements''
      in if \<not> truthy v then Inr []
         else case v of JList xs \<Rightarrow> Inr xs | JStr _ \<Rightarrow> Inr [] | JDict _ \<Rightarrow> Inr [] | _ \<Rightarrow> Inl TypeError)"

definition record_missed ::
  "'w body_port \<Rightarrow> position \<Rightarrow> string \<Rightarrow> string \<Rightarrow> tool_result \<Rightarrow> ('w, json_object) tx" where
  "record_missed port pos block_type purpose r =
     (if tr_reason r \<noteq> ''placement_target_missed'' then tx_return (metrics_of r)
      else tx_bind (tx_lift (observed_placements (metrics_of r))) (\<lambda>raws.
           tx_bind (record_observed port pos block_type purpose raws []) (\<lambda>recorded.
           tx_return (AList.update ''recorded_unintended_placements'' (JList recorded) (metrics_of r)))))"

definition placed_metrics :: "position \<Rightarrow> string \<Rightarrow> string \<Rightarrow> legality_decision \<Rightarrow> json_object \<Rightarrow> json_object" where
  "placed_metrics pos block_type target_type d m =
     AList.update ''legality'' (JDict (decision_payload d))
       (set_default ''block_before'' (JStr target_type)
         (set_default ''block_type'' (JStr block_type) (set_default ''target'' (json_position pos) m)))"

definition place_block ::
  "'w body_port \<Rightarrow> position \<Rightarrow> string \<Rightarrow> string option \<Rightarrow> place_context \<Rightarrow> string \<Rightarrow> bool \<Rightarrow> rat
   \<Rightarrow> ('w, tool_result) tx" where
  "place_block port pos block_type face context purpose allow_replace_liquid timeout_s =
     tx_bind (perceive port ''blockAt'' (block_params pos)) (\<lambda>target_block.
     unless_failed (perception_failure target_block)
     (let target_state = state_or_unknown port target_block;
          target_type = type_or_unknown port target_block;
          replacing_liquid = allow_replace_liquid \<and> is_liquid_perception port target_block
      in if target_state \<noteq> ''CLEAR'' \<and> \<not> replacing_liquid
         then tx_return (fail_result ''place_denied:target_occupied'' False
                ''choose an empty target position or mine the target first if governance allows it''
                [(''target'', json_position pos), (''block_type'', JStr block_type),
                 (''block_at_target'', JStr target_type), (''target_state'', JStr target_state)])
         else tx_bind (get_state port) (\<lambda>state.
         unless_failed (placement_collision (bs_pos state) pos purpose)
         (tx_bind (judge_place port pos block_type context) (\<lambda>decision.
          if \<not> ld_allowed decision then tx_return (denied_result ''place_denied'' pos block_type decision)
          else tx_bind (send_action port ''placeBlock''
                 (place_params pos block_type face context purpose replacing_liquid timeout_s decision) timeout_s)
               (\<lambda>(a, accepted).
          unless_failed (acceptance_failure accepted ''placeBlock'' pos)
          (tx_bind (await_result port a) (\<lambda>r.
           tx_bind (if tr_success r then record_placement port pos block_type purpose else tx_return ()) (\<lambda>_.
           tx_bind (record_missed port pos block_type purpose r) (\<lambda>m.
           tx_return (r\<lparr>tr_metrics := Some (placed_metrics pos block_type target_type decision m)\<rparr>)))))))))))"

section \<open>Selecting an item\<close>

text \<open>
  A selection that was answered but not accepted may still report its terminal; only when that
  does not come in time is it a rejection.
\<close>

definition select_rejection :: "string \<Rightarrow> result \<Rightarrow> ('w, tool_result) tx" where
  "select_rejection item r =
     (case body_rejection_to_tool_result r (Some
             [(''action'', JStr ''selectItem''), (''item'', JStr item), (''ok'', JBool (re_ok r)),
              (''accepted'', JBool (re_accepted r)), (''error'', json_opt (re_error r)), (''data'', JDict (re_data r))]) of
        Some failed \<Rightarrow> tx_return failed
      | None \<Rightarrow> tx_raise (PyRaised TypeError))"

definition dispatch_select_item :: "'w body_port \<Rightarrow> string \<Rightarrow> rat \<Rightarrow> ('w, tool_result) tx" where
  "dispatch_select_item port item timeout_s =
     tx_bind (send_action port ''selectItem'' [(''item'', JStr item)] timeout_s) (\<lambda>(a, accepted).
     if re_ok accepted \<and> re_accepted accepted then await_result port a
     else if re_ok accepted \<and> \<not> re_accepted accepted \<and> dget (re_data accepted) ''action'' = JStr ''selectItem''
     then tx_catch (await_result port a)
            (\<lambda>e. case e of TimedOut _ \<Rightarrow> Some (select_rejection item accepted) | _ \<Rightarrow> None)
     else select_rejection item accepted)"

end
