(* ===== verification/Pickup.thy ===== *)
theory Pickup
  imports Block_Actions
begin

text \<open>
  Picking up dropped items: \<open>minebot/body/pickup.py\<close>. The process polls the inventory, scans for item
  entities, walks to them or follows one, and gives up candidates that brought nothing. \<open>pages\<close>
  bounds the pages of an inventory read and the rounds of a poll. The profile of the navigator is
  the caller's, beside the fields that the code sets. A value without the attribute that the code
  asks of it is a \<open>TypeError\<close>.
\<close>

section \<open>Configuration and candidates\<close>

record pickup_config =
  pc_radius :: int
  pc_entity_limit :: int
  pc_max_goals :: nat
  pc_max_scan_rounds :: nat
  pc_candidate_budget :: int
  pc_max_wall_s :: rat
  pc_poll_timeout_s :: rat
  pc_segment_timeout_s :: rat
  pc_max_segments :: int
  pc_arrival_radius :: rat

definition default_pickup :: pickup_config where
  "default_pickup = \<lparr>pc_radius = 8, pc_entity_limit = 16, pc_max_goals = 16, pc_max_scan_rounds = 2, pc_candidate_budget = 5,
     pc_max_wall_s = 20, pc_poll_timeout_s = 3/2, pc_segment_timeout_s = 6, pc_max_segments = 3, pc_arrival_radius = 1/4\<rparr>"

record pickup_candidate =
  cd_key :: string
  cd_pos :: position
  cd_entity :: "string option"

definition normalize_item_name :: "string \<Rightarrow> string" where
  "normalize_item_name item = removeprefix ''minecraft:'' item"

definition json_counts :: "(string, int) pydict \<Rightarrow> json" where
  "json_counts counts = JDict (map (\<lambda>(k, n). (k, JInt n)) counts)"

definition count_of :: "(string, int) pydict \<Rightarrow> string \<Rightarrow> int" where
  "count_of counts item = (case map_of counts item of None \<Rightarrow> 0 | Some n \<Rightarrow> n)"

definition normalize_items :: "string list \<Rightarrow> string list" where
  "normalize_items items = dedupe (map normalize_item_name (filter (\<lambda>i. i \<noteq> []) items))"

fun keyed_position :: "string \<Rightarrow> position \<Rightarrow> string" where
  "keyed_position lead (x, y, z) = lead @ '':'' @ str_of_int x @ '':'' @ str_of_int y @ '':'' @ str_of_int z"

definition fallback_candidate :: "position \<Rightarrow> pickup_candidate" where
  "fallback_candidate pos = \<lparr>cd_key = keyed_position ''fallback'' pos, cd_pos = pos, cd_entity = None\<rparr>"

definition validate_pickup :: "pickup_config \<Rightarrow> int \<Rightarrow> tool_result option" where
  "validate_pickup cfg minimum =
     (let invalid = (\<lambda>reason. Some \<lparr>tr_success = False, tr_reason = reason, tr_can_retry = False,
            tr_next_suggestion = None, tr_metrics = None\<rparr>)
      in if minimum \<le> 0 then invalid ''invalid_pickup_count''
         else if pc_radius cfg < 1 \<or> pc_radius cfg > 32 then invalid ''invalid_pickup_radius''
         else if pc_entity_limit cfg < 1 \<or> pc_entity_limit cfg > 128 then invalid ''invalid_pickup_entity_limit''
         else if pc_max_goals cfg < 1 \<or> pc_max_goals cfg > 32 then invalid ''invalid_pickup_goal_limit''
         else if pc_max_scan_rounds cfg < 1 \<or> pc_candidate_budget cfg < 1 \<or> pc_max_segments cfg < 1
         then invalid ''invalid_pickup_budget''
         else if pc_max_wall_s cfg \<le> 0 \<or> pc_poll_timeout_s cfg < 0 \<or> pc_segment_timeout_s cfg \<le> 0
         then invalid ''invalid_pickup_timeout''
         else if pc_arrival_radius cfg \<le> 0 then invalid ''invalid_pickup_arrival_radius''
         else None)"

section \<open>What the process tells of itself\<close>

record pickup_assist =
  pa_waited :: bool
  pa_moved :: bool
  pa_scan_rounds :: int
  pa_attempts :: int
  pa_blacklist :: "string list"
  pa_plans :: "json list"
  pa_scans :: "json list"

definition new_assist :: pickup_assist where
  "new_assist = \<lparr>pa_waited = False, pa_moved = False, pa_scan_rounds = 0, pa_attempts = 0, pa_blacklist = [],
     pa_plans = [], pa_scans = []\<rparr>"

definition assist_payload :: "pickup_assist \<Rightarrow> json" where
  "assist_payload a = JDict (
     [(''waited'', JBool (pa_waited a)), (''moved'', JBool (pa_moved a)), (''scan_rounds'', JInt (pa_scan_rounds a)),
      (''candidate_attempts'', JInt (pa_attempts a)), (''candidate_blacklist'', json_list (pa_blacklist a) JStr),
      (''plans'', JList (pa_plans a))] @
     (if pa_scans a = [] then [] else [(''scans'', JList (pa_scans a))]))"

text \<open>What a pickup reports: the counts after it, or a failure, with the facts of the process.\<close>

record pickup_report =
  pk_assist :: json
  pk_after :: "(string, int) pydict"
  pk_deltas :: "(string, int) pydict"
  pk_collected_total :: int
  pk_reason :: string

type_synonym pickup_end = "(tool_result \<times> json) + pickup_report"

section \<open>Scanning\<close>

definition spaced :: "string \<Rightarrow> string" where
  "spaced s = map (\<lambda>c. if c = CHR ''_'' then CHR '' '' else c) s"

definition entity_matches_expected :: "'w body_port \<Rightarrow> json_object \<Rightarrow> string list \<Rightarrow> bool" where
  "entity_matches_expected port entity expected \<longleftrightarrow>
     (let raw = lower (strip (text_or port entity ''name'' []));
          name = spaced (removeprefix ''minecraft:'' raw)
      in raw = [] \<or> (\<exists>item\<in>set expected. name = lower (spaced item) \<or> sublist (lower (spaced item)) name))"

text \<open>The items of a value that \<open>len\<close> and \<open>for\<close> take.\<close>

fun json_items :: "json \<Rightarrow> py_exn + json list" where
  "json_items (JList xs) = Inr xs"
| "json_items (JStr s) = Inr (map (\<lambda>c. JStr [c]) s)"
| "json_items (JDict d) = Inr (map (\<lambda>(k, v). JStr k) d)"
| "json_items _ = Inl TypeError"

definition items_or_none :: "json_object \<Rightarrow> string \<Rightarrow> py_exn + json list" where
  "items_or_none d k = (if truthy (dget d k) then json_items (dget d k) else Inr [])"

definition nearest_coordinate :: "'w body_port \<Rightarrow> json \<Rightarrow> py_exn + int" where
  "nearest_coordinate port v =
     (case py_float (pf_float (port_platform port)) v of
        Inl e \<Rightarrow> Inl e
      | Inr (Fin q) \<Rightarrow> Inr \<lfloor>q + 1/2\<rfloor>
      | Inr NaN \<Rightarrow> Inl ValueError
      | Inr _ \<Rightarrow> Inl OverflowError)"

definition nearest_block_cell :: "'w body_port \<Rightarrow> json \<Rightarrow> json \<Rightarrow> json \<Rightarrow> py_exn + position" where
  "nearest_block_cell port a b c =
     (case nearest_coordinate port a of Inl e \<Rightarrow> Inl e | Inr x \<Rightarrow>
      case nearest_coordinate port b of Inl e \<Rightarrow> Inl e | Inr y \<Rightarrow>
      case nearest_coordinate port c of Inl e \<Rightarrow> Inl e | Inr z \<Rightarrow> Inr (x, y, z))"

definition entity_candidate :: "'w body_port \<Rightarrow> json_object \<Rightarrow> position \<Rightarrow> pickup_candidate" where
  "entity_candidate port entity pos =
     (let i = text_or port entity ''id'' []
      in \<lparr>cd_key = (if i = [] then keyed_position ''pos'' pos else ''entity:'' @ i), cd_pos = pos,
          cd_entity = (if i = [] then None else Some i)\<rparr>)"

fun scan_entities ::
  "'w body_port \<Rightarrow> string list \<Rightarrow> json list \<Rightarrow> pickup_candidate list \<Rightarrow> int \<Rightarrow> py_exn + pickup_candidate list \<times> int" where
  "scan_entities port expected [] found filtered = Inr (found, filtered)"
| "scan_entities port expected (JDict entity # rest) found filtered =
     (if text_or port entity ''type'' [] \<notin> {''item'', ''minecraft:item''} then scan_entities port expected rest found filtered
      else if expected \<noteq> [] \<and> \<not> entity_matches_expected port entity expected
      then scan_entities port expected rest found (filtered + 1)
      else (case items_or_none entity ''pos'' of
              Inl e \<Rightarrow> Inl e
            | Inr [a, b, c] \<Rightarrow>
                (case nearest_block_cell port a b c of
                   Inl e \<Rightarrow> Inl e
                 | Inr pos \<Rightarrow> scan_entities port expected rest (found @ [entity_candidate port entity pos]) filtered)
            | Inr _ \<Rightarrow> scan_entities port expected rest found filtered))"
| "scan_entities port expected (_ # rest) found filtered = Inl TypeError"

definition candidate_payload :: "pickup_candidate \<Rightarrow> json" where
  "candidate_payload c = JDict [(''key'', JStr (cd_key c)), (''entity_id'', json_opt (cd_entity c)), (''pos'', json_position (cd_pos c))]"

definition scan_candidates ::
  "'w body_port \<Rightarrow> pickup_config \<Rightarrow> string list \<Rightarrow> ('w, pickup_candidate list \<times> perception_result \<times> json_object) tx" where
  "scan_candidates port cfg expected =
     tx_bind (perceive port ''nearbyEntities''
       [(''radius'', JInt (pc_radius cfg)), (''limit'', JInt (pc_entity_limit cfg)), (''types'', JList [JStr ''item''])]) (\<lambda>p.
     (let metrics = [(''ok'', JBool (pr_ok p)), (''complete'', JBool (pr_complete p)), (''error'', json_opt (pr_error p)),
            (''uncertainty'', json_uncertainty (pr_uncertainty p))]
      in if \<not> pr_ok p then tx_return ([], p, metrics)
         else tx_bind (tx_lift (items_or_none (pr_data p) ''entities'')) (\<lambda>entities.
              tx_bind (tx_lift (scan_entities port expected entities [] 0)) (\<lambda>(found, filtered).
              tx_return (found, p, metrics @
                [(''candidate_count'', json_int_nat (length found)), (''filtered_count'', JInt filtered),
                 (''candidates'', json_list found candidate_payload)])))))"

definition single_trackable_candidate :: "pickup_candidate list \<Rightarrow> pickup_candidate option" where
  "single_trackable_candidate cs =
     (case filter (\<lambda>c. cd_entity c \<noteq> None) cs of [c] \<Rightarrow> Some c | _ \<Rightarrow> None)"

text \<open>Following the one entity that can be followed, where the navigator can follow.\<close>

definition track_candidate ::
  "'w body_port \<Rightarrow> pickup_candidate option \<Rightarrow> pickup_config \<Rightarrow> ('w, tool_result option) tx" where
  "track_candidate port tracked cfg =
     (case (Option.bind tracked cd_entity, port_follow port) of
        (Some i, Some follow) \<Rightarrow>
          tx_bind (follow_entity follow i (max (3/4) (min (5/4) (pc_arrival_radius cfg + 1)))
              (min (pc_segment_timeout_s cfg) (max 1 (pc_poll_timeout_s cfg + 1)))) (\<lambda>r. tx_return (Some r))
      | _ \<Rightarrow> tx_return None)"

section \<open>Polling the inventory\<close>

type_synonym pickup_reading = "(string, int) pydict \<times> (string, int) pydict \<times> int"

definition gained_items :: "(string, int) pydict \<Rightarrow> string list \<Rightarrow> (string, int) pydict \<Rightarrow> pickup_reading" where
  "gained_items before_counts expected after_counts =
     (let items = (if expected \<noteq> [] then expected else sort (dedupe (map fst before_counts @ map fst after_counts)));
          deltas = map (\<lambda>i. (i, count_of after_counts i - count_of before_counts i)) items
      in (after_counts, deltas, sum_list (map (\<lambda>(i, n). max 0 n) deltas)))"

definition read_delta ::
  "'w body_port \<Rightarrow> nat \<Rightarrow> (string, int) pydict \<Rightarrow> string list \<Rightarrow> ('w, tool_result + pickup_reading) tx" where
  "read_delta port pages before_counts expected =
     tx_bind (read_inventory_counts port pages None) (\<lambda>r. tx_return (map_sum id (gained_items before_counts expected) r))"

definition poll_pause_s :: rat where "poll_pause_s = 1/10"

fun poll_rounds ::
  "'w body_port \<Rightarrow> nat \<Rightarrow> (string, int) pydict \<Rightarrow> string list \<Rightarrow> rat \<Rightarrow> nat \<Rightarrow> pickup_reading
   \<Rightarrow> ('w, tool_result + pickup_reading) tx" where
  "poll_rounds port pages before_counts expected deadline 0 reading = tx_raise OutOfFuel"
| "poll_rounds port pages before_counts expected deadline (Suc polls) reading =
     tx_bind (tx_read (port_monotonic port)) (\<lambda>now.
     if now < deadline
     then tx_bind (tx_read (port_monotonic port)) (\<lambda>now'.
          tx_bind (pause_for port (min poll_pause_s (max 0 (deadline - now')))) (\<lambda>_.
          tx_bind (read_delta port pages before_counts expected) (\<lambda>r. case r of
            Inl failed \<Rightarrow> tx_return (Inl failed)
          | Inr reading' \<Rightarrow>
              if snd (snd reading') > 0 then tx_return (Inr reading')
              else poll_rounds port pages before_counts expected deadline polls reading')))
     else tx_return (Inr reading))"

definition poll_inventory_delta ::
  "'w body_port \<Rightarrow> nat \<Rightarrow> (string, int) pydict \<Rightarrow> string list \<Rightarrow> rat \<Rightarrow> pickup_assist
   \<Rightarrow> ('w, (tool_result + pickup_reading) \<times> pickup_assist) tx" where
  "poll_inventory_delta port pages before_counts expected window_s assist =
     tx_bind (read_delta port pages before_counts expected) (\<lambda>r. case r of
       Inl failed \<Rightarrow> tx_return (Inl failed, assist)
     | Inr reading \<Rightarrow>
         if snd (snd reading) > 0 \<or> window_s \<le> 0 then tx_return (Inr reading, assist)
         else tx_bind (tx_read (port_monotonic port)) (\<lambda>now.
              tx_bind (poll_rounds port pages before_counts expected (now + window_s) pages reading) (\<lambda>r'.
              tx_return (r', assist\<lparr>pa_waited := True\<rparr>))))"

section \<open>Attempts\<close>

text \<open>What a round knows: the latest reading and the candidates that brought nothing where they were.\<close>

record pickup_state =
  ps_reading :: pickup_reading
  ps_blacklist :: "string list"
  ps_tried :: "(string, position) pydict"
  ps_dynamic :: "pickup_candidate list"
  ps_assist :: pickup_assist

abbreviation ps_total :: "pickup_state \<Rightarrow> int" where "ps_total st \<equiv> snd (snd (ps_reading st))"

definition pickup_outcome :: "pickup_state \<Rightarrow> string \<Rightarrow> pickup_end" where
  "pickup_outcome st reason = Inr \<lparr>pk_assist = assist_payload (ps_assist st), pk_after = fst (ps_reading st),
     pk_deltas = fst (snd (ps_reading st)), pk_collected_total = ps_total st, pk_reason = reason\<rparr>"

definition pickup_failure :: "pickup_state \<Rightarrow> string \<Rightarrow> string option \<Rightarrow> json_object \<Rightarrow> pickup_end" where
  "pickup_failure st reason suggestion facts =
     Inl (\<lparr>tr_success = False, tr_reason = reason, tr_can_retry = True, tr_next_suggestion = suggestion,
           tr_metrics = Some ((''pickup_process'', assist_payload (ps_assist st)) # facts)\<rparr>, assist_payload (ps_assist st))"

definition PICKUP_INTERRUPTIONS :: "string set" where
  "PICKUP_INTERRUPTIONS = {''preempted'', ''body_missing'', ''death'', ''respawned'', ''progress_yielded''}"

fun pickup_neighbor_positions :: "position \<Rightarrow> position list" where
  "pickup_neighbor_positions (x, y, z) =
     [(x, y + 1, z), (x - 1, y, z - 1), (x + 1, y, z - 1), (x - 1, y, z + 1), (x + 1, y, z + 1), (x - 1, y, z),
      (x + 1, y, z), (x, y, z - 1), (x, y, z + 1), (x, y - 1, z)]"

definition append_fallback_neighbors :: "pickup_candidate list \<Rightarrow> pickup_candidate list \<Rightarrow> pickup_candidate list" where
  "append_fallback_neighbors fallback cs =
     fold (\<lambda>c fb. fold (\<lambda>pos fb. if \<exists>e\<in>set fb. cd_key e = keyed_position ''fallback'' pos then fb
                                else fb @ [fallback_candidate pos]) (pickup_neighbor_positions (cd_pos c)) fb) cs fallback"

definition untried :: "pickup_state \<Rightarrow> pickup_candidate \<Rightarrow> bool" where
  "untried st c \<longleftrightarrow> cd_key c \<notin> set (ps_blacklist st) \<or> map_of (ps_tried st) (cd_key c) \<noteq> Some (cd_pos c)"

definition unique_candidates :: "pickup_candidate list \<Rightarrow> pickup_candidate list" where
  "unique_candidates cs =
     fold (\<lambda>c found. if \<exists>e\<in>set found. cd_key e = cd_key c then found else found @ [c]) cs []"

definition round_candidates ::
  "pickup_config \<Rightarrow> pickup_state \<Rightarrow> pickup_candidate list \<Rightarrow> pickup_candidate list \<Rightarrow> pickup_candidate list" where
  "round_candidates cfg st scanned fallback =
     (let fresh = filter (untried st) scanned;
          near = filter (untried st) (ps_dynamic st)
      in take (pc_max_goals cfg) (unique_candidates
           (if ps_blacklist st \<noteq> [] \<and> (fresh \<noteq> [] \<or> near \<noteq> []) then fresh @ near
            else if fresh \<noteq> [] then fresh else filter (untried st) fallback)))"

text \<open>An attempt that brought nothing: its candidates are given up where they are.\<close>

definition give_up :: "pickup_candidate list \<Rightarrow> pickup_state \<Rightarrow> pickup_state" where
  "give_up cs st =
     (let blacklist = dedupe (ps_blacklist st @ map cd_key cs)
      in st\<lparr>ps_blacklist := blacklist,
            ps_tried := fold (\<lambda>c. AList.update (cd_key c) (cd_pos c)) cs (ps_tried st),
            ps_dynamic := append_fallback_neighbors (ps_dynamic st) cs,
            ps_assist := (ps_assist st)\<lparr>pa_blacklist := sort blacklist\<rparr>\<rparr>)"

definition start_afresh :: "pickup_state \<Rightarrow> pickup_state" where
  "start_afresh st = st\<lparr>ps_blacklist := [], ps_tried := [], ps_dynamic := []\<rparr>"

definition note_attempt :: "json \<Rightarrow> pickup_state \<Rightarrow> pickup_state" where
  "note_attempt attempt st =
     (let a = ps_assist st
      in st\<lparr>ps_assist := a\<lparr>pa_plans := pa_plans a @ [attempt], pa_moved := True, pa_attempts := pa_attempts a + 1\<rparr>\<rparr>)"

text \<open>
  The poll after an attempt for \<open>cs\<close>, which ends the pickup or goes on with the next round.
  \<open>interrupted\<close> is the failure of an attempt that was interrupted.
\<close>

definition after_attempt ::
  "'w body_port \<Rightarrow> nat \<Rightarrow> pickup_config \<Rightarrow> (string, int) pydict \<Rightarrow> string list \<Rightarrow> int \<Rightarrow> pickup_candidate list
   \<Rightarrow> (pickup_state \<Rightarrow> pickup_end option) \<Rightarrow> pickup_state \<Rightarrow> ('w, pickup_end + pickup_state) tx" where
  "after_attempt port pages cfg before_counts expected minimum cs interrupted st =
     tx_bind (poll_inventory_delta port pages before_counts expected (pc_poll_timeout_s cfg) (ps_assist st)) (\<lambda>(r, assist).
     tx_return (case r of
       Inl failed \<Rightarrow> Inl (Inl (failed, assist_payload assist))
     | Inr reading \<Rightarrow>
         (let st' = st\<lparr>ps_reading := reading, ps_assist := assist\<rparr>
          in if ps_total st' \<ge> minimum then Inl (pickup_outcome st' ''pickup_collected'')
             else if ps_total st' > ps_total st then Inr (start_afresh st')
             else (case interrupted st' of
                     Some ended \<Rightarrow> Inl ended
                   | None \<Rightarrow>
                       (let st'' = give_up cs st'
                        in if pa_attempts (ps_assist st'') \<ge> pc_candidate_budget cfg
                           then Inl (pickup_outcome st'' ''pickup_budget_exhausted'') else Inr st'')))))"

definition attempt_tracked ::
  "'w body_port \<Rightarrow> nat \<Rightarrow> pickup_config \<Rightarrow> (string, int) pydict \<Rightarrow> string list \<Rightarrow> int \<Rightarrow> pickup_state
   \<Rightarrow> pickup_candidate \<Rightarrow> tool_result \<Rightarrow> ('w, pickup_end + pickup_state) tx" where
  "attempt_tracked port pages cfg before_counts expected minimum st c tracking =
     after_attempt port pages cfg before_counts expected minimum [c]
       (\<lambda>st'. if tr_reason tracking \<in> PICKUP_INTERRUPTIONS
              then Some (pickup_failure st' (''pickup_navigation_'' @ tr_reason tracking) None
                     [(''tracking'', JDict (tool_result_payload tracking))])
              else None)
       (note_attempt (JDict
          [(''mode'', JStr ''follow_entity''), (''goal_set'', JList [json_position (cd_pos c)]),
           (''selected_goal'', json_position (cd_pos c)), (''selected_keys'', JList [JStr (cd_key c)]),
           (''tracking'', JDict (tool_result_payload tracking))]) st)"

definition pickup_route :: "pickup_config \<Rightarrow> nav_options" where
  "pickup_route cfg = (travel_options BC_TRAVEL)\<lparr>no_segment_timeout_s := Some (pc_segment_timeout_s cfg),
     no_max_segments := Some (pc_max_segments cfg), no_pure_movement := True,
     no_arrival_radius := Some (pc_arrival_radius cfg)\<rparr>"

text \<open>A navigation to the candidates, which gives them up, ends the pickup, or is followed by a poll.\<close>

definition attempt_route ::
  "'w body_port \<Rightarrow> (goal_like \<Rightarrow> nav_options \<Rightarrow> ('w \<times> governance_policy, tool_result) world_call) \<Rightarrow> nat \<Rightarrow> pickup_config
   \<Rightarrow> (string, int) pydict \<Rightarrow> string list \<Rightarrow> int \<Rightarrow> pickup_state \<Rightarrow> pickup_candidate list
   \<Rightarrow> ('w, pickup_end + pickup_state) tx" where
  "attempt_route port nav pages cfg before_counts expected minimum st cs =
     (let goals = map cd_pos cs
      in tx_bind (navigate_to nav (AtGoal (GoalComposite (map (\<lambda>pos. GoalNear pos 0) goals) ''any'')) (pickup_route cfg)) (\<lambda>r.
         tx_bind (tx_lift (selected_mining_stand r goals)) (\<lambda>selected.
         (let chosen = filter (\<lambda>c. cd_pos c = selected) cs;
              st' = note_attempt (JDict
                 [(''goal_set'', json_list goals json_position), (''selected_goal'', json_position selected),
                  (''selected_keys'', json_list (map cd_key chosen) JStr), (''navigation'', JDict (tool_result_payload r))]) st
          in if tr_success r
             then after_attempt port pages cfg before_counts expected minimum chosen (\<lambda>_. None) st'
             else tx_return
               (if tr_reason r \<in> PICKUP_INTERRUPTIONS
                then Inl (pickup_failure st' (''pickup_navigation_'' @ tr_reason r) None
                       [(''navigation'', JDict (tool_result_payload r))])
                else if chosen = [] \<or> pa_attempts (ps_assist st') \<ge> pc_candidate_budget cfg
                then Inl (pickup_outcome st' (''pickup_navigation_'' @ tr_reason r))
                else Inr (give_up chosen st'))))))"

section \<open>The process\<close>

definition exhausted_reason :: "pickup_state \<Rightarrow> string" where
  "exhausted_reason st =
     (if ps_total st > 0 then ''pickup_partial_candidate_exhausted'' else ''pickup_candidate_domain_exhausted'')"

text \<open>One round after its scan.\<close>

definition pickup_scanned ::
  "'w body_port \<Rightarrow> (goal_like \<Rightarrow> nav_options \<Rightarrow> ('w \<times> governance_policy, tool_result) world_call) \<Rightarrow> nat \<Rightarrow> pickup_config
   \<Rightarrow> (string, int) pydict \<Rightarrow> string list \<Rightarrow> int \<Rightarrow> pickup_candidate list \<Rightarrow> pickup_candidate list \<Rightarrow> perception_result
   \<Rightarrow> json_object \<Rightarrow> pickup_state \<Rightarrow> ('w, pickup_end + pickup_state) tx" where
  "pickup_scanned port nav pages cfg before_counts expected minimum fallback scanned p metrics st =
     (if scanned = [] \<and> fallback = [] \<and> \<not> pr_ok p
      then tx_return (Inl (pickup_failure st ''pickup_perception_failed''
             (Some ''retry the dropped-item scan before selecting a pickup route'') [(''perception'', JDict metrics)]))
      else if scanned = [] \<and> fallback = [] \<and> \<not> pr_complete p
      then tx_return (Inl (pickup_outcome st ''pickup_candidate_domain_incomplete''))
      else if round_candidates cfg st scanned fallback = []
      then tx_return (Inl (pickup_outcome st (exhausted_reason st)))
      else (let tracked = single_trackable_candidate (filter (untried st) scanned)
            in tx_bind (track_candidate port tracked cfg) (\<lambda>tracking.
               case (tracking, tracked) of
                 (Some r, Some c) \<Rightarrow> attempt_tracked port pages cfg before_counts expected minimum st c r
               | _ \<Rightarrow> attempt_route port nav pages cfg before_counts expected minimum st
                        (round_candidates cfg st scanned fallback))))"

definition note_scan :: "int \<Rightarrow> pickup_state \<Rightarrow> pickup_candidate list \<Rightarrow> json_object \<Rightarrow> pickup_state" where
  "note_scan scan_round st scanned metrics =
     (let a = ps_assist st
      in st\<lparr>ps_assist := a\<lparr>pa_scan_rounds := scan_round + 1, pa_scans := pa_scans a @ [JDict metrics]\<rparr>,
            ps_dynamic := (if ps_blacklist st \<noteq> [] then append_fallback_neighbors (ps_dynamic st) scanned
                           else ps_dynamic st)\<rparr>)"

fun pickup_rounds ::
  "'w body_port \<Rightarrow> (goal_like \<Rightarrow> nav_options \<Rightarrow> ('w \<times> governance_policy, tool_result) world_call) \<Rightarrow> nat \<Rightarrow> pickup_config
   \<Rightarrow> (string, int) pydict \<Rightarrow> string list \<Rightarrow> int \<Rightarrow> pickup_candidate list \<Rightarrow> rat \<Rightarrow> nat \<Rightarrow> int \<Rightarrow> pickup_state
   \<Rightarrow> ('w, pickup_end) tx" where
  "pickup_rounds port nav pages cfg before_counts expected minimum fallback started 0 scan_round st =
     tx_return (pickup_outcome st (exhausted_reason st))"
| "pickup_rounds port nav pages cfg before_counts expected minimum fallback started (Suc rounds) scan_round st =
     tx_bind (tx_read (port_monotonic port)) (\<lambda>now.
     if now - started \<ge> pc_max_wall_s cfg then tx_return (pickup_outcome st ''pickup_budget_exhausted'')
     else tx_bind (scan_candidates port cfg expected) (\<lambda>(scanned, p, metrics).
          tx_bind (pickup_scanned port nav pages cfg before_counts expected minimum fallback scanned p metrics
                     (note_scan scan_round st scanned metrics)) (\<lambda>r. case r of
            Inl ended \<Rightarrow> tx_return ended
          | Inr st' \<Rightarrow> pickup_rounds port nav pages cfg before_counts expected minimum fallback started rounds (scan_round + 1) st')))"

definition collect_inventory_delta ::
  "'w body_port \<Rightarrow> nat \<Rightarrow> pickup_config \<Rightarrow> (string, int) pydict \<Rightarrow> string list \<Rightarrow> int \<Rightarrow> position list
   \<Rightarrow> ('w, pickup_end) tx" where
  "collect_inventory_delta port pages cfg before_counts expected minimum fallback_positions =
     (let items = normalize_items expected
      in tx_bind (tx_read (port_monotonic port)) (\<lambda>started.
         tx_bind (poll_inventory_delta port pages before_counts items (pc_poll_timeout_s cfg) new_assist) (\<lambda>(r, assist). case r of
           Inl failed \<Rightarrow> tx_return (Inl (failed, assist_payload assist))
         | Inr reading \<Rightarrow>
             (let st = \<lparr>ps_reading = reading, ps_blacklist = [], ps_tried = [], ps_dynamic = [], ps_assist = assist\<rparr>
              in if ps_total st \<ge> minimum then tx_return (pickup_outcome st ''pickup_collected'')
                 else (case port_navigate port of
                         None \<Rightarrow> tx_return (pickup_outcome st ''pickup_navigation_unavailable'')
                       | Some nav \<Rightarrow>
                           pickup_rounds port nav pages cfg before_counts items minimum
                             (map fallback_candidate (dedupe fallback_positions)) started (pc_max_scan_rounds cfg) 0 st)))))"

definition picked_up :: "string list \<Rightarrow> int \<Rightarrow> (string, int) pydict \<Rightarrow> pickup_report \<Rightarrow> tool_result" where
  "picked_up expected minimum before_counts report =
     (let success = pk_collected_total report \<ge> minimum
      in \<lparr>tr_success = success,
          tr_reason = (if success then ''pickup_collected''
             else if pk_reason report = [] then ''pickup_candidate_domain_exhausted'' else pk_reason report),
          tr_can_retry = \<not> success,
          tr_next_suggestion = (if success then None
             else Some ''rescan after dropped items move or choose another nearby item domain''),
          tr_metrics = Some
            [(''expected_items'', json_list (normalize_items expected) JStr), (''minimum_count'', JInt minimum),
             (''before'', json_counts before_counts), (''after'', json_counts (pk_after report)),
             (''deltas'', json_counts (pk_deltas report)), (''collected_total'', JInt (pk_collected_total report)),
             (''pickup_process'', pk_assist report)]\<rparr>)"

definition pickup_items ::
  "'w body_port \<Rightarrow> nat \<Rightarrow> pickup_config \<Rightarrow> string list \<Rightarrow> int \<Rightarrow> ('w, tool_result) tx" where
  "pickup_items port pages cfg expected minimum =
     unless_failed (validate_pickup cfg minimum)
     (tx_bind (read_inventory_counts port pages None) (\<lambda>r. or_return r (\<lambda>before_counts.
      tx_bind (collect_inventory_delta port pages cfg before_counts expected minimum []) (\<lambda>ended.
      tx_return (case ended of
        Inl (failed, assist) \<Rightarrow> failed
      | Inr report \<Rightarrow> picked_up expected minimum before_counts report)))))"

end
