(* ===== verification/Dry_Mining.thy ===== *)
theory Dry_Mining
  imports Pickup
begin

text \<open>
  Mining an ore that may touch a liquid, and collecting what it drops: \<open>mine_block_dry\<close>,
  \<open>mine_block_collect\<close> and their parts in \<open>minebot/body/block_work.py\<close>. The pages an inventory read
  may take, and the rounds of the poll of a pickup, are bounded by the argument \<open>pages\<close>.
\<close>

section \<open>Liquid around a block\<close>

definition LIQUID_CONTACT_OFFSETS :: "position list" where
  "LIQUID_CONTACT_OFFSETS = [(0, 0, 0), (0, 1, 0), (0, -1, 0), (1, 0, 0), (-1, 0, 0), (0, 0, 1), (0, 0, -1)]"

definition SEAL_FACE_OFFSETS :: "position list" where
  "SEAL_FACE_OFFSETS = [(1, 0, 0), (-1, 0, 0), (0, 1, 0), (0, -1, 0), (0, 0, 1), (0, 0, -1)]"

definition MAX_SEAL_FACES :: nat where "MAX_SEAL_FACES = 2"

definition scan_failed :: "string \<Rightarrow> tool_result" where
  "scan_failed text = fail_result ''perception_failed'' True ''re-perceive the target block before mutating the world''
     [(''scope'', JStr ''blockCells''), (''ok'', JBool False), (''complete'', JBool False), (''error'', JStr text),
      (''uncertainty'', JNull)]"

definition scan_liquid_offsets ::
  "'w body_port \<Rightarrow> position \<Rightarrow> position list \<Rightarrow> ('w, tool_result + position list) tx" where
  "scan_liquid_offsets port pos offsets =
     (let cells = map (offset_pos pos) offsets
      in tx_bind (facts_or_error port False cells) (\<lambda>r. tx_return (case r of
           Inl text \<Rightarrow> Inl (scan_failed text)
         | Inr facts \<Rightarrow> Inr (filter (\<lambda>c. case map_of facts c of None \<Rightarrow> False | Some p \<Rightarrow> is_liquid_perception port p) cells))))"

definition liquid_contact_positions :: "'w body_port \<Rightarrow> position \<Rightarrow> ('w, tool_result + position list) tx" where
  "liquid_contact_positions port pos = scan_liquid_offsets port pos LIQUID_CONTACT_OFFSETS"

definition liquid_face_positions :: "'w body_port \<Rightarrow> position \<Rightarrow> ('w, tool_result + position list) tx" where
  "liquid_face_positions port pos = scan_liquid_offsets port pos SEAL_FACE_OFFSETS"

text \<open>\<open>"ore" in block_type.removeprefix("minecraft:").split("/")[-1]\<close>\<close>

definition is_ore_block :: "string \<Rightarrow> bool" where
  "is_ore_block block_type \<longleftrightarrow>
     sublist ''ore'' (rev (takeWhile (\<lambda>c. c \<noteq> CHR ''/'') (rev (removeprefix ''minecraft:'' block_type))))"

section \<open>Sealing\<close>

definition approach_seal_face :: "'w body_port \<Rightarrow> position \<Rightarrow> ('w, tool_result option) tx" where
  "approach_seal_face port pos =
     (case port_navigate port of
        None \<Rightarrow> tx_return (Some (fail_result ''dry_mining_seal_approach_runtime_missing'' True
                  ''attach a Body navigation transaction before sealing a liquid face'' [(''target'', json_position pos)]))
      | Some nav \<Rightarrow>
          tx_bind (navigate_to nav (AtPosition pos)
              (travel_options BC_TRAVEL)) (\<lambda>r.
          tx_return (if tr_success r then None
            else Some \<lparr>tr_success = False, tr_reason = ''dry_mining_seal_approach_failed'', tr_can_retry = tr_can_retry r,
                   tr_next_suggestion = tr_next_suggestion r,
                   tr_metrics = Some [(''target'', json_position pos), (''navigation'', JDict (tool_result_payload r))]\<rparr>)))"

definition seal_attempt :: "string \<Rightarrow> tool_result \<Rightarrow> json" where
  "seal_attempt block_type r = JDict [(''block_type'', JStr block_type), (''success'', JBool (tr_success r)),
     (''reason'', JStr (tr_reason r)), (''can_retry'', JBool (tr_can_retry r))]"

fun try_seal_blocks :: "'w body_port \<Rightarrow> position \<Rightarrow> rat \<Rightarrow> string list \<Rightarrow> json list \<Rightarrow> ('w, tool_result) tx" where
  "try_seal_blocks port pos timeout_s [] attempts =
     tx_return (fail_result ''dry_mining_seal_failed'' True
       ''verify the bot has a usable seal block and can place into the liquid face''
       [(''target'', json_position pos), (''seal_attempts'', JList attempts)])"
| "try_seal_blocks port pos timeout_s (block_type # rest) attempts =
     tx_bind (place_block port pos block_type None PC_WORK ''seal'' True timeout_s) (\<lambda>r.
     if tr_success r then tx_return r
     else if \<not> tr_can_retry r \<and> \<not> prefix ''body_rejected'' (tr_reason r)
     then tx_return (with_metric r ''seal_attempts'' (JList (attempts @ [seal_attempt block_type r])))
     else try_seal_blocks port pos timeout_s rest (attempts @ [seal_attempt block_type r]))"

definition place_first_available_seal_block ::
  "'w body_port \<Rightarrow> position \<Rightarrow> string list \<Rightarrow> rat \<Rightarrow> ('w, tool_result) tx" where
  "place_first_available_seal_block port pos seal_blocks timeout_s = try_seal_blocks port pos timeout_s seal_blocks []"

record dry_options =
  do_seal_blocks :: "string list"
  do_require_seal_inventory :: bool
  do_approach_seal_faces :: bool
  do_seal_approach_range :: int
  do_max_seal_faces :: nat
  do_settle_s :: rat
  do_timeout_s :: rat
  do_prepositioned :: bool
  do_explicit_target :: bool

definition target_metrics :: "position \<Rightarrow> string \<Rightarrow> json_object" where
  "target_metrics pos block_type = [(''target'', json_position pos), (''block_type'', JStr block_type)]"

fun seal_faces ::
  "'w body_port \<Rightarrow> position \<Rightarrow> string \<Rightarrow> dry_options \<Rightarrow> string list \<Rightarrow> position list \<Rightarrow> json list
   \<Rightarrow> ('w, tool_result + json list) tx" where
  "seal_faces port pos block_type opts candidates [] sealed = tx_return (Inr sealed)"
| "seal_faces port pos block_type opts candidates (face # faces) sealed =
     tx_bind (if do_approach_seal_faces opts then approach_seal_face port face else tx_return None) (\<lambda>approached.
     case approached of
       Some failed \<Rightarrow> tx_return (Inl (with_metric failed ''dry_mining'' (JDict (target_metrics pos block_type @
         [(''failed_face'', json_position face), (''sealed_faces'', JList sealed),
          (''seal_approach_range'', JInt (do_seal_approach_range opts))]))))
     | None \<Rightarrow>
         tx_bind (place_first_available_seal_block port face candidates (do_timeout_s opts)) (\<lambda>placed.
         if \<not> tr_success placed
         then tx_return (Inl (with_metric placed ''dry_mining'' (JDict (target_metrics pos block_type @
                [(''failed_face'', json_position face), (''sealed_faces'', JList sealed)]))))
         else tx_bind (pause_for port (do_settle_s opts)) (\<lambda>_.
              seal_faces port pos block_type opts candidates faces
                (sealed @ [JDict [(''pos'', json_position face), (''block_type'', dget (metrics_of placed) ''block_type'')]]))))"

text \<open>The seal blocks to use: those in the inventory, when it is asked for.\<close>

definition seal_candidates ::
  "'w body_port \<Rightarrow> nat \<Rightarrow> position \<Rightarrow> string \<Rightarrow> position list \<Rightarrow> dry_options
   \<Rightarrow> ('w, tool_result + string list \<times> (string, int) pydict option) tx" where
  "seal_candidates port pages pos block_type faces opts =
     (if \<not> do_require_seal_inventory opts then tx_return (Inr (do_seal_blocks opts, None))
      else tx_bind (read_inventory_slots port pages None) (\<lambda>inventory.
      case perception_failure inventory of
        Some failed \<Rightarrow> tx_return (Inl (with_metric failed ''dry_mining'' (JDict (target_metrics pos block_type @
          [(''liquid_faces'', json_list faces json_position)]))))
      | None \<Rightarrow>
          tx_bind (tx_lift (perceived_slots inventory)) (\<lambda>slots.
          (let counts = counts_of port slots;
               usable = filter (\<lambda>b. count_of counts (normalize_item_name b) > 0) (do_seal_blocks opts)
           in tx_return (if usable = []
                then Inl (fail_result ''dry_mining_no_seal_blocks_available'' False
                  ''put a temporary seal block in inventory before mining this liquid-adjacent ore''
                  (target_metrics pos block_type @
                   [(''liquid_faces'', json_list faces json_position),
                    (''requested_seal_blocks'', json_list (do_seal_blocks opts) JStr),
                    (''inventory_counts'', json_counts counts)]))
                else Inr (usable, Some counts))))))"

section \<open>Dry mining\<close>

definition mine_sealed ::
  "'w body_port \<Rightarrow> nat \<Rightarrow> position \<Rightarrow> break_context \<Rightarrow> string \<Rightarrow> dry_options \<Rightarrow> position list \<Rightarrow> ('w, tool_result) tx" where
  "mine_sealed port pages pos context block_type opts faces =
     tx_bind (seal_candidates port pages pos block_type faces opts) (\<lambda>r. or_return r (\<lambda>(candidates, counts).
     tx_bind (seal_faces port pos block_type opts candidates faces []) (\<lambda>r. or_return r (\<lambda>sealed.
     tx_bind (liquid_contact_positions port pos) (\<lambda>r. or_return r (\<lambda>remaining.
     if remaining \<noteq> []
     then tx_return (fail_result ''dry_mining_still_liquid_adjacent'' True
            ''re-scan the pocket or choose a different target; the seal did not make the ore dry''
            (target_metrics pos block_type @
             [(''sealed_faces'', JList sealed), (''remaining_liquid_contact'', json_list remaining json_position)]))
     else tx_bind (mine_block port pos context (do_timeout_s opts) (\<not> do_prepositioned opts) (do_explicit_target opts)) (\<lambda>mined.
          tx_return (with_metric mined ''dry_mining'' (JDict
            [(''required'', JBool True), (''initial_liquid_faces'', json_int_nat (length faces)),
             (''sealed_faces'', JList sealed), (''seal_candidates'', json_list candidates JStr),
             (''seal_inventory_counts'', case counts of None \<Rightarrow> JNull | Some c \<Rightarrow> json_counts c),
             (''settle_s'', json_flt (do_settle_s opts))])))))))))"

definition mine_block_dry ::
  "'w body_port \<Rightarrow> nat \<Rightarrow> position \<Rightarrow> break_context \<Rightarrow> dry_options \<Rightarrow> ('w, tool_result) tx" where
  "mine_block_dry port pages pos context opts =
     tx_bind (perceive port ''blockAt'' (block_params pos)) (\<lambda>target.
     unless_failed (perception_failure target)
     (let block_type = type_or_unknown port target; block_state = state_or_unknown port target
      in if \<not> is_ore_block block_type
         then tx_bind (mine_block port pos context (do_timeout_s opts) (\<not> do_prepositioned opts) (do_explicit_target opts)) (\<lambda>r.
              tx_return (with_metric r ''dry_mining'' (JDict [(''required'', JBool False), (''block_state'', JStr block_state)])))
         else tx_bind (liquid_contact_positions port pos) (\<lambda>r. or_return r (\<lambda>touching.
         if touching = []
         then tx_bind (mine_block port pos context (do_timeout_s opts) (\<not> do_prepositioned opts) False) (\<lambda>r.
              tx_return (with_metric r ''dry_mining'' (JDict
                [(''required'', JBool True), (''initial_liquid_faces'', JInt 0), (''sealed_faces'', JList []),
                 (''block_state'', JStr block_state)])))
         else tx_bind (liquid_face_positions port pos) (\<lambda>r. or_return r (\<lambda>faces.
         if length faces > do_max_seal_faces opts
         then tx_return (fail_result ''dry_mining_too_many_liquid_faces'' False
                ''choose a safer ore target or drain the liquid pocket before mining''
                (target_metrics pos block_type @
                 [(''liquid_faces'', json_list faces json_position), (''max_seal_faces'', json_int_nat (do_max_seal_faces opts))]))
         else if do_seal_blocks opts = []
         then tx_return (fail_result ''dry_mining_no_seal_blocks'' False
                ''provide a safe temporary seal block before mining this liquid-adjacent ore''
                (target_metrics pos block_type @ [(''liquid_faces'', json_list faces json_position)]))
         else mine_sealed port pages pos context block_type opts faces))))))"

section \<open>Collecting\<close>

definition ensure_collect_pickaxe ::
  "'w body_port \<Rightarrow> nat \<Rightarrow> position \<Rightarrow> string \<Rightarrow> rat \<Rightarrow> ('w, tool_result) tx" where
  "ensure_collect_pickaxe port pages pos block_type timeout_s =
     (case required_pickaxe_tier block_type of
        None \<Rightarrow> tx_return (done_result ''no_required_tool'' (target_metrics pos block_type @ [(''required_tier'', JNull)]))
      | Some required \<Rightarrow>
          tx_bind (read_inventory_counts port pages None) (\<lambda>r. case r of
            Inl failed \<Rightarrow> tx_return (with_metric failed ''tool_gate'' (JDict (target_metrics pos block_type @
              [(''required_tier'', JStr (tier_value required)), (''phase'', JStr ''inventory'')])))
          | Inr counts \<Rightarrow>
              tx_bind (tx_lift (best_owned_pickaxe (map (\<lambda>(k, n). (k, JInt n)) counts))) (\<lambda>best.
              (let metrics = target_metrics pos block_type @
                     [(''required_tier'', JStr (tier_value required)),
                      (''best_owned'', case best of None \<Rightarrow> JNull
                         | Some (item, tier) \<Rightarrow> JDict [(''item'', JStr item), (''tier'', JStr (tier_value tier))])];
                   missing = tx_return (fail_result ''missing_required_tool'' False
                     (''craft and equip a '' @ PICKAXE_BY_TIER required @ '' or better first'') metrics)
               in case best of
                    None \<Rightarrow> missing
                  | Some (item, tier) \<Rightarrow>
                      if \<not> tier_satisfies (Some (tier_value tier)) (tier_value required) then missing
                      else tx_bind (dispatch_select_item port item (min timeout_s 5)) (\<lambda>selected.
                      (let metrics' = metrics @
                             [(''selected_item'', JStr item), (''selected_tier'', JStr (tier_value tier)),
                              (''select_result'', JDict (tool_result_payload selected))]
                       in tx_return (if \<not> tr_success selected
                            then fail_result (''tool_equip_failed:'' @ tr_reason selected) (tr_can_retry selected)
                                   (suggestion_or selected (''make '' @ item @ '' available in the hotbar before mining '' @ block_type))
                                   metrics'
                            else done_result ''tool_ready'' metrics')))))))"

definition DEFAULT_DROP_MAP :: "(string, string list) pydict" where
  "DEFAULT_DROP_MAP =
     [(''coal_ore'', [''coal'']), (''deepslate_coal_ore'', [''coal'']), (''copper_ore'', [''raw_copper'']),
      (''deepslate_copper_ore'', [''raw_copper'']), (''diamond_ore'', [''diamond'']),
      (''deepslate_diamond_ore'', [''diamond'']), (''emerald_ore'', [''emerald'']),
      (''deepslate_emerald_ore'', [''emerald'']), (''iron_ore'', [''raw_iron'']),
      (''deepslate_iron_ore'', [''raw_iron'']), (''gold_ore'', [''raw_gold'']),
      (''deepslate_gold_ore'', [''raw_gold'']), (''lapis_ore'', [''lapis_lazuli'']),
      (''deepslate_lapis_ore'', [''lapis_lazuli'']), (''redstone_ore'', [''redstone'']),
      (''deepslate_redstone_ore'', [''redstone'']), (''nether_quartz_ore'', [''quartz'']),
      (''nether_gold_ore'', [''gold_nugget'']), (''grass_block'', [''dirt'']), (''coarse_dirt'', [''dirt'']),
      (''rooted_dirt'', [''dirt''])]"

definition expected_drops_for_block :: "string \<Rightarrow> (string, string list) pydict \<Rightarrow> string list" where
  "expected_drops_for_block block_type drop_map =
     (let normalized = normalize_item_name block_type
      in map normalize_item_name (case map_of drop_map normalized of None \<Rightarrow> [normalized] | Some xs \<Rightarrow> xs))"

record collect_options =
  co_dry :: bool
  co_expected_drops :: "string list"
  co_target_block_types :: "string list"
  co_drop_map :: "(string, string list) pydict"
  co_settle_s :: rat
  co_pickup_timeout_s :: rat
  co_timeout_s :: rat
  co_prepositioned :: bool

definition dry_options_for :: "collect_options \<Rightarrow> bool \<Rightarrow> string list \<Rightarrow> dry_options" where
  "dry_options_for opts explicit seal_blocks =
     \<lparr>do_seal_blocks = seal_blocks, do_require_seal_inventory = True, do_approach_seal_faces = False,
      do_seal_approach_range = 4, do_max_seal_faces = MAX_SEAL_FACES, do_settle_s = co_settle_s opts,
      do_timeout_s = co_timeout_s opts, do_prepositioned = co_prepositioned opts, do_explicit_target = explicit\<rparr>"

definition DEFAULT_SEAL_BLOCKS :: "string list" where
  "DEFAULT_SEAL_BLOCKS = [''cobblestone'', ''cobbled_deepslate'', ''deepslate'', ''stone'', ''dirt'', ''netherrack'']"

definition collected_result ::
  "position \<Rightarrow> string \<Rightarrow> string list \<Rightarrow> string list \<Rightarrow> (string, int) pydict \<Rightarrow> tool_result \<Rightarrow> json_object \<Rightarrow> pickup_report
   \<Rightarrow> tool_result" where
  "collected_result pos block_type targets expected before_counts mined tool_gate pickup =
     (let metrics = target_metrics pos block_type @
            [(''target_block_types'', json_list targets JStr), (''expected_drops'', json_list expected JStr),
             (''before'', json_counts before_counts), (''after'', json_counts (pk_after pickup)),
             (''deltas'', json_counts (pk_deltas pickup)), (''collected_total'', JInt (pk_collected_total pickup)),
             (''mine_result'', JDict (tool_result_payload mined)), (''pickup_assist'', pk_assist pickup),
             (''tool_gate'', JDict tool_gate)]
      in if pk_collected_total pickup \<le> 0
         then fail_result ''collect_no_inventory_delta'' True
                ''wait for pickup, move to the drop, or verify the expected drop mapping before counting this target complete''
                metrics
         else done_result ''collected'' metrics)"

fun pickup_fallback_positions :: "position \<Rightarrow> position list" where
  "pickup_fallback_positions (x, y, z) = [(x, y, z), (x - 1, y, z), (x + 1, y, z), (x, y, z - 1), (x, y, z + 1)]"

text \<open>The pickup of the drops: one more scan than a pickup of its own, and the cells around the block.\<close>

definition collect_drops ::
  "'w body_port \<Rightarrow> nat \<Rightarrow> rat \<Rightarrow> position \<Rightarrow> (string, int) pydict \<Rightarrow> string list \<Rightarrow> ('w, pickup_end) tx" where
  "collect_drops port pages pickup_timeout_s pos before_counts expected =
     collect_inventory_delta port pages (default_pickup\<lparr>pc_poll_timeout_s := pickup_timeout_s, pc_max_scan_rounds := 3\<rparr>)
       before_counts expected 1 (pickup_fallback_positions pos)"

definition collect_mined ::
  "'w body_port \<Rightarrow> nat \<Rightarrow> position \<Rightarrow> break_context \<Rightarrow> collect_options \<Rightarrow> string \<Rightarrow> string list \<Rightarrow> json_object
   \<Rightarrow> ('w, tool_result) tx" where
  "collect_mined port pages pos context opts block_type targets tool_gate =
     (let wanted = map normalize_item_name (co_expected_drops opts);
          drops = (if co_drop_map opts \<noteq> [] then co_drop_map opts else DEFAULT_DROP_MAP);
          expected = (if wanted \<noteq> [] then wanted else expected_drops_for_block block_type drops);
          explicit = targets \<noteq> []
      in tx_bind (read_inventory_counts port pages None) (\<lambda>r. case r of
           Inl failed \<Rightarrow> tx_return (with_metric failed ''collect'' (JDict (target_metrics pos block_type @ [(''phase'', JStr ''before'')])))
         | Inr before_counts \<Rightarrow>
             tx_bind (if co_dry opts
                      then mine_block_dry port pages pos context (dry_options_for opts explicit DEFAULT_SEAL_BLOCKS)
                      else mine_block port pos context (co_timeout_s opts) (\<not> co_prepositioned opts) explicit) (\<lambda>mined.
             if \<not> tr_success mined
             then tx_return (with_metric mined ''collect'' (JDict (target_metrics pos block_type @
                    [(''target_block_types'', json_list targets JStr), (''expected_drops'', json_list expected JStr),
                     (''before'', json_counts before_counts), (''tool_gate'', JDict tool_gate)])))
             else tx_bind (pause_for port (co_settle_s opts)) (\<lambda>_.
                  tx_bind (collect_drops port pages (co_pickup_timeout_s opts) pos before_counts expected) (\<lambda>p. tx_return (case p of
                    Inl (failed, assist) \<Rightarrow> with_metric failed ''collect'' (JDict (target_metrics pos block_type @
                      [(''phase'', JStr ''after''), (''pickup_assist'', assist)]))
                  | Inr report \<Rightarrow> collected_result pos block_type targets expected before_counts mined tool_gate report))))))"

definition mine_block_collect ::
  "'w body_port \<Rightarrow> nat \<Rightarrow> position \<Rightarrow> break_context \<Rightarrow> collect_options \<Rightarrow> ('w, tool_result) tx" where
  "mine_block_collect port pages pos context opts =
     tx_bind (perceive port ''blockAt'' (block_params pos)) (\<lambda>target.
     unless_failed (perception_failure target)
     (let block_type = normalize_item_name (type_or_unknown port target);
          targets = map normalize_item_name (co_target_block_types opts)
      in if targets \<noteq> [] \<and> block_type \<notin> set targets
         then tx_return (fail_result ''break_denied:collect_target_required'' False
                ''retry with a candidate whose observed block type matches the collect plan''
                (target_metrics pos block_type @ [(''target_block_types'', json_list targets JStr)]))
         else tx_bind (judge_break port pos block_type context (targets \<noteq> [])) (\<lambda>decision.
         if \<not> ld_allowed decision then tx_return (denied_result ''break_denied'' pos block_type decision)
         else tx_bind (ensure_collect_pickaxe port pages pos block_type (co_timeout_s opts)) (\<lambda>gate.
         if \<not> tr_success gate then tx_return gate
         else collect_mined port pages pos context opts block_type targets (metrics_of gate)))))"

end
