(* ===== verification/Block_Safety.thy ===== *)
theory Block_Safety
  imports Dry_Mining Governance_Safety Demo_Body
begin

text \<open>
  What the block transactions of \<open>minebot/body/block_work.py\<close> may send to the Body: every
  \<open>mineBlock\<close> follows a complete reading of the block it names and a decision of the governance
  policy that allows it, and a dry mining opens an ore only right after a look around it found no
  liquid.
\<close>

section \<open>Reading a domain only reads\<close>

context log_invariant begin

lemma keeps_facts_or_error: "keeps inv (facts_or_error (recording port) standing cells)"
  unfolding facts_or_error_def
  by (intro keeps_intros keeps_block_facts) (auto split: if_splits intro: keeps_intros)

lemma keeps_reach_domains: "keeps inv (block_reach_domains (recording port) intents)"
  unfolding block_reach_domains_def by (intro keeps_intros keeps_facts_or_error keeps_get_state)

lemma keeps_reach_domain: "keeps inv (block_reach_domain (recording port) intent)"
  unfolding block_reach_domain_def by (intro keeps_intros keeps_reach_domains)

lemma keeps_mining_stands: "keeps inv (ranked_mining_stand_candidates (recording port) pos current)"
  unfolding ranked_mining_stand_candidates_def by (intro keeps_intros keeps_reach_domain)

lemma keeps_prepositioned: "keeps inv (check_prepositioned (recording port) pos context block_type)"
  unfolding check_prepositioned_def by (intro keeps_intros keeps_get_state)

lemma keeps_scan: "keeps inv (scan_liquid_offsets (recording port) pos offsets)"
  unfolding scan_liquid_offsets_def by (intro keeps_intros keeps_facts_or_error)

end

section \<open>Transactions that travel\<close>

text \<open>The navigator, to a goal or after an entity, keeps an invariant of the log and the policy.\<close>

definition navigation_keeps ::
  "(body_call list \<Rightarrow> governance_policy \<Rightarrow> bool) \<Rightarrow> 'w body_port \<Rightarrow> bool" where
  "navigation_keeps J port \<longleftrightarrow>
     (\<forall>nav goal opts w cs p. port_navigate port = Some nav \<longrightarrow> J cs p \<longrightarrow> J cs (snd (snd (nav goal opts (w, p))))) \<and>
     (\<forall>follow i keep t w cs p. port_follow port = Some follow \<longrightarrow> J cs p \<longrightarrow> J cs (snd (snd (follow i keep t (w, p)))))"

locale travel_invariant = log_invariant +
  assumes travelled: "C (Travelled goal r)" and followed: "C (Followed i r)"
begin

lemma keeps_travel:
  "port_navigate (recording port) = Some nav \<Longrightarrow> navigation_keeps J port \<Longrightarrow> keeps inv (navigate_to nav goal opts)"
  by (rule keeps_navigate) (auto simp: travelled navigation_keeps_def)

lemma keeps_following:
  "port_follow (recording port) = Some follow \<Longrightarrow> navigation_keeps J port \<Longrightarrow> keeps inv (follow_entity follow i keep t)"
  by (rule keeps_follow) (auto simp: followed navigation_keeps_def)

lemma keeps_approach:
  assumes "navigation_keeps J port"
  shows "keeps inv (approach_mining_target (recording port) pos context block_type timeout_s)"
  unfolding approach_mining_target_def
  by (intro keeps_intros keeps_get_state keeps_mining_stands)
    (auto split: list.split intro!: keeps_intros keeps_travel assms keeps_pause keeps_get_state)

end

section \<open>The reading a decision rests on\<close>

text \<open>The answer to the latest complete or failed \<open>blockAt\<close> of a position; none when it raised.\<close>

fun note_block :: "position \<Rightarrow> body_call \<Rightarrow> perception_result option \<Rightarrow> perception_result option" where
  "note_block pos (Perceived scope params r) seen =
     (if scope = ''blockAt'' \<and> params = block_params pos then (case r of Inl _ \<Rightarrow> None | Inr p \<Rightarrow> Some p) else seen)"
| "note_block pos _ seen = seen"

definition last_block :: "position \<Rightarrow> body_call list \<Rightarrow> perception_result option" where
  "last_block pos cs = fold (note_block pos) cs None"

fun reads_block :: "position \<Rightarrow> body_call \<Rightarrow> bool" where
  "reads_block pos (Perceived scope params r) \<longleftrightarrow> scope = ''blockAt'' \<and> params = block_params pos"
| "reads_block pos _ \<longleftrightarrow> False"

lemma last_block_snoc [simp]: "last_block pos (cs @ [c]) = note_block pos c (last_block pos cs)"
  by (simp add: last_block_def)

lemma note_block_other [simp]: "\<not> reads_block pos c \<Longrightarrow> note_block pos c seen = seen"
  by (cases c) auto

lemma passive_reads_no_block [simp]: "passive_entry c \<Longrightarrow> \<not> reads_block pos c"
  by (cases c) auto

definition same_regions :: "governance_policy \<Rightarrow> governance_policy \<Rightarrow> bool" where
  "same_regions p q \<longleftrightarrow>
     gp_natural_regions p = gp_natural_regions q \<and> gp_protected_regions p = gp_protected_regions q"

text \<open>The latest decision about breaking a position, since the latest reading of it.\<close>

fun note_judged :: "position \<Rightarrow> body_call \<Rightarrow> break_judgement option \<Rightarrow> break_judgement option" where
  "note_judged pos (Judged (Break_Judged j)) seen = (if bj_pos j = pos then Some j else seen)"
| "note_judged pos (Perceived scope params r) seen = (if scope = ''blockAt'' \<and> params = block_params pos then None else seen)"
| "note_judged pos _ seen = seen"

definition last_judged :: "position \<Rightarrow> body_call list \<Rightarrow> break_judgement option" where
  "last_judged pos cs = fold (note_judged pos) cs None"

fun judges :: "position \<Rightarrow> body_call \<Rightarrow> bool" where
  "judges pos (Judged (Break_Judged j)) \<longleftrightarrow> bj_pos j = pos"
| "judges pos _ \<longleftrightarrow> False"

lemma last_judged_snoc [simp]: "last_judged pos (cs @ [c]) = note_judged pos c (last_judged pos cs)"
  by (simp add: last_judged_def)

lemma note_judged_other [simp]: "\<not> reads_block pos c \<Longrightarrow> \<not> judges pos c \<Longrightarrow> note_judged pos c seen = seen"
  by (cases "(pos, c, seen)" rule: note_judged.cases) auto

lemma passive_judges_nothing [simp]: "passive_entry c \<Longrightarrow> \<not> judges pos c"
  by (cases "(pos, c)" rule: judges.cases) auto

text \<open>What the governance policy decides on the inputs of a decision is what was decided.\<close>

definition genuine :: "break_judgement \<Rightarrow> bool" where
  "genuine j \<longleftrightarrow> bj_decision j = fst (can_break (bj_policy j) (bj_assessor j) (fst (bj_envs j)) (snd (bj_envs j))
     (bj_pos j) (bj_block_type j) (bj_context j) (bj_explicit j) None None)"

text \<open>
  A break is cleared by the log and a decision: the latest reading of the position is complete, and
  the latest decision after it is this one, made by the governance policy about the block type that
  was read; it allows the break; and the action names the position, the block type, the context and
  the decision.
\<close>

definition cleared_break :: "'w logged body_port \<Rightarrow> break_judgement \<Rightarrow> body_call list \<Rightarrow> action \<Rightarrow> bool" where
  "cleared_break port j cs a \<longleftrightarrow>
     (\<exists>block. last_block (bj_pos j) cs = Some block \<and> pr_ok block \<and> pr_complete block \<and>
        bj_block_type j = type_or_unknown port block) \<and>
     last_judged (bj_pos j) cs = Some j \<and> genuine j \<and> ld_allowed (bj_decision j) \<and>
     map_of (ac_params a) ''target'' = Some (json_position (bj_pos j)) \<and>
     map_of (ac_params a) ''block_type'' = Some (JStr (bj_block_type j)) \<and>
     map_of (ac_params a) ''context'' = Some (JStr (break_context_value (bj_context j))) \<and>
     map_of (ac_params a) ''legality'' = Some (JDict (decision_payload (bj_decision j)))"

fun mines :: "body_call \<Rightarrow> bool" where
  "mines (Executed a r) \<longleftrightarrow> ac_name a = ''mineBlock''"
| "mines _ \<longleftrightarrow> False"

lemma passive_mines_nothing [simp]: "passive_entry c \<Longrightarrow> \<not> mines c"
  by (cases c) auto

text \<open>
  Every \<open>mineBlock\<close> of a log is cleared. Where the regions of the policy are \<open>kept\<close> as they were in
  \<open>rules\<close>, the decisions are made with these regions.
\<close>

definition breaks_cleared ::
  "'w logged body_port \<Rightarrow> bool \<Rightarrow> governance_policy \<Rightarrow> body_call list \<Rightarrow> governance_policy \<Rightarrow> bool" where
  "breaks_cleared port kept rules cs p \<longleftrightarrow>
     (kept \<longrightarrow> same_regions p rules) \<and>
     (\<forall>i a r. i < length cs \<longrightarrow> cs ! i = Executed a r \<longrightarrow> ac_name a = ''mineBlock'' \<longrightarrow>
        (\<exists>j. cleared_break port j (take i cs) a \<and> (kept \<longrightarrow> same_regions (bj_policy j) rules)))"

lemma breaks_cleared_start: "breaks_cleared port kept p [] p"
  by (simp add: breaks_cleared_def same_regions_def)

lemma breaks_cleared_snoc:
  "breaks_cleared port kept rules (cs @ [c]) p \<longleftrightarrow>
     breaks_cleared port kept rules cs p \<and> (\<forall>a r. c = Executed a r \<longrightarrow> ac_name a = ''mineBlock'' \<longrightarrow>
       (\<exists>j. cleared_break port j cs a \<and> (kept \<longrightarrow> same_regions (bj_policy j) rules)))"
  by (auto simp: breaks_cleared_def nth_append less_Suc_eq)

lemma breaks_cleared_other:
  "breaks_cleared port kept rules cs p \<Longrightarrow> \<not> mines c \<Longrightarrow> breaks_cleared port kept rules (cs @ [c]) p"
  by (auto simp: breaks_cleared_snoc)

lemma same_regions_can_break: "same_regions (snd (can_break p asr e1 e2 pos raw ctx ex who aid)) rules \<longleftrightarrow> same_regions p rules"
  using same_rules_can_break [of p asr e1 e2 pos raw ctx ex who aid] by (simp add: same_rules_def same_regions_def)

lemma same_regions_record: "same_regions (record_bot_placement p pos raw purpose owner) rules \<longleftrightarrow> same_regions p rules"
  by (simp add: same_regions_def record_bot_placement_def Let_def)

lemma breaks_cleared_judging:
  "breaks_cleared port kept rules cs p \<Longrightarrow> breaks_cleared port kept rules cs (snd (can_break p asr e1 e2 pos raw ctx ex who aid))"
  by (simp add: breaks_cleared_def same_regions_can_break)

lemma breaks_cleared_placing:
  "breaks_cleared port kept rules cs p \<Longrightarrow> breaks_cleared port kept rules cs (record_bot_placement p pos raw purpose owner)"
  by (simp add: breaks_cleared_def same_regions_record)

text \<open>The same after a position was read, and after a decision about it.\<close>

definition holding_block ::
  "'w logged body_port \<Rightarrow> bool \<Rightarrow> governance_policy \<Rightarrow> position \<Rightarrow> perception_result \<Rightarrow> 'w logged tx_state \<Rightarrow> bool" where
  "holding_block port kept rules pos block s \<longleftrightarrow>
     breaks_cleared port kept rules (tx_log s) (tx_policy s) \<and> last_block pos (tx_log s) = Some block"

definition deciding ::
  "'w logged body_port \<Rightarrow> bool \<Rightarrow> governance_policy \<Rightarrow> perception_result \<Rightarrow> break_judgement
   \<Rightarrow> body_call list \<Rightarrow> governance_policy \<Rightarrow> bool" where
  "deciding port kept rules block j cs p \<longleftrightarrow>
     breaks_cleared port kept rules cs p \<and> last_block (bj_pos j) cs = Some block \<and> last_judged (bj_pos j) cs = Some j"

interpretation breaks: travel_invariant "breaks_cleared port kept rules" "\<lambda>c. \<not> mines c" for port kept rules
  by unfold_locales (auto intro: breaks_cleared_other breaks_cleared_judging breaks_cleared_placing)

interpretation decided: travel_invariant "deciding port kept rules block j"
    "\<lambda>c. \<not> mines c \<and> \<not> reads_block (bj_pos j) c \<and> \<not> judges (bj_pos j) c" for port kept rules block j
  by unfold_locales
    (auto simp: deciding_def intro: breaks_cleared_other breaks_cleared_judging breaks_cleared_placing)

abbreviation breaks_inv :: "'w logged body_port \<Rightarrow> bool \<Rightarrow> governance_policy \<Rightarrow> 'w logged tx_state \<Rightarrow> bool" where
  "breaks_inv port kept rules \<equiv> log_invariant.inv (breaks_cleared port kept rules)"

abbreviation decided_inv ::
  "'w logged body_port \<Rightarrow> bool \<Rightarrow> governance_policy \<Rightarrow> perception_result \<Rightarrow> break_judgement \<Rightarrow> 'w logged tx_state \<Rightarrow> bool" where
  "decided_inv port kept rules block j \<equiv> log_invariant.inv (deciding port kept rules block j)"

section \<open>Mining one block\<close>

text \<open>From \<open>I\<close> to \<open>K\<close>: for transactions that use up what they know.\<close>

definition leads :: "('w tx_state \<Rightarrow> bool) \<Rightarrow> ('w, 'a) tx \<Rightarrow> ('w tx_state \<Rightarrow> bool) \<Rightarrow> bool" where
  "leads I m K \<longleftrightarrow> (\<forall>s. I s \<longrightarrow> K (snd (m s)))"

lemma leads_bind:
  assumes "keeps I m" and "\<And>s. I s \<Longrightarrow> K s" and f: "\<And>a. leads I (f a) K"
  shows "leads I (tx_bind m f) K"
  unfolding leads_def
proof (intro allI impI)
  fix s
  assume "I s"
  then have "I (snd (m s))" using assms(1) by (rule keepsD [rotated])
  then show "K (snd (tx_bind m f s))"
    using assms(2) f by (auto simp: tx_bind_def leads_def split: prod.split sum.split)
qed

lemma leads_then:
  assumes "leads I m K" and "\<And>a. keeps K (f a)"
  shows "leads I (tx_bind m f) K"
  unfolding leads_def
proof (intro allI impI)
  fix s
  assume "I s"
  then have "K (snd (m s))" using assms(1) by (simp add: leads_def)
  then show "K (snd (tx_bind m f s))"
    using assms(2) by (auto simp: tx_bind_def keeps_def split: prod.split sum.split)
qed

lemma leads_weaken: "(\<And>s. I s \<Longrightarrow> K s) \<Longrightarrow> leads I (tx_return a) K"
  by (simp add: leads_def tx_return_def)

lemma holding_breaks: "holding_block port kept rules pos block s \<Longrightarrow> breaks_inv port kept rules s"
  by (simp add: breaks.inv_def holding_block_def)

lemma decided_breaks: "decided_inv port kept rules block j s \<Longrightarrow> breaks_inv port kept rules s"
  by (simp add: decided.inv_def breaks.inv_def deciding_def)

lemma mine_params_sent:
  assumes "sent_as ''mineBlock'' (mine_params pos b ctx t d) a"
  shows "map_of (ac_params a) ''target'' = Some (json_position pos) \<and>
    map_of (ac_params a) ''block_type'' = Some (JStr b) \<and>
    map_of (ac_params a) ''context'' = Some (JStr (break_context_value ctx)) \<and>
    map_of (ac_params a) ''legality'' = Some (JDict (decision_payload d)) \<and> ac_name a = ''mineBlock''"
  using assms by (simp add: sent_as_def mine_params_def)

text \<open>A decision that allows the break of the block that was read.\<close>

definition clears :: "'w logged body_port \<Rightarrow> bool \<Rightarrow> governance_policy \<Rightarrow> perception_result \<Rightarrow> break_judgement \<Rightarrow> bool" where
  "clears port kept rules block j \<longleftrightarrow>
     pr_ok block \<and> pr_complete block \<and> bj_block_type j = type_or_unknown port block \<and> genuine j \<and>
     ld_allowed (bj_decision j) \<and> (kept \<longrightarrow> same_regions (bj_policy j) rules)"

lemma leads_mine_send:
  assumes clears: "clears (recording port) kept rules block j"
  shows "leads (decided_inv (recording port) kept rules block j)
    (send_action (recording port) ''mineBlock'' (mine_params (bj_pos j) (bj_block_type j) (bj_context j) t (bj_decision j)) t')
    (breaks_inv (recording port) kept rules)"
  unfolding leads_def
proof (intro allI impI)
  fix s :: "'a logged tx_state"
  let ?ps = "mine_params (bj_pos j) (bj_block_type j) (bj_context j) t (bj_decision j)"
  assume s: "decided_inv (recording port) kept rules block j s"
  then have J: "breaks_cleared (recording port) kept rules (tx_log s) (tx_policy s)"
      "last_block (bj_pos j) (tx_log s) = Some block" "last_judged (bj_pos j) (tx_log s) = Some j"
    by (simp_all add: decided.inv_def deciding_def)
  obtain r s' where run: "send_action (recording port) ''mineBlock'' ?ps t' s = (r, s')" by (rule prod.exhaust)
  from send_action_run [OF run] have "breaks_cleared (recording port) kept rules (tx_log s') (tx_policy s')"
  proof (elim conjE disjE exE)
    fix a x
    assume same: "tx_policy s' = tx_policy s" and l: "tx_log s' = tx_log s @ [Executed a x]" and a: "sent_as ''mineBlock'' ?ps a"
    have "cleared_break (recording port) j (tx_log s) a"
      unfolding cleared_break_def using J(2,3) clears mine_params_sent [OF a] unfolding clears_def by blast
    then show ?thesis using J(1) same l clears by (auto simp: breaks_cleared_snoc clears_def)
  qed (use J in simp_all)
  then show "breaks_inv (recording port) kept rules (snd (send_action (recording port) ''mineBlock'' ?ps t' s))"
    using run by (simp add: breaks.inv_def)
qed

lemma break_judged_run:
  assumes "break_judged port pos b ctx ex s = (j, p)"
  shows "bj_pos j = pos \<and> bj_block_type j = b \<and> bj_context j = ctx \<and> bj_explicit j = ex \<and> bj_policy j = tx_policy s \<and> genuine j \<and>
    p = snd (can_break (tx_policy s) (bj_assessor j) (fst (bj_envs j)) (snd (bj_envs j)) pos b ctx ex None None)"
  using assms by (auto simp: break_judged_def genuine_def split: prod.splits)

text \<open>
  A decision is asked about the block that was read, it is noted, and what follows starts from it.
\<close>

lemma leads_judged:
  assumes "\<And>j. bj_pos j = pos \<Longrightarrow> bj_block_type j = b \<Longrightarrow> bj_context j = ctx \<Longrightarrow> genuine j \<Longrightarrow>
      (kept \<longrightarrow> same_regions (bj_policy j) rules) \<Longrightarrow>
      leads (decided_inv (recording port) kept rules block j) (f (bj_decision j)) (breaks_inv (recording port) kept rules)"
  shows "leads (holding_block (recording port) kept rules pos block) (tx_bind (judge_break (recording port) pos b ctx ex) f)
    (breaks_inv (recording port) kept rules)"
  unfolding leads_def
proof (intro allI impI)
  fix s :: "'a logged tx_state"
  assume s: "holding_block (recording port) kept rules pos block s"
  obtain j p where run: "break_judged (recording port) pos b ctx ex s = (j, p)" by (rule prod.exhaust)
  note j = break_judged_run [OF run]
  let ?s = "s\<lparr>tx_world := port_judged (recording port) (Break_Judged j) (tx_world s), tx_policy := p\<rparr>"
  have judged: "judge_break (recording port) pos b ctx ex s = (Inr (bj_decision j), ?s)"
    using run by (simp add: judge_break_def)
  have "tx_log ?s = tx_log s @ [Judged (Break_Judged j)]" by (simp add: tx_log_def recording_def)
  then have "decided_inv (recording port) kept rules block j ?s"
    using s j
    by (simp add: breaks_cleared_judging decided.inv_def deciding_def holding_block_def breaks_cleared_snoc)
  moreover have "kept \<longrightarrow> same_regions (bj_policy j) rules" using s j by (simp add: holding_block_def breaks_cleared_def)
  ultimately show "breaks_inv (recording port) kept rules (snd (tx_bind (judge_break (recording port) pos b ctx ex) f s))"
    using assms [of j] j judged by (simp add: tx_bind_def leads_def)
qed

text \<open>What follows a \<open>blockAt\<close> starts from the block it returned.\<close>

lemma keeps_after_reading:
  assumes "\<And>block. leads (holding_block (recording port) kept rules pos block) (f block) (breaks_inv (recording port) kept rules)"
  shows "keeps (breaks_inv (recording port) kept rules) (tx_bind (perceive (recording port) ''blockAt'' (block_params pos)) f)"
proof (rule keepsI)
  fix s :: "'a logged tx_state"
  assume s: "breaks_inv (recording port) kept rules s"
  obtain r w where p: "port_perceive port ''blockAt'' (block_params pos) (fst (tx_world s)) = (r, w)" by (rule prod.exhaust)
  let ?s = "s\<lparr>tx_world := (w, tx_log s @ [Perceived ''blockAt'' (block_params pos) r])\<rparr>"
  have run: "perceive (recording port) ''blockAt'' (block_params pos) s = (r, ?s)"
    using p by (simp add: perceive_def tx_call_def recording_def noting_def tx_log_def)
  have J: "breaks_cleared (recording port) kept rules (tx_log ?s) (tx_policy ?s)"
    using s by (simp add: breaks.inv_def tx_log_def breaks_cleared_snoc)
  show "breaks_inv (recording port) kept rules (snd (tx_bind (perceive (recording port) ''blockAt'' (block_params pos)) f s))"
  proof (cases r)
    case (Inl e)
    then show ?thesis using run J by (simp add: tx_bind_def breaks.inv_def)
  next
    case (Inr block)
    have "holding_block (recording port) kept rules pos block ?s"
      using J Inr by (simp add: holding_block_def tx_log_def)
    then show ?thesis using assms [of block] run Inr by (simp add: tx_bind_def leads_def)
  qed
qed

lemma leads_unless:
  "(\<And>s. I s \<Longrightarrow> K s) \<Longrightarrow> (failed = None \<Longrightarrow> leads I k K) \<Longrightarrow> leads I (unless_failed failed k) K"
  by (cases failed) (simp_all add: unless_failed_def leads_weaken)

lemma leads_or_return:
  "(\<And>s. I s \<Longrightarrow> K s) \<Longrightarrow> (\<And>a. leads I (k a) K) \<Longrightarrow> leads I (or_return r k) K"
  by (cases r) (simp_all add: or_return_def leads_weaken)

lemma keeps_unless: "keeps I k \<Longrightarrow> keeps I (unless_failed failed k)"
  by (cases failed) (simp_all add: unless_failed_def keeps_intros)

lemma keeps_or_return: "(\<And>a. keeps I (k a)) \<Longrightarrow> keeps I (or_return r k)"
  by (cases r) (simp_all add: or_return_def keeps_intros)

lemmas keeps_flow = keeps_intros keeps_unless keeps_or_return

text \<open>A navigator that leaves the declared regions of the policy alone.\<close>

definition navigator_keeps_regions :: "'w body_port \<Rightarrow> bool" where
  "navigator_keeps_regions port \<longleftrightarrow> (\<forall>rules. navigation_keeps (\<lambda>cs p. same_regions p rules) port)"

lemma navigation_keeps_breaks: "navigation_keeps (breaks_cleared logged (navigator_keeps_regions port) rules) port"
  by (auto simp: navigation_keeps_def navigator_keeps_regions_def breaks_cleared_def)

lemma navigation_keeps_decided: "navigation_keeps (deciding logged (navigator_keeps_regions port) rules block j) port"
  by (auto simp: navigation_keeps_def navigator_keeps_regions_def deciding_def breaks_cleared_def)

abbreviation breaks_along :: "'w body_port \<Rightarrow> governance_policy \<Rightarrow> 'w logged tx_state \<Rightarrow> bool" where
  "breaks_along port rules \<equiv> breaks_inv (recording port) (navigator_keeps_regions port) rules"

lemma keeps_mine_block:
  "keeps (breaks_along port rules) (mine_block (recording port) pos context timeout_s approach explicit_target)"
  unfolding mine_block_def Let_def
proof (rule keeps_after_reading, rule leads_unless [OF holding_breaks])
  fix block
  let ?b = "type_or_unknown (recording port) block" and ?kept = "navigator_keeps_regions port"
  assume "perception_failure block = None"
  then have ok: "pr_ok block" "pr_complete block" by (auto simp: perception_failure_def split: if_splits)
  let ?go = "\<lambda>d. tx_bind (if approach then approach_mining_target (recording port) pos context ?b timeout_s
                 else check_prepositioned (recording port) pos context ?b) (\<lambda>approached. or_return approached (\<lambda>metrics.
        tx_bind (send_action (recording port) ''mineBlock'' (mine_params pos ?b context timeout_s d) timeout_s)
           (\<lambda>(a, accepted). unless_failed (acceptance_failure accepted ''mineBlock'' pos)
         (tx_bind (await_result (recording port) a) (\<lambda>r. tx_return (mined_metrics pos ?b d metrics r))))))"
  have go: "leads (decided_inv (recording port) ?kept rules block j) (?go (bj_decision j)) (breaks_along port rules)"
    if "clears (recording port) ?kept rules block j" "bj_pos j = pos" "bj_context j = context" for j
  proof (rule leads_bind [OF _ decided_breaks])
    show "keeps (decided_inv (recording port) ?kept rules block j)
        (if approach then approach_mining_target (recording port) pos context ?b timeout_s
         else check_prepositioned (recording port) pos context ?b)"
      by (rule keeps_if) (rule decided.keeps_approach [OF navigation_keeps_decided], rule decided.keeps_prepositioned)
    have b: "bj_block_type j = ?b" using that(1) by (simp add: clears_def)
    note send = leads_mine_send [OF that(1), unfolded that(2,3) b]
    show "leads (decided_inv (recording port) ?kept rules block j)
        (or_return approached (\<lambda>metrics.
        tx_bind (send_action (recording port) ''mineBlock'' (mine_params pos ?b context timeout_s (bj_decision j)) timeout_s)
           (\<lambda>(a, accepted). unless_failed (acceptance_failure accepted ''mineBlock'' pos)
         (tx_bind (await_result (recording port) a) (\<lambda>r. tx_return (mined_metrics pos ?b (bj_decision j) metrics r))))))
        (breaks_along port rules)" for approached
      by (rule leads_or_return [OF decided_breaks], assumption, rule leads_then [OF send])
        (auto intro!: keeps_flow breaks.keeps_await_result)
  qed
  show "leads (holding_block (recording port) ?kept rules pos block)
     (tx_bind (judge_break (recording port) pos ?b context explicit_target) (\<lambda>decision.
        if \<not> ld_allowed decision then tx_return (denied_result ''break_denied'' pos ?b decision) else ?go decision))
     (breaks_along port rules)"
  proof (rule leads_judged)
    fix j
    assume j: "bj_pos j = pos" "bj_block_type j = ?b" "bj_context j = context" "genuine j"
      "?kept \<longrightarrow> same_regions (bj_policy j) rules"
    show "leads (decided_inv (recording port) ?kept rules block j)
        (if \<not> ld_allowed (bj_decision j) then tx_return (denied_result ''break_denied'' pos ?b (bj_decision j)) else ?go (bj_decision j))
        (breaks_along port rules)"
    proof (cases "ld_allowed (bj_decision j)")
      case True
      then have "clears (recording port) ?kept rules block j" using j ok by (simp add: clears_def)
      then show ?thesis using go j(1,3) True by simp
    next
      case False
      then show ?thesis using leads_weaken [OF decided_breaks] by simp
    qed
  qed
qed

section \<open>Placing, sealing and collecting\<close>

context log_invariant begin

lemma keeps_record_observed: "keeps inv (record_observed (recording port) pos block_type purpose raws recorded)"
  by (induction raws arbitrary: recorded) (auto intro!: keeps_intros keeps_record)

lemma keeps_record_missed: "keeps inv (record_missed (recording port) pos block_type purpose r)"
  unfolding record_missed_def by (intro keeps_intros keeps_record_observed)

lemma keeps_place_block:
  assumes "\<And>r. C (Perceived ''blockAt'' (block_params pos) r)"
    and "\<And>a r. ac_name a = ''placeBlock'' \<Longrightarrow> C (Executed a r)" and "\<And>j. C (Judged (Place_Judged j))"
  shows "keeps inv (place_block (recording port) pos block_type face context purpose replacing timeout_s)"
  unfolding place_block_def
  by (intro keeps_flow keeps_perceive keeps_get_state keeps_judge_place keeps_send keeps_await_result keeps_record
      keeps_record_missed assms) (simp add: sent_as_def)

lemma keeps_try_seal_blocks:
  assumes "\<And>b face ctx purpose replacing t. keeps inv (place_block (recording port) pos b face ctx purpose replacing t)"
  shows "keeps inv (try_seal_blocks (recording port) pos timeout_s blocks attempts)"
  by (induction blocks arbitrary: attempts) (auto intro!: keeps_intros assms)

lemma keeps_select_item:
  assumes "\<And>a r. ac_name a = ''selectItem'' \<Longrightarrow> C (Executed a r)"
  shows "keeps inv (dispatch_select_item (recording port) item timeout_s)"
  unfolding dispatch_select_item_def
  by (intro keeps_intros keeps_send keeps_await_result)
    (auto simp: sent_as_def select_rejection_def assms split: body_exn.splits option.split intro: keeps_intros)

lemma keeps_seal_candidates: "keeps inv (seal_candidates (recording port) pages pos block_type faces opts)"
  unfolding seal_candidates_def by (intro keeps_intros keeps_read_inventory_slots)

lemma keeps_collect_pickaxe:
  assumes "\<And>a r. ac_name a = ''selectItem'' \<Longrightarrow> C (Executed a r)"
  shows "keeps inv (ensure_collect_pickaxe (recording port) pages pos block_type timeout_s)"
  unfolding ensure_collect_pickaxe_def
  by (intro keeps_intros keeps_read_inventory_counts keeps_select_item assms)

end

context travel_invariant begin

lemma keeps_seal_faces:
  assumes "navigation_keeps J port"
    and "\<And>pos b face ctx purpose replacing t. keeps inv (place_block (recording port) pos b face ctx purpose replacing t)"
  shows "keeps inv (seal_faces (recording port) pos block_type opts candidates faces sealed)"
  by (induction faces arbitrary: sealed)
    (auto simp: approach_seal_face_def place_first_available_seal_block_def split: option.split
      intro!: keeps_intros keeps_travel keeps_try_seal_blocks keeps_pause assms)

end

lemma other_actions_mine_nothing:
  "\<not> mines (Perceived scope params r)"
  "\<not> mines (Judged j)"
  "ac_name a = ''placeBlock'' \<Longrightarrow> \<not> mines (Executed a x)"
  "ac_name a = ''selectItem'' \<Longrightarrow> \<not> mines (Executed a x)"
  by simp_all

lemma keeps_mine_sealed:
  "keeps (breaks_along port rules) (mine_sealed (recording port) pages pos context block_type opts faces)"
  unfolding mine_sealed_def liquid_contact_positions_def
  by (intro keeps_flow breaks.keeps_seal_candidates breaks.keeps_seal_faces breaks.keeps_place_block navigation_keeps_breaks
      breaks.keeps_scan keeps_mine_block other_actions_mine_nothing)

lemma keeps_mine_block_dry:
  "keeps (breaks_along port rules) (mine_block_dry (recording port) pages pos context opts)"
  unfolding mine_block_dry_def liquid_contact_positions_def liquid_face_positions_def
  by (intro keeps_flow breaks.keeps_perceive breaks.keeps_scan keeps_mine_block keeps_mine_sealed other_actions_mine_nothing)

section \<open>The pickup looks and walks\<close>

context log_invariant begin

lemma keeps_read_delta: "keeps inv (read_delta (recording port) pages counts expected)"
  unfolding read_delta_def by (intro keeps_intros keeps_read_inventory_counts)

lemma keeps_poll_rounds: "keeps inv (poll_rounds (recording port) pages counts expected deadline polls reading)"
proof (induction polls arbitrary: reading)
  case (Suc polls)
  show ?case
    unfolding poll_rounds.simps by (intro keeps_intros keeps_monotonic keeps_pause keeps_read_delta Suc.IH)
qed (simp add: keeps_raise)

lemma keeps_poll: "keeps inv (poll_inventory_delta (recording port) pages counts expected window_s assist)"
  unfolding poll_inventory_delta_def
  by (intro keeps_intros keeps_read_delta keeps_monotonic keeps_poll_rounds)

lemma keeps_scan_candidates:
  assumes "\<And>params r. C (Perceived ''nearbyEntities'' params r)"
  shows "keeps inv (scan_candidates (recording port) cfg expected)"
  unfolding scan_candidates_def by (intro keeps_intros keeps_perceive assms)

lemma keeps_after_attempt:
  "keeps inv (after_attempt (recording port) pages cfg counts expected minimum cs interrupted st)"
  unfolding after_attempt_def by (intro keeps_intros keeps_poll)

end

context travel_invariant begin

lemma keeps_track:
  "navigation_keeps J port \<Longrightarrow> keeps inv (track_candidate (recording port) tracked cfg)"
  unfolding track_candidate_def
  by (auto split: option.split intro!: keeps_intros keeps_following)

lemma keeps_attempt_route:
  "port_navigate (recording port) = Some nav \<Longrightarrow> navigation_keeps J port \<Longrightarrow>
     keeps inv (attempt_route (recording port) nav pages cfg counts expected minimum st cs)"
  unfolding attempt_route_def Let_def by (intro keeps_intros keeps_travel keeps_after_attempt)

lemma keeps_pickup_scanned:
  "port_navigate (recording port) = Some nav \<Longrightarrow> navigation_keeps J port \<Longrightarrow>
     keeps inv (pickup_scanned (recording port) nav pages cfg counts expected minimum fallback scanned p metrics st)"
  unfolding pickup_scanned_def Let_def attempt_tracked_def
  by (intro keeps_intros keeps_track keeps_attempt_route keeps_after_attempt)

lemma keeps_pickup_rounds:
  assumes "port_navigate (recording port) = Some nav" and "navigation_keeps J port"
    and "\<And>params r. C (Perceived ''nearbyEntities'' params r)"
  shows "keeps inv (pickup_rounds (recording port) nav pages cfg counts expected minimum fallback started rounds scan_round st)"
proof (induction rounds arbitrary: scan_round st)
  case (Suc rounds)
  show ?case
    unfolding pickup_rounds.simps
    by (intro keeps_intros keeps_monotonic keeps_scan_candidates keeps_pickup_scanned Suc.IH assms)
qed (simp add: keeps_return)

lemma keeps_collect_drops:
  assumes "navigation_keeps J port" and "\<And>params r. C (Perceived ''nearbyEntities'' params r)"
  shows "keeps inv (collect_drops (recording port) pages window_s pos counts expected)"
  unfolding collect_drops_def collect_inventory_delta_def Let_def
  by (intro keeps_intros keeps_monotonic keeps_poll keeps_pickup_rounds assms)

end

lemma keeps_mine_block_collect:
  "keeps (breaks_along port rules) (mine_block_collect (recording port) pages pos context opts)"
  unfolding mine_block_collect_def collect_mined_def
  by (intro keeps_flow breaks.keeps_perceive breaks.keeps_collect_pickaxe breaks.keeps_read_inventory_counts
      breaks.keeps_judge_break breaks.keeps_pause breaks.keeps_collect_drops navigation_keeps_breaks
      keeps_mine_block keeps_mine_block_dry other_actions_mine_nothing)

section \<open>An ore is opened only when it is dry\<close>

definition unmined :: "body_call list \<Rightarrow> bool" where
  "unmined cs \<longleftrightarrow> (\<forall>c\<in>set cs. \<not> mines c)"

interpretation unopened: travel_invariant "\<lambda>cs p. unmined cs" "\<lambda>c. \<not> mines c"
  by unfold_locales (auto simp: unmined_def)

abbreviation unmined_inv :: "'w logged tx_state \<Rightarrow> bool" where
  "unmined_inv \<equiv> log_invariant.inv (\<lambda>cs p. unmined cs)"

lemma navigation_keeps_unmined: "navigation_keeps (\<lambda>cs p. unmined cs) port"
  by (simp add: navigation_keeps_def)

lemma after_bind:
  assumes "I s" and "keeps I m" and "\<And>t. I t \<Longrightarrow> P t" and "\<And>a t. m s = (Inr a, t) \<Longrightarrow> I t \<Longrightarrow> P (snd (f a t))"
  shows "P (snd (tx_bind m f s))"
proof -
  obtain r t where run: "m s = (r, t)" by (rule prod.exhaust)
  then have "I t" using keepsD [OF assms(2,1)] by simp
  then show ?thesis using run assms(3,4) by (cases r) (simp_all add: tx_bind_def)
qed

lemma after_unless:
  "P s \<Longrightarrow> (failed = None \<Longrightarrow> P (snd (k s))) \<Longrightarrow> P (snd (unless_failed failed k s))"
  by (cases failed) (simp_all add: unless_failed_def tx_return_def)

lemma after_or_return:
  "P s \<Longrightarrow> (\<And>a. r = Inr a \<Longrightarrow> P (snd (k a s))) \<Longrightarrow> P (snd (or_return r k s))"
  by (cases r) (simp_all add: or_return_def tx_return_def)

lemma after_return [simp]: "snd (tx_bind m (\<lambda>a. tx_return (f a)) s) = snd (m s)" "snd (tx_return a s) = s"
  by (auto simp: tx_bind_def tx_return_def split: prod.split sum.split)

text \<open>Where the mining of a dry transaction starts: nothing was mined yet, and no liquid was found.\<close>

definition opened_dry ::
  "'w logged body_port \<Rightarrow> position \<Rightarrow> break_context \<Rightarrow> dry_options \<Rightarrow> 'w logged tx_state \<Rightarrow> bool" where
  "opened_dry port pos context opts s' \<longleftrightarrow>
     (\<exists>s1 s2 explicit_target. unmined (tx_log s1) \<and> liquid_contact_positions port pos s1 = (Inr (Inr []), s2) \<and>
        s' = snd (mine_block port pos context (do_timeout_s opts) (\<not> do_prepositioned opts) explicit_target s2))"

definition dry_end :: "'w logged body_port \<Rightarrow> position \<Rightarrow> break_context \<Rightarrow> dry_options \<Rightarrow> 'w logged tx_state \<Rightarrow> bool" where
  "dry_end port pos context opts t \<longleftrightarrow> unmined_inv t \<or> opened_dry port pos context opts t"

lemma dry_end_unmined: "unmined_inv t \<Longrightarrow> dry_end port pos context opts t"
  by (simp add: dry_end_def)

lemma dry_end_opened: "opened_dry port pos context opts t \<Longrightarrow> dry_end port pos context opts t"
  by (simp add: dry_end_def)

lemma contact_then_mine:
  assumes t: "unmined_inv t"
    and other: "\<And>remaining u. remaining \<noteq> [] \<Longrightarrow> unmined_inv u \<Longrightarrow> dry_end (recording port) pos context opts (snd (k remaining u))"
  shows "dry_end (recording port) pos context opts (snd (tx_bind (liquid_contact_positions (recording port) pos)
    (\<lambda>r. or_return r (\<lambda>remaining. if remaining = []
       then tx_bind (mine_block (recording port) pos context (do_timeout_s opts) (\<not> do_prepositioned opts) explicit_target) (\<lambda>m. tx_return (g m))
       else k remaining)) t))"
proof (rule after_bind [where I = unmined_inv])
  show "unmined_inv t" by (rule t)
next
  show "keeps unmined_inv (liquid_contact_positions (recording port) pos)"
    unfolding liquid_contact_positions_def by (rule unopened.keeps_scan)
next
  fix r u
  assume scan: "liquid_contact_positions (recording port) pos t = (Inr r, u)" and u: "unmined_inv u"
  have "unmined (tx_log t)" using t by (simp add: unopened.inv_def)
  then have opened: "opened_dry (recording port) pos context opts
      (snd (mine_block (recording port) pos context (do_timeout_s opts) (\<not> do_prepositioned opts) explicit_target u))"
    if "r = Inr []" using scan that unfolding opened_dry_def by blast
  show "dry_end (recording port) pos context opts (snd (or_return r (\<lambda>remaining. if remaining = []
       then tx_bind (mine_block (recording port) pos context (do_timeout_s opts) (\<not> do_prepositioned opts) explicit_target) (\<lambda>m. tx_return (g m))
       else k remaining) u))"
    by (rule after_or_return) (use u opened other in \<open>simp_all add: dry_end_unmined dry_end_opened\<close>)
qed (rule dry_end_unmined)

lemma if_nonempty: "(if xs \<noteq> [] then a else b) = (if xs = [] then b else a)"
  by simp

lemma mine_sealed_dry:
  assumes "unmined_inv s"
  shows "dry_end (recording port) pos context opts (snd (mine_sealed (recording port) pages pos context block_type opts faces s))"
  unfolding mine_sealed_def if_nonempty
  apply (rule after_bind [where I = unmined_inv], rule assms, rule unopened.keeps_seal_candidates, erule dry_end_unmined,
    rule after_or_return, erule dry_end_unmined, simp only: split_beta)
  apply (rule after_bind [where I = unmined_inv], assumption)
  apply (intro unopened.keeps_seal_faces unopened.keeps_place_block navigation_keeps_unmined other_actions_mine_nothing; assumption)
  apply (erule dry_end_unmined)
  apply (rule after_or_return, erule dry_end_unmined)
  apply (rule contact_then_mine, assumption)
  apply (simp add: dry_end_unmined)
  done

text \<open>
  A dry mining mines nothing, or its target was read as no ore, or the mining starts right where a
  look around the ore found no liquid.
\<close>

lemma ore_is_opened_dry:
  assumes start: "unmined_inv s" and run: "mine_block_dry (recording port) pages pos context opts s = (r, s')"
    and block: "perceive (recording port) ''blockAt'' (block_params pos) s = (Inr block, s0)"
    and ore: "is_ore_block (type_or_unknown (recording port) block)"
  shows "dry_end (recording port) pos context opts s'"
proof -
  have s0: "unmined_inv s0"
    using keepsD [OF unopened.keeps_perceive start, of "''blockAt''" "block_params pos" port] block by simp
  have "dry_end (recording port) pos context opts (snd (mine_block_dry (recording port) pages pos context opts s))"
    unfolding mine_block_dry_def tx_bind_def [of "perceive _ _ _"] block Let_def
    using s0 ore
    apply simp
    apply (rule after_unless)
    apply (simp add: dry_end_unmined)
    apply (rule contact_then_mine, assumption)
    apply (rule after_bind [where I = unmined_inv], assumption)
    unfolding liquid_face_positions_def
    apply (rule unopened.keeps_scan)
    apply (simp add: dry_end_unmined)
    apply (rule after_or_return)
    apply (simp_all add: dry_end_unmined mine_sealed_dry)
    done
  then show ?thesis using run by simp
qed

section \<open>The transactions of the component\<close>

text \<open>What a cleared break is worth: the rules of the governance policy hold of it.\<close>

definition rightful_break :: "break_judgement \<Rightarrow> bool" where
  "rightful_break j \<longleftrightarrow>
     break_permitted (bj_policy j) (bj_assessor j) (fst (bj_envs j)) (bj_pos j) (normalize_block_type (bj_block_type j))
       (bj_context j) (bj_explicit j) (acting_bot (bj_policy j) None) \<and>
     outside_protection (bj_policy j) (bj_pos j)"

lemma cleared_break_rightful:
  assumes "cleared_break port j cs a"
  shows "rightful_break j"
proof -
  have j: "genuine j" "ld_allowed (bj_decision j)" using assms by (simp_all add: cleared_break_def)
  have "break_permitted (bj_policy j) (bj_assessor j) (fst (bj_envs j)) (bj_pos j) (normalize_block_type (bj_block_type j))
      (bj_context j) (bj_explicit j) (acting_bot (bj_policy j) None)"
    using j(2) unfolding j(1) [unfolded genuine_def] can_break_allowed_iff .
  then show ?thesis by (simp add: rightful_break_def break_permitted_def)
qed

lemma same_regions_outside: "same_regions p q \<Longrightarrow> outside_protection p pos \<Longrightarrow> outside_protection q pos"
  by (simp add: outside_protection_def same_regions_def)

lemma breaks_along_sent:
  fixes s' :: "'w logged tx_state"
  assumes "breaks_along port rules s'"
    and "i < length (tx_log s')" "tx_log s' ! i = Executed a x" "ac_name a = ''mineBlock''"
  shows "\<exists>j. cleared_break (recording port) j (take i (tx_log s')) a \<and> rightful_break j \<and>
    (navigator_keeps_regions port \<longrightarrow> outside_protection rules (bj_pos j))"
proof -
  obtain j where j: "cleared_break (recording port) j (take i (tx_log s')) a"
      and kept: "navigator_keeps_regions port \<longrightarrow> same_regions (bj_policy j) rules"
    using assms unfolding breaks.inv_def breaks_cleared_def by blast
  have rightful: "rightful_break j" by (rule cleared_break_rightful [OF j])
  then have "outside_protection (bj_policy j) (bj_pos j)" by (simp add: rightful_break_def)
  with j kept rightful show ?thesis using same_regions_outside by blast
qed

text \<open>
  C7. Collecting a block, its approach, its seals and the pickup of the drops included, sends
  \<open>mineBlock\<close> only where the latest reading of the position is complete and the latest decision
  after that reading is the governance policy's own, about the block type that was read, and allows
  the break; the action names the position, the type, the context and that decision. The break
  keeps the rules of the policy in force when it was decided, which protect its regions; where the
  navigator does not change the declared regions, those of the start are protected too. (The breaks
  that the navigator makes on its way are its own.)
\<close>

theorem collecting_breaks_only_what_was_cleared:
  assumes start: "tx_log s = []"
    and run: "mine_block_collect (recording port) pages pos context opts s = (r, s')"
    and sent: "i < length (tx_log s')" "tx_log s' ! i = Executed a x" "ac_name a = ''mineBlock''"
  shows "\<exists>j. cleared_break (recording port) j (take i (tx_log s')) a \<and> rightful_break j \<and>
    (navigator_keeps_regions port \<longrightarrow> outside_protection (tx_policy s) (bj_pos j))"
proof -
  have "breaks_along port (tx_policy s) s"
    using start by (simp add: breaks.inv_def breaks_cleared_start)
  then have "breaks_along port (tx_policy s) (snd (mine_block_collect (recording port) pages pos context opts s))"
    by (rule keepsD [OF keeps_mine_block_collect])
  then show ?thesis using breaks_along_sent [OF _ sent] run by simp
qed

text \<open>
  C10. A dry mining whose target was read as an ore either mines nothing, or the mining starts in
  the very state in which a complete look at the block and its six neighbours found no liquid.
\<close>

theorem ore_is_opened_only_when_dry:
  assumes start: "unmined (tx_log s)"
    and run: "mine_block_dry (recording port) pages pos context opts s = (r, s')"
    and block: "perceive (recording port) ''blockAt'' (block_params pos) s = (Inr block, s0)"
    and ore: "is_ore_block (type_or_unknown (recording port) block)"
  shows "unmined (tx_log s') \<or>
    (\<exists>s1 s2 explicit_target. unmined (tx_log s1) \<and>
       liquid_contact_positions (recording port) pos s1 = (Inr (Inr []), s2) \<and>
       s' = snd (mine_block (recording port) pos context (do_timeout_s opts) (\<not> do_prepositioned opts) explicit_target s2))"
  using ore_is_opened_dry [OF _ run block ore] start by (simp add: dry_end_def opened_dry_def unopened.inv_def)

section \<open>Applications\<close>

definition dirt_yard :: "demo_world logged tx_state" where
  "dirt_yard = \<lparr>tx_world = (\<lparr>dw_cells = [((2, 0, 0), ''dirt'', ''SOLID'')], dw_pos = (1/2, 0, 1/2),
     dw_items = [], dw_clock = 0, dw_next_id = 1\<rparr>, []), tx_policy = yard_policy\<rparr>"

definition dirt_options :: collect_options where
  "dirt_options = \<lparr>co_dry = False, co_expected_drops = [], co_target_block_types = [''dirt''], co_drop_map = [],
     co_settle_s = 1/2, co_pickup_timeout_s = 0, co_timeout_s = 5, co_prepositioned = True\<rparr>"

lemma dirt_budget:
  "action_with_timeout (\<lambda>_. None) None 0 \<lparr>ac_id = ''1'', ac_name = ''mineBlock'', ac_params = mine_params pos ''dirt'' ctx 5 d\<rparr> 5 =
     Inr \<lparr>ac_id = ''1'', ac_name = ''mineBlock'', ac_params = budget_params 5 (mine_params pos ''dirt'' ctx 5 d)\<rparr>"
proof -
  have "seconds_to_ticks 5 = 100" by code_simp
  moreover have "py_float (\<lambda>_. None) (JInt 100) = Inr (Fin 100)" by code_simp
  moreover have "flt_min (flt_min (flt_div (Fin 100) 20) (Fin 5)) (Fin 300) = Fin 5" by code_simp
  ultimately show ?thesis
    by (simp add: action_with_timeout_def requested_budget_def mine_params_def demo_run)
qed

lemma dirt_collected:
  "\<exists>r a x t. mine_block_collect (recording demo_port) 1 (2, 0, 0) BC_COLLECT dirt_options dirt_yard = (r, t) \<and>
     6 < length (tx_log t) \<and> tx_log t ! 6 = Executed a x \<and> ac_name a = ''mineBlock''"
proof -
  have "in_mine_reach BC_COLLECT (1/2, 0, 1/2) (2, 0, 0)" "str_of_nat (Suc 0) = ''1''" "required_pickaxe_tier ''dirt'' = None"
      "region_contains demo_region (2, 0, 0)"
    by code_simp+
  then show ?thesis
    by (simp add: demo_run dirt_yard_def mine_block_collect_def collect_mined_def mine_block_def unless_failed_def or_return_def
      perception_failure_def dirt_options_def type_or_unknown_def normalize_item_name_def removeprefix_def
      ensure_collect_pickaxe_def check_prepositioned_def read_inventory_counts_def read_inventory_slots_def preferred_inventory_page_size_def reply_slots_def
      perception_next_cursor_def slots_from.simps perceived_slots_def counts_of_def acceptance_failure_def
      body_rejection_to_tool_result_def dirt_budget legality_def done_result_def metrics_of_def tx_log_def
      mined_metrics_def set_default_def collect_drops_def collect_inventory_delta_def poll_inventory_delta_def read_delta_def
      gained_items_def default_pickup_def pickup_outcome_def
      cong: tx_bind_arg_cong tx_next_arg_cong)
qed

lemma demo_stays: "navigator_keeps_regions demo_port"
  by (simp add: navigator_keeps_regions_def navigation_keeps_def demo_port_def)

lemma collecting_breaks_only_what_was_cleared_witness:
  "\<exists>(t :: demo_world logged tx_state) a x j. tx_log t ! 6 = Executed a x \<and> ac_name a = ''mineBlock'' \<and>
     cleared_break (recording demo_port) j (take 6 (tx_log t)) a \<and> rightful_break j \<and> outside_protection yard_policy (bj_pos j)"
proof -
  obtain r a x t where run: "mine_block_collect (recording demo_port) 1 (2, 0, 0) BC_COLLECT dirt_options dirt_yard = (r, t)"
    and sent: "6 < length (tx_log t)" "tx_log t ! 6 = Executed a x" "ac_name a = ''mineBlock''"
    using dirt_collected by blast
  have "tx_log dirt_yard = []" "tx_policy dirt_yard = yard_policy" by (simp_all add: dirt_yard_def tx_log_def)
  then obtain j where "cleared_break (recording demo_port) j (take 6 (tx_log t)) a" "rightful_break j"
      "outside_protection yard_policy (bj_pos j)"
    using collecting_breaks_only_what_was_cleared [OF _ run sent] demo_stays by auto
  with sent show ?thesis by blast
qed

definition ore_yard :: "demo_world logged tx_state" where
  "ore_yard = \<lparr>tx_world = (\<lparr>dw_cells = [((2, 0, 0), ''coal_ore'', ''SOLID'')], dw_pos = (1/2, 0, 1/2),
     dw_items = [], dw_clock = 0, dw_next_id = 1\<rparr>, []), tx_policy = yard_policy\<rparr>"

lemma ore_is_opened_only_when_dry_witness:
  "\<exists>s'. s' = snd (mine_block_dry (recording demo_port) 1 (2, 0, 0) BC_COLLECT (dry_options_for dirt_options True []) ore_yard) \<and>
     (unmined (tx_log s') \<or>
      (\<exists>s1 s2 explicit_target. unmined (tx_log s1) \<and>
         liquid_contact_positions (recording demo_port) (2, 0, 0) s1 = (Inr (Inr []), s2) \<and>
         s' = snd (mine_block (recording demo_port) (2, 0, 0) BC_COLLECT 5 False explicit_target s2)))"
proof -
  let ?o = "dry_options_for dirt_options True []"
  obtain r s' where run: "mine_block_dry (recording demo_port) 1 (2, 0, 0) BC_COLLECT ?o ore_yard = (r, s')" by (rule prod.exhaust)
  have "unmined (tx_log ore_yard)" by (simp add: unmined_def ore_yard_def tx_log_def)
  moreover have "\<exists>block t. perceive (recording demo_port) ''blockAt'' (block_params (2, 0, 0)) ore_yard = (Inr block, t) \<and>
      is_ore_block (type_or_unknown (recording demo_port) block)"
  proof -
    have "is_ore_block ''coal_ore''" by code_simp
    then show ?thesis by (simp add: ore_yard_def demo_run type_or_unknown_def)
  qed
  moreover have "do_timeout_s ?o = 5 \<and> do_prepositioned ?o" by (simp add: dry_options_for_def dirt_options_def)
  ultimately show ?thesis using ore_is_opened_only_when_dry [OF _ run] run by fastforce
qed

end
