(* ===== verification/Pickup_Safety.thy ===== *)
theory Pickup_Safety
  imports Block_Safety
begin

text \<open>
  What a pickup and a collecting of a block may report: a gain is the difference of two complete
  inventory reads of this very run, the second of which is the last thing that was done; and a
  pickup looks and walks, but sends no action of its own.
\<close>

section \<open>The log of a pickup\<close>

fun sends_action :: "body_call \<Rightarrow> bool" where
  "sends_action (Executed a r) \<longleftrightarrow> True"
| "sends_action _ \<longleftrightarrow> False"

lemma passive_sends_no_action [simp]: "passive_entry c \<Longrightarrow> \<not> sends_action c"
  by (cases c) auto

text \<open>The log went on from \<open>old\<close> without an action, or went on.\<close>

definition only_looked :: "body_call list \<Rightarrow> body_call list \<Rightarrow> bool" where
  "only_looked old cs \<longleftrightarrow> (\<exists>xs. cs = old @ xs \<and> (\<forall>c\<in>set xs. \<not> sends_action c))"

lemma only_looked_refl [simp]: "only_looked old old"
  by (simp add: only_looked_def)

lemma only_looked_trans: "only_looked a b \<Longrightarrow> only_looked b c \<Longrightarrow> only_looked a c"
  unfolding only_looked_def by (metis Un_iff append.assoc set_append)

lemma only_looked_prefix: "only_looked a b \<Longrightarrow> prefix a b"
  by (auto simp: only_looked_def)

interpretation looking: travel_invariant "\<lambda>cs p. only_looked old cs" "\<lambda>c. \<not> sends_action c" for old
proof unfold_locales
  fix cs c
  assume "only_looked old cs" and c: "\<not> sends_action c"
  then obtain xs where xs: "cs = old @ xs" "\<forall>c\<in>set xs. \<not> sends_action c" by (auto simp: only_looked_def)
  then have "cs @ [c] = old @ (xs @ [c])" "\<forall>d\<in>set (xs @ [c]). \<not> sends_action d" using c by auto
  then show "only_looked old (cs @ [c])" unfolding only_looked_def by blast
qed simp_all

interpretation grown: travel_invariant "\<lambda>cs p. prefix old cs" "\<lambda>_. True" for old
  by unfold_locales (simp_all add: prefix_prefix)

abbreviation looking_inv :: "body_call list \<Rightarrow> 'w logged tx_state \<Rightarrow> bool" where
  "looking_inv old \<equiv> log_invariant.inv (\<lambda>cs p. only_looked old cs)"

abbreviation grown_inv :: "body_call list \<Rightarrow> 'w logged tx_state \<Rightarrow> bool" where
  "grown_inv old \<equiv> log_invariant.inv (\<lambda>cs p. prefix old cs)"

lemma stands_still: "navigation_keeps (\<lambda>cs p. only_looked old cs) port" "navigation_keeps (\<lambda>cs p. prefix old cs) port"
  by (simp_all add: navigation_keeps_def)

section \<open>A reading that was just made\<close>

text \<open>A reading of gains whose inventory read ends in this state, after the log was at \<open>old\<close>.\<close>

definition just_read ::
  "'w body_port \<Rightarrow> nat \<Rightarrow> body_call list \<Rightarrow> (string, int) pydict \<Rightarrow> string list \<Rightarrow> pickup_reading \<Rightarrow> 'w logged tx_state \<Rightarrow> bool" where
  "just_read port pages old counts items reading s' \<longleftrightarrow>
     (\<exists>t. only_looked old (tx_log t) \<and> read_inventory_counts (recording port) pages None t = (Inr (Inr (fst reading)), s')) \<and>
     reading = gained_items counts items (fst reading)"

abbreviation reading_gain :: "pickup_reading \<Rightarrow> int" where "reading_gain reading \<equiv> snd (snd reading)"

lemma read_delta_just:
  assumes "read_delta (recording port) pages counts items s = (Inr (Inr reading), s')" and "looking_inv old s"
  shows "just_read port pages old counts items reading s'"
proof -
  obtain x where x: "read_inventory_counts (recording port) pages None s = (Inr x, s')"
    "map_sum id (gained_items counts items) x = Inr reading"
    using assms(1) by (auto simp: read_delta_def tx_bind_Inr tx_return_def)
  then obtain after where after: "x = Inr after" "reading = gained_items counts items after" by (cases x) auto
  then have "fst reading = after" by (simp add: gained_items_def Let_def)
  then show ?thesis using x(1) after assms(2) by (auto simp: just_read_def looking.inv_def)
qed

lemma poll_rounds_just:
  assumes "poll_rounds (recording port) pages counts items deadline polls reading0 s = (Inr (Inr reading), s')"
    and "looking_inv old s" and "0 < reading_gain reading" and "reading_gain reading0 \<le> 0"
  shows "just_read port pages old counts items reading s'"
  using assms(1,2,4)
proof (induction polls arbitrary: reading0 s)
  case 0
  then show ?case by (simp add: tx_raise_def)
next
  case (Suc polls)
  obtain now t where now: "tx_read (port_monotonic (recording port)) s = (Inr now, t)"
    and rest: "(if now < deadline
     then tx_bind (tx_read (port_monotonic (recording port))) (\<lambda>now'.
          tx_bind (pause_for (recording port) (min poll_pause_s (max 0 (deadline - now')))) (\<lambda>_.
          tx_bind (read_delta (recording port) pages counts items) (\<lambda>r. case r of
            Inl failed \<Rightarrow> tx_return (Inl failed)
          | Inr reading' \<Rightarrow>
              if snd (snd reading') > 0 then tx_return (Inr reading')
              else poll_rounds (recording port) pages counts items deadline polls reading')))
     else tx_return (Inr reading0)) t = (Inr (Inr reading), s')"
    using Suc.prems(1) unfolding poll_rounds.simps tx_bind_Inr by blast
  have t: "looking_inv old t" using keepsD [OF looking.keeps_monotonic Suc.prems(2)] now by (metis snd_conv)
  show ?case
  proof (cases "now < deadline")
    case False
    then show ?thesis using rest assms(3) Suc.prems(3) by (simp add: tx_return_def)
  next
    case True
    then obtain now' u x v r w where u: "tx_read (port_monotonic (recording port)) t = (Inr now', u)"
      and v: "pause_for (recording port) (min poll_pause_s (max 0 (deadline - now'))) u = (Inr x, v)"
      and r: "read_delta (recording port) pages counts items v = (Inr r, w)"
      and fin: "(case r of
            Inl failed \<Rightarrow> tx_return (Inl failed)
          | Inr reading' \<Rightarrow>
              if snd (snd reading') > 0 then tx_return (Inr reading')
              else poll_rounds (recording port) pages counts items deadline polls reading') w = (Inr (Inr reading), s')"
      using rest unfolding if_P [OF True] tx_bind_Inr by blast
    have u': "looking_inv old u" using keepsD [OF looking.keeps_monotonic t] u by (metis snd_conv)
    have v': "looking_inv old v" using keepsD [OF looking.keeps_pause u'] v by (metis snd_conv)
    have w': "looking_inv old w" using keepsD [OF looking.keeps_read_delta v'] r by (metis snd_conv)
    show ?thesis
    proof (cases r)
      case (Inl failed)
      then show ?thesis using fin by (simp add: tx_return_def)
    next
      case (Inr reading')
      show ?thesis
      proof (cases "0 < snd (snd reading')")
        case True
        then have "reading = reading'" "s' = w" using fin Inr by (simp_all add: tx_return_def)
        then show ?thesis using read_delta_just [OF _ v'] r Inr by simp
      next
        case False
        then show ?thesis using Suc.IH [OF _ w', of reading'] fin Inr by simp
      qed
    qed
  qed
qed

lemma poll_just:
  assumes "poll_inventory_delta (recording port) pages counts items window_s assist s = (Inr (Inr reading, assist'), s')"
    and s: "looking_inv old s" and gain: "0 < reading_gain reading"
  shows "just_read port pages old counts items reading s'"
proof -
  obtain r t where r: "read_delta (recording port) pages counts items s = (Inr r, t)"
    and rest: "(case r of
       Inl failed \<Rightarrow> tx_return (Inl failed, assist)
     | Inr reading \<Rightarrow>
         if snd (snd reading) > 0 \<or> window_s \<le> 0 then tx_return (Inr reading, assist)
         else tx_bind (tx_read (port_monotonic (recording port))) (\<lambda>now.
              tx_bind (poll_rounds (recording port) pages counts items (now + window_s) pages reading) (\<lambda>r'.
              tx_return (r', assist\<lparr>pa_waited := True\<rparr>)))) t = (Inr (Inr reading, assist'), s')"
    using assms(1) unfolding poll_inventory_delta_def tx_bind_Inr by blast
  have t: "looking_inv old t" using keepsD [OF looking.keeps_read_delta s] r by (metis snd_conv)
  obtain reading0 where r0: "r = Inr reading0" using rest by (cases r) (auto simp: tx_return_def)
  show ?thesis
  proof (cases "snd (snd reading0) > 0 \<or> window_s \<le> 0")
    case True
    then have "reading = reading0" "s' = t" using rest r0 by (simp_all add: tx_return_def)
    then show ?thesis using read_delta_just [OF _ s] r r0 by simp
  next
    case False
    then obtain now u where now: "tx_read (port_monotonic (recording port)) t = (Inr now, u)"
      and rounds: "poll_rounds (recording port) pages counts items (now + window_s) pages reading0 u = (Inr (Inr reading), s')"
      using rest r0 by (auto simp: tx_bind_Inr tx_return_def)
    have "looking_inv old u" using keepsD [OF looking.keeps_monotonic t] now by (metis snd_conv)
    then show ?thesis by (rule poll_rounds_just [OF rounds _ gain]) (use False in simp)
  qed
qed

text \<open>Every value that a transaction returns satisfies \<open>P\<close>; a read that fails is no success.\<close>

definition returns :: "('w, 'a) tx \<Rightarrow> ('a \<Rightarrow> bool) \<Rightarrow> bool" where
  "returns m P \<longleftrightarrow> (\<forall>s r s'. m s = (Inr r, s') \<longrightarrow> P r)"

lemma returnsD: "returns m P \<Longrightarrow> m s = (Inr r, s') \<Longrightarrow> P r"
  unfolding returns_def by blast

lemma returns_value: "P a \<Longrightarrow> returns (tx_return a) P"
  by (simp add: returns_def tx_return_def)

lemma returns_raise: "returns (tx_raise e) P"
  by (simp add: returns_def tx_raise_def)

lemma returns_then: "(\<And>a. returns (f a) P) \<Longrightarrow> returns (tx_bind m f) P"
  unfolding returns_def tx_bind_Inr by blast

lemma returns_bind: "returns m Q \<Longrightarrow> (\<And>a. Q a \<Longrightarrow> returns (f a) P) \<Longrightarrow> returns (tx_bind m f) P"
  unfolding returns_def tx_bind_Inr by blast

lemma returns_if: "(b \<Longrightarrow> returns m P) \<Longrightarrow> (\<not> b \<Longrightarrow> returns n P) \<Longrightarrow> returns (if b then m else n) P"
  by simp

fun unsuccessful :: "tool_result + 'a \<Rightarrow> bool" where
  "unsuccessful (Inl failed) \<longleftrightarrow> \<not> tr_success failed"
| "unsuccessful (Inr a) \<longleftrightarrow> True"

lemma read_counts_failed: "returns (read_inventory_counts port pages n) unsuccessful"
  unfolding read_inventory_counts_def by (intro returns_then returns_if returns_value) simp_all

lemma read_delta_failed: "returns (read_delta port pages counts items) unsuccessful"
  unfolding read_delta_def
proof (rule returns_bind [OF read_counts_failed], rule returns_value)
  fix a :: "tool_result + (string, int) pydict"
  assume "unsuccessful a"
  then show "unsuccessful (map_sum id (gained_items counts items) a)" by (cases a) simp_all
qed

lemma poll_rounds_failed: "returns (poll_rounds port pages counts items deadline polls reading) unsuccessful"
proof (induction polls arbitrary: reading)
  case (Suc polls)
  have tail: "returns (case r of Inl failed \<Rightarrow> tx_return (Inl failed)
          | Inr reading' \<Rightarrow> if snd (snd reading') > 0 then tx_return (Inr reading')
              else poll_rounds port pages counts items deadline polls reading') unsuccessful" if "unsuccessful r" for r
    using that by (cases r) (auto intro: returns_value Suc.IH)
  show ?case
    unfolding poll_rounds.simps
    by (rule returns_then, rule returns_if)
      (rule returns_then, rule returns_then, rule returns_bind [OF read_delta_failed], erule tail, rule returns_value, simp)
qed (simp add: returns_raise)

lemma poll_failed:
  assumes "poll_inventory_delta port pages counts items w assist s = (Inr (Inl failed, assist'), s')"
  shows "\<not> tr_success failed"
proof -
  have "returns (case r of Inl failed \<Rightarrow> tx_return (Inl failed, assist)
     | Inr reading \<Rightarrow> if snd (snd reading) > 0 \<or> w \<le> 0 then tx_return (Inr reading, assist)
         else tx_bind (tx_read (port_monotonic port)) (\<lambda>now.
              tx_bind (poll_rounds port pages counts items (now + w) pages reading) (\<lambda>r'.
              tx_return (r', assist\<lparr>pa_waited := True\<rparr>)))) (\<lambda>x. unsuccessful (fst x))" if "unsuccessful r" for r
    using that by (cases r) (auto intro!: returns_value returns_then returns_bind [OF poll_rounds_failed])
  then have "returns (poll_inventory_delta port pages counts items w assist) (\<lambda>x. unsuccessful (fst x))"
    unfolding poll_inventory_delta_def by (rule returns_bind [OF read_delta_failed])
  from returnsD [OF this assms] show ?thesis by simp
qed

section \<open>What the process ends with\<close>

text \<open>A failure is no success, and where the process reports enough, it reports a reading that was just made.\<close>

definition truthful ::
  "'w body_port \<Rightarrow> nat \<Rightarrow> body_call list \<Rightarrow> (string, int) pydict \<Rightarrow> string list \<Rightarrow> int \<Rightarrow> pickup_end \<Rightarrow> 'w logged tx_state \<Rightarrow> bool" where
  "truthful port pages old counts items minimum ended s' \<longleftrightarrow>
     (case ended of
        Inl (failed, assist) \<Rightarrow> \<not> tr_success failed
      | Inr report \<Rightarrow> minimum \<le> pk_collected_total report \<longrightarrow>
          just_read port pages old counts items (pk_after report, pk_deltas report, pk_collected_total report) s')"

lemma truthful_simps [simp]:
  "truthful port pages old counts items minimum (Inl (failed, a)) s' \<longleftrightarrow> \<not> tr_success failed"
  "truthful port pages old counts items minimum (pickup_failure st reason suggestion facts) s'"
  "ps_total st < minimum \<Longrightarrow> truthful port pages old counts items minimum (pickup_outcome st reason) s'"
  by (simp_all add: truthful_def pickup_outcome_def pickup_failure_def)

lemma truthful_outcome:
  "just_read port pages old counts items (ps_reading st) s' \<Longrightarrow>
     truthful port pages old counts items minimum (pickup_outcome st reason) s'"
  by (simp add: truthful_def pickup_outcome_def)

definition goes_on ::
  "'w body_port \<Rightarrow> nat \<Rightarrow> body_call list \<Rightarrow> (string, int) pydict \<Rightarrow> string list \<Rightarrow> int
   \<Rightarrow> pickup_end + pickup_state \<Rightarrow> 'w logged tx_state \<Rightarrow> bool" where
  "goes_on port pages old counts items minimum r s' \<longleftrightarrow>
     (case r of
        Inl ended \<Rightarrow> truthful port pages old counts items minimum ended s'
      | Inr st \<Rightarrow> ps_total st < minimum)"

lemma ps_total_frame [simp]:
  "ps_total (give_up cs st) = ps_total st" "ps_total (start_afresh st) = ps_total st"
  "ps_total (note_attempt a st) = ps_total st" "ps_total (note_scan n st cs m) = ps_total st"
  by (simp_all add: give_up_def start_afresh_def note_attempt_def note_scan_def Let_def)

lemma after_attempt_goes_on:
  assumes run: "after_attempt (recording port) pages cfg counts items minimum cs interrupted st s = (Inr r, s')"
    and s: "looking_inv old s" and minimum: "0 < minimum" and few: "ps_total st < minimum"
    and failing: "\<And>st' ended. interrupted st' = Some ended \<Longrightarrow> truthful port pages old counts items minimum ended s'"
  shows "goes_on port pages old counts items minimum r s'"
proof -
  obtain p assist where poll: "poll_inventory_delta (recording port) pages counts items (pc_poll_timeout_s cfg) (ps_assist st) s = (Inr (p, assist), s')"
    and r: "r = (case p of
       Inl failed \<Rightarrow> Inl (Inl (failed, assist_payload assist))
     | Inr reading \<Rightarrow>
         (let st' = st\<lparr>ps_reading := reading, ps_assist := assist\<rparr>
          in if ps_total st' \<ge> minimum then Inl (pickup_outcome st' ''pickup_collected'')
             else if ps_total st' > ps_total st then Inr (start_afresh st')
             else (case interrupted st' of
                     Some ended \<Rightarrow> Inl ended
                   | None \<Rightarrow>
                       (let st'' = give_up cs st'
                        in if pa_attempts (ps_assist st'') \<ge> pc_candidate_budget cfg
                           then Inl (pickup_outcome st'' ''pickup_budget_exhausted'') else Inr st''))))"
    using run by (auto simp: after_attempt_def tx_bind_Inr tx_return_def)
  show ?thesis
  proof (cases p)
    case (Inl failed)
    then show ?thesis using poll_failed [OF poll [unfolded Inl]] by (simp add: r goes_on_def)
  next
    case (Inr reading)
    let ?st = "st\<lparr>ps_reading := reading, ps_assist := assist\<rparr>"
    show ?thesis
    proof (cases "minimum \<le> reading_gain reading")
      case True
      then have "just_read port pages old counts items (ps_reading ?st) s'"
        using poll_just [OF poll [unfolded Inr] s] minimum by simp
      from truthful_outcome [OF this] show ?thesis using True Inr by (simp add: r goes_on_def)
    next
      case False
      then show ?thesis
        using failing [of ?st] by (auto simp: r Inr goes_on_def Let_def split: option.split)
    qed
  qed
qed

lemma attempt_route_goes_on:
  assumes nav: "port_navigate (recording port) = Some nav"
    and run: "attempt_route (recording port) nav pages cfg counts items minimum st cs s = (Inr r, s')"
    and s: "looking_inv old s" and minimum: "0 < minimum" and few: "ps_total st < minimum"
  shows "goes_on port pages old counts items minimum r s'"
proof -
  let ?goals = "map cd_pos cs"
  obtain a t selected where a: "navigate_to nav (AtGoal (GoalComposite (map (\<lambda>pos. GoalNear pos 0) ?goals) ''any'')) (pickup_route cfg) s = (Inr a, t)"
    and rest: "(let chosen = filter (\<lambda>c. cd_pos c = selected) cs;
              st' = note_attempt (JDict
                 [(''goal_set'', json_list ?goals json_position), (''selected_goal'', json_position selected),
                  (''selected_keys'', json_list (map cd_key chosen) JStr), (''navigation'', JDict (tool_result_payload a))]) st
          in if tr_success a
             then after_attempt (recording port) pages cfg counts items minimum chosen (\<lambda>_. None) st'
             else tx_return
               (if tr_reason a \<in> PICKUP_INTERRUPTIONS
                then Inl (pickup_failure st' (''pickup_navigation_'' @ tr_reason a) None
                       [(''navigation'', JDict (tool_result_payload a))])
                else if chosen = [] \<or> pa_attempts (ps_assist st') \<ge> pc_candidate_budget cfg
                then Inl (pickup_outcome st' (''pickup_navigation_'' @ tr_reason a))
                else Inr (give_up chosen st'))) t = (Inr r, s')"
    using run by (auto simp: attempt_route_def tx_bind_Inr tx_lift_def Let_def)
  have t: "looking_inv old t"
    using keepsD [OF looking.keeps_travel [OF nav stands_still(1)] s] a by (metis snd_conv)
  show ?thesis
  proof (cases "tr_success a")
    case True
    let ?chosen = "filter (\<lambda>c. cd_pos c = selected) cs"
    let ?st = "note_attempt (JDict
                 [(''goal_set'', json_list ?goals json_position), (''selected_goal'', json_position selected),
                  (''selected_keys'', json_list (map cd_key ?chosen) JStr), (''navigation'', JDict (tool_result_payload a))]) st"
    have "after_attempt (recording port) pages cfg counts items minimum ?chosen (\<lambda>_. None) ?st t = (Inr r, s')"
      using rest True by (simp add: Let_def)
    then show ?thesis by (rule after_attempt_goes_on [OF _ t minimum]) (simp_all add: few)
  next
    case False
    then show ?thesis using rest few by (auto simp: Let_def tx_return_def goes_on_def)
  qed
qed

lemma pickup_scanned_goes_on:
  assumes nav: "port_navigate (recording port) = Some nav"
    and run: "pickup_scanned (recording port) nav pages cfg counts items minimum fallback scanned p metrics st s = (Inr r, s')"
    and s: "looking_inv old s" and minimum: "0 < minimum" and few: "ps_total st < minimum"
  shows "goes_on port pages old counts items minimum r s'"
proof (cases "scanned = [] \<and> fallback = [] \<and> \<not> (pr_ok p \<and> pr_complete p) \<or> round_candidates cfg st scanned fallback = []")
  case True
  then show ?thesis using run few by (auto simp: pickup_scanned_def tx_return_def goes_on_def split: if_splits)
next
  case False
  let ?tracked = "single_trackable_candidate (filter (untried st) scanned)"
  obtain tracking t where tracking: "track_candidate (recording port) ?tracked cfg s = (Inr tracking, t)"
    and rest: "(case (tracking, ?tracked) of
                 (Some r, Some c) \<Rightarrow> attempt_tracked (recording port) pages cfg counts items minimum st c r
               | _ \<Rightarrow> attempt_route (recording port) nav pages cfg counts items minimum st
                        (round_candidates cfg st scanned fallback)) t = (Inr r, s')"
    using run False by (auto simp: pickup_scanned_def tx_bind_Inr Let_def split: if_splits)
  have t: "looking_inv old t"
    using keepsD [OF looking.keeps_track [OF stands_still(1)] s] tracking by (metis snd_conv)
  show ?thesis
  proof (cases "(\<exists>a. tracking = Some a) \<and> (\<exists>c. ?tracked = Some c)")
    case True
    then obtain a c where ac: "tracking = Some a" "?tracked = Some c" by blast
    then have tracked: "attempt_tracked (recording port) pages cfg counts items minimum st c a t = (Inr r, s')" using rest by simp
    show ?thesis
      by (rule after_attempt_goes_on [OF tracked [unfolded attempt_tracked_def] t minimum])
        (use few in \<open>auto split: if_splits\<close>)
  next
    case False
    then have "attempt_route (recording port) nav pages cfg counts items minimum st (round_candidates cfg st scanned fallback) t = (Inr r, s')"
      using rest by (cases tracking; cases ?tracked) auto
    then show ?thesis by (rule attempt_route_goes_on [OF nav _ t minimum few])
  qed
qed

lemma pickup_rounds_truthful:
  assumes nav: "port_navigate (recording port) = Some nav" and minimum: "0 < minimum"
    and "pickup_rounds (recording port) nav pages cfg counts items minimum fallback started rounds scan_round st s = (Inr ended, s')"
    and "looking_inv old s" and "ps_total st < minimum"
  shows "truthful port pages old counts items minimum ended s'"
  using assms(3-)
proof (induction rounds arbitrary: scan_round st s)
  case 0
  then show ?case by (auto simp: tx_return_def)
next
  case (Suc rounds)
  obtain now t where now: "tx_read (port_monotonic (recording port)) s = (Inr now, t)"
    and rest: "(if now - started \<ge> pc_max_wall_s cfg then tx_return (pickup_outcome st ''pickup_budget_exhausted'')
     else tx_bind (scan_candidates (recording port) cfg items) (\<lambda>(scanned, p, metrics).
          tx_bind (pickup_scanned (recording port) nav pages cfg counts items minimum fallback scanned p metrics
                     (note_scan scan_round st scanned metrics)) (\<lambda>r. case r of
            Inl ended \<Rightarrow> tx_return ended
          | Inr st' \<Rightarrow> pickup_rounds (recording port) nav pages cfg counts items minimum fallback started rounds (scan_round + 1) st'))) t = (Inr ended, s')"
    using Suc.prems(1) unfolding pickup_rounds.simps tx_bind_Inr by blast
  have t: "looking_inv old t" using keepsD [OF looking.keeps_monotonic Suc.prems(2)] now by (metis snd_conv)
  show ?case
  proof (cases "now - started \<ge> pc_max_wall_s cfg")
    case True
    then show ?thesis using rest Suc.prems(3) by (auto simp: tx_return_def)
  next
    case False
    then obtain scanned p metrics u r v where u: "scan_candidates (recording port) cfg items t = (Inr (scanned, p, metrics), u)"
      and r: "pickup_scanned (recording port) nav pages cfg counts items minimum fallback scanned p metrics
                     (note_scan scan_round st scanned metrics) u = (Inr r, v)"
      and fin: "(case r of
            Inl ended \<Rightarrow> tx_return ended
          | Inr st' \<Rightarrow> pickup_rounds (recording port) nav pages cfg counts items minimum fallback started rounds (scan_round + 1) st') v = (Inr ended, s')"
      using rest unfolding if_not_P [OF False] tx_bind_Inr by (auto simp: tx_bind_Inr)
    have u': "looking_inv old u" using keepsD [OF looking.keeps_scan_candidates t] u by (metis sends_action.simps(2) snd_conv)
    have v': "looking_inv old v"
      using keepsD [OF looking.keeps_pickup_scanned [OF nav stands_still(1)] u'] r by (metis snd_conv)
    note on = pickup_scanned_goes_on [OF nav r u' minimum]
    show ?thesis
    proof (cases r)
      case (Inl x)
      then show ?thesis using on fin Suc.prems(3) by (simp add: goes_on_def tx_return_def)
    next
      case (Inr st')
      then show ?thesis using Suc.IH [OF _ v'] on fin Suc.prems(3) by (simp add: goes_on_def)
    qed
  qed
qed

lemma collect_inventory_delta_truthful:
  assumes run: "collect_inventory_delta (recording port) pages cfg counts expected minimum fallback s = (Inr ended, s')"
    and s: "looking_inv old s" and minimum: "0 < minimum"
  shows "truthful port pages old counts (normalize_items expected) minimum ended s'"
proof -
  let ?items = "normalize_items expected"
  obtain started t p assist u where started: "tx_read (port_monotonic (recording port)) s = (Inr started, t)"
    and poll: "poll_inventory_delta (recording port) pages counts ?items (pc_poll_timeout_s cfg) new_assist t = (Inr (p, assist), u)"
    and rest: "(case p of
           Inl failed \<Rightarrow> tx_return (Inl (failed, assist_payload assist))
         | Inr reading \<Rightarrow>
             (let st = \<lparr>ps_reading = reading, ps_blacklist = [], ps_tried = [], ps_dynamic = [], ps_assist = assist\<rparr>
              in if ps_total st \<ge> minimum then tx_return (pickup_outcome st ''pickup_collected'')
                 else (case port_navigate (recording port) of
                         None \<Rightarrow> tx_return (pickup_outcome st ''pickup_navigation_unavailable'')
                       | Some nav \<Rightarrow>
                           pickup_rounds (recording port) nav pages cfg counts ?items minimum
                             (map fallback_candidate (dedupe fallback)) started (pc_max_scan_rounds cfg) 0 st))) u = (Inr ended, s')"
    using run by (auto simp: collect_inventory_delta_def Let_def tx_bind_Inr)
  have t: "looking_inv old t" using keepsD [OF looking.keeps_monotonic s] started by (metis snd_conv)
  have u: "looking_inv old u" using keepsD [OF looking.keeps_poll t] poll by (metis snd_conv)
  show ?thesis
  proof (cases p)
    case (Inl failed)
    then show ?thesis using rest poll_failed [OF poll [unfolded Inl]] by (auto simp: tx_return_def)
  next
    case (Inr reading)
    let ?st = "\<lparr>ps_reading = reading, ps_blacklist = [], ps_tried = [], ps_dynamic = [], ps_assist = assist\<rparr>"
    show ?thesis
    proof (cases "minimum \<le> reading_gain reading")
      case True
      then have "just_read port pages old counts ?items (ps_reading ?st) u"
        using poll_just [OF poll [unfolded Inr] t] minimum by simp
      from truthful_outcome [OF this] show ?thesis using True rest Inr by (auto simp: tx_return_def)
    next
      case False
      then show ?thesis
        using rest Inr pickup_rounds_truthful [OF _ minimum _ u, where st = ?st]
        by (auto simp: tx_return_def Let_def split: option.splits)
    qed
  qed
qed

section \<open>What a pickup and a collecting report\<close>

lemma gain_positive:
  assumes "0 < reading_gain (gained_items counts items after)"
  shows "\<exists>i. (items \<noteq> [] \<longrightarrow> i \<in> set items) \<and> count_of counts i < count_of after i"
proof (rule ccontr)
  define all where "all = (if items \<noteq> [] then items else sort (dedupe (map fst counts @ map fst after)))"
  assume "\<not> ?thesis"
  then have "\<not> count_of counts i < count_of after i" if "i \<in> set all" for i
    using that by (auto simp: all_def split: if_splits)
  then have "\<forall>i\<in>set all. max 0 (count_of after i - count_of counts i) = 0" by (simp add: not_less)
  then have "map (\<lambda>i. max 0 (count_of after i - count_of counts i)) all = map (\<lambda>_. 0) all" by simp
  then have "sum_list (map (\<lambda>i. max 0 (count_of after i - count_of counts i)) all) = sum_list (map (\<lambda>_. 0) all)"
    by (rule arg_cong)
  moreover have "reading_gain (gained_items counts items after) = sum_list (map (\<lambda>i. max 0 (count_of after i - count_of counts i)) all)"
    by (simp add: gained_items_def Let_def comp_def all_def)
  ultimately show False using assms by simp
qed

text \<open>
  C23. A successful pickup starts with a complete inventory read and ends with another: its state is
  the one in which that last read ended, and nothing but reads, waits and movement was done from the
  first to the last, no action of its own. What it reports is the difference of the two: for every
  wanted item (or every item, when none was named) the change of its count, and the sum of the
  gains, which is at least the wanted count, at least one.
\<close>

theorem pickup_reports_what_was_read:
  assumes run: "pickup_items (recording port) pages cfg expected minimum s = (Inr r, s')" and ok: "tr_success r"
  shows "\<exists>counts after t u items.
    read_inventory_counts (recording port) pages None s = (Inr (Inr counts), t) \<and>
    only_looked (tx_log t) (tx_log u) \<and>
    read_inventory_counts (recording port) pages None u = (Inr (Inr after), s') \<and>
    items = (if normalize_items expected \<noteq> [] then normalize_items expected
             else sort (dedupe (map fst counts @ map fst after))) \<and>
    dget (metrics_of r) ''before'' = json_counts counts \<and> dget (metrics_of r) ''after'' = json_counts after \<and>
    dget (metrics_of r) ''deltas'' = json_counts (map (\<lambda>i. (i, count_of after i - count_of counts i)) items) \<and>
    dget (metrics_of r) ''collected_total'' = JInt (\<Sum>i\<leftarrow>items. max 0 (count_of after i - count_of counts i)) \<and>
    0 < minimum \<and> minimum \<le> (\<Sum>i\<leftarrow>items. max 0 (count_of after i - count_of counts i))"
proof -
  have valid: "validate_pickup cfg minimum = None"
  proof (cases "validate_pickup cfg minimum")
    case (Some failed)
    then have "\<not> tr_success failed" by (auto simp: validate_pickup_def Let_def split: if_splits)
    then show ?thesis using run ok Some by (simp add: pickup_items_def unless_failed_def tx_return_def)
  qed
  then have minimum: "0 < minimum" by (auto simp: validate_pickup_def Let_def split: if_splits)
  obtain x t where x: "read_inventory_counts (recording port) pages None s = (Inr x, t)"
    and rest: "or_return x (\<lambda>counts.
      tx_bind (collect_inventory_delta (recording port) pages cfg counts expected minimum []) (\<lambda>ended.
      tx_return (case ended of
        Inl (failed, assist) \<Rightarrow> failed
      | Inr report \<Rightarrow> picked_up expected minimum counts report))) t = (Inr r, s')"
    using run valid by (auto simp: pickup_items_def unless_failed_def tx_bind_Inr)
  then obtain counts where counts: "x = Inr counts"
    using ok returnsD [OF read_counts_failed x] by (cases x) (auto simp: or_return_def tx_return_def)
  then obtain ended where ended: "collect_inventory_delta (recording port) pages cfg counts expected minimum [] t = (Inr ended, s')"
    and r: "r = (case ended of Inl (failed, assist) \<Rightarrow> failed | Inr report \<Rightarrow> picked_up expected minimum counts report)"
    using rest by (auto simp: or_return_def tx_bind_Inr tx_return_def)
  have t: "looking_inv (tx_log t) t" by (simp add: looking.inv_def)
  note truth = collect_inventory_delta_truthful [OF ended t minimum]
  show ?thesis
  proof (cases ended)
    case (Inl failed)
    then show ?thesis using truth ok r by (cases failed) simp
  next
    case (Inr report)
    then have report: "r = picked_up expected minimum counts report" and enough: "minimum \<le> pk_collected_total report"
      using r ok by (simp_all add: picked_up_def Let_def)
    let ?read = "(pk_after report, pk_deltas report, pk_collected_total report)"
    obtain u where u: "only_looked (tx_log t) (tx_log u)"
        "read_inventory_counts (recording port) pages None u = (Inr (Inr (pk_after report)), s')"
      and gained: "?read = gained_items counts (normalize_items expected) (pk_after report)"
      using truth Inr enough by (auto simp: truthful_def just_read_def)
    define items where "items = (if normalize_items expected \<noteq> [] then normalize_items expected
             else sort (dedupe (map fst counts @ map fst (pk_after report))))"
    have deltas: "pk_deltas report = map (\<lambda>i. (i, count_of (pk_after report) i - count_of counts i)) items"
      and gain: "pk_collected_total report = (\<Sum>i\<leftarrow>items. max 0 (count_of (pk_after report) i - count_of counts i))"
      using gained by (simp_all add: gained_items_def items_def Let_def comp_def)
    have "dget (metrics_of r) ''before'' = json_counts counts" "dget (metrics_of r) ''after'' = json_counts (pk_after report)"
      "dget (metrics_of r) ''deltas'' = json_counts (pk_deltas report)"
      "dget (metrics_of r) ''collected_total'' = JInt (pk_collected_total report)"
      by (simp_all add: report picked_up_def metrics_of_def dget_def Let_def)
    then show ?thesis
      using x u minimum enough unfolding counts deltas gain
      by (intro exI [of _ counts] exI [of _ "pk_after report"] exI [of _ t] exI [of _ u] exI [of _ items])
        (simp add: items_def)
  qed
qed

text \<open>The items that a collecting of a block of this type counts.\<close>

definition wanted_drops :: "collect_options \<Rightarrow> string \<Rightarrow> string list" where
  "wanted_drops opts block_type =
     (let wanted = map normalize_item_name (co_expected_drops opts)
      in if wanted \<noteq> [] then wanted
         else expected_drops_for_block block_type (if co_drop_map opts \<noteq> [] then co_drop_map opts else DEFAULT_DROP_MAP))"

text \<open>What a collecting reports once its block is judged and its tool is at hand.\<close>

definition gained_by_mining ::
  "'w body_port \<Rightarrow> nat \<Rightarrow> position \<Rightarrow> break_context \<Rightarrow> collect_options \<Rightarrow> bool \<Rightarrow> string \<Rightarrow> body_call list
   \<Rightarrow> 'w logged tx_state \<Rightarrow> bool" where
  "gained_by_mining port pages pos context opts explicit block_type old s' \<longleftrightarrow>
     (\<exists>counts after mined t u v w.
        prefix old (tx_log t) \<and> read_inventory_counts (recording port) pages None t = (Inr (Inr counts), u) \<and>
        (if co_dry opts
         then mine_block_dry (recording port) pages pos context (dry_options_for opts explicit DEFAULT_SEAL_BLOCKS)
         else mine_block (recording port) pos context (co_timeout_s opts) (\<not> co_prepositioned opts) explicit) u = (Inr mined, v) \<and>
        tr_success mined \<and> only_looked (tx_log v) (tx_log w) \<and>
        read_inventory_counts (recording port) pages None w = (Inr (Inr after), s') \<and>
        (\<exists>item. (normalize_items (wanted_drops opts block_type) \<noteq> [] \<longrightarrow>
             item \<in> set (normalize_items (wanted_drops opts block_type))) \<and>
           count_of counts item < count_of after item))"

lemma with_metric_success [simp]: "tr_success (with_metric r k v) = tr_success r"
  by (simp add: with_metric_def)

lemma collect_mined_gained:
  assumes run: "collect_mined (recording port) pages pos context opts b targets gate t = (Inr r, s')" and ok: "tr_success r"
    and old: "prefix old (tx_log t)"
  shows "gained_by_mining port pages pos context opts (targets \<noteq> []) b old s' \<and> dget (metrics_of r) ''block_type'' = JStr b"
proof -
  let ?mine = "if co_dry opts
     then mine_block_dry (recording port) pages pos context (dry_options_for opts (targets \<noteq> []) DEFAULT_SEAL_BLOCKS)
     else mine_block (recording port) pos context (co_timeout_s opts) (\<not> co_prepositioned opts) (targets \<noteq> [])"
  let ?drops = "wanted_drops opts b"
  let ?report = "\<lambda>counts mined p. case p of
       Inl (failed, assist) \<Rightarrow> with_metric failed ''collect'' (JDict (target_metrics pos b @
                      [(''phase'', JStr ''after''), (''pickup_assist'', assist)]))
     | Inr report \<Rightarrow> collected_result pos b targets ?drops counts mined gate report"
  let ?gather = "\<lambda>counts mined.
       tx_bind (pause_for (recording port) (co_settle_s opts)) (\<lambda>_.
       tx_bind (collect_drops (recording port) pages (co_pickup_timeout_s opts) pos counts ?drops) (\<lambda>p.
       tx_return (?report counts mined p)))"
  obtain x u where x: "read_inventory_counts (recording port) pages None t = (Inr x, u)"
    and rest: "(case x of
           Inl failed \<Rightarrow> tx_return (with_metric failed ''collect'' (JDict (target_metrics pos b @ [(''phase'', JStr ''before'')])))
         | Inr counts \<Rightarrow>
             tx_bind ?mine (\<lambda>mined.
             if \<not> tr_success mined
             then tx_return (with_metric mined ''collect'' (JDict (target_metrics pos b @
                    [(''target_block_types'', json_list targets JStr), (''expected_drops'', json_list ?drops JStr),
                     (''before'', json_counts counts), (''tool_gate'', JDict gate)])))
             else ?gather counts mined)) u = (Inr r, s')"
    using run unfolding collect_mined_def wanted_drops_def Let_def tx_bind_Inr by blast
  obtain counts where counts: "x = Inr counts"
    using rest ok returnsD [OF read_counts_failed x] by (cases x) (auto simp: tx_return_def)
  obtain mined v where mined: "?mine u = (Inr mined, v)"
    and rest2: "(if \<not> tr_success mined
             then tx_return (with_metric mined ''collect'' (JDict (target_metrics pos b @
                    [(''target_block_types'', json_list targets JStr), (''expected_drops'', json_list ?drops JStr),
                     (''before'', json_counts counts), (''tool_gate'', JDict gate)])))
             else ?gather counts mined) v = (Inr r, s')"
    using rest unfolding counts sum.case tx_bind_Inr by blast
  have success: "tr_success mined" using rest2 ok by (auto simp: tx_return_def split: if_splits)
  then obtain y v' p where y: "pause_for (recording port) (co_settle_s opts) v = (Inr y, v')"
    and p: "collect_drops (recording port) pages (co_pickup_timeout_s opts) pos counts ?drops v' = (Inr p, s')"
    and r: "r = ?report counts mined p"
    using rest2 by (simp add: tx_bind_Inr) (auto simp: tx_return_def)
  have "looking_inv (tx_log v) v" by (simp add: looking.inv_def)
  then have v': "looking_inv (tx_log v) v'" using keepsD [OF looking.keeps_pause] y by (metis snd_conv)
  note truth = collect_inventory_delta_truthful [OF p [unfolded collect_drops_def] v', simplified]
  show ?thesis
  proof (cases p)
    case (Inl failed)
    then show ?thesis using truth ok r by (cases failed) simp
  next
    case (Inr report)
    then have collected: "r = collected_result pos b targets ?drops counts mined gate report" using r by simp
    then have some: "1 \<le> pk_collected_total report"
      using ok by (auto simp: collected_result_def fail_result_def Let_def split: if_splits)
    obtain w where w: "only_looked (tx_log v) (tx_log w)"
        "read_inventory_counts (recording port) pages None w = (Inr (Inr (pk_after report)), s')"
      and gained: "(pk_after report, pk_deltas report, pk_collected_total report) =
        gained_items counts (normalize_items ?drops) (pk_after report)"
      using truth Inr some by (auto simp: truthful_def just_read_def)
    have "0 < reading_gain (gained_items counts (normalize_items ?drops) (pk_after report))"
      using some unfolding gained [symmetric] by simp
    from gain_positive [OF this] have "gained_by_mining port pages pos context opts (targets \<noteq> []) b old s'"
      unfolding gained_by_mining_def using old x mined success w counts by blast
    moreover have "dget (metrics_of r) ''block_type'' = JStr b"
      using some by (simp add: collected collected_result_def Let_def done_result_def metrics_of_def target_metrics_def dget_def)
    ultimately show ?thesis by blast
  qed
qed

text \<open>
  C24. A collecting of a block that reports success has read the block, then the inventory, mined the block with
  success in the state after that read, and read the inventory again, with nothing but reads, waits
  and movement after the mining; its state is the one in which the last read ended; and of an item
  that is expected to drop from the block the second read counts more than the first.
\<close>

theorem collected_block_was_mined_and_gained:
  assumes run: "mine_block_collect (recording port) pages pos context opts s = (Inr r, s')" and ok: "tr_success r"
  shows "\<exists>block s1 block_type counts after mined t u v w.
    perceive (recording port) ''blockAt'' (block_params pos) s = (Inr block, s1) \<and> prefix (tx_log s1) (tx_log t) \<and>
    block_type = normalize_item_name (type_or_unknown (recording port) block) \<and>
    read_inventory_counts (recording port) pages None t = (Inr (Inr counts), u) \<and>
    (if co_dry opts
     then mine_block_dry (recording port) pages pos context
            (dry_options_for opts (map normalize_item_name (co_target_block_types opts) \<noteq> []) DEFAULT_SEAL_BLOCKS)
     else mine_block (recording port) pos context (co_timeout_s opts) (\<not> co_prepositioned opts)
            (map normalize_item_name (co_target_block_types opts) \<noteq> [])) u = (Inr mined, v) \<and>
    tr_success mined \<and> only_looked (tx_log v) (tx_log w) \<and>
    read_inventory_counts (recording port) pages None w = (Inr (Inr after), s') \<and>
    dget (metrics_of r) ''block_type'' = JStr block_type \<and>
    (\<exists>item. (normalize_items (wanted_drops opts block_type) \<noteq> [] \<longrightarrow> item \<in> set (normalize_items (wanted_drops opts block_type))) \<and>
       count_of counts item < count_of after item)"
proof -
  obtain block s1 where block: "perceive (recording port) ''blockAt'' (block_params pos) s = (Inr block, s1)"
    and rest: "unless_failed (perception_failure block)
     (let block_type = normalize_item_name (type_or_unknown (recording port) block);
          targets = map normalize_item_name (co_target_block_types opts)
      in if targets \<noteq> [] \<and> block_type \<notin> set targets
         then tx_return (fail_result ''break_denied:collect_target_required'' False
                ''retry with a candidate whose observed block type matches the collect plan''
                (target_metrics pos block_type @ [(''target_block_types'', json_list targets JStr)]))
         else tx_bind (judge_break (recording port) pos block_type context (targets \<noteq> [])) (\<lambda>decision.
         if \<not> ld_allowed decision then tx_return (denied_result ''break_denied'' pos block_type decision)
         else tx_bind (ensure_collect_pickaxe (recording port) pages pos block_type (co_timeout_s opts)) (\<lambda>gate.
         if \<not> tr_success gate then tx_return gate
         else collect_mined (recording port) pages pos context opts block_type targets (metrics_of gate)))) s1 = (Inr r, s')"
    using run unfolding mine_block_collect_def tx_bind_Inr by blast
  let ?b = "normalize_item_name (type_or_unknown (recording port) block)"
  let ?targets = "map normalize_item_name (co_target_block_types opts)"
  have seen: "perception_failure block = None"
    using rest ok by (auto simp: unless_failed_def perception_failure_def fail_result_def tx_return_def split: if_splits)
  have wanted: "\<not> (?targets \<noteq> [] \<and> ?b \<notin> set ?targets)"
    using rest ok seen by (auto simp: unless_failed_def fail_result_def tx_return_def Let_def split: if_splits)
  obtain d s2 where d: "judge_break (recording port) pos ?b context (?targets \<noteq> []) s1 = (Inr d, s2)"
    and rest2: "(if \<not> ld_allowed d then tx_return (denied_result ''break_denied'' pos ?b d)
         else tx_bind (ensure_collect_pickaxe (recording port) pages pos ?b (co_timeout_s opts)) (\<lambda>gate.
         if \<not> tr_success gate then tx_return gate
         else collect_mined (recording port) pages pos context opts ?b ?targets (metrics_of gate))) s2 = (Inr r, s')"
    using rest unfolding seen unless_failed_def option.case Let_def if_not_P [OF wanted] tx_bind_Inr by blast
  have "ld_allowed d" using rest2 ok by (auto simp: tx_return_def denied_result_def fail_result_def Let_def split: if_splits)
  then obtain gate s3 where gate: "ensure_collect_pickaxe (recording port) pages pos ?b (co_timeout_s opts) s2 = (Inr gate, s3)"
    and rest3: "(if \<not> tr_success gate then tx_return gate
         else collect_mined (recording port) pages pos context opts ?b ?targets (metrics_of gate)) s3 = (Inr r, s')"
    using rest2 by (auto simp: tx_bind_Inr)
  have "collect_mined (recording port) pages pos context opts ?b ?targets (metrics_of gate) s3 = (Inr r, s')"
    using rest3 ok by (auto simp: tx_return_def split: if_splits)
  note collected = collect_mined_gained [OF this ok]
  have "grown_inv (tx_log s1) s1" by (simp add: grown.inv_def)
  then have "grown_inv (tx_log s1) s2" using keepsD [OF grown.keeps_judge_break] d by (metis snd_conv)
  then have "grown_inv (tx_log s1) s3" using keepsD [OF grown.keeps_collect_pickaxe] gate by (metis snd_conv)
  then have "prefix (tx_log s1) (tx_log s3)" by (simp add: grown.inv_def)
  from collected [OF this] block show ?thesis unfolding gained_by_mining_def by blast
qed

section \<open>Applications\<close>

text \<open>A yard in which a block of dirt lands in the inventory while the body waits.\<close>

definition drop_port :: "demo_world body_port" where
  "drop_port = demo_port\<lparr>port_pause := (\<lambda>t w. w\<lparr>dw_clock := dw_clock w + t, dw_items := [(''dirt'', 9)]\<rparr>)\<rparr>"

definition drop_yard :: "demo_world logged tx_state" where
  "drop_yard = \<lparr>tx_world = (\<lparr>dw_cells = [((2, 0, 0), ''dirt'', ''SOLID'')], dw_pos = (1/2, 0, 1/2),
     dw_items = [(''dirt'', 8)], dw_clock = 0, dw_next_id = 1\<rparr>, []), tx_policy = yard_policy\<rparr>"

lemma dirt_picked_up:
  "case fst (pickup_items (recording drop_port) 3 default_pickup [''minecraft:dirt''] 1 drop_yard) of
     Inl e \<Rightarrow> False | Inr r \<Rightarrow> tr_success r"
  by code_simp

theorem pickup_reports_what_was_read_witness:
  "\<exists>r s' after u. pickup_items (recording drop_port) 3 default_pickup [''minecraft:dirt''] 1 drop_yard = (Inr r, s') \<and>
     read_inventory_counts (recording drop_port) 3 None u = (Inr (Inr after), s') \<and>
     dget (metrics_of r) ''after'' = json_counts after"
proof -
  obtain x s' where run: "pickup_items (recording drop_port) 3 default_pickup [''minecraft:dirt''] 1 drop_yard = (x, s')"
    by (rule prod.exhaust)
  then obtain r where r: "x = Inr r" "tr_success r" using dirt_picked_up by (auto split: sum.splits)
  from pickup_reports_what_was_read [OF run [unfolded r(1)] r(2)] run r(1) show ?thesis by blast
qed

text \<open>It differs from the demo Body only in its waits.\<close>

lemma drop_run:
  "perceive (recording drop_port) = perceive (recording demo_port)"
  "get_state (recording drop_port) = get_state (recording demo_port)"
  "port_execute (recording drop_port) = port_execute (recording demo_port)"
  "port_fresh_id (recording drop_port) = port_fresh_id (recording demo_port)"
  "port_monotonic (recording drop_port) = port_monotonic (recording demo_port)"
  "await_result (recording drop_port) = await_result (recording demo_port)"
  "judge_break (recording drop_port) = judge_break (recording demo_port)"
  "port_platform drop_port = port_platform demo_port" "port_cancellation drop_port = port_cancellation demo_port"
  "port_preferred_page_size drop_port = port_preferred_page_size demo_port"
  "pause_for (recording drop_port) t \<lparr>tx_world = (w, cs), tx_policy = p\<rparr> =
     (Inr (), \<lparr>tx_world = (if t \<le> 0 then w else w\<lparr>dw_clock := dw_clock w + t, dw_items := [(''dirt'', 9)]\<rparr>, cs), tx_policy = p\<rparr>)"
  by (simp_all add: fun_eq_iff drop_port_def demo_port_def recording_def perceive_def get_state_def await_result_def
      await_action_terminal_def judge_break_def break_judged_def pause_for_def tx_read_def tx_return_def)

lemmas read_run = read_inventory_counts_def read_inventory_slots_def preferred_inventory_page_size_def reply_slots_def
  perception_next_cursor_def perceived_slots_def counts_of_def MAX_INVENTORY_PAGE_SIZE_def DEFAULT_INVENTORY_PAGE_SIZE_def

lemma dirt_slot_read:
  "page_slots [JDict [(''slot'', JInt 0), (''item'', JStr item), (''count'', JInt n)]] =
     Inr [[(''slot'', JInt 0), (''item'', JStr item), (''count'', JInt n)]]"
  "slot_from_payload [(''slot'', JInt 0), (''item'', JStr item), (''count'', JInt n)] =
     Inr \<lparr>is_slot = 0, is_item = JStr item, is_count = n, is_empty = False\<rparr>"
  by (simp_all add: slot_from_payload_def int_field_def dget_def)

lemma drop_counts:
  assumes "dw_items w = [(''dirt'', n)]"
  shows "read_inventory_counts (recording drop_port) 3 None \<lparr>tx_world = (w, cs), tx_policy = p\<rparr> =
     (Inr (Inr [(''dirt'', n)]), \<lparr>tx_world = (w, cs @ [Perceived ''inventory'' [(''start'', JInt 0), (''limit'', JInt 12)]
        (Inr (demo_answer ''inventory'' [(''slots'', demo_slots w)]))]), tx_policy = p\<rparr>)"
  by (simp add: demo_run drop_run read_run assms dirt_slot_read item_text_def removeprefix_def
      eval_nat_numeral cong: tx_bind_arg_cong tx_next_arg_cong)

lemma dirt_gained:
  "\<exists>r s'. mine_block_collect (recording drop_port) 3 (2, 0, 0) BC_COLLECT dirt_options drop_yard = (Inr r, s') \<and> tr_success r"
proof -
  have "in_mine_reach BC_COLLECT (1/2, 0, 1/2) (2, 0, 0)" "str_of_nat (Suc 0) = ''1''" "required_pickaxe_tier ''dirt'' = None"
      "region_contains demo_region (2, 0, 0)" "normalize_items (expected_drops_for_block ''dirt'' DEFAULT_DROP_MAP) = [''dirt'']"
    by code_simp+
  then show ?thesis
    by (simp add: demo_run drop_run drop_yard_def mine_block_collect_def collect_mined_def mine_block_def unless_failed_def or_return_def
      perception_failure_def dirt_options_def type_or_unknown_def normalize_item_name_def removeprefix_def
      ensure_collect_pickaxe_def check_prepositioned_def drop_counts acceptance_failure_def
      body_rejection_to_tool_result_def dirt_budget legality_def done_result_def metrics_of_def
      mined_metrics_def set_default_def collect_drops_def collect_inventory_delta_def poll_inventory_delta_def read_delta_def
      gained_items_def default_pickup_def pickup_outcome_def collected_result_def count_of_def
      cong: tx_bind_arg_cong tx_next_arg_cong)
qed

theorem collected_block_was_mined_and_gained_witness:
  "\<exists>counts after item s'. s' = snd (mine_block_collect (recording drop_port) 3 (2, 0, 0) BC_COLLECT dirt_options drop_yard) \<and>
     (\<exists>w. read_inventory_counts (recording drop_port) 3 None w = (Inr (Inr after), s')) \<and>
     count_of counts item < count_of after item"
proof -
  obtain r s' where run: "mine_block_collect (recording drop_port) 3 (2, 0, 0) BC_COLLECT dirt_options drop_yard = (Inr r, s')"
    and ok: "tr_success r"
    using dirt_gained by blast
  from collected_block_was_mined_and_gained [OF run ok] run show ?thesis by auto
qed

end
