(* ===== verification/Shaft_Down.thy ===== *)
theory Shaft_Down
  imports Block_Actions
begin

text \<open>
  Digging down: \<open>dig_down_one\<close>, \<open>dig_down_to_y\<close>, the fall probe, the alignment and the wait for the
  fall of \<open>minebot/body/block_work.py\<close>, and the centering pulse of
  \<open>minebot/body/interaction_support.py\<close>. The polls that a wait may take are the argument \<open>polls\<close>.
\<close>

section \<open>Small helpers\<close>

definition SHAFT_ALIGNMENT_RADIUS :: rat where "SHAFT_ALIGNMENT_RADIUS = 1/10"

definition SHAFT_ALIGNMENT_TIMEOUT_S :: rat where "SHAFT_ALIGNMENT_TIMEOUT_S = 5"

definition merge_metrics :: "json_object \<Rightarrow> json_object \<Rightarrow> json_object" where
  "merge_metrics d e = fold (\<lambda>(k, v). AList.update k v) e d"

text \<open>\<open>round(value, 3)\<close>: to the nearest multiple, a tie to the even one.\<close>

definition round_half_even :: "rat \<Rightarrow> int" where
  "round_half_even q =
     (let n = \<lfloor>q\<rfloor>; r = q - of_int n
      in if r < 1/2 then n else if r > 1/2 then n + 1 else if even n then n else n + 1)"

definition json_rounded :: "rat \<Rightarrow> json" where
  "json_rounded q = json_flt (of_int (round_half_even (q * 1000)) / 1000)"

fun rounded_point :: "point \<Rightarrow> json" where
  "rounded_point (x, y, z) = JList [json_rounded x, json_rounded y, json_rounded z]"

fun height_of :: "position \<Rightarrow> int" where
  "height_of (x, y, z) = y"

fun below_by :: "position \<Rightarrow> int \<Rightarrow> position" where
  "below_by (x, y, z) n = (x, y - n, z)"

fun body_fits_shaft :: "point \<Rightarrow> position \<Rightarrow> bool" where
  "body_fits_shaft (px, _, pz) (x, _, z) \<longleftrightarrow>
     of_int x + 32/100 \<le> px \<and> px \<le> of_int x + 1 - 32/100 \<and>
     of_int z + 32/100 \<le> pz \<and> pz \<le> of_int z + 1 - 32/100"

definition observed_type :: "'w body_port \<Rightarrow> perception_result \<Rightarrow> json" where
  "observed_type port p = JStr (removeprefix ''minecraft:'' (type_or_unknown port p))"

section \<open>Looking before opening\<close>

fun scan_liquid_parts ::
  "'w body_port \<Rightarrow> position \<Rightarrow> (string \<times> position) list \<Rightarrow> ('w, tool_result option) tx" where
  "scan_liquid_parts port origin [] = tx_return None"
| "scan_liquid_parts port origin ((label, pos) # parts) =
     tx_bind (perceive port ''blockAt'' (block_params pos)) (\<lambda>p.
     case perception_failure p of
       Some failed \<Rightarrow> tx_return (Some (with_metric failed ''dig_down'' (JDict
         [(''origin'', json_position origin), (''phase'', JStr (''start_'' @ label))])))
     | None \<Rightarrow>
         if is_liquid_perception port p
         then tx_return (Some (fail_result ''dig_down_start_liquid'' False
                ''leave or seal the liquid before starting a downward shaft''
                [(''origin'', json_position origin), (''liquid_pos'', json_position pos),
                 (''liquid_part'', JStr label), (''block_type'', observed_type port p)]))
         else scan_liquid_parts port origin parts)"

definition scan_start_liquid :: "'w body_port \<Rightarrow> position \<Rightarrow> ('w, tool_result option) tx" where
  "scan_start_liquid port origin =
     scan_liquid_parts port origin [(''feet'', origin), (''head'', head_of origin)]"

record fall_probe =
  fp_clear_depth :: nat
  fp_support_pos :: "position option"
  fp_support_type :: "string option"
  fp_liquid_landing :: "position option"
  fp_failed :: "tool_result option"

definition probe_at :: "nat \<Rightarrow> fall_probe" where
  "probe_at depth = \<lparr>fp_clear_depth = depth, fp_support_pos = None, fp_support_type = None, fp_liquid_landing = None, fp_failed = None\<rparr>"

text \<open>What one cell below tells: the probe ends, or the cell is clear.\<close>

definition probe_cell :: "'w body_port \<Rightarrow> nat \<Rightarrow> position \<Rightarrow> perception_result \<Rightarrow> fall_probe option" where
  "probe_cell port depth pos p =
     (case perception_failure p of
        Some failed \<Rightarrow> Some ((probe_at depth)\<lparr>fp_failed := Some failed\<rparr>)
      | None \<Rightarrow>
          if is_liquid_perception port p then Some ((probe_at depth)\<lparr>fp_liquid_landing := Some pos\<rparr>)
          else if is_clear_perception port p then None
          else Some ((probe_at depth)\<lparr>fp_support_pos := Some pos,
                 fp_support_type := Some (removeprefix ''minecraft:'' (type_or_unknown port p))\<rparr>))"

text \<open>
  Cell by cell below \<open>pos\<close>; \<open>more_cells\<close> is how far the depth is below \<open>max_clear_fall\<close>.
\<close>

fun fall_cell_by_cell :: "'w body_port \<Rightarrow> position \<Rightarrow> nat \<Rightarrow> nat \<Rightarrow> ('w, fall_probe) tx" where
  "fall_cell_by_cell port pos depth more_cells =
     tx_bind (perceive port ''blockAt'' (block_params pos)) (\<lambda>p.
     case probe_cell port depth pos p of
       Some probe \<Rightarrow> tx_return probe
     | None \<Rightarrow>
         (case more_cells of
            0 \<Rightarrow> tx_return (probe_at (depth + 1))
          | Suc n \<Rightarrow> fall_cell_by_cell port (below_by pos 1) (depth + 1) n))"

declare fall_cell_by_cell.simps [simp del]

definition fall_probe_fallback :: "'w body_port \<Rightarrow> position \<Rightarrow> nat \<Rightarrow> ('w, fall_probe) tx" where
  "fall_probe_fallback port target max_clear_fall = fall_cell_by_cell port (below_by target 1) 1 (max_clear_fall - 1)"

text \<open>From the facts of one read; a position without a fact asks for the fallback.\<close>

fun probe_facts ::
  "'w body_port \<Rightarrow> (position, perception_result) pydict \<Rightarrow> nat \<Rightarrow> position list \<Rightarrow> nat \<Rightarrow> fall_probe option" where
  "probe_facts port facts max_clear_fall [] depth = Some (probe_at depth)"
| "probe_facts port facts max_clear_fall (pos # cells) depth =
     (case map_of facts pos of
        None \<Rightarrow> None
      | Some p \<Rightarrow>
          (case probe_cell port depth pos p of
             Some probe \<Rightarrow> Some probe
           | None \<Rightarrow>
               if depth + 1 > max_clear_fall then Some (probe_at (depth + 1))
               else probe_facts port facts max_clear_fall cells (depth + 1)))"

definition fall_cells :: "position \<Rightarrow> nat \<Rightarrow> position list" where
  "fall_cells target max_clear_fall = map (\<lambda>n. below_by target (1 + int n)) [0..<max_clear_fall]"

definition fall_probe_after_opening :: "'w body_port \<Rightarrow> position \<Rightarrow> nat \<Rightarrow> ('w, fall_probe) tx" where
  "fall_probe_after_opening port target max_clear_fall =
     tx_bind (facts_or_error port False (fall_cells target max_clear_fall)) (\<lambda>r. case r of
       Inl text \<Rightarrow> fall_probe_fallback port target max_clear_fall
     | Inr facts \<Rightarrow>
         (case probe_facts port facts max_clear_fall (fall_cells target max_clear_fall) 1 of
            None \<Rightarrow> fall_probe_fallback port target max_clear_fall
          | Some probe \<Rightarrow> tx_return probe))"

section \<open>Opening one block below\<close>

definition json_opt_position :: "position option \<Rightarrow> json" where
  "json_opt_position p = (case p of None \<Rightarrow> JNull | Some q \<Rightarrow> json_position q)"

definition shaft_metrics :: "position \<Rightarrow> position \<Rightarrow> json_object" where
  "shaft_metrics origin target = [(''origin'', json_position origin), (''target'', json_position target)]"

definition probe_refusal :: "position \<Rightarrow> position \<Rightarrow> json \<Rightarrow> nat \<Rightarrow> fall_probe \<Rightarrow> tool_result option" where
  "probe_refusal origin target block_type max_clear_fall probe =
     (case fp_failed probe of
        Some failed \<Rightarrow> Some (with_metric failed ''dig_down'' (JDict (shaft_metrics origin target @ [(''block_type'', block_type)])))
      | None \<Rightarrow>
     (case fp_liquid_landing probe of
        Some liquid \<Rightarrow> Some (fail_result ''dig_down_landing_liquid'' False
          ''choose a different descent column or seal the liquid below before digging down''
          (shaft_metrics origin target @
           [(''liquid_pos'', json_position liquid), (''fall_clearance'', json_int_nat (fp_clear_depth probe)),
            (''max_clear_fall'', json_int_nat max_clear_fall)]))
      | None \<Rightarrow>
          if fp_clear_depth probe > max_clear_fall
          then Some (fail_result ''dig_down_fall_risk'' False
                 ''use a staircase, pillar, or scaffold descent instead of opening this shaft''
                 (shaft_metrics origin target @
                  [(''fall_clearance'', json_int_nat (fp_clear_depth probe)), (''max_clear_fall'', json_int_nat max_clear_fall),
                   (''first_support'', json_opt_position (fp_support_pos probe))]))
          else None))"

definition dig_metrics :: "'w body_port \<Rightarrow> position \<Rightarrow> position \<Rightarrow> perception_result \<Rightarrow> nat \<Rightarrow> fall_probe \<Rightarrow> json_object" where
  "dig_metrics port origin target p max_clear_fall probe =
     shaft_metrics origin target @
     [(''block_type'', observed_type port p), (''target_state'', JStr (state_or_unknown port p)),
      (''fall_clearance'', json_int_nat (fp_clear_depth probe)),
      (''first_support'', json_opt_position (fp_support_pos probe)),
      (''first_support_type'', json_opt (fp_support_type probe)),
      (''safe_to_continue'', JBool (fp_clear_depth probe \<le> max_clear_fall))]"

definition open_below ::
  "'w body_port \<Rightarrow> position \<Rightarrow> position \<Rightarrow> perception_result \<Rightarrow> break_context \<Rightarrow> rat \<Rightarrow> json_object \<Rightarrow> ('w, tool_result) tx" where
  "open_below port origin target p context timeout_s metrics =
     tx_bind (judge_break port target (type_or_unknown port p) context False) (\<lambda>decision.
     if \<not> ld_allowed decision
     then tx_return (denied_result ''dig_down_denied'' target (type_or_unknown port p) decision)
     else tx_bind (mine_block port target context timeout_s True False) (\<lambda>mined.
          tx_return (with_metric mined ''dig_down''
            (JDict (metrics @ [(''legality'', JDict (decision_payload decision))])))))"

definition open_probed ::
  "'w body_port \<Rightarrow> position \<Rightarrow> perception_result \<Rightarrow> break_context \<Rightarrow> nat \<Rightarrow> rat \<Rightarrow> fall_probe \<Rightarrow> ('w, tool_result) tx" where
  "open_probed port origin p context max_clear_fall timeout_s probe =
     unless_failed (probe_refusal origin (below_by origin 1) (observed_type port p) max_clear_fall probe)
       (let metrics = dig_metrics port origin (below_by origin 1) p max_clear_fall probe
        in if is_clear_perception port p
           then tx_return \<lparr>tr_success = True, tr_reason = ''dig_down_already_open'', tr_can_retry = False,
                  tr_next_suggestion = None, tr_metrics = Some [(''dig_down'', JDict metrics)]\<rparr>
           else open_below port origin (below_by origin 1) p context timeout_s metrics)"

definition open_seen ::
  "'w body_port \<Rightarrow> position \<Rightarrow> break_context \<Rightarrow> nat \<Rightarrow> rat \<Rightarrow> perception_result \<Rightarrow> ('w, tool_result) tx" where
  "open_seen port origin context max_clear_fall timeout_s p =
     (case perception_failure p of
        Some failed \<Rightarrow> tx_return (with_metric failed ''dig_down'' (JDict (shaft_metrics origin (below_by origin 1))))
      | None \<Rightarrow>
          if is_liquid_perception port p
          then tx_return (fail_result ''dig_down_target_liquid'' False
                 ''choose a different descent column or drain/seal the liquid before digging down''
                 (shaft_metrics origin (below_by origin 1) @
                  [(''block_type'', observed_type port p), (''target_state'', JStr (state_or_unknown port p))]))
          else tx_bind (fall_probe_after_opening port (below_by origin 1) max_clear_fall)
                 (open_probed port origin p context max_clear_fall timeout_s))"

definition dig_down_from ::
  "'w body_port \<Rightarrow> position \<Rightarrow> break_context \<Rightarrow> nat \<Rightarrow> rat \<Rightarrow> ('w, tool_result) tx" where
  "dig_down_from port origin context max_clear_fall timeout_s =
     tx_bind (scan_start_liquid port origin) (\<lambda>start. unless_failed start
     (tx_bind (perceive port ''blockAt'' (block_params (below_by origin 1)))
        (open_seen port origin context max_clear_fall timeout_s)))"

definition origin_or_here :: "'w body_port \<Rightarrow> position option \<Rightarrow> ('w, position) tx" where
  "origin_or_here port current_pos =
     (case current_pos of
        Some p \<Rightarrow> tx_return p
      | None \<Rightarrow> tx_bind (get_state port) (\<lambda>state. tx_return (state_block_pos (bs_pos state))))"

definition dig_down_one ::
  "'w body_port \<Rightarrow> position option \<Rightarrow> break_context \<Rightarrow> int \<Rightarrow> rat \<Rightarrow> ('w, tool_result) tx" where
  "dig_down_one port current_pos context max_clear_fall timeout_s =
     (if max_clear_fall < 1 then tx_raise (PyRaised ValueError)
      else tx_bind (origin_or_here port current_pos) (\<lambda>origin.
           dig_down_from port origin context (nat max_clear_fall) timeout_s))"

section \<open>Centering and falling\<close>

fun center_of :: "position \<Rightarrow> point" where
  "center_of (x, y, z) = (of_int x + 1/2, of_int y, of_int z + 1/2)"

definition stop_body_controls :: "'w body_port \<Rightarrow> rat \<Rightarrow> ('w, tool_result) tx" where
  "stop_body_controls port timeout_s =
     tx_bind (send_action port ''stop'' [] timeout_s) (\<lambda>(a, accepted).
     case body_rejection_to_tool_result accepted (Some [(''action_id'', JStr (ac_id a))]) of
       Some failed \<Rightarrow> tx_return failed
     | None \<Rightarrow>
         tx_bind (await_result port a) (\<lambda>r.
         tx_return (r\<lparr>tr_metrics := Some (merge_metrics [(''action_id'', JStr (ac_id a))] (metrics_of r))\<rparr>)))"

definition center_params :: "position \<Rightarrow> rat \<Rightarrow> rat \<Rightarrow> json_object" where
  "center_params stand radius timeout_s =
     [(''target'', json_point (center_of stand)), (''waypoints'', JList [json_point (center_of stand)]),
      (''arrival_radius'', json_flt radius), (''timeout_ticks'', JInt (min 80 (max 20 \<lfloor>timeout_s * 20\<rfloor>))),
      (''no_progress_ticks'', JInt 25), (''max_deviation'', json_flt (3/2))]"

definition centered_result ::
  "action \<Rightarrow> position \<Rightarrow> rat \<Rightarrow> tool_result \<Rightarrow> tool_result option \<Rightarrow> tool_result" where
  "centered_result a stand radius r stopped =
     \<lparr>tr_success = (tr_success r \<and> (case stopped of None \<Rightarrow> True | Some s \<Rightarrow> tr_success s)),
      tr_reason = (case stopped of None \<Rightarrow> tr_reason r
         | Some s \<Rightarrow> if tr_success s then tr_reason r else ''stabilize_failed:'' @ tr_reason s),
      tr_can_retry = (tr_can_retry r \<or> (case stopped of None \<Rightarrow> False | Some s \<Rightarrow> tr_can_retry s)),
      tr_next_suggestion = tr_next_suggestion r,
      tr_metrics = Some (merge_metrics
        (merge_metrics
          [(''action_id'', JStr (ac_id a)), (''stand'', json_position stand), (''center'', json_point (center_of stand)),
           (''center_radius'', json_flt radius)] (metrics_of r))
        (case stopped of None \<Rightarrow> [] | Some s \<Rightarrow> [(''stabilize'', JDict (tool_result_payload s))]))\<rparr>"

definition move_to_block_center ::
  "'w body_port \<Rightarrow> position \<Rightarrow> rat \<Rightarrow> rat \<Rightarrow> bool \<Rightarrow> ('w, tool_result) tx" where
  "move_to_block_center port stand arrival_radius timeout_s stabilize =
     (let radius = min arrival_radius (1/10)
      in tx_bind (send_action port ''moveTo'' (center_params stand radius timeout_s) timeout_s) (\<lambda>(a, accepted).
         case body_rejection_to_tool_result accepted (Some
             [(''action_id'', JStr (ac_id a)), (''stand'', json_position stand), (''center'', json_point (center_of stand)),
              (''center_radius'', json_flt radius)]) of
           Some failed \<Rightarrow> tx_return failed
         | None \<Rightarrow>
             tx_bind (await_result port a) (\<lambda>r.
             tx_bind (if tr_success r \<and> stabilize
                      then tx_bind (stop_body_controls port (min timeout_s 2)) (\<lambda>s. tx_return (Some s))
                      else tx_return None) (\<lambda>stopped.
             tx_return (centered_result a stand radius r stopped)))))"

definition alignment_base :: "position \<Rightarrow> point \<Rightarrow> bool \<Rightarrow> json_object" where
  "alignment_base shaft p attempted =
     [(''attempted'', JBool attempted), (''shaft'', json_position shaft), (''position_before'', rounded_point p),
      (''block_pos_before'', json_position (state_block_pos p))]"

definition interrupted_alignment ::
  "'w body_port \<Rightarrow> position \<Rightarrow> point \<Rightarrow> rat \<Rightarrow> json_object \<Rightarrow> ('w, tool_result) tx" where
  "interrupted_alignment port shaft p timeout_s diagnostics =
     tx_bind (tx_call (port_interrupt port ''dig_down_alignment_timeout'')) (\<lambda>i.
     tx_return (fail_result ''dig_down_alignment_failed:timeout'' True
       ''re-sync position and retry the shaft from a stable centered stance''
       (alignment_base shaft p True @
        [(''timeout_s'', json_flt timeout_s), (''timeout_diagnostics'', JDict diagnostics),
         (''interrupt'', JDict [(''ok'', JBool (re_ok i)), (''accepted'', JBool (re_accepted i)),
            (''error'', json_opt (re_error i)), (''data'', JDict (re_data i))])])))"

definition settled_alignment :: "position \<Rightarrow> point \<Rightarrow> tool_result \<Rightarrow> point \<Rightarrow> tool_result" where
  "settled_alignment shaft p centered after =
     (let descended = height_of (state_block_pos after) \<le> height_of shaft - 1;
          aligned = body_fits_shaft after shaft;
          metrics = alignment_base shaft p True @
            [(''movement'', JDict (tool_result_payload centered)), (''position_after'', rounded_point after),
             (''block_pos_after'', json_position (state_block_pos after)), (''aligned'', JBool aligned),
             (''already_descended'', JBool descended)]
      in if descended then done_result ''dig_down_aligned'' metrics
         else if \<not> tr_success centered \<or> tr_reason centered \<noteq> ''arrived''
         then fail_result (''dig_down_alignment_failed:'' @ tr_reason centered) (tr_can_retry centered)
                (suggestion_or centered ''re-sync position and retry from a stable shaft edge'') metrics
         else if \<not> aligned
         then fail_result ''dig_down_alignment_failed:terminal_position_mismatch'' True
                ''re-sync position before continuing the shaft descent'' metrics
         else done_result ''dig_down_aligned'' metrics)"

definition align_for_descent :: "'w body_port \<Rightarrow> position \<Rightarrow> rat \<Rightarrow> ('w, tool_result) tx" where
  "align_for_descent port shaft timeout_s =
     tx_bind (get_state port) (\<lambda>state.
     (let p = bs_pos state; observed = state_block_pos p
      in if height_of observed \<le> height_of shaft - 1
         then tx_return (done_result ''dig_down_alignment_already_descended''
                (alignment_base shaft p False @ [(''already_descended'', JBool True)]))
         else if body_fits_shaft p shaft
         then tx_return (done_result ''dig_down_alignment_not_required''
                (alignment_base shaft p False @ [(''already_aligned'', JBool True)]))
         else tx_bind (tx_catch
                (tx_bind (move_to_block_center port shaft SHAFT_ALIGNMENT_RADIUS timeout_s False) (\<lambda>c. tx_return (Inr c)))
                (\<lambda>e. case e of
                   TimedOut diagnostics \<Rightarrow>
                     Some (tx_bind (interrupted_alignment port shaft p timeout_s diagnostics) (\<lambda>r. tx_return (Inl r)))
                 | _ \<Rightarrow> None)) (\<lambda>c. or_return c (\<lambda>centered.
              tx_bind (get_state port) (\<lambda>after. tx_return (settled_alignment shaft p centered (bs_pos after)))))))"

definition last_five :: "'a list \<Rightarrow> 'a list" where
  "last_five xs = drop (length xs - 5) xs"

definition fall_poll_s :: rat where "fall_poll_s = 1/20"

definition descent_metrics :: "position \<Rightarrow> position \<Rightarrow> json list \<Rightarrow> json_object" where
  "descent_metrics target observed samples =
     [(''target'', json_position target), (''observed_pos'', json_position observed), (''samples'', JList (last_five samples))]"

fun descent_polls ::
  "'w body_port \<Rightarrow> position \<Rightarrow> rat \<Rightarrow> rat \<Rightarrow> nat \<Rightarrow> position \<Rightarrow> json list \<Rightarrow> ('w, tool_result \<times> position) tx" where
  "descent_polls port target timeout_s deadline 0 observed samples = tx_raise OutOfFuel"
| "descent_polls port target timeout_s deadline (Suc polls) observed samples =
     tx_bind (tx_read (port_monotonic port)) (\<lambda>now.
     if now \<le> deadline
     then tx_bind (get_state port) (\<lambda>state.
          (let observed' = state_block_pos (bs_pos state);
               samples' = samples @ [rounded_point (bs_pos state)]
           in if height_of observed' \<le> height_of target
              then tx_return (done_result ''descended'' (descent_metrics target observed' samples'), observed')
              else tx_bind (pause_for port fall_poll_s) (\<lambda>_.
                   descent_polls port target timeout_s deadline polls observed' samples')))
     else tx_return
            (fail_result ''dig_down_descent_timeout'' True
               ''wait for the body to finish falling or re-sync position before continuing shaft descent''
               [(''target'', json_position target), (''observed_pos'', json_position observed),
                (''timeout_s'', json_flt timeout_s), (''samples'', JList (last_five samples))], observed))"

definition wait_for_descent ::
  "'w body_port \<Rightarrow> nat \<Rightarrow> position \<Rightarrow> rat \<Rightarrow> ('w, tool_result \<times> position) tx" where
  "wait_for_descent port polls target timeout_s =
     tx_bind (tx_read (port_monotonic port)) (\<lambda>now.
     tx_bind (get_state port) (\<lambda>state.
     descent_polls port target timeout_s (now + timeout_s) polls (state_block_pos (bs_pos state)) []))"

section \<open>Down to a height\<close>

record shaft_options =
  so_context :: break_context
  so_max_clear_fall :: int
  so_move_timeout_s :: rat
  so_dig_timeout_s :: rat
  so_max_steps :: "int option"
  so_polls :: nat

definition step_facts :: "string \<Rightarrow> position \<Rightarrow> tool_result \<Rightarrow> json_object" where
  "step_facts kind origin r =
     [(''kind'', JStr kind), (''origin'', json_position origin), (''success'', JBool (tr_success r)),
      (''reason'', JStr (tr_reason r)), (''metrics'', JDict (metrics_of r))]"

text \<open>What a shaft reports: where it started, where it is, and the steps it took.\<close>

definition shaft_report :: "position \<Rightarrow> int \<Rightarrow> position \<Rightarrow> json_object list \<Rightarrow> nat \<Rightarrow> json_object" where
  "shaft_report origin target_y final steps completed =
     [(''origin'', json_position origin), (''target_y'', JInt target_y), (''final_pos'', json_position final),
      (''steps'', json_list steps JDict), (''steps_completed'', json_int_nat completed)]"

definition stopped_shaft :: "tool_result \<Rightarrow> position \<Rightarrow> int \<Rightarrow> position \<Rightarrow> json_object list \<Rightarrow> nat \<Rightarrow> tool_result" where
  "stopped_shaft r origin target_y final steps completed =
     \<lparr>tr_success = False, tr_reason = tr_reason r, tr_can_retry = tr_can_retry r,
      tr_next_suggestion = tr_next_suggestion r, tr_metrics = Some (shaft_report origin target_y final steps completed)\<rparr>"

text \<open>
  One round of the loop: open, align, fall. It ends the shaft with a result, or it goes on from the
  observed position with the steps it took.
\<close>

definition descend_once ::
  "'w body_port \<Rightarrow> shaft_options \<Rightarrow> position \<Rightarrow> int \<Rightarrow> position \<Rightarrow> json_object list \<Rightarrow> nat
   \<Rightarrow> ('w, tool_result + position \<times> json_object list) tx" where
  "descend_once port opts origin target_y current steps completed =
     tx_bind (dig_down_one port (Some current) (so_context opts) (so_max_clear_fall opts) (so_dig_timeout_s opts)) (\<lambda>opened.
     (let steps1 = steps @ [step_facts ''open'' current opened]
      in if \<not> tr_success opened then tx_return (Inl (stopped_shaft opened origin target_y current steps1 completed))
         else tx_bind (align_for_descent port current (min (so_move_timeout_s opts) SHAFT_ALIGNMENT_TIMEOUT_S)) (\<lambda>aligned.
         (let steps2 = (if truthy (dget (metrics_of aligned) ''attempted'') \<or> \<not> tr_success aligned
                        then steps1 @ [step_facts ''alignment'' current aligned] else steps1)
          in if \<not> tr_success aligned
             then tx_bind (get_state port) (\<lambda>state. tx_return (Inl (stopped_shaft aligned origin target_y
                    (state_block_pos (bs_pos state)) steps2 completed)))
             else tx_bind (wait_for_descent port (so_polls opts) (below_by current 1) (so_move_timeout_s opts))
                    (\<lambda>(fallen, observed).
                  (let fall = [(''kind'', JStr ''descent''), (''origin'', json_position current),
                         (''target'', json_position (below_by current 1)), (''success'', JBool (tr_success fallen)),
                         (''reason'', JStr (tr_reason fallen)), (''metrics'', JDict (metrics_of fallen))];
                       steps3 = steps2 @ [fall @ [(''observed_pos'', json_position observed)]]
                   in tx_return
                        (if \<not> tr_success fallen
                         then Inl (stopped_shaft fallen origin target_y current (steps2 @ [fall]) completed)
                         else if height_of observed > height_of current - 1
                         then Inl (fail_result ''dig_down_descent_incomplete'' True
                                ''re-sync the body position before continuing the shaft descent''
                                [(''origin'', json_position origin), (''target_y'', JInt target_y),
                                 (''expected_pos'', json_position (below_by current 1)),
                                 (''final_pos'', json_position observed), (''steps'', json_list steps3 JDict),
                                 (''steps_completed'', json_int_nat completed)])
                         else Inr (observed, steps3))))))))"

text \<open>\<open>rounds\<close> is what is left of the step budget.\<close>

fun descend_rounds ::
  "'w body_port \<Rightarrow> shaft_options \<Rightarrow> position \<Rightarrow> int \<Rightarrow> nat \<Rightarrow> position \<Rightarrow> json_object list \<Rightarrow> nat
   \<Rightarrow> ('w, tool_result + position \<times> json_object list \<times> nat) tx" where
  "descend_rounds port opts origin target_y 0 current steps completed = tx_return (Inr (current, steps, completed))"
| "descend_rounds port opts origin target_y (Suc rounds) current steps completed =
     (if height_of current \<le> target_y then tx_return (Inr (current, steps, completed))
      else tx_bind (descend_once port opts origin target_y current steps completed) (\<lambda>r. case r of
             Inl result \<Rightarrow> tx_return (Inl result)
           | Inr (observed, steps') \<Rightarrow> descend_rounds port opts origin target_y rounds observed steps' (completed + 1)))"

definition reached_depth :: "position \<Rightarrow> int \<Rightarrow> int \<Rightarrow> position \<Rightarrow> json_object list \<Rightarrow> nat \<Rightarrow> tool_result" where
  "reached_depth origin target_y step_budget current steps completed =
     (if height_of current \<le> target_y
      then done_result ''dig_down_target_reached'' (shaft_report origin target_y current steps completed)
      else fail_result ''dig_down_step_budget_exhausted'' True
             ''raise the step budget or resume the shaft descent from the current position''
             [(''origin'', json_position origin), (''target_y'', JInt target_y), (''final_pos'', json_position current),
              (''step_budget'', JInt step_budget), (''steps'', json_list steps JDict),
              (''steps_completed'', json_int_nat completed)])"

definition dig_down_to_y ::
  "'w body_port \<Rightarrow> int \<Rightarrow> position option \<Rightarrow> shaft_options \<Rightarrow> ('w, tool_result) tx" where
  "dig_down_to_y port target_y current_pos opts =
     tx_bind (origin_or_here port current_pos) (\<lambda>origin.
     if height_of origin \<le> target_y
     then tx_return (done_result ''dig_down_target_reached'' (shaft_report origin target_y origin [] 0))
     else if (case so_max_steps opts of None \<Rightarrow> False | Some n \<Rightarrow> n < 1) then tx_raise (PyRaised ValueError)
     else (let step_budget = (case so_max_steps opts of None \<Rightarrow> height_of origin - target_y | Some n \<Rightarrow> n)
           in tx_bind (descend_rounds port opts origin target_y (nat step_budget) origin [] 0) (\<lambda>r. or_return r
                (\<lambda>(current, steps, completed). tx_return (reached_depth origin target_y step_budget current steps completed)))))"

end
