(* ===== verification/Shaft_Up.thy ===== *)
theory Shaft_Up
  imports Shaft_Down Dry_Mining
begin

text \<open>
  Digging up: \<open>dig_up_one\<close> and \<open>dig_up_to_y\<close> of \<open>minebot/body/block_work.py\<close>, a shaft cleared above,
  a jump, and a pillar block in the cell that was left.
\<close>

section \<open>One block up\<close>

fun above_by :: "position \<Rightarrow> int \<Rightarrow> position" where
  "above_by (x, y, z) n = (x, y + n, z)"

text \<open>The usable scaffold blocks, or the result that ends the step.\<close>

definition scaffold_candidates ::
  "'w body_port \<Rightarrow> nat \<Rightarrow> position \<Rightarrow> string list \<Rightarrow> ('w, tool_result + string list) tx" where
  "scaffold_candidates port pages origin scaffold_blocks =
     tx_bind (read_inventory_counts port pages None) (\<lambda>r. tx_return (case r of
       Inl failed \<Rightarrow> Inl (with_metric failed ''dig_up'' (JDict
         [(''origin'', json_position origin), (''phase'', JStr ''inventory'')]))
     | Inr counts \<Rightarrow>
         (let wanted = map normalize_item_name scaffold_blocks;
              usable = filter (\<lambda>b. count_of counts b > 0) wanted
          in if usable = []
             then Inl (fail_result ''dig_up_no_scaffold_available'' False
                    ''put a safe scaffold block in inventory before attempting a pillar ascent''
                    [(''origin'', json_position origin), (''requested_scaffold_blocks'', json_list wanted JStr),
                     (''inventory_counts'', json_counts counts)])
             else Inr usable)))"

definition cleared_fact :: "string \<Rightarrow> position \<Rightarrow> tool_result \<Rightarrow> json_object" where
  "cleared_fact label pos r =
     [(''phase'', JStr label), (''target'', json_position pos), (''reason'', JStr (tr_reason r)),
      (''success'', JBool (tr_success r))]"

definition up_metrics :: "position \<Rightarrow> json_object list \<Rightarrow> string list \<Rightarrow> json_object" where
  "up_metrics origin cleared candidates =
     [(''origin'', json_position origin), (''cleared'', json_list cleared JDict),
      (''scaffold_candidates'', json_list candidates JStr)]"

fun clear_above ::
  "'w body_port \<Rightarrow> position \<Rightarrow> break_context \<Rightarrow> rat \<Rightarrow> string list \<Rightarrow> (string \<times> position) list \<Rightarrow> json_object list
   \<Rightarrow> ('w, tool_result + json_object list) tx" where
  "clear_above port origin context timeout_s candidates [] cleared = tx_return (Inr cleared)"
| "clear_above port origin context timeout_s candidates ((label, pos) # cells) cleared =
     tx_bind (perceive port ''blockAt'' (block_params pos)) (\<lambda>p.
     case perception_failure p of
       Some failed \<Rightarrow> tx_return (Inl (with_metric failed ''dig_up'' (JDict
         [(''origin'', json_position origin), (''phase'', JStr label), (''target'', json_position pos)])))
     | None \<Rightarrow>
         if is_liquid_perception port p
         then tx_return (Inl (fail_result ''dig_up_liquid_above'' False
                ''choose another ascent column or seal the liquid above before pillar-up''
                [(''origin'', json_position origin), (''phase'', JStr label), (''target'', json_position pos),
                 (''block_type'', observed_type port p)]))
         else if is_clear_perception port p then clear_above port origin context timeout_s candidates cells cleared
         else tx_bind (mine_block port pos context timeout_s True False) (\<lambda>mined.
              (let cleared' = cleared @ [cleared_fact label pos mined]
               in if \<not> tr_success mined
                  then tx_return (Inl (with_metric mined ''dig_up'' (JDict (up_metrics origin cleared' candidates))))
                  else clear_above port origin context timeout_s candidates cells cleared')))"

definition jump_metrics :: "position \<Rightarrow> point \<Rightarrow> rat \<Rightarrow> json_object list \<Rightarrow> tool_result \<Rightarrow> string list \<Rightarrow> json_object" where
  "jump_metrics origin observed gain cleared jumped candidates =
     [(''origin'', json_position origin), (''observed_pos'', json_point observed), (''gained_y'', json_flt gain),
      (''cleared'', json_list cleared JDict), (''jump_result'', JDict (tool_result_payload jumped)),
      (''scaffold_candidates'', json_list candidates JStr)]"

text \<open>The jump: it ends the step, or leaves the height from before and the terminal.\<close>

definition jump_clear ::
  "'w body_port \<Rightarrow> position \<Rightarrow> rat \<Rightarrow> json_object list \<Rightarrow> string list \<Rightarrow> ('w, tool_result + rat \<times> tool_result) tx" where
  "jump_clear port origin timeout_s cleared candidates =
     tx_bind (get_state port) (\<lambda>start.
     tx_bind (send_action port ''jump'' [] timeout_s) (\<lambda>(a, accepted).
     case acceptance_failure accepted ''jump'' origin of
       Some rejected \<Rightarrow> tx_return (Inl (with_metric rejected ''dig_up'' (JDict (up_metrics origin cleared candidates))))
     | None \<Rightarrow>
         tx_bind (await_result port a) (\<lambda>jumped.
         if \<not> tr_success jumped
         then tx_return (Inl (with_metric jumped ''dig_up'' (JDict (up_metrics origin cleared candidates))))
         else tx_bind (get_state port) (\<lambda>state.
              (let gain = fst (snd (bs_pos state)) - fst (snd (bs_pos start));
                   metrics = jump_metrics origin (bs_pos state) gain cleared jumped candidates
               in tx_return
                    (if gain \<le> 0
                     then Inl (fail_result ''dig_up_no_height_gain'' True
                            ''use the Body-owned surface recovery when a one-shot jump cannot leave the pillar cell'' metrics)
                     else if body_intersects_block (bs_pos state) origin
                     then Inl (fail_result ''dig_up_jump_clearance_incomplete'' True
                            ''use the Body-owned surface recovery so jump and pillar placement stay in one server-tick controller''
                            metrics)
                     else Inr (fst (snd (bs_pos start)), jumped)))))))"

definition up_done ::
  "position \<Rightarrow> rat \<Rightarrow> body_state \<Rightarrow> json_object list \<Rightarrow> tool_result \<Rightarrow> tool_result \<Rightarrow> string list \<Rightarrow> tool_result" where
  "up_done origin start_y after cleared jumped placed candidates =
     (let gained = fst (snd (bs_pos after)) - start_y;
          metrics =
            [(''origin'', json_position origin), (''final_pos'', json_position (state_block_pos (bs_pos after))),
             (''gained_y'', json_flt gained), (''cleared'', json_list cleared JDict),
             (''jump_result'', JDict (tool_result_payload jumped)), (''place_result'', JDict (tool_result_payload placed)),
             (''scaffold_block'', JStr (hd candidates)), (''scaffold_candidates'', json_list candidates JStr)]
      in if gained \<le> 0
         then fail_result ''dig_up_no_height_gain'' True
                ''re-sync the body position or use a dedicated vertical controller before retrying pillar-up'' metrics
         else done_result ''dig_up_step_completed'' metrics)"

definition raise_pillar ::
  "'w body_port \<Rightarrow> position \<Rightarrow> rat \<Rightarrow> json_object list \<Rightarrow> string list \<Rightarrow> ('w, tool_result) tx" where
  "raise_pillar port origin timeout_s cleared candidates =
     tx_bind (jump_clear port origin timeout_s cleared candidates) (\<lambda>r. or_return r (\<lambda>(start_y, jumped).
     tx_bind (place_block port origin (hd candidates) None PC_WORK ''pillar'' False timeout_s) (\<lambda>placed.
     if \<not> tr_success placed
     then tx_return (with_metric placed ''dig_up'' (JDict
            [(''origin'', json_position origin), (''cleared'', json_list cleared JDict),
             (''jump_result'', JDict (tool_result_payload jumped)), (''scaffold_candidates'', json_list candidates JStr)]))
     else tx_bind (get_state port) (\<lambda>after.
          tx_return (up_done origin start_y after cleared jumped placed candidates)))))"

definition dig_up_one ::
  "'w body_port \<Rightarrow> nat \<Rightarrow> position option \<Rightarrow> break_context \<Rightarrow> string list \<Rightarrow> rat \<Rightarrow> ('w, tool_result) tx" where
  "dig_up_one port pages current_pos context scaffold_blocks timeout_s =
     tx_bind (origin_or_here port current_pos) (\<lambda>origin.
     tx_bind (scaffold_candidates port pages origin scaffold_blocks) (\<lambda>r. or_return r (\<lambda>candidates.
     tx_bind (clear_above port origin context timeout_s candidates
                [(''head'', above_by origin 1), (''cap'', above_by origin 2)] []) (\<lambda>r. or_return r (\<lambda>cleared.
     raise_pillar port origin timeout_s cleared candidates)))))"

section \<open>Up to a height\<close>

record ascent_options =
  ao_context :: break_context
  ao_scaffold_blocks :: "string list"
  ao_timeout_s :: rat
  ao_max_steps :: "int option"
  ao_pages :: nat

definition ascend_once ::
  "'w body_port \<Rightarrow> ascent_options \<Rightarrow> position \<Rightarrow> int \<Rightarrow> position \<Rightarrow> json_object list \<Rightarrow> nat
   \<Rightarrow> ('w, tool_result + position \<times> json_object list) tx" where
  "ascend_once port opts origin target_y current steps completed =
     tx_bind (dig_up_one port (ao_pages opts) (Some current) (ao_context opts) (ao_scaffold_blocks opts) (ao_timeout_s opts)) (\<lambda>r.
     if \<not> tr_success r
     then tx_return (Inl (stopped_shaft r origin target_y current (steps @ [step_facts ''ascend'' current r]) completed))
     else tx_bind (get_state port) (\<lambda>state.
          (let observed = state_block_pos (bs_pos state);
               steps' = steps @ [step_facts ''ascend'' current r @ [(''observed_pos'', json_position observed)]]
           in tx_return
                (if height_of observed \<le> height_of current
                 then Inl (fail_result ''dig_up_ascent_incomplete'' True
                        ''re-sync the body position before continuing the shaft ascent''
                        [(''origin'', json_position origin), (''target_y'', JInt target_y),
                         (''expected_min_y'', JInt (height_of current + 1)), (''final_pos'', json_position observed),
                         (''steps'', json_list steps' JDict), (''steps_completed'', json_int_nat completed)])
                 else Inr (observed, steps')))))"

fun ascend_rounds ::
  "'w body_port \<Rightarrow> ascent_options \<Rightarrow> position \<Rightarrow> int \<Rightarrow> nat \<Rightarrow> position \<Rightarrow> json_object list \<Rightarrow> nat
   \<Rightarrow> ('w, tool_result + position \<times> json_object list \<times> nat) tx" where
  "ascend_rounds port opts origin target_y 0 current steps completed = tx_return (Inr (current, steps, completed))"
| "ascend_rounds port opts origin target_y (Suc rounds) current steps completed =
     (if height_of current \<ge> target_y then tx_return (Inr (current, steps, completed))
      else tx_bind (ascend_once port opts origin target_y current steps completed) (\<lambda>r. case r of
             Inl result \<Rightarrow> tx_return (Inl result)
           | Inr (observed, steps') \<Rightarrow> ascend_rounds port opts origin target_y rounds observed steps' (completed + 1)))"

definition reached_height :: "position \<Rightarrow> int \<Rightarrow> int \<Rightarrow> position \<Rightarrow> json_object list \<Rightarrow> nat \<Rightarrow> tool_result" where
  "reached_height origin target_y step_budget current steps completed =
     (if height_of current \<ge> target_y
      then done_result ''dig_up_target_reached'' (shaft_report origin target_y current steps completed)
      else fail_result ''dig_up_step_budget_exhausted'' True
             ''raise the step budget or resume the shaft ascent from the current position''
             [(''origin'', json_position origin), (''target_y'', JInt target_y), (''final_pos'', json_position current),
              (''step_budget'', JInt step_budget), (''steps'', json_list steps JDict),
              (''steps_completed'', json_int_nat completed)])"

definition dig_up_to_y ::
  "'w body_port \<Rightarrow> int \<Rightarrow> position option \<Rightarrow> ascent_options \<Rightarrow> ('w, tool_result) tx" where
  "dig_up_to_y port target_y current_pos opts =
     tx_bind (origin_or_here port current_pos) (\<lambda>origin.
     if height_of origin \<ge> target_y
     then tx_return (done_result ''dig_up_target_reached'' (shaft_report origin target_y origin [] 0))
     else if (case ao_max_steps opts of None \<Rightarrow> False | Some n \<Rightarrow> n < 1) then tx_raise (PyRaised ValueError)
     else (let step_budget = (case ao_max_steps opts of None \<Rightarrow> target_y - height_of origin | Some n \<Rightarrow> n)
           in tx_bind (ascend_rounds port opts origin target_y (nat step_budget) origin [] 0) (\<lambda>r. or_return r
                (\<lambda>(current, steps, completed). tx_return (reached_height origin target_y step_budget current steps completed)))))"

end
