(* ===== verification/Shaft_Safety.thy ===== *)
theory Shaft_Safety
  imports Shaft_Up Block_Safety
begin

text \<open>
  What a shaft does to the world, for \<open>dig_down_to_y\<close> and \<open>dig_up_to_y\<close> of
  \<open>minebot/body/block_work.py\<close>: every break is cleared, no floor is opened that was not probed, and
  a successful shaft ends where it reports to be, within its step budget.
\<close>

section \<open>Invariants along a shaft\<close>

context travel_invariant begin

lemma keeps_mining:
  assumes "navigation_keeps J port" and "\<And>params r. C (Perceived ''blockAt'' params r)"
    and "\<And>a r. ac_name a = ''mineBlock'' \<Longrightarrow> C (Executed a r)" and "\<And>j. C (Judged j)"
  shows "keeps inv (mine_block (recording port) pos ctx t approach explicit_target)"
  unfolding mine_block_def Let_def
  by (intro keeps_flow keeps_perceive keeps_judge_break keeps_approach keeps_prepositioned keeps_send keeps_await_result assms)
    (simp add: sent_as_def)

end

context log_invariant begin

lemma keeps_origin: "keeps inv (origin_or_here (recording port) current_pos)"
  unfolding origin_or_here_def by (intro keeps_intros keeps_get_state)

lemma keeps_wait_for_descent: "keeps inv (wait_for_descent (recording port) polls target timeout_s)"
proof -
  have "keeps inv (descent_polls (recording port) target timeout_s deadline polls observed samples)" for deadline observed samples
  proof (induction polls arbitrary: observed samples)
    case (Suc polls)
    show ?case
      unfolding descent_polls.simps Let_def
      by (intro keeps_intros keeps_monotonic keeps_get_state keeps_pause Suc.IH)
  qed (simp add: keeps_raise)
  then show ?thesis unfolding wait_for_descent_def by (intro keeps_intros keeps_monotonic keeps_get_state)
qed

lemma keeps_align:
  assumes "\<And>a r. ac_name a = ''moveTo'' \<Longrightarrow> C (Executed a r)" and "\<And>a r. ac_name a = ''stop'' \<Longrightarrow> C (Executed a r)"
  shows "keeps inv (align_for_descent (recording port) shaft timeout_s)"
proof -
  have stop: "keeps inv (stop_body_controls (recording port) t)" for t
    unfolding stop_body_controls_def by (intro keeps_flow keeps_send keeps_await_result) (simp add: sent_as_def assms)
  have "keeps inv (move_to_block_center (recording port) shaft r t stabilize)" for r t stabilize
    unfolding move_to_block_center_def Let_def
    by (intro keeps_flow keeps_send keeps_await_result stop) (simp add: sent_as_def assms)
  then show ?thesis
    unfolding align_for_descent_def Let_def interrupted_alignment_def
    by (intro keeps_flow keeps_get_state) (auto split: body_exn.splits intro!: keeps_flow keeps_interrupt)
qed

lemma keeps_scaffold: "keeps inv (scaffold_candidates (recording port) pages origin blocks)"
  unfolding scaffold_candidates_def by (intro keeps_flow keeps_read_inventory_counts)

end

text \<open>A shaft on top of a mining of one block that keeps the invariant.\<close>

locale shaft_invariant = log_invariant +
  assumes reads: "C (Perceived ''blockAt'' params r)"
    and acts: "ac_name a \<notin> {''mineBlock'', ''placeBlock''} \<Longrightarrow> C (Executed a x)"
    and decides: "C (Judged j)"
begin

lemma keeps_scan_start: "keeps inv (scan_start_liquid (recording port) origin)"
proof -
  have "keeps inv (scan_liquid_parts (recording port) origin parts)" for parts
  proof (induction parts)
    case (Cons part parts)
    show ?case
      by (cases part) (simp, intro keeps_intros keeps_perceive reads Cons.IH)
  qed (simp add: keeps_return)
  then show ?thesis unfolding scan_start_liquid_def by blast
qed

lemma keeps_fall_cells: "keeps inv (fall_cell_by_cell (recording port) pos depth more_cells)"
proof (induction more_cells arbitrary: pos depth)
  case (Suc n)
  show ?case
    by (subst fall_cell_by_cell.simps) (simp only: nat.case, intro keeps_intros keeps_perceive reads Suc.IH)
qed (subst fall_cell_by_cell.simps, simp only: nat.case, intro keeps_intros keeps_perceive reads)

lemma keeps_fall_probe: "keeps inv (fall_probe_after_opening (recording port) target max_clear_fall)"
  unfolding fall_probe_after_opening_def fall_probe_fallback_def
  by (intro keeps_intros keeps_facts_or_error keeps_fall_cells)

lemma keeps_dig_down_from:
  assumes mining: "\<And>pos. keeps inv (mine_block (recording port) pos ctx t True False)"
  shows "keeps inv (dig_down_from (recording port) origin ctx max_clear_fall t)"
  unfolding dig_down_from_def open_seen_def open_probed_def Let_def open_below_def
  by (intro keeps_flow keeps_scan_start keeps_perceive reads keeps_fall_probe keeps_judge_break decides mining)

lemma keeps_dig_down_one:
  assumes mining: "\<And>pos. keeps inv (mine_block (recording port) pos ctx t True False)"
  shows "keeps inv (dig_down_one (recording port) current ctx max_clear_fall t)"
  unfolding dig_down_one_def by (intro keeps_flow keeps_origin keeps_dig_down_from mining)

lemma keeps_dig_down_to_y:
  assumes mining: "\<And>pos ctx t. keeps inv (mine_block (recording port) pos ctx t True False)"
  shows "keeps inv (dig_down_to_y (recording port) target_y current opts)"
proof -
  have "keeps inv (descend_once (recording port) opts origin target_y now steps n)" for origin now steps n
    unfolding descend_once_def Let_def
    by (intro keeps_flow keeps_dig_down_one mining keeps_align acts keeps_get_state keeps_wait_for_descent) simp_all
  then have "keeps inv (descend_rounds (recording port) opts origin target_y rounds now steps n)" for origin rounds now steps n
  proof (induction rounds arbitrary: now steps n)
    case (Suc rounds)
    show ?case unfolding descend_rounds.simps by (intro keeps_flow Suc.prems Suc.IH)
  qed (simp add: keeps_return)
  then show ?thesis unfolding dig_down_to_y_def Let_def by (intro keeps_flow keeps_origin)
qed

lemma keeps_clear_above:
  assumes mining: "\<And>pos. keeps inv (mine_block (recording port) pos ctx t True False)"
  shows "keeps inv (clear_above (recording port) origin ctx t candidates cells cleared)"
proof (induction cells arbitrary: cleared)
  case (Cons cell cells)
  show ?case
    by (cases cell) (simp add: Let_def, intro keeps_flow keeps_perceive reads mining Cons.IH)
qed (simp add: keeps_return)

lemma keeps_raise_pillar:
  assumes placing: "\<And>pos b face ctx purpose replacing t. keeps inv (place_block (recording port) pos b face ctx purpose replacing t)"
  shows "keeps inv (raise_pillar (recording port) origin t cleared candidates)"
  unfolding raise_pillar_def jump_clear_def Let_def
  by (intro keeps_flow keeps_get_state keeps_send keeps_await_result placing acts) (simp_all add: sent_as_def)

lemma keeps_dig_up_to_y:
  assumes mining: "\<And>pos ctx t. keeps inv (mine_block (recording port) pos ctx t True False)"
    and placing: "\<And>pos b face ctx purpose replacing t. keeps inv (place_block (recording port) pos b face ctx purpose replacing t)"
  shows "keeps inv (dig_up_to_y (recording port) target_y current opts)"
proof -
  have "keeps inv (ascend_once (recording port) opts origin target_y now steps n)" for origin now steps n
    unfolding ascend_once_def dig_up_one_def Let_def
    by (intro keeps_flow keeps_origin keeps_scaffold keeps_clear_above mining keeps_raise_pillar placing keeps_get_state)
  then have "keeps inv (ascend_rounds (recording port) opts origin target_y rounds now steps n)" for origin rounds now steps n
  proof (induction rounds arbitrary: now steps n)
    case (Suc rounds)
    show ?case unfolding ascend_rounds.simps by (intro keeps_flow Suc.prems Suc.IH)
  qed (simp add: keeps_return)
  then show ?thesis unfolding dig_up_to_y_def Let_def by (intro keeps_flow keeps_origin)
qed

end

interpretation shaft_breaks: shaft_invariant "breaks_cleared port kept rules" "\<lambda>c. \<not> mines c" for port kept rules
  by unfold_locales (auto intro: breaks_cleared_other breaks_cleared_judging breaks_cleared_placing)

interpretation shaft_unopened: shaft_invariant "\<lambda>cs p. unmined cs" "\<lambda>c. \<not> mines c"
  by unfold_locales simp_all

section \<open>The probe names the ground\<close>

definition landing_known :: "position \<Rightarrow> nat \<Rightarrow> fall_probe \<Rightarrow> bool" where
  "landing_known target max_clear_fall probe \<longleftrightarrow>
     fp_failed probe = None \<and> fp_liquid_landing probe = None \<and> fp_clear_depth probe \<le> max_clear_fall"

definition grounded :: "position \<Rightarrow> fall_probe \<Rightarrow> bool" where
  "grounded target probe \<longleftrightarrow>
     1 \<le> fp_clear_depth probe \<and> fp_support_pos probe = Some (below_by target (int (fp_clear_depth probe)))"

lemma below_by_below [simp]: "below_by (below_by p m) n = below_by p (m + n)"
  by (cases p) simp

lemma probe_cell_grounded:
  "probe_cell port depth (below_by target (int depth)) p = Some probe \<Longrightarrow> 1 \<le> depth \<Longrightarrow>
     fp_clear_depth probe = depth \<and> (landing_known target max_clear_fall probe \<longrightarrow> grounded target probe)"
  by (auto simp: probe_cell_def probe_at_def landing_known_def grounded_def split: option.splits if_splits)

lemma not_landing: "max_clear_fall < depth \<Longrightarrow> \<not> landing_known target max_clear_fall (probe_at depth)"
  by (simp add: landing_known_def probe_at_def)

lemma probe_facts_grounded:
  "probe_facts port facts max_clear_fall (map (\<lambda>n. below_by target (1 + int n)) [k..<max_clear_fall]) (k + 1) = Some probe \<Longrightarrow>
     landing_known target max_clear_fall probe \<Longrightarrow> k \<le> max_clear_fall \<Longrightarrow> grounded target probe"
proof (induction "max_clear_fall - k" arbitrary: k)
  case 0
  then show ?case using not_landing [of max_clear_fall "k + 1" target] by simp
next
  case (Suc n)
  then have k: "k < max_clear_fall" by simp
  have cell: "below_by target (1 + int k) = below_by target (int (k + 1))" by (simp add: add.commute)
  from Suc.prems(1) obtain p where p: "map_of facts (below_by target (1 + int k)) = Some p"
    using k by (simp add: upt_conv_Cons split: option.splits)
  show ?case
  proof (cases "probe_cell port (k + 1) (below_by target (1 + int k)) p")
    case None
    then show ?thesis
      using Suc.prems Suc.hyps(1) [of "Suc k"] Suc.hyps(2) k p not_landing [of max_clear_fall "Suc (Suc k)" target]
      by (auto simp: upt_conv_Cons split: if_splits)
  next
    case (Some found)
    then have "probe = found" using Suc.prems(1) k p by (simp add: upt_conv_Cons)
    then show ?thesis using probe_cell_grounded [of port "k + 1" target p found] Some Suc.prems(2) unfolding cell by simp
  qed
qed

lemma fall_cell_step:
  "fall_cell_by_cell port pos depth 0 = tx_bind (perceive port ''blockAt'' (block_params pos)) (\<lambda>p.
     case probe_cell port depth pos p of None \<Rightarrow> tx_return (probe_at (depth + 1)) | Some probe \<Rightarrow> tx_return probe)"
  "fall_cell_by_cell port pos depth (Suc n) = tx_bind (perceive port ''blockAt'' (block_params pos)) (\<lambda>p.
     case probe_cell port depth pos p of None \<Rightarrow> fall_cell_by_cell port (below_by pos 1) (depth + 1) n | Some probe \<Rightarrow> tx_return probe)"
  by (subst fall_cell_by_cell.simps, simp only: nat.case)+

lemma fall_cells_grounded:
  "fall_cell_by_cell port (below_by target (int depth)) depth n s = (Inr probe, s') \<Longrightarrow> 1 \<le> depth \<Longrightarrow>
     depth + n = max_clear_fall \<Longrightarrow> landing_known target max_clear_fall probe \<Longrightarrow> grounded target probe"
proof (induction n arbitrary: depth s)
  case 0
  then obtain p t where "(case probe_cell port depth (below_by target (int depth)) p of
      Some probe \<Rightarrow> tx_return probe | None \<Rightarrow> tx_return (probe_at (depth + 1))) t = (Inr probe, s')"
    unfolding fall_cell_step tx_bind_Inr by blast
  then show ?case
    using "0.prems" not_landing [of max_clear_fall "depth + 1" target] probe_cell_grounded [of port depth target p probe]
    by (auto simp: tx_return_def split: option.splits)
next
  case (Suc n)
  then obtain p t where "(case probe_cell port depth (below_by target (int depth)) p of
      Some probe \<Rightarrow> tx_return probe
    | None \<Rightarrow> fall_cell_by_cell port (below_by target (int depth + 1)) (depth + 1) n) t = (Inr probe, s')"
    unfolding fall_cell_step tx_bind_Inr below_by_below by blast
  then show ?case
    using Suc.prems(2-) Suc.IH [of "depth + 1" t] probe_cell_grounded [of port depth target p probe]
    by (auto simp: tx_return_def add.commute split: option.splits)
qed

lemma fall_probe_grounded:
  assumes "fall_probe_after_opening port target max_clear_fall s = (Inr probe, s')"
    and "landing_known target max_clear_fall probe" and "1 \<le> max_clear_fall"
  shows "grounded target probe"
proof -
  have fallback: "grounded target probe" if "fall_probe_fallback port target max_clear_fall t = (Inr probe, s')" for t
    using fall_cells_grounded [of port target 1 "max_clear_fall - 1" t probe s' max_clear_fall] that assms(2,3)
    by (simp add: fall_probe_fallback_def)
  obtain r :: "string + (position, perception_result) pydict" and t where r: "(case r of
       Inl text \<Rightarrow> fall_probe_fallback port target max_clear_fall
     | Inr facts \<Rightarrow>
         (case probe_facts port facts max_clear_fall (fall_cells target max_clear_fall) 1 of
            None \<Rightarrow> fall_probe_fallback port target max_clear_fall
          | Some probe \<Rightarrow> tx_return probe)) t = (Inr probe, s')"
    using assms(1) unfolding fall_probe_after_opening_def tx_bind_Inr by blast
  show ?thesis
  proof (cases r)
    case (Inl msg)
    then show ?thesis using r fallback by simp
  next
    case (Inr facts)
    then show ?thesis
      using r fallback probe_facts_grounded [of port facts max_clear_fall target 0 probe] assms(2)
      by (auto simp: tx_return_def fall_cells_def split: option.splits)
  qed
qed

section \<open>A floor is opened above ground only\<close>

lemma keeps_unmined:
  "keeps unmined_inv (scan_start_liquid (recording port) origin)"
  "keeps unmined_inv (perceive (recording port) ''blockAt'' params)"
  "keeps unmined_inv (fall_probe_after_opening (recording port) target max_clear_fall)"
  by (rule shaft_unopened.keeps_scan_start unopened.keeps_perceive shaft_unopened.keeps_fall_probe; simp)+

lemma refusal_None:
  "probe_refusal origin target b max_clear_fall probe = None \<longleftrightarrow> landing_known target max_clear_fall probe"
  by (auto simp: probe_refusal_def landing_known_def split: option.splits)

text \<open>
  C11. A run of \<open>dig_down_one\<close> that mines anything reaches the mining only from a state in which
  the block below was read as no liquid, and the probe after it found no failure and no liquid, and
  named the ground: a block at most \<open>max_clear_fall\<close> below the one that is opened.
\<close>

theorem floor_is_opened_above_ground_only:
  fixes port :: "'w body_port"
  assumes start: "unmined (tx_log s)"
    and run: "dig_down_one (recording port) (Some origin) context max_clear_fall timeout_s s = (r, s')"
    and mined: "\<not> unmined (tx_log s')"
  shows "\<exists>p probe s1 s2 s3 metrics.
    perceive (recording port) ''blockAt'' (block_params (below_by origin 1)) s1 = (Inr p, s2) \<and>
    \<not> is_liquid_perception (recording port) p \<and>
    fall_probe_after_opening (recording port) (below_by origin 1) (nat max_clear_fall) s2 = (Inr probe, s3) \<and>
    fp_liquid_landing probe = None \<and> fp_clear_depth probe \<le> nat max_clear_fall \<and>
    fp_support_pos probe = Some (below_by origin (1 + int (fp_clear_depth probe))) \<and>
    unmined (tx_log s3) \<and> s' = snd (open_below (recording port) origin (below_by origin 1) p context timeout_s metrics s3)"
    (is "?opened s'")
proof -
  let ?m = "nat max_clear_fall" and ?t = "below_by origin 1"
  have m: "1 \<le> max_clear_fall"
    using start run mined by (cases "max_clear_fall < 1") (auto simp: dig_down_one_def tx_raise_def)
  have run': "s' = snd (dig_down_from (recording port) origin context ?m timeout_s s)"
    using run m by (simp add: dig_down_one_def origin_or_here_def)
  define P where "P t \<longleftrightarrow> unmined_inv t \<or> ?opened t" for t
  have unmined: "unmined_inv t \<Longrightarrow> P t" for t by (simp add: P_def)
  have probed: "P (snd (open_probed (recording port) origin p context ?m timeout_s probe v))"
    if "perceive (recording port) ''blockAt'' (block_params ?t) t = (Inr p, u)" "\<not> is_liquid_perception (recording port) p"
      "fall_probe_after_opening (recording port) ?t ?m u = (Inr probe, v)" "unmined_inv v" for p probe t u v
    unfolding open_probed_def Let_def
  proof (rule after_unless [where P = P, OF unmined [OF that(4)]])
    let ?metrics = "dig_metrics (recording port) origin ?t p ?m probe"
    assume "probe_refusal origin ?t (observed_type (recording port) p) ?m probe = None"
    then have known: "landing_known ?t ?m probe" by (simp add: refusal_None)
    then have "grounded ?t probe" using fall_probe_grounded [OF that(3)] m by simp
    then have "?opened (snd (open_below (recording port) origin ?t p context timeout_s ?metrics v))"
      using that known unfolding grounded_def landing_known_def unopened.inv_def below_by_below by blast
    then show "P (snd ((if is_clear_perception (recording port) p
        then tx_return \<lparr>tr_success = True, tr_reason = ''dig_down_already_open'', tr_can_retry = False,
               tr_next_suggestion = None, tr_metrics = Some [(''dig_down'', JDict ?metrics)]\<rparr>
        else open_below (recording port) origin ?t p context timeout_s ?metrics) v))"
      using unmined [OF that(4)] by (simp add: P_def)
  qed
  have seen: "P (snd (open_seen (recording port) origin context ?m timeout_s p u))"
    if "perceive (recording port) ''blockAt'' (block_params ?t) t = (Inr p, u)" "unmined_inv u" for p t u
  proof (cases "perception_failure p = None \<and> \<not> is_liquid_perception (recording port) p")
    case True
    have "P (snd (tx_bind (fall_probe_after_opening (recording port) ?t ?m) (open_probed (recording port) origin p context ?m timeout_s) u))"
      by (rule after_bind [where P = P, OF that(2) keeps_unmined(3) unmined]) (use True probed that(1) in auto)
    then show ?thesis using True by (simp add: open_seen_def)
  next
    case False
    then show ?thesis using unmined [OF that(2)] by (auto simp: open_seen_def split: option.split)
  qed
  have "unmined_inv s" using start by (simp add: unopened.inv_def)
  then have "P (snd (dig_down_from (recording port) origin context ?m timeout_s s))"
    unfolding dig_down_from_def
  proof (rule after_bind [where P = P, OF _ keeps_unmined(1) unmined])
    fix a and t :: "'w logged tx_state"
    assume t: "unmined_inv t"
    show "P (snd (unless_failed a (tx_bind (perceive (recording port) ''blockAt'' (block_params ?t)) (open_seen (recording port) origin context ?m timeout_s)) t))"
      by (rule after_unless [where P = P, OF unmined [OF t]], rule after_bind [where P = P, OF t keeps_unmined(2) unmined])
        (use seen in auto)
  qed
  then show ?thesis using mined run' by (simp add: P_def unopened.inv_def)
qed

section \<open>A shaft ends where it says\<close>

text \<open>The blocks the body was seen in, in the order of the log.\<close>

fun body_seen :: "body_call \<Rightarrow> position list" where
  "body_seen (Looked (Inr st)) = [state_block_pos (bs_pos st)]"
| "body_seen _ = []"

definition seen_blocks :: "body_call list \<Rightarrow> position list" where
  "seen_blocks cs = concat (map body_seen cs)"

lemma seen_blocks_snoc [simp]: "seen_blocks (cs @ [c]) = seen_blocks cs @ body_seen c"
  by (simp add: seen_blocks_def)

text \<open>The log started with \<open>old\<close>, and the body was seen in the blocks of \<open>ps\<close>, in this order.\<close>

definition seen_along :: "body_call list \<Rightarrow> position list \<Rightarrow> body_call list \<Rightarrow> bool" where
  "seen_along old ps cs \<longleftrightarrow> prefix old cs \<and> subseq ps (seen_blocks cs)"

lemma seen_along_more: "seen_along old ps cs \<Longrightarrow> seen_along old ps (cs @ [c])"
  by (auto simp: seen_along_def intro: list_emb_append2 prefix_prefix)

interpretation along: travel_invariant "\<lambda>cs p. seen_along old ps cs" "\<lambda>_. True" for old ps
  by unfold_locales (simp_all add: seen_along_more)

interpretation shaft_along: shaft_invariant "\<lambda>cs p. seen_along old ps cs" "\<lambda>_. True" for old ps
  by unfold_locales simp_all

abbreviation along_inv :: "body_call list \<Rightarrow> position list \<Rightarrow> 'w logged tx_state \<Rightarrow> bool" where
  "along_inv old ps \<equiv> log_invariant.inv (\<lambda>cs p. seen_along old ps cs)"

lemma along_mining: "keeps (along_inv old ps) (mine_block (recording port) pos ctx t approach explicit_target)"
  by (rule along.keeps_mining) (simp_all add: navigation_keeps_def)

lemma get_state_seen:
  assumes "get_state (recording port) s = (Inr st, s')"
  shows "tx_log s' = tx_log s @ [Looked (Inr st)]"
  using assms by (auto simp: get_state_def tx_call_def recording_def noting_def tx_log_def split: prod.splits)

text \<open>The log ends with a look at the body in this block, after it was seen in the blocks of \<open>ps\<close>.\<close>

definition seen_last :: "body_call list \<Rightarrow> position list \<Rightarrow> position \<Rightarrow> body_call list \<Rightarrow> bool" where
  "seen_last old ps pos cs \<longleftrightarrow> seen_along old (ps @ [pos]) cs \<and> seen_blocks cs \<noteq> [] \<and> last (seen_blocks cs) = pos"

lemma seen_last_look:
  "seen_along old ps cs \<Longrightarrow> seen_last old ps (state_block_pos (bs_pos st)) (cs @ [Looked (Inr st)])"
  by (simp add: seen_last_def seen_along_def)

lemma descent_polls_seen:
  assumes "descent_polls (recording port) target t deadline polls observed samples s = (Inr (r, final), s')"
    and "along_inv old ps s" and "tr_success r"
  shows "seen_last old ps final (tx_log s')"
  using assms(1,2)
proof (induction polls arbitrary: observed samples s)
  case 0
  then show ?case by (simp add: tx_raise_def)
next
  case (Suc polls)
  obtain now u where now: "tx_read (port_monotonic (recording port)) s = (Inr now, u)"
    and rest: "(if now \<le> deadline
     then tx_bind (get_state (recording port)) (\<lambda>state.
          (let observed' = state_block_pos (bs_pos state);
               samples' = samples @ [rounded_point (bs_pos state)]
           in if height_of observed' \<le> height_of target
              then tx_return (done_result ''descended'' (descent_metrics target observed' samples'), observed')
              else tx_bind (pause_for (recording port) fall_poll_s) (\<lambda>_.
                   descent_polls (recording port) target t deadline polls observed' samples')))
     else tx_return
            (fail_result ''dig_down_descent_timeout'' True
               ''wait for the body to finish falling or re-sync position before continuing shaft descent''
               [(''target'', json_position target), (''observed_pos'', json_position observed),
                (''timeout_s'', json_flt t), (''samples'', JList (last_five samples))], observed)) u = (Inr (r, final), s')"
    using Suc.prems(1) unfolding descent_polls.simps tx_bind_Inr by blast
  have u: "along_inv old ps u" using keepsD [OF along.keeps_monotonic Suc.prems(2)] now by (metis snd_conv)
  have "now \<le> deadline" using rest assms(3) by (auto simp: tx_return_def fail_result_def split: if_splits)
  then obtain st v where st: "get_state (recording port) u = (Inr st, v)"
    and rest': "(if height_of (state_block_pos (bs_pos st)) \<le> height_of target
              then tx_return (done_result ''descended'' (descent_metrics target (state_block_pos (bs_pos st)) (samples @ [rounded_point (bs_pos st)])),
                     state_block_pos (bs_pos st))
              else tx_bind (pause_for (recording port) fall_poll_s) (\<lambda>_.
                   descent_polls (recording port) target t deadline polls (state_block_pos (bs_pos st))
                     (samples @ [rounded_point (bs_pos st)]))) v = (Inr (r, final), s')"
    using rest by (simp add: tx_bind_Inr Let_def) blast
  have v: "along_inv old ps v" using keepsD [OF along.keeps_get_state u] st by (metis snd_conv)
  show ?case
  proof (cases "height_of (state_block_pos (bs_pos st)) \<le> height_of target")
    case True
    then have "final = state_block_pos (bs_pos st)" "s' = v" using rest' by (simp_all add: tx_return_def)
    then show ?thesis using get_state_seen [OF st] u seen_last_look by (simp add: along.inv_def)
  next
    case False
    then obtain x w where x: "pause_for (recording port) fall_poll_s v = (Inr x, w)"
      and polls: "descent_polls (recording port) target t deadline polls (state_block_pos (bs_pos st))
                     (samples @ [rounded_point (bs_pos st)]) w = (Inr (r, final), s')"
      using rest' unfolding if_not_P [OF False] tx_bind_Inr by blast
    have "along_inv old ps w" using keepsD [OF along.keeps_pause v] x by (metis snd_conv)
    then show ?thesis by (rule Suc.IH [OF polls])
  qed
qed

lemma wait_for_descent_seen:
  assumes "wait_for_descent (recording port) polls target t s = (Inr (r, final), s')"
    and "along_inv old ps s" and "tr_success r"
  shows "seen_last old ps final (tx_log s')"
proof -
  obtain now u st v where now: "tx_read (port_monotonic (recording port)) s = (Inr now, u)"
    and st: "get_state (recording port) u = (Inr st, v)"
    and polls: "descent_polls (recording port) target t (now + t) polls (state_block_pos (bs_pos st)) [] v = (Inr (r, final), s')"
    using assms(1) unfolding wait_for_descent_def tx_bind_Inr by blast
  have "along_inv old ps u" using keepsD [OF along.keeps_monotonic assms(2)] now by (metis snd_conv)
  then have "along_inv old ps v" using keepsD [OF along.keeps_get_state] st by (metis snd_conv)
  then show ?thesis by (rule descent_polls_seen [OF polls _ assms(3)])
qed

text \<open>The falls that a list of steps reports, each with the block it started from and the one observed after it.\<close>

definition descents :: "json_object list \<Rightarrow> (json \<times> json) list" where
  "descents steps = map (\<lambda>d. (dget d ''origin'', dget d ''observed_pos'')) (filter (\<lambda>d. dget d ''kind'' = JStr ''descent'') steps)"

lemma descents_simps [simp]:
  "descents (xs @ ys) = descents xs @ descents ys" "descents [] = []"
  "kind \<noteq> ''descent'' \<Longrightarrow> descents (step_facts kind p r # xs) = descents xs"
  by (simp_all add: descents_def step_facts_def dget_def)

text \<open>One round that goes on goes down, to the block in which the body was seen last.\<close>

definition descended_from ::
  "body_call list \<Rightarrow> position list \<Rightarrow> position \<Rightarrow> json_object list \<Rightarrow> body_call list
   \<Rightarrow> tool_result + position \<times> json_object list \<Rightarrow> bool" where
  "descended_from old ps current steps cs r \<longleftrightarrow>
     (case r of
        Inl result \<Rightarrow> \<not> tr_success result
      | Inr (observed, steps') \<Rightarrow>
          height_of observed < height_of current \<and> seen_last old ps observed cs \<and>
          descents steps' = descents steps @ [(json_position current, json_position observed)])"

lemma stopped_descended [simp]: "descended_from old ps current steps cs (Inl (stopped_shaft r origin target_y final steps' n))"
  "descended_from old ps current steps cs (Inl (fail_result reason retry suggestion m))"
  by (simp_all add: descended_from_def stopped_shaft_def fail_result_def)

lemma descended_choice:
  assumes "tr_success fallen \<Longrightarrow> seen_last old ps observed cs"
    and "descents steps' = descents steps @ [(json_position current, json_position observed)]"
  shows "descended_from old ps current steps cs
    (if \<not> tr_success fallen then Inl (stopped_shaft fallen origin target_y current stopped n)
     else if height_of observed > height_of current - 1 then Inl (fail_result reason retry suggestion m)
     else Inr (observed, steps'))"
  using assms by (auto simp: descended_from_def stopped_shaft_def fail_result_def)

lemma descend_once_seen:
  assumes run: "descend_once (recording port) opts origin target_y current steps n s = (Inr r, s')"
    and s: "along_inv old ps s"
  shows "descended_from old ps current steps (tx_log s') r"
proof -
  obtain opened t where opened: "dig_down_one (recording port) (Some current) (so_context opts) (so_max_clear_fall opts) (so_dig_timeout_s opts) s = (Inr opened, t)"
    using run unfolding descend_once_def tx_bind_Inr by blast
  have t: "along_inv old ps t"
    using keepsD [OF shaft_along.keeps_dig_down_one [OF along_mining] s] opened by (metis snd_conv)
  let ?s1 = "steps @ [step_facts ''open'' current opened]"
  show ?thesis
  proof (cases "tr_success opened")
    case False
    then show ?thesis using run opened by (auto simp: descend_once_def tx_bind_def tx_return_def)
  next
    case True
    then obtain aligned u where aligned: "align_for_descent (recording port) current (min (so_move_timeout_s opts) SHAFT_ALIGNMENT_TIMEOUT_S) t = (Inr aligned, u)"
      using run opened by (auto simp: descend_once_def tx_bind_def [of "dig_down_one _ _ _ _ _"] tx_bind_Inr Let_def)
    have u: "along_inv old ps u"
      using keepsD [OF along.keeps_align t] aligned by (metis snd_conv)
    let ?s2 = "if truthy (dget (metrics_of aligned) ''attempted'') \<or> \<not> tr_success aligned
                        then ?s1 @ [step_facts ''alignment'' current aligned] else ?s1"
    have trail: "descents ?s2 = descents steps" by simp
    show ?thesis
    proof (cases "tr_success aligned")
      case False
      then show ?thesis using run opened aligned \<open>tr_success opened\<close>
        by (auto simp: descend_once_def tx_bind_def tx_return_def Let_def split: prod.splits sum.splits)
    next
      case ok: True
      then obtain fallen observed v where fall: "wait_for_descent (recording port) (so_polls opts) (below_by current 1) (so_move_timeout_s opts) u = (Inr (fallen, observed), v)"
        using run opened aligned \<open>tr_success opened\<close>
        by (auto simp: descend_once_def tx_bind_def [of "dig_down_one _ _ _ _ _"] tx_bind_def [of "align_for_descent _ _ _"] tx_bind_Inr Let_def)
      let ?fall = "[(''kind'', JStr ''descent''), (''origin'', json_position current),
                         (''target'', json_position (below_by current 1)), (''success'', JBool (tr_success fallen)),
                         (''reason'', JStr (tr_reason fallen)), (''metrics'', JDict (metrics_of fallen))]"
      let ?s3 = "?s2 @ [?fall @ [(''observed_pos'', json_position observed)]]"
      have s': "s' = v" and r: "r = (if \<not> tr_success fallen
                         then Inl (stopped_shaft fallen origin target_y current (?s2 @ [?fall]) n)
                         else if height_of observed > height_of current - 1
                         then Inl (fail_result ''dig_down_descent_incomplete'' True
                                ''re-sync the body position before continuing the shaft descent''
                                [(''origin'', json_position origin), (''target_y'', JInt target_y),
                                 (''expected_pos'', json_position (below_by current 1)),
                                 (''final_pos'', json_position observed), (''steps'', json_list ?s3 JDict),
                                 (''steps_completed'', json_int_nat n)])
                         else Inr (observed, ?s3))"
        using run opened aligned \<open>tr_success opened\<close> ok fall
        by (auto simp: descend_once_def tx_bind_def Let_def tx_return_def)
      have "descents ?s3 = descents steps @ [(json_position current, json_position observed)]"
        using trail by (simp add: descents_def dget_def)
      then show ?thesis unfolding r s' by (rule descended_choice [OF wait_for_descent_seen [OF fall u], rotated])
    qed
  qed
qed

text \<open>Rounds go down through the blocks of \<open>ps\<close>, in which the body was seen.\<close>

lemma seen_last_along: "seen_last old ps pos cs \<Longrightarrow> seen_along old (ps @ [pos]) cs"
  by (simp add: seen_last_def)

lemma descend_rounds_seen:
  assumes "descend_rounds (recording port) opts origin target_y rounds current steps n s = (Inr r, s')"
    and "along_inv old seen s"
  shows "case r of
      Inl result \<Rightarrow> \<not> tr_success result
    | Inr (final, steps', m) \<Rightarrow>
        (\<exists>ps. final = last (current # ps) \<and> m = n + length ps \<and> length ps \<le> rounds \<and>
          sorted_wrt (\<lambda>p q. height_of q < height_of p) (current # ps) \<and>
          descents steps' = descents steps @ zip (map json_position (current # ps)) (map json_position ps) \<and>
          seen_along old (seen @ ps) (tx_log s') \<and> (ps = [] \<longrightarrow> s' = s) \<and>
          (ps \<noteq> [] \<longrightarrow> last (seen_blocks (tx_log s')) = final))"
  using assms
proof (induction rounds arbitrary: current steps n s seen)
  case 0
  then show ?case by (auto simp: tx_return_def along.inv_def intro!: exI [of _ "[]"])
next
  case (Suc rounds)
  show ?case
  proof (cases "height_of current \<le> target_y")
    case True
    then show ?thesis using Suc.prems by (auto simp: tx_return_def along.inv_def intro!: exI [of _ "[]"])
  next
    case False
    then obtain x t where once: "descend_once (recording port) opts origin target_y current steps n s = (Inr x, t)"
      and rest: "(case x of Inl result \<Rightarrow> tx_return (Inl result)
           | Inr (observed, steps') \<Rightarrow> descend_rounds (recording port) opts origin target_y rounds observed steps' (n + 1)) t = (Inr r, s')"
      using Suc.prems unfolding descend_rounds.simps if_not_P [OF False] tx_bind_Inr by blast
    note down = descend_once_seen [OF once Suc.prems(2)]
    show ?thesis
    proof (cases x)
      case (Inl result)
      then show ?thesis using down rest by (auto simp: tx_return_def descended_from_def)
    next
      case (Inr y)
      obtain observed steps' where y: "y = (observed, steps')" by (rule prod.exhaust)
      have d: "height_of observed < height_of current" "seen_last old seen observed (tx_log t)"
          "descents steps' = descents steps @ [(json_position current, json_position observed)]"
        using down Inr y by (simp_all add: descended_from_def)
      then have t: "along_inv old (seen @ [observed]) t" by (simp add: along.inv_def seen_last_along)
      have more_rounds: "descend_rounds (recording port) opts origin target_y rounds observed steps' (n + 1) t = (Inr r, s')"
        using rest Inr y by simp
      note IH = Suc.IH [OF more_rounds t]
      show ?thesis
      proof (cases r)
        case (Inl result)
        then show ?thesis using IH by simp
      next
        case r: (Inr z)
        obtain final steps2 m where z: "z = (final, steps2, m)" by (rule prod_cases3)
        obtain ps where ps: "final = last (observed # ps)" "m = n + 1 + length ps" "length ps \<le> rounds"
            "sorted_wrt (\<lambda>p q. height_of q < height_of p) (observed # ps)"
            "descents steps2 = descents steps' @ zip (map json_position (observed # ps)) (map json_position ps)"
            "seen_along old ((seen @ [observed]) @ ps) (tx_log s')" "ps = [] \<longrightarrow> s' = t" "ps \<noteq> [] \<longrightarrow> last (seen_blocks (tx_log s')) = final"
          using IH unfolding r z sum.case prod.case by blast
        have "last (seen_blocks (tx_log s')) = final"
          using ps(1,7,8) d(2) by (cases "ps = []") (simp_all add: seen_last_def)
        moreover have "sorted_wrt (\<lambda>p q. height_of q < height_of p) (current # observed # ps)"
          using ps(4) d(1) by auto
        moreover have "descents steps2 = descents steps @ zip (map json_position (current # observed # ps)) (map json_position (observed # ps))"
          using ps(5) d(3) by simp
        moreover have "seen_along old (seen @ observed # ps) (tx_log s')" using ps(6) by simp
        ultimately show ?thesis
          unfolding r z sum.case prod.case using ps(1,2,3)
          by (intro exI [of _ "observed # ps"] conjI) simp_all
      qed
    qed
  qed
qed

text \<open>
  C12. A successful \<open>dig_down_to_y\<close> starts from the block it was given, or from the block in which
  its first look saw the body, and goes down through blocks \<open>ps\<close>, each lower than the one before,
  in which the body was seen in this order. The last of them is at or below the target height, it
  is where the body was seen last, and it is the position that is reported; the number of steps
  that is reported is that of these blocks, and it is within the budget; and the falls that are
  reported are those from each block to the next. Whatever else is returned is no success.
\<close>

theorem shaft_reaches_what_it_reports:
  assumes start: "tx_log s = []"
    and run: "dig_down_to_y (recording port) target_y current_pos opts s = (Inr r, s')" and ok: "tr_success r"
  shows "\<exists>origin ps steps.
    (case current_pos of
       Some p \<Rightarrow> origin = p
     | None \<Rightarrow> \<exists>st. prefix [Looked (Inr st)] (tx_log s') \<and> origin = state_block_pos (bs_pos st)) \<and>
    r = done_result ''dig_down_target_reached'' (shaft_report origin target_y (last (origin # ps)) steps (length ps)) \<and>
    height_of (last (origin # ps)) \<le> target_y \<and>
    sorted_wrt (\<lambda>p q. height_of q < height_of p) (origin # ps) \<and>
    subseq ps (seen_blocks (tx_log s')) \<and>
    (ps \<noteq> [] \<longrightarrow> last (seen_blocks (tx_log s')) = last ps) \<and>
    descents steps = zip (map json_position (origin # ps)) (map json_position ps) \<and>
    (\<forall>k. so_max_steps opts = Some k \<longrightarrow> int (length ps) \<le> max 0 k)"
proof -
  obtain origin t where here: "origin_or_here (recording port) current_pos s = (Inr origin, t)"
    and rest: "(if height_of origin \<le> target_y
     then tx_return (done_result ''dig_down_target_reached'' (shaft_report origin target_y origin [] 0))
     else if (case so_max_steps opts of None \<Rightarrow> False | Some n \<Rightarrow> n < 1) then tx_raise (PyRaised ValueError)
     else (let step_budget = (case so_max_steps opts of None \<Rightarrow> height_of origin - target_y | Some n \<Rightarrow> n)
           in tx_bind (descend_rounds (recording port) opts origin target_y (nat step_budget) origin [] 0) (\<lambda>r. or_return r
                (\<lambda>(current, steps, completed). tx_return (reached_depth origin target_y step_budget current steps completed))))) t = (Inr r, s')"
    using run unfolding dig_down_to_y_def tx_bind_Inr by blast
  have origin: "case current_pos of
       Some p \<Rightarrow> origin = p
     | None \<Rightarrow> \<exists>st. prefix [Looked (Inr st)] (tx_log t) \<and> origin = state_block_pos (bs_pos st)"
  proof (cases current_pos)
    case None
    then obtain st where st: "get_state (recording port) s = (Inr st, t)" "origin = state_block_pos (bs_pos st)"
      using here by (auto simp: origin_or_here_def tx_return_def tx_bind_Inr)
    then show ?thesis using get_state_seen [OF st(1)] start None by auto
  qed (use here in \<open>simp add: origin_or_here_def tx_return_def\<close>)
  have t: "along_inv (tx_log t) [] t" by (subst along.inv_def) (simp add: seen_along_def)
  show ?thesis
  proof (cases "height_of origin \<le> target_y")
    case True
    then have r: "r = done_result ''dig_down_target_reached'' (shaft_report origin target_y origin [] 0)" and s': "s' = t"
      using rest by (simp_all add: tx_return_def)
    show ?thesis
      by (intro exI [where x = origin] exI [where x = "[]"] exI [where x = "[]"] conjI, unfold s', rule origin)
        (simp_all add: r True)
  next
    case False
    have positive: "\<not> (case so_max_steps opts of None \<Rightarrow> False | Some n \<Rightarrow> n < 1)"
      using rest False by (cases "case so_max_steps opts of None \<Rightarrow> False | Some n \<Rightarrow> n < 1") (simp_all add: tx_raise_def)
    let ?b = "case so_max_steps opts of None \<Rightarrow> height_of origin - target_y | Some n \<Rightarrow> n"
    obtain x u where rounds: "descend_rounds (recording port) opts origin target_y (nat ?b) origin [] 0 t = (Inr x, u)"
      and after: "or_return x (\<lambda>(current, steps, completed). tx_return (reached_depth origin target_y ?b current steps completed)) u = (Inr r, s')"
      using rest unfolding if_not_P [OF False] if_not_P [OF positive] Let_def tx_bind_Inr by blast
    note down = descend_rounds_seen [OF rounds t]
    show ?thesis
    proof (cases x)
      case (Inl result)
      then show ?thesis using down after ok by (simp add: or_return_def tx_return_def)
    next
      case (Inr y)
      obtain final steps n where y: "y = (final, steps, n)" by (rule prod_cases3)
      obtain ps where ps: "final = last (origin # ps)" "n = 0 + length ps" "length ps \<le> nat ?b"
          "sorted_wrt (\<lambda>p q. height_of q < height_of p) (origin # ps)"
          "descents steps = descents [] @ zip (map json_position (origin # ps)) (map json_position ps)"
          "seen_along (tx_log t) ([] @ ps) (tx_log u)" "ps \<noteq> [] \<longrightarrow> last (seen_blocks (tx_log u)) = final"
        using down unfolding Inr y sum.case prod.case by blast
      have r: "r = reached_depth origin target_y ?b final steps n" and s': "s' = u"
        using after Inr y by (simp_all add: or_return_def tx_return_def)
      then have reached: "height_of final \<le> target_y"
          "r = done_result ''dig_down_target_reached'' (shaft_report origin target_y final steps n)"
        using ok by (auto simp: reached_depth_def fail_result_def split: if_splits)
      have "prefix (tx_log t) (tx_log s')" "subseq ps (seen_blocks (tx_log s'))"
        using ps(6) s' by (simp_all add: seen_along_def)
      then have "case current_pos of
           Some p \<Rightarrow> origin = p
         | None \<Rightarrow> \<exists>st. prefix [Looked (Inr st)] (tx_log s') \<and> origin = state_block_pos (bs_pos st)"
        using origin by (auto split: option.splits intro: prefix_order.trans)
      moreover have "\<forall>k. so_max_steps opts = Some k \<longrightarrow> int (length ps) \<le> max 0 k" using ps(3) by auto
      ultimately show ?thesis
        using reached ps \<open>subseq ps _\<close> s'
        by (intro exI [where x = origin] exI [where x = ps] exI [where x = steps]) (auto simp: descents_def)
    qed
  qed
qed

section \<open>Breaks of a shaft\<close>

text \<open>
  C8. A shaft down or a shaft up sends \<open>mineBlock\<close> only where the latest reading of the position is
  complete and the latest decision after that reading is the governance policy's own, about the
  block type that was read, and allows the break; the action names the position, the type, the
  context and that decision. The break keeps the rules of the policy in force when it was decided,
  which protect its regions; where the navigator does not change the declared regions, those of the
  start are protected too.
\<close>

theorem shaft_breaks_only_what_was_cleared:
  assumes start: "tx_log s = []"
    and run: "dig_down_to_y (recording port) target_y current_pos opts s = (r, s') \<or>
      dig_up_to_y (recording port) target_y current_pos opts' s = (r, s')"
    and sent: "i < length (tx_log s')" "tx_log s' ! i = Executed a x" "ac_name a = ''mineBlock''"
  shows "\<exists>j. cleared_break (recording port) j (take i (tx_log s')) a \<and> rightful_break j \<and>
    (navigator_keeps_regions port \<longrightarrow> outside_protection (tx_policy s) (bj_pos j))"
proof -
  let ?J = "breaks_along port (tx_policy s)"
  have "?J s" using start by (simp add: breaks.inv_def breaks_cleared_start)
  moreover have "keeps ?J (dig_down_to_y (recording port) target_y current_pos opts)"
    by (intro shaft_breaks.keeps_dig_down_to_y keeps_mine_block)
  moreover have "keeps ?J (dig_up_to_y (recording port) target_y current_pos opts')"
    by (intro shaft_breaks.keeps_dig_up_to_y keeps_mine_block breaks.keeps_place_block other_actions_mine_nothing)
  ultimately have "?J s'" using run by (auto dest: keepsD)
  then show ?thesis using sent by (rule breaks_along_sent)
qed

section \<open>Applications\<close>

text \<open>One block of dirt below the feet, on stone.\<close>

definition pit_yard :: "demo_world logged tx_state" where
  "pit_yard = \<lparr>tx_world = (\<lparr>dw_cells = [((0, 0, 0), ''dirt'', ''SOLID''), ((0, -1, 0), ''stone'', ''SOLID'')], dw_pos = (1/2, 1, 1/2),
     dw_items = [], dw_clock = 0, dw_next_id = 1\<rparr>, []), tx_policy = yard_policy\<rparr>"

definition pit_log :: "nat \<Rightarrow> body_call list \<Rightarrow> body_call list" where
  "pit_log n cs = tx_log (snd (fall_probe_after_opening (recording demo_port) (0, 0, 0) 2
     \<lparr>tx_world = ((fst (tx_world pit_yard))\<lparr>dw_next_id := n\<rparr>, cs), tx_policy = yard_policy\<rparr>))"

lemma pit_probe:
  "fall_probe_after_opening (recording demo_port) (0, 0, 0) 2
     \<lparr>tx_world = (\<lparr>dw_cells = [((0, 0, 0), ''dirt'', ''SOLID''), ((0, - 1, 0), ''stone'', ''SOLID'')], dw_pos = (1/2, 1, 1/2),
        dw_items = [], dw_clock = 0, dw_next_id = n\<rparr>, cs), tx_policy = yard_policy\<rparr> =
   (Inr ((probe_at 1)\<lparr>fp_support_pos := Some (0, -1, 0), fp_support_type := Some ''stone''\<rparr>),
    \<lparr>tx_world = (\<lparr>dw_cells = [((0, 0, 0), ''dirt'', ''SOLID''), ((0, - 1, 0), ''stone'', ''SOLID'')], dw_pos = (1/2, 1, 1/2),
        dw_items = [], dw_clock = 0, dw_next_id = n\<rparr>, pit_log n cs), tx_policy = yard_policy\<rparr>)"
proof -
  let ?w = "\<lparr>dw_cells = [((0, 0, 0), ''dirt'', ''SOLID''), ((0, - 1, 0), ''stone'', ''SOLID'')], dw_pos = (1/2, 1, 1/2),
        dw_items = [], dw_clock = 0, dw_next_id = n\<rparr>"
  let ?run = "fall_probe_after_opening (recording demo_port) (0, 0, 0) 2 \<lparr>tx_world = (?w, cs), tx_policy = yard_policy\<rparr>"
  have "fst ?run = Inr ((probe_at 1)\<lparr>fp_support_pos := Some (0, -1, 0), fp_support_type := Some ''stone''\<rparr>)"
    "fst (tx_world (snd ?run)) = ?w" "tx_policy (snd ?run) = yard_policy"
    by code_simp+
  moreover have "snd (tx_world (snd ?run)) = pit_log n cs" by (simp add: pit_log_def pit_yard_def tx_log_def)
  moreover obtain r w l p where "?run = (r, \<lparr>tx_world = (w, l), tx_policy = p\<rparr>)"
    by (metis prod.exhaust tx_state.cases)
  ultimately show ?thesis by simp
qed

lemma pit_dug:
  "\<exists>r cs. dig_down_one (recording demo_port) (Some (0, 1, 0)) BC_DIRECT 2 5 pit_yard =
     (Inr r, \<lparr>tx_world = (\<lparr>dw_cells = [((0, - 1, 0), ''stone'', ''SOLID'')], dw_pos = (1/2, 0, 1/2), dw_items = [], dw_clock = 0,
        dw_next_id = 2\<rparr>, cs), tx_policy = yard_policy\<rparr>) \<and> tr_success r \<and> \<not> unmined cs"
proof -
  have "in_mine_reach BC_DIRECT (1/2, 1, 1/2) (0, 0, 0)" "str_of_nat (Suc 0) = ''1''" "region_contains demo_region (0, 0, 0)"
    "\<lfloor>1/2 :: rat\<rfloor> = 0"
    by code_simp+
  moreover have "map_of (budget_params 5 (mine_params (0, 0, 0) ''dirt'' BC_DIRECT 5 d)) ''target'' = Some (JList [JInt 0, JInt 0, JInt 0])" for d
  proof -
    have "json_position (0, 0, 0) = JList [JInt 0, JInt 0, JInt 0]" by code_simp
    then show ?thesis by (simp add: map_of_budget mine_params_def)
  qed
  ultimately show ?thesis
    by (simp add: demo_run pit_yard_def dig_down_one_def origin_or_here_def dig_down_from_def scan_start_liquid_def
      open_seen_def open_probed_def open_below_def mine_block_def approach_mining_target_def unless_failed_def or_return_def
      perception_failure_def is_liquid_perception_def is_clear_perception_def type_or_unknown_def state_or_unknown_def removeprefix_def
      LIQUID_TYPES_def LIQUID_STATES_def acceptance_failure_def body_rejection_to_tool_result_def dirt_budget legality_def
      metrics_of_def mined_metrics_def set_default_def with_metric_def pit_probe probe_refusal_def probe_at_def unmined_def
      cong: tx_bind_arg_cong tx_next_arg_cong)
qed

lemma pit_start: "tx_log pit_yard = []" "tx_policy pit_yard = yard_policy" "unmined (tx_log pit_yard)"
  by (simp_all add: pit_yard_def tx_log_def unmined_def)

lemma floor_is_opened_above_ground_only_witness:
  "\<exists>p probe s1 s2 s3 metrics.
    perceive (recording demo_port) ''blockAt'' (block_params (below_by (0, 1, 0) 1)) s1 = (Inr p, s2) \<and>
    \<not> is_liquid_perception (recording demo_port) p \<and>
    fall_probe_after_opening (recording demo_port) (below_by (0, 1, 0) 1) (nat 2) s2 = (Inr probe, s3) \<and>
    fp_liquid_landing probe = None \<and> fp_clear_depth probe \<le> nat 2 \<and>
    fp_support_pos probe = Some (below_by (0, 1, 0) (1 + int (fp_clear_depth probe))) \<and>
    unmined (tx_log s3) \<and>
    snd (dig_down_one (recording demo_port) (Some (0, 1, 0)) BC_DIRECT 2 5 pit_yard) =
      snd (open_below (recording demo_port) (0, 1, 0) (below_by (0, 1, 0) 1) p BC_DIRECT 5 metrics s3)"
proof -
  obtain r s' where run: "dig_down_one (recording demo_port) (Some (0, 1, 0)) BC_DIRECT 2 5 pit_yard = (Inr r, s')"
    and mined: "\<not> unmined (tx_log s')"
    using pit_dug by (auto simp: tx_log_def)
  show ?thesis using floor_is_opened_above_ground_only [OF pit_start(3) run mined] unfolding run snd_conv .
qed

text \<open>The whole shaft: the body falls with the block, and the shaft ends at the target.\<close>

lemma pit_shaft:
  "\<exists>r s'. dig_down_to_y (recording demo_port) 0 (Some (0, 1, 0))
       \<lparr>so_context = BC_DIRECT, so_max_clear_fall = 2, so_move_timeout_s = 15, so_dig_timeout_s = 5, so_max_steps = None, so_polls = 1\<rparr> pit_yard =
     (Inr r, s') \<and> tr_success r \<and> \<not> unmined (tx_log s')"
proof -
  obtain r cs where run: "dig_down_one (recording demo_port) (Some (0, 1, 0)) BC_DIRECT 2 5 pit_yard =
     (Inr r, \<lparr>tx_world = (\<lparr>dw_cells = [((0, - 1, 0), ''stone'', ''SOLID'')], dw_pos = (1/2, 0, 1/2), dw_items = [], dw_clock = 0,
        dw_next_id = 2\<rparr>, cs), tx_policy = yard_policy\<rparr>)" and ok: "tr_success r" and cs: "\<not> unmined cs"
    using pit_dug by blast
  have "\<lfloor>1/2 :: rat\<rfloor> = 0" by code_simp
  with run ok cs show ?thesis
    by (simp add: demo_run dig_down_to_y_def origin_or_here_def descend_once_def align_for_descent_def done_result_def
      wait_for_descent_def or_return_def metrics_of_def alignment_base_def tx_log_def reached_depth_def unmined_def
      cong: tx_bind_arg_cong tx_next_arg_cong)
qed

abbreviation pit_options :: shaft_options where
  "pit_options \<equiv> \<lparr>so_context = BC_DIRECT, so_max_clear_fall = 2, so_move_timeout_s = 15, so_dig_timeout_s = 5,
     so_max_steps = None, so_polls = 1\<rparr>"

lemma shaft_reaches_what_it_reports_witness:
  "\<exists>r s' ps steps.
     dig_down_to_y (recording demo_port) 0 (Some (0, 1, 0)) pit_options pit_yard = (Inr r, s') \<and>
     r = done_result ''dig_down_target_reached'' (shaft_report (0, 1, 0) 0 (last ((0, 1, 0) # ps)) steps (length ps)) \<and>
     height_of (last ((0, 1, 0) # ps)) \<le> 0 \<and> subseq ps (seen_blocks (tx_log s')) \<and> ps \<noteq> [] \<and>
     last (seen_blocks (tx_log s')) = last ps"
proof -
  obtain r s' where run: "dig_down_to_y (recording demo_port) 0 (Some (0, 1, 0)) pit_options pit_yard = (Inr r, s')"
    and ok: "tr_success r"
    using pit_shaft by blast
  obtain ps steps where ps: "r = done_result ''dig_down_target_reached'' (shaft_report (0, 1, 0) 0 (last ((0, 1, 0) # ps)) steps (length ps))"
      "height_of (last ((0, 1, 0) # ps)) \<le> 0" "subseq ps (seen_blocks (tx_log s'))"
      "ps \<noteq> [] \<longrightarrow> last (seen_blocks (tx_log s')) = last ps"
    using shaft_reaches_what_it_reports [OF pit_start(1) run ok] by auto
  moreover have "ps \<noteq> []" using ps(2) by auto
  ultimately show ?thesis using run by blast
qed

lemma shaft_breaks_only_what_was_cleared_witness:
  "\<exists>i a x s' j. i < length (tx_log s') \<and> tx_log s' ! i = Executed a x \<and> ac_name a = ''mineBlock'' \<and>
     cleared_break (recording demo_port) j (take i (tx_log s')) a \<and> rightful_break j \<and>
     outside_protection yard_policy (bj_pos j) \<and>
     s' = snd (dig_down_to_y (recording demo_port) 0 (Some (0, 1, 0)) pit_options pit_yard)"
proof -
  obtain r s' where run: "dig_down_to_y (recording demo_port) 0 (Some (0, 1, 0)) pit_options pit_yard = (Inr r, s')"
    and mined: "\<not> unmined (tx_log s')"
    using pit_shaft by blast
  obtain i a x where sent: "i < length (tx_log s')" "tx_log s' ! i = Executed a x" "ac_name a = ''mineBlock''"
    using mined by (auto simp: unmined_def in_set_conv_nth elim!: mines.elims)
  obtain j where "cleared_break (recording demo_port) j (take i (tx_log s')) a" "rightful_break j"
      "outside_protection yard_policy (bj_pos j)"
    using shaft_breaks_only_what_was_cleared [OF pit_start(1) disjI1 [OF run] sent] demo_stays
    unfolding pit_start(2) by blast
  with sent run show ?thesis by (intro exI [of _ i] exI [of _ a] exI [of _ x] exI [of _ s'] exI [of _ j]) simp
qed

end
