(* ===== verification/Place_Safety.thy ===== *)
theory Place_Safety
  imports Shaft_Safety
begin

text \<open>
  Where the transactions of \<open>minebot/body/block_work.py\<close> place blocks: into a cell that was just read
  as clear, or as a liquid that may be replaced, that the body does not stand in, and where the
  governance policy allows the block. This holds for a single placement, for the seals of a dry
  mining and for the pillar of a shaft up.
\<close>

section \<open>The reading and the look a placement rests on\<close>

fun note_look :: "body_call \<Rightarrow> body_state option \<Rightarrow> body_state option" where
  "note_look (Looked r) seen = (case r of Inl _ \<Rightarrow> None | Inr st \<Rightarrow> Some st)"
| "note_look _ seen = seen"

text \<open>The answer to the latest look at the body; none when it raised.\<close>

definition last_look :: "body_call list \<Rightarrow> body_state option" where
  "last_look cs = fold note_look cs None"

lemma last_look_snoc [simp]: "last_look (cs @ [c]) = note_look c (last_look cs)"
  by (simp add: last_look_def)

text \<open>
  A placement is cleared by the log and a decision: the call before it is this decision, made by the
  governance policy about the block and the cell; it allows the block there; the latest reading of
  the cell is complete and shows it clear, or a liquid that the action asks to replace; the latest
  look at the body shows it apart from the cell; and the action names all of this.
\<close>

definition cleared_place :: "'w logged body_port \<Rightarrow> place_judgement \<Rightarrow> body_call list \<Rightarrow> action \<Rightarrow> bool" where
  "cleared_place port j cs a \<longleftrightarrow>
     cs \<noteq> [] \<and> last cs = Judged (Place_Judged j) \<and>
     pj_decision j = can_place (pj_policy j) (pj_pos j) (pj_block_type j) (pj_context j) (port_bot_name port) \<and>
     ld_allowed (pj_decision j) \<and>
     map_of (ac_params a) ''target'' = Some (json_position (pj_pos j)) \<and>
     map_of (ac_params a) ''block_type'' = Some (JStr (pj_block_type j)) \<and>
     map_of (ac_params a) ''context'' = Some (JStr (place_context_value (pj_context j))) \<and>
     map_of (ac_params a) ''legality'' = Some (JDict (decision_payload (pj_decision j))) \<and>
     (\<exists>block. last_block (pj_pos j) cs = Some block \<and> pr_ok block \<and> pr_complete block \<and>
        (state_or_unknown port block = ''CLEAR'' \<or>
         map_of (ac_params a) ''replace_liquid'' = Some (JBool True) \<and> is_liquid_perception port block)) \<and>
     (\<exists>st. last_look cs = Some st \<and> \<not> body_intersects_block (bs_pos st) (pj_pos j))"

fun places :: "body_call \<Rightarrow> bool" where
  "places (Executed a r) \<longleftrightarrow> ac_name a = ''placeBlock''"
| "places _ \<longleftrightarrow> False"

lemma passive_places_nothing [simp]: "passive_entry c \<Longrightarrow> \<not> places c"
  by (cases c) auto

definition places_cleared ::
  "'w logged body_port \<Rightarrow> bool \<Rightarrow> governance_policy \<Rightarrow> body_call list \<Rightarrow> governance_policy \<Rightarrow> bool" where
  "places_cleared port kept rules cs p \<longleftrightarrow>
     (kept \<longrightarrow> same_regions p rules) \<and>
     (\<forall>i a r. i < length cs \<longrightarrow> cs ! i = Executed a r \<longrightarrow> ac_name a = ''placeBlock'' \<longrightarrow>
        (\<exists>j. cleared_place port j (take i cs) a \<and> (kept \<longrightarrow> same_regions (pj_policy j) rules)))"

lemma places_cleared_snoc:
  "places_cleared port kept rules (cs @ [c]) p \<longleftrightarrow>
     places_cleared port kept rules cs p \<and> (\<forall>a r. c = Executed a r \<longrightarrow> ac_name a = ''placeBlock'' \<longrightarrow>
       (\<exists>j. cleared_place port j cs a \<and> (kept \<longrightarrow> same_regions (pj_policy j) rules)))"
  by (auto simp: places_cleared_def nth_append less_Suc_eq)

lemma places_cleared_other:
  "places_cleared port kept rules cs p \<Longrightarrow> \<not> places c \<Longrightarrow> places_cleared port kept rules (cs @ [c]) p"
  by (auto simp: places_cleared_snoc)

lemma places_cleared_start: "places_cleared port kept p [] p"
  by (simp add: places_cleared_def same_regions_def)

lemma places_cleared_judging:
  "places_cleared port kept rules cs p \<Longrightarrow> places_cleared port kept rules cs (snd (can_break p asr e1 e2 pos raw ctx ex who aid))"
  by (simp add: places_cleared_def same_regions_can_break)

lemma places_cleared_placing:
  "places_cleared port kept rules cs p \<Longrightarrow> places_cleared port kept rules cs (record_bot_placement p pos raw purpose owner)"
  by (simp add: places_cleared_def same_regions_record)

interpretation placed: travel_invariant "places_cleared port kept rules" "\<lambda>c. \<not> places c" for port kept rules
  by unfold_locales
    (auto intro: places_cleared_other places_cleared_judging places_cleared_placing)

interpretation shaft_placed: shaft_invariant "places_cleared port kept rules" "\<lambda>c. \<not> places c" for port kept rules
  by unfold_locales simp_all

abbreviation places_along :: "'w body_port \<Rightarrow> governance_policy \<Rightarrow> 'w logged tx_state \<Rightarrow> bool" where
  "places_along port rules \<equiv>
     log_invariant.inv (places_cleared (recording port) (navigator_keeps_regions port) rules)"

lemma navigation_keeps_places: "navigation_keeps (places_cleared logged (navigator_keeps_regions port) rules) port"
  by (auto simp: navigation_keeps_def navigator_keeps_regions_def places_cleared_def)

section \<open>One placement\<close>

lemma can_place_regions: "same_regions p q \<Longrightarrow> can_place p pos b ctx who = can_place q pos b ctx who"
  unfolding can_place_def same_regions_def by (elim conjE) (simp only:)

lemma place_params_sent:
  assumes "sent_as ''placeBlock'' (place_params pos b face ctx purpose replacing t d) a"
  shows "map_of (ac_params a) ''target'' = Some (json_position pos) \<and>
    map_of (ac_params a) ''block_type'' = Some (JStr b) \<and>
    map_of (ac_params a) ''context'' = Some (JStr (place_context_value ctx)) \<and>
    map_of (ac_params a) ''legality'' = Some (JDict (decision_payload d)) \<and>
    map_of (ac_params a) ''replace_liquid'' = Some (JBool replacing) \<and> ac_name a = ''placeBlock''"
  using assms by (simp add: sent_as_def place_params_def)

lemma leads_place_send:
  fixes s :: "'w logged tx_state"
  assumes j_def: "j = place_judged (recording port) pos b ctx s"
    and s: "places_along port rules s"
    and block: "last_block pos (tx_log s) = Some block" "pr_ok block" "pr_complete block"
    and clear: "state_or_unknown (recording port) block = ''CLEAR'' \<or> replacing \<and> is_liquid_perception (recording port) block"
    and look: "last_look (tx_log s) = Some st" "\<not> body_intersects_block (bs_pos st) pos"
    and allowed: "ld_allowed (pj_decision j)"
  shows "places_along port rules
    (snd (send_action (recording port) ''placeBlock'' (place_params pos b face ctx purpose replacing t (pj_decision j)) t'
       (s\<lparr>tx_world := port_judged (recording port) (Place_Judged j) (tx_world s)\<rparr>)))"
proof -
  let ?ps = "place_params pos b face ctx purpose replacing t (pj_decision j)"
  let ?s = "s\<lparr>tx_world := port_judged (recording port) (Place_Judged j) (tx_world s)\<rparr>"
  let ?J = "places_cleared (recording port) (navigator_keeps_regions port) rules"
  have j: "pj_pos j = pos" "pj_block_type j = b" "pj_context j = ctx" "pj_policy j = tx_policy s"
      "pj_decision j = can_place (tx_policy s) pos b ctx (port_bot_name (recording port))"
    by (simp_all add: j_def place_judged_def)
  have log: "tx_log ?s = tx_log s @ [Judged (Place_Judged j)]" "tx_policy ?s = tx_policy s"
    by (simp_all add: tx_log_def recording_def)
  have J: "?J (tx_log ?s) (tx_policy ?s)"
    using s unfolding log by (simp add: placed.inv_def places_cleared_snoc)
  obtain r s' where run: "send_action (recording port) ''placeBlock'' ?ps t' ?s = (r, s')" by (rule prod.exhaust)
  from send_action_run [OF run] have "?J (tx_log s') (tx_policy s')"
  proof (elim conjE disjE exE)
    fix a x
    assume same: "tx_policy s' = tx_policy ?s" and l: "tx_log s' = tx_log ?s @ [Executed a x]" and a: "sent_as ''placeBlock'' ?ps a"
    have "state_or_unknown (recording port) block = ''CLEAR'' \<or>
        map_of (ac_params a) ''replace_liquid'' = Some (JBool True) \<and> is_liquid_perception (recording port) block"
      using clear place_params_sent [OF a] by auto
    then have "cleared_place (recording port) j (tx_log ?s) a"
      unfolding cleared_place_def log(1)
      using block look allowed place_params_sent [OF a] by (simp add: j)
    moreover have "navigator_keeps_regions port \<longrightarrow> same_regions (pj_policy j) rules"
      using J unfolding log(2) j by (simp add: places_cleared_def)
    ultimately show ?thesis using J same l by (auto simp: places_cleared_snoc)
  qed (use J in simp_all)
  then show ?thesis using run by (simp add: placed.inv_def)
qed

lemma keeps_place_block_cleared:
  "keeps (places_along port rules) (place_block (recording port) pos b face ctx purpose replace t)"
proof (rule keepsI)
  fix s :: "'a logged tx_state"
  let ?J = "places_along port rules"
  assume s: "?J s"
  have nav: "keeps ?J (perceive (recording port) ''blockAt'' (block_params pos))" by (rule placed.keeps_perceive) simp
  show "?J (snd (place_block (recording port) pos b face ctx purpose replace t s))"
    unfolding place_block_def Let_def
  proof (rule after_bind [where P = ?J, OF s nav], assumption, rule after_unless [where P = ?J], assumption, split if_split, intro conjI impI)
    fix block s1
    assume p: "perceive (recording port) ''blockAt'' (block_params pos) s = (Inr block, s1)" and s1: "?J s1"
      and ok: "perception_failure block = None"
    have read: "last_block pos (tx_log s1) = Some block" "pr_ok block" "pr_complete block"
      using p ok by (auto simp: perceive_def tx_call_def recording_def noting_def tx_log_def perception_failure_def
          split: prod.splits if_splits)
    let ?liquid = "is_liquid_perception (recording port) block"
    {
      assume "state_or_unknown (recording port) block \<noteq> ''CLEAR'' \<and> \<not> (replace \<and> ?liquid)"
      then show "?J (snd (tx_return (fail_result ''place_denied:target_occupied'' False
                ''choose an empty target position or mine the target first if governance allows it''
                [(''target'', json_position pos), (''block_type'', JStr b),
                 (''block_at_target'', JStr (type_or_unknown (recording port) block)),
                 (''target_state'', JStr (state_or_unknown (recording port) block))]) s1))"
        using s1 by simp
    }
    assume "\<not> (state_or_unknown (recording port) block \<noteq> ''CLEAR'' \<and> \<not> (replace \<and> ?liquid))"
    then have clear: "state_or_unknown (recording port) block = ''CLEAR'' \<or> (replace \<and> ?liquid) \<and> ?liquid" by blast
    show "?J (snd (tx_bind (get_state (recording port)) (\<lambda>state.
         unless_failed (placement_collision (bs_pos state) pos purpose)
         (tx_bind (judge_place (recording port) pos b ctx) (\<lambda>decision.
          if \<not> ld_allowed decision then tx_return (denied_result ''place_denied'' pos b decision)
          else tx_bind (send_action (recording port) ''placeBlock''
                 (place_params pos b face ctx purpose (replace \<and> ?liquid) t decision) t)
               (\<lambda>(a, accepted).
          unless_failed (acceptance_failure accepted ''placeBlock'' pos)
          (tx_bind (await_result (recording port) a) (\<lambda>r.
           tx_bind (if tr_success r then record_placement (recording port) pos b purpose else tx_return ()) (\<lambda>_.
           tx_bind (record_missed (recording port) pos b purpose r) (\<lambda>m.
           tx_return (r\<lparr>tr_metrics := Some (placed_metrics pos b (type_or_unknown (recording port) block) decision m)\<rparr>))))))))) s1))"
    proof (rule after_bind [where P = ?J, OF s1 placed.keeps_get_state], assumption, rule after_unless [where P = ?J], assumption)
      fix st s2
      assume g: "get_state (recording port) s1 = (Inr st, s2)" and s2: "?J s2"
        and apart: "placement_collision (bs_pos st) pos purpose = None"
      have look: "last_look (tx_log s2) = Some st" "last_block pos (tx_log s2) = Some block" "\<not> body_intersects_block (bs_pos st) pos"
        using g apart read(1)
        by (auto simp: get_state_def tx_call_def recording_def noting_def tx_log_def placement_collision_def Let_def
            split: prod.splits if_splits)
      let ?j = "place_judged (recording port) pos b ctx s2"
      let ?s3 = "s2\<lparr>tx_world := port_judged (recording port) (Place_Judged ?j) (tx_world s2)\<rparr>"
      let ?d = "pj_decision ?j"
      let ?rest = "\<lambda>d (a, accepted).
          unless_failed (acceptance_failure accepted ''placeBlock'' pos)
          (tx_bind (await_result (recording port) a) (\<lambda>r.
           tx_bind (if tr_success r then record_placement (recording port) pos b purpose else tx_return ()) (\<lambda>_.
           tx_bind (record_missed (recording port) pos b purpose r) (\<lambda>m.
           tx_return (r\<lparr>tr_metrics := Some (placed_metrics pos b (type_or_unknown (recording port) block) d m)\<rparr>)))))"
      have judged: "judge_place (recording port) pos b ctx s2 = (Inr ?d, ?s3)"
        by (simp add: judge_place_def Let_def)
      have s3: "?J ?s3"
        using keepsD [OF placed.keeps_judge_place s2, of pos port b ctx] judged by simp
      have rest: "keeps ?J (?rest d x)" for d x
        by (cases x) (auto intro!: keeps_flow placed.keeps_await_result placed.keeps_record placed.keeps_record_missed)
      have "?J (snd (tx_bind (send_action (recording port) ''placeBlock''
                 (place_params pos b face ctx purpose (replace \<and> ?liquid) t ?d) t) (?rest ?d) ?s3))" if "ld_allowed ?d"
      proof -
        have "leads (\<lambda>u. u = ?s3) (send_action (recording port) ''placeBlock''
                 (place_params pos b face ctx purpose (replace \<and> ?liquid) t ?d) t) ?J"
          unfolding leads_def using leads_place_send [OF refl s2 look(2) read(2,3) clear look(1,3) that] by blast
        then have "leads (\<lambda>u. u = ?s3) (tx_bind (send_action (recording port) ''placeBlock''
                 (place_params pos b face ctx purpose (replace \<and> ?liquid) t ?d) t) (?rest ?d)) ?J"
          by (rule leads_then) (rule rest)
        then show ?thesis by (simp only: leads_def simp_thms)
      qed
      then show "?J (snd (tx_bind (judge_place (recording port) pos b ctx) (\<lambda>decision.
          if \<not> ld_allowed decision then tx_return (denied_result ''place_denied'' pos b decision)
          else tx_bind (send_action (recording port) ''placeBlock''
                 (place_params pos b face ctx purpose (replace \<and> ?liquid) t decision) t) (?rest decision)) s2))"
        using s3 by (auto simp: tx_bind_def [of "judge_place _ _ _ _"] judged)
    qed
  qed
qed

section \<open>The transactions that place\<close>

lemma other_actions_place_nothing:
  "\<not> places (Perceived scope params r)"
  "\<not> places (Judged j)"
  "ac_name a = ''mineBlock'' \<Longrightarrow> \<not> places (Executed a x)"
  "ac_name a = ''selectItem'' \<Longrightarrow> \<not> places (Executed a x)"
  by simp_all

lemma placed_mining:
  "keeps (places_along port rules) (mine_block (recording port) pos ctx t approach explicit_target)"
  by (intro placed.keeps_mining navigation_keeps_places other_actions_place_nothing)

lemma placed_mine_sealed:
  "keeps (places_along port rules) (mine_sealed (recording port) pages pos ctx block_type opts faces)"
  unfolding mine_sealed_def liquid_contact_positions_def
  by (intro keeps_flow placed.keeps_seal_candidates placed.keeps_seal_faces keeps_place_block_cleared navigation_keeps_places
      placed.keeps_scan placed_mining)

lemma placed_mine_block_dry:
  "keeps (places_along port rules) (mine_block_dry (recording port) pages pos ctx opts)"
  unfolding mine_block_dry_def liquid_contact_positions_def liquid_face_positions_def
  by (intro keeps_flow placed.keeps_perceive placed.keeps_scan placed_mining placed_mine_sealed other_actions_place_nothing)

lemma placed_mine_block_collect:
  "keeps (places_along port rules) (mine_block_collect (recording port) pages pos ctx opts)"
  unfolding mine_block_collect_def collect_mined_def
  by (intro keeps_flow placed.keeps_perceive placed.keeps_collect_pickaxe placed.keeps_read_inventory_counts
      placed.keeps_judge_break placed.keeps_pause placed.keeps_collect_drops navigation_keeps_places
      placed_mining placed_mine_block_dry other_actions_place_nothing)

lemma placed_dig_up:
  "keeps (places_along port rules) (dig_up_to_y (recording port) target_y current opts)"
  by (intro shaft_placed.keeps_dig_up_to_y placed_mining keeps_place_block_cleared)

text \<open>
  C9. Every \<open>placeBlock\<close> that a placement, a collecting with its seals and its pickup, or a shaft up
  sends follows directly on a decision of the governance policy in force that allows this block in
  this cell; the latest reading of the cell is complete and shows it clear, or a liquid that this
  very action asks to replace; the latest look at the body shows that it does not stand in the
  cell; and the action names the cell, the block, the context and the decision. Where the navigator
  does not change the declared regions, the policy of the start allows the block too.
\<close>

theorem blocks_are_placed_only_where_they_fit:
  assumes start: "tx_log s = []"
    and run: "place_block (recording port) pos block_type face ctx purpose replacing timeout_s s = (r, s') \<or>
      mine_block_collect (recording port) pages pos mining collecting s = (r, s') \<or>
      dig_up_to_y (recording port) target_y current_pos climbing s = (r, s')"
    and sent: "i < length (tx_log s')" "tx_log s' ! i = Executed a x" "ac_name a = ''placeBlock''"
  shows "\<exists>j. cleared_place (recording port) j (take i (tx_log s')) a \<and>
    (navigator_keeps_regions port \<longrightarrow>
       ld_allowed (can_place (tx_policy s) (pj_pos j) (pj_block_type j) (pj_context j) (port_bot_name port)))"
proof -
  let ?J = "places_along port (tx_policy s)"
  have s: "?J s" using start by (simp add: placed.inv_def places_cleared_start)
  from run have "?J s'"
  proof (elim disjE)
    assume "place_block (recording port) pos block_type face ctx purpose replacing timeout_s s = (r, s')"
    then show ?thesis using keepsD [OF keeps_place_block_cleared s, of pos block_type face ctx purpose replacing timeout_s] by simp
  next
    assume "mine_block_collect (recording port) pages pos mining collecting s = (r, s')"
    then show ?thesis using keepsD [OF placed_mine_block_collect s, of pages pos mining collecting] by simp
  next
    assume "dig_up_to_y (recording port) target_y current_pos climbing s = (r, s')"
    then show ?thesis using keepsD [OF placed_dig_up s, of target_y current_pos climbing] by simp
  qed
  then obtain j where j: "cleared_place (recording port) j (take i (tx_log s')) a"
      and kept: "navigator_keeps_regions port \<longrightarrow> same_regions (pj_policy j) (tx_policy s)"
    using sent unfolding placed.inv_def places_cleared_def by blast
  have "ld_allowed (can_place (pj_policy j) (pj_pos j) (pj_block_type j) (pj_context j) (port_bot_name port))"
    using j by (auto simp: cleared_place_def)
  then show ?thesis using j kept can_place_regions by metis
qed

section \<open>Applications\<close>

text \<open>A block of dirt beside the body, on the ground.\<close>

definition open_yard :: "demo_world logged tx_state" where
  "open_yard = \<lparr>tx_world = (\<lparr>dw_cells = demo_ground [(0, -1, 0), (2, -1, 0)], dw_pos = (1/2, 0, 1/2),
     dw_items = [(''dirt'', 8)], dw_clock = 0, dw_next_id = 1\<rparr>, []), tx_policy = yard_policy\<rparr>"

lemma yard_placed:
  "map (\<lambda>c. case c of Executed a r \<Rightarrow> Some (ac_name a, dget (ac_params a) ''target'') | _ \<Rightarrow> None)
     (tx_log (snd (place_block (recording demo_port) (2, 0, 0) ''dirt'' None PC_WORK ''seal'' False 2 open_yard))) =
   [None, None, None, Some (''placeBlock'', JList [JInt 2, JInt 0, JInt 0]), None]"
  by code_simp

theorem blocks_are_placed_only_where_they_fit_witness:
  "\<exists>i a x s' j. s' = snd (place_block (recording demo_port) (2, 0, 0) ''dirt'' None PC_WORK ''seal'' False 2 open_yard) \<and>
     i < length (tx_log s') \<and> tx_log s' ! i = Executed a x \<and> ac_name a = ''placeBlock'' \<and>
     cleared_place (recording demo_port) j (take i (tx_log s')) a \<and>
     ld_allowed (can_place yard_policy (pj_pos j) (pj_block_type j) (pj_context j) ''bot'')"
proof -
  obtain r s' where run: "place_block (recording demo_port) (2, 0, 0) ''dirt'' None PC_WORK ''seal'' False 2 open_yard = (r, s')"
    by (rule prod.exhaust)
  have shape: "map (\<lambda>c. case c of Executed a r \<Rightarrow> Some (ac_name a, dget (ac_params a) ''target'') | _ \<Rightarrow> None) (tx_log s') =
      [None, None, None, Some (''placeBlock'', JList [JInt 2, JInt 0, JInt 0]), None]"
    using yard_placed run by simp
  have "length (tx_log s') = 5" using arg_cong [OF shape, of length] by simp
  then have l: "3 < length (tx_log s')" by simp
  have "(case tx_log s' ! 3 of Executed a r \<Rightarrow> Some (ac_name a, dget (ac_params a) ''target'') | _ \<Rightarrow> None) =
      Some (''placeBlock'', JList [JInt 2, JInt 0, JInt 0])"
    using arg_cong [OF shape, of "\<lambda>xs. xs ! 3"] l by simp
  then obtain a x where a: "tx_log s' ! 3 = Executed a x" "ac_name a = ''placeBlock''"
    by (auto split: body_call.splits)
  have start: "tx_log open_yard = []" "tx_policy open_yard = yard_policy" "port_bot_name demo_port = ''bot''"
    by (simp_all add: open_yard_def tx_log_def demo_port_def)
  obtain j where "cleared_place (recording demo_port) j (take 3 (tx_log s')) a"
      "ld_allowed (can_place yard_policy (pj_pos j) (pj_block_type j) (pj_context j) ''bot'')"
    using blocks_are_placed_only_where_they_fit [OF start(1) disjI1 [OF run] l a] demo_stays unfolding start(2,3) by blast
  then show ?thesis using run l a
    by (intro exI [of _ 3] exI [of _ a] exI [of _ x] exI [of _ s'] exI [of _ j]) simp
qed

end
