(* ===== verification/Interaction.thy ===== *)
theory Interaction
  imports Shaft_Down Py_Order
begin

text \<open>
  What the interactions with a block share, \<open>minebot/body/interaction_support.py\<close>: the paged search
  for blocks around the body, the cells from which a block is in reach, and the approach to one of
  them. Distances are kept as their squares, which order as the distances do; a distance that is
  reported is their root.
\<close>

section \<open>Small helpers\<close>

definition INTERACTION_RANGE :: rat where "INTERACTION_RANGE = 9/2"

definition SERVER_GOAL_SET_LIMIT :: nat where "SERVER_GOAL_SET_LIMIT = 32"

definition refresh_suggestion :: string where
  "refresh_suggestion = ''refresh world and inventory facts before attempting the interaction''"

definition interaction_perception_failure :: "perception_result \<Rightarrow> tool_result option" where
  "interaction_perception_failure p =
     (if pr_ok p \<and> pr_complete p then None
      else Some (fail_result ''perception_failed'' True refresh_suggestion (perception_facts p)))"

definition bare_type :: "string \<Rightarrow> string" where
  "bare_type t = removeprefix ''minecraft:'' t"

definition block_type_matches_wanted :: "string \<Rightarrow> string set \<Rightarrow> bool" where
  "block_type_matches_wanted block_type wanted \<longleftrightarrow>
     (let t = bare_type block_type
      in t \<in> wanted \<or> ''bed'' \<in> wanted \<and> suffix ''_bed'' t \<or> t = ''bed'' \<and> (\<exists>w\<in>wanted. suffix ''_bed'' w))"

definition merge_context :: "tool_result \<Rightarrow> json_object \<Rightarrow> tool_result" where
  "merge_context r extra = r\<lparr>tr_metrics := Some (merge_metrics (metrics_of r) extra)\<rparr>"

definition root :: "'w body_port \<Rightarrow> rat \<Rightarrow> json" where
  "root port d2 = json_flt (pf_sqrt (port_platform port) d2)"

section \<open>Pages of found blocks\<close>

record found_pages =
  fb_blocks :: "json_object list"
  fb_complete :: bool
  fb_uncertainty :: "json list"
  fb_pages_read :: nat
  fb_total_matches :: int
  fb_budget_exhausted :: bool
  fb_next_cursor :: json

text \<open>\<open>deadline is not None and time.monotonic() >= deadline\<close>\<close>

definition past :: "'w body_port \<Rightarrow> rat option \<Rightarrow> ('w, bool) tx" where
  "past port deadline =
     (case deadline of
        None \<Rightarrow> tx_return False
      | Some d \<Rightarrow> tx_bind (tx_read (port_monotonic port)) (\<lambda>now. tx_return (d \<le> now)))"

definition json_seconds :: "rat option \<Rightarrow> json" where
  "json_seconds t = (case t of None \<Rightarrow> JNull | Some q \<Rightarrow> json_flt q)"

definition time_budget_note :: "rat option \<Rightarrow> json" where
  "time_budget_note timeout_s = JDict [(''reason'', JStr ''time_budget''), (''timeout_s'', json_seconds timeout_s)]"

definition out_of_time :: "rat option \<Rightarrow> json_object list \<Rightarrow> json list \<Rightarrow> nat \<Rightarrow> int \<Rightarrow> found_pages" where
  "out_of_time timeout_s blocks uncertainty pages matched =
     \<lparr>fb_blocks = blocks, fb_complete = False, fb_uncertainty = uncertainty @ [time_budget_note timeout_s],
      fb_pages_read = pages, fb_total_matches = matched, fb_budget_exhausted = True, fb_next_cursor = JNull\<rparr>"

fun dicts_of :: "json list \<Rightarrow> json_object list" where
  "dicts_of [] = []"
| "dicts_of (JDict d # xs) = d # dicts_of xs"
| "dicts_of (_ # xs) = dicts_of xs"

text \<open>The mappings in \<open>data.get("blocks") or []\<close>: text and mappings are walked and hold none.\<close>

definition reply_blocks :: "json_object \<Rightarrow> py_exn + json_object list" where
  "reply_blocks d =
     (if \<not> truthy (dget d ''blocks'') then Inr []
      else case dget d ''blocks'' of
        JList xs \<Rightarrow> Inr (dicts_of xs)
      | JStr _ \<Rightarrow> Inr []
      | JDict _ \<Rightarrow> Inr []
      | _ \<Rightarrow> Inl TypeError)"

definition total_matches :: "json_object \<Rightarrow> nat \<Rightarrow> py_exn + int" where
  "total_matches d n = (if truthy (dget d ''totalMatches'') then py_int (dget d ''totalMatches'') else Inr (int n))"

definition search_params :: "string \<Rightarrow> int \<Rightarrow> int \<Rightarrow> int \<Rightarrow> json_object \<Rightarrow> json_object" where
  "search_params wanted_type radius y_radius limit resume =
     [(''type'', JStr wanted_type), (''radius'', JInt radius), (''y_radius'', JInt y_radius), (''limit'', JInt limit)] @ resume"

definition stuck_cursor :: tool_result where
  "stuck_cursor = \<lparr>tr_success = False, tr_reason = ''perception_failed'', tr_can_retry = True, tr_next_suggestion = None,
     tr_metrics = Some [(''scope'', JStr ''findBlocks''), (''error'', JStr ''scan_cursor_did_not_advance'')]\<rparr>"

definition uncertain :: "perception_result \<Rightarrow> json list" where
  "uncertain p = map JDict (case pr_uncertainty p of None \<Rightarrow> [] | Some ds \<Rightarrow> ds)"

text \<open>
  The pages of one block type, \<open>left\<close> of them after the current one. A cursor that was asked before,
  by its text, ends the search as failed.
\<close>

fun find_pages ::
  "'w body_port \<Rightarrow> (json_object \<Rightarrow> json_object) \<Rightarrow> int \<Rightarrow> rat option \<Rightarrow> rat option \<Rightarrow> nat \<Rightarrow> json \<Rightarrow> string list
   \<Rightarrow> nat \<Rightarrow> json_object list \<Rightarrow> json list \<Rightarrow> int \<Rightarrow> ('w, tool_result + found_pages) tx" where
  "find_pages port params max_pages deadline timeout_s left cursor seen pages blocks uncertainty matched =
     tx_bind (past port deadline) (\<lambda>late.
     if late then tx_return (Inr (out_of_time timeout_s blocks uncertainty pages matched))
     else
     tx_bind (tx_lift (perception_resume_params (pf_show (port_platform port)) cursor)) (\<lambda>resume.
     tx_bind (perceive port ''findBlocks'' (params resume)) (\<lambda>found.
     case (if pr_ok found then None else interaction_perception_failure found) of
       Some failed \<Rightarrow> tx_return (Inl failed)
     | None \<Rightarrow>
     tx_bind (tx_lift (reply_blocks (pr_data found))) (\<lambda>more.
     tx_bind (tx_lift (total_matches (pr_data found) (length (blocks @ more)))) (\<lambda>n.
     (let blocks' = blocks @ more;
          uncertainty' = uncertainty @ uncertain found;
          matched' = max matched n;
          nxt = perception_next_cursor found [];
          done = (\<lambda>complete notes. \<lparr>fb_blocks = blocks', fb_complete = complete, fb_uncertainty = uncertainty' @ notes,
                    fb_pages_read = pages + 1, fb_total_matches = matched', fb_budget_exhausted = False,
                    fb_next_cursor = nxt\<rparr>)
      in if pr_complete found \<or> nxt = JNull then tx_return (Inr (done (pr_complete found) []))
         else
         tx_bind (past port deadline) (\<lambda>late.
         if late then tx_return (Inr (out_of_time timeout_s blocks' uncertainty' (pages + 1) matched'))
         else case left of
           0 \<Rightarrow> tx_return (Inr (done False [JDict [(''reason'', JStr ''page_limit''), (''max_pages'', JInt max_pages)]]))
         | Suc left' \<Rightarrow>
             (let shown = py_str (pf_show (port_platform port))
              in if shown nxt \<in> set seen \<or> shown nxt = shown cursor then tx_return (Inl stuck_cursor)
                 else find_pages port params max_pages deadline timeout_s left' nxt (shown cursor # seen) (pages + 1)
                        blocks' uncertainty' matched'))))))))"

definition read_find_blocks_pages ::
  "'w body_port \<Rightarrow> string \<Rightarrow> int \<Rightarrow> int \<Rightarrow> int \<Rightarrow> int \<Rightarrow> json \<Rightarrow> rat option \<Rightarrow> rat option
   \<Rightarrow> ('w, tool_result + found_pages) tx" where
  "read_find_blocks_pages port wanted_type radius y_radius limit max_pages resume_cursor deadline timeout_s =
     find_pages port (search_params wanted_type radius y_radius limit) max_pages deadline timeout_s (nat (max_pages - 1))
       (if resume_cursor = JNull then JInt 0 else resume_cursor) [] 0 [] [] 0"

section \<open>Searching for blocks\<close>

record nearby_block =
  nb_pos :: position
  nb_block_type :: string
  nb_distance2 :: rat

record block_search =
  bs_targets :: "nearby_block list"
  bs_truncated :: bool
  bs_uncertainty :: "json list"
  bs_pages_read :: nat
  bs_total_matches :: int
  bs_budget_exhausted :: bool
  bs_next_cursors :: "(string, json) pydict"

definition default_y_radius :: "int \<Rightarrow> int" where
  "default_y_radius radius = min (max 4 radius) 16"

text \<open>The blocks of one type that were not seen before, in the order of their pages.\<close>

fun collect_candidates ::
  "'w body_port \<Rightarrow> string set \<Rightarrow> point \<Rightarrow> json_object list \<Rightarrow> nearby_block list \<Rightarrow> py_exn + nearby_block list" where
  "collect_candidates port wanted here [] found = Inr found"
| "collect_candidates port wanted here (item # items) found =
     (let block_type = bare_type (text_or port item ''type'' [])
      in if \<not> block_type_matches_wanted block_type wanted then collect_candidates port wanted here items found
         else case cell_position (JDict item) of
           Inl e \<Rightarrow> Inl e
         | Inr pos \<Rightarrow>
             if pos \<in> set (map nb_pos found) then collect_candidates port wanted here items found
             else collect_candidates port wanted here items
                    (found @ [\<lparr>nb_pos = pos, nb_block_type = block_type, nb_distance2 = dist2 here (block_center pos)\<rparr>]))"

record search_request =
  sr_radius :: int
  sr_limit :: int
  sr_max_pages :: int
  sr_timeout_s :: "rat option"
  sr_resume :: "(string, json) pydict option"

definition resume_at :: "search_request \<Rightarrow> string \<Rightarrow> json option" where
  "resume_at req t = (case sr_resume req of None \<Rightarrow> None | Some d \<Rightarrow> map_of d t)"

definition add_pages :: "string \<Rightarrow> found_pages \<Rightarrow> nearby_block list \<Rightarrow> block_search \<Rightarrow> block_search" where
  "add_pages t pages targets acc = acc\<lparr>bs_targets := targets,
     bs_truncated := (bs_truncated acc \<or> \<not> fb_complete pages),
     bs_uncertainty := bs_uncertainty acc @ fb_uncertainty pages,
     bs_pages_read := bs_pages_read acc + fb_pages_read pages,
     bs_total_matches := bs_total_matches acc + fb_total_matches pages,
     bs_budget_exhausted := (bs_budget_exhausted acc \<or> fb_budget_exhausted pages),
     bs_next_cursors := AList.update t (fb_next_cursor pages) (bs_next_cursors acc)\<rparr>"

fun search_types ::
  "'w body_port \<Rightarrow> search_request \<Rightarrow> rat option \<Rightarrow> point \<Rightarrow> string set \<Rightarrow> string list \<Rightarrow> block_search
   \<Rightarrow> ('w, tool_result + block_search) tx" where
  "search_types port req deadline here wanted [] acc = tx_return (Inr acc)"
| "search_types port req deadline here wanted (t # ts) acc =
     (case resume_at req t of
        Some JNull \<Rightarrow>
          search_types port req deadline here wanted ts (acc\<lparr>bs_next_cursors := AList.update t JNull (bs_next_cursors acc)\<rparr>)
      | resume \<Rightarrow>
          tx_bind (past port deadline) (\<lambda>late.
          if late
          then tx_return (Inr (acc\<lparr>bs_uncertainty := bs_uncertainty acc @ [time_budget_note (sr_timeout_s req)],
                 bs_budget_exhausted := True\<rparr>))
          else tx_bind (read_find_blocks_pages port t (sr_radius req) (default_y_radius (sr_radius req)) (sr_limit req)
                 (sr_max_pages req) (case resume of None \<Rightarrow> JNull | Some v \<Rightarrow> v) deadline (sr_timeout_s req)) (\<lambda>r. case r of
            Inl failed \<Rightarrow> tx_return (Inl failed)
          | Inr pages \<Rightarrow>
              tx_bind (tx_lift (collect_candidates port wanted here (fb_blocks pages) (bs_targets acc))) (\<lambda>targets.
              (let acc' = add_pages t pages targets acc
               in if bs_budget_exhausted acc' then tx_return (Inr acc')
                  else search_types port req deadline here wanted ts acc')))))"

definition nothing_found :: "search_request \<Rightarrow> string list \<Rightarrow> string \<Rightarrow> block_search \<Rightarrow> tool_result" where
  "nothing_found req block_types not_found_reason search =
     fail_result (if bs_budget_exhausted search then ''search_budget_exhausted'' else not_found_reason) True
       (if bs_budget_exhausted search
        then ''The bounded search budget ended before the scan completed; narrow block_types/search_radius '' @
             ''or use explore_for for a new frontier.''
        else ''move closer or expand the search radius before retrying'')
       [(''search_radius'', JInt (sr_radius req)), (''block_types'', json_list block_types JStr),
        (''limit'', JInt (sr_limit req)), (''max_pages'', JInt (sr_max_pages req)),
        (''pages_read'', json_int_nat (bs_pages_read search)), (''timeout_s'', json_seconds (sr_timeout_s req)),
        (''uncertainty'', JList (bs_uncertainty search))]"

definition nearby_key :: "nearby_block \<Rightarrow> rat \<times> position" where
  "nearby_key b = (nb_distance2 b, nb_pos b)"

definition sort_targets :: "block_search \<Rightarrow> block_search" where
  "sort_targets search = search\<lparr>bs_targets := sort_key nearby_key (bs_targets search)\<rparr>"

definition no_search :: block_search where
  "no_search = \<lparr>bs_targets = [], bs_truncated = False, bs_uncertainty = [], bs_pages_read = 0, bs_total_matches = 0,
     bs_budget_exhausted = False, bs_next_cursors = []\<rparr>"

definition find_nearby_block_search ::
  "'w body_port \<Rightarrow> string list \<Rightarrow> search_request \<Rightarrow> string \<Rightarrow> ('w, tool_result + block_search) tx" where
  "find_nearby_block_search port block_types req not_found_reason =
     (if (case sr_timeout_s req of None \<Rightarrow> False | Some t \<Rightarrow> t \<le> 0)
      then tx_return (Inl \<lparr>tr_success = False, tr_reason = ''invalid_search_timeout'', tr_can_retry = False,
             tr_next_suggestion = None, tr_metrics = Some [(''timeout_s'', json_seconds (sr_timeout_s req))]\<rparr>)
      else
      tx_bind (case sr_timeout_s req of
          None \<Rightarrow> tx_return None
        | Some t \<Rightarrow> tx_bind (tx_read (port_monotonic port)) (\<lambda>now. tx_return (Some (now + t)))) (\<lambda>deadline.
      tx_bind (get_state port) (\<lambda>state.
      (let wanted = sort (dedupe (map bare_type block_types))
       in tx_bind (search_types port req deadline (bs_pos state) (set wanted) wanted no_search) (\<lambda>r. tx_return (case r of
            Inl failed \<Rightarrow> Inl failed
          | Inr search \<Rightarrow>
              if bs_targets search = [] then Inl (nothing_found req block_types not_found_reason search)
              else Inr (sort_targets search)))))))"

definition one_page :: "int \<Rightarrow> int \<Rightarrow> search_request" where
  "one_page radius limit =
     \<lparr>sr_radius = radius, sr_limit = limit, sr_max_pages = 1, sr_timeout_s = None, sr_resume = None\<rparr>"

definition find_nearby_block_targets ::
  "'w body_port \<Rightarrow> string list \<Rightarrow> int \<Rightarrow> string \<Rightarrow> int \<Rightarrow> ('w, tool_result + nearby_block list) tx" where
  "find_nearby_block_targets port block_types radius not_found_reason limit =
     tx_bind (find_nearby_block_search port block_types (one_page radius limit) not_found_reason) (\<lambda>r.
     tx_return (map_sum id bs_targets r))"

definition find_block_target ::
  "'w body_port \<Rightarrow> string list \<Rightarrow> int \<Rightarrow> int \<Rightarrow> string \<Rightarrow> ('w, tool_result + nearby_block) tx" where
  "find_block_target port block_types radius limit not_found_reason =
     (if block_types = []
      then tx_return (Inl \<lparr>tr_success = False, tr_reason = ''search_block_filter_missing'', tr_can_retry = False,
             tr_next_suggestion = None, tr_metrics = Some [(''search_radius'', JInt radius)]\<rparr>)
      else tx_bind (find_nearby_block_targets port block_types radius not_found_reason limit) (\<lambda>r.
           tx_return (map_sum id hd r)))"

section \<open>Stands beside a block\<close>

definition band_intent :: "position \<Rightarrow> int \<Rightarrow> bool \<Rightarrow> rat \<Rightarrow> reach_intent" where
  "band_intent target v include_target radius = (reach_intent_for target)\<lparr>ri_interaction_radius := radius,
     ri_vertical_offsets := Some [v], ri_include_target := include_target,
     ri_terminal_predicate := ''interaction_range''\<rparr>"

definition interaction_reach_band ::
  "'w body_port \<Rightarrow> position \<Rightarrow> int \<Rightarrow> bool \<Rightarrow> rat \<Rightarrow> ('w, tool_result + position list) tx" where
  "interaction_reach_band port target v include_target radius =
     tx_bind (block_reach_domain port (band_intent target v include_target radius)) (\<lambda>r.
     tx_return (map_sum id rd_candidates r))"

text \<open>The further levels, nearest to the body first; the order of a Python set of levels is left by the sort.\<close>

definition vertical_reach_levels :: "position \<Rightarrow> rat \<Rightarrow> rat \<Rightarrow> bool \<Rightarrow> int list" where
  "vertical_reach_levels target radius current_y include_target =
     (if radius \<le> 0 then []
      else (let geometry = block_reach_geometry ((reach_intent_for target)\<lparr>ri_interaction_radius := radius,
                  ri_include_target := include_target\<rparr>);
                levels = filter (\<lambda>y. y \<notin> {height_of target, height_of target - 1}) (dedupe (map height_of geometry))
            in sort_key (\<lambda>y. (\<bar>of_int y - current_y\<bar>, \<bar>y - height_of target\<bar>, y)) levels))"

fun stands_of_levels ::
  "'w body_port \<Rightarrow> position \<Rightarrow> bool \<Rightarrow> rat \<Rightarrow> int list \<Rightarrow> ('w, tool_result + position list) tx" where
  "stands_of_levels port target include_target radius [] = tx_return (Inr [])"
| "stands_of_levels port target include_target radius (y # ys) =
     tx_bind (interaction_reach_band port target (y - height_of target) include_target radius) (\<lambda>r.
     if r \<noteq> Inr [] then tx_return r else stands_of_levels port target include_target radius ys)"

text \<open>The level of the block, the one below, the one above, and any other only when it was asked for.\<close>

definition interaction_stand_points ::
  "'w body_port \<Rightarrow> position \<Rightarrow> bool \<Rightarrow> bool \<Rightarrow> rat \<Rightarrow> ('w, tool_result + position list) tx" where
  "interaction_stand_points port target include_target expand_vertical radius =
     tx_bind (interaction_reach_band port target 0 include_target radius) (\<lambda>same_level.
     if same_level \<noteq> Inr [] then tx_return same_level
     else tx_bind (interaction_reach_band port target (-1) include_target radius) (\<lambda>one_below.
     if one_below \<noteq> Inr [] then tx_return one_below
     else tx_bind (interaction_reach_band port target 1 include_target radius) (\<lambda>one_above.
     if one_above \<noteq> Inr [] \<or> \<not> expand_vertical then tx_return one_above
     else tx_bind (get_state port) (\<lambda>state.
          stands_of_levels port target include_target radius
            (vertical_reach_levels target radius (fst (snd (bs_pos state))) include_target)))))"

section \<open>Getting in range\<close>

text \<open>The navigator of the interactions: a goal, a time limit and an arrival radius.\<close>

type_synonym 'w interaction_navigator =
  "navigation_goal \<Rightarrow> rat \<Rightarrow> rat option \<Rightarrow> ('w \<times> governance_policy, tool_result) world_call"

definition travel :: "'w interaction_navigator \<Rightarrow> navigation_goal \<Rightarrow> rat \<Rightarrow> rat option \<Rightarrow> ('w, tool_result) tx" where
  "travel nav goal timeout_s arrival_radius s =
     (case nav goal timeout_s arrival_radius (tx_world s, tx_policy s) of
        (r, (w, p)) \<Rightarrow> (r, s\<lparr>tx_world := w, tx_policy := p\<rparr>))"

definition noting_trip :: "'w interaction_navigator \<Rightarrow> 'w logged interaction_navigator" where
  "noting_trip nav goal timeout_s arrival_radius x =
     (case nav goal timeout_s arrival_radius (fst (fst x), snd x) of
        (r, (w, p)) \<Rightarrow> (r, ((w, snd (fst x) @ [Travelled (AtGoal goal) r]), p)))"

definition navigation_goal_for_stands :: "position list \<Rightarrow> py_exn + navigation_goal" where
  "navigation_goal_for_stands stands =
     (let unique = dedupe stands
      in if unique = [] \<or> length unique > SERVER_GOAL_SET_LIMIT then Inl ValueError
         else Inr (GoalComposite (map (\<lambda>s. GoalNear s 0) unique) ''any''))"

definition selected_navigation_stand :: "tool_result \<Rightarrow> position list \<Rightarrow> py_exn + position" where
  "selected_navigation_stand r stands = selected_mining_stand r (dedupe stands)"

definition in_range :: "point \<Rightarrow> position \<Rightarrow> rat \<Rightarrow> bool" where
  "in_range p target radius \<longleftrightarrow> \<not> farther p (block_center target) radius"

definition distance_to :: "'w body_port \<Rightarrow> point \<Rightarrow> position \<Rightarrow> json" where
  "distance_to port p target = root port (dist2 p (block_center target))"

definition stayed :: "json \<Rightarrow> json_object" where
  "stayed d = [(''navigated'', JBool False), (''initial_distance'', d), (''final_distance'', d)]"

record range_options =
  ro_radius :: rat
  ro_timeout_s :: rat
  ro_missing_reason :: string
  ro_failure_prefix :: string
  ro_no_stand_reason :: string
  ro_arrival_radius :: "rat option"
  ro_center :: bool
  ro_stands :: "position list option"

definition attempt_facts :: "position list \<Rightarrow> position \<Rightarrow> tool_result \<Rightarrow> tool_result option \<Rightarrow> json" where
  "attempt_facts stands selected nav_result center = JDict
     ([(''goals'', json_list stands json_position), (''selected_goal'', json_position selected),
       (''result'', JDict (tool_result_payload nav_result))] @
      (case center of None \<Rightarrow> [] | Some c \<Rightarrow> [(''center_result'', JDict (tool_result_payload c))]))"

definition range_failed :: "range_options \<Rightarrow> position \<Rightarrow> json \<Rightarrow> tool_result \<Rightarrow> tool_result" where
  "range_failed opts target attempt failure =
     \<lparr>tr_success = False, tr_reason = ro_failure_prefix opts @ '':'' @ tr_reason failure, tr_can_retry = tr_can_retry failure,
      tr_next_suggestion = tr_next_suggestion failure,
      tr_metrics = Some (merge_metrics (metrics_of failure)
        [(''target'', json_position target), (''attempts'', JList [attempt])])\<rparr>"

text \<open>Where the body is after the navigation, and the centering when it was asked for.\<close>

definition judge_arrival ::
  "'w body_port \<Rightarrow> range_options \<Rightarrow> position \<Rightarrow> json \<Rightarrow> position \<Rightarrow> json \<Rightarrow> ('w, tool_result + json_object) tx" where
  "judge_arrival port opts target initial selected attempt =
     tx_bind (get_state port) (\<lambda>final.
     (let d = distance_to port (bs_pos final) target
      in tx_return
        (if in_range (bs_pos final) target (ro_radius opts)
         then Inr [(''navigated'', JBool True), (''stand_target'', json_position selected), (''initial_distance'', initial),
                (''final_distance'', d), (''attempts'', JList [attempt])]
         else Inl (range_failed opts target attempt
                \<lparr>tr_success = False, tr_reason = ''target_out_of_range_after_navigation'', tr_can_retry = True,
                 tr_next_suggestion = None,
                 tr_metrics = Some [(''target'', json_position target), (''stand_target'', json_position selected),
                   (''initial_distance'', initial), (''final_distance'', d)]\<rparr>))))"

definition arrive ::
  "'w body_port \<Rightarrow> range_options \<Rightarrow> position \<Rightarrow> json \<Rightarrow> position list \<Rightarrow> position \<Rightarrow> tool_result
   \<Rightarrow> ('w, tool_result + json_object) tx" where
  "arrive port opts target initial stands selected nav_result =
     (if \<not> tr_success nav_result
      then tx_return (Inl (range_failed opts target (attempt_facts stands selected nav_result None) nav_result))
      else case ro_arrival_radius opts of
        Some radius \<Rightarrow>
          (if ro_center opts \<and> \<not> truthy (dget (metrics_of nav_result) ''provider_centered'')
           then tx_bind (move_to_block_center port selected radius (ro_timeout_s opts) True) (\<lambda>c.
                (let attempt = attempt_facts stands selected nav_result (Some c)
                 in if \<not> tr_success c then tx_return (Inl (range_failed opts target attempt c))
                    else judge_arrival port opts target initial selected attempt))
           else judge_arrival port opts target initial selected (attempt_facts stands selected nav_result None))
      | None \<Rightarrow> judge_arrival port opts target initial selected (attempt_facts stands selected nav_result None))"

definition no_navigator :: "range_options \<Rightarrow> position \<Rightarrow> json \<Rightarrow> tool_result" where
  "no_navigator opts target initial =
     fail_result (ro_missing_reason opts) True ''provide a navigation transaction before attempting distant block interaction''
       [(''target'', json_position target), (''initial_distance'', initial)]"

definition approach_stands ::
  "'w body_port \<Rightarrow> 'w interaction_navigator \<Rightarrow> range_options \<Rightarrow> position \<Rightarrow> point \<Rightarrow> ('w, tool_result + json_object) tx" where
  "approach_stands port nav opts target here =
     (let initial = distance_to port here target
      in tx_bind (case ro_stands opts of
             Some stands \<Rightarrow> tx_return (Inr stands)
           | None \<Rightarrow> interaction_stand_points port target False False INTERACTION_RANGE) (\<lambda>r. case r of
           Inl failed \<Rightarrow> tx_return (Inl failed)
         | Inr [] \<Rightarrow>
             tx_return (Inl (fail_result (ro_no_stand_reason opts) False
               ''clear a standable adjacent block before retrying the interaction''
               [(''target'', json_position target), (''initial_distance'', initial)]))
         | Inr stands \<Rightarrow>
             if in_range here target (ro_radius opts) \<and> state_block_pos here \<in> set stands
             then tx_return (Inr [(''navigated'', JBool False), (''stand_target'', json_position (state_block_pos here)),
                    (''initial_distance'', initial), (''final_distance'', initial), (''already_on_stand'', JBool True)])
             else tx_bind (tx_lift (navigation_goal_for_stands stands)) (\<lambda>goal.
                  tx_bind (travel nav goal (ro_timeout_s opts) (ro_arrival_radius opts)) (\<lambda>nav_result.
                  tx_bind (tx_lift (selected_navigation_stand nav_result stands)) (\<lambda>selected.
                  arrive port opts target initial stands selected nav_result)))))"

definition ensure_interaction_range ::
  "'w body_port \<Rightarrow> 'w interaction_navigator option \<Rightarrow> position \<Rightarrow> range_options \<Rightarrow> ('w, tool_result + json_object) tx" where
  "ensure_interaction_range port navigator target opts =
     tx_bind (get_state port) (\<lambda>state.
     (let near = in_range (bs_pos state) target (ro_radius opts);
          initial = distance_to port (bs_pos state) target
      in if near \<and> ro_arrival_radius opts = None then tx_return (Inr (stayed initial))
         else case navigator of
           None \<Rightarrow> tx_return (if near then Inr (stayed initial) else Inl (no_navigator opts target initial))
         | Some nav \<Rightarrow> approach_stands port nav opts target (bs_pos state)))"

end
