(* ===== verification/Container.thy ===== *)
theory Container
  imports Interaction
begin

text \<open>
  Moving items between a container and the body, \<open>minebot/body/container.py\<close>: the paged reads of both
  sides, the plan of slot-to-slot moves, and the transaction that sends the moves one by one.
\<close>

section \<open>Reading slots\<close>

definition DEFAULT_CONTAINER_TYPES :: "string list" where
  "DEFAULT_CONTAINER_TYPES = [''chest'', ''trapped_chest'', ''barrel'']"

definition BODY_SLOT_PAGE_SIZE :: int where "BODY_SLOT_PAGE_SIZE = 12"

definition safe_slot_page_size :: "int \<Rightarrow> int" where
  "safe_slot_page_size page_size = max 1 (min page_size BODY_SLOT_PAGE_SIZE)"

text \<open>Nothing asks that the cursor moves on: the number of pages is bounded by \<open>fuel\<close>.\<close>

fun read_paged ::
  "'w body_port \<Rightarrow> nat \<Rightarrow> string \<Rightarrow> json_object \<Rightarrow> int \<Rightarrow> int \<Rightarrow> json_object list \<Rightarrow> ('w, perception_result) tx" where
  "read_paged port 0 scope base page_size start slots = tx_raise OutOfFuel"
| "read_paged port (Suc fuel) scope base page_size start slots =
     tx_bind (perceive port scope (merge_metrics base [(''start'', JInt start), (''limit'', JInt page_size)])) (\<lambda>p.
     if \<not> pr_ok p then tx_return p
     else tx_bind (tx_lift (reply_slots (pr_data p))) (\<lambda>more.
       case perception_next_cursor p [] of
         JNull \<Rightarrow> tx_return (p\<lparr>pr_data := AList.update ''slots'' (json_list (slots @ more) JDict) (pr_data p)\<rparr>)
       | v \<Rightarrow> tx_bind (tx_lift (py_int v)) (\<lambda>next. read_paged port fuel scope base page_size next (slots @ more))))"

definition container_perception_failure :: "perception_result \<Rightarrow> tool_result option" where
  "container_perception_failure p =
     (case interaction_perception_failure p of
        None \<Rightarrow> None
      | Some failed \<Rightarrow>
          if tr_next_suggestion failed = Some refresh_suggestion
          then Some (failed\<lparr>tr_next_suggestion := Some ''refresh container/inventory facts before moving items''\<rparr>)
          else Some failed)"

definition read_target_type :: "'w body_port \<Rightarrow> position \<Rightarrow> ('w, tool_result + string) tx" where
  "read_target_type port pos =
     tx_bind (perceive port ''blockAt'' (block_params pos)) (\<lambda>block. tx_return
       (case container_perception_failure block of
          Some failed \<Rightarrow> Inl failed
        | None \<Rightarrow> Inr (bare_type (type_or_unknown port block))))"

section \<open>The plan\<close>

datatype direction = To_Bot | To_Container

fun direction_value :: "direction \<Rightarrow> string" where
  "direction_value To_Bot = ''container_to_bot''"
| "direction_value To_Container = ''bot_to_container''"

fun parse_direction :: "string \<Rightarrow> direction option" where
  "parse_direction s =
     (if s = ''container_to_bot'' then Some To_Bot else if s = ''bot_to_container'' then Some To_Container else None)"

definition same_item :: "(json \<Rightarrow> string) \<Rightarrow> json \<Rightarrow> string \<Rightarrow> bool" where
  "same_item show_other actual wanted \<longleftrightarrow>
     (case actual of
        JNull \<Rightarrow> False
      | JStr a \<Rightarrow> a = wanted \<or> a = ''minecraft:'' @ wanted \<or> ''minecraft:'' @ a = wanted
      | v \<Rightarrow> ''minecraft:'' @ py_str show_other v = wanted)"

type_synonym move = "int \<times> int \<times> int"

abbreviation moved :: "move \<Rightarrow> int" where "moved m \<equiv> snd (snd m)"

text \<open>
  One source over the destinations: a move into every slot that has room, until the source is empty
  or enough was moved. The room that is left is returned with what is left of the source and of the
  request.
\<close>

fun fill_slots :: "int \<Rightarrow> int \<Rightarrow> int \<Rightarrow> (int, int) pydict \<Rightarrow> (int, int) pydict \<times> int \<times> int \<times> move list" where
  "fill_slots source source_left remaining [] = ([], source_left, remaining, [])"
| "fill_slots source source_left remaining ((dest, capacity) # dests) =
     (if remaining \<le> 0 \<or> source_left \<le> 0 then ((dest, capacity) # dests, source_left, remaining, [])
      else if capacity \<le> 0
      then (case fill_slots source source_left remaining dests of
              (dests', l, r, moves) \<Rightarrow> ((dest, capacity) # dests', l, r, moves))
      else (let n = min source_left (min remaining capacity)
            in case fill_slots source (source_left - n) (remaining - n) dests of
                 (dests', l, r, moves) \<Rightarrow> ((dest, capacity - n) # dests', l, r, (source, dest, n) # moves)))"

fun drain_sources :: "int \<Rightarrow> (int, int) pydict \<Rightarrow> inventory_slot list \<Rightarrow> move list" where
  "drain_sources remaining dests [] = []"
| "drain_sources remaining dests (slot # slots) =
     (case fill_slots (is_slot slot) (is_count slot) remaining dests of
        (dests', _, r, moves) \<Rightarrow> if r \<le> 0 then moves else moves @ drain_sources r dests' slots)"

definition room :: "(json \<Rightarrow> string) \<Rightarrow> string \<Rightarrow> inventory_slot list \<Rightarrow> (int, int) pydict" where
  "room show_other item slots =
     fold (\<lambda>slot d.
        if is_empty slot then AList.update (is_slot slot) 64 d
        else if same_item show_other (is_item slot) item \<and> is_count slot < 64
        then AList.update (is_slot slot) (64 - is_count slot) d
        else d) slots []"

record transfer_plan =
  tp_direction :: direction
  tp_item :: string
  tp_requested_count :: int
  tp_moves :: "move list"
  tp_available :: int
  tp_planned_count :: int

definition holding_item :: "(json \<Rightarrow> string) \<Rightarrow> string \<Rightarrow> inventory_slot list \<Rightarrow> inventory_slot list" where
  "holding_item show_other item slots = filter (\<lambda>s. same_item show_other (is_item s) item \<and> \<not> is_empty s) slots"

definition carried :: "inventory_slot list \<Rightarrow> inventory_slot list" where
  "carried slots = filter (\<lambda>s. 0 \<le> is_slot s \<and> is_slot s < 36) slots"

definition transfer_sources :: "direction \<Rightarrow> inventory_slot list \<Rightarrow> inventory_slot list \<Rightarrow> inventory_slot list" where
  "transfer_sources dir container_slots inventory_slots =
     (if dir = To_Bot then container_slots else carried inventory_slots)"

definition transfer_destinations :: "direction \<Rightarrow> inventory_slot list \<Rightarrow> inventory_slot list \<Rightarrow> inventory_slot list" where
  "transfer_destinations dir container_slots inventory_slots =
     (if dir = To_Bot then carried inventory_slots else container_slots)"

definition plan_transfer ::
  "(json \<Rightarrow> string) \<Rightarrow> direction \<Rightarrow> string \<Rightarrow> int \<Rightarrow> inventory_slot list \<Rightarrow> inventory_slot list \<Rightarrow> transfer_plan" where
  "plan_transfer show_other dir item wanted container_slots inventory_slots =
     (let matching = holding_item show_other item (transfer_sources dir container_slots inventory_slots);
          destinations = transfer_destinations dir container_slots inventory_slots;
          moves = drain_sources wanted (room show_other item destinations) matching
      in \<lparr>tp_direction = dir, tp_item = item, tp_requested_count = wanted, tp_moves = moves,
          tp_available = sum_list (map is_count matching), tp_planned_count = sum_list (map moved moves)\<rparr>)"

section \<open>The transaction\<close>

definition json_move :: "move \<Rightarrow> json" where
  "json_move m = (case m of (source, dest, n) \<Rightarrow>
     JDict [(''source_slot'', JInt source), (''dest_slot'', JInt dest), (''count'', JInt n)])"

definition plan_metrics :: "position \<Rightarrow> transfer_plan \<Rightarrow> json_object" where
  "plan_metrics pos plan =
     [(''container_pos'', json_position pos), (''direction'', JStr (direction_value (tp_direction plan))),
      (''item'', JStr (tp_item plan)), (''requested_count'', JInt (tp_requested_count plan)),
      (''available_count'', JInt (tp_available plan)), (''planned_count'', JInt (tp_planned_count plan)),
      (''moves'', json_list (tp_moves plan) json_move)]"

definition guard_container_target :: "governance_policy \<Rightarrow> bool \<Rightarrow> position \<Rightarrow> string \<Rightarrow> tool_result option" where
  "guard_container_target p governed pos block_type =
     (if \<not> governed then None
      else (let d = can_interact p pos block_type IC_ACTIVATE
            in if ld_allowed d then None
               else Some (fail_result ''container_denied'' False
                 (''choose a container inside an allowed natural work region instead of touching '' @
                  ''protected or unknown-provenance storage'')
                 [(''container_pos'', json_position pos), (''container_type'', JStr block_type),
                  (''legality'', JDict (decision_payload d))])))"

definition judge_container :: "bool \<Rightarrow> position \<Rightarrow> string \<Rightarrow> ('w, tool_result option) tx" where
  "judge_container governed pos block_type s = (Inr (guard_container_target (tx_policy s) governed pos block_type), s)"

definition move_params :: "position \<Rightarrow> transfer_plan \<Rightarrow> move \<Rightarrow> json_object" where
  "move_params pos plan m =
     (case m of (source, dest, n) \<Rightarrow>
        [(''pos'', json_position pos), (''direction'', JStr (direction_value (tp_direction plan))),
         (''container_slot'', JInt (if tp_direction plan = To_Bot then source else dest)),
         (''bot_slot'', JInt (if tp_direction plan = To_Bot then dest else source)),
         (''count'', JInt n), (''item'', JStr (tp_item plan))])"

definition transfer_rejection :: "result \<Rightarrow> position \<Rightarrow> transfer_plan \<Rightarrow> json_object list \<Rightarrow> tool_result option" where
  "transfer_rejection r pos plan executed =
     body_rejection_to_tool_result r (Some (plan_metrics pos plan @
       [(''executed'', json_list executed JDict),
        (''accepted'', JDict [(''ok'', JBool (re_ok r)), (''accepted'', JBool (re_accepted r)),
           (''error'', json_opt (re_error r)), (''data'', JDict (re_data r))])]))"

definition moved_count :: "tool_result \<Rightarrow> py_exn + int" where
  "moved_count r =
     (if truthy (dget (metrics_of r) ''count'') then py_int (dget (metrics_of r) ''count'') else Inr 0)"

definition executed_entry :: "action \<Rightarrow> move \<Rightarrow> int \<Rightarrow> tool_result \<Rightarrow> json_object" where
  "executed_entry a m n r =
     [(''action_id'', JStr (ac_id a)), (''source_slot'', JInt (fst m)), (''dest_slot'', JInt (fst (snd m))),
      (''requested_count'', JInt (moved m)), (''moved_count'', JInt n), (''reason'', JStr (tr_reason r)),
      (''success'', JBool (tr_success r))]"

definition run_metrics :: "position \<Rightarrow> transfer_plan \<Rightarrow> json_object list \<Rightarrow> int \<Rightarrow> json_object" where
  "run_metrics pos plan executed n =
     plan_metrics pos plan @ [(''executed'', json_list executed JDict), (''moved_count'', JInt n)]"

text \<open>The moves one by one; the first that is refused or fails ends the transaction.\<close>

fun execute_moves ::
  "'w body_port \<Rightarrow> position \<Rightarrow> transfer_plan \<Rightarrow> rat \<Rightarrow> move list \<Rightarrow> json_object list \<Rightarrow> int
   \<Rightarrow> ('w, tool_result + json_object list \<times> int) tx" where
  "execute_moves port pos plan timeout_s [] executed so_far = tx_return (Inr (executed, so_far))"
| "execute_moves port pos plan timeout_s (m # moves) executed so_far =
     tx_bind (send_action port ''containerTransfer'' (move_params pos plan m) timeout_s) (\<lambda>(a, accepted).
     case transfer_rejection accepted pos plan executed of
       Some rejected \<Rightarrow> tx_return (Inl rejected)
     | None \<Rightarrow>
         tx_bind (await_result port a) (\<lambda>r.
         tx_bind (tx_lift (moved_count r)) (\<lambda>n.
         (let executed' = executed @ [executed_entry a m n r]
          in if \<not> tr_success r
             then tx_return (Inl \<lparr>tr_success = False, tr_reason = ''container_transfer_failed:'' @ tr_reason r,
                    tr_can_retry = tr_can_retry r, tr_next_suggestion = tr_next_suggestion r,
                    tr_metrics = Some (run_metrics pos plan executed' (so_far + n))\<rparr>)
             else execute_moves port pos plan timeout_s moves executed' (so_far + n)))))"

definition transferred :: "position \<Rightarrow> transfer_plan \<Rightarrow> json_object list \<Rightarrow> int \<Rightarrow> tool_result" where
  "transferred pos plan executed n =
     \<lparr>tr_success = (n \<ge> tp_requested_count plan),
      tr_reason = (if n \<ge> tp_requested_count plan then ''completed'' else ''partial''),
      tr_can_retry = (n < tp_requested_count plan), tr_next_suggestion = None,
      tr_metrics = Some (run_metrics pos plan executed n)\<rparr>"

definition nothing_to_move :: "position \<Rightarrow> transfer_plan \<Rightarrow> tool_result" where
  "nothing_to_move pos plan =
     fail_result (if tp_available plan \<le> 0 then ''item_not_available'' else ''destination_full'') (tp_available plan > 0)
       (if tp_available plan > 0 then ''free destination slots or lower the requested count''
        else ''choose a present item or refresh container/inventory facts'')
       (plan_metrics pos plan)"

definition read_slots ::
  "'w body_port \<Rightarrow> nat \<Rightarrow> string \<Rightarrow> json_object \<Rightarrow> int \<Rightarrow> ('w, tool_result + perception_result) tx" where
  "read_slots port fuel scope base page_size =
     tx_bind (read_paged port fuel scope base page_size 0 []) (\<lambda>p.
     tx_return (case container_perception_failure p of Some failed \<Rightarrow> Inl failed | None \<Rightarrow> Inr p))"

record transfer_options =
  to_total_slots :: int
  to_page_size :: int
  to_timeout_s :: rat
  to_fuel :: nat
  to_governed :: bool

definition transfer_request :: "string \<Rightarrow> string \<Rightarrow> int \<Rightarrow> string \<Rightarrow> tool_result" where
  "transfer_request reason item wanted dir =
     \<lparr>tr_success = False, tr_reason = reason, tr_can_retry = False, tr_next_suggestion = None,
      tr_metrics = Some [(''item'', JStr item), (''requested_count'', JInt wanted), (''direction'', JStr dir)]\<rparr>"

definition plan_from ::
  "'w body_port \<Rightarrow> direction \<Rightarrow> string \<Rightarrow> int \<Rightarrow> perception_result \<Rightarrow> perception_result \<Rightarrow> py_exn + transfer_plan" where
  "plan_from port dir item wanted container inventory =
     (case perceived_slots container of
        Inl e \<Rightarrow> Inl e
      | Inr cs \<Rightarrow>
          map_sum id (\<lambda>bs. plan_transfer (pf_show (port_platform port)) dir item wanted cs bs) (perceived_slots inventory))"

definition run_plan ::
  "'w body_port \<Rightarrow> position \<Rightarrow> transfer_plan \<Rightarrow> rat \<Rightarrow> ('w, tool_result) tx" where
  "run_plan port pos plan timeout_s =
     (if tp_planned_count plan \<le> 0 then tx_return (nothing_to_move pos plan)
      else tx_bind (execute_moves port pos plan timeout_s (tp_moves plan) [] 0) (\<lambda>r. or_return r (\<lambda>(executed, n).
           tx_return (transferred pos plan executed n))))"

definition transfer_checked ::
  "'w body_port \<Rightarrow> position \<Rightarrow> string \<Rightarrow> int \<Rightarrow> direction \<Rightarrow> transfer_options \<Rightarrow> ('w, tool_result) tx" where
  "transfer_checked port pos item wanted dir opts =
     tx_bind (read_slots port (to_fuel opts) ''container''
       [(''pos'', json_position pos), (''total_slots'', JInt (to_total_slots opts))]
       (safe_slot_page_size (to_page_size opts))) (\<lambda>r. or_return r (\<lambda>container.
     tx_bind (read_slots port (to_fuel opts) ''inventory'' [] BODY_SLOT_PAGE_SIZE) (\<lambda>r. or_return r (\<lambda>inventory.
     tx_bind (tx_lift (plan_from port dir item wanted container inventory)) (\<lambda>plan.
     run_plan port pos plan (to_timeout_s opts))))))"

definition transfer_item ::
  "'w body_port \<Rightarrow> position \<Rightarrow> string \<Rightarrow> int \<Rightarrow> string \<Rightarrow> transfer_options \<Rightarrow> ('w, tool_result) tx" where
  "transfer_item port pos item wanted dir_text opts =
     (if wanted \<le> 0 then tx_return (transfer_request ''invalid_count'' item wanted dir_text)
      else case parse_direction dir_text of
        None \<Rightarrow> tx_return (transfer_request ''invalid_direction'' item wanted dir_text)
      | Some dir \<Rightarrow>
          tx_bind (read_target_type port pos) (\<lambda>r. or_return r (\<lambda>target_type.
          if target_type \<notin> set DEFAULT_CONTAINER_TYPES
          then tx_return \<lparr>tr_success = False, tr_reason = ''container_wrong_type'', tr_can_retry = False,
                 tr_next_suggestion = None,
                 tr_metrics = Some [(''container_pos'', json_position pos), (''container_type'', JStr target_type)]\<rparr>
          else tx_bind (judge_container (to_governed opts) pos target_type) (\<lambda>denied.
          unless_failed denied (transfer_checked port pos item wanted dir opts)))))"

section \<open>The nearest container\<close>

record nearest_options =
  ne_search_radius :: int
  ne_types :: "string list"
  ne_approach_timeout_s :: rat
  ne_transfer :: transfer_options

definition container_range :: "nearest_options \<Rightarrow> range_options" where
  "container_range opts =
     \<lparr>ro_radius = INTERACTION_RANGE, ro_timeout_s = ne_approach_timeout_s opts,
      ro_missing_reason = ''container_navigation_missing'', ro_failure_prefix = ''container_navigation_failed'',
      ro_no_stand_reason = ''container_no_stand_point'', ro_arrival_radius = None, ro_center = True, ro_stands = None\<rparr>"

definition searched :: "nearest_options \<Rightarrow> json_object list \<Rightarrow> json_object" where
  "searched opts attempted =
     [(''search_radius'', JInt (ne_search_radius opts)), (''container_types'', json_list (ne_types opts) JStr),
      (''attempted_targets'', json_list attempted JDict)]"

definition container_facts :: "nearby_block \<Rightarrow> json_object" where
  "container_facts target =
     [(''container_target'', json_position (nb_pos target)), (''container_type'', JStr (nb_block_type target))]"

definition no_container :: "nearest_options \<Rightarrow> tool_result" where
  "no_container opts =
     \<lparr>tr_success = False, tr_reason = ''container_not_found'', tr_can_retry = True, tr_next_suggestion = None,
      tr_metrics = Some [(''search_radius'', JInt (ne_search_radius opts)), (''container_types'', json_list (ne_types opts) JStr)]\<rparr>"

fun try_containers ::
  "'w body_port \<Rightarrow> 'w interaction_navigator option \<Rightarrow> string \<Rightarrow> int \<Rightarrow> string \<Rightarrow> nearest_options \<Rightarrow> nearby_block list
   \<Rightarrow> json_object list \<Rightarrow> tool_result option \<Rightarrow> ('w, tool_result) tx" where
  "try_containers port nav item wanted dir opts [] attempted failure =
     tx_return (merge_context (case failure of None \<Rightarrow> no_container opts | Some r \<Rightarrow> r) (searched opts attempted))"
| "try_containers port nav item wanted dir opts (target # targets) attempted failure =
     tx_bind (judge_container (to_governed (ne_transfer opts)) (nb_pos target) (nb_block_type target)) (\<lambda>denied.
     case denied of
       Some r \<Rightarrow> tx_return (merge_context r (container_facts target @ searched opts attempted))
     | None \<Rightarrow>
         tx_bind (ensure_interaction_range port nav (nb_pos target) (container_range opts)) (\<lambda>approach. case approach of
           Inl r \<Rightarrow>
             (let attempted' = attempted @ [container_facts target @ [(''approach_result'', JDict (tool_result_payload r))]]
              in if tr_reason r = ''container_navigation_missing''
                 then tx_return (merge_context r (searched opts attempted'))
                 else try_containers port nav item wanted dir opts targets attempted' (Some r))
         | Inr facts \<Rightarrow>
             tx_bind (transfer_item port (nb_pos target) item wanted dir (ne_transfer opts)) (\<lambda>r.
             tx_return (merge_context r (container_facts target @ [(''approach'', JDict facts)] @ searched opts attempted)))))"

definition transfer_nearest_container ::
  "'w body_port \<Rightarrow> 'w interaction_navigator option \<Rightarrow> string \<Rightarrow> int \<Rightarrow> string \<Rightarrow> nearest_options \<Rightarrow> ('w, tool_result) tx" where
  "transfer_nearest_container port nav item wanted dir opts =
     tx_bind (find_nearby_block_targets port (ne_types opts) (ne_search_radius opts) ''container_not_found'' 64) (\<lambda>r.
     or_return r (\<lambda>targets. try_containers port nav item wanted dir opts targets [] None))"

end
