(* ===== verification/Container_Safety.thy ===== *)
theory Container_Safety
  imports Container Block_Safety
begin

text \<open>
  What a transfer of items does, for \<open>minebot/body/container.py\<close>: the plan moves exactly what is asked
  for, present and fits, slot by slot within the stacks, and the transaction sends the moves of that
  plan and nothing else, only for a container that was read and that the policy allows to open.
\<close>

section \<open>What the plan moves\<close>

text \<open>The room of the destinations, and what a list of moves puts into a slot or takes from one.\<close>

definition space :: "(int, int) pydict \<Rightarrow> int" where
  "space dests = sum_list (map (\<lambda>(d, c). max 0 c) dests)"

definition stock :: "inventory_slot list \<Rightarrow> int" where
  "stock slots = sum_list (map (\<lambda>s. max 0 (is_count s)) slots)"

definition moved_total :: "move list \<Rightarrow> int" where
  "moved_total moves = sum_list (map moved moves)"

definition moved_into :: "int \<Rightarrow> move list \<Rightarrow> int" where
  "moved_into d moves = moved_total (filter (\<lambda>m. fst (snd m) = d) moves)"

definition moved_from :: "int \<Rightarrow> move list \<Rightarrow> int" where
  "moved_from s moves = moved_total (filter (\<lambda>m. fst m = s) moves)"

definition capacity :: "(int, int) pydict \<Rightarrow> int \<Rightarrow> int" where
  "capacity dests d = (case map_of dests d of None \<Rightarrow> 0 | Some c \<Rightarrow> max 0 c)"

lemma moved_simps [simp]:
  "moved_total [] = 0" "moved_total (m # ms) = moved m + moved_total ms"
  "moved_total (ms @ ns) = moved_total ms + moved_total ns"
  by (simp_all add: moved_total_def)

lemma moved_into_simps [simp]:
  "moved_into d [] = 0" "moved_into d (m # ms) = (if fst (snd m) = d then moved m else 0) + moved_into d ms"
  "moved_into d (ms @ ns) = moved_into d ms + moved_into d ns"
  by (simp_all add: moved_into_def)

lemma moved_from_simps [simp]:
  "moved_from s [] = 0" "moved_from s (m # ms) = (if fst m = s then moved m else 0) + moved_from s ms"
  "moved_from s (ms @ ns) = moved_from s ms + moved_from s ns"
  by (simp_all add: moved_from_def)

lemma space_simps [simp]: "space [] = 0" "space ((d, c) # ds) = max 0 c + space ds"
  by (simp_all add: space_def)

lemma stock_simps [simp]: "stock [] = 0" "stock (s # ss) = max 0 (is_count s) + stock ss"
  by (simp_all add: stock_def)

lemma space_nonneg: "0 \<le> space ds"
  by (induction ds) auto

lemma stock_nonneg: "0 \<le> stock ss"
  by (induction ss) auto

lemma fill_slots_amount:
  "fill_slots s l r ds = (ds', l', r', ms) \<Longrightarrow>
     moved_total ms = min (max 0 l) (min (max 0 r) (space ds)) \<and> l' = l - moved_total ms \<and> r' = r - moved_total ms \<and>
     space ds' = space ds - moved_total ms"
proof (induction s l r ds arbitrary: ds' l' r' ms rule: fill_slots.induct)
  case (2 s l r d c ds)
  consider "r \<le> 0 \<or> l \<le> 0" | "0 < r" "0 < l" "c \<le> 0" | "0 < r" "0 < l" "0 < c" by linarith
  then show ?case
  proof cases
    case 1
    then show ?thesis using "2.prems" space_nonneg [of ds] by auto
  next
    case 2
    obtain ds2 l2 r2 ms2 where rest: "fill_slots s l r ds = (ds2, l2, r2, ms2)" by (rule prod_cases4)
    show ?thesis using "2.IH"(1) [OF _ _ rest] 2 "2.prems" rest by auto
  next
    case 3
    let ?n = "min l (min r c)"
    obtain ds2 l2 r2 ms2 where rest: "fill_slots s (l - ?n) (r - ?n) ds = (ds2, l2, r2, ms2)" by (rule prod_cases4)
    have "ds' = (d, c - ?n) # ds2" "l' = l2" "r' = r2" "ms = (s, d, ?n) # ms2"
      using 3 "2.prems" rest by (simp_all add: Let_def)
    moreover have "moved_total ms2 = min (max 0 (l - ?n)) (min (max 0 (r - ?n)) (space ds)) \<and> l2 = l - ?n - moved_total ms2 \<and>
        r2 = r - ?n - moved_total ms2 \<and> space ds2 = space ds - moved_total ms2"
      using "2.IH"(2) [OF _ _ refl rest] 3 by simp
    ultimately show ?thesis using 3 space_nonneg [of ds] by (auto simp: min_def max_def)
  qed
qed auto

lemma fill_slots_moves:
  "fill_slots s l r ds = (ds', l', r', ms) \<Longrightarrow> distinct (map fst ds) \<Longrightarrow>
     map fst ds' = map fst ds \<and> (\<forall>m\<in>set ms. fst m = s \<and> 0 < moved m \<and> fst (snd m) \<in> set (map fst ds)) \<and>
     (\<forall>d. moved_into d ms + capacity ds' d = capacity ds d)"
proof (induction s l r ds arbitrary: ds' l' r' ms rule: fill_slots.induct)
  case (2 s l r d c ds)
  have fresh: "moved_into d ms2 = 0" if "\<forall>m\<in>set ms2. fst (snd m) \<in> set (map fst ds)" for ms2
    using that "2.prems"(2) by (induction ms2) (auto simp del: set_map)
  consider "r \<le> 0 \<or> l \<le> 0" | "0 < r" "0 < l" "c \<le> 0" | "0 < r" "0 < l" "0 < c" by linarith
  then show ?case
  proof cases
    case 1
    then show ?thesis using "2.prems" by auto
  next
    case 2
    obtain ds2 l2 r2 ms2 where rest: "fill_slots s l r ds = (ds2, l2, r2, ms2)" by (rule prod_cases4)
    have eq: "ds' = (d, c) # ds2" "ms = ms2" using 2 "2.prems" rest by simp_all
    have IH: "map fst ds2 = map fst ds \<and> (\<forall>m\<in>set ms2. fst m = s \<and> 0 < moved m \<and> fst (snd m) \<in> set (map fst ds)) \<and>
        (\<forall>e. moved_into e ms2 + capacity ds2 e = capacity ds e)"
      using "2.IH"(1) [OF _ _ rest] 2 "2.prems" by simp
    have "moved_into e ms2 + capacity ((d, c) # ds2) e = capacity ((d, c) # ds) e" for e
      using IH fresh [of ms2] by (cases "e = d") (auto simp: capacity_def)
    then show ?thesis using IH eq by auto
  next
    case 3
    let ?n = "min l (min r c)"
    obtain ds2 l2 r2 ms2 where rest: "fill_slots s (l - ?n) (r - ?n) ds = (ds2, l2, r2, ms2)" by (rule prod_cases4)
    have eq: "ds' = (d, c - ?n) # ds2" "ms = (s, d, ?n) # ms2"
      using 3 "2.prems" rest by (simp_all add: Let_def)
    have IH: "map fst ds2 = map fst ds \<and> (\<forall>m\<in>set ms2. fst m = s \<and> 0 < moved m \<and> fst (snd m) \<in> set (map fst ds)) \<and>
        (\<forall>e. moved_into e ms2 + capacity ds2 e = capacity ds e)"
      using "2.IH"(2) [OF _ _ refl rest] 3 "2.prems" by simp
    have "moved_into e ms + capacity ds' e = capacity ((d, c) # ds) e" for e
      using IH fresh [of ms2] 3 by (cases "e = d") (auto simp: capacity_def eq)
    then show ?thesis using IH eq 3 by auto
  qed
qed auto

lemma drain_sources_amount:
  assumes "0 < r"
  shows "moved_total (drain_sources r ds slots) = min r (min (stock slots) (space ds))"
  using assms
proof (induction slots arbitrary: r ds)
  case (Cons slot slots)
  obtain ds' l' r' ms where fill: "fill_slots (is_slot slot) (is_count slot) r ds = (ds', l', r', ms)" by (rule prod_cases4)
  note amount = fill_slots_amount [OF fill]
  show ?case
  proof (cases "r' \<le> 0")
    case True
    then show ?thesis using amount fill Cons.prems stock_nonneg [of slots] by (auto simp: min_def max_def split: if_splits)
  next
    case False
    have "moved_total (drain_sources r' ds' slots) = min r' (min (stock slots) (space ds'))"
      using Cons.IH [of r' ds'] False by simp
    then show ?thesis
      using amount fill False Cons.prems stock_nonneg [of slots] space_nonneg [of ds] space_nonneg [of ds']
      by (auto simp: min_def max_def split: if_splits)
  qed
qed (simp add: space_nonneg)

lemma drain_sources_into:
  "distinct (map fst ds) \<Longrightarrow> moved_into d (drain_sources r ds slots) \<le> capacity ds d"
proof (induction slots arbitrary: r ds)
  case Nil
  then show ?case by (simp add: capacity_def split: option.split)
next
  case (Cons slot slots)
  obtain ds' l' r' ms where fill: "fill_slots (is_slot slot) (is_count slot) r ds = (ds', l', r', ms)" by (rule prod_cases4)
  note moves = fill_slots_moves [OF fill Cons.prems]
  have keys: "distinct (map fst ds')" using moves Cons.prems by simp
  have "moved_into d ms + capacity ds' d = capacity ds d" using moves by blast
  moreover have "0 \<le> capacity ds' d" by (simp add: capacity_def split: option.split)
  moreover have "moved_into d (drain_sources r' ds' slots) \<le> capacity ds' d" by (rule Cons.IH [OF keys])
  ultimately show ?case using fill by (auto split: if_splits)
qed

lemma drain_sources_moves:
  "distinct (map fst ds) \<Longrightarrow> m \<in> set (drain_sources r ds slots) \<Longrightarrow>
     0 < moved m \<and> fst m \<in> is_slot ` set slots \<and> fst (snd m) \<in> set (map fst ds)"
proof (induction slots arbitrary: r ds)
  case (Cons slot slots)
  obtain ds' l' r' ms where fill: "fill_slots (is_slot slot) (is_count slot) r ds = (ds', l', r', ms)" by (rule prod_cases4)
  note moves = fill_slots_moves [OF fill Cons.prems(1)]
  have keys: "distinct (map fst ds')" using moves Cons.prems by simp
  show ?case
    using Cons.prems(2) fill moves Cons.IH [OF keys, of r'] by (auto split: if_splits simp del: set_map)
qed simp

lemma drain_sources_from:
  "distinct (map fst ds) \<Longrightarrow> distinct (map is_slot slots) \<Longrightarrow> slot \<in> set slots \<Longrightarrow>
     moved_from (is_slot slot) (drain_sources r ds slots) \<le> max 0 (is_count slot)"
proof (induction slots arbitrary: r ds)
  case (Cons first slots)
  obtain ds' l' r' ms where fill: "fill_slots (is_slot first) (is_count first) r ds = (ds', l', r', ms)" by (rule prod_cases4)
  note moves = fill_slots_moves [OF fill Cons.prems(1)] and amount = fill_slots_amount [OF fill]
  have keys: "distinct (map fst ds')" using moves Cons.prems by simp
  have here: "moved_from (is_slot first) ns = moved_total ns" if "\<forall>m\<in>set ns. fst m = is_slot first" for ns
    using that by (induction ns) auto
  have away: "moved_from i ns = 0" if "\<forall>m\<in>set ns. fst m \<noteq> i" for i ns
    using that by (induction ns) auto
  show ?case
  proof (cases "slot = first")
    case True
    have "moved_from (is_slot first) (drain_sources r' ds' slots) = 0"
      by (rule away) (use drain_sources_moves [OF keys] Cons.prems(2) in fastforce)
    moreover have "moved_from (is_slot first) ms = moved_total ms" by (rule here) (use moves in blast)
    ultimately show ?thesis using True fill amount by (auto split: if_splits)
  next
    case False
    then have slot: "slot \<in> set slots" "is_slot slot \<noteq> is_slot first" using Cons.prems(2,3) False by (auto simp: image_iff)
    have "moved_from (is_slot slot) ms = 0" by (rule away) (use moves slot(2) in fastforce)
    moreover have "moved_from (is_slot slot) (drain_sources r' ds' slots) \<le> max 0 (is_count slot)"
      using Cons.IH [OF keys] Cons.prems(2) slot(1) by simp
    ultimately show ?thesis using fill by (auto split: if_splits)
  qed
qed simp

lemma room_keys: "distinct (map fst (room show_other item slots))"
proof -
  have "distinct (map fst d) \<Longrightarrow> distinct (map fst (fold (\<lambda>slot d.
        if is_empty slot then AList.update (is_slot slot) 64 d
        else if same_item show_other (is_item slot) item \<and> is_count slot < 64
        then AList.update (is_slot slot) (64 - is_count slot) d
        else d) slots d))" for d :: "(int, int) pydict"
    by (induction slots arbitrary: d) (auto simp: distinct_update)
  then show ?thesis by (simp add: room_def)
qed

text \<open>The room of a slot: a whole stack when it is empty, the rest of its stack when it holds the item.\<close>

definition slot_room :: "(json \<Rightarrow> string) \<Rightarrow> string \<Rightarrow> inventory_slot \<Rightarrow> int" where
  "slot_room show_other item slot =
     (if is_empty slot then 64
      else if same_item show_other (is_item slot) item then max 0 (64 - is_count slot) else 0)"

lemma room_capacity:
  assumes "distinct (map is_slot slots)" and "slot \<in> set slots"
  shows "capacity (room show_other item slots) (is_slot slot) = slot_room show_other item slot"
proof -
  let ?step = "\<lambda>slot d. if is_empty slot then AList.update (is_slot slot) 64 d
        else if same_item show_other (is_item slot) item \<and> is_count slot < 64
        then AList.update (is_slot slot) (64 - is_count slot) d else d"
  have away: "map_of (fold ?step ss d) i = map_of d i" if "i \<notin> is_slot ` set ss" for ss d i
    using that by (induction ss arbitrary: d) (auto simp: map_of_update)
  obtain l r where slots: "slots = l @ slot # r" using assms(2) by (auto simp: in_set_conv_decomp)
  then have other: "is_slot slot \<notin> is_slot ` set l" "is_slot slot \<notin> is_slot ` set r" using assms(1) by auto
  let ?d = "fold ?step l []"
  have "map_of ?d (is_slot slot) = None" using away [OF other(1)] by simp
  then have "capacity (?step slot ?d) (is_slot slot) = slot_room show_other item slot"
    by (auto simp: capacity_def slot_room_def map_of_update)
  then show ?thesis using away [OF other(2)] by (simp add: room_def slots capacity_def)
qed

lemma room_slots:
  "set (map fst (room show_other item slots)) \<subseteq> is_slot ` {slot \<in> set slots. 0 < slot_room show_other item slot}"
proof -
  let ?step = "\<lambda>slot d. if is_empty slot then AList.update (is_slot slot) 64 d
        else if same_item show_other (is_item slot) item \<and> is_count slot < 64
        then AList.update (is_slot slot) (64 - is_count slot) d else d"
  have "fst ` set (fold ?step ss d) \<subseteq> fst ` set d \<union> is_slot ` {slot \<in> set ss. 0 < slot_room show_other item slot}" for ss d
  proof (induction ss arbitrary: d)
    case (Cons slot ss)
    have "fst ` set (?step slot d) \<subseteq> fst ` set d \<union> is_slot ` {x \<in> set (slot # ss). 0 < slot_room show_other item x}"
    proof (cases "0 < slot_room show_other item slot")
      case True
      then have "is_slot slot \<in> is_slot ` {x \<in> set (slot # ss). 0 < slot_room show_other item x}" by simp
      then show ?thesis by (simp add: dom_update)
    next
      case False
      then have "\<not> is_empty slot" "\<not> (same_item show_other (is_item slot) item \<and> is_count slot < 64)"
        by (auto simp: slot_room_def split: if_splits)
      then show ?thesis by (simp only: if_False if_cancel) blast
    qed
    moreover have "is_slot ` {x \<in> set ss. 0 < slot_room show_other item x} \<subseteq>
        is_slot ` {x \<in> set (slot # ss). 0 < slot_room show_other item x}"
      by (rule image_mono) auto
    ultimately show ?case using Cons.IH [of "?step slot d"] unfolding fold_simps by (meson Un_least Un_upper2 order_trans)
  qed simp
  from this [of slots "[]"] show ?thesis by (simp add: room_def)
qed

text \<open>
  C15. A plan moves exactly the least of what is asked for, what the sources hold of the item and what
  the destinations have room for. Every move is positive and goes from a slot that holds the item
  to a destination with room for it. Where the slot numbers of the destinations are distinct, no slot
  receives more than its room, so no stack grows beyond 64; where those of the sources are distinct,
  no slot gives more than it holds. (A slot is named by its number, so a bound per slot means little
  for a list that gives the same number to two slots.)
\<close>

theorem plan_moves_exactly_what_fits:
  assumes wanted: "0 < wanted"
    and plan: "plan = plan_transfer show_other dir item wanted cs bs"
    and sources: "sources = holding_item show_other item (transfer_sources dir cs bs)"
    and destinations: "destinations = transfer_destinations dir cs bs"
  shows "tp_planned_count plan =
      min wanted (min (stock sources) (space (room show_other item destinations))) \<and>
    (\<forall>m\<in>set (tp_moves plan). 0 < moved m \<and> fst m \<in> is_slot ` set sources \<and>
       fst (snd m) \<in> is_slot ` {slot \<in> set destinations. 0 < slot_room show_other item slot}) \<and>
    (distinct (map is_slot destinations) \<longrightarrow>
       (\<forall>slot\<in>set destinations. moved_into (is_slot slot) (tp_moves plan) \<le> slot_room show_other item slot)) \<and>
    (distinct (map is_slot sources) \<longrightarrow>
       (\<forall>slot\<in>set sources. moved_from (is_slot slot) (tp_moves plan) \<le> max 0 (is_count slot)))"
proof -
  let ?room = "room show_other item destinations"
  have moves: "tp_moves plan = drain_sources wanted ?room sources"
    and total: "tp_planned_count plan = moved_total (tp_moves plan)"
    by (simp_all add: plan plan_transfer_def Let_def sources destinations moved_total_def)
  have into: "moved_into (is_slot slot) (tp_moves plan) \<le> slot_room show_other item slot"
    if "distinct (map is_slot destinations)" "slot \<in> set destinations" for slot
    using drain_sources_into [OF room_keys] room_capacity [OF that] unfolding moves by metis
  show ?thesis
    using drain_sources_amount [OF wanted] drain_sources_moves [OF room_keys] drain_sources_from [OF room_keys] into
      room_slots
    unfolding total moves by (blast dest: subsetD)
qed

section \<open>What the transaction sends\<close>

fun sent_move :: "body_call \<Rightarrow> action list" where
  "sent_move (Executed a r) = (if ac_name a = ''containerTransfer'' then [a] else [])"
| "sent_move _ = []"

definition sent_moves :: "body_call list \<Rightarrow> action list" where
  "sent_moves cs = concat (map sent_move cs)"

lemma sent_moves_snoc [simp]: "sent_moves (cs @ [c]) = sent_moves cs @ sent_move c"
  by (simp add: sent_moves_def)

lemma passive_sends_no_move [simp]: "passive_entry c \<Longrightarrow> sent_move c = []"
  by (cases c) auto

interpretation unsent: log_invariant "\<lambda>cs p. sent_moves cs = xs" "\<lambda>c. sent_move c = []" for xs
  by unfold_locales auto

abbreviation sent_inv :: "action list \<Rightarrow> 'w logged tx_state \<Rightarrow> bool" where
  "sent_inv xs \<equiv> log_invariant.inv (\<lambda>cs p. sent_moves cs = xs)"

lemma keeps_read_paged: "keeps (sent_inv xs) (read_paged (recording port) fuel scope base page_size start slots)"
proof (induction fuel arbitrary: start slots)
  case (Suc fuel)
  show ?case
    by (simp only: read_paged.simps, intro keeps_intros unsent.keeps_perceive)
      (auto split: json.split intro!: keeps_intros Suc)
qed (simp add: keeps_raise)

lemma keeps_read_slots: "keeps (sent_inv xs) (read_slots (recording port) fuel scope base page_size)"
  unfolding read_slots_def by (intro keeps_intros keeps_read_paged)

lemma keeps_read_target_type: "keeps (sent_inv xs) (read_target_type (recording port) pos)"
  unfolding read_target_type_def by (intro keeps_intros unsent.keeps_perceive) simp

lemma read_target_type_policy: "tx_policy (snd (read_target_type port pos s)) = tx_policy s"
  by (auto simp: read_target_type_def tx_bind_def tx_return_def perceive_def tx_call_def split: prod.split sum.split)

definition asks_for :: "position \<Rightarrow> transfer_plan \<Rightarrow> move \<Rightarrow> action \<Rightarrow> bool" where
  "asks_for pos plan m a \<longleftrightarrow> sent_as ''containerTransfer'' (move_params pos plan m) a"

lemma execute_moves_run:
  fixes s :: "'w logged tx_state"
  assumes "execute_moves (recording port) pos plan timeout_s moves executed n s = (r, s')"
  shows "\<exists>sent done. sent_moves (tx_log s') = sent_moves (tx_log s) @ sent \<and> prefix done moves \<and> list_all2 (asks_for pos plan) done sent"
  using assms
proof (induction moves arbitrary: executed n s r s')
  case Nil
  then show ?case by (auto simp: tx_return_def)
next
  case (Cons m moves)
  obtain x t where send: "send_action (recording port) ''containerTransfer'' (move_params pos plan m) timeout_s s = (x, t)"
    by (rule prod.exhaust)
  from send_action_run [OF send] show ?case
  proof (elim conjE disjE exE)
    fix e
    assume "tx_log t = tx_log s" "x = Inl e"
    then have "sent_moves (tx_log s') = sent_moves (tx_log s) @ []" using Cons.prems send by (simp add: tx_bind_def)
    then show ?thesis by (intro exI [of _ "[]"]) simp
  next
    fix a y
    assume log: "tx_log t = tx_log s @ [Executed a y]" and a: "sent_as ''containerTransfer'' (move_params pos plan m) a"
      and x: "x = map_sum id (Pair a) y"
    have sent: "sent_moves (tx_log t) = sent_moves (tx_log s) @ [a]" using log a by (simp add: sent_as_def)
    then have t: "sent_inv (sent_moves (tx_log s) @ [a]) t" by (simp add: unsent.inv_def)
    define Q where "Q u \<longleftrightarrow> (\<exists>as d. sent_moves (tx_log u) = sent_moves (tx_log s) @ as \<and> prefix d (m # moves) \<and>
        list_all2 (asks_for pos plan) d as)" for u :: "'w logged tx_state"
    have now: "Q u" if "sent_inv (sent_moves (tx_log s) @ [a]) u" for u
      unfolding Q_def
      by (intro exI [of _ "[a]"] exI [of _ "[m]"]) (use that a in \<open>simp add: unsent.inv_def asks_for_def\<close>)
    have later: "Q (snd (execute_moves (recording port) pos plan timeout_s moves executed' k u))"
      if u: "sent_inv (sent_moves (tx_log s) @ [a]) u" for executed' k u
    proof -
      obtain y v where ex: "execute_moves (recording port) pos plan timeout_s moves executed' k u = (y, v)" by (rule prod.exhaust)
      obtain as d where "sent_moves (tx_log v) = (sent_moves (tx_log s) @ [a]) @ as" "prefix d moves" "list_all2 (asks_for pos plan) d as"
        using Cons.IH [OF ex] u by (auto simp: unsent.inv_def)
      then show ?thesis
        unfolding ex Q_def using a
        by (intro exI [of _ "a # as"] exI [of _ "m # d"]) (simp add: asks_for_def [of pos plan m a])
    qed
    let ?go = "\<lambda>r. tx_bind (tx_lift (moved_count r)) (\<lambda>k.
         (let executed' = executed @ [executed_entry a m k r]
          in if \<not> tr_success r
             then tx_return (Inl \<lparr>tr_success = False, tr_reason = ''container_transfer_failed:'' @ tr_reason r,
                    tr_can_retry = tr_can_retry r, tr_next_suggestion = tr_next_suggestion r,
                    tr_metrics = Some (run_metrics pos plan executed' (n + k))\<rparr>)
             else execute_moves (recording port) pos plan timeout_s moves executed' (n + k)))"
    have go: "Q (snd (?go b u))" if "sent_inv (sent_moves (tx_log s) @ [a]) u" for b u
      using now [OF that] later [OF that] by (cases "moved_count b") (simp_all add: tx_bind_def tx_lift_def tx_return_def Let_def)
    have tail: "Q (snd (tx_bind (await_result (recording port) a) ?go t))"
      by (rule after_bind [where P = Q, OF t unsent.keeps_await_result now]) (use go in auto)
    have "Q s'"
    proof (cases y)
      case (Inl e)
      then show ?thesis using Cons.prems send x now [OF t] by (simp add: tx_bind_def)
    next
      case (Inr accepted)
      have "(case transfer_rejection accepted pos plan executed of Some rejected \<Rightarrow> tx_return (Inl rejected)
          | None \<Rightarrow> tx_bind (await_result (recording port) a) ?go) t = (r, s')"
        using Cons.prems send x Inr by (simp add: tx_bind_def)
      then show ?thesis
        using now [OF t] tail by (cases "transfer_rejection accepted pos plan executed") (simp_all add: tx_return_def)
    qed
    then show ?thesis by (auto simp: Q_def)
  qed
qed

text \<open>The container was read, its type and the policy allow it, and both sides were read for the plan.\<close>

definition cleared_transfer ::
  "'w body_port \<Rightarrow> position \<Rightarrow> string \<Rightarrow> int \<Rightarrow> direction \<Rightarrow> transfer_options \<Rightarrow> 'w tx_state \<Rightarrow> transfer_plan \<Rightarrow> bool" where
  "cleared_transfer port pos item wanted dir opts s plan \<longleftrightarrow>
     (\<exists>t s1 s2 s3 container inventory.
        read_target_type port pos s = (Inr (Inr t), s1) \<and> t \<in> set DEFAULT_CONTAINER_TYPES \<and>
        (to_governed opts \<longrightarrow> ld_allowed (can_interact (tx_policy s) pos t IC_ACTIVATE)) \<and>
        read_slots port (to_fuel opts) ''container''
          [(''pos'', json_position pos), (''total_slots'', JInt (to_total_slots opts))]
          (safe_slot_page_size (to_page_size opts)) s1 = (Inr (Inr container), s2) \<and>
        read_slots port (to_fuel opts) ''inventory'' [] BODY_SLOT_PAGE_SIZE s2 = (Inr (Inr inventory), s3) \<and>
        plan_from port dir item wanted container inventory = Inr plan)"

text \<open>Nothing was sent, or the first moves of a plan that was cleared in the state \<open>s\<close>.\<close>

definition sends_within_plan ::
  "'w body_port \<Rightarrow> position \<Rightarrow> string \<Rightarrow> int \<Rightarrow> string \<Rightarrow> transfer_options \<Rightarrow> 'w tx_state \<Rightarrow> action list \<Rightarrow> bool" where
  "sends_within_plan port pos item wanted dir_text opts s actions \<longleftrightarrow> actions = [] \<or>
     (\<exists>dir plan moves. 0 < wanted \<and> parse_direction dir_text = Some dir \<and>
        cleared_transfer port pos item wanted dir opts s plan \<and>
        prefix moves (tp_moves plan) \<and> list_all2 (asks_for pos plan) moves actions)"

lemma unsent_within_plan: "sent_inv [] t \<Longrightarrow> sends_within_plan port pos item wanted dir_text opts s (sent_moves (tx_log t))"
  by (simp add: sends_within_plan_def unsent.inv_def)

lemma run_plan_within:
  fixes u :: "'w logged tx_state"
  assumes "0 < wanted" "parse_direction dir_text = Some dir" "cleared_transfer (recording port) pos item wanted dir opts s plan"
    and u: "sent_inv [] u"
  shows "sends_within_plan (recording port) pos item wanted dir_text opts s
    (sent_moves (tx_log (snd (run_plan (recording port) pos plan timeout_s u))))"
proof (cases "tp_planned_count plan \<le> 0")
  case True
  then show ?thesis using unsent_within_plan [OF u] by (simp add: run_plan_def)
next
  case False
  obtain x v where ex: "execute_moves (recording port) pos plan timeout_s (tp_moves plan) [] 0 u = (x, v)"
    by (rule prod.exhaust)
  obtain actions moves where "sent_moves (tx_log v) = actions" "prefix moves (tp_moves plan)" "list_all2 (asks_for pos plan) moves actions"
    using execute_moves_run [OF ex] u by (auto simp: unsent.inv_def)
  moreover have "snd (run_plan (recording port) pos plan timeout_s u) = v"
    using ex False by (auto simp: run_plan_def tx_bind_def or_return_def tx_return_def split: sum.split prod.split)
  ultimately show ?thesis using assms(1-3) unfolding sends_within_plan_def by blast
qed

lemma transfer_checked_within:
  fixes u :: "'w logged tx_state"
  assumes ok: "0 < wanted" "parse_direction dir_text = Some dir" and u: "sent_inv [] u"
    "read_target_type (recording port) pos s = (Inr (Inr t), u)" "t \<in> set DEFAULT_CONTAINER_TYPES"
    "to_governed opts \<longrightarrow> ld_allowed (can_interact (tx_policy s) pos t IC_ACTIVATE)"
  shows "sends_within_plan (recording port) pos item wanted dir_text opts s
    (sent_moves (tx_log (snd (transfer_checked (recording port) pos item wanted dir opts u))))"
proof -
  define P where "P t \<longleftrightarrow> sends_within_plan (recording port) pos item wanted dir_text opts s (sent_moves (tx_log t))"
    for t :: "'w logged tx_state"
  have quiet: "P t" if "sent_inv [] t" for t using unsent_within_plan [OF that] by (simp add: P_def)
  have "P (snd (transfer_checked (recording port) pos item wanted dir opts u))"
    unfolding transfer_checked_def
  proof (rule after_bind [where P = P, OF u(1) keeps_read_slots quiet], assumption, rule after_or_return [where P = P, OF quiet], assumption)
    fix a u1 container
    assume c: "read_slots (recording port) (to_fuel opts) ''container''
       [(''pos'', json_position pos), (''total_slots'', JInt (to_total_slots opts))]
       (safe_slot_page_size (to_page_size opts)) u = (Inr a, u1)" "sent_inv [] u1" "a = Inr container"
    show "P (snd (tx_bind (read_slots (recording port) (to_fuel opts) ''inventory'' [] BODY_SLOT_PAGE_SIZE) (\<lambda>r. or_return r (\<lambda>inventory.
        tx_bind (tx_lift (plan_from (recording port) dir item wanted container inventory)) (\<lambda>plan.
        run_plan (recording port) pos plan (to_timeout_s opts)))) u1))"
    proof (rule after_bind [where P = P, OF c(2) keeps_read_slots quiet], assumption, rule after_or_return [where P = P, OF quiet], assumption)
      fix b u2 inventory
      assume i: "read_slots (recording port) (to_fuel opts) ''inventory'' [] BODY_SLOT_PAGE_SIZE u1 = (Inr b, u2)" "sent_inv [] u2" "b = Inr inventory"
      show "P (snd (tx_bind (tx_lift (plan_from (recording port) dir item wanted container inventory)) (\<lambda>plan.
        run_plan (recording port) pos plan (to_timeout_s opts)) u2))"
      proof (cases "plan_from (recording port) dir item wanted container inventory")
        case (Inl e)
        then show ?thesis using quiet [OF i(2)] by (simp add: tx_bind_def tx_lift_def)
      next
        case (Inr plan)
        have "cleared_transfer (recording port) pos item wanted dir opts s plan"
          unfolding cleared_transfer_def using u c i Inr by blast
        then show ?thesis using run_plan_within [OF ok _ i(2)] Inr by (simp add: P_def tx_bind_def tx_lift_def)
      qed
    qed
  qed
  then show ?thesis by (simp add: P_def)
qed

lemma transfer_item_within:
  fixes s :: "'w logged tx_state"
  assumes s: "sent_inv [] s"
  shows "sends_within_plan (recording port) pos item wanted dir_text opts s
    (sent_moves (tx_log (snd (transfer_item (recording port) pos item wanted dir_text opts s))))"
proof (cases "wanted \<le> 0 \<or> parse_direction dir_text = None")
  case True
  then have "snd (transfer_item (recording port) pos item wanted dir_text opts s) = s" by (auto simp: transfer_item_def)
  then show ?thesis using unsent_within_plan [OF s] by simp
next
  case False
  then obtain dir where ok: "0 < wanted" "parse_direction dir_text = Some dir" by auto
  define P where "P t \<longleftrightarrow> sends_within_plan (recording port) pos item wanted dir_text opts s (sent_moves (tx_log t))"
    for t :: "'w logged tx_state"
  have quiet: "P t" if "sent_inv [] t" for t using unsent_within_plan [OF that] by (simp add: P_def)
  let ?then = "\<lambda>t. if t \<notin> set DEFAULT_CONTAINER_TYPES
      then tx_return \<lparr>tr_success = False, tr_reason = ''container_wrong_type'', tr_can_retry = False,
             tr_next_suggestion = None,
             tr_metrics = Some [(''container_pos'', json_position pos), (''container_type'', JStr t)]\<rparr>
      else tx_bind (judge_container (to_governed opts) pos t) (\<lambda>denied.
      unless_failed denied (transfer_checked (recording port) pos item wanted dir opts))"
  have "P (snd (tx_bind (read_target_type (recording port) pos) (\<lambda>r. or_return r ?then) s))"
  proof (rule after_bind [where P = P, OF s keeps_read_target_type quiet], assumption, rule after_or_return [where P = P, OF quiet], assumption)
    fix a u t
    assume u: "read_target_type (recording port) pos s = (Inr a, u)" "sent_inv [] u" "a = Inr t"
    have policy: "tx_policy u = tx_policy s" using read_target_type_policy [of "recording port" pos s] u by simp
    show "P (snd (?then t u))"
      using quiet [OF u(2)] transfer_checked_within [OF ok u(2)] u policy
      by (auto simp: P_def tx_bind_def judge_container_def unless_failed_def guard_container_target_def Let_def tx_return_def
          split: option.split if_splits)
  qed
  then show ?thesis using ok by (simp add: P_def transfer_item_def)
qed

text \<open>
  C14. A transfer sends nothing, or it sends the first moves of the plan made from the container and
  the inventory that were just read, in the plan's order and with its slots, direction, item and
  counts, for a block that was read as a container and that the policy in force allows to open.
\<close>

theorem transfer_sends_only_its_plan:
  fixes s :: "'w logged tx_state"
  assumes start: "sent_moves (tx_log s) = []"
    and run: "transfer_item (recording port) pos item wanted dir_text opts s = (r, s')"
    and sent: "sent_moves (tx_log s') \<noteq> []"
  shows "\<exists>dir plan moves.
    0 < wanted \<and> parse_direction dir_text = Some dir \<and>
    cleared_transfer (recording port) pos item wanted dir opts s plan \<and>
    prefix moves (tp_moves plan) \<and> list_all2 (asks_for pos plan) moves (sent_moves (tx_log s'))"
  using transfer_item_within [of s port pos item wanted dir_text opts] start run sent
  unfolding sends_within_plan_def by (simp add: unsent.inv_def)

section \<open>Applications\<close>

text \<open>A chest with five blocks of dirt beside a body that carries sixty-two, at most two of which fit on the stack.\<close>

definition dirt_slot :: "int \<Rightarrow> int \<Rightarrow> inventory_slot" where
  "dirt_slot i n = \<lparr>is_slot = i, is_item = JStr ''dirt'', is_count = n, is_empty = False\<rparr>"

definition full_and_empty :: "inventory_slot list" where
  "full_and_empty = [dirt_slot 0 62, \<lparr>is_slot = 1, is_item = JNull, is_count = 0, is_empty = True\<rparr>]"

theorem plan_moves_exactly_what_fits_witness:
  "tp_planned_count (plan_transfer (\<lambda>_. []) To_Bot ''dirt'' 4 [dirt_slot 7 5] full_and_empty) = 4 \<and>
   tp_moves (plan_transfer (\<lambda>_. []) To_Bot ''dirt'' 4 [dirt_slot 7 5] full_and_empty) = [(7, 0, 2), (7, 1, 2)] \<and>
   moved_into 0 (tp_moves (plan_transfer (\<lambda>_. []) To_Bot ''dirt'' 4 [dirt_slot 7 5] full_and_empty)) \<le> 2"
proof -
  have "stock (holding_item (\<lambda>_. []) ''dirt'' (transfer_sources To_Bot [dirt_slot 7 5] full_and_empty)) = 5"
    "space (room (\<lambda>_. []) ''dirt'' (transfer_destinations To_Bot [dirt_slot 7 5] full_and_empty)) = 66"
    "distinct (map is_slot (transfer_destinations To_Bot [dirt_slot 7 5] full_and_empty))"
    "dirt_slot 0 62 \<in> set (transfer_destinations To_Bot [dirt_slot 7 5] full_and_empty)"
    "slot_room (\<lambda>_. []) ''dirt'' (dirt_slot 0 62) = 2" "is_slot (dirt_slot 0 62) = 0"
    "tp_moves (plan_transfer (\<lambda>_. []) To_Bot ''dirt'' 4 [dirt_slot 7 5] full_and_empty) = [(7, 0, 2), (7, 1, 2)]"
    by code_simp+
  then show ?thesis
    using plan_moves_exactly_what_fits [of 4 _ "\<lambda>_. []" To_Bot "''dirt''" "[dirt_slot 7 5]" full_and_empty, OF _ refl refl refl]
    by fastforce
qed

definition chest_port :: "demo_world body_port" where
  "chest_port = demo_port\<lparr>port_perceive := (\<lambda>scope params w.
     if scope = ''container''
     then (Inr (demo_answer scope [(''slots'', JList [JDict [(''slot'', JInt 7), (''item'', JStr ''dirt''), (''count'', JInt 5)]])]), w)
     else demo_perceive scope params w)\<rparr>"

definition chest_yard :: "demo_world logged tx_state" where
  "chest_yard = \<lparr>tx_world = (\<lparr>dw_cells = [((1, 0, 0), ''chest'', ''SOLID'')], dw_pos = (1/2, 0, 1/2),
     dw_items = [(''dirt'', 62)], dw_clock = 0, dw_next_id = 1\<rparr>, []), tx_policy = yard_policy\<rparr>"

definition one_transfer :: transfer_options where
  "one_transfer = \<lparr>to_total_slots = 27, to_page_size = 12, to_timeout_s = 2, to_fuel = 1, to_governed = True\<rparr>"

lemma chest_sent:
  "map (\<lambda>a. (dget (ac_params a) ''container_slot'', dget (ac_params a) ''bot_slot'', dget (ac_params a) ''count''))
     (sent_moves (tx_log (snd (transfer_item (recording chest_port) (1, 0, 0) ''dirt'' 4 ''container_to_bot'' one_transfer chest_yard)))) =
   [(JInt 7, JInt 0, JInt 2)]"
  by code_simp

theorem transfer_sends_only_its_plan_witness:
  "\<exists>dir plan moves.
    (0 :: int) < 4 \<and> parse_direction ''container_to_bot'' = Some dir \<and>
    cleared_transfer (recording chest_port) (1, 0, 0) ''dirt'' 4 dir one_transfer chest_yard plan \<and>
    prefix moves (tp_moves plan) \<and> moves \<noteq> [] \<and>
    list_all2 (asks_for (1, 0, 0) plan) moves
      (sent_moves (tx_log (snd (transfer_item (recording chest_port) (1, 0, 0) ''dirt'' 4 ''container_to_bot'' one_transfer chest_yard))))"
proof -
  obtain r s' where run: "transfer_item (recording chest_port) (1, 0, 0) ''dirt'' 4 ''container_to_bot'' one_transfer chest_yard = (r, s')"
    by (rule prod.exhaust)
  have start: "sent_moves (tx_log chest_yard) = []" by (simp add: chest_yard_def tx_log_def sent_moves_def)
  have sent: "sent_moves (tx_log s') \<noteq> []" using chest_sent run by auto
  obtain dir plan moves where m: "parse_direction ''container_to_bot'' = Some dir"
      "cleared_transfer (recording chest_port) (1, 0, 0) ''dirt'' 4 dir one_transfer chest_yard plan"
      "prefix moves (tp_moves plan)" "list_all2 (asks_for (1, 0, 0) plan) moves (sent_moves (tx_log s'))"
    using transfer_sends_only_its_plan [OF start run sent] by blast
  moreover have "moves \<noteq> []" using m(4) sent by auto
  ultimately show ?thesis unfolding run snd_conv by (intro exI [of _ dir] exI [of _ plan] exI [of _ moves]) simp
qed

text \<open>
  The plan takes every item to stack up to 64: a second pickaxe is planned onto the slot that holds the
  first one, although an empty slot is left. The Body refuses such a move, and the transfer fails.
\<close>

theorem plan_merges_unstackable_items:
  "tp_moves (plan_transfer (\<lambda>_. []) To_Bot ''iron_pickaxe'' 1
     [\<lparr>is_slot = 7, is_item = JStr ''iron_pickaxe'', is_count = 1, is_empty = False\<rparr>]
     [\<lparr>is_slot = 0, is_item = JStr ''iron_pickaxe'', is_count = 1, is_empty = False\<rparr>,
      \<lparr>is_slot = 1, is_item = JNull, is_count = 0, is_empty = True\<rparr>]) = [(7, 0, 1)]"
  by code_simp

end
