(* ===== verification/Compaction.thy ===== *)
theory Compaction
  imports Py_Values "HOL-Library.Sublist"
begin

text \<open>
  Compaction of the model input, \<open>minebot/app/context_compaction.py\<close>: when the estimated request
  reaches a threshold, the older part of the conversation is replaced once by a summary, and the view
  that is sent stays a stable prefix until the next compaction. The items of a conversation are JSON
  values; call ids are compared as values.
\<close>

section \<open>JSON text\<close>

definition hex_digit :: "nat \<Rightarrow> char" where
  "hex_digit n = char_of (if n < 10 then 48 + n else 87 + n)"

text \<open>A character in the text of \<open>json.dumps(..., ensure_ascii=False)\<close>.\<close>

definition char_text :: "char \<Rightarrow> string" where
  "char_text c =
     (let n = (of_char c :: nat); slash = CHR 0x5C
      in if n = 34 \<or> n = 92 then [slash, c]
         else if n = 10 then [slash, CHR ''n''] else if n = 13 then [slash, CHR ''r'']
         else if n = 9 then [slash, CHR ''t''] else if n = 8 then [slash, CHR ''b'']
         else if n = 12 then [slash, CHR ''f'']
         else if n < 32 then [slash, CHR ''u'', CHR ''0'', CHR ''0'', hex_digit (n div 16), hex_digit (n mod 16)]
         else [c])"

definition string_text :: "string \<Rightarrow> string" where
  "string_text s = CHR 0x22 # concat (map char_text s) @ [CHR 0x22]"

fun joined :: "string \<Rightarrow> string list \<Rightarrow> string" where
  "joined sep [] = []"
| "joined sep [x] = x"
| "joined sep (x # y # xs) = x @ sep @ joined sep (y # xs)"

text \<open>\<open>repr\<close> is the text of a finite float.\<close>

fun json_text :: "(rat \<Rightarrow> string) \<Rightarrow> json \<Rightarrow> string" where
  "json_text repr JNull = ''null''"
| "json_text repr (JBool b) = (if b then ''true'' else ''false'')"
| "json_text repr (JInt i) = str_of_int i"
| "json_text repr (JFloat (Fin q)) = repr q"
| "json_text repr (JFloat PosInf) = ''Infinity''"
| "json_text repr (JFloat NegInf) = ''-Infinity''"
| "json_text repr (JFloat NaN) = ''NaN''"
| "json_text repr (JStr s) = string_text s"
| "json_text repr (JList xs) = ''['' @ joined '', '' (map (json_text repr) xs) @ '']''"
| "json_text repr (JDict d) =
     ''{'' @ joined '', '' (map (\<lambda>kv. string_text (fst kv) @ '': '' @ json_text repr (snd kv)) d) @ ''}''"

section \<open>Items\<close>

definition DEFAULT_COMPACT_THRESHOLD_TOKENS :: int where "DEFAULT_COMPACT_THRESHOLD_TOKENS = 128000"
definition DEFAULT_TAIL_CHARS :: int where "DEFAULT_TAIL_CHARS = 24000"
definition CHARS_PER_TOKEN :: rat where "CHARS_PER_TOKEN = 3"
definition UNSEEN_STATIC_TOKENS :: int where "UNSEEN_STATIC_TOKENS = 16000"
definition TRANSCRIPT_FIELD_CHARS :: nat where "TRANSCRIPT_FIELD_CHARS = 4000"
definition MAX_ITEM_CHARS :: nat where "MAX_ITEM_CHARS = 32000"

definition SUMMARY_HEADER :: string where
  "SUMMARY_HEADER = ''CONVERSATION_SUMMARY (historical, not a new request):''"

definition HARNESS_FACT_PREFIX :: string where "HARNESS_FACT_PREFIX = ''HARNESS_FACT: ''"

definition chars :: "(rat \<Rightarrow> string) \<Rightarrow> json list \<Rightarrow> int" where
  "chars repr items = sum_list (map (\<lambda>i. int (length (json_text repr i))) items)"

fun field :: "json \<Rightarrow> string \<Rightarrow> json" where
  "field (JDict d) name = (case map_of d name of None \<Rightarrow> JNull | Some v \<Rightarrow> v)"
| "field _ name = JNull"

definition is_user :: "json \<Rightarrow> bool" where
  "is_user item \<longleftrightarrow> field item ''role'' = JStr ''user''"

definition is_summary :: "json \<Rightarrow> bool" where
  "is_summary item \<longleftrightarrow>
     is_user item \<and> (case field item ''content'' of JStr s \<Rightarrow> prefix SUMMARY_HEADER s | _ \<Rightarrow> False)"

definition is_type :: "string \<Rightarrow> json \<Rightarrow> bool" where
  "is_type t item \<longleftrightarrow> field item ''type'' = JStr t"

definition newline :: string where "newline = [char_of (10 :: nat)]"

fun shorten :: "json \<Rightarrow> json" where
  "shorten (JStr s) =
     (if length s > TRANSCRIPT_FIELD_CHARS
      then JStr (take TRANSCRIPT_FIELD_CHARS s @ ''...['' @ str_of_nat (length s - TRANSCRIPT_FIELD_CHARS) @ '' chars omitted]'')
      else JStr s)"
| "shorten (JDict d) = JDict (map (\<lambda>kv. (fst kv, shorten (snd kv))) (filter (\<lambda>kv. fst kv \<noteq> ''encrypted_content'') d))"
| "shorten (JList xs) = JList (map shorten xs)"
| "shorten v = v"

definition transcript :: "(rat \<Rightarrow> string) \<Rightarrow> json list \<Rightarrow> string" where
  "transcript repr items = json_text repr (JList (map shorten items))"

text \<open>An oversized text is cut to the limit and says how much is missing.\<close>

definition cut_text :: "nat \<Rightarrow> string \<Rightarrow> string" where
  "cut_text limit s =
     (if length s > limit
      then take limit s @ newline @ ''...['' @ str_of_nat (length s - limit) @
        '' characters omitted: this message was larger than one message may be. '' @
        ''Read the source again with a narrower request if the rest is needed.]''
      else s)"

fun cut :: "nat \<Rightarrow> json \<Rightarrow> json" where
  "cut limit (JStr s) = JStr (cut_text limit s)"
| "cut limit (JDict d) = JDict (map (\<lambda>kv. (fst kv, cut limit (snd kv))) d)"
| "cut limit (JList xs) = JList (map (cut limit) xs)"
| "cut limit v = v"

fun removed :: "nat \<Rightarrow> json \<Rightarrow> nat" where
  "removed limit (JStr s) = length s - limit"
| "removed limit (JDict d) = sum_list (map (\<lambda>kv. removed limit (snd kv)) d)"
| "removed limit (JList xs) = sum_list (map (removed limit) xs)"
| "removed limit v = 0"

definition bound_item :: "(rat \<Rightarrow> string) \<Rightarrow> json \<Rightarrow> int \<Rightarrow> json \<times> nat" where
  "bound_item repr item limit =
     (if limit \<le> 0 \<or> (case item of JDict _ \<Rightarrow> False | _ \<Rightarrow> True) \<or> chars repr [item] \<le> limit then (item, 0)
      else if removed (nat limit) item = 0 then (item, 0)
      else (cut (nat limit) item, removed (nat limit) item))"

section \<open>What the player said\<close>

fun contains :: "string \<Rightarrow> string \<Rightarrow> bool" where
  "contains [] sub \<longleftrightarrow> sub = []"
| "contains (c # cs) sub \<longleftrightarrow> prefix sub (c # cs) \<or> contains cs sub"

text \<open>\<open>split\<close> at every newline\<close>

fun lines_of :: "string \<Rightarrow> string list" where
  "lines_of [] = [[]]"
| "lines_of (c # cs) =
     (if [c] = newline then [] # lines_of cs
      else case lines_of cs of [] \<Rightarrow> [[c]] | l # ls \<Rightarrow> (c # l) # ls)"

definition spoken_text :: "string \<Rightarrow> string" where
  "spoken_text s = joined newline (filter (\<lambda>l. \<not> prefix HARNESS_FACT_PREFIX l) (lines_of s))"

definition player_part :: "json \<Rightarrow> json option" where
  "player_part item =
     (case field item ''content'' of
        JStr s \<Rightarrow>
          (if \<not> contains s HARNESS_FACT_PREFIX then Some item
           else if strip (spoken_text s) = [] then None
           else Some (case item of JDict d \<Rightarrow> JDict (AList.update ''content'' (JStr (spoken_text s)) d) | v \<Rightarrow> v))
      | _ \<Rightarrow> Some item)"

definition keep_message :: "json list \<Rightarrow> json \<Rightarrow> json list" where
  "keep_message kept item =
     (if \<not> is_user item \<or> is_summary item then kept
      else case player_part item of
        None \<Rightarrow> kept
      | Some said \<Rightarrow>
          if kept \<noteq> [] \<and> field (last kept) ''content'' = field said ''content'' then kept else kept @ [said])"

definition player_messages :: "json list \<Rightarrow> json list" where
  "player_messages items = foldl keep_message [] items"

section \<open>The compactor\<close>

datatype compaction_event =
    Dropped
  | Nothing_Older int
  | Little_To_Summarize int int
  | Started int int nat nat
  | Summary_Failed
  | Finished nat nat int int nat

record compactor =
  cc_threshold_tokens :: int
  cc_tail_chars :: int
  cc_min_gain_chars :: int
  cc_compaction :: "(string \<times> string) option"
  cc_last_view_chars :: "int option"
  cc_last_input_tokens :: "int option"
  cc_emitted :: "compaction_event list"

text \<open>
  What the host and the model provider compute: the text of floats, the fingerprint of an item, and
  the summary, which may raise.
\<close>

record compaction_env =
  ce_repr :: "rat \<Rightarrow> string"
  ce_fingerprint :: "json \<Rightarrow> string"
  ce_summarize :: "string \<Rightarrow> string \<Rightarrow> string option"

definition new_compactor :: "int \<Rightarrow> int \<Rightarrow> compactor" where
  "new_compactor threshold tail =
     (let t = max 0 threshold; k = max 1 tail
      in \<lparr>cc_threshold_tokens = t, cc_tail_chars = k, cc_min_gain_chars = min k (trunc (of_int t * CHARS_PER_TOKEN / 8)),
          cc_compaction = None, cc_last_view_chars = None, cc_last_input_tokens = None, cc_emitted = []\<rparr>)"

definition emit :: "compaction_event \<Rightarrow> compactor \<Rightarrow> compactor" where
  "emit e c = c\<lparr>cc_emitted := cc_emitted c @ [e]\<rparr>"

definition note_usage :: "compactor \<Rightarrow> int \<Rightarrow> compactor" where
  "note_usage c input_tokens =
     (if input_tokens > 0 \<and> cc_last_view_chars c \<noteq> None then c\<lparr>cc_last_input_tokens := Some input_tokens\<rparr> else c)"

definition estimate_tokens :: "compaction_env \<Rightarrow> compactor \<Rightarrow> json list \<Rightarrow> int \<Rightarrow> int \<Rightarrow> int" where
  "estimate_tokens env c view static_chars live_chars =
     (let n = chars (ce_repr env) view + live_chars
      in case (cc_last_input_tokens c, cc_last_view_chars c) of
        (Some tokens, Some seen) \<Rightarrow> max 0 (trunc (of_int tokens + of_int (n - seen) / CHARS_PER_TOKEN))
      | _ \<Rightarrow> trunc (of_int (n + static_chars) / CHARS_PER_TOKEN) + UNSEEN_STATIC_TOKENS)"

fun index_of :: "('a \<Rightarrow> bool) \<Rightarrow> 'a list \<Rightarrow> nat option" where
  "index_of P [] = None"
| "index_of P (x # xs) = (if P x then Some 0 else map_option Suc (index_of P xs))"

definition anchor_index :: "compaction_env \<Rightarrow> compactor \<Rightarrow> json list \<Rightarrow> nat option \<times> compactor" where
  "anchor_index env c items =
     (case cc_compaction c of
        None \<Rightarrow> (None, c)
      | Some (anchor, summary) \<Rightarrow>
          (case index_of (\<lambda>i. ce_fingerprint env i = anchor) items of
             Some i \<Rightarrow> (Some i, c)
           | None \<Rightarrow> (None, (emit Dropped c)\<lparr>cc_compaction := None, cc_last_input_tokens := None\<rparr>)))"

definition summary_item :: "string \<Rightarrow> json" where
  "summary_item summary = JDict [(''role'', JStr ''user''), (''content'', JStr (SUMMARY_HEADER @ newline @ summary))]"

definition render :: "compactor \<Rightarrow> json list \<Rightarrow> nat option \<Rightarrow> json list" where
  "render c items start =
     (case (start, cc_compaction c) of
        (Some i, Some (_, summary)) \<Rightarrow> player_messages (take i items) @ summary_item summary # drop i items
      | _ \<Rightarrow> items)"

section \<open>Where the tail starts\<close>

text \<open>Back from the end while the budget lasts, at least one item and never past the first.\<close>

fun tail_back :: "(rat \<Rightarrow> string) \<Rightarrow> json list \<Rightarrow> nat \<Rightarrow> int \<Rightarrow> nat \<Rightarrow> nat" where
  "tail_back repr items first budget 0 = 0"
| "tail_back repr items first budget (Suc i) =
     (if Suc i \<le> first + 1 then Suc i
      else (let size = chars repr [items ! i]
            in if size > budget \<and> Suc i < length items then Suc i
               else tail_back repr items first (budget - size) i))"

text \<open>The last call of every call id.\<close>

definition call_positions :: "json list \<Rightarrow> (json \<times> nat) list" where
  "call_positions items =
     map (\<lambda>(p, item). (field item ''call_id'', p)) (rev (filter (\<lambda>(p, item). is_type ''function_call'' item) (enumerate 0 items)))"

fun earlier_call :: "(json \<times> nat) list \<Rightarrow> nat \<Rightarrow> json list \<Rightarrow> nat" where
  "earlier_call calls index [] = index"
| "earlier_call calls index (item # items) =
     (case (if is_type ''function_call_output'' item then map_of calls (field item ''call_id'') else None) of
        Some call \<Rightarrow> if call < index then call else earlier_call calls index items
      | None \<Rightarrow> earlier_call calls index items)"

fun before_reasoning :: "json list \<Rightarrow> nat \<Rightarrow> nat \<Rightarrow> nat" where
  "before_reasoning items first 0 = 0"
| "before_reasoning items first (Suc i) =
     (if first < Suc i \<and> is_type ''reasoning'' (items ! i) then before_reasoning items first i else Suc i)"

lemma earlier_call_le: "earlier_call calls index items \<le> index"
  by (induction calls index items rule: earlier_call.induct) (auto split: option.split)

lemma before_reasoning_le: "before_reasoning items first i \<le> i"
  by (induction items first i rule: before_reasoning.induct) auto

definition pull_back :: "json list \<Rightarrow> nat \<Rightarrow> nat \<Rightarrow> nat" where
  "pull_back items first index =
     before_reasoning items first (earlier_call (call_positions items) index (drop index items))"

lemma pull_back_le: "pull_back items first index \<le> index"
  unfolding pull_back_def by (rule order_trans [OF before_reasoning_le earlier_call_le])

text \<open>Until nothing moves: no result without its call, and no reasoning left behind.\<close>

function settle_tail :: "json list \<Rightarrow> nat \<Rightarrow> nat \<Rightarrow> nat" where
  "settle_tail items first index =
     (if pull_back items first index = index then index
      else settle_tail items first (pull_back items first index))"
  by pat_completeness auto

termination
  by (relation "measure (\<lambda>(items, first, index). index)") (auto simp: le_neq_implies_less pull_back_le)

declare settle_tail.simps [simp del]

definition tail_start :: "compaction_env \<Rightarrow> compactor \<Rightarrow> json list \<Rightarrow> nat \<Rightarrow> nat option" where
  "tail_start env c items first =
     (let index = settle_tail items first (tail_back (ce_repr env) items first (cc_tail_chars c) (length items))
      in if index \<le> first \<or> length items \<le> index then None else Some index)"

section \<open>Compacting\<close>

definition omitted_note :: "string \<Rightarrow> nat \<Rightarrow> string" where
  "omitted_note previous n =
     (if previous = [] then [] else previous @ newline) @ ''['' @ str_of_nat n @
     '' older conversation items could not be summarized and are omitted. '' @
     ''Use the conversation archive tools if an older exact exchange is needed.]''"

definition bounded_summary :: "string \<Rightarrow> string" where
  "bounded_summary s =
     (if length s > MAX_ITEM_CHARS
      then take MAX_ITEM_CHARS s @ newline @ ''['' @ str_of_nat (length s - MAX_ITEM_CHARS) @
        '' further characters of this summary omitted]''
      else s)"

definition summarized :: "compaction_env \<Rightarrow> string \<Rightarrow> json list \<Rightarrow> string \<times> compaction_event list" where
  "summarized env previous older =
     (case ce_summarize env previous (transcript (ce_repr env) older) of
        None \<Rightarrow> (bounded_summary (omitted_note previous (length older)), [Summary_Failed])
      | Some text' \<Rightarrow>
          (bounded_summary (if strip text' = [] then omitted_note previous (length older) else strip text'), []))"

definition compact :: "compaction_env \<Rightarrow> compactor \<Rightarrow> json list \<Rightarrow> nat option \<Rightarrow> int \<Rightarrow> json list option \<times> compactor" where
  "compact env c items start estimate =
     (let first = (case start of None \<Rightarrow> 0 | Some i \<Rightarrow> i)
      in case tail_start env c items first of
        None \<Rightarrow> (None, emit (Nothing_Older estimate) c)
      | Some t \<Rightarrow>
          (let older = drop first (take t items)
           in if chars (ce_repr env) older < cc_min_gain_chars c
              then (None, emit (Little_To_Summarize estimate (chars (ce_repr env) older)) c)
              else (let previous = (case cc_compaction c of None \<Rightarrow> [] | Some (_, s) \<Rightarrow> s);
                        (summary, failed) = summarized env previous older;
                        c1 = c\<lparr>cc_compaction := Some (ce_fingerprint env (items ! t), summary),
                               cc_emitted := cc_emitted c @
                                 [Started estimate (cc_threshold_tokens c) (length older) (length items - t)] @ failed\<rparr>;
                        view = render c1 items (Some t)
                    in (Some view, emit (Finished (length items) (length view) estimate (chars (ce_repr env) view) (length summary)) c1))))"

definition view_of :: "compaction_env \<Rightarrow> compactor \<Rightarrow> json list \<Rightarrow> int \<Rightarrow> int \<Rightarrow> json list \<times> compactor" where
  "view_of env c items static_chars live_chars =
     (let (start, c1) = anchor_index env c items;
          view = render c1 items start;
          estimate = estimate_tokens env c1 view static_chars live_chars;
          over = cc_threshold_tokens c1 \<noteq> 0 \<and> cc_threshold_tokens c1 \<le> estimate;
          (compacted, c2) = (if over then compact env c1 items start estimate else (None, c1));
          sent = (case compacted of None \<Rightarrow> view | Some v \<Rightarrow> v);
          c3 = c2\<lparr>cc_last_view_chars := Some (chars (ce_repr env) sent + live_chars)\<rparr>
      in (sent, if over then c3\<lparr>cc_last_input_tokens := None\<rparr> else c3))"

end
