(* ===== verification/Compaction_Stability.thy ===== *)
theory Compaction_Stability
  imports Compaction
begin

text \<open>
  What a compaction of the conversation keeps, for \<open>minebot/app/context_compaction.py\<close>: no tool
  result without its call, every word of the player, and the prefix of the request from one view to
  the next.
\<close>

section \<open>The tail\<close>

lemma earlier_call_fixed:
  "earlier_call calls index items = index \<Longrightarrow> item \<in> set items \<Longrightarrow> is_type ''function_call_output'' item \<Longrightarrow>
     map_of calls (field item ''call_id'') = Some call \<Longrightarrow> index \<le> call"
proof (induction calls index items rule: earlier_call.induct)
  case (2 calls index x items)
  show ?case
  proof (cases "if is_type ''function_call_output'' x then map_of calls (field x ''call_id'') else None")
    case None
    then show ?thesis using 2 by (auto split: if_splits)
  next
    case (Some c)
    then have "\<not> c < index" using "2.prems"(1) by auto
    then show ?thesis using 2 Some by (auto split: if_splits)
  qed
qed simp

lemma before_reasoning_fixed:
  "before_reasoning items first i = i \<Longrightarrow> first < i \<Longrightarrow> \<not> is_type ''reasoning'' (items ! (i - 1))"
  using before_reasoning_le [of items first "i - 1"] by (cases i) (auto split: if_splits)

lemma settle_tail_fixed: "pull_back items first (settle_tail items first index) = settle_tail items first index"
proof (induction items first index rule: settle_tail.induct)
  case (1 items first index)
  then show ?case by (simp add: settle_tail.simps [of items first index])
qed

lemma call_positions_sound:
  "map_of (call_positions items) i = Some p \<Longrightarrow>
     p < length items \<and> is_type ''function_call'' (items ! p) \<and> field (items ! p) ''call_id'' = i"
  by (drule map_of_SomeD) (auto simp: call_positions_def in_set_enumerate_eq)

lemma call_positions_complete:
  assumes "k < length items" and "is_type ''function_call'' (items ! k)"
  shows "\<exists>p. map_of (call_positions items) (field (items ! k) ''call_id'') = Some p"
proof -
  have "(field (items ! k) ''call_id'', k) \<in> set (call_positions items)"
    using assms by (force simp: call_positions_def in_set_enumerate_eq)
  then show ?thesis by (metis map_of_eq_None_iff image_eqI fst_conv not_None_eq)
qed

text \<open>A position from which a conversation can be continued: nothing after it lacks what it answers.\<close>

definition whole_tail :: "json list \<Rightarrow> nat \<Rightarrow> bool" where
  "whole_tail items i \<longleftrightarrow>
     \<not> is_type ''reasoning'' (items ! (i - 1)) \<and>
     (\<forall>j k. i \<le> j \<longrightarrow> j < length items \<longrightarrow> is_type ''function_call_output'' (items ! j) \<longrightarrow>
        k < length items \<longrightarrow> is_type ''function_call'' (items ! k) \<longrightarrow>
        field (items ! k) ''call_id'' = field (items ! j) ''call_id'' \<longrightarrow>
        (\<exists>p. i \<le> p \<and> p < length items \<and> is_type ''function_call'' (items ! p) \<and>
           field (items ! p) ''call_id'' = field (items ! j) ''call_id''))"

lemma tail_start_whole:
  assumes "tail_start env c items first = Some i"
  shows "first < i \<and> i < length items \<and> whole_tail items i"
proof -
  have i: "first < i" "i < length items" and fixed: "pull_back items first i = i"
    using assms settle_tail_fixed by (auto simp: tail_start_def Let_def split: if_splits)
  let ?e = "earlier_call (call_positions items) i (drop i items)"
  have e: "?e = i"
    using fixed before_reasoning_le [of items first ?e] earlier_call_le [of "call_positions items" i "drop i items"]
    by (simp add: pull_back_def)
  have "before_reasoning items first i = i" using fixed unfolding pull_back_def e .
  then have reasoning: "\<not> is_type ''reasoning'' (items ! (i - 1))" using i(1) by (rule before_reasoning_fixed)
  have "\<exists>p. i \<le> p \<and> p < length items \<and> is_type ''function_call'' (items ! p) \<and>
           field (items ! p) ''call_id'' = field (items ! j) ''call_id''"
    if j: "i \<le> j" "j < length items" "is_type ''function_call_output'' (items ! j)"
      and k: "k < length items" "is_type ''function_call'' (items ! k)"
        "field (items ! k) ''call_id'' = field (items ! j) ''call_id''" for j k
  proof -
    obtain p where p: "map_of (call_positions items) (field (items ! j) ''call_id'') = Some p"
      using call_positions_complete [OF k(1,2)] k(3) by auto
    have "items ! j \<in> set (drop i items)" 
      using j by (auto simp: in_set_conv_nth intro!: exI [of _ "j - i"])
    then have "i \<le> p" using earlier_call_fixed [OF e _ j(3) p] by blast
    then show ?thesis using call_positions_sound [OF p] by blast
  qed
  then show ?thesis using i reasoning by (auto simp: whole_tail_def)
qed

section \<open>The player's words\<close>

lemma keep_message_grows: "set kept \<subseteq> set (keep_message kept item)"
  by (auto simp: keep_message_def split: option.split)

lemma keep_messages_grow: "set kept \<subseteq> set (foldl keep_message kept items)"
  by (induction items arbitrary: kept) (use keep_message_grows in fastforce)+

lemma keep_message_keeps:
  "is_user item \<Longrightarrow> \<not> is_summary item \<Longrightarrow> player_part item = Some said \<Longrightarrow>
     \<exists>q\<in>set (keep_message kept item). field q ''content'' = field said ''content''"
  by (auto simp: keep_message_def intro: last_in_set)

lemma player_messages_keep:
  assumes "item \<in> set items" and "is_user item" and "\<not> is_summary item" and "player_part item = Some said"
  shows "\<exists>q\<in>set (player_messages items). field q ''content'' = field said ''content''"
proof -
  have "\<exists>q\<in>set (foldl keep_message kept items). field q ''content'' = field said ''content''" for kept
    using assms(1)
  proof (induction items arbitrary: kept)
    case (Cons x items)
    show ?case
    proof (cases "x = item")
      case True
      obtain q where "q \<in> set (keep_message kept x)" "field q ''content'' = field said ''content''"
        using keep_message_keeps [OF assms(2-4)] unfolding True by blast
      then show ?thesis using keep_messages_grow [of "keep_message kept x" items] by auto
    next
      case False
      then show ?thesis using Cons by simp
    qed
  qed simp
  then show ?thesis by (simp add: player_messages_def)
qed

section \<open>The shape of a view\<close>

lemma compact_result:
  assumes "compact env c items start estimate = (r, c')"
  shows "(r = None \<and> cc_compaction c' = cc_compaction c) \<or>
    (\<exists>t s. tail_start env c items (case start of None \<Rightarrow> 0 | Some i \<Rightarrow> i) = Some t \<and>
       cc_compaction c' = Some (ce_fingerprint env (items ! t), s) \<and>
       r = Some (player_messages (take t items) @ summary_item s # drop t items))"
  using assms
  by (auto simp: compact_def Let_def emit_def render_def split: option.splits prod.splits if_splits)

lemma view_of_result:
  assumes "view_of env c items static_chars live_chars = (v, c')"
  obtains start c1 where "anchor_index env c items = (start, c1)"
    and "(v = render c1 items start \<and> cc_compaction c' = cc_compaction c1) \<or>
      (\<exists>t s. tail_start env c1 items (case start of None \<Rightarrow> 0 | Some i \<Rightarrow> i) = Some t \<and>
         cc_compaction c' = Some (ce_fingerprint env (items ! t), s) \<and>
         v = player_messages (take t items) @ summary_item s # drop t items)"
proof -
  obtain start c1 where a: "anchor_index env c items = (start, c1)" by (rule prod.exhaust)
  define estimate where "estimate = estimate_tokens env c1 (render c1 items start) static_chars live_chars"
  define over where "over \<longleftrightarrow> cc_threshold_tokens c1 \<noteq> 0 \<and> cc_threshold_tokens c1 \<le> estimate"
  obtain r c2 where r: "(if over then compact env c1 items start estimate else (None, c1)) = (r, c2)" by (rule prod.exhaust)
  have v: "v = (case r of None \<Rightarrow> render c1 items start | Some v \<Rightarrow> v)" "cc_compaction c' = cc_compaction c2"
    using assms a r by (auto simp: view_of_def Let_def estimate_def over_def split: if_splits)
  show ?thesis
  proof (rule that [OF a])
    show "(v = render c1 items start \<and> cc_compaction c' = cc_compaction c1) \<or>
      (\<exists>t s. tail_start env c1 items (case start of None \<Rightarrow> 0 | Some i \<Rightarrow> i) = Some t \<and>
         cc_compaction c' = Some (ce_fingerprint env (items ! t), s) \<and>
         v = player_messages (take t items) @ summary_item s # drop t items)"
    proof (cases over)
      case True
      then have "compact env c1 items start estimate = (r, c2)" using r by simp
      from compact_result [OF this] show ?thesis using v by auto
    next
      case False
      then show ?thesis using r v by auto
    qed
  qed
qed

lemma index_of_Some: "index_of P xs = Some i \<Longrightarrow> i < length xs \<and> P (xs ! i)"
  by (induction xs arbitrary: i) (auto split: if_splits)

lemma index_of_append: "index_of P xs = Some i \<Longrightarrow> index_of P (xs @ ys) = Some i"
  by (induction xs arbitrary: i) (auto split: if_splits)

lemma index_of_distinct:
  "distinct (map f xs) \<Longrightarrow> i < length xs \<Longrightarrow> index_of (\<lambda>x. f x = f (xs ! i)) xs = Some i"
proof (induction xs arbitrary: i)
  case (Cons x xs)
  show ?case
  proof (cases i)
    case (Suc k)
    then have "f x \<noteq> f (xs ! k)" using Cons.prems by (metis distinct.simps(2) list.simps(9) length_Cons Suc_less_eq nth_mem image_eqI set_map)
    then show ?thesis using Cons Suc by simp
  qed simp
qed simp

lemma anchor_index_cases:
  assumes "anchor_index env c items = (start, c1)"
  shows "(start = None \<and> cc_compaction c1 = None) \<or>
    (\<exists>i a s. start = Some i \<and> c1 = c \<and> cc_compaction c = Some (a, s) \<and>
       index_of (\<lambda>x. ce_fingerprint env x = a) items = Some i)"
proof (cases "cc_compaction c")
  case (Some x)
  then show ?thesis
    using assms by (cases x, cases "index_of (\<lambda>i. ce_fingerprint env i = fst x) items") (auto simp: anchor_index_def intro: sym)
qed (use assms in \<open>simp add: anchor_index_def\<close>)

text \<open>Where the boundary of a compactor is in a conversation, and the view behind it.\<close>

definition shown_from :: "compaction_env \<Rightarrow> compactor \<Rightarrow> json list \<Rightarrow> json list \<Rightarrow> bool" where
  "shown_from env c items v \<longleftrightarrow>
     (cc_compaction c = None \<and> v = items) \<or>
     (\<exists>a s i. cc_compaction c = Some (a, s) \<and> index_of (\<lambda>x. ce_fingerprint env x = a) items = Some i \<and>
        v = player_messages (take i items) @ summary_item s # drop i items)"

lemma view_of_shown:
  assumes run: "view_of env c items static_chars live_chars = (v, c')" and fresh: "distinct (map (ce_fingerprint env) items)"
  shows "shown_from env c' items v"
proof -
  obtain start c1 where a: "anchor_index env c items = (start, c1)"
    and r: "(v = render c1 items start \<and> cc_compaction c' = cc_compaction c1) \<or>
      (\<exists>t s. tail_start env c1 items (case start of None \<Rightarrow> 0 | Some i \<Rightarrow> i) = Some t \<and>
         cc_compaction c' = Some (ce_fingerprint env (items ! t), s) \<and>
         v = player_messages (take t items) @ summary_item s # drop t items)"
    by (rule view_of_result [OF run])
  from r show ?thesis
  proof (elim disjE conjE exE)
    assume "v = render c1 items start" "cc_compaction c' = cc_compaction c1"
    then show ?thesis using anchor_index_cases [OF a] by (auto simp: shown_from_def render_def)
  next
    fix t s
    assume t: "tail_start env c1 items (case start of None \<Rightarrow> 0 | Some i \<Rightarrow> i) = Some t"
      and c': "cc_compaction c' = Some (ce_fingerprint env (items ! t), s)"
      and v: "v = player_messages (take t items) @ summary_item s # drop t items"
    have "index_of (\<lambda>x. ce_fingerprint env x = ce_fingerprint env (items ! t)) items = Some t"
      using index_of_distinct [OF fresh] tail_start_whole [OF t] by blast
    then show ?thesis using c' v by (auto simp: shown_from_def)
  qed
qed

text \<open>
  C34. What a compaction leaves out: the new view is the player's messages of the older part, one
  summary and the rest of the conversation, where the rest starts after what was summarized before,
  is not empty, does not cut a reasoning item from what follows it, and never holds a tool result
  whose call is left behind.
\<close>

theorem compaction_never_splits_a_call:
  assumes "compact env c items start estimate = (Some v, c')"
  shows "\<exists>t summary. v = player_messages (take t items) @ summary_item summary # drop t items \<and>
    (case start of None \<Rightarrow> 0 | Some i \<Rightarrow> i) < t \<and> t < length items \<and> whole_tail items t"
proof -
  obtain t s where t: "tail_start env c items (case start of None \<Rightarrow> 0 | Some i \<Rightarrow> i) = Some t"
    and v: "v = player_messages (take t items) @ summary_item s # drop t items"
    using compact_result [OF assms] by auto
  show ?thesis using tail_start_whole [OF t] v by blast
qed

text \<open>
  C35. Whatever a view leaves out, everything the player said is in it: every message of the player
  that is no summary and no mere harness fact is sent as it is, or its words are.
\<close>

theorem view_keeps_what_the_player_said:
  assumes run: "view_of env c items static_chars live_chars = (v, c')"
    and item: "item \<in> set items" "is_user item" "\<not> is_summary item" "player_part item = Some said"
  shows "\<exists>q\<in>set v. q = item \<or> field q ''content'' = field said ''content''"
proof -
  have cut: ?thesis if "v = player_messages (take t items) @ summary_item s # drop t items" for t s
  proof (cases "item \<in> set (drop t items)")
    case False
    then have "item \<in> set (take t items)" using item(1) by (metis Un_iff append_take_drop_id set_append)
    then show ?thesis using player_messages_keep [OF _ item(2-4)] that by fastforce
  qed (use that in auto)
  obtain start c1 where "(v = render c1 items start \<and> cc_compaction c' = cc_compaction c1) \<or>
      (\<exists>t s. tail_start env c1 items (case start of None \<Rightarrow> 0 | Some i \<Rightarrow> i) = Some t \<and>
         cc_compaction c' = Some (ce_fingerprint env (items ! t), s) \<and>
         v = player_messages (take t items) @ summary_item s # drop t items)"
    by (rule view_of_result [OF run])
  then show ?thesis
  proof (elim disjE conjE exE)
    assume "v = render c1 items start"
    then show ?thesis using cut item(1) by (auto simp: render_def split: option.splits)
  qed (rule cut)
qed

text \<open>
  C36. The view is a stable prefix: when the conversation grows and no compaction takes place, the next
  view is the last one followed by the new items, whatever happened before and whatever usage was reported
  in between, provided that no two
  items have the same fingerprint.
\<close>

theorem view_extends_the_last_view:
  assumes first: "view_of env c items static_chars live_chars = (v, c1)"
    and second: "view_of env (note_usage c1 tokens) (items @ rest) static_chars' live_chars' = (v', c2)"
    and same: "cc_compaction c2 = cc_compaction c1"
    and fresh: "distinct (map (ce_fingerprint env) (items @ rest))"
  shows "v' = v @ rest"
proof -
  have shown: "shown_from env c1 items v" by (rule view_of_shown [OF first]) (use fresh in simp)
  have again: "shown_from env c2 (items @ rest) v'" by (rule view_of_shown [OF second fresh])
  show ?thesis
  proof (cases "cc_compaction c1")
    case None
    then show ?thesis using shown again same by (simp add: shown_from_def)
  next
    case (Some x)
    obtain a s where x: "cc_compaction c1 = Some (a, s)" using Some by (cases x) auto
    obtain i where i: "index_of (\<lambda>x. ce_fingerprint env x = a) items = Some i"
      and v: "v = player_messages (take i items) @ summary_item s # drop i items"
      using shown x by (auto simp: shown_from_def)
    have "v' = player_messages (take i (items @ rest)) @ summary_item s # drop i (items @ rest)"
      using again same x index_of_append [OF i] by (auto simp: shown_from_def)
    then show ?thesis using v index_of_Some [OF i] by simp
  qed
qed

section \<open>Applications\<close>

definition player_said :: "string \<Rightarrow> json" where
  "player_said s = JDict [(''role'', JStr ''user''), (''content'', JStr s)]"

definition called :: "string \<Rightarrow> json" where
  "called i = JDict [(''type'', JStr ''function_call''), (''call_id'', JStr i)]"

definition answered :: "string \<Rightarrow> json" where
  "answered i = JDict [(''type'', JStr ''function_call_output''), (''call_id'', JStr i)]"

definition sample_fingerprint :: "json \<Rightarrow> string" where
  "sample_fingerprint item =
     (case field item ''content'' of
        JStr s \<Rightarrow> CHR ''m'' # s
      | _ \<Rightarrow> (if is_type ''function_call'' item then CHR ''c'' else CHR ''r'') #
             (case field item ''call_id'' of JStr s \<Rightarrow> s | _ \<Rightarrow> []))"

definition sample_env :: compaction_env where
  "sample_env = \<lparr>ce_repr = (\<lambda>_. []), ce_fingerprint = sample_fingerprint, ce_summarize = (\<lambda>_ _. Some ''dug a shaft'')\<rparr>"

definition sample_items :: "json list" where
  "sample_items = [player_said ''dig down'', called ''1'', answered ''1'', called ''2'', answered ''2'']"

lemma sample_compaction:
  "fst (compact sample_env (new_compactor 16000 1) sample_items None 16000) =
     Some [player_said ''dig down'', summary_item ''dug a shaft'', called ''2'', answered ''2'']"
  by code_simp

theorem compaction_never_splits_a_call_witness:
  "\<exists>t summary. [player_said ''dig down'', summary_item ''dug a shaft'', called ''2'', answered ''2''] =
      player_messages (take t sample_items) @ summary_item summary # drop t sample_items \<and>
    (0 :: nat) < t \<and> t < length sample_items \<and> whole_tail sample_items t"
proof -
  obtain c' where "compact sample_env (new_compactor 16000 1) sample_items None 16000 =
      (Some [player_said ''dig down'', summary_item ''dug a shaft'', called ''2'', answered ''2''], c')"
    using sample_compaction by (metis prod.collapse)
  from compaction_never_splits_a_call [OF this] show ?thesis by simp
qed

definition sample_view :: "json list \<times> compactor" where
  "sample_view = view_of sample_env (new_compactor 16000 1) sample_items 0 0"

lemma sample_view_eval:
  "fst sample_view = [player_said ''dig down'', summary_item ''dug a shaft'', called ''2'', answered ''2'']"
  by code_simp

theorem view_keeps_what_the_player_said_witness:
  "\<exists>q\<in>set (fst sample_view). q = player_said ''dig down'' \<or> field q ''content'' = field (player_said ''dig down'') ''content''"
proof (rule view_keeps_what_the_player_said [where item = "player_said ''dig down''"])
  show "view_of sample_env (new_compactor 16000 1) sample_items 0 0 = (fst sample_view, snd sample_view)"
    by (simp add: sample_view_def)
qed (code_simp)+

definition next_view :: "json list \<times> compactor" where
  "next_view = view_of sample_env (note_usage (snd sample_view) 100) (sample_items @ [player_said ''stop'']) 0 0"

text \<open>
  An item that came before is found first: after the compaction the boundary is looked up by its
  fingerprint, and a message that repeats an earlier one moves it back to the first of them. The next
  view of the same conversation then shows again what was summarized.
\<close>

lemma repeated_item_moves_the_boundary:
  "let items = [player_said ''go on'', called ''1'', answered ''1'', player_said ''go on''];
       (v, c) = view_of sample_env (new_compactor 16000 1) items 0 0;
       (v', c') = view_of sample_env (note_usage c 100) items 0 0
   in v = [player_said ''go on'', summary_item ''dug a shaft'', player_said ''go on''] \<and>
      v' = [summary_item ''dug a shaft'', player_said ''go on'', called ''1'', answered ''1'', player_said ''go on'']"
  by code_simp

lemma sample_state:
  "snd sample_view = \<lparr>cc_threshold_tokens = 16000, cc_tail_chars = 1, cc_min_gain_chars = 1,
     cc_compaction = Some (''c2'', ''dug a shaft''), cc_last_view_chars = Some 225, cc_last_input_tokens = None,
     cc_emitted = [Started 16072 16000 3 2, Finished 5 4 16072 225 11]\<rparr>"
  by code_simp

lemma view_of_quiet:
  "anchor_index env c items = (start, c1) \<Longrightarrow>
     estimate_tokens env c1 (render c1 items start) static_chars live_chars < cc_threshold_tokens c1 \<Longrightarrow>
     cc_compaction (snd (view_of env c items static_chars live_chars)) = cc_compaction c1"
  by (simp add: view_of_def Let_def)

lemma sample_fresh: "distinct (map (ce_fingerprint sample_env) (sample_items @ [player_said ''stop'']))"
  by code_simp

lemma next_boundary: "cc_compaction (snd next_view) = cc_compaction (snd sample_view)"
proof -
  let ?c = "note_usage (snd sample_view) 100"
  have c: "?c = (snd sample_view)\<lparr>cc_last_input_tokens := Some 100\<rparr>" by (simp add: note_usage_def sample_state)
  have "anchor_index sample_env ?c (sample_items @ [player_said ''stop'']) = (Some 3, ?c)"
    unfolding c sample_state by code_simp
  moreover have "estimate_tokens sample_env ?c (render ?c (sample_items @ [player_said ''stop'']) (Some 3)) 0 0 < cc_threshold_tokens ?c"
    unfolding c sample_state by code_simp
  ultimately have "cc_compaction (snd next_view) = cc_compaction ?c" unfolding next_view_def by (rule view_of_quiet)
  then show ?thesis by (simp add: c)
qed

theorem view_extends_the_last_view_witness:
  "fst next_view = [player_said ''dig down'', summary_item ''dug a shaft'', called ''2'', answered ''2'', player_said ''stop'']"
proof -
  have "fst next_view = fst sample_view @ [player_said ''stop'']"
  proof (rule view_extends_the_last_view)
    show "view_of sample_env (new_compactor 16000 1) sample_items 0 0 = (fst sample_view, snd sample_view)"
      by (simp add: sample_view_def)
    show "view_of sample_env (note_usage (snd sample_view) 100) (sample_items @ [player_said ''stop'']) 0 0 = (fst next_view, snd next_view)"
      by (simp add: next_view_def)
  qed (rule next_boundary sample_fresh)+
  then show ?thesis by (simp add: sample_view_eval)
qed

end
