(* ===== verification/Principals.thy ===== *)
theory Principals
  imports Progress_Recovery
begin

text \<open>
  Who may command the agent: \<open>minebot/app/principals.py\<close>. Principals with their trust tiers, the
  admission matrix, the registry, and its two stores: the dictionary of \<open>InMemoryPrincipalStore\<close>,
  and the table of \<open>SqlitePrincipalStore\<close> with one text column per field and the granted names as
  JSON text. The registry's operations take the operations of their store as an argument. The lock
  and the connection of the durable store are not modelled (each operation is one atomic step).
\<close>

section \<open>Principals\<close>

datatype trust_tier = OWNER | FRIEND | STRANGER
datatype principal_kind = PLAYER | OPERATOR | SYSTEM
datatype admission_capability = CONVERSE | START_WORK | CONTROL_WORK | CONTROL_PROCESS

fun trust_value :: "trust_tier \<Rightarrow> string" where
  "trust_value OWNER = ''owner''"
| "trust_value FRIEND = ''friend''"
| "trust_value STRANGER = ''stranger''"

definition parse_trust :: "string \<Rightarrow> py_exn + trust_tier" where
  "parse_trust s = (case find (\<lambda>t. trust_value t = s) [OWNER, FRIEND, STRANGER] of
     None \<Rightarrow> Inl ValueError | Some t \<Rightarrow> Inr t)"

fun principal_kind_value :: "principal_kind \<Rightarrow> string" where
  "principal_kind_value PLAYER = ''player''"
| "principal_kind_value OPERATOR = ''operator''"
| "principal_kind_value SYSTEM = ''system''"

definition parse_principal_kind :: "string \<Rightarrow> py_exn + principal_kind" where
  "parse_principal_kind s = (case find (\<lambda>k. principal_kind_value k = s) [PLAYER, OPERATOR, SYSTEM] of
     None \<Rightarrow> Inl ValueError | Some k \<Rightarrow> Inr k)"

fun capability_value :: "admission_capability \<Rightarrow> string" where
  "capability_value CONVERSE = ''converse''"
| "capability_value START_WORK = ''start_work''"
| "capability_value CONTROL_WORK = ''control_work''"
| "capability_value CONTROL_PROCESS = ''control_process''"

definition OPERATOR_PRINCIPAL_ID :: string where
  "OPERATOR_PRINCIPAL_ID = ''@operator''"

record principal_record =
  pr_principal_id :: string
  pr_kind :: principal_kind
  pr_trust :: trust_tier
  pr_granted :: "string list"
  pr_first_seen :: string
  pr_last_seen :: string
  pr_notes :: string

definition new_principal :: "string \<Rightarrow> principal_kind \<Rightarrow> trust_tier \<Rightarrow> principal_record" where
  "new_principal name kind trust = \<lparr>pr_principal_id = name, pr_kind = kind, pr_trust = trust, pr_granted = [],
     pr_first_seen = [], pr_last_seen = [], pr_notes = []\<rparr>"

record admission_decision =
  ad_allowed :: bool
  ad_capability :: admission_capability
  ad_principal :: principal_record
  ad_reason :: string

section \<open>The admission matrix\<close>

datatype matrix_entry = Admitted | Refused | OWN_WORK_ONLY

fun admission_matrix :: "trust_tier \<Rightarrow> admission_capability \<Rightarrow> matrix_entry" where
  "admission_matrix OWNER _ = Admitted"
| "admission_matrix FRIEND CONVERSE = Admitted"
| "admission_matrix FRIEND START_WORK = Admitted"
| "admission_matrix FRIEND CONTROL_WORK = OWN_WORK_ONLY"
| "admission_matrix FRIEND CONTROL_PROCESS = Refused"
| "admission_matrix STRANGER CONVERSE = Admitted"
| "admission_matrix STRANGER START_WORK = Refused"
| "admission_matrix STRANGER CONTROL_WORK = Refused"
| "admission_matrix STRANGER CONTROL_PROCESS = Refused"

section \<open>The registry\<close>

record 's principal_store =
  ps_get :: "string \<Rightarrow> 's \<Rightarrow> py_exn + principal_record option"
  ps_put :: "principal_record \<Rightarrow> 's \<Rightarrow> 's"

record principal_registry =
  rg_owners :: "string set"
  rg_friends :: "string set"
  rg_default_trust :: trust_tier

definition open_registry :: principal_registry where
  "open_registry = \<lparr>rg_owners = {}, rg_friends = {}, rg_default_trust = STRANGER\<rparr>"

definition enforcing :: "principal_registry \<Rightarrow> bool" where
  "enforcing r \<longleftrightarrow> rg_owners r \<noteq> {}"

definition configured_trust :: "principal_registry \<Rightarrow> string \<Rightarrow> trust_tier" where
  "configured_trust r name =
     (if name \<in> rg_owners r then OWNER else if name \<in> rg_friends r then FRIEND else rg_default_trust r)"

definition sender_name :: "string option \<Rightarrow> string" where
  "sender_name sender = strip (case sender of None \<Rightarrow> [] | Some s \<Rightarrow> s)"

definition resolve_principal ::
  "'s principal_store \<Rightarrow> principal_registry \<Rightarrow> string option \<Rightarrow> 's \<Rightarrow> (py_exn + principal_record) \<times> 's" where
  "resolve_principal st r sender s =
     (let name = sender_name sender
      in if name = [] then (Inr (new_principal OPERATOR_PRINCIPAL_ID OPERATOR OWNER), s)
         else (case ps_get st name s of
             Inl e \<Rightarrow> (Inl e, s)
           | Inr (Some existing) \<Rightarrow> (Inr existing, s)
           | Inr None \<Rightarrow>
               (let record = new_principal name PLAYER (configured_trust r name)
                in (Inr record, ps_put st record s))))"

definition promote ::
  "'s principal_store \<Rightarrow> principal_registry \<Rightarrow> string \<Rightarrow> trust_tier \<Rightarrow> 's \<Rightarrow> (py_exn + principal_record) \<times> 's" where
  "promote st r principal_id trust s =
     (case resolve_principal st r (Some principal_id) s of
        (Inl e, s1) \<Rightarrow> (Inl e, s1)
      | (Inr record, s1) \<Rightarrow>
          (let updated = record\<lparr>pr_trust := trust\<rparr> in (Inr updated, ps_put st updated s1)))"

definition decide :: "principal_registry \<Rightarrow> admission_capability \<Rightarrow> string option \<Rightarrow> principal_record \<Rightarrow> admission_decision" where
  "decide r capability work_owner_id p =
     (let answer = (\<lambda>allowed reason. \<lparr>ad_allowed = allowed, ad_capability = capability,
            ad_principal = p, ad_reason = reason\<rparr>)
      in if \<not> enforcing r then answer True ''admission_open''
         else (case admission_matrix (pr_trust p) capability of
             Admitted \<Rightarrow> answer True ''trusted''
           | Refused \<Rightarrow> answer False (trust_value (pr_trust p) @ ''_not_permitted'')
           | OWN_WORK_ONLY \<Rightarrow>
               (if work_owner_id = Some (pr_principal_id p) then answer True ''own_work''
                else answer False ''not_work_owner'')))"

definition evaluate_admission ::
  "'s principal_store \<Rightarrow> principal_registry \<Rightarrow> admission_capability \<Rightarrow> string option \<Rightarrow> string option \<Rightarrow> 's
   \<Rightarrow> (py_exn + admission_decision) \<times> 's" where
  "evaluate_admission st r capability sender work_owner_id s =
     (case resolve_principal st r sender s of
        (Inl e, s1) \<Rightarrow> (Inl e, s1)
      | (Inr p, s1) \<Rightarrow> (Inr (decide r capability work_owner_id p), s1))"

text \<open>A use of the registry; the configuration can be another one at each call, as after a restart.\<close>

datatype registry_call =
    Resolve "string option"
  | Promote string trust_tier
  | Evaluate admission_capability "string option" "string option"

datatype registry_reply = Resolved principal_record | Decided admission_decision

fun use_registry ::
  "'s principal_store \<Rightarrow> principal_registry \<Rightarrow> registry_call \<Rightarrow> 's \<Rightarrow> (py_exn + registry_reply) \<times> 's" where
  "use_registry st r (Resolve sender) s = map_prod (map_sum id Resolved) id (resolve_principal st r sender s)"
| "use_registry st r (Promote name trust) s = map_prod (map_sum id Resolved) id (promote st r name trust s)"
| "use_registry st r (Evaluate capability sender work_owner_id) s =
     map_prod (map_sum id Decided) id (evaluate_admission st r capability sender work_owner_id s)"

fun registry_run ::
  "'s principal_store \<Rightarrow> (principal_registry \<times> registry_call) list \<Rightarrow> 's \<Rightarrow> (py_exn + registry_reply) list \<times> 's" where
  "registry_run st [] s = ([], s)"
| "registry_run st ((r, c) # calls) s =
     (case use_registry st r c s of (x, s1) \<Rightarrow> map_prod (Cons x) id (registry_run st calls s1))"

section \<open>The store in memory\<close>

type_synonym memory_principals = "(string, principal_record) pydict"

definition memory_principals :: "principal_record list \<Rightarrow> memory_principals" where
  "memory_principals records = foldl (\<lambda>d r. AList.update (pr_principal_id r) r d) [] records"

definition memory_get :: "string \<Rightarrow> memory_principals \<Rightarrow> py_exn + principal_record option" where
  "memory_get principal_id d = Inr (map_of d principal_id)"

definition memory_put :: "principal_record \<Rightarrow> memory_principals \<Rightarrow> memory_principals" where
  "memory_put r d = AList.update (pr_principal_id r) r d"

definition memory_store :: "memory_principals principal_store" where
  "memory_store = \<lparr>ps_get = memory_get, ps_put = memory_put\<rparr>"

text \<open>\<open>sorted(self._records)\<close>: strings are ordered by their characters.\<close>

definition memory_all :: "memory_principals \<Rightarrow> principal_record list" where
  "memory_all d = somes (map (map_of d) (sort (map fst d)))"

section \<open>Lists of texts as JSON\<close>

text \<open>\<open>json.dumps(list(granted), ensure_ascii=False)\<close>\<close>

definition hex_digit :: "nat \<Rightarrow> char" where
  "hex_digit n = (if n < 10 then char_of (48 + n) else char_of (87 + n))"

definition escape_char :: "char \<Rightarrow> string" where
  "escape_char c = (let n = (of_char c :: nat) in
     if n = 34 then [CHR 0x5C, c]
     else if n = 92 then [c, c]
     else if n = 10 then [CHR 0x5C, CHR ''n'']
     else if n = 13 then [CHR 0x5C, CHR ''r'']
     else if n = 9 then [CHR 0x5C, CHR ''t'']
     else if n = 12 then [CHR 0x5C, CHR ''f'']
     else if n = 8 then [CHR 0x5C, CHR ''b'']
     else if n < 32 then [CHR 0x5C, CHR ''u'', CHR ''0'', CHR ''0'', hex_digit (n div 16), hex_digit (n mod 16)]
     else [c])"

definition quote_mark :: char where
  "quote_mark = CHR 0x22"

definition dump_text :: "string \<Rightarrow> string" where
  "dump_text s = quote_mark # concat (map escape_char s) @ [quote_mark]"

definition dump_texts :: "string list \<Rightarrow> string" where
  "dump_texts xs = ''['' @ join '', '' (map dump_text xs) @ '']''"

text \<open>
  \<open>json.loads\<close> of an array of strings with Latin-1 characters; every other text is taken for one that does not
  decode. The table holds no other text: rows are written by \<open>put\<close> alone.
\<close>

definition json_space :: "char \<Rightarrow> bool" where
  "json_space c \<longleftrightarrow> (of_char c :: nat) \<in> {9, 10, 13, 32}"

definition skip_space :: "string \<Rightarrow> string" where
  "skip_space s = dropWhile json_space s"

definition hex_digit_value :: "char \<Rightarrow> nat option" where
  "hex_digit_value c = (let n = (of_char c :: nat) in
     if 48 \<le> n \<and> n \<le> 57 then Some (n - 48)
     else if 97 \<le> n \<and> n \<le> 102 then Some (n - 87)
     else if 65 \<le> n \<and> n \<le> 70 then Some (n - 55) else None)"

definition unicode_escape :: "char \<Rightarrow> char \<Rightarrow> char \<Rightarrow> char \<Rightarrow> char option" where
  "unicode_escape a b c d =
     (case (hex_digit_value a, hex_digit_value b, hex_digit_value c, hex_digit_value d) of
        (Some 0, Some 0, Some m, Some n) \<Rightarrow> Some (char_of (16 * m + n)) | _ \<Rightarrow> None)"

definition plain_escape :: "char \<Rightarrow> char option" where
  "plain_escape c = map_of
     [(quote_mark, quote_mark), (CHR 0x5C, CHR 0x5C), (CHR ''/'', CHR ''/''),
      (CHR ''b'', CHR 0x08), (CHR ''f'', CHR 0x0C), (CHR ''n'', CHR 0x0A),
      (CHR ''r'', CHR 0x0D), (CHR ''t'', CHR 0x09)] c"

text \<open>The rest of a string literal, with the text after it.\<close>

fun scan_text :: "string \<Rightarrow> (string \<times> string) option" where
  "scan_text [] = None"
| "scan_text (c # cs) =
     (if c = quote_mark then Some ([], cs)
      else if of_char c = (92 :: nat) then
        (case cs of
           [] \<Rightarrow> None
         | e # es \<Rightarrow>
             (if e = CHR ''u'' then
                (case es of
                   a # b # d # f # rest \<Rightarrow>
                     (case unicode_escape a b d f of
                        None \<Rightarrow> None
                      | Some ch \<Rightarrow> map_option (apfst (Cons ch)) (scan_text rest))
                 | _ \<Rightarrow> None)
              else (case plain_escape e of
                  None \<Rightarrow> None
                | Some ch \<Rightarrow> map_option (apfst (Cons ch)) (scan_text es))))
      else if of_char c < (32 :: nat) then None
      else map_option (apfst (Cons c)) (scan_text cs))"

lemma scan_text_shorter: "scan_text s = Some (x, rest) \<Longrightarrow> length rest < length s"
proof (induction s arbitrary: x rest rule: scan_text.induct)
  case (2 c cs)
  show ?case
  proof (cases "of_char c = (92 :: nat) \<and> c \<noteq> quote_mark")
    case True
    then show ?thesis
      using "2.prems" "2.IH"(1,2) by (fastforce split: if_splits list.splits option.splits)
  next
    case False
    then show ?thesis using "2.prems" "2.IH"(3) by (fastforce split: if_splits)
  qed
qed simp

lemma skip_space_shorter: "length (skip_space s) \<le> length s"
  by (simp add: skip_space_def length_dropWhile_le)

text \<open>The items of an array with at least one item, up to its closing bracket.\<close>

function scan_texts :: "string \<Rightarrow> (string list \<times> string) option" where
  "scan_texts s =
     (case skip_space s of
        [] \<Rightarrow> None
      | q # cs \<Rightarrow>
          (if q \<noteq> quote_mark then None
           else (case scan_text cs of
               None \<Rightarrow> None
             | Some (x, rest) \<Rightarrow>
                 (case skip_space rest of
                    [] \<Rightarrow> None
                  | c # beyond \<Rightarrow>
                      (if c = CHR '']'' then Some ([x], beyond)
                       else if c = CHR '','' then map_option (apfst (Cons x)) (scan_texts beyond)
                       else None)))))"
  by pat_completeness auto
termination
proof (relation "measure length")
  fix s :: string and q cs p x rest c rest'
  assume "skip_space s = q # cs" "scan_text cs = Some p" "(x, rest) = p" "skip_space rest = c # rest'"
  then show "(rest', s) \<in> measure length"
    using skip_space_shorter [of s] skip_space_shorter [of rest] scan_text_shorter [of cs x rest] by auto
qed simp

declare scan_texts.simps [simp del]

definition load_texts :: "string \<Rightarrow> string list option" where
  "load_texts s =
     (case skip_space s of
        [] \<Rightarrow> None
      | c # rest \<Rightarrow>
          (if c \<noteq> CHR ''['' then None
           else (case (case skip_space rest of
                     [] \<Rightarrow> None
                   | d # after \<Rightarrow> if d = CHR '']'' then Some ([], after) else scan_texts rest) of
               None \<Rightarrow> None
             | Some (xs, after) \<Rightarrow> if skip_space after = [] then Some xs else None)))"

section \<open>The durable store\<close>

record principal_row =
  pw_principal_id :: string
  pw_kind :: string
  pw_trust :: string
  pw_granted :: string
  pw_first_seen :: string
  pw_last_seen :: string
  pw_notes :: string

type_synonym principal_table = "principal_row list"

definition principal_from_row :: "principal_row \<Rightarrow> py_exn + principal_record" where
  "principal_from_row row =
     (case parse_principal_kind (pw_kind row) of
        Inl e \<Rightarrow> Inl e
      | Inr kind \<Rightarrow>
          (case parse_trust (pw_trust row) of
             Inl e \<Rightarrow> Inl e
           | Inr trust \<Rightarrow>
               (case load_texts (if pw_granted row = [] then ''[]'' else pw_granted row) of
                  None \<Rightarrow> Inl ValueError
                | Some granted \<Rightarrow>
                    Inr \<lparr>pr_principal_id = pw_principal_id row, pr_kind = kind, pr_trust = trust, pr_granted = granted,
                         pr_first_seen = pw_first_seen row, pr_last_seen = pw_last_seen row, pr_notes = pw_notes row\<rparr>)))"

definition row_of_principal :: "principal_record \<Rightarrow> principal_row" where
  "row_of_principal r =
     \<lparr>pw_principal_id = pr_principal_id r, pw_kind = principal_kind_value (pr_kind r), pw_trust = trust_value (pr_trust r),
      pw_granted = dump_texts (pr_granted r), pw_first_seen = pr_first_seen r, pw_last_seen = pr_last_seen r,
      pw_notes = pr_notes r\<rparr>"

definition table_get :: "string \<Rightarrow> principal_table \<Rightarrow> py_exn + principal_record option" where
  "table_get principal_id rows =
     (case find (\<lambda>row. pw_principal_id row = principal_id) rows of
        None \<Rightarrow> Inr None
      | Some row \<Rightarrow> map_sum id Some (principal_from_row row))"

text \<open>\<open>INSERT ... ON CONFLICT(principal_id) DO UPDATE\<close>\<close>

fun upsert :: "principal_row \<Rightarrow> principal_table \<Rightarrow> principal_table" where
  "upsert new [] = [new]"
| "upsert new (row # rows) =
     (if pw_principal_id row = pw_principal_id new then new # rows else row # upsert new rows)"

definition table_put :: "principal_record \<Rightarrow> principal_table \<Rightarrow> principal_table" where
  "table_put r rows = upsert (row_of_principal r) rows"

definition table_store :: "principal_table principal_store" where
  "table_store = \<lparr>ps_get = table_get, ps_put = table_put\<rparr>"

text \<open>\<open>ORDER BY principal_id\<close>\<close>

definition table_all :: "principal_table \<Rightarrow> py_exn + principal_record list" where
  "table_all rows = decode_all principal_from_row
     (somes (map (\<lambda>k. find (\<lambda>row. pw_principal_id row = k) rows) (sort (map pw_principal_id rows))))"

section \<open>Configuration\<close>

text \<open>\<open>raw.split(',')\<close>, the piece read so far first\<close>

fun split_commas :: "string \<Rightarrow> string \<Rightarrow> string list" where
  "split_commas cur [] = [cur]"
| "split_commas cur (c # cs) = (if c = CHR '','' then cur # split_commas [] cs else split_commas (cur @ [c]) cs)"

definition name_set :: "string option \<Rightarrow> string set" where
  "name_set raw = (case raw of
     None \<Rightarrow> {}
   | Some text \<Rightarrow> if text = [] then {} else set (filter (\<lambda>n. n \<noteq> []) (map strip (split_commas [] text))))"

text \<open>The registry and, when it is to be durable, the path of its database.\<close>

definition principal_registry_from_env :: "(string, string) pydict \<Rightarrow> principal_registry \<times> string option" where
  "principal_registry_from_env env =
     (let db_path = strip (case map_of env ''MINEBOT_PRINCIPAL_DB'' of None \<Rightarrow> [] | Some p \<Rightarrow> p)
      in (\<lparr>rg_owners = name_set (map_of env ''MINEBOT_PRINCIPAL_OWNERS''),
           rg_friends = name_set (map_of env ''MINEBOT_PRINCIPAL_FRIENDS''),
           rg_default_trust = STRANGER\<rparr>,
          if db_path = [] then None else Some db_path))"

end
