(* ===== verification/Principal_Trust.thy ===== *)
theory Principal_Trust
  imports Principals
begin

text \<open>
  What a store promises the registry, for the store in memory and for the table: a record that was
  put is read back, under its own id, as it was. From this alone: a name has the tier of its record,
  else the configured one; the replies of a registry do not depend on which of the two stores it
  has; a tier that was recorded stays until it is promoted, whatever the configuration says later.
\<close>

section \<open>Lists of texts are read back\<close>

lemma hex_digit_read: "n < 16 \<Longrightarrow> hex_digit_value (hex_digit n) = Some n"
  by (simp add: hex_digit_value_def hex_digit_def Let_def)

lemma char_of_of_char_nat: "char_of (of_char c :: nat) = c"
  by simp

lemma unicode_escape_read:
  "of_char c < (32 :: nat) \<Longrightarrow>
     unicode_escape CHR ''0'' CHR ''0'' (hex_digit (of_char c div 16)) (hex_digit (of_char c mod 16)) = Some c"
proof -
  assume c: "of_char c < (32 :: nat)"
  have zero: "hex_digit_value CHR ''0'' = Some 0" by (simp add: hex_digit_value_def)
  have "16 * (of_char c div 16) + of_char c mod 16 = (of_char c :: nat)" by simp
  then show ?thesis
    using c by (simp add: unicode_escape_def zero hex_digit_read less_mult_imp_div_less)
qed

lemma of_quote_mark [simp]: "of_char quote_mark = (34 :: nat)"
  by (simp add: quote_mark_def)

lemma is_quote_mark: "c = quote_mark \<longleftrightarrow> of_char c = (34 :: nat)"
  by (metis of_quote_mark char_of_of_char_nat)

lemma char_of_code: "of_char c = (of_char d :: nat) \<Longrightarrow> c = d"
  by (metis char_of_of_char_nat)

text \<open>The characters with an escape of their own, by their codes.\<close>

lemma short_escapes:
  "of_char c = (34 :: nat) \<longleftrightarrow> c = CHR 0x22" "of_char c = (92 :: nat) \<longleftrightarrow> c = CHR 0x5C"
  "of_char c = (10 :: nat) \<longleftrightarrow> c = CHR 0x0A" "of_char c = (13 :: nat) \<longleftrightarrow> c = CHR 0x0D"
  "of_char c = (9 :: nat) \<longleftrightarrow> c = CHR 0x09" "of_char c = (12 :: nat) \<longleftrightarrow> c = CHR 0x0C"
  "of_char c = (8 :: nat) \<longleftrightarrow> c = CHR 0x08"
  by (auto intro: char_of_code)

lemma scan_text_escaped: "scan_text (escape_char c @ s) = map_option (apfst (Cons c)) (scan_text s)"
proof -
  consider "c \<in> {CHR 0x22, CHR 0x5C, CHR 0x0A, CHR 0x0D, CHR 0x09, CHR 0x0C, CHR 0x08}"
    | "of_char c < (32 :: nat)" "of_char c \<notin> {10, 13, 9, 12, 8 :: nat}"
    | "32 \<le> (of_char c :: nat)" "of_char c \<notin> {34, 92 :: nat}"
    unfolding insert_iff empty_iff short_escapes by (meson not_le)
  then show ?thesis
  proof cases
    case 1
    then show ?thesis
      by (elim insertE) (simp_all add: escape_char_def plain_escape_def quote_mark_def)
  next
    case 2
    then show ?thesis
      using unicode_escape_read [OF 2(1)] by (auto simp: escape_char_def is_quote_mark Let_def)
  next
    case 3
    then show ?thesis by (simp add: escape_char_def is_quote_mark)
  qed
qed

lemma scan_dumped_text: "scan_text (concat (map escape_char x) @ quote_mark # rest) = Some (x, rest)"
  by (induction x) (simp_all add: scan_text_escaped)

lemma skip_space_simps [simp]:
  "skip_space (quote_mark # s) = quote_mark # s" "skip_space (CHR '']'' # s) = CHR '']'' # s"
  "skip_space (CHR '','' # s) = CHR '','' # s" "skip_space (CHR '' '' # s) = skip_space s" "skip_space [] = []"
  "skip_space (CHR ''['' # s) = CHR ''['' # s"
  by (simp_all add: skip_space_def json_space_def)

lemma scan_texts_space: "scan_texts (CHR '' '' # s) = scan_texts s"
  by (subst (1 2) scan_texts.simps) simp

lemma scan_dumped_texts:
  "xs \<noteq> [] \<Longrightarrow> scan_texts (join '', '' (map dump_text xs) @ '']'' @ rest) = Some (xs, rest)"
proof (induction xs)
  case (Cons x xs)
  show ?case
  proof (cases xs)
    case Nil
    then show ?thesis
      by (subst scan_texts.simps) (simp add: dump_text_def scan_dumped_text)
  next
    case (Cons y ys)
    have tail: "scan_texts (CHR '' '' # join '', '' (map dump_text xs) @ '']'' @ rest) = Some (xs, rest)"
      using Cons.IH Cons scan_texts_space by simp
    then show ?thesis
      by (subst scan_texts.simps) (simp add: Cons dump_text_def scan_dumped_text)
  qed
qed simp

lemma load_dumped_texts: "load_texts (dump_texts xs) = Some xs"
proof (cases xs)
  case Nil
  then show ?thesis by (simp add: dump_texts_def load_texts_def)
next
  case (Cons x ys)
  have "\<exists>s. join '', '' (map dump_text xs) = quote_mark # s"
    by (cases ys) (simp_all add: Cons dump_text_def)
  then obtain s where s: "join '', '' (map dump_text xs) = quote_mark # s" by blast
  have "quote_mark \<noteq> CHR '']''" by (simp add: quote_mark_def)
  then show ?thesis
    using scan_dumped_texts [of xs "[]"] Cons s by (simp add: dump_texts_def load_texts_def)
qed

lemma dump_texts_nonempty: "dump_texts xs \<noteq> []"
  by (simp add: dump_texts_def)

lemma parse_values [simp]:
  "parse_trust (trust_value t) = Inr t" "parse_principal_kind (principal_kind_value k) = Inr k"
  by (cases t; simp add: parse_trust_def) (cases k; simp add: parse_principal_kind_def)

lemma principal_row_read: "principal_from_row (row_of_principal r) = Inr r"
  by (simp add: principal_from_row_def row_of_principal_def load_dumped_texts dump_texts_nonempty)

section \<open>What a store promises\<close>

definition promotes :: "registry_call \<Rightarrow> string \<Rightarrow> bool" where
  "promotes c name \<longleftrightarrow> (\<exists>who t. c = Promote who t \<and> sender_name (Some who) = name)"

locale principal_laws =
  fixes st :: "'s principal_store" and ok :: "'s \<Rightarrow> bool" and view :: "'s \<Rightarrow> string \<Rightarrow> principal_record option"
  assumes get: "ok s \<Longrightarrow> ps_get st k s = Inr (view s k)"
    and put_ok: "ok s \<Longrightarrow> ok (ps_put st r s)"
    and put_view: "ok s \<Longrightarrow> view (ps_put st r s) = (view s)(pr_principal_id r \<mapsto> r)"
    and keyed: "ok s \<Longrightarrow> view s k = Some r \<Longrightarrow> pr_principal_id r = k"
begin

lemma resolve_known:
  "ok s \<Longrightarrow> view s (sender_name sender) = Some r \<Longrightarrow> sender_name sender \<noteq> [] \<Longrightarrow>
     resolve_principal st reg sender s = (Inr r, s)"
  by (simp add: resolve_principal_def get)

lemma resolve_new:
  "ok s \<Longrightarrow> view s (sender_name sender) = None \<Longrightarrow> sender_name sender \<noteq> [] \<Longrightarrow>
     resolve_principal st reg sender s =
       (let p = new_principal (sender_name sender) PLAYER (configured_trust reg (sender_name sender)) in (Inr p, ps_put st p s))"
  by (simp add: resolve_principal_def get Let_def)

lemma resolve_operator:
  "sender_name sender = [] \<Longrightarrow>
     resolve_principal st reg sender s = (Inr (new_principal OPERATOR_PRINCIPAL_ID OPERATOR OWNER), s)"
  by (simp add: resolve_principal_def)

text \<open>A resolution adds at most the record of its sender.\<close>

lemma resolve_run:
  assumes "ok s" "resolve_principal st reg sender s = (x, s')"
  shows "\<exists>p. x = Inr p \<and> ok s' \<and> (sender_name sender = [] \<longrightarrow> pr_principal_id p = OPERATOR_PRINCIPAL_ID \<and> s' = s) \<and>
    (sender_name sender \<noteq> [] \<longrightarrow> pr_principal_id p = sender_name sender \<and> view s' = (view s)(sender_name sender \<mapsto> p))"
proof (cases "sender_name sender = []")
  case True
  then show ?thesis using assms by (auto simp: resolve_operator new_principal_def)
next
  case False
  show ?thesis
  proof (cases "view s (sender_name sender)")
    case None
    then show ?thesis
      using assms False by (auto simp: resolve_new Let_def put_ok put_view new_principal_def)
  next
    case (Some r)
    then show ?thesis
      using assms False keyed [OF assms(1) Some] by (auto simp: resolve_known fun_upd_idem)
  qed
qed

lemma call_run:
  assumes "ok s" "use_registry st reg c s = (x, s')"
  shows "ok s' \<and> (\<forall>name r. view s name = Some r \<longrightarrow> \<not> promotes c name \<longrightarrow> name \<noteq> OPERATOR_PRINCIPAL_ID \<longrightarrow> view s' name = Some r)"
proof -
  have kept: "view u name = Some r"
    if u: "resolve_principal st reg sender s = (y, u)" and v: "view s name = Some r" for sender y u name r
  proof (cases "sender_name sender = [] \<or> name = sender_name sender")
    case True
    then have "u = s"
      using u resolve_operator [of sender reg s] resolve_known [OF assms(1), of sender r reg] v
      by (cases "sender_name sender = []") simp_all
    with v show ?thesis by simp
  next
    case False
    then show ?thesis using resolve_run [OF assms(1) u] v by auto
  qed
  show ?thesis
  proof (cases c)
    case (Resolve sender)
    obtain y u where u: "resolve_principal st reg sender s = (y, u)" by (rule prod.exhaust)
    then show ?thesis using assms Resolve resolve_run [OF assms(1) u] kept [OF u] by auto
  next
    case (Evaluate cap sender owner)
    obtain y u where u: "resolve_principal st reg sender s = (y, u)" by (rule prod.exhaust)
    then show ?thesis
      using assms Evaluate resolve_run [OF assms(1) u] kept [OF u] by (auto simp: evaluate_admission_def)
  next
    case (Promote who t)
    obtain y u where u: "resolve_principal st reg (Some who) s = (y, u)" by (rule prod.exhaust)
    obtain p where p: "y = Inr p" "ok u"
        "pr_principal_id p = (if sender_name (Some who) = [] then OPERATOR_PRINCIPAL_ID else sender_name (Some who))"
      using resolve_run [OF assms(1) u] by auto
    let ?p = "p\<lparr>pr_trust := t\<rparr>"
    have s': "s' = ps_put st ?p u" using assms(2) u p by (simp add: Promote promote_def Let_def)
    have "view s' name = Some r"
      if "view s name = Some r" "\<not> promotes c name" "name \<noteq> OPERATOR_PRINCIPAL_ID" for name r
    proof -
      have "name \<noteq> pr_principal_id p" using that(2,3) p(3) unfolding Promote promotes_def by metis
      then show ?thesis using kept [OF u that(1)] put_view [OF p(2), of ?p] s' by simp
    qed
    then show ?thesis using put_ok [OF p(2)] s' by simp
  qed
qed

lemma run_ok: "ok s \<Longrightarrow> ok (snd (registry_run st calls s))"
proof (induction calls arbitrary: s)
  case (Cons a calls)
  obtain reg c where a: "a = (reg, c)" by (rule prod.exhaust)
  obtain x u where u: "use_registry st reg c s = (x, u)" by (rule prod.exhaust)
  then show ?case using Cons call_run [OF Cons.prems u] by (simp add: a)
qed simp

text \<open>A record that is there stays as it is, until its own name is promoted.\<close>

lemma record_stays:
  "ok s \<Longrightarrow> view s name = Some r \<Longrightarrow> \<forall>(reg, c) \<in> set calls. \<not> promotes c name \<Longrightarrow> name \<noteq> OPERATOR_PRINCIPAL_ID \<Longrightarrow>
     view (snd (registry_run st calls s)) name = Some r"
proof (induction calls arbitrary: s)
  case (Cons a calls)
  obtain reg c where a: "a = (reg, c)" by (rule prod.exhaust)
  obtain x u where u: "use_registry st reg c s = (x, u)" by (rule prod.exhaust)
  have "ok u" "view u name = Some r" using Cons.prems call_run [OF Cons.prems(1) u] by (auto simp: a)
  then show ?case using Cons.IH [of u] Cons.prems u by (simp add: a)
qed simp

lemma promoted_record:
  assumes "ok s" "sender_name (Some who) \<noteq> []" "promote st reg who t s = (x, s')"
  shows "\<exists>p. x = Inr p \<and> pr_trust p = t \<and> ok s' \<and> view s' (sender_name (Some who)) = Some p"
proof -
  obtain y u where u: "resolve_principal st reg (Some who) s = (y, u)" by (rule prod.exhaust)
  obtain p where p: "y = Inr p" "ok u" "pr_principal_id p = sender_name (Some who)"
    using resolve_run [OF assms(1) u] assms(2) by auto
  then have "x = Inr (p\<lparr>pr_trust := t\<rparr>)" "s' = ps_put st (p\<lparr>pr_trust := t\<rparr>) u"
    using assms(3) u by (auto simp: promote_def Let_def)
  then show ?thesis using p put_ok [OF p(2)] put_view [OF p(2)] by auto
qed

end

section \<open>The two stores\<close>

definition memory_ok :: "memory_principals \<Rightarrow> bool" where
  "memory_ok d \<longleftrightarrow> distinct (map fst d) \<and> (\<forall>(k, r)\<in>set d. pr_principal_id r = k)"

lemma memory_ok_put: "memory_ok d \<Longrightarrow> memory_ok (memory_put r d)"
  by (auto simp: memory_ok_def memory_put_def distinct_update dest!: set_update_cases)

interpretation memory: principal_laws memory_store memory_ok map_of
proof
  fix d :: memory_principals and k r
  show "ps_get memory_store k d = Inr (map_of d k)" by (simp add: memory_store_def memory_get_def)
  show "memory_ok d \<Longrightarrow> memory_ok (ps_put memory_store r d)" by (simp add: memory_store_def memory_ok_put)
  show "map_of (ps_put memory_store r d) = (map_of d)(pr_principal_id r \<mapsto> r)"
    by (simp add: memory_store_def memory_put_def map_of_update)
  show "memory_ok d \<Longrightarrow> map_of d k = Some r \<Longrightarrow> pr_principal_id r = k"
    by (auto simp: memory_ok_def dest: map_of_SomeD)
qed

text \<open>The table that holds the rows of a dictionary.\<close>

definition table_of :: "memory_principals \<Rightarrow> principal_table" where
  "table_of d = map (\<lambda>(k, r). row_of_principal r) d"

lemma row_id [simp]: "pw_principal_id (row_of_principal r) = pr_principal_id r"
  by (simp add: row_of_principal_def)

lemma find_row: "memory_ok d \<Longrightarrow> find (\<lambda>row. pw_principal_id row = k) (table_of d) = map_option row_of_principal (map_of d k)"
  by (induction d) (auto simp: memory_ok_def table_of_def)

lemma table_get_of: "memory_ok d \<Longrightarrow> table_get k (table_of d) = Inr (map_of d k)"
  by (simp add: table_get_def find_row principal_row_read split: option.split)

lemma table_put_of: "memory_ok d \<Longrightarrow> table_put r (table_of d) = table_of (memory_put r d)"
  by (induction d) (auto simp: memory_ok_def table_of_def table_put_def memory_put_def)

definition table_ok :: "principal_table \<Rightarrow> bool" where
  "table_ok rows \<longleftrightarrow> (\<exists>d. memory_ok d \<and> rows = table_of d)"

definition table_view :: "principal_table \<Rightarrow> string \<Rightarrow> principal_record option" where
  "table_view rows k = (case table_get k rows of Inl _ \<Rightarrow> None | Inr x \<Rightarrow> x)"

lemma table_view_of: "memory_ok d \<Longrightarrow> table_view (table_of d) = map_of d"
  by (auto simp: table_view_def table_get_of)

interpretation durable: principal_laws table_store table_ok table_view
proof
  fix rows k r
  assume "table_ok rows"
  then obtain d where d: "memory_ok d" "rows = table_of d" unfolding table_ok_def by blast
  then have put: "ps_put table_store r rows = table_of (memory_put r d)" by (simp add: table_store_def table_put_of)
  show "ps_get table_store k rows = Inr (table_view rows k)"
    using d by (simp add: table_store_def table_get_of table_view_of)
  show "table_ok (ps_put table_store r rows)" unfolding put table_ok_def using memory_ok_put [OF d(1)] by blast
  show "table_view (ps_put table_store r rows) = (table_view rows)(pr_principal_id r \<mapsto> r)"
    unfolding put using d by (simp add: table_view_of memory_ok_put) (simp add: memory_put_def map_of_update)
  show "pr_principal_id r = k" if "table_view rows k = Some r"
    using that d memory.keyed [OF d(1)] by (simp add: table_view_of)
qed

lemma table_ok_empty: "table_ok []"
  unfolding table_ok_def by (rule exI [of _ "[]"]) (simp add: memory_ok_def table_of_def)

section \<open>The table answers as the dictionary does\<close>

lemma resolve_of:
  assumes "memory_ok d"
  shows "resolve_principal table_store reg sender (table_of d) = map_prod id table_of (resolve_principal memory_store reg sender d)"
  using assms
  by (simp add: resolve_principal_def table_store_def memory_store_def table_get_of memory_get_def table_put_of Let_def
      split: option.split)

lemma use_of:
  assumes d: "memory_ok d"
  shows "use_registry table_store reg c (table_of d) = map_prod id table_of (use_registry memory_store reg c d)"
proof (cases c)
  case (Promote who t)
  obtain x u where u: "resolve_principal memory_store reg (Some who) d = (x, u)" by (rule prod.exhaust)
  then obtain p where p: "x = Inr p" "memory_ok u" using memory.resolve_run [OF d] by blast
  then show ?thesis
    using u resolve_of [OF d, of reg "Some who"]
    by (simp add: Promote promote_def Let_def) (simp add: table_store_def memory_store_def table_put_of)
qed (simp_all add: resolve_of [OF d] evaluate_admission_def map_prod_def split: prod.split sum.split)

lemma run_of:
  "memory_ok d \<Longrightarrow> registry_run table_store calls (table_of d) = map_prod id table_of (registry_run memory_store calls d)"
proof (induction calls arbitrary: d)
  case (Cons a calls)
  obtain reg c where a: "a = (reg, c)" by (rule prod.exhaust)
  obtain x u where u: "use_registry memory_store reg c d = (x, u)" by (rule prod.exhaust)
  then have "memory_ok u" using memory.call_run [OF Cons.prems] by blast
  then show ?case using Cons.IH u use_of [OF Cons.prems, of reg c] by (simp add: a prod.map_comp comp_def)
qed simp

lemma table_all_of: "memory_ok d \<Longrightarrow> table_all (table_of d) = Inr (memory_all d)"
proof -
  assume d: "memory_ok d"
  have keys: "map pw_principal_id (table_of d) = map fst d"
    using d by (auto simp: table_of_def memory_ok_def)
  have "decode_all principal_from_row (map row_of_principal rs) = Inr rs" for rs
    by (induction rs) (simp_all add: principal_row_read)
  moreover have "somes (map (\<lambda>k. find (\<lambda>row. pw_principal_id row = k) (table_of d)) ks) =
      map row_of_principal (somes (map (map_of d) ks))" for ks
    by (induction ks) (simp_all add: find_row [OF d] somes_def split: option.split)
  ultimately show ?thesis by (simp add: table_all_def memory_all_def keys)
qed

lemma memory_replies: "memory_ok d \<Longrightarrow> x \<in> set (fst (registry_run memory_store calls d)) \<Longrightarrow> \<exists>reply. x = Inr reply"
proof (induction calls arbitrary: d)
  case (Cons a calls)
  obtain reg c where a: "a = (reg, c)" by (rule prod.exhaust)
  obtain y u where u: "use_registry memory_store reg c d = (y, u)" by (rule prod.exhaust)
  have "\<exists>reply. y = Inr reply"
  proof -
    have r: "\<exists>p v. resolve_principal memory_store reg sender d = (Inr p, v)" for sender
      using memory.resolve_run [OF Cons.prems(1)] by (metis prod.collapse)
    show ?thesis
    proof (cases c)
      case (Resolve sender)
      then show ?thesis using u r [of sender] by auto
    next
      case (Promote who t)
      then show ?thesis using u r [of "Some who"] by (auto simp: promote_def Let_def)
    next
      case (Evaluate cap sender owner)
      then show ?thesis using u r [of sender] by (auto simp: evaluate_admission_def)
    qed
  qed
  moreover have "memory_ok u" using memory.call_run [OF Cons.prems(1) u] by blast
  ultimately show ?case using Cons u by (auto simp: a)
qed simp

text \<open>The table after the records were put into it, one after the other\<close>

definition stored_principals :: "principal_record list \<Rightarrow> principal_table" where
  "stored_principals records = foldl (\<lambda>rows r. table_put r rows) [] records"

lemma stored_principals_of:
  "stored_principals records = table_of (memory_principals records) \<and> memory_ok (memory_principals records)"
proof -
  have "memory_ok d \<Longrightarrow>
      foldl (\<lambda>rows r. table_put r rows) (table_of d) rs = table_of (foldl (\<lambda>d r. AList.update (pr_principal_id r) r d) d rs) \<and>
      memory_ok (foldl (\<lambda>d r. AList.update (pr_principal_id r) r d) d rs)" for d rs
    by (induction rs arbitrary: d) (simp_all add: table_put_of memory_ok_put flip: memory_put_def)
  from this [of "[]" records] show ?thesis
    by (simp add: stored_principals_def memory_principals_def table_of_def memory_ok_def)
qed

text \<open>
  C32. The durable store of principals behaves as the one in memory: when both hold the same records,
  with whatever kinds, tiers, granted names, times and notes, and whatever is then resolved, promoted
  and evaluated under whatever configurations, every answer is the same, none is an error, and the
  principals listed at the end are the same, the granted names included, which the table keeps as
  JSON text.
\<close>

theorem durable_principals_refine_memory:
  "fst (registry_run table_store calls (stored_principals records)) =
     fst (registry_run memory_store calls (memory_principals records)) \<and>
   (\<forall>x\<in>set (fst (registry_run table_store calls (stored_principals records))). \<exists>reply. x = Inr reply) \<and>
   table_all (snd (registry_run table_store calls (stored_principals records))) =
     Inr (memory_all (snd (registry_run memory_store calls (memory_principals records))))"
proof -
  let ?d = "memory_principals records"
  have ok: "memory_ok ?d" and t: "stored_principals records = table_of ?d" using stored_principals_of by blast+
  have run: "registry_run table_store calls (table_of ?d) = map_prod id table_of (registry_run memory_store calls ?d)"
    by (rule run_of [OF ok])
  show ?thesis
    using table_all_of [OF memory.run_ok [OF ok]] memory_replies [OF ok] unfolding t run by simp
qed

text \<open>
  A promotion holds: after a name was promoted in the durable store, it has the new tier in every
  later evaluation, under any configuration and after any other use of the registry, until that same
  name is promoted again.
\<close>

lemma promotion_outlives_configuration:
  assumes name: "sender_name (Some who) \<noteq> []" "sender_name (Some who) \<noteq> OPERATOR_PRINCIPAL_ID"
    and promoted: "promote table_store reg who t (snd (registry_run table_store before [])) = (x, s)"
    and later: "\<forall>(reg', c) \<in> set later. \<not> promotes c (sender_name (Some who))"
  shows "\<exists>p. pr_trust p = t \<and> x = Inr p \<and>
    fst (evaluate_admission table_store reg' capability (Some who) work_owner_id (snd (registry_run table_store later s))) =
      Inr (decide reg' capability work_owner_id p)"
proof -
  have "table_ok (snd (registry_run table_store before []))" by (rule durable.run_ok [OF table_ok_empty])
  from durable.promoted_record [OF this name(1) promoted]
  obtain p where p: "x = Inr p" "pr_trust p = t" "table_ok s" "table_view s (sender_name (Some who)) = Some p" by blast
  let ?s = "snd (registry_run table_store later s)"
  have "table_view ?s (sender_name (Some who)) = Some p"
    by (rule durable.record_stays [OF p(3,4) later name(2)])
  then have "resolve_principal table_store reg' (Some who) ?s = (Inr p, ?s)"
    using durable.resolve_known [OF durable.run_ok [OF p(3)] _ name(1)] by blast
  then show ?thesis using p by (simp add: evaluate_admission_def)
qed

section \<open>Applications\<close>

definition guild :: "string set \<Rightarrow> principal_registry" where
  "guild owners = \<lparr>rg_owners = owners, rg_friends = {}, rg_default_trust = STRANGER\<rparr>"

lemma promotion_outlives_configuration_witness:
  "\<exists>p s. promote table_store (guild {''Ada''}) ''Bob'' FRIEND (snd (registry_run table_store [] [])) = (Inr p, s) \<and>
     fst (evaluate_admission table_store (guild {''Eve''}) START_WORK (Some ''Bob'') None
       (snd (registry_run table_store [(guild {''Eve''}, Resolve (Some ''Bob''))] s))) =
     Inr (decide (guild {''Eve''}) START_WORK None p) \<and> pr_trust p = FRIEND"
proof -
  obtain x s where run: "promote table_store (guild {''Ada''}) ''Bob'' FRIEND (snd (registry_run table_store [] [])) = (x, s)"
    by (rule prod.exhaust)
  have bob: "sender_name (Some ''Bob'') = ''Bob''" by (simp add: sender_name_def strip_def is_space_def)
  show ?thesis
    using promotion_outlives_configuration [OF _ _ run,
        of "[(guild {''Eve''}, Resolve (Some ''Bob''))]" "guild {''Eve''}" START_WORK None] run
    by (auto simp: bob OPERATOR_PRINCIPAL_ID_def promotes_def)
qed

definition granted_bob :: principal_record where
  "granted_bob = (new_principal ''Bob'' PLAYER FRIEND)\<lparr>pr_granted := [''open the gate'', [quote_mark]]\<rparr>"

theorem durable_principals_refine_memory_witness:
  "\<exists>rows. table_all rows = Inr [granted_bob] \<and> rows = stored_principals [granted_bob]"
  using durable_principals_refine_memory [of "[]" "[granted_bob]"]
  by (simp add: memory_principals_def memory_all_def somes_def)

text \<open>
  The tier that the configuration gives is recorded when a name is first seen, and the record is used
  from then on: a name that is taken off the list of owners still controls the process.
\<close>

lemma removed_owner_still_commands:
  "(case snd (registry_run table_store [(guild {''Ada''}, Evaluate CONVERSE (Some ''Ada'') None)] []) of s \<Rightarrow>
     map_sum id ad_allowed (fst (evaluate_admission table_store (guild {''Bob''}) CONTROL_PROCESS (Some ''Ada'') None s))) = Inr True"
  by code_simp

end
