(* ===== verification/Admission.thy ===== *)
theory Admission
  imports Principal_Trust Work_Queue Body_Control Task_Workspace
begin

text \<open>
  Submitting a command to the agent: \<open>SessionCommand\<close> and \<open>AgentSession.submit\<close> of
  \<open>minebot/app/session.py\<close> with \<open>_admit\<close> and \<open>_degrade_unwired_dialogue\<close>. A session holds the registry
  of principals with its store, the principal who owns the current goal, the work queue, the runtime
  parts (here the Body with the progress authority) and the task workspace. What a submission does
  to the running model turn is recorded as effects. Fresh ids and clock readings are arguments.
\<close>

section \<open>Commands\<close>

datatype session_command_kind =
    SC_START | SC_PAUSE | SC_CONTINUE | SC_CANCEL | SC_REPLACE_GOAL | SC_MESSAGE | SC_QUIT
  | SC_TRUST | SC_STANCE | SC_ABANDON | SC_CONFIRM

fun command_value :: "session_command_kind \<Rightarrow> string" where
  "command_value SC_START = ''start''"
| "command_value SC_PAUSE = ''pause''"
| "command_value SC_CONTINUE = ''continue''"
| "command_value SC_CANCEL = ''cancel''"
| "command_value SC_REPLACE_GOAL = ''replace_goal''"
| "command_value SC_MESSAGE = ''message''"
| "command_value SC_QUIT = ''quit''"
| "command_value SC_TRUST = ''trust''"
| "command_value SC_STANCE = ''stance''"
| "command_value SC_ABANDON = ''abandon''"
| "command_value SC_CONFIRM = ''confirm''"

record session_command =
  sm_kind :: session_command_kind
  sm_text :: string
  sm_reason :: string
  sm_sender :: string

fun capability_of :: "session_command_kind \<Rightarrow> admission_capability" where
  "capability_of SC_MESSAGE = CONVERSE"
| "capability_of SC_START = START_WORK"
| "capability_of SC_PAUSE = CONTROL_WORK"
| "capability_of SC_CONTINUE = CONTROL_WORK"
| "capability_of SC_CANCEL = CONTROL_WORK"
| "capability_of SC_REPLACE_GOAL = CONTROL_WORK"
| "capability_of SC_QUIT = CONTROL_PROCESS"
| "capability_of SC_TRUST = CONTROL_PROCESS"
| "capability_of SC_STANCE = CONTROL_PROCESS"
| "capability_of SC_ABANDON = CONTROL_WORK"
| "capability_of SC_CONFIRM = CONVERSE"

definition UNWIRED_DIALOGUE_KINDS :: "session_command_kind set" where
  "UNWIRED_DIALOGUE_KINDS = {SC_TRUST, SC_STANCE, SC_ABANDON, SC_CONFIRM}"

text \<open>\<open>WorkIntentKind(command.kind.value)\<close>\<close>

definition intent_kind_of :: "session_command_kind \<Rightarrow> py_exn + work_intent_kind" where
  "intent_kind_of k =
     (case map_of [(SC_START, WK_START), (SC_PAUSE, WK_PAUSE), (SC_CONTINUE, WK_CONTINUE), (SC_CANCEL, WK_CANCEL),
         (SC_REPLACE_GOAL, WK_REPLACE_GOAL), (SC_MESSAGE, WK_MESSAGE), (SC_QUIT, WK_QUIT)] k of
        None \<Rightarrow> Inl ValueError | Some w \<Rightarrow> Inr w)"

definition denied_command_text :: "session_command \<Rightarrow> string" where
  "denied_command_text c =
     (if strip (sm_text c) \<noteq> [] then strip (sm_text c) else ''(requested '' @ command_value (sm_kind c) @ '')'')"

section \<open>The session\<close>

datatype session_effect =
    Traced string json_object
  | Kernel_Halted
  | Execution_Cancelled string

record 's agent_session =
  ag_principals :: "(principal_registry \<times> 's) option"
  ag_goal_principal_id :: "string option"
  ag_work_queue :: work_queue
  ag_parts :: "body_control option"
  ag_has_kernel :: bool
  ag_workspace :: "(runtime_scope \<times> runtime_store) option"
  ag_effects :: "session_effect list"

definition effect :: "session_effect \<Rightarrow> 's agent_session \<Rightarrow> 's agent_session" where
  "effect e s = s\<lparr>ag_effects := ag_effects s @ [e]\<rparr>"

text \<open>\<open>_trace\<close>: there is a trace only with the runtime.\<close>

definition trace_effect :: "session_effect \<Rightarrow> 's agent_session \<Rightarrow> 's agent_session" where
  "trace_effect e s = (if ag_parts s = None then s else effect e s)"

definition as_message :: "session_command \<Rightarrow> string \<Rightarrow> session_command" where
  "as_message c reason = \<lparr>sm_kind = SC_MESSAGE, sm_text = denied_command_text c, sm_reason = reason, sm_sender = sm_sender c\<rparr>"

definition denial_trace :: "session_command \<Rightarrow> admission_decision \<Rightarrow> string option \<Rightarrow> session_effect" where
  "denial_trace c d work_owner = Traced ''admission_denied''
     [(''command'', JStr (command_value (sm_kind c))), (''capability'', JStr (capability_value (ad_capability d))),
      (''principal'', JStr (pr_principal_id (ad_principal d))), (''trust'', JStr (trust_value (pr_trust (ad_principal d)))),
      (''reason'', JStr (ad_reason d)), (''work_owner'', json_opt work_owner)]"

definition admit ::
  "'s principal_store \<Rightarrow> session_command \<Rightarrow> 's agent_session \<Rightarrow> (py_exn + session_command) \<times> 's agent_session" where
  "admit st c s =
     (case ag_principals s of
        None \<Rightarrow> (Inr c, s)
      | Some (reg, store) \<Rightarrow>
          (case evaluate_admission st reg (capability_of (sm_kind c)) (Some (sm_sender c)) (ag_goal_principal_id s) store of
             (Inl e, store') \<Rightarrow> (Inl e, s\<lparr>ag_principals := Some (reg, store')\<rparr>)
           | (Inr d, store') \<Rightarrow>
               (let s1 = s\<lparr>ag_principals := Some (reg, store')\<rparr>
                in if ad_allowed d then
                     (Inr c, if sm_kind c \<in> {SC_START, SC_REPLACE_GOAL}
                             then s1\<lparr>ag_goal_principal_id := Some (pr_principal_id (ad_principal d))\<rparr> else s1)
                   else (Inr (as_message c (''admission_denied:'' @ command_value (sm_kind c) @ '':'' @ ad_reason d)),
                         trace_effect (denial_trace c d (ag_goal_principal_id s1)) s1))))"

definition degrade_unwired_dialogue :: "session_command \<Rightarrow> 's agent_session \<Rightarrow> session_command \<times> 's agent_session" where
  "degrade_unwired_dialogue c s =
     (if sm_kind c \<notin> UNWIRED_DIALOGUE_KINDS then (c, s)
      else (as_message c (''dialogue_unwired:'' @ command_value (sm_kind c)),
            trace_effect (Traced ''dialogue_command_unwired''
              [(''command'', JStr (command_value (sm_kind c))), (''sender'', JStr (sm_sender c))]) s))"

definition always_interrupts :: "session_command_kind \<Rightarrow> bool" where
  "always_interrupts k \<longleftrightarrow> k \<in> {SC_PAUSE, SC_CANCEL, SC_REPLACE_GOAL, SC_QUIT}"

text \<open>The generation of the running work is invalidated, which takes the Body from its holder; the model is halted.\<close>

definition preempt :: "string \<Rightarrow> rat \<Rightarrow> 's agent_session \<Rightarrow> 's agent_session" where
  "preempt reason now s =
     (case ag_parts s of
        None \<Rightarrow> s
      | Some body \<Rightarrow>
          (let s1 = s\<lparr>ag_parts := Some (external_invalidation reason now body)\<rparr>
           in if ag_has_kernel s then effect Kernel_Halted s1 else s1))"

definition supersede_for :: "work_intent_kind \<Rightarrow> work_queue \<Rightarrow> work_queue" where
  "supersede_for kind q =
     (if superseded_kinds_for kind = {} then q else snd (supersede (superseded_kinds_for kind) q))"

definition command_payload :: "session_command \<Rightarrow> json_object" where
  "command_payload c = [(''text'', JStr (sm_text c)), (''reason'', JStr (sm_reason c)), (''sender'', JStr (sm_sender c))]"

definition current_task_id :: "'s agent_session \<Rightarrow> string option" where
  "current_task_id s = (case ag_workspace s of
     None \<Rightarrow> None | Some (scope, store) \<Rightarrow> map_option tk_task_id (get_foreground_task scope store))"

definition current_generation :: "'s agent_session \<Rightarrow> int option" where
  "current_generation s = map_option (pa_generation \<circ> bc_authority) (ag_parts s)"

text \<open>The rest of \<open>submit\<close>, for a command that is admitted and wired.\<close>

definition submit_admitted ::
  "string \<Rightarrow> rat \<Rightarrow> string option \<Rightarrow> session_command \<Rightarrow> 's agent_session \<Rightarrow> (py_exn + work_intent) \<times> 's agent_session" where
  "submit_admitted fresh now dedupe_key c s =
     (case (case dedupe_key of None \<Rightarrow> None | Some k \<Rightarrow> get_by_dedupe k (ag_work_queue s)) of
        Some existing \<Rightarrow> (Inr existing, s)
      | None \<Rightarrow>
          (case intent_kind_of (sm_kind c) of
             Inl e \<Rightarrow> (Inl e, s)
           | Inr kind \<Rightarrow>
               (let reason = ''session_command:'' @ command_value (sm_kind c);
                    interrupts = ag_parts s \<noteq> None \<and> always_interrupts (sm_kind c);
                    s1 = (if interrupts then preempt reason now s else s);
                    source = (if sm_reason c \<noteq> [] then sm_reason c else command_value (sm_kind c));
                    (intent, q) = enqueue fresh kind source (command_payload c) dedupe_key (current_task_id s1)
                      (current_generation s1) (supersede_for kind (ag_work_queue s1));
                    s2 = s1\<lparr>ag_work_queue := q\<rparr>
                in (Inr intent, if interrupts then effect (Execution_Cancelled reason) s2 else s2))))"

definition submit ::
  "'s principal_store \<Rightarrow> string \<Rightarrow> rat \<Rightarrow> string option \<Rightarrow> session_command \<Rightarrow> 's agent_session
   \<Rightarrow> (py_exn + work_intent) \<times> 's agent_session" where
  "submit st fresh now dedupe_key c s =
     (case admit st c s of
        (Inl e, s1) \<Rightarrow> (Inl e, s1)
      | (Inr c1, s1) \<Rightarrow>
          (case degrade_unwired_dialogue c1 s1 of (c2, s2) \<Rightarrow> submit_admitted fresh now dedupe_key c2 s2))"

text \<open>A submission with the fresh id, the clock reading and the key it uses.\<close>

type_synonym submission = "string \<times> rat \<times> string option \<times> session_command"

fun submit_all :: "'s principal_store \<Rightarrow> submission list \<Rightarrow> 's agent_session \<Rightarrow> 's agent_session" where
  "submit_all st [] s = s"
| "submit_all st ((fresh, now, key, c) # rest) s = submit_all st rest (snd (submit st fresh now key c s))"

end
