(* ===== verification/Admission_Safety.thy ===== *)
theory Admission_Safety
  imports Admission
begin

text \<open>
  Who gets what a command asks for. The tiers of the names and the owner of the current goal are
  read off the configuration and the commands alone; a session decides as they say, whatever was
  submitted before. A command that its sender may not give is only talked about; an interrupt that
  is admitted takes the Body from its holder and everything of lower priority from the queue.
\<close>

section \<open>Tiers, owners and entitlement\<close>

definition tier_of :: "principal_registry \<Rightarrow> (string \<Rightarrow> principal_record option) \<Rightarrow> string option \<Rightarrow> trust_tier" where
  "tier_of reg known sender =
     (if sender_name sender = [] then OWNER
      else case known (sender_name sender) of None \<Rightarrow> configured_trust reg (sender_name sender) | Some r \<Rightarrow> pr_trust r)"

definition principal_name :: "string option \<Rightarrow> string" where
  "principal_name sender = (if sender_name sender = [] then OPERATOR_PRINCIPAL_ID else sender_name sender)"

text \<open>What a tier may ask for; \<open>own\<close> says that the current goal is the sender's.\<close>

definition may :: "trust_tier \<Rightarrow> bool \<Rightarrow> session_command_kind \<Rightarrow> bool" where
  "may tier own k \<longleftrightarrow> tier = OWNER \<or> k \<in> {SC_MESSAGE, SC_CONFIRM} \<or>
     (tier = FRIEND \<and> (k = SC_START \<or> (own \<and> k \<in> {SC_PAUSE, SC_CONTINUE, SC_CANCEL, SC_REPLACE_GOAL, SC_ABANDON})))"

definition entitled ::
  "principal_registry \<Rightarrow> (string \<Rightarrow> principal_record option) \<Rightarrow> string option \<Rightarrow> session_command \<Rightarrow> bool" where
  "entitled reg known work_owner c \<longleftrightarrow>
     may (tier_of reg known (Some (sm_sender c))) (work_owner = Some (principal_name (Some (sm_sender c)))) (sm_kind c)"

text \<open>The sender of the latest goal that its sender was entitled to set.\<close>

fun work_owner ::
  "principal_registry \<Rightarrow> (string \<Rightarrow> principal_record option) \<Rightarrow> string option \<Rightarrow> session_command list \<Rightarrow> string option" where
  "work_owner reg known current [] = current"
| "work_owner reg known current (c # cs) =
     work_owner reg known
       (if sm_kind c \<in> {SC_START, SC_REPLACE_GOAL} \<and> entitled reg known current c
        then Some (principal_name (Some (sm_sender c))) else current) cs"

lemma matrix_may:
  "(case admission_matrix tier (capability_of k) of Admitted \<Rightarrow> True | Refused \<Rightarrow> False | OWN_WORK_ONLY \<Rightarrow> own) \<longleftrightarrow>
     may tier own k"
  by (cases tier; cases k) (simp_all add: may_def)

lemma decide_allowed:
  "enforcing reg \<Longrightarrow> ad_allowed (decide reg (capability_of k) owner p) \<longleftrightarrow>
     may (pr_trust p) (owner = Some (pr_principal_id p)) k"
  using matrix_may [where tier = "pr_trust p" and k = k and own = "owner = Some (pr_principal_id p)"]
  by (cases "owner = Some (pr_principal_id p)") (simp_all add: decide_def Let_def split: matrix_entry.splits)

lemma decide_principal [simp]: "ad_principal (decide reg cap owner p) = p"
  by (simp add: decide_def Let_def split: matrix_entry.splits)

context principal_laws
begin

lemma resolve_tier:
  assumes "ok s" "resolve_principal st reg sender s = (x, s')"
  shows "\<exists>p. x = Inr p \<and> ok s' \<and> pr_trust p = tier_of reg (view s) sender \<and> pr_principal_id p = principal_name sender \<and>
    tier_of reg (view s') = tier_of reg (view s)"
proof (cases "sender_name sender = []")
  case True
  then show ?thesis
    using assms by (auto simp: resolve_operator tier_of_def principal_name_def new_principal_def)
next
  case False
  show ?thesis
  proof (cases "view s (sender_name sender)")
    case (Some r)
    then show ?thesis
      using assms False keyed [OF assms(1) Some] by (auto simp: resolve_known tier_of_def principal_name_def)
  next
    case None
    have "tier_of reg (view (ps_put st (new_principal (sender_name sender) PLAYER (configured_trust reg (sender_name sender))) s)) =
        tier_of reg (view s)"
      using None by (auto simp: fun_eq_iff tier_of_def put_view [OF assms(1)] new_principal_def)
    then show ?thesis
      using assms False None
      by (auto simp: resolve_new Let_def put_ok tier_of_def principal_name_def new_principal_def)
  qed
qed

end

section \<open>A submission\<close>

text \<open>The session's registry with its store: the tiers are those of \<open>known\<close>, the owner is \<open>owner\<close>.\<close>

definition keeps_tiers ::
  "('s \<Rightarrow> bool) \<Rightarrow> ('s \<Rightarrow> string \<Rightarrow> principal_record option) \<Rightarrow> principal_registry
   \<Rightarrow> (string \<Rightarrow> principal_record option) \<Rightarrow> string option \<Rightarrow> 's agent_session \<Rightarrow> bool" where
  "keeps_tiers ok view reg known owner s \<longleftrightarrow>
     (\<exists>store. ag_principals s = Some (reg, store) \<and> ok store \<and> tier_of reg (view store) = tier_of reg known) \<and>
     ag_goal_principal_id s = owner"

lemma degrade_fields [simp]:
  "ag_principals (snd (degrade_unwired_dialogue c s)) = ag_principals s"
  "ag_goal_principal_id (snd (degrade_unwired_dialogue c s)) = ag_goal_principal_id s"
  by (simp_all add: degrade_unwired_dialogue_def trace_effect_def effect_def)

lemma submit_admitted_fields [simp]:
  "ag_principals (snd (submit_admitted fresh now key c s)) = ag_principals s"
  "ag_goal_principal_id (snd (submit_admitted fresh now key c s)) = ag_goal_principal_id s"
  by (simp_all add: submit_admitted_def preempt_def effect_def Let_def split: option.split sum.split prod.split)

lemma submit_fields [simp]:
  "ag_principals (snd (submit st fresh now key c s)) = ag_principals (snd (admit st c s))"
  "ag_goal_principal_id (snd (submit st fresh now key c s)) = ag_goal_principal_id (snd (admit st c s))"
  by (simp_all add: submit_def case_prod_beta split: sum.split)

context principal_laws
begin

lemma admit_run:
  assumes "enforcing reg" and s: "keeps_tiers ok view reg known owner s"
  shows "keeps_tiers ok view reg known (work_owner reg known owner [c]) (snd (admit st c s)) \<and>
    (entitled reg known owner c \<longrightarrow> fst (admit st c s) = Inr c \<and>
       ag_work_queue (snd (admit st c s)) = ag_work_queue s \<and> ag_parts (snd (admit st c s)) = ag_parts s \<and>
       ag_workspace (snd (admit st c s)) = ag_workspace s \<and> ag_effects (snd (admit st c s)) = ag_effects s) \<and>
    (\<not> entitled reg known owner c \<longrightarrow>
       (\<exists>reason d store. reason \<noteq> [] \<and> fst (admit st c s) = Inr (as_message c reason) \<and>
          snd (admit st c s) = trace_effect (denial_trace c d owner) (s\<lparr>ag_principals := Some (reg, store)\<rparr>)))"
proof -
  obtain store where store: "ag_principals s = Some (reg, store)" "ok store" "tier_of reg (view store) = tier_of reg known"
      "ag_goal_principal_id s = owner"
    using s unfolding keeps_tiers_def by blast
  obtain x store' where r: "resolve_principal st reg (Some (sm_sender c)) store = (x, store')" by (rule prod.exhaust)
  obtain p where p: "x = Inr p" "ok store'" "pr_trust p = tier_of reg known (Some (sm_sender c))"
      "pr_principal_id p = principal_name (Some (sm_sender c))" "tier_of reg (view store') = tier_of reg known"
    using resolve_tier [OF store(2) r] store(3) by auto
  let ?d = "decide reg (capability_of (sm_kind c)) owner p"
  have allowed: "ad_allowed ?d \<longleftrightarrow> entitled reg known owner c"
    using decide_allowed [OF assms(1)] p by (simp add: entitled_def)
  let ?s = "s\<lparr>ag_principals := Some (reg, store')\<rparr>"
  have run: "admit st c s =
      (if entitled reg known owner c
       then (Inr c, if sm_kind c \<in> {SC_START, SC_REPLACE_GOAL}
                    then ?s\<lparr>ag_goal_principal_id := Some (principal_name (Some (sm_sender c)))\<rparr> else ?s)
       else (Inr (as_message c (''admission_denied:'' @ command_value (sm_kind c) @ '':'' @ ad_reason ?d)),
             trace_effect (denial_trace c ?d owner) ?s))"
    using store r p allowed by (simp add: admit_def evaluate_admission_def Let_def)
  have kept: "keeps_tiers ok view reg known owner ?s" using p store by (simp add: keeps_tiers_def)
  show ?thesis
  proof (cases "entitled reg known owner c")
    case True
    then show ?thesis using p store by (simp add: run keeps_tiers_def)
  next
    case False
    then have eq: "admit st c s = (Inr (as_message c (''admission_denied:'' @ command_value (sm_kind c) @ '':'' @ ad_reason ?d)),
        trace_effect (denial_trace c ?d owner) ?s)" unfolding run by simp
    have "keeps_tiers ok view reg known owner (trace_effect (denial_trace c ?d owner) ?s)"
      using kept by (simp add: keeps_tiers_def trace_effect_def effect_def)
    then show ?thesis using False unfolding eq by (simp del: append.simps) blast
  qed
qed

lemma denied_admission:
  assumes "enforcing reg" "keeps_tiers ok view reg known owner s" "\<not> entitled reg known owner c"
  shows "\<exists>reason d store. reason \<noteq> [] \<and> admit st c s =
    (Inr (as_message c reason), trace_effect (denial_trace c d owner) (s\<lparr>ag_principals := Some (reg, store)\<rparr>))"
  using admit_run [OF assms(1,2), of c] assms(3) by (metis prod.collapse)

lemma submit_all_tiers:
  "enforcing reg \<Longrightarrow> keeps_tiers ok view reg known owner s \<Longrightarrow>
     keeps_tiers ok view reg known (work_owner reg known owner (map (snd \<circ> snd \<circ> snd) subs)) (submit_all st subs s)"
proof (induction subs arbitrary: s owner)
  case (Cons a subs)
  obtain fresh now key c where a: "a = (fresh, now, key, c)" by (rule prod_cases4)
  have "keeps_tiers ok view reg known (work_owner reg known owner [c]) (snd (submit st fresh now key c s))"
    using conjunct1 [OF admit_run [OF Cons.prems, of c]]
    by (simp add: keeps_tiers_def)
  then show ?case using Cons.IH Cons.prems(1) by (simp add: a)
qed simp

end

section \<open>What a submission does\<close>

text \<open>The session after some submissions, and who owns the goal then.\<close>

definition owner_after ::
  "principal_registry \<Rightarrow> principal_record list \<Rightarrow> submission list \<Rightarrow> string option" where
  "owner_after reg records subs =
     work_owner reg (map_of (memory_principals records)) None (map (snd \<circ> snd \<circ> snd) subs)"

definition opens_with :: "principal_registry \<Rightarrow> principal_record list \<Rightarrow> memory_principals agent_session \<Rightarrow> bool" where
  "opens_with reg records s \<longleftrightarrow>
     ag_principals s = Some (reg, memory_principals records) \<and> ag_goal_principal_id s = None"

lemma memory_principals_ok: "memory_ok (memory_principals records)"
proof -
  have "memory_ok d \<Longrightarrow> memory_ok (foldl (\<lambda>d r. AList.update (pr_principal_id r) r d) d records)" for d
    by (induction records arbitrary: d) (simp_all add: memory_ok_put flip: memory_put_def)
  then show ?thesis unfolding memory_principals_def by (simp add: memory_ok_def [of "[]"])
qed

lemma session_tiers:
  assumes "enforcing reg" "opens_with reg records s0"
  shows "keeps_tiers memory_ok map_of reg (map_of (memory_principals records)) (owner_after reg records subs)
    (submit_all memory_store subs s0)"
  unfolding owner_after_def
  by (rule memory.submit_all_tiers [OF assms(1)])
    (use assms(2) memory_principals_ok in \<open>simp add: keeps_tiers_def opens_with_def\<close>)

lemma submit_message:
  assumes "sm_kind c = SC_MESSAGE"
  shows "submit_admitted fresh now key c s =
    (case (case key of None \<Rightarrow> None | Some k \<Rightarrow> get_by_dedupe k (ag_work_queue s)) of
       Some existing \<Rightarrow> (Inr existing, s)
     | None \<Rightarrow> map_prod Inr (\<lambda>q. s\<lparr>ag_work_queue := q\<rparr>)
         (enqueue fresh WK_MESSAGE (if sm_reason c \<noteq> [] then sm_reason c else ''message'') (command_payload c) key
            (current_task_id s) (current_generation s) (ag_work_queue s)))"
proof -
  have "superseded_kinds_for WK_MESSAGE = {}" by (simp add: superseded_kinds_for_def CONTROL_INTENT_KINDS_def)
  then show ?thesis
    using assms
    by (simp add: submit_admitted_def intent_kind_of_def always_interrupts_def supersede_for_def Let_def map_prod_def
        split: option.split prod.split)
qed

text \<open>
  C30. A command whose sender may not give it is only talked about: whatever was submitted before, no
  generation is invalidated, the Body keeps its holder, the goal and the task stay whose they are, no
  run is cancelled and nothing is taken from the queue. All that happens is a message that repeats
  the request, or nothing when its key was used before.
\<close>

theorem denied_command_is_only_talk:
  fixes s0 :: "memory_principals agent_session"
  assumes enforced: "enforcing reg" and start: "opens_with reg records s0"
    and denied: "\<not> entitled reg (map_of (memory_principals records)) (owner_after reg records subs) c"
    and run: "submit memory_store fresh now key c (submit_all memory_store subs s0) = (x, s')"
  shows "let s = submit_all memory_store subs s0 in
    ag_parts s' = ag_parts s \<and> ag_workspace s' = ag_workspace s \<and> ag_goal_principal_id s' = ag_goal_principal_id s \<and>
    (\<exists>traces. ag_effects s' = ag_effects s @ map (Traced ''admission_denied'') traces) \<and>
    (\<exists>intent. x = Inr intent \<and>
       (if key \<noteq> None \<and> get_by_dedupe (the key) (ag_work_queue s) = Some intent then ag_work_queue s' = ag_work_queue s
        else \<exists>reason task generation.
          enqueue fresh WK_MESSAGE reason (command_payload (as_message c reason)) key task generation (ag_work_queue s) =
            (intent, ag_work_queue s')))"
proof -
  define s where "s = submit_all memory_store subs s0"
  obtain reason d store where a: "admit memory_store c s =
      (Inr (as_message c reason), trace_effect (denial_trace c d (owner_after reg records subs)) (s\<lparr>ag_principals := Some (reg, store)\<rparr>))"
      and r: "reason \<noteq> []"
    using memory.denied_admission [OF enforced session_tiers [OF enforced start] denied] unfolding s_def by blast
  define t where "t = trace_effect (denial_trace c d (owner_after reg records subs)) (s\<lparr>ag_principals := Some (reg, store)\<rparr>)"
  have t: "ag_parts t = ag_parts s" "ag_workspace t = ag_workspace s" "ag_work_queue t = ag_work_queue s"
      "ag_goal_principal_id t = ag_goal_principal_id s"
      "\<exists>traces. ag_effects t = ag_effects s @ map (Traced ''admission_denied'') traces"
    by (auto simp: t_def trace_effect_def effect_def denial_trace_def intro: exI [of _ "[]"] exI [of _ "[_]"])
  have m: "sm_kind (as_message c reason) = SC_MESSAGE" "sm_reason (as_message c reason) = reason"
    by (simp_all add: as_message_def)
  have run': "submit_admitted fresh now key (as_message c reason) t = (x, s')"
    using run unfolding s_def [symmetric] by (simp add: submit_def a t_def degrade_unwired_dialogue_def UNWIRED_DIALOGUE_KINDS_def m)
  obtain intent q where enq: "enqueue fresh WK_MESSAGE reason (command_payload (as_message c reason)) key
      (current_task_id t) (current_generation t) (ag_work_queue s) = (intent, q)" by (rule prod.exhaust)
  show ?thesis
  proof (cases "case key of None \<Rightarrow> None | Some k \<Rightarrow> get_by_dedupe k (ag_work_queue s)")
    case None
    have out: "x = Inr intent" "s' = t\<lparr>ag_work_queue := q\<rparr>"
      using run' None r enq unfolding submit_message [OF m(1)] m(2) t(3) by simp_all
    have "\<not> (key \<noteq> None \<and> get_by_dedupe (the key) (ag_work_queue s) = Some intent)" using None by auto
    then show ?thesis unfolding s_def [symmetric] Let_def out using t enq by auto
  next
    case (Some existing)
    have "x = Inr existing" "s' = t" using run' Some unfolding submit_message [OF m(1)] t(3) by simp_all
    then show ?thesis unfolding s_def [symmetric] Let_def using t Some by (auto split: option.splits)
  qed
qed

section \<open>An admitted interrupt\<close>

lemma invalidated_body_has_no_owner: "\<not> owns claim_id g (external_invalidation reason now body)"
  by (simp add: owns_def external_invalidation_def on_generation_invalidated_def Let_def)

lemma still_queued:
  assumes "(k, r) \<in> set (wq_records (supersede_for kind q))" "queued r"
  shows "wi_kind r \<notin> superseded_kinds_for kind"
  using assms
  by (auto simp: supersede_for_def supersede_def superseded_def queued_def Let_def split: if_splits)

lemma not_superseded:
  "kind \<in> CONTROL_INTENT_KINDS \<Longrightarrow> c \<notin> superseded_kinds_for kind \<Longrightarrow> intent_priority kind \<le> intent_priority c"
proof -
  assume kind: "kind \<in> CONTROL_INTENT_KINDS" and c: "c \<notin> superseded_kinds_for kind"
  have "c \<in> set all_kinds" by (cases c) (simp_all add: all_kinds_def)
  then show ?thesis using kind c by (auto simp: superseded_kinds_for_def)
qed

text \<open>A key that no record of the queue has\<close>

definition unused_key :: "string option \<Rightarrow> work_queue \<Rightarrow> bool" where
  "unused_key key q \<longleftrightarrow> (\<forall>k. key = Some k \<longrightarrow> (\<forall>(i, r)\<in>set (wq_records q). wi_dedupe_key r \<noteq> Some k))"

lemma unused_key_not_found:
  "unused_key key q \<Longrightarrow> (case key of None \<Rightarrow> None | Some k \<Rightarrow> find_dedupe k (map snd (wq_records q))) = None"
  by (auto simp: unused_key_def find_dedupe_def find_None_iff split: option.split)

lemma unused_key_no_entry:
  assumes "unused_key key q"
  shows "(case key of None \<Rightarrow> None | Some k \<Rightarrow> get_by_dedupe k q) = None"
proof (cases key)
  case (Some k)
  have "wi_dedupe_key r \<noteq> Some k" if "r \<in> set (somes (map (map_of (wq_records q)) (wq_order q)))" for r
  proof -
    from that obtain i where "map_of (wq_records q) i = Some r" by (auto simp: image_iff dest: sym)
    then show ?thesis using assms Some by (auto simp: unused_key_def dest: map_of_SomeD)
  qed
  then show ?thesis using Some by (auto simp: get_by_dedupe_def find_dedupe_def find_None_iff)
qed simp

lemma unused_key_supersede: "unused_key key q \<Longrightarrow> unused_key key (supersede_for kind q)"
  by (auto simp: unused_key_def supersede_for_def supersede_def refresh_available_def Let_def split: if_splits)

lemma enqueued_records:
  assumes "enqueue fresh kind source payload key task generation q = (intent, q')" "unused_key key q" "(k, r) \<in> set (wq_records q')"
  shows "r = intent \<or> (k, r) \<in> set (wq_records q)"
  using assms(1,3) unfolding enqueue_def unused_key_not_found [OF assms(2)]
  by (auto simp: store_record_def Let_def dest!: set_update_cases)

text \<open>
  C31. An interrupt (pause, cancel, replace, quit) whose sender may give it stops the work at once. When
  it carries no key, or one that no intent of the queue has: after the submission nobody owns the Body
  under any claim or generation, the running turn is asked to cancel, the command itself is queued, and
  nothing that is still queued has a lower priority. When its key was used before, the command was
  submitted already: the earlier intent is the answer, and the Body and the queue stay as they are.
\<close>

theorem admitted_interrupt_stops_the_work:
  fixes s0 :: "memory_principals agent_session"
  assumes enforced: "enforcing reg" and start: "opens_with reg records s0"
    and allowed: "entitled reg (map_of (memory_principals records)) (owner_after reg records subs) c"
    and interrupt: "sm_kind c \<in> {SC_PAUSE, SC_CANCEL, SC_REPLACE_GOAL, SC_QUIT}"
    and parts: "ag_parts (submit_all memory_store subs s0) = Some body"
    and run: "submit memory_store fresh now key c (submit_all memory_store subs s0) = (x, s')"
  shows "let q = ag_work_queue (submit_all memory_store subs s0) in
    (unused_key key q \<longrightarrow>
      (\<exists>intent body'. x = Inr intent \<and> intent_kind_of (sm_kind c) = Inr (wi_kind intent) \<and> wi_payload intent = command_payload c \<and>
        ag_parts s' = Some body' \<and> (\<forall>claim_id g. \<not> owns claim_id g body') \<and>
        (\<exists>reason. Execution_Cancelled reason \<in> set (ag_effects s')) \<and>
        (\<forall>(k, r) \<in> set (wq_records (ag_work_queue s')).
           queued r \<longrightarrow> r = intent \<or> intent_priority (wi_kind intent) \<le> intent_priority (wi_kind r)))) \<and>
    (\<forall>k existing. key = Some k \<and> get_by_dedupe k q = Some existing \<longrightarrow>
      x = Inr existing \<and> ag_parts s' = Some body \<and> ag_work_queue s' = q)"
proof -
  define s where "s = submit_all memory_store subs s0"
  obtain t where t: "admit memory_store c s = (Inr c, t)" "ag_work_queue t = ag_work_queue s" "ag_parts t = Some body"
    using memory.admit_run [OF enforced session_tiers [OF enforced start], of subs c] allowed parts
    unfolding s_def by (metis prod.collapse)
  obtain kind where kind: "intent_kind_of (sm_kind c) = Inr kind" "kind \<in> CONTROL_INTENT_KINDS"
    using interrupt by (auto simp: intent_kind_of_def CONTROL_INTENT_KINDS_def)
  let ?reason = "''session_command:'' @ command_value (sm_kind c)"
  let ?u = "preempt ?reason now t"
  obtain intent q where enq: "enqueue fresh kind (if sm_reason c \<noteq> [] then sm_reason c else command_value (sm_kind c))
      (command_payload c) key (current_task_id ?u) (current_generation ?u) (supersede_for kind (ag_work_queue ?u)) = (intent, q)"
    by (rule prod.exhaust)
  have submitted: "submit_admitted fresh now key c t = (x, s')"
    using run interrupt unfolding s_def [symmetric]
    by (auto simp: submit_def t degrade_unwired_dialogue_def UNWIRED_DIALOGUE_KINDS_def)
  have stopped: "\<exists>intent body'. x = Inr intent \<and> intent_kind_of (sm_kind c) = Inr (wi_kind intent) \<and> wi_payload intent = command_payload c \<and>
      ag_parts s' = Some body' \<and> (\<forall>claim_id g. \<not> owns claim_id g body') \<and>
      (\<exists>reason. Execution_Cancelled reason \<in> set (ag_effects s')) \<and>
      (\<forall>(k, r) \<in> set (wq_records (ag_work_queue s')).
         queued r \<longrightarrow> r = intent \<or> intent_priority (wi_kind intent) \<le> intent_priority (wi_kind r))"
    if unused: "unused_key key (ag_work_queue s)"
  proof -
    have "ag_work_queue ?u = ag_work_queue s" using t by (simp add: preempt_def effect_def Let_def)
    then have q: "unused_key key (supersede_for kind (ag_work_queue ?u))" using unused_key_supersede [OF unused] by simp
    have none: "(case key of None \<Rightarrow> None | Some k \<Rightarrow> get_by_dedupe k (ag_work_queue t)) = None"
      unfolding t(2) by (rule unused_key_no_entry [OF unused])
    have out: "x = Inr intent" "s' = effect (Execution_Cancelled ?reason) (?u\<lparr>ag_work_queue := q\<rparr>)"
      using submitted [unfolded submit_admitted_def none kind option.case sum.case Let_def] enq interrupt t(3)
      by (simp_all add: always_interrupts_def)
    have intent: "wi_kind intent = kind" "wi_payload intent = command_payload c"
      using enq unfolding enqueue_def unused_key_not_found [OF q] by (auto simp: Let_def)
    have body: "ag_parts s' = Some (external_invalidation ?reason now body)"
      using t(3) by (simp add: out effect_def preempt_def Let_def)
    have "intent_priority kind \<le> intent_priority (wi_kind r)"
      if "(k, r) \<in> set (wq_records q)" "queued r" "r \<noteq> intent" for k r
      using enqueued_records [OF enq q that(1)] that not_superseded [OF kind(2) still_queued] by blast
    then have rest: "\<forall>(k, r) \<in> set (wq_records q). queued r \<longrightarrow> r = intent \<or> intent_priority kind \<le> intent_priority (wi_kind r)"
      by blast
    show ?thesis
      using out(1) kind(1) intent body invalidated_body_has_no_owner rest
      by (intro exI [of _ intent] exI [of _ "external_invalidation ?reason now body"]) (auto simp: out(2) effect_def)
  qed
  have "x = Inr existing \<and> ag_parts s' = Some body \<and> ag_work_queue s' = ag_work_queue s"
    if "key = Some k" "get_by_dedupe k (ag_work_queue s) = Some existing" for k existing
    using submitted that t by (simp add: submit_admitted_def)
  then show ?thesis using stopped unfolding s_def [symmetric] Let_def by blast
qed

section \<open>Applications\<close>

text \<open>Ada owns the agent, Bob is her friend; a goal of Ada's is at work.\<close>

definition house :: principal_registry where
  "house = \<lparr>rg_owners = {''Ada''}, rg_friends = {''Bob''}, rg_default_trust = STRANGER\<rparr>"

definition said :: "session_command_kind \<Rightarrow> string \<Rightarrow> session_command" where
  "said k who = \<lparr>sm_kind = k, sm_text = ''build a wall'', sm_reason = [], sm_sender = who\<rparr>"

definition idle_session :: "memory_principals agent_session" where
  "idle_session = \<lparr>ag_principals = Some (house, []), ag_goal_principal_id = None, ag_work_queue = queue_init,
     ag_parts = Some (new_body_control new_authority 0), ag_has_kernel = True, ag_workspace = None, ag_effects = []\<rparr>"

definition adas_goal :: "submission list" where
  "adas_goal = [(''1'', 0, None, said SC_START ''Ada'')]"

lemma house_rules:
  "enforcing house" "opens_with house [] idle_session"
  "\<not> entitled house (map_of (memory_principals [])) (owner_after house [] adas_goal) (said SC_CANCEL ''Bob'')"
  "entitled house (map_of (memory_principals [])) (owner_after house [] adas_goal) (said SC_CANCEL ''Ada'')"
  by (simp add: enforcing_def house_def) (simp add: opens_with_def idle_session_def memory_principals_def, code_simp+)

theorem denied_command_is_only_talk_witness:
  "ag_parts (snd (submit memory_store ''2'' 1 None (said SC_CANCEL ''Bob'') (submit_all memory_store adas_goal idle_session))) =
     ag_parts (submit_all memory_store adas_goal idle_session)"
proof -
  obtain x s' where run: "submit memory_store ''2'' 1 None (said SC_CANCEL ''Bob'') (submit_all memory_store adas_goal idle_session) = (x, s')"
    by (rule prod.exhaust)
  show ?thesis using denied_command_is_only_talk [OF house_rules(1,2,3) run] by (simp add: run Let_def)
qed

lemma idle_parts: "ag_parts (submit_all memory_store adas_goal idle_session) \<noteq> None"
  by code_simp

lemma idle_key_unused: "unused_key (Some ''chat-7'') (ag_work_queue (submit_all memory_store adas_goal idle_session))"
proof -
  have "list_all (\<lambda>(i, r). wi_dedupe_key r \<noteq> Some ''chat-7'') (wq_records (ag_work_queue (submit_all memory_store adas_goal idle_session)))"
    by code_simp
  then show ?thesis by (simp add: unused_key_def list_all_iff)
qed

theorem admitted_interrupt_stops_the_work_witness:
  "\<exists>body'. ag_parts (snd (submit memory_store ''2'' 1 (Some ''chat-7'') (said SC_CANCEL ''Ada'') (submit_all memory_store adas_goal idle_session))) =
     Some body' \<and> (\<forall>claim_id g. \<not> owns claim_id g body')"
proof -
  obtain x s' where run: "submit memory_store ''2'' 1 (Some ''chat-7'') (said SC_CANCEL ''Ada'') (submit_all memory_store adas_goal idle_session) = (x, s')"
    by (rule prod.exhaust)
  obtain body where body: "ag_parts (submit_all memory_store adas_goal idle_session) = Some body" using idle_parts by blast
  have "sm_kind (said SC_CANCEL ''Ada'') \<in> {SC_PAUSE, SC_CANCEL, SC_REPLACE_GOAL, SC_QUIT}" by (simp add: said_def)
  from admitted_interrupt_stops_the_work [OF house_rules(1,2,4) this body run] idle_key_unused
  show ?thesis unfolding run snd_conv Let_def by blast
qed

text \<open>
  A friend takes over the owner's goal by asking for a goal. Her task is in the foreground, so the
  workspace refuses to start his; but he is the owner of the work from his admission on, and his
  cancellation, which was only talk before, is admitted.
\<close>

definition home :: runtime_scope where
  "home = \<lparr>sc_server_id = ''s'', sc_world_id = ''w'', sc_bot_id = ''b'', sc_key = ''home''\<rparr>"

definition adas_store :: runtime_store where
  "adas_store = snd (create_task home ''1'' ''build a wall'' ''start'' ''Ada'' TK_RUNNING ''1'' empty_store)"

lemma friend_takes_over_by_asking:
  "let bobs_goal = [(''2'', 1, None, said SC_START ''Bob'')];
       cancelled = (\<lambda>subs. map_sum id wi_kind (fst (submit memory_store ''3'' 2 None (said SC_CANCEL ''Bob'')
         (submit_all memory_store subs idle_session))))
   in cancelled adas_goal = Inr WK_MESSAGE \<and> cancelled (adas_goal @ bobs_goal) = Inr WK_CANCEL \<and>
      fst (create_task home ''2'' ''build a wall'' ''start'' ''Bob'' TK_RUNNING ''2'' adas_store) = Inl (ForegroundExists ''home'') \<and>
      map_option tk_requested_by (get_foreground_task home adas_store) = Some ''Ada''"
  unfolding Let_def by (intro conjI; code_simp)

end
