(* ===== verification/Dialogue.thy ===== *)
theory Dialogue
  imports Admission
begin

text \<open>
  In-game dialogue, \<open>minebot/app/dialogue.py\<close>: the grammar of authority commands, the slots of
  pending confirmations and the windows that decide whether a line is meant for the agent. Clock
  readings and fresh tokens are arguments. Nothing calls this module yet but its tests.
\<close>

section \<open>Authority commands\<close>

definition CONFIRMATION_TTL_S :: rat where
  "CONFIRMATION_TTL_S = 60"

definition ADDRESSING_WINDOW_S :: rat where
  "ADDRESSING_WINDOW_S = 90"

definition ADDRESSING_MAX_EXCHANGES :: int where
  "ADDRESSING_MAX_EXCHANGES = 3"

definition TRUST_TIERS :: "string list" where
  "TRUST_TIERS = [''owner'', ''friend'', ''stranger'']"

definition STANCE_KINDS :: "string list" where
  "STANCE_KINDS = [''guard'', ''follow'', ''standby'', ''none'']"

record authority_command =
  au_kind :: session_command_kind
  au_args :: "(string, string) pydict"
  au_raw :: string

definition session_command_of :: "authority_command \<Rightarrow> string \<Rightarrow> session_command" where
  "session_command_of a sender =
     \<lparr>sm_kind = au_kind a, sm_text = au_raw a, sm_reason = ''dialogue_authority'', sm_sender = sender\<rparr>"

definition authority_grammar_enabled :: "principal_registry option \<Rightarrow> bool" where
  "authority_grammar_enabled reg = (case reg of None \<Rightarrow> False | Some r \<Rightarrow> enforcing r)"

definition plausible_player_name :: "string \<Rightarrow> bool" where
  "plausible_player_name name \<longleftrightarrow> name \<noteq> [] \<and> length name \<le> 32 \<and> \<not> prefix ''/'' name"

text \<open>\<open>pair.partition('=')\<close>: the text before the first sign, and the text after it when there is one\<close>

fun partition_equals :: "string \<Rightarrow> string \<times> string option" where
  "partition_equals [] = ([], None)"
| "partition_equals (c # cs) = (if c = CHR ''='' then ([], Some cs) else apfst (Cons c) (partition_equals cs))"

fun stance_params :: "(string, string) pydict \<Rightarrow> string list \<Rightarrow> (string, string) pydict option" where
  "stance_params params [] = Some params"
| "stance_params params (pair # pairs) =
     (case partition_equals pair of
        (key, Some value) \<Rightarrow>
          (if key = [] \<or> value = [] then None else stance_params (AList.update (casefold key) value params) pairs)
      | (_, None) \<Rightarrow> None)"

text \<open>\<open>{'stance': stance, **params}\<close>: a parameter named \<open>stance\<close> replaces the first entry.\<close>

definition spread_args :: "(string, string) pydict \<Rightarrow> (string, string) pydict \<Rightarrow> (string, string) pydict" where
  "spread_args base params = foldl (\<lambda>d (k, v). AList.update k v d) base params"

definition parse_authority_command :: "string \<Rightarrow> authority_command option" where
  "parse_authority_command line =
     (let text' = strip line; parts = split_words [] text'
      in if \<not> prefix ''/'' text' then None
         else (let word = casefold (hd parts); answer = (\<lambda>k args. Some \<lparr>au_kind = k, au_args = args, au_raw = text'\<rparr>)
           in if word = ''/trust'' then
                (if length parts \<noteq> 3 then None
                 else let player = parts ! 1; tier = casefold (parts ! 2)
                   in if tier \<notin> set TRUST_TIERS \<or> \<not> plausible_player_name player then None
                      else answer SC_TRUST [(''player'', player), (''tier'', tier)])
              else if word = ''/stance'' then
                (if length parts < 2 then None
                 else let stance = casefold (parts ! 1)
                   in if stance \<notin> set STANCE_KINDS then None
                      else (case stance_params [] (drop 2 parts) of
                          None \<Rightarrow> None
                        | Some params \<Rightarrow>
                            if stance = ''none'' \<and> params \<noteq> [] then None
                            else answer SC_STANCE (spread_args [(''stance'', stance)] params)))
              else if word = ''/abandon'' then
                (let reason = join '' '' (tl parts)
                 in answer SC_ABANDON (if reason \<noteq> [] then [(''reason'', reason)] else []))
              else if word = ''/confirm'' then
                (if length parts \<noteq> 2 then None else answer SC_CONFIRM [(''token'', parts ! 1)])
              else None))"

section \<open>Pending confirmations\<close>

record pending_action =
  pc_principal_id :: string
  pc_action :: session_command
  pc_token :: string
  pc_created_at_s :: rat
  pc_expires_at_s :: rat

type_synonym slots = "(string, pending_action) pydict"

datatype confirmation_status = CONFIRMED | NO_PENDING | TOKEN_MISMATCH | EXPIRED

fun confirmation_value :: "confirmation_status \<Rightarrow> string" where
  "confirmation_value CONFIRMED = ''confirmed''"
| "confirmation_value NO_PENDING = ''no_pending''"
| "confirmation_value TOKEN_MISMATCH = ''token_mismatch''"
| "confirmation_value EXPIRED = ''expired''"

text \<open>\<open>ConfirmationSlots(ttl_s=...)\<close> rejects a time to live that is not positive.\<close>

definition new_slots :: "rat \<Rightarrow> py_exn + slots" where
  "new_slots ttl_s = (if ttl_s \<le> 0 then Inl ValueError else Inr [])"

definition request_confirmation ::
  "rat \<Rightarrow> string \<Rightarrow> session_command \<Rightarrow> rat \<Rightarrow> string \<Rightarrow> slots \<Rightarrow> pending_action \<times> slots" where
  "request_confirmation ttl_s principal_id action now token s =
     (let pending = \<lparr>pc_principal_id = principal_id, pc_action = action, pc_token = token, pc_created_at_s = now,
            pc_expires_at_s = now + ttl_s\<rparr>
      in (pending, AList.update principal_id pending s))"

definition confirm_slot ::
  "string \<Rightarrow> string \<Rightarrow> rat \<Rightarrow> slots \<Rightarrow> (confirmation_status \<times> pending_action option) \<times> slots" where
  "confirm_slot principal_id token now s =
     (case map_of s principal_id of
        None \<Rightarrow> ((NO_PENDING, None), s)
      | Some pending \<Rightarrow>
          (if now \<ge> pc_expires_at_s pending then ((EXPIRED, Some pending), AList.delete (pc_principal_id pending) s)
           else if token \<noteq> pc_token pending then ((TOKEN_MISMATCH, None), s)
           else ((CONFIRMED, Some pending), AList.delete (pc_principal_id pending) s)))"

definition pending_for :: "string \<Rightarrow> slots \<Rightarrow> pending_action option" where
  "pending_for principal_id s = map_of s principal_id"

section \<open>Who is spoken to\<close>

definition ascii_word_char :: "char \<Rightarrow> bool" where
  "ascii_word_char c \<longleftrightarrow> (let n = (of_char c :: nat) in
     (48 \<le> n \<and> n \<le> 57) \<or> (65 \<le> n \<and> n \<le> 90) \<or> (97 \<le> n \<and> n \<le> 122) \<or> n = 95)"

text \<open>\<open>haystack.find(needle, start)\<close>\<close>

definition find_text :: "string \<Rightarrow> string \<Rightarrow> nat \<Rightarrow> nat option" where
  "find_text needle haystack start = find (\<lambda>i. prefix needle (drop i haystack)) [start..<Suc (length haystack)]"

definition stands_alone :: "string \<Rightarrow> nat \<Rightarrow> string \<Rightarrow> bool" where
  "stands_alone needle i haystack \<longleftrightarrow>
     \<not> (i > 0 \<and> ascii_word_char (haystack ! (i - 1))) \<and>
     \<not> (i + length needle < length haystack \<and> ascii_word_char (haystack ! (i + length needle)))"

lemma find_upt_Some: "find P [a..<b] = Some i \<Longrightarrow> a \<le> i \<and> i < b \<and> P i \<and> (\<forall>j. a \<le> j \<longrightarrow> j < i \<longrightarrow> \<not> P j)"
proof -
  assume "find P [a..<b] = Some i"
  then obtain k where k: "k < b - a" "P (a + k)" "i = a + k" "\<forall>j<k. \<not> P (a + j)"
    unfolding find_Some_iff by (auto simp del: upt_Suc)
  have "\<not> P j" if "a \<le> j" "j < i" for j
    using k(4) [rule_format, of "j - a"] that k(3) by simp
  with k show ?thesis by auto
qed

lemma find_text_Some:
  "find_text needle haystack start = Some i \<Longrightarrow>
     start \<le> i \<and> i \<le> length haystack \<and> prefix needle (drop i haystack) \<and>
     (\<forall>j. start \<le> j \<longrightarrow> j < i \<longrightarrow> \<not> prefix needle (drop j haystack))"
  unfolding find_text_def by (drule find_upt_Some) auto

function mention_at :: "string \<Rightarrow> string \<Rightarrow> nat \<Rightarrow> bool" where
  "mention_at needle haystack start =
     (case find_text needle haystack start of
        None \<Rightarrow> False
      | Some i \<Rightarrow> stands_alone needle i haystack \<or> mention_at needle haystack (i + 1))"
  by pat_completeness auto
termination
  by (relation "measure (\<lambda>(needle, haystack, start). Suc (length haystack) - start)")
    (auto dest: find_text_Some)

declare mention_at.simps [simp del]

definition mentions_name :: "string \<Rightarrow> string \<Rightarrow> bool" where
  "mentions_name text' name \<longleftrightarrow> casefold name \<noteq> [] \<and> mention_at (casefold name) (casefold text') 0"

record addressing_window =
  aw_opened_at_s :: rat
  aw_exchanges_used :: int

type_synonym addressing_windows = "(string, addressing_window) pydict"

datatype addressing_reason = MENTION | CONVERSATION_WINDOW | AMBIENT

fun addressed :: "addressing_reason \<Rightarrow> bool" where
  "addressed MENTION = True"
| "addressed CONVERSATION_WINDOW = True"
| "addressed AMBIENT = False"

definition record_bot_reply :: "string \<Rightarrow> rat \<Rightarrow> addressing_windows \<Rightarrow> addressing_windows" where
  "record_bot_reply sender now s = AList.update sender \<lparr>aw_opened_at_s = now, aw_exchanges_used = 0\<rparr> s"

definition decide_addressing ::
  "rat \<Rightarrow> int \<Rightarrow> string \<Rightarrow> string \<Rightarrow> string \<Rightarrow> rat \<Rightarrow> addressing_windows \<Rightarrow> addressing_reason \<times> addressing_windows" where
  "decide_addressing window_s max_exchanges text' sender bot_name now s =
     (if mentions_name text' bot_name then (MENTION, s)
      else (case map_of s sender of
          None \<Rightarrow> (AMBIENT, s)
        | Some w \<Rightarrow>
            (if \<not> now - aw_opened_at_s w > window_s \<and> \<not> aw_exchanges_used w \<ge> max_exchanges
             then (CONVERSATION_WINDOW, AList.update sender (w\<lparr>aw_exchanges_used := aw_exchanges_used w + 1\<rparr>) s)
             else (AMBIENT, AList.delete sender s))))"

end
