(* ===== verification/Dialogue_Safety.thy ===== *)
theory Dialogue_Safety
  imports Dialogue
begin

text \<open>
  A confirmation is for the latest request of the same principal, with its token, before it expires,
  and once; a name is mentioned exactly when it stands alone in the line; and a reply of the agent
  opens a window for a bounded number of lines and a bounded time.
\<close>

section \<open>Confirmations\<close>

datatype slot_op =
    RequestConfirmation string session_command rat string
  | Confirm string string rat

type_synonym slot_log = "(slot_op \<times> (confirmation_status \<times> pending_action option) option) list"

text \<open>The requests and confirmations in their order, each with its answer.\<close>

inductive slot_steps :: "rat \<Rightarrow> slot_log \<Rightarrow> slots \<Rightarrow> bool" for ttl_s :: rat where
  slots_new: "new_slots ttl_s = Inr s \<Longrightarrow> slot_steps ttl_s [] s"
| slots_request: "slot_steps ttl_s trail s \<Longrightarrow> request_confirmation ttl_s who action now token s = (pending, s') \<Longrightarrow>
    slot_steps ttl_s (trail @ [(RequestConfirmation who action now token, None)]) s'"
| slots_confirm: "slot_steps ttl_s trail s \<Longrightarrow> confirm_slot who token now s = (answer, s') \<Longrightarrow>
    slot_steps ttl_s (trail @ [(Confirm who token now, Some answer)]) s'"

inductive_cases slot_steps_snoc: "slot_steps ttl_s (trail @ [x]) s"

fun principal_of :: "slot_op \<Rightarrow> string" where
  "principal_of (RequestConfirmation who _ _ _) = who"
| "principal_of (Confirm who _ _) = who"

text \<open>What a principal's slot holds: the latest request, since which only wrong tokens were tried.\<close>

definition open_request :: "rat \<Rightarrow> slot_log \<Rightarrow> string \<Rightarrow> pending_action \<Rightarrow> bool" where
  "open_request ttl_s trail who pending \<longleftrightarrow>
     (\<exists>before after action now token. trail = before @ (RequestConfirmation who action now token, None) # after \<and>
        pending = \<lparr>pc_principal_id = who, pc_action = action, pc_token = token, pc_created_at_s = now,
                    pc_expires_at_s = now + ttl_s\<rparr> \<and>
        (\<forall>(op, answer) \<in> set after. principal_of op = who \<longrightarrow> answer = Some (TOKEN_MISMATCH, None)))"

lemma open_request_later:
  "open_request ttl_s trail who pending \<Longrightarrow> principal_of op = who \<longrightarrow> answer = Some (TOKEN_MISMATCH, None) \<Longrightarrow>
     open_request ttl_s (trail @ [(op, answer)]) who pending"
  unfolding open_request_def
proof (elim exE conjE)
  fix before after action now token
  assume "trail = before @ (RequestConfirmation who action now token, None) # after"
    "pending = \<lparr>pc_principal_id = who, pc_action = action, pc_token = token, pc_created_at_s = now, pc_expires_at_s = now + ttl_s\<rparr>"
    "\<forall>(op, answer) \<in> set after. principal_of op = who \<longrightarrow> answer = Some (TOKEN_MISMATCH, None)"
    "principal_of op = who \<longrightarrow> answer = Some (TOKEN_MISMATCH, None)"
  then show "\<exists>before after action now token. trail @ [(op, answer)] = before @ (RequestConfirmation who action now token, None) # after \<and>
      pending = \<lparr>pc_principal_id = who, pc_action = action, pc_token = token, pc_created_at_s = now, pc_expires_at_s = now + ttl_s\<rparr> \<and>
      (\<forall>(op, answer) \<in> set after. principal_of op = who \<longrightarrow> answer = Some (TOKEN_MISMATCH, None))"
    by (intro exI [of _ before] exI [of _ "after @ [(op, answer)]"] exI [of _ action] exI [of _ now] exI [of _ token]) auto
qed

lemma slots_hold_open_requests:
  "slot_steps ttl_s trail s \<Longrightarrow> map_of s who = Some pending \<Longrightarrow> open_request ttl_s trail who pending"
proof (induction arbitrary: who pending rule: slot_steps.induct)
  case (slots_new s)
  then show ?case by (auto simp: new_slots_def split: if_splits)
next
  case (slots_request trail s who' action now token pending' s')
  show ?case
  proof (cases "who = who'")
    case True
    then show ?thesis
      using slots_request unfolding open_request_def
      by (intro exI [of _ trail] exI [of _ "[]"]) (auto simp: request_confirmation_def Let_def map_of_update)
  next
    case False
    then have "map_of s who = Some pending"
      using slots_request by (auto simp: request_confirmation_def Let_def map_of_update)
    then show ?thesis using slots_request.IH False by (intro open_request_later) auto
  qed
next
  case (slots_confirm trail s who' token now answer s')
  have old: "map_of s who = Some pending" and same: "who = who' \<Longrightarrow> answer = (TOKEN_MISMATCH, None)"
  proof -
    have kept: "map_of s who = Some pending \<and> (who = who' \<longrightarrow> answer = (TOKEN_MISMATCH, None))"
      using slots_confirm.hyps(2) slots_confirm.prems slots_confirm.IH [of who']
      by (auto simp: confirm_slot_def map_of_delete open_request_def split: option.splits if_splits)
    then show "map_of s who = Some pending" "who = who' \<Longrightarrow> answer = (TOKEN_MISMATCH, None)" by simp_all
  qed
  show ?case using slots_confirm.IH [OF old] same by (intro open_request_later) auto
qed

text \<open>
  C33. A confirmation is exact and for once: whatever was requested and confirmed before, an answer
  \<open>confirmed\<close> returns the latest request of that same principal, with the token that was given, before
  it expires, and since which nothing but wrong tokens were tried; afterwards nothing is pending for
  the principal.
\<close>

theorem confirmation_is_exact_and_once:
  assumes steps: "slot_steps ttl_s trail s" and confirmed: "confirm_slot who token now s = ((CONFIRMED, answer), s')"
  shows "\<exists>pending. answer = Some pending \<and> open_request ttl_s trail who pending \<and> pc_token pending = token \<and>
    now < pc_created_at_s pending + ttl_s \<and> pending_for who s' = None"
proof -
  obtain pending where p: "map_of s who = Some pending" "answer = Some pending" "pc_token pending = token"
      "now < pc_expires_at_s pending" "s' = AList.delete (pc_principal_id pending) s"
    using confirmed by (auto simp: confirm_slot_def split: option.splits if_splits)
  have open_p: "open_request ttl_s trail who pending" by (rule slots_hold_open_requests [OF steps p(1)])
  then have "pc_principal_id pending = who" "pc_expires_at_s pending = pc_created_at_s pending + ttl_s"
    by (auto simp: open_request_def)
  with p open_p show ?thesis by (simp add: pending_for_def map_of_delete)
qed

section \<open>Mentions\<close>

text \<open>The name stands alone: no ASCII word character before it and none after it.\<close>

definition alone_between :: "string \<Rightarrow> string \<Rightarrow> bool" where
  "alone_between pre post \<longleftrightarrow>
     (pre = [] \<or> \<not> ascii_word_char (last pre)) \<and> (post = [] \<or> \<not> ascii_word_char (hd post))"

lemma stands_alone_between:
  assumes "haystack = pre @ needle @ post"
  shows "stands_alone needle (length pre) haystack \<longleftrightarrow> alone_between pre post"
  using assms
  by (cases pre rule: rev_cases; cases post) (auto simp: stands_alone_def alone_between_def nth_append)

lemma mention_at_iff:
  "mention_at needle haystack start \<longleftrightarrow> (\<exists>i\<ge>start. i \<le> length haystack \<and> prefix needle (drop i haystack) \<and> stands_alone needle i haystack)"
proof (induction needle haystack start rule: mention_at.induct)
  case (1 needle haystack start)
  show ?case
  proof (cases "find_text needle haystack start")
    case None
    then have "\<forall>i\<in>set [start..<Suc (length haystack)]. \<not> prefix needle (drop i haystack)"
      unfolding find_text_def find_None_iff by blast
    then show ?thesis using None by (subst mention_at.simps) (auto simp del: upt_Suc)
  next
    case (Some i)
    note i = find_text_Some [OF Some]
    let ?at = "\<lambda>j. j \<le> length haystack \<and> prefix needle (drop j haystack) \<and> stands_alone needle j haystack"
    have next_one: "j = i \<or> i + 1 \<le> j" if "start \<le> j" "?at j" for j
      using i that by (cases "j < i") auto
    have "(\<exists>j\<ge>start. ?at j) \<longleftrightarrow> stands_alone needle i haystack \<or> (\<exists>j\<ge>i + 1. ?at j)"
    proof
      assume "\<exists>j\<ge>start. ?at j"
      then show "stands_alone needle i haystack \<or> (\<exists>j\<ge>i + 1. ?at j)" using next_one by blast
    next
      have i': "start \<le> i" "i \<le> length haystack" "prefix needle (drop i haystack)" using i by simp_all
      assume "stands_alone needle i haystack \<or> (\<exists>j\<ge>i + 1. ?at j)"
      then show "\<exists>j\<ge>start. ?at j"
      proof (elim disjE exE conjE)
        assume "stands_alone needle i haystack"
        with i' show ?thesis by blast
      next
        fix j assume "i + 1 \<le> j" "j \<le> length haystack" "prefix needle (drop j haystack)" "stands_alone needle j haystack"
        with i'(1) show ?thesis by (intro exI [of _ j]) simp
      qed
    qed
    then show ?thesis using "1.IH" [OF Some] Some by (subst mention_at.simps) simp
  qed
qed

text \<open>
  A line mentions a name exactly when the name occurs in it, without regard to case, at a place
  where neither neighbour is an ASCII letter, digit or underscore. No occurrence is overlooked.
\<close>

lemma mention_is_a_whole_word:
  "mentions_name line name \<longleftrightarrow>
     casefold name \<noteq> [] \<and> (\<exists>pre post. casefold line = pre @ casefold name @ post \<and> alone_between pre post)"
proof -
  let ?h = "casefold line" and ?n = "casefold name"
  have "(\<exists>i\<ge>0. i \<le> length ?h \<and> prefix ?n (drop i ?h) \<and> stands_alone ?n i ?h) \<longleftrightarrow>
      (\<exists>pre post. ?h = pre @ ?n @ post \<and> alone_between pre post)"
  proof (intro iffI; elim exE conjE)
    fix i assume i: "i \<le> length ?h" "prefix ?n (drop i ?h)" "stands_alone ?n i ?h"
    then obtain post where post: "drop i ?h = ?n @ post" by (auto simp: prefix_def)
    then have h: "?h = take i ?h @ ?n @ post" by (metis append_take_drop_id)
    have "length (take i ?h) = i" using i by simp
    then show "\<exists>pre post. ?h = pre @ ?n @ post \<and> alone_between pre post"
      using stands_alone_between [OF h] i(3) h by metis
  next
    fix pre post assume h: "?h = pre @ ?n @ post" "alone_between pre post"
    then show "\<exists>i\<ge>0. i \<le> length ?h \<and> prefix ?n (drop i ?h) \<and> stands_alone ?n i ?h"
      using stands_alone_between [OF h(1)] by (intro exI [of _ "length pre"]) simp
  qed
  then show ?thesis by (simp only: mentions_name_def mention_at_iff)
qed

section \<open>Conversation windows\<close>

datatype talk_op = BotReply string rat | Line string string rat

type_synonym talk_trail = "(talk_op \<times> addressing_reason option) list"

text \<open>Replies of the agent and lines of the players in their order, each line with its decision.\<close>

inductive talk :: "rat \<Rightarrow> int \<Rightarrow> string \<Rightarrow> talk_trail \<Rightarrow> addressing_windows \<Rightarrow> bool"
  for window_s :: rat and max_exchanges :: int and bot_name :: string where
  talk_start: "talk window_s max_exchanges bot_name [] []"
| talk_reply: "talk window_s max_exchanges bot_name trail s \<Longrightarrow>
    talk window_s max_exchanges bot_name (trail @ [(BotReply who now, None)]) (record_bot_reply who now s)"
| talk_line: "talk window_s max_exchanges bot_name trail s \<Longrightarrow>
    decide_addressing window_s max_exchanges line who bot_name now s = (reason, s') \<Longrightarrow>
    talk window_s max_exchanges bot_name (trail @ [(Line line who now, Some reason)]) s'"

text \<open>The time of the latest reply to a player, with the lines that its window let through since; newest first.\<close>

fun conversation :: "string \<Rightarrow> talk_trail \<Rightarrow> (rat \<times> rat list) option" where
  "conversation who [] = None"
| "conversation who ((BotReply w t, _) # older) = (if w = who then Some (t, []) else conversation who older)"
| "conversation who ((Line _ w t, reason) # older) =
     (if w = who \<and> reason = Some CONVERSATION_WINDOW then map_option (apsnd (Cons t)) (conversation who older)
      else conversation who older)"

lemma windows_count_lines:
  "talk window_s max_exchanges bot_name trail s \<Longrightarrow> map_of s who = Some w \<Longrightarrow>
     \<exists>times. conversation who (rev trail) = Some (aw_opened_at_s w, times) \<and> aw_exchanges_used w = int (length times)"
proof (induction arbitrary: who w rule: talk.induct)
  case (talk_reply trail s who' now)
  then show ?case by (auto simp: record_bot_reply_def map_of_update split: if_splits)
next
  case (talk_line trail s line who' now reason s')
  show ?case
  proof (cases "who = who' \<and> reason = CONVERSATION_WINDOW")
    case True
    then obtain v where v: "map_of s who = Some v" "w = v\<lparr>aw_exchanges_used := aw_exchanges_used v + 1\<rparr>"
      using talk_line.hyps(2) talk_line.prems
      by (auto simp: decide_addressing_def map_of_update split: if_splits option.splits)
    from talk_line.IH [OF v(1)] v(2) True show ?thesis by auto
  next
    case False
    then have "map_of s who = Some w"
      using talk_line.hyps(2) talk_line.prems
      by (auto simp: decide_addressing_def map_of_update map_of_delete split: if_splits option.splits)
    from talk_line.IH [OF this] False show ?thesis by auto
  qed
qed simp

text \<open>
  A line that does not mention the agent is taken for one to the agent only in a conversation: the
  agent replied to that same player at most \<open>window_s\<close> seconds before, and since that reply its
  window let fewer than \<open>max_exchanges\<close> lines through.
\<close>

lemma window_lines_follow_a_reply:
  assumes talk: "talk window_s max_exchanges bot_name trail s"
    and line: "decide_addressing window_s max_exchanges line who bot_name now s = (CONVERSATION_WINDOW, s')"
  shows "\<exists>t0 times. conversation who (rev trail) = Some (t0, times) \<and> now - t0 \<le> window_s \<and>
    int (length times) < max_exchanges"
proof -
  obtain w where w: "map_of s who = Some w" "now - aw_opened_at_s w \<le> window_s" "aw_exchanges_used w < max_exchanges"
    using line by (auto simp: decide_addressing_def split: if_splits option.splits)
  from windows_count_lines [OF talk w(1)] w show ?thesis by auto
qed

section \<open>Applications\<close>

definition quit_request :: session_command where
  "quit_request = \<lparr>sm_kind = SC_QUIT, sm_text = [], sm_reason = ''user_quit'', sm_sender = ''Ada''\<rparr>"

definition quit_slots :: slots where
  "quit_slots = snd (request_confirmation CONFIRMATION_TTL_S ''Ada'' quit_request 10 ''a1b2c3'' [])"

lemma quit_slots_steps:
  "slot_steps CONFIRMATION_TTL_S ([] @ [(RequestConfirmation ''Ada'' quit_request 10 ''a1b2c3'', None)]) quit_slots"
  by (rule slots_request [OF slots_new]) (simp_all add: new_slots_def CONFIRMATION_TTL_S_def quit_slots_def prod_eq_iff)

lemma quit_confirmed:
  "confirm_slot ''Ada'' ''a1b2c3'' 40 quit_slots =
     ((CONFIRMED, Some (fst (request_confirmation CONFIRMATION_TTL_S ''Ada'' quit_request 10 ''a1b2c3'' []))), [])"
  by (simp add: confirm_slot_def quit_slots_def request_confirmation_def CONFIRMATION_TTL_S_def Let_def)

theorem confirmation_is_exact_and_once_witness:
  "\<exists>pending. open_request CONFIRMATION_TTL_S [(RequestConfirmation ''Ada'' quit_request 10 ''a1b2c3'', None)] ''Ada'' pending \<and>
     pc_token pending = ''a1b2c3'' \<and> 40 < pc_created_at_s pending + CONFIRMATION_TTL_S"
  using confirmation_is_exact_and_once [OF quit_slots_steps quit_confirmed] by auto

definition one_reply :: addressing_windows where
  "one_reply = record_bot_reply ''Ada'' 10 []"

lemma unnamed_line: "\<not> mentions_name ''dig'' ''MineBot''"
  by code_simp

lemma one_reply_line:
  "decide_addressing ADDRESSING_WINDOW_S ADDRESSING_MAX_EXCHANGES ''dig'' ''Ada'' ''MineBot'' 60 one_reply =
     (CONVERSATION_WINDOW, [(''Ada'', \<lparr>aw_opened_at_s = 10, aw_exchanges_used = 1\<rparr>)])"
  by (simp add: decide_addressing_def unnamed_line one_reply_def record_bot_reply_def ADDRESSING_WINDOW_S_def
      ADDRESSING_MAX_EXCHANGES_def)

theorem window_lines_follow_a_reply_witness:
  "\<exists>t0 times. conversation ''Ada'' (rev [(BotReply ''Ada'' 10, None)]) = Some (t0, times) \<and> 60 - t0 \<le> ADDRESSING_WINDOW_S \<and>
     int (length times) < ADDRESSING_MAX_EXCHANGES"
proof -
  have "talk ADDRESSING_WINDOW_S ADDRESSING_MAX_EXCHANGES ''MineBot'' ([] @ [(BotReply ''Ada'' 10, None)]) one_reply"
    unfolding one_reply_def by (rule talk_reply [OF talk_start])
  from window_lines_follow_a_reply [OF this one_reply_line] show ?thesis by simp
qed

text \<open>
  A parameter that is itself named \<open>stance\<close> replaces the stance that was checked: a line parses to a
  stance that is none of the known ones.
\<close>

lemma stance_parameter_replaces_the_stance:
  "map_option (\<lambda>a. map_of (au_args a) ''stance'') (parse_authority_command ''/stance guard stance=berserk'') = Some (Some ''berserk'')"
  "''berserk'' \<notin> set STANCE_KINDS"
  by code_simp+

end
