(* ===== verification/Native_Admission.thy ===== *)
theory Native_Admission
  imports Harvest Block_Actions
begin

text \<open>
  What is decided before a native process of the client (Baritone's mining, building, clearing and
  farming) may start, \<open>minebot/body/native_admission.py\<close>: the pickaxe that its blocks need, and
  whether its work volume lies in a natural region.
\<close>

section \<open>Harvest tools\<close>

text \<open>\<open>max(tiers, key=TOOL_TIER_ORDER.index)\<close>\<close>

definition required_tier_for :: "string list \<Rightarrow> tool_tier option" where
  "required_tier_for block_types = max_with tier_rank (somes (map required_pickaxe_tier block_types))"

definition json_owned :: "(string \<times> tool_tier) option \<Rightarrow> json" where
  "json_owned best = (case best of
     None \<Rightarrow> JNull | Some (item, tier) \<Rightarrow> JDict [(''item'', JStr item), (''tier'', JStr (tier_value tier))])"

definition missing_tool :: "string list \<Rightarrow> tool_tier \<Rightarrow> (string \<times> tool_tier) option \<Rightarrow> tool_result" where
  "missing_tool blocks required best =
     fail_result ''missing_required_tool'' False (''craft a '' @ PICKAXE_BY_TIER required @ '' or better first'')
       [(''block_types'', json_list blocks JStr), (''required_tier'', JStr (tier_value required)),
        (''best_owned'', json_owned best)]"

definition tool_denial :: "string list \<Rightarrow> tool_tier \<Rightarrow> (string, int) pydict \<Rightarrow> py_exn + tool_result option" where
  "tool_denial blocks required counts =
     map_sum id (\<lambda>best.
       (case best of
          Some (_, tier) \<Rightarrow>
            if tier_satisfies (Some (tier_value tier)) (tier_value required) then None
            else Some (missing_tool blocks required best)
        | None \<Rightarrow> Some (missing_tool blocks required best)))
       (best_owned_pickaxe (map (\<lambda>(k, n). (k, JInt n)) counts))"

definition harvest_tool_denial :: "'w body_port \<Rightarrow> string list \<Rightarrow> ('w, tool_result option) tx" where
  "harvest_tool_denial port blocks =
     (case required_tier_for blocks of
        None \<Rightarrow> tx_return None
      | Some required \<Rightarrow>
          tx_bind (get_state port) (\<lambda>state.
          tx_lift (tool_denial blocks required
            (case bs_inventory_counts state of None \<Rightarrow> [] | Some counts \<Rightarrow> counts))))"

section \<open>Work volumes\<close>

fun low_corner :: "position \<Rightarrow> position \<Rightarrow> position" where
  "low_corner (ax, ay, az) (bx, by', bz) = (min ax bx, min ay by', min az bz)"

fun high_corner :: "position \<Rightarrow> position \<Rightarrow> position" where
  "high_corner (ax, ay, az) (bx, by', bz) = (max ax bx, max ay by', max az bz)"

definition work_volume_denial :: "region list \<Rightarrow> position \<Rightarrow> position \<Rightarrow> tool_result option" where
  "work_volume_denial natural_regions low high =
     (if natural_regions = [] then None
      else let lo = low_corner low high; hi = high_corner low high
        in if list_ex (\<lambda>r. region_contains r lo \<and> region_contains r hi) natural_regions then None
           else Some (fail_result ''outside_natural_region'' False
                  ''choose a work volume inside the natural work region''
                  [(''low'', json_position lo), (''high'', json_position hi)]))"

section \<open>What an admission means\<close>

text \<open>The cells of a volume\<close>

definition in_volume :: "position \<Rightarrow> position \<Rightarrow> position \<Rightarrow> bool" where
  "in_volume low high pos \<longleftrightarrow> within_box (low_corner low high) (high_corner low high) pos"

lemma within_box_trans:
  "within_box a b lo \<Longrightarrow> within_box a b hi \<Longrightarrow> within_box lo hi pos \<Longrightarrow> within_box a b pos"
proof -
  obtain a1 a2 a3 b1 b2 b3 where ab: "a = (a1, a2, a3)" "b = (b1, b2, b3)" by (metis prod_cases3)
  obtain l1 l2 l3 h1 h2 h3 where lh: "lo = (l1, l2, l3)" "hi = (h1, h2, h3)" by (metis prod_cases3)
  obtain x y z where p: "pos = (x, y, z)" by (metis prod_cases3)
  assume "within_box a b lo" "within_box a b hi" "within_box lo hi pos"
  then show ?thesis unfolding ab lh p within_box.simps by linarith
qed

lemma corners_in_volume: "in_volume low high (low_corner low high)" "in_volume low high (high_corner low high)"
proof -
  obtain a1 a2 a3 b1 b2 b3 where "low = (a1, a2, a3)" "high = (b1, b2, b3)" by (metis prod_cases3)
  then show "in_volume low high (low_corner low high)" "in_volume low high (high_corner low high)"
    by (simp_all only: in_volume_def low_corner.simps high_corner.simps within_box.simps) linarith+
qed

lemma admitted_volume:
  "work_volume_denial regions low high = None \<longleftrightarrow>
     regions = [] \<or> (\<exists>r\<in>set regions. \<forall>pos. in_volume low high pos \<longrightarrow> region_contains r pos)"
proof -
  have "(region_contains r (low_corner low high) \<and> region_contains r (high_corner low high)) \<longleftrightarrow>
      (\<forall>pos. in_volume low high pos \<longrightarrow> region_contains r pos)" for r
  proof
    assume "region_contains r (low_corner low high) \<and> region_contains r (high_corner low high)"
    then show "\<forall>pos. in_volume low high pos \<longrightarrow> region_contains r pos"
      unfolding region_contains_def in_volume_def using within_box_trans by (elim conjE, intro allI impI)
  next
    assume "\<forall>pos. in_volume low high pos \<longrightarrow> region_contains r pos"
    then show "region_contains r (low_corner low high) \<and> region_contains r (high_corner low high)"
      by (intro conjI) (rule mp, erule spec, rule corners_in_volume)+
  qed
  then show ?thesis by (simp add: work_volume_denial_def Let_def list_ex_iff)
qed

lemma normalize_tier_value [simp]: "normalize_tier (tier_value t) = Some t"
  by (induction t) code_simp+

lemma tier_satisfies_values: "tier_satisfies (Some (tier_value a)) (tier_value b) \<longleftrightarrow> b \<le> a"
  by (simp add: tier_satisfies_def less_eq_tool_tier_def)

lemma required_tier_for_None: "required_tier_for blocks = None \<longleftrightarrow> (\<forall>b\<in>set blocks. required_pickaxe_tier b = None)"
  by (auto simp: required_tier_for_def max_with_None somes_empty)

lemma required_tier_for_Some:
  "required_tier_for blocks = Some t \<Longrightarrow>
     (\<exists>b\<in>set blocks. required_pickaxe_tier b = Some t) \<and> (\<forall>b\<in>set blocks. \<forall>u. required_pickaxe_tier b = Some u \<longrightarrow> u \<le> t)"
proof -
  have mem: "t \<in> set (somes (map required_pickaxe_tier blocks)) \<longleftrightarrow> (\<exists>b\<in>set blocks. required_pickaxe_tier b = Some t)" for t
    by (auto simp: image_iff dest: sym)
  assume "required_tier_for blocks = Some t"
  then have "t \<in> set (somes (map required_pickaxe_tier blocks))"
      "\<forall>x\<in>set (somes (map required_pickaxe_tier blocks)). tier_rank x \<le> tier_rank t"
    unfolding required_tier_for_def by (blast dest: max_with_Some)+
  then show ?thesis by (auto simp: less_eq_tool_tier_def mem simp del: set_somes)
qed

text \<open>A harvest is let through when the best pickaxe that is owned suffices for every block of it.\<close>

lemma tool_admitted:
  assumes "required_tier_for blocks = Some required" and "tool_denial blocks required counts = Inr None"
  shows "\<exists>item tier. best_owned_pickaxe (map (\<lambda>(k, n). (k, JInt n)) counts) = Inr (Some (item, tier)) \<and>
    (\<forall>b\<in>set blocks. \<forall>needed. required_pickaxe_tier b = Some needed \<longrightarrow> needed \<le> tier)"
proof -
  obtain item tier where best: "best_owned_pickaxe (map (\<lambda>(k, n). (k, JInt n)) counts) = Inr (Some (item, tier))"
    and enough: "required \<le> tier"
    using assms(2) by (cases "best_owned_pickaxe (map (\<lambda>(k, n). (k, JInt n)) counts)")
      (auto simp: tool_denial_def tier_satisfies_values split: option.splits if_splits)
  show ?thesis using required_tier_for_Some [OF assms(1)] best enough by (blast intro: order_trans)
qed

end
