(* ===== verification/Native_Building.thy ===== *)
theory Native_Building
  imports Native_Admission
begin

text \<open>
  The native building tools, \<open>minebot/app/client_body_tools.py\<close> and \<open>minebot/app/construction_facts.py\<close>:
  the work volume of a request, its admission and its execution, the reading of a cuboid before and
  after, the decoding of a Sponge schematic and the verification of its cells. The parameters are
  those of the tools' schemas; loading the file of a schematic is an argument. A value of a wrong
  kind raises \<open>TypeError\<close> where Python raises that or \<open>AttributeError\<close>.
\<close>

section \<open>Requests\<close>

datatype native_work =
    BuildStructure position position string
  | ClearArea position position
  | FarmArea position int
  | BuilderBuildFile string position
  | ElytraTravel position

fun work_name :: "native_work \<Rightarrow> string" where
  "work_name (BuildStructure _ _ _) = ''buildStructure''"
| "work_name (ClearArea _ _) = ''clearArea''"
| "work_name (FarmArea _ _) = ''farmArea''"
| "work_name (BuilderBuildFile _ _) = ''builderBuildFile''"
| "work_name (ElytraTravel _) = ''elytraTravel''"

text \<open>The parameters of the action: the arguments of the tool's call, with the time.\<close>

fun work_args :: "native_work \<Rightarrow> json_object" where
  "work_args (BuildStructure anchor extent block) =
     [(''anchor'', json_position anchor), (''size'', json_position extent), (''block'', JStr block)]"
| "work_args (ClearArea start stop) = [(''start'', json_position start), (''end'', json_position stop)]"
| "work_args (FarmArea anchor reach) = [(''anchor'', json_position anchor), (''range'', JInt reach)]"
| "work_args (BuilderBuildFile path origin) = [(''path'', JStr path), (''origin'', json_position origin)]"
| "work_args (ElytraTravel target) = [(''target'', json_position target)]"

definition work_params :: "native_work \<Rightarrow> rat \<Rightarrow> json_object" where
  "work_params w timeout_s = (''timeout_s'', json_flt timeout_s) # work_args w"

fun box_end :: "position \<Rightarrow> position \<Rightarrow> position" where
  "box_end (x, y, z) (a, b, c) = (x + a - 1, y + b - 1, z + c - 1)"

fun work_volume :: "native_work \<Rightarrow> (position \<times> position) option" where
  "work_volume (BuildStructure anchor extent _) = Some (anchor, box_end anchor extent)"
| "work_volume (ClearArea start stop) = Some (start, stop)"
| "work_volume (FarmArea (x, y, z) reach) = Some ((x - reach, y, z - reach), (x + reach, y, z + reach))"
| "work_volume _ = None"

text \<open>The processes that write the world; an Elytra flight does not.\<close>

fun mutates_world :: "native_work \<Rightarrow> bool" where
  "mutates_world (ElytraTravel _) = False"
| "mutates_world _ = True"

section \<open>Wanted blocks\<close>

text \<open>\<open>text.partition(mark)\<close>, the part before and the part after\<close>

fun partition_at :: "char \<Rightarrow> string \<Rightarrow> string \<times> string" where
  "partition_at mark [] = ([], [])"
| "partition_at mark (c # cs) = (if c = mark then ([], cs) else apfst (Cons c) (partition_at mark cs))"

fun split_at :: "char \<Rightarrow> string \<Rightarrow> string \<Rightarrow> string list" where
  "split_at mark cur [] = [cur]"
| "split_at mark cur (c # cs) = (if c = mark then cur # split_at mark [] cs else split_at mark (cur @ [c]) cs)"

definition rstrip_bracket :: "string \<Rightarrow> string" where
  "rstrip_bracket s = rev (dropWhile (\<lambda>c. c = CHR '']'') (rev s))"

text \<open>\<open>dict(entry.split('=', 1) for entry in ... if entry)\<close>\<close>

fun state_entries :: "(string, string) pydict \<Rightarrow> string list \<Rightarrow> py_exn + (string, string) pydict" where
  "state_entries d [] = Inr d"
| "state_entries d (entry # entries) =
     (if entry = [] then state_entries d entries
      else if CHR ''='' \<notin> set entry then Inl ValueError
      else (case partition_at CHR ''='' entry of (k, v) \<Rightarrow> state_entries (AList.update k v d) entries))"

definition block_state :: "string \<Rightarrow> string \<times> (py_exn + (string, string) pydict)" where
  "block_state wanted =
     (case partition_at CHR ''['' wanted of
        (block, properties) \<Rightarrow> (block, state_entries [] (split_at CHR '','' [] (rstrip_bracket properties))))"

definition namespaced :: "string \<Rightarrow> string" where
  "namespaced block = (if CHR '':'' \<in> set block then block else ''minecraft:'' @ block)"

text \<open>\<open>all(str(fact.get('properties', {}).get(key)) == value for ...)\<close>\<close>

definition states_match :: "(json \<Rightarrow> string) \<Rightarrow> json_object \<Rightarrow> (string, string) pydict \<Rightarrow> py_exn + bool" where
  "states_match show_other seen expected =
     (if expected = [] then Inr True
      else (case (case map_of seen ''properties'' of None \<Rightarrow> JDict [] | Some v \<Rightarrow> v) of
          JDict d \<Rightarrow> Inr (list_all (\<lambda>(k, v). py_str show_other (dget d k) = v) expected)
        | _ \<Rightarrow> Inl TypeError))"

section \<open>Verifying cells\<close>

type_synonym wanted_cell = "position \<times> string"

definition BATCH_CELLS :: nat where
  "BATCH_CELLS = 128"

definition cell_matches :: "(json \<Rightarrow> string) \<Rightarrow> string \<Rightarrow> json \<Rightarrow> py_exn + bool" where
  "cell_matches show_other wanted seen =
     (case block_state wanted of
        (block, expected) \<Rightarrow>
          (case expected of
             Inl e \<Rightarrow> Inl e
           | Inr states \<Rightarrow>
               (case seen of
                  JDict d \<Rightarrow> (if dget d ''type'' = JStr block then states_match show_other d states else Inr False)
                | _ \<Rightarrow> Inl TypeError)))"

definition note_mismatch :: "wanted_cell \<Rightarrow> json \<Rightarrow> json list \<Rightarrow> json list" where
  "note_mismatch cell seen mismatches =
     (if length mismatches < 8
      then mismatches @ [JDict [(''pos'', json_position (fst cell)), (''expected'', JStr (snd cell)), (''actual'', seen)]]
      else mismatches)"

fun compare_cells ::
  "(json \<Rightarrow> string) \<Rightarrow> (wanted_cell \<times> json) list \<Rightarrow> nat \<Rightarrow> json list \<Rightarrow> py_exn + nat \<times> json list" where
  "compare_cells show_other [] matched mismatches = Inr (matched, mismatches)"
| "compare_cells show_other ((cell, seen) # rest) matched mismatches =
     (case cell_matches show_other (snd cell) seen of
        Inl e \<Rightarrow> Inl e
      | Inr True \<Rightarrow> compare_cells show_other rest (matched + 1) mismatches
      | Inr False \<Rightarrow> compare_cells show_other rest matched (note_mismatch cell seen mismatches))"

text \<open>\<open>observed.data.get('cells', [])\<close>, whose length is taken\<close>

definition answered_cells :: "perception_result \<Rightarrow> py_exn + json list" where
  "answered_cells p =
     (case map_of (pr_data p) ''cells'' of
        None \<Rightarrow> Inr []
      | Some (JList facts) \<Rightarrow> Inr facts
      | Some _ \<Rightarrow> Inl TypeError)"

definition checkpointed :: "'w body_port \<Rightarrow> ('w, unit) tx" where
  "checkpointed port s =
     (case execution_checkpoint (port_cancellation port (tx_world s)) of
        None \<Rightarrow> (Inr (), s) | Some e \<Rightarrow> (Inl e, s))"

definition verification_unavailable :: "nat \<Rightarrow> tool_result" where
  "verification_unavailable matched =
     \<lparr>tr_success = False, tr_reason = ''world_verification_unavailable'', tr_can_retry = True, tr_next_suggestion = None,
      tr_metrics = Some [(''matched_cells'', JInt (int matched))]\<rparr>"

definition verified_result :: "string \<Rightarrow> nat \<Rightarrow> nat \<Rightarrow> json list \<Rightarrow> tool_result" where
  "verified_result success_reason expected matched mismatches =
     \<lparr>tr_success = (matched = expected),
      tr_reason = (if matched = expected then success_reason else ''world_mismatch''),
      tr_can_retry = (matched \<noteq> expected), tr_next_suggestion = None,
      tr_metrics = Some [(''expected_cells'', JInt (int expected)), (''matched_cells'', JInt (int matched)),
        (''mismatches'', JList mismatches)]\<rparr>"

function verify_batches ::
  "'w body_port \<Rightarrow> string \<Rightarrow> nat \<Rightarrow> wanted_cell list \<Rightarrow> nat \<Rightarrow> json list \<Rightarrow> ('w, tool_result) tx" where
  "verify_batches port success_reason expected cells matched mismatches =
     (if cells = [] then tx_return (verified_result success_reason expected matched mismatches)
      else
        (let batch = take BATCH_CELLS cells
         in tx_bind (checkpointed port) (\<lambda>_.
            tx_bind (perceive port ''blockCells'' [(''cells'', json_list (map fst batch) json_position)]) (\<lambda>p.
            tx_bind (tx_lift (answered_cells p)) (\<lambda>facts.
            if \<not> pr_ok p \<or> \<not> pr_complete p \<or> length facts \<noteq> length batch
            then tx_return (verification_unavailable matched)
            else tx_bind (tx_lift (compare_cells (pf_show (port_platform port)) (zip batch facts) matched mismatches))
              (\<lambda>(matched', mismatches').
                verify_batches port success_reason expected (drop BATCH_CELLS cells) matched' mismatches'))))))"
  by pat_completeness auto
termination
  by (relation "measure (\<lambda>(port, reason, expected, cells, matched, mismatches). length cells)")
    (auto simp: BATCH_CELLS_def)

declare verify_batches.simps [simp del]

definition verify_cells :: "'w body_port \<Rightarrow> wanted_cell list \<Rightarrow> string \<Rightarrow> ('w, tool_result) tx" where
  "verify_cells port cells success_reason = verify_batches port success_reason (length cells) cells 0 []"

section \<open>Reading a cuboid\<close>

definition MAX_CELLS :: nat where
  "MAX_CELLS = 4096"

fun box_cells :: "position \<Rightarrow> position \<Rightarrow> position list" where
  "box_cells (lx, ly, lz) (hx, hy, hz) =
     concat (map (\<lambda>x. concat (map (\<lambda>y. map (\<lambda>z. (x, y, z)) [lz..hz]) [ly..hy])) [lx..hx])"

definition cuboid_cells :: "position \<Rightarrow> position \<Rightarrow> position list" where
  "cuboid_cells anchor extent = take MAX_CELLS (box_cells anchor (box_end anchor extent))"

text \<open>\<open>by_pos\<close>: the last seen that is filed under a position; a list or dictionary in a coordinate cannot be a key.\<close>

definition no_key :: "json \<Rightarrow> bool" where
  "no_key v \<longleftrightarrow> (case v of JList _ \<Rightarrow> True | JDict _ \<Rightarrow> True | _ \<Rightarrow> False)"

definition facts_by_pos :: "json list \<Rightarrow> py_exn + json_object list" where
  "facts_by_pos facts =
     (let ds = somes (map (\<lambda>f. case f of JDict d \<Rightarrow> Some d | _ \<Rightarrow> None) facts)
      in if list_ex (\<lambda>d. list_ex (\<lambda>k. no_key (dget d k)) [''x'', ''y'', ''z'']) ds then Inl TypeError else Inr ds)"

definition filed_under :: "position \<Rightarrow> json_object \<Rightarrow> bool" where
  "filed_under pos d = (case pos of (x, y, z) \<Rightarrow>
     py_eq (JInt x) (dget d ''x'') \<and> py_eq (JInt y) (dget d ''y'') \<and> py_eq (JInt z) (dget d ''z''))"

definition fact_at :: "json_object list \<Rightarrow> position \<Rightarrow> json_object option" where
  "fact_at ds pos = find (filed_under pos) (rev ds)"

record cuboid_reading =
  cr_matched :: "position list"
  cr_remaining :: "(position \<times> json) list"
  cr_unknown :: "position list"

definition is_string :: "json \<Rightarrow> bool" where
  "is_string v \<longleftrightarrow> (case v of JStr _ \<Rightarrow> True | _ \<Rightarrow> False)"

fun read_cells ::
  "(json \<Rightarrow> string) \<Rightarrow> string \<Rightarrow> (string, string) pydict \<Rightarrow> json_object list \<Rightarrow> position list \<Rightarrow> cuboid_reading
   \<Rightarrow> py_exn + cuboid_reading" where
  "read_cells show_other block expected ds [] r = Inr r"
| "read_cells show_other block expected ds (pos # rest) r =
     (case fact_at ds pos of
        None \<Rightarrow> read_cells show_other block expected ds rest (r\<lparr>cr_unknown := cr_unknown r @ [pos]\<rparr>)
      | Some d \<Rightarrow>
          (if dget d ''state'' = JStr ''UNKNOWN'' \<or> \<not> is_string (dget d ''type'')
           then read_cells show_other block expected ds rest (r\<lparr>cr_unknown := cr_unknown r @ [pos]\<rparr>)
           else (case (if dget d ''type'' = JStr block then states_match show_other d expected else Inr False) of
               Inl e \<Rightarrow> Inl e
             | Inr True \<Rightarrow> read_cells show_other block expected ds rest (r\<lparr>cr_matched := cr_matched r @ [pos]\<rparr>)
             | Inr False \<Rightarrow>
                 read_cells show_other block expected ds rest
                   (r\<lparr>cr_remaining := cr_remaining r @ [(pos, dget d ''type'')]\<rparr>))))"

text \<open>An exception of the read is no facts, but not a cancellation.\<close>

definition read_facts_or_none :: "'w body_port \<Rightarrow> position list \<Rightarrow> ('w, json list) tx" where
  "read_facts_or_none port batch =
     tx_catch
       (tx_bind (perceive port ''blockCells'' [(''cells'', json_list batch json_position)]) (\<lambda>p.
        tx_return (if \<not> pr_ok p then [] else case map_of (pr_data p) ''cells'' of Some (JList facts) \<Rightarrow> facts | _ \<Rightarrow> [])))
       (\<lambda>e. case e of ExecutionCancelled _ \<Rightarrow> None | OutOfFuel \<Rightarrow> None | _ \<Rightarrow> Some (tx_return []))"

function read_batches ::
  "'w body_port \<Rightarrow> string \<Rightarrow> (string, string) pydict \<Rightarrow> rat \<Rightarrow> rat \<Rightarrow> position list \<Rightarrow> cuboid_reading
   \<Rightarrow> ('w, cuboid_reading) tx" where
  "read_batches port block expected started budget_s cells r =
     (if cells = [] then tx_return r
      else
        tx_bind (tx_read (port_monotonic port)) (\<lambda>now.
        if now - started \<ge> budget_s then tx_return (r\<lparr>cr_unknown := cr_unknown r @ cells\<rparr>)
        else
          tx_bind (read_facts_or_none port (take BATCH_CELLS cells)) (\<lambda>facts.
          tx_bind (tx_lift (facts_by_pos facts)) (\<lambda>ds.
          tx_bind (tx_lift (read_cells (pf_show (port_platform port)) block expected ds (take BATCH_CELLS cells) r)) (\<lambda>r'.
          read_batches port block expected started budget_s (drop BATCH_CELLS cells) r')))))"
  by pat_completeness auto
termination
  by (relation "measure (\<lambda>(port, block, expected, started, budget_s, cells, r). length cells)")
    (auto simp: BATCH_CELLS_def)

declare read_batches.simps [simp del]

record construction_facts =
  cf_anchor :: position
  cf_size :: position
  cf_block :: string
  cf_expected_cells :: int
  cf_reading :: cuboid_reading
  cf_unread_cells :: int

definition volume_of :: "position \<Rightarrow> int" where
  "volume_of extent = (case extent of (a, b, c) \<Rightarrow> a * b * c)"

definition cf_matched_cells :: "construction_facts \<Rightarrow> int" where
  "cf_matched_cells f = int (length (cr_matched (cf_reading f)))"

definition cf_complete :: "construction_facts \<Rightarrow> bool" where
  "cf_complete f \<longleftrightarrow> cr_unknown (cf_reading f) = [] \<and>
     cf_expected_cells f = int (length (cuboid_cells (cf_anchor f) (cf_size f)))"

definition read_construction :: "'w body_port \<Rightarrow> position \<Rightarrow> position \<Rightarrow> string \<Rightarrow> rat \<Rightarrow> ('w, construction_facts) tx" where
  "read_construction port anchor extent block' budget_s =
     (let cells = cuboid_cells anchor extent; wanted = namespaced block'
      in (case block_state wanted of
          (block, Inl e) \<Rightarrow> tx_raise (PyRaised e)
        | (block, Inr expected) \<Rightarrow>
            tx_bind (tx_read (port_monotonic port)) (\<lambda>started.
            tx_bind (read_batches port block expected started budget_s cells
                       \<lparr>cr_matched = [], cr_remaining = [], cr_unknown = []\<rparr>) (\<lambda>r.
            tx_return \<lparr>cf_anchor = anchor, cf_size = extent, cf_block = wanted, cf_expected_cells = volume_of extent,
              cf_reading = r, cf_unread_cells = max 0 (volume_of extent - int (length cells))\<rparr>))))"

end
