(* ===== verification/Native_Schematic.thy ===== *)
theory Native_Schematic
  imports Native_Building
begin

text \<open>
  Native processes and schematics, the rest of \<open>minebot/app/client_body_tools.py\<close>: starting a process
  and judging its end against the world, decoding a Sponge schematic (version 2) into cells, and
  building one. The two time stamps of a cuboid's reading are left out; the number of polls of a
  running builder, which only its time bounds, is fuel.
\<close>

unbundle bit_operations_syntax

section \<open>The end of a process\<close>

definition json_construction :: "construction_facts \<Rightarrow> json_object" where
  "json_construction f =
     [(''anchor'', json_position (cf_anchor f)), (''size'', json_position (cf_size f)), (''block'', JStr (cf_block f)),
      (''expected_cells'', JInt (cf_expected_cells f)), (''matched_cells'', JInt (cf_matched_cells f)),
      (''matched_positions'', json_list (cr_matched (cf_reading f)) json_position),
      (''remaining_cells'', json_list (cr_remaining (cf_reading f))
         (\<lambda>(pos, actual). JDict [(''pos'', json_position pos), (''actual'', actual)])),
      (''unknown_cells'', json_list (cr_unknown (cf_reading f)) json_position),
      (''unread_cells'', JInt (cf_unread_cells f)), (''complete'', JBool (cf_complete f))]"

definition construction_delta :: "construction_facts option \<Rightarrow> construction_facts \<Rightarrow> json_object" where
  "construction_delta before after =
     (let old = (case before of None \<Rightarrow> [] | Some f \<Rightarrow> dedupe (cr_matched (cf_reading f)));
          new = filter (\<lambda>pos. pos \<notin> set old) (cr_matched (cf_reading after))
      in json_construction after @
         [(''previously_matching_cells'', JInt (int (length old))), (''newly_matching_cells'', JInt (int (length new))),
          (''attributable_placed_cells'', JNull),
          (''attribution'', JStr ''World difference only; matching blocks are not a native placement counter.''),
          (''resume_rule'', JStr ''Keep matching cells. Reread unknown cells before writing; fill only confirmed remaining cells.'')])"

definition structure_result :: "tool_result \<Rightarrow> construction_facts option \<Rightarrow> construction_facts \<Rightarrow> tool_result" where
  "structure_result terminal before after =
     (let verified = tr_success terminal \<and> cf_complete after \<and> cf_matched_cells after = cf_expected_cells after
      in \<lparr>tr_success = verified,
          tr_reason = (if verified then ''structure_verified''
                       else if \<not> tr_success terminal then tr_reason terminal
                       else if \<not> cf_complete after then ''world_verification_unavailable'' else ''world_mismatch''),
          tr_can_retry = \<not> verified, tr_next_suggestion = None,
          tr_metrics = Some (AList.update ''construction'' (JDict (construction_delta before after)) (metrics_of terminal))\<rparr>)"

text \<open>The cells that a finished process must have left, with the reason of success.\<close>

fun promised_cells :: "native_work \<Rightarrow> (wanted_cell list \<times> string) option" where
  "promised_cells (BuildStructure anchor extent block) =
     Some (map (\<lambda>pos. (pos, namespaced block)) (box_cells anchor (box_end anchor extent)), ''structure_verified'')"
| "promised_cells (ClearArea start stop) =
     Some (map (\<lambda>pos. (pos, ''minecraft:air'')) (box_cells (low_corner start stop) (high_corner start stop)), ''area_cleared'')"
| "promised_cells _ = None"

definition is_structure :: "native_work \<Rightarrow> bool" where
  "is_structure w = (case w of BuildStructure _ _ _ \<Rightarrow> True | _ \<Rightarrow> False)"

definition read_structure :: "'w body_port \<Rightarrow> native_work \<Rightarrow> ('w, construction_facts option) tx" where
  "read_structure port w =
     (case w of
        BuildStructure anchor extent block \<Rightarrow>
          tx_bind (read_construction port anchor extent block 3) (\<lambda>f. tx_return (Some f))
      | _ \<Rightarrow> tx_return None)"

definition judge_terminal ::
  "'w body_port \<Rightarrow> native_work \<Rightarrow> construction_facts option \<Rightarrow> tool_result \<Rightarrow> ('w, tool_result) tx" where
  "judge_terminal port w before terminal =
     (if is_structure w \<and> dget (metrics_of terminal) ''terminal_source'' = JStr ''native'' then
        tx_bind (read_structure port w) (\<lambda>after.
          tx_return (case after of None \<Rightarrow> terminal | Some f \<Rightarrow> structure_result terminal before f))
      else if tr_success terminal then
        (case promised_cells w of
           None \<Rightarrow> tx_return terminal
         | Some (cells, reason) \<Rightarrow> verify_cells port cells reason)
      else tx_return terminal)"

section \<open>Starting a process\<close>

text \<open>\<open>ToolResult(False, state.error or 'state_read_failed', can_retry=True)\<close>\<close>

definition error_or :: "string option \<Rightarrow> string \<Rightarrow> string" where
  "error_or e otherwise = (case e of None \<Rightarrow> otherwise | Some t \<Rightarrow> if t = [] then otherwise else t)"

definition brief_failure :: "string \<Rightarrow> bool \<Rightarrow> json_object option \<Rightarrow> tool_result" where
  "brief_failure reason can_retry metrics =
     \<lparr>tr_success = False, tr_reason = reason, tr_can_retry = can_retry, tr_next_suggestion = None, tr_metrics = metrics\<rparr>"

definition world_refusal :: "perception_result \<Rightarrow> tool_result option" where
  "world_refusal p =
     (if \<not> pr_ok p then Some (brief_failure (error_or (pr_error p) ''state_read_failed'') True None)
      else if dget (pr_data p) ''disposable_world'' \<noteq> JBool True
      then Some (brief_failure ''native_mutation_requires_disposable_world'' False None)
      else None)"

definition world_checked :: "'w body_port \<Rightarrow> native_work \<Rightarrow> ('w, tool_result option) tx" where
  "world_checked port w =
     (if mutates_world w then tx_bind (perceive port ''baritoneState'' []) (\<lambda>p. tx_return (world_refusal p))
      else tx_return None)"

definition volume_refusal :: "region list \<Rightarrow> native_work \<Rightarrow> tool_result option" where
  "volume_refusal regions w = (case work_volume w of
     None \<Rightarrow> None | Some (low, high) \<Rightarrow> work_volume_denial regions low high)"

definition send_work :: "'w body_port \<Rightarrow> native_work \<Rightarrow> rat \<Rightarrow> construction_facts option \<Rightarrow> ('w, tool_result) tx" where
  "send_work port w timeout_s before =
     tx_bind (send_action port (work_name w) (work_params w timeout_s) timeout_s) (\<lambda>(a, r).
     if \<not> re_ok r \<or> \<not> re_accepted r
     then tx_return (brief_failure (error_or (re_error r) ''body_rejected'') True (Some (re_data r)))
     else tx_bind (await_result port a) (judge_terminal port w before))"

definition execute_native :: "'w body_port \<Rightarrow> region list \<Rightarrow> native_work \<Rightarrow> rat \<Rightarrow> ('w, tool_result) tx" where
  "execute_native port regions w timeout_s =
     unless_failed (volume_refusal regions w)
       (tx_bind (world_checked port w) (\<lambda>refused. unless_failed refused
       (tx_bind (read_structure port w) (send_work port w timeout_s))))"

definition process_state :: "'w body_port \<Rightarrow> ('w, tool_result) tx" where
  "process_state port =
     tx_bind (perceive port ''baritoneState'' []) (\<lambda>p.
     tx_return \<lparr>tr_success = pr_ok p,
       tr_reason = (if pr_ok p then ''process_state'' else error_or (pr_error p) ''state_read_failed''),
       tr_can_retry = \<not> pr_ok p, tr_next_suggestion = None, tr_metrics = Some (pr_data p)\<rparr>)"

section \<open>Schematics\<close>

text \<open>
  What \<open>nbtlib.load\<close> finds in the file, with its tags as integers and texts; the path is resolved
  already.
\<close>

record schematic =
  sg_version :: int
  sg_offset :: "int list"
  sg_width :: int
  sg_height :: int
  sg_length :: int
  sg_palette :: "(string \<times> int) list"
  sg_block_data :: "int list"

text \<open>
  The indices of the palette, seven bits of a byte at a time, the lowest first; a byte of 128 and more is
  continued in the next one. The result has the shift of an index that is not finished.
\<close>

fun decode_varints :: "int list \<Rightarrow> int list \<Rightarrow> int \<Rightarrow> nat \<Rightarrow> string + int list \<times> nat" where
  "decode_varints [] indices value shift = Inr (indices, shift)"
| "decode_varints (byte # bytes) indices value shift =
     (let value' = value OR push_bit shift (byte AND 127)
      in if byte AND 128 \<noteq> 0 then
           (if shift + 7 > 28 then Inl ''invalid_schematic_palette_index''
            else decode_varints bytes indices value' (shift + 7))
         else decode_varints bytes (indices @ [value']) 0 0)"

definition cell_of_index :: "position \<Rightarrow> int \<Rightarrow> int \<Rightarrow> int \<Rightarrow> position" where
  "cell_of_index origin width length' i =
     (case origin of (x, y, z) \<Rightarrow> (x + i mod width, y + i div (width * length'), z + i div width mod length'))"

text \<open>The entry of the palette; the text of a \<open>KeyError\<close> is its key.\<close>

definition palette_name :: "(string \<times> int) list \<Rightarrow> int \<Rightarrow> string + string" where
  "palette_name palette index =
     (case map_of (rev (map (\<lambda>(name, k). (k, name)) palette)) index of None \<Rightarrow> Inl (str_of_int index) | Some name \<Rightarrow> Inr name)"

fun placed_cells :: "(int \<Rightarrow> position) \<Rightarrow> (int \<Rightarrow> string + string) \<Rightarrow> int \<Rightarrow> int list \<Rightarrow> string + wanted_cell list" where
  "placed_cells pos_of name i [] = Inr []"
| "placed_cells pos_of name i (index # indices) =
     (case name index of
        Inl e \<Rightarrow> Inl e
      | Inr block \<Rightarrow> map_sum id (Cons (pos_of i, block)) (placed_cells pos_of name (i + 1) indices))"

definition schematic_cells :: "schematic \<Rightarrow> position \<Rightarrow> string + wanted_cell list" where
  "schematic_cells s origin =
     (if sg_version s \<noteq> 2 \<or> list_ex (\<lambda>v. v \<noteq> 0) (sg_offset s)
      then Inl ''unsupported_schematic: expected Sponge v2 with zero offset''
      else if min (sg_width s) (min (sg_height s) (sg_length s)) < 1 then Inl ''invalid_schematic_dimensions''
      else (case decode_varints (map (\<lambda>v. v AND 255) (sg_block_data s)) [] 0 0 of
          Inl e \<Rightarrow> Inl e
        | Inr (indices, shift) \<Rightarrow>
            (if shift \<noteq> 0 \<or> int (length indices) \<noteq> sg_width s * sg_height s * sg_length s
             then Inl ''invalid_schematic_block_data''
             else placed_cells (cell_of_index origin (sg_width s) (sg_length s)) (palette_name (sg_palette s)) 0 indices)))"

section \<open>Building a schematic\<close>

text \<open>The corners of the cells' bounding box\<close>

fun bounding :: "position \<Rightarrow> position list \<Rightarrow> position \<times> position" where
  "bounding p [] = (p, p)"
| "bounding p (q # qs) = (case bounding q qs of (low, high) \<Rightarrow> (low_corner p low, high_corner p high))"

definition cells_refusal :: "region list \<Rightarrow> wanted_cell list \<Rightarrow> tool_result option" where
  "cells_refusal regions cells =
     (case map fst cells of
        [] \<Rightarrow> None
      | p # ps \<Rightarrow> (case bounding p ps of (low, high) \<Rightarrow> work_volume_denial regions low high))"

fun await_builder :: "'w body_port \<Rightarrow> rat \<Rightarrow> nat \<Rightarrow> ('w, tool_result option) tx" where
  "await_builder port deadline 0 = tx_raise OutOfFuel"
| "await_builder port deadline (Suc fuel) =
     tx_bind (checkpointed port) (\<lambda>_.
     tx_bind (process_state port) (\<lambda>state.
     if \<not> tr_success state then
       tx_bind (tx_call (port_interrupt port ''schematic_state_failed'')) (\<lambda>_. tx_return (Some state))
     else if \<not> truthy (dget (metrics_of state) ''builder_active'') then tx_return None
     else tx_bind (tx_read (port_monotonic port)) (\<lambda>now.
       if now \<ge> deadline then
         tx_bind (tx_call (port_interrupt port ''schematic_deadline_exceeded'')) (\<lambda>_.
         tx_return (Some (brief_failure ''deadline_exceeded'' True (Some [(''process'', JDict (metrics_of state))]))))
       else tx_bind (pause_for port (1 / 10)) (\<lambda>_. await_builder port deadline fuel))))"

definition build_schematic ::
  "'w body_port \<Rightarrow> (string \<Rightarrow> string + schematic) \<Rightarrow> region list \<Rightarrow> string \<Rightarrow> position \<Rightarrow> rat \<Rightarrow> nat \<Rightarrow> ('w, tool_result) tx" where
  "build_schematic port load regions path origin timeout_s fuel =
     (case (case load path of Inl e \<Rightarrow> Inl e | Inr s \<Rightarrow> schematic_cells s origin) of
        Inl e \<Rightarrow> tx_return (brief_failure ''schematic_read_failed'' False (Some [(''error'', JStr (take 400 e))]))
      | Inr cells \<Rightarrow>
          unless_failed (cells_refusal regions cells)
            (tx_bind (execute_native port [] (BuilderBuildFile path origin) timeout_s) (\<lambda>started.
             if \<not> tr_success started then tx_return started
             else tx_bind (tx_read (port_monotonic port)) (\<lambda>now.
               tx_bind (await_builder port (now + timeout_s) fuel) (\<lambda>stopped. unless_failed stopped
               (verify_cells port cells ''schematic_verified''))))))"

end
