(* ===== verification/Schematic_Cells.thy ===== *)
theory Schematic_Cells
  imports Native_Schematic
begin

text \<open>
  What a schematic decodes to: variable-length integers are read back, and the cells of a schematic
  are the cells of its box, each once.
\<close>

unbundle bit_operations_syntax

section \<open>Variable-length integers\<close>

text \<open>The format of a Sponge writer\<close>

fun varint :: "nat \<Rightarrow> int list" where
  "varint n = (if n < 128 then [int n] else (int (n mod 128) + 128) # varint (n div 128))"

declare varint.simps [simp del]

lemma low_bits: "(byte :: int) AND 127 = byte mod 128"
  using take_bit_eq_mask [of 7 byte] by (simp add: take_bit_eq_mod mask_eq_exp_minus_1)

lemma disjoint_or: "0 \<le> a \<Longrightarrow> a < 2 ^ k \<Longrightarrow> (a :: int) OR push_bit k b = a + 2 ^ k * b"
proof -
  assume a: "0 \<le> a" "a < 2 ^ k"
  then have t: "take_bit k a = a" by (simp add: take_bit_int_eq_self)
  have "a AND push_bit k b = 0"
    by (rule bit_eqI) (metis t bit_0_eq bit_and_iff bit_push_bit_iff_int bit_take_bit_iff bot_apply bot_bool_def not_le)
  then show ?thesis by (simp add: disjunctive_add_eq_or [symmetric] push_bit_eq_mult mult.commute)
qed

lemma high_bit:
  assumes "0 \<le> b" "b < (256 :: int)"
  shows "b AND 128 \<noteq> 0 \<longleftrightarrow> 128 \<le> b"
proof -
  have "b AND 128 \<noteq> 0 \<longleftrightarrow> bit b 7" using and_exp_eq_0_iff_not_bit [of b 7] by simp
  also have "\<dots> \<longleftrightarrow> odd (b div 128)" by (simp add: bit_iff_odd)
  also have "\<dots> \<longleftrightarrow> 128 \<le> b"
  proof (cases "128 \<le> b")
    case True
    then have "b div 128 = 1" using assms by (intro int_div_pos_eq [of _ _ _ "b - 128"]) simp_all
    then show ?thesis using True by simp
  next
    case False
    then have "b div 128 = 0" using assms by (intro div_pos_pos_trivial) simp_all
    then show ?thesis using False by simp
  qed
  finally show ?thesis .
qed

text \<open>Decoding an index whose lower bits were read already.\<close>

lemma decode_varint:
  "0 \<le> acc \<Longrightarrow> acc < 2 ^ shift \<Longrightarrow> shift \<le> 28 \<Longrightarrow> n < 2 ^ (35 - shift) \<Longrightarrow> 7 dvd shift \<Longrightarrow>
     decode_varints (varint n @ bytes) indices acc shift =
     decode_varints bytes (indices @ [acc + 2 ^ shift * int n]) 0 0"
proof (induction n arbitrary: acc shift rule: varint.induct)
  case (1 n)
  show ?case
  proof (cases "n < 128")
    case True
    then have "int n AND 127 = int n" "int n AND 128 = 0"
      using high_bit [of "int n"] by (simp_all add: low_bits)
    then show ?thesis
      using True "1.prems"(1,2) by (simp add: varint.simps [of n] disjoint_or)
  next
    case False
    let ?b = "int (n mod 128) + 128"
    have b: "?b AND 127 = int (n mod 128)" "?b AND 128 \<noteq> 0"
      using high_bit [of ?b] by (simp_all add: low_bits zmod_int)
    have "shift \<noteq> 28" using "1.prems"(4) False by auto
    then have shift: "shift + 7 \<le> 28" using "1.prems"(3,5) by (auto simp: dvd_def)
    let ?v = "acc + 2 ^ shift * int (n mod 128)"
    have pow: "(2 :: int) ^ (shift + 7) = 2 ^ shift * 128" by (simp add: power_add)
    have "int (n mod 128) \<le> 127" by simp
    then have le: "2 ^ shift * int (n mod 128) \<le> 2 ^ shift * (127 :: int)" by (rule mult_left_mono) simp
    have v: "0 \<le> ?v" "?v < 2 ^ (shift + 7)"
      using "1.prems"(1,2) le unfolding pow by (simp, linarith)
    have e: "35 - shift = (35 - (shift + 7)) + 7" using shift by simp
    have "n < 2 ^ ((35 - (shift + 7)) + 7)" using "1.prems"(4) unfolding e .
    then have "n < 2 ^ (35 - (shift + 7)) * 128" by (simp only: power_add) simp
    then have n: "n div 128 < 2 ^ (35 - (shift + 7))" by (rule less_mult_imp_div_less)
    have dvd: "7 dvd shift + 7" using "1.prems"(5) by simp
    have "?v + 2 ^ (shift + 7) * int (n div 128) = acc + 2 ^ shift * int n"
    proof -
      have "n = n mod 128 + 128 * (n div 128)" by simp
      then have "int n = int (n mod 128 + 128 * (n div 128))" by (rule arg_cong [where f = int])
      then have n_eq: "int n = int (n mod 128) + 128 * int (n div 128)" by (simp only: of_nat_add of_nat_mult of_nat_numeral)
      have "\<And>s a b :: int. acc + s * a + s * 128 * b = acc + s * (a + 128 * b)" by (simp add: algebra_simps)
      then show ?thesis unfolding pow n_eq .
    qed
    moreover have "decode_varints (varint n @ bytes) indices acc shift =
        decode_varints (varint (n div 128) @ bytes) indices ?v (shift + 7)"
    proof -
      have "varint n = ?b # varint (n div 128)" by (subst varint.simps) (simp only: False if_False)
      moreover have "\<not> shift + 7 > 28" using shift by simp
      moreover have "acc OR push_bit shift (?b AND 127) = ?v"
        unfolding b(1) by (rule disjoint_or [OF "1.prems"(1,2)])
      ultimately show ?thesis using b(2) by (simp only: append_Cons decode_varints.simps Let_def not_False_eq_True if_True if_False)
    qed
    ultimately show ?thesis using "1.IH" [OF False v shift n dvd] by (simp only:)
  qed
qed

text \<open>NBT keeps bytes as signed integers.\<close>

definition signed_byte :: "int \<Rightarrow> int" where
  "signed_byte b = (if b < 128 then b else b - 256)"

lemma signed_byte_inverse: "0 \<le> b \<Longrightarrow> b < 256 \<Longrightarrow> signed_byte b AND 255 = b"
proof -
  have low: "v AND 255 = v mod 256" for v :: int
    using take_bit_eq_mask [of 8 v] by (simp add: take_bit_eq_mod mask_eq_exp_minus_1)
  assume b: "0 \<le> b" "b < 256"
  then have "(b - 256) mod 256 = b" using mod_add_self2 [of "b - 256" 256] by (simp add: mod_pos_pos_trivial)
  then show ?thesis using b by (simp add: signed_byte_def low)
qed

lemma varint_bytes: "b \<in> set (varint n) \<Longrightarrow> 0 \<le> b \<and> b < 256"
proof (induction n rule: varint.induct)
  case (1 n)
  have m: "0 \<le> int (n mod 128)" "int (n mod 128) < 128" by simp_all
  from "1.prems" have "(n < 128 \<and> b = int n) \<or> (\<not> n < 128 \<and> (b = int (n mod 128) + 128 \<or> b \<in> set (varint (n div 128))))"
    by (subst (asm) varint.simps) (simp split: if_splits)
  then show ?case
  proof (elim disjE conjE)
    assume "\<not> n < 128" "b \<in> set (varint (n div 128))"
    then show ?thesis by (rule "1.IH")
  next
    assume "b = int (n mod 128) + 128"
    then show ?thesis using m by linarith
  qed simp
qed

lemma decode_all:
  "\<forall>n\<in>set ns. n < 2 ^ 35 \<Longrightarrow>
     decode_varints (map (\<lambda>v. v AND 255) (map signed_byte (concat (map varint ns)))) indices 0 0 = Inr (indices @ map int ns, 0)"
proof (induction ns arbitrary: indices)
  case (Cons n ns)
  have bytes: "map (\<lambda>v. v AND 255) (map signed_byte (varint n)) = varint n"
    by (simp add: map_idI signed_byte_inverse varint_bytes)
  have n: "n < 2 ^ (35 - 0)" using Cons.prems by simp
  show ?case
    using decode_varint [of 0 0 n _ indices, OF _ _ _ n] Cons bytes by simp
qed simp

section \<open>The cells of a box\<close>

lemma map_upt_mult:
  "map f [0..<a * b] = concat (map (\<lambda>i. map (\<lambda>j. f (i * b + j)) [0..<b]) [0..<a])"
proof (induction a)
  case (Suc a)
  have "[0..<Suc a * b] = [0..<a * b] @ map (\<lambda>j. a * b + j) [0..<b]"
    using upt_add_eq_append [of 0 "a * b" b] map_add_upt [of "a * b" b] by (simp add: add.commute)
  then show ?case using Suc by simp
qed simp

text \<open>The cells in the order of a schematic: upwards, then to the south, then to the east.\<close>

definition schematic_order :: "position \<Rightarrow> nat \<Rightarrow> nat \<Rightarrow> nat \<Rightarrow> position list" where
  "schematic_order origin w h l =
     (case origin of (x, y, z) \<Rightarrow>
        concat (map (\<lambda>j. concat (map (\<lambda>k. map (\<lambda>i. (x + int i, y + int j, z + int k)) [0..<w]) [0..<l])) [0..<h]))"

lemma cell_of_index_at:
  assumes "i < w" "k < l"
  shows "cell_of_index (x, y, z) (int w) (int l) (int (j * (l * w) + (k * w + i))) = (x + int i, y + int j, z + int k)"
proof -
  let ?n = "j * (l * w) + (k * w + i)"
  have w: "0 < w" "0 < l" using assms by auto
  have row: "?n = (j * l + k) * w + i" by (simp add: algebra_simps)
  have "?n mod w = i" unfolding row using assms(1) by simp
  moreover have d: "?n div w = j * l + k" unfolding row using assms(1) w by simp
  moreover have "(j * l + k) div l = j" "(j * l + k) mod l = k" using assms(2) w by simp_all
  moreover have "?n div (w * l) = ?n div w div l" by (simp only: div_mult2_eq)
  ultimately have facts: "?n mod w = i" "?n div (w * l) = j" "?n div w mod l = k" by simp_all
  have "int ?n mod int w = int i" "int ?n div (int w * int l) = int j" "int ?n div int w mod int l = int k"
    unfolding of_nat_mult [symmetric] of_nat_div [symmetric] of_nat_mod [symmetric] facts by simp_all
  then show ?thesis by (simp only: cell_of_index_def prod.case)
qed

lemma cells_in_order:
  "map (\<lambda>n. cell_of_index origin (int w) (int l) (int n)) [0..<h * (l * w)] = schematic_order origin w h l"
proof -
  obtain x y z where o: "origin = (x, y, z)" by (rule prod_cases3)
  have "map (\<lambda>n. cell_of_index origin (int w) (int l) (int n)) [0..<h * (l * w)] =
      concat (map (\<lambda>j. concat (map (\<lambda>k. map (\<lambda>i. cell_of_index origin (int w) (int l) (int (j * (l * w) + (k * w + i)))) [0..<w]) [0..<l])) [0..<h])"
    by (simp only: map_upt_mult)
  also have "\<dots> = schematic_order origin w h l"
    unfolding schematic_order_def o prod.case
    by (intro arg_cong [where f = concat] map_cong refl) (simp add: cell_of_index_at del: of_nat_add of_nat_mult)
  finally show ?thesis .
qed

lemma placed_cells_all:
  "\<forall>n\<in>set indices. name n = Inr (block n) \<Longrightarrow>
     placed_cells pos_of name (int i) indices =
     Inr (zip (map (\<lambda>n. pos_of (int n)) [i..<i + length indices]) (map block indices))"
proof (induction indices arbitrary: i)
  case (Cons n ns)
  have "[i..<i + length (n # ns)] = i # [Suc i..<Suc i + length ns]" by (subst upt_rec) simp
  moreover have "placed_cells pos_of name (int i + 1) ns =
      Inr (zip (map (\<lambda>n. pos_of (int n)) [Suc i..<Suc i + length ns]) (map block ns))"
    using Cons.IH [of "Suc i"] Cons.prems by (simp add: add.commute)
  ultimately show ?case using Cons.prems by (simp del: upt_Suc)
qed simp

lemma palette_name_found:
  assumes "distinct (map snd palette)" "(block, n) \<in> set palette"
  shows "palette_name palette n = Inr block"
proof -
  let ?inv = "rev (map (\<lambda>(name, k). (k, name)) palette)"
  have "map fst ?inv = rev (map snd palette)" by (simp add: rev_map [symmetric] split_beta comp_def)
  then have "distinct (map fst ?inv)" using assms(1) by simp
  moreover have "(n, block) \<in> set ?inv" using assms(2) by force
  ultimately show ?thesis by (simp add: palette_name_def map_of_is_SomeI del: set_rev)
qed

text \<open>A box of blocks as a Sponge writer stores it, each block by its index of the palette.\<close>

definition sponge_v2 :: "(string \<times> int) list \<Rightarrow> nat \<Rightarrow> nat \<Rightarrow> nat \<Rightarrow> nat list \<Rightarrow> schematic" where
  "sponge_v2 palette w h l indices =
     \<lparr>sg_version = 2, sg_offset = [0, 0, 0], sg_width = int w, sg_height = int h, sg_length = int l,
      sg_palette = palette, sg_block_data = map signed_byte (concat (map varint indices))\<rparr>"

text \<open>
  C18. A box of blocks that was written as a Sponge schematic is read back: the cells are all cells of
  the box at the origin, each once, in the order of the file, and each with the block that was written.
\<close>

theorem schematic_round_trip:
  assumes "1 \<le> w" "1 \<le> h" "1 \<le> l" and "length indices = h * (l * w)"
    and "\<forall>n\<in>set indices. n < 2 ^ 35" and "distinct (map snd palette)"
    and named: "\<forall>n\<in>set indices. (block n, int n) \<in> set palette"
  shows "schematic_cells (sponge_v2 palette w h l indices) origin =
    Inr (zip (schematic_order origin w h l) (map block indices))"
proof -
  have names: "\<forall>n\<in>set (map int indices). palette_name palette n = Inr (block (nat n))"
    using named assms(6) by (auto intro: palette_name_found)
  have "placed_cells (cell_of_index origin (int w) (int l)) (palette_name palette) 0 (map int indices) =
      Inr (zip (schematic_order origin w h l) (map block indices))"
    using placed_cells_all [OF names, of "cell_of_index origin (int w) (int l)" 0] assms(4)
    by (simp add: cells_in_order comp_def)
  moreover have "int (length indices) = int w * int h * int l" using assms(4) by (simp add: algebra_simps)
  ultimately show ?thesis
    using assms(1-3) decode_all [OF assms(5), of "[]"]
    by (simp add: schematic_cells_def sponge_v2_def)
qed

theorem schematic_round_trip_witness:
  "schematic_cells (sponge_v2 [(''minecraft:stone'', 0), (''minecraft:air'', 300)] 2 1 1 [300, 0]) (5, 64, 5) =
   Inr [((5, 64, 5), ''minecraft:air''), ((6, 64, 5), ''minecraft:stone'')]"
proof -
  have o: "schematic_order (5, 64, 5) 2 1 1 = [(5, 64, 5), (6, 64, 5)]" by code_simp
  show ?thesis
    using schematic_round_trip [of 2 1 1 "[300, 0]" "[(''minecraft:stone'', 0), (''minecraft:air'', 300)]"
        "\<lambda>n. if n = 300 then ''minecraft:air'' else ''minecraft:stone''" "(5, 64, 5)"]
    by (simp add: o [simplified])
qed

end
