(* ===== verification/Native_Safety.thy ===== *)
theory Native_Safety
  imports Schematic_Cells Block_Safety
begin

text \<open>
  What the native building tools may send and what they may report: one action, for a volume that a
  natural region holds and in a world that was read as disposable; and a schematic is reported as
  built only when every cell of it was read with the wanted block.
\<close>

section \<open>Sending nothing\<close>

fun executes :: "body_call \<Rightarrow> bool" where
  "executes (Executed a r) \<longleftrightarrow> True"
| "executes _ \<longleftrightarrow> False"

definition nothing_sent_since :: "body_call list \<Rightarrow> body_call list \<Rightarrow> bool" where
  "nothing_sent_since old cs \<longleftrightarrow> (\<exists>tail. cs = old @ tail \<and> \<not> list_ex executes tail)"

lemma nothing_sent_refl [simp]: "nothing_sent_since cs cs"
  by (simp add: nothing_sent_since_def)

lemma nothing_sent_snoc: "nothing_sent_since old cs \<Longrightarrow> \<not> executes c \<Longrightarrow> nothing_sent_since old (cs @ [c])"
  by (auto simp: nothing_sent_since_def)

lemma nothing_sent_trans: "nothing_sent_since a b \<Longrightarrow> nothing_sent_since b c \<Longrightarrow> nothing_sent_since a c"
  by (auto simp: nothing_sent_since_def)

lemma passive_executes_nothing [simp]: "passive_entry c \<Longrightarrow> \<not> executes c"
  by (cases c) auto

interpretation since: log_invariant "\<lambda>cs p. nothing_sent_since old cs" "\<lambda>c. \<not> executes c" for old
  by unfold_locales (auto intro: nothing_sent_snoc)

interpretation noted: log_invariant "\<lambda>cs p. c \<in> set cs" "\<lambda>_. True" for c
  by unfold_locales auto

context log_invariant begin

lemma keeps_checkpointed: "keeps inv (checkpointed (recording port))"
  by (rule keepsI) (simp add: checkpointed_def split: option.split)

lemma keeps_verify_batches: "keeps inv (verify_batches (recording port) reason expected cells matched mismatches)"
proof (induction "length cells" arbitrary: cells matched mismatches rule: less_induct)
  case less
  show ?case
  proof (cases "cells = []")
    case True
    then show ?thesis by (subst verify_batches.simps) (simp add: keeps_intros)
  next
    case False
    have IH: "keeps inv (verify_batches (recording port) reason expected (drop BATCH_CELLS cells) m ms)" for m ms
      by (rule less) (use False in \<open>simp add: BATCH_CELLS_def\<close>)
    show ?thesis
      by (subst verify_batches.simps, simp only: False if_False Let_def)
        (intro keeps_intros keeps_checkpointed keeps_perceive quiet IH, simp)
  qed
qed

lemma keeps_read_facts: "keeps inv (read_facts_or_none (recording port) cells)"
  unfolding read_facts_or_none_def
  by (intro keeps_intros keeps_perceive quiet) (auto split: body_exn.splits intro: keeps_intros)

lemma keeps_read_batches: "keeps inv (read_batches (recording port) block expected started budget cells r)"
proof (induction "length cells" arbitrary: cells r rule: less_induct)
  case less
  show ?case
  proof (cases "cells = []")
    case True
    then show ?thesis by (subst read_batches.simps) (simp add: keeps_intros)
  next
    case False
    have IH: "keeps inv (read_batches (recording port) block expected started budget (drop BATCH_CELLS cells) r)" for r
      by (rule less) (use False in \<open>simp add: BATCH_CELLS_def\<close>)
    show ?thesis
      by (subst read_batches.simps, simp only: False if_False)
        (intro keeps_intros keeps_monotonic keeps_read_facts IH)
  qed
qed

lemma keeps_read_construction: "keeps inv (read_construction (recording port) anchor extent block budget)"
  unfolding read_construction_def Let_def by (intro keeps_intros keeps_monotonic keeps_read_batches)

lemma keeps_read_structure: "keeps inv (read_structure (recording port) w)"
  unfolding read_structure_def
  by (cases w) (auto intro!: keeps_intros keeps_read_construction)

lemma keeps_judge_terminal: "keeps inv (judge_terminal (recording port) w before r)"
  unfolding judge_terminal_def verify_cells_def
  by (intro keeps_intros keeps_read_structure keeps_verify_batches)

lemma keeps_world_checked:
  "(\<And>r. C (Perceived ''baritoneState'' [] r)) \<Longrightarrow> keeps inv (world_checked (recording port) w)"
  unfolding world_checked_def by (intro keeps_intros keeps_perceive)

end

section \<open>One action, for an admitted volume\<close>

text \<open>
  An action of a native process is admitted by what was asked before: its volume lies in one natural
  region, and the world was read as disposable when the process writes it.
\<close>

definition admitted_work :: "region list \<Rightarrow> native_work \<Rightarrow> rat \<Rightarrow> body_call list \<Rightarrow> action \<Rightarrow> bool" where
  "admitted_work regions w timeout_s before a \<longleftrightarrow>
     sent_as (work_name w) (work_params w timeout_s) a \<and>
     (\<forall>low high. work_volume w = Some (low, high) \<longrightarrow>
        regions = [] \<or> (\<exists>r\<in>set regions. \<forall>pos. in_volume low high pos \<longrightarrow> region_contains r pos)) \<and>
     (mutates_world w \<longrightarrow>
        (\<exists>p. Perceived ''baritoneState'' [] (Inr p) \<in> set before \<and> pr_ok p \<and>
             dget (pr_data p) ''disposable_world'' = JBool True))"

definition sent_admitted :: "region list \<Rightarrow> native_work \<Rightarrow> rat \<Rightarrow> body_call list \<Rightarrow> body_call list \<Rightarrow> bool" where
  "sent_admitted regions w timeout_s old cs \<longleftrightarrow>
     (\<exists>before a x after. cs = old @ before @ Executed a x # after \<and>
        \<not> list_ex executes before \<and> \<not> list_ex executes after \<and> admitted_work regions w timeout_s before a)"

lemma world_checked_run:
  assumes "world_checked (recording port) w s = (Inr None, t)"
  shows "nothing_sent_since (tx_log s) (tx_log t) \<and>
    (mutates_world w \<longrightarrow> (\<exists>p. tx_log t = tx_log s @ [Perceived ''baritoneState'' [] (Inr p)] \<and> pr_ok p \<and>
       dget (pr_data p) ''disposable_world'' = JBool True))"
  using assms
  by (auto simp: world_checked_def tx_bind_def tx_return_def perceive_def tx_call_def recording_def noting_def tx_log_def
      world_refusal_def nothing_sent_since_def split: prod.splits sum.splits if_splits)

lemma send_work_admitted:
  assumes "nothing_sent_since (tx_log s) (tx_log t)" "nothing_sent_since (tx_log t) (tx_log u)"
    and volume: "volume_refusal regions w = None"
    and world: "mutates_world w \<longrightarrow> (\<exists>p. tx_log t = tx_log s @ [Perceived ''baritoneState'' [] (Inr p)] \<and> pr_ok p \<and>
       dget (pr_data p) ''disposable_world'' = JBool True)"
  shows "nothing_sent_since (tx_log s) (tx_log (snd (send_work (recording port) w timeout_s built u))) \<or>
    sent_admitted regions w timeout_s (tx_log s) (tx_log (snd (send_work (recording port) w timeout_s built u)))"
proof -
  obtain before where before: "tx_log u = tx_log s @ before" "\<not> list_ex executes before"
    using nothing_sent_trans [OF assms(1,2)] by (auto simp: nothing_sent_since_def)
  let ?f = "\<lambda>(a, r). if \<not> re_ok r \<or> \<not> re_accepted r
     then tx_return (brief_failure (error_or (re_error r) ''body_rejected'') True (Some (re_data r)))
     else tx_bind (await_result (recording port) a) (judge_terminal (recording port) w built)"
  have rest: "keeps (log_invariant.inv (\<lambda>cs p. nothing_sent_since old cs)) (?f ar)" for ar old
    by (intro keeps_intros since.keeps_await_result since.keeps_judge_terminal)
  obtain r v where run: "send_action (recording port) (work_name w) (work_params w timeout_s) timeout_s u = (r, v)"
    by (rule prod.exhaust)
  have whole: "send_work (recording port) w timeout_s built u = (case r of Inl e \<Rightarrow> (Inl e, v) | Inr ar \<Rightarrow> ?f ar v)"
    by (simp only: send_work_def tx_bind_def [of "send_action _ _ _ _"] run prod.case)
  have regions: "regions = [] \<or> (\<exists>r\<in>set regions. \<forall>pos. in_volume low high pos \<longrightarrow> region_contains r pos)"
    if "work_volume w = Some (low, high)" for low high
    using volume that by (simp add: volume_refusal_def admitted_volume)
  from send_action_run [OF run] show ?thesis
  proof (elim conjE disjE exE)
    fix e
    assume "tx_log v = tx_log u" "r = Inl e"
    then show ?thesis using before whole by (auto simp: nothing_sent_since_def)
  next
    fix a x
    assume l: "tx_log v = tx_log u @ [Executed a x]" and a: "sent_as (work_name w) (work_params w timeout_s) a"
      and r: "r = map_sum id (Pair a) x"
    have "nothing_sent_since (tx_log v) (tx_log (snd (send_work (recording port) w timeout_s built u)))"
    proof (cases x)
      case (Inr y)
      then show ?thesis using keepsD [OF rest, of "tx_log v" v "(a, y)"] whole r by (simp add: since.inv_def)
    qed (use whole r in simp)
    moreover have "admitted_work regions w timeout_s before a"
      unfolding admitted_work_def
      using a regions world assms(2) before by (auto simp: nothing_sent_since_def)
    ultimately have "sent_admitted regions w timeout_s (tx_log s) (tx_log (snd (send_work (recording port) w timeout_s built u)))"
      using before unfolding sent_admitted_def nothing_sent_since_def l by fastforce
    then show ?thesis ..
  qed
qed

text \<open>
  C16. Running a native process sends nothing, or it sends exactly one action, the one that was asked
  for; before it the whole work volume was found inside one natural region (when any is declared),
  and the world was read as a disposable one when the process writes the world.
\<close>

theorem native_work_is_admitted:
  fixes s :: "'w logged tx_state"
  assumes run: "execute_native (recording port) regions w timeout_s s = (r, s')"
  shows "nothing_sent_since (tx_log s) (tx_log s') \<or> sent_admitted regions w timeout_s (tx_log s) (tx_log s')"
proof -
  define P where "P t \<longleftrightarrow> nothing_sent_since (tx_log s) (tx_log t) \<or> sent_admitted regions w timeout_s (tx_log s) (tx_log t)"
    for t :: "'w logged tx_state"
  let ?since = "\<lambda>old. log_invariant.inv (\<lambda>cs p. nothing_sent_since old cs) :: 'w logged tx_state \<Rightarrow> bool"
  have quiet: "P t" if "?since (tx_log s) t" for t using that by (simp add: P_def since.inv_def)
  have start: "?since (tx_log s) s" by (simp add: since.inv_def)
  have "P (snd (execute_native (recording port) regions w timeout_s s))"
    unfolding execute_native_def
  proof (rule after_unless [where P = P, OF quiet [OF start]], rule after_bind [where P = P, OF start since.keeps_world_checked quiet])
    fix refused t
    assume volume: "volume_refusal regions w = None"
      and checked: "world_checked (recording port) w s = (Inr refused, t)" and t: "?since (tx_log s) t"
    show "P (snd (unless_failed refused (tx_bind (read_structure (recording port) w) (send_work (recording port) w timeout_s)) t))"
    proof (rule after_unless [where P = P, OF quiet [OF t]])
      assume "refused = None"
      note world = world_checked_run [OF checked [unfolded this]]
      have t': "?since (tx_log t) t" by (simp add: since.inv_def)
      show "P (snd (tx_bind (read_structure (recording port) w) (send_work (recording port) w timeout_s) t))"
      proof (rule after_bind [where P = P, OF t' since.keeps_read_structure])
        fix u
        assume "?since (tx_log t) u"
        then show "P u" using t nothing_sent_trans by (auto simp: P_def since.inv_def)
      next
        fix built u
        assume "?since (tx_log t) u"
        then have "nothing_sent_since (tx_log t) (tx_log u)" by (simp add: since.inv_def)
        then show "P (snd (send_work (recording port) w timeout_s built u))"
          unfolding P_def by (rule send_work_admitted [OF conjunct1 [OF world] _ volume conjunct2 [OF world]])
      qed
    qed
  qed simp_all
  then show ?thesis using run by (simp add: P_def)
qed

section \<open>What a verification has seen\<close>

text \<open>A complete reply to a request of cells shows the wanted block in the place of the cell.\<close>

definition seen_in_place :: "(json \<Rightarrow> string) \<Rightarrow> body_call list \<Rightarrow> wanted_cell \<Rightarrow> bool" where
  "seen_in_place show_other cs cell \<longleftrightarrow>
     (\<exists>asked p facts i. Perceived ''blockCells'' [(''cells'', json_list asked json_position)] (Inr p) \<in> set cs \<and>
        pr_ok p \<and> pr_complete p \<and> map_of (pr_data p) ''cells'' = Some (JList facts) \<and> length facts = length asked \<and>
        i < length asked \<and> asked ! i = fst cell \<and> cell_matches show_other (snd cell) (facts ! i) = Inr True)"

lemma compare_cells_counts:
  "compare_cells show_other zs matched mismatches = Inr (m, ms) \<Longrightarrow>
     m \<le> matched + length zs \<and>
     (m = matched + length zs \<longrightarrow> (\<forall>i<length zs. cell_matches show_other (snd (fst (zs ! i))) (snd (zs ! i)) = Inr True))"
proof (induction zs arbitrary: matched mismatches)
  case (Cons z zs)
  obtain cell seen where z: "z = (cell, seen)" by (rule prod.exhaust)
  from Cons.prems z obtain b where b: "cell_matches show_other (snd cell) seen = Inr b"
    by (cases "cell_matches show_other (snd cell) seen") simp_all
  show ?case
  proof (cases b)
    case True
    then show ?thesis using Cons.IH [of "matched + 1" mismatches] Cons.prems b z by (auto simp: nth_Cons split: nat.split)
  next
    case False
    then show ?thesis using Cons.IH [of matched "note_mismatch cell seen mismatches"] Cons.prems b z by auto
  qed
qed simp

lemma perceived_run:
  "perceive (recording port) scope params s = (Inr p, t) \<Longrightarrow> tx_log t = tx_log s @ [Perceived scope params (Inr p)]"
  by (auto simp: perceive_def tx_call_def recording_def noting_def tx_log_def split: prod.splits)

lemma batch_seen:
  assumes "answered_cells p = Inr facts" "facts \<noteq> []" "pr_ok p" "pr_complete p" "length facts = length batch"
    and "Perceived ''blockCells'' [(''cells'', json_list (map fst batch) json_position)] (Inr p) \<in> set cs"
    and all: "\<forall>i<length (zip batch facts). cell_matches show_other (snd (fst (zip batch facts ! i))) (snd (zip batch facts ! i)) = Inr True"
    and "cell \<in> set batch"
  shows "seen_in_place show_other cs cell"
proof -
  obtain i where i: "i < length batch" "batch ! i = cell" using assms(8) by (auto simp: in_set_conv_nth)
  have "map_of (pr_data p) ''cells'' = Some (JList facts)"
    using assms(1,2) by (auto simp: answered_cells_def split: option.splits json.splits)
  moreover have "cell_matches show_other (snd cell) (facts ! i) = Inr True"
    using all i assms(5) by (auto dest: spec [of _ i])
  ultimately show ?thesis
    unfolding seen_in_place_def using assms(3-6) i
    by (intro exI [of _ "map fst batch"] exI [of _ p] exI [of _ facts] exI [of _ i]) simp
qed

lemma verify_batches_seen:
  "verify_batches (recording port) reason expected cells matched mismatches s = (Inr r, s') \<Longrightarrow> tr_success r \<Longrightarrow>
     matched + length cells \<le> expected \<Longrightarrow>
     matched + length cells = expected \<and> tr_reason r = reason \<and>
     (\<forall>cell\<in>set cells. seen_in_place (pf_show (port_platform port)) (tx_log s') cell)"
proof (induction "length cells" arbitrary: cells matched mismatches s rule: less_induct)
  case less
  note run = less.prems(1) and good = less.prems(2) and bound = less.prems(3)
  show ?case
  proof (cases "cells = []")
    case True
    then have "r = verified_result reason expected matched mismatches"
      using run by (subst (asm) verify_batches.simps) (simp add: tx_return_def)
    then show ?thesis using good True by (simp add: verified_result_def)
  next
    case False
    let ?batch = "take BATCH_CELLS cells" and ?sh = "pf_show (port_platform port)"
    let ?asked = "[(''cells'', json_list (map fst ?batch) json_position)]"
    from run [unfolded verify_batches.simps [of _ _ _ cells]] False
    obtain s1 s2 p facts s3 where p: "perceive (recording port) ''blockCells'' ?asked s1 = (Inr p, s2)"
      and facts: "tx_lift (answered_cells p) s2 = (Inr facts, s3)"
      and next_run: "(if \<not> pr_ok p \<or> \<not> pr_complete p \<or> length facts \<noteq> length ?batch
            then tx_return (verification_unavailable matched)
            else tx_bind (tx_lift (compare_cells ?sh (zip ?batch facts) matched mismatches))
              (\<lambda>(matched', mismatches').
                verify_batches (recording port) reason expected (drop BATCH_CELLS cells) matched' mismatches')) s3 = (Inr r, s')"
      by (auto simp only: if_False Let_def tx_bind_Inr recording_simps)
    have reply: "answered_cells p = Inr facts" "s3 = s2"
      using facts by (cases "answered_cells p"; simp add: tx_lift_def)+
    have ok: "pr_ok p" "pr_complete p" "length facts = length ?batch"
      using next_run good by (auto simp: tx_return_def verification_unavailable_def split: if_splits)
    from next_run ok obtain m ms s4 where cmp: "tx_lift (compare_cells ?sh (zip ?batch facts) matched mismatches) s3 = (Inr (m, ms), s4)"
      and rest: "verify_batches (recording port) reason expected (drop BATCH_CELLS cells) m ms s4 = (Inr r, s')"
      by (auto simp: tx_bind_Inr)
    have counted: "compare_cells ?sh (zip ?batch facts) matched mismatches = Inr (m, ms)" "s4 = s3"
      using cmp by (cases "compare_cells ?sh (zip ?batch facts) matched mismatches"; simp add: tx_lift_def)+
    have sizes: "length (zip ?batch facts) = length ?batch" "length ?batch + length (drop BATCH_CELLS cells) = length cells"
      using ok(3) by simp_all
    note count = compare_cells_counts [OF counted(1), unfolded sizes(1)]
    have shorter: "length (drop BATCH_CELLS cells) < length cells" using False by (simp add: BATCH_CELLS_def)
    have IH: "m + length (drop BATCH_CELLS cells) = expected \<and> tr_reason r = reason \<and>
        (\<forall>cell\<in>set (drop BATCH_CELLS cells). seen_in_place ?sh (tx_log s') cell)"
      by (rule less.hyps [OF shorter rest good]) (use count bound sizes in linarith)
    then have full: "m = matched + length ?batch" using count bound sizes by linarith
    have "Perceived ''blockCells'' ?asked (Inr p) \<in> set (tx_log s4)"
      using perceived_run [OF p] reply counted by simp
    then have "Perceived ''blockCells'' ?asked (Inr p) \<in> set (tx_log s')"
      using keepsD [OF noted.keeps_verify_batches, of "Perceived ''blockCells'' ?asked (Inr p)" s4 port reason expected "drop BATCH_CELLS cells" m ms] rest
      by (simp add: noted.inv_def)
    moreover have "facts \<noteq> []" using ok(3) False by (cases cells) (auto simp: BATCH_CELLS_def)
    moreover have "\<forall>i<length (zip ?batch facts). cell_matches ?sh (snd (fst (zip ?batch facts ! i))) (snd (zip ?batch facts ! i)) = Inr True"
      using count full unfolding sizes(1) by simp
    ultimately have batch: "seen_in_place ?sh (tx_log s') cell" if "cell \<in> set ?batch" for cell
      using batch_seen [OF reply(1) _ ok] that by blast
    have "set cells = set ?batch \<union> set (drop BATCH_CELLS cells)"
      by (metis append_take_drop_id set_append)
    then show ?thesis using IH batch full sizes by auto
  qed
qed

section \<open>Schematics\<close>

lemma in_volume_mono:
  assumes "within_box low high a" "within_box low high b" "in_volume a b pos"
  shows "within_box low high pos"
proof -
  obtain l1 l2 l3 h1 h2 h3 where lh: "low = (l1, l2, l3)" "high = (h1, h2, h3)" by (metis prod_cases3)
  obtain a1 a2 a3 b1 b2 b3 where ab: "a = (a1, a2, a3)" "b = (b1, b2, b3)" by (metis prod_cases3)
  obtain x y z where p: "pos = (x, y, z)" by (metis prod_cases3)
  show ?thesis
    using assms unfolding lh ab p in_volume_def within_box.simps low_corner.simps high_corner.simps by linarith
qed

lemma bounding_contains: "bounding p ps = (low, high) \<Longrightarrow> q \<in> set (p # ps) \<Longrightarrow> within_box low high q"
proof (induction ps arbitrary: p q low high)
  case Nil
  have "(p, p) = (low, high)" using Nil(1) by (simp only: bounding.simps)
  then have "low = p" "high = p" by blast+
  moreover have "q = p" using Nil(2) by simp
  ultimately show ?case by (cases p) simp
next
  case (Cons p' ps)
  obtain l h where lh: "bounding p' ps = (l, h)" by (rule prod.exhaust)
  obtain x y z where p: "p = (x, y, z)" by (rule prod_cases3)
  obtain l1 l2 l3 h1 h2 h3 where c: "l = (l1, l2, l3)" "h = (h1, h2, h3)" by (metis prod_cases3)
  have corners: "low = low_corner p l" "high = high_corner p h" using Cons.prems(1) lh by simp_all
  show ?case
  proof (cases "q = p")
    case True
    have "within_box l h p'" using Cons.IH [OF lh, of p'] by simp
    moreover obtain x' y' z' where p': "p' = (x', y', z')" by (rule prod_cases3)
    ultimately show ?thesis unfolding corners True p p' c
      by (simp only: low_corner.simps high_corner.simps within_box.simps) linarith
  next
    case False
    then have "within_box l h q" using Cons.IH [OF lh] Cons.prems(2) by simp
    moreover obtain x' y' z' where q: "q = (x', y', z')" by (rule prod_cases3)
    ultimately show ?thesis unfolding corners p q c
      by (simp only: low_corner.simps high_corner.simps within_box.simps) linarith
  qed
qed

lemma admitted_cells:
  assumes "cells_refusal regions cells = None" "cells \<noteq> []"
  shows "regions = [] \<or> (\<exists>rg\<in>set regions. \<forall>cell\<in>set cells. region_contains rg (fst cell))"
proof -
  obtain c cs where cells: "cells = c # cs" using assms(2) by (cases cells) auto
  obtain low high where box: "bounding (fst c) (map fst cs) = (low, high)" by (rule prod.exhaust)
  have "work_volume_denial regions low high = None"
    using assms(1) by (simp add: cells_refusal_def cells box)
  moreover have "in_volume low high (fst cell)" if "cell \<in> set cells" for cell
  proof -
    have q: "within_box low high (fst cell)"
      using bounding_contains [OF box, of "fst cell"] that by (auto simp: cells)
    obtain l1 l2 l3 h1 h2 h3 where lh: "low = (l1, l2, l3)" "high = (h1, h2, h3)" by (metis prod_cases3)
    obtain x y z where "fst cell = (x, y, z)" by (rule prod_cases3)
    then show ?thesis
      using q unfolding lh in_volume_def by (simp only: low_corner.simps high_corner.simps within_box.simps) linarith
  qed
  ultimately show ?thesis unfolding admitted_volume by blast
qed

lemma brief_failure_fails: "\<not> tr_success (brief_failure reason can_retry metrics)"
  by (simp add: brief_failure_def)

lemma await_builder_fails: "await_builder port deadline fuel s = (Inr (Some r), s') \<Longrightarrow> \<not> tr_success r"
proof (induction fuel arbitrary: s)
  case (Suc fuel)
  from Suc.prems show ?case
    unfolding await_builder.simps
    by (auto simp: tx_bind_Inr tx_return_def brief_failure_fails split: if_splits dest: Suc.IH arg_cong [where f = tr_success])
qed (simp add: tx_raise_def)

text \<open>
  C17. When the building of a schematic is reported a success, the file was a schematic, all its cells
  lie in one natural region (when any is declared), and each cell was read in a complete reply that
  showed, in the cell's place, the block and the properties that the schematic wants there.
\<close>

theorem built_schematic_was_seen:
  fixes s :: "'w logged tx_state"
  assumes run: "build_schematic (recording port) load regions path origin timeout_s fuel s = (Inr r, s')"
    and reported: "tr_success r"
  shows "\<exists>sg cells. load path = Inr sg \<and> schematic_cells sg origin = Inr cells \<and> tr_reason r = ''schematic_verified'' \<and>
    (regions = [] \<or> (\<exists>rg\<in>set regions. \<forall>cell\<in>set cells. region_contains rg (fst cell)) \<or> cells = []) \<and>
    (\<forall>cell\<in>set cells. seen_in_place (pf_show (port_platform port)) (tx_log s') cell)"
proof -
  let ?decoded = "case load path of Inl e \<Rightarrow> Inl e | Inr s \<Rightarrow> schematic_cells s origin"
  obtain cells where cells: "?decoded = Inr cells"
  proof (cases ?decoded)
    case (Inl e)
    then show ?thesis using run reported unfolding build_schematic_def by (auto simp: tx_return_def brief_failure_def)
  qed
  then obtain sg where sg: "load path = Inr sg" "schematic_cells sg origin = Inr cells"
    by (cases "load path") simp_all
  have admitted: "cells_refusal regions cells = None"
  proof (cases "cells_refusal regions cells")
    case (Some denied)
    then have "\<not> tr_success denied"
      by (auto simp: cells_refusal_def work_volume_denial_def fail_result_def Let_def split: list.splits prod.splits if_splits)
    then show ?thesis using run reported cells Some unfolding build_schematic_def by (simp add: tx_return_def unless_failed_def)
  qed
  obtain started t1 where started: "(if \<not> tr_success started then tx_return started
      else tx_bind (tx_read (port_monotonic (recording port))) (\<lambda>now.
        tx_bind (await_builder (recording port) (now + timeout_s) fuel) (\<lambda>stopped. unless_failed stopped
        (verify_cells (recording port) cells ''schematic_verified'')))) t1 = (Inr r, s')"
    using run unfolding build_schematic_def cells by (auto simp: unless_failed_def admitted tx_bind_Inr)
  then have "tr_success started" using reported by (auto simp: tx_return_def split: if_splits)
  with started obtain now t2 stopped t3 where waited: "await_builder (recording port) (now + timeout_s) fuel t2 = (Inr stopped, t3)"
    and checked: "unless_failed stopped (verify_cells (recording port) cells ''schematic_verified'') t3 = (Inr r, s')"
    by (auto simp: tx_bind_Inr)
  have "stopped = None"
    using await_builder_fails [of "recording port" "now + timeout_s" fuel t2 _ t3] waited checked reported
    by (cases stopped) (auto simp: unless_failed_def tx_return_def)
  then have "verify_cells (recording port) cells ''schematic_verified'' t3 = (Inr r, s')"
    using checked by (simp add: unless_failed_def)
  from verify_batches_seen [OF this [unfolded verify_cells_def] reported]
  show ?thesis using sg admitted_cells [OF admitted] by auto
qed

section \<open>Applications\<close>

text \<open>Two blocks of stone in a disposable world whose builder is idle.\<close>

definition site_port :: "demo_world body_port" where
  "site_port = demo_port\<lparr>port_perceive := (\<lambda>scope params w.
     if scope = ''baritoneState''
     then (Inr (demo_answer scope [(''disposable_world'', JBool True), (''builder_active'', JBool False)]), w)
     else demo_perceive scope params w)\<rparr>"

definition stone_site :: "demo_world logged tx_state" where
  "stone_site = \<lparr>tx_world = (\<lparr>dw_cells = [((1, 0, 0), ''minecraft:stone'', ''SOLID''), ((2, 0, 0), ''minecraft:stone'', ''SOLID'')],
     dw_pos = (1/2, 0, 1/2), dw_items = [], dw_clock = 0, dw_next_id = 1\<rparr>, []), tx_policy = yard_policy\<rparr>"

definition two_stones :: schematic where
  "two_stones = sponge_v2 [(''minecraft:stone'', 3)] 2 1 1 [3, 3]"

lemma site_cleared:
  "list_ex executes (tx_log (snd (execute_native (recording site_port) [demo_region] (ClearArea (2, 0, 0) (1, 0, 0)) 2 stone_site)))"
  by code_simp

theorem native_work_is_admitted_witness:
  "sent_admitted [demo_region] (ClearArea (2, 0, 0) (1, 0, 0)) 2 []
     (tx_log (snd (execute_native (recording site_port) [demo_region] (ClearArea (2, 0, 0) (1, 0, 0)) 2 stone_site)))"
proof -
  obtain r s' where run: "execute_native (recording site_port) [demo_region] (ClearArea (2, 0, 0) (1, 0, 0)) 2 stone_site = (r, s')"
    by (rule prod.exhaust)
  have start: "tx_log stone_site = []" by (simp add: stone_site_def tx_log_def)
  have "\<not> nothing_sent_since [] (tx_log s')"
    using site_cleared by (simp add: run nothing_sent_since_def)
  then show ?thesis using native_work_is_admitted [OF run] by (simp add: run start)
qed

lemma site_built:
  "(case fst (build_schematic (recording site_port) (\<lambda>_. Inr two_stones) [demo_region] ''house.schem'' (1, 0, 0) 2 3 stone_site) of
      Inr r \<Rightarrow> tr_success r | Inl _ \<Rightarrow> False)"
  by code_simp

theorem built_schematic_was_seen_witness:
  "\<exists>cells. schematic_cells two_stones (1, 0, 0) = Inr cells \<and> length cells = 2 \<and>
     (\<forall>cell\<in>set cells. seen_in_place (\<lambda>_. [])
        (tx_log (snd (build_schematic (recording site_port) (\<lambda>_. Inr two_stones) [demo_region] ''house.schem'' (1, 0, 0) 2 3 stone_site))) cell)"
proof -
  obtain r s' where run:
    "build_schematic (recording site_port) (\<lambda>_. Inr two_stones) [demo_region] ''house.schem'' (1, 0, 0) 2 3 stone_site = (r, s')"
    by (rule prod.exhaust)
  with site_built obtain x where x: "r = Inr x" "tr_success x" by (auto split: sum.splits)
  have two: "schematic_cells two_stones (1, 0, 0) =
      Inr [((1, 0, 0), ''minecraft:stone''), ((2, 0, 0), ''minecraft:stone'')]" by code_simp
  have "pf_show (port_platform site_port) = (\<lambda>_. [])" by (simp add: site_port_def demo_port_def)
  then show ?thesis
    using built_schematic_was_seen [OF run [unfolded x(1)] x(2)] two unfolding run by auto
qed

end
