(* ===== verification/Spec2Isabelle.thy ===== *)
theory Spec2Isabelle
  imports Prelude Py_Values Lifecycle Block_Types Governance Governance_Safety World_Read
    Structure_Risk Messages Progress Progress_Recovery Body_Control Modes Work_Intents
    Work_Queue Action_Reconciliation Harvest Volition Body_Events Py_Order Nav_Goals Navigation Path_Search
    Path_Soundness Planner_Governance Path_Recheck Acquisition Acquisition_Plan Collective
    Store_Records Task_Store Task_Workspace Task_Safety Task_Ledger Task_Budget Intent_Store Durable_Queue
    Execution Body_Port Body_Reads Demo_Body Reach Reach_Soundness Block_Actions Pickup Dry_Mining Block_Safety
    Pickup_Safety Shaft_Down Shaft_Up Shaft_Safety Place_Safety Interaction Container Container_Safety
    Compaction Compaction_Stability Principals Principal_Trust Admission Admission_Safety Dialogue Dialogue_Safety
    Native_Admission Native_Building Native_Schematic Schematic_Cells Native_Safety
begin

text \<open>
  A verification development of the MineBot agent runtime (the Python packages under
  \<open>src/minebot\<close>): the parts that decide what the agent may do to the world, what it remembers of
  its work, and how it finds its way.

  The program. A model-driven \<^emph>\<open>brain\<close> (\<open>brain/\<close>) decides in turns. Work reaches it as intents of a
  queue (\<open>app/work_queue.py\<close>), tasks and their continuation budgets live in SQLite tables
  (\<open>app/runtime_state.py\<close>, \<open>app/tasks.py\<close>), one claim at a time owns the body
  (\<open>app/body_control.py\<close>), and events of the body come in through a pump (\<open>app/body_events.py\<close>).
  A player's command is admitted by the trust of its sender (\<open>app/principals.py\<close>) before it is queued.
  What it does to the world goes through \<^emph>\<open>transactions\<close> of the body (\<open>body/\<close>), which read the
  world, ask the governance policy (\<open>game/governance.py\<close>) about every block they would break or
  place, send one action to the \<open>Body\<close> protocol (\<open>contract/body_iface.py\<close>) and wait for its
  terminal. Paths come from an A* planner under the same policy (\<open>game/navigation.py\<close>), and
  recipes from an acquisition planner (\<open>brain/acquisition.py\<close>). Progress accounting
  (\<open>brain/progress.py\<close>) stops a turn that no longer gets anywhere, and its epochs are replayed
  after a restart (\<open>app/progress_recovery.py\<close>).

  How the code is modelled.

  \<^item> Data classes are records, enumerations and tagged unions are datatypes with the source's
    constructors, dictionaries are association lists in insertion order (\<open>pydict\<close>), JSON values
    are the datatype \<open>json\<close>. Python's integers are \<open>int\<close>. Floats are exact rationals: sums,
    products and comparisons are exact where the code rounds, and distances are compared by their
    squares; values that may be infinite or no number are a \<open>pyfloat\<close>. Strings are lists of
    characters (Latin-1).
  \<^item> Exceptions are values of a sum type or of \<open>option\<close>; every raise and early return is a branch.
  \<^item> Objects that are mutated are passed as state. A method under a lock, and a database
    transaction, is one atomic step; interleavings are sequences of such steps.
  \<^item> What the host computes is an argument: clock readings, fresh ids, the current scope and
    cancellation token, square roots and texts that are only reported, SHA-256 keys. So are the
    parts behind an interface: the transport of a Body (\<open>body_port\<close>), the navigator of
    a transaction (\<open>port_navigate\<close>, \<open>port_follow\<close>), the recipe lookup, the structure-risk assessor where the policy
    takes one (it is also modelled, \<open>Structure_Risk\<close>).

  The theories, and what each group of lemmas shows.

  \<^item> \<open>Prelude\<close>, \<open>Py_Values\<close>, \<open>Py_Order\<close>: generic lemmas, the interfaces that components share as
    locales, Python's conversions (\<open>int()\<close>, \<open>bool()\<close>, \<open>strip\<close>, \<open>str.isdigit\<close>) and its orders.
  \<^item> \<open>Lifecycle\<close> (\<open>brain/lifecycle.py\<close>): the controller's state machine; transitions follow the
    table, refused ones leave the history alone.
  \<^item> \<open>Block_Types\<close>, \<open>Governance\<close> (\<open>contract/governance.py\<close>, \<open>game/governance.py\<close>): the block tables
    and every operation of \<open>GovernancePolicy\<close>. \<open>Governance_Safety\<close>: a decision about a break is
    exactly a declarative specification; protected types and regions are never broken; a permit is
    spent within its budget, comes from one confirmed challenge, and does not outlive a revocation.
  \<^item> \<open>World_Read\<close>, \<open>Body_Reads\<close> (\<open>body/world_read.py\<close>, \<open>body/inventory_read.py\<close>): paged reads; a
    successful read is exact for the requested cells. \<open>Structure_Risk\<close>
    (\<open>body/structure_risk.py\<close>): the assessor over such a read; an allowed break is near no structure.
  \<^item> \<open>Messages\<close>, \<open>Execution\<close>, \<open>Body_Port\<close> (\<open>contract/\<close>): the wire records, the first reason of a
    cancellation wins, an action never gets more time than its caller has; the Body protocol and
    the transactions over it, with a Body that keeps a log (\<open>recording\<close>) and the locale of the
    invariants of that log. Beside the calls that the code makes, a transaction hands its decision
    about a break or a placement, with what went into it, to an observer (\<open>port_judged\<close>). The code
    keeps no such record; the observer changes nothing, and the properties use it to say that what
    was sent was allowed by the decision of this very run, with the policy it was made under.
  \<^item> \<open>Reach\<close>, \<open>Reach_Soundness\<close> (\<open>body/reach.py\<close>): the cells from which a block is in reach; the
    domain is exactly the set of reachable stands, nearest first.
  \<^item> \<open>Block_Actions\<close>, \<open>Dry_Mining\<close>, \<open>Shaft_Down\<close>, \<open>Shaft_Up\<close> (\<open>body/block_work.py\<close>): mining, placing,
    sealing, collecting and digging, as transactions over a Body. \<open>Block_Safety\<close>, \<open>Shaft_Safety\<close>:
    every break that is sent was read, and allowed by the last decision of the run about that block,
    which was the policy's own; an ore is opened only when it is dry, a floor only above ground that
    was found, and every step a shaft reports was observed. \<open>Place_Safety\<close>: a block is placed only
    into a cell that was read as free, beside the body, and where the policy allows it. The regions
    of the policy at the start are still those of the decision when the navigator leaves them alone
    (\<open>navigator_keeps_regions\<close>); nothing else is asked of it.
  \<^item> \<open>Pickup\<close> (\<open>body/pickup.py\<close>): collecting the drops around the body: scanning for items, moving to
    them or to their neighbours, and polling the inventory. \<open>Pickup_Safety\<close>: a gain that is reported,
    by a pickup or by the collecting of a block, is the difference of two complete reads of this run.
  \<^item> \<open>Interaction\<close>, \<open>Container\<close> (\<open>body/interaction_support.py\<close>, \<open>body/container.py\<close>): the paged search
    for blocks, the approach to one, and the transfer of items with a container.
    \<open>Container_Safety\<close>: the plan moves exactly what is asked for, present and fits, to slots with
    room; the transaction
    sends the moves of its plan and nothing else, to a container that was read and may be opened.
  \<^item> \<open>Nav_Goals\<close>, \<open>Navigation\<close>, \<open>Path_Search\<close>, \<open>Path_Recheck\<close> (\<open>game/navigation.py\<close>): goals,
    movement costs with the edits a step needs, the search, the recheck of a path against fresh
    cells. \<open>Path_Soundness\<close>, \<open>Planner_Governance\<close>: a plan is a path of allowed moves with the cost it
    states, the search returns or rejects, planned digs respect the policy, a segment ends in a
    confirmed cell.
  \<^item> \<open>Harvest\<close>, \<open>Acquisition\<close>, \<open>Acquisition_Plan\<close> (\<open>contract/harvest.py\<close>, \<open>brain/acquisition.py\<close>):
    tiers and the planner; its counts are a replay of the steps it recorded, and an error says where
    the planning stopped. That a plan can be carried out is not claimed: a smelt step may find its input
    used up, and a craft step may list a remainder (evaluated in \<open>Acquisition_Plan\<close>).
  \<^item> \<open>Progress\<close>, \<open>Progress_Recovery\<close> (\<open>brain/progress.py\<close>, \<open>app/progress_recovery.py\<close>): counters and
    stops; replaying the record that was stored, with its mark when a stop was pending, reproduces the live
    facts and never brings back a reviewable stop.
  \<^item> \<open>Body_Control\<close>, \<open>Body_Events\<close>, \<open>Modes\<close>, \<open>Action_Reconciliation\<close> (\<open>app/body_control.py\<close>,
    \<open>app/body_events.py\<close>, \<open>brain/modes.py\<close>, \<open>brain/deliberation.py\<close>,
    \<open>game/action_reconciliation.py\<close>): the body changes hands only when its owner lets go and the
    native stop is known, revoked generations stay revoked, redelivered events add nothing, a dead body forces recovery, a lost dispatch is
    classified from what the world shows.
  \<^item> \<open>Work_Intents\<close>, \<open>Work_Queue\<close> (\<open>app/work_queue.py\<close>, \<open>app/recovery_admission.py\<close>): the queue, with
    its event and its leases. \<open>Intent_Store\<close>, \<open>Durable_Queue\<close>: the same queue over the tables of the
    runtime state store, and the refinement of the one by the other.
  \<^item> \<open>Store_Records\<close>, \<open>Task_Store\<close>, \<open>Task_Workspace\<close> (\<open>app/runtime_records.py\<close>,
    \<open>app/runtime_state.py\<close>, \<open>app/tasks.py\<close>): tasks, plans, checkpoints and continuation budgets.
    \<open>Task_Safety\<close>, \<open>Task_Ledger\<close>, \<open>Task_Budget\<close>: one foreground task, settled tasks stay as they are,
    checkpoints are a history, no more epochs than the contract allows.
  \<^item> \<open>Compaction\<close>, \<open>Compaction_Stability\<close> (\<open>app/context_compaction.py\<close>): the view of a conversation
    that is sent to the model; it never splits a tool call from its result, keeps what the player
    said, and grows at its end only, until the next compaction.
  \<^item> \<open>Principals\<close>, \<open>Principal_Trust\<close> (\<open>app/principals.py\<close>): who may command the agent, with the store
    in memory and the durable one; both answer alike, and a promotion holds whatever the
    configuration says later. \<open>Admission\<close>, \<open>Admission_Safety\<close> (\<open>app/session.py\<close>: \<open>submit\<close>): a command that
    its sender may not give is only talked about, an admitted interrupt stops the work at once.
    \<open>Dialogue\<close>, \<open>Dialogue_Safety\<close> (\<open>app/dialogue.py\<close>): a confirmation is for the latest request of
    its principal and for once, a name is mentioned where it stands alone.
  \<^item> \<open>Native_Admission\<close>, \<open>Native_Building\<close>, \<open>Native_Schematic\<close> (\<open>body/native_admission.py\<close>,
    \<open>app/client_body_tools.py\<close>, \<open>app/construction_facts.py\<close>): processes that the client runs by itself,
    and schematics. \<open>Schematic_Cells\<close>: a schematic is read back as it was written.
    \<open>Native_Safety\<close>: one action is sent, for a volume in a natural region and a disposable world, and
    a building that is reported was read cell by cell.
  \<^item> \<open>Volition\<close>, \<open>Collective\<close> (\<open>brain/volition.py\<close>, \<open>brain/collective.py\<close>,
    \<open>app/collective_store.py\<close>): stances, campaigns and their validation; transfers that are resolved
    once and facts of a team with one writer each.
  \<^item> \<open>Demo_Body\<close>: the small Body on which the properties of the transactions are applied.

  Bounds. The A* search runs on the number of expansions it is still allowed
  (\<open>max_expansions\<close> of the request), and the acquisition planner on the depth that is left of
  \<open>max_depth\<close>: the fuel is the code's own bound. The pages of an inventory or container read, the polls of a pickup and those of a wait
  for a fall or for a builder are not bounded by the code; their fuel is an argument, and running out of it is the
  exception \<open>OutOfFuel\<close>, which no property takes for a result. The rounds of a shaft are its own
  step budget.

  Not modelled. Network, RCON and process plumbing (\<open>game/\<close> transports, \<open>real_client_*\<close>,
  \<open>app/real_server_session.py\<close>), the clients of model providers and the assembly of prompts, the
  threads of the runner and of the execution lane, the file and SQLite stores of memory, wiki, skills
  and conversations, user interfaces (\<open>panel\<close>, \<open>camera\<close>, \<open>shell\<close>) and the Java and Scarpet side of
  the server: they are input and output, or have no contract that could be stated apart from the
  service behind them. The remaining transactions of \<open>body/\<close> (furnaces, combat, crafting, surface
  egress, resource collection) are long sequences of the same calls as the ones modelled here.
\<close>

end
